(* ===== verification/Go_Prelude.thy ===== *)
theory Go_Prelude
  imports Main "HOL-Library.Word" "HOL-Library.Char_ord" "HOL-Library.List_Lexorder"
    "HOL-Library.Multiset" "HOL-Library.Code_Target_Numeral"
begin

text \<open>
  Shared vocabulary of the development.

  A Go \<^verbatim>\<open>string\<close> and a Go \<^verbatim>\<open>[]byte\<close> are both finite byte sequences; both are the type
  \<open>bytes\<close> here, a list of 8-bit characters, so the conversions \<^verbatim>\<open>[]byte(s)\<close> and
  \<^verbatim>\<open>string(b)\<close> are the identity.  Go compares strings and byte slices lexicographically by
  byte value, which is the order \<open><\<close> of \<open>Char_ord\<close> and \<open>List_Lexorder\<close>.

  An operation that returns \<^verbatim>\<open>(T, error)\<close> is a function into \<open>'e + 'a\<close>: \<open>Inl\<close> carries the
  error, \<open>Inr\<close> the value.  Loops that stop at the first error are recursions over
  the remaining work.

  The theory also holds the contract of \<^verbatim>\<open>sort.Slice\<close> (a locale: any permutation
  that is sorted by the key), and the big-endian integer encodings of \<^verbatim>\<open>encoding/binary\<close>.
\<close>

type_synonym byte = char
type_synonym bytes = "char list"

named_theorems res_simps \<open>case rules for results of fallible operations\<close>

subsection \<open>Results of fallible operations\<close>

definition res_bind :: "'e + 'a \<Rightarrow> ('a \<Rightarrow> 'e + 'b) \<Rightarrow> 'e + 'b" where
  "res_bind m f = (case m of Inl e \<Rightarrow> Inl e | Inr x \<Rightarrow> f x)"

definition is_ok :: "'e + 'a \<Rightarrow> bool" where
  "is_ok m = (case m of Inl _ \<Rightarrow> False | Inr _ \<Rightarrow> True)"

definition res_map :: "('a \<Rightarrow> 'b) \<Rightarrow> 'e + 'a \<Rightarrow> 'e + 'b" where
  "res_map f m = (case m of Inl e \<Rightarrow> Inl e | Inr x \<Rightarrow> Inr (f x))"

text \<open>A guard: the error when the condition of the source's \<^verbatim>\<open>if\<close> holds.\<close>

definition fail_if :: "bool \<Rightarrow> 'e \<Rightarrow> 'e + unit" where
  "fail_if b e = (if b then Inl e else Inr ())"

lemma res_bind_simps [simp, res_simps]:
  "res_bind (Inl e) f = Inl e"
  "res_bind (Inr x) f = f x"
  by (simp_all add: res_bind_def)

lemma res_bind_Inr_iff [res_simps]:
  "res_bind m f = Inr y \<longleftrightarrow> (\<exists>x. m = Inr x \<and> f x = Inr y)"
  by (auto simp: res_bind_def split: sum.splits)

lemma res_bind_Inl_iff:
  "res_bind m f = Inl e \<longleftrightarrow> m = Inl e \<or> (\<exists>x. m = Inr x \<and> f x = Inl e)"
  by (auto simp: res_bind_def split: sum.splits)

lemma res_bind_cong [fundef_cong]:
  assumes "m = m'" and "\<And>x. m' = Inr x \<Longrightarrow> f x = f' x"
  shows "res_bind m f = res_bind m' f'"
  using assms by (auto simp: res_bind_def split: sum.splits)

lemma res_bind_assoc: "res_bind (res_bind m f) g = res_bind m (\<lambda>x. res_bind (f x) g)"
  by (cases m) simp_all

lemma is_ok_simps [simp]: "\<not> is_ok (Inl e)" "is_ok (Inr x)"
  by (simp_all add: is_ok_def)

lemma is_ok_iff: "is_ok m \<longleftrightarrow> (\<exists>x. m = Inr x)"
  by (cases m) simp_all

lemma res_map_simps [simp, res_simps]: "res_map f (Inl e) = Inl e" "res_map f (Inr x) = Inr (f x)"
  by (simp_all add: res_map_def)

lemma res_map_Inr_iff [res_simps]: "res_map f m = Inr y \<longleftrightarrow> (\<exists>x. m = Inr x \<and> y = f x)"
  by (cases m) auto

lemma fail_if_simps [simp, res_simps]:
  "fail_if True e = Inl e" "fail_if False e = Inr ()"
  by (simp_all add: fail_if_def)

lemma fail_if_Inr_iff [simp, res_simps]: "fail_if b e = Inr u \<longleftrightarrow> \<not> b"
  by (simp add: fail_if_def)

lemma fail_if_Inl_iff [simp]: "fail_if b e = Inl e' \<longleftrightarrow> b \<and> e' = e"
  by (auto simp: fail_if_def)

subsection \<open>Slices\<close>

text \<open>
  \<^verbatim>\<open>raw[a:b]\<close>.  Every use in the models is guarded by the length checks of the source, so
  the out-of-range panic of Go is never reached.
\<close>

definition slice :: "nat \<Rightarrow> nat \<Rightarrow> 'a list \<Rightarrow> 'a list" where
  "slice a b xs = take (b - a) (drop a xs)"

lemma length_slice [simp]: "b \<le> length xs \<Longrightarrow> length (slice a b xs) = b - a"
  by (auto simp: slice_def)

lemma slice_append_mid:
  "a = length xs \<Longrightarrow> b = length xs + length ys \<Longrightarrow> slice a b (xs @ ys @ zs) = ys"
  by (simp add: slice_def)

lemma slice_split: "a \<le> b \<Longrightarrow> b \<le> length xs \<Longrightarrow> drop a xs = slice a b xs @ drop b xs"
  by (simp add: slice_def) (metis append_take_drop_id drop_drop le_add_diff_inverse2)

lemma slice_0: "slice 0 b xs = take b xs"
  by (simp add: slice_def)

subsection \<open>Sorting\<close>

text \<open>
  \<^verbatim>\<open>sort.Slice\<close> promises a permutation of its input that is sorted by the comparison, and
  nothing about the order of equal elements.  Where the keys are distinct that
  determines the result; the lemmas below are all a client may rely on.
\<close>

locale slice_sort =
  fixes key :: "'a \<Rightarrow> 'k::linorder"
    and srt :: "'a list \<Rightarrow> 'a list"
  assumes srt_mset: "mset (srt xs) = mset xs"
    and srt_sorted: "sorted (map key (srt xs))"
begin

lemma srt_set: "set (srt xs) = set xs"
  using srt_mset mset_eq_setD by blast

lemma srt_length: "length (srt xs) = length xs"
  using srt_mset mset_eq_length by blast

lemma srt_keys_mset: "mset (map key (srt xs)) = mset (map key xs)"
  by (simp add: srt_mset)

lemma srt_distinct: "distinct (map key (srt xs)) \<longleftrightarrow> distinct (map key xs)"
  using srt_keys_mset mset_eq_imp_distinct_iff by blast

lemma srt_strict: "distinct (map key xs) \<Longrightarrow> sorted_wrt (<) (map key (srt xs))"
  using srt_distinct srt_sorted strict_sorted_iff by blast

text \<open>With distinct keys the result is the same list for every admissible sort.\<close>

lemma srt_unique:
  assumes "distinct (map key xs)" and "mset ys = mset xs" and "sorted (map key ys)"
  shows "srt xs = ys"
proof -
  have inj: "inj_on key (set xs)" and dx: "distinct xs"
    using assms(1) by (auto simp: distinct_map)
  have sets: "set (srt xs) = set xs" "set ys = set xs"
    using srt_set assms(2) mset_eq_setD by blast+
  have "distinct ys" and "distinct (srt xs)"
    using dx assms(2) srt_mset by (metis mset_eq_imp_distinct_iff)+
  then have "distinct (map key ys)" and "distinct (map key (srt xs))"
    using inj sets by (simp_all add: distinct_map)
  moreover have "set (map key (srt xs)) = set (map key ys)"
    using sets by simp
  ultimately have "map key (srt xs) = map key ys"
    using assms(3) srt_sorted sorted_distinct_set_unique by blast
  then show ?thesis
    using inj sets by (metis inj_on_map_eq_map sup.idem)
qed

lemma srt_perm: "distinct (map key xs) \<Longrightarrow> mset ys = mset xs \<Longrightarrow> srt ys = srt xs"
proof -
  assume d: "distinct (map key xs)" and m: "mset ys = mset xs"
  have "mset (map key ys) = mset (map key xs)" using m by simp
  then have "distinct (map key ys)" using d mset_eq_imp_distinct_iff by blast
  then show "srt ys = srt xs"
    using srt_unique [of ys "srt xs"] srt_mset [of xs] srt_sorted [of xs] m by simp
qed

lemma srt_sorted_id: "sorted_wrt (<) (map key xs) \<Longrightarrow> srt xs = xs"
  by (rule srt_unique) (auto simp: strict_sorted_iff)

end

text \<open>
  The sort used by the models: stable insertion sort by a key, which is what
  \<^verbatim>\<open>sort.SliceStable\<close> computes and one admissible result of \<^verbatim>\<open>sort.Slice\<close>.
\<close>

interpretation sort_key_slice: slice_sort key "sort_key key" for key :: "'a \<Rightarrow> 'k::linorder"
  by unfold_locales auto

lemma sorted_wrt_less_distinct: "sorted_wrt (<) (xs :: 'a::linorder list) \<Longrightarrow> distinct xs"
  by (simp add: strict_sorted_iff)

subsection \<open>Big-endian integers (encoding/binary)\<close>

fun be_encode :: "nat \<Rightarrow> nat \<Rightarrow> bytes" where
  "be_encode 0 n = []"
| "be_encode (Suc k) n = be_encode k (n div 256) @ [char_of (n mod 256)]"

definition be_decode :: "bytes \<Rightarrow> nat" where
  "be_decode bs = foldl (\<lambda>acc c. acc * 256 + of_char c) 0 bs"

lemma length_be_encode [simp]: "length (be_encode k n) = k"
  by (induction k arbitrary: n) simp_all

lemma be_decode_Nil [simp]: "be_decode [] = 0"
  by (simp add: be_decode_def)

lemma be_decode_snoc [simp]: "be_decode (bs @ [c]) = be_decode bs * 256 + of_char c"
  by (simp add: be_decode_def)

lemma be_decode_encode: "be_decode (be_encode k n) = n mod 256 ^ k"
proof (induction k arbitrary: n)
  case (Suc k)
  have "n mod (256 * 256 ^ k) = 256 * (n div 256 mod 256 ^ k) + n mod 256"
    by (rule mod_mult2_eq)
  with Suc show ?case by (simp add: mult.commute)
qed simp

lemma of_char_less_256 [simp]: "(of_char c :: nat) < 256"
  using of_char_mod_256 [where 'a = nat, of c] by (metis mod_less_divisor zero_less_numeral)

lemma be_encode_decode: "be_encode (length bs) (be_decode bs) = bs"
  by (induction bs rule: rev_induct) simp_all

lemma be_decode_less: "be_decode bs < 256 ^ length bs"
proof (induction bs rule: rev_induct)
  case (snoc c bs)
  have "be_decode (bs @ [c]) < (be_decode bs + 1) * 256"
    using of_char_less_256 [of c] by (simp del: of_char_less_256)
  also have "\<dots> \<le> 256 ^ length bs * 256"
    using snoc by (intro mult_le_mono1) simp
  finally show ?case by (simp add: mult.commute)
qed simp

lemma be_encode_inject:
  "n < 256 ^ k \<Longrightarrow> m < 256 ^ k \<Longrightarrow> be_encode k n = be_encode k m \<longleftrightarrow> n = m"
  by (metis be_decode_encode mod_less)

text \<open>The source's integer widths: a Go conversion \<^verbatim>\<open>uint32(n)\<close> is \<open>of_nat n\<close> at the width.\<close>

type_synonym u16 = "16 word"
type_synonym u32 = "32 word"
type_synonym u64 = "64 word"

definition BigEndian_Uint16 :: "bytes \<Rightarrow> u16" where
  "BigEndian_Uint16 bs = of_nat (be_decode bs)"

definition BigEndian_Uint32 :: "bytes \<Rightarrow> u32" where
  "BigEndian_Uint32 bs = of_nat (be_decode bs)"

definition BigEndian_Uint64 :: "bytes \<Rightarrow> u64" where
  "BigEndian_Uint64 bs = of_nat (be_decode bs)"

lemma unat_BigEndian_Uint16: "length bs = 2 \<Longrightarrow> unat (BigEndian_Uint16 bs) = be_decode bs"
  using be_decode_less [of bs] by (simp add: BigEndian_Uint16_def unat_of_nat take_bit_eq_mod)

lemma unat_BigEndian_Uint32: "length bs = 4 \<Longrightarrow> unat (BigEndian_Uint32 bs) = be_decode bs"
  using be_decode_less [of bs] by (simp add: BigEndian_Uint32_def unat_of_nat take_bit_eq_mod)

lemma unat_BigEndian_Uint64: "length bs = 8 \<Longrightarrow> unat (BigEndian_Uint64 bs) = be_decode bs"
  using be_decode_less [of bs] by (simp add: BigEndian_Uint64_def unat_of_nat take_bit_eq_mod)

end
