(* ===== verification/Go_Text.thy ===== *)
theory Go_Text
  imports Go_Prelude
begin

text \<open>
  The pieces of Go's standard library that the semantic core applies to strings:
  \<^verbatim>\<open>unicode/utf8\<close> validity, \<^verbatim>\<open>encoding/hex\<close>, and \<^verbatim>\<open>strings.ToLower\<close>, \<^verbatim>\<open>strings.TrimSpace\<close> and
  the prefix and suffix functions of \<^verbatim>\<open>strings\<close>.  The round trip of the hexadecimal text and the bounds on its
  length carry the digest and token properties of the later theories.
\<close>

subsection \<open>utf8.ValidString\<close>

definition in_range :: "nat \<Rightarrow> nat \<Rightarrow> byte \<Rightarrow> bool" where
  "in_range lo hi c \<longleftrightarrow> lo \<le> of_char c \<and> of_char c \<le> hi"

definition cont_byte :: "byte \<Rightarrow> bool" where
  "cont_byte c \<longleftrightarrow> in_range 128 191 c"

text \<open>
  Go accepts exactly the well-formed UTF-8 sequences: no overlong forms, no surrogates,
  nothing above U+10FFFF.  The ranges of the second byte are the accept ranges of
  \<^verbatim>\<open>unicode/utf8\<close>.
\<close>

fun ValidString :: "bytes \<Rightarrow> bool" where
  "ValidString [] = True"
| "ValidString (c # cs) =
     (if in_range 0 127 c then ValidString cs
      else if in_range 194 223 c then
        (case cs of c1 # r \<Rightarrow> cont_byte c1 \<and> ValidString r | _ \<Rightarrow> False)
      else if in_range 224 239 c then
        (case cs of c1 # c2 # r \<Rightarrow>
           in_range (if of_char c = (224::nat) then 160 else 128)
                    (if of_char c = (237::nat) then 159 else 191) c1
           \<and> cont_byte c2 \<and> ValidString r
         | _ \<Rightarrow> False)
      else if in_range 240 244 c then
        (case cs of c1 # c2 # c3 # r \<Rightarrow>
           in_range (if of_char c = (240::nat) then 144 else 128)
                    (if of_char c = (244::nat) then 143 else 191) c1
           \<and> cont_byte c2 \<and> cont_byte c3 \<and> ValidString r
         | _ \<Rightarrow> False)
      else False)"

lemma ValidString_ascii: "list_all (in_range 0 127) s \<Longrightarrow> ValidString s"
  by (induction s) simp_all

subsection \<open>encoding/hex\<close>

definition hex_digit :: "nat \<Rightarrow> byte" where
  "hex_digit n = (''0123456789abcdef'' ! n)"

fun hex_EncodeToString :: "bytes \<Rightarrow> bytes" where
  "hex_EncodeToString [] = []"
| "hex_EncodeToString (b # bs) =
     hex_digit (of_char b div 16) # hex_digit (of_char b mod 16) # hex_EncodeToString bs"

definition fromHexChar :: "byte \<Rightarrow> nat option" where
  "fromHexChar c =
     (if in_range 48 57 c then Some (of_char c - 48)
      else if in_range 97 102 c then Some (of_char c - 97 + 10)
      else if in_range 65 70 c then Some (of_char c - 65 + 10)
      else None)"

fun hex_DecodeString :: "bytes \<Rightarrow> bytes option" where
  "hex_DecodeString [] = Some []"
| "hex_DecodeString [c] = None"
| "hex_DecodeString (a # b # r) =
     (case fromHexChar a of None \<Rightarrow> None
      | Some x \<Rightarrow> (case fromHexChar b of None \<Rightarrow> None
         | Some y \<Rightarrow> (case hex_DecodeString r of None \<Rightarrow> None
            | Some bs \<Rightarrow> Some (char_of (16 * x + y) # bs))))"

lemma length_hex [simp]: "length (hex_EncodeToString bs) = 2 * length bs"
  by (induction bs) simp_all

lemma upt_16: "[0..<16] = [0, 1, 2, 3, 4, 5, 6, 7, 8, 9, 10, 11, 12, 13, 14, 15]"
  by (simp add: upt_rec)

lemma hex_digit_all: "list_all P [0..<16] \<Longrightarrow> n < 16 \<Longrightarrow> P n"
  by (simp add: list_all_iff)

lemma fromHexChar_digit: "n < 16 \<Longrightarrow> fromHexChar (hex_digit n) = Some n"
  by (rule hex_digit_all [of "\<lambda>n. fromHexChar (hex_digit n) = Some n"])
    (simp_all add: upt_16 hex_digit_def fromHexChar_def in_range_def)

lemma hex_decode_encode [simp]: "hex_DecodeString (hex_EncodeToString bs) = Some bs"
proof (induction bs)
  case (Cons b bs)
  have "(of_char b :: nat) div 16 < 16" "(of_char b :: nat) mod 16 < 16"
    using of_char_less_256 [of b] by (simp_all add: div_less_iff_less_mult del: of_char_less_256)
  then have "fromHexChar (hex_digit (of_char b div 16)) = Some (of_char b div 16)"
    and "fromHexChar (hex_digit (of_char b mod 16)) = Some (of_char b mod 16)"
    by (simp_all only: fromHexChar_digit)
  with Cons show ?case by simp
qed simp

lemma hex_decode_length: "hex_DecodeString s = Some bs \<Longrightarrow> length s = 2 * length bs"
  by (induction s arbitrary: bs rule: hex_DecodeString.induct) (auto split: option.splits)

lemma hex_encode_inject [simp]: "hex_EncodeToString a = hex_EncodeToString b \<longleftrightarrow> a = b"
  by (metis hex_decode_encode option.inject)

lemma hex_digit_ascii: "n < 16 \<Longrightarrow> in_range 0 127 (hex_digit n)"
  by (rule hex_digit_all [of "\<lambda>n. in_range 0 127 (hex_digit n)"])
    (simp_all add: upt_16 hex_digit_def in_range_def)

subsection \<open>strings\<close>

text \<open>
  ASCII case folding.  \<^verbatim>\<open>strings.ToLower\<close> also folds letters beyond ASCII; the code
  applies it to text that must then decode as hexadecimal, where such letters are
  rejected with the same error.
\<close>

definition lower_byte :: "byte \<Rightarrow> byte" where
  "lower_byte c = (if in_range 65 90 c then char_of (of_char c + 32 :: nat) else c)"

definition ToLower :: "bytes \<Rightarrow> bytes" where
  "ToLower s = map lower_byte s"

lemma lower_hex_digit: "n < 16 \<Longrightarrow> lower_byte (hex_digit n) = hex_digit n"
  by (rule hex_digit_all [of "\<lambda>n. lower_byte (hex_digit n) = hex_digit n"])
    (simp_all add: upt_16 hex_digit_def lower_byte_def in_range_def)

lemma ToLower_hex [simp]: "ToLower (hex_EncodeToString bs) = hex_EncodeToString bs"
proof (induction bs)
  case (Cons b bs)
  have "(of_char b :: nat) div 16 < 16" "(of_char b :: nat) mod 16 < 16"
    using of_char_less_256 [of b] by (simp_all add: div_less_iff_less_mult del: of_char_less_256)
  with Cons show ?case by (simp add: ToLower_def lower_hex_digit)
qed (simp add: ToLower_def)

lemma of_char_hex_digit:
  "n < 16 \<Longrightarrow> of_char (hex_digit n) = (if n < 10 then 48 + n else 87 + n)"
  by (rule hex_digit_all [of "\<lambda>n. of_char (hex_digit n) = (if n < 10 then 48 + n else 87 + n)"])
    (simp_all add: upt_16 hex_digit_def)

lemma fromHexChar_lower:
  assumes "fromHexChar c = Some n" and "lower_byte c = c"
  shows "n < 16 \<and> hex_digit n = c"
proof -
  have up: "\<not> in_range 65 90 c"
  proof
    assume r: "in_range 65 90 c"
    then have "of_char (lower_byte c) = (of_char c + 32 :: nat)"
      by (simp add: lower_byte_def in_range_def)
    with assms(2) show False by simp
  qed
  from assms(1) up have "(\<exists>k<10. n = k \<and> of_char c = 48 + k) \<or> (\<exists>k<6. n = 10 + k \<and> of_char c = 97 + k)"
    by (auto simp: fromHexChar_def in_range_def split: if_splits) presburger+
  then have n: "n < 16" and "(of_char c :: nat) = (if n < 10 then 48 + n else 87 + n)"
    by auto
  then have "of_char (hex_digit n) = (of_char c :: nat)"
    using of_char_hex_digit [OF n] by (simp only:)
  then show ?thesis using n by (metis char_of_char)
qed

lemma hex_encode_decode:
  "hex_DecodeString s = Some bs \<Longrightarrow> ToLower s = s \<Longrightarrow> hex_EncodeToString bs = s"
proof (induction s arbitrary: bs rule: hex_DecodeString.induct)
  case (3 a b r)
  then obtain x y cs where xy: "fromHexChar a = Some x" "fromHexChar b = Some y"
      "hex_DecodeString r = Some cs" "bs = char_of (16 * x + y) # cs"
    by (auto split: option.splits)
  from 3(3) have low: "lower_byte a = a" "lower_byte b = b" "ToLower r = r"
    by (simp_all add: ToLower_def)
  have "x < 16 \<and> hex_digit x = a" "y < 16 \<and> hex_digit y = b"
    using fromHexChar_lower xy(1,2) low(1,2) by blast+
  moreover have "hex_EncodeToString cs = r" using 3(1) [OF xy(1,2) xy(3) low(3)] .
  ultimately show ?case using xy(4) by simp
qed (simp_all add: ToLower_def)

definition HasPrefix :: "bytes \<Rightarrow> bytes \<Rightarrow> bool" where
  "HasPrefix s p \<longleftrightarrow> take (length p) s = p"

lemma HasPrefix_append [simp]: "HasPrefix (p @ s) p"
  by (simp add: HasPrefix_def)

lemma HasPrefix_split: "HasPrefix s p \<Longrightarrow> s = p @ drop (length p) s"
  by (metis HasPrefix_def append_take_drop_id)

definition HasSuffix :: "bytes \<Rightarrow> bytes \<Rightarrow> bool" where
  "HasSuffix s p \<longleftrightarrow> length p \<le> length s \<and> drop (length s - length p) s = p"

definition TrimPrefix :: "bytes \<Rightarrow> bytes \<Rightarrow> bytes" where
  "TrimPrefix s p = (if HasPrefix s p then drop (length p) s else s)"

definition TrimSuffix :: "bytes \<Rightarrow> bytes \<Rightarrow> bytes" where
  "TrimSuffix s p = (if HasSuffix s p then take (length s - length p) s else s)"

lemma HasSuffix_append [simp]: "HasSuffix (s @ p) p"
  by (simp add: HasSuffix_def)

lemma HasSuffix_split: "HasSuffix s p \<Longrightarrow> s = take (length s - length p) s @ p"
  by (metis HasSuffix_def append_take_drop_id)

lemma TrimPrefix_append [simp]: "TrimPrefix (p @ s) p = s"
  by (simp add: TrimPrefix_def)

lemma TrimSuffix_append [simp]: "TrimSuffix (s @ p) p = s"
  by (simp add: TrimSuffix_def)

text \<open>
  \<^verbatim>\<open>strings.TrimSpace\<close> on the ASCII white space (tab, line feed, vertical tab, form feed,
  carriage return, space).
\<close>

definition is_space :: "byte \<Rightarrow> bool" where
  "is_space c \<longleftrightarrow> in_range 9 13 c \<or> of_char c = (32::nat)"

definition TrimSpace :: "bytes \<Rightarrow> bytes" where
  "TrimSpace s = rev (dropWhile is_space (rev (dropWhile is_space s)))"

lemma TrimSpace_Nil_iff: "TrimSpace s = [] \<longleftrightarrow> list_all is_space s"
proof -
  have "TrimSpace s = [] \<longleftrightarrow> (\<forall>c \<in> set (dropWhile is_space s). is_space c)"
    by (simp add: TrimSpace_def dropWhile_eq_Nil_conv)
  also have "\<dots> \<longleftrightarrow> list_all is_space s"
    by (induction s) auto
  finally show ?thesis .
qed

end
