(* ===== verification/Validation.thy ===== *)
theory Validation
  imports Go_Text
begin

text \<open>
  \<^verbatim>\<open>backend/libs/runtime-go/validation.go\<close> and the limits of \<^verbatim>\<open>doc.go\<close>: the stable error
  codes, the error value with its field path, the identifier and UTF-8 checks, and the
  two operations that rewrite an error on its way out of a nested document.
\<close>

subsection \<open>Limits (doc.go)\<close>

definition SchemaVersion :: bytes where
  "SchemaVersion = ''sqlrs.runtime.v2''"

definition MaxIdentifierBytes :: nat where
  "MaxIdentifierBytes = 128"

definition MaxResolvedValueBytes :: nat where
  "MaxResolvedValueBytes = 4096"

definition MaxDeclarationValueBytes :: nat where
  "MaxDeclarationValueBytes = 262144"

definition MaxResolvedFields :: nat where
  "MaxResolvedFields = 256"

definition MaxTransforms :: nat where
  "MaxTransforms = 10000"

definition MaxJSONBytes :: nat where
  "MaxJSONBytes = 4194304"

definition MaxArguments :: nat where
  "MaxArguments = 256"

definition MaxAttributes :: nat where
  "MaxAttributes = 256"

lemmas limit_defs = MaxIdentifierBytes_def MaxResolvedValueBytes_def MaxDeclarationValueBytes_def
  MaxResolvedFields_def MaxTransforms_def MaxJSONBytes_def MaxArguments_def MaxAttributes_def

subsection \<open>Errors\<close>

datatype ValidationCode =
    CodeInvalidVersion | CodeInvalidShape | CodeInvalidValue | CodeDuplicateField
  | CodeTooLarge | CodeIntegrityMismatch
  | CodeDocumentTooLarge | CodeSyntaxInvalid | CodeShapeInvalid | CodeValueInvalid
  | CodeUnknownMember | CodeDuplicateMember | CodeRevisionMismatch | CodeLimitExceeded
  | CodeNonCanonical | CodeDescriptorInvalid | CodeCommitmentMismatch | CodeDigestMismatch
  | CodeLineageMismatch | CodeEndpointMismatch | CodeAuthorizationDenied | CodePathInvalid
  | CodeFileMissing | CodeFileUnlisted | CodeSizeMismatch | CodeFileDigestMismatch
  | CodeManifestDigestMismatch | CodeBundleMetadataMismatch | CodeVectorInvalid
  | CodeRelationMismatch

record ValidationError =
  Code :: ValidationCode
  Path :: bytes

type_synonym 'a result = "ValidationError + 'a"

definition invalid :: "ValidationCode \<Rightarrow> bytes \<Rightarrow> ValidationError" where
  "invalid code path = \<lparr>Code = code, Path = (if path = [] then ''$'' else path)\<rparr>"

definition canonicalInvalid :: "ValidationCode \<Rightarrow> bytes \<Rightarrow> ValidationError" where
  "canonicalInvalid code path = \<lparr>Code = code, Path = path\<rparr>"

text \<open>
  The legacy codes are translated into the canonical-v1 taxonomy; every other code,
  and the path, is kept.  Every error of the modelled code is a \<^verbatim>\<open>ValidationError\<close>, so the
  \<^verbatim>\<open>errors.As\<close> guard of the source always succeeds.
\<close>

definition canonicalizeValidationError :: "ValidationError \<Rightarrow> ValidationError" where
  "canonicalizeValidationError e =
     canonicalInvalid
       (case Code e of
          CodeInvalidShape \<Rightarrow> CodeShapeInvalid
        | CodeInvalidValue \<Rightarrow> CodeValueInvalid
        | CodeInvalidVersion \<Rightarrow> CodeValueInvalid
        | CodeDuplicateField \<Rightarrow> CodeNonCanonical
        | CodeTooLarge \<Rightarrow> CodeLimitExceeded
        | c \<Rightarrow> c)
       (Path e)"

definition prefixError :: "ValidationError \<Rightarrow> bytes \<Rightarrow> ValidationError" where
  "prefixError e prefix =
     (let path = Path e in
      \<lparr>Code = Code e,
       Path = (if path = ''$'' \<or> path = [] then prefix
               else if prefix \<noteq> [] then prefix @ ''.'' @ path
               else path)\<rparr>)"

definition res_prefix :: "bytes \<Rightarrow> 'a result \<Rightarrow> 'a result" where
  "res_prefix prefix m = (case m of Inl e \<Rightarrow> Inl (prefixError e prefix) | Inr x \<Rightarrow> Inr x)"

definition res_canonicalize :: "'a result \<Rightarrow> 'a result" where
  "res_canonicalize m = (case m of Inl e \<Rightarrow> Inl (canonicalizeValidationError e) | Inr x \<Rightarrow> Inr x)"

lemma res_prefix_simps [simp]:
  "res_prefix p (Inl e) = Inl (prefixError e p)" "res_prefix p (Inr x) = Inr x"
  by (simp_all add: res_prefix_def)

lemma res_prefix_Inr_iff [simp, res_simps]: "res_prefix p m = Inr x \<longleftrightarrow> m = Inr x"
  by (cases m) simp_all

lemma res_canonicalize_simps [simp]:
  "res_canonicalize (Inl e) = Inl (canonicalizeValidationError e)" "res_canonicalize (Inr x) = Inr x"
  by (simp_all add: res_canonicalize_def)

lemma res_canonicalize_Inr_iff [simp, res_simps]: "res_canonicalize m = Inr x \<longleftrightarrow> m = Inr x"
  by (cases m) simp_all

lemma Code_prefixError [simp]: "Code (prefixError e p) = Code e"
  by (simp add: prefixError_def Let_def)

lemma Code_invalid [simp]: "Code (invalid c p) = c" "Code (canonicalInvalid c p) = c"
  by (simp_all add: invalid_def canonicalInvalid_def)

lemma prefixError_prefix: "p \<noteq> [] \<Longrightarrow> take (length p) (Path (prefixError e p)) = p"
  by (simp add: prefixError_def Let_def)

subsection \<open>Identifiers and text\<close>

text \<open>
  The regular expression \<^verbatim>\<open>^[a-z][a-z0-9._-]{0,127}$\<close>, written as the automaton it denotes.
\<close>

definition is_lower_alpha :: "byte \<Rightarrow> bool" where
  "is_lower_alpha c \<longleftrightarrow> in_range 97 122 c"

definition is_ident_byte :: "byte \<Rightarrow> bool" where
  "is_ident_byte c \<longleftrightarrow> in_range 97 122 c \<or> in_range 48 57 c
     \<or> of_char c = (46::nat) \<or> of_char c = (95::nat) \<or> of_char c = (45::nat)"

definition identifierPattern :: "bytes \<Rightarrow> bool" where
  "identifierPattern s \<longleftrightarrow>
     (case s of [] \<Rightarrow> False
      | c # cs \<Rightarrow> is_lower_alpha c \<and> list_all is_ident_byte cs \<and> length cs \<le> 127)"

definition validateIdentifier :: "bytes \<Rightarrow> bytes \<Rightarrow> unit result" where
  "validateIdentifier value path =
     (if MaxIdentifierBytes < length value then Inl (invalid CodeTooLarge path)
      else if \<not> identifierPattern value then Inl (invalid CodeInvalidValue path)
      else Inr ())"

definition validateUTF8 :: "bytes \<Rightarrow> bytes \<Rightarrow> bool \<Rightarrow> nat \<Rightarrow> unit result" where
  "validateUTF8 value path allowEmpty maximum =
     (if \<not> ValidString value \<or> (\<not> allowEmpty \<and> value = []) then Inl (invalid CodeInvalidValue path)
      else if maximum < length value then Inl (invalid CodeTooLarge path)
      else Inr ())"

lemma validateIdentifier_Inr [simp, res_simps]:
  "validateIdentifier v p = Inr u \<longleftrightarrow> identifierPattern v"
  by (auto simp: validateIdentifier_def identifierPattern_def limit_defs split: list.splits)

lemma validateUTF8_Inr [simp, res_simps]:
  "validateUTF8 v p ae m = Inr u \<longleftrightarrow> ValidString v \<and> (ae \<or> v \<noteq> []) \<and> length v \<le> m"
  by (auto simp: validateUTF8_def)

lemma identifier_ascii: "identifierPattern s \<Longrightarrow> list_all (in_range 0 127) s"
  by (auto simp: identifierPattern_def is_lower_alpha_def is_ident_byte_def in_range_def
      list_all_iff split: list.splits)

lemma identifier_valid_utf8: "identifierPattern s \<Longrightarrow> ValidString s"
  by (blast intro: ValidString_ascii identifier_ascii)

lemma identifier_length: "identifierPattern s \<Longrightarrow> 0 < length s \<and> length s \<le> MaxIdentifierBytes"
  by (auto simp: identifierPattern_def limit_defs split: list.splits)

subsection \<open>Decimal indices in paths (identity.go: itoa)\<close>

text \<open>
  The loop fills a buffer from its end while the value is positive; \<open>itoa_loop\<close> is the
  loop with the filled suffix of the buffer as its accumulator.
\<close>

fun itoa_loop :: "nat \<Rightarrow> bytes \<Rightarrow> bytes" where
  "itoa_loop value buffer =
     (if 0 < value then itoa_loop (value div 10) (char_of (48 + value mod 10) # buffer) else buffer)"

declare itoa_loop.simps [simp del]

definition itoa :: "nat \<Rightarrow> bytes" where
  "itoa value = (if value = 0 then ''0'' else itoa_loop value [])"

definition decimal_value :: "bytes \<Rightarrow> nat" where
  "decimal_value s = foldl (\<lambda>a c. 10 * a + (of_char c - 48)) 0 s"

lemma itoa_loop_value:
  "foldl (\<lambda>a c. 10 * a + (of_char c - 48)) 0 (itoa_loop v buf)
     = foldl (\<lambda>a c. 10 * a + (of_char c - 48)) v buf"
proof (induction v buf rule: itoa_loop.induct)
  case (1 v buf)
  show ?case
  proof (cases "0 < v")
    case True
    have "(48 + v mod 10) mod 256 = 48 + v mod 10" by (rule mod_less) (simp add: trans_less_add1)
    with 1 True show ?thesis
      by (simp add: itoa_loop.simps [of v buf])
  next
    case False
    then show ?thesis by (simp add: itoa_loop.simps [of 0 buf])
  qed
qed

lemma decimal_value_itoa: "decimal_value (itoa n) = n"
  using itoa_loop_value [of n "[]"] by (auto simp: decimal_value_def itoa_def)

lemma itoa_inject [simp]: "itoa m = itoa n \<longleftrightarrow> m = n"
  by (metis decimal_value_itoa)

definition indexed :: "bytes \<Rightarrow> nat \<Rightarrow> bytes" where
  "indexed name i = name @ ''['' @ itoa i @ '']''"

end
