(* ===== verification/Canonical_Encoding.thy ===== *)
theory Canonical_Encoding
  imports Validation Sha256
begin

text \<open>
  \<^verbatim>\<open>backend/libs/runtime-go/canonical.go\<close>: the length-framed byte encodings every identity of
  the runtime is hashed from, and the textual form of a digest.  The lemmas show
  that each encoding determines what was encoded, also when more bytes follow, and that
  \<^verbatim>\<open>parseDigest\<close> accepts exactly the texts \<^verbatim>\<open>hashBytes\<close> prints.
\<close>

definition encodeUint16 :: "u16 \<Rightarrow> bytes" where
  "encodeUint16 value = be_encode 2 (unat value)"

definition encodeUint32 :: "u32 \<Rightarrow> bytes" where
  "encodeUint32 value = be_encode 4 (unat value)"

definition encodeUint64 :: "u64 \<Rightarrow> bytes" where
  "encodeUint64 value = be_encode 8 (unat value)"

definition encodeBytes :: "bytes \<Rightarrow> bytes" where
  "encodeBytes value = encodeUint64 (of_nat (length value)) @ value"

definition encodeString :: "bytes \<Rightarrow> bytes" where
  "encodeString value = encodeBytes value"

record canonicalField =
  cf_tag :: u16
  cf_payload :: bytes

definition encodeTagged :: "canonicalField \<Rightarrow> bytes" where
  "encodeTagged field = encodeUint16 (cf_tag field) @ encodeBytes (cf_payload field)"

definition encodeRecord :: "bytes \<Rightarrow> canonicalField list \<Rightarrow> bytes" where
  "encodeRecord domain flds =
     (let ordered = sort_key cf_tag flds in
      encodeString domain @ encodeUint32 (of_nat (length ordered)) @ concat (map encodeTagged ordered))"

definition hashBytes :: "bytes \<Rightarrow> bytes" where
  "hashBytes value = ''sha256:'' @ hex_EncodeToString (Sum256 value)"

definition hashRecord :: "bytes \<Rightarrow> canonicalField list \<Rightarrow> bytes" where
  "hashRecord domain flds = hashBytes (encodeRecord domain flds)"

definition parseDigest :: "bytes \<Rightarrow> bytes \<Rightarrow> bytes result" where
  "parseDigest value path =
     (if length value \<noteq> length ''sha256:'' + sha256_Size * 2 \<or> take 7 value \<noteq> ''sha256:''
      then Inl (invalid CodeInvalidValue path)
      else case hex_DecodeString (drop 7 value) of
        None \<Rightarrow> Inl (invalid CodeInvalidValue path)
      | Some raw \<Rightarrow>
          if hex_EncodeToString raw \<noteq> drop 7 value \<or> length raw \<noteq> sha256_Size
          then Inl (invalid CodeInvalidValue path)
          else Inr raw)"

subsection \<open>Frames\<close>

lemma length_encodeUint [simp]:
  "length (encodeUint16 a) = 2" "length (encodeUint32 b) = 4" "length (encodeUint64 c) = 8"
  by (simp_all add: encodeUint16_def encodeUint32_def encodeUint64_def)

lemma length_encodeBytes [simp]: "length (encodeBytes v) = 8 + length v"
  by (simp add: encodeBytes_def)

lemma length_encodeString [simp]: "length (encodeString v) = 8 + length v"
  by (simp add: encodeString_def)

text \<open>A length or count that its frame can represent; Go lengths always do.\<close>

definition fits64 :: "bytes \<Rightarrow> bool" where
  "fits64 v \<longleftrightarrow> length v < 2 ^ 64"

lemma fits64_le: "length v \<le> n \<Longrightarrow> n < 2 ^ 64 \<Longrightarrow> fits64 v"
  by (simp add: fits64_def)

lemma unat_of_nat_64: "n < 2 ^ 64 \<Longrightarrow> unat (of_nat n :: u64) = n"
  by (simp add: unat_of_nat take_bit_eq_mod)

lemma unat_of_nat_32: "n < 2 ^ 32 \<Longrightarrow> unat (of_nat n :: u32) = n"
  by (simp add: unat_of_nat take_bit_eq_mod)

lemma be_decode_encodeUint:
  "be_decode (encodeUint16 a) = unat a" "be_decode (encodeUint32 b) = unat b"
  "be_decode (encodeUint64 c) = unat c"
  using unsigned_less [of a, where 'a = nat] unsigned_less [of b, where 'a = nat]
    unsigned_less [of c, where 'a = nat]
  by (simp_all add: encodeUint16_def encodeUint32_def encodeUint64_def be_decode_encode)

lemma BigEndian_encodeUint [simp]:
  "BigEndian_Uint16 (encodeUint16 a) = a" "BigEndian_Uint32 (encodeUint32 b) = b"
  "BigEndian_Uint64 (encodeUint64 c) = c"
  by (simp_all add: BigEndian_Uint16_def BigEndian_Uint32_def BigEndian_Uint64_def
      be_decode_encodeUint)

lemma encodeUint_inject [simp]:
  "encodeUint16 a = encodeUint16 a' \<longleftrightarrow> a = a'" "encodeUint32 b = encodeUint32 b' \<longleftrightarrow> b = b'"
  "encodeUint64 c = encodeUint64 c' \<longleftrightarrow> c = c'"
  by (metis BigEndian_encodeUint)+

lemma encodeUint_BigEndian:
  "length x = 2 \<Longrightarrow> encodeUint16 (BigEndian_Uint16 x) = x"
  "length y = 4 \<Longrightarrow> encodeUint32 (BigEndian_Uint32 y) = y"
  "length z = 8 \<Longrightarrow> encodeUint64 (BigEndian_Uint64 z) = z"
  using be_encode_decode [of x] be_encode_decode [of y] be_encode_decode [of z]
  by (simp_all add: encodeUint16_def encodeUint32_def encodeUint64_def
      unat_BigEndian_Uint16 unat_BigEndian_Uint32 unat_BigEndian_Uint64)

lemma encodeBytes_prefix:
  assumes "encodeBytes a @ r = encodeBytes b @ s" and "fits64 a" and "fits64 b"
  shows "a = b \<and> r = s"
proof -
  have "encodeUint64 (of_nat (length a)) = encodeUint64 (of_nat (length b)) \<and> a @ r = b @ s"
    using assms(1) by (simp add: encodeBytes_def append_eq_append_conv)
  then have len: "(of_nat (length a) :: u64) = of_nat (length b)" and rest: "a @ r = b @ s"
    by simp_all
  have "unat (of_nat (length a) :: u64) = unat (of_nat (length b) :: u64)"
    using len by (rule arg_cong)
  then have "length a = length b"
    using assms(2,3) by (simp add: fits64_def unat_of_nat_64)
  with rest show ?thesis by simp
qed

lemma encodeBytes_inject: "encodeBytes a = encodeBytes b \<Longrightarrow> fits64 a \<Longrightarrow> fits64 b \<Longrightarrow> a = b"
  using encodeBytes_prefix [of a "[]" b "[]"] by simp

lemma encodeString_prefix:
  "encodeString a @ r = encodeString b @ s \<Longrightarrow> fits64 a \<Longrightarrow> fits64 b \<Longrightarrow> a = b \<and> r = s"
  unfolding encodeString_def by (rule encodeBytes_prefix)

lemma encodeTagged_prefix:
  assumes "encodeTagged f @ r = encodeTagged g @ s"
    and "fits64 (cf_payload f)" and "fits64 (cf_payload g)"
  shows "f = g \<and> r = s"
proof -
  have t: "cf_tag f = cf_tag g"
    and p: "encodeBytes (cf_payload f) @ r = encodeBytes (cf_payload g) @ s"
    using assms(1) by (simp_all add: encodeTagged_def append_eq_append_conv)
  from encodeBytes_prefix [OF p assms(2,3)] t show ?thesis
    by (simp add: canonicalField.equality)
qed

lemma encodeTagged_list_prefix:
  "length fs = length gs \<Longrightarrow> \<forall>f \<in> set fs \<union> set gs. fits64 (cf_payload f) \<Longrightarrow>
     concat (map encodeTagged fs) @ r = concat (map encodeTagged gs) @ s \<Longrightarrow> fs = gs \<and> r = s"
proof (induction fs gs rule: list_induct2)
  case (Cons f fs g gs)
  from Cons.prems have "f = g \<and> concat (map encodeTagged fs) @ r = concat (map encodeTagged gs) @ s"
    by (intro encodeTagged_prefix) auto
  with Cons show ?case by auto
qed simp

text \<open>A record encoding determines its domain and its fields in tag order.\<close>

lemma encodeRecord_inject:
  assumes eq: "encodeRecord d fs = encodeRecord e gs"
    and "fits64 d" and "fits64 e" and "length fs < 2 ^ 32" and "length gs < 2 ^ 32"
    and fits: "\<forall>f \<in> set fs \<union> set gs. fits64 (cf_payload f)"
  shows "d = e \<and> sort_key cf_tag fs = sort_key cf_tag gs"
proof -
  let ?body = "\<lambda>fs. encodeUint32 (of_nat (length fs)) @ concat (map encodeTagged (sort_key cf_tag fs))"
  have "encodeString d @ ?body fs = encodeString e @ ?body gs"
    using eq by (simp add: encodeRecord_def Let_def)
  from encodeString_prefix [OF this assms(2,3)]
  have de: "d = e" and rest: "?body fs = ?body gs" by simp_all
  from rest have "(of_nat (length fs) :: u32) = of_nat (length gs)"
    and body: "concat (map encodeTagged (sort_key cf_tag fs)) = concat (map encodeTagged (sort_key cf_tag gs))"
    by (simp_all add: append_eq_append_conv)
  then have "length fs = length gs"
    using assms(4,5) unat_of_nat_32 by metis
  then show ?thesis
    using encodeTagged_list_prefix [of "sort_key cf_tag fs" "sort_key cf_tag gs" "[]" "[]"] body fits de
    by simp
qed

subsection \<open>Digests\<close>

definition is_digest :: "bytes \<Rightarrow> bool" where
  "is_digest s \<longleftrightarrow> (\<exists>raw. length raw = 32 \<and> s = ''sha256:'' @ hex_EncodeToString raw)"

lemma parseDigest_Inr_iff:
  "parseDigest s p = Inr raw \<longleftrightarrow> length raw = 32 \<and> s = ''sha256:'' @ hex_EncodeToString raw"
proof
  assume "parseDigest s p = Inr raw"
  then have "take 7 s = ''sha256:''" and "hex_EncodeToString raw = drop 7 s" and "length raw = 32"
    by (auto simp: parseDigest_def sha256_Size_def split: if_splits option.splits)
  then show "length raw = 32 \<and> s = ''sha256:'' @ hex_EncodeToString raw"
    by (metis append_take_drop_id)
next
  assume "length raw = 32 \<and> s = ''sha256:'' @ hex_EncodeToString raw"
  then show "parseDigest s p = Inr raw"
    by (simp add: parseDigest_def sha256_Size_def)
qed

lemma parseDigest_hashBytes [simp]: "parseDigest (hashBytes v) p = Inr (Sum256 v)"
  by (simp add: parseDigest_Inr_iff hashBytes_def)

lemma hashBytes_eqD: "hashBytes x = hashBytes y \<Longrightarrow> x = y \<or> sha256_collision x y"
  by (simp add: hashBytes_def Sum256_eqD)

lemma hashBytes_is_digest [simp]: "is_digest (hashBytes v)"
  by (auto simp: is_digest_def hashBytes_def)

lemma parseDigest_is_digest: "is_ok (parseDigest s p) \<longleftrightarrow> is_digest s"
  by (auto simp: is_ok_iff parseDigest_Inr_iff is_digest_def)

lemma parseDigest_error: "parseDigest s p = Inl e \<Longrightarrow> e = invalid CodeInvalidValue p"
  by (auto simp: parseDigest_def split: if_splits option.splits)

end
