(* ===== verification/Canonical_Value.thy ===== *)
theory Canonical_Value
  imports Canonical_Encoding
begin

unbundle bit_operations_syntax

text \<open>
  \<^verbatim>\<open>backend/libs/runtime-go/canonical_value_v1.go\<close> and \<^verbatim>\<open>canonical_value_inspect_v1.go\<close>: the
  immutable type-tagged value tree of canonical-v1, its constructors, its framed byte
  encoding, the strict decoder for bytes from outside, the digest token and the read
  accessors.  Like the source, a value carries its encoded bytes, its depth and its node
  cnt, never the tree; the tree is recovered in \<^verbatim>\<open>Canonical_Value_Tree\<close>.

  Depths, node counts and lengths are \<open>nat\<close>: the limits keep them far below the range
  of Go's \<^verbatim>\<open>int\<close>.  The counts read from foreign bytes are words of the width the
  source reads.
\<close>

subsection \<open>Limits and tags\<close>

definition CanonicalIdentityValueDomain :: bytes where
  "CanonicalIdentityValueDomain = ''sqlrs.runtime.v2/identity-value''"

definition MaxCanonicalValueDepth :: nat where
  "MaxCanonicalValueDepth = 32"

definition MaxCanonicalValueNodes :: nat where
  "MaxCanonicalValueNodes = 4096"

definition MaxCanonicalCollectionMembers :: nat where
  "MaxCanonicalCollectionMembers = 256"

definition MaxCanonicalStringBytes :: nat where
  "MaxCanonicalStringBytes = 4096"

definition MaxCanonicalMapKeyBytes :: nat where
  "MaxCanonicalMapKeyBytes = 1024"

definition MaxCanonicalValueBytes :: nat where
  "MaxCanonicalValueBytes = 1048576"

lemmas canonical_limits = MaxCanonicalValueDepth_def MaxCanonicalValueNodes_def
  MaxCanonicalCollectionMembers_def MaxCanonicalStringBytes_def MaxCanonicalMapKeyBytes_def
  MaxCanonicalValueBytes_def

definition canonicalNullTag :: u16 where "canonicalNullTag = 0"

definition canonicalStringTag :: u16 where "canonicalStringTag = 1"

definition canonicalListTag :: u16 where "canonicalListTag = 2"

definition canonicalMapTag :: u16 where "canonicalMapTag = 3"

definition canonicalSetTag :: u16 where "canonicalSetTag = 4"

lemmas canonical_tags = canonicalNullTag_def canonicalStringTag_def canonicalListTag_def
  canonicalMapTag_def canonicalSetTag_def

subsection \<open>Values\<close>

record canonicalValueData =
  cv_encoded :: bytes
  cv_depth :: nat
  cv_nodes :: nat

text \<open>The Go struct holds one pointer; the zero value, a nil pointer, is \<open>None\<close>.\<close>

type_synonym CanonicalValue = "canonicalValueData option"

record CanonicalMapEntry =
  me_Key :: bytes
  me_Value :: CanonicalValue

definition Valid :: "CanonicalValue \<Rightarrow> bool" where
  "Valid v \<longleftrightarrow> v \<noteq> None"

definition CanonicalBytes :: "CanonicalValue \<Rightarrow> bytes" where
  "CanonicalBytes v = (case v of None \<Rightarrow> [] | Some d \<Rightarrow> cv_encoded d)"

definition Depth :: "CanonicalValue \<Rightarrow> nat" where
  "Depth v = (case v of None \<Rightarrow> 0 | Some d \<Rightarrow> cv_depth d)"

definition NodeCount :: "CanonicalValue \<Rightarrow> nat" where
  "NodeCount v = (case v of None \<Rightarrow> 0 | Some d \<Rightarrow> cv_nodes d)"

definition EncodedSize :: "CanonicalValue \<Rightarrow> nat" where
  "EncodedSize v = (case v of None \<Rightarrow> 0 | Some d \<Rightarrow> length (cv_encoded d))"

subsection \<open>Constructors\<close>

definition canonicalNode :: "u16 \<Rightarrow> bytes \<Rightarrow> nat \<Rightarrow> nat \<Rightarrow> CanonicalValue" where
  "canonicalNode tg payload depth nodes =
     Some \<lparr>cv_encoded = encodeUint16 tg @ encodeBytes payload, cv_depth = depth, cv_nodes = nodes\<rparr>"

definition checkedCanonicalNode ::
    "u16 \<Rightarrow> bytes \<Rightarrow> nat \<Rightarrow> nat \<Rightarrow> bytes \<Rightarrow> CanonicalValue result" where
  "checkedCanonicalNode tg payload depth nodes path =
     (if MaxCanonicalValueDepth < depth \<or> MaxCanonicalValueNodes < nodes
      then Inl (canonicalInvalid CodeLimitExceeded path)
      else let value = canonicalNode tg payload depth nodes in
        if MaxCanonicalValueBytes < length (CanonicalBytes value)
        then Inl (canonicalInvalid CodeLimitExceeded path)
        else Inr value)"

definition CanonicalNull :: CanonicalValue where
  "CanonicalNull = canonicalNode canonicalNullTag [] 1 1"

definition CanonicalString :: "bytes \<Rightarrow> CanonicalValue result" where
  "CanonicalString value =
     (if \<not> ValidString value then Inl (canonicalInvalid CodeValueInvalid ''value'')
      else if MaxCanonicalStringBytes < length value
      then Inl (canonicalInvalid CodeLimitExceeded ''value'')
      else checkedCanonicalNode canonicalStringTag value 1 1 ''value'')"

definition canonicalCollection ::
    "u16 \<Rightarrow> bytes list \<Rightarrow> nat \<Rightarrow> nat \<Rightarrow> bytes \<Rightarrow> CanonicalValue result" where
  "canonicalCollection tg children depth nodes path =
     checkedCanonicalNode tg
       (encodeUint32 (of_nat (length children)) @ concat (map encodeBytes children))
       depth nodes path"

text \<open>The loop of \<^verbatim>\<open>CanonicalList\<close>: children so far, depth and node cnt.\<close>

fun CanonicalList_loop ::
    "nat \<Rightarrow> CanonicalValue list \<Rightarrow> bytes list \<Rightarrow> nat \<Rightarrow> nat \<Rightarrow> (bytes list \<times> nat \<times> nat) result" where
  "CanonicalList_loop index [] children depth nodes = Inr (children, depth, nodes)"
| "CanonicalList_loop index (v # vs) children depth nodes =
     (case v of
        None \<Rightarrow> Inl (canonicalInvalid CodeShapeInvalid (indexed ''members'' index))
      | Some d \<Rightarrow> CanonicalList_loop (Suc index) vs (children @ [cv_encoded d])
                    (if depth < cv_depth d + 1 then cv_depth d + 1 else depth) (nodes + cv_nodes d))"

definition CanonicalList :: "CanonicalValue list \<Rightarrow> CanonicalValue result" where
  "CanonicalList vs =
     (if MaxCanonicalCollectionMembers < length vs
      then Inl (canonicalInvalid CodeLimitExceeded ''members'')
      else res_bind (CanonicalList_loop 0 vs [] 1 1)
        (\<lambda>(children, depth, nodes). canonicalCollection canonicalListTag children depth nodes ''members''))"

text \<open>The first loop of \<^verbatim>\<open>CanonicalMap\<close>: encoded key, encoded value, depth and nodes per entry.\<close>

record encodedEntry =
  ee_key :: bytes
  ee_value :: bytes
  ee_depth :: nat
  ee_nodes :: nat

fun CanonicalMap_loop ::
    "nat \<Rightarrow> CanonicalMapEntry list \<Rightarrow> bytes list \<Rightarrow> encodedEntry list \<Rightarrow> encodedEntry list result" where
  "CanonicalMap_loop index [] seen encd = Inr encd"
| "CanonicalMap_loop index (en # ens) seen encd =
     (let path = indexed ''entries'' index in
      if me_Key en \<in> set seen then Inl (canonicalInvalid CodeNonCanonical (path @ ''.key''))
      else if \<not> ValidString (me_Key en) then Inl (canonicalInvalid CodeValueInvalid (path @ ''.key''))
      else if MaxCanonicalMapKeyBytes < length (me_Key en)
      then Inl (canonicalInvalid CodeLimitExceeded (path @ ''.key''))
      else case me_Value en of
        None \<Rightarrow> Inl (canonicalInvalid CodeShapeInvalid (path @ ''.value''))
      | Some d \<Rightarrow>
          let key = (case CanonicalString (me_Key en) of Inl _ \<Rightarrow> None | Inr k \<Rightarrow> k) in
          CanonicalMap_loop (Suc index) ens (me_Key en # seen)
            (encd @ [\<lparr>ee_key = CanonicalBytes key, ee_value = cv_encoded d,
                      ee_depth = cv_depth d, ee_nodes = cv_nodes d\<rparr>]))"

text \<open>The second loop: payload, depth and nodes over the sorted entries.\<close>

fun CanonicalMap_emit :: "encodedEntry list \<Rightarrow> bytes \<Rightarrow> nat \<Rightarrow> nat \<Rightarrow> bytes \<times> nat \<times> nat" where
  "CanonicalMap_emit [] payload depth nodes = (payload, depth, nodes)"
| "CanonicalMap_emit (en # ens) payload depth nodes =
     (let childDepth = ee_depth en + 1 in
      CanonicalMap_emit ens (payload @ encodeBytes (ee_key en) @ encodeBytes (ee_value en))
        (if depth < childDepth then childDepth else depth) (nodes + (1 + ee_nodes en)))"

definition CanonicalMap :: "CanonicalMapEntry list \<Rightarrow> CanonicalValue result" where
  "CanonicalMap ens =
     (if MaxCanonicalCollectionMembers < length ens
      then Inl (canonicalInvalid CodeLimitExceeded ''entries'')
      else res_bind (CanonicalMap_loop 0 ens [] [])
        (\<lambda>encd.
          let srt = sort_key ee_key encd;
              (payload, depth, nodes) = CanonicalMap_emit srt (encodeUint32 (of_nat (length srt))) 1 1
          in checkedCanonicalNode canonicalMapTag payload depth nodes ''entries''))"

text \<open>\<^verbatim>\<open>CanonicalSet\<close>: collect, sort by encoding, then reject equal neighbours.\<close>

fun CanonicalSet_collect ::
    "nat \<Rightarrow> CanonicalValue list \<Rightarrow> canonicalValueData list \<Rightarrow> canonicalValueData list result" where
  "CanonicalSet_collect index [] acc = Inr acc"
| "CanonicalSet_collect index (v # vs) acc =
     (case v of
        None \<Rightarrow> Inl (canonicalInvalid CodeShapeInvalid (indexed ''members'' index))
      | Some d \<Rightarrow> CanonicalSet_collect (Suc index) vs (acc @ [d]))"

fun CanonicalSet_loop ::
    "nat \<Rightarrow> canonicalValueData list \<Rightarrow> bytes option \<Rightarrow> bytes list \<Rightarrow> nat \<Rightarrow> nat
       \<Rightarrow> (bytes list \<times> nat \<times> nat) result" where
  "CanonicalSet_loop index [] prev children depth nodes = Inr (children, depth, nodes)"
| "CanonicalSet_loop index (m # ms) prev children depth nodes =
     (if 0 < index \<and> prev = Some (cv_encoded m)
      then Inl (canonicalInvalid CodeNonCanonical (indexed ''members'' index))
      else CanonicalSet_loop (Suc index) ms (Some (cv_encoded m)) (children @ [cv_encoded m])
             (if depth < cv_depth m + 1 then cv_depth m + 1 else depth) (nodes + cv_nodes m))"

definition CanonicalSet :: "CanonicalValue list \<Rightarrow> CanonicalValue result" where
  "CanonicalSet vs =
     (if MaxCanonicalCollectionMembers < length vs
      then Inl (canonicalInvalid CodeLimitExceeded ''members'')
      else res_bind (CanonicalSet_collect 0 vs [])
        (\<lambda>ms. res_bind (CanonicalSet_loop 0 (sort_key cv_encoded ms) None [] 1 1)
          (\<lambda>(children, depth, nodes). canonicalCollection canonicalSetTag children depth nodes ''members'')))"

subsection \<open>Tokens\<close>

record CanonicalValueToken =
  tok_digest :: bytes
  tok_valid :: bool

definition Token :: "CanonicalValue \<Rightarrow> CanonicalValueToken" where
  "Token v =
     (case v of
        None \<Rightarrow> \<lparr>tok_digest = replicate 32 (char_of (0::nat)), tok_valid = False\<rparr>
      | Some d \<Rightarrow>
          \<lparr>tok_digest = Sum256 (encodeString CanonicalIdentityValueDomain @ encodeBytes (cv_encoded d)),
           tok_valid = True\<rparr>)"

definition Token_String :: "CanonicalValueToken \<Rightarrow> bytes" where
  "Token_String t =
     (if \<not> tok_valid t then [] else ''civ1:sha256:'' @ hex_EncodeToString (tok_digest t))"

definition ParseCanonicalValueToken :: "bytes \<Rightarrow> CanonicalValueToken result" where
  "ParseCanonicalValueToken value =
     (if length value \<noteq> length ''civ1:sha256:'' + sha256_Size * 2
         \<or> \<not> HasPrefix value ''civ1:sha256:''
      then Inl (canonicalInvalid CodeValueInvalid ''token'')
      else let raw = drop (length ''civ1:sha256:'') value in
        if raw \<noteq> ToLower raw then Inl (canonicalInvalid CodeValueInvalid ''token'')
        else case hex_DecodeString raw of
          None \<Rightarrow> Inl (canonicalInvalid CodeValueInvalid ''token'')
        | Some decoded \<Rightarrow>
            if length decoded \<noteq> sha256_Size then Inl (canonicalInvalid CodeValueInvalid ''token'')
            else Inr \<lparr>tok_digest = decoded, tok_valid = True\<rparr>)"

subsection \<open>The strict decoder\<close>

record canonicalAllocationPlan =
  plan_count :: nat
  plan_minimumSize :: nat

text \<open>
  Unsigned 64-bit arithmetic as in the source; \<^verbatim>\<open>maxInt\<close> is \<^verbatim>\<open>uint64(^uint(0) >> 1)\<close> on a
  64-bit build.
\<close>

definition maxInt :: u64 where
  "maxInt = drop_bit 1 (NOT 0)"

definition allocationPlan ::
    "u64 \<Rightarrow> u64 \<Rightarrow> nat \<Rightarrow> bytes \<Rightarrow> canonicalAllocationPlan result" where
  "allocationPlan cnt framesPerMember available path =
     (if of_nat MaxCanonicalCollectionMembers < cnt
      then Inl (canonicalInvalid CodeLimitExceeded path)
      else if maxInt < cnt \<or> (framesPerMember \<noteq> 0 \<and> maxInt div framesPerMember div 8 < cnt)
      then Inl (canonicalInvalid CodeLimitExceeded path)
      else let minimum = cnt * framesPerMember * 8 in
        if of_nat available < minimum then Inl (canonicalInvalid CodeShapeInvalid path)
        else Inr \<lparr>plan_count = unat cnt, plan_minimumSize = unat minimum\<rparr>)"

definition framedChild :: "bytes \<Rightarrow> nat \<Rightarrow> (bytes \<times> nat) result" where
  "framedChild payload offset =
     (if length payload < offset + 8 then Inl (canonicalInvalid CodeShapeInvalid ''value'')
      else let len = unat (BigEndian_Uint64 (slice offset (offset + 8) payload)) in
        if length payload - offset - 8 < len \<or> MaxCanonicalValueBytes < len
        then Inl (canonicalInvalid CodeShapeInvalid ''value'')
        else let start = offset + 8; stop = offset + 8 + len in
          Inr (slice start stop payload, stop))"

lemma framedChild_bounds:
  assumes "framedChild payload offset = Inr (child, nxt)"
  shows "nxt = offset + 8 + length child" and "nxt \<le> length payload"
    and "length child \<le> MaxCanonicalValueBytes"
    and "drop offset payload = encodeBytes child @ drop nxt payload"
proof -
  define len where "len = unat (BigEndian_Uint64 (slice offset (offset + 8) payload))"
  have g: "offset + 8 \<le> length payload" "len \<le> length payload - offset - 8"
      "len \<le> MaxCanonicalValueBytes"
    and r: "child = slice (offset + 8) (offset + 8 + len) payload" "nxt = offset + 8 + len"
    using assms by (auto simp: framedChild_def len_def Let_def split: if_splits)
  then have len: "length child = len" by (simp add: slice_def)
  show "nxt = offset + 8 + length child" "nxt \<le> length payload"
    "length child \<le> MaxCanonicalValueBytes"
    using g r(2) len by simp_all
  have "drop offset payload = slice offset (offset + 8) payload @ drop (offset + 8) payload"
    using g by (intro slice_split) simp_all
  also have "drop (offset + 8) payload = child @ drop nxt payload"
    unfolding r using g by (intro slice_split) simp_all
  also have "slice offset (offset + 8) payload = encodeUint64 (of_nat (length child))"
    using g(1) unfolding len by (simp add: len_def encodeUint_BigEndian)
  finally show "drop offset payload = encodeBytes child @ drop nxt payload"
    by (simp add: encodeBytes_def)
qed

lemma framedChild_next:
  "framedChild payload offset = Inr (child, nxt) \<Longrightarrow>
     nxt = offset + 8 + length child \<and> offset + 8 + length child \<le> length payload"
  using framedChild_bounds(1,2) by fastforce

record canonicalMetric =
  cm_depth :: nat
  cm_nodes :: nat

text \<open>
  \<^verbatim>\<open>canonicalMetrics\<close>.  The two nested loops of the source (members, and the two parts of
  a map entry) run the same body \<open>cnt * times\<close> times, which is the loop here.
\<close>

function (sequential) canonicalMetrics :: "bytes \<Rightarrow> nat \<Rightarrow> canonicalMetric result"
  and canonicalMetrics_loop ::
    "bytes \<Rightarrow> nat \<Rightarrow> nat \<Rightarrow> nat \<Rightarrow> canonicalMetric \<Rightarrow> (nat \<times> canonicalMetric) result" where
  "canonicalMetrics raw depth =
     (if length raw < 10 then Inl (canonicalInvalid CodeShapeInvalid ''value'')
      else let tg = BigEndian_Uint16 (take 2 raw);
               payloadLen = unat (BigEndian_Uint64 (slice 2 10 raw)) in
        if length raw - 10 < payloadLen then Inl (canonicalInvalid CodeShapeInvalid ''value'')
        else let payload = slice 10 (10 + payloadLen) raw;
                 res = \<lparr>cm_depth = depth, cm_nodes = 1\<rparr> in
          if tg \<noteq> canonicalListTag \<and> tg \<noteq> canonicalSetTag \<and> tg \<noteq> canonicalMapTag then Inr res
          else if length payload < 4 then Inl (canonicalInvalid CodeShapeInvalid ''value'')
          else let cnt = unat (BigEndian_Uint32 (take 4 payload));
                   times = (if tg = canonicalMapTag then 2 else 1) in
            res_bind (canonicalMetrics_loop payload depth (cnt * times) 4 res)
              (\<lambda>(offset, res').
                 if offset \<noteq> length payload \<or> MaxCanonicalValueNodes < cm_nodes res'
                    \<or> MaxCanonicalValueDepth < cm_depth res'
                 then Inl (canonicalInvalid CodeLimitExceeded ''value'')
                 else Inr res'))"
| "canonicalMetrics_loop payload depth remaining offset res =
     (if remaining = 0 then Inr (offset, res)
      else res_bind (framedChild payload offset)
        (\<lambda>(child, nxt). res_bind (canonicalMetrics child (depth + 1))
          (\<lambda>metric. canonicalMetrics_loop payload depth (remaining - 1) nxt
             \<lparr>cm_depth = (if cm_depth res < cm_depth metric then cm_depth metric else cm_depth res),
              cm_nodes = cm_nodes res + cm_nodes metric\<rparr>)))"
  by pat_completeness auto
termination
  by (relation "measure (\<lambda>x. case x of Inl (raw, _) \<Rightarrow> length raw
                           | Inr (payload, _, _, offset, _) \<Rightarrow> length payload - offset)")
    (auto simp: slice_def dest!: framedChild_next)

declare canonicalMetrics.simps [simp del] canonicalMetrics_loop.simps [simp del]

function (sequential) decodeCanonicalNode :: "bytes \<Rightarrow> nat \<Rightarrow> (CanonicalValue \<times> nat) result"
  and validateCanonicalMembers :: "bytes \<Rightarrow> nat \<Rightarrow> bool \<Rightarrow> unit result"
  and validateCanonicalMembers_loop ::
    "bytes \<Rightarrow> nat \<Rightarrow> bool \<Rightarrow> nat \<Rightarrow> nat \<Rightarrow> nat \<Rightarrow> bytes option \<Rightarrow> unit result"
  and validateCanonicalMap :: "bytes \<Rightarrow> nat \<Rightarrow> unit result"
  and validateCanonicalMap_loop ::
    "bytes \<Rightarrow> nat \<Rightarrow> nat \<Rightarrow> nat \<Rightarrow> nat \<Rightarrow> bytes option \<Rightarrow> unit result" where
  "decodeCanonicalNode raw depth =
     (if MaxCanonicalValueDepth < depth \<or> length raw < 10
      then Inl (canonicalInvalid CodeShapeInvalid ''value'')
      else let tg = BigEndian_Uint16 (take 2 raw);
               len = unat (BigEndian_Uint64 (slice 2 10 raw)) in
        if length raw - 10 < len \<or> MaxCanonicalValueBytes < len
        then Inl (canonicalInvalid CodeShapeInvalid ''value'')
        else let stop = 10 + len; payload = slice 10 stop raw in
          res_bind
            (if tg = canonicalNullTag then
               (if length payload \<noteq> 0 then Inl (canonicalInvalid CodeShapeInvalid ''value'') else Inr ())
             else if tg = canonicalStringTag then
               (if \<not> ValidString payload then Inl (canonicalInvalid CodeValueInvalid ''value'')
                else if MaxCanonicalStringBytes < length payload
                then Inl (canonicalInvalid CodeLimitExceeded ''value'') else Inr ())
             else if tg = canonicalListTag \<or> tg = canonicalSetTag then
               validateCanonicalMembers payload depth (tg = canonicalSetTag)
             else if tg = canonicalMapTag then validateCanonicalMap payload depth
             else Inl (canonicalInvalid CodeValueInvalid ''value''))
            (\<lambda>_. res_bind (canonicalMetrics (take stop raw) 1)
              (\<lambda>metrics. Inr (canonicalNode tg payload (cm_depth metrics) (cm_nodes metrics), stop))))"
| "validateCanonicalMembers payload depth srt =
     (if length payload < 4 then Inl (canonicalInvalid CodeShapeInvalid ''members'')
      else res_bind (allocationPlan (ucast (BigEndian_Uint32 (take 4 payload))) 1
                       (length payload - 4) ''members'')
        (\<lambda>plan. validateCanonicalMembers_loop payload depth srt 0 (plan_count plan) 4 None))"
| "validateCanonicalMembers_loop payload depth srt index cnt offset previous =
     (if index < cnt then
        res_bind (framedChild payload offset)
          (\<lambda>(child, nxt). res_bind (decodeCanonicalNode child (depth + 1))
            (\<lambda>(_, consumed).
               if consumed \<noteq> length child then Inl (canonicalInvalid CodeShapeInvalid ''members'')
               else if srt \<and> (case previous of None \<Rightarrow> False | Some p \<Rightarrow> \<not> p < child)
               then Inl (canonicalInvalid CodeNonCanonical (indexed ''members'' index))
               else validateCanonicalMembers_loop payload depth srt (index + 1) cnt nxt (Some child)))
      else if offset \<noteq> length payload then Inl (canonicalInvalid CodeShapeInvalid ''members'')
      else Inr ())"
| "validateCanonicalMap payload depth =
     (if length payload < 4 then Inl (canonicalInvalid CodeShapeInvalid ''entries'')
      else res_bind (allocationPlan (ucast (BigEndian_Uint32 (take 4 payload))) 2
                       (length payload - 4) ''entries'')
        (\<lambda>plan. validateCanonicalMap_loop payload depth 0 (plan_count plan) 4 None))"
| "validateCanonicalMap_loop payload depth index cnt offset previous =
     (if index < cnt then
        res_bind (framedChild payload offset)
          (\<lambda>(key, nxt). case decodeCanonicalNode key (depth + 1) of
             Inl _ \<Rightarrow> Inl (canonicalInvalid CodeShapeInvalid (indexed ''entries'' index @ ''.key''))
           | Inr (keyValue, consumed) \<Rightarrow>
               if consumed \<noteq> length key \<or> BigEndian_Uint16 (take 2 key) \<noteq> canonicalStringTag
               then Inl (canonicalInvalid CodeShapeInvalid (indexed ''entries'' index @ ''.key''))
               else if MaxCanonicalMapKeyBytes < EncodedSize keyValue - 10
               then Inl (canonicalInvalid CodeLimitExceeded (indexed ''entries'' index @ ''.key''))
               else if (case previous of None \<Rightarrow> False | Some p \<Rightarrow> \<not> p < key)
               then Inl (canonicalInvalid CodeNonCanonical (indexed ''entries'' index @ ''.key''))
               else res_bind (framedChild payload nxt)
                 (\<lambda>(val, after). res_bind (decodeCanonicalNode val (depth + 1))
                   (\<lambda>(_, consumed').
                      if consumed' \<noteq> length val
                      then Inl (canonicalInvalid CodeShapeInvalid (indexed ''entries'' index @ ''.value''))
                      else validateCanonicalMap_loop payload depth (index + 1) cnt after (Some key))))
      else if offset \<noteq> length payload then Inl (canonicalInvalid CodeShapeInvalid ''entries'')
      else Inr ())"
  by pat_completeness auto
termination
  by (relation "measure (\<lambda>x. case x of
        Inl (Inl (raw, _)) \<Rightarrow> length raw
      | Inl (Inr (payload, _, _)) \<Rightarrow> length payload
      | Inr (Inl (payload, _, _, _, _, offset, _)) \<Rightarrow> length payload - offset
      | Inr (Inr (Inl (payload, _))) \<Rightarrow> length payload
      | Inr (Inr (Inr (payload, _, _, _, offset, _))) \<Rightarrow> length payload - offset)")
    (auto simp: slice_def dest!: framedChild_next)

declare decodeCanonicalNode.simps [simp del] validateCanonicalMembers.simps [simp del]
  validateCanonicalMembers_loop.simps [simp del] validateCanonicalMap.simps [simp del]
  validateCanonicalMap_loop.simps [simp del]

definition ParseCanonicalValueEnvelope :: "bytes \<Rightarrow> CanonicalValue result" where
  "ParseCanonicalValueEnvelope raw =
     (if MaxCanonicalValueBytes < length raw
      then Inl (canonicalInvalid CodeLimitExceeded ''value'')
      else res_bind (decodeCanonicalNode raw 1)
        (\<lambda>(value, consumed).
           if consumed \<noteq> length raw then Inl (canonicalInvalid CodeShapeInvalid ''value'')
           else Inr value))"

subsection \<open>Inspection (canonical_value_inspect_v1.go)\<close>

datatype CanonicalValueKind =
    CanonicalValueKindNone
  | CanonicalValueKindNull
  | CanonicalValueKindString
  | CanonicalValueKindList
  | CanonicalValueKindMap
  | CanonicalValueKindSet

definition Kind :: "CanonicalValue \<Rightarrow> CanonicalValueKind" where
  "Kind v =
     (case v of None \<Rightarrow> CanonicalValueKindNone
      | Some d \<Rightarrow>
          let tg = BigEndian_Uint16 (take 2 (cv_encoded d)) in
          if tg = canonicalNullTag then CanonicalValueKindNull
          else if tg = canonicalStringTag then CanonicalValueKindString
          else if tg = canonicalListTag then CanonicalValueKindList
          else if tg = canonicalMapTag then CanonicalValueKindMap
          else if tg = canonicalSetTag then CanonicalValueKindSet
          else CanonicalValueKindNone)"

definition StringValue :: "CanonicalValue \<Rightarrow> bytes \<times> bool" where
  "StringValue v =
     (if Kind v \<noteq> CanonicalValueKindString then ([], False)
      else (drop 10 (CanonicalBytes v), True))"

text \<open>
  \<^verbatim>\<open>Elements\<close> and \<^verbatim>\<open>Entries\<close> discard the errors of the framing and of the decoder: a failed
  frame leaves a nil child and offset 0, a failed decode the zero value.
\<close>

definition framedChild_ignored :: "bytes \<Rightarrow> nat \<Rightarrow> bytes \<times> nat" where
  "framedChild_ignored payload offset =
     (case framedChild payload offset of Inl _ \<Rightarrow> ([], 0) | Inr r \<Rightarrow> r)"

definition decode_ignored :: "bytes \<Rightarrow> CanonicalValue" where
  "decode_ignored raw = (case decodeCanonicalNode raw 1 of Inl _ \<Rightarrow> None | Inr (v, _) \<Rightarrow> v)"

fun Elements_loop :: "nat \<Rightarrow> bytes \<Rightarrow> nat \<Rightarrow> CanonicalValue list" where
  "Elements_loop 0 payload offset = []"
| "Elements_loop (Suc n) payload offset =
     (let (child, nxt) = framedChild_ignored payload offset in
      decode_ignored child # Elements_loop n payload nxt)"

definition Elements :: "CanonicalValue \<Rightarrow> CanonicalValue list option" where
  "Elements v =
     (if Kind v \<noteq> CanonicalValueKindList \<and> Kind v \<noteq> CanonicalValueKindSet then None
      else let payload = drop 10 (CanonicalBytes v) in
        Some (Elements_loop (unat (BigEndian_Uint32 (take 4 payload))) payload 4))"

fun Entries_loop :: "nat \<Rightarrow> bytes \<Rightarrow> nat \<Rightarrow> CanonicalMapEntry list" where
  "Entries_loop 0 payload offset = []"
| "Entries_loop (Suc n) payload offset =
     (let (keyBytes, nxt) = framedChild_ignored payload offset;
          key = decode_ignored keyBytes;
          (child, nxt') = framedChild_ignored payload nxt
      in \<lparr>me_Key = fst (StringValue key), me_Value = decode_ignored child\<rparr>
           # Entries_loop n payload nxt')"

definition Entries :: "CanonicalValue \<Rightarrow> CanonicalMapEntry list option" where
  "Entries v =
     (if Kind v \<noteq> CanonicalValueKindMap then None
      else let payload = drop 10 (CanonicalBytes v) in
        Some (Entries_loop (unat (BigEndian_Uint32 (take 4 payload))) payload 4))"

end
