(* ===== verification/Canonical_Value_Tree.thy ===== *)
theory Canonical_Value_Tree
  imports Canonical_Value
begin

text \<open>
  The specification of canonical values: the tree a value stands for, its canonical
  encoding, depth and node count, and the conditions of the contract (UTF-8, sizes,
  strict order of map keys and set members by their encodings).  The refinement: every
  constructor and the decoder produce exactly the representations of trees that satisfy
  the contract, and the decoder inverts the encoding.
\<close>

datatype ctree =
    CNull
  | CString bytes
  | CList "ctree list"
  | CMap "(bytes \<times> ctree) list"
  | CSet "ctree list"

subsection \<open>Encoding, depth, node count\<close>

definition node :: "u16 \<Rightarrow> bytes \<Rightarrow> bytes" where
  "node tg payload = encodeUint16 tg @ encodeBytes payload"

definition frames :: "bytes list \<Rightarrow> bytes" where
  "frames cs = concat (map encodeBytes cs)"

fun cenc :: "ctree \<Rightarrow> bytes" where
  "cenc CNull = node canonicalNullTag []"
| "cenc (CString s) = node canonicalStringTag s"
| "cenc (CList ts) =
     node canonicalListTag (encodeUint32 (of_nat (length ts)) @ frames (map cenc ts))"
| "cenc (CMap es) =
     node canonicalMapTag (encodeUint32 (of_nat (length es)) @
       frames (concat (map (\<lambda>e. [node canonicalStringTag (fst e), cenc (snd e)]) es)))"
| "cenc (CSet ts) =
     node canonicalSetTag (encodeUint32 (of_nat (length ts)) @ frames (map cenc ts))"

definition max_of :: "nat \<Rightarrow> nat list \<Rightarrow> nat" where
  "max_of d ds = foldl max d ds"

fun cdepth :: "ctree \<Rightarrow> nat" where
  "cdepth CNull = 1"
| "cdepth (CString s) = 1"
| "cdepth (CList ts) = max_of 1 (map (\<lambda>t. cdepth t + 1) ts)"
| "cdepth (CMap es) = max_of 1 (map (\<lambda>e. cdepth (snd e) + 1) es)"
| "cdepth (CSet ts) = max_of 1 (map (\<lambda>t. cdepth t + 1) ts)"

fun cnodes :: "ctree \<Rightarrow> nat" where
  "cnodes CNull = 1"
| "cnodes (CString s) = 1"
| "cnodes (CList ts) = 1 + sum_list (map cnodes ts)"
| "cnodes (CMap es) = 1 + sum_list (map (\<lambda>e. 1 + cnodes (snd e)) es)"
| "cnodes (CSet ts) = 1 + sum_list (map cnodes ts)"

fun cshape :: "ctree \<Rightarrow> bool" where
  "cshape CNull = True"
| "cshape (CString s) \<longleftrightarrow> ValidString s \<and> length s \<le> MaxCanonicalStringBytes"
| "cshape (CList ts) \<longleftrightarrow> length ts \<le> MaxCanonicalCollectionMembers \<and> list_all cshape ts"
| "cshape (CMap es) \<longleftrightarrow> length es \<le> MaxCanonicalCollectionMembers
     \<and> list_all (\<lambda>e. ValidString (fst e) \<and> length (fst e) \<le> MaxCanonicalMapKeyBytes
                      \<and> cshape (snd e)) es
     \<and> sorted_wrt (<) (map (\<lambda>e. node canonicalStringTag (fst e)) es)"
| "cshape (CSet ts) \<longleftrightarrow> length ts \<le> MaxCanonicalCollectionMembers \<and> list_all cshape ts
     \<and> sorted_wrt (<) (map cenc ts)"

definition climits :: "ctree \<Rightarrow> bool" where
  "climits t \<longleftrightarrow> cdepth t \<le> MaxCanonicalValueDepth \<and> cnodes t \<le> MaxCanonicalValueNodes
     \<and> length (cenc t) \<le> MaxCanonicalValueBytes"

definition cwf :: "ctree \<Rightarrow> bool" where
  "cwf t \<longleftrightarrow> cshape t \<and> climits t"

definition repr :: "ctree \<Rightarrow> CanonicalValue" where
  "repr t = Some \<lparr>cv_encoded = cenc t, cv_depth = cdepth t, cv_nodes = cnodes t\<rparr>"

text \<open>The frames under a collection node, in order.\<close>

fun kids :: "ctree \<Rightarrow> ctree list" where
  "kids (CList ts) = ts"
| "kids (CSet ts) = ts"
| "kids (CMap es) = concat (map (\<lambda>e. [CString (fst e), snd e]) es)"
| "kids _ = []"

lemma length_node [simp]: "length (node tg p) = 10 + length p"
  by (simp add: node_def)

lemma frames_simps [simp]: "frames [] = []" "frames (c # cs) = encodeBytes c @ frames cs"
  "frames (cs @ ds) = frames cs @ frames ds"
  by (simp_all add: frames_def)

lemma take_drop_node [simp]:
  "take 2 (node tg p) = encodeUint16 tg" "drop 10 (node tg p) = p"
  "take 2 (node tg p @ r) = encodeUint16 tg"
  by (simp_all add: node_def encodeBytes_def)

lemma slice_node:
  "slice 2 10 (node tg p @ r) = encodeUint64 (of_nat (length p))"
  "slice 10 (10 + length p) (node tg p @ r) = p"
  by (simp_all add: node_def encodeBytes_def slice_def)

lemma unat_slice_node:
  "length p < 2 ^ 64 \<Longrightarrow> unat (BigEndian_Uint64 (slice 2 10 (node tg p @ r))) = length p"
  by (simp add: slice_node unat_of_nat_64)

lemma max_of_Nil [simp]: "max_of d [] = d"
  by (simp add: max_of_def)

lemma max_of_Cons [simp]: "max_of d (x # xs) = max_of (max d x) xs"
  by (simp add: max_of_def)

lemma max_of_ge: "d \<le> max_of d xs" "x \<in> set xs \<Longrightarrow> x \<le> max_of d xs"
proof (induction xs arbitrary: d)
  case (Cons y ys)
  {
    case 1
    show ?case using Cons(1) [of "max d y"] by simp
  next
    case 2
    then show ?case using Cons(1) [of "max d y"] Cons(2) [of "max d y"] by auto
  }
qed simp_all

lemma max_of_max: "max_of (max d e) xs = max d (max_of e xs)"
  by (induction xs arbitrary: e) (simp_all add: max.assoc)

lemma cdepth_pos [simp]: "1 \<le> cdepth t" "0 < cdepth t"
proof -
  show "1 \<le> cdepth t" by (cases t) (simp_all add: max_of_ge)
  then show "0 < cdepth t" by simp
qed

lemma cnodes_pos [simp]: "1 \<le> cnodes t"
  by (cases t) simp_all

lemma length_cenc_ge [simp]: "10 \<le> length (cenc t)"
  by (cases t) simp_all

lemma kid_cdepth: "k \<in> set (kids t) \<Longrightarrow> cdepth k + 1 \<le> cdepth t"
proof (cases t)
  case (CMap es)
  assume k: "k \<in> set (kids t)"
  then obtain e where e: "e \<in> set es" "k = CString (fst e) \<or> k = snd e"
    using CMap by auto
  have "cdepth (snd e) + 1 \<le> max_of 1 (map (\<lambda>e. cdepth (snd e) + 1) es)"
    using e(1) by (intro max_of_ge(2)) auto
  then show ?thesis using e(2) CMap cdepth_pos(1) [of "snd e"] by auto
qed (auto intro: max_of_ge(2))

lemma kid_cnodes: "k \<in> set (kids t) \<Longrightarrow> cnodes k + 1 \<le> cnodes t"
proof (cases t)
  case (CMap es)
  assume k: "k \<in> set (kids t)"
  then obtain e where e: "e \<in> set es" "k = CString (fst e) \<or> k = snd e"
    using CMap by auto
  have "1 + cnodes (snd e) \<le> sum_list (map (\<lambda>e. 1 + cnodes (snd e)) es)"
    using e(1) by (intro member_le_sum_list) auto
  then show ?thesis using e(2) CMap by auto
qed (auto intro: member_le_sum_list)

lemma length_frames_ge: "c \<in> set cs \<Longrightarrow> length c + 8 \<le> length (frames cs)"
  by (induction cs) auto

text \<open>A collection node is its tag, the member count and the frames of its kids.\<close>

lemma cenc_kids:
  "cenc (CList ts) = node canonicalListTag (encodeUint32 (of_nat (length ts)) @ frames (map cenc (kids (CList ts))))"
  "cenc (CSet ts) = node canonicalSetTag (encodeUint32 (of_nat (length ts)) @ frames (map cenc (kids (CSet ts))))"
  "cenc (CMap es) = node canonicalMapTag (encodeUint32 (of_nat (length es)) @ frames (map cenc (kids (CMap es))))"
  by (simp_all add: map_concat comp_def)

lemma kid_length: "k \<in> set (kids t) \<Longrightarrow> length (cenc k) + 22 \<le> length (cenc t)"
proof -
  assume k: "k \<in> set (kids t)"
  then have "length (cenc k) + 8 \<le> length (frames (map cenc (kids t)))"
    by (intro length_frames_ge) auto
  with k show ?thesis
    by (cases t) (simp_all only: cenc_kids length_node length_append length_encodeUint kids.simps, simp_all)
qed

lemma kid_cshape: "cshape t \<Longrightarrow> k \<in> set (kids t) \<Longrightarrow> cshape k"
  by (cases t) (auto simp: list_all_iff canonical_limits)

lemma kid_cwf: "cwf t \<Longrightarrow> k \<in> set (kids t) \<Longrightarrow> cwf k"
  using kid_cshape kid_cdepth kid_cnodes kid_length
  by (fastforce simp: cwf_def climits_def)

lemma cdepth_kids: "cdepth t = max_of 1 (map (\<lambda>k. cdepth k + 1) (kids t))"
proof (cases t)
  case (CMap es)
  have "max_of d (map (\<lambda>e. cdepth (snd e) + 1) es)
      = max_of d (map (\<lambda>k. cdepth k + 1) (concat (map (\<lambda>e. [CString (fst e), snd e]) es)))"
    if "1 \<le> d" for d
    using that
  proof (induction es arbitrary: d)
    case (Cons e es)
    have "max (max d 2) (cdepth (snd e) + 1) = max d (cdepth (snd e) + 1)"
      using cdepth_pos(1) [of "snd e"] by simp
    with Cons show ?case by (simp add: numeral_2_eq_2)
  qed simp
  then show ?thesis using CMap by simp
qed (simp_all)

lemma cnodes_kids: "cnodes t = 1 + sum_list (map cnodes (kids t))"
proof (cases t)
  case (CMap es)
  have "sum_list (map (\<lambda>e. 1 + cnodes (snd e)) es)
      = sum_list (map cnodes (concat (map (\<lambda>e. [CString (fst e), snd e]) es)))"
    by (induction es) simp_all
  then show ?thesis using CMap by simp
qed simp_all

subsection \<open>Collections, uniformly\<close>

fun leaf :: "ctree \<Rightarrow> bool" where
  "leaf CNull = True"
| "leaf (CString _) = True"
| "leaf _ = False"

fun ctag :: "ctree \<Rightarrow> u16" where
  "ctag CNull = canonicalNullTag"
| "ctag (CString _) = canonicalStringTag"
| "ctag (CList _) = canonicalListTag"
| "ctag (CMap _) = canonicalMapTag"
| "ctag (CSet _) = canonicalSetTag"

fun ccount :: "ctree \<Rightarrow> nat" where
  "ccount (CList ts) = length ts"
| "ccount (CSet ts) = length ts"
| "ccount (CMap es) = length es"
| "ccount _ = 0"

fun cpayload :: "ctree \<Rightarrow> bytes" where
  "cpayload CNull = []"
| "cpayload (CString s) = s"
| "cpayload t = encodeUint32 (of_nat (ccount t)) @ frames (map cenc (kids t))"

lemma cenc_payload: "cenc t = node (ctag t) (cpayload t)"
  by (cases t) (simp_all add: map_concat comp_def)

lemma cpayload_collection:
  "\<not> leaf t \<Longrightarrow> cpayload t = encodeUint32 (of_nat (ccount t)) @ frames (map cenc (kids t))"
  by (cases t) simp_all

lemma ccount_le: "cshape t \<Longrightarrow> ccount t \<le> 256"
  by (cases t) (simp_all add: canonical_limits)

lemma length_kids:
  "\<not> leaf t \<Longrightarrow> length (kids t) = ccount t * (if ctag t = canonicalMapTag then 2 else 1)"
  by (cases t) (simp_all add: canonical_tags length_concat comp_def sum_list_triv)

lemma tags_distinct [simp]:
  "canonicalNullTag \<noteq> canonicalStringTag" "canonicalStringTag \<noteq> canonicalNullTag"
  "canonicalListTag \<noteq> canonicalNullTag" "canonicalListTag \<noteq> canonicalStringTag"
  "canonicalMapTag \<noteq> canonicalNullTag" "canonicalMapTag \<noteq> canonicalStringTag"
  "canonicalSetTag \<noteq> canonicalNullTag" "canonicalSetTag \<noteq> canonicalStringTag"
  "canonicalMapTag \<noteq> canonicalListTag" "canonicalMapTag \<noteq> canonicalSetTag"
  "canonicalSetTag \<noteq> canonicalListTag" "canonicalListTag \<noteq> canonicalSetTag"
  "canonicalListTag \<noteq> canonicalMapTag" "canonicalSetTag \<noteq> canonicalMapTag"
  "canonicalNullTag \<noteq> canonicalListTag" "canonicalStringTag \<noteq> canonicalListTag"
  "canonicalNullTag \<noteq> canonicalMapTag" "canonicalStringTag \<noteq> canonicalMapTag"
  "canonicalNullTag \<noteq> canonicalSetTag" "canonicalStringTag \<noteq> canonicalSetTag"
  by (simp_all add: canonical_tags)

lemma leaf_tag: "leaf t \<longleftrightarrow> ctag t \<noteq> canonicalListTag \<and> ctag t \<noteq> canonicalSetTag \<and> ctag t \<noteq> canonicalMapTag"
  by (cases t) simp_all

lemma unat_count32: "cshape t \<Longrightarrow> unat (of_nat (ccount t) :: u32) = ccount t"
  using ccount_le [of t] by (simp add: unat_of_nat_32)

lemma framedChild_at:
  assumes "payload = pre @ encodeBytes c @ post" and "off = length pre"
    and "length c \<le> MaxCanonicalValueBytes"
  shows "framedChild payload off = Inr (c, off + 8 + length c)"
proof -
  have "slice off (off + 8) payload = encodeUint64 (of_nat (length c))"
    using assms by (simp add: slice_def encodeBytes_def)
  moreover have "unat (of_nat (length c) :: u64) = length c"
    using assms(3) by (intro unat_of_nat_64) (simp add: canonical_limits)
  moreover have "slice (off + 8) (off + 8 + length c) payload = c"
    using assms by (simp add: slice_def encodeBytes_def)
  ultimately show ?thesis
    using assms by (simp add: framedChild_def Let_def)
qed

subsection \<open>Metrics of an encoded tree\<close>

definition limit_error :: ValidationError where
  "limit_error = canonicalInvalid CodeLimitExceeded ''value''"

definition metric_ok :: "nat \<Rightarrow> ctree \<Rightarrow> bool" where
  "metric_ok d t \<longleftrightarrow> leaf t \<or> (d + cdepth t \<le> MaxCanonicalValueDepth + 1 \<and> cnodes t \<le> MaxCanonicalValueNodes)"

definition metric_of :: "nat \<Rightarrow> ctree \<Rightarrow> canonicalMetric" where
  "metric_of d t = \<lparr>cm_depth = d + cdepth t - 1, cm_nodes = cnodes t\<rparr>"

lemma metrics_loop_frames:
  assumes "\<forall>k \<in> set ks. length (cenc k) \<le> MaxCanonicalValueBytes \<and>
      canonicalMetrics (cenc k) (d + 1) =
        (if metric_ok (d + 1) k then Inr (metric_of (d + 1) k) else Inl limit_error)"
  shows "canonicalMetrics_loop (pre @ frames (map cenc ks)) d (length ks) (length pre) r =
      (if list_all (metric_ok (d + 1)) ks
       then Inr (length pre + length (frames (map cenc ks)),
              \<lparr>cm_depth = max_of (cm_depth r) (map (\<lambda>k. d + cdepth k) ks),
               cm_nodes = cm_nodes r + sum_list (map cnodes ks)\<rparr>)
       else Inl limit_error)"
  using assms
proof (induction ks arbitrary: pre r)
  case Nil
  then show ?case by (simp add: canonicalMetrics_loop.simps)
next
  case (Cons k ks)
  let ?pl = "pre @ frames (map cenc (k # ks))"
  have fc: "framedChild ?pl (length pre) = Inr (cenc k, length pre + 8 + length (cenc k))"
    using Cons.prems by (intro framedChild_at [where post = "frames (map cenc ks)"]) auto
  have cm: "canonicalMetrics (cenc k) (d + 1) =
      (if metric_ok (d + 1) k then Inr (metric_of (d + 1) k) else Inl limit_error)"
    using Cons.prems by simp
  show ?case
  proof (cases "metric_ok (d + 1) k")
    case True
    have IH: "canonicalMetrics_loop ((pre @ encodeBytes (cenc k)) @ frames (map cenc ks)) d (length ks)
        (length (pre @ encodeBytes (cenc k))) r' =
      (if list_all (metric_ok (d + 1)) ks
       then Inr (length (pre @ encodeBytes (cenc k)) + length (frames (map cenc ks)),
              \<lparr>cm_depth = max_of (cm_depth r') (map (\<lambda>k. d + cdepth k) ks),
               cm_nodes = cm_nodes r' + sum_list (map cnodes ks)\<rparr>)
       else Inl limit_error)" for r'
      using Cons.prems by (intro Cons.IH) simp
    have mx: "(if a < b then b else a) = max a b" for a b :: nat by simp
    show ?thesis
      using True IH fc cm
      by (subst canonicalMetrics_loop.simps) (simp add: metric_of_def mx add.assoc)
  next
    case False
    then show ?thesis using fc cm by (subst canonicalMetrics_loop.simps) simp
  qed
qed

lemma metrics_cenc:
  "cshape t \<Longrightarrow> length (cenc t) \<le> MaxCanonicalValueBytes \<Longrightarrow>
     canonicalMetrics (cenc t) d = (if metric_ok d t then Inr (metric_of d t) else Inl limit_error)"
proof (induction "length (cenc t)" arbitrary: t d rule: less_induct)
  case less
  have p64: "length (cpayload t) < 2 ^ 64"
    using less.prems(2) by (simp add: cenc_payload canonical_limits)
  have pl: "unat (BigEndian_Uint64 (slice 2 10 (cenc t))) = length (cpayload t)"
    using unat_slice_node [OF p64, where r = "[]"] by (simp add: cenc_payload)
  have sl: "slice 10 (10 + length (cpayload t)) (cenc t) = cpayload t"
    using slice_node(2) [of "cpayload t" "ctag t" "[]"] by (simp add: cenc_payload)
  have tg: "BigEndian_Uint16 (take 2 (cenc t)) = ctag t"
    by (simp add: cenc_payload)
  have len: "length (cenc t) = 10 + length (cpayload t)"
    by (simp add: cenc_payload)
  show ?case
  proof (cases "leaf t")
    case True
    then have "cdepth t = 1" "cnodes t = 1" by (cases t; simp)+
    with True show ?thesis
      using pl tg len leaf_tag [of t]
      by (simp add: canonicalMetrics.simps Let_def metric_ok_def metric_of_def)
  next
    case False
    have kid: "\<forall>k \<in> set (kids t). length (cenc k) \<le> MaxCanonicalValueBytes \<and>
        canonicalMetrics (cenc k) (d + 1) =
          (if metric_ok (d + 1) k then Inr (metric_of (d + 1) k) else Inl limit_error)"
    proof
      fix k assume k: "k \<in> set (kids t)"
      from kid_length [OF k] have l: "length (cenc k) < length (cenc t)" by simp
      then have lm: "length (cenc k) \<le> MaxCanonicalValueBytes" using less.prems(2) by simp
      from less.hyps [OF l kid_cshape [OF less.prems(1) k] lm]
      show "length (cenc k) \<le> MaxCanonicalValueBytes \<and> canonicalMetrics (cenc k) (d + 1) =
          (if metric_ok (d + 1) k then Inr (metric_of (d + 1) k) else Inl limit_error)"
        using lm by blast
    qed
    have pay: "cpayload t = encodeUint32 (of_nat (ccount t)) @ frames (map cenc (kids t))"
      by (rule cpayload_collection [OF False])
    have loop: "canonicalMetrics_loop (cpayload t) d (length (kids t)) 4 r =
      (if list_all (metric_ok (d + 1)) (kids t)
       then Inr (length (cpayload t),
              \<lparr>cm_depth = max_of (cm_depth r) (map (\<lambda>k. d + cdepth k) (kids t)),
               cm_nodes = cm_nodes r + sum_list (map cnodes (kids t))\<rparr>)
       else Inl limit_error)" for r
      using metrics_loop_frames [OF kid, of "encodeUint32 (of_nat (ccount t))" r] pay by simp
    have cnt: "unat (BigEndian_Uint32 (take 4 (cpayload t))) = ccount t"
      using unat_count32 [OF less.prems(1)] by (simp add: pay)
    have dep: "max_of d (map (\<lambda>k. d + cdepth k) (kids t)) = d + cdepth t - 1"
    proof -
      have "max_of (x + e) (map (\<lambda>k. x + f k) ks) = x + max_of e (map f ks)" for x e f and ks :: "ctree list"
        by (induction ks arbitrary: e) (simp_all add: max_add_distrib_right flip: max_add_distrib_right)
      from this [of d 0 cdepth "kids t"] this [of 1 0 cdepth "kids t"]
      show ?thesis by (simp add: cdepth_kids [of t] add.commute)
    qed
    have bad: "\<not> metric_ok d t" if nk: "\<not> list_all (metric_ok (d + 1)) (kids t)"
    proof -
      obtain k where k: "k \<in> set (kids t)" "\<not> metric_ok (d + 1) k"
        using nk by (auto simp: list_all_iff)
      with kid_cdepth [OF k(1)] kid_cnodes [OF k(1)] False show ?thesis
        by (auto simp: metric_ok_def)
    qed
    have tags: "\<not> (ctag t \<noteq> canonicalListTag \<and> ctag t \<noteq> canonicalSetTag \<and> ctag t \<noteq> canonicalMapTag)"
      using False leaf_tag by blast
    have p4: "\<not> length (cpayload t) < 4" by (simp add: pay)
    have "canonicalMetrics (cenc t) d =
      res_bind (canonicalMetrics_loop (cpayload t) d (length (kids t)) 4 \<lparr>cm_depth = d, cm_nodes = 1\<rparr>)
        (\<lambda>(offset, res').
           if offset \<noteq> length (cpayload t) \<or> MaxCanonicalValueNodes < cm_nodes res'
              \<or> MaxCanonicalValueDepth < cm_depth res'
           then Inl (canonicalInvalid CodeLimitExceeded ''value'') else Inr res')"
      unfolding length_kids [OF False]
      using pl tg len sl tags cnt p4 by (auto simp: canonicalMetrics.simps [of "cenc t"] Let_def)
    also have "\<dots> = (if metric_ok d t then Inr (metric_of d t) else Inl limit_error)"
      using bad False cdepth_pos(1) [of t] unfolding loop
      by (auto simp: dep cnodes_kids [of t] metric_ok_def metric_of_def limit_error_def)
    finally show ?thesis .
  qed
qed

end
