(* ===== verification/Canonical_Value_Codec.thy ===== *)
theory Canonical_Value_Codec
  imports Canonical_Value_Tree
begin

text \<open>
  The decoder of \<^verbatim>\<open>canonical_value_v1.go\<close> against the tree specification: soundness (whatever
  it accepts is the encoding of a tree within the contract), completeness (it accepts
  every such encoding and returns its representation), and the uniqueness of encodings.
\<close>

subsection \<open>The allocation plan\<close>

lemma maxInt_eq: "maxInt = 2 ^ 63 - 1"
  by (simp add: maxInt_def mask_eq_exp_minus_1)

lemma allocationPlan_count:
  "allocationPlan n f available path = Inr plan \<Longrightarrow> plan_count plan = unat n \<and> unat n \<le> 256"
  by (auto simp: allocationPlan_def Let_def canonical_limits word_less_nat_alt not_less
      split: if_splits)

lemma allocationPlan_minimum:
  assumes "allocationPlan n f available path = Inr plan" and "f = 1 \<or> f = 2"
  shows "plan_minimumSize plan = unat n * unat f * 8"
proof -
  have le: "unat n \<le> 256" using allocationPlan_count [OF assms(1)] by simp
  have "plan_minimumSize plan = unat (n * f * 8)"
    using assms(1) by (auto simp: allocationPlan_def Let_def split: if_splits)
  also have "\<dots> = unat n * unat f * 8"
    using le assms(2) by (auto simp: unat_word_ariths)
  finally show ?thesis .
qed

lemma allocationPlan_ok:
  assumes "f = 1 \<or> f = 2" and "n \<le> 256" and "n * unat f * 8 \<le> available" and "available < 2 ^ 64"
  shows "allocationPlan (of_nat n) f available path =
     Inr \<lparr>plan_count = n, plan_minimumSize = n * unat f * 8\<rparr>"
proof -
  have un: "unat (of_nat n :: u64) = n" using assms(2) by (simp add: unat_of_nat_64)
  have mn: "unat (of_nat n * f * 8 :: u64) = n * unat f * 8"
    using assms(1,2) un by (auto simp: unat_word_ariths)
  have "\<not> of_nat MaxCanonicalCollectionMembers < (of_nat n :: u64)"
    using assms(2) un by (simp add: word_less_nat_alt canonical_limits)
  moreover have "\<not> maxInt < of_nat n" using assms(2) un by (simp add: word_less_nat_alt maxInt_eq)
  moreover have "\<not> maxInt div f div 8 < of_nat n"
    using assms(1,2) un by (auto simp: word_less_nat_alt maxInt_eq unat_div)
  moreover have "\<not> of_nat available < (of_nat n * f * 8 :: u64)"
    using mn assms(3,4) by (simp add: word_less_nat_alt unat_of_nat_64)
  ultimately show ?thesis using un mn by (simp add: allocationPlan_def Let_def)
qed

subsection \<open>Soundness\<close>

definition decoded :: "bytes \<Rightarrow> CanonicalValue \<Rightarrow> nat \<Rightarrow> ctree \<Rightarrow> bool" where
  "decoded raw v n t \<longleftrightarrow> cwf t \<and> v = repr t \<and> n = length (cenc t) \<and> take n raw = cenc t"

definition decode_sound :: "bytes \<Rightarrow> bool" where
  "decode_sound raw \<longleftrightarrow> (\<forall>d v n. decodeCanonicalNode raw d = Inr (v, n) \<longrightarrow> (\<exists>t. decoded raw v n t))"

lemma decode_soundD: "decode_sound raw \<Longrightarrow> decodeCanonicalNode raw d = Inr (v, n) \<Longrightarrow> \<exists>t. decoded raw v n t"
  by (auto simp: decode_sound_def)

definition small_sound :: "bytes \<Rightarrow> bool" where
  "small_sound payload \<longleftrightarrow>
     (\<forall>child. length child < length payload \<and> length child \<le> MaxCanonicalValueBytes \<longrightarrow> decode_sound child)"

lemma small_soundD:
  "small_sound payload \<Longrightarrow> length child < length payload \<Longrightarrow> length child \<le> MaxCanonicalValueBytes
     \<Longrightarrow> decode_sound child"
  by (simp add: small_sound_def)

lemma strict_Cons: "sorted_wrt (<) (y # ys) \<Longrightarrow> (x::'a::linorder) < y \<Longrightarrow> sorted_wrt (<) (x # y # ys)"
  by auto

lemma members_loop_sound:
  assumes "small_sound payload"
    and "validateCanonicalMembers_loop payload d srt index cnt off prev = Inr u"
    and "off \<le> length payload"
  shows "\<exists>ts. length ts = cnt - index \<and> drop off payload = frames (map cenc ts) \<and> list_all cwf ts
     \<and> (srt \<longrightarrow> sorted_wrt (<) ((case prev of None \<Rightarrow> [] | Some p \<Rightarrow> [p]) @ map cenc ts))"
  using assms(2,3)
proof (induction "cnt - index" arbitrary: index off prev)
  case 0
  then have "off = length payload"
    by (simp add: validateCanonicalMembers_loop.simps [of payload d srt index] split: if_splits)
  with 0 show ?case by (intro exI [of _ "[]"]) (auto split: option.split)
next
  case (Suc n)
  from Suc.prems(1) Suc.hyps(2) obtain child nxt v consumed where
      fc: "framedChild payload off = Inr (child, nxt)"
    and dc: "decodeCanonicalNode child (d + 1) = Inr (v, consumed)"
    and full: "consumed = length child"
    and ord: "srt \<longrightarrow> (case prev of None \<Rightarrow> True | Some p \<Rightarrow> p < child)"
    and rest: "validateCanonicalMembers_loop payload d srt (index + 1) cnt nxt (Some child) = Inr u"
    by (subst (asm) validateCanonicalMembers_loop.simps)
      (auto simp: res_bind_Inr_iff split: if_splits option.splits prod.splits)
  note b = framedChild_bounds [OF fc]
  have "decode_sound child" using b by (intro small_soundD [OF assms(1)]) auto
  from decode_soundD [OF this dc] obtain t where t: "decoded child v consumed t" by blast
  then have ct: "child = cenc t" using full by (simp add: decoded_def)
  have "n = cnt - (index + 1)" using Suc.hyps(2) by simp
  from Suc.hyps(1) [OF this rest] b(2) obtain ts where ts: "length ts = cnt - (index + 1)"
      "drop nxt payload = frames (map cenc ts)" "list_all cwf ts"
      "srt \<longrightarrow> sorted_wrt (<) (child # map cenc ts)"
    by auto
  have "length (t # ts) = cnt - index" using ts(1) Suc.hyps(2) by simp
  moreover have "drop off payload = frames (map cenc (t # ts))" using b(4) ts(2) ct by simp
  moreover have "list_all cwf (t # ts)" using t ts(3) by (simp add: decoded_def)
  moreover have "srt \<longrightarrow> sorted_wrt (<) ((case prev of None \<Rightarrow> [] | Some p \<Rightarrow> [p]) @ map cenc (t # ts))"
    using ts(4) ord ct strict_Cons by (auto split: option.splits)
  ultimately show ?case by blast
qed

lemma ctag_string: "ctag t = canonicalStringTag \<Longrightarrow> \<exists>s. t = CString s"
  by (cases t) simp_all

lemma map_loop_sound:
  assumes "small_sound payload"
    and "validateCanonicalMap_loop payload d index cnt off prev = Inr u"
    and "off \<le> length payload"
  shows "\<exists>es. length es = cnt - index
     \<and> drop off payload = frames (concat (map (\<lambda>e. [node canonicalStringTag (fst e), cenc (snd e)]) es))
     \<and> list_all (\<lambda>e. ValidString (fst e) \<and> length (fst e) \<le> MaxCanonicalMapKeyBytes \<and> cwf (snd e)) es
     \<and> sorted_wrt (<) ((case prev of None \<Rightarrow> [] | Some p \<Rightarrow> [p])
          @ map (\<lambda>e. node canonicalStringTag (fst e)) es)"
  using assms(2,3)
proof (induction "cnt - index" arbitrary: index off prev)
  case 0
  then have "off = length payload"
    by (simp add: validateCanonicalMap_loop.simps [of payload d index] split: if_splits)
  with 0 show ?case by (intro exI [of _ "[]"]) (auto split: option.split)
next
  case (Suc n)
  from Suc.prems(1) Suc.hyps(2) obtain key nxt kv consumed val after v consumed' where
      fk: "framedChild payload off = Inr (key, nxt)"
    and dk: "decodeCanonicalNode key (d + 1) = Inr (kv, consumed)" "consumed = length key"
    and kt: "BigEndian_Uint16 (take 2 key) = canonicalStringTag"
    and ks: "EncodedSize kv - 10 \<le> MaxCanonicalMapKeyBytes"
    and ord: "case prev of None \<Rightarrow> True | Some p \<Rightarrow> p < key"
    and fv: "framedChild payload nxt = Inr (val, after)"
    and dv: "decodeCanonicalNode val (d + 1) = Inr (v, consumed')" "consumed' = length val"
    and rest: "validateCanonicalMap_loop payload d (index + 1) cnt after (Some key) = Inr u"
    by (subst (asm) validateCanonicalMap_loop.simps)
      (auto simp: res_bind_Inr_iff split: if_splits option.splits prod.splits sum.splits)
  note bk = framedChild_bounds [OF fk] and bv = framedChild_bounds [OF fv]
  have "decode_sound key" "decode_sound val" using bk bv by (auto intro!: small_soundD [OF assms(1)])
  from decode_soundD [OF this(1) dk(1)] decode_soundD [OF this(2) dv(1)]
  obtain kt' t where k: "decoded key kv consumed kt'" and t: "decoded val v consumed' t" by blast
  have ck: "key = cenc kt'" and cv: "val = cenc t"
    using k t dk(2) dv(2) by (simp_all add: decoded_def)
  have "ctag kt' = canonicalStringTag" using kt by (simp add: ck cenc_payload)
  then obtain s where s: "kt' = CString s" using ctag_string by blast
  have sv: "ValidString s" "length s \<le> MaxCanonicalMapKeyBytes"
    using k ks by (simp_all add: decoded_def s cwf_def EncodedSize_def repr_def)
  have "n = cnt - (index + 1)" using Suc.hyps(2) by simp
  from Suc.hyps(1) [OF this rest] bv(2) obtain es where es: "length es = cnt - (index + 1)"
      "drop after payload = frames (concat (map (\<lambda>e. [node canonicalStringTag (fst e), cenc (snd e)]) es))"
      "list_all (\<lambda>e. ValidString (fst e) \<and> length (fst e) \<le> MaxCanonicalMapKeyBytes \<and> cwf (snd e)) es"
      "sorted_wrt (<) (key # map (\<lambda>e. node canonicalStringTag (fst e)) es)"
    by auto
  have "length ((s, t) # es) = cnt - index" using es(1) Suc.hyps(2) by simp
  moreover have "drop off payload =
      frames (concat (map (\<lambda>e. [node canonicalStringTag (fst e), cenc (snd e)]) ((s, t) # es)))"
    using bk(4) bv(4) es(2) by (simp add: ck cv s)
  moreover have "list_all (\<lambda>e. ValidString (fst e) \<and> length (fst e) \<le> MaxCanonicalMapKeyBytes \<and> cwf (snd e))
      ((s, t) # es)"
    using sv t es(3) by (simp add: decoded_def)
  moreover have "sorted_wrt (<) ((case prev of None \<Rightarrow> [] | Some p \<Rightarrow> [p])
      @ map (\<lambda>e. node canonicalStringTag (fst e)) ((s, t) # es))"
    using es(4) ord strict_Cons by (auto simp: ck s split: option.splits)
  ultimately show ?case by blast
qed

lemma count_prefix:
  assumes "4 \<le> length payload"
  shows "payload = encodeUint32 (BigEndian_Uint32 (take 4 payload)) @ drop 4 payload"
  using assms by (simp add: encodeUint_BigEndian)

lemma unat_ucast_32_64: "unat (ucast (w :: u32) :: u64) = unat w"
  using unsigned_less [of w, where 'a = nat] by (simp add: unsigned_ucast_eq take_bit_eq_mod)

lemma members_sound:
  assumes "small_sound payload"
    and ok: "validateCanonicalMembers payload d srt = Inr u"
  shows "\<exists>ts. length ts \<le> 256 \<and> payload = encodeUint32 (of_nat (length ts)) @ frames (map cenc ts)
     \<and> list_all cwf ts \<and> (srt \<longrightarrow> sorted_wrt (<) (map cenc ts))"
proof -
  from ok obtain plan where p4: "4 \<le> length payload"
    and plan: "allocationPlan (ucast (BigEndian_Uint32 (take 4 payload))) 1 (length payload - 4) ''members'' = Inr plan"
    and loop: "validateCanonicalMembers_loop payload d srt 0 (plan_count plan) 4 None = Inr u"
    by (auto simp: validateCanonicalMembers.simps res_bind_Inr_iff split: if_splits)
  from members_loop_sound [OF assms(1) loop p4] obtain ts where ts: "length ts = plan_count plan"
      "drop 4 payload = frames (map cenc ts)" "list_all cwf ts" "srt \<longrightarrow> sorted_wrt (<) (map cenc ts)"
    by auto
  have c: "unat (BigEndian_Uint32 (take 4 payload)) = length ts" "length ts \<le> 256"
    using allocationPlan_count [OF plan] ts(1) by (simp_all add: unat_ucast_32_64)
  have "(of_nat (length ts) :: u32) = BigEndian_Uint32 (take 4 payload)"
    by (simp flip: c(1))
  then show ?thesis using ts c(2) count_prefix [OF p4] by (intro exI [of _ ts]) simp
qed

lemma map_sound:
  assumes "small_sound payload"
    and ok: "validateCanonicalMap payload d = Inr u"
  shows "\<exists>es. payload = cpayload (CMap es) \<and> cshape (CMap es)"
proof -
  from ok obtain plan where p4: "4 \<le> length payload"
    and plan: "allocationPlan (ucast (BigEndian_Uint32 (take 4 payload))) 2 (length payload - 4) ''entries'' = Inr plan"
    and loop: "validateCanonicalMap_loop payload d 0 (plan_count plan) 4 None = Inr u"
    by (auto simp: validateCanonicalMap.simps res_bind_Inr_iff split: if_splits)
  from map_loop_sound [OF assms(1) loop p4] obtain es where es: "length es = plan_count plan"
      "drop 4 payload = frames (concat (map (\<lambda>e. [node canonicalStringTag (fst e), cenc (snd e)]) es))"
      "list_all (\<lambda>e. ValidString (fst e) \<and> length (fst e) \<le> MaxCanonicalMapKeyBytes \<and> cwf (snd e)) es"
      "sorted_wrt (<) (map (\<lambda>e. node canonicalStringTag (fst e)) es)"
    by auto
  have c: "unat (BigEndian_Uint32 (take 4 payload)) = length es" "length es \<le> 256"
    using allocationPlan_count [OF plan] es(1) by (simp_all add: unat_ucast_32_64)
  have "(of_nat (length es) :: u32) = BigEndian_Uint32 (take 4 payload)"
    by (simp flip: c(1))
  then have "payload = cpayload (CMap es)"
    using count_prefix [OF p4] es(2) by (simp add: map_concat comp_def)
  moreover have "cshape (CMap es)"
    using c(2) es(3,4) by (auto simp: canonical_limits list_all_iff cwf_def)
  ultimately show ?thesis by blast
qed

lemma node_of_raw:
  assumes "10 \<le> length raw" and "len = unat (BigEndian_Uint64 (slice 2 10 raw))"
    and "len \<le> length raw - 10"
  shows "take (10 + len) raw = node (BigEndian_Uint16 (take 2 raw)) (slice 10 (10 + len) raw)"
proof -
  have "take (10 + len) raw = take 2 raw @ slice 2 10 raw @ slice 10 (10 + len) raw"
    using take_add [of 2 "8 + len" raw] take_add [of 8 len "drop 2 raw"] by (simp add: slice_def)
  moreover have "take 2 raw = encodeUint16 (BigEndian_Uint16 (take 2 raw))"
    using assms(1) by (simp add: encodeUint_BigEndian)
  moreover have "slice 2 10 raw = encodeUint64 (of_nat len)"
    using assms(1,2) by (simp add: encodeUint_BigEndian)
  moreover have "length (slice 10 (10 + len) raw) = len"
    using assms by (simp add: slice_def)
  ultimately show ?thesis by (simp add: node_def encodeBytes_def)
qed

text \<open>The payload checks of one node: what they accept is the payload of a tree.\<close>

definition check_payload :: "u16 \<Rightarrow> bytes \<Rightarrow> nat \<Rightarrow> unit result" where
  "check_payload tg payload depth =
     (if tg = canonicalNullTag then
        (if length payload \<noteq> 0 then Inl (canonicalInvalid CodeShapeInvalid ''value'') else Inr ())
      else if tg = canonicalStringTag then
        (if \<not> ValidString payload then Inl (canonicalInvalid CodeValueInvalid ''value'')
         else if MaxCanonicalStringBytes < length payload
         then Inl (canonicalInvalid CodeLimitExceeded ''value'') else Inr ())
      else if tg = canonicalListTag \<or> tg = canonicalSetTag then
        validateCanonicalMembers payload depth (tg = canonicalSetTag)
      else if tg = canonicalMapTag then validateCanonicalMap payload depth
      else Inl (canonicalInvalid CodeValueInvalid ''value''))"

lemma decode_unfold:
  "decodeCanonicalNode raw depth =
     (if MaxCanonicalValueDepth < depth \<or> length raw < 10
      then Inl (canonicalInvalid CodeShapeInvalid ''value'')
      else let tg = BigEndian_Uint16 (take 2 raw);
               len = unat (BigEndian_Uint64 (slice 2 10 raw)) in
        if length raw - 10 < len \<or> MaxCanonicalValueBytes < len
        then Inl (canonicalInvalid CodeShapeInvalid ''value'')
        else let stop = 10 + len; payload = slice 10 stop raw in
          res_bind (check_payload tg payload depth)
            (\<lambda>_. res_bind (canonicalMetrics (take stop raw) 1)
              (\<lambda>metrics. Inr (canonicalNode tg payload (cm_depth metrics) (cm_nodes metrics), stop))))"
  by (simp add: decodeCanonicalNode.simps [of raw] check_payload_def cong: if_cong)

lemma check_payload_sound:
  assumes kids: "small_sound payload"
    and ok: "check_payload tg payload depth = Inr u"
  shows "\<exists>t. ctag t = tg \<and> cpayload t = payload \<and> cshape t"
proof -
  consider "tg = canonicalNullTag" | "tg = canonicalStringTag" | "tg = canonicalListTag"
    | "tg = canonicalSetTag" | "tg = canonicalMapTag"
    using ok by (auto simp: check_payload_def split: if_splits)
  then show ?thesis
  proof cases
    case 1
    with ok show ?thesis by (intro exI [of _ CNull]) (simp add: check_payload_def split: if_splits)
  next
    case 2
    with ok show ?thesis
      by (intro exI [of _ "CString payload"]) (auto simp: check_payload_def split: if_splits)
  next
    case 3
    with ok have "validateCanonicalMembers payload depth False = Inr u"
      by (simp add: check_payload_def)
    from members_sound [OF kids this] 3 show ?thesis
      by (elim exE) (rule_tac x = "CList ts" in exI, auto simp: canonical_limits list_all_iff cwf_def)
  next
    case 4
    with ok have "validateCanonicalMembers payload depth True = Inr u"
      by (simp add: check_payload_def)
    from members_sound [OF kids this] 4 show ?thesis
      by (elim exE) (rule_tac x = "CSet ts" in exI, auto simp: canonical_limits list_all_iff cwf_def)
  next
    case 5
    with ok have "validateCanonicalMap payload depth = Inr u"
      by (simp add: check_payload_def)
    from map_sound [OF kids this] 5 show ?thesis by (metis ctag.simps(4))
  qed
qed

lemma metric_ok_climits:
  "length (cenc t) \<le> MaxCanonicalValueBytes \<Longrightarrow> metric_ok 1 t \<longleftrightarrow> climits t"
  by (cases t) (auto simp: metric_ok_def climits_def canonical_limits)

lemma decode_sound_all: "length raw \<le> MaxCanonicalValueBytes \<Longrightarrow> decode_sound raw"
proof (induction "length raw" arbitrary: raw rule: less_induct)
  case less
  show ?case
    unfolding decode_sound_def
  proof (intro allI impI)
    fix d v n assume dec: "decodeCanonicalNode raw d = Inr (v, n)"
    define tg where "tg = BigEndian_Uint16 (take 2 raw)"
    define len where "len = unat (BigEndian_Uint64 (slice 2 10 raw))"
    define payload where "payload = slice 10 (10 + len) raw"
    from dec obtain u m where g: "10 \<le> length raw" "len \<le> length raw - 10"
      and cp: "check_payload tg payload d = Inr u"
      and me: "canonicalMetrics (take (10 + len) raw) 1 = Inr m"
      and v: "v = canonicalNode tg payload (cm_depth m) (cm_nodes m)" "n = 10 + len"
      by (auto simp: decode_unfold [of raw] Let_def res_bind_Inr_iff tg_def len_def payload_def
          split: if_splits)
    have lp: "length payload < length raw" using g by (simp add: payload_def slice_def)
    have "small_sound payload" using lp less.hyps by (auto simp: small_sound_def)
    from check_payload_sound [OF this cp] obtain t where t: "ctag t = tg" "cpayload t = payload" "cshape t"
      by blast
    have ce: "take (10 + len) raw = cenc t"
      using node_of_raw [OF g(1) len_def g(2)] t by (simp add: cenc_payload tg_def payload_def)
    have lc: "length (cenc t) = 10 + len" "length (cenc t) \<le> MaxCanonicalValueBytes"
      using ce g less.prems by (metis add_leD2 le_diff_conv2 length_take min_absorb2 add.commute)
        (use ce less.prems in \<open>metis length_take min.coboundedI1 order_trans\<close>)
    have "metric_ok 1 t" "m = metric_of 1 t"
      using me metrics_cenc [OF t(3) lc(2), of 1] by (simp_all add: ce split: if_splits)
    then have "climits t" "v = repr t"
      using metric_ok_climits [OF lc(2)] t v(1)
      by (simp_all add: metric_of_def repr_def canonicalNode_def cenc_payload node_def)
    then show "\<exists>t. decoded raw v n t"
      using t(3) ce lc(1) v(2) by (intro exI [of _ t]) (simp add: decoded_def cwf_def)
  qed
qed

subsection \<open>Completeness\<close>

definition decodes :: "nat \<Rightarrow> ctree \<Rightarrow> bool" where
  "decodes d t \<longleftrightarrow> length (cenc t) \<le> MaxCanonicalValueBytes
     \<and> decodeCanonicalNode (cenc t) d = Inr (repr t, length (cenc t))"

lemma members_loop_complete:
  assumes "\<forall>t \<in> set ts. decodes (d + 1) t"
    and "srt \<longrightarrow> sorted_wrt (<) ((case prev of None \<Rightarrow> [] | Some p \<Rightarrow> [p]) @ map cenc ts)"
  shows "validateCanonicalMembers_loop (pre @ frames (map cenc ts)) d srt index (index + length ts)
           (length pre) prev = Inr ()"
  using assms
proof (induction ts arbitrary: pre index prev)
  case Nil
  then show ?case by (simp add: validateCanonicalMembers_loop.simps)
next
  case (Cons t ts)
  let ?pl = "pre @ frames (map cenc (t # ts))"
  have t: "decodes (d + 1) t" using Cons.prems by simp
  then have fc: "framedChild ?pl (length pre) = Inr (cenc t, length pre + 8 + length (cenc t))"
    by (intro framedChild_at [where post = "frames (map cenc ts)"]) (auto simp: decodes_def)
  have "srt \<longrightarrow> sorted_wrt (<) (cenc t # map cenc ts)"
    using Cons.prems(2) by (auto split: option.splits)
  then have IH: "validateCanonicalMembers_loop ((pre @ encodeBytes (cenc t)) @ frames (map cenc ts)) d srt
      (Suc index) (Suc index + length ts) (length (pre @ encodeBytes (cenc t))) (Some (cenc t)) = Inr ()"
    using Cons.prems by (intro Cons.IH) simp_all
  have "\<not> (srt \<and> (case prev of None \<Rightarrow> False | Some p \<Rightarrow> \<not> p < cenc t))"
    using Cons.prems(2) by (auto split: option.splits)
  then show ?case
    using IH fc t by (subst validateCanonicalMembers_loop.simps) (simp add: decodes_def add.assoc)
qed

lemma map_loop_complete:
  assumes "\<forall>e \<in> set es. decodes (d + 1) (CString (fst e)) \<and> decodes (d + 1) (snd e)
        \<and> length (fst e) \<le> MaxCanonicalMapKeyBytes"
    and "sorted_wrt (<) ((case prev of None \<Rightarrow> [] | Some p \<Rightarrow> [p])
        @ map (\<lambda>e. node canonicalStringTag (fst e)) es)"
  shows "validateCanonicalMap_loop
           (pre @ frames (concat (map (\<lambda>e. [node canonicalStringTag (fst e), cenc (snd e)]) es)))
           d index (index + length es) (length pre) prev = Inr ()"
  using assms
proof (induction es arbitrary: pre index prev)
  case Nil
  then show ?case by (simp add: validateCanonicalMap_loop.simps)
next
  case (Cons e es)
  let ?key = "node canonicalStringTag (fst e)" and ?val = "cenc (snd e)"
  let ?rest = "frames (concat (map (\<lambda>e. [node canonicalStringTag (fst e), cenc (snd e)]) es))"
  let ?pl = "pre @ encodeBytes ?key @ encodeBytes ?val @ ?rest"
  have k: "decodes (d + 1) (CString (fst e))" and v: "decodes (d + 1) (snd e)"
    and kl: "length (fst e) \<le> MaxCanonicalMapKeyBytes"
    using Cons.prems by simp_all
  have fk: "framedChild ?pl (length pre) = Inr (?key, length pre + 8 + length ?key)"
    using k by (intro framedChild_at [where post = "encodeBytes ?val @ ?rest"]) (auto simp: decodes_def)
  have fv: "framedChild ?pl (length pre + 8 + length ?key) =
      Inr (?val, length pre + 8 + length ?key + 8 + length ?val)"
    using v by (intro framedChild_at [where pre = "pre @ encodeBytes ?key" and post = ?rest])
      (auto simp: decodes_def)
  have "sorted_wrt (<) (?key # map (\<lambda>e. node canonicalStringTag (fst e)) es)"
    using Cons.prems(2) by (auto split: option.splits)
  then have IH: "validateCanonicalMap_loop ((pre @ encodeBytes ?key @ encodeBytes ?val) @ ?rest) d
      (Suc index) (Suc index + length es) (length (pre @ encodeBytes ?key @ encodeBytes ?val)) (Some ?key) = Inr ()"
    using Cons.prems by (intro Cons.IH) simp_all
  have "\<not> (case prev of None \<Rightarrow> False | Some p \<Rightarrow> \<not> p < ?key)"
    using Cons.prems(2) by (auto split: option.splits)
  then show ?case
    using IH fk fv k v kl
    by (subst validateCanonicalMap_loop.simps)
      (simp add: decodes_def add.assoc EncodedSize_def repr_def)
qed

lemma unat_ucast_count: "n \<le> 256 \<Longrightarrow> (ucast (of_nat n :: u32) :: u64) = of_nat n"
  by (rule word_unat_eq_iff [THEN iffD2]) (simp add: unat_ucast_32_64 unat_of_nat_32 unat_of_nat_64)

lemma length_frames_members: "8 * length cs \<le> length (frames cs)"
  by (induction cs) simp_all

lemma check_payload_complete:
  assumes wf: "cwf t" and kids: "\<forall>k \<in> set (kids t). decodes (d + 1) k"
  shows "check_payload (ctag t) (cpayload t) d = Inr ()"
proof (cases "leaf t")
  case True
  with wf show ?thesis by (cases t) (simp_all add: check_payload_def cwf_def)
next
  case False
  have cl: "ccount t \<le> 256" and sh: "cshape t" using wf ccount_le by (auto simp: cwf_def)
  have pay: "cpayload t = encodeUint32 (of_nat (ccount t)) @ frames (map cenc (kids t))"
    by (rule cpayload_collection [OF False])
  let ?f = "if ctag t = canonicalMapTag then 2 else 1 :: u64"
  have mem: "ccount t * unat ?f * 8 \<le> length (frames (map cenc (kids t)))"
    using length_frames_members [of "map cenc (kids t)"] length_kids [OF False] by (auto split: if_splits)
  have sz: "length (frames (map cenc (kids t))) < 2 ^ 64"
    using wf by (simp add: cwf_def climits_def cenc_payload pay canonical_limits)
  have plan: "allocationPlan (of_nat (ccount t)) ?f (length (frames (map cenc (kids t)))) path =
      Inr \<lparr>plan_count = ccount t, plan_minimumSize = ccount t * unat ?f * 8\<rparr>" for path
    by (intro allocationPlan_ok cl mem sz) simp
  have mloop: "validateCanonicalMembers (cpayload t) d srt = Inr ()"
    if "ctag t \<noteq> canonicalMapTag" "srt \<longrightarrow> sorted_wrt (<) (map cenc (kids t))" for srt
    using members_loop_complete [OF kids, of srt None "encodeUint32 (of_nat (ccount t))" 0] that plan
      length_kids [OF False]
    by (simp add: validateCanonicalMembers.simps pay unat_ucast_count cl)
  show ?thesis
  proof (cases t)
    case (CMap es)
    have "\<forall>e \<in> set es. decodes (d + 1) (CString (fst e)) \<and> decodes (d + 1) (snd e)
        \<and> length (fst e) \<le> MaxCanonicalMapKeyBytes"
      using kids sh CMap by (auto simp: list_all_iff)
    from map_loop_complete [OF this, of None "encodeUint32 (of_nat (ccount t))" 0] sh plan
    show ?thesis
      using CMap cl pay
      by (simp add: check_payload_def validateCanonicalMap.simps unat_ucast_count map_concat comp_def)
  next
    case (CList ts)
    with mloop [of False] show ?thesis by (simp add: check_payload_def)
  next
    case (CSet ts)
    with mloop [of True] sh show ?thesis by (simp add: check_payload_def)
  qed (use False in simp_all)
qed

lemma decode_complete:
  "cwf t \<Longrightarrow> d + cdepth t \<le> MaxCanonicalValueDepth + 1 \<Longrightarrow> decodes d t"
proof (induction "length (cenc t)" arbitrary: t d rule: less_induct)
  case less
  have wf: "cshape t" "climits t" and lm: "length (cenc t) \<le> MaxCanonicalValueBytes"
    using less.prems(1) by (simp_all add: cwf_def climits_def)
  have "\<forall>k \<in> set (kids t). decodes (d + 1) k"
  proof
    fix k assume k: "k \<in> set (kids t)"
    show "decodes (d + 1) k"
      using kid_length [OF k] kid_cwf [OF less.prems(1) k] kid_cdepth [OF k] less.prems(2)
      by (intro less.hyps) auto
  qed
  from check_payload_complete [OF less.prems(1) this]
  have cp: "check_payload (ctag t) (cpayload t) d = Inr ()" .
  have p64: "length (cpayload t) < 2 ^ 64" and len: "length (cenc t) = 10 + length (cpayload t)"
    using lm by (simp_all add: cenc_payload canonical_limits)
  have pl: "unat (BigEndian_Uint64 (slice 2 10 (cenc t))) = length (cpayload t)"
    using unat_slice_node [OF p64, where r = "[]"] by (simp add: cenc_payload)
  have sl: "slice 10 (10 + length (cpayload t)) (cenc t) = cpayload t"
    using slice_node(2) [of "cpayload t" "ctag t" "[]"] by (simp add: cenc_payload)
  have tg: "BigEndian_Uint16 (take 2 (cenc t)) = ctag t" by (simp add: cenc_payload)
  have me: "canonicalMetrics (cenc t) 1 = Inr (metric_of 1 t)"
    using metrics_cenc [OF wf(1) lm, of 1] metric_ok_climits [OF lm] wf(2) by simp
  have "d \<le> MaxCanonicalValueDepth" using less.prems(2) cdepth_pos(1) [of t] by linarith
  then have "decodeCanonicalNode (cenc t) d = Inr (canonicalNode (ctag t) (cpayload t) (cdepth t) (cnodes t), length (cenc t))"
    using cp me lm len pl sl tg
    by (simp add: decode_unfold [of "cenc t"] Let_def metric_of_def)
  then show ?case
    using lm by (simp add: decodes_def repr_def canonicalNode_def cenc_payload node_def)
qed

subsection \<open>Uniqueness of encodings\<close>

lemma frames_inject:
  "length cs = length ds \<Longrightarrow> \<forall>c \<in> set cs \<union> set ds. fits64 c \<Longrightarrow> frames cs = frames ds \<Longrightarrow> cs = ds"
proof (induction cs ds rule: list_induct2)
  case (Cons c cs d ds)
  from Cons.prems have "c = d \<and> frames cs = frames ds"
    by (intro encodeBytes_prefix) auto
  with Cons show ?case by simp
qed simp

lemma kids_inject:
  assumes "ctag t = ctag u" and "kids t = kids u" and "\<not> leaf t"
  shows "t = u"
proof -
  have "es = fs" if "concat (map (\<lambda>e. [CString (fst e), snd e]) es) = concat (map (\<lambda>e. [CString (fst e), snd e]) fs)"
    for es fs :: "(bytes \<times> ctree) list"
    using that
  proof (induction es arbitrary: fs)
    case Nil
    then show ?case by (cases fs) simp_all
  next
    case (Cons e es)
    then show ?case by (cases fs) (auto simp: prod_eq_iff)
  qed
  then show ?thesis using assms by (cases t; cases u) auto
qed

lemma node_inject: "fits64 p \<Longrightarrow> fits64 q \<Longrightarrow> node a p = node b q \<Longrightarrow> a = b \<and> p = q"
  using encodeBytes_inject [of p q] by (auto simp: node_def append_eq_append_conv)

lemma cenc_inject:
  "cwf t \<Longrightarrow> cwf u \<Longrightarrow> cenc t = cenc u \<Longrightarrow> t = u"
proof (induction "length (cenc t)" arbitrary: t u rule: less_induct)
  case less
  have fit: "fits64 (cenc x)" if "cwf x" for x
    using that by (intro fits64_le [of _ MaxCanonicalValueBytes]) (auto simp: cwf_def climits_def canonical_limits)
  have fp: "fits64 (cpayload x)" if "cwf x" for x
    using fit [OF that] by (simp add: fits64_def cenc_payload)
  have tp: "ctag t = ctag u" "cpayload t = cpayload u"
    using node_inject [of "cpayload t" "cpayload u"] fp less.prems by (simp_all add: cenc_payload)
  show ?case
  proof (cases "leaf t")
    case True
    then show ?thesis using tp by (cases t; cases u) auto
  next
    case False
    then have lu: "\<not> leaf u" using tp(1) leaf_tag by metis
    have eq: "of_nat (ccount t) = (of_nat (ccount u) :: u32)"
      "frames (map cenc (kids t)) = frames (map cenc (kids u))"
      using tp(2) cpayload_collection [OF False] cpayload_collection [OF lu]
      by (simp_all add: append_eq_append_conv)
    have sh: "cshape t" "cshape u" using less.prems by (simp_all add: cwf_def)
    then have "ccount t = ccount u" using eq(1) unat_count32 by metis
    then have lk: "length (kids t) = length (kids u)"
      using length_kids [OF False] length_kids [OF lu] tp(1) by simp
    have "map cenc (kids t) = map cenc (kids u)"
      using lk eq(2) less.prems(1,2) by (intro frames_inject) (auto intro: fit kid_cwf)
    moreover have "k = l" if "k \<in> set (kids t)" "l \<in> set (kids u)" "cenc k = cenc l" for k l
      using that less.prems(1,2) kid_length [OF that(1)] by (intro less.hyps) (auto intro: kid_cwf)
    ultimately have "kids t = kids u"
      using lk by (auto simp: list_eq_iff_nth_eq in_set_conv_nth) metis
    then show ?thesis by (rule kids_inject [OF tp(1) _ False])
  qed
qed

end
