(* ===== verification/Canonical_Value_Props.thy ===== *)
theory Canonical_Value_Props
  imports Canonical_Value_Codec
begin

text \<open>
  The constructors of \<^verbatim>\<open>canonical_value_v1.go\<close> refine the tree constructors, and the
  properties of the component: what can be built, what can be parsed, how the order of
  the arguments matters, what the accessors return, and what a token identifies.
\<close>

subsection \<open>Constructors build representations of trees\<close>

definition rep :: "CanonicalValue \<Rightarrow> bool" where
  "rep v \<longleftrightarrow> (\<exists>t. cwf t \<and> v = repr t)"

lemma repI: "cwf t \<Longrightarrow> rep (repr t)"
  by (auto simp: rep_def)

lemma rep_list: "\<forall>v \<in> set vs. rep v \<Longrightarrow> \<exists>ts. vs = map repr ts \<and> (\<forall>t \<in> set ts. cwf t)"
proof (induction vs)
  case (Cons v vs)
  then obtain ts t where "vs = map repr ts" "\<forall>t \<in> set ts. cwf t" "cwf t" "v = repr t"
    by (auto simp: rep_def)
  then show ?case by (intro exI [of _ "t # ts"]) simp
qed simp

lemma repr_simps [simp]:
  "CanonicalBytes (repr t) = cenc t" "Depth (repr t) = cdepth t" "NodeCount (repr t) = cnodes t"
  "EncodedSize (repr t) = length (cenc t)" "Valid (repr t)"
  by (simp_all add: repr_def CanonicalBytes_def Depth_def NodeCount_def EncodedSize_def Valid_def)

lemma checked_repr:
  assumes "tg = ctag t" and "payload = cpayload t" and "depth = cdepth t" and "nodes = cnodes t"
  shows "checkedCanonicalNode tg payload depth nodes path =
     (if climits t then Inr (repr t) else Inl (canonicalInvalid CodeLimitExceeded path))"
  using assms
  by (auto simp: checkedCanonicalNode_def canonicalNode_def CanonicalBytes_def Let_def climits_def
      repr_def cenc_payload node_def)

lemma CanonicalNull_repr: "CanonicalNull = repr CNull"
  by (simp add: CanonicalNull_def canonicalNode_def repr_def node_def)

lemma CanonicalString_repr:
  "CanonicalString s = Inr v \<longleftrightarrow> cwf (CString s) \<and> v = repr (CString s)"
  by (auto simp: CanonicalString_def cwf_def checked_repr [of _ "CString s"] split: if_splits)

lemma cwf_string: "cshape (CString s) \<Longrightarrow> cwf (CString s)"
  by (simp add: cwf_def climits_def canonical_limits)

lemma CanonicalList_loop_repr:
  "CanonicalList_loop index (map repr ts) cs d n =
     Inr (cs @ map cenc ts, max_of d (map (\<lambda>t. cdepth t + 1) ts), n + sum_list (map cnodes ts))"
proof (induction ts arbitrary: index cs d n)
  case (Cons t ts)
  have "(if d < cdepth t + 1 then cdepth t + 1 else d) = max d (cdepth t + 1)" by simp
  then show ?case using Cons by (simp add: repr_def)
qed simp

lemma CanonicalList_repr:
  "CanonicalList (map repr ts) =
     (if MaxCanonicalCollectionMembers < length ts
      then Inl (canonicalInvalid CodeLimitExceeded ''members'')
      else if climits (CList ts) then Inr (repr (CList ts))
      else Inl (canonicalInvalid CodeLimitExceeded ''members''))"
  by (simp add: CanonicalList_def CanonicalList_loop_repr canonicalCollection_def frames_def
      checked_repr [of _ "CList ts"] del: max_of_Cons)

lemma CanonicalList_valid: "CanonicalList vs = Inr v \<Longrightarrow> length vs \<le> MaxCanonicalCollectionMembers"
  by (simp add: CanonicalList_def split: if_splits)

subsection \<open>Maps\<close>

definition entry_of :: "bytes \<times> ctree \<Rightarrow> CanonicalMapEntry" where
  "entry_of e = \<lparr>me_Key = fst e, me_Value = repr (snd e)\<rparr>"

definition ee_of :: "bytes \<times> ctree \<Rightarrow> encodedEntry" where
  "ee_of e = \<lparr>ee_key = node canonicalStringTag (fst e), ee_value = cenc (snd e),
              ee_depth = cdepth (snd e), ee_nodes = cnodes (snd e)\<rparr>"

lemma entry_of_sel [simp]: "me_Key (entry_of e) = fst e" "me_Value (entry_of e) = repr (snd e)"
  by (simp_all add: entry_of_def)

definition key_ok :: "bytes \<Rightarrow> bool" where
  "key_ok k \<longleftrightarrow> ValidString k \<and> length k \<le> MaxCanonicalMapKeyBytes"

definition sort_entries :: "(bytes \<times> ctree) list \<Rightarrow> (bytes \<times> ctree) list" where
  "sort_entries es = sort_key (\<lambda>e. node canonicalStringTag (fst e)) es"

lemma sort_entries_basic [simp]: "length (sort_entries es) = length es" "set (sort_entries es) = set es"
  "mset (sort_entries es) = mset es"
  by (simp_all add: sort_entries_def)

lemma key_ok_string: "key_ok k \<Longrightarrow> CanonicalString k = Inr (repr (CString k))"
  unfolding CanonicalString_repr
  by (intro conjI cwf_string) (auto simp: key_ok_def canonical_limits)

lemma insort_key_map: "insort_key f (g x) (map g xs) = map g (insort_key (\<lambda>y. f (g y)) x xs)"
  by (induction xs) simp_all

lemma sort_key_map: "sort_key f (map g xs) = map g (sort_key (\<lambda>y. f (g y)) xs)"
  by (induction xs) (simp_all add: insort_key_map)

lemma CanonicalMap_loop_repr:
  "distinct (map fst es) \<Longrightarrow> set (map fst es) \<inter> set seen = {} \<Longrightarrow> \<forall>e \<in> set es. key_ok (fst e) \<Longrightarrow>
     CanonicalMap_loop index (map entry_of es) seen acc = Inr (acc @ map ee_of es)"
proof (induction es arbitrary: index seen acc)
  case (Cons e es)
  have k: "CanonicalString (fst e) = Inr (repr (CString (fst e)))"
    using Cons.prems by (intro key_ok_string) simp
  have "CanonicalMap_loop (Suc index) (map entry_of es) (fst e # seen) (acc @ [ee_of e])
      = Inr ((acc @ [ee_of e]) @ map ee_of es)"
    using Cons.prems by (intro Cons.IH) auto
  moreover have "fst e \<notin> set seen" "key_ok (fst e)" using Cons.prems by auto
  ultimately show ?case
    using k by (simp add: ee_of_def [of e] key_ok_def Let_def repr_def [of "snd e"])
qed simp

lemma CanonicalMap_emit_repr:
  "CanonicalMap_emit (map ee_of es) p d n =
     (p @ frames (concat (map (\<lambda>e. [node canonicalStringTag (fst e), cenc (snd e)]) es)),
      max_of d (map (\<lambda>e. cdepth (snd e) + 1) es), n + sum_list (map (\<lambda>e. 1 + cnodes (snd e)) es))"
proof (induction es arbitrary: p d n)
  case (Cons e es)
  have "(if d < cdepth (snd e) + 1 then cdepth (snd e) + 1 else d) = max d (cdepth (snd e) + 1)" by simp
  then show ?case using Cons by (simp add: ee_of_def Let_def)
qed simp

lemma CanonicalMap_repr:
  assumes "distinct (map fst es)" and "\<forall>e \<in> set es. key_ok (fst e)"
    and "length es \<le> MaxCanonicalCollectionMembers"
  shows "CanonicalMap (map entry_of es) =
     (if climits (CMap (sort_entries es)) then Inr (repr (CMap (sort_entries es)))
      else Inl (canonicalInvalid CodeLimitExceeded ''entries''))"
proof -
  have loop: "CanonicalMap_loop 0 (map entry_of es) [] [] = Inr (map ee_of es)"
    using CanonicalMap_loop_repr [OF assms(1) _ assms(2), of "[]"] by simp
  have srt: "sort_key ee_key (map ee_of es) = map ee_of (sort_entries es)"
    by (simp add: sort_key_map sort_entries_def ee_of_def)
  have ck: "checkedCanonicalNode canonicalMapTag
      (encodeUint32 (of_nat (length (sort_entries es))) @
       frames (concat (map (\<lambda>e. [node canonicalStringTag (fst e), cenc (snd e)]) (sort_entries es))))
      (max_of 1 (map (\<lambda>e. cdepth (snd e) + 1) (sort_entries es)))
      (1 + sum_list (map (\<lambda>e. 1 + cnodes (snd e)) (sort_entries es))) ''entries'' =
     (if climits (CMap (sort_entries es)) then Inr (repr (CMap (sort_entries es)))
      else Inl (canonicalInvalid CodeLimitExceeded ''entries''))"
    by (rule checked_repr) (simp_all add: map_concat comp_def)
  have "CanonicalMap (map entry_of es) =
      (let (payload, depth, nodes) =
         CanonicalMap_emit (map ee_of (sort_entries es)) (encodeUint32 (of_nat (length (sort_entries es)))) 1 1
       in checkedCanonicalNode canonicalMapTag payload depth nodes ''entries'')"
    using assms(3) by (simp add: CanonicalMap_def loop srt)
  then show ?thesis unfolding CanonicalMap_emit_repr Let_def prod.case ck .
qed

lemma CanonicalMap_loop_Inr:
  "CanonicalMap_loop index ens seen acc = Inr r \<Longrightarrow>
     distinct (map me_Key ens) \<and> set (map me_Key ens) \<inter> set seen = {} \<and> (\<forall>en \<in> set ens. key_ok (me_Key en))"
  by (induction index ens seen acc rule: CanonicalMap_loop.induct)
    (auto simp: Let_def key_ok_def split: if_splits option.splits)

lemma CanonicalMap_Inr:
  assumes "CanonicalMap ens = Inr v"
  shows "distinct (map me_Key ens)" and "\<forall>en \<in> set ens. key_ok (me_Key en)"
    and "length ens \<le> MaxCanonicalCollectionMembers"
  using assms CanonicalMap_loop_Inr [of 0 ens "[]" "[]"]
  by (auto simp: CanonicalMap_def res_bind_Inr_iff split: if_splits)

lemma rep_entries:
  "\<forall>en \<in> set ens. rep (me_Value en) \<Longrightarrow> \<exists>es. ens = map entry_of es \<and> (\<forall>e \<in> set es. cwf (snd e))"
proof (induction ens)
  case (Cons en ens)
  then obtain es t where es: "ens = map entry_of es" "\<forall>e \<in> set es. cwf (snd e)"
      "cwf t" "me_Value en = repr t"
    by (auto simp: rep_def)
  then show ?case by (intro exI [of _ "(me_Key en, t) # es"]) (simp add: entry_of_def)
qed simp

lemma node_key_inject:
  "key_ok a \<Longrightarrow> key_ok b \<Longrightarrow> node canonicalStringTag a = node canonicalStringTag b \<longleftrightarrow> a = b"
  using node_inject [of a b canonicalStringTag canonicalStringTag]
  by (auto simp: key_ok_def canonical_limits fits64_def)

lemma distinct_node_keys:
  assumes "distinct (map fst es)" and "\<forall>e \<in> set es. key_ok (fst e)"
  shows "distinct (map (\<lambda>e. node canonicalStringTag (fst e)) es)"
proof -
  have "inj_on (node canonicalStringTag) (set (map fst es))"
    using assms(2) node_key_inject by (intro inj_onI) auto
  with assms(1) have "distinct (map (node canonicalStringTag) (map fst es))"
    by (simp only: distinct_map)
  then show ?thesis by (simp add: comp_def)
qed

lemma cshape_sort_entries:
  assumes "distinct (map fst es)" and "\<forall>e \<in> set es. key_ok (fst e)"
    and "length es \<le> MaxCanonicalCollectionMembers" and "\<forall>e \<in> set es. cshape (snd e)"
  shows "cshape (CMap (sort_entries es))"
  using assms sort_key_slice.srt_strict [OF distinct_node_keys [OF assms(1,2)]]
  by (auto simp: sort_entries_def list_all_iff key_ok_def)

lemma CanonicalMap_rep:
  assumes "\<forall>en \<in> set ens. rep (me_Value en)" and "CanonicalMap ens = Inr v"
  shows "\<exists>es. ens = map entry_of es \<and> (\<forall>e \<in> set es. cwf (snd e)) \<and> distinct (map fst es)
     \<and> (\<forall>e \<in> set es. key_ok (fst e)) \<and> cwf (CMap (sort_entries es)) \<and> v = repr (CMap (sort_entries es))"
proof -
  from rep_entries [OF assms(1)] obtain es where es: "ens = map entry_of es" "\<forall>e \<in> set es. cwf (snd e)"
    by blast
  note inr = CanonicalMap_Inr [OF assms(2)]
  have d: "distinct (map fst es)" "\<forall>e \<in> set es. key_ok (fst e)" "length es \<le> MaxCanonicalCollectionMembers"
    using inr es(1) by (simp_all add: entry_of_def comp_def)
  have "climits (CMap (sort_entries es)) \<and> v = repr (CMap (sort_entries es))"
    using assms(2) CanonicalMap_repr [OF d] es(1) by (simp split: if_splits)
  moreover have "cshape (CMap (sort_entries es))"
    using d es(2) by (intro cshape_sort_entries) (auto simp: cwf_def)
  ultimately show ?thesis using es d by (auto simp: cwf_def)
qed

subsection \<open>Sets\<close>

lemma CanonicalSet_collect_repr:
  "CanonicalSet_collect index (map repr ts) acc = Inr (acc @ map (\<lambda>t. the (repr t)) ts)"
  by (induction ts arbitrary: index acc) (simp_all add: repr_def)

lemma cv_repr [simp]:
  "cv_encoded (the (repr t)) = cenc t" "cv_depth (the (repr t)) = cdepth t"
  "cv_nodes (the (repr t)) = cnodes t"
  by (simp_all add: repr_def)

lemma CanonicalSet_loop_repr:
  assumes "distinct ((case prev of None \<Rightarrow> [] | Some p \<Rightarrow> [p]) @ map cenc ts)"
  shows "CanonicalSet_loop index (map (\<lambda>t. the (repr t)) ts) prev cs d n =
     Inr (cs @ map cenc ts, max_of d (map (\<lambda>t. cdepth t + 1) ts), n + sum_list (map cnodes ts))"
  using assms
proof (induction ts arbitrary: index prev cs d n)
  case (Cons t ts)
  have "(if d < cdepth t + 1 then cdepth t + 1 else d) = max d (cdepth t + 1)" by simp
  moreover have "prev \<noteq> Some (cenc t)" "distinct (map cenc (t # ts))"
    using Cons.prems by (auto split: option.splits)
  ultimately show ?case using Cons.IH [where prev = "Some (cenc t)"] by simp
qed simp

lemma CanonicalSet_loop_dup:
  "sorted (map cenc ts) \<Longrightarrow> prev = None \<or> 0 < index \<Longrightarrow>
     \<not> distinct ((case prev of None \<Rightarrow> [] | Some p \<Rightarrow> [p]) @ map cenc ts) \<Longrightarrow>
     (\<forall>p. prev = Some p \<longrightarrow> (\<forall>t \<in> set ts. p \<le> cenc t)) \<Longrightarrow>
     \<exists>e. CanonicalSet_loop index (map (\<lambda>t. the (repr t)) ts) prev cs d n = Inl e \<and> Code e = CodeNonCanonical"
proof (induction ts arbitrary: index prev cs d n)
  case Nil
  then show ?case by (auto split: option.splits)
next
  case (Cons t ts)
  show ?case
  proof (cases "prev = Some (cenc t)")
    case True
    then show ?thesis using Cons.prems(2) by simp
  next
    case False
    have "\<not> distinct (cenc t # map cenc ts)"
    proof
      assume d: "distinct (cenc t # map cenc ts)"
      with Cons.prems(3) obtain p where p: "prev = Some p" "p \<in> set (map cenc (t # ts))"
        by (auto split: option.splits)
      then have "p \<le> cenc t" "cenc t \<le> p" using Cons.prems(1,4) by auto
      with False p(1) show False by simp
    qed
    then show ?thesis
      using Cons.IH [where index = "Suc index" and prev = "Some (cenc t)"] Cons.prems(1) False by simp
  qed
qed

definition sort_members :: "ctree list \<Rightarrow> ctree list" where
  "sort_members ts = sort_key cenc ts"

lemma sort_members_data:
  "sort_key cv_encoded (map (\<lambda>t. the (repr t)) ts) = map (\<lambda>t. the (repr t)) (sort_members ts)"
  by (simp add: sort_key_map sort_members_def)

lemma CanonicalSet_repr:
  assumes "length ts \<le> MaxCanonicalCollectionMembers" and "distinct (map cenc ts)"
  shows "CanonicalSet (map repr ts) =
      (if climits (CSet (sort_members ts)) then Inr (repr (CSet (sort_members ts)))
       else Inl (canonicalInvalid CodeLimitExceeded ''members''))"
proof -
  have "distinct (map cenc (sort_members ts))"
    using assms(2) sort_key_slice.srt_distinct [of cenc ts] by (simp add: sort_members_def)
  then have loop: "CanonicalSet_loop 0 (map (\<lambda>t. the (repr t)) (sort_members ts)) None [] 1 1 =
      Inr (map cenc (sort_members ts), max_of 1 (map (\<lambda>t. cdepth t + 1) (sort_members ts)),
           1 + sum_list (map cnodes (sort_members ts)))"
    using CanonicalSet_loop_repr [of None "sort_members ts"] by simp
  have ck: "canonicalCollection canonicalSetTag (map cenc (sort_members ts))
      (max_of 1 (map (\<lambda>t. cdepth t + 1) (sort_members ts))) (1 + sum_list (map cnodes (sort_members ts))) ''members'' =
      (if climits (CSet (sort_members ts)) then Inr (repr (CSet (sort_members ts)))
       else Inl (canonicalInvalid CodeLimitExceeded ''members''))"
    unfolding canonicalCollection_def by (rule checked_repr) (simp_all add: frames_def)
  have "CanonicalSet (map repr ts) =
      res_bind (CanonicalSet_loop 0 (map (\<lambda>t. the (repr t)) (sort_members ts)) None [] 1 1)
        (\<lambda>(children, depth, nodes). canonicalCollection canonicalSetTag children depth nodes ''members'')"
    using assms(1) by (simp add: CanonicalSet_def CanonicalSet_collect_repr sort_members_data)
  then show ?thesis unfolding loop res_bind_simps prod.case ck .
qed

lemma CanonicalSet_dup:
  assumes "length ts \<le> MaxCanonicalCollectionMembers" and "\<not> distinct (map cenc ts)"
  shows "\<exists>e. CanonicalSet (map repr ts) = Inl e \<and> Code e = CodeNonCanonical"
proof -
  have "\<not> distinct (map cenc (sort_members ts))" "sorted (map cenc (sort_members ts))"
    using assms(2) sort_key_slice.srt_distinct [of cenc ts] by (simp_all add: sort_members_def)
  then obtain e where
      "CanonicalSet_loop 0 (map (\<lambda>t. the (repr t)) (sort_members ts)) None [] 1 1 = Inl e"
      "Code e = CodeNonCanonical"
    using CanonicalSet_loop_dup [of "sort_members ts" None] by fastforce
  then show ?thesis
    using assms(1) by (simp add: CanonicalSet_def CanonicalSet_collect_repr sort_members_data)
qed

lemma CanonicalSet_rep:
  assumes "\<forall>v \<in> set vs. rep v" and "CanonicalSet vs = Inr v"
  shows "\<exists>ts. vs = map repr ts \<and> (\<forall>t \<in> set ts. cwf t) \<and> distinct (map cenc ts)
     \<and> cwf (CSet (sort_members ts)) \<and> v = repr (CSet (sort_members ts))"
proof -
  from rep_list [OF assms(1)] obtain ts where ts: "vs = map repr ts" "\<forall>t \<in> set ts. cwf t" by blast
  have l: "length ts \<le> MaxCanonicalCollectionMembers"
    using assms(2) ts(1) by (simp add: CanonicalSet_def split: if_splits)
  have d: "distinct (map cenc ts)"
    using CanonicalSet_dup [OF l] assms(2) ts(1) by force
  have lim: "climits (CSet (sort_members ts)) \<and> v = repr (CSet (sort_members ts))"
    using assms(2) CanonicalSet_repr [OF l d] ts(1) by (simp split: if_splits)
  have "cshape (CSet (sort_members ts))"
    using l ts(2) sort_key_slice.srt_strict [OF d]
    by (auto simp: sort_members_def list_all_iff cwf_def)
  then show ?thesis using ts d lim by (auto simp: cwf_def)
qed

subsection \<open>Accessors\<close>

lemma decode_ignored_cenc: "cwf t \<Longrightarrow> decode_ignored (cenc t) = repr t"
  using decode_complete [of t 1] by (auto simp: decode_ignored_def decodes_def cwf_def climits_def)

lemma framedChild_ignored_at:
  "length c \<le> MaxCanonicalValueBytes \<Longrightarrow>
     framedChild_ignored (pre @ encodeBytes c @ post) (length pre) = (c, length pre + 8 + length c)"
  using framedChild_at [of _ pre c post] by (simp add: framedChild_ignored_def)

lemma cwf_bytes: "cwf t \<Longrightarrow> length (cenc t) \<le> MaxCanonicalValueBytes"
  by (simp add: cwf_def climits_def)

lemma Elements_loop_frames:
  "\<forall>t \<in> set ts. cwf t \<Longrightarrow>
     Elements_loop (length ts) (pre @ frames (map cenc ts)) (length pre) = map repr ts"
proof (induction ts arbitrary: pre)
  case (Cons t ts)
  have "framedChild_ignored (pre @ encodeBytes (cenc t) @ frames (map cenc ts)) (length pre) =
      (cenc t, length pre + 8 + length (cenc t))"
    using Cons.prems by (intro framedChild_ignored_at cwf_bytes) simp
  then show ?case
    using Cons.IH [of "pre @ encodeBytes (cenc t)"] Cons.prems
    by (simp add: decode_ignored_cenc add.assoc)
qed simp

lemma Entries_loop_frames:
  "\<forall>e \<in> set es. cwf (snd e) \<and> key_ok (fst e) \<Longrightarrow>
     Entries_loop (length es)
       (pre @ frames (concat (map (\<lambda>e. [node canonicalStringTag (fst e), cenc (snd e)]) es))) (length pre)
     = map entry_of es"
proof (induction es arbitrary: pre)
  case (Cons e es)
  let ?key = "node canonicalStringTag (fst e)" and ?val = "cenc (snd e)"
  let ?rest = "frames (concat (map (\<lambda>e. [node canonicalStringTag (fst e), cenc (snd e)]) es))"
  have k: "cwf (CString (fst e))" and v: "cwf (snd e)"
    using Cons.prems by (auto intro!: cwf_string simp: key_ok_def canonical_limits)
  have "framedChild_ignored (pre @ encodeBytes ?key @ encodeBytes ?val @ ?rest) (length pre) =
      (?key, length pre + 8 + length ?key)"
    using cwf_bytes [OF k] by (intro framedChild_ignored_at) simp
  moreover have "framedChild_ignored ((pre @ encodeBytes ?key) @ encodeBytes ?val @ ?rest)
      (length (pre @ encodeBytes ?key)) = (?val, length (pre @ encodeBytes ?key) + 8 + length ?val)"
    using cwf_bytes [OF v] by (rule framedChild_ignored_at)
  moreover have "decode_ignored ?key = repr (CString (fst e))" "decode_ignored ?val = repr (snd e)"
    using decode_ignored_cenc [OF k] decode_ignored_cenc [OF v] by simp_all
  moreover have "fst (StringValue (repr (CString (fst e)))) = fst e"
    by (simp add: StringValue_def Kind_def repr_def CanonicalBytes_def Let_def)
  ultimately show ?case
    using Cons.IH [of "pre @ encodeBytes ?key @ encodeBytes ?val"] Cons.prems
    by (simp add: add.assoc entry_of_def)
qed simp

lemma Kind_repr:
  "Kind (repr t) = (case t of CNull \<Rightarrow> CanonicalValueKindNull | CString _ \<Rightarrow> CanonicalValueKindString
     | CList _ \<Rightarrow> CanonicalValueKindList | CMap _ \<Rightarrow> CanonicalValueKindMap | CSet _ \<Rightarrow> CanonicalValueKindSet)"
  by (cases t) (simp_all add: Kind_def repr_def Let_def)

lemma Elements_repr:
  assumes "cwf t" and "t = CList ts \<or> t = CSet ts"
  shows "Elements (repr t) = Some (map repr ts)"
proof -
  have k: "\<forall>u \<in> set ts. cwf u" using kid_cwf [OF assms(1)] assms(2) by auto
  have n: "unat (of_nat (length ts) :: u32) = length ts"
    using unat_count32 [of t] assms by (auto simp: cwf_def)
  have "Elements_loop (length ts) (encodeUint32 (of_nat (length ts)) @ frames (map cenc ts)) 4 = map repr ts"
    using Elements_loop_frames [OF k, of "encodeUint32 (of_nat (length ts))"] by simp
  then show ?thesis
    using assms(2) n by (auto simp: Elements_def Kind_repr Let_def)
qed

lemma Entries_repr:
  assumes "cwf (CMap es)"
  shows "Entries (repr (CMap es)) = Some (map entry_of es)"
proof -
  have k: "\<forall>e \<in> set es. cwf (snd e) \<and> key_ok (fst e)"
    using kid_cwf [OF assms] assms by (auto simp: key_ok_def cwf_def list_all_iff)
  have n: "unat (of_nat (length es) :: u32) = length es"
    using unat_count32 [of "CMap es"] assms by (auto simp: cwf_def)
  show ?thesis
    using Entries_loop_frames [OF k, of "encodeUint32 (of_nat (length es))"] n
    by (simp add: Entries_def Kind_repr Let_def)
qed

subsection \<open>Every value of the package\<close>

text \<open>
  The values a caller can hold: built by the exported constructors from other such values,
  or returned by the parser.
\<close>

inductive constructible :: "CanonicalValue \<Rightarrow> bool" where
  null: "constructible CanonicalNull"
| string: "CanonicalString s = Inr v \<Longrightarrow> constructible v"
| list: "\<forall>w \<in> set vs. constructible w \<Longrightarrow> CanonicalList vs = Inr v \<Longrightarrow> constructible v"
| map: "\<forall>en \<in> set ens. constructible (me_Value en) \<Longrightarrow> CanonicalMap ens = Inr v \<Longrightarrow> constructible v"
| set: "\<forall>w \<in> set vs. constructible w \<Longrightarrow> CanonicalSet vs = Inr v \<Longrightarrow> constructible v"
| parse: "ParseCanonicalValueEnvelope raw = Inr v \<Longrightarrow> constructible v"

lemma parse_iff:
  "ParseCanonicalValueEnvelope raw = Inr v \<longleftrightarrow> (\<exists>t. cwf t \<and> raw = cenc t \<and> v = repr t)"
proof
  assume p: "ParseCanonicalValueEnvelope raw = Inr v"
  then have l: "length raw \<le> MaxCanonicalValueBytes" and d: "decodeCanonicalNode raw 1 = Inr (v, length raw)"
    by (auto simp: ParseCanonicalValueEnvelope_def res_bind_Inr_iff split: if_splits)
  from decode_soundD [OF decode_sound_all [OF l] d] show "\<exists>t. cwf t \<and> raw = cenc t \<and> v = repr t"
    by (auto simp: decoded_def)
next
  assume "\<exists>t. cwf t \<and> raw = cenc t \<and> v = repr t"
  then obtain t where t: "cwf t" "raw = cenc t" "v = repr t" by blast
  have "decodes 1 t" using t(1) by (intro decode_complete) (auto simp: cwf_def climits_def)
  with t show "ParseCanonicalValueEnvelope raw = Inr v"
    by (simp add: ParseCanonicalValueEnvelope_def decodes_def)
qed

lemma constructible_rep: "constructible v \<Longrightarrow> rep v"
proof (induction rule: constructible.induct)
  case null
  then show ?case
    using repI [of CNull] by (simp add: CanonicalNull_repr cwf_def climits_def canonical_limits)
next
  case (string s v)
  then show ?case by (auto simp: CanonicalString_repr intro: repI)
next
  case (list vs v)
  then obtain ts where ts: "vs = map repr ts" "\<forall>t \<in> set ts. cwf t" using rep_list [of vs] by auto
  with list(2) have "climits (CList ts)" "v = repr (CList ts)" "length ts \<le> MaxCanonicalCollectionMembers"
    by (auto simp: CanonicalList_repr split: if_splits)
  with ts(2) show ?case
    unfolding rep_def by (intro exI [of _ "CList ts"]) (simp add: cwf_def list_all_iff)
next
  case (map ens v)
  then show ?case using CanonicalMap_rep [of ens v] by (auto simp: rep_def)
next
  case (set vs v)
  then show ?case using CanonicalSet_rep [of vs v] by (auto simp: rep_def)
next
  case (parse raw v)
  then show ?case by (auto simp: parse_iff rep_def)
qed

lemma rep_constructible: "rep v \<Longrightarrow> constructible v"
  unfolding rep_def using parse_iff constructible.parse by blast

lemma mset_map_lift:
  "mset ys = mset (map f xs) \<Longrightarrow> \<exists>zs. mset zs = mset xs \<and> ys = map f zs"
proof (induction ys arbitrary: xs)
  case (Cons y ys)
  then have "y \<in> set (map f xs)" by (metis list.set_intros(1) mset_eq_setD)
  then obtain x pre post where x: "y = f x" "xs = pre @ x # post"
    by (metis (no_types, opaque_lifting) image_iff in_set_conv_decomp list.set_map)
  with Cons.prems have "mset ys = mset (map f (pre @ post))" by simp
  from Cons.IH [OF this] obtain zs where "mset zs = mset (pre @ post)" "ys = map f zs" by blast
  with x show ?case by (intro exI [of _ "x # zs"]) simp
qed simp

lemma sort_entries_perm:
  "distinct (map fst es) \<Longrightarrow> \<forall>e \<in> set es. key_ok (fst e) \<Longrightarrow> mset fs = mset es \<Longrightarrow>
     sort_entries fs = sort_entries es"
  unfolding sort_entries_def by (rule sort_key_slice.srt_perm [OF distinct_node_keys])

lemma CanonicalMap_perm:
  assumes "\<forall>en \<in> set ens. constructible (me_Value en)" and "CanonicalMap ens = Inr v"
    and "mset ens' = mset ens"
  shows "CanonicalMap ens' = Inr v"
proof -
  from assms(1,2) obtain es where es: "ens = map entry_of es" "distinct (map fst es)"
      "\<forall>e \<in> set es. key_ok (fst e)" "cwf (CMap (sort_entries es))" "v = repr (CMap (sort_entries es))"
    using CanonicalMap_rep [of ens v] constructible_rep by blast
  from assms(3) obtain fs where fs: "mset fs = mset es" "ens' = map entry_of fs"
    using mset_map_lift [of ens' entry_of es] es(1) by auto
  have "mset (map fst fs) = mset (map fst es)" using fs(1) by simp
  then have d: "distinct (map fst fs)" using es(2) mset_eq_imp_distinct_iff by blast
  have k: "\<forall>e \<in> set fs. key_ok (fst e)" using es(3) fs(1) mset_eq_setD by blast
  have "length fs \<le> MaxCanonicalCollectionMembers"
    using CanonicalMap_Inr(3) [OF assms(2)] assms(3) fs(2) by (metis length_map mset_eq_length)
  from CanonicalMap_repr [OF d k this] show ?thesis
    using fs(2) es(4,5) sort_entries_perm [OF es(2,3) fs(1)] by (simp add: cwf_def)
qed

lemma CanonicalSet_perm:
  assumes "\<forall>w \<in> set vs. constructible w" and "CanonicalSet vs = Inr v" and "mset vs' = mset vs"
  shows "CanonicalSet vs' = Inr v"
proof -
  from assms(1,2) obtain ts where ts: "vs = map repr ts" "distinct (map cenc ts)"
      "cwf (CSet (sort_members ts))" "v = repr (CSet (sort_members ts))"
    using CanonicalSet_rep [of vs v] constructible_rep by blast
  from assms(3) obtain us where us: "mset us = mset ts" "vs' = map repr us"
    using mset_map_lift [of vs' repr ts] ts(1) by auto
  have "mset (map cenc us) = mset (map cenc ts)" using us(1) by simp
  then have d: "distinct (map cenc us)" using ts(2) mset_eq_imp_distinct_iff by blast
  have "sort_members us = sort_members ts"
    unfolding sort_members_def by (rule sort_key_slice.srt_perm [OF ts(2) us(1)])
  moreover have "length us \<le> MaxCanonicalCollectionMembers"
    using assms(2) mset_eq_length [OF assms(3)] us(2) by (simp add: CanonicalSet_def split: if_splits)
  ultimately show ?thesis
    using CanonicalSet_repr [OF _ d] us(2) ts(3,4) by (simp add: cwf_def)
qed

definition token_preimage :: "CanonicalValue \<Rightarrow> bytes" where
  "token_preimage v = encodeString CanonicalIdentityValueDomain @ encodeBytes (CanonicalBytes v)"

lemma repr_inject: "cwf t \<Longrightarrow> cwf u \<Longrightarrow> cenc t = cenc u \<Longrightarrow> repr t = repr u"
  using cenc_inject by blast

lemma token_preimage_inject:
  assumes "constructible v" and "constructible w" and "token_preimage v = token_preimage w"
  shows "v = w"
proof -
  obtain t u where t: "cwf t" "v = repr t" and u: "cwf u" "w = repr u"
    using constructible_rep [OF assms(1)] constructible_rep [OF assms(2)] by (auto simp: rep_def)
  have fit: "fits64 (cenc x)" if "cwf x" for x
    using cwf_bytes [OF that] by (intro fits64_le [of _ MaxCanonicalValueBytes]) (simp_all add: canonical_limits)
  have "cenc t = cenc u"
    using assms(3) encodeBytes_inject [OF _ fit [OF t(1)] fit [OF u(1)]]
    by (simp add: token_preimage_def t(2) u(2))
  then show ?thesis using repr_inject t u by blast
qed

lemma Token_constructible:
  "constructible v \<Longrightarrow> Token v = \<lparr>tok_digest = Sum256 (token_preimage v), tok_valid = True\<rparr>"
  by (drule constructible_rep) (auto simp: rep_def Token_def repr_def token_preimage_def CanonicalBytes_def)

lemma parse_token_iff:
  "ParseCanonicalValueToken s = Inr tok \<longleftrightarrow>
     tok_valid tok \<and> length (tok_digest tok) = 32 \<and> s = Token_String tok"
proof
  assume "ParseCanonicalValueToken s = Inr tok"
  then obtain raw dec where s: "s = ''civ1:sha256:'' @ raw" and "raw = drop (length ''civ1:sha256:'') s"
      and r: "ToLower raw = raw" "hex_DecodeString raw = Some dec" "length dec = 32"
      and t: "tok = \<lparr>tok_digest = dec, tok_valid = True\<rparr>"
    using HasPrefix_split [of s "''civ1:sha256:''"]
    by (auto simp: ParseCanonicalValueToken_def Let_def sha256_Size_def split: if_splits option.splits)
  then show "tok_valid tok \<and> length (tok_digest tok) = 32 \<and> s = Token_String tok"
    using hex_encode_decode [OF r(2,1)] by (simp add: Token_String_def)
next
  assume t: "tok_valid tok \<and> length (tok_digest tok) = 32 \<and> s = Token_String tok"
  have "HasPrefix (''civ1:sha256:'' @ x) ''civ1:sha256:''" for x by (rule HasPrefix_append)
  with t show "ParseCanonicalValueToken s = Inr tok"
    by (cases tok) (simp add: ParseCanonicalValueToken_def Token_String_def sha256_Size_def Let_def)
qed

subsection \<open>Properties\<close>

text \<open>
  C18: the values of the package are exactly the representations of the trees within
  the contract: whatever sequence of constructor and parser calls produced a value, it
  carries the canonical encoding, the depth and the node count of one such tree, and every
  such tree has a value.
\<close>

theorem values_refine_trees: "constructible v \<longleftrightarrow> (\<exists>t. cwf t \<and> v = repr t)"
  using constructible_rep rep_constructible by (auto simp: rep_def)

text \<open>
  C3: \<^verbatim>\<open>ParseCanonicalValueEnvelope\<close> accepts a byte string exactly when it is the canonical
  encoding of a tree within the contract, and then returns that tree's value; every other
  byte string is rejected.
\<close>

theorem parse_exact:
  "ParseCanonicalValueEnvelope raw = Inr v \<longleftrightarrow> (\<exists>t. cwf t \<and> raw = cenc t \<and> v = repr t)"
  by (rule parse_iff)

text \<open>
  parsing the bytes of any value returns that value, with the same depth and node
  count.
\<close>

theorem parse_bytes_roundtrip:
  assumes "constructible v"
  shows "ParseCanonicalValueEnvelope (CanonicalBytes v) = Inr v"
  using constructible_rep [OF assms] by (auto simp: rep_def parse_iff)

theorem parse_bytes_roundtrip_witness:
  "\<exists>v. CanonicalList [CanonicalNull, CanonicalNull] = Inr v \<and> NodeCount v = 3
     \<and> ParseCanonicalValueEnvelope (CanonicalBytes v) = Inr v"
proof -
  have l: "CanonicalList [CanonicalNull, CanonicalNull] = Inr (repr (CList [CNull, CNull]))"
    using CanonicalList_repr [of "[CNull, CNull]"]
    by (simp add: CanonicalNull_repr climits_def canonical_limits)
  have c: "constructible (repr (CList [CNull, CNull]))"
    using constructible.list [OF _ l] constructible.null by simp
  have "NodeCount (repr (CList [CNull, CNull])) = 3" by simp
  with l parse_bytes_roundtrip [OF c] show ?thesis by blast
qed

text \<open>
  two values with the same token are the same value, unless their two hash inputs are
  a SHA-256 collision.
\<close>

theorem token_identifies_value:
  assumes "constructible v" and "constructible w"
    and "Token_String (Token v) = Token_String (Token w)"
  shows "v = w \<or> sha256_collision (token_preimage v) (token_preimage w)"
proof -
  have "Sum256 (token_preimage v) = Sum256 (token_preimage w)"
    using assms(3) Token_constructible [OF assms(1)] Token_constructible [OF assms(2)]
    by (simp add: Token_String_def)
  then show ?thesis
    using Sum256_eqD token_preimage_inject [OF assms(1,2)] by blast
qed

theorem token_identifies_value_witness:
  "constructible CanonicalNull \<and>
     (CanonicalNull = CanonicalNull \<or> sha256_collision (token_preimage CanonicalNull) (token_preimage CanonicalNull))"
  using token_identifies_value [OF constructible.null constructible.null refl] constructible.null by simp

text \<open>
  The order in which map entries are supplied does not matter: every permutation of an
  accepted argument is accepted with the same result.
\<close>

theorem map_order_irrelevant:
  assumes "\<forall>en \<in> set ens. constructible (me_Value en)" and "CanonicalMap ens = Inr v"
    and "mset ens' = mset ens"
  shows "CanonicalMap ens' = Inr v"
  using assms by (rule CanonicalMap_perm)

theorem map_order_irrelevant_witness:
  "\<exists>v. CanonicalMap [\<lparr>me_Key = ''b'', me_Value = CanonicalNull\<rparr>, \<lparr>me_Key = ''a'', me_Value = CanonicalNull\<rparr>] = Inr v
     \<and> CanonicalMap [\<lparr>me_Key = ''a'', me_Value = CanonicalNull\<rparr>, \<lparr>me_Key = ''b'', me_Value = CanonicalNull\<rparr>] = Inr v"
proof -
  let ?a = "\<lparr>me_Key = ''a'', me_Value = CanonicalNull\<rparr>" and ?b = "\<lparr>me_Key = ''b'', me_Value = CanonicalNull\<rparr>"
  have es: "[?b, ?a] = map entry_of [(''b'', CNull), (''a'', CNull)]"
    by (simp add: entry_of_def CanonicalNull_repr)
  have "climits (CMap (sort_entries [(''b'', CNull), (''a'', CNull)]))"
    by (simp add: climits_def canonical_limits sort_entries_def node_def encodeBytes_def)
  then have m: "\<exists>v. CanonicalMap [?b, ?a] = Inr v"
    unfolding es
    by (subst CanonicalMap_repr) (simp_all add: key_ok_def canonical_limits in_range_def)
  then obtain v where v: "CanonicalMap [?b, ?a] = Inr v" by blast
  have "CanonicalMap [?a, ?b] = Inr v"
    by (rule map_order_irrelevant [OF _ v]) (simp_all add: constructible.null)
  with v show ?thesis by blast
qed

text \<open>
  The same for sets: every permutation of an accepted argument gives the same value.
\<close>

theorem set_order_irrelevant:
  assumes "\<forall>w \<in> set vs. constructible w" and "CanonicalSet vs = Inr v" and "mset vs' = mset vs"
  shows "CanonicalSet vs' = Inr v"
  using assms by (rule CanonicalSet_perm)

theorem set_order_irrelevant_witness:
  "\<exists>a v. CanonicalString ''a'' = Inr a \<and> CanonicalSet [a, CanonicalNull] = Inr v
     \<and> CanonicalSet [CanonicalNull, a] = Inr v"
proof -
  let ?a = "repr (CString ''a'')"
  have a: "CanonicalString ''a'' = Inr ?a"
    by (rule key_ok_string) (simp add: key_ok_def canonical_limits in_range_def)
  have d: "distinct (map cenc [CString ''a'', CNull])"
    using node_inject [of "''a''" "[]" canonicalStringTag canonicalNullTag] by (auto simp: fits64_def)
  have "climits (CSet (sort_members [CString ''a'', CNull]))"
    by (simp add: climits_def canonical_limits sort_members_def)
  then obtain v where v: "CanonicalSet [?a, CanonicalNull] = Inr v"
    using CanonicalSet_repr [OF _ d] by (simp add: canonical_limits CanonicalNull_repr)
  have "CanonicalSet [CanonicalNull, ?a] = Inr v"
    by (rule set_order_irrelevant [OF _ v]) (use constructible.null constructible.string [OF a] in simp_all)
  with a v show ?thesis by blast
qed

text \<open>
  Every value respects the depth, node and byte budgets, and no operation can produce a
  value outside them.
\<close>

theorem value_budgets:
  assumes "constructible v"
  shows "1 \<le> Depth v \<and> Depth v \<le> 32 \<and> 1 \<le> NodeCount v \<and> NodeCount v \<le> 4096
     \<and> 10 \<le> EncodedSize v \<and> EncodedSize v \<le> 1048576"
  using constructible_rep [OF assms] cdepth_pos(1) cnodes_pos
  by (auto simp: rep_def cwf_def climits_def canonical_limits simp del: One_nat_def)

theorem value_budgets_witness: "Depth CanonicalNull = 1 \<and> NodeCount CanonicalNull \<le> 4096"
  using value_budgets [OF constructible.null] by (simp add: CanonicalNull_repr)

text \<open>
  C35: \<^verbatim>\<open>Elements\<close> of a list returns the constructor's arguments in order, and \<^verbatim>\<open>Entries\<close> of a map
  returns the constructor's entries, sorted by encoded key.
\<close>

theorem accessors_invert_constructors:
  assumes "\<forall>w \<in> set vs. constructible w" and "CanonicalList vs = Inr v"
    and "\<forall>en \<in> set ens. constructible (me_Value en)" and "CanonicalMap ens = Inr m"
  shows "Elements v = Some vs
     \<and> (\<exists>ens'. Entries m = Some ens' \<and> mset ens' = mset ens
          \<and> sorted_wrt (<) (map (\<lambda>en. node canonicalStringTag (me_Key en)) ens'))"
proof
  from assms(1) obtain ts where ts: "vs = map repr ts" "\<forall>t \<in> set ts. cwf t"
    using rep_list [of vs] constructible_rep by blast
  with assms(2) have "cwf (CList ts)" "v = repr (CList ts)"
    by (auto simp: CanonicalList_repr cwf_def list_all_iff split: if_splits)
  then show "Elements v = Some vs" using Elements_repr [of "CList ts" ts] ts(1) by simp
next
  from assms(3,4) obtain es where es: "ens = map entry_of es" "cwf (CMap (sort_entries es))"
      "m = repr (CMap (sort_entries es))"
    using CanonicalMap_rep [of ens m] constructible_rep by blast
  have "Entries m = Some (map entry_of (sort_entries es))"
    using Entries_repr [OF es(2)] es(3) by simp
  moreover have "mset (map entry_of (sort_entries es)) = mset ens" by (simp add: es(1))
  moreover have "sorted_wrt (<) (map (\<lambda>en. node canonicalStringTag (me_Key en)) (map entry_of (sort_entries es)))"
    using es(2) by (simp add: cwf_def comp_def)
  ultimately show "\<exists>ens'. Entries m = Some ens' \<and> mset ens' = mset ens
      \<and> sorted_wrt (<) (map (\<lambda>en. node canonicalStringTag (me_Key en)) ens')"
    by blast
qed

theorem accessors_invert_constructors_witness:
  "\<exists>v m. CanonicalList [CanonicalNull] = Inr v \<and> Elements v = Some [CanonicalNull]
     \<and> CanonicalMap [] = Inr m \<and> Entries m = Some []"
proof -
  have l: "CanonicalList [CanonicalNull] = Inr (repr (CList [CNull]))"
    using CanonicalList_repr [of "[CNull]"] by (simp add: CanonicalNull_repr climits_def canonical_limits)
  have m: "CanonicalMap [] = Inr (repr (CMap []))"
    using CanonicalMap_repr [of "[]"] by (simp add: climits_def canonical_limits sort_entries_def)
  from accessors_invert_constructors [OF _ l _ m] constructible.null l m show ?thesis
    by (intro exI conjI) auto
qed

text \<open>
  The token text is strict: \<^verbatim>\<open>ParseCanonicalValueToken\<close> accepts exactly the texts that
  \<^verbatim>\<open>String\<close> prints for valid tokens of 32 bytes, and returns that token.
\<close>

theorem token_text_exact:
  "ParseCanonicalValueToken s = Inr tok \<longleftrightarrow>
     tok_valid tok \<and> length (tok_digest tok) = 32 \<and> s = Token_String tok"
  by (rule parse_token_iff)

end
