(* ===== verification/Resolved_Identity.thy ===== *)
theory Resolved_Identity
  imports Canonical_Encoding
begin

text \<open>
  \<^verbatim>\<open>backend/libs/runtime-go/identity.go\<close>, the identity encodings of \<^verbatim>\<open>canonical.go\<close>, and
  \<^verbatim>\<open>extension_identity.go\<close>: the resolved identities of factories, transforms and extensions,
  their canonical bytes and fingerprints, and the wire structs they are exchanged as.

  A Go struct that wraps one pointer is the option of the pointed-to record; the zero
  value is \<open>None\<close>.  The factory and the transform identity have the same data, so
  their accessors are one definition each.  A wire struct is the value that
  \<^verbatim>\<open>encoding/json\<close> fills in: a pointer member that is absent or null is \<open>None\<close>.
\<close>

subsection \<open>Field lists\<close>

record ResolvedField =
  rf_Name :: bytes
  rf_Value :: bytes

text \<open>
  The loop over the sorted fields that the constructors share: name, value, then the
  comparison with the predecessor.  \<open>prev\<close> is the name at \<open>index - 1\<close>.
\<close>

fun checkFields :: "bytes \<Rightarrow> nat \<Rightarrow> nat \<Rightarrow> bytes option \<Rightarrow> ResolvedField list \<Rightarrow> unit result" where
  "checkFields path maximum index prev [] = Inr ()"
| "checkFields path maximum index prev (field # rest) =
     (let fieldPath = indexed path index in
      res_bind (validateIdentifier (rf_Name field) (fieldPath @ ''.name'')) (\<lambda>_.
      res_bind (validateUTF8 (rf_Value field) (fieldPath @ ''.value'') False maximum) (\<lambda>_.
      if prev = Some (rf_Name field) then Inl (invalid CodeDuplicateField (fieldPath @ ''.name''))
      else checkFields path maximum (Suc index) (Some (rf_Name field)) rest)))"

definition field_ok :: "nat \<Rightarrow> ResolvedField \<Rightarrow> bool" where
  "field_ok maximum f \<longleftrightarrow> identifierPattern (rf_Name f) \<and> ValidString (rf_Value f) \<and> rf_Value f \<noteq> []
     \<and> length (rf_Value f) \<le> maximum"

definition fields_ok :: "nat \<Rightarrow> ResolvedField list \<Rightarrow> bool" where
  "fields_ok maximum fs \<longleftrightarrow> list_all (field_ok maximum) fs \<and> distinct (map rf_Name fs)"

lemma checkFields_Cons:
  "checkFields path m i prev (f # fs) = Inr u \<longleftrightarrow>
     field_ok m f \<and> prev \<noteq> Some (rf_Name f) \<and> checkFields path m (Suc i) (Some (rf_Name f)) fs = Inr u"
  by (auto simp: Let_def field_ok_def res_simps)

lemma checkFields_adjacent:
  "checkFields path m i prev fs = Inr u \<longleftrightarrow>
     list_all (field_ok m) fs \<and> distinct_adj ((case prev of None \<Rightarrow> [] | Some p \<Rightarrow> [p]) @ map rf_Name fs)"
proof (induction fs arbitrary: i prev)
  case (Cons f fs)
  show ?case
    by (cases prev) (auto simp only: checkFields_Cons Cons.IH option.simps append_Nil append_Cons
        list.map list.pred_inject distinct_adj_Cons_Cons)
qed (auto split: option.splits)

lemma sorted_distinct_adj: "sorted (xs :: 'a::linorder list) \<Longrightarrow> distinct_adj xs \<longleftrightarrow> distinct xs"
proof (induction xs)
  case (Cons x xs)
  then show ?case
    by (cases xs) (auto simp: distinct_adj_Cons)
qed simp

text \<open>On the sorted list, comparing neighbours finds every duplicate.\<close>

lemma checkFields_sorted:
  "checkFields path m i None (sort_key rf_Name fs) = Inr u \<longleftrightarrow> fields_ok m fs"
proof -
  have "distinct_adj (map rf_Name (sort_key rf_Name fs)) \<longleftrightarrow> distinct (map rf_Name fs)"
    using sorted_distinct_adj [of "map rf_Name (sort_key rf_Name fs)"] sort_key_slice.srt_distinct [of rf_Name fs]
    by simp
  then show ?thesis
    by (simp add: checkFields_adjacent fields_ok_def list_all_iff)
qed

lemma fields_ok_sort [simp]: "fields_ok m (sort_key rf_Name fs) \<longleftrightarrow> fields_ok m fs"
  using sort_key_slice.srt_distinct [of rf_Name fs] by (simp add: fields_ok_def list_all_iff)

lemma fields_ok_mset: "mset fs = mset gs \<Longrightarrow> fields_ok m fs \<longleftrightarrow> fields_ok m gs"
proof -
  assume eq: "mset fs = mset gs"
  then have "mset (map rf_Name fs) = mset (map rf_Name gs)" by simp
  then have "distinct (map rf_Name fs) \<longleftrightarrow> distinct (map rf_Name gs)"
    by (rule mset_eq_imp_distinct_iff)
  moreover have "set fs = set gs" using eq by (rule mset_eq_setD)
  ultimately show ?thesis by (simp add: fields_ok_def list_all_iff)
qed

lemma fields_ok_sort_perm:
  "fields_ok m fs \<Longrightarrow> mset gs = mset fs \<Longrightarrow> sort_key rf_Name gs = sort_key rf_Name fs"
  by (rule sort_key_slice.srt_perm) (simp_all add: fields_ok_def)

subsection \<open>Factory and transform identities\<close>

record FactoryIdentityInput =
  fi_SchemaVersion :: bytes
  fi_Provider :: bytes
  fi_Kind :: bytes
  fi_IdentitySchema :: bytes
  fi_Fields :: "ResolvedField list"

type_synonym TransformIdentityInput = FactoryIdentityInput

record identityData =
  id_schemaVersion :: bytes
  id_provider :: bytes
  id_kind :: bytes
  id_identitySchema :: bytes
  id_fields :: "ResolvedField list"

type_synonym ResolvedFactoryIdentity = "identityData option"
type_synonym ResolvedTransformIdentity = "identityData option"

definition newIdentity :: "FactoryIdentityInput \<Rightarrow> identityData result" where
  "newIdentity input =
     (if fi_SchemaVersion input \<noteq> SchemaVersion then Inl (invalid CodeInvalidVersion ''schema_version'')
      else
       res_bind (validateIdentifier (fi_Provider input) ''provider'') (\<lambda>_.
       res_bind (validateIdentifier (fi_Kind input) ''kind'') (\<lambda>_.
       res_bind (validateIdentifier (fi_IdentitySchema input) ''identity_schema'') (\<lambda>_.
       if MaxResolvedFields < length (fi_Fields input) then Inl (invalid CodeTooLarge ''fields'')
       else
         let flds = sort_key rf_Name (fi_Fields input) in
         res_bind (checkFields ''fields'' MaxResolvedValueBytes 0 None flds) (\<lambda>_.
         Inr \<lparr>id_schemaVersion = fi_SchemaVersion input, id_provider = fi_Provider input,
              id_kind = fi_Kind input, id_identitySchema = fi_IdentitySchema input,
              id_fields = flds\<rparr>)))))"

definition NewFactoryIdentity :: "FactoryIdentityInput \<Rightarrow> ResolvedFactoryIdentity result" where
  "NewFactoryIdentity input = res_map Some (newIdentity input)"

definition NewTransformIdentity :: "TransformIdentityInput \<Rightarrow> ResolvedTransformIdentity result" where
  "NewTransformIdentity input = res_map Some (newIdentity input)"

definition identity_valid :: "identityData option \<Rightarrow> bool" where
  "identity_valid i \<longleftrightarrow> i \<noteq> None"

definition identity_SchemaVersion :: "identityData option \<Rightarrow> bytes" where
  "identity_SchemaVersion i = (case i of None \<Rightarrow> [] | Some d \<Rightarrow> id_schemaVersion d)"

definition identity_Provider :: "identityData option \<Rightarrow> bytes" where
  "identity_Provider i = (case i of None \<Rightarrow> [] | Some d \<Rightarrow> id_provider d)"

definition identity_Kind :: "identityData option \<Rightarrow> bytes" where
  "identity_Kind i = (case i of None \<Rightarrow> [] | Some d \<Rightarrow> id_kind d)"

definition identity_IdentitySchema :: "identityData option \<Rightarrow> bytes" where
  "identity_IdentitySchema i = (case i of None \<Rightarrow> [] | Some d \<Rightarrow> id_identitySchema d)"

definition identity_Fields :: "identityData option \<Rightarrow> ResolvedField list" where
  "identity_Fields i = (case i of None \<Rightarrow> [] | Some d \<Rightarrow> id_fields d)"

record identityWire =
  iw_SchemaVersion :: "bytes option"
  iw_Provider :: "bytes option"
  iw_Kind :: "bytes option"
  iw_IdentitySchema :: "bytes option"
  iw_Fields :: "ResolvedField list option"

definition identityToWire :: "identityData \<Rightarrow> identityWire" where
  "identityToWire data =
     \<lparr>iw_SchemaVersion = Some (id_schemaVersion data), iw_Provider = Some (id_provider data),
      iw_Kind = Some (id_kind data), iw_IdentitySchema = Some (id_identitySchema data),
      iw_Fields = Some (id_fields data)\<rparr>"

definition identityFromWire :: "identityWire \<Rightarrow> identityData result" where
  "identityFromWire wire =
     (case iw_SchemaVersion wire of None \<Rightarrow> Inl (invalid CodeInvalidShape ''schema_version'')
      | Some schemaVersion \<Rightarrow>
      (case iw_Provider wire of None \<Rightarrow> Inl (invalid CodeInvalidShape ''provider'')
      | Some provider \<Rightarrow>
      (case iw_Kind wire of None \<Rightarrow> Inl (invalid CodeInvalidShape ''kind'')
      | Some kind \<Rightarrow>
      (case iw_IdentitySchema wire of None \<Rightarrow> Inl (invalid CodeInvalidShape ''identity_schema'')
      | Some identitySchema \<Rightarrow>
      (case iw_Fields wire of None \<Rightarrow> Inl (invalid CodeInvalidShape ''fields'')
      | Some flds \<Rightarrow>
         newIdentity \<lparr>fi_SchemaVersion = schemaVersion, fi_Provider = provider, fi_Kind = kind,
                      fi_IdentitySchema = identitySchema, fi_Fields = flds\<rparr>)))))"

definition identity_MarshalJSON :: "identityData option \<Rightarrow> identityWire result" where
  "identity_MarshalJSON i =
     (case i of None \<Rightarrow> Inl (invalid CodeInvalidShape ''$'') | Some data \<Rightarrow> Inr (identityToWire data))"

text \<open>The argument is the outcome of \<^verbatim>\<open>decodeStrict\<close> on the document text.\<close>

definition identity_UnmarshalJSON :: "identityWire result \<Rightarrow> identityData option result" where
  "identity_UnmarshalJSON decoded = res_bind decoded (\<lambda>wire. res_map Some (identityFromWire wire))"

subsection \<open>Canonical bytes (canonical.go)\<close>

definition factoryDomain :: bytes where
  "factoryDomain = ''sqlrs.runtime.v2/factory-state''"

definition transformDomain :: bytes where
  "transformDomain = ''sqlrs.runtime.v2/transform''"

definition stateDomain :: bytes where
  "stateDomain = ''sqlrs.runtime.v2/state''"

definition encodeFieldSet :: "ResolvedField list \<Rightarrow> bytes" where
  "encodeFieldSet flds =
     encodeUint32 (of_nat (length flds))
     @ concat (map (\<lambda>field. encodeString (rf_Name field) @ encodeString (rf_Value field)) flds)"

definition canonicalIdentity :: "bytes \<Rightarrow> identityData \<Rightarrow> bytes" where
  "canonicalIdentity domain data =
     encodeRecord domain
       [\<lparr>cf_tag = 1, cf_payload = id_schemaVersion data\<rparr>,
        \<lparr>cf_tag = 2, cf_payload = id_provider data\<rparr>,
        \<lparr>cf_tag = 3, cf_payload = id_kind data\<rparr>,
        \<lparr>cf_tag = 4, cf_payload = id_identitySchema data\<rparr>,
        \<lparr>cf_tag = 5, cf_payload = encodeFieldSet (id_fields data)\<rparr>]"

definition canonicalFactory :: "identityData \<Rightarrow> bytes" where
  "canonicalFactory identity = canonicalIdentity factoryDomain identity"

definition canonicalTransform :: "identityData \<Rightarrow> bytes" where
  "canonicalTransform identity = canonicalIdentity transformDomain identity"

subsection \<open>Resolved extensions (extension\_identity.go)\<close>

definition extensionDomain :: bytes where
  "extensionDomain = ''sqlrs.runtime.v2/resolved-extension''"

record ResolvedExtensionIdentityInput =
  xi_SchemaVersion :: bytes
  xi_Owner :: bytes
  xi_Kind :: bytes
  xi_IdentitySchema :: bytes
  xi_Fields :: "ResolvedField list"

record resolvedExtensionData =
  xd_schemaVersion :: bytes
  xd_owner :: bytes
  xd_kind :: bytes
  xd_identitySchema :: bytes
  xd_fields :: "ResolvedField list"

type_synonym ResolvedExtensionIdentity = "resolvedExtensionData option"

definition NewResolvedExtensionIdentity ::
    "ResolvedExtensionIdentityInput \<Rightarrow> ResolvedExtensionIdentity result" where
  "NewResolvedExtensionIdentity input =
     (if xi_SchemaVersion input \<noteq> SchemaVersion then Inl (invalid CodeInvalidVersion ''schema_version'')
      else
       res_bind (validateIdentifier (xi_Owner input) ''owner'') (\<lambda>_.
       res_bind (validateIdentifier (xi_Kind input) ''kind'') (\<lambda>_.
       res_bind (validateIdentifier (xi_IdentitySchema input) ''identity_schema'') (\<lambda>_.
       if MaxResolvedFields < length (xi_Fields input) then Inl (invalid CodeTooLarge ''fields'')
       else
         let flds = sort_key rf_Name (xi_Fields input) in
         res_bind (checkFields ''fields'' MaxResolvedValueBytes 0 None flds) (\<lambda>_.
         Inr (Some \<lparr>xd_schemaVersion = xi_SchemaVersion input, xd_owner = xi_Owner input,
                    xd_kind = xi_Kind input, xd_identitySchema = xi_IdentitySchema input,
                    xd_fields = flds\<rparr>))))))"

definition canonicalExtension :: "resolvedExtensionData \<Rightarrow> bytes" where
  "canonicalExtension data =
     encodeRecord extensionDomain
       [\<lparr>cf_tag = 1, cf_payload = xd_schemaVersion data\<rparr>,
        \<lparr>cf_tag = 2, cf_payload = xd_owner data\<rparr>,
        \<lparr>cf_tag = 3, cf_payload = xd_kind data\<rparr>,
        \<lparr>cf_tag = 4, cf_payload = xd_identitySchema data\<rparr>,
        \<lparr>cf_tag = 5, cf_payload = encodeFieldSet (xd_fields data)\<rparr>]"

definition ExtensionFingerprint :: "ResolvedExtensionIdentity \<Rightarrow> bytes result" where
  "ExtensionFingerprint identity =
     (case identity of None \<Rightarrow> Inl (invalid CodeInvalidShape ''identity'')
      | Some data \<Rightarrow> Inr (hashBytes (canonicalExtension data)))"

record ExtensionBinding =
  eb_Name :: bytes
  eb_Identity :: ResolvedExtensionIdentity

text \<open>The two loops of \<^verbatim>\<open>ComposeResolvedFields\<close>; \<open>seen\<close> is the set of names already taken.\<close>

fun Compose_base :: "nat \<Rightarrow> bytes list \<Rightarrow> ResolvedField list \<Rightarrow> bytes list result" where
  "Compose_base index seen [] = Inr seen"
| "Compose_base index seen (field # rest) =
     (let path = indexed ''base'' index in
      if HasPrefix (rf_Name field) ''extension.'' then Inl (invalid CodeInvalidValue (path @ ''.name''))
      else
       res_bind (validateIdentifier (rf_Name field) (path @ ''.name'')) (\<lambda>_.
       res_bind (validateUTF8 (rf_Value field) (path @ ''.value'') False MaxResolvedValueBytes) (\<lambda>_.
       if rf_Name field \<in> set seen then Inl (invalid CodeDuplicateField (path @ ''.name''))
       else Compose_base (Suc index) (rf_Name field # seen) rest)))"

fun Compose_bindings ::
    "nat \<Rightarrow> bytes list \<Rightarrow> ExtensionBinding list \<Rightarrow> ResolvedField list \<Rightarrow> ResolvedField list result" where
  "Compose_bindings index seen [] out = Inr out"
| "Compose_bindings index seen (binding # rest) out =
     res_bind (validateIdentifier (eb_Name binding) (indexed ''bindings'' index @ ''.name'')) (\<lambda>_.
      let name = ''extension.'' @ eb_Name binding in
      if name \<in> set seen then Inl (invalid CodeDuplicateField (indexed ''bindings'' index @ ''.name''))
      else
       res_bind (res_prefix (indexed ''bindings'' index) (ExtensionFingerprint (eb_Identity binding))) (\<lambda>fingerprint.
       Compose_bindings (Suc index) (name # seen) rest
         (out @ [\<lparr>rf_Name = name, rf_Value = fingerprint\<rparr>])))"

definition ComposeResolvedFields ::
    "ResolvedField list \<Rightarrow> ExtensionBinding list \<Rightarrow> ResolvedField list result" where
  "ComposeResolvedFields base bindings =
     res_bind (Compose_base 0 [] base) (\<lambda>seen.
     res_bind (Compose_bindings 0 seen bindings base) (\<lambda>out.
     if MaxResolvedFields < length out then Inl (invalid CodeTooLarge ''fields'')
     else Inr (sort_key rf_Name out)))"

record resolvedExtensionWire =
  xw_SchemaVersion :: "bytes option"
  xw_Owner :: "bytes option"
  xw_Kind :: "bytes option"
  xw_IdentitySchema :: "bytes option"
  xw_Fields :: "ResolvedField list option"

definition extension_MarshalJSON :: "ResolvedExtensionIdentity \<Rightarrow> resolvedExtensionWire result" where
  "extension_MarshalJSON i =
     (case i of None \<Rightarrow> Inl (invalid CodeInvalidShape ''$'')
      | Some d \<Rightarrow> Inr \<lparr>xw_SchemaVersion = Some (xd_schemaVersion d), xw_Owner = Some (xd_owner d),
                      xw_Kind = Some (xd_kind d), xw_IdentitySchema = Some (xd_identitySchema d),
                      xw_Fields = Some (xd_fields d)\<rparr>)"

definition extension_UnmarshalJSON :: "resolvedExtensionWire result \<Rightarrow> ResolvedExtensionIdentity result" where
  "extension_UnmarshalJSON decoded =
     res_bind decoded (\<lambda>wire.
      case xw_SchemaVersion wire of None \<Rightarrow> Inl (invalid CodeInvalidShape ''schema_version'')
      | Some schemaVersion \<Rightarrow>
      (case xw_Owner wire of None \<Rightarrow> Inl (invalid CodeInvalidShape ''owner'')
      | Some owner \<Rightarrow>
      (case xw_Kind wire of None \<Rightarrow> Inl (invalid CodeInvalidShape ''kind'')
      | Some kind \<Rightarrow>
      (case xw_IdentitySchema wire of None \<Rightarrow> Inl (invalid CodeInvalidShape ''identity_schema'')
      | Some identitySchema \<Rightarrow>
      (case xw_Fields wire of None \<Rightarrow> Inl (invalid CodeInvalidShape ''fields'')
      | Some flds \<Rightarrow>
         NewResolvedExtensionIdentity
           \<lparr>xi_SchemaVersion = schemaVersion, xi_Owner = owner, xi_Kind = kind,
            xi_IdentitySchema = identitySchema, xi_Fields = flds\<rparr>)))))"

subsection \<open>What the constructors accept\<close>

definition identity_input_ok :: "FactoryIdentityInput \<Rightarrow> bool" where
  "identity_input_ok input \<longleftrightarrow> fi_SchemaVersion input = SchemaVersion
     \<and> identifierPattern (fi_Provider input) \<and> identifierPattern (fi_Kind input)
     \<and> identifierPattern (fi_IdentitySchema input)
     \<and> length (fi_Fields input) \<le> MaxResolvedFields \<and> fields_ok MaxResolvedValueBytes (fi_Fields input)"

definition identity_wf :: "identityData \<Rightarrow> bool" where
  "identity_wf d \<longleftrightarrow> id_schemaVersion d = SchemaVersion
     \<and> identifierPattern (id_provider d) \<and> identifierPattern (id_kind d)
     \<and> identifierPattern (id_identitySchema d)
     \<and> length (id_fields d) \<le> MaxResolvedFields \<and> fields_ok MaxResolvedValueBytes (id_fields d)
     \<and> sorted_wrt (<) (map rf_Name (id_fields d))"

definition extension_wf :: "resolvedExtensionData \<Rightarrow> bool" where
  "extension_wf d \<longleftrightarrow> xd_schemaVersion d = SchemaVersion
     \<and> identifierPattern (xd_owner d) \<and> identifierPattern (xd_kind d)
     \<and> identifierPattern (xd_identitySchema d)
     \<and> length (xd_fields d) \<le> MaxResolvedFields \<and> fields_ok MaxResolvedValueBytes (xd_fields d)
     \<and> sorted_wrt (<) (map rf_Name (xd_fields d))"

lemma sorted_fields: "fields_ok m fs \<Longrightarrow> sorted_wrt (<) (map rf_Name (sort_key rf_Name fs))"
  by (rule sort_key_slice.srt_strict) (simp add: fields_ok_def)

lemma newIdentity_Inr:
  "newIdentity input = Inr d \<longleftrightarrow> identity_input_ok input \<and>
     d = \<lparr>id_schemaVersion = SchemaVersion, id_provider = fi_Provider input, id_kind = fi_Kind input,
          id_identitySchema = fi_IdentitySchema input, id_fields = sort_key rf_Name (fi_Fields input)\<rparr>"
  by (auto simp: newIdentity_def identity_input_ok_def Let_def res_simps checkFields_sorted)

lemma newIdentity_wf: "newIdentity input = Inr d \<Longrightarrow> identity_wf d"
  by (auto simp: newIdentity_Inr identity_wf_def identity_input_ok_def sorted_fields)

lemma NewResolvedExtensionIdentity_Inr:
  "NewResolvedExtensionIdentity input = Inr v \<longleftrightarrow>
     xi_SchemaVersion input = SchemaVersion
     \<and> identifierPattern (xi_Owner input) \<and> identifierPattern (xi_Kind input)
     \<and> identifierPattern (xi_IdentitySchema input)
     \<and> length (xi_Fields input) \<le> MaxResolvedFields \<and> fields_ok MaxResolvedValueBytes (xi_Fields input)
     \<and> v = Some \<lparr>xd_schemaVersion = SchemaVersion, xd_owner = xi_Owner input, xd_kind = xi_Kind input,
          xd_identitySchema = xi_IdentitySchema input, xd_fields = sort_key rf_Name (xi_Fields input)\<rparr>"
  by (auto simp: NewResolvedExtensionIdentity_def Let_def res_simps checkFields_sorted)

lemma NewResolvedExtensionIdentity_wf:
  "NewResolvedExtensionIdentity input = Inr v \<Longrightarrow> \<exists>d. v = Some d \<and> extension_wf d"
  by (auto simp: NewResolvedExtensionIdentity_Inr extension_wf_def sorted_fields)

text \<open>A well-formed identity is a fixed point of its constructor, hence of the wire.\<close>

lemma newIdentity_fixed:
  "identity_wf d \<Longrightarrow> newIdentity \<lparr>fi_SchemaVersion = id_schemaVersion d, fi_Provider = id_provider d,
     fi_Kind = id_kind d, fi_IdentitySchema = id_identitySchema d, fi_Fields = id_fields d\<rparr> = Inr d"
  unfolding newIdentity_Inr
  by (simp add: identity_wf_def identity_input_ok_def sort_key_slice.srt_sorted_id identityData.equality)

lemma identity_wire_roundtrip: "identity_wf d \<Longrightarrow> identityFromWire (identityToWire d) = Inr d"
  by (simp add: identityFromWire_def identityToWire_def newIdentity_fixed)

lemma identityFromWire_wf: "identityFromWire w = Inr d \<Longrightarrow> identity_wf d"
  by (auto simp: identityFromWire_def dest: newIdentity_wf split: option.splits)

lemma extension_wire_roundtrip:
  "extension_wf d \<Longrightarrow> extension_UnmarshalJSON (extension_MarshalJSON (Some d)) = Inr (Some d)"
  by (simp add: extension_UnmarshalJSON_def extension_MarshalJSON_def NewResolvedExtensionIdentity_Inr
      extension_wf_def sort_key_slice.srt_sorted_id resolvedExtensionData.equality)

subsection \<open>The canonical bytes determine the identity\<close>

definition field_fits :: "ResolvedField \<Rightarrow> bool" where
  "field_fits f \<longleftrightarrow> fits64 (rf_Name f) \<and> fits64 (rf_Value f)"

lemma field_ok_fits: "field_ok m f \<Longrightarrow> m < 2 ^ 64 \<Longrightarrow> field_fits f"
  using identifier_length [of "rf_Name f"] by (auto simp: field_ok_def field_fits_def fits64_def limit_defs)

lemma identifier_fits: "identifierPattern s \<Longrightarrow> fits64 s"
  using identifier_length [of s] by (simp add: fits64_def limit_defs)

lemma field_list_prefix:
  "length fs = length gs \<Longrightarrow> \<forall>f \<in> set fs \<union> set gs. field_fits f \<Longrightarrow>
     concat (map (\<lambda>f. encodeString (rf_Name f) @ encodeString (rf_Value f)) fs) @ r
       = concat (map (\<lambda>f. encodeString (rf_Name f) @ encodeString (rf_Value f)) gs) @ s \<Longrightarrow> fs = gs \<and> r = s"
proof (induction fs gs rule: list_induct2)
  case (Cons f fs g gs)
  let ?e = "\<lambda>f. encodeString (rf_Name f) @ encodeString (rf_Value f)"
  have fits: "fits64 (rf_Name f)" "fits64 (rf_Name g)" "fits64 (rf_Value f)" "fits64 (rf_Value g)"
    using Cons.prems(1) by (auto simp: field_fits_def)
  have "encodeString (rf_Name f) @ encodeString (rf_Value f) @ concat (map ?e fs) @ r
      = encodeString (rf_Name g) @ encodeString (rf_Value g) @ concat (map ?e gs) @ s"
    using Cons.prems(2) by simp
  from encodeString_prefix [OF this fits(1,2)]
  have name: "rf_Name f = rf_Name g"
    and rest: "encodeString (rf_Value f) @ concat (map ?e fs) @ r = encodeString (rf_Value g) @ concat (map ?e gs) @ s"
    by simp_all
  from encodeString_prefix [OF rest fits(3,4)]
  have "rf_Value f = rf_Value g" and tl: "concat (map ?e fs) @ r = concat (map ?e gs) @ s" by simp_all
  moreover have "fs = gs \<and> r = s"
    by (rule Cons.IH) (use Cons.prems(1) tl in auto)
  ultimately show ?case using name by (simp add: ResolvedField.equality)
qed simp

lemma encodeFieldSet_inject:
  assumes "encodeFieldSet fs = encodeFieldSet gs"
    and "length fs < 2 ^ 32" and "length gs < 2 ^ 32" and "\<forall>f \<in> set fs \<union> set gs. field_fits f"
  shows "fs = gs"
proof -
  from assms(1) have "(of_nat (length fs) :: u32) = of_nat (length gs)"
    and body: "concat (map (\<lambda>f. encodeString (rf_Name f) @ encodeString (rf_Value f)) fs)
      = concat (map (\<lambda>f. encodeString (rf_Name f) @ encodeString (rf_Value f)) gs)"
    by (simp_all add: encodeFieldSet_def append_eq_append_conv)
  then have len: "length fs = length gs"
    using assms(2,3) unat_of_nat_32 by metis
  from field_list_prefix [OF len assms(4), of "[]" "[]"] body show ?thesis by simp
qed

lemma length_encodeFieldSet_bound:
  "length fs \<le> n \<Longrightarrow> \<forall>f \<in> set fs. length (rf_Name f) + length (rf_Value f) \<le> k \<Longrightarrow>
     length (encodeFieldSet fs) \<le> 4 + n * (16 + k)"
proof -
  assume len: "length fs \<le> n" and b: "\<forall>f \<in> set fs. length (rf_Name f) + length (rf_Value f) \<le> k"
  from b have "length (concat (map (\<lambda>f. encodeString (rf_Name f) @ encodeString (rf_Value f)) fs))
      \<le> length fs * (16 + k)"
    by (induction fs) auto
  also have "\<dots> \<le> n * (16 + k)" using len by (rule mult_le_mono1)
  finally show ?thesis by (simp add: encodeFieldSet_def)
qed

lemma fields_ok_fits:
  assumes "fields_ok MaxResolvedValueBytes fs" and "length fs \<le> MaxResolvedFields"
  shows "length fs < 2 ^ 32" and "\<forall>f \<in> set fs. field_fits f" and "fits64 (encodeFieldSet fs)"
proof -
  have ok: "\<forall>f \<in> set fs. field_ok MaxResolvedValueBytes f"
    using assms(1) by (simp add: fields_ok_def list_all_iff)
  show "length fs < 2 ^ 32" using assms(2) by (simp add: limit_defs)
  show "\<forall>f \<in> set fs. field_fits f" using ok field_ok_fits by (auto simp: limit_defs)
  have "\<forall>f \<in> set fs. length (rf_Name f) + length (rf_Value f) \<le> 4224"
    using ok identifier_length by (fastforce simp: field_ok_def limit_defs)
  from length_encodeFieldSet_bound [OF assms(2) this] show "fits64 (encodeFieldSet fs)"
    by (simp add: fits64_def limit_defs)
qed

text \<open>The five tagged payloads all three identity kinds are made of, in one lemma.\<close>

lemma sort_five_tags:
  "sort_key cf_tag
     [\<lparr>cf_tag = 1, cf_payload = a\<rparr>, \<lparr>cf_tag = 2, cf_payload = b\<rparr>, \<lparr>cf_tag = 3, cf_payload = c\<rparr>,
      \<lparr>cf_tag = 4, cf_payload = d\<rparr>, \<lparr>cf_tag = 5, cf_payload = e\<rparr>]
   = [\<lparr>cf_tag = 1, cf_payload = a\<rparr>, \<lparr>cf_tag = 2, cf_payload = b\<rparr>, \<lparr>cf_tag = 3, cf_payload = c\<rparr>,
      \<lparr>cf_tag = 4, cf_payload = d\<rparr>, \<lparr>cf_tag = 5, cf_payload = e\<rparr>]"
  by (rule sort_key_slice.srt_sorted_id) simp

definition five_tags :: "bytes \<Rightarrow> bytes \<Rightarrow> bytes \<Rightarrow> bytes \<Rightarrow> bytes \<Rightarrow> canonicalField list" where
  "five_tags a b c d e =
     [\<lparr>cf_tag = 1, cf_payload = a\<rparr>, \<lparr>cf_tag = 2, cf_payload = b\<rparr>, \<lparr>cf_tag = 3, cf_payload = c\<rparr>,
      \<lparr>cf_tag = 4, cf_payload = d\<rparr>, \<lparr>cf_tag = 5, cf_payload = e\<rparr>]"

lemma five_tags_inject:
  assumes "encodeRecord x (five_tags a b c d e) = encodeRecord y (five_tags a' b' c' d' e')"
    and "fits64 x" "fits64 y"
    and "fits64 a" "fits64 b" "fits64 c" "fits64 d" "fits64 e"
    and "fits64 a'" "fits64 b'" "fits64 c'" "fits64 d'" "fits64 e'"
  shows "x = y \<and> a = a' \<and> b = b' \<and> c = c' \<and> d = d' \<and> e = e'"
proof -
  have "x = y \<and> sort_key cf_tag (five_tags a b c d e) = sort_key cf_tag (five_tags a' b' c' d' e')"
    by (rule encodeRecord_inject [OF assms(1-3)]) (use assms(4-) in \<open>auto simp: five_tags_def\<close>)
  then show ?thesis by (simp add: five_tags_def sort_five_tags)
qed

lemma canonicalIdentity_five:
  "canonicalIdentity dmn i = encodeRecord dmn
     (five_tags (id_schemaVersion i) (id_provider i) (id_kind i) (id_identitySchema i) (encodeFieldSet (id_fields i)))"
  by (simp add: canonicalIdentity_def five_tags_def)

lemma canonicalExtension_five:
  "canonicalExtension x = encodeRecord extensionDomain
     (five_tags (xd_schemaVersion x) (xd_owner x) (xd_kind x) (xd_identitySchema x) (encodeFieldSet (xd_fields x)))"
  by (simp add: canonicalExtension_def five_tags_def)

lemma SchemaVersion_fits: "fits64 SchemaVersion"
  by (simp add: fits64_def SchemaVersion_def)

lemma domain_fits: "fits64 factoryDomain" "fits64 transformDomain" "fits64 stateDomain" "fits64 extensionDomain"
  by (simp_all add: fits64_def factoryDomain_def transformDomain_def stateDomain_def extensionDomain_def)

lemma domains_differ:
  "factoryDomain \<noteq> transformDomain" "factoryDomain \<noteq> stateDomain" "transformDomain \<noteq> stateDomain"
  "extensionDomain \<noteq> factoryDomain" "extensionDomain \<noteq> transformDomain" "extensionDomain \<noteq> stateDomain"
  by (simp_all add: factoryDomain_def transformDomain_def stateDomain_def extensionDomain_def)

lemma identity_wf_fits:
  assumes "identity_wf i"
  shows "fits64 (id_schemaVersion i)" "fits64 (id_provider i)" "fits64 (id_kind i)"
    "fits64 (id_identitySchema i)" "fits64 (encodeFieldSet (id_fields i))"
  using assms fields_ok_fits(3) by (simp_all add: identity_wf_def SchemaVersion_fits identifier_fits)

lemma extension_wf_fits:
  assumes "extension_wf i"
  shows "fits64 (xd_schemaVersion i)" "fits64 (xd_owner i)" "fits64 (xd_kind i)"
    "fits64 (xd_identitySchema i)" "fits64 (encodeFieldSet (xd_fields i))"
  using assms fields_ok_fits(3) by (simp_all add: extension_wf_def SchemaVersion_fits identifier_fits)

lemma encodeFieldSet_eqD:
  assumes "encodeFieldSet fs = encodeFieldSet gs"
    and "fields_ok MaxResolvedValueBytes fs" "length fs \<le> MaxResolvedFields"
    and "fields_ok MaxResolvedValueBytes gs" "length gs \<le> MaxResolvedFields"
  shows "fs = gs"
  by (rule encodeFieldSet_inject [OF assms(1)]) (use assms(2-) fields_ok_fits in auto)

lemma canonicalIdentity_inject:
  assumes "canonicalIdentity x i = canonicalIdentity y j" and "identity_wf i" and "identity_wf j"
    and "fits64 x" and "fits64 y"
  shows "x = y \<and> i = j"
proof -
  from five_tags_inject [OF assms(1) [unfolded canonicalIdentity_five] assms(4,5)
      identity_wf_fits [OF assms(2)] identity_wf_fits [OF assms(3)]]
  have eq: "x = y" "id_schemaVersion i = id_schemaVersion j" "id_provider i = id_provider j" "id_kind i = id_kind j"
    "id_identitySchema i = id_identitySchema j" "encodeFieldSet (id_fields i) = encodeFieldSet (id_fields j)"
    by simp_all
  from encodeFieldSet_eqD [OF eq(6)] have "id_fields i = id_fields j"
    using assms(2,3) by (simp add: identity_wf_def)
  with eq show ?thesis by (simp add: identityData.equality)
qed

lemma canonicalExtension_inject:
  assumes "canonicalExtension i = canonicalExtension j" and "extension_wf i" and "extension_wf j"
  shows "i = j"
proof -
  from five_tags_inject [OF assms(1) [unfolded canonicalExtension_five] domain_fits(4,4)
      extension_wf_fits [OF assms(2)] extension_wf_fits [OF assms(3)]]
  have eq: "xd_schemaVersion i = xd_schemaVersion j" "xd_owner i = xd_owner j" "xd_kind i = xd_kind j"
    "xd_identitySchema i = xd_identitySchema j" "encodeFieldSet (xd_fields i) = encodeFieldSet (xd_fields j)"
    by simp_all
  from encodeFieldSet_eqD [OF eq(5)] have "xd_fields i = xd_fields j"
    using assms(2,3) by (simp add: extension_wf_def)
  with eq show ?thesis by (simp add: resolvedExtensionData.equality)
qed

text \<open>An extension's preimage is never the preimage of a factory or a transform.\<close>

lemma canonicalExtension_separate:
  assumes "canonicalExtension x = canonicalIdentity dmn i" and "extension_wf x" and "identity_wf i"
    and "dmn = factoryDomain \<or> dmn = transformDomain"
  shows False
proof -
  have "fits64 dmn" using assms(4) domain_fits by auto
  from five_tags_inject [OF assms(1) [unfolded canonicalExtension_five canonicalIdentity_five]
      domain_fits(4) this extension_wf_fits [OF assms(2)] identity_wf_fits [OF assms(3)]]
  show False using assms(4) domains_differ by auto
qed

subsection \<open>Fingerprints\<close>

text \<open>
  The contract every fingerprint of the runtime relies on: its preimage determines the
  identity it was computed from.  Then equal fingerprints mean equal identities, or
  the two preimages are a SHA-256 collision.
\<close>

locale fingerprinting =
  fixes preimage :: "'a \<Rightarrow> bytes" and wf :: "'a \<Rightarrow> bool"
  assumes preimage_inject: "preimage a = preimage b \<Longrightarrow> wf a \<Longrightarrow> wf b \<Longrightarrow> a = b"
begin

lemma fingerprint_eqD:
  "hashBytes (preimage a) = hashBytes (preimage b) \<Longrightarrow> wf a \<Longrightarrow> wf b \<Longrightarrow>
     a = b \<or> sha256_collision (preimage a) (preimage b)"
  using hashBytes_eqD preimage_inject by blast

end

interpretation factory_fp: fingerprinting canonicalFactory identity_wf
  by unfold_locales (metis canonicalFactory_def canonicalIdentity_inject domain_fits(1))

interpretation transform_fp: fingerprinting canonicalTransform identity_wf
  by unfold_locales (metis canonicalTransform_def canonicalIdentity_inject domain_fits(2))

interpretation extension_fp: fingerprinting canonicalExtension extension_wf
  by unfold_locales (rule canonicalExtension_inject)

subsection \<open>Composition of extension bindings\<close>

definition bound_field :: "ExtensionBinding \<Rightarrow> ResolvedField" where
  "bound_field b = \<lparr>rf_Name = ''extension.'' @ eb_Name b,
                    rf_Value = hashBytes (canonicalExtension (the (eb_Identity b)))\<rparr>"

lemma Compose_base_Inr:
  "Compose_base i seen fs = Inr s \<longleftrightarrow>
     (\<forall>f \<in> set fs. \<not> HasPrefix (rf_Name f) ''extension.'' \<and> field_ok MaxResolvedValueBytes f)
     \<and> distinct (map rf_Name fs) \<and> set (map rf_Name fs) \<inter> set seen = {}
     \<and> s = rev (map rf_Name fs) @ seen"
proof (induction fs arbitrary: i seen)
  case (Cons f fs)
  show ?case
    by (auto simp: Let_def res_simps Cons.IH field_ok_def)
qed auto

lemma Compose_bindings_Inr:
  "Compose_bindings i seen bs out = Inr r \<longleftrightarrow>
     (\<forall>b \<in> set bs. identifierPattern (eb_Name b) \<and> eb_Identity b \<noteq> None)
     \<and> distinct (map eb_Name bs) \<and> (\<lambda>b. ''extension.'' @ eb_Name b) ` set bs \<inter> set seen = {}
     \<and> r = out @ map bound_field bs"
proof (induction bs arbitrary: i seen out)
  case (Cons b bs)
  have fp: "ExtensionFingerprint (eb_Identity b) = Inr f \<longleftrightarrow>
      eb_Identity b \<noteq> None \<and> f = hashBytes (canonicalExtension (the (eb_Identity b)))" for f
    by (auto simp: ExtensionFingerprint_def split: option.splits)
  show ?case
    by (auto simp: Let_def res_simps Cons.IH fp bound_field_def)
qed auto

lemma ComposeResolvedFields_Inr:
  "ComposeResolvedFields base bs = Inr out \<longleftrightarrow>
     (\<forall>f \<in> set base. \<not> HasPrefix (rf_Name f) ''extension.'' \<and> field_ok MaxResolvedValueBytes f)
     \<and> distinct (map rf_Name base)
     \<and> (\<forall>b \<in> set bs. identifierPattern (eb_Name b) \<and> eb_Identity b \<noteq> None) \<and> distinct (map eb_Name bs)
     \<and> length base + length bs \<le> MaxResolvedFields
     \<and> out = sort_key rf_Name (base @ map bound_field bs)"
proof -
  have "\<lbrakk>f \<in> set base; \<forall>f \<in> set base. \<not> HasPrefix (rf_Name f) ''extension.''; rf_Name f = ''extension.'' @ n\<rbrakk>
      \<Longrightarrow> False" for f n
    by (auto simp: HasPrefix_def)
  then show ?thesis
    by (auto simp: ComposeResolvedFields_def res_simps Compose_base_Inr Compose_bindings_Inr
        disjoint_iff image_iff not_less) (metis (no_types, lifting))+
qed

lemma HasPrefix_bound: "HasPrefix (rf_Name (bound_field b)) ''extension.''"
  by (simp add: bound_field_def HasPrefix_def)

lemma compose_split:
  assumes "ComposeResolvedFields base bs = Inr out"
  shows "mset base = filter_mset (\<lambda>f. \<not> HasPrefix (rf_Name f) ''extension.'') (mset out)"
    and "mset (map bound_field bs) = filter_mset (\<lambda>f. HasPrefix (rf_Name f) ''extension.'') (mset out)"
proof -
  from assms have base: "\<forall>f \<in> set base. \<not> HasPrefix (rf_Name f) ''extension.''"
    and out: "mset out = mset base + mset (map bound_field bs)"
    by (simp_all add: ComposeResolvedFields_Inr)
  have b: "filter_mset (\<lambda>f. \<not> HasPrefix (rf_Name f) ''extension.'') (mset base) = mset base"
    "filter_mset (\<lambda>f. HasPrefix (rf_Name f) ''extension.'') (mset base) = {#}"
    using base by (simp_all flip: mset_filter)
  have e: "filter_mset (\<lambda>f. \<not> HasPrefix (rf_Name f) ''extension.'') (mset (map bound_field bs)) = {#}"
    "filter_mset (\<lambda>f. HasPrefix (rf_Name f) ''extension.'') (mset (map bound_field bs)) = mset (map bound_field bs)"
    by (simp_all only: mset_filter [symmetric]) (simp_all add: filter_map HasPrefix_bound comp_def)
  show "mset base = filter_mset (\<lambda>f. \<not> HasPrefix (rf_Name f) ''extension.'') (mset out)"
    and "mset (map bound_field bs) = filter_mset (\<lambda>f. HasPrefix (rf_Name f) ''extension.'') (mset out)"
    by (simp_all only: out filter_union_mset b e add_0_left add_0_right)
qed

lemma bound_field_eqD:
  assumes "bound_field a = bound_field b" and "eb_Identity a \<noteq> None" and "eb_Identity b \<noteq> None"
    and "\<forall>d. eb_Identity a = Some d \<longrightarrow> extension_wf d" and "\<forall>d. eb_Identity b = Some d \<longrightarrow> extension_wf d"
  shows "eb_Name a = eb_Name b \<and> (eb_Identity a = eb_Identity b \<or>
     sha256_collision (canonicalExtension (the (eb_Identity a))) (canonicalExtension (the (eb_Identity b))))"
proof -
  obtain x y where x: "eb_Identity a = Some x" and y: "eb_Identity b = Some y" using assms(2,3) by blast
  from assms(1) have "eb_Name a = eb_Name b" and "hashBytes (canonicalExtension x) = hashBytes (canonicalExtension y)"
    by (simp_all add: bound_field_def x y)
  with extension_fp.fingerprint_eqD [of x y] assms(4,5) x y show ?thesis by auto
qed

end
