(* ===== verification/Declaration_Budget.thy ===== *)
theory Declaration_Budget
  imports Resolved_Identity
begin

text \<open>
  The byte budget of \<^verbatim>\<open>backend/libs/runtime-go/declaration_limits.go\<close> and the part of
  \<^verbatim>\<open>encoding/json\<close> it predicts.  The budget walks a declaration and charges the size of
  its encoding piece by piece, rejecting before anything is copied or encoded; the
  lemmas show that what a visitor charges is exactly the length of the text that
  \<^verbatim>\<open>json.Marshal\<close> writes.
\<close>

subsection \<open>The text json.Marshal writes\<close>

text \<open>
  The documents the library encodes: integers, strings, arrays and objects, and \<^verbatim>\<open>null\<close> for
  a nil pointer, written without white space.  \<open>json_string\<close> is the escaping of \<^verbatim>\<open>json.Marshal\<close> for valid UTF-8
  text (the only text a budget is charged for): quotation mark and backslash, the five
  short control escapes, the other control characters and the three HTML characters as
  \<^verbatim>\<open>\u00xx\<close>, and the line separators U+2028 and U+2029.
\<close>

datatype json = JNull | JNumber int | JString bytes | JArray "json list" | JObject "(bytes \<times> json) list"

definition json_escape :: "byte \<Rightarrow> bytes" where
  "json_escape c =
     (let n = of_char c :: nat in
      if n = 34 \<or> n = 92 then [char_of (92::nat), c]
      else if n = 8 then [char_of (92::nat), CHR ''b'']
      else if n = 12 then [char_of (92::nat), CHR ''f'']
      else if n = 10 then [char_of (92::nat), CHR ''n'']
      else if n = 13 then [char_of (92::nat), CHR ''r'']
      else if n = 9 then [char_of (92::nat), CHR ''t'']
      else if n < 32 \<or> n = 60 \<or> n = 62 \<or> n = 38
      then [char_of (92::nat), CHR ''u'', CHR ''0'', CHR ''0'', hex_digit (n div 16), hex_digit (n mod 16)]
      else [c])"

definition is_line_separator :: "bytes \<Rightarrow> bool" where
  "is_line_separator s \<longleftrightarrow> (case s of
      a # b # c # _ \<Rightarrow> of_char a = (226::nat) \<and> of_char b = (128::nat)
        \<and> (of_char c = (168::nat) \<or> of_char c = (169::nat))
    | _ \<Rightarrow> False)"

function json_string_body :: "bytes \<Rightarrow> bytes" where
  "json_string_body s =
     (case s of [] \<Rightarrow> []
      | c # rest \<Rightarrow>
          if is_line_separator s
          then char_of (92::nat) # ''u202'' @ hex_digit (of_char (s ! 2) mod 16) # json_string_body (drop 3 s)
          else json_escape c @ json_string_body rest)"
  by pat_completeness auto
termination
  by (relation "measure length") auto

declare json_string_body.simps [simp del]

definition json_string :: "bytes \<Rightarrow> bytes" where
  "json_string s = char_of (34::nat) # json_string_body s @ [char_of (34::nat)]"

fun commas :: "bytes list \<Rightarrow> bytes" where
  "commas [] = []"
| "commas [x] = x"
| "commas (x # y # ys) = x @ '','' @ commas (y # ys)"

fun json_Marshal :: "json \<Rightarrow> bytes" where
  "json_Marshal JNull = ''null''"
| "json_Marshal (JNumber n) = (if n < 0 then ''-'' @ itoa (nat (- n)) else itoa (nat n))"
| "json_Marshal (JString s) = json_string s"
| "json_Marshal (JArray xs) = ''['' @ commas (map json_Marshal xs) @ '']''"
| "json_Marshal (JObject ms) =
     ''{'' @ commas (map (\<lambda>m. json_string (fst m) @ '':'' @ json_Marshal (snd m)) ms) @ ''}''"

lemma length_json_escape: "1 \<le> length (json_escape c)"
  by (simp add: json_escape_def Let_def)

lemma length_json_string_body: "length s \<le> length (json_string_body s)"
proof (induction s rule: json_string_body.induct)
  case (1 s)
  show ?case
  proof (cases s)
    case Nil
    then show ?thesis by simp
  next
    case (Cons c rest)
    show ?thesis
    proof (cases "is_line_separator s")
      case True
      have "length (drop 3 s) \<le> length (json_string_body (drop 3 s))" using 1(1) Cons True by simp
      then show ?thesis using Cons True by (subst json_string_body.simps) auto
    next
      case False
      have "length rest \<le> length (json_string_body rest)" using 1(2) Cons False by simp
      then show ?thesis using Cons False length_json_escape [of c]
        by (subst json_string_body.simps) auto
    qed
  qed
qed

lemma length_json_string: "length s + 2 \<le> length (json_string s)"
  using length_json_string_body [of s] by (simp add: json_string_def)

lemma length_commas: "length (commas xs) = sum_list (map length xs) + (length xs - 1)"
  by (induction xs rule: commas.induct) auto

text \<open>An upper bound on the length of a JSON text: escaping is at most sixfold.\<close>

lemma json_escape_upper: "length (json_escape c) \<le> 6"
  by (simp add: json_escape_def Let_def)

lemma json_string_upper: "length (json_string_body s) \<le> 6 * length s"
proof (induction s rule: json_string_body.induct)
  case (1 s)
  show ?case
  proof (cases s)
    case Nil
    then show ?thesis by (subst json_string_body.simps) simp
  next
    case (Cons c rest)
    then show ?thesis
    proof (cases "is_line_separator s")
      case True
      have "length (drop 3 s) \<le> length s - 1" "length s \<ge> 1" using Cons by simp_all
      with 1(1) [OF Cons True] True Cons show ?thesis
        by (subst json_string_body.simps) simp
    next
      case False
      with 1(2) [OF Cons False] Cons json_escape_upper [of c] show ?thesis by (subst json_string_body.simps) simp
    qed
  qed
qed

fun json_bound :: "json \<Rightarrow> nat" where
  "json_bound JNull = 4"
| "json_bound (JNumber n) = length (json_Marshal (JNumber n))"
| "json_bound (JString s) = 6 * length s + 2"
| "json_bound (JArray xs) = sum_list (map json_bound xs) + length xs + 2"
| "json_bound (JObject ms) = sum_list (map (\<lambda>m. 6 * length (fst m) + 3 + json_bound (snd m)) ms) + length ms + 2"

lemma json_bound_le: "length (json_Marshal j) \<le> json_bound j"
proof (induction j rule: json_Marshal.induct)
  case (3 s)
  then show ?case using json_string_upper [of s] by (simp add: json_string_def)
next
  case (4 xs)
  then have "sum_list (map (length \<circ> json_Marshal) xs) \<le> sum_list (map json_bound xs)" by (intro sum_list_mono) simp
  then show ?case by (simp add: length_commas)
next
  case (5 ms)
  have "sum_list (map (length \<circ> (\<lambda>m. json_string (fst m) @ '':'' @ json_Marshal (snd m))) ms)
      \<le> sum_list (map (\<lambda>m. 6 * length (fst m) + 3 + json_bound (snd m)) ms)"
    using 5 json_string_upper by (intro sum_list_mono) (auto simp: json_string_def add_mono)
  then show ?case by (simp add: length_commas)
qed simp_all

subsection \<open>The budget\<close>

record declarationJSONBudget =
  b_used :: int
  b_limit :: int

type_synonym visitor = "declarationJSONBudget \<Rightarrow> declarationJSONBudget result"

definition budget_add :: "int \<Rightarrow> visitor" where
  "budget_add n b =
     (if n > b_limit b - b_used b then Inl (invalid CodeTooLarge ''$'')
      else Inr (b\<lparr>b_used := b_used b + n\<rparr>))"

definition budget_string :: "bytes \<Rightarrow> visitor" where
  "budget_string value b =
     (if int (length value) > b_limit b - b_used b \<or> b_limit b - b_used b - int (length value) < 2
      then Inl (invalid CodeTooLarge ''$'')
      else budget_add (int (length (json_string value))) b)"

text \<open>
  \<^verbatim>\<open>collection(count, visit)\<close>: the calls \<^verbatim>\<open>visit(0)\<close>, \<^verbatim>\<open>visit(1)\<close>, \dots{} are given as the list
  of the visitors they stand for.
\<close>

fun collection_loop :: "nat \<Rightarrow> visitor list \<Rightarrow> visitor" where
  "collection_loop i [] b = Inr b"
| "collection_loop i (visit # rest) b =
     res_bind (if 0 < i then budget_add 1 b else Inr b) (\<lambda>b.
     res_bind (visit b) (collection_loop (Suc i) rest))"

definition budget_collection :: "visitor list \<Rightarrow> visitor" where
  "budget_collection visits b = res_bind (budget_add 2 b) (collection_loop 0 visits)"

type_synonym declarationJSONMember = "bytes \<times> visitor"

definition member_visitor :: "declarationJSONMember \<Rightarrow> visitor" where
  "member_visitor m b =
     res_bind (budget_string (fst m) b) (\<lambda>b. res_bind (budget_add 1 b) (snd m))"

definition budget_object :: "declarationJSONMember list \<Rightarrow> visitor" where
  "budget_object members = budget_collection (map member_visitor members)"

definition budget_text :: "bytes \<Rightarrow> bytes \<Rightarrow> declarationJSONMember" where
  "budget_text name value = (name, budget_string value)"

definition budget_extension ::
    "bytes \<Rightarrow> bytes \<Rightarrow> bytes \<Rightarrow> bytes \<Rightarrow> bytes \<Rightarrow> ResolvedField list \<Rightarrow> visitor" where
  "budget_extension version owner kind schemaKey schema flds =
     budget_object
       [budget_text ''schema_version'' version, budget_text ''owner'' owner, budget_text ''kind'' kind,
        budget_text schemaKey schema,
        (''fields'', budget_collection
           (map (\<lambda>f. budget_object [budget_text ''name'' (rf_Name f), budget_text ''value'' (rf_Value f)]) flds))]"

subsection \<open>What a visitor charges\<close>

text \<open>
  A visitor charges \<open>n\<close> when, from any budget within its limit, it succeeds exactly if
  \<open>n\<close> more bytes fit, and then has used exactly \<open>n\<close> more.
\<close>

definition budget_wf :: "declarationJSONBudget \<Rightarrow> bool" where
  "budget_wf b \<longleftrightarrow> 0 \<le> b_used b \<and> b_used b \<le> b_limit b"

definition charges :: "visitor \<Rightarrow> nat \<Rightarrow> bool" where
  "charges v n \<longleftrightarrow> (\<forall>b. budget_wf b \<longrightarrow>
     v b = (if int n \<le> b_limit b - b_used b then Inr (b\<lparr>b_used := b_used b + int n\<rparr>)
            else Inl (invalid CodeTooLarge ''$'')))"

lemma chargesD:
  "charges v n \<Longrightarrow> budget_wf b \<Longrightarrow>
     v b = (if int n \<le> b_limit b - b_used b then Inr (b\<lparr>b_used := b_used b + int n\<rparr>)
            else Inl (invalid CodeTooLarge ''$''))"
  by (simp add: charges_def)

lemma charges_add: "charges (budget_add (int n)) n"
  by (simp add: charges_def budget_add_def)

lemma charges_string: "charges (budget_string s) (length (json_string s))"
  using length_json_string [of s] by (auto simp: charges_def budget_string_def budget_add_def)

lemma charges_seq: "charges v m \<Longrightarrow> charges w n \<Longrightarrow> charges (\<lambda>b. res_bind (v b) w) (m + n)"
proof (unfold charges_def [of "\<lambda>b. res_bind (v b) w"], intro allI impI)
  fix b assume v: "charges v m" and w: "charges w n" and b: "budget_wf b"
  have "int m \<le> b_limit b - b_used b \<Longrightarrow> budget_wf (b\<lparr>b_used := b_used b + int m\<rparr>)"
    using b by (simp add: budget_wf_def)
  then show "res_bind (v b) w =
      (if int (m + n) \<le> b_limit b - b_used b then Inr (b\<lparr>b_used := b_used b + int (m + n)\<rparr>)
       else Inl (invalid CodeTooLarge ''$''))"
    using chargesD [OF v b] chargesD [OF w] by (auto simp: add.assoc)
qed

lemma charges_return: "charges Inr 0"
  by (simp add: charges_def budget_wf_def)

lemma charges_loop:
  "list_all2 charges vs ns \<Longrightarrow>
     charges (collection_loop i vs) (sum_list ns + (if 0 < i then length vs else length vs - 1))"
proof (induction vs ns arbitrary: i rule: list_all2_induct)
  case Nil
  have "collection_loop i [] = Inr" by (rule ext) simp
  then show ?case using charges_return by simp
next
  case (Cons v vs n ns)
  have sep: "charges (\<lambda>b. if 0 < i then budget_add 1 b else Inr b) (if 0 < i then 1 else 0)"
    using charges_add [of 1] charges_return by simp
  from charges_seq [OF sep charges_seq [OF Cons.hyps(1) Cons.IH [of "Suc i"]]]
  have "charges (\<lambda>b. res_bind (if 0 < i then budget_add 1 b else Inr b) (\<lambda>b. res_bind (v b) (collection_loop (Suc i) vs)))
      ((if 0 < i then 1 else 0) + (n + (sum_list ns + length vs)))" by simp
  moreover have "collection_loop i (v # vs) =
      (\<lambda>b. res_bind (if 0 < i then budget_add 1 b else Inr b) (\<lambda>b. res_bind (v b) (collection_loop (Suc i) vs)))"
    by (rule ext) simp
  ultimately show ?case by (cases "0 < i") (simp_all add: ac_simps)
qed

lemma charges_collection:
  assumes "list_all2 charges vs ns"
  shows "charges (budget_collection vs) (2 + (sum_list ns + (length vs - 1)))"
proof -
  have "charges (\<lambda>b. res_bind (budget_add 2 b) (collection_loop 0 vs)) (2 + (sum_list ns + (length vs - 1)))"
    using charges_seq [OF charges_add [of 2] charges_loop [OF assms, of 0]] by simp
  then show ?thesis by (simp add: charges_def budget_collection_def)
qed

text \<open>\<open>charges_json v j\<close>: the visitor charges the size of the encoding of \<open>j\<close>.\<close>

definition charges_json :: "visitor \<Rightarrow> json \<Rightarrow> bool" where
  "charges_json v j \<longleftrightarrow> charges v (length (json_Marshal j))"

lemma charges_json_string [simp]: "charges_json (budget_string s) (JString s)"
  by (simp add: charges_json_def charges_string)

lemma charges_json_array:
  "list_all2 charges_json vs js \<Longrightarrow> charges_json (budget_collection vs) (JArray js)"
proof -
  assume a: "list_all2 charges_json vs js"
  then have "list_all2 charges vs (map (length \<circ> json_Marshal) js)"
    by (auto simp: list_all2_conv_all_nth charges_json_def)
  from charges_collection [OF this] show ?thesis
    using list_all2_lengthD [OF a] by (simp add: charges_json_def length_commas comp_def)
qed

definition charges_member :: "declarationJSONMember \<Rightarrow> bytes \<times> json \<Rightarrow> bool" where
  "charges_member m j \<longleftrightarrow> fst m = fst j \<and> charges_json (snd m) (snd j)"

lemma charges_text [simp]: "charges_member (budget_text n s) (n, JString s)"
  by (simp add: charges_member_def budget_text_def)

lemma charges_member_visitor:
  assumes "charges_member m j"
  shows "charges (member_visitor m) (length (json_string (fst j) @ '':'' @ json_Marshal (snd j)))"
proof -
  have "charges (\<lambda>b. res_bind (budget_string (fst m) b) (\<lambda>b. res_bind (budget_add (int 1) b) (snd m)))
      (length (json_string (fst m)) + (1 + length (json_Marshal (snd j))))"
    by (intro charges_seq charges_string charges_add) (use assms in \<open>simp add: charges_member_def charges_json_def\<close>)
  then show ?thesis using assms by (simp add: charges_def member_visitor_def charges_member_def)
qed

lemma charges_json_object:
  assumes "list_all2 charges_member ms js"
  shows "charges_json (budget_object ms) (JObject js)"
proof -
  let ?n = "\<lambda>j. length (json_string (fst j) @ '':'' @ json_Marshal (snd j))"
  have "list_all2 charges (map member_visitor ms) (map ?n js)"
    using assms charges_member_visitor by (simp add: list_all2_conv_all_nth del: length_append)
  from charges_collection [OF this] show ?thesis
    using list_all2_lengthD [OF assms]
    by (simp add: charges_json_def budget_object_def length_commas comp_def)
qed

definition field_json :: "ResolvedField \<Rightarrow> json" where
  "field_json f = JObject [(''name'', JString (rf_Name f)), (''value'', JString (rf_Value f))]"

definition extension_json ::
    "bytes \<Rightarrow> bytes \<Rightarrow> bytes \<Rightarrow> bytes \<Rightarrow> bytes \<Rightarrow> ResolvedField list \<Rightarrow> json" where
  "extension_json version owner kind schemaKey schema flds =
     JObject [(''schema_version'', JString version), (''owner'', JString owner), (''kind'', JString kind),
       (schemaKey, JString schema), (''fields'', JArray (map field_json flds))]"

lemma charges_fields:
  "charges_json (budget_collection
     (map (\<lambda>f. budget_object [budget_text ''name'' (rf_Name f), budget_text ''value'' (rf_Value f)]) flds))
     (JArray (map field_json flds))"
  by (rule charges_json_array)
    (auto simp: list_all2_map1 list_all2_map2 field_json_def intro!: list_all2_same [THEN iffD2] charges_json_object)

lemma charges_extension:
  "charges_json (budget_extension v ow k sk s flds) (extension_json v ow k sk s flds)"
  unfolding budget_extension_def extension_json_def
  by (rule charges_json_object) (simp add: charges_member_def [of "(_, _)"] charges_fields)

end
