(* ===== verification/Declarations.thy ===== *)
theory Declarations
  imports Declaration_Budget
begin

text \<open>
  The unresolved declarations of the runtime:
  \<^verbatim>\<open>extension_declaration.go\<close> (specifications of inputs, environments and deployments),
  \<^verbatim>\<open>diagnostics.go\<close> (capability and portability observations), \<^verbatim>\<open>declaration.go\<close> (factory and
  transform declarations, resolver observations), \<^verbatim>\<open>declaration_document.go\<close>,
  \<^verbatim>\<open>recipe_declaration.go\<close> and the declaration walk of \<^verbatim>\<open>declaration_limits.go\<close>.

  Values are immutable here, so the defensive copies of the source are the identity.  A
  Go map from strings to strings is the list of its entries with pairwise distinct keys,
  in an arbitrary iteration order; a nil slice or map is the empty list.
\<close>

type_synonym DeclarationField = ResolvedField

definition new_budget :: declarationJSONBudget where
  "new_budget = \<lparr>b_used = 0, b_limit = int MaxJSONBytes\<rparr>"

subsection \<open>Specifications (extension\_declaration.go)\<close>

definition canonicalDeclarationFields :: "DeclarationField list \<Rightarrow> bytes \<Rightarrow> nat \<Rightarrow> DeclarationField list result" where
  "canonicalDeclarationFields source path maximumValueBytes =
     (if MaxResolvedFields < length source then Inl (invalid CodeTooLarge path)
      else
        let flds = sort_key rf_Name source in
        res_bind (checkFields path maximumValueBytes 0 None flds) (\<lambda>_. Inr flds))"

record ExtensionSpecificationInput =
  si_SchemaVersion :: bytes
  si_Owner :: bytes
  si_Kind :: bytes
  si_SpecificationSchema :: bytes
  si_Fields :: "DeclarationField list"

record extensionSpecificationData =
  sp_schemaVersion :: bytes
  sp_owner :: bytes
  sp_kind :: bytes
  sp_specificationSchema :: bytes
  sp_fields :: "DeclarationField list"

type_synonym InputDeclaration = "extensionSpecificationData option"
type_synonym ExecutionEnvironmentDeclaration = "extensionSpecificationData option"
type_synonym DeploymentDeclaration = "extensionSpecificationData option"

record extensionSpecificationWire =
  sw_SchemaVersion :: "bytes option"
  sw_Owner :: "bytes option"
  sw_Kind :: "bytes option"
  sw_SpecificationSchema :: "bytes option"
  sw_Fields :: "DeclarationField list option"

definition specificationWire :: "extensionSpecificationData option \<Rightarrow> extensionSpecificationWire result" where
  "specificationWire data =
     (case data of None \<Rightarrow> Inl (invalid CodeInvalidShape ''$'')
      | Some d \<Rightarrow> Inr \<lparr>sw_SchemaVersion = Some (sp_schemaVersion d), sw_Owner = Some (sp_owner d),
                      sw_Kind = Some (sp_kind d), sw_SpecificationSchema = Some (sp_specificationSchema d),
                      sw_Fields = Some (sp_fields d)\<rparr>)"

text \<open>
  The budget dereferences the members of the wire it is given; every caller passes the
  projection of validated data, in which all of them are present.
\<close>

definition budget_specification :: "extensionSpecificationWire \<Rightarrow> visitor" where
  "budget_specification w =
     budget_extension (the (sw_SchemaVersion w)) (the (sw_Owner w)) (the (sw_Kind w))
       ''specification_schema'' (the (sw_SpecificationSchema w)) (the (sw_Fields w))"

definition newExtensionSpecification :: "ExtensionSpecificationInput \<Rightarrow> extensionSpecificationData result" where
  "newExtensionSpecification input =
     (if si_SchemaVersion input \<noteq> SchemaVersion then Inl (invalid CodeInvalidVersion ''schema_version'')
      else
       res_bind (validateIdentifier (si_Owner input) ''owner'') (\<lambda>_.
       res_bind (validateIdentifier (si_Kind input) ''kind'') (\<lambda>_.
       res_bind (validateIdentifier (si_SpecificationSchema input) ''specification_schema'') (\<lambda>_.
       res_bind (canonicalDeclarationFields (si_Fields input) ''fields'' MaxDeclarationValueBytes) (\<lambda>flds.
       let data = \<lparr>sp_schemaVersion = si_SchemaVersion input, sp_owner = si_Owner input,
                   sp_kind = si_Kind input, sp_specificationSchema = si_SpecificationSchema input,
                   sp_fields = flds\<rparr> in
       res_bind (specificationWire (Some data)) (\<lambda>wire.
       res_bind (budget_specification wire new_budget) (\<lambda>_. Inr data)))))))"

definition NewExtensionDeclaration :: "ExtensionSpecificationInput \<Rightarrow> extensionSpecificationData option result" where
  "NewExtensionDeclaration input = res_map Some (newExtensionSpecification input)"

definition specificationFromWire :: "extensionSpecificationWire \<Rightarrow> extensionSpecificationData result" where
  "specificationFromWire w =
     (case sw_SchemaVersion w of None \<Rightarrow> Inl (invalid CodeInvalidShape ''schema_version'')
      | Some schemaVersion \<Rightarrow>
      (case sw_Owner w of None \<Rightarrow> Inl (invalid CodeInvalidShape ''owner'')
      | Some owner \<Rightarrow>
      (case sw_Kind w of None \<Rightarrow> Inl (invalid CodeInvalidShape ''kind'')
      | Some kind \<Rightarrow>
      (case sw_SpecificationSchema w of None \<Rightarrow> Inl (invalid CodeInvalidShape ''specification_schema'')
      | Some schema \<Rightarrow>
      (case sw_Fields w of None \<Rightarrow> Inl (invalid CodeInvalidShape ''fields'')
      | Some flds \<Rightarrow>
         newExtensionSpecification \<lparr>si_SchemaVersion = schemaVersion, si_Owner = owner, si_Kind = kind,
            si_SpecificationSchema = schema, si_Fields = flds\<rparr>)))))"

definition marshalSpecification :: "extensionSpecificationData option \<Rightarrow> extensionSpecificationWire result" where
  "marshalSpecification data =
     res_bind (specificationWire data) (\<lambda>wire.
     res_bind (budget_specification wire new_budget) (\<lambda>_. Inr wire))"

definition unmarshalSpecification ::
    "extensionSpecificationWire result \<Rightarrow> extensionSpecificationData result" where
  "unmarshalSpecification decoded = res_bind decoded specificationFromWire"

subsection \<open>Observations (diagnostics.go)\<close>

record DiagnosticObservationInput =
  oi_SchemaVersion :: bytes
  oi_Owner :: bytes
  oi_Kind :: bytes
  oi_ObservationSchema :: bytes
  oi_Fields :: "DeclarationField list"

record diagnosticObservationData =
  ob_schemaVersion :: bytes
  ob_owner :: bytes
  ob_kind :: bytes
  ob_observationSchema :: bytes
  ob_fields :: "DeclarationField list"

type_synonym CapabilityObservation = "diagnosticObservationData option"
type_synonym PortabilityObservation = "diagnosticObservationData option"

definition newDiagnosticObservation :: "DiagnosticObservationInput \<Rightarrow> diagnosticObservationData result" where
  "newDiagnosticObservation input =
     (if oi_SchemaVersion input \<noteq> SchemaVersion then Inl (invalid CodeInvalidVersion ''schema_version'')
      else
       res_bind (validateIdentifier (oi_Owner input) ''owner'') (\<lambda>_.
       res_bind (validateIdentifier (oi_Kind input) ''kind'') (\<lambda>_.
       res_bind (validateIdentifier (oi_ObservationSchema input) ''observation_schema'') (\<lambda>_.
       res_bind (canonicalDeclarationFields (oi_Fields input) ''fields'' MaxResolvedValueBytes) (\<lambda>flds.
       Inr \<lparr>ob_schemaVersion = oi_SchemaVersion input, ob_owner = oi_Owner input, ob_kind = oi_Kind input,
            ob_observationSchema = oi_ObservationSchema input, ob_fields = flds\<rparr>)))))"

record diagnosticObservationWire =
  ow_SchemaVersion :: "bytes option"
  ow_Owner :: "bytes option"
  ow_Kind :: "bytes option"
  ow_ObservationSchema :: "bytes option"
  ow_Fields :: "DeclarationField list option"

definition diagnosticWire :: "diagnosticObservationData \<Rightarrow> diagnosticObservationWire" where
  "diagnosticWire d =
     \<lparr>ow_SchemaVersion = Some (ob_schemaVersion d), ow_Owner = Some (ob_owner d), ow_Kind = Some (ob_kind d),
      ow_ObservationSchema = Some (ob_observationSchema d), ow_Fields = Some (ob_fields d)\<rparr>"

definition budget_observation :: "diagnosticObservationWire \<Rightarrow> visitor" where
  "budget_observation w =
     budget_extension (the (ow_SchemaVersion w)) (the (ow_Owner w)) (the (ow_Kind w))
       ''observation_schema'' (the (ow_ObservationSchema w)) (the (ow_Fields w))"

definition marshalDiagnostic :: "diagnosticObservationData option \<Rightarrow> diagnosticObservationWire result" where
  "marshalDiagnostic data =
     (case data of None \<Rightarrow> Inl (invalid CodeInvalidShape ''$'') | Some d \<Rightarrow> Inr (diagnosticWire d))"

definition unmarshalDiagnostic :: "diagnosticObservationWire result \<Rightarrow> diagnosticObservationData result" where
  "unmarshalDiagnostic decoded =
     res_bind decoded (\<lambda>wire.
      case ow_SchemaVersion wire of None \<Rightarrow> Inl (invalid CodeInvalidShape ''schema_version'')
      | Some schemaVersion \<Rightarrow>
      (case ow_Owner wire of None \<Rightarrow> Inl (invalid CodeInvalidShape ''owner'')
      | Some owner \<Rightarrow>
      (case ow_Kind wire of None \<Rightarrow> Inl (invalid CodeInvalidShape ''kind'')
      | Some kind \<Rightarrow>
      (case ow_ObservationSchema wire of None \<Rightarrow> Inl (invalid CodeInvalidShape ''observation_schema'')
      | Some schema \<Rightarrow>
      (case ow_Fields wire of None \<Rightarrow> Inl (invalid CodeInvalidShape ''fields'')
      | Some flds \<Rightarrow>
         newDiagnosticObservation \<lparr>oi_SchemaVersion = schemaVersion, oi_Owner = owner, oi_Kind = kind,
            oi_ObservationSchema = schema, oi_Fields = flds\<rparr>)))))"

subsection \<open>Factory and transform declarations (declaration.go)\<close>

record FactoryDeclaration =
  fd_Kind :: bytes
  fd_Reference :: bytes
  fd_Arguments :: "bytes list"
  fd_Attributes :: "(bytes \<times> bytes) list"
  fd_Inputs :: "InputDeclaration list"
  fd_ExecutionEnvironment :: "ExecutionEnvironmentDeclaration option"
  fd_Deployment :: "DeploymentDeclaration option"
  fd_Capabilities :: "CapabilityObservation list"
  fd_Portability :: "PortabilityObservation list"

record TransformDeclaration =
  td_Kind :: bytes
  td_Reference :: bytes
  td_Arguments :: "bytes list"
  td_Attributes :: "(bytes \<times> bytes) list"
  td_Inputs :: "InputDeclaration list"
  td_ExecutionEnvironment :: "ExecutionEnvironmentDeclaration option"
  td_Capabilities :: "CapabilityObservation list"
  td_Portability :: "PortabilityObservation list"

record ResolverObservation =
  ro_Implementation :: bytes
  ro_Version :: bytes

fun validateArguments :: "nat \<Rightarrow> bytes list \<Rightarrow> unit result" where
  "validateArguments index [] = Inr ()"
| "validateArguments index (argument # rest) =
     res_bind (validateUTF8 argument (indexed ''arguments'' index) False MaxResolvedValueBytes)
       (\<lambda>_. validateArguments (Suc index) rest)"

fun validateAttributes :: "(bytes \<times> bytes) list \<Rightarrow> unit result" where
  "validateAttributes [] = Inr ()"
| "validateAttributes ((key, value) # rest) =
     res_bind (validateIdentifier key (''attributes.'' @ key)) (\<lambda>_.
     res_bind (validateUTF8 value (''attributes.'' @ key) True MaxResolvedValueBytes)
       (\<lambda>_. validateAttributes rest))"

definition validateDeclaration ::
    "bytes \<Rightarrow> bytes \<Rightarrow> bytes list \<Rightarrow> (bytes \<times> bytes) list \<Rightarrow> unit result" where
  "validateDeclaration kind reference arguments attributes =
     res_bind (validateIdentifier kind ''kind'') (\<lambda>_.
     res_bind (validateUTF8 reference ''reference'' False MaxResolvedValueBytes) (\<lambda>_.
     if MaxArguments < length arguments then Inl (invalid CodeTooLarge ''arguments'')
     else
      res_bind (validateArguments 0 arguments) (\<lambda>_.
      if MaxAttributes < length attributes then Inl (invalid CodeTooLarge ''attributes'')
      else validateAttributes (sort_key fst attributes))))"

text \<open>The loops over opaque children: the first nil one is reported with its index.\<close>

fun checkPresent :: "bytes \<Rightarrow> nat \<Rightarrow> 'a option list \<Rightarrow> unit result" where
  "checkPresent path index [] = Inr ()"
| "checkPresent path index (value # rest) =
     (if value = None then Inl (invalid CodeInvalidShape (indexed path index))
      else checkPresent path (Suc index) rest)"

definition validateDeclarationExtensions ::
    "InputDeclaration list \<Rightarrow> ExecutionEnvironmentDeclaration option \<Rightarrow> CapabilityObservation list
     \<Rightarrow> PortabilityObservation list \<Rightarrow> unit result" where
  "validateDeclarationExtensions inputs environment capabilities portability =
     (if MaxResolvedFields < length inputs then Inl (invalid CodeTooLarge ''inputs'')
      else
       res_bind (checkPresent ''inputs'' 0 inputs) (\<lambda>_.
       if environment = Some None then Inl (invalid CodeInvalidShape ''execution_environment'')
       else if MaxResolvedFields < length capabilities then Inl (invalid CodeTooLarge ''capabilities'')
       else
        res_bind (checkPresent ''capabilities'' 0 capabilities) (\<lambda>_.
        if MaxResolvedFields < length portability then Inl (invalid CodeTooLarge ''portability'')
        else checkPresent ''portability'' 0 portability)))"

definition validateFactoryDeclarationInput :: "FactoryDeclaration \<Rightarrow> unit result" where
  "validateFactoryDeclarationInput value =
     res_bind (validateDeclaration (fd_Kind value) (fd_Reference value) (fd_Arguments value) (fd_Attributes value)) (\<lambda>_.
     res_bind (validateDeclarationExtensions (fd_Inputs value) (fd_ExecutionEnvironment value)
                 (fd_Capabilities value) (fd_Portability value)) (\<lambda>_.
     if fd_Deployment value = Some None then Inl (invalid CodeInvalidShape ''deployment'')
     else Inr ()))"

definition validateTransformDeclarationInput :: "TransformDeclaration \<Rightarrow> unit result" where
  "validateTransformDeclarationInput value =
     res_bind (validateDeclaration (td_Kind value) (td_Reference value) (td_Arguments value) (td_Attributes value)) (\<lambda>_.
     validateDeclarationExtensions (td_Inputs value) (td_ExecutionEnvironment value)
       (td_Capabilities value) (td_Portability value))"

definition validateResolver :: "ResolverObservation option \<Rightarrow> unit result" where
  "validateResolver value =
     (case value of None \<Rightarrow> Inr ()
      | Some r \<Rightarrow>
         res_bind (validateIdentifier (ro_Implementation r) ''implementation'') (\<lambda>_.
         validateUTF8 (ro_Version r) ''version'' False MaxIdentifierBytes))"

record declarationWire =
  dw_Kind :: "bytes option"
  dw_Reference :: "bytes option"
  dw_Arguments :: "bytes list option"
  dw_Attributes :: "(bytes \<times> bytes) list option"
  dw_Inputs :: "InputDeclaration list"
  dw_ExecutionEnvironment :: "ExecutionEnvironmentDeclaration option"
  dw_Deployment :: "DeploymentDeclaration option"
  dw_Capabilities :: "CapabilityObservation list"
  dw_Portability :: "PortabilityObservation list"

definition factoryDeclarationWire :: "FactoryDeclaration \<Rightarrow> declarationWire" where
  "factoryDeclarationWire d =
     \<lparr>dw_Kind = Some (fd_Kind d), dw_Reference = Some (fd_Reference d), dw_Arguments = Some (fd_Arguments d),
      dw_Attributes = Some (fd_Attributes d), dw_Inputs = fd_Inputs d,
      dw_ExecutionEnvironment = fd_ExecutionEnvironment d, dw_Deployment = fd_Deployment d,
      dw_Capabilities = fd_Capabilities d, dw_Portability = fd_Portability d\<rparr>"

definition transformDeclarationWire :: "TransformDeclaration \<Rightarrow> declarationWire" where
  "transformDeclarationWire d =
     \<lparr>dw_Kind = Some (td_Kind d), dw_Reference = Some (td_Reference d), dw_Arguments = Some (td_Arguments d),
      dw_Attributes = Some (td_Attributes d), dw_Inputs = td_Inputs d,
      dw_ExecutionEnvironment = td_ExecutionEnvironment d, dw_Deployment = None,
      dw_Capabilities = td_Capabilities d, dw_Portability = td_Portability d\<rparr>"

text \<open>
  \<^verbatim>\<open>wire, _ := specificationWire(child.data)\<close> on a validated child.
\<close>

definition child_specification :: "extensionSpecificationData option \<Rightarrow> visitor" where
  "child_specification data b =
     (case specificationWire data of Inl e \<Rightarrow> Inl e | Inr wire \<Rightarrow> budget_specification wire b)"

definition child_observation :: "diagnosticObservationData option \<Rightarrow> visitor" where
  "child_observation data = budget_observation (diagnosticWire (the data))"

definition budget_declaration :: "declarationWire \<Rightarrow> visitor" where
  "budget_declaration w =
     budget_object
       ([budget_text ''kind'' (the (dw_Kind w)), budget_text ''reference'' (the (dw_Reference w)),
         (''arguments'', budget_collection (map budget_string (the (dw_Arguments w)))),
         (''attributes'', budget_object (map (\<lambda>(key, value). budget_text key value) (the (dw_Attributes w))))]
        @ (if dw_Inputs w \<noteq> []
           then [(''inputs'', budget_collection (map child_specification (dw_Inputs w)))] else [])
        @ (case dw_ExecutionEnvironment w of None \<Rightarrow> []
           | Some d \<Rightarrow> [(''execution_environment'', child_specification d)])
        @ (case dw_Deployment w of None \<Rightarrow> [] | Some d \<Rightarrow> [(''deployment'', child_specification d)])
        @ (if dw_Capabilities w \<noteq> []
           then [(''capabilities'', budget_collection (map child_observation (dw_Capabilities w)))] else [])
        @ (if dw_Portability w \<noteq> []
           then [(''portability'', budget_collection (map child_observation (dw_Portability w)))] else []))"

definition budget_document :: "declarationWire \<Rightarrow> visitor" where
  "budget_document declaration =
     budget_object [budget_text ''schema_version'' SchemaVersion, (''declaration'', budget_declaration declaration)]"

definition validateFactoryDeclaration :: "FactoryDeclaration \<Rightarrow> unit result" where
  "validateFactoryDeclaration value =
     res_bind (validateFactoryDeclarationInput value) (\<lambda>_.
     res_map (\<lambda>_. ()) (budget_declaration (factoryDeclarationWire value) new_budget))"

definition validateTransformDeclaration :: "TransformDeclaration \<Rightarrow> unit result" where
  "validateTransformDeclaration value =
     res_bind (validateTransformDeclarationInput value) (\<lambda>_.
     res_map (\<lambda>_. ()) (budget_declaration (transformDeclarationWire value) new_budget))"

definition declarationFromWire ::
    "declarationWire \<Rightarrow> (bytes \<times> bytes \<times> bytes list \<times> (bytes \<times> bytes) list) result" where
  "declarationFromWire w =
     (case dw_Kind w of None \<Rightarrow> Inl (invalid CodeInvalidShape ''kind'')
      | Some kind \<Rightarrow>
      (case dw_Reference w of None \<Rightarrow> Inl (invalid CodeInvalidShape ''reference'')
      | Some reference \<Rightarrow>
      (case dw_Arguments w of None \<Rightarrow> Inl (invalid CodeInvalidShape ''arguments'')
      | Some arguments \<Rightarrow>
      (case dw_Attributes w of None \<Rightarrow> Inl (invalid CodeInvalidShape ''attributes'')
      | Some attributes \<Rightarrow>
         res_bind (validateDeclaration kind reference arguments attributes)
           (\<lambda>_. Inr (kind, reference, arguments, attributes))))))"

definition FactoryDeclaration_MarshalJSON :: "FactoryDeclaration \<Rightarrow> declarationWire result" where
  "FactoryDeclaration_MarshalJSON d =
     res_bind (validateFactoryDeclaration d) (\<lambda>_. Inr (factoryDeclarationWire d))"

definition FactoryDeclaration_UnmarshalJSON :: "declarationWire result \<Rightarrow> FactoryDeclaration result" where
  "FactoryDeclaration_UnmarshalJSON decoded =
     res_bind decoded (\<lambda>wire.
     res_bind (declarationFromWire wire) (\<lambda>(kind, ref, args, attrs).
      let value = \<lparr>fd_Kind = kind, fd_Reference = ref, fd_Arguments = args, fd_Attributes = attrs,
                   fd_Inputs = dw_Inputs wire, fd_ExecutionEnvironment = dw_ExecutionEnvironment wire,
                   fd_Deployment = dw_Deployment wire, fd_Capabilities = dw_Capabilities wire,
                   fd_Portability = dw_Portability wire\<rparr> in
      res_bind (validateFactoryDeclaration value) (\<lambda>_. Inr value)))"

definition TransformDeclaration_MarshalJSON :: "TransformDeclaration \<Rightarrow> declarationWire result" where
  "TransformDeclaration_MarshalJSON d =
     res_bind (validateTransformDeclaration d) (\<lambda>_. Inr (transformDeclarationWire d))"

definition TransformDeclaration_UnmarshalJSON :: "declarationWire result \<Rightarrow> TransformDeclaration result" where
  "TransformDeclaration_UnmarshalJSON decoded =
     res_bind decoded (\<lambda>wire.
     res_bind (declarationFromWire wire) (\<lambda>(kind, ref, args, attrs).
      if dw_Deployment wire \<noteq> None then Inl (invalid CodeInvalidShape ''deployment'')
      else
      let value = \<lparr>td_Kind = kind, td_Reference = ref, td_Arguments = args, td_Attributes = attrs,
                   td_Inputs = dw_Inputs wire, td_ExecutionEnvironment = dw_ExecutionEnvironment wire,
                   td_Capabilities = dw_Capabilities wire, td_Portability = dw_Portability wire\<rparr> in
      res_bind (validateTransformDeclaration value) (\<lambda>_. Inr value)))"

subsection \<open>Documents (declaration\_document.go, recipe\_declaration.go)\<close>

definition NewFactoryDeclarationDocument :: "FactoryDeclaration \<Rightarrow> FactoryDeclaration option result" where
  "NewFactoryDeclarationDocument value =
     res_bind (validateFactoryDeclarationInput value) (\<lambda>_.
     res_bind (budget_document (factoryDeclarationWire value) new_budget) (\<lambda>_. Inr (Some value)))"

definition NewTransformDeclarationDocument :: "TransformDeclaration \<Rightarrow> TransformDeclaration option result" where
  "NewTransformDeclarationDocument value =
     res_bind (validateTransformDeclarationInput value) (\<lambda>_.
     res_bind (budget_document (transformDeclarationWire value) new_budget) (\<lambda>_. Inr (Some value)))"

definition FactoryDocument_MarshalJSON ::
    "FactoryDeclaration option \<Rightarrow> (bytes option \<times> FactoryDeclaration option) result" where
  "FactoryDocument_MarshalJSON d =
     (case d of None \<Rightarrow> Inl (invalid CodeInvalidShape ''$'')
      | Some declaration \<Rightarrow>
         res_bind (budget_document (factoryDeclarationWire declaration) new_budget)
           (\<lambda>_. Inr (Some SchemaVersion, Some declaration)))"

definition FactoryDocument_UnmarshalJSON ::
    "(bytes option \<times> FactoryDeclaration option) result \<Rightarrow> FactoryDeclaration option result" where
  "FactoryDocument_UnmarshalJSON decoded =
     res_bind decoded (\<lambda>(version, declaration).
      case version of None \<Rightarrow> Inl (invalid CodeInvalidShape ''schema_version'')
      | Some v \<Rightarrow>
         if v \<noteq> SchemaVersion then Inl (invalid CodeInvalidVersion ''schema_version'')
         else (case declaration of None \<Rightarrow> Inl (invalid CodeInvalidShape ''declaration'')
               | Some d \<Rightarrow> res_prefix ''declaration'' (NewFactoryDeclarationDocument d)))"

definition TransformDocument_MarshalJSON ::
    "TransformDeclaration option \<Rightarrow> (bytes option \<times> TransformDeclaration option) result" where
  "TransformDocument_MarshalJSON d =
     (case d of None \<Rightarrow> Inl (invalid CodeInvalidShape ''$'')
      | Some declaration \<Rightarrow>
         res_bind (budget_document (transformDeclarationWire declaration) new_budget)
           (\<lambda>_. Inr (Some SchemaVersion, Some declaration)))"

definition TransformDocument_UnmarshalJSON ::
    "(bytes option \<times> TransformDeclaration option) result \<Rightarrow> TransformDeclaration option result" where
  "TransformDocument_UnmarshalJSON decoded =
     res_bind decoded (\<lambda>(version, declaration).
      case version of None \<Rightarrow> Inl (invalid CodeInvalidShape ''schema_version'')
      | Some v \<Rightarrow>
         if v \<noteq> SchemaVersion then Inl (invalid CodeInvalidVersion ''schema_version'')
         else (case declaration of None \<Rightarrow> Inl (invalid CodeInvalidShape ''declaration'')
               | Some d \<Rightarrow> res_prefix ''declaration'' (NewTransformDeclarationDocument d)))"

definition recipe_transform_visitor :: "TransformDeclaration \<Rightarrow> nat \<Rightarrow> visitor" where
  "recipe_transform_visitor transform i b =
     res_bind (res_prefix (indexed ''transforms'' i) (validateTransformDeclarationInput transform))
       (\<lambda>_. budget_declaration (transformDeclarationWire transform) b)"

definition recipe_visitor :: "FactoryDeclaration \<Rightarrow> TransformDeclaration list \<Rightarrow> visitor" where
  "recipe_visitor factory transforms =
     budget_object
       [budget_text ''schema_version'' SchemaVersion,
        (''factory'', budget_declaration (factoryDeclarationWire factory)),
        (''transforms'', budget_collection
           (map (\<lambda>(i, t). recipe_transform_visitor t i) (enumerate 0 transforms)))]"

definition validateRecipeDeclaration :: "FactoryDeclaration \<Rightarrow> TransformDeclaration list \<Rightarrow> unit result" where
  "validateRecipeDeclaration factory transforms =
     res_bind (res_prefix ''factory'' (validateFactoryDeclarationInput factory)) (\<lambda>_.
     if MaxTransforms < length transforms then Inl (invalid CodeTooLarge ''transforms'')
     else res_map (\<lambda>_. ()) (recipe_visitor factory transforms new_budget))"

record recipeDeclarationData =
  rd_factory :: FactoryDeclaration
  rd_transforms :: "TransformDeclaration list"

definition NewRecipeDeclaration ::
    "FactoryDeclaration \<Rightarrow> TransformDeclaration list \<Rightarrow> recipeDeclarationData option result" where
  "NewRecipeDeclaration factory transforms =
     res_bind (validateRecipeDeclaration factory transforms) (\<lambda>_.
     Inr (Some \<lparr>rd_factory = factory, rd_transforms = transforms\<rparr>))"

record recipeDeclarationWire =
  rdw_SchemaVersion :: "bytes option"
  rdw_Factory :: "FactoryDeclaration option"
  rdw_Transforms :: "TransformDeclaration list option"

definition RecipeDeclaration_MarshalJSON :: "recipeDeclarationData option \<Rightarrow> recipeDeclarationWire result" where
  "RecipeDeclaration_MarshalJSON r =
     (case r of None \<Rightarrow> Inl (invalid CodeInvalidShape ''$'')
      | Some data \<Rightarrow>
         res_bind (validateRecipeDeclaration (rd_factory data) (rd_transforms data)) (\<lambda>_.
         Inr \<lparr>rdw_SchemaVersion = Some SchemaVersion, rdw_Factory = Some (rd_factory data),
              rdw_Transforms = Some (rd_transforms data)\<rparr>))"

definition RecipeDeclaration_UnmarshalJSON ::
    "recipeDeclarationWire result \<Rightarrow> recipeDeclarationData option result" where
  "RecipeDeclaration_UnmarshalJSON decoded =
     res_bind decoded (\<lambda>wire.
      case rdw_SchemaVersion wire of None \<Rightarrow> Inl (invalid CodeInvalidShape ''schema_version'')
      | Some v \<Rightarrow>
        if v \<noteq> SchemaVersion then Inl (invalid CodeInvalidVersion ''schema_version'')
        else (case rdw_Factory wire of None \<Rightarrow> Inl (invalid CodeInvalidShape ''factory'')
          | Some factory \<Rightarrow>
             (case rdw_Transforms wire of None \<Rightarrow> Inl (invalid CodeInvalidShape ''transforms'')
              | Some transforms \<Rightarrow> NewRecipeDeclaration factory transforms)))"

end
