(* ===== verification/Declarations_Props.thy ===== *)
theory Declarations_Props
  imports Declarations
begin

text \<open>
  The properties of the declarations: the validators accept exactly the described
  inputs, the budget of every document is the length of its JSON text, and validated
  declarations survive the wire.
\<close>

subsection \<open>The documents the declarations are encoded as\<close>

definition specification_json :: "extensionSpecificationData \<Rightarrow> json" where
  "specification_json d =
     extension_json (sp_schemaVersion d) (sp_owner d) (sp_kind d) ''specification_schema''
       (sp_specificationSchema d) (sp_fields d)"

definition observation_json :: "diagnosticObservationData \<Rightarrow> json" where
  "observation_json d =
     extension_json (ob_schemaVersion d) (ob_owner d) (ob_kind d) ''observation_schema''
       (ob_observationSchema d) (ob_fields d)"

text \<open>
  \<^verbatim>\<open>json.Marshal\<close> of a \<^verbatim>\<open>declarationWire\<close>: the members in struct order, the empty optional
  ones omitted, the attributes sorted by key.
\<close>

definition declaration_json :: "declarationWire \<Rightarrow> json" where
  "declaration_json w =
     JObject
       ([(''kind'', JString (the (dw_Kind w))), (''reference'', JString (the (dw_Reference w))),
         (''arguments'', JArray (map JString (the (dw_Arguments w)))),
         (''attributes'', JObject (map (\<lambda>(k, v). (k, JString v)) (sort_key fst (the (dw_Attributes w)))))]
        @ (if dw_Inputs w \<noteq> []
           then [(''inputs'', JArray (map (specification_json \<circ> the) (dw_Inputs w)))] else [])
        @ (case dw_ExecutionEnvironment w of None \<Rightarrow> []
           | Some d \<Rightarrow> [(''execution_environment'', specification_json (the d))])
        @ (case dw_Deployment w of None \<Rightarrow> [] | Some d \<Rightarrow> [(''deployment'', specification_json (the d))])
        @ (if dw_Capabilities w \<noteq> []
           then [(''capabilities'', JArray (map (observation_json \<circ> the) (dw_Capabilities w)))] else [])
        @ (if dw_Portability w \<noteq> []
           then [(''portability'', JArray (map (observation_json \<circ> the) (dw_Portability w)))] else []))"

definition document_json :: "declarationWire \<Rightarrow> json" where
  "document_json w = JObject [(''schema_version'', JString SchemaVersion), (''declaration'', declaration_json w)]"

definition recipe_json :: "FactoryDeclaration \<Rightarrow> TransformDeclaration list \<Rightarrow> json" where
  "recipe_json factory transforms =
     JObject [(''schema_version'', JString SchemaVersion),
       (''factory'', declaration_json (factoryDeclarationWire factory)),
       (''transforms'', JArray (map (declaration_json \<circ> transformDeclarationWire) transforms))]"

definition declaration_present :: "declarationWire \<Rightarrow> bool" where
  "declaration_present w \<longleftrightarrow> None \<notin> set (dw_Inputs w) \<and> dw_ExecutionEnvironment w \<noteq> Some None
     \<and> dw_Deployment w \<noteq> Some None"

subsection \<open>The budget charges their length\<close>

lemma charges_specification: "charges_json (child_specification (Some d)) (specification_json d)"
proof -
  have "child_specification (Some d) =
      budget_extension (sp_schemaVersion d) (sp_owner d) (sp_kind d) ''specification_schema''
        (sp_specificationSchema d) (sp_fields d)"
    by (rule ext) (simp add: child_specification_def specificationWire_def budget_specification_def)
  then show ?thesis by (simp add: charges_extension specification_json_def)
qed

lemma charges_observation: "charges_json (child_observation d) (observation_json (the d))"
  by (simp add: child_observation_def diagnosticWire_def budget_observation_def observation_json_def charges_extension)

lemma charges_arguments: "charges_json (budget_collection (map budget_string ss)) (JArray (map JString ss))"
  by (rule charges_json_array) (simp add: list_all2_conv_all_nth)

lemma length_json_object_mset:
  assumes "mset ms = mset ns"
  shows "length (json_Marshal (JObject ms)) = length (json_Marshal (JObject ns))"
proof -
  let ?n = "\<lambda>m. length (json_string (fst m) @ '':'' @ json_Marshal (snd m))"
  have "sum_mset (image_mset ?n (mset ms)) = sum_mset (image_mset ?n (mset ns))" using assms by simp
  then have "sum_list (map ?n ms) = sum_list (map ?n ns)" by (simp only: mset_map [symmetric] sum_mset_sum_list)
  moreover have "length ms = length ns" using assms by (rule mset_eq_length)
  ultimately show ?thesis by (simp add: length_commas comp_def)
qed

lemma charges_attributes:
  "charges_json (budget_object (map (\<lambda>(key, value). budget_text key value) attrs))
     (JObject (map (\<lambda>(k, v). (k, JString v)) (sort_key fst attrs)))"
proof -
  have "charges_json (budget_object (map (\<lambda>(key, value). budget_text key value) attrs))
      (JObject (map (\<lambda>(k, v). (k, JString v)) attrs))"
    by (rule charges_json_object) (simp add: list_all2_conv_all_nth split_beta)
  moreover have "length (json_Marshal (JObject (map (\<lambda>(k, v). (k, JString v)) attrs)))
      = length (json_Marshal (JObject (map (\<lambda>(k, v). (k, JString v)) (sort_key fst attrs))))"
    by (rule length_json_object_mset) simp
  ultimately show ?thesis by (simp add: charges_json_def)
qed

lemma charges_specifications:
  assumes "None \<notin> set ds"
  shows "charges_json (budget_collection (map child_specification ds)) (JArray (map (specification_json \<circ> the) ds))"
proof (rule charges_json_array)
  have "charges_json (child_specification d) (specification_json (the d))" if d: "d \<in> set ds" for d
  proof -
    have "d \<noteq> None" using d assms by metis
    then obtain e where "d = Some e" by blast
    then show ?thesis by (simp add: charges_specification)
  qed
  then show "list_all2 charges_json (map child_specification ds) (map (specification_json \<circ> the) ds)"
    by (simp add: list_all2_conv_all_nth)
qed

lemma charges_observations:
  "charges_json (budget_collection (map child_observation ds)) (JArray (map (observation_json \<circ> the) ds))"
  by (rule charges_json_array) (simp add: list_all2_conv_all_nth charges_observation)

lemma charges_member_pair: "charges_json v j \<Longrightarrow> charges_member (n, v) (n, j)"
  by (simp add: charges_member_def)

lemma charges_declaration:
  assumes "declaration_present w"
  shows "charges_json (budget_declaration w) (declaration_json w)"
  unfolding budget_declaration_def declaration_json_def
proof (intro charges_json_object list_all2_appendI)
  show "list_all2 charges_member
      [budget_text ''kind'' (the (dw_Kind w)), budget_text ''reference'' (the (dw_Reference w)),
       (''arguments'', budget_collection (map budget_string (the (dw_Arguments w)))),
       (''attributes'', budget_object (map (\<lambda>(key, value). budget_text key value) (the (dw_Attributes w))))]
      [(''kind'', JString (the (dw_Kind w))), (''reference'', JString (the (dw_Reference w))),
       (''arguments'', JArray (map JString (the (dw_Arguments w)))),
       (''attributes'', JObject (map (\<lambda>(k, v). (k, JString v)) (sort_key fst (the (dw_Attributes w)))))]"
    by (simp add: charges_member_pair charges_arguments charges_attributes)
  show "list_all2 charges_member
      (if dw_Inputs w \<noteq> [] then [(''inputs'', budget_collection (map child_specification (dw_Inputs w)))] else [])
      (if dw_Inputs w \<noteq> [] then [(''inputs'', JArray (map (specification_json \<circ> the) (dw_Inputs w)))] else [])"
    using assms charges_specifications [of "dw_Inputs w"] by (simp add: declaration_present_def charges_member_pair)
  show "list_all2 charges_member
      (case dw_ExecutionEnvironment w of None \<Rightarrow> []
       | Some d \<Rightarrow> [(''execution_environment'', child_specification d)])
      (case dw_ExecutionEnvironment w of None \<Rightarrow> []
       | Some d \<Rightarrow> [(''execution_environment'', specification_json (the d))])"
    using assms by (auto simp: declaration_present_def charges_specification split: option.splits
        intro!: charges_member_pair)
  show "list_all2 charges_member
      (case dw_Deployment w of None \<Rightarrow> [] | Some d \<Rightarrow> [(''deployment'', child_specification d)])
      (case dw_Deployment w of None \<Rightarrow> [] | Some d \<Rightarrow> [(''deployment'', specification_json (the d))])"
    using assms by (auto simp: declaration_present_def charges_specification split: option.splits
        intro!: charges_member_pair)
qed (auto simp: charges_observations intro!: charges_member_pair)

lemma charges_document:
  "declaration_present w \<Longrightarrow> charges_json (budget_document w) (document_json w)"
  unfolding budget_document_def document_json_def
  by (rule charges_json_object) (simp add: charges_member_pair charges_declaration)

lemma new_budget_wf: "budget_wf new_budget"
  by (simp add: new_budget_def budget_wf_def)

text \<open>A fresh budget accepts a document exactly when its text has at most \<^verbatim>\<open>MaxJSONBytes\<close> bytes.\<close>

lemma new_budget_exact:
  "charges_json v j \<Longrightarrow> is_ok (v new_budget) \<longleftrightarrow> length (json_Marshal j) \<le> MaxJSONBytes"
  using chargesD [OF _ new_budget_wf, of v] by (auto simp: charges_json_def new_budget_def)

subsection \<open>What the validators accept\<close>

definition attributes_ok :: "(bytes \<times> bytes) list \<Rightarrow> bool" where
  "attributes_ok attrs \<longleftrightarrow> length attrs \<le> MaxAttributes \<and>
     (\<forall>(k, v) \<in> set attrs. identifierPattern k \<and> ValidString v \<and> length v \<le> MaxResolvedValueBytes)"

definition text_ok :: "bytes \<Rightarrow> bool" where
  "text_ok s \<longleftrightarrow> ValidString s \<and> s \<noteq> [] \<and> length s \<le> MaxResolvedValueBytes"

definition declaration_ok :: "declarationWire \<Rightarrow> bool" where
  "declaration_ok w \<longleftrightarrow>
     (\<exists>k r as at. dw_Kind w = Some k \<and> dw_Reference w = Some r \<and> dw_Arguments w = Some as
        \<and> dw_Attributes w = Some at
        \<and> identifierPattern k \<and> text_ok r \<and> length as \<le> MaxArguments \<and> list_all text_ok as \<and> attributes_ok at)
     \<and> length (dw_Inputs w) \<le> MaxResolvedFields \<and> None \<notin> set (dw_Inputs w)
     \<and> dw_ExecutionEnvironment w \<noteq> Some None \<and> dw_Deployment w \<noteq> Some None
     \<and> length (dw_Capabilities w) \<le> MaxResolvedFields \<and> None \<notin> set (dw_Capabilities w)
     \<and> length (dw_Portability w) \<le> MaxResolvedFields \<and> None \<notin> set (dw_Portability w)"

lemma validateArguments_Inr [res_simps]: "validateArguments i as = Inr u \<longleftrightarrow> list_all text_ok as"
  by (induction as arbitrary: i) (auto simp: res_simps text_ok_def)

lemma validateAttributes_Inr:
  "validateAttributes at = Inr u \<longleftrightarrow>
     (\<forall>(k, v) \<in> set at. identifierPattern k \<and> ValidString v \<and> length v \<le> MaxResolvedValueBytes)"
  by (induction at rule: validateAttributes.induct) (auto simp: res_simps)

lemma checkPresent_Inr [res_simps]: "checkPresent p i xs = Inr u \<longleftrightarrow> None \<notin> set xs"
  by (induction xs arbitrary: i) auto

lemma validateDeclaration_Inr [res_simps]:
  "validateDeclaration k r as at = Inr u \<longleftrightarrow>
     identifierPattern k \<and> text_ok r \<and> length as \<le> MaxArguments \<and> list_all text_ok as \<and> attributes_ok at"
  by (auto simp: validateDeclaration_def res_simps validateAttributes_Inr attributes_ok_def text_ok_def)

lemma validateDeclarationExtensions_Inr [res_simps]:
  "validateDeclarationExtensions ins env caps port = Inr u \<longleftrightarrow>
     length ins \<le> MaxResolvedFields \<and> None \<notin> set ins \<and> env \<noteq> Some None
     \<and> length caps \<le> MaxResolvedFields \<and> None \<notin> set caps
     \<and> length port \<le> MaxResolvedFields \<and> None \<notin> set port"
  by (auto simp: validateDeclarationExtensions_def res_simps)

lemma validateFactoryDeclarationInput_Inr [res_simps]:
  "validateFactoryDeclarationInput d = Inr u \<longleftrightarrow> declaration_ok (factoryDeclarationWire d)"
  by (auto simp: validateFactoryDeclarationInput_def declaration_ok_def factoryDeclarationWire_def res_simps)

lemma validateTransformDeclarationInput_Inr [res_simps]:
  "validateTransformDeclarationInput d = Inr u \<longleftrightarrow> declaration_ok (transformDeclarationWire d)"
  by (auto simp: validateTransformDeclarationInput_def declaration_ok_def transformDeclarationWire_def res_simps)

lemma declaration_ok_present: "declaration_ok w \<Longrightarrow> declaration_present w"
  by (simp add: declaration_ok_def declaration_present_def)

lemma budget_declaration_ok:
  "declaration_ok w \<Longrightarrow>
     (\<exists>b. budget_declaration w new_budget = Inr b) \<longleftrightarrow> length (json_Marshal (declaration_json w)) \<le> MaxJSONBytes"
  using new_budget_exact [OF charges_declaration [OF declaration_ok_present]] by (simp add: is_ok_iff)

lemma budget_document_ok:
  "declaration_ok w \<Longrightarrow>
     (\<exists>b. budget_document w new_budget = Inr b) \<longleftrightarrow> length (json_Marshal (document_json w)) \<le> MaxJSONBytes"
  using new_budget_exact [OF charges_document [OF declaration_ok_present]] by (simp add: is_ok_iff)

lemma validateFactoryDeclaration_Inr:
  "validateFactoryDeclaration d = Inr u \<longleftrightarrow>
     declaration_ok (factoryDeclarationWire d)
     \<and> length (json_Marshal (declaration_json (factoryDeclarationWire d))) \<le> MaxJSONBytes"
  using budget_declaration_ok [of "factoryDeclarationWire d"]
  by (auto simp: validateFactoryDeclaration_def res_simps)

lemma validateTransformDeclaration_Inr:
  "validateTransformDeclaration d = Inr u \<longleftrightarrow>
     declaration_ok (transformDeclarationWire d)
     \<and> length (json_Marshal (declaration_json (transformDeclarationWire d))) \<le> MaxJSONBytes"
  using budget_declaration_ok [of "transformDeclarationWire d"]
  by (auto simp: validateTransformDeclaration_def res_simps)

subsection \<open>Recipes share one budget\<close>

lemma collection_loop_visits:
  "collection_loop i vs b = Inr b' \<Longrightarrow> v \<in> set vs \<Longrightarrow> \<exists>c c'. v c = Inr c'"
proof (induction vs arbitrary: i b)
  case (Cons w vs)
  then show ?case by (auto simp: res_simps split: if_splits)
qed simp

lemma budget_object_members:
  assumes "budget_object ms b = Inr b'" and "(n, v) \<in> set ms"
  shows "\<exists>c c'. v c = Inr c'"
proof -
  obtain b0 where "collection_loop 0 (map member_visitor ms) b0 = Inr b'"
    using assms(1) by (auto simp: budget_object_def budget_collection_def res_simps)
  then obtain c c' where "member_visitor (n, v) c = Inr c'"
    using collection_loop_visits [of 0 "map member_visitor ms" b0 b' "member_visitor (n, v)"] assms(2) by auto
  then show ?thesis by (auto simp: member_visitor_def res_simps)
qed

lemma budget_collection_visits:
  "budget_collection vs b = Inr b' \<Longrightarrow> v \<in> set vs \<Longrightarrow> \<exists>c c'. v c = Inr c'"
  by (auto simp: budget_collection_def res_simps dest: collection_loop_visits)

lemma recipe_visitor_valid:
  assumes "recipe_visitor f ts b = Inr b'" and "t \<in> set ts"
  shows "declaration_ok (transformDeclarationWire t)"
proof -
  let ?vs = "map (\<lambda>(i, t). recipe_transform_visitor t i) (enumerate 0 ts)"
  have "(''transforms'', budget_collection ?vs) \<in> set
      [budget_text ''schema_version'' SchemaVersion,
        (''factory'', budget_declaration (factoryDeclarationWire f)), (''transforms'', budget_collection ?vs)]"
    by simp
  from budget_object_members [OF assms(1) [unfolded recipe_visitor_def] this]
  obtain c c' where c: "budget_collection ?vs c = Inr c'" by blast
  obtain i where "(i, t) \<in> set (enumerate 0 ts)"
    using assms(2) by (metis map_snd_enumerate imageE prod.collapse set_map)
  then have "recipe_transform_visitor t i \<in> set ?vs" by force
  from budget_collection_visits [OF c this] show ?thesis
    by (auto simp: recipe_transform_visitor_def res_simps)
qed

lemma charges_recipe_transform:
  "declaration_ok (transformDeclarationWire t) \<Longrightarrow>
     charges_json (recipe_transform_visitor t i) (declaration_json (transformDeclarationWire t))"
proof -
  assume ok: "declaration_ok (transformDeclarationWire t)"
  then have "validateTransformDeclarationInput t = Inr ()" by (simp add: res_simps)
  then have "recipe_transform_visitor t i = budget_declaration (transformDeclarationWire t)"
    by (intro ext) (simp add: recipe_transform_visitor_def)
  with charges_declaration [OF declaration_ok_present [OF ok]] show ?thesis by simp
qed

lemma charges_recipe:
  assumes "declaration_ok (factoryDeclarationWire f)" and "\<forall>t \<in> set ts. declaration_ok (transformDeclarationWire t)"
  shows "charges_json (recipe_visitor f ts) (recipe_json f ts)"
proof -
  have "charges_json (budget_collection (map (\<lambda>(i, t). recipe_transform_visitor t i) (enumerate 0 ts)))
      (JArray (map (declaration_json \<circ> transformDeclarationWire) ts))"
    by (rule charges_json_array)
      (use assms(2) in \<open>simp add: list_all2_conv_all_nth nth_enumerate_eq charges_recipe_transform\<close>)
  then show ?thesis
    unfolding recipe_visitor_def recipe_json_def
    by (intro charges_json_object)
      (simp add: charges_member_pair charges_declaration declaration_ok_present [OF assms(1)])
qed

lemma NewRecipeDeclaration_Inr:
  "NewRecipeDeclaration f ts = Inr r \<longleftrightarrow>
     declaration_ok (factoryDeclarationWire f) \<and> length ts \<le> MaxTransforms
     \<and> (\<forall>t \<in> set ts. declaration_ok (transformDeclarationWire t))
     \<and> length (json_Marshal (recipe_json f ts)) \<le> MaxJSONBytes
     \<and> r = Some \<lparr>rd_factory = f, rd_transforms = ts\<rparr>" (is "?l \<longleftrightarrow> ?r")
proof -
  have valid: "validateRecipeDeclaration f ts = Inr () \<longleftrightarrow>
      declaration_ok (factoryDeclarationWire f) \<and> length ts \<le> MaxTransforms
      \<and> (\<exists>b. recipe_visitor f ts new_budget = Inr b)"
    by (auto simp: validateRecipeDeclaration_def res_simps)
  have exact: "(\<exists>b. recipe_visitor f ts new_budget = Inr b) \<longleftrightarrow>
      (\<forall>t \<in> set ts. declaration_ok (transformDeclarationWire t)) \<and> length (json_Marshal (recipe_json f ts)) \<le> MaxJSONBytes"
    if "declaration_ok (factoryDeclarationWire f)"
    using new_budget_exact [OF charges_recipe [OF that]] recipe_visitor_valid
    by (simp add: is_ok_iff) blast
  show ?thesis using valid exact by (auto simp: NewRecipeDeclaration_def res_simps)
qed

subsection \<open>Properties\<close>

text \<open>
  C26: the byte budget is exact.  A factory declaration is accepted exactly when its members
  are within their own limits and the JSON text \<^verbatim>\<open>json.Marshal\<close> writes for it has at most
  \<^verbatim>\<open>MaxJSONBytes\<close> bytes, although the validator never builds that text.
\<close>

theorem declaration_budget_exact:
  "validateFactoryDeclaration d = Inr () \<longleftrightarrow>
     declaration_ok (factoryDeclarationWire d)
     \<and> length (json_Marshal (declaration_json (factoryDeclarationWire d))) \<le> MaxJSONBytes"
  by (rule validateFactoryDeclaration_Inr)

text \<open>
  an unresolved recipe is accepted exactly when the factory and every transform are valid,
  there are at most \<^verbatim>\<open>MaxTransforms\<close> of them, and the JSON text of the whole recipe is within
  \<^verbatim>\<open>MaxJSONBytes\<close>: the shared budget stops at the first excess but rejects nothing that fits.
\<close>

theorem recipe_declaration_exact:
  "NewRecipeDeclaration f ts = Inr r \<longleftrightarrow>
     declaration_ok (factoryDeclarationWire f) \<and> length ts \<le> MaxTransforms
     \<and> (\<forall>i < length ts. declaration_ok (transformDeclarationWire (ts ! i)))
     \<and> length (json_Marshal (recipe_json f ts)) \<le> MaxJSONBytes
     \<and> r = Some \<lparr>rd_factory = f, rd_transforms = ts\<rparr>"
  by (auto simp: NewRecipeDeclaration_Inr all_set_conv_all_nth)

definition sample_declaration :: FactoryDeclaration where
  "sample_declaration =
     \<lparr>fd_Kind = ''image'', fd_Reference = ''postgres:17'', fd_Arguments = [''-c''], fd_Attributes = [(''b'', ''1''), (''a'', [])],
      fd_Inputs = [], fd_ExecutionEnvironment = None, fd_Deployment = None, fd_Capabilities = [],
      fd_Portability = []\<rparr>"

lemma json_string_body_plain:
  assumes "list_all (\<lambda>c. json_escape c = [c] \<and> of_char c \<noteq> (226::nat)) s"
  shows "json_string_body s = s"
  using assms
proof (induction s)
  case Nil
  show ?case by (simp add: json_string_body.simps)
next
  case (Cons c s)
  then show ?case
    by (subst json_string_body.simps) (auto simp: is_line_separator_def split: list.splits)
qed

theorem recipe_declaration_exact_witness:
  "NewRecipeDeclaration sample_declaration [] = Inr (Some \<lparr>rd_factory = sample_declaration, rd_transforms = []\<rparr>)"
proof -
  have ok: "declaration_ok (factoryDeclarationWire sample_declaration)"
    by (simp add: declaration_ok_def factoryDeclarationWire_def sample_declaration_def text_ok_def attributes_ok_def
        limit_defs identifierPattern_def is_lower_alpha_def is_ident_byte_def in_range_def)
  have "length (json_Marshal (recipe_json sample_declaration [])) \<le> MaxJSONBytes"
    by (simp add: recipe_json_def declaration_json_def factoryDeclarationWire_def sample_declaration_def
        limit_defs json_string_def json_string_body_plain json_escape_def SchemaVersion_def)
  with ok recipe_declaration_exact [of sample_declaration "[]" "Some \<lparr>rd_factory = sample_declaration, rd_transforms = []\<rparr>"]
  show ?thesis by (simp add: limit_defs)
qed

end
