(* ===== verification/Lineage.thy ===== *)
theory Lineage
  imports Declarations_Props
begin

text \<open>
  \<^verbatim>\<open>provenance.go\<close>, \<^verbatim>\<open>state.go\<close> and \<^verbatim>\<open>lineage.go\<close> of \<^verbatim>\<open>backend/libs/runtime-go\<close>: provenance
  (an identity with its diagnostics), logical states and their content-derived ids,
  and the lineages a recipe is built into.

  \<open>'w raw\<close> is a \<^verbatim>\<open>json.RawMessage\<close> member of a wire struct: absent, the literal null, or a
  nested document with the outcome of \<^verbatim>\<open>decodeStrict\<close> on it.  Decoding the literal null into
  a wire struct leaves it zero.  The elements of an array of raw messages are
  nested documents too; a null element is one whose outcome is the zero struct.
\<close>

datatype 'w raw = RawAbsent | RawNull | RawDoc "'w result"

text \<open>
  Success of a decoder passes every guard before it; these rules turn a successful
  result into the members that were present, without splitting on the failures.
\<close>

named_theorems decode_simps \<open>what a successful decoder found\<close>

lemma option_member_Inr [decode_simps]:
  "(case m of None \<Rightarrow> Inl e | Some x \<Rightarrow> g x) = Inr y \<longleftrightarrow> (\<exists>x. m = Some x \<and> g x = Inr y)"
  by (cases m) simp_all

lemma raw_doc_Inr [decode_simps]:
  "(case r of RawAbsent \<Rightarrow> Inl e | RawNull \<Rightarrow> Inl e' | RawDoc d \<Rightarrow> g d) = Inr y \<longleftrightarrow>
     (\<exists>d. r = RawDoc d \<and> g d = Inr y)"
  by (cases r) simp_all

lemma raw_absent_Inr [decode_simps]:
  "(case r of RawAbsent \<Rightarrow> m | RawNull \<Rightarrow> Inl e | RawDoc d \<Rightarrow> Inl e') = Inr y \<longleftrightarrow> r = RawAbsent \<and> m = Inr y"
  by (cases r) simp_all

lemma guard_Inr [decode_simps]: "(if b then Inl e else m) = Inr y \<longleftrightarrow> \<not> b \<and> m = Inr y"
  by simp

subsection \<open>Provenance (provenance.go)\<close>

record factoryProvenanceData =
  fp_identity :: ResolvedFactoryIdentity
  fp_declaration :: "FactoryDeclaration option"
  fp_resolver :: "ResolverObservation option"

record transformProvenanceData =
  tp_identity :: ResolvedTransformIdentity
  tp_declaration :: "TransformDeclaration option"
  tp_resolver :: "ResolverObservation option"

type_synonym FactoryProvenance = "factoryProvenanceData option"
type_synonym TransformProvenance = "transformProvenanceData option"

definition NewFactoryProvenance :: "factoryProvenanceData \<Rightarrow> FactoryProvenance result" where
  "NewFactoryProvenance input =
     (if \<not> identity_valid (fp_identity input) then Inl (invalid CodeInvalidShape ''identity'')
      else
       res_bind (case fp_declaration input of None \<Rightarrow> Inr ()
                 | Some d \<Rightarrow> res_prefix ''declaration'' (validateFactoryDeclaration d)) (\<lambda>_.
       res_bind (res_prefix ''resolver'' (validateResolver (fp_resolver input))) (\<lambda>_.
       Inr (Some input))))"

definition NewTransformProvenance :: "transformProvenanceData \<Rightarrow> TransformProvenance result" where
  "NewTransformProvenance input =
     (if \<not> identity_valid (tp_identity input) then Inl (invalid CodeInvalidShape ''identity'')
      else
       res_bind (case tp_declaration input of None \<Rightarrow> Inr ()
                 | Some d \<Rightarrow> res_prefix ''declaration'' (validateTransformDeclaration d)) (\<lambda>_.
       res_bind (res_prefix ''resolver'' (validateResolver (tp_resolver input))) (\<lambda>_.
       Inr (Some input))))"

record resolverWire =
  rw_Implementation :: "bytes option"
  rw_Version :: "bytes option"

record provenanceWire =
  pw_Identity :: "identityWire raw"
  pw_Declaration :: "declarationWire raw"
  pw_Resolver :: "resolverWire raw"

definition decodeResolver :: "resolverWire raw \<Rightarrow> ResolverObservation option result" where
  "decodeResolver r =
     (case r of RawAbsent \<Rightarrow> Inr None
      | RawNull \<Rightarrow> Inl (invalid CodeInvalidShape ''$'')
      | RawDoc decoded \<Rightarrow>
         res_bind decoded (\<lambda>wire.
          case rw_Implementation wire of None \<Rightarrow> Inl (invalid CodeInvalidShape ''implementation'')
          | Some implementation \<Rightarrow>
             (case rw_Version wire of None \<Rightarrow> Inl (invalid CodeInvalidShape ''version'')
              | Some version \<Rightarrow>
                 let value = Some \<lparr>ro_Implementation = implementation, ro_Version = version\<rparr> in
                 res_bind (validateResolver value) (\<lambda>_. Inr value))))"

text \<open>
  The encoders ignore the error of the nested \<^verbatim>\<open>json.Marshal\<close>; a failed one leaves the
  member empty, and \<^verbatim>\<open>omitempty\<close> drops it.
\<close>

definition raw_of :: "'w result \<Rightarrow> 'w raw" where
  "raw_of m = (case m of Inl _ \<Rightarrow> RawAbsent | Inr w \<Rightarrow> RawDoc (Inr w))"

definition resolver_raw :: "ResolverObservation option \<Rightarrow> resolverWire raw" where
  "resolver_raw r = (case r of None \<Rightarrow> RawAbsent
     | Some v \<Rightarrow> RawDoc (Inr \<lparr>rw_Implementation = Some (ro_Implementation v), rw_Version = Some (ro_Version v)\<rparr>))"

definition FactoryProvenance_MarshalJSON :: "FactoryProvenance \<Rightarrow> provenanceWire result" where
  "FactoryProvenance_MarshalJSON p =
     (case p of None \<Rightarrow> Inl (invalid CodeInvalidShape ''$'')
      | Some d \<Rightarrow> Inr
          \<lparr>pw_Identity = raw_of (identity_MarshalJSON (fp_identity d)),
           pw_Declaration = (case fp_declaration d of None \<Rightarrow> RawAbsent
              | Some decl \<Rightarrow> raw_of (FactoryDeclaration_MarshalJSON decl)),
           pw_Resolver = resolver_raw (fp_resolver d)\<rparr>)"

definition FactoryProvenance_UnmarshalJSON :: "provenanceWire result \<Rightarrow> FactoryProvenance result" where
  "FactoryProvenance_UnmarshalJSON decoded =
     res_bind decoded (\<lambda>wire.
      case pw_Identity wire of
        RawDoc idw \<Rightarrow>
          res_bind (res_prefix ''identity'' (identity_UnmarshalJSON idw)) (\<lambda>identity.
          res_bind (case pw_Declaration wire of RawAbsent \<Rightarrow> Inr None
                    | RawNull \<Rightarrow> Inl (invalid CodeInvalidShape ''declaration'')
                    | RawDoc dw \<Rightarrow> res_map Some (res_prefix ''declaration'' (FactoryDeclaration_UnmarshalJSON dw)))
            (\<lambda>declaration.
          res_bind (res_prefix ''resolver'' (decodeResolver (pw_Resolver wire))) (\<lambda>resolver.
          NewFactoryProvenance \<lparr>fp_identity = identity, fp_declaration = declaration, fp_resolver = resolver\<rparr>)))
      | _ \<Rightarrow> Inl (invalid CodeInvalidShape ''identity''))"

definition TransformProvenance_MarshalJSON :: "TransformProvenance \<Rightarrow> provenanceWire result" where
  "TransformProvenance_MarshalJSON p =
     (case p of None \<Rightarrow> Inl (invalid CodeInvalidShape ''$'')
      | Some d \<Rightarrow> Inr
          \<lparr>pw_Identity = raw_of (identity_MarshalJSON (tp_identity d)),
           pw_Declaration = (case tp_declaration d of None \<Rightarrow> RawAbsent
              | Some decl \<Rightarrow> raw_of (TransformDeclaration_MarshalJSON decl)),
           pw_Resolver = resolver_raw (tp_resolver d)\<rparr>)"

definition TransformProvenance_UnmarshalJSON :: "provenanceWire result \<Rightarrow> TransformProvenance result" where
  "TransformProvenance_UnmarshalJSON decoded =
     res_bind decoded (\<lambda>wire.
      case pw_Identity wire of
        RawDoc idw \<Rightarrow>
          res_bind (res_prefix ''identity'' (identity_UnmarshalJSON idw)) (\<lambda>identity.
          res_bind (case pw_Declaration wire of RawAbsent \<Rightarrow> Inr None
                    | RawNull \<Rightarrow> Inl (invalid CodeInvalidShape ''declaration'')
                    | RawDoc dw \<Rightarrow> res_map Some (res_prefix ''declaration'' (TransformDeclaration_UnmarshalJSON dw)))
            (\<lambda>declaration.
          res_bind (res_prefix ''resolver'' (decodeResolver (pw_Resolver wire))) (\<lambda>resolver.
          NewTransformProvenance \<lparr>tp_identity = identity, tp_declaration = declaration, tp_resolver = resolver\<rparr>)))
      | _ \<Rightarrow> Inl (invalid CodeInvalidShape ''identity''))"

subsection \<open>States (state.go)\<close>

type_synonym StateID = bytes
type_synonym Fingerprint = bytes

record stateData =
  st_kind :: bytes
  st_id :: StateID
  st_parentID :: StateID
  st_factoryFingerprint :: Fingerprint
  st_transformFingerprint :: Fingerprint

type_synonym State = "stateData option"

definition State_ID :: "State \<Rightarrow> StateID" where
  "State_ID s = (case s of None \<Rightarrow> [] | Some d \<Rightarrow> st_id d)"

definition State_ParentID :: "State \<Rightarrow> StateID" where
  "State_ParentID s = (case s of None \<Rightarrow> [] | Some d \<Rightarrow> st_parentID d)"

definition State_FactoryFingerprint :: "State \<Rightarrow> Fingerprint" where
  "State_FactoryFingerprint s = (case s of None \<Rightarrow> [] | Some d \<Rightarrow> st_factoryFingerprint d)"

definition State_TransformFingerprint :: "State \<Rightarrow> Fingerprint" where
  "State_TransformFingerprint s = (case s of None \<Rightarrow> [] | Some d \<Rightarrow> st_transformFingerprint d)"

definition FactoryState :: "FactoryProvenance \<Rightarrow> State result" where
  "FactoryState factory =
     (case factory of None \<Rightarrow> Inl (invalid CodeInvalidShape ''factory'')
      | Some d \<Rightarrow>
         let sid = hashBytes (canonicalFactory (the (fp_identity d))) in
         Inr (Some \<lparr>st_kind = ''factory'', st_id = sid, st_parentID = [], st_factoryFingerprint = sid,
                    st_transformFingerprint = []\<rparr>))"

definition TransformFingerprint :: "ResolvedTransformIdentity \<Rightarrow> Fingerprint result" where
  "TransformFingerprint transform =
     (case transform of None \<Rightarrow> Inl (invalid CodeInvalidShape ''transform'')
      | Some d \<Rightarrow> Inr (hashBytes (canonicalTransform d)))"

text \<open>The record a derived state's sid is the hash of.\<close>

definition state_fields :: "bytes \<Rightarrow> bytes \<Rightarrow> canonicalField list" where
  "state_fields parent transform = [\<lparr>cf_tag = 1, cf_payload = parent\<rparr>, \<lparr>cf_tag = 2, cf_payload = transform\<rparr>]"

record lineageStepData =
  ls_transform :: TransformProvenance
  ls_fingerprint :: Fingerprint
  ls_state :: State

type_synonym LineageStep = "lineageStepData option"

definition Derive :: "StateID \<Rightarrow> TransformProvenance \<Rightarrow> LineageStep result" where
  "Derive parent transform =
     res_bind (parseDigest parent ''parent_id'') (\<lambda>parentDigest.
      case transform of None \<Rightarrow> Inl (invalid CodeInvalidShape ''transform'')
      | Some data \<Rightarrow>
         res_bind (TransformFingerprint (tp_identity data)) (\<lambda>fingerprint.
         res_bind (parseDigest fingerprint ''transform_fingerprint'') (\<lambda>transformDigest.
         let sid = hashRecord stateDomain (state_fields parentDigest transformDigest);
             state = Some \<lparr>st_kind = ''derived'', st_id = sid, st_parentID = parent, st_factoryFingerprint = [],
                            st_transformFingerprint = fingerprint\<rparr> in
         Inr (Some \<lparr>ls_transform = transform, ls_fingerprint = fingerprint, ls_state = state\<rparr>))))"

record stateWire =
  stw_SchemaVersion :: "bytes option"
  stw_StateKind :: "bytes option"
  stw_ID :: "bytes option"
  stw_FactoryFingerprint :: "bytes raw"
  stw_ParentID :: "bytes raw"
  stw_TransformFingerprint :: "bytes raw"

definition zero_stateWire :: stateWire where
  "zero_stateWire = \<lparr>stw_SchemaVersion = None, stw_StateKind = None, stw_ID = None,
     stw_FactoryFingerprint = RawAbsent, stw_ParentID = RawAbsent, stw_TransformFingerprint = RawAbsent\<rparr>"

definition State_MarshalJSON :: "State \<Rightarrow> stateWire result" where
  "State_MarshalJSON s =
     (case s of None \<Rightarrow> Inl (invalid CodeInvalidShape ''$'')
      | Some d \<Rightarrow>
         let wire = \<lparr>stw_SchemaVersion = Some SchemaVersion, stw_StateKind = Some (st_kind d),
                     stw_ID = Some (st_id d), stw_FactoryFingerprint = RawAbsent,
                     stw_ParentID = RawAbsent, stw_TransformFingerprint = RawAbsent\<rparr> in
         Inr (if st_kind d = ''factory''
              then wire\<lparr>stw_FactoryFingerprint := RawDoc (Inr (st_factoryFingerprint d))\<rparr>
              else wire\<lparr>stw_ParentID := RawDoc (Inr (st_parentID d)),
                        stw_TransformFingerprint := RawDoc (Inr (st_transformFingerprint d))\<rparr>))"

text \<open>A raw member decoded into a string: any failure is reported as an invalid shape.\<close>

definition raw_string :: "bytes result \<Rightarrow> bytes \<Rightarrow> bytes result" where
  "raw_string m path = (case m of Inl _ \<Rightarrow> Inl (invalid CodeInvalidShape path) | Inr s \<Rightarrow> Inr s)"

definition factory_wire_state :: "bytes \<Rightarrow> stateWire \<Rightarrow> State result" where
  "factory_wire_state sid wire =
     (case (stw_FactoryFingerprint wire, stw_ParentID wire, stw_TransformFingerprint wire) of
        (RawDoc f, RawAbsent, RawAbsent) \<Rightarrow>
          res_bind (raw_string f ''factory_fingerprint'') (\<lambda>fingerprint.
          res_bind (parseDigest fingerprint ''factory_fingerprint'') (\<lambda>_.
          if sid \<noteq> fingerprint then Inl (invalid CodeIntegrityMismatch ''id'')
          else Inr (Some \<lparr>st_kind = ''factory'', st_id = sid, st_parentID = [], st_factoryFingerprint = fingerprint,
                          st_transformFingerprint = []\<rparr>)))
      | _ \<Rightarrow> Inl (invalid CodeInvalidShape ''state_kind''))"

definition derived_wire_state :: "bytes \<Rightarrow> stateWire \<Rightarrow> State result" where
  "derived_wire_state sid wire =
     (case (stw_FactoryFingerprint wire, stw_ParentID wire, stw_TransformFingerprint wire) of
        (RawAbsent, RawDoc p, RawDoc t) \<Rightarrow>
          res_bind (raw_string p ''parent_id'') (\<lambda>parentID.
          res_bind (raw_string t ''transform_fingerprint'') (\<lambda>fingerprint.
          res_bind (parseDigest parentID ''parent_id'') (\<lambda>parent.
          res_bind (parseDigest fingerprint ''transform_fingerprint'') (\<lambda>transform.
          if hashRecord stateDomain (state_fields parent transform) \<noteq> sid
          then Inl (invalid CodeIntegrityMismatch ''id'')
          else Inr (Some \<lparr>st_kind = ''derived'', st_id = sid, st_parentID = parentID, st_factoryFingerprint = [],
                          st_transformFingerprint = fingerprint\<rparr>)))))
      | _ \<Rightarrow> Inl (invalid CodeInvalidShape ''state_kind''))"

definition State_UnmarshalJSON :: "stateWire result \<Rightarrow> State result" where
  "State_UnmarshalJSON decoded =
     res_bind decoded (\<lambda>wire.
      case stw_SchemaVersion wire of None \<Rightarrow> Inl (invalid CodeInvalidShape ''schema_version'')
      | Some version \<Rightarrow>
        if version \<noteq> SchemaVersion then Inl (invalid CodeInvalidVersion ''schema_version'')
        else (case stw_StateKind wire of None \<Rightarrow> Inl (invalid CodeInvalidShape ''state_kind'')
          | Some kind \<Rightarrow>
            (case stw_ID wire of None \<Rightarrow> Inl (invalid CodeInvalidShape ''id'')
             | Some sid \<Rightarrow>
                res_bind (parseDigest sid ''id'') (\<lambda>_.
                if kind = ''factory'' then factory_wire_state sid wire
                else if kind = ''derived'' then derived_wire_state sid wire
                else Inl (invalid CodeInvalidValue ''state_kind'')))))"

subsection \<open>Recipes and lineages (lineage.go)\<close>

definition LineageStep_Transform :: "LineageStep \<Rightarrow> TransformProvenance" where
  "LineageStep_Transform s = (case s of None \<Rightarrow> None | Some d \<Rightarrow> ls_transform d)"

definition LineageStep_Fingerprint :: "LineageStep \<Rightarrow> Fingerprint" where
  "LineageStep_Fingerprint s = (case s of None \<Rightarrow> [] | Some d \<Rightarrow> ls_fingerprint d)"

definition LineageStep_State :: "LineageStep \<Rightarrow> State" where
  "LineageStep_State s = (case s of None \<Rightarrow> None | Some d \<Rightarrow> ls_state d)"

record recipeData =
  rc_factory :: FactoryProvenance
  rc_transforms :: "TransformProvenance list"

type_synonym Recipe = "recipeData option"

definition NewRecipe :: "FactoryProvenance \<Rightarrow> TransformProvenance list \<Rightarrow> Recipe result" where
  "NewRecipe factory transforms =
     (if factory = None then Inl (invalid CodeInvalidShape ''factory'')
      else if MaxTransforms < length transforms then Inl (invalid CodeTooLarge ''transforms'')
      else res_bind (checkPresent ''transforms'' 0 transforms) (\<lambda>_.
           Inr (Some \<lparr>rc_factory = factory, rc_transforms = transforms\<rparr>)))"

record recipeLineageData =
  rl_factory :: FactoryProvenance
  rl_root :: State
  rl_steps :: "LineageStep list"

record relativeLineageData =
  re_anchor :: StateID
  re_steps :: "LineageStep list"

type_synonym RecipeLineage = "recipeLineageData option"
type_synonym RelativeLineage = "relativeLineageData option"

text \<open>The loop \<^verbatim>\<open>Build\<close> and \<^verbatim>\<open>Extend\<close> share: each step's state is the parent of the next.\<close>

fun derive_steps :: "nat \<Rightarrow> StateID \<Rightarrow> TransformProvenance list \<Rightarrow> LineageStep list result" where
  "derive_steps index parent [] = Inr []"
| "derive_steps index parent (transform # rest) =
     res_bind (res_prefix (indexed ''transforms'' index) (Derive parent transform)) (\<lambda>step.
     res_bind (derive_steps (Suc index) (State_ID (LineageStep_State step)) rest) (\<lambda>steps.
     Inr (step # steps)))"

definition Build :: "Recipe \<Rightarrow> RecipeLineage result" where
  "Build recipe =
     (case recipe of None \<Rightarrow> Inl (invalid CodeInvalidShape ''recipe'')
      | Some data \<Rightarrow>
         res_bind (FactoryState (rc_factory data)) (\<lambda>root.
         res_bind (derive_steps 0 (State_ID root) (rc_transforms data)) (\<lambda>steps.
         Inr (Some \<lparr>rl_factory = rc_factory data, rl_root = root, rl_steps = steps\<rparr>))))"

definition Extend :: "StateID \<Rightarrow> TransformProvenance list \<Rightarrow> RelativeLineage result" where
  "Extend anchor transforms =
     res_bind (parseDigest anchor ''anchor'') (\<lambda>_.
     if MaxTransforms < length transforms then Inl (invalid CodeTooLarge ''transforms'')
     else res_bind (derive_steps 0 anchor transforms) (\<lambda>steps.
          Inr (Some \<lparr>re_anchor = anchor, re_steps = steps\<rparr>)))"

definition RecipeLineage_Endpoint :: "RecipeLineage \<Rightarrow> State" where
  "RecipeLineage_Endpoint l =
     (case l of None \<Rightarrow> None
      | Some d \<Rightarrow> if rl_steps d = [] then rl_root d else LineageStep_State (last (rl_steps d)))"

definition RelativeLineage_EndpointID :: "RelativeLineage \<Rightarrow> StateID" where
  "RelativeLineage_EndpointID l =
     (case l of None \<Rightarrow> []
      | Some d \<Rightarrow> if re_steps d = [] then re_anchor d else State_ID (LineageStep_State (last (re_steps d))))"

subsubsection \<open>Wire forms\<close>

record stepWire =
  spw_Transform :: "provenanceWire raw"
  spw_TransformFingerprint :: "bytes option"
  spw_State :: "stateWire raw"

definition LineageStep_MarshalJSON :: "LineageStep \<Rightarrow> stepWire result" where
  "LineageStep_MarshalJSON s =
     (case s of None \<Rightarrow> Inl (invalid CodeInvalidShape ''$'')
      | Some d \<Rightarrow> Inr \<lparr>spw_Transform = raw_of (TransformProvenance_MarshalJSON (ls_transform d)),
                      spw_TransformFingerprint = Some (ls_fingerprint d),
                      spw_State = raw_of (State_MarshalJSON (ls_state d))\<rparr>)"

definition LineageStep_UnmarshalJSON :: "stepWire result \<Rightarrow> LineageStep result" where
  "LineageStep_UnmarshalJSON decoded =
     res_bind decoded (\<lambda>wire.
      case spw_Transform wire of
        RawDoc tw \<Rightarrow>
          (case spw_TransformFingerprint wire of None \<Rightarrow> Inl (invalid CodeInvalidShape ''transform_fingerprint'')
           | Some wireFingerprint \<Rightarrow>
             (case spw_State wire of
                RawDoc sw \<Rightarrow>
                  res_bind (res_prefix ''transform'' (TransformProvenance_UnmarshalJSON tw)) (\<lambda>transform.
                  res_bind (res_prefix ''state'' (State_UnmarshalJSON sw)) (\<lambda>state.
                  if (case state of None \<Rightarrow> True | Some d \<Rightarrow> st_kind d \<noteq> ''derived'')
                  then Inl (invalid CodeInvalidShape ''state.state_kind'')
                  else
                   res_bind (Derive (State_ParentID state) transform) (\<lambda>expected.
                   if LineageStep_Fingerprint expected \<noteq> wireFingerprint
                   then Inl (invalid CodeIntegrityMismatch ''transform_fingerprint'')
                   else if State_ID (LineageStep_State expected) \<noteq> State_ID state
                   then Inl (invalid CodeIntegrityMismatch ''state.id'')
                   else Inr (Some \<lparr>ls_transform = transform, ls_fingerprint = wireFingerprint, ls_state = state\<rparr>))))
              | _ \<Rightarrow> Inl (invalid CodeInvalidShape ''state'')))
      | _ \<Rightarrow> Inl (invalid CodeInvalidShape ''transform''))"

definition zero_provenanceWire :: provenanceWire where
  "zero_provenanceWire = \<lparr>pw_Identity = RawAbsent, pw_Declaration = RawAbsent, pw_Resolver = RawAbsent\<rparr>"

text \<open>A mandatory raw member whose only check is that it is not empty.\<close>

definition raw_member :: "'w \<Rightarrow> ('w result \<Rightarrow> 'a result) \<Rightarrow> bytes \<Rightarrow> 'w raw \<Rightarrow> 'a result" where
  "raw_member zero decode path r =
     (case r of RawAbsent \<Rightarrow> Inl (invalid CodeInvalidShape path)
      | RawNull \<Rightarrow> res_prefix path (decode (Inr zero))
      | RawDoc d \<Rightarrow> res_prefix path (decode d))"

record recipeWire =
  rpw_SchemaVersion :: "bytes option"
  rpw_Factory :: "provenanceWire raw"
  rpw_Transforms :: "provenanceWire result list option"

fun unmarshal_transforms :: "nat \<Rightarrow> provenanceWire result list \<Rightarrow> TransformProvenance list result" where
  "unmarshal_transforms i [] = Inr []"
| "unmarshal_transforms i (t # rest) =
     res_bind (res_prefix (indexed ''transforms'' i) (TransformProvenance_UnmarshalJSON t)) (\<lambda>value.
     res_bind (unmarshal_transforms (Suc i) rest) (\<lambda>values. Inr (value # values)))"

definition Recipe_MarshalJSON :: "Recipe \<Rightarrow> recipeWire result" where
  "Recipe_MarshalJSON r =
     (case r of None \<Rightarrow> Inl (invalid CodeInvalidShape ''$'')
      | Some d \<Rightarrow> Inr \<lparr>rpw_SchemaVersion = Some SchemaVersion,
                      rpw_Factory = raw_of (FactoryProvenance_MarshalJSON (rc_factory d)),
                      rpw_Transforms = Some (map TransformProvenance_MarshalJSON (rc_transforms d))\<rparr>)"

definition Recipe_UnmarshalJSON :: "recipeWire result \<Rightarrow> Recipe result" where
  "Recipe_UnmarshalJSON decoded =
     res_bind decoded (\<lambda>w.
      case rpw_SchemaVersion w of None \<Rightarrow> Inl (invalid CodeInvalidShape ''schema_version'')
      | Some version \<Rightarrow>
        if version \<noteq> SchemaVersion then Inl (invalid CodeInvalidVersion ''schema_version'')
        else
         res_bind (raw_member zero_provenanceWire FactoryProvenance_UnmarshalJSON ''factory'' (rpw_Factory w)) (\<lambda>f.
         case rpw_Transforms w of None \<Rightarrow> Inl (invalid CodeInvalidShape ''transforms'')
         | Some ts \<Rightarrow> res_bind (unmarshal_transforms 0 ts) (NewRecipe f)))"

text \<open>
  The loop over the encoded steps, which both lineage decoders share: each step is
  decoded (and so re-derived), then its parent is compared with the running state id.
\<close>

fun unmarshal_steps :: "nat \<Rightarrow> StateID \<Rightarrow> stepWire result list \<Rightarrow> LineageStep list result" where
  "unmarshal_steps i parent [] = Inr []"
| "unmarshal_steps i parent (s # rest) =
     res_bind (res_prefix (indexed ''steps'' i) (LineageStep_UnmarshalJSON s)) (\<lambda>step.
     if State_ParentID (LineageStep_State step) \<noteq> parent
     then Inl (invalid CodeIntegrityMismatch (indexed ''steps'' i @ ''.state.parent_id''))
     else res_bind (unmarshal_steps (Suc i) (State_ID (LineageStep_State step)) rest) (\<lambda>steps.
          Inr (step # steps)))"

record recipeLineageWire =
  rlw_SchemaVersion :: "bytes option"
  rlw_Factory :: "provenanceWire raw"
  rlw_Root :: "stateWire raw"
  rlw_Steps :: "stepWire result list option"

definition RecipeLineage_MarshalJSON :: "RecipeLineage \<Rightarrow> recipeLineageWire result" where
  "RecipeLineage_MarshalJSON l =
     (case l of None \<Rightarrow> Inl (invalid CodeInvalidShape ''$'')
      | Some d \<Rightarrow> Inr \<lparr>rlw_SchemaVersion = Some SchemaVersion,
                      rlw_Factory = raw_of (FactoryProvenance_MarshalJSON (rl_factory d)),
                      rlw_Root = raw_of (State_MarshalJSON (rl_root d)),
                      rlw_Steps = Some (map LineageStep_MarshalJSON (rl_steps d))\<rparr>)"

definition RecipeLineage_UnmarshalJSON :: "recipeLineageWire result \<Rightarrow> RecipeLineage result" where
  "RecipeLineage_UnmarshalJSON decoded =
     res_bind decoded (\<lambda>w.
      case rlw_SchemaVersion w of None \<Rightarrow> Inl (invalid CodeInvalidShape ''schema_version'')
      | Some version \<Rightarrow>
        if version \<noteq> SchemaVersion then Inl (invalid CodeInvalidVersion ''schema_version'')
        else
         res_bind (raw_member zero_provenanceWire FactoryProvenance_UnmarshalJSON ''factory'' (rlw_Factory w)) (\<lambda>f.
         res_bind (raw_member zero_stateWire State_UnmarshalJSON ''root'' (rlw_Root w)) (\<lambda>root.
         if (case root of None \<Rightarrow> True | Some d \<Rightarrow> st_kind d \<noteq> ''factory'')
         then Inl (invalid CodeInvalidShape ''root.state_kind'')
         else
          res_bind (FactoryState f) (\<lambda>expectedRoot.
          if State_ID root \<noteq> State_ID expectedRoot then Inl (invalid CodeIntegrityMismatch ''root.id'')
          else (case rlw_Steps w of None \<Rightarrow> Inl (invalid CodeInvalidShape ''steps'')
            | Some ss \<Rightarrow>
               res_bind (unmarshal_steps 0 (State_ID root) ss) (\<lambda>steps.
               Inr (Some \<lparr>rl_factory = f, rl_root = root, rl_steps = steps\<rparr>)))))))"

record relativeLineageWire =
  rew_SchemaVersion :: "bytes option"
  rew_Anchor :: "bytes option"
  rew_Steps :: "stepWire result list option"

definition RelativeLineage_MarshalJSON :: "RelativeLineage \<Rightarrow> relativeLineageWire result" where
  "RelativeLineage_MarshalJSON l =
     (case l of None \<Rightarrow> Inl (invalid CodeInvalidShape ''$'')
      | Some d \<Rightarrow> Inr \<lparr>rew_SchemaVersion = Some SchemaVersion, rew_Anchor = Some (re_anchor d),
                      rew_Steps = Some (map LineageStep_MarshalJSON (re_steps d))\<rparr>)"

definition RelativeLineage_UnmarshalJSON :: "relativeLineageWire result \<Rightarrow> RelativeLineage result" where
  "RelativeLineage_UnmarshalJSON decoded =
     res_bind decoded (\<lambda>w.
      case rew_SchemaVersion w of None \<Rightarrow> Inl (invalid CodeInvalidShape ''schema_version'')
      | Some version \<Rightarrow>
        if version \<noteq> SchemaVersion then Inl (invalid CodeInvalidVersion ''schema_version'')
        else (case rew_Anchor w of None \<Rightarrow> Inl (invalid CodeInvalidShape ''anchor'')
          | Some anchor \<Rightarrow>
             res_bind (parseDigest anchor ''anchor'') (\<lambda>_.
             case rew_Steps w of None \<Rightarrow> Inl (invalid CodeInvalidShape ''steps'')
             | Some ss \<Rightarrow>
                res_bind (unmarshal_steps 0 anchor ss) (\<lambda>steps.
                Inr (Some \<lparr>re_anchor = anchor, re_steps = steps\<rparr>)))))"

end
