(* ===== verification/Lineage_Props.thy ===== *)
theory Lineage_Props
  imports Lineage
begin

text \<open>
  The properties of states and lineages.  A state id determines the whole chain that
  produced it, up to an explicit SHA-256 collision between two of the hash inputs of
  that chain; lineages compose; diagnostics never enter an id; and the decoders
  accept only what the builders produce.
\<close>

subsection \<open>Constructed provenance\<close>

text \<open>The values a client can obtain: built by the constructors from a constructed identity.\<close>

definition constructed_factory :: "FactoryProvenance \<Rightarrow> bool" where
  "constructed_factory p \<longleftrightarrow>
     (\<exists>input d. NewFactoryIdentity input = Inr (fp_identity d) \<and> NewFactoryProvenance d = Inr p)"

definition constructed_transform :: "TransformProvenance \<Rightarrow> bool" where
  "constructed_transform p \<longleftrightarrow>
     (\<exists>input d. NewTransformIdentity input = Inr (tp_identity d) \<and> NewTransformProvenance d = Inr p)"

lemma NewFactoryProvenance_Inr:
  "NewFactoryProvenance d = Inr p \<longleftrightarrow> p = Some d \<and> fp_identity d \<noteq> None
     \<and> (\<forall>decl. fp_declaration d = Some decl \<longrightarrow> validateFactoryDeclaration decl = Inr ())
     \<and> validateResolver (fp_resolver d) = Inr ()"
  by (auto simp: NewFactoryProvenance_def identity_valid_def res_simps split: option.splits)

lemma NewTransformProvenance_Inr:
  "NewTransformProvenance d = Inr p \<longleftrightarrow> p = Some d \<and> tp_identity d \<noteq> None
     \<and> (\<forall>decl. tp_declaration d = Some decl \<longrightarrow> validateTransformDeclaration decl = Inr ())
     \<and> validateResolver (tp_resolver d) = Inr ()"
  by (auto simp: NewTransformProvenance_def identity_valid_def res_simps split: option.splits)

lemma constructed_factoryE:
  assumes "constructed_factory p"
  obtains d i where "p = Some d" and "fp_identity d = Some i" and "identity_wf i"
    and "NewFactoryProvenance d = Inr p"
  using assms
  by (auto simp: constructed_factory_def NewFactoryIdentity_def NewFactoryProvenance_Inr res_simps
      dest!: newIdentity_wf)

lemma constructed_transformE:
  assumes "constructed_transform p"
  obtains d i where "p = Some d" and "tp_identity d = Some i" and "identity_wf i"
    and "NewTransformProvenance d = Inr p"
  using assms
  by (auto simp: constructed_transform_def NewTransformIdentity_def NewTransformProvenance_Inr res_simps
      dest!: newIdentity_wf)

definition factory_identity :: "FactoryProvenance \<Rightarrow> identityData" where
  "factory_identity p = the (fp_identity (the p))"

definition transform_identity :: "TransformProvenance \<Rightarrow> identityData" where
  "transform_identity p = the (tp_identity (the p))"

lemma constructed_factory_wf: "constructed_factory p \<Longrightarrow> identity_wf (factory_identity p)"
  by (erule constructed_factoryE) (simp add: factory_identity_def)

lemma constructed_transform_wf: "constructed_transform p \<Longrightarrow> identity_wf (transform_identity p)"
  by (erule constructed_transformE) (simp add: transform_identity_def)

subsection \<open>Hash inputs\<close>

definition digest_bytes :: "bytes \<Rightarrow> bytes" where
  "digest_bytes s = (case parseDigest s [] of Inl _ \<Rightarrow> [] | Inr d \<Rightarrow> d)"

definition state_preimage :: "StateID \<Rightarrow> Fingerprint \<Rightarrow> bytes" where
  "state_preimage parent fingerprint =
     encodeRecord stateDomain (state_fields (digest_bytes parent) (digest_bytes fingerprint))"

text \<open>Everything \<^verbatim>\<open>Build\<close> hashes for a recipe, in order.\<close>

fun chain_preimages :: "StateID \<Rightarrow> TransformProvenance list \<Rightarrow> bytes list" where
  "chain_preimages parent [] = []"
| "chain_preimages parent (t # ts) =
     (let fingerprint = hashBytes (canonicalTransform (transform_identity t));
          pre = state_preimage parent fingerprint in
      canonicalTransform (transform_identity t) # pre # chain_preimages (hashBytes pre) ts)"

definition recipe_preimages :: "FactoryProvenance \<Rightarrow> TransformProvenance list \<Rightarrow> bytes list" where
  "recipe_preimages f ts =
     canonicalFactory (factory_identity f)
     # chain_preimages (hashBytes (canonicalFactory (factory_identity f))) ts"

lemma digest_bytes_parse: "parseDigest s p = Inr d \<Longrightarrow> digest_bytes s = d"
  using parseDigest_Inr_iff by (metis digest_bytes_def sum.simps(6))

lemma digest_bytes_hash [simp]: "digest_bytes (hashBytes v) = Sum256 v"
  by (simp add: digest_bytes_def)

lemma is_digest_parse: "is_digest s \<longleftrightarrow> parseDigest s p = Inr (digest_bytes s)"
  using parseDigest_is_digest [of s p] digest_bytes_parse [of s p] by (auto simp: is_ok_iff)

lemma length_digest_bytes: "is_digest s \<Longrightarrow> length (digest_bytes s) = 32"
  using is_digest_parse [of s "[]"] parseDigest_Inr_iff by blast

lemma digest_bytes_inject: "is_digest s \<Longrightarrow> is_digest t \<Longrightarrow> digest_bytes s = digest_bytes t \<Longrightarrow> s = t"
  using is_digest_parse [of s "[]"] is_digest_parse [of t "[]"] parseDigest_Inr_iff by metis

lemma state_fields_inject:
  assumes "encodeRecord stateDomain (state_fields a b) = encodeRecord stateDomain (state_fields c d)"
    and "length a = 32" "length b = 32" "length c = 32" "length d = 32"
  shows "a = c \<and> b = d"
proof -
  have srt: "sort_key cf_tag (state_fields x y) = state_fields x y" for x y
    by (rule sort_key_slice.srt_sorted_id) (simp add: state_fields_def)
  have "sort_key cf_tag (state_fields a b) = sort_key cf_tag (state_fields c d)"
    by (rule conjunct2 [OF encodeRecord_inject [OF assms(1) domain_fits(3) domain_fits(3)]])
      (use assms(2-) in \<open>auto simp: state_fields_def fits64_def\<close>)
  then show ?thesis unfolding srt by (simp add: state_fields_def)
qed

lemma state_preimage_inject:
  assumes "state_preimage p f = state_preimage q g"
    and "is_digest p" "is_digest f" "is_digest q" "is_digest g"
  shows "p = q \<and> f = g"
  using state_fields_inject [OF assms(1) [unfolded state_preimage_def]] assms(2-)
  by (auto simp: length_digest_bytes dest: digest_bytes_inject)

text \<open>A state preimage is never an identity preimage: the domains differ.\<close>

lemma state_preimage_separate:
  assumes "state_preimage p f = canonicalIdentity dmn i" and "identity_wf i" and "is_digest p" and "is_digest f"
    and "dmn = factoryDomain \<or> dmn = transformDomain"
  shows False
proof -
  have "fits64 dmn" using assms(5) domain_fits by auto
  have "stateDomain = dmn \<and> sort_key cf_tag (state_fields (digest_bytes p) (digest_bytes f))
      = sort_key cf_tag (five_tags (id_schemaVersion i) (id_provider i) (id_kind i) (id_identitySchema i)
          (encodeFieldSet (id_fields i)))"
    by (rule encodeRecord_inject [OF assms(1) [unfolded state_preimage_def canonicalIdentity_five]
          domain_fits(3) \<open>fits64 dmn\<close>])
      (use identity_wf_fits [OF assms(2)] length_digest_bytes [OF assms(3)] length_digest_bytes [OF assms(4)]
        in \<open>auto simp: state_fields_def five_tags_def fits64_def\<close>)
  then show False using assms(5) domains_differ by auto
qed

subsection \<open>Derivation steps\<close>

definition derived_step :: "StateID \<Rightarrow> TransformProvenance \<Rightarrow> lineageStepData" where
  "derived_step parent t =
     (let fingerprint = hashBytes (canonicalTransform (transform_identity t)) in
      \<lparr>ls_transform = t, ls_fingerprint = fingerprint,
       ls_state = Some \<lparr>st_kind = ''derived'', st_id = hashBytes (state_preimage parent fingerprint),
                        st_parentID = parent, st_factoryFingerprint = [],
                        st_transformFingerprint = fingerprint\<rparr>\<rparr>)"

definition transform_present :: "TransformProvenance \<Rightarrow> bool" where
  "transform_present t \<longleftrightarrow> (\<exists>d. t = Some d \<and> tp_identity d \<noteq> None)"

lemma constructed_transform_present: "constructed_transform t \<Longrightarrow> transform_present t"
  by (erule constructed_transformE) (simp add: transform_present_def)

lemma Derive_Inr:
  "Derive parent t = Inr s \<longleftrightarrow> is_digest parent \<and> transform_present t \<and> s = Some (derived_step parent t)"
proof (cases "is_digest parent")
  case True
  then have "parseDigest parent ''parent_id'' = Inr (digest_bytes parent)" using is_digest_parse by blast
  then show ?thesis
    by (auto simp: Derive_def transform_present_def TransformFingerprint_def derived_step_def Let_def True
        transform_identity_def state_preimage_def hashRecord_def split: option.splits)
next
  case False
  then have "parseDigest parent ''parent_id'' \<noteq> Inr x" for x
    using parseDigest_is_digest is_ok_iff by blast
  then show ?thesis using False by (simp add: Derive_def res_simps)
qed

lemma derived_step_id [simp]:
  "State_ID (ls_state (derived_step p t)) = hashBytes (state_preimage p (hashBytes (canonicalTransform (transform_identity t))))"
  "State_ParentID (ls_state (derived_step p t)) = p"
  "ls_fingerprint (derived_step p t) = hashBytes (canonicalTransform (transform_identity t))"
  "ls_transform (derived_step p t) = t"
  by (simp_all add: derived_step_def Let_def State_ID_def State_ParentID_def)

fun chain :: "StateID \<Rightarrow> TransformProvenance list \<Rightarrow> LineageStep list" where
  "chain parent [] = []"
| "chain parent (t # ts) = Some (derived_step parent t) # chain (State_ID (ls_state (derived_step parent t))) ts"

definition chain_end :: "StateID \<Rightarrow> TransformProvenance list \<Rightarrow> StateID" where
  "chain_end parent ts = foldl (\<lambda>p t. State_ID (ls_state (derived_step p t))) parent ts"

lemma chain_end_simps [simp]:
  "chain_end p [] = p"
  "chain_end p (t # ts) = chain_end (State_ID (ls_state (derived_step p t))) ts"
  "chain_end p (xs @ ys) = chain_end (chain_end p xs) ys"
  by (simp_all add: chain_end_def)

lemma chain_append: "chain p (xs @ ys) = chain p xs @ chain (chain_end p xs) ys"
  by (induction xs arbitrary: p) simp_all

lemma length_chain [simp]: "length (chain p ts) = length ts"
  by (induction ts arbitrary: p) simp_all

lemma chain_end_last:
  "chain_end p ts = (if chain p ts = [] then p else State_ID (LineageStep_State (last (chain p ts))))"
proof (induction ts rule: rev_induct)
  case (snoc t ts)
  show ?case by (simp add: chain_append LineageStep_State_def del: derived_step_id)
qed simp

lemma chain_end_digest: "is_digest p \<Longrightarrow> is_digest (chain_end p ts)"
  by (induction ts arbitrary: p) simp_all

lemma derive_steps_Inr:
  "is_digest p \<Longrightarrow> derive_steps i p ts = Inr ss \<longleftrightarrow> list_all transform_present ts \<and> ss = chain p ts"
  by (induction ts arbitrary: i p ss) (auto simp: res_simps Derive_Inr LineageStep_State_def)

lemma FactoryState_Inr:
  "FactoryState f = Inr s \<longleftrightarrow> f \<noteq> None \<and>
     s = (let sid = hashBytes (canonicalFactory (factory_identity f)) in
          Some \<lparr>st_kind = ''factory'', st_id = sid, st_parentID = [], st_factoryFingerprint = sid,
                st_transformFingerprint = []\<rparr>)"
  by (auto simp: FactoryState_def factory_identity_def Let_def split: option.splits)

abbreviation root_id :: "FactoryProvenance \<Rightarrow> StateID" where
  "root_id f \<equiv> hashBytes (canonicalFactory (factory_identity f))"

definition root_state :: "FactoryProvenance \<Rightarrow> State" where
  "root_state f = Some \<lparr>st_kind = ''factory'', st_id = root_id f, st_parentID = [],
     st_factoryFingerprint = root_id f, st_transformFingerprint = []\<rparr>"

lemma root_state_id [simp]: "State_ID (root_state f) = root_id f"
  by (simp add: root_state_def State_ID_def)

lemma Build_Inr:
  "Build r = Inr l \<longleftrightarrow> (\<exists>d. r = Some d \<and> rc_factory d \<noteq> None \<and> list_all transform_present (rc_transforms d)
     \<and> l = Some \<lparr>rl_factory = rc_factory d, rl_root = root_state (rc_factory d),
                rl_steps = chain (root_id (rc_factory d)) (rc_transforms d)\<rparr>)"
proof (cases r)
  case (Some d)
  show ?thesis
    by (auto simp: Some Build_def res_simps FactoryState_Inr Let_def root_state_def [symmetric] derive_steps_Inr)
qed (simp add: Build_def)

lemma Extend_Inr:
  "Extend a ts = Inr l \<longleftrightarrow> is_digest a \<and> length ts \<le> MaxTransforms \<and> list_all transform_present ts
     \<and> l = Some \<lparr>re_anchor = a, re_steps = chain a ts\<rparr>"
proof (cases "is_digest a")
  case True
  then have "parseDigest a ''anchor'' = Inr (digest_bytes a)" using is_digest_parse by blast
  then show ?thesis by (auto simp: Extend_def res_simps derive_steps_Inr True)
next
  case False
  then have "parseDigest a ''anchor'' \<noteq> Inr x" for x
    using parseDigest_is_digest is_ok_iff by blast
  then show ?thesis using False by (simp add: Extend_def res_simps)
qed

lemma Build_endpoint:
  "Build (Some d) = Inr l \<Longrightarrow> State_ID (RecipeLineage_Endpoint l) = chain_end (root_id (rc_factory d)) (rc_transforms d)"
  by (auto simp: Build_Inr RecipeLineage_Endpoint_def chain_end_last)

lemma Extend_endpoint: "Extend a ts = Inr l \<Longrightarrow> RelativeLineage_EndpointID l = chain_end a ts"
  by (auto simp: Extend_Inr RelativeLineage_EndpointID_def chain_end_last)

subsection \<open>An endpoint determines its chain\<close>

lemma chain_preimages_snoc:
  "chain_preimages p (ts @ [t]) = chain_preimages p ts
     @ [canonicalTransform (transform_identity t),
        state_preimage (chain_end p ts) (hashBytes (canonicalTransform (transform_identity t)))]"
  by (induction ts arbitrary: p) (simp_all add: Let_def)

text \<open>Two recipes have two hash inputs, one of each, that collide.\<close>

definition recipes_collide ::
    "FactoryProvenance \<Rightarrow> TransformProvenance list \<Rightarrow> FactoryProvenance \<Rightarrow> TransformProvenance list \<Rightarrow> bool" where
  "recipes_collide f ts g us \<longleftrightarrow>
     (\<exists>x \<in> set (recipe_preimages f ts). \<exists>y \<in> set (recipe_preimages g us). sha256_collision x y)"

lemma recipes_collide_snoc:
  "recipes_collide f ts g us \<Longrightarrow> recipes_collide f (ts @ [t]) g (us @ [u])"
  by (auto simp: recipes_collide_def recipe_preimages_def chain_preimages_snoc)

lemma recipes_collideI:
  "x \<in> set (recipe_preimages f ts) \<Longrightarrow> y \<in> set (recipe_preimages g us) \<Longrightarrow> sha256_collision x y \<Longrightarrow>
     recipes_collide f ts g us"
  by (auto simp: recipes_collide_def)

lemma root_in_preimages: "canonicalFactory (factory_identity f) \<in> set (recipe_preimages f ts)"
  by (simp add: recipe_preimages_def)

lemma last_in_preimages:
  "canonicalTransform (transform_identity t) \<in> set (recipe_preimages f (ts @ [t]))"
  "state_preimage (chain_end (root_id f) ts) (hashBytes (canonicalTransform (transform_identity t)))
     \<in> set (recipe_preimages f (ts @ [t]))"
  by (simp_all add: recipe_preimages_def chain_preimages_snoc)

text \<open>A factory root and a derived state with the same id are a collision.\<close>

lemma root_not_derived:
  assumes "hashBytes (canonicalFactory i) = hashBytes (state_preimage p f)"
    and "identity_wf i" "is_digest p" "is_digest f"
  shows "sha256_collision (canonicalFactory i) (state_preimage p f)"
  using hashBytes_eqD [OF assms(1)] state_preimage_separate [of p f factoryDomain i] assms(2-)
  by (auto simp: canonicalFactory_def)

lemma derived_eqD:
  fixes i j :: identityData
  assumes "hashBytes (state_preimage p (hashBytes (canonicalTransform i)))
      = hashBytes (state_preimage q (hashBytes (canonicalTransform j)))"
    and "is_digest p" "is_digest q" "identity_wf i" "identity_wf j"
  shows "(p = q \<and> i = j)
     \<or> sha256_collision (state_preimage p (hashBytes (canonicalTransform i)))
         (state_preimage q (hashBytes (canonicalTransform j)))
     \<or> sha256_collision (canonicalTransform i) (canonicalTransform j)"
proof -
  from hashBytes_eqD [OF assms(1)] consider
    "sha256_collision (state_preimage p (hashBytes (canonicalTransform i)))
         (state_preimage q (hashBytes (canonicalTransform j)))"
    | "p = q \<and> hashBytes (canonicalTransform i) = hashBytes (canonicalTransform j)"
    using state_preimage_inject [OF _ assms(2) hashBytes_is_digest assms(3) hashBytes_is_digest] by blast
  then show ?thesis
    using transform_fp.fingerprint_eqD [of i j] assms(4,5) by cases auto
qed

lemma chain_end_snoc [simp]:
  "chain_end p (ts @ [t]) = hashBytes (state_preimage (chain_end p ts) (hashBytes (canonicalTransform (transform_identity t))))"
  by simp

lemma sha256_collision_sym: "sha256_collision x y \<Longrightarrow> sha256_collision y x"
  by (auto simp: sha256_collision_def)

lemma chain_inject:
  assumes "identity_wf (factory_identity f)" and "identity_wf (factory_identity g)"
    and "\<forall>t \<in> set ts. identity_wf (transform_identity t)" and "\<forall>u \<in> set us. identity_wf (transform_identity u)"
    and "chain_end (root_id f) ts = chain_end (root_id g) us"
  shows "(factory_identity f = factory_identity g \<and> map transform_identity ts = map transform_identity us)
     \<or> recipes_collide f ts g us"
  using assms(3-5)
proof (induction ts arbitrary: us rule: rev_induct)
  case Nil
  show ?case
  proof (cases us rule: rev_cases)
    case Nil
    then show ?thesis
      using Nil.prems(3) factory_fp.fingerprint_eqD [OF _ assms(1,2)] recipes_collideI root_in_preimages by fastforce
  next
    case (snoc vs v)
    have "sha256_collision (canonicalFactory (factory_identity f))
        (state_preimage (chain_end (root_id g) vs) (hashBytes (canonicalTransform (transform_identity v))))"
      by (rule root_not_derived) (use Nil.prems(3) snoc assms(1) chain_end_digest in simp_all)
    then show ?thesis
      using recipes_collideI [OF root_in_preimages last_in_preimages(2)] snoc by blast
  qed
next
  case (snoc t ts)
  show ?case
  proof (cases us rule: rev_cases)
    case Nil
    have "sha256_collision (canonicalFactory (factory_identity g))
        (state_preimage (chain_end (root_id f) ts) (hashBytes (canonicalTransform (transform_identity t))))"
      by (rule root_not_derived) (use snoc.prems(3) Nil assms(2) chain_end_digest in simp_all)
    then show ?thesis
      using recipes_collideI [OF last_in_preimages(2) root_in_preimages] sha256_collision_sym by blast
  next
    case us: (snoc vs v)
    have wf: "identity_wf (transform_identity t)" "identity_wf (transform_identity v)"
      using snoc.prems(1,2) us by simp_all
    have "hashBytes (state_preimage (chain_end (root_id f) ts) (hashBytes (canonicalTransform (transform_identity t))))
        = hashBytes (state_preimage (chain_end (root_id g) vs) (hashBytes (canonicalTransform (transform_identity v))))"
      using snoc.prems(3) us by simp
    from derived_eqD [OF this chain_end_digest [OF hashBytes_is_digest] chain_end_digest [OF hashBytes_is_digest] wf]
    show ?thesis
    proof (elim disjE)
      assume "chain_end (root_id f) ts = chain_end (root_id g) vs \<and> transform_identity t = transform_identity v"
      then show ?thesis using snoc.IH [of vs] snoc.prems(1,2) us recipes_collide_snoc by auto
    qed (use recipes_collideI last_in_preimages us in blast)+
  qed
qed

subsection \<open>What the decoders accept\<close>

lemma identity_UnmarshalJSON_wf: "identity_UnmarshalJSON w = Inr i \<Longrightarrow> \<exists>d. i = Some d \<and> identity_wf d"
  by (auto simp: identity_UnmarshalJSON_def res_simps dest: identityFromWire_wf)

lemma TransformProvenance_decoded:
  "TransformProvenance_UnmarshalJSON w = Inr t \<Longrightarrow> transform_present t \<and> identity_wf (transform_identity t)"
  by (auto simp: TransformProvenance_UnmarshalJSON_def res_simps decode_simps NewTransformProvenance_Inr transform_present_def
      transform_identity_def dest!: identity_UnmarshalJSON_wf)

lemma FactoryProvenance_decoded:
  "FactoryProvenance_UnmarshalJSON w = Inr f \<Longrightarrow> f \<noteq> None \<and> identity_wf (factory_identity f)"
  by (auto simp: FactoryProvenance_UnmarshalJSON_def res_simps decode_simps NewFactoryProvenance_Inr
      factory_identity_def dest!: identity_UnmarshalJSON_wf)

lemma State_decoded:
  assumes "State_UnmarshalJSON w = Inr s"
  obtains (factory) fp where "is_digest fp" and "s = Some \<lparr>st_kind = ''factory'', st_id = fp, st_parentID = [],
        st_factoryFingerprint = fp, st_transformFingerprint = []\<rparr>"
  | (derived) p fp where "is_digest p" and "is_digest fp"
      and "s = Some \<lparr>st_kind = ''derived'', st_id = hashBytes (state_preimage p fp), st_parentID = p,
        st_factoryFingerprint = [], st_transformFingerprint = fp\<rparr>"
proof -
  obtain wire kind sid where "factory_wire_state sid wire = Inr s \<or> derived_wire_state sid wire = Inr s"
    using assms by (auto simp: State_UnmarshalJSON_def res_simps split: option.splits if_splits)
  then show thesis
  proof
    assume "factory_wire_state sid wire = Inr s"
    then show thesis
      using factory [of sid] parseDigest_is_digest is_ok_iff
      by (auto simp: factory_wire_state_def res_simps decode_simps)
  next
    assume "derived_wire_state sid wire = Inr s"
    then obtain p fp pd fd where "parseDigest p ''parent_id'' = Inr pd" "parseDigest fp ''transform_fingerprint'' = Inr fd"
      "hashRecord stateDomain (state_fields pd fd) = sid"
      "s = Some \<lparr>st_kind = ''derived'', st_id = sid, st_parentID = p, st_factoryFingerprint = [],
                st_transformFingerprint = fp\<rparr>"
      by (auto simp: derived_wire_state_def res_simps decode_simps)
    then show thesis
      using derived [of p fp] digest_bytes_parse parseDigest_is_digest is_ok_iff
      by (metis hashRecord_def state_preimage_def)
  qed
qed

text \<open>
  A decoded step is the derived one, except that the fingerprint inside its state may be
  another digest whose state preimage collides.
\<close>

definition step_tampered :: "lineageStepData \<Rightarrow> bool" where
  "step_tampered s \<longleftrightarrow>
     sha256_collision (state_preimage (State_ParentID (ls_state s)) (State_TransformFingerprint (ls_state s)))
       (state_preimage (State_ParentID (ls_state s)) (ls_fingerprint s))"

lemma LineageStep_decoded:
  assumes "LineageStep_UnmarshalJSON w = Inr s"
  shows "\<exists>d p t. s = Some d \<and> is_digest p \<and> transform_present t \<and> identity_wf (transform_identity t)
     \<and> ls_transform d = t \<and> State_ParentID (ls_state d) = p
     \<and> State_ID (ls_state d) = State_ID (ls_state (derived_step p t))
     \<and> (d = derived_step p t \<or> step_tampered d)"
proof -
  from assms obtain tw sw t st e fp where t: "TransformProvenance_UnmarshalJSON tw = Inr t"
    and st: "State_UnmarshalJSON sw = Inr st" and kind: "\<exists>d. st = Some d \<and> st_kind d = ''derived''"
    and e: "Derive (State_ParentID st) t = Inr e" and fp: "LineageStep_Fingerprint e = fp"
    and sid: "State_ID (LineageStep_State e) = State_ID st"
    and s: "s = Some \<lparr>ls_transform = t, ls_fingerprint = fp, ls_state = st\<rparr>"
    by (auto simp: LineageStep_UnmarshalJSON_def res_simps decode_simps split: option.split_asm)
  from st kind obtain p g where p: "is_digest p" and g: "is_digest g"
    and stv: "st = Some \<lparr>st_kind = ''derived'', st_id = hashBytes (state_preimage p g), st_parentID = p,
        st_factoryFingerprint = [], st_transformFingerprint = g\<rparr>"
    by (cases rule: State_decoded) auto
  let ?f = "hashBytes (canonicalTransform (transform_identity t))"
  have ev: "e = Some (derived_step p t)" and tp: "transform_present t"
    using e stv by (simp_all add: Derive_Inr State_ParentID_def)
  then have fpv: "fp = ?f" and ids: "hashBytes (state_preimage p ?f) = hashBytes (state_preimage p g)"
    using fp sid stv by (simp_all add: LineageStep_Fingerprint_def LineageStep_State_def, simp add: State_ID_def)
  have "g = ?f \<or> sha256_collision (state_preimage p g) (state_preimage p ?f)"
    using hashBytes_eqD [OF ids [symmetric]] state_preimage_inject [of p g p ?f] p g by auto
  moreover have "g = ?f \<Longrightarrow> \<lparr>ls_transform = t, ls_fingerprint = fp, ls_state = st\<rparr> = derived_step p t"
    by (simp add: derived_step_def Let_def stv fpv)
  moreover have "State_ID st = State_ID (ls_state (derived_step p t))"
    using sid ev by (simp add: LineageStep_State_def)
  ultimately show ?thesis
    using TransformProvenance_decoded [OF t] p s stv fpv
    by (auto simp: step_tampered_def State_ParentID_def State_TransformFingerprint_def)
qed

lemma unmarshal_steps_sound:
  "unmarshal_steps i p ss = Inr steps \<Longrightarrow> is_digest p \<Longrightarrow>
     list_all transform_present (map LineageStep_Transform steps)
     \<and> (steps = chain p (map LineageStep_Transform steps) \<or> (\<exists>d. Some d \<in> set steps \<and> step_tampered d))"
proof (induction ss arbitrary: i p steps)
  case (Cons w ss)
  from Cons.prems(1) obtain s rest where s: "LineageStep_UnmarshalJSON w = Inr s"
    and par: "State_ParentID (LineageStep_State s) = p" and steps: "steps = s # rest"
    and rest: "unmarshal_steps (Suc i) (State_ID (LineageStep_State s)) ss = Inr rest"
    by (auto simp: res_simps decode_simps)
  from LineageStep_decoded [OF s] par obtain d t where d: "s = Some d" "ls_transform d = t" "transform_present t"
    and sid: "State_ID (ls_state d) = State_ID (ls_state (derived_step p t))"
    and eq: "d = derived_step p t \<or> step_tampered d"
    by (auto simp: LineageStep_State_def)
  have "is_digest (State_ID (LineageStep_State s))" using sid d(1) by (simp add: LineageStep_State_def)
  from Cons.IH [OF rest this] show ?case
    using d sid eq by (auto simp: steps LineageStep_Transform_def LineageStep_State_def simp del: derived_step_id(1))
qed simp

lemma RecipeLineage_sound:
  assumes "RecipeLineage_UnmarshalJSON w = Inr l"
  shows "\<exists>d. l = Some d \<and> rl_factory d \<noteq> None \<and> rl_root d = root_state (rl_factory d)
     \<and> list_all transform_present (map LineageStep_Transform (rl_steps d))
     \<and> (rl_steps d = chain (root_id (rl_factory d)) (map LineageStep_Transform (rl_steps d))
        \<or> (\<exists>s. Some s \<in> set (rl_steps d) \<and> step_tampered s))"
proof -
  have member: "raw_member z g path r = Inr x \<Longrightarrow> \<exists>y. g y = Inr x" for z g path r x
    by (auto simp: raw_member_def split: raw.splits)
  from assms obtain f root ss steps er where f: "\<exists>fw. FactoryProvenance_UnmarshalJSON fw = Inr f"
    and root: "\<exists>sw. State_UnmarshalJSON sw = Inr root" and kind: "\<exists>d. root = Some d \<and> st_kind d = ''factory''"
    and er: "FactoryState f = Inr er" "State_ID root = State_ID er"
    and steps: "unmarshal_steps 0 (State_ID root) ss = Inr steps"
    and l: "l = Some \<lparr>rl_factory = f, rl_root = root, rl_steps = steps\<rparr>"
    by (auto simp: RecipeLineage_UnmarshalJSON_def res_simps decode_simps dest!: member split: option.split_asm) blast
  have er': "er = root_state f" and fn: "f \<noteq> None"
    using er(1) by (auto simp: FactoryState_Inr Let_def root_state_def)
  from root obtain sw where sw: "State_UnmarshalJSON sw = Inr root" by blast
  have rt: "root = root_state f"
    using sw kind er(2) er' by (cases rule: State_decoded) (auto simp: root_state_def State_ID_def)
  from unmarshal_steps_sound [OF steps] show ?thesis using rt fn by (auto simp: l)
qed

subsection \<open>Round trips\<close>

lemma identity_roundtrip:
  "identity_wf i \<Longrightarrow> identity_UnmarshalJSON (identity_MarshalJSON (Some i)) = Inr (Some i)"
  by (simp add: identity_UnmarshalJSON_def identity_MarshalJSON_def identity_wire_roundtrip)

lemma declaration_ok_validate:
  "declaration_ok (factoryDeclarationWire d) \<Longrightarrow>
     validateDeclaration (fd_Kind d) (fd_Reference d) (fd_Arguments d) (fd_Attributes d) = Inr ()"
  "declaration_ok (transformDeclarationWire e) \<Longrightarrow>
     validateDeclaration (td_Kind e) (td_Reference e) (td_Arguments e) (td_Attributes e) = Inr ()"
  by (auto simp: declaration_ok_def factoryDeclarationWire_def transformDeclarationWire_def validateDeclaration_Inr)

lemma FactoryDeclaration_roundtrip:
  assumes "validateFactoryDeclaration d = Inr ()"
  shows "FactoryDeclaration_MarshalJSON d = Inr (factoryDeclarationWire d)"
    and "FactoryDeclaration_UnmarshalJSON (Inr (factoryDeclarationWire d)) = Inr d"
proof -
  have "declarationFromWire (factoryDeclarationWire d) = Inr (fd_Kind d, fd_Reference d, fd_Arguments d, fd_Attributes d)"
    using assms declaration_ok_validate(1) [of d]
    by (simp add: declarationFromWire_def factoryDeclarationWire_def validateFactoryDeclaration_Inr)
  then show "FactoryDeclaration_UnmarshalJSON (Inr (factoryDeclarationWire d)) = Inr d"
    using assms by (cases d) (simp add: FactoryDeclaration_UnmarshalJSON_def Let_def factoryDeclarationWire_def)
qed (simp add: FactoryDeclaration_MarshalJSON_def assms)

lemma TransformDeclaration_roundtrip:
  assumes "validateTransformDeclaration d = Inr ()"
  shows "TransformDeclaration_MarshalJSON d = Inr (transformDeclarationWire d)"
    and "TransformDeclaration_UnmarshalJSON (Inr (transformDeclarationWire d)) = Inr d"
proof -
  have "declarationFromWire (transformDeclarationWire d) = Inr (td_Kind d, td_Reference d, td_Arguments d, td_Attributes d)"
    using assms declaration_ok_validate(2) [of d]
    by (simp add: declarationFromWire_def transformDeclarationWire_def validateTransformDeclaration_Inr)
  then show "TransformDeclaration_UnmarshalJSON (Inr (transformDeclarationWire d)) = Inr d"
    using assms by (cases d) (simp add: TransformDeclaration_UnmarshalJSON_def Let_def transformDeclarationWire_def)
qed (simp add: TransformDeclaration_MarshalJSON_def assms)

lemma resolver_roundtrip:
  assumes "validateResolver r = Inr ()"
  shows "decodeResolver (resolver_raw r) = Inr r"
proof (cases r)
  case (Some a)
  with assms show ?thesis by (cases a) (simp add: decodeResolver_def resolver_raw_def Let_def)
qed (simp add: decodeResolver_def resolver_raw_def)

lemma FactoryProvenance_roundtrip:
  assumes "constructed_factory p"
  shows "FactoryProvenance_UnmarshalJSON (FactoryProvenance_MarshalJSON p) = Inr p"
  using assms
proof (rule constructed_factoryE)
  fix d i assume p: "p = Some d" and i: "fp_identity d = Some i" "identity_wf i"
    and new: "NewFactoryProvenance d = Inr p"
  have "identity_UnmarshalJSON (Inr (identityToWire i)) = Inr (Some i)"
    using identity_roundtrip [OF i(2)] by (simp add: identity_MarshalJSON_def)
  then show ?thesis
    using new resolver_roundtrip [of "fp_resolver d"] FactoryDeclaration_roundtrip
    by (cases "fp_declaration d")
      (auto simp: FactoryProvenance_UnmarshalJSON_def FactoryProvenance_MarshalJSON_def p i raw_of_def
        identity_MarshalJSON_def NewFactoryProvenance_Inr)
qed

lemma TransformProvenance_roundtrip:
  assumes "constructed_transform p"
  shows "TransformProvenance_UnmarshalJSON (TransformProvenance_MarshalJSON p) = Inr p"
  using assms
proof (rule constructed_transformE)
  fix d i assume p: "p = Some d" and i: "tp_identity d = Some i" "identity_wf i"
    and new: "NewTransformProvenance d = Inr p"
  have "identity_UnmarshalJSON (Inr (identityToWire i)) = Inr (Some i)"
    using identity_roundtrip [OF i(2)] by (simp add: identity_MarshalJSON_def)
  then show ?thesis
    using new resolver_roundtrip [of "tp_resolver d"] TransformDeclaration_roundtrip
    by (cases "tp_declaration d")
      (auto simp: TransformProvenance_UnmarshalJSON_def TransformProvenance_MarshalJSON_def p i raw_of_def
        identity_MarshalJSON_def NewTransformProvenance_Inr)
qed

lemma TransformProvenance_marshal: "constructed_transform t \<Longrightarrow> \<exists>w. TransformProvenance_MarshalJSON t = Inr w"
  by (erule constructed_transformE) (simp add: TransformProvenance_MarshalJSON_def)

lemma FactoryProvenance_marshal: "constructed_factory t \<Longrightarrow> \<exists>w. FactoryProvenance_MarshalJSON t = Inr w"
  by (erule constructed_factoryE) (simp add: FactoryProvenance_MarshalJSON_def)

lemma derived_state_roundtrip:
  assumes "is_digest p" and "is_digest f"
  defines "st \<equiv> Some \<lparr>st_kind = ''derived'', st_id = hashBytes (state_preimage p f), st_parentID = p,
     st_factoryFingerprint = [], st_transformFingerprint = f\<rparr>"
  shows "State_UnmarshalJSON (State_MarshalJSON st) = Inr st"
proof -
  have "parseDigest p path = Inr (digest_bytes p)" "parseDigest f path = Inr (digest_bytes f)" for path
    using assms(1,2) is_digest_parse by blast+
  then show ?thesis
    by (simp add: st_def State_MarshalJSON_def State_UnmarshalJSON_def derived_wire_state_def raw_string_def
        hashRecord_def state_preimage_def)
qed

lemma root_state_roundtrip: "State_UnmarshalJSON (State_MarshalJSON (root_state f)) = Inr (root_state f)"
  by (simp add: root_state_def State_MarshalJSON_def State_UnmarshalJSON_def factory_wire_state_def raw_string_def)

lemma derived_step_roundtrip:
  assumes "is_digest p" and "constructed_transform t"
  shows "LineageStep_UnmarshalJSON (LineageStep_MarshalJSON (Some (derived_step p t))) = Inr (Some (derived_step p t))"
proof -
  let ?f = "hashBytes (canonicalTransform (transform_identity t))"
  let ?st = "\<lparr>st_kind = ''derived'', st_id = hashBytes (state_preimage p ?f), st_parentID = p,
     st_factoryFingerprint = [], st_transformFingerprint = ?f\<rparr>"
  obtain w where w: "TransformProvenance_MarshalJSON t = Inr w" using TransformProvenance_marshal [OF assms(2)] by blast
  have t: "TransformProvenance_UnmarshalJSON (Inr w) = Inr t" using TransformProvenance_roundtrip [OF assms(2)] w by simp
  have step: "derived_step p t = \<lparr>ls_transform = t, ls_fingerprint = ?f, ls_state = Some ?st\<rparr>"
    by (simp add: derived_step_def Let_def)
  have st: "State_UnmarshalJSON (State_MarshalJSON (Some ?st)) = Inr (Some ?st)"
    by (rule derived_state_roundtrip) (use assms(1) in simp_all)
  obtain sw where sw: "State_MarshalJSON (Some ?st) = Inr sw" by (simp add: State_MarshalJSON_def Let_def)
  have der: "Derive p t = Inr (Some (derived_step p t))"
    using assms constructed_transform_present by (simp add: Derive_Inr)
  show ?thesis
    using st sw der
    by (simp add: LineageStep_UnmarshalJSON_def LineageStep_MarshalJSON_def step w t raw_of_def State_ParentID_def
        LineageStep_Fingerprint_def LineageStep_State_def)
qed

lemma chain_roundtrip:
  "is_digest p \<Longrightarrow> list_all constructed_transform ts \<Longrightarrow>
     unmarshal_steps i p (map LineageStep_MarshalJSON (chain p ts)) = Inr (chain p ts)"
  by (induction ts arbitrary: i p) (simp_all add: derived_step_roundtrip LineageStep_State_def)

lemma lineage_roundtrip:
  assumes "constructed_factory f" and "list_all constructed_transform ts"
    and "Build (Some \<lparr>rc_factory = f, rc_transforms = ts\<rparr>) = Inr l"
  shows "RecipeLineage_UnmarshalJSON (RecipeLineage_MarshalJSON l) = Inr l"
proof -
  have l: "l = Some \<lparr>rl_factory = f, rl_root = root_state f, rl_steps = chain (root_id f) ts\<rparr>" and fn: "f \<noteq> None"
    using assms(3) by (auto simp: Build_Inr)
  obtain fw where fw: "FactoryProvenance_MarshalJSON f = Inr fw" using FactoryProvenance_marshal [OF assms(1)] by blast
  obtain sw where sw: "State_MarshalJSON (root_state f) = Inr sw" by (simp add: State_MarshalJSON_def Let_def root_state_def)
  have dec: "FactoryProvenance_UnmarshalJSON (Inr fw) = Inr f" "State_UnmarshalJSON (Inr sw) = Inr (root_state f)"
    using FactoryProvenance_roundtrip [OF assms(1)] root_state_roundtrip [of f] fw sw by simp_all
  have root: "FactoryState f = Inr (root_state f)" using fn by (simp add: FactoryState_Inr root_state_def Let_def)
  have "\<not> (case root_state f of None \<Rightarrow> True | Some d \<Rightarrow> st_kind d \<noteq> ''factory'')" by (simp add: root_state_def)
  then show ?thesis
    by (simp add: l RecipeLineage_UnmarshalJSON_def RecipeLineage_MarshalJSON_def raw_member_def raw_of_def fw sw dec root
        chain_roundtrip assms(2))
qed

subsection \<open>Properties\<close>

text \<open>A small recipe for the witnesses: two factories and two transforms without diagnostics.\<close>

definition sample_input :: "bytes \<Rightarrow> FactoryIdentityInput" where
  "sample_input kind = \<lparr>fi_SchemaVersion = SchemaVersion, fi_Provider = ''docker'', fi_Kind = kind,
     fi_IdentitySchema = ''v1'', fi_Fields = [\<lparr>rf_Name = ''b'', rf_Value = ''2''\<rparr>, \<lparr>rf_Name = ''a'', rf_Value = ''1''\<rparr>]\<rparr>"

definition sample_identity :: "bytes \<Rightarrow> identityData" where
  "sample_identity kind = \<lparr>id_schemaVersion = SchemaVersion, id_provider = ''docker'', id_kind = kind,
     id_identitySchema = ''v1'', id_fields = [\<lparr>rf_Name = ''a'', rf_Value = ''1''\<rparr>, \<lparr>rf_Name = ''b'', rf_Value = ''2''\<rparr>]\<rparr>"

lemma sample_identity_new:
  "identifierPattern kind \<Longrightarrow> newIdentity (sample_input kind) = Inr (sample_identity kind)"
  by (simp add: newIdentity_Inr sample_input_def sample_identity_def identity_input_ok_def fields_ok_def field_ok_def
      identifierPattern_def is_lower_alpha_def is_ident_byte_def in_range_def limit_defs)

definition sample_factory :: FactoryProvenance where
  "sample_factory = Some \<lparr>fp_identity = Some (sample_identity ''image''), fp_declaration = None, fp_resolver = None\<rparr>"

definition sample_transform :: TransformProvenance where
  "sample_transform = Some \<lparr>tp_identity = Some (sample_identity ''psql''), tp_declaration = None, tp_resolver = None\<rparr>"

lemma identifier_image: "identifierPattern ''image''" "identifierPattern ''psql''"
  by (simp_all add: identifierPattern_def is_lower_alpha_def is_ident_byte_def in_range_def)

lemma sample_constructed: "constructed_factory sample_factory" "constructed_transform sample_transform"
proof -
  have "NewFactoryIdentity (sample_input ''image'') = Inr (Some (sample_identity ''image''))"
    "NewTransformIdentity (sample_input ''psql'') = Inr (Some (sample_identity ''psql''))"
    by (simp_all add: NewFactoryIdentity_def NewTransformIdentity_def sample_identity_new identifier_image)
  then show "constructed_factory sample_factory" "constructed_transform sample_transform"
    by (auto simp: constructed_factory_def constructed_transform_def sample_factory_def sample_transform_def
        NewFactoryProvenance_Inr NewTransformProvenance_Inr validateResolver_def
        intro!: exI [of _ "sample_input _"])
qed

lemma sample_build:
  "\<exists>l. Build (Some \<lparr>rc_factory = sample_factory, rc_transforms = [sample_transform]\<rparr>) = Inr l"
  using constructed_transform_present [OF sample_constructed(2)] by (simp add: Build_Inr sample_factory_def)

text \<open>
  C1: the id of a lineage's endpoint determines the whole recipe: its factory identity and the
  sequence of its transform identities, whatever the two lengths are, unless one of the
  finitely many hash inputs of the one recipe collides with one of the other.
\<close>

theorem endpoint_determines_recipe:
  assumes "constructed_factory f" and "list_all constructed_transform ts"
    and "constructed_factory g" and "list_all constructed_transform us"
    and "Build (Some \<lparr>rc_factory = f, rc_transforms = ts\<rparr>) = Inr l"
    and "Build (Some \<lparr>rc_factory = g, rc_transforms = us\<rparr>) = Inr m"
    and "State_ID (RecipeLineage_Endpoint l) = State_ID (RecipeLineage_Endpoint m)"
  shows "(factory_identity f = factory_identity g \<and> map transform_identity ts = map transform_identity us)
     \<or> (\<exists>x \<in> set (recipe_preimages f ts). \<exists>y \<in> set (recipe_preimages g us). sha256_collision x y)"
  using chain_inject [of f g ts us] assms Build_endpoint [OF assms(5)] Build_endpoint [OF assms(6)]
  by (simp add: recipes_collide_def constructed_factory_wf constructed_transform_wf list_all_iff)

theorem endpoint_determines_recipe_witness:
  "\<exists>l. Build (Some \<lparr>rc_factory = sample_factory, rc_transforms = [sample_transform]\<rparr>) = Inr l
     \<and> ((factory_identity sample_factory = factory_identity sample_factory
          \<and> map transform_identity [sample_transform] = map transform_identity [sample_transform])
        \<or> (\<exists>x \<in> set (recipe_preimages sample_factory [sample_transform]).
             \<exists>y \<in> set (recipe_preimages sample_factory [sample_transform]). sha256_collision x y))"
proof -
  obtain l where l: "Build (Some \<lparr>rc_factory = sample_factory, rc_transforms = [sample_transform]\<rparr>) = Inr l"
    using sample_build by blast
  have ts: "list_all constructed_transform [sample_transform]" using sample_constructed by simp
  from endpoint_determines_recipe [OF sample_constructed(1) ts sample_constructed(1) ts l l refl] l
  show ?thesis by blast
qed

text \<open>
  A factory root never has the id of a derived state, unless the factory's hash input
  collides with the state's: the hash domains keep them apart.
\<close>

theorem root_is_not_derived:
  assumes "constructed_factory f" and "constructed_transform t"
    and "FactoryState f = Inr root" and "Derive parent t = Inr step"
  shows "State_ID root \<noteq> State_ID (LineageStep_State step)
     \<or> sha256_collision (canonicalFactory (factory_identity f))
         (state_preimage parent (hashBytes (canonicalTransform (transform_identity t))))"
proof -
  have "is_digest parent" using assms(4) by (simp add: Derive_Inr)
  moreover have "State_ID root = root_id f"
    "State_ID (LineageStep_State step) = hashBytes (state_preimage parent (hashBytes (canonicalTransform (transform_identity t))))"
    using assms(3,4) by (auto simp: FactoryState_Inr Derive_Inr Let_def LineageStep_State_def State_ID_def derived_step_def)
  ultimately show ?thesis
    using root_not_derived [OF _ constructed_factory_wf [OF assms(1)], of parent "hashBytes (canonicalTransform (transform_identity t))"]
    by auto
qed

theorem root_is_not_derived_witness:
  "\<exists>root step. FactoryState sample_factory = Inr root \<and> Derive (root_id sample_factory) sample_transform = Inr step
     \<and> (State_ID root \<noteq> State_ID (LineageStep_State step)
        \<or> sha256_collision (canonicalFactory (factory_identity sample_factory))
            (state_preimage (root_id sample_factory)
              (hashBytes (canonicalTransform (transform_identity sample_transform)))))"
proof -
  obtain root where r: "FactoryState sample_factory = Inr root" by (simp add: FactoryState_Inr sample_factory_def)
  obtain step where d: "Derive (root_id sample_factory) sample_transform = Inr step"
    using constructed_transform_present [OF sample_constructed(2)] by (simp add: Derive_Inr)
  from root_is_not_derived [OF sample_constructed r d] r d show ?thesis by blast
qed

text \<open>
  Diagnostics are not identity: replacing the declarations and resolver observations of a
  recipe changes no state id and no fingerprint of its lineage.
\<close>

theorem diagnostics_do_not_change_ids:
  assumes "Build (Some \<lparr>rc_factory = f, rc_transforms = ts\<rparr>) = Inr (Some l)"
    and "Build (Some \<lparr>rc_factory = g, rc_transforms = us\<rparr>) = Inr (Some m)"
    and "factory_identity f = factory_identity g" and "map transform_identity ts = map transform_identity us"
  shows "rl_root l = rl_root m
     \<and> map LineageStep_State (rl_steps l) = map LineageStep_State (rl_steps m)
     \<and> map LineageStep_Fingerprint (rl_steps l) = map LineageStep_Fingerprint (rl_steps m)"
proof -
  have "map LineageStep_State (chain p ts) = map LineageStep_State (chain p us)
      \<and> map LineageStep_Fingerprint (chain p ts) = map LineageStep_Fingerprint (chain p us)" for p
    using assms(4)
  proof (induction ts arbitrary: us p)
    case (Cons t ts)
    then obtain u vs where us: "us = u # vs" "transform_identity t = transform_identity u"
      "map transform_identity ts = map transform_identity vs" by (cases us) auto
    with Cons.IH [of vs] show ?case
      by (simp add: us LineageStep_State_def LineageStep_Fingerprint_def derived_step_def Let_def)
  qed simp
  then show ?thesis using assms(1-3) by (auto simp: Build_Inr root_state_def)
qed

theorem diagnostics_do_not_change_ids_witness:
  "\<exists>l m. Build (Some \<lparr>rc_factory = sample_factory, rc_transforms = [sample_transform]\<rparr>) = Inr (Some l)
     \<and> Build (Some \<lparr>rc_factory = Some ((the sample_factory)
                       \<lparr>fp_resolver := Some \<lparr>ro_Implementation = ''r'', ro_Version = ''1''\<rparr>\<rparr>),
                     rc_transforms = [sample_transform]\<rparr>) = Inr (Some m)
     \<and> rl_factory l \<noteq> rl_factory m \<and> rl_root l = rl_root m
     \<and> map LineageStep_State (rl_steps l) = map LineageStep_State (rl_steps m)"
proof -
  let ?g = "Some ((the sample_factory) \<lparr>fp_resolver := Some \<lparr>ro_Implementation = ''r'', ro_Version = ''1''\<rparr>\<rparr>)"
  have id: "factory_identity sample_factory = factory_identity ?g"
    by (simp add: factory_identity_def sample_factory_def)
  obtain l m where l: "Build (Some \<lparr>rc_factory = sample_factory, rc_transforms = [sample_transform]\<rparr>) = Inr (Some l)"
    and m: "Build (Some \<lparr>rc_factory = ?g, rc_transforms = [sample_transform]\<rparr>) = Inr (Some m)"
    using constructed_transform_present [OF sample_constructed(2)] by (simp add: Build_Inr sample_factory_def)
  have "rl_factory l \<noteq> rl_factory m" using l m by (auto simp: Build_Inr sample_factory_def)
  with diagnostics_do_not_change_ids [OF l m id refl] l m show ?thesis by blast
qed

text \<open>
  Lineages compose.  Building a recipe is rooting it and extending the root; extending
  by two sequences in turn is extending by their concatenation, with the same steps.
\<close>

theorem lineage_composes:
  assumes "Extend anchor (xs @ ys) = Inr (Some whole)"
  shows "\<exists>front back. Extend anchor xs = Inr (Some front)
     \<and> Extend (RelativeLineage_EndpointID (Some front)) ys = Inr (Some back)
     \<and> re_steps whole = re_steps front @ re_steps back
     \<and> RelativeLineage_EndpointID (Some whole) = RelativeLineage_EndpointID (Some back)"
proof -
  have ok: "is_digest anchor" "length (xs @ ys) \<le> MaxTransforms" "list_all transform_present (xs @ ys)"
    and w: "whole = \<lparr>re_anchor = anchor, re_steps = chain anchor (xs @ ys)\<rparr>"
    using assms by (simp_all add: Extend_Inr)
  have f: "Extend anchor xs = Inr (Some \<lparr>re_anchor = anchor, re_steps = chain anchor xs\<rparr>)"
    using ok by (simp add: Extend_Inr)
  have b: "Extend (chain_end anchor xs) ys
      = Inr (Some \<lparr>re_anchor = chain_end anchor xs, re_steps = chain (chain_end anchor xs) ys\<rparr>)"
    using ok chain_end_digest by (simp add: Extend_Inr)
  have "RelativeLineage_EndpointID (Some whole) = chain_end anchor (xs @ ys)"
    by (rule Extend_endpoint) (use assms in simp)
  then show ?thesis using f b Extend_endpoint [OF f] Extend_endpoint [OF b] by (auto simp: w chain_append)
qed

theorem lineage_composes_witness:
  "\<exists>whole front back. Extend (root_id sample_factory) [sample_transform, sample_transform] = Inr (Some whole)
     \<and> Extend (root_id sample_factory) [sample_transform] = Inr (Some front)
     \<and> Extend (RelativeLineage_EndpointID (Some front)) [sample_transform] = Inr (Some back)
     \<and> re_steps whole = re_steps front @ re_steps back"
proof -
  obtain whole where w: "Extend (root_id sample_factory) ([sample_transform] @ [sample_transform]) = Inr (Some whole)"
    using constructed_transform_present [OF sample_constructed(2)] by (simp add: Extend_Inr limit_defs)
  from lineage_composes [OF w] w show ?thesis by auto
qed

text \<open>
  C2: decoding is verification.  Every lineage \<^verbatim>\<open>UnmarshalJSON\<close> accepts is the one \<^verbatim>\<open>Build\<close>
  derives from the decoded factory and transforms, or one of its steps carries a state
  whose declared transform fingerprint gives a colliding hash input.
\<close>

theorem decoded_lineage_is_built:
  assumes "RecipeLineage_UnmarshalJSON decoded = Inr l"
  shows "\<exists>d. l = Some d
     \<and> (Build (Some \<lparr>rc_factory = rl_factory d, rc_transforms = map LineageStep_Transform (rl_steps d)\<rparr>) = Inr l
        \<or> (\<exists>s. Some s \<in> set (rl_steps d)
             \<and> sha256_collision
                 (state_preimage (State_ParentID (ls_state s)) (State_TransformFingerprint (ls_state s)))
                 (state_preimage (State_ParentID (ls_state s)) (ls_fingerprint s))))"
proof -
  obtain d where d: "l = Some d" "rl_factory d \<noteq> None" "rl_root d = root_state (rl_factory d)"
    "list_all transform_present (map LineageStep_Transform (rl_steps d))"
    "rl_steps d = chain (root_id (rl_factory d)) (map LineageStep_Transform (rl_steps d))
       \<or> (\<exists>s. Some s \<in> set (rl_steps d) \<and> step_tampered s)"
    using RecipeLineage_sound [OF assms] by blast
  then show ?thesis
    by (auto simp: Build_Inr step_tampered_def recipeLineageData.equality)
qed

theorem decoded_lineage_is_built_witness:
  "\<exists>l d. Build (Some \<lparr>rc_factory = sample_factory, rc_transforms = [sample_transform]\<rparr>) = Inr l
     \<and> RecipeLineage_UnmarshalJSON (RecipeLineage_MarshalJSON l) = Inr l \<and> l = Some d
     \<and> (Build (Some \<lparr>rc_factory = rl_factory d, rc_transforms = map LineageStep_Transform (rl_steps d)\<rparr>) = Inr l
        \<or> (\<exists>s. Some s \<in> set (rl_steps d)
             \<and> sha256_collision
                 (state_preimage (State_ParentID (ls_state s)) (State_TransformFingerprint (ls_state s)))
                 (state_preimage (State_ParentID (ls_state s)) (ls_fingerprint s))))"
proof -
  obtain l where l: "Build (Some \<lparr>rc_factory = sample_factory, rc_transforms = [sample_transform]\<rparr>) = Inr l"
    using sample_build by blast
  have ts: "list_all constructed_transform [sample_transform]" using sample_constructed by simp
  have "RecipeLineage_UnmarshalJSON (RecipeLineage_MarshalJSON l) = Inr l"
    by (rule lineage_roundtrip [OF sample_constructed(1) ts l])
  from decoded_lineage_is_built [OF this] this l show ?thesis by blast
qed

text \<open>every built lineage survives its wire form unchanged.\<close>

theorem lineage_wire_roundtrip:
  assumes "constructed_factory f" and "list_all constructed_transform ts"
    and "Build (Some \<lparr>rc_factory = f, rc_transforms = ts\<rparr>) = Inr l"
  shows "RecipeLineage_UnmarshalJSON (RecipeLineage_MarshalJSON l) = Inr l"
  using assms by (rule lineage_roundtrip)

theorem lineage_wire_roundtrip_witness:
  "\<exists>l. Build (Some \<lparr>rc_factory = sample_factory, rc_transforms = [sample_transform]\<rparr>) = Inr l
     \<and> RecipeLineage_UnmarshalJSON (RecipeLineage_MarshalJSON l) = Inr l"
  using sample_build lineage_wire_roundtrip [OF sample_constructed(1), of "[sample_transform]"] sample_constructed(2)
  by fastforce

text \<open>
  The order of the fields given to an identity constructor does not matter: every
  permutation is accepted with the same result, and with distinct names nothing is lost.
\<close>

theorem identity_field_order:
  assumes "NewFactoryIdentity input = Inr i" and "mset flds = mset (fi_Fields input)"
  shows "NewFactoryIdentity (input\<lparr>fi_Fields := flds\<rparr>) = Inr i \<and> mset (identity_Fields i) = mset flds"
proof -
  obtain d where d: "newIdentity input = Inr d" "i = Some d"
    using assms(1) by (auto simp: NewFactoryIdentity_def res_simps)
  then have ok: "identity_input_ok input" by (simp add: newIdentity_Inr)
  have srt: "sort_key rf_Name flds = sort_key rf_Name (fi_Fields input)"
    by (rule fields_ok_sort_perm [of MaxResolvedValueBytes, OF _ assms(2)]) (use ok in \<open>simp add: identity_input_ok_def\<close>)
  have "identity_input_ok (input\<lparr>fi_Fields := flds\<rparr>)"
    using ok fields_ok_mset [OF assms(2)] mset_eq_length [OF assms(2)] by (simp add: identity_input_ok_def)
  then have "newIdentity (input\<lparr>fi_Fields := flds\<rparr>) = Inr d"
    using d(1) srt by (simp add: newIdentity_Inr)
  moreover have "mset (id_fields d) = mset flds" using d(1) assms(2) by (auto simp: newIdentity_Inr)
  ultimately show ?thesis using d(2) by (simp add: NewFactoryIdentity_def identity_Fields_def)
qed

theorem identity_field_order_witness:
  "NewFactoryIdentity ((sample_input ''image'')
      \<lparr>fi_Fields := [\<lparr>rf_Name = ''a'', rf_Value = ''1''\<rparr>, \<lparr>rf_Name = ''b'', rf_Value = ''2''\<rparr>]\<rparr>)
     = Inr (Some (sample_identity ''image''))"
proof -
  have "NewFactoryIdentity (sample_input ''image'') = Inr (Some (sample_identity ''image''))"
    by (simp add: NewFactoryIdentity_def sample_identity_new identifier_image)
  from identity_field_order [OF this, of "[\<lparr>rf_Name = ''a'', rf_Value = ''1''\<rparr>, \<lparr>rf_Name = ''b'', rf_Value = ''2''\<rparr>]"]
  show ?thesis by (simp add: sample_input_def)
qed

text \<open>
  The fields composed from a base and extension bindings determine both: the base
  fields as a multiset and, for every binding, its name and the identity bound to it, up
  to a collision of the two extensions' hash inputs.
\<close>

theorem composition_determines_bindings:
  assumes "ComposeResolvedFields base bs = Inr out" and "ComposeResolvedFields base' bs' = Inr out"
    and "\<forall>b \<in> set bs \<union> set bs'. \<exists>input. NewResolvedExtensionIdentity input = Inr (eb_Identity b)"
    and "b \<in> set bs"
  shows "mset base = mset base' \<and> (\<exists>b' \<in> set bs'. eb_Name b = eb_Name b' \<and> (eb_Identity b = eb_Identity b' \<or>
     sha256_collision (canonicalExtension (the (eb_Identity b))) (canonicalExtension (the (eb_Identity b')))))"
proof -
  have wf: "\<exists>d. eb_Identity c = Some d \<and> extension_wf d" if "c \<in> set bs \<union> set bs'" for c
    using assms(3) that NewResolvedExtensionIdentity_wf by blast
  have "mset (map bound_field bs) = mset (map bound_field bs')"
    using compose_split(2) [OF assms(1)] compose_split(2) [OF assms(2)] by simp
  then have "bound_field ` set bs = bound_field ` set bs'" by (metis list.set_map set_mset_mset)
  then obtain b' where b': "b' \<in> set bs'" "bound_field b = bound_field b'" using assms(4) by blast
  have "eb_Name b = eb_Name b' \<and> (eb_Identity b = eb_Identity b' \<or>
     sha256_collision (canonicalExtension (the (eb_Identity b))) (canonicalExtension (the (eb_Identity b'))))"
    by (rule bound_field_eqD [OF b'(2)]) (use wf [of b] wf [of b'] assms(4) b'(1) in auto)
  then show ?thesis using b'(1) compose_split(1) [OF assms(1)] compose_split(1) [OF assms(2)] by auto
qed

definition sample_binding :: "bytes \<Rightarrow> ExtensionBinding" where
  "sample_binding name = \<lparr>eb_Name = name, eb_Identity = Some
     \<lparr>xd_schemaVersion = SchemaVersion, xd_owner = ''o'', xd_kind = ''k'', xd_identitySchema = ''s'', xd_fields = []\<rparr>\<rparr>"

lemma sample_binding_new:
  "NewResolvedExtensionIdentity \<lparr>xi_SchemaVersion = SchemaVersion, xi_Owner = ''o'', xi_Kind = ''k'',
     xi_IdentitySchema = ''s'', xi_Fields = []\<rparr> = Inr (eb_Identity (sample_binding name))"
  by (simp add: NewResolvedExtensionIdentity_Inr sample_binding_def fields_ok_def
      identifierPattern_def is_lower_alpha_def is_ident_byte_def in_range_def limit_defs)

theorem composition_determines_bindings_witness:
  "\<exists>out. ComposeResolvedFields [\<lparr>rf_Name = ''a'', rf_Value = ''1''\<rparr>] [sample_binding ''x''] = Inr out
     \<and> (\<exists>b' \<in> set [sample_binding ''x'']. eb_Name (sample_binding ''x'') = eb_Name b' \<and>
          (eb_Identity (sample_binding ''x'') = eb_Identity b' \<or>
           sha256_collision (canonicalExtension (the (eb_Identity (sample_binding ''x''))))
             (canonicalExtension (the (eb_Identity b')))))"
proof -
  have "\<exists>out. ComposeResolvedFields [\<lparr>rf_Name = ''a'', rf_Value = ''1''\<rparr>] [sample_binding ''x''] = Inr out"
    by (simp add: ComposeResolvedFields_Inr HasPrefix_def field_ok_def sample_binding_def limit_defs
        identifierPattern_def is_lower_alpha_def is_ident_byte_def in_range_def)
  then obtain out where out: "ComposeResolvedFields [\<lparr>rf_Name = ''a'', rf_Value = ''1''\<rparr>] [sample_binding ''x''] = Inr out"
    by blast
  have "\<forall>b \<in> set [sample_binding ''x''] \<union> set [sample_binding ''x''].
      \<exists>input. NewResolvedExtensionIdentity input = Inr (eb_Identity b)"
    using sample_binding_new by auto
  from composition_determines_bindings [OF out out this, of "sample_binding ''x''"] out show ?thesis by auto
qed

end
