(* ===== verification/Engine_Store.thy ===== *)
theory Engine_Store
  imports Go_Text
begin

text \<open>
  The local engine's store: the entries of \<^verbatim>\<open>internal/store/store.go\<close>, the three tables of
  \<^verbatim>\<open>internal/store/sqlite/schema.sql\<close>, and the statements of
  \<^verbatim>\<open>internal/store/sqlite/store.go\<close> on them, with \<^verbatim>\<open>internal/id\<close> and \<^verbatim>\<open>internal/registry\<close>, which
  looks instances up by id or name.

  A table is the list of its rows in storage order.  A query without \<^verbatim>\<open>ORDER BY\<close> returns
  them in that order.  The foreign key of \<^verbatim>\<open>instances\<close> is enforced (\<^verbatim>\<open>PRAGMA foreign_keys = ON\<close>):
  deleting a state some instance refers to fails.  \<^verbatim>\<open>parent_state_id\<close> has no foreign key.
  Whether an expiry time lies before the current time is an argument of the queries that
  report a status: the engine's clock and \<^verbatim>\<open>time.Parse\<close> are outside the model.
\<close>

subsection \<open>Entries (store.go)\<close>

record NameEntry =
  ne_Name :: bytes
  ne_InstanceID :: "bytes option"
  ne_ImageID :: bytes
  ne_StateID :: bytes
  ne_StateFingerprint :: bytes
  ne_Status :: bytes
  ne_LastUsedAt :: "bytes option"

record InstanceEntry =
  ie_InstanceID :: bytes
  ie_ImageID :: bytes
  ie_StateID :: bytes
  ie_Name :: "bytes option"
  ie_CreatedAt :: bytes
  ie_ExpiresAt :: "bytes option"
  ie_RuntimeID :: "bytes option"
  ie_RuntimeDir :: "bytes option"
  ie_Status :: bytes

record StateEntry =
  se_LineageRef :: bytes
  se_IdentityDigest :: bytes
  se_StateID :: bytes
  se_ParentStateID :: "bytes option"
  se_ImageID :: bytes
  se_PrepareKind :: bytes
  se_PrepareArgs :: bytes
  se_CreatedAt :: bytes
  se_SizeBytes :: "int option"
  se_LastUsedAt :: "bytes option"
  se_UseCount :: "int option"
  se_MinRetentionUntil :: "bytes option"
  se_RefCount :: nat

record StateCreate =
  sc_LineageRef :: bytes
  sc_IdentityDigest :: bytes
  sc_StateID :: bytes
  sc_ParentStateID :: "bytes option"
  sc_StateFingerprint :: bytes
  sc_ImageID :: bytes
  sc_PrepareKind :: bytes
  sc_PrepareArgsNormalized :: bytes
  sc_CreatedAt :: bytes
  sc_SizeBytes :: "int option"
  sc_Status :: "bytes option"

record InstanceCreate =
  ic_InstanceID :: bytes
  ic_StateID :: bytes
  ic_ImageID :: bytes
  ic_CreatedAt :: bytes
  ic_ExpiresAt :: "bytes option"
  ic_Status :: "bytes option"
  ic_RuntimeID :: "bytes option"
  ic_RuntimeDir :: "bytes option"

record NameFilters =
  nf_InstanceID :: bytes
  nf_StateID :: bytes
  nf_ImageID :: bytes

record InstanceFilters =
  if_StateID :: bytes
  if_ImageID :: bytes
  if_IDPrefix :: bytes

record StateFilters =
  sf_Kind :: bytes
  sf_ImageID :: bytes
  sf_IDPrefix :: bytes
  sf_ParentID :: bytes

subsection \<open>Tables (schema.sql)\<close>

record StateRow =
  sr_state_id :: bytes
  sr_parent_state_id :: "bytes option"
  sr_state_fingerprint :: bytes
  sr_image_id :: bytes
  sr_prepare_kind :: bytes
  sr_prepare_args :: bytes
  sr_created_at :: bytes
  sr_size_bytes :: "int option"
  sr_last_used_at :: "bytes option"
  sr_use_count :: "int option"
  sr_min_retention_until :: "bytes option"
  sr_status :: "bytes option"
  sr_lineage_ref :: bytes
  sr_identity_digest :: bytes

record InstanceRow =
  ir_instance_id :: bytes
  ir_state_id :: bytes
  ir_image_id :: bytes
  ir_created_at :: bytes
  ir_expires_at :: "bytes option"
  ir_runtime_id :: "bytes option"
  ir_runtime_dir :: "bytes option"
  ir_status :: "bytes option"

record NameRow =
  nr_name :: bytes
  nr_instance_id :: "bytes option"
  nr_state_id :: "bytes option"
  nr_state_fingerprint :: bytes
  nr_image_id :: bytes
  nr_last_used_at :: "bytes option"
  nr_is_primary :: bool

record database =
  db_states :: "StateRow list"
  db_instances :: "InstanceRow list"
  db_names :: "NameRow list"

subsection \<open>Filters\<close>

definition addFilter :: "bytes \<Rightarrow> bytes option \<Rightarrow> bool" where
  "addFilter value column \<longleftrightarrow> TrimSpace value = [] \<or> column = Some (TrimSpace value)"

text \<open>
  SQL's \<^verbatim>\<open>LIKE\<close>, in which a percent sign stands for any text and an underscore for any one
  character, also when they come from the caller's prefix.
\<close>

fun sql_like :: "bytes \<Rightarrow> bytes \<Rightarrow> bool" where
  "sql_like [] s = (s = [])"
| "sql_like (p # ps) [] = (p = CHR ''%'' \<and> sql_like ps [])"
| "sql_like (p # ps) (c # s) =
     (if p = CHR ''%'' then sql_like ps (c # s) \<or> sql_like (p # ps) s
      else (p = CHR ''_'' \<or> lower_byte p = lower_byte c) \<and> sql_like ps s)"

definition addPrefixFilter :: "bytes \<Rightarrow> bytes \<Rightarrow> bool" where
  "addPrefixFilter value column \<longleftrightarrow>
     TrimSpace value = [] \<or> sql_like (ToLower (TrimSpace value) @ ''%'') (ToLower column)"

subsection \<open>States\<close>

definition nonblank :: "bytes option \<Rightarrow> bytes option" where
  "nonblank v = (case v of Some s \<Rightarrow> if TrimSpace s \<noteq> [] then Some s else None | None \<Rightarrow> None)"

definition state_entry :: "database \<Rightarrow> StateRow \<Rightarrow> StateEntry" where
  "state_entry db r =
     \<lparr>se_LineageRef = sr_lineage_ref r, se_IdentityDigest = sr_identity_digest r,
      se_StateID = sr_state_id r, se_ParentStateID = nonblank (sr_parent_state_id r),
      se_ImageID = sr_image_id r, se_PrepareKind = sr_prepare_kind r, se_PrepareArgs = sr_prepare_args r,
      se_CreatedAt = sr_created_at r, se_SizeBytes = sr_size_bytes r,
      se_LastUsedAt = nonblank (sr_last_used_at r), se_UseCount = sr_use_count r,
      se_MinRetentionUntil = nonblank (sr_min_retention_until r),
      se_RefCount = length (filter (\<lambda>i. ir_state_id i = sr_state_id r) (db_instances db))\<rparr>"

definition ListStates :: "StateFilters \<Rightarrow> database \<Rightarrow> StateEntry list" where
  "ListStates filters db =
     map (state_entry db)
       (filter (\<lambda>r. addFilter (sf_Kind filters) (Some (sr_prepare_kind r))
          \<and> addFilter (sf_ImageID filters) (Some (sr_image_id r))
          \<and> addFilter (sf_ParentID filters) (sr_parent_state_id r)
          \<and> addPrefixFilter (sf_IDPrefix filters) (sr_state_id r)) (db_states db))"

definition GetState :: "bytes \<Rightarrow> database \<Rightarrow> StateEntry option" where
  "GetState stateID db =
     map_option (state_entry db) (find (\<lambda>r. sr_state_id r = stateID) (db_states db))"

text \<open>
  \<^verbatim>\<open>INSERT OR IGNORE\<close>: nothing happens when the primary key or the unique fingerprint is taken.
\<close>

definition CreateState :: "StateCreate \<Rightarrow> database \<Rightarrow> database" where
  "CreateState entry db =
     (if sc_StateID entry \<in> sr_state_id ` set (db_states db)
         \<or> sc_StateFingerprint entry \<in> sr_state_fingerprint ` set (db_states db)
      then db
      else db\<lparr>db_states := db_states db @
        [\<lparr>sr_state_id = sc_StateID entry, sr_parent_state_id = sc_ParentStateID entry,
          sr_state_fingerprint = sc_StateFingerprint entry, sr_image_id = sc_ImageID entry,
          sr_prepare_kind = sc_PrepareKind entry, sr_prepare_args = sc_PrepareArgsNormalized entry,
          sr_created_at = sc_CreatedAt entry, sr_size_bytes = sc_SizeBytes entry,
          sr_last_used_at = Some (sc_CreatedAt entry), sr_use_count = Some 0,
          sr_min_retention_until = None, sr_status = sc_Status entry,
          sr_lineage_ref = sc_LineageRef entry, sr_identity_digest = sc_IdentityDigest entry\<rparr>]\<rparr>)"

definition UpdateStateSize :: "bytes \<Rightarrow> int \<Rightarrow> database \<Rightarrow> database" where
  "UpdateStateSize stateID sizeBytes db =
     db\<lparr>db_states := map (\<lambda>r.
        if sr_state_id r = stateID \<and> (case sr_size_bytes r of None \<Rightarrow> True | Some n \<Rightarrow> n \<le> 0)
        then r\<lparr>sr_size_bytes := Some sizeBytes\<rparr> else r) (db_states db)\<rparr>"

text \<open>\<open>None\<close> is the foreign-key error, which leaves the table as it was.\<close>

definition DeleteState :: "bytes \<Rightarrow> database \<Rightarrow> database option" where
  "DeleteState stateID db =
     (if (\<exists>r \<in> set (db_states db). sr_state_id r = stateID)
         \<and> (\<exists>i \<in> set (db_instances db). ir_state_id i = stateID) then None
      else Some (db\<lparr>db_states := filter (\<lambda>r. sr_state_id r \<noteq> stateID) (db_states db)\<rparr>))"

subsection \<open>Instances\<close>

text \<open>
  The left join with the primary names: nothing keeps an instance from having several of
  them, and it then has several rows in the result.
\<close>

definition primary_names :: "database \<Rightarrow> bytes \<Rightarrow> bytes option list" where
  "primary_names db instanceID =
     (case filter (\<lambda>n. nr_instance_id n = Some instanceID \<and> nr_is_primary n) (db_names db) of
        [] \<Rightarrow> [None]
      | ns \<Rightarrow> map (\<lambda>n. Some (nr_name n)) ns)"

definition scanInstance :: "(bytes option \<Rightarrow> bool) \<Rightarrow> database \<Rightarrow> InstanceRow \<Rightarrow> bytes option \<Rightarrow> InstanceEntry" where
  "scanInstance isExpired db r name =
     (let nameCount = length (filter (\<lambda>n. nr_instance_id n = Some (ir_instance_id r)) (db_names db));
          status = (if ir_expires_at r \<noteq> None \<and> isExpired (ir_expires_at r) then ''expired'' else ''active'') in
      \<lparr>ie_InstanceID = ir_instance_id r, ie_ImageID = ir_image_id r, ie_StateID = ir_state_id r,
       ie_Name = name, ie_CreatedAt = ir_created_at r,
       ie_ExpiresAt = ir_expires_at r, ie_RuntimeID = ir_runtime_id r, ie_RuntimeDir = ir_runtime_dir r,
       ie_Status = (if status \<noteq> ''expired'' \<and> nameCount = 0 then ''orphaned'' else status)\<rparr>)"

definition instance_entries :: "(bytes option \<Rightarrow> bool) \<Rightarrow> database \<Rightarrow> InstanceRow \<Rightarrow> InstanceEntry list" where
  "instance_entries isExpired db r = map (scanInstance isExpired db r) (primary_names db (ir_instance_id r))"

definition ListInstances ::
    "(bytes option \<Rightarrow> bool) \<Rightarrow> InstanceFilters \<Rightarrow> database \<Rightarrow> InstanceEntry list" where
  "ListInstances isExpired filters db =
     concat (map (instance_entries isExpired db)
       (filter (\<lambda>r. addFilter (if_StateID filters) (Some (ir_state_id r))
          \<and> addFilter (if_ImageID filters) (Some (ir_image_id r))
          \<and> addPrefixFilter (if_IDPrefix filters) (ir_instance_id r)) (db_instances db)))"

text \<open>\<^verbatim>\<open>QueryRow\<close> takes the first row.\<close>

definition GetInstance :: "(bytes option \<Rightarrow> bool) \<Rightarrow> bytes \<Rightarrow> database \<Rightarrow> InstanceEntry option" where
  "GetInstance isExpired instanceID db =
     (case concat (map (instance_entries isExpired db) (filter (\<lambda>r. ir_instance_id r = instanceID) (db_instances db))) of
        [] \<Rightarrow> None
      | entry # _ \<Rightarrow> Some entry)"

text \<open>
  The insert and the update of the state's usage are one transaction; a taken instance id
  or a missing state makes it fail as a whole.
\<close>

definition CreateInstance :: "InstanceCreate \<Rightarrow> database \<Rightarrow> database option" where
  "CreateInstance entry db =
     (if ic_InstanceID entry \<in> ir_instance_id ` set (db_instances db)
         \<or> ic_StateID entry \<notin> sr_state_id ` set (db_states db)
      then None
      else Some (db\<lparr>db_instances := db_instances db @
          [\<lparr>ir_instance_id = ic_InstanceID entry, ir_state_id = ic_StateID entry,
            ir_image_id = ic_ImageID entry, ir_created_at = ic_CreatedAt entry,
            ir_expires_at = ic_ExpiresAt entry, ir_runtime_id = ic_RuntimeID entry,
            ir_runtime_dir = ic_RuntimeDir entry, ir_status = ic_Status entry\<rparr>],
        db_states := map (\<lambda>r. if sr_state_id r = ic_StateID entry
          then r\<lparr>sr_last_used_at := Some (ic_CreatedAt entry),
                 sr_use_count := Some ((case sr_use_count r of None \<Rightarrow> 0 | Some n \<Rightarrow> n) + 1)\<rparr>
          else r) (db_states db)\<rparr>))"

definition DeleteInstance :: "bytes \<Rightarrow> database \<Rightarrow> database" where
  "DeleteInstance instanceID db =
     db\<lparr>db_instances := filter (\<lambda>r. ir_instance_id r \<noteq> instanceID) (db_instances db)\<rparr>"

definition UpdateInstanceRuntime :: "bytes \<Rightarrow> bytes option \<Rightarrow> database \<Rightarrow> database" where
  "UpdateInstanceRuntime instanceID runtimeID db =
     (let value = (case runtimeID of None \<Rightarrow> None
                   | Some r \<Rightarrow> if TrimSpace r \<noteq> [] then Some (TrimSpace r) else None) in
      db\<lparr>db_instances := map (\<lambda>r. if ir_instance_id r = instanceID
          then r\<lparr>ir_runtime_id := value\<rparr> else r) (db_instances db)\<rparr>)"

subsection \<open>Names\<close>

definition scanName :: "(bytes option \<Rightarrow> bool) \<Rightarrow> database \<Rightarrow> NameRow \<Rightarrow> NameEntry" where
  "scanName isExpired db n =
     (let joined = (case nr_instance_id n of None \<Rightarrow> None
                    | Some iid \<Rightarrow> find (\<lambda>i. ir_instance_id i = iid) (db_instances db)) in
      \<lparr>ne_Name = nr_name n, ne_InstanceID = nr_instance_id n, ne_ImageID = nr_image_id n,
       ne_StateID = (case nr_state_id n of Some s \<Rightarrow> if s \<noteq> [] then s else nr_state_fingerprint n
                     | None \<Rightarrow> nr_state_fingerprint n),
       ne_StateFingerprint = nr_state_fingerprint n,
       ne_Status = (case joined of None \<Rightarrow> ''missing''
                    | Some i \<Rightarrow> if isExpired (ir_expires_at i) then ''expired'' else ''active''),
       ne_LastUsedAt = nr_last_used_at n\<rparr>)"

definition ListNames :: "(bytes option \<Rightarrow> bool) \<Rightarrow> NameFilters \<Rightarrow> database \<Rightarrow> NameEntry list" where
  "ListNames isExpired filters db =
     map (scanName isExpired db)
       (filter (\<lambda>n. addFilter (nf_InstanceID filters) (nr_instance_id n)
          \<and> addFilter (nf_StateID filters) (nr_state_id n)
          \<and> addFilter (nf_ImageID filters) (Some (nr_image_id n))) (db_names db))"

definition GetName :: "(bytes option \<Rightarrow> bool) \<Rightarrow> bytes \<Rightarrow> database \<Rightarrow> NameEntry option" where
  "GetName isExpired name db =
     map_option (scanName isExpired db) (find (\<lambda>n. nr_name n = name) (db_names db))"

subsection \<open>Registry (internal/id, internal/registry)\<close>

definition IsInstanceID :: "bytes \<Rightarrow> bool" where
  "IsInstanceID value \<longleftrightarrow> length value = 32
     \<and> list_all (\<lambda>c. in_range 48 57 c \<or> in_range 97 102 c \<or> in_range 65 70 c) value"

definition getInstanceByName :: "(bytes option \<Rightarrow> bool) \<Rightarrow> bytes \<Rightarrow> database \<Rightarrow> InstanceEntry option" where
  "getInstanceByName isExpired name db =
     (case GetName isExpired name db of None \<Rightarrow> None
      | Some entry \<Rightarrow>
         (case ne_InstanceID entry of None \<Rightarrow> None
          | Some iid \<Rightarrow> GetInstance isExpired iid db))"

text \<open>The result carries whether the entry was found through its name.\<close>

definition Registry_GetInstance ::
    "(bytes option \<Rightarrow> bool) \<Rightarrow> bytes \<Rightarrow> database \<Rightarrow> (InstanceEntry \<times> bool) option" where
  "Registry_GetInstance isExpired idOrName db =
     (let value = TrimSpace idOrName in
      if value = [] then None
      else if IsInstanceID value then
        (case GetInstance isExpired value db of
           Some entry \<Rightarrow> Some (entry, False)
         | None \<Rightarrow> map_option (\<lambda>entry. (entry, True)) (getInstanceByName isExpired value db))
      else map_option (\<lambda>entry. (entry, True)) (getInstanceByName isExpired value db))"

definition Registry_GetName :: "(bytes option \<Rightarrow> bool) \<Rightarrow> bytes \<Rightarrow> database \<Rightarrow> NameEntry option" where
  "Registry_GetName isExpired name db = GetName isExpired (TrimSpace name) db"

definition Registry_GetState :: "bytes \<Rightarrow> database \<Rightarrow> StateEntry option" where
  "Registry_GetState stateID db = GetState (TrimSpace stateID) db"

subsection \<open>The invariant of the tables\<close>

definition db_wf :: "database \<Rightarrow> bool" where
  "db_wf db \<longleftrightarrow> distinct (map sr_state_id (db_states db)) \<and> distinct (map sr_state_fingerprint (db_states db))
     \<and> distinct (map ir_instance_id (db_instances db))
     \<and> (\<forall>i \<in> set (db_instances db). ir_state_id i \<in> sr_state_id ` set (db_states db))"

lemma map_key_update:
  "\<forall>r. key (f r) = key r \<Longrightarrow> map key (map (\<lambda>r. if P r then f r else r) xs) = map key xs"
  by (induction xs) simp_all

lemma image_key_update:
  "\<forall>r. key (f r) = key r \<Longrightarrow> key ` set (map (\<lambda>r. if P r then f r else r) xs) = key ` set xs"
  by (metis map_key_update list.set_map)

lemma CreateState_wf: "db_wf db \<Longrightarrow> db_wf (CreateState e db)"
  by (auto simp: db_wf_def CreateState_def)

lemma UpdateStateSize_wf: "db_wf db \<Longrightarrow> db_wf (UpdateStateSize s n db)"
  unfolding db_wf_def UpdateStateSize_def
  by (simp add: map_key_update image_key_update del: map_map list.map_comp set_map list.set_map)

lemma DeleteState_wf:
  assumes "db_wf db" and "DeleteState s db = Some db'"
  shows "db_wf db'"
proof -
  have db': "db' = db\<lparr>db_states := filter (\<lambda>r. sr_state_id r \<noteq> s) (db_states db)\<rparr>"
    and free: "(\<forall>r \<in> set (db_states db). sr_state_id r \<noteq> s) \<or> (\<forall>i \<in> set (db_instances db). ir_state_id i \<noteq> s)"
    using assms(2) by (auto simp: DeleteState_def split: if_splits)
  have "ir_state_id i \<in> sr_state_id ` {r \<in> set (db_states db). sr_state_id r \<noteq> s}" if i: "i \<in> set (db_instances db)" for i
  proof -
    obtain r where "r \<in> set (db_states db)" "ir_state_id i = sr_state_id r"
      using assms(1) i by (auto simp: db_wf_def)
    then show ?thesis using free i by auto
  qed
  then show ?thesis using assms(1) by (auto simp: db_wf_def db' distinct_map_filter)
qed

lemma CreateInstance_wf:
  assumes "db_wf db" and "CreateInstance e db = Some db'"
  shows "db_wf db'"
proof -
  have new: "ic_InstanceID e \<notin> ir_instance_id ` set (db_instances db)" "ic_StateID e \<in> sr_state_id ` set (db_states db)"
    and ids: "map ir_instance_id (db_instances db') = map ir_instance_id (db_instances db) @ [ic_InstanceID e]"
    and refs: "ir_state_id ` set (db_instances db') = insert (ic_StateID e) (ir_state_id ` set (db_instances db))"
    and keys: "map sr_state_id (db_states db') = map sr_state_id (db_states db)"
      "map sr_state_fingerprint (db_states db') = map sr_state_fingerprint (db_states db)"
    using assms(2) by (auto simp: CreateInstance_def comp_def split: if_splits)
  have "sr_state_id ` set (db_states db') = sr_state_id ` set (db_states db)"
    using keys(1) by (metis list.set_map)
  moreover have "distinct (map ir_instance_id (db_instances db'))"
    using assms(1) new(1) by (simp add: ids db_wf_def)
  moreover have "ir_state_id ` set (db_instances db') \<subseteq> sr_state_id ` set (db_states db)"
    using assms(1) new(2) by (auto simp: refs db_wf_def)
  ultimately show ?thesis using assms(1) by (auto simp: db_wf_def keys)
qed

lemma DeleteInstance_wf: "db_wf db \<Longrightarrow> db_wf (DeleteInstance i db)"
  by (auto simp: db_wf_def DeleteInstance_def distinct_map_filter)

lemma UpdateInstanceRuntime_wf:
  assumes "db_wf db"
  shows "db_wf (UpdateInstanceRuntime i r db)"
proof -
  define v where "v = (case r of None \<Rightarrow> None | Some r \<Rightarrow> if TrimSpace r \<noteq> [] then Some (TrimSpace r) else None)"
  have "UpdateInstanceRuntime i r db = db\<lparr>db_instances := map (\<lambda>r. if ir_instance_id r = i
      then r\<lparr>ir_runtime_id := v\<rparr> else r) (db_instances db)\<rparr>"
    by (simp add: UpdateInstanceRuntime_def Let_def v_def)
  moreover have "\<forall>x \<in> set (map (\<lambda>r. if ir_instance_id r = i then r\<lparr>ir_runtime_id := v\<rparr> else r) (db_instances db)).
      \<exists>y \<in> set (db_instances db). ir_state_id x = ir_state_id y"
    by auto
  ultimately show ?thesis
    using assms unfolding db_wf_def
    by (fastforce simp: map_key_update simp del: map_map list.map_comp set_map list.set_map)
qed

end
