(* ===== verification/Managed_Identity.thy ===== *)
theory Managed_Identity
  imports Canonical_Encoding
begin

text \<open>
  \<^verbatim>\<open>internal/managedidentity/identity.go\<close> and \<^verbatim>\<open>runtime.go\<close>: the administrative identity of a database
  lineage, its digest, generation from entropy, and the key of a base.  The lemmas
  show that the length-delimited hashes determine their fields up to an explicit
  SHA-256 collision, and that what \<^verbatim>\<open>Generate\<close> yields is valid.
\<close>

subsection \<open>Patterns\<close>

definition is_alnum :: "byte \<Rightarrow> bool" where
  "is_alnum c \<longleftrightarrow> in_range 65 90 c \<or> in_range 97 122 c \<or> in_range 48 57 c"

definition is_ref_byte :: "byte \<Rightarrow> bool" where
  "is_ref_byte c \<longleftrightarrow> is_alnum c \<or> c = CHR ''.'' \<or> c = CHR ''_'' \<or> c = CHR ''-''"

definition is_lower_hex :: "byte \<Rightarrow> bool" where
  "is_lower_hex c \<longleftrightarrow> in_range 48 57 c \<or> in_range 97 102 c"

definition referencePattern :: "bytes \<Rightarrow> bool" where
  "referencePattern s \<longleftrightarrow> (case s of [] \<Rightarrow> False
     | c # cs \<Rightarrow> is_alnum c \<and> length cs \<le> 127 \<and> list_all is_ref_byte cs)"

definition usernamePattern :: "bytes \<Rightarrow> bool" where
  "usernamePattern s \<longleftrightarrow> HasPrefix s ''sqlrs_admin_'' \<and> length s = 44 \<and> list_all is_lower_hex (drop 12 s)"

definition imagePattern :: "bytes \<Rightarrow> bool" where
  "imagePattern s \<longleftrightarrow> HasPrefix s ''sha256:'' \<and> length s = 71 \<and> list_all is_lower_hex (drop 7 s)"

definition digestPattern :: "bytes \<Rightarrow> bool" where
  "digestPattern s \<longleftrightarrow> length s = 64 \<and> list_all is_lower_hex s"

subsection \<open>Selectors and identities\<close>

datatype identityError = IdentityInvalid | IdentityUnavailable | IdentityNotFound

definition PolicyVersion :: bytes where
  "PolicyVersion = ''postgres-managed-identity.v1''"

record BaseSelector =
  bs_DomainRef :: bytes
  bs_EngineKind :: bytes
  bs_ImageDigest :: bytes
  bs_InitSpecDigest :: bytes
  bs_PolicyVersion :: bytes

definition BaseSelector_Validate :: "BaseSelector \<Rightarrow> bool" where
  "BaseSelector_Validate s \<longleftrightarrow> referencePattern (bs_DomainRef s) \<and> bs_EngineKind s = ''postgres''
     \<and> bs_PolicyVersion s = PolicyVersion \<and> imagePattern (bs_ImageDigest s) \<and> digestPattern (bs_InitSpecDigest s)"

record ManagedIdentity =
  mi_LineageRef :: bytes
  mi_EngineKind :: bytes
  mi_PolicyVersion :: bytes
  mi_Username :: bytes

record IdentityBinding =
  ib_ManagedIdentity :: ManagedIdentity
  ib_IdentityDigest :: bytes

text \<open>The loop shared by \<^verbatim>\<open>Digest\<close> and \<^verbatim>\<open>BaseKey\<close>: each field preceded by its length.\<close>

definition hash_fields :: "bytes list \<Rightarrow> bytes" where
  "hash_fields flds = hex_EncodeToString (Sum256 (concat (map encodeBytes flds)))"

definition ManagedIdentity_Digest :: "ManagedIdentity \<Rightarrow> bytes" where
  "ManagedIdentity_Digest i = hash_fields
     [''managed-identity-binding.v1'', mi_LineageRef i, mi_EngineKind i, mi_PolicyVersion i, mi_Username i]"

definition IdentityBinding_Validate :: "IdentityBinding \<Rightarrow> bool" where
  "IdentityBinding_Validate b \<longleftrightarrow>
     referencePattern (mi_LineageRef (ib_ManagedIdentity b)) \<and> mi_EngineKind (ib_ManagedIdentity b) = ''postgres''
     \<and> mi_PolicyVersion (ib_ManagedIdentity b) = PolicyVersion \<and> usernamePattern (mi_Username (ib_ManagedIdentity b))
     \<and> ib_IdentityDigest b = ManagedIdentity_Digest (ib_ManagedIdentity b)"

text \<open>
  The argument is what the entropy source delivered before it ended or failed; exactly
  sixteen bytes are needed.
\<close>

definition Generate :: "bytes \<Rightarrow> identityError + IdentityBinding" where
  "Generate source =
     (if length source < 16 then Inl IdentityUnavailable
      else let suffix = hex_EncodeToString (take 16 source);
               identity = \<lparr>mi_LineageRef = ''lineage_'' @ suffix, mi_EngineKind = ''postgres'',
                           mi_PolicyVersion = PolicyVersion, mi_Username = ''sqlrs_admin_'' @ suffix\<rparr> in
           Inr \<lparr>ib_ManagedIdentity = identity, ib_IdentityDigest = ManagedIdentity_Digest identity\<rparr>)"

subsection \<open>Runtime bindings and base keys (runtime.go)\<close>

record RuntimeBinding =
  rb_RuntimeRef :: bytes
  rb_PhysicalIdentity :: bytes
  rb_IdentityBinding :: IdentityBinding

definition RuntimeBinding_Validate :: "RuntimeBinding \<Rightarrow> bool" where
  "RuntimeBinding_Validate b \<longleftrightarrow> referencePattern (rb_RuntimeRef b) \<and> referencePattern (rb_PhysicalIdentity b)
     \<and> IdentityBinding_Validate (rb_IdentityBinding b)"

definition base_key_fields :: "BaseSelector \<Rightarrow> IdentityBinding \<Rightarrow> bytes list" where
  "base_key_fields selector identity =
     [''managed-base-key.v1'', bs_DomainRef selector, bs_EngineKind selector, bs_ImageDigest selector,
      bs_InitSpecDigest selector, bs_PolicyVersion selector, ib_IdentityDigest identity]"

definition BaseKey :: "BaseSelector \<Rightarrow> IdentityBinding \<Rightarrow> identityError + bytes" where
  "BaseKey selector identity =
     (if \<not> BaseSelector_Validate selector \<or> \<not> IdentityBinding_Validate identity then Inl IdentityInvalid
      else Inr (hash_fields (base_key_fields selector identity)))"

subsection \<open>Hashed fields determine themselves\<close>

lemma hex_digit_lower_hex: "n < 16 \<Longrightarrow> is_lower_hex (hex_digit n)"
  by (rule hex_digit_all [of "\<lambda>n. is_lower_hex (hex_digit n)"])
    (simp_all add: upt_16 hex_digit_def is_lower_hex_def in_range_def)

lemma hex_lower_hex [simp]: "list_all is_lower_hex (hex_EncodeToString bs)"
proof (induction bs)
  case (Cons b bs)
  have "(of_char b :: nat) div 16 < 16" "(of_char b :: nat) mod 16 < 16"
    using of_char_less_256 [of b] by (simp_all add: div_less_iff_less_mult del: of_char_less_256)
  then show ?case using Cons by (simp add: hex_digit_lower_hex)
qed simp

lemma lower_hex_ref_byte: "is_lower_hex c \<Longrightarrow> is_ref_byte c"
  by (auto simp: is_lower_hex_def is_ref_byte_def is_alnum_def in_range_def)

lemma referencePattern_fits: "referencePattern s \<Longrightarrow> fits64 s"
  by (auto simp: referencePattern_def fits64_def split: list.splits)

lemma digestPattern_hash [simp]: "digestPattern (hash_fields flds)"
  by (simp add: digestPattern_def hash_fields_def)

lemma hash_frames_inject:
  "length xs = length ys \<Longrightarrow> \<forall>x \<in> set xs \<union> set ys. fits64 x \<Longrightarrow>
     concat (map encodeBytes xs) = concat (map encodeBytes ys) \<Longrightarrow> xs = ys"
proof (induction xs ys rule: list_induct2)
  case (Cons x xs y ys)
  then show ?case using encodeBytes_prefix [of x "concat (map encodeBytes xs)" y "concat (map encodeBytes ys)"] by auto
qed simp

lemma hash_fields_eqD:
  assumes "hash_fields xs = hash_fields ys" and "length xs = length ys" and "\<forall>x \<in> set xs \<union> set ys. fits64 x"
  shows "xs = ys \<or> sha256_collision (concat (map encodeBytes xs)) (concat (map encodeBytes ys))"
proof -
  have "Sum256 (concat (map encodeBytes xs)) = Sum256 (concat (map encodeBytes ys))"
    using assms(1) by (simp add: hash_fields_def)
  then show ?thesis using Sum256_eqD hash_frames_inject [OF assms(2,3)] by blast
qed

lemma IdentityBinding_fits:
  assumes "IdentityBinding_Validate b"
  shows "fits64 (mi_LineageRef (ib_ManagedIdentity b))" "fits64 (mi_EngineKind (ib_ManagedIdentity b))"
    "fits64 (mi_PolicyVersion (ib_ManagedIdentity b))" "fits64 (mi_Username (ib_ManagedIdentity b))"
    "fits64 (ib_IdentityDigest b)"
  using assms referencePattern_fits digestPattern_hash
  by (simp_all add: IdentityBinding_Validate_def fits64_def usernamePattern_def PolicyVersion_def
      ManagedIdentity_Digest_def digestPattern_def)

lemma BaseSelector_fits:
  assumes "BaseSelector_Validate s"
  shows "fits64 (bs_DomainRef s)" "fits64 (bs_EngineKind s)" "fits64 (bs_ImageDigest s)"
    "fits64 (bs_InitSpecDigest s)" "fits64 (bs_PolicyVersion s)"
  using assms referencePattern_fits
  by (simp_all add: BaseSelector_Validate_def fits64_def imagePattern_def digestPattern_def PolicyVersion_def)

definition identity_fields :: "ManagedIdentity \<Rightarrow> bytes list" where
  "identity_fields i =
     [''managed-identity-binding.v1'', mi_LineageRef i, mi_EngineKind i, mi_PolicyVersion i, mi_Username i]"

lemma Generate_valid: "Generate source = Inr b \<Longrightarrow> IdentityBinding_Validate b"
proof -
  assume gen: "Generate source = Inr b"
  define suffix where "suffix = hex_EncodeToString (take 16 source)"
  have len: "16 \<le> length source" using gen by (auto simp: Generate_def split: if_splits)
  have sfx: "length suffix = 32" "list_all is_lower_hex suffix" using len by (simp_all add: suffix_def)
  have "list_all is_ref_byte suffix" using sfx(2) lower_hex_ref_byte by (simp add: list_all_iff)
  then have "referencePattern (''lineage_'' @ suffix)"
    using sfx(1) by (simp add: referencePattern_def is_alnum_def in_range_def is_ref_byte_def)
  moreover have "usernamePattern (''sqlrs_admin_'' @ suffix)"
    using sfx by (simp add: usernamePattern_def HasPrefix_def)
  moreover have "b = \<lparr>ib_ManagedIdentity = \<lparr>mi_LineageRef = ''lineage_'' @ suffix, mi_EngineKind = ''postgres'',
      mi_PolicyVersion = PolicyVersion, mi_Username = ''sqlrs_admin_'' @ suffix\<rparr>,
      ib_IdentityDigest = ManagedIdentity_Digest \<lparr>mi_LineageRef = ''lineage_'' @ suffix, mi_EngineKind = ''postgres'',
      mi_PolicyVersion = PolicyVersion, mi_Username = ''sqlrs_admin_'' @ suffix\<rparr>\<rparr>"
    using gen len by (auto simp: Generate_def Let_def suffix_def)
  ultimately show ?thesis by (simp add: IdentityBinding_Validate_def)
qed

end
