(* ===== verification/Engine_World.thy ===== *)
theory Engine_World
  imports Engine_Store Managed_Identity
begin

text \<open>
  The world the engine's services act on, and operations on it.

  A \<open>world\<close> holds the tables, the protected secret files, the connection counts a tracker
  reports, the directories removed and the runtimes stopped so far, the entropy source and
  the clock.  Every call that leaves a service may fail; \<open>w_fault\<close> says which call
  (counted by \<open>w_calls\<close>) fails and how, and is arbitrary, so a statement for all
  worlds covers every failure at every point.  A call that fails changes nothing.
  Whether a context has been cancelled is such a call too (\<open>check_ctx\<close>).

  Instants are natural numbers; a time column holds \<open>None\<close> when its text does not parse.
\<close>

datatype engineError =
    ErrIO bytes | ErrDockerUnavailable | ErrNotExist | ErrExist | ErrStore bytes | ErrConstraint | ErrCanceled
  | ErrIdentity identityError | ErrInvalid | ErrNotFound | ErrUnavailable | ErrConflict | ErrUnfinished

subsection \<open>Tables of managed stores\<close>

record LineageRow =
  lr_domain_ref :: bytes
  lr_lineage_ref :: bytes
  lr_engine_kind :: bytes
  lr_image_digest :: bytes
  lr_init_spec_digest :: bytes
  lr_policy_version :: bytes
  lr_username :: bytes
  lr_identity_digest :: bytes
  lr_created_at :: "nat option"

record AccessBinding =
  ab_RuntimeBinding :: RuntimeBinding
  ab_InstanceRef :: bytes
  ab_DomainRef :: bytes
  ab_AccessVersion :: bytes
  ab_SecretRef :: bytes

text \<open>A JSON column holds what its text decodes to, or \<open>None\<close> when it does not decode.\<close>

record AccessRow =
  ar_instance_ref :: bytes
  ar_binding :: "AccessBinding option"
  ar_secret_ref :: bytes
  ar_stage :: bytes

record SecretBinding =
  sb_DomainRef :: bytes
  sb_OwnerRef :: bytes
  sb_IdentityDigest :: bytes
  sb_Version :: bytes
  sb_Purpose :: bytes

record secretRecord =
  sc_Format :: bytes
  sc_Binding :: SecretBinding
  sc_Password :: bytes

text \<open>A file in the secret directory; \<open>sx_private\<close> says that it is regular, small and owner-only.\<close>

record SecretFile =
  sx_name :: bytes
  sx_private :: bool
  sx_record :: "secretRecord option"

record BootstrapRow =
  bt_lineage_ref :: bytes
  bt_binding :: "IdentityBinding option"
  bt_secret_ref :: bytes

record OperationRow =
  or_operation_ref :: bytes
  or_target_path :: bytes
  or_source_ref :: bytes
  or_identity :: "IdentityBinding option"
  or_physical_identity :: bytes
  or_runtime_ref :: bytes
  or_stage :: bytes

record SealRow =
  sl_state_id :: bytes
  sl_operation_ref :: bytes
  sl_binding :: "RuntimeBinding option"

record world =
  w_db :: database
  w_domain :: bytes
  w_lineages :: "LineageRow list"
  w_access :: "AccessRow list"
  w_bootstrap :: "BootstrapRow list"
  w_secrets :: "SecretFile list"
  w_operations :: "OperationRow list"
  w_seals :: "SealRow list"
  w_bases :: "(bytes \<times> bytes) list"
  w_conns :: "bytes \<Rightarrow> int"
  w_removed :: "bytes list"
  w_stopped :: "bytes list"
  w_entropy :: "nat \<Rightarrow> byte"
  w_drawn :: nat
  w_now :: nat
  w_fault :: "nat \<Rightarrow> engineError option"
  w_calls :: nat

subsection \<open>Operations\<close>

text \<open>
  An operation on some world \<open>'w\<close> that ends in a value or an error \<open>'e\<close>.  The services of this theory run in
  \<open>world\<close>, the preparation service in a world that contains it.
\<close>

type_synonym ('w, 'e, 'a) operation = "'w \<Rightarrow> ('e + 'a) \<times> 'w"
type_synonym 'a op = "(world, engineError, 'a) operation"

definition op_return :: "'a \<Rightarrow> ('w, 'e, 'a) operation" where
  "op_return x w = (Inr x, w)"

definition op_fail :: "'e \<Rightarrow> ('w, 'e, 'a) operation" where
  "op_fail e w = (Inl e, w)"

definition op_bind :: "('w, 'e, 'a) operation \<Rightarrow> ('a \<Rightarrow> ('w, 'e, 'b) operation) \<Rightarrow> ('w, 'e, 'b) operation" where
  "op_bind m f w = (case m w of (Inl e, w') \<Rightarrow> (Inl e, w') | (Inr x, w') \<Rightarrow> f x w')"

text \<open>The handler of an error: Go code that looks at \<^verbatim>\<open>err\<close> instead of returning it.\<close>

definition op_try :: "('w, 'e, 'a) operation \<Rightarrow> ('e + 'a \<Rightarrow> ('w, 'f, 'b) operation) \<Rightarrow> ('w, 'f, 'b) operation" where
  "op_try m f w = (case m w of (r, w') \<Rightarrow> f r w')"

text \<open>An error that is replaced before it is returned.\<close>

definition op_map_error :: "('e \<Rightarrow> 'f) \<Rightarrow> ('w, 'e, 'a) operation \<Rightarrow> ('w, 'f, 'a) operation" where
  "op_map_error h m = op_try m (\<lambda>r. case r of Inl e \<Rightarrow> op_fail (h e) | Inr x \<Rightarrow> op_return x)"

definition op_of :: "'e + 'a \<Rightarrow> ('w, 'e, 'a) operation" where
  "op_of r w = (r, w)"

text \<open>An outgoing call: it fails as the fault schedule says, or does \<open>f\<close>.\<close>

definition outgoing :: "'a op \<Rightarrow> 'a op" where
  "outgoing f w =
     (let w' = w\<lparr>w_calls := Suc (w_calls w)\<rparr> in
      case w_fault w (w_calls w) of Some e \<Rightarrow> (Inl e, w') | None \<Rightarrow> f w')"

definition asks :: "(world \<Rightarrow> 'a) \<Rightarrow> 'a op" where
  "asks f = outgoing (\<lambda>w. (Inr (f w), w))"

definition db_read :: "(database \<Rightarrow> 'a) \<Rightarrow> 'a op" where
  "db_read f = asks (\<lambda>w. f (w_db w))"

definition db_write :: "(database \<Rightarrow> database option) \<Rightarrow> unit op" where
  "db_write f = outgoing (\<lambda>w. case f (w_db w) of None \<Rightarrow> (Inl ErrConstraint, w)
     | Some db \<Rightarrow> (Inr (), w\<lparr>w_db := db\<rparr>))"

definition ActiveConnections :: "bytes \<Rightarrow> int op" where
  "ActiveConnections instanceID = asks (\<lambda>w. w_conns w instanceID)"

definition remove_dir :: "bytes \<Rightarrow> unit op" where
  "remove_dir path = outgoing (\<lambda>w. (Inr (), w\<lparr>w_removed := path # w_removed w\<rparr>))"

definition rename_dir :: "bytes \<Rightarrow> bytes \<Rightarrow> unit op" where
  "rename_dir old new = outgoing (\<lambda>w. (Inr (), w\<lparr>w_removed := old # w_removed w\<rparr>))"

definition runtime_Stop :: "bytes \<Rightarrow> unit op" where
  "runtime_Stop rid = outgoing (\<lambda>w. (Inr (), w\<lparr>w_stopped := rid # w_stopped w\<rparr>))"

definition check_ctx :: "unit op" where
  "check_ctx = op_map_error (\<lambda>_. ErrCanceled) (asks (\<lambda>_. ()))"

text \<open>Go's \<^verbatim>\<open>crypto/rand.Read\<close> does not fail; a reader handed to a service may.\<close>

definition draw :: "nat \<Rightarrow> bytes op" where
  "draw n w = (Inr (map (w_entropy w) [w_drawn w..<w_drawn w + n]), w\<lparr>w_drawn := w_drawn w + n\<rparr>)"

definition read_entropy :: "nat \<Rightarrow> bytes op" where
  "read_entropy n = outgoing (draw n)"

text \<open>\<^verbatim>\<open>rand.Text\<close>: twenty-six letters and digits of the base-32 alphabet.\<close>

definition rand_Text :: "bytes op" where
  "rand_Text = op_bind (draw 26) (\<lambda>src. op_return (map (\<lambda>b. ''ABCDEFGHIJKLMNOPQRSTUVWXYZ234567'' ! (of_char b mod 32)) src))"

subsection \<open>Results of operations\<close>

lemma op_bind_Inr:
  "op_bind m f w = (Inr y, w') \<longleftrightarrow> (\<exists>x v. m w = (Inr x, v) \<and> f x v = (Inr y, w'))"
  by (auto simp: op_bind_def split: prod.splits sum.splits)

lemma op_bind_cases:
  assumes "op_bind m f w = (r, w')"
  obtains e where "m w = (Inl e, w')" "r = Inl e" | x v where "m w = (Inr x, v)" "f x v = (r, w')"
  using assms by (auto simp: op_bind_def split: prod.splits sum.splits)

lemma op_try_cases:
  assumes "op_try m f w = (r, w')"
  obtains q v where "m w = (q, v)" "f q v = (r, w')"
  using assms by (auto simp: op_try_def split: prod.splits)

lemma op_map_error_Inr: "op_map_error h m w = (Inr x, w') \<longleftrightarrow> m w = (Inr x, w')"
  by (auto simp: op_map_error_def op_try_def op_fail_def op_return_def split: prod.splits sum.splits)

lemma op_map_error_Inl: "op_map_error h m w = (Inl e, w') \<longleftrightarrow> (\<exists>e'. m w = (Inl e', w') \<and> e = h e')"
  by (auto simp: op_map_error_def op_try_def op_fail_def op_return_def split: prod.splits sum.splits)

lemma op_bind_return: "op_bind (op_return x) f = f x"
  by (rule ext) (simp add: op_bind_def op_return_def)

subsection \<open>Properties an operation keeps\<close>

text \<open>
  Most facts about the services are of the form: whatever this operation does, and
  wherever it fails, the worlds before and after are related.  The relation
  has to be reflexive and transitive, and the parts of an operation inherit it.
\<close>

locale kept_relation =
  fixes rel :: "'w \<Rightarrow> 'w \<Rightarrow> bool"
  assumes rel_refl: "rel w w" and rel_trans: "rel u v \<Longrightarrow> rel v w \<Longrightarrow> rel u w"
begin

definition keeps :: "('w, 'e, 'a) operation \<Rightarrow> bool" where
  "keeps m \<longleftrightarrow> (\<forall>w. rel w (snd (m w)))"

lemma withinD: "keeps m \<Longrightarrow> m w = (r, w') \<Longrightarrow> rel w w'"
  by (metis keeps_def snd_conv)

lemma within_return [simp]: "keeps (op_return x)" "keeps (op_fail e)" "keeps (op_of r)"
  by (simp_all add: keeps_def op_return_def op_fail_def op_of_def rel_refl)

lemma within_bind [intro!]:
  assumes "keeps m" and "\<And>x. keeps (f x)"
  shows "keeps (op_bind m f)"
  unfolding keeps_def
proof
  fix w
  obtain r w' where m: "m w = (r, w')" by (cases "m w")
  have w': "rel w w'" using assms(1) m by (metis withinD)
  show "rel w (snd (op_bind m f w))"
    using w' assms(2) rel_trans by (cases r) (auto simp: op_bind_def m keeps_def)
qed

lemma within_try [intro!]:
  assumes "keeps m" and "\<And>r. keeps (f r)"
  shows "keeps (op_try m f)"
  unfolding keeps_def
proof
  fix w
  obtain r w' where m: "m w = (r, w')" by (cases "m w")
  have w': "rel w w'" using assms(1) m by (metis withinD)
  show "rel w (snd (op_try m f w))"
    using w' assms(2) rel_trans by (auto simp: op_try_def m keeps_def)
qed

lemma within_map_error [intro!]: "keeps m \<Longrightarrow> keeps (op_map_error h m)"
  unfolding op_map_error_def by (rule within_try) (auto split: sum.splits)

lemma within_case_prod [intro!]: "(\<And>a b. keeps (f a b)) \<Longrightarrow> keeps (case p of (a, b) \<Rightarrow> f a b)"
  by (cases p) simp

lemma within_if [intro!]: "keeps a \<Longrightarrow> keeps b \<Longrightarrow> keeps (if c then a else b)"
  by simp

lemma within_case_option [intro!]:
  "keeps a \<Longrightarrow> (\<And>x. keeps (f x)) \<Longrightarrow> keeps (case p of None \<Rightarrow> a | Some x \<Rightarrow> f x)"
  by (cases p) simp_all

lemma within_case_sum [intro!]:
  "(\<And>e. keeps (f e)) \<Longrightarrow> (\<And>x. keeps (g x)) \<Longrightarrow> keeps (case p of Inl e \<Rightarrow> f e | Inr x \<Rightarrow> g x)"
  by (cases p) simp_all

end

text \<open>In \<open>world\<close> the number of calls is not part of what is related.\<close>

locale op_relation = kept_relation rel for rel :: "world \<Rightarrow> world \<Rightarrow> bool" +
  assumes rel_calls: "rel w (w\<lparr>w_calls := n\<rparr>)"
begin

lemma within_outgoing: "(\<And>w. rel w (snd (f w))) \<Longrightarrow> keeps (outgoing f)"
  unfolding keeps_def outgoing_def Let_def
  by (auto split: option.splits intro: rel_calls rel_trans)

lemma within_asks [simp]: "keeps (asks f)"
  unfolding asks_def by (rule within_outgoing) (simp add: rel_refl)

lemma within_reads [simp]: "keeps (db_read f)" "keeps (ActiveConnections i)" "keeps check_ctx"
  by (auto simp: db_read_def ActiveConnections_def check_ctx_def)

end

text \<open>The strictest relation: nothing has changed but the number of calls made.\<close>

definition same_effects :: "world \<Rightarrow> world \<Rightarrow> bool" where
  "same_effects w w' \<longleftrightarrow> w' = w\<lparr>w_calls := w_calls w'\<rparr>"

lemma same_effects_iff: "same_effects w w' \<longleftrightarrow> (\<exists>n. w' = w\<lparr>w_calls := n\<rparr>)"
  by (auto simp: same_effects_def)

lemma same_effects_refl [simp]: "same_effects w w"
  by (simp add: same_effects_def)

interpretation ro: op_relation same_effects
  by unfold_locales (simp, auto simp: same_effects_iff)

lemma same_effectsD:
  assumes "same_effects w w'"
  shows "w_db w' = w_db w" "w_domain w' = w_domain w" "w_lineages w' = w_lineages w" "w_access w' = w_access w"
    "w_bootstrap w' = w_bootstrap w" "w_secrets w' = w_secrets w" "w_operations w' = w_operations w" "w_seals w' = w_seals w" "w_bases w' = w_bases w" "w_conns w' = w_conns w" "w_removed w' = w_removed w" "w_stopped w' = w_stopped w"
    "w_entropy w' = w_entropy w" "w_drawn w' = w_drawn w" "w_now w' = w_now w" "w_fault w' = w_fault w"
  using assms by (auto simp: same_effects_iff)

lemma same_effects_fields:
  "same_effects w w' \<longleftrightarrow> w_db w' = w_db w \<and> w_domain w' = w_domain w \<and> w_lineages w' = w_lineages w \<and> w_access w' = w_access w
     \<and> w_bootstrap w' = w_bootstrap w \<and> w_secrets w' = w_secrets w \<and> w_operations w' = w_operations w \<and> w_seals w' = w_seals w
     \<and> w_bases w' = w_bases w \<and> w_conns w' = w_conns w \<and> w_removed w' = w_removed w \<and> w_stopped w' = w_stopped w
     \<and> w_entropy w' = w_entropy w \<and> w_drawn w' = w_drawn w \<and> w_now w' = w_now w \<and> w_fault w' = w_fault w"
    (is "_ \<longleftrightarrow> ?rhs")
proof
  show "same_effects w w' \<Longrightarrow> ?rhs" by (simp add: same_effectsD)
  show "?rhs \<Longrightarrow> same_effects w w'" unfolding same_effects_def by (intro world.equality) simp_all
qed

text \<open>A world in which no call fails.\<close>

definition no_faults :: "world \<Rightarrow> bool" where
  "no_faults w \<longleftrightarrow> (\<forall>k. w_fault w k = None)"

lemma no_faults_same: "same_effects w w' \<Longrightarrow> no_faults w \<Longrightarrow> no_faults w'"
  by (simp add: no_faults_def same_effectsD(16))

lemma no_faults_calls [simp]: "no_faults (w\<lparr>w_calls := n\<rparr>) = no_faults w"
  by (simp add: no_faults_def)

lemma outgoing_no_faults: "no_faults w \<Longrightarrow> outgoing f w = f (w\<lparr>w_calls := Suc (w_calls w)\<rparr>)"
  by (simp add: outgoing_def no_faults_def Let_def)

lemma asks_no_faults:
  "no_faults w \<Longrightarrow> asks f w = (Inr (f (w\<lparr>w_calls := Suc (w_calls w)\<rparr>)), w\<lparr>w_calls := Suc (w_calls w)\<rparr>)"
  by (simp add: asks_def outgoing_no_faults)

lemma check_ctx_no_faults: "no_faults w \<Longrightarrow> check_ctx w = (Inr (), w\<lparr>w_calls := Suc (w_calls w)\<rparr>)"
  by (simp add: check_ctx_def op_map_error_def op_try_def asks_no_faults op_return_def)

lemma asks_Inr: "asks f w = (Inr x, w') \<Longrightarrow> x = f w' \<and> same_effects w w'"
  by (auto simp: asks_def outgoing_def Let_def same_effects_iff split: option.splits)

lemmas op_simps = op_bind_def op_try_def op_map_error_def op_return_def op_fail_def

end
