(* ===== verification/Managed_Service.thy ===== *)
theory Managed_Service
  imports Engine_World
begin

text \<open>
  Reservation of database identities: the service of \<^verbatim>\<open>internal/managedidentity/service.go\<close>, the
  cache owner of \<^verbatim>\<open>selection.go\<close>, and the table \<^verbatim>\<open>managed_base_lineages\<close> of
  \<^verbatim>\<open>internal/store/sqlite/lineage.go\<close> that implements the service's store.

  The service sees its store only as the interface \<^verbatim>\<open>Store\<close>, the record of three operations below;
  the locale \<open>identity_store\<close> states what it relies on, and the sqlite table is an
  interpretation of it.
\<close>

subsection \<open>Interface and service (service.go)\<close>

record Record =
  rc_Selector :: BaseSelector
  rc_Binding :: IdentityBinding
  rc_CreatedAt :: nat

text \<open>\<^verbatim>\<open>CreatedAt.IsZero()\<close> is instant zero.\<close>

definition Record_Validate :: "Record \<Rightarrow> bool" where
  "Record_Validate r \<longleftrightarrow> BaseSelector_Validate (rc_Selector r) \<and> IdentityBinding_Validate (rc_Binding r) \<and> rc_CreatedAt r \<noteq> 0"

record Store =
  st_Find :: "BaseSelector \<Rightarrow> Record op"
  st_Reserve :: "Record \<Rightarrow> Record op"
  st_Get :: "bytes \<Rightarrow> bytes \<Rightarrow> Record op"

definition safeStoreError :: "engineError \<Rightarrow> engineError" where
  "safeStoreError e =
     (if e = ErrCanceled \<or> e = ErrIdentity IdentityNotFound \<or> e = ErrIdentity IdentityInvalid then e
      else ErrIdentity IdentityUnavailable)"

definition resolved :: "Record \<Rightarrow> BaseSelector \<Rightarrow> bytes \<Rightarrow> IdentityBinding op" where
  "resolved record selector lineage =
     op_bind check_ctx (\<lambda>_.
      if \<not> Record_Validate record \<or> rc_Selector record \<noteq> selector
         \<or> (lineage \<noteq> [] \<and> mi_LineageRef (ib_ManagedIdentity (rc_Binding record)) \<noteq> lineage)
      then op_fail (ErrIdentity IdentityInvalid)
      else op_return (rc_Binding record))"

definition generate_candidate :: "IdentityBinding op" where
  "generate_candidate =
     op_try (read_entropy 16) (\<lambda>r.
      case Generate (case r of Inl _ \<Rightarrow> [] | Inr bs \<Rightarrow> bs) of
        Inl e \<Rightarrow> op_fail (ErrIdentity e)
      | Inr candidate \<Rightarrow> op_return candidate)"

definition read_now :: "nat op" where
  "read_now w = (Inr (w_now w), w)"

definition ResolveOrReserveBase :: "Store \<Rightarrow> BaseSelector \<Rightarrow> IdentityBinding op" where
  "ResolveOrReserveBase s selector =
     (if \<not> BaseSelector_Validate selector then op_fail (ErrIdentity IdentityInvalid)
      else
       op_bind check_ctx (\<lambda>_.
       op_try (st_Find s selector) (\<lambda>found. case found of
          Inr record \<Rightarrow> resolved record selector []
        | Inl e \<Rightarrow>
           if e \<noteq> ErrIdentity IdentityNotFound then op_fail (safeStoreError e)
           else
            op_bind check_ctx (\<lambda>_.
            op_bind generate_candidate (\<lambda>candidate.
            op_bind check_ctx (\<lambda>_.
            op_bind read_now (\<lambda>now.
            op_bind (op_map_error safeStoreError
                 (st_Reserve s \<lparr>rc_Selector = selector, rc_Binding = candidate, rc_CreatedAt = now\<rparr>)) (\<lambda>record.
            resolved record selector []))))))))"

definition GetIdentity :: "Store \<Rightarrow> bytes \<Rightarrow> bytes \<Rightarrow> IdentityBinding op" where
  "GetIdentity s domain lineage =
     (if \<not> referencePattern domain \<or> \<not> referencePattern lineage then op_fail (ErrIdentity IdentityInvalid)
      else
       op_bind check_ctx (\<lambda>_.
       op_bind (op_map_error safeStoreError (st_Get s domain lineage)) (\<lambda>record.
       if bs_DomainRef (rc_Selector record) \<noteq> domain then op_fail (ErrIdentity IdentityInvalid)
       else resolved record (rc_Selector record) lineage)))"

subsection \<open>The cache owner (selection.go)\<close>

record BaseSelection =
  bsel_IdentityBinding :: IdentityBinding
  bsel_Key :: bytes

record Owner =
  ow_service :: Store
  ow_domain :: bytes
  ow_initDigest :: bytes

definition NewOwner :: "Store \<Rightarrow> bytes \<Rightarrow> bytes \<Rightarrow> Owner option" where
  "NewOwner service domain initDigest =
     (if \<not> referencePattern domain \<or> \<not> digestPattern initDigest then None
      else Some \<lparr>ow_service = service, ow_domain = domain, ow_initDigest = initDigest\<rparr>)"

definition Owner_selector :: "Owner \<Rightarrow> bytes \<Rightarrow> BaseSelector" where
  "Owner_selector ow imageDigest =
     \<lparr>bs_DomainRef = ow_domain ow, bs_EngineKind = ''postgres'', bs_ImageDigest = imageDigest,
      bs_InitSpecDigest = ow_initDigest ow, bs_PolicyVersion = PolicyVersion\<rparr>"

definition selectedBase :: "BaseSelector \<Rightarrow> IdentityBinding \<Rightarrow> BaseSelection" where
  "selectedBase selector binding =
     \<lparr>bsel_IdentityBinding = binding, bsel_Key = (case BaseKey selector binding of Inl _ \<Rightarrow> [] | Inr key \<Rightarrow> key)\<rparr>"

definition ResolveBase :: "Owner \<Rightarrow> bytes \<Rightarrow> BaseSelection op" where
  "ResolveBase ow imageDigest =
     op_bind (ResolveOrReserveBase (ow_service ow) (Owner_selector ow imageDigest)) (\<lambda>binding.
     op_return (selectedBase (Owner_selector ow imageDigest) binding))"

definition RestoreStored :: "Owner \<Rightarrow> bytes \<Rightarrow> bytes \<Rightarrow> bytes \<Rightarrow> BaseSelection op" where
  "RestoreStored ow imageDigest lineage digest =
     (let selector = Owner_selector ow imageDigest in
      if \<not> BaseSelector_Validate selector \<or> \<not> referencePattern lineage \<or> \<not> digestPattern digest
      then op_fail (ErrIdentity IdentityInvalid)
      else
       op_bind check_ctx (\<lambda>_.
       op_bind (op_map_error safeStoreError (st_Find (ow_service ow) selector)) (\<lambda>record.
       op_bind (resolved record selector lineage) (\<lambda>binding.
       if ib_IdentityDigest binding \<noteq> digest then op_fail (ErrIdentity IdentityInvalid)
       else op_return (selectedBase selector binding)))))"

definition RestoreBase :: "Owner \<Rightarrow> bytes \<Rightarrow> IdentityBinding \<Rightarrow> BaseSelection op" where
  "RestoreBase ow imageDigest expected =
     (if \<not> IdentityBinding_Validate expected then op_fail (ErrIdentity IdentityInvalid)
      else RestoreStored ow imageDigest (mi_LineageRef (ib_ManagedIdentity expected)) (ib_IdentityDigest expected))"

subsection \<open>The sqlite table (store/sqlite/lineage.go)\<close>

definition lineageError :: "engineError \<Rightarrow> engineError" where
  "lineageError e = (if e = ErrCanceled then ErrCanceled else ErrIdentity IdentityUnavailable)"

definition row_selector :: "LineageRow \<Rightarrow> BaseSelector" where
  "row_selector r = \<lparr>bs_DomainRef = lr_domain_ref r, bs_EngineKind = lr_engine_kind r,
     bs_ImageDigest = lr_image_digest r, bs_InitSpecDigest = lr_init_spec_digest r, bs_PolicyVersion = lr_policy_version r\<rparr>"

definition row_binding :: "LineageRow \<Rightarrow> IdentityBinding" where
  "row_binding r = \<lparr>ib_ManagedIdentity = \<lparr>mi_LineageRef = lr_lineage_ref r, mi_EngineKind = lr_engine_kind r,
     mi_PolicyVersion = lr_policy_version r, mi_Username = lr_username r\<rparr>, ib_IdentityDigest = lr_identity_digest r\<rparr>"

text \<open>\<open>None\<close> is \<^verbatim>\<open>sql.ErrNoRows\<close>.\<close>

definition scanLineage :: "LineageRow option \<Rightarrow> Record op" where
  "scanLineage row =
     (case row of None \<Rightarrow> op_fail (ErrIdentity IdentityNotFound)
      | Some r \<Rightarrow>
         (case lr_created_at r of None \<Rightarrow> op_fail (ErrIdentity IdentityInvalid)
          | Some created \<Rightarrow>
             let record = \<lparr>rc_Selector = row_selector r, rc_Binding = row_binding r, rc_CreatedAt = created\<rparr> in
             if \<not> Record_Validate record then op_fail (ErrIdentity IdentityInvalid)
             else op_return record))"

definition sqlite_Find :: "BaseSelector \<Rightarrow> Record op" where
  "sqlite_Find selector =
     (if \<not> BaseSelector_Validate selector then op_fail (ErrIdentity IdentityInvalid)
      else op_bind (op_map_error lineageError (asks (\<lambda>w. find (\<lambda>r. row_selector r = selector) (w_lineages w)))) scanLineage)"

text \<open>
  The insert: a trigger refuses another domain; a taken selector leaves the table alone;
  a lineage that is taken, for another selector, is an error.
\<close>

definition lineage_row :: "Record \<Rightarrow> LineageRow" where
  "lineage_row r =
     \<lparr>lr_domain_ref = bs_DomainRef (rc_Selector r), lr_lineage_ref = mi_LineageRef (ib_ManagedIdentity (rc_Binding r)),
      lr_engine_kind = bs_EngineKind (rc_Selector r), lr_image_digest = bs_ImageDigest (rc_Selector r),
      lr_init_spec_digest = bs_InitSpecDigest (rc_Selector r), lr_policy_version = bs_PolicyVersion (rc_Selector r),
      lr_username = mi_Username (ib_ManagedIdentity (rc_Binding r)),
      lr_identity_digest = ib_IdentityDigest (rc_Binding r), lr_created_at = Some (rc_CreatedAt r)\<rparr>"

definition insert_lineage :: "LineageRow \<Rightarrow> unit op" where
  "insert_lineage row = outgoing (\<lambda>w.
     if lr_domain_ref row \<noteq> w_domain w then (Inl ErrConstraint, w)
     else if row_selector row \<in> row_selector ` set (w_lineages w) then (Inr (), w)
     else if lr_lineage_ref row \<in> lr_lineage_ref ` set (w_lineages w) then (Inl ErrConstraint, w)
     else (Inr (), w\<lparr>w_lineages := w_lineages w @ [row]\<rparr>))"

definition sqlite_Reserve :: "Record \<Rightarrow> Record op" where
  "sqlite_Reserve r =
     (if \<not> Record_Validate r then op_fail (ErrIdentity IdentityInvalid)
      else op_bind (op_map_error lineageError (insert_lineage (lineage_row r))) (\<lambda>_. sqlite_Find (rc_Selector r)))"

definition sqlite_Get :: "bytes \<Rightarrow> bytes \<Rightarrow> Record op" where
  "sqlite_Get domain lineage =
     (if \<not> referencePattern domain \<or> \<not> referencePattern lineage then op_fail (ErrIdentity IdentityInvalid)
      else op_bind (op_map_error lineageError (asks (\<lambda>w.
             find (\<lambda>r. lr_domain_ref r = domain \<and> lr_lineage_ref r = lineage) (w_lineages w)))) scanLineage)"

definition sqlite_store :: Store where
  "sqlite_store = \<lparr>st_Find = sqlite_Find, st_Reserve = sqlite_Reserve, st_Get = sqlite_Get\<rparr>"

end
