(* ===== verification/Managed_Service_Props.thy ===== *)
theory Managed_Service_Props
  imports Managed_Service
begin

text \<open>
  What the reservation of database identities promises: the first committed identity of a
  selector is the one everybody gets, whatever fails and whoever competes; restoring never
  writes; digests and keys determine what they were computed from.
\<close>

subsection \<open>The contract of a store\<close>

text \<open>
  \<open>committed w s\<close> is the binding the store holds for a selector.  A successful read returns
  it, a successful reservation returns the one committed afterwards, and nothing
  that was committed is ever replaced.
\<close>

locale identity_store =
  fixes store :: Store
    and committed :: "world \<Rightarrow> BaseSelector \<Rightarrow> IdentityBinding option"
  assumes find_reads: "st_Find store s w = (r, w') \<Longrightarrow> same_effects w w'"
    and find_committed: "st_Find store s w = (Inr rec, w') \<Longrightarrow> committed w s = Some (rc_Binding rec)"
    and reserve_committed: "st_Reserve store rec w = (Inr rec', w') \<Longrightarrow> committed w' (rc_Selector rec) = Some (rc_Binding rec')"
    and reserve_keeps: "st_Reserve store rec w = (r, w') \<Longrightarrow> committed w s = Some b \<Longrightarrow> committed w' s = Some b"
    and committed_table: "w_lineages w' = w_lineages w \<Longrightarrow> committed w' = committed w"
begin

definition keeps :: "world \<Rightarrow> world \<Rightarrow> bool" where
  "keeps w w' \<longleftrightarrow> (\<forall>s b. committed w s = Some b \<longrightarrow> committed w' s = Some b)"

lemma keeps_table: "w_lineages w' = w_lineages w \<Longrightarrow> keeps w w'"
  unfolding keeps_def by (drule committed_table) simp

end

sublocale identity_store \<subseteq> kept: op_relation keeps
proof unfold_locales
  show "keeps w (w\<lparr>w_calls := n\<rparr>)" for w n by (rule keeps_table) simp
qed (simp_all add: keeps_def)

subsection \<open>Results of the service's parts\<close>

lemma check_ctx_reads: "check_ctx w = (r, w') \<Longrightarrow> same_effects w w'"
  by (rule ro.withinD [OF ro.within_reads(3)])

lemma resolved_reads: "ro.keeps (resolved rec s l)"
  by (auto simp: resolved_def)

lemma resolved_Inr:
  assumes "resolved rec s l w = (Inr b, w')"
  shows "rc_Binding rec = b" "rc_Selector rec = s" "Record_Validate rec" "same_effects w w'"
    "l \<noteq> [] \<Longrightarrow> mi_LineageRef (ib_ManagedIdentity b) = l"
  using assms ro.withinD [OF resolved_reads assms]
  by (auto simp: resolved_def op_bind_Inr op_return_def op_fail_def split: if_splits)

lemma generate_table: "generate_candidate w = (r, w') \<Longrightarrow> w_lineages w' = w_lineages w"
  by (auto simp: generate_candidate_def op_try_def read_entropy_def draw_def outgoing_def Let_def op_fail_def op_return_def
      split: option.splits sum.splits)

lemma read_now_reads: "read_now w = (r, w') \<Longrightarrow> w' = w"
  by (simp add: read_now_def)

subsection \<open>Clients of the contract\<close>

context identity_store
begin

lemma keeps_same: "same_effects w w' \<Longrightarrow> keeps w w'"
  by (rule keeps_table) (rule same_effectsD)

lemma kept_readonly: "ro.keeps m \<Longrightarrow> kept.keeps m"
  by (simp add: ro.keeps_def kept.keeps_def keeps_same)

lemma kept_parts [simp]:
  "kept.keeps (st_Find store s)" "kept.keeps (st_Reserve store rec)" "kept.keeps generate_candidate"
  "kept.keeps read_now" "kept.keeps (resolved rec' s' l)"
proof -
  show "kept.keeps (st_Find store s)"
    unfolding kept.keeps_def by (metis find_reads keeps_same prod.collapse)
  show "kept.keeps (st_Reserve store rec)"
    unfolding kept.keeps_def keeps_def by (metis reserve_keeps prod.collapse)
  show "kept.keeps generate_candidate"
    unfolding kept.keeps_def by (metis generate_table keeps_table prod.collapse)
  show "kept.keeps read_now"
    by (simp add: kept.keeps_def read_now_def kept.rel_refl)
  show "kept.keeps (resolved rec' s' l)"
    by (rule kept_readonly) (rule resolved_reads)
qed

lemma resolve_keeps: "kept.keeps (ResolveOrReserveBase store s)"
  unfolding ResolveOrReserveBase_def by (auto simp: kept.within_map_error)

text \<open>What a successful call returns is what is committed afterwards.\<close>

lemma resolve_committed:
  assumes "ResolveOrReserveBase store s w = (Inr b, w')"
  shows "committed w' s = Some b \<and> IdentityBinding_Validate b"
proof -
  let ?reserve = "\<lambda>c now. st_Reserve store \<lparr>rc_Selector = s, rc_Binding = c, rc_CreatedAt = now\<rparr>"
  obtain v where run: "op_try (st_Find store s) (\<lambda>found. case found of
          Inr record \<Rightarrow> resolved record s []
        | Inl e \<Rightarrow>
           if e \<noteq> ErrIdentity IdentityNotFound then op_fail (safeStoreError e)
           else
            op_bind check_ctx (\<lambda>_. op_bind generate_candidate (\<lambda>candidate. op_bind check_ctx (\<lambda>_.
            op_bind read_now (\<lambda>now. op_bind (op_map_error safeStoreError (?reserve candidate now)) (\<lambda>record.
            resolved record s [])))))) v = (Inr b, w')"
    using assms unfolding ResolveOrReserveBase_def by (auto simp: op_bind_Inr op_fail_def split: if_splits)
  obtain q u where q: "st_Find store s v = (q, u)" and rest: "(case q of
          Inr record \<Rightarrow> resolved record s []
        | Inl e \<Rightarrow>
           if e \<noteq> ErrIdentity IdentityNotFound then op_fail (safeStoreError e)
           else
            op_bind check_ctx (\<lambda>_. op_bind generate_candidate (\<lambda>candidate. op_bind check_ctx (\<lambda>_.
            op_bind read_now (\<lambda>now. op_bind (op_map_error safeStoreError (?reserve candidate now)) (\<lambda>record.
            resolved record s [])))))) u = (Inr b, w')"
    by (rule op_try_cases [OF run])
  show ?thesis
  proof (cases q)
    case (Inr rec)
    have "committed v s = Some (rc_Binding rec)" using find_committed q Inr by blast
    moreover have "committed u = committed v"
      by (rule committed_table, rule same_effectsD, rule find_reads [OF q])
    moreover have "resolved rec s [] u = (Inr b, w')" using rest Inr by simp
    note r = resolved_Inr [OF this]
    moreover have "committed w' = committed u"
      by (rule committed_table, rule same_effectsD, rule r(4))
    ultimately show ?thesis by (simp add: Record_Validate_def)
  next
    case (Inl e)
    obtain c now x y rec where x: "st_Reserve store \<lparr>rc_Selector = s, rc_Binding = c, rc_CreatedAt = now\<rparr> x = (Inr rec, y)"
      and r: "resolved rec s [] y = (Inr b, w')"
      using rest Inl by (auto simp: op_bind_Inr op_fail_def op_map_error_Inr split: if_splits)
    have "committed y s = Some (rc_Binding rec)" using reserve_committed [OF x] by simp
    moreover note res = resolved_Inr [OF r]
    moreover have "committed w' = committed y"
      by (rule committed_table, rule same_effectsD, rule res(4))
    ultimately show ?thesis by (simp add: Record_Validate_def)
  qed
qed

lemma resolve_stable:
  assumes "ResolveOrReserveBase store s w = (Inr b, w1)" and "keeps w1 w2"
    and "ResolveOrReserveBase store s w2 = (Inr b', w3)"
  shows "b' = b"
proof -
  have "committed w1 s = Some b" using resolve_committed [OF assms(1)] by simp
  then have "committed w2 s = Some b" using assms(2) by (simp add: keeps_def)
  moreover have "keeps w2 w3" using kept.withinD [OF resolve_keeps assms(3)] .
  ultimately have "committed w3 s = Some b" by (simp add: keeps_def)
  then show ?thesis using resolve_committed [OF assms(3)] by simp
qed

lemma restore_exact:
  assumes "RestoreStored ow im l d w = (Inr sel, w')" and "ow_service ow = store"
  shows "same_effects w w' \<and> (\<exists>b. sel = selectedBase (Owner_selector ow im) b
     \<and> committed w (Owner_selector ow im) = Some b \<and> IdentityBinding_Validate b
     \<and> mi_LineageRef (ib_ManagedIdentity b) = l \<and> ib_IdentityDigest b = d)"
proof -
  let ?s = "Owner_selector ow im"
  obtain v rec u b where l: "referencePattern l" and v: "check_ctx w = (Inr (), v)"
    and rec: "st_Find store ?s v = (Inr rec, u)" and b: "resolved rec ?s l u = (Inr b, w')"
    and sel: "sel = selectedBase ?s b" and d: "ib_IdentityDigest b = d"
    using assms by (auto simp: RestoreStored_def Let_def op_bind_Inr op_fail_def op_return_def op_map_error_Inr split: if_splits)
  have "l \<noteq> []" using l by (auto simp: referencePattern_def)
  note r = resolved_Inr [OF b]
  have wv: "same_effects w v" using check_ctx_reads [OF v] .
  have all: "same_effects w w'" using ro.rel_trans [OF wv ro.rel_trans [OF find_reads [OF rec] r(4)]] .
  have "committed v ?s = Some b" using find_committed [OF rec] r(1) by simp
  then have "committed w ?s = Some b" using committed_table [OF same_effectsD(3) [OF wv]] by simp
  then show ?thesis using all sel d r(1,3,5) \<open>l \<noteq> []\<close> by (auto simp: Record_Validate_def)
qed

end

subsection \<open>The sqlite table keeps the contract\<close>

definition committed_binding :: "world \<Rightarrow> BaseSelector \<Rightarrow> IdentityBinding option" where
  "committed_binding w s = map_option row_binding (find (\<lambda>r. row_selector r = s) (w_lineages w))"

lemma find_append: "find P xs = Some x \<Longrightarrow> find P (xs @ ys) = Some x"
  by (induction xs) (auto split: if_splits)

lemma scanLineage_Inr:
  "scanLineage row w = (Inr rec, w') \<Longrightarrow>
     w' = w \<and> (\<exists>r. row = Some r \<and> rc_Binding rec = row_binding r \<and> rc_Selector rec = row_selector r \<and> Record_Validate rec)"
  by (auto simp: scanLineage_def op_fail_def op_return_def Let_def split: option.splits if_splits)

lemma scanLineage_reads: "ro.keeps (scanLineage row)"
  by (auto simp: scanLineage_def Let_def)

lemma sqlite_Find_reads: "ro.keeps (sqlite_Find s)"
  by (auto simp: sqlite_Find_def scanLineage_reads)

lemma sqlite_Find_Inr:
  assumes "sqlite_Find s w = (Inr rec, w')"
  shows "committed_binding w s = Some (rc_Binding rec) \<and> rc_Selector rec = s \<and> Record_Validate rec \<and> same_effects w w'"
proof -
  obtain row v where row: "asks (\<lambda>w. find (\<lambda>r. row_selector r = s) (w_lineages w)) w = (Inr row, v)"
    and rec: "scanLineage row v = (Inr rec, w')"
    using assms by (auto simp: sqlite_Find_def op_bind_Inr op_map_error_Inr op_fail_def split: if_splits)
  have v: "same_effects w v" and r: "row = find (\<lambda>r. row_selector r = s) (w_lineages w)"
    using asks_Inr [OF row] by (auto dest: same_effectsD(3))
  obtain x where "w' = v" "row = Some x" "rc_Binding rec = row_binding x" "rc_Selector rec = row_selector x" "Record_Validate rec"
    using scanLineage_Inr [OF rec] by blast
  moreover from this have "row_selector x = s" using r by (metis (mono_tags, lifting) find_Some_iff)
  ultimately show ?thesis using v r by (simp add: committed_binding_def)
qed

lemma insert_lineage_committed:
  assumes "insert_lineage row w = (r, w')" and "committed_binding w s = Some b"
  shows "committed_binding w' s = Some b"
proof -
  have "\<exists>rows. w_lineages w' = w_lineages w @ rows"
    using assms(1) by (auto simp: insert_lineage_def outgoing_def Let_def split: option.splits if_splits)
  then show ?thesis using assms(2) find_append by (fastforce simp: committed_binding_def)
qed

lemma sqlite_Reserve_keeps:
  assumes "sqlite_Reserve rec w = (r, w')" and "committed_binding w s = Some b"
  shows "committed_binding w' s = Some b"
proof -
  have same: "committed_binding v' s = Some b" if "same_effects v v'" "committed_binding v s = Some b" for v v'
    using that by (simp add: committed_binding_def same_effectsD(3))
  obtain q v where "insert_lineage (lineage_row rec) w = (q, v) \<and> (w' = v \<or> (\<exists>x. sqlite_Find (rc_Selector rec) v = (x, w'))) \<or> w' = w"
    using assms(1)
    by (auto simp: sqlite_Reserve_def op_fail_def op_bind_def op_map_error_def op_try_def op_return_def
        split: if_splits prod.splits sum.splits)
  then show ?thesis
    using insert_lineage_committed assms(2) same ro.withinD [OF sqlite_Find_reads] by blast
qed

interpretation sqlite: identity_store sqlite_store committed_binding
proof unfold_locales
  show "st_Find sqlite_store s w = (r, w') \<Longrightarrow> same_effects w w'" for s w r w'
    by (simp add: sqlite_store_def ro.withinD [OF sqlite_Find_reads])
  show "st_Find sqlite_store s w = (Inr rec, w') \<Longrightarrow> committed_binding w s = Some (rc_Binding rec)" for s w rec w'
    using sqlite_Find_Inr by (simp add: sqlite_store_def)
  show "committed_binding w' (rc_Selector rec) = Some (rc_Binding rec')"
    if run: "st_Reserve sqlite_store rec w = (Inr rec', w')" for rec w rec' w'
  proof -
    obtain v where "sqlite_Find (rc_Selector rec) v = (Inr rec', w')"
      using run by (auto simp: sqlite_store_def sqlite_Reserve_def op_bind_Inr op_fail_def split: if_splits)
    note found = sqlite_Find_Inr [OF this]
    then have "w_lineages w' = w_lineages v" by (simp add: same_effectsD(3))
    with found show ?thesis by (simp add: committed_binding_def)
  qed
  show "st_Reserve sqlite_store rec w = (r, w') \<Longrightarrow> committed_binding w s = Some b \<Longrightarrow> committed_binding w' s = Some b"
    for rec w r w' s b
    using sqlite_Reserve_keeps by (simp add: sqlite_store_def)
  show "w_lineages w' = w_lineages w \<Longrightarrow> committed_binding w' = committed_binding w" for w' w
    by (simp add: committed_binding_def fun_eq_iff)
qed

subsection \<open>Stability\<close>

text \<open>
  What can happen to a store between two calls: calls of the service, with any outcome; rows
  committed by other processes; and anything that leaves the table alone.
\<close>

inductive lineage_step :: "world \<Rightarrow> world \<Rightarrow> bool" where
  resolve: "ResolveOrReserveBase sqlite_store s w = (r, w') \<Longrightarrow> lineage_step w w'"
| restore: "RestoreStored (ow\<lparr>ow_service := sqlite_store\<rparr>) im l d w = (r', w') \<Longrightarrow> lineage_step w w'"
| other_process: "w_lineages w' = w_lineages w @ [row] \<Longrightarrow> lineage_step w w'"
| elsewhere: "w_lineages w' = w_lineages w \<Longrightarrow> lineage_step w w'"

lemma RestoreStored_reads: "ow_service ow = sqlite_store \<Longrightarrow> ro.keeps (RestoreStored ow im l d)"
  by (auto simp: RestoreStored_def Let_def sqlite_store_def sqlite_Find_reads resolved_reads ro.within_map_error)

lemma lineage_step_keeps: "lineage_step w w' \<Longrightarrow> sqlite.keeps w w'"
proof (induction rule: lineage_step.induct)
  case (resolve s w r w')
  then show ?case by (rule sqlite.kept.withinD [OF sqlite.resolve_keeps])
next
  case (restore ow im l d w r' w')
  then have "same_effects w w'" by (rule ro.withinD [OF RestoreStored_reads, rotated]) simp
  then show ?case by (rule sqlite.keeps_same)
next
  case (other_process w' w row)
  then have "find P (w_lineages w) = Some x \<Longrightarrow> find P (w_lineages w') = Some x" for P x
    by (simp add: find_append)
  then show ?case unfolding sqlite.keeps_def by (auto simp: committed_binding_def)
next
  case (elsewhere w' w)
  then show ?case by (rule sqlite.keeps_table)
qed

lemma lineage_steps_keep: "lineage_step\<^sup>*\<^sup>* w w' \<Longrightarrow> sqlite.keeps w w'"
proof (induction rule: rtranclp_induct)
  case base
  then show ?case by (rule sqlite.kept.rel_refl)
next
  case (step v u)
  then show ?case using lineage_step_keeps sqlite.kept.rel_trans by blast
qed

text \<open>
  C21: once a call has returned an identity for a base, every later successful call for the
  same selector returns the same identity, whatever other calls failed or competed in between.
\<close>

theorem identity_is_stable:
  assumes "ResolveOrReserveBase sqlite_store s w = (Inr b, w1)" and "lineage_step\<^sup>*\<^sup>* w1 w2"
    and "ResolveOrReserveBase sqlite_store s w2 = (Inr b', w3)"
  shows "b' = b"
  using sqlite.resolve_stable [OF assms(1) lineage_steps_keep [OF assms(2)] assms(3)] .

text \<open>
  When several processes reserve one base, a reservation that comes second succeeds with
  the identity that was committed first, never with its own candidate.
\<close>

theorem second_reservation_returns_winner:
  assumes "sqlite_Reserve first w = (Inr won, w1)" and "lineage_step\<^sup>*\<^sup>* w1 w2"
    and "rc_Selector second = rc_Selector first" and "sqlite_Reserve second w2 = (Inr got, w3)"
  shows "rc_Binding got = rc_Binding won"
proof -
  have res: "st_Reserve sqlite_store r v = sqlite_Reserve r v" for r v by (simp add: sqlite_store_def)
  have "committed_binding w1 (rc_Selector first) = Some (rc_Binding won)"
    using sqlite.reserve_committed [of first w won w1] assms(1) by (simp add: res)
  then have "committed_binding w2 (rc_Selector first) = Some (rc_Binding won)"
    using lineage_steps_keep [OF assms(2)] by (simp add: sqlite.keeps_def)
  then have "committed_binding w3 (rc_Selector first) = Some (rc_Binding won)"
    using sqlite.reserve_keeps [of second w2 _ w3] assms(4) by (simp add: res)
  moreover have "committed_binding w3 (rc_Selector first) = Some (rc_Binding got)"
    using sqlite.reserve_committed [of second w2 got w3] assms(3,4) by (simp add: res)
  ultimately show ?thesis by simp
qed

text \<open>
  restoring a base for a stored job writes nothing and returns the committed binding of the
  exact selector, and only when the job's lineage and digest are those of that binding.
\<close>

theorem restore_is_exact:
  assumes "ow_service ow = sqlite_store" and "RestoreStored ow im l d w = (Inr sel, w')"
  shows "same_effects w w' \<and> (\<exists>b. sel = selectedBase (Owner_selector ow im) b
     \<and> committed_binding w (Owner_selector ow im) = Some b \<and> IdentityBinding_Validate b
     \<and> mi_LineageRef (ib_ManagedIdentity b) = l \<and> ib_IdentityDigest b = d)"
  by (rule sqlite.restore_exact [OF assms(2,1)])

subsection \<open>Reservations succeed\<close>

definition lineages_valid :: "world \<Rightarrow> bool" where
  "lineages_valid w \<longleftrightarrow> (\<forall>r \<in> set (w_lineages w). lr_created_at r \<noteq> None \<and> lr_created_at r \<noteq> Some 0
     \<and> BaseSelector_Validate (row_selector r) \<and> IdentityBinding_Validate (row_binding r))"

text \<open>What a run without failures leaves behind.\<close>

definition healthy :: "world \<Rightarrow> world \<Rightarrow> bool" where
  "healthy w w' \<longleftrightarrow> no_faults w' \<and> lineages_valid w' \<and> w_domain w' = w_domain w \<and> w_now w' = w_now w"

lemma healthy_same: "healthy w v \<Longrightarrow> same_effects v v' \<Longrightarrow> healthy w v'"
  using no_faults_same [of v v'] same_effectsD [of v v'] by (simp add: healthy_def lineages_valid_def)

lemma healthy_trans: "healthy u v \<Longrightarrow> healthy v w \<Longrightarrow> healthy u w"
  by (simp add: healthy_def)

lemma scan_valid:
  assumes "lineages_valid w" and "r \<in> set (w_lineages w)"
  shows "\<exists>rec. scanLineage (Some r) v = (Inr rec, v) \<and> rc_Selector rec = row_selector r \<and> rc_Binding rec = row_binding r
     \<and> Record_Validate rec"
  using assms by (auto simp: lineages_valid_def scanLineage_def Record_Validate_def op_return_def op_fail_def Let_def)

lemma sqlite_Find_no_faults:
  assumes "no_faults w" and "lineages_valid w" and "BaseSelector_Validate s"
  shows "\<exists>v. same_effects w v \<and> (case find (\<lambda>r. row_selector r = s) (w_lineages w) of
      None \<Rightarrow> sqlite_Find s w = (Inl (ErrIdentity IdentityNotFound), v)
    | Some r \<Rightarrow> (\<exists>rec. sqlite_Find s w = (Inr rec, v) \<and> rc_Selector rec = s \<and> rc_Binding rec = row_binding r
        \<and> Record_Validate rec))"
proof -
  let ?v = "w\<lparr>w_calls := Suc (w_calls w)\<rparr>"
  have "sqlite_Find s w = scanLineage (find (\<lambda>r. row_selector r = s) (w_lineages w)) ?v"
    using assms(1,3) by (simp add: sqlite_Find_def op_simps asks_no_faults)
  moreover have "same_effects w ?v" by (auto simp: same_effects_iff)
  ultimately show ?thesis
  proof (cases "find (\<lambda>r. row_selector r = s) (w_lineages w)")
    case None
    then have "sqlite_Find s w = (Inl (ErrIdentity IdentityNotFound), ?v)"
      using \<open>sqlite_Find s w = _\<close> by (simp add: scanLineage_def op_fail_def)
    with None \<open>same_effects w ?v\<close> show ?thesis by (intro exI [of _ ?v]) simp
  next
    case (Some r)
    then have "r \<in> set (w_lineages w)" "row_selector r = s" by (auto simp: find_Some_iff)
    with scan_valid [OF assms(2), of r ?v] Some \<open>sqlite_Find s w = _\<close> \<open>same_effects w ?v\<close>
    show ?thesis by (intro exI [of _ ?v]) simp
  qed
qed

lemma resolved_no_faults:
  "no_faults w \<Longrightarrow> Record_Validate rec \<Longrightarrow> rc_Selector rec = s \<Longrightarrow>
     resolved rec s [] w = (Inr (rc_Binding rec), w\<lparr>w_calls := Suc (w_calls w)\<rparr>)"
  by (simp add: resolved_def op_simps check_ctx_no_faults)

definition next_lineage :: "world \<Rightarrow> bytes" where
  "next_lineage w = ''lineage_'' @ hex_EncodeToString (map (w_entropy w) [w_drawn w..<w_drawn w + 16])"

lemma generate_no_faults:
  assumes "no_faults w"
  shows "\<exists>c n. generate_candidate w = (Inr c, w\<lparr>w_calls := n, w_drawn := w_drawn w + 16\<rparr>)
     \<and> IdentityBinding_Validate c \<and> mi_LineageRef (ib_ManagedIdentity c) = next_lineage w"
proof -
  let ?bs = "map (w_entropy w) [w_drawn w..<w_drawn w + 16]"
  obtain c where c: "Generate ?bs = Inr c" and l: "mi_LineageRef (ib_ManagedIdentity c) = next_lineage w"
    by (simp add: Generate_def Let_def next_lineage_def)
  have "generate_candidate w = (Inr c, w\<lparr>w_calls := Suc (w_calls w), w_drawn := w_drawn w + 16\<rparr>)"
    using assms c by (simp add: generate_candidate_def op_simps read_entropy_def draw_def outgoing_no_faults)
  then show ?thesis using Generate_valid [OF c] l by blast
qed

lemma Reserve_no_faults:
  assumes "no_faults w" and "lineages_valid w" and "Record_Validate rec" and "bs_DomainRef (rc_Selector rec) = w_domain w"
    and "find (\<lambda>r. row_selector r = rc_Selector rec) (w_lineages w) = None"
    and "mi_LineageRef (ib_ManagedIdentity (rc_Binding rec)) \<notin> lr_lineage_ref ` set (w_lineages w)"
  shows "\<exists>rec' w'. sqlite_Reserve rec w = (Inr rec', w') \<and> rc_Selector rec' = rc_Selector rec \<and> Record_Validate rec' \<and> healthy w w'"
proof -
  let ?row = "lineage_row rec" and ?w = "w\<lparr>w_calls := Suc (w_calls w), w_lineages := w_lineages w @ [lineage_row rec]\<rparr>"
  have sel: "row_selector ?row = rc_Selector rec" and lin: "lr_lineage_ref ?row = mi_LineageRef (ib_ManagedIdentity (rc_Binding rec))"
    and dom: "lr_domain_ref ?row = bs_DomainRef (rc_Selector rec)"
    by (simp_all add: row_selector_def lineage_row_def)
  have eng: "mi_EngineKind (ib_ManagedIdentity (rc_Binding rec)) = bs_EngineKind (rc_Selector rec)"
    "mi_PolicyVersion (ib_ManagedIdentity (rc_Binding rec)) = bs_PolicyVersion (rc_Selector rec)"
    using assms(3) by (simp_all add: Record_Validate_def IdentityBinding_Validate_def BaseSelector_Validate_def)
  have bind: "row_binding ?row = rc_Binding rec"
    using eng by (simp add: row_binding_def lineage_row_def)
  have fresh: "row_selector ?row \<notin> row_selector ` set (w_lineages w)"
    using assms(5) by (auto simp: sel find_None_iff)
  have ins: "insert_lineage ?row w = (Inr (), ?w)"
    using assms(1,4,6) fresh by (simp add: insert_lineage_def outgoing_no_faults dom lin)
  have valid: "lineages_valid ?w"
    using assms(2,3) sel bind by (auto simp: lineages_valid_def Record_Validate_def lineage_row_def)
  have nf: "no_faults ?w" using assms(1) by (simp add: no_faults_def)
  have "healthy w ?w" using nf valid by (simp add: healthy_def)
  have found: "find (\<lambda>r. row_selector r = rc_Selector rec) (w_lineages ?w) = Some ?row"
  proof -
    have "find P xs = None \<Longrightarrow> P x \<Longrightarrow> find P (xs @ [x]) = Some x" for P and xs :: "LineageRow list" and x
      by (induction xs) (auto split: if_splits)
    then show ?thesis using assms(5) sel by simp
  qed
  have "BaseSelector_Validate (rc_Selector rec)" using assms(3) by (simp add: Record_Validate_def)
  then obtain v rec' where v: "same_effects ?w v" "sqlite_Find (rc_Selector rec) ?w = (Inr rec', v)"
    "rc_Selector rec' = rc_Selector rec" "Record_Validate rec'"
    using sqlite_Find_no_faults [OF nf valid] found by fastforce
  then have "sqlite_Reserve rec w = (Inr rec', v)"
    using assms(3) by (simp add: sqlite_Reserve_def op_simps ins)
  moreover have "healthy w v" using healthy_same [OF \<open>healthy w ?w\<close> v(1)] .
  ultimately show ?thesis using v by blast
qed

lemma resolve_no_faults:
  assumes "no_faults w" and "lineages_valid w" and "BaseSelector_Validate s" and "bs_DomainRef s = w_domain w"
    and "w_now w \<noteq> 0" and "committed_binding w s \<noteq> None \<or> next_lineage w \<notin> lr_lineage_ref ` set (w_lineages w)"
  shows "\<exists>b w'. ResolveOrReserveBase sqlite_store s w = (Inr b, w') \<and> healthy w w'"
proof -
  let ?w = "w\<lparr>w_calls := Suc (w_calls w)\<rparr>"
  have find: "st_Find sqlite_store = sqlite_Find" and res: "st_Reserve sqlite_store = sqlite_Reserve"
    by (simp_all add: sqlite_store_def)
  have w1: "no_faults ?w" "lineages_valid ?w" using assms(1,2) by (simp_all add: lineages_valid_def)
  obtain v where v: "same_effects ?w v" and f: "case find (\<lambda>r. row_selector r = s) (w_lineages ?w) of
      None \<Rightarrow> sqlite_Find s ?w = (Inl (ErrIdentity IdentityNotFound), v)
    | Some r \<Rightarrow> (\<exists>rec. sqlite_Find s ?w = (Inr rec, v) \<and> rc_Selector rec = s \<and> rc_Binding rec = row_binding r \<and> Record_Validate rec)"
    using sqlite_Find_no_faults [OF w1 assms(3)] by blast
  have nv: "no_faults v" using no_faults_same [OF v w1(1)] .
  have "healthy w ?w" using w1 by (simp add: healthy_def)
  then have hv: "healthy w v" using v by (rule healthy_same)
  have calls: "same_effects x (x\<lparr>w_calls := n\<rparr>)" for x n by (auto simp: same_effects_iff)
  show ?thesis
  proof (cases "find (\<lambda>r. row_selector r = s) (w_lineages w)")
    case (Some r)
    then obtain rec where "sqlite_Find s ?w = (Inr rec, v)" "rc_Selector rec = s" "Record_Validate rec" using f by auto
    then show ?thesis
      using assms(1,3) resolved_no_faults [OF nv] healthy_same [OF hv calls]
      by (simp add: ResolveOrReserveBase_def op_simps check_ctx_no_faults find)
  next
    case None
    then have nf: "sqlite_Find s ?w = (Inl (ErrIdentity IdentityNotFound), v)" using f by simp
    let ?v = "v\<lparr>w_calls := Suc (w_calls v)\<rparr>"
    obtain c n where c: "generate_candidate ?v = (Inr c, ?v\<lparr>w_calls := n, w_drawn := w_drawn ?v + 16\<rparr>)"
      "IdentityBinding_Validate c" "mi_LineageRef (ib_ManagedIdentity c) = next_lineage ?v"
      using generate_no_faults [of ?v] nv by auto
    let ?u = "?v\<lparr>w_calls := n, w_drawn := w_drawn ?v + 16\<rparr>"
    let ?rec = "\<lparr>rc_Selector = s, rc_Binding = c, rc_CreatedAt = w_now v\<rparr>"
    let ?x = "?u\<lparr>w_calls := Suc (w_calls ?u)\<rparr>"
    have same: "w_lineages v = w_lineages w" "w_domain v = w_domain w" "w_now v = w_now w" "w_entropy v = w_entropy w" "w_drawn v = w_drawn w"
      using same_effectsD [OF v] by simp_all
    have x: "no_faults ?x" using nv by (simp add: no_faults_def)
    have "lineages_valid ?x" using assms(2) same by (simp add: lineages_valid_def)
    moreover have "Record_Validate ?rec" using assms(3,5) c(2) same by (simp add: Record_Validate_def)
    moreover have "next_lineage ?v = next_lineage w" using same by (simp add: next_lineage_def)
    ultimately obtain rec' y where y: "sqlite_Reserve ?rec ?x = (Inr rec', y)" "rc_Selector rec' = s" "Record_Validate rec'" "healthy ?x y"
      using Reserve_no_faults [OF x, of ?rec] assms(4,6) None same c(3) by (auto simp: committed_binding_def)
    have u: "no_faults ?u" using nv by (simp add: no_faults_def)
    have run: "ResolveOrReserveBase sqlite_store s w = resolved rec' s [] y"
      using assms(1,3) nv nf c(1) y(1) check_ctx_no_faults [OF u] check_ctx_no_faults [OF nv]
      by (simp add: ResolveOrReserveBase_def op_simps check_ctx_no_faults find res read_now_def)
    have "healthy w ?x" using hv x \<open>lineages_valid ?x\<close> same by (simp add: healthy_def)
    then have hy: "healthy w y" using y(4) by (rule healthy_trans)
    then have "no_faults y" by (simp add: healthy_def)
    then show ?thesis using run resolved_no_faults [OF _ y(3,2)] healthy_same [OF hy calls] by simp
  qed
qed

text \<open>
  when no call fails, the store is intact, the clock is set and the drawn lineage is not
  taken, every valid selector of the store's domain gets a valid identity, which is then committed.
\<close>

theorem reservation_succeeds:
  assumes "no_faults w" and "lineages_valid w" and "BaseSelector_Validate s" and "bs_DomainRef s = w_domain w"
    and "w_now w \<noteq> 0" and "committed_binding w s \<noteq> None \<or> next_lineage w \<notin> lr_lineage_ref ` set (w_lineages w)"
  shows "\<exists>b w'. ResolveOrReserveBase sqlite_store s w = (Inr b, w') \<and> IdentityBinding_Validate b
     \<and> committed_binding w' s = Some b"
  using resolve_no_faults [OF assms] sqlite.resolve_committed by blast

text \<open>
  The key of a base determines its selector and its identity: two bases with one key are the
  same base, unless the two hashed texts of the keys or of the identities are a SHA-256 collision.
\<close>

theorem base_key_determines_base:
  assumes "BaseKey s b = Inr k" and "BaseKey s' b' = Inr k"
  shows "(s = s' \<and> b = b')
     \<or> sha256_collision (concat (map encodeBytes (base_key_fields s b))) (concat (map encodeBytes (base_key_fields s' b')))
     \<or> sha256_collision (concat (map encodeBytes (identity_fields (ib_ManagedIdentity b))))
         (concat (map encodeBytes (identity_fields (ib_ManagedIdentity b'))))"
proof -
  have valid: "BaseSelector_Validate s" "BaseSelector_Validate s'" "IdentityBinding_Validate b" "IdentityBinding_Validate b'"
    and key: "hash_fields (base_key_fields s b) = hash_fields (base_key_fields s' b')"
    using assms by (auto simp: BaseKey_def split: if_splits)
  have fits: "\<forall>x \<in> set (base_key_fields s b) \<union> set (base_key_fields s' b'). fits64 x"
    using BaseSelector_fits [OF valid(1)] BaseSelector_fits [OF valid(2)] IdentityBinding_fits(5) valid(3,4)
    by (auto simp: base_key_fields_def) (simp add: fits64_def)
  have "length (base_key_fields s b) = length (base_key_fields s' b')" by (simp add: base_key_fields_def)
  from hash_fields_eqD [OF key this fits] consider (same) "base_key_fields s b = base_key_fields s' b'"
    | (collision) "sha256_collision (concat (map encodeBytes (base_key_fields s b))) (concat (map encodeBytes (base_key_fields s' b')))"
    by blast
  then show ?thesis
  proof cases
    case same
    then have s: "s = s'" and d: "ib_IdentityDigest b = ib_IdentityDigest b'"
      by (simp_all add: base_key_fields_def BaseSelector.equality)
    let ?i = "ib_ManagedIdentity b" and ?j = "ib_ManagedIdentity b'"
    have "hash_fields (identity_fields ?i) = hash_fields (identity_fields ?j)"
      using d valid(3,4) by (simp add: IdentityBinding_Validate_def ManagedIdentity_Digest_def identity_fields_def)
    moreover have "\<forall>x \<in> set (identity_fields ?i) \<union> set (identity_fields ?j). fits64 x"
      using IdentityBinding_fits(1-4) valid(3,4) by (auto simp: identity_fields_def) (simp add: fits64_def)
    ultimately have "identity_fields ?i = identity_fields ?j
        \<or> sha256_collision (concat (map encodeBytes (identity_fields ?i))) (concat (map encodeBytes (identity_fields ?j)))"
      using hash_fields_eqD [of "identity_fields ?i" "identity_fields ?j"] by (simp add: identity_fields_def)
    moreover have "identity_fields ?i = identity_fields ?j \<Longrightarrow> ?i = ?j"
      by (simp add: identity_fields_def ManagedIdentity.equality)
    ultimately show ?thesis using s d by (auto intro: IdentityBinding.equality)
  next
    case collision
    then show ?thesis by blast
  qed
qed

subsection \<open>An example store\<close>

definition ex_selector :: BaseSelector where
  "ex_selector = \<lparr>bs_DomainRef = ''store_1'', bs_EngineKind = ''postgres'',
     bs_ImageDigest = ''sha256:'' @ replicate 64 (CHR ''a''), bs_InitSpecDigest = replicate 64 (CHR ''0''),
     bs_PolicyVersion = PolicyVersion\<rparr>"

definition ex_store_world :: "byte \<Rightarrow> world" where
  "ex_store_world x = \<lparr>w_db = \<lparr>db_states = [], db_instances = [], db_names = []\<rparr>, w_domain = ''store_1'',
     w_lineages = [], w_access = [], w_bootstrap = [], w_secrets = [], w_operations = [], w_seals = [], w_bases = [], w_conns = (\<lambda>_. 0), w_removed = [], w_stopped = [],
     w_entropy = (\<lambda>_. x), w_drawn = 0, w_now = 1, w_fault = (\<lambda>_. None), w_calls = 0\<rparr>"

definition ex_binding :: "byte \<Rightarrow> IdentityBinding" where
  "ex_binding x = (case Generate (replicate 16 x) of Inr b \<Rightarrow> b)"

lemma ex_selector_valid: "BaseSelector_Validate ex_selector"
  by code_simp

lemma ex_binding_valid: "IdentityBinding_Validate (ex_binding x)"
proof -
  obtain b where b: "Generate (replicate 16 x) = Inr b" by (simp add: Generate_def Let_def)
  then show ?thesis using Generate_valid [OF b] by (simp add: ex_binding_def)
qed

lemma ex_world_ok:
  "no_faults (ex_store_world x)" "lineages_valid (ex_store_world x)" "bs_DomainRef ex_selector = w_domain (ex_store_world x)"
  "w_now (ex_store_world x) \<noteq> 0" "next_lineage (ex_store_world x) \<notin> lr_lineage_ref ` set (w_lineages (ex_store_world x))"
  by (simp_all add: ex_store_world_def ex_selector_def no_faults_def lineages_valid_def)

text \<open>Two calls in a row on an empty store.\<close>

lemma ex_resolves:
  obtains b w1 b' w2 where "ResolveOrReserveBase sqlite_store ex_selector (ex_store_world x) = (Inr b, w1)"
    and "ResolveOrReserveBase sqlite_store ex_selector w1 = (Inr b', w2)"
proof -
  obtain b w1 where 1: "ResolveOrReserveBase sqlite_store ex_selector (ex_store_world x) = (Inr b, w1)" "healthy (ex_store_world x) w1"
    using resolve_no_faults [of "ex_store_world x" ex_selector] ex_world_ok [of x] ex_selector_valid by blast
  have "committed_binding w1 ex_selector \<noteq> None" using sqlite.resolve_committed [OF 1(1)] by simp
  moreover have "no_faults w1" "lineages_valid w1" "bs_DomainRef ex_selector = w_domain w1" "w_now w1 \<noteq> 0"
    using 1(2) ex_world_ok [of x] by (simp_all add: healthy_def)
  ultimately obtain b' w2 where "ResolveOrReserveBase sqlite_store ex_selector w1 = (Inr b', w2)"
    using resolve_no_faults [of w1 ex_selector] ex_selector_valid by blast
  then show thesis using that 1(1) by blast
qed

theorem identity_is_stable_witness:
  "\<exists>b w1 w2. ResolveOrReserveBase sqlite_store ex_selector (ex_store_world (CHR ''x'')) = (Inr b, w1)
     \<and> ResolveOrReserveBase sqlite_store ex_selector w1 = (Inr b, w2)"
proof -
  obtain b w1 b' w2 where 1: "ResolveOrReserveBase sqlite_store ex_selector (ex_store_world (CHR ''x'')) = (Inr b, w1)"
    and 2: "ResolveOrReserveBase sqlite_store ex_selector w1 = (Inr b', w2)"
    by (rule ex_resolves)
  then show ?thesis using identity_is_stable [OF 1 rtranclp.rtrancl_refl 2] by blast
qed

theorem reservation_succeeds_witness:
  "\<exists>b w'. ResolveOrReserveBase sqlite_store ex_selector (ex_store_world (CHR ''x'')) = (Inr b, w')
     \<and> committed_binding w' ex_selector = Some b"
  using reservation_succeeds [OF ex_world_ok(1,2) ex_selector_valid ex_world_ok(3,4) disjI2 [OF ex_world_ok(5)]] by blast

definition ex_record :: "byte \<Rightarrow> Record" where
  "ex_record x = \<lparr>rc_Selector = ex_selector, rc_Binding = ex_binding x, rc_CreatedAt = 1\<rparr>"

lemma ex_record_ok: "Record_Validate (ex_record x)" "bs_DomainRef (rc_Selector (ex_record x)) = w_domain (ex_store_world y)"
  "rc_Selector (ex_record x) = ex_selector"
  using ex_selector_valid ex_binding_valid
  by (simp_all add: Record_Validate_def ex_record_def ex_store_world_def ex_selector_def)

lemma Reserve_taken_no_faults:
  assumes "no_faults w" and "lineages_valid w" and "Record_Validate rec" and "bs_DomainRef (rc_Selector rec) = w_domain w"
    and "committed_binding w (rc_Selector rec) \<noteq> None"
  shows "\<exists>rec' w'. sqlite_Reserve rec w = (Inr rec', w')"
proof -
  let ?w = "w\<lparr>w_calls := Suc (w_calls w)\<rparr>"
  obtain r where r: "find (\<lambda>r. row_selector r = rc_Selector rec) (w_lineages w) = Some r"
    using assms(5) by (auto simp: committed_binding_def)
  then have "r \<in> set (w_lineages w)" "row_selector r = rc_Selector rec" by (auto simp: find_Some_iff)
  then have "rc_Selector rec \<in> row_selector ` set (w_lineages w)" by (metis imageI)
  moreover have "row_selector (lineage_row rec) = rc_Selector rec" "lr_domain_ref (lineage_row rec) = bs_DomainRef (rc_Selector rec)"
    by (simp_all add: row_selector_def lineage_row_def)
  ultimately have ins: "insert_lineage (lineage_row rec) w = (Inr (), ?w)"
    using assms(1,4) by (simp add: insert_lineage_def outgoing_no_faults)
  have "no_faults ?w" "lineages_valid ?w" "BaseSelector_Validate (rc_Selector rec)"
    using assms(1-3) by (simp_all add: lineages_valid_def Record_Validate_def)
  from sqlite_Find_no_faults [OF this] obtain v rec' where "sqlite_Find (rc_Selector rec) ?w = (Inr rec', v)" using r by auto
  then show ?thesis using assms(3) by (simp add: sqlite_Reserve_def op_simps ins)
qed

theorem second_reservation_returns_winner_witness:
  "\<exists>won w1 got w2. sqlite_Reserve (ex_record (CHR ''x'')) (ex_store_world (CHR ''z'')) = (Inr won, w1)
     \<and> sqlite_Reserve (ex_record (CHR ''y'')) w1 = (Inr got, w2) \<and> rc_Binding got = rc_Binding won"
proof -
  let ?w = "ex_store_world (CHR ''z'')" and ?r = "ex_record (CHR ''x'')" and ?q = "ex_record (CHR ''y'')"
  have "find (\<lambda>r. row_selector r = rc_Selector ?r) (w_lineages ?w) = None" by (simp add: ex_store_world_def)
  moreover have "mi_LineageRef (ib_ManagedIdentity (rc_Binding ?r)) \<notin> lr_lineage_ref ` set (w_lineages ?w)"
    by (simp add: ex_store_world_def)
  ultimately obtain won w1 where 1: "sqlite_Reserve ?r ?w = (Inr won, w1)" "healthy ?w w1"
    using Reserve_no_faults [OF ex_world_ok(1,2) ex_record_ok(1,2)] by blast
  have "committed_binding w1 ex_selector = Some (rc_Binding won)"
    using sqlite.reserve_committed [of ?r ?w won w1] 1(1) by (simp add: sqlite_store_def ex_record_ok(3))
  moreover have "no_faults w1" "lineages_valid w1" "bs_DomainRef (rc_Selector ?q) = w_domain w1"
    using 1(2) ex_record_ok(2) by (simp_all add: healthy_def)
  ultimately obtain got w2 where 2: "sqlite_Reserve ?q w1 = (Inr got, w2)"
    using Reserve_taken_no_faults [of w1 ?q] ex_record_ok by auto
  have "rc_Binding got = rc_Binding won"
    by (rule second_reservation_returns_winner [OF 1(1) rtranclp.rtrancl_refl _ 2]) (simp add: ex_record_ok(3))
  then show ?thesis using 1(1) 2 by blast
qed

definition ex_owner :: Owner where
  "ex_owner = \<lparr>ow_service = sqlite_store, ow_domain = ''store_1'', ow_initDigest = replicate 64 (CHR ''0'')\<rparr>"

lemma restore_no_faults:
  assumes "ow_service ow = sqlite_store" and "no_faults w" and "lineages_valid w"
    and "BaseSelector_Validate (Owner_selector ow im)" and "committed_binding w (Owner_selector ow im) = Some b"
  shows "\<exists>w'. RestoreStored ow im (mi_LineageRef (ib_ManagedIdentity b)) (ib_IdentityDigest b) w
     = (Inr (selectedBase (Owner_selector ow im) b), w')"
proof -
  let ?s = "Owner_selector ow im" and ?w = "w\<lparr>w_calls := Suc (w_calls w)\<rparr>"
  obtain r where r: "find (\<lambda>r. row_selector r = ?s) (w_lineages ?w) = Some r" "row_binding r = b"
    using assms(5) by (auto simp: committed_binding_def)
  have w: "no_faults ?w" "lineages_valid ?w" using assms(2,3) by (simp_all add: lineages_valid_def)
  obtain v rec where v: "same_effects ?w v" and rec: "sqlite_Find ?s ?w = (Inr rec, v)" "rc_Selector rec = ?s" "rc_Binding rec = b"
    "Record_Validate rec"
    using sqlite_Find_no_faults [OF w assms(4)] r by auto
  have "IdentityBinding_Validate b" using rec by (simp add: Record_Validate_def)
  then have "referencePattern (mi_LineageRef (ib_ManagedIdentity b))" "digestPattern (ib_IdentityDigest b)"
    by (simp_all add: IdentityBinding_Validate_def ManagedIdentity_Digest_def)
  moreover have "resolved rec ?s (mi_LineageRef (ib_ManagedIdentity b)) v = (Inr b, v\<lparr>w_calls := Suc (w_calls v)\<rparr>)"
    using no_faults_same [OF v w(1)] rec by (simp add: resolved_def op_simps check_ctx_no_faults)
  ultimately show ?thesis
    using assms(1,2,4) rec(1)
    by (simp add: RestoreStored_def Let_def op_simps check_ctx_no_faults sqlite_store_def)
qed

theorem restore_is_exact_witness:
  "\<exists>b w1 w2. ResolveOrReserveBase sqlite_store ex_selector (ex_store_world (CHR ''x'')) = (Inr b, w1)
     \<and> RestoreStored ex_owner (bs_ImageDigest ex_selector) (mi_LineageRef (ib_ManagedIdentity b)) (ib_IdentityDigest b) w1
         = (Inr (selectedBase ex_selector b), w2) \<and> same_effects w1 w2"
proof -
  have sel: "Owner_selector ex_owner (bs_ImageDigest ex_selector) = ex_selector"
    by (simp add: Owner_selector_def ex_owner_def ex_selector_def)
  have ow: "ow_service ex_owner = sqlite_store" by (simp add: ex_owner_def)
  obtain b w1 where 1: "ResolveOrReserveBase sqlite_store ex_selector (ex_store_world (CHR ''x'')) = (Inr b, w1)"
    "healthy (ex_store_world (CHR ''x'')) w1"
    using resolve_no_faults [of "ex_store_world (CHR ''x'')" ex_selector] ex_world_ok ex_selector_valid by blast
  have "no_faults w1" "lineages_valid w1" using 1(2) by (simp_all add: healthy_def)
  then obtain w2 where 2: "RestoreStored ex_owner (bs_ImageDigest ex_selector) (mi_LineageRef (ib_ManagedIdentity b)) (ib_IdentityDigest b) w1
      = (Inr (selectedBase ex_selector b), w2)"
    using restore_no_faults [OF ow, of w1 "bs_ImageDigest ex_selector" b] sqlite.resolve_committed [OF 1(1)] ex_selector_valid
    by (auto simp: sel)
  have "same_effects w1 w2" using restore_is_exact [OF ow 2] by blast
  then show ?thesis using 1(1) 2 by blast
qed

theorem base_key_determines_base_witness:
  "\<exists>k. BaseKey ex_selector (ex_binding (CHR ''x'')) = Inr k
     \<and> ((ex_selector = ex_selector \<and> ex_binding (CHR ''x'') = ex_binding (CHR ''x''))
       \<or> sha256_collision (concat (map encodeBytes (base_key_fields ex_selector (ex_binding (CHR ''x'')))))
           (concat (map encodeBytes (base_key_fields ex_selector (ex_binding (CHR ''x'')))))
       \<or> sha256_collision (concat (map encodeBytes (identity_fields (ib_ManagedIdentity (ex_binding (CHR ''x''))))))
           (concat (map encodeBytes (identity_fields (ib_ManagedIdentity (ex_binding (CHR ''x'')))))))"
proof -
  obtain k where k: "BaseKey ex_selector (ex_binding (CHR ''x'')) = Inr k"
    using ex_selector_valid ex_binding_valid by (simp add: BaseKey_def)
  show ?thesis using base_key_determines_base [OF k k] k by blast
qed

end
