(* ===== verification/Instance_Access.thy ===== *)
theory Instance_Access
  imports Engine_World Declaration_Budget
begin

text \<open>
  \<^verbatim>\<open>internal/instanceaccess\<close>: private credentials (\<^verbatim>\<open>secrets.go\<close>, with the unix helpers of
  \<^verbatim>\<open>secrets_unix.go\<close>) and the lifecycle of an instance's access (\<^verbatim>\<open>service.go\<close>).

  The fence of \<^verbatim>\<open>fence.go\<close> runs one operation per instance at a time and honours
  cancellation while it waits, so an operation is modelled as a whole, preceded by
  two looks at its context.  Callbacks are operations, \<open>None\<close> a nil callback.  A
  pending temporary file is never visible under the name of a secret and is
  removed again; only the link that publishes it is kept in the world.
\<close>

subsection \<open>Secrets (secrets.go)\<close>

definition accessRefPattern :: "bytes \<Rightarrow> bool" where
  "accessRefPattern s \<longleftrightarrow> referencePattern s"

definition SecretBinding_Validate :: "SecretBinding \<Rightarrow> bool" where
  "SecretBinding_Validate b \<longleftrightarrow> accessRefPattern (sb_DomainRef b) \<and> accessRefPattern (sb_OwnerRef b)
     \<and> accessRefPattern (sb_Version b) \<and> length (sb_IdentityDigest b) = 64 \<and> list_all is_lower_hex (sb_IdentityDigest b)
     \<and> (sb_Purpose b = ''bootstrap'' \<or> sb_Purpose b = ''instance'')"

definition SecretBinding_Ref :: "SecretBinding \<Rightarrow> bytes" where
  "SecretBinding_Ref b = hex_EncodeToString (Sum256 (''local-access-secret.v1'' @ [char_of (0::nat)] @
     json_Marshal (JObject [(''DomainRef'', JString (sb_DomainRef b)), (''OwnerRef'', JString (sb_OwnerRef b)),
       (''IdentityDigest'', JString (sb_IdentityDigest b)), (''Version'', JString (sb_Version b)),
       (''Purpose'', JString (sb_Purpose b))])))"

definition secret_name :: "SecretBinding \<Rightarrow> bytes" where
  "secret_name b = SecretBinding_Ref b @ ''.json''"

definition Lstat :: "bytes \<Rightarrow> SecretFile op" where
  "Lstat name = outgoing (\<lambda>w. case find (\<lambda>f. sx_name f = name) (w_secrets w) of
     None \<Rightarrow> (Inl ErrNotExist, w) | Some f \<Rightarrow> (Inr f, w))"

definition io :: "engineError \<Rightarrow> unit op" where
  "io e = op_map_error (\<lambda>_. e) (asks (\<lambda>_. ()))"

definition record_ok :: "SecretBinding \<Rightarrow> secretRecord \<Rightarrow> bool" where
  "record_ok binding r \<longleftrightarrow> sc_Format r = ''local-access-secret.v1'' \<and> sc_Binding r = binding
     \<and> length (sc_Password r) = 64 \<and> list_all is_lower_hex (sc_Password r)"

definition Secrets_Resolve :: "SecretBinding \<Rightarrow> bytes op" where
  "Secrets_Resolve binding =
     (if \<not> SecretBinding_Validate binding then op_fail ErrInvalid
      else
       op_bind (op_map_error (\<lambda>e. if e = ErrNotExist then ErrNotFound else ErrUnavailable) (Lstat (secret_name binding))) (\<lambda>f.
       if \<not> sx_private f then op_fail ErrInvalid
       else
        op_bind (io ErrUnavailable) (\<lambda>_.
        op_bind (io ErrInvalid) (\<lambda>_.
        op_bind (io ErrUnavailable) (\<lambda>_.
        case sx_record f of None \<Rightarrow> op_fail ErrInvalid
        | Some r \<Rightarrow> if record_ok binding r then op_return (sc_Password r) else op_fail ErrInvalid)))))"

definition syncPrivateDirectory :: "unit op" where
  "syncPrivateDirectory = op_bind (io ErrUnavailable) (\<lambda>_. io ErrUnavailable)"

text \<open>The hard link never replaces a file.\<close>

definition Link :: "SecretFile \<Rightarrow> unit op" where
  "Link f = outgoing (\<lambda>w. if sx_name f \<in> sx_name ` set (w_secrets w) then (Inl ErrExist, w)
     else (Inr (), w\<lparr>w_secrets := w_secrets w @ [f]\<rparr>))"

definition secret_confirmed :: "SecretBinding \<Rightarrow> bytes op" where
  "secret_confirmed binding =
     op_bind (Secrets_Resolve binding) (\<lambda>secret. op_bind syncPrivateDirectory (\<lambda>_. op_return secret))"

text \<open>Creating, writing, syncing and closing the temporary file are the four calls before the link.\<close>

definition Secrets_Reserve :: "SecretBinding \<Rightarrow> bytes op" where
  "Secrets_Reserve binding =
     op_try (Secrets_Resolve binding) (\<lambda>r. case r of
        Inr secret \<Rightarrow> op_bind syncPrivateDirectory (\<lambda>_. op_return secret)
      | Inl e \<Rightarrow>
         if e \<noteq> ErrNotFound then op_fail e
         else
          op_bind (draw 32) (\<lambda>entropy.
          op_bind rand_Text (\<lambda>_.
          op_bind (io ErrUnavailable) (\<lambda>_.
          op_bind (io ErrUnavailable) (\<lambda>_.
          op_bind (io ErrUnavailable) (\<lambda>_.
          op_bind (io ErrUnavailable) (\<lambda>_.
          op_try (Link \<lparr>sx_name = secret_name binding, sx_private = True,
                   sx_record = Some \<lparr>sc_Format = ''local-access-secret.v1'', sc_Binding = binding,
                                     sc_Password = hex_EncodeToString entropy\<rparr>\<rparr>) (\<lambda>l.
          if l \<noteq> Inr () \<and> l \<noteq> Inl ErrExist then op_fail ErrUnavailable
          else secret_confirmed binding))))))))"

subsection \<open>Access records (service.go)\<close>

text \<open>The service itself is the domain it owns; its database and its secrets are in the world.\<close>

record Service =
  sv_domain :: bytes

definition secretBinding :: "Service \<Rightarrow> bytes \<Rightarrow> RuntimeBinding \<Rightarrow> SecretBinding" where
  "secretBinding s ref b = \<lparr>sb_DomainRef = sv_domain s, sb_OwnerRef = ref,
     sb_IdentityDigest = ib_IdentityDigest (rb_IdentityBinding b), sb_Version = rb_PhysicalIdentity b, sb_Purpose = ''instance''\<rparr>"

definition accessError :: "'a op" where
  "accessError = op_bind check_ctx (\<lambda>_. op_fail ErrUnavailable)"

definition op_access :: "'a op \<Rightarrow> 'a op" where
  "op_access m = op_try m (\<lambda>r. case r of Inl _ \<Rightarrow> accessError | Inr x \<Rightarrow> op_return x)"

definition lockInstance :: "bytes \<Rightarrow> unit op" where
  "lockInstance ref = op_bind check_ctx (\<lambda>_. check_ctx)"

definition binding_ok :: "Service \<Rightarrow> bytes \<Rightarrow> bytes \<Rightarrow> AccessBinding \<Rightarrow> bool" where
  "binding_ok s ref secretRef b \<longleftrightarrow> RuntimeBinding_Validate (ab_RuntimeBinding b) \<and> ab_InstanceRef b = ref
     \<and> ab_DomainRef b = sv_domain s \<and> ab_AccessVersion b = rb_PhysicalIdentity (ab_RuntimeBinding b)
     \<and> ab_SecretRef b = secretRef \<and> ab_SecretRef b = SecretBinding_Ref (secretBinding s ref (ab_RuntimeBinding b))"

definition load :: "Service \<Rightarrow> bytes \<Rightarrow> (AccessBinding \<times> bytes) op" where
  "load s ref =
     op_bind (op_access (asks (\<lambda>w. find (\<lambda>r. ar_instance_ref r = ref) (w_access w)))) (\<lambda>row.
      case row of None \<Rightarrow> op_fail ErrNotFound
      | Some r \<Rightarrow>
         (case ar_binding r of None \<Rightarrow> op_fail ErrInvalid
          | Some b \<Rightarrow> if binding_ok s ref (ar_secret_ref r) b then op_return (b, ar_stage r) else op_fail ErrInvalid))"

text \<open>The stages a row may move through, enforced by a trigger.\<close>

definition lifecycle :: "bytes \<Rightarrow> bytes \<Rightarrow> bool" where
  "lifecycle old new \<longleftrightarrow> new = old
     \<or> (old = ''reserved'' \<and> new \<in> {''applying'', ''retiring'', ''quarantined''})
     \<or> (old = ''applying'' \<and> new \<in> {''verified'', ''retiring'', ''quarantined''})
     \<or> (old = ''verified'' \<and> new \<in> {''retiring'', ''quarantined''})
     \<or> (old = ''quarantined'' \<and> new = ''retiring'')
     \<or> (old = ''retiring'' \<and> new = ''retired'')"

definition update_stage :: "bytes \<Rightarrow> bytes \<Rightarrow> bytes \<Rightarrow> nat op" where
  "update_stage ref from to = outgoing (\<lambda>w.
     if \<not> (\<exists>r \<in> set (w_access w). ar_instance_ref r = ref \<and> ar_stage r = from) then (Inr 0, w)
     else if \<not> lifecycle from to then (Inl ErrConstraint, w)
     else (Inr 1, w\<lparr>w_access := map (\<lambda>r. if ar_instance_ref r = ref \<and> ar_stage r = from
                                         then r\<lparr>ar_stage := to\<rparr> else r) (w_access w)\<rparr>))"

definition transition :: "bytes \<Rightarrow> bytes \<Rightarrow> bytes \<Rightarrow> unit op" where
  "transition ref from to =
     op_bind (op_access (update_stage ref from to)) (\<lambda>n. if n \<noteq> 1 then op_fail ErrConflict else op_return ())"

definition insert_access :: "AccessRow \<Rightarrow> unit op" where
  "insert_access row = outgoing (\<lambda>w.
     if ar_instance_ref row \<in> ar_instance_ref ` set (w_access w) \<or> ar_secret_ref row \<in> ar_secret_ref ` set (w_access w)
     then (Inl ErrConstraint, w)
     else (Inr (), w\<lparr>w_access := w_access w @ [row]\<rparr>))"

definition expected_binding :: "Service \<Rightarrow> bytes \<Rightarrow> RuntimeBinding \<Rightarrow> AccessBinding" where
  "expected_binding s ref b =
     (let sb = secretBinding s ref b in
      \<lparr>ab_RuntimeBinding = b, ab_InstanceRef = ref, ab_DomainRef = sv_domain s, ab_AccessVersion = sb_Version sb,
       ab_SecretRef = SecretBinding_Ref sb\<rparr>)"

text \<open>The first part of \<^verbatim>\<open>Activate\<close>: find the record or reserve one.\<close>

definition activation_record :: "Service \<Rightarrow> bytes \<Rightarrow> RuntimeBinding \<Rightarrow> (bytes \<times> bytes) op" where
  "activation_record s ref b =
     (let sb = secretBinding s ref b; expected = expected_binding s ref b in
      op_try (load s ref) (\<lambda>found. case found of
         Inl e \<Rightarrow>
           if e = ErrNotFound then
             op_bind (Secrets_Reserve sb) (\<lambda>secret.
             op_bind (op_access (insert_access \<lparr>ar_instance_ref = ref, ar_binding = Some expected,
                 ar_secret_ref = SecretBinding_Ref sb, ar_stage = ''reserved''\<rparr>)) (\<lambda>_.
             op_return (secret, ''reserved'')))
           else op_fail e
       | Inr (binding, stage) \<Rightarrow>
           if binding \<noteq> expected then op_fail ErrConflict
           else op_bind (Secrets_Resolve sb) (\<lambda>secret. op_return (secret, stage))))"

definition begin_applying :: "bytes \<Rightarrow> bytes \<Rightarrow> bytes op" where
  "begin_applying ref stage =
     (if stage = ''reserved'' then op_bind (transition ref stage ''applying'') (\<lambda>_. op_return ''applying'')
      else op_return stage)"

text \<open>The last part: apply the credentials, record the outcome, publish.\<close>

definition apply_and_publish :: "bytes \<Rightarrow> (bytes \<Rightarrow> unit op) \<Rightarrow> unit op \<Rightarrow> bytes \<Rightarrow> bytes \<Rightarrow> unit op" where
  "apply_and_publish ref apply publish secret stage =
     op_try (apply secret) (\<lambda>applied. case applied of
        Inl _ \<Rightarrow> op_try (transition ref stage ''quarantined'') (\<lambda>_. accessError)
      | Inr _ \<Rightarrow>
        op_bind check_ctx (\<lambda>_.
        op_bind (if stage \<noteq> ''verified'' then transition ref stage ''verified'' else op_return ()) (\<lambda>_.
        op_access publish)))"

definition Activate ::
    "Service \<Rightarrow> bytes \<Rightarrow> RuntimeBinding \<Rightarrow> (bytes \<Rightarrow> unit op) option \<Rightarrow> unit op option \<Rightarrow> unit op" where
  "Activate s ref b apply_opt publish_opt =
     op_bind (lockInstance ref) (\<lambda>_.
      case (apply_opt, publish_opt) of
        (Some apply, Some publish) \<Rightarrow>
         if \<not> RuntimeBinding_Validate b \<or> \<not> accessRefPattern ref then op_fail ErrInvalid
         else
          op_bind (activation_record s ref b) (\<lambda>(secret, stage).
          if stage \<noteq> ''reserved'' \<and> stage \<noteq> ''applying'' \<and> stage \<noteq> ''verified'' then op_fail ErrConflict
          else op_bind (begin_applying ref stage) (apply_and_publish ref apply publish secret))
      | _ \<Rightarrow> op_fail ErrInvalid)"

definition Resolve :: "Service \<Rightarrow> bytes \<Rightarrow> RuntimeBinding \<Rightarrow> bytes op" where
  "Resolve s ref b =
     op_bind (lockInstance ref) (\<lambda>_.
     op_bind (load s ref) (\<lambda>(binding, stage).
     if stage \<noteq> ''verified'' \<or> ab_RuntimeBinding binding \<noteq> b \<or> ab_DomainRef binding \<noteq> sv_domain s then op_fail ErrConflict
     else Secrets_Resolve (secretBinding s ref b)))"

definition Use :: "Service \<Rightarrow> bytes \<Rightarrow> (AccessBinding \<Rightarrow> SecretBinding \<Rightarrow> unit op) option \<Rightarrow> unit op" where
  "Use s ref fn_opt =
     op_bind (lockInstance ref) (\<lambda>_.
     op_bind (load s ref) (\<lambda>(b, stage).
      case fn_opt of None \<Rightarrow> op_fail ErrConflict
      | Some fn \<Rightarrow>
         if stage \<noteq> ''verified'' then op_fail ErrConflict
         else
          op_bind (Secrets_Resolve (secretBinding s ref (ab_RuntimeBinding b))) (\<lambda>_.
          op_bind check_ctx (\<lambda>_.
          fn b (secretBinding s ref (ab_RuntimeBinding b))))))"

definition Lookup :: "Service \<Rightarrow> bytes \<Rightarrow> AccessBinding op" where
  "Lookup s ref =
     op_bind (lockInstance ref) (\<lambda>_.
     op_bind (load s ref) (\<lambda>(binding, stage).
     if stage \<noteq> ''verified'' then op_fail ErrConflict else op_return binding))"

definition RetireBound :: "Service \<Rightarrow> bytes \<Rightarrow> (AccessBinding \<Rightarrow> unit op) option \<Rightarrow> unit op" where
  "RetireBound s ref remove_opt =
     op_bind (lockInstance ref) (\<lambda>_.
     op_bind (load s ref) (\<lambda>(binding, stage).
      if stage = ''retired'' then op_return ()
      else
       op_bind (if stage \<noteq> ''retiring'' then transition ref stage ''retiring'' else op_return ()) (\<lambda>_.
       case remove_opt of None \<Rightarrow> op_fail ErrInvalid
       | Some remove \<Rightarrow>
          op_bind (op_access (remove binding)) (\<lambda>_. transition ref ''retiring'' ''retired''))))"

definition Retire :: "Service \<Rightarrow> bytes \<Rightarrow> unit op option \<Rightarrow> unit op" where
  "Retire s ref remove_opt =
     (case remove_opt of None \<Rightarrow> RetireBound s ref None | Some remove \<Rightarrow> RetireBound s ref (Some (\<lambda>_. remove)))"

subsection \<open>Bootstrap credentials\<close>

definition insert_bootstrap :: "BootstrapRow \<Rightarrow> unit op" where
  "insert_bootstrap row = outgoing (\<lambda>w.
     if bt_lineage_ref row \<in> bt_lineage_ref ` set (w_bootstrap w) \<or> bt_secret_ref row \<in> bt_secret_ref ` set (w_bootstrap w)
     then (Inl ErrConstraint, w)
     else (Inr (), w\<lparr>w_bootstrap := w_bootstrap w @ [row]\<rparr>))"

definition bootstrap_binding :: "Service \<Rightarrow> IdentityBinding \<Rightarrow> SecretBinding" where
  "bootstrap_binding s b = \<lparr>sb_DomainRef = sv_domain s, sb_OwnerRef = mi_LineageRef (ib_ManagedIdentity b),
     sb_IdentityDigest = ib_IdentityDigest b, sb_Version = ''bootstrap-v1'', sb_Purpose = ''bootstrap''\<rparr>"

definition Bootstrap :: "Service \<Rightarrow> IdentityBinding \<Rightarrow> bool \<Rightarrow> (SecretBinding \<times> bytes) op" where
  "Bootstrap s b reserve =
     (if \<not> IdentityBinding_Validate b then op_fail ErrInvalid
      else
       let sb = bootstrap_binding s b; lineage = mi_LineageRef (ib_ManagedIdentity b) in
       op_bind (op_access (asks (\<lambda>w. find (\<lambda>r. bt_lineage_ref r = lineage) (w_bootstrap w)))) (\<lambda>row.
        case row of
          None \<Rightarrow>
            if reserve then
              op_bind (Secrets_Reserve sb) (\<lambda>secret.
              op_bind (op_access (insert_bootstrap \<lparr>bt_lineage_ref = lineage, bt_binding = Some b,
                                                   bt_secret_ref = SecretBinding_Ref sb\<rparr>)) (\<lambda>_.
              op_return (sb, secret)))
            else op_fail ErrNotFound
        | Some r \<Rightarrow>
            if bt_binding r \<noteq> Some b \<or> bt_secret_ref r \<noteq> SecretBinding_Ref sb then op_fail ErrInvalid
            else op_bind (Secrets_Resolve sb) (\<lambda>secret. op_return (sb, secret))))"

end
