(* ===== verification/Runtime_Operations.thy ===== *)
theory Runtime_Operations
  imports Instance_Access
begin

text \<open>
  \<^verbatim>\<open>internal/instanceaccess/operations.go\<close>: the journal that assigns a physical target before
  any external mutation, the seals of captured states, and the generations of a base.
  Every operation holds the service mutex, so it runs as a whole.
\<close>

record Operation =
  op_Ref :: bytes
  op_Target :: bytes
  op_Source :: bytes
  op_PhysicalIdentity :: bytes
  op_RuntimeRef :: bytes
  op_Stage :: bytes
  op_Identity :: IdentityBinding

text \<open>\<^verbatim>\<open>filepath.IsAbs\<close> on unix.\<close>

definition IsAbs :: "bytes \<Rightarrow> bool" where
  "IsAbs path \<longleftrightarrow> HasPrefix path ''/''"

definition operation_of_row :: "OperationRow \<Rightarrow> IdentityBinding \<Rightarrow> Operation" where
  "operation_of_row r identity =
     \<lparr>op_Ref = or_operation_ref r, op_Target = or_target_path r, op_Source = or_source_ref r,
      op_PhysicalIdentity = or_physical_identity r, op_RuntimeRef = or_runtime_ref r, op_Stage = or_stage r,
      op_Identity = identity\<rparr>"

definition operation :: "bytes \<Rightarrow> Operation op" where
  "operation ref =
     op_bind (op_access (asks (\<lambda>w. find (\<lambda>r. or_operation_ref r = ref) (w_operations w)))) (\<lambda>row.
      case row of None \<Rightarrow> op_fail ErrNotFound
      | Some r \<Rightarrow>
         (case or_identity r of None \<Rightarrow> op_fail ErrInvalid
          | Some identity \<Rightarrow>
             if \<not> IdentityBinding_Validate identity \<or> \<not> accessRefPattern (or_physical_identity r) then op_fail ErrInvalid
             else op_return (operation_of_row r identity)))"

definition insert_operation :: "OperationRow \<Rightarrow> unit op" where
  "insert_operation row = outgoing (\<lambda>w.
     if or_operation_ref row \<in> or_operation_ref ` set (w_operations w)
        \<or> or_physical_identity row \<in> or_physical_identity ` set (w_operations w)
     then (Inl ErrConstraint, w)
     else (Inr (), w\<lparr>w_operations := w_operations w @ [row]\<rparr>))"

definition row_of_operation :: "Operation \<Rightarrow> OperationRow" where
  "row_of_operation op =
     \<lparr>or_operation_ref = op_Ref op, or_target_path = op_Target op, or_source_ref = op_Source op,
      or_identity = Some (op_Identity op), or_physical_identity = op_PhysicalIdentity op, or_runtime_ref = [],
      or_stage = ''assigned''\<rparr>"

definition Assign :: "bytes \<Rightarrow> bytes \<Rightarrow> bytes \<Rightarrow> IdentityBinding \<Rightarrow> Operation op" where
  "Assign ref target source identity =
     (if \<not> accessRefPattern ref \<or> \<not> IsAbs target \<or> source = [] \<or> \<not> IdentityBinding_Validate identity
      then op_fail ErrInvalid
      else
       op_try (operation ref) (\<lambda>found. case found of
          Inr op \<Rightarrow>
            if op_Target op \<noteq> target \<or> op_Source op \<noteq> source \<or> op_Identity op \<noteq> identity \<or> op_Stage op = ''retired''
            then op_fail ErrConflict else op_return op
        | Inl e \<Rightarrow>
            if e \<noteq> ErrNotFound then op_fail e
            else
             op_bind rand_Text (\<lambda>text.
             let op = \<lparr>op_Ref = ref, op_Target = target, op_Source = source, op_PhysicalIdentity = ''physical_'' @ text,
                       op_RuntimeRef = [], op_Stage = ''assigned'', op_Identity = identity\<rparr> in
             op_bind (op_access (insert_operation (row_of_operation op))) (\<lambda>_. op_return op))))"

text \<open>An update of the rows that satisfy a condition, and the count of rows it changed.\<close>

definition update_operations :: "(OperationRow \<Rightarrow> bool) \<Rightarrow> (OperationRow \<Rightarrow> OperationRow) \<Rightarrow> nat op" where
  "update_operations P f = outgoing (\<lambda>w. (Inr (length (filter P (w_operations w))),
     w\<lparr>w_operations := map (\<lambda>r. if P r then f r else r) (w_operations w)\<rparr>))"

definition operationResult :: "nat op \<Rightarrow> unit op" where
  "operationResult m = op_bind (op_access m) (\<lambda>n. if n \<noteq> 1 then op_fail ErrConflict else op_return ())"

definition BaseReady :: "Operation \<Rightarrow> unit op" where
  "BaseReady op = operationResult (update_operations
     (\<lambda>r. or_operation_ref r = op_Ref op \<and> or_physical_identity r = op_PhysicalIdentity op \<and> or_stage r = ''assigned'')
     (\<lambda>r. r\<lparr>or_stage := ''ready''\<rparr>))"

definition Attach :: "Operation \<Rightarrow> RuntimeBinding \<Rightarrow> unit op" where
  "Attach op b =
     (if \<not> RuntimeBinding_Validate b \<or> rb_IdentityBinding b \<noteq> op_Identity op
         \<or> rb_PhysicalIdentity b \<noteq> op_PhysicalIdentity op
      then op_fail ErrInvalid
      else operationResult (update_operations
        (\<lambda>r. or_operation_ref r = op_Ref op \<and> or_physical_identity r = op_PhysicalIdentity op
           \<and> or_stage r = ''assigned'' \<and> or_runtime_ref r = [])
        (\<lambda>r. r\<lparr>or_runtime_ref := rb_RuntimeRef b, or_stage := ''running''\<rparr>)))"

subsection \<open>Seals\<close>

definition insert_seal :: "SealRow \<Rightarrow> unit op" where
  "insert_seal row = outgoing (\<lambda>w.
     if sl_state_id row \<in> sl_state_id ` set (w_seals w) then (Inr (), w)
     else (Inr (), w\<lparr>w_seals := w_seals w @ [row]\<rparr>))"

text \<open>The replacement of a seal, guarded in the same statement by the absence of the state.\<close>

definition update_seal :: "bytes \<Rightarrow> SealRow \<Rightarrow> SealRow \<Rightarrow> nat op" where
  "update_seal state old new = outgoing (\<lambda>w.
     let P = (\<lambda>r. sl_state_id r = state \<and> sl_operation_ref r = sl_operation_ref old \<and> sl_binding r = sl_binding old
                \<and> state \<notin> sr_state_id ` set (db_states (w_db w))) in
     (Inr (length (filter P (w_seals w))),
      w\<lparr>w_seals := map (\<lambda>r. if P r then r\<lparr>sl_operation_ref := sl_operation_ref new, sl_binding := sl_binding new\<rparr> else r) (w_seals w)\<rparr>))"

definition RecordSeal :: "bytes \<Rightarrow> Operation \<Rightarrow> RuntimeBinding \<Rightarrow> unit op" where
  "RecordSeal state op b =
     op_bind (operation (op_Ref op)) (\<lambda>current.
     if op_Stage current \<noteq> ''running'' \<or> op_RuntimeRef current \<noteq> rb_RuntimeRef b
        \<or> op_PhysicalIdentity current \<noteq> rb_PhysicalIdentity b \<or> op_Identity current \<noteq> rb_IdentityBinding b
     then op_fail ErrConflict
     else
      let new = \<lparr>sl_state_id = state, sl_operation_ref = op_Ref op, sl_binding = Some b\<rparr> in
      op_bind (op_access (insert_seal new)) (\<lambda>_.
      op_bind (op_access (asks (\<lambda>w. find (\<lambda>r. sl_state_id r = state) (w_seals w)))) (\<lambda>row.
      case row of None \<Rightarrow> accessError
      | Some sealed \<Rightarrow>
         if sl_operation_ref sealed \<noteq> op_Ref op \<or> sl_binding sealed \<noteq> Some b then
           op_bind (operation (sl_operation_ref sealed)) (\<lambda>previous.
           if op_Stage previous \<noteq> ''retired'' \<or> op_Identity previous \<noteq> op_Identity current then op_fail ErrConflict
           else if sl_binding sealed \<noteq> Some \<lparr>rb_RuntimeRef = op_RuntimeRef previous,
               rb_PhysicalIdentity = op_PhysicalIdentity previous, rb_IdentityBinding = op_Identity previous\<rparr>
           then op_fail ErrConflict
           else operationResult (update_seal state sealed new))
         else op_return ())))"

definition CheckSeal :: "bytes \<Rightarrow> IdentityBinding \<Rightarrow> unit op" where
  "CheckSeal state identity =
     op_bind (op_access (asks (\<lambda>w. find (\<lambda>r. sl_state_id r = state) (w_seals w)))) (\<lambda>row.
      case row of None \<Rightarrow> accessError
      | Some r \<Rightarrow>
         (case sl_binding r of None \<Rightarrow> op_fail ErrInvalid
          | Some b \<Rightarrow> if \<not> RuntimeBinding_Validate b \<or> rb_IdentityBinding b \<noteq> identity then op_fail ErrInvalid
                      else op_return ()))"

definition RetireOperation :: "Operation \<Rightarrow> unit op" where
  "RetireOperation op = operationResult (update_operations
     (\<lambda>r. or_operation_ref r = op_Ref op \<and> or_physical_identity r = op_PhysicalIdentity op)
     (\<lambda>r. r\<lparr>or_stage := ''retired''\<rparr>))"

subsection \<open>Resuming a publication\<close>

definition ResumePublication :: "Service \<Rightarrow> bytes \<Rightarrow> (AccessBinding \<times> Operation) op" where
  "ResumePublication s ref =
     op_bind (lockInstance ref) (\<lambda>_.
     op_bind (load s ref) (\<lambda>(b, stage).
     if stage \<noteq> ''reserved'' \<and> stage \<noteq> ''applying'' \<and> stage \<noteq> ''verified'' then op_fail ErrConflict
     else
      op_bind (op_access (asks (\<lambda>w. find (\<lambda>r. or_physical_identity r = rb_PhysicalIdentity (ab_RuntimeBinding b)) (w_operations w)))) (\<lambda>row.
      case row of None \<Rightarrow> accessError
      | Some r \<Rightarrow>
         op_bind (operation (or_operation_ref r)) (\<lambda>op.
         if op_Stage op \<noteq> ''running'' \<or> op_RuntimeRef op \<noteq> rb_RuntimeRef (ab_RuntimeBinding b)
            \<or> op_Identity op \<noteq> rb_IdentityBinding (ab_RuntimeBinding b)
         then op_fail ErrConflict
         else op_bind (Secrets_Resolve (secretBinding s ref (ab_RuntimeBinding b))) (\<lambda>_. op_return (b, op))))))"

subsection \<open>Generations of a base\<close>

text \<open>
  The three statements are one transaction: it fails as a whole, by a fault or a constraint,
  or all of it is committed.
\<close>

definition new_generation :: "bytes \<Rightarrow> bytes \<Rightarrow> OperationRow \<Rightarrow> unit op" where
  "new_generation key current row = outgoing (\<lambda>w.
     let retired = (if current \<noteq> []
           then map (\<lambda>r. if or_operation_ref r = current \<and> or_stage r = ''ready'' then r\<lparr>or_stage := ''retired''\<rparr> else r) (w_operations w)
           else w_operations w) in
     if or_operation_ref row \<in> or_operation_ref ` set retired \<or> or_physical_identity row \<in> or_physical_identity ` set retired
     then (Inl ErrConstraint, w)
     else (Inr (), w\<lparr>w_operations := retired @ [row],
            w_bases := (key, or_operation_ref row) # filter (\<lambda>p. fst p \<noteq> key) (w_bases w)\<rparr>))"

definition assign_generation :: "bytes \<Rightarrow> bytes \<Rightarrow> bytes \<Rightarrow> IdentityBinding \<Rightarrow> Operation op" where
  "assign_generation key target current identity =
     op_bind rand_Text (\<lambda>physical.
     op_bind rand_Text (\<lambda>ref.
     let op = \<lparr>op_Ref = ''base_'' @ ref, op_Target = target, op_Source = key, op_PhysicalIdentity = ''physical_'' @ physical,
               op_RuntimeRef = [], op_Stage = ''assigned'', op_Identity = identity\<rparr> in
     op_bind (op_access (new_generation key current (row_of_operation op))) (\<lambda>_. op_return op)))"

definition BaseOperation :: "bytes \<Rightarrow> bytes \<Rightarrow> IdentityBinding \<Rightarrow> bool \<Rightarrow> Operation op" where
  "BaseOperation key target identity exists =
     (if \<not> accessRefPattern key \<or> \<not> IsAbs target \<or> \<not> IdentityBinding_Validate identity then op_fail ErrInvalid
      else
       op_bind (op_access (asks (\<lambda>w. map_of (w_bases w) key))) (\<lambda>found.
       let current = (case found of None \<Rightarrow> [] | Some c \<Rightarrow> c) in
       if current \<noteq> [] then
         op_bind (operation current) (\<lambda>op.
         if op_Target op \<noteq> target \<or> op_Identity op \<noteq> identity
            \<or> (op_Stage op \<noteq> ''assigned'' \<and> op_Stage op \<noteq> ''ready'')
         then op_fail ErrConflict
         else if exists \<or> op_Stage op = ''assigned'' then op_return op
         else assign_generation key target current identity)
       else if exists then op_fail ErrConflict
       else assign_generation key target [] identity))"

end
