(* ===== verification/Instance_Access_Props.thy ===== *)
theory Instance_Access_Props
  imports Instance_Access
begin

text \<open>
  What the access service promises: stages only move forward along the lifecycle and bindings
  never change, a retiring access is never granted again, publication happens
  only after verification, a failed application is never published, and a lost secret is never
  replaced.
\<close>

subsection \<open>Rows only move forward\<close>

definition access_row :: "world \<Rightarrow> bytes \<Rightarrow> AccessRow option" where
  "access_row w ref = find (\<lambda>r. ar_instance_ref r = ref) (w_access w)"

definition later_row :: "AccessRow \<Rightarrow> AccessRow \<Rightarrow> bool" where
  "later_row r r' \<longleftrightarrow> ar_instance_ref r' = ar_instance_ref r \<and> ar_binding r' = ar_binding r
     \<and> ar_secret_ref r' = ar_secret_ref r \<and> lifecycle\<^sup>*\<^sup>* (ar_stage r) (ar_stage r')"

definition forward :: "world \<Rightarrow> world \<Rightarrow> bool" where
  "forward w w' \<longleftrightarrow> (\<forall>ref r. access_row w ref = Some r \<longrightarrow> (\<exists>r'. access_row w' ref = Some r' \<and> later_row r r'))"

lemma later_row_refl [simp]: "later_row r r"
  by (simp add: later_row_def)

lemma later_row_trans: "later_row p q \<Longrightarrow> later_row q r \<Longrightarrow> later_row p r"
  by (auto simp: later_row_def)

lemma forward_same: "w_access w' = w_access w \<Longrightarrow> forward w w'"
  by (auto simp: forward_def access_row_def)

interpretation fwd: op_relation forward
proof unfold_locales
  show "forward u v \<Longrightarrow> forward v w \<Longrightarrow> forward u w" for u v w
    unfolding forward_def by (meson later_row_trans)
  show "forward w (w\<lparr>w_calls := n\<rparr>)" for w n by (rule forward_same) simp
qed (rule forward_same, simp)

lemma find_map_key: "\<forall>x. P (f x) = P x \<Longrightarrow> find P (map f xs) = map_option f (find P xs)"
  by (induction xs) auto

lemma find_app: "find P xs = Some x \<Longrightarrow> find P (xs @ ys) = Some x"
  by (induction xs) (auto split: if_splits)

lemma fwd_update_stage [simp]: "fwd.keeps (update_stage ref from to)"
  unfolding update_stage_def
proof (rule fwd.within_outgoing)
  fix w
  let ?f = "\<lambda>r. if ar_instance_ref r = ref \<and> ar_stage r = from then r\<lparr>ar_stage := to\<rparr> else r"
  have "forward w (w\<lparr>w_access := map ?f (w_access w)\<rparr>)" if lc: "lifecycle from to"
    unfolding forward_def
  proof (intro allI impI)
    fix i r assume r: "access_row w i = Some r"
    have "access_row (w\<lparr>w_access := map ?f (w_access w)\<rparr>) i = map_option ?f (access_row w i)"
      unfolding access_row_def by (simp add: find_map_key)
    moreover have "later_row r (?f r)" using lc by (auto simp: later_row_def)
    ultimately show "\<exists>r'. access_row (w\<lparr>w_access := map ?f (w_access w)\<rparr>) i = Some r' \<and> later_row r r'" using r by simp
  qed
  then show "forward w (snd (if \<not> (\<exists>r \<in> set (w_access w). ar_instance_ref r = ref \<and> ar_stage r = from) then (Inr 0, w)
     else if \<not> lifecycle from to then (Inl ErrConstraint, w)
     else (Inr 1, w\<lparr>w_access := map ?f (w_access w)\<rparr>)))"
    by (simp add: fwd.rel_refl)
qed

lemma fwd_insert_access [simp]: "fwd.keeps (insert_access row)"
  unfolding insert_access_def
proof (rule fwd.within_outgoing)
  fix w
  have "forward w (w\<lparr>w_access := w_access w @ [row]\<rparr>)"
    unfolding forward_def
  proof (intro allI impI)
    fix i r assume "access_row w i = Some r"
    then have "access_row (w\<lparr>w_access := w_access w @ [row]\<rparr>) i = Some r"
      unfolding access_row_def by (simp add: find_app)
    then show "\<exists>r'. access_row (w\<lparr>w_access := w_access w @ [row]\<rparr>) i = Some r' \<and> later_row r r'" by simp
  qed
  then show "forward w (snd (if ar_instance_ref row \<in> ar_instance_ref ` set (w_access w)
      \<or> ar_secret_ref row \<in> ar_secret_ref ` set (w_access w) then (Inl ErrConstraint, w)
     else (Inr (), w\<lparr>w_access := w_access w @ [row]\<rparr>)))"
    by (simp add: fwd.rel_refl)
qed

subsection \<open>Parts of the operations\<close>

text \<open>
  The parts below are shown to stay within any relation that their own effects respect;
  the relations used are \<open>forward\<close>, the unchanged secrets, and the unchanged world.
\<close>

locale access_relation = op_relation rel for rel :: "world \<Rightarrow> world \<Rightarrow> bool" +
  assumes rel_stage: "kept_relation.keeps rel (update_stage ref from to)"
begin

lemma within_io [simp]: "keeps (io e)"
  by (auto simp: io_def)

lemma within_access_error [simp]: "keeps accessError"
  by (auto simp: accessError_def)

lemma within_op_access [intro!]: "keeps m \<Longrightarrow> keeps (op_access m)"
  unfolding op_access_def by (rule within_try) (auto split: sum.split)

lemma within_lock [simp]: "keeps (lockInstance ref)"
  by (auto simp: lockInstance_def)

lemma within_load [simp]: "keeps (load s ref)"
  by (auto simp: load_def)

lemma within_transition [simp]: "keeps (transition ref from to)"
  unfolding transition_def using rel_stage by auto

lemma within_Lstat [simp]: "keeps (Lstat name)"
  unfolding Lstat_def by (rule within_outgoing) (auto simp: rel_refl split: option.split)

lemma within_Resolve [simp]: "keeps (Secrets_Resolve b)"
  by (auto simp: Secrets_Resolve_def)

lemma within_sync [simp]: "keeps syncPrivateDirectory"
  by (auto simp: syncPrivateDirectory_def)

lemma within_RetireBound:
  assumes "\<And>b. keeps (remove b)"
  shows "keeps (RetireBound s ref (Some remove))"
  using assms unfolding RetireBound_def option.case by auto

lemma within_Use:
  assumes "\<And>b sb. keeps (fn b sb)"
  shows "keeps (Use s ref (Some fn))"
  using assms unfolding Use_def option.case by auto

lemma within_reads_access: "keeps (Resolve s ref b)" "keeps (Lookup s ref)"
  by (auto simp: Resolve_def Lookup_def)

lemma within_Activate:
  assumes "\<And>sec. keeps (apply sec)" and "keeps publish" and "keeps (activation_record s ref b)"
  shows "keeps (Activate s ref b (Some apply) (Some publish))"
  using assms unfolding Activate_def begin_applying_def apply_and_publish_def by auto

end

interpretation fwd: access_relation forward
  by unfold_locales simp

interpretation keep_secrets: op_relation "\<lambda>w w'. w_secrets w' = w_secrets w"
  by unfold_locales simp_all

lemma keep_secrets_update_stage: "keep_secrets.keeps (update_stage ref from to)"
  unfolding update_stage_def by (rule keep_secrets.within_outgoing) auto

interpretation keep_secrets: access_relation "\<lambda>w w'. w_secrets w' = w_secrets w"
  by unfold_locales (rule keep_secrets_update_stage)

lemma fwd_draw [simp]: "fwd.keeps (draw n)" "fwd.keeps rand_Text"
proof -
  show "fwd.keeps (draw n)" for n
    unfolding fwd.keeps_def draw_def by (simp add: forward_same)
  then show "fwd.keeps rand_Text" by (auto simp: rand_Text_def)
qed

lemma fwd_Link [simp]: "fwd.keeps (Link f)"
  unfolding Link_def by (rule fwd.within_outgoing) (auto intro: forward_same)

lemma fwd_Reserve [simp]: "fwd.keeps (Secrets_Reserve b)"
  by (auto simp: Secrets_Reserve_def secret_confirmed_def)

lemma fwd_activation_record [simp]: "fwd.keeps (activation_record s ref b)"
  by (auto simp: activation_record_def Let_def)

subsection \<open>Retired access stays retired\<close>

text \<open>
  Runs of the service: any operation with any outcome, with callbacks that do not reach into
  the access table themselves, and anything else that leaves that table alone.
\<close>

definition leaves_access :: "'a op \<Rightarrow> bool" where
  "leaves_access m \<longleftrightarrow> (\<forall>w. w_access (snd (m w)) = w_access w)"

inductive access_step :: "world \<Rightarrow> world \<Rightarrow> bool" where
  activate: "(\<And>sec. leaves_access (apply sec)) \<Longrightarrow> leaves_access publish \<Longrightarrow>
     Activate s ref b (Some apply) (Some publish) w = (r, w') \<Longrightarrow> access_step w w'"
| retire: "(\<And>b. leaves_access (remove b)) \<Longrightarrow> RetireBound s ref (Some remove) w = (r, w') \<Longrightarrow> access_step w w'"
| grant: "(\<And>b sb. leaves_access (fn b sb)) \<Longrightarrow> Use s ref (Some fn) w = (r, w') \<Longrightarrow> access_step w w'"
| resolve: "Resolve s ref b w = (q, w') \<Longrightarrow> access_step w w'"
| elsewhere: "w_access w' = w_access w \<Longrightarrow> access_step w w'"

lemma leaves_access_fwd: "leaves_access m \<Longrightarrow> fwd.keeps m"
  by (simp add: leaves_access_def fwd.keeps_def forward_same)

lemma access_step_forward: "access_step w w' \<Longrightarrow> forward w w'"
proof (induction rule: access_step.induct)
  case (activate ap publish s ref b w r w')
  then show ?case by (intro fwd.withinD [OF fwd.within_Activate]) (simp_all add: leaves_access_fwd)
next
  case (retire remove s ref w r w')
  then show ?case by (intro fwd.withinD [OF fwd.within_RetireBound]) (simp_all add: leaves_access_fwd)
next
  case (grant fn s ref w r w')
  then show ?case by (intro fwd.withinD [OF fwd.within_Use]) (simp_all add: leaves_access_fwd)
next
  case (resolve s ref b w q w')
  then show ?case by (rule fwd.withinD [OF fwd.within_reads_access(1)])
next
  case (elsewhere w' w)
  then show ?case by (rule forward_same)
qed

lemma access_steps_forward: "access_step\<^sup>*\<^sup>* w w' \<Longrightarrow> forward w w'"
  by (induction rule: rtranclp_induct) (auto intro: fwd.rel_refl fwd.rel_trans access_step_forward)

lemma lifecycle_from_retiring:
  "lifecycle\<^sup>*\<^sup>* a b \<Longrightarrow> a = ''retiring'' \<or> a = ''retired'' \<Longrightarrow> b = ''retiring'' \<or> b = ''retired''"
  by (induction rule: rtranclp_induct) (auto simp: lifecycle_def)

text \<open>What \<^verbatim>\<open>load\<close> returns is the row's binding and stage.\<close>

lemma op_access_Inr: "op_access m w = (Inr x, w') \<longleftrightarrow> m w = (Inr x, w')"
proof -
  have "accessError v \<noteq> (Inr x, w')" for v by (auto simp: accessError_def op_bind_def op_fail_def split: prod.splits sum.splits)
  then show ?thesis by (auto simp: op_access_def op_try_def op_return_def split: prod.splits sum.splits)
qed

lemma op_access_error: "op_access m w = (Inl e, w') \<Longrightarrow> e = ErrCanceled \<or> e = ErrUnavailable"
  by (auto simp: op_access_def op_try_def op_return_def accessError_def op_bind_def op_fail_def check_ctx_def
      op_map_error_def split: prod.splits sum.splits)

lemma load_Inr:
  assumes "load s ref w = (Inr (b, stage), w')"
  obtains r where "access_row w ref = Some r" "ar_binding r = Some b" "ar_stage r = stage" "same_effects w w'"
    "binding_ok s ref (ar_secret_ref r) b"
proof -
  obtain row v where row: "asks (\<lambda>w. find (\<lambda>r. ar_instance_ref r = ref) (w_access w)) w = (Inr row, v)"
    and rest: "(case row of None \<Rightarrow> op_fail ErrNotFound
      | Some r \<Rightarrow> (case ar_binding r of None \<Rightarrow> op_fail ErrInvalid
          | Some b \<Rightarrow> if binding_ok s ref (ar_secret_ref r) b then op_return (b, ar_stage r) else op_fail ErrInvalid)) v
      = (Inr (b, stage), w')"
    using assms by (auto simp: load_def op_bind_Inr op_access_Inr)
  have v: "same_effects w v" "row = access_row w ref"
    using asks_Inr [OF row] same_effectsD(4) by (auto simp: access_row_def)
  with rest show thesis using that by (auto simp: op_fail_def op_return_def split: option.splits if_splits)
qed

subsection \<open>Activation\<close>

interpretation keep_access: op_relation "\<lambda>w w'. w_access w' = w_access w"
  by unfold_locales simp_all

lemma leaves_access_within: "leaves_access m \<longleftrightarrow> keep_access.keeps m"
  by (simp add: leaves_access_def keep_access.keeps_def)

lemma keep_access_readonly: "ro.keeps m \<Longrightarrow> keep_access.keeps m"
  by (simp add: ro.keeps_def keep_access.keeps_def same_effectsD(4))

lemma readonly_secrets: "ro.keeps (io e)" "ro.keeps (Secrets_Resolve b)" "ro.keeps syncPrivateDirectory" "ro.keeps (load s ref)"
  "ro.keeps (lockInstance ref)" "ro.keeps (accessError)"
proof -
  have lstat: "ro.keeps (Lstat n)" for n
    unfolding Lstat_def by (rule ro.within_outgoing) (simp split: option.split)
  show io: "ro.keeps (io e)" for e by (auto simp: io_def)
  show "ro.keeps (Secrets_Resolve b)" using lstat io by (auto simp: Secrets_Resolve_def)
  show "ro.keeps syncPrivateDirectory" using io by (auto simp: syncPrivateDirectory_def)
  have err: "ro.keeps accessError" by (auto simp: accessError_def)
  then show "ro.keeps accessError" .
  have "ro.keeps (op_access (asks f))" for f
    unfolding op_access_def by (rule ro.within_try) (auto simp: err)
  then show "ro.keeps (load s ref)" by (auto simp: load_def)
  show "ro.keeps (lockInstance ref)" by (auto simp: lockInstance_def)
qed

lemma keep_access_Reserve: "keep_access.keeps (Secrets_Reserve b)"
proof -
  have draw: "keep_access.keeps (draw n)" for n by (simp add: keep_access.keeps_def draw_def)
  then have rt: "keep_access.keeps rand_Text" by (auto simp: rand_Text_def)
  have link: "keep_access.keeps (Link f)" for f unfolding Link_def by (rule keep_access.within_outgoing) auto
  have conf: "keep_access.keeps (secret_confirmed b)"
    using keep_access_readonly [OF readonly_secrets(2)] keep_access_readonly [OF readonly_secrets(3)]
    by (auto simp: secret_confirmed_def)
  show ?thesis
    using draw rt link conf keep_access_readonly [OF readonly_secrets(1)] keep_access_readonly [OF readonly_secrets(2)]
      keep_access_readonly [OF readonly_secrets(3)]
    by (auto simp: Secrets_Reserve_def)
qed

lemma access_row_same: "w_access w' = w_access w \<Longrightarrow> access_row w' ref = access_row w ref"
  by (simp add: access_row_def)

text \<open>A record is missing only when there is no row.\<close>

lemma load_ErrNotFound:
  assumes "load s ref w = (Inl ErrNotFound, w')"
  shows "access_row w ref = None"
proof -
  from assms [unfolded load_def] show ?thesis
  proof (cases rule: op_bind_cases)
    case (1 e)
    then show ?thesis using op_access_error by fastforce
  next
    case (2 row v)
    have "asks (\<lambda>w. find (\<lambda>r. ar_instance_ref r = ref) (w_access w)) w = (Inr row, v)" using 2(1) by (simp add: op_access_Inr)
    then have "row = access_row w ref" using asks_Inr same_effectsD(4) by (fastforce simp: access_row_def)
    then show ?thesis using 2(2) by (auto simp: op_fail_def op_return_def split: option.splits if_splits)
  qed
qed

lemma activation_record_Inr:
  assumes "activation_record s ref b w = (Inr (secret, stage), w')"
  obtains r where "access_row w' ref = Some r" "ar_binding r = Some (expected_binding s ref b)" "ar_stage r = stage"
proof -
  let ?row = "\<lparr>ar_instance_ref = ref, ar_binding = Some (expected_binding s ref b),
     ar_secret_ref = SecretBinding_Ref (secretBinding s ref b), ar_stage = ''reserved''\<rparr>"
  obtain q v where q: "load s ref w = (q, v)" and rest: "(case q of
         Inl e \<Rightarrow>
           if e = ErrNotFound then
             op_bind (Secrets_Reserve (secretBinding s ref b)) (\<lambda>secret.
             op_bind (op_access (insert_access ?row)) (\<lambda>_. op_return (secret, ''reserved'')))
           else op_fail e
       | Inr (binding, stage) \<Rightarrow>
           if binding \<noteq> expected_binding s ref b then op_fail ErrConflict
           else op_bind (Secrets_Resolve (secretBinding s ref b)) (\<lambda>secret. op_return (secret, stage))) v = (Inr (secret, stage), w')"
    using assms unfolding activation_record_def Let_def by (auto elim!: op_try_cases)
  show thesis
  proof (cases q)
    case (Inl e)
    have nf: "e = ErrNotFound" using rest Inl by (auto simp: op_fail_def split: if_splits)
    then obtain x u where res: "Secrets_Reserve (secretBinding s ref b) v = (Inr x, u)"
      and ins: "insert_access ?row u = (Inr (), w')" and st: "stage = ''reserved''"
      using rest Inl by (auto simp: op_bind_Inr op_access_Inr op_return_def)
    have "w_access w' = w_access u @ [?row]"
      using ins by (auto simp: insert_access_def outgoing_def Let_def split: option.splits if_splits)
    moreover have "w_access u = w_access w"
      using keep_access.withinD [OF keep_access_Reserve res] ro.withinD [OF readonly_secrets(4) q] by (simp add: same_effectsD(4))
    moreover have "access_row w ref = None" using load_ErrNotFound q Inl nf by simp
    ultimately have "access_row w' ref = Some ?row"
    proof -
      have "find P xs = None \<Longrightarrow> P x \<Longrightarrow> find P (xs @ [x]) = Some x" for P and xs :: "AccessRow list" and x
        by (induction xs) (auto split: if_splits)
      with \<open>access_row w ref = None\<close> \<open>w_access w' = _\<close> \<open>w_access u = _\<close> show ?thesis by (simp add: access_row_def)
    qed
    from that [OF this] st show thesis by simp
  next
    case (Inr p)
    obtain binding st where p: "p = (binding, st)" by (cases p)
    then obtain x where "binding = expected_binding s ref b" "stage = st" and sec: "Secrets_Resolve (secretBinding s ref b) v = (Inr x, w')"
      using rest Inr by (auto simp: op_bind_Inr op_return_def op_fail_def split: if_splits)
    moreover obtain r where "access_row w ref = Some r" "ar_binding r = Some binding" "ar_stage r = st" "same_effects w v"
      using q Inr p by (auto elim: load_Inr)
    moreover have "same_effects v w'" using ro.withinD [OF readonly_secrets(2) sec] .
    ultimately show thesis using that by (simp add: access_row_def same_effectsD(4))
  qed
qed

text \<open>An access in retirement: no call that needs a verified one gets past its check.\<close>

definition in_retirement :: "world \<Rightarrow> bytes \<Rightarrow> bool" where
  "in_retirement w ref \<longleftrightarrow> (\<exists>r. access_row w ref = Some r \<and> ar_stage r \<in> {''retiring'', ''retired''})"

lemma in_retirement_forward: "in_retirement w ref \<Longrightarrow> forward w w' \<Longrightarrow> in_retirement w' ref"
  unfolding in_retirement_def forward_def later_row_def using lifecycle_from_retiring by fastforce

lemma load_in_retirement:
  assumes "in_retirement w ref"
  shows "(\<exists>e v. lockInstance ref w = (Inl e, v)) \<or> (\<exists>u e v. lockInstance ref w = (Inr (), u) \<and> load s ref u = (Inl e, v))
    \<or> (\<exists>u b st v. lockInstance ref w = (Inr (), u) \<and> load s ref u = (Inr (b, st), v) \<and> st \<in> {''retiring'', ''retired''})"
proof -
  obtain q u where q: "lockInstance ref w = (q, u)" by (cases "lockInstance ref w")
  obtain p v where p: "load s ref u = (p, v)" by (cases "load s ref u")
  have "same_effects w u" using q by (rule ro.withinD [rotated]) (auto simp: lockInstance_def)
  then have u: "access_row u ref = access_row w ref" by (simp add: access_row_def same_effectsD(4))
  have "st \<in> {''retiring'', ''retired''}" if "p = Inr (b, st)" for b st
    using assms u p that unfolding in_retirement_def by (auto elim!: load_Inr)
  then show ?thesis using q p by (cases q; cases p) auto
qed

lemma Activate_in_retirement:
  assumes "in_retirement w ref"
  shows "\<exists>e v. \<forall>apply publish. Activate s ref b (Some apply) (Some publish) w = (Inl e, v)"
proof -
  obtain q u where q: "lockInstance ref w = (q, u)" by (cases "lockInstance ref w")
  show ?thesis
  proof (cases "isl q \<or> \<not> RuntimeBinding_Validate b \<or> \<not> accessRefPattern ref")
    case True
    then show ?thesis using q by (cases q) (auto simp: Activate_def op_bind_def op_fail_def)
  next
    case False
    have u: "in_retirement u ref"
    proof -
      have "same_effects w u" using q by (rule ro.withinD [rotated]) (auto simp: lockInstance_def)
      then show ?thesis using assms by (simp add: in_retirement_def access_row_def same_effectsD(4))
    qed
    obtain p v where p: "activation_record s ref b u = (p, v)" by (cases "activation_record s ref b u")
    have "st \<in> {''retiring'', ''retired''}" if "p = Inr (sec, st)" for sec st
    proof -
      have "in_retirement v ref" by (rule in_retirement_forward [OF u fwd.withinD [OF fwd_activation_record p]])
      then show ?thesis using activation_record_Inr [OF p [unfolded that]] unfolding in_retirement_def by fastforce
    qed
    then show ?thesis using q p False
      by (cases q; cases p) (auto simp: Activate_def op_bind_def op_fail_def)
  qed
qed

text \<open>
  C11: once an access is being retired it is never granted again: after any sequence of
  operations, whatever failed in them, \<^verbatim>\<open>Use\<close>, \<^verbatim>\<open>Resolve\<close>, \<^verbatim>\<open>Lookup\<close> and \<^verbatim>\<open>Activate\<close> refuse it, without running
  a callback.
\<close>

theorem retired_access_is_final:
  assumes "access_row w ref = Some r" and "ar_stage r = ''retiring'' \<or> ar_stage r = ''retired''"
    and "access_step\<^sup>*\<^sup>* w w'"
  shows "\<exists>e v. (\<forall>fn. Use s ref (Some fn) w' = (Inl e, v)) \<and> (\<forall>b. \<exists>e' v'. Resolve s ref b w' = (Inl e', v'))
    \<and> (\<exists>e' v'. Lookup s ref w' = (Inl e', v'))
    \<and> (\<forall>b. \<exists>e' v'. \<forall>apply publish. Activate s ref b (Some apply) (Some publish) w' = (Inl e', v'))"
proof -
  have retired: "in_retirement w' ref"
    using in_retirement_forward [OF _ access_steps_forward [OF assms(3)], of ref] assms(1,2) by (auto simp: in_retirement_def)
  have "\<exists>e v. (\<forall>fn. Use s ref (Some fn) w' = (Inl e, v)) \<and> (\<forall>b. \<exists>e' v'. Resolve s ref b w' = (Inl e', v'))
    \<and> (\<exists>e' v'. Lookup s ref w' = (Inl e', v'))"
    using load_in_retirement [OF retired, of s] by (elim disjE exE conjE) (auto simp: Use_def Resolve_def Lookup_def op_bind_def op_fail_def)
  then show ?thesis using Activate_in_retirement [OF retired, of s] by blast
qed

lemma transition_Inr:
  assumes "transition ref old new w = (Inr (), w')"
  shows "(\<exists>r \<in> set (w_access w). ar_instance_ref r = ref \<and> ar_stage r = old) \<and> lifecycle old new
     \<and> w_access w' = map (\<lambda>r. if ar_instance_ref r = ref \<and> ar_stage r = old then r\<lparr>ar_stage := new\<rparr> else r) (w_access w)"
proof -
  obtain n where "update_stage ref old new w = (Inr n, w')" "n = 1"
    using assms by (auto simp: transition_def op_bind_Inr op_access_Inr op_return_def op_fail_def split: if_splits)
  then show ?thesis by (auto simp: update_stage_def outgoing_def Let_def split: option.splits if_splits)
qed

lemma transition_row:
  assumes "transition ref old new w = (Inr (), w')" and "access_row w ref = Some r" and "ar_stage r = old"
  shows "access_row w' ref = Some (r\<lparr>ar_stage := new\<rparr>)"
proof -
  let ?f = "\<lambda>r. if ar_instance_ref r = ref \<and> ar_stage r = old then r\<lparr>ar_stage := new\<rparr> else r"
  have "ar_instance_ref r = ref" using assms(2) by (auto simp: access_row_def find_Some_iff)
  moreover have "access_row w' ref = map_option ?f (access_row w ref)"
    using transition_Inr [OF assms(1)] by (simp add: access_row_def find_map_key)
  ultimately show ?thesis using assms(2,3) by simp
qed

lemma accessError_fails: "\<exists>e v. accessError w = (Inl e, v)"
  by (auto simp: accessError_def op_bind_def op_fail_def split: prod.splits sum.splits)

lemma accessError_not_Inr [simp]: "accessError w \<noteq> (Inr x, v)"
  by (auto simp: accessError_def op_bind_def op_fail_def split: prod.splits sum.splits)

text \<open>
  a successful activation has applied the credentials successfully and then published, and
  at the moment of publication the access record of the instance was verified and held
  exactly the expected binding.
\<close>

theorem published_access_is_verified:
  assumes "\<And>sec. leaves_access (ap sec)"
    and "Activate s ref b (Some ap) (Some publish) w = (Inr (), w')"
  shows "\<exists>secret u u' v r. ap secret u = (Inr (), u') \<and> publish v = (Inr (), w') \<and> access_row v ref = Some r
     \<and> ar_stage r = ''verified'' \<and> ar_binding r = Some (expected_binding s ref b)"
proof -
  obtain x secret stage0 y stage z where rec: "activation_record s ref b x = (Inr (secret, stage0), y)"
    and mid: "begin_applying ref stage0 y = (Inr stage, z)"
    and tail: "apply_and_publish ref ap publish secret stage z = (Inr (), w')"
    using assms(2) unfolding Activate_def by (auto simp: op_bind_Inr op_fail_def split: if_splits)
  obtain r0 where r0: "access_row y ref = Some r0" "ar_binding r0 = Some (expected_binding s ref b)" "ar_stage r0 = stage0"
    by (rule activation_record_Inr [OF rec])
  obtain r1 where r1: "access_row z ref = Some r1" "ar_binding r1 = ar_binding r0" "ar_stage r1 = stage"
  proof (cases "stage0 = ''reserved''")
    case True
    then have tr: "transition ref ''reserved'' ''applying'' y = (Inr (), z)" and "stage = ''applying''"
      using mid by (auto simp: begin_applying_def op_bind_Inr op_return_def)
    with transition_row [OF tr r0(1)] r0(3) True show thesis using that by simp
  next
    case False
    then show thesis using that mid r0 by (simp add: begin_applying_def op_return_def)
  qed
  obtain q u' where q: "ap secret z = (q, u')" by (cases "ap secret z")
  have "q = Inr ()"
  proof (cases q)
    case (Inl e)
    then show ?thesis using tail q unfolding apply_and_publish_def op_try_def by (auto split: prod.splits)
  qed simp
  then obtain v1 v where ctx: "check_ctx u' = (Inr (), v1)"
    and ver: "(if stage \<noteq> ''verified'' then transition ref stage ''verified'' else op_return ()) v1 = (Inr (), v)"
    and pub: "publish v = (Inr (), w')"
    using tail q unfolding apply_and_publish_def op_try_def by (auto simp: op_bind_Inr op_access_Inr)
  have "w_access u' = w_access z" using assms(1) [of secret] q unfolding leaves_access_def by (metis snd_conv)
  moreover have "w_access v1 = w_access u'" using ro.withinD [OF ro.within_reads(3) ctx] by (rule same_effectsD)
  ultimately have v1: "access_row v1 ref = Some r1" using r1(1) by (simp add: access_row_def)
  have "\<exists>r. access_row v ref = Some r \<and> ar_stage r = ''verified'' \<and> ar_binding r = ar_binding r1"
  proof (cases "stage = ''verified''")
    case True
    then show ?thesis using ver v1 r1(3) by (simp add: op_return_def)
  next
    case False
    then show ?thesis using transition_row [OF _ v1 r1(3)] ver by simp
  qed
  then show ?thesis using q \<open>q = Inr ()\<close> pub r1(2) r0(2) by metis
qed

lemma bind_fails_alike:
  assumes "\<And>x u. \<exists>e v. \<forall>p. f p x u = (Inl e, v)"
  shows "\<exists>e v. \<forall>p. op_bind m (f p) w = (Inl e, v)"
proof -
  obtain r u where m: "m w = (r, u)" by (cases "m w")
  show ?thesis
  proof (cases r)
    case (Inl e)
    then show ?thesis using m by (simp add: op_bind_def)
  next
    case (Inr x)
    then show ?thesis using assms [of x u] m by (simp add: op_bind_def)
  qed
qed

text \<open>
  When applying the credentials fails, the activation fails, and what is to be published
  makes no difference: it is not run.
\<close>

theorem failed_application_never_publishes:
  assumes "\<And>sec u. \<exists>e u'. ap sec u = (Inl e, u')"
  shows "\<exists>e v. \<forall>publish. Activate s ref b (Some ap) (Some publish) w = (Inl e, v)"
proof -
  have tail: "\<exists>e v. \<forall>publish. apply_and_publish ref ap publish secret stage u = (Inl e, v)" for secret stage u
  proof -
    obtain e u' where ap: "ap secret u = (Inl e, u')" using assms by blast
    obtain q x where t: "transition ref stage ''quarantined'' u' = (q, x)" by (cases "transition ref stage ''quarantined'' u'")
    obtain e' x' where "accessError x = (Inl e' :: engineError + unit, x')" using accessError_fails by blast
    then show ?thesis by (simp add: apply_and_publish_def op_try_def ap t)
  qed
  have rec: "\<exists>e v. \<forall>p. (\<lambda>(secret, stage).
      if stage \<noteq> ''reserved'' \<and> stage \<noteq> ''applying'' \<and> stage \<noteq> ''verified'' then op_fail ErrConflict
      else op_bind (begin_applying ref stage) (apply_and_publish ref ap p secret)) x u = (Inl e, v)" for x u
  proof -
    obtain sec st where x: "x = (sec, st)" by (cases x)
    show ?thesis
    proof (cases "st \<noteq> ''reserved'' \<and> st \<noteq> ''applying'' \<and> st \<noteq> ''verified''")
      case True
      then show ?thesis by (simp add: x op_fail_def)
    next
      case False
      have "(\<lambda>(secret, stage).
        if stage \<noteq> ''reserved'' \<and> stage \<noteq> ''applying'' \<and> stage \<noteq> ''verified'' then op_fail ErrConflict
        else op_bind (begin_applying ref stage) (apply_and_publish ref ap p secret)) x u
        = op_bind (begin_applying ref st) (apply_and_publish ref ap p sec) u" for p
        unfolding x prod.case by (rule if_not_P [THEN fun_cong]) (rule False)
      then show ?thesis using bind_fails_alike [of "\<lambda>p. apply_and_publish ref ap p sec", OF tail, of "begin_applying ref st" u] by simp
    qed
  qed
  have start: "\<exists>e v. \<forall>p. (if \<not> RuntimeBinding_Validate b \<or> \<not> accessRefPattern ref then op_fail ErrInvalid
      else op_bind (activation_record s ref b) (\<lambda>(secret, stage).
        if stage \<noteq> ''reserved'' \<and> stage \<noteq> ''applying'' \<and> stage \<noteq> ''verified'' then op_fail ErrConflict
        else op_bind (begin_applying ref stage) (apply_and_publish ref ap p secret))) u = (Inl e, v)" for u
  proof (cases "\<not> RuntimeBinding_Validate b \<or> \<not> accessRefPattern ref")
    case True
    then show ?thesis by (simp add: op_fail_def)
  next
    case False
    have "\<exists>e v. \<forall>p. op_bind (activation_record s ref b) (\<lambda>(secret, stage).
        if stage \<noteq> ''reserved'' \<and> stage \<noteq> ''applying'' \<and> stage \<noteq> ''verified'' then op_fail ErrConflict
        else op_bind (begin_applying ref stage) (apply_and_publish ref ap p secret)) u = (Inl e, v)"
      by (rule bind_fails_alike) (rule rec)
    with False show ?thesis by simp
  qed
  show ?thesis
    unfolding Activate_def prod.case option.case by (rule bind_fails_alike) (rule start)
qed

text \<open>
  a lost secret is never replaced: when the instance already has an access record, no
  activation creates or changes a secret file, whatever it finds and wherever it fails.
\<close>

theorem lost_secret_is_not_replaced:
  assumes "access_row w ref \<noteq> None" and "\<And>sec u. w_secrets (snd (ap sec u)) = w_secrets u"
    and "\<And>u. w_secrets (snd (publish u)) = w_secrets u"
    and "Activate s ref b (Some ap) (Some publish) w = (r, w')"
  shows "w_secrets w' = w_secrets w"
proof -
  have ap: "keep_secrets.keeps (ap sec)" for sec using assms(2) by (simp add: keep_secrets.keeps_def)
  have pub: "keep_secrets.keeps publish" using assms(3) by (simp add: keep_secrets.keeps_def)
  have rest: "keep_secrets.keeps ((\<lambda>(secret, stage).
      if stage \<noteq> ''reserved'' \<and> stage \<noteq> ''applying'' \<and> stage \<noteq> ''verified'' then op_fail ErrConflict
      else op_bind (begin_applying ref stage) (apply_and_publish ref ap publish secret)) x)" for x
    using ap pub by (cases x) (auto simp: begin_applying_def apply_and_publish_def)
  have rec: "w_secrets v' = w_secrets v" if "access_row v ref \<noteq> None" "activation_record s ref b v = (q, v')" for v q v'
  proof -
    obtain p u where p: "load s ref v = (p, u)" by (cases "load s ref v")
    have u: "w_secrets u = w_secrets v" using ro.withinD [OF readonly_secrets(4) p] by (rule same_effectsD)
    have "p \<noteq> Inl ErrNotFound" using load_ErrNotFound p that(1) by auto
    then have "w_secrets v' = w_secrets u"
      using that(2) p keep_secrets.withinD [OF keep_secrets.within_Resolve]
      by (auto simp: activation_record_def Let_def op_try_def op_fail_def op_return_def split: sum.splits if_splits
          elim!: op_bind_cases)
    with u show ?thesis by simp
  qed
  from assms(4) [unfolded Activate_def prod.case option.case] show ?thesis
  proof (cases rule: op_bind_cases)
    case (1 e)
    then show ?thesis using ro.withinD [OF readonly_secrets(5)] same_effectsD(6) by blast
  next
    case (2 x v)
    have v: "same_effects w v" using ro.withinD [OF readonly_secrets(5) 2(1)] .
    then have row: "access_row v ref \<noteq> None" using assms(1) by (simp add: access_row_def same_effectsD(4))
    show ?thesis
    proof (cases "\<not> RuntimeBinding_Validate b \<or> \<not> accessRefPattern ref")
      case True
      then have "w' = v" using 2(2) by (auto simp: op_fail_def)
      then show ?thesis using v by (simp add: same_effectsD(6))
    next
      case False
      note run = 2(2) [unfolded if_not_P [OF False]]
      from run show ?thesis
      proof (cases rule: op_bind_cases)
        case (1 e)
        then show ?thesis using rec [OF row] v by (simp add: same_effectsD(6))
      next
        case (2 y u)
        have "w_secrets u = w_secrets v" using rec [OF row 2(1)] .
        moreover have "w_secrets w' = w_secrets u" by (rule keep_secrets.withinD [OF rest 2(2)])
        ultimately show ?thesis using v by (simp add: same_effectsD(6))
      qed
    qed
  qed
qed

subsection \<open>Retirement\<close>

text \<open>
  The worlds of a retirement: \<open>lifecycle_only\<close> relates worlds that differ in nothing but the
  access table and the number of calls.
\<close>

definition lifecycle_only :: "world \<Rightarrow> world \<Rightarrow> bool" where
  "lifecycle_only w w' \<longleftrightarrow> w_db w' = w_db w \<and> w_domain w' = w_domain w \<and> w_lineages w' = w_lineages w
     \<and> w_bootstrap w' = w_bootstrap w \<and> w_secrets w' = w_secrets w \<and> w_operations w' = w_operations w
     \<and> w_seals w' = w_seals w \<and> w_bases w' = w_bases w \<and> w_conns w' = w_conns w \<and> w_removed w' = w_removed w
     \<and> w_stopped w' = w_stopped w \<and> w_entropy w' = w_entropy w \<and> w_drawn w' = w_drawn w \<and> w_now w' = w_now w
     \<and> w_fault w' = w_fault w"

lemma lifecycle_only_same: "same_effects w w' \<Longrightarrow> lifecycle_only w w'"
  by (simp add: lifecycle_only_def same_effectsD)

interpretation life: op_relation lifecycle_only
  by unfold_locales (auto simp: lifecycle_only_def)

lemma life_update_stage: "life.keeps (update_stage ref old new)"
  unfolding update_stage_def
  by (rule life.within_outgoing) (auto simp: lifecycle_only_def)

interpretation life: access_relation lifecycle_only
  by unfold_locales (rule life_update_stage)

lemma transition_cases:
  assumes "transition ref old new w = (q, w')"
  shows "(q \<noteq> Inr () \<and> w_access w' = w_access w) \<or>
     (q = Inr () \<and> w_access w' = map (\<lambda>r. if ar_instance_ref r = ref \<and> ar_stage r = old then r\<lparr>ar_stage := new\<rparr> else r) (w_access w))"
proof (cases "q = Inr ()")
  case True
  then show ?thesis using transition_Inr assms by simp
next
  case False
  have "w_access w' = w_access w"
    using assms [unfolded transition_def]
  proof (cases rule: op_bind_cases)
    case (1 e)
    from 1(1) obtain d v where upd: "update_stage ref old new w = (Inl d, v)" and err: "accessError v = (Inl e :: engineError + nat, w')"
      by (auto simp: op_access_def op_try_def op_return_def split: prod.splits sum.splits)
    have "w_access v = w_access w"
      using upd by (auto simp: update_stage_def outgoing_def Let_def split: option.splits if_splits)
    moreover have "same_effects v w'" using err by (rule ro.withinD [rotated]) (auto simp: accessError_def)
    ultimately show ?thesis by (simp add: same_effectsD(4))
  next
    case (2 n v)
    then have "n \<noteq> 1" "w' = v" using False by (auto simp: op_fail_def op_return_def split: if_splits)
    then show ?thesis using 2(1)
      by (auto simp: op_access_Inr update_stage_def outgoing_def Let_def split: option.splits if_splits)
  qed
  with False show ?thesis by simp
qed

definition no_new_retired :: "world \<Rightarrow> world \<Rightarrow> bool" where
  "no_new_retired w w' \<longleftrightarrow> (\<forall>row \<in> set (w_access w'). ar_stage row = ''retired'' \<longrightarrow> row \<in> set (w_access w))"

lemma no_new_retired_same: "w_access w' = w_access w \<Longrightarrow> no_new_retired w w'"
  by (simp add: no_new_retired_def)

lemma no_new_retired_transition: "transition ref old ''retiring'' w = (q, w') \<Longrightarrow> no_new_retired w w'"
  using transition_cases [of ref old "''retiring''" w q w'] by (auto simp: no_new_retired_def split: if_splits)

lemma removal_cases:
  assumes "op_bind (op_access (remove b)) (\<lambda>_. transition ref ''retiring'' ''retired'') v = (r, w')"
  obtains e v' where "remove b v = (Inl e, v')" "same_effects v' w'" "r \<noteq> Inr ()"
    | v' where "remove b v = (Inr (), v')" "transition ref ''retiring'' ''retired'' v' = (r, w')"
proof -
  obtain q v' where q: "remove b v = (q, v')" by (cases "remove b v")
  show thesis
  proof (cases q)
    case (Inl e)
    then obtain e' where "accessError v' = (Inl e' :: engineError + unit, w')" "r = Inl e'"
      using assms q accessError_fails [of v']
      by (auto simp: op_access_def op_try_def op_bind_def split: prod.splits sum.splits)
    moreover from this have "same_effects v' w'" by (intro ro.withinD [OF readonly_secrets(6)])
    ultimately show thesis using that(1) q Inl by simp
  next
    case (Inr n)
    then have "transition ref ''retiring'' ''retired'' v' = (r, w')"
      using assms q by (simp add: op_access_def op_try_def op_bind_def op_return_def)
    then show thesis using that(2) [of v'] q Inr by (cases n) simp
  qed
qed

text \<open>The move to \<open>retiring\<close>, when the access is not there yet.\<close>

lemma retiring_started:
  assumes "(if st \<noteq> ''retiring'' then transition ref st ''retiring'' else op_return ()) z = (q, v)" and "same_effects w z"
  shows "lifecycle_only w v \<and> no_new_retired w v"
proof (cases "st = ''retiring''")
  case True
  then show ?thesis using assms lifecycle_only_same no_new_retired_same same_effectsD(4) by (auto simp: op_return_def)
next
  case False
  then have tr: "transition ref st ''retiring'' z = (q, v)" using assms(1) by simp
  show ?thesis
    using life.rel_trans [OF lifecycle_only_same [OF assms(2)] life.withinD [OF life.within_transition tr]]
      no_new_retired_transition [OF tr] assms(2) by (simp add: no_new_retired_def same_effectsD(4))
qed

text \<open>
  A retirement is one of three runs: it never reaches the removal, and succeeds only when the
  access was retired before; or the removal fails, and it with it; or the removal
  succeeds and only the last transition is left.
\<close>

lemma RetireBound_cases:
  assumes "RetireBound s ref (Some remove) w = (r, w')"
  obtains (untouched) "lifecycle_only w w'" "no_new_retired w w'"
      "r = Inr () \<longrightarrow> (\<exists>row. access_row w ref = Some row \<and> ar_stage row = ''retired'')"
    | (failed) b v e v' where "lifecycle_only w v" "no_new_retired w v" "remove b v = (Inl e, v')" "same_effects v' w'" "r \<noteq> Inr ()"
    | (removed) b v v' where "lifecycle_only w v" "no_new_retired w v" "remove b v = (Inr (), v')"
        "transition ref ''retiring'' ''retired'' v' = (r, w')"
proof -
  have same: thesis if "same_effects w w'" "r \<noteq> Inr ()"
    using that untouched lifecycle_only_same no_new_retired_same same_effectsD(4) by blast
  from assms [unfolded RetireBound_def option.case] show thesis
  proof (cases rule: op_bind_cases)
    case (1 e)
    then show thesis using same ro.withinD [OF readonly_secrets(5)] by blast
  next
    case (2 x u)
    have u: "same_effects w u" using ro.withinD [OF readonly_secrets(5) 2(1)] .
    from 2(2) show thesis
    proof (cases rule: op_bind_cases)
      case (1 e)
      then show thesis using same ro.rel_trans [OF u] ro.withinD [OF readonly_secrets(4)] by blast
    next
      case (2 y z)
      obtain bd st where y: "y = (bd, st)" by (cases y)
      have z: "same_effects w z" using ro.rel_trans [OF u ro.withinD [OF readonly_secrets(4) 2(1)]] .
      obtain row where row: "access_row u ref = Some row" "ar_stage row = st" using load_Inr [OF 2(1) [unfolded y]] by blast
      have row': "access_row w ref = Some row" using row(1) u by (simp add: access_row_def same_effectsD(4))
      show thesis
      proof (cases "st = ''retired''")
        case True
        then have "w' = z" "r = Inr ()" using 2(2) y by (simp_all add: op_return_def)
        then show thesis using untouched z row' row(2) True lifecycle_only_same no_new_retired_same same_effectsD(4) by blast
      next
        case False
        note run = 2(2) [unfolded y prod.case if_not_P [OF False]]
        from run show thesis
        proof (cases rule: op_bind_cases)
          case (1 e)
          then show thesis using untouched retiring_started [OF 1(1) z] by simp
        next
          case (2 a v)
          note v = retiring_started [OF 2(1) z]
          from 2(2) show thesis
            by (cases rule: removal_cases) (use v failed removed in blast)+
        qed
      qed
    qed
  qed
qed

subsection \<open>An example instance\<close>

definition ex_identity :: IdentityBinding where
  "ex_identity = (case Generate (replicate 16 (CHR ''x'')) of Inr b \<Rightarrow> b)"

definition ex_runtime :: RuntimeBinding where
  "ex_runtime = \<lparr>rb_RuntimeRef = ''r1'', rb_PhysicalIdentity = ''p1'', rb_IdentityBinding = ex_identity\<rparr>"

definition ex_service :: Service where
  "ex_service = \<lparr>sv_domain = ''store_1''\<rparr>"

definition ex_access_row :: "bytes \<Rightarrow> AccessRow" where
  "ex_access_row stage = \<lparr>ar_instance_ref = ''i1'', ar_binding = Some (expected_binding ex_service ''i1'' ex_runtime),
     ar_secret_ref = SecretBinding_Ref (secretBinding ex_service ''i1'' ex_runtime), ar_stage = stage\<rparr>"

definition ex_secret :: SecretFile where
  "ex_secret = \<lparr>sx_name = secret_name (secretBinding ex_service ''i1'' ex_runtime), sx_private = True,
     sx_record = Some \<lparr>sc_Format = ''local-access-secret.v1'', sc_Binding = secretBinding ex_service ''i1'' ex_runtime,
       sc_Password = replicate 64 (CHR ''0'')\<rparr>\<rparr>"

definition ex_access_world :: "bytes \<Rightarrow> SecretFile list \<Rightarrow> world" where
  "ex_access_world stage files = \<lparr>w_db = \<lparr>db_states = [], db_instances = [], db_names = []\<rparr>, w_domain = ''store_1'',
     w_lineages = [], w_access = [ex_access_row stage], w_bootstrap = [], w_secrets = files, w_operations = [],
     w_seals = [], w_bases = [], w_conns = (\<lambda>_. 0), w_removed = [], w_stopped = [],
     w_entropy = (\<lambda>_. CHR ''e''), w_drawn = 0, w_now = 1, w_fault = (\<lambda>_. None), w_calls = 0\<rparr>"

lemma ex_identity_valid: "IdentityBinding_Validate ex_identity"
proof -
  obtain b where b: "Generate (replicate 16 (CHR ''x'')) = Inr b" by (simp add: Generate_def Let_def)
  then show ?thesis using Generate_valid [OF b] by (simp add: ex_identity_def)
qed

lemma ex_runtime_valid: "RuntimeBinding_Validate ex_runtime"
  using ex_identity_valid
  by (simp add: RuntimeBinding_Validate_def ex_runtime_def referencePattern_def is_alnum_def is_ref_byte_def in_range_def)

lemma ex_secret_valid: "SecretBinding_Validate (secretBinding ex_service ''i1'' ex_runtime)"
proof -
  have "digestPattern (ib_IdentityDigest ex_identity)"
    using ex_identity_valid by (simp add: IdentityBinding_Validate_def ManagedIdentity_Digest_def)
  then show ?thesis
    by (simp add: SecretBinding_Validate_def secretBinding_def ex_service_def ex_runtime_def accessRefPattern_def
        referencePattern_def is_alnum_def is_ref_byte_def in_range_def digestPattern_def)
qed

lemma ex_no_faults: "no_faults (ex_access_world stage files)"
  by (simp add: no_faults_def ex_access_world_def)

lemma ex_load:
  assumes "no_faults w" and "w_access w = [ex_access_row stage]"
  shows "\<exists>n. load ex_service ''i1'' w = (Inr (expected_binding ex_service ''i1'' ex_runtime, stage), w\<lparr>w_calls := n\<rparr>)"
proof -
  have "binding_ok ex_service ''i1'' (SecretBinding_Ref (secretBinding ex_service ''i1'' ex_runtime))
      (expected_binding ex_service ''i1'' ex_runtime)"
    using ex_runtime_valid by (simp add: binding_ok_def expected_binding_def Let_def secretBinding_def)
  then show ?thesis
    using assms by (simp add: load_def op_access_def op_simps asks_no_faults ex_access_row_def) blast
qed

lemma ex_secret_resolves:
  assumes "no_faults w" and "w_secrets w = [ex_secret]"
  shows "\<exists>n. Secrets_Resolve (secretBinding ex_service ''i1'' ex_runtime) w = (Inr (replicate 64 (CHR ''0'')), w\<lparr>w_calls := n\<rparr>)"
proof -
  have "record_ok (secretBinding ex_service ''i1'' ex_runtime) \<lparr>sc_Format = ''local-access-secret.v1'',
      sc_Binding = secretBinding ex_service ''i1'' ex_runtime, sc_Password = replicate 64 (CHR ''0'')\<rparr>"
    by (simp add: record_ok_def is_lower_hex_def in_range_def list_all_iff)
  then show ?thesis
    using assms ex_secret_valid
    by (simp add: Secrets_Resolve_def op_simps Lstat_def outgoing_no_faults ex_secret_def io_def asks_no_faults) blast
qed

lemma ex_activates:
  "\<exists>w'. Activate ex_service ''i1'' ex_runtime (Some (\<lambda>_. op_return ())) (Some (op_return ()))
     (ex_access_world ''verified'' [ex_secret]) = (Inr (), w')"
proof -
  let ?w = "\<lambda>n. (ex_access_world ''verified'' [ex_secret])\<lparr>w_calls := n\<rparr>"
  have nf: "no_faults (?w n)" for n using ex_no_faults by simp
  obtain k where ld: "load ex_service ''i1'' (?w (Suc (Suc 0))) = (Inr (expected_binding ex_service ''i1'' ex_runtime, ''verified''), ?w k)"
    using ex_load [OF nf, of "Suc (Suc 0)" "''verified''"] by (auto simp: ex_access_world_def)
  obtain l where sec: "Secrets_Resolve (secretBinding ex_service ''i1'' ex_runtime) (?w k) = (Inr (replicate 64 (CHR ''0'')), ?w l)"
    using ex_secret_resolves [OF nf, of k] by (auto simp: ex_access_world_def)
  have rec: "activation_record ex_service ''i1'' ex_runtime (?w (Suc (Suc 0))) = (Inr (replicate 64 (CHR ''0''), ''verified''), ?w l)"
    by (simp add: activation_record_def Let_def op_simps ld sec)
  have lock: "lockInstance ''i1'' (ex_access_world ''verified'' [ex_secret]) = (Inr (), ?w (Suc (Suc 0)))"
    using check_ctx_no_faults [OF ex_no_faults] check_ctx_no_faults [OF nf]
    by (simp add: lockInstance_def op_bind_def) (simp add: ex_access_world_def)
  have "accessRefPattern ''i1''" by (simp add: accessRefPattern_def referencePattern_def is_alnum_def is_ref_byte_def in_range_def)
  then show ?thesis
    using lock rec ex_runtime_valid check_ctx_no_faults [OF nf]
    by (simp add: Activate_def op_bind_def begin_applying_def apply_and_publish_def op_try_def op_return_def op_access_def)
qed

theorem retired_access_is_final_witness:
  "\<exists>e v. \<forall>fn. Use ex_service ''i1'' (Some fn) (ex_access_world ''retiring'' [ex_secret]) = (Inl e, v)"
proof -
  have "access_row (ex_access_world ''retiring'' [ex_secret]) ''i1'' = Some (ex_access_row ''retiring'')"
    "ar_stage (ex_access_row ''retiring'') = ''retiring'' \<or> ar_stage (ex_access_row ''retiring'') = ''retired''"
    by (simp_all add: access_row_def ex_access_world_def ex_access_row_def)
  from retired_access_is_final [OF this rtranclp.rtrancl_refl] show ?thesis by blast
qed

theorem published_access_is_verified_witness:
  "\<exists>v r. access_row v ''i1'' = Some r \<and> ar_stage r = ''verified''
     \<and> ar_binding r = Some (expected_binding ex_service ''i1'' ex_runtime)"
proof -
  have "leaves_access (op_return ())" by (simp add: leaves_access_def op_return_def)
  moreover obtain w' where "Activate ex_service ''i1'' ex_runtime (Some (\<lambda>_. op_return ())) (Some (op_return ()))
     (ex_access_world ''verified'' [ex_secret]) = (Inr (), w')" using ex_activates by blast
  ultimately show ?thesis
    using published_access_is_verified [of "\<lambda>_. op_return ()" ex_service "''i1''" ex_runtime "op_return ()"] by blast
qed

theorem failed_application_never_publishes_witness:
  "\<exists>e v. \<forall>publish. Activate ex_service ''i1'' ex_runtime (Some (\<lambda>_. op_fail ErrUnavailable)) (Some publish)
     (ex_access_world ''applying'' [ex_secret]) = (Inl e, v)"
  by (rule failed_application_never_publishes) (simp add: op_fail_def)

theorem lost_secret_is_not_replaced_witness:
  "\<exists>r w'. Activate ex_service ''i1'' ex_runtime (Some (\<lambda>_. op_return ())) (Some (op_return ()))
     (ex_access_world ''verified'' []) = (r, w') \<and> w_secrets w' = []"
proof -
  let ?w = "ex_access_world ''verified'' []"
  obtain r w' where run: "Activate ex_service ''i1'' ex_runtime (Some (\<lambda>_. op_return ())) (Some (op_return ())) ?w = (r, w')"
    by (cases "Activate ex_service ''i1'' ex_runtime (Some (\<lambda>_. op_return ())) (Some (op_return ())) ?w")
  have "access_row ?w ''i1'' \<noteq> None" by (simp add: access_row_def ex_access_world_def ex_access_row_def)
  then have "w_secrets w' = w_secrets ?w"
    by (rule lost_secret_is_not_replaced [OF _ _ _ run]) (simp_all add: op_return_def)
  then show ?thesis using run by (simp add: ex_access_world_def)
qed

end
