(* ===== verification/Runtime_Operations_Props.thy ===== *)
theory Runtime_Operations_Props
  imports Runtime_Operations Instance_Access_Props
begin

text \<open>
  The journal of runtime operations only moves forward: rows are never removed, what
  identifies a target never changes, a retired operation stays retired, and the seal of a
  published state is never replaced.
\<close>

subsection \<open>How the journal moves\<close>

definition row_advances :: "OperationRow \<Rightarrow> OperationRow \<Rightarrow> bool" where
  "row_advances r r' \<longleftrightarrow> or_operation_ref r' = or_operation_ref r \<and> or_target_path r' = or_target_path r
     \<and> or_source_ref r' = or_source_ref r \<and> or_identity r' = or_identity r \<and> or_physical_identity r' = or_physical_identity r
     \<and> (or_stage r = ''retired'' \<longrightarrow> or_stage r' = ''retired'')
     \<and> (or_runtime_ref r \<noteq> [] \<longrightarrow> or_runtime_ref r' = or_runtime_ref r)"

definition published :: "world \<Rightarrow> bytes \<Rightarrow> bool" where
  "published w state \<longleftrightarrow> state \<in> sr_state_id ` set (db_states (w_db w))"

definition seal_of :: "world \<Rightarrow> bytes \<Rightarrow> SealRow option" where
  "seal_of w state = find (\<lambda>r. sl_state_id r = state) (w_seals w)"

definition operations_advance :: "OperationRow list \<Rightarrow> OperationRow list \<Rightarrow> bool" where
  "operations_advance rs rs' \<longleftrightarrow> (\<exists>olds added. rs' = olds @ added \<and> list_all2 row_advances rs olds)"

definition journal_advances :: "world \<Rightarrow> world \<Rightarrow> bool" where
  "journal_advances w w' \<longleftrightarrow> w_db w' = w_db w \<and> operations_advance (w_operations w) (w_operations w')
     \<and> (\<forall>state sealed. published w state \<longrightarrow> seal_of w state = Some sealed \<longrightarrow> seal_of w' state = Some sealed)"

lemma row_advances_refl [simp]: "row_advances r r"
  by (simp add: row_advances_def)

lemma row_advances_trans: "row_advances a b \<Longrightarrow> row_advances b c \<Longrightarrow> row_advances a c"
  by (auto simp: row_advances_def)

lemma operations_advance_refl [simp]: "operations_advance rs rs"
  unfolding operations_advance_def by (intro exI [of _ rs] exI [of _ "[]"]) (simp add: list.rel_refl)

lemma operations_advance_map: "(\<And>r. row_advances r (f r)) \<Longrightarrow> operations_advance rs (map f rs @ added)"
  by (auto simp: operations_advance_def list_all2_conv_all_nth)

lemma operations_advance_trans:
  assumes "operations_advance a b" and "operations_advance b c"
  shows "operations_advance a c"
proof -
  obtain olds added where b: "b = olds @ added" "list_all2 row_advances a olds" using assms(1) by (auto simp: operations_advance_def)
  obtain olds' added' where c: "c = olds' @ added'" "list_all2 row_advances (olds @ added) olds'"
    using assms(2) b(1) by (auto simp: operations_advance_def)
  obtain x y where xy: "olds' = x @ y" "list_all2 row_advances olds x" using c(2) by (auto simp: list_all2_append1)
  have "list_all2 row_advances a x" using list_all2_trans [OF row_advances_trans b(2) xy(2)] .
  then show ?thesis using c(1) xy(1) by (auto simp: operations_advance_def)
qed

lemma journal_advances_same:
  "w_db w' = w_db w \<Longrightarrow> w_operations w' = w_operations w \<Longrightarrow> w_seals w' = w_seals w \<Longrightarrow> journal_advances w w'"
  by (simp add: journal_advances_def seal_of_def)

lemma journal_advances_trans: "journal_advances u v \<Longrightarrow> journal_advances v w \<Longrightarrow> journal_advances u w"
  using operations_advance_trans unfolding journal_advances_def published_def by metis

lemma journal_update_stage: "kept_relation.keeps journal_advances (update_stage ref from to)"
proof -
  have rel: "op_relation journal_advances"
    by unfold_locales (auto simp: journal_advances_same intro: journal_advances_trans)
  show ?thesis unfolding update_stage_def by (rule op_relation.within_outgoing [OF rel]) (auto simp: journal_advances_same)
qed

interpretation journal: access_relation journal_advances
proof (unfold_locales)
  show "journal_advances u w" if "journal_advances u v" "journal_advances v w" for u v w using that by (rule journal_advances_trans)
  show "kept_relation.keeps journal_advances (update_stage ref from to)" for ref "from" to by (rule journal_update_stage)
qed (simp_all add: journal_advances_same)

subsection \<open>Every operation keeps to it\<close>

lemma journal_update:
  assumes "\<And>r. P r \<Longrightarrow> row_advances r (f r)"
  shows "journal.keeps (update_operations P f)"
  unfolding update_operations_def
proof (rule journal.within_outgoing)
  fix w :: world
  have "operations_advance (w_operations w) (map (\<lambda>r. if P r then f r else r) (w_operations w) @ [])"
    by (rule operations_advance_map) (use assms in simp)
  then show "journal_advances w (snd (Inr (length (filter P (w_operations w))),
      w\<lparr>w_operations := map (\<lambda>r. if P r then f r else r) (w_operations w)\<rparr>))"
    by (simp add: journal_advances_def seal_of_def)
qed

lemma journal_result [intro!]: "journal.keeps m \<Longrightarrow> journal.keeps (operationResult m)"
  by (auto simp: operationResult_def)

lemma journal_draw [simp]: "journal.keeps rand_Text"
proof -
  have "journal.keeps (draw n)" for n
    unfolding journal.keeps_def draw_def by (simp add: journal_advances_same)
  then show ?thesis by (auto simp: rand_Text_def)
qed

lemma journal_operation [simp]: "journal.keeps (operation ref)"
  by (auto simp: operation_def)

lemma journal_insert_operation [simp]: "journal.keeps (insert_operation row)"
  unfolding insert_operation_def
  by (rule journal.within_outgoing)
    (use operations_advance_map [of "\<lambda>r. r"] in \<open>auto simp: journal_advances_def seal_of_def\<close>)

lemma journal_assign [simp]: "journal.keeps (Assign ref target source identity)"
  unfolding Assign_def Let_def by (auto split: sum.split)

lemma journal_stages [simp]: "journal.keeps (BaseReady op)" "journal.keeps (Attach op b)" "journal.keeps (RetireOperation op)"
  unfolding BaseReady_def Attach_def RetireOperation_def by (auto intro!: journal_update simp: row_advances_def)

lemma journal_new_generation [simp]: "journal.keeps (new_generation key current row)"
  unfolding new_generation_def
proof (rule journal.within_outgoing)
  fix w :: world
  let ?f = "\<lambda>r. if or_operation_ref r = current \<and> or_stage r = ''ready'' then r\<lparr>or_stage := ''retired''\<rparr> else r"
  have "operations_advance (w_operations w) (map ?f (w_operations w) @ [row])"
    by (rule operations_advance_map) (simp add: row_advances_def)
  moreover have "operations_advance (w_operations w) (map (\<lambda>r. r) (w_operations w) @ [row])"
    by (rule operations_advance_map) simp
  ultimately show "journal_advances w (snd (let retired = (if current \<noteq> [] then map ?f (w_operations w) else w_operations w) in
     if or_operation_ref row \<in> or_operation_ref ` set retired \<or> or_physical_identity row \<in> or_physical_identity ` set retired
     then (Inl ErrConstraint, w)
     else (Inr (), w\<lparr>w_operations := retired @ [row],
            w_bases := (key, or_operation_ref row) # filter (\<lambda>p. fst p \<noteq> key) (w_bases w)\<rparr>)))"
    by (simp add: Let_def journal_advances_def seal_of_def)
qed

lemma journal_base [simp]: "journal.keeps (BaseOperation key target identity ex)"
  unfolding BaseOperation_def assign_generation_def Let_def by auto

lemma find_append_Some: "find P xs = Some x \<Longrightarrow> find P (xs @ ys) = Some x"
  by (induction xs) (auto split: if_splits)

lemma journal_insert_seal [simp]: "journal.keeps (insert_seal row)"
  unfolding insert_seal_def
  by (rule journal.within_outgoing) (auto simp: journal_advances_def seal_of_def find_append_Some)

lemma find_map_other: "(\<And>r. P r \<Longrightarrow> f r = r) \<Longrightarrow> (\<And>r. P (f r) \<longleftrightarrow> P r) \<Longrightarrow> find P (map f xs) = find P xs"
  by (induction xs) auto

lemma journal_update_seal [simp]: "journal.keeps (update_seal state old new)"
  unfolding update_seal_def Let_def
proof (rule journal.within_outgoing)
  fix w :: world
  let ?P = "\<lambda>r. sl_state_id r = state \<and> sl_operation_ref r = sl_operation_ref old \<and> sl_binding r = sl_binding old
                \<and> state \<notin> sr_state_id ` set (db_states (w_db w))"
  let ?f = "\<lambda>r. if ?P r then r\<lparr>sl_operation_ref := sl_operation_ref new, sl_binding := sl_binding new\<rparr> else r"
  have "find (\<lambda>r. sl_state_id r = s) (map ?f (w_seals w)) = find (\<lambda>r. sl_state_id r = s) (w_seals w)"
    if "s \<in> sr_state_id ` set (db_states (w_db w))" for s
    by (rule find_map_other) (use that in auto)
  then show "journal_advances w (snd (Inr (length (filter ?P (w_seals w))), w\<lparr>w_seals := map ?f (w_seals w)\<rparr>))"
    by (simp add: journal_advances_def seal_of_def published_def)
qed

lemma journal_record_seal [simp]: "journal.keeps (RecordSeal state op b)"
  unfolding RecordSeal_def Let_def by auto

lemma journal_resume [simp]: "journal.keeps (ResumePublication s ref)"
  unfolding ResumePublication_def by auto

subsection \<open>Properties\<close>

datatype journal_call =
  CallAssign bytes bytes bytes IdentityBinding
| CallBaseOperation bytes bytes IdentityBinding bool
| CallBaseReady Operation
| CallAttach Operation RuntimeBinding
| CallRecordSeal bytes Operation RuntimeBinding
| CallCheckSeal bytes IdentityBinding
| CallResume Service bytes
| CallRetire Operation

definition ignore_result :: "'a op \<Rightarrow> unit op" where
  "ignore_result m = op_try m (\<lambda>_. op_return ())"

fun journal_do :: "journal_call \<Rightarrow> unit op" where
  "journal_do (CallAssign ref target source identity) = ignore_result (Assign ref target source identity)"
| "journal_do (CallBaseOperation key target identity ex) = ignore_result (BaseOperation key target identity ex)"
| "journal_do (CallBaseReady op) = ignore_result (BaseReady op)"
| "journal_do (CallAttach op b) = ignore_result (Attach op b)"
| "journal_do (CallRecordSeal state op b) = ignore_result (RecordSeal state op b)"
| "journal_do (CallCheckSeal state identity) = ignore_result (CheckSeal state identity)"
| "journal_do (CallResume s ref) = ignore_result (ResumePublication s ref)"
| "journal_do (CallRetire op) = ignore_result (RetireOperation op)"

fun journal_run :: "journal_call list \<Rightarrow> world \<Rightarrow> world" where
  "journal_run [] w = w"
| "journal_run (c # cs) w = journal_run cs (snd (journal_do c w))"

lemma journal_do_advances: "journal_advances w (snd (journal_do c w))"
proof -
  have "journal.keeps (CheckSeal state identity)" for state identity unfolding CheckSeal_def by auto
  then have "journal.keeps (journal_do c)" by (cases c) (auto simp: ignore_result_def)
  then show ?thesis by (simp add: journal.keeps_def)
qed

lemma journal_run_advances: "journal_advances w (journal_run cs w)"
  by (induction cs arbitrary: w) (auto intro: journal.rel_refl journal.rel_trans [OF journal_do_advances])

text \<open>
  C31: the journal is append-only in what matters: after any sequence of calls, succeeding or
  failing, every assigned operation is still recorded, with its target, source, identity and
  physical identity unchanged; a runtime once attached is never exchanged and a retired operation
  is never revived.
\<close>

theorem journal_moves_forward:
  assumes "i < length (w_operations w)"
  shows "i < length (w_operations (journal_run calls w))
     \<and> row_advances (w_operations w ! i) (w_operations (journal_run calls w) ! i)"
proof -
  obtain olds added where "w_operations (journal_run calls w) = olds @ added" "list_all2 row_advances (w_operations w) olds"
    using journal_run_advances [of w calls] by (auto simp: journal_advances_def operations_advance_def)
  with assms show ?thesis by (auto simp: list_all2_conv_all_nth nth_append)
qed

text \<open>
  C32: the seal of a published state is final: no sequence of journal calls, whatever it seals,
  retires or fails at, replaces or removes the seal of a state that is in the state table.
\<close>

theorem published_seal_is_final:
  assumes "published w state" and "seal_of w state = Some sealed"
  shows "seal_of (journal_run calls w) state = Some sealed"
  using journal_run_advances [of w calls] assms by (simp add: journal_advances_def)

subsection \<open>A small journal\<close>

definition ex_operation :: Operation where
  "ex_operation = \<lparr>op_Ref = ''op1'', op_Target = ''/data/t1'', op_Source = ''base'', op_PhysicalIdentity = ''physical_1'',
     op_RuntimeRef = ''r1'', op_Stage = ''running'', op_Identity = ex_identity\<rparr>"

definition ex_second_runtime :: RuntimeBinding where
  "ex_second_runtime = \<lparr>rb_RuntimeRef = ''r1'', rb_PhysicalIdentity = ''physical_1'', rb_IdentityBinding = ex_identity\<rparr>"

definition ex_state_row :: StateRow where
  "ex_state_row = \<lparr>sr_state_id = ''s1'', sr_parent_state_id = None, sr_state_fingerprint = ''s1'', sr_image_id = ''img'',
     sr_prepare_kind = ''psql'', sr_prepare_args = [], sr_created_at = [], sr_size_bytes = None,
     sr_last_used_at = None, sr_use_count = None, sr_min_retention_until = None, sr_status = None,
     sr_lineage_ref = [], sr_identity_digest = []\<rparr>"

definition ex_journal_world :: world where
  "ex_journal_world = (ex_access_world ''verified'' [])\<lparr>
     w_db := \<lparr>db_states = [ex_state_row], db_instances = [], db_names = []\<rparr>,
     w_operations := [(row_of_operation ex_operation)\<lparr>or_stage := ''running'', or_runtime_ref := ''r1''\<rparr>,
       (row_of_operation ex_operation)\<lparr>or_operation_ref := ''op0'', or_physical_identity := ''physical_0'', or_stage := ''retired''\<rparr>],
     w_seals := [\<lparr>sl_state_id = ''s1'', sl_operation_ref = ''op0'', sl_binding = None\<rparr>]\<rparr>"

theorem journal_moves_forward_witness:
  "row_advances (w_operations ex_journal_world ! 1)
     (w_operations (journal_run [CallRecordSeal ''s1'' ex_operation ex_second_runtime, CallRetire ex_operation] ex_journal_world) ! 1)
   \<and> or_stage (w_operations ex_journal_world ! 1) = ''retired''"
proof -
  have "1 < length (w_operations ex_journal_world)" "or_stage (w_operations ex_journal_world ! 1) = ''retired''"
    by (simp_all add: ex_journal_world_def)
  with journal_moves_forward show ?thesis by blast
qed

theorem published_seal_is_final_witness:
  "seal_of (journal_run [CallRetire ex_operation, CallRecordSeal ''s1'' ex_operation ex_second_runtime] ex_journal_world) ''s1''
     = Some \<lparr>sl_state_id = ''s1'', sl_operation_ref = ''op0'', sl_binding = None\<rparr>"
proof -
  have "published ex_journal_world ''s1''" "seal_of ex_journal_world ''s1'' = Some \<lparr>sl_state_id = ''s1'', sl_operation_ref = ''op0'', sl_binding = None\<rparr>"
    by (simp_all add: ex_journal_world_def published_def seal_of_def ex_state_row_def)
  then show ?thesis by (rule published_seal_is_final)
qed

end
