(* ===== verification/Deletion.thy ===== *)
theory Deletion
  imports Instance_Access
begin

text \<open>
  \<^verbatim>\<open>internal/deletion/manager.go\<close>: deletion of instances and states, alone or with every
  descendant, with the blocking rules, dry runs and the removal of runtime and state
  directories.

  With an access service configured, an instance is removed inside its
  retirement (\<^verbatim>\<open>RetireBound\<close>), otherwise directly.  A removal that fails is taken to have removed
  nothing; \<open>w_removed\<close> lists the paths that are gone.
\<close>

subsection \<open>Options and results\<close>

definition OutcomeDeleted :: bytes where "OutcomeDeleted = ''deleted''"
definition OutcomeWouldDelete :: bytes where "OutcomeWouldDelete = ''would_delete''"
definition OutcomeBlocked :: bytes where "OutcomeBlocked = ''blocked''"
definition BlockActiveConnections :: bytes where "BlockActiveConnections = ''active_connections''"
definition BlockHasDescendants :: bytes where "BlockHasDescendants = ''has_descendants''"
definition BlockBlockedDescendant :: bytes where "BlockBlockedDescendant = ''blocked_by_descendant''"

text \<open>
  \<open>mg_runtime\<close> and \<open>mg_statefs\<close> say whether these collaborators are configured;
  \<open>mg_stopManaged\<close> whether the runtime offers the managed stop; \<open>mg_stateDir\<close> is
  \<^verbatim>\<open>StateFS.StateDir\<close>, which computes a path or fails; \<open>mg_nowUnixNano\<close> is the decimal text of
  the clock in the name of a stale directory.
\<close>

record Manager =
  mg_access :: "Service option"
  mg_runtime :: bool
  mg_stopManaged :: bool
  mg_statefs :: bool
  mg_stateDir :: "bytes \<Rightarrow> bytes \<Rightarrow> bytes \<Rightarrow> engineError + bytes"
  mg_stateStoreRoot :: bytes
  mg_nowUnixNano :: bytes
  mg_isExpired :: "bytes option \<Rightarrow> bool"

record DeleteOptions =
  do_Recurse :: bool
  do_Force :: bool
  do_DryRun :: bool

datatype DeleteNode = DeleteNode
  (dn_Kind: bytes) (dn_ID: bytes) (dn_Connections: "int option") (dn_Blocked: bytes)
  (dn_RuntimeID: "bytes option") (dn_RuntimeDir: "bytes option") (dn_ImageID: "bytes option")
  (dn_Children: "DeleteNode list")

record DeleteResult =
  dr_DryRun :: bool
  dr_Outcome :: bytes
  dr_Root :: DeleteNode

definition outcomeFor :: "bool \<Rightarrow> bool \<Rightarrow> bytes" where
  "outcomeFor blocked dryRun =
     (if blocked then OutcomeBlocked else if dryRun then OutcomeWouldDelete else OutcomeDeleted)"

subsection \<open>Collaborators\<close>

definition stopRuntime :: "Manager \<Rightarrow> bytes option \<Rightarrow> unit op" where
  "stopRuntime m runtimeID =
     (case runtimeID of None \<Rightarrow> op_return ()
      | Some rid \<Rightarrow>
         if \<not> mg_runtime m then op_return ()
         else if TrimSpace rid = [] then op_return ()
         else op_try (runtime_Stop (TrimSpace rid)) (\<lambda>r. case r of
                Inl e \<Rightarrow> if e = ErrDockerUnavailable then op_return () else op_fail e
              | Inr _ \<Rightarrow> op_return ()))"

definition stopManagedRuntime :: "Manager \<Rightarrow> bytes option \<Rightarrow> AccessBinding \<Rightarrow> unit op" where
  "stopManagedRuntime m rid b =
     (if rid \<noteq> Some (rb_RuntimeRef (ab_RuntimeBinding b)) then op_fail ErrConflict
      else if \<not> mg_stopManaged m then op_fail ErrUnavailable
      else runtime_Stop (rb_RuntimeRef (ab_RuntimeBinding b)))"

text \<open>
  The removal falls back from the state file system to \<^verbatim>\<open>os.RemoveAll\<close>, then to renaming the
  directory out of the way; a directory that does not exist counts as removed.
\<close>

definition removeRuntimeDir :: "Manager \<Rightarrow> bytes option \<Rightarrow> unit op" where
  "removeRuntimeDir m runtimeDir =
     (case runtimeDir of None \<Rightarrow> op_return ()
      | Some d \<Rightarrow>
         let dir = TrimSpace d in
         if dir = [] then op_return ()
         else
           op_try (if mg_statefs m then op_bind (remove_dir dir) (\<lambda>_. op_return True) else op_return False) (\<lambda>r1.
           case r1 of
             Inr True \<Rightarrow> op_return ()
           | Inl ErrNotExist \<Rightarrow> op_return ()
           | _ \<Rightarrow>
             op_try (remove_dir dir) (\<lambda>r2. case r2 of
                Inr _ \<Rightarrow> op_return ()
              | Inl e2 \<Rightarrow>
                  if e2 = ErrNotExist then op_return ()
                  else
                    let removeErr = (case r1 of Inl e1 \<Rightarrow> e1 | Inr _ \<Rightarrow> e2);
                        staleDir = dir @ ''.stale-'' @ mg_nowUnixNano m in
                    op_try (rename_dir dir staleDir) (\<lambda>r3. case r3 of
                       Inr _ \<Rightarrow> op_try (remove_dir staleDir) (\<lambda>_. op_return ())
                     | Inl e3 \<Rightarrow> if e3 = ErrNotExist then op_return () else op_fail removeErr))))"

definition removeStateDir :: "Manager \<Rightarrow> bytes option \<Rightarrow> bytes \<Rightarrow> unit op" where
  "removeStateDir m imageID stateID =
     (if TrimSpace (mg_stateStoreRoot m) = [] then op_return ()
      else if TrimSpace stateID = [] then op_return ()
      else if \<not> mg_statefs m then op_return ()
      else case mg_stateDir m (mg_stateStoreRoot m) (case imageID of None \<Rightarrow> [] | Some i \<Rightarrow> i) stateID of
             Inl e \<Rightarrow> op_fail e
           | Inr path \<Rightarrow> remove_dir path)"

text \<open>What is done to one instance, whichever way it was reached.\<close>

definition delete_instance_record :: "Manager \<Rightarrow> bytes \<Rightarrow> bytes option \<Rightarrow> bytes option \<Rightarrow> unit op" where
  "delete_instance_record m instanceID runtimeID runtimeDir =
     (case mg_access m of
        Some service \<Rightarrow>
          RetireBound service instanceID (Some (\<lambda>binding.
            op_bind (stopManagedRuntime m runtimeID binding) (\<lambda>_.
            op_bind (removeRuntimeDir m runtimeDir) (\<lambda>_.
            db_write (\<lambda>db. Some (DeleteInstance instanceID db))))))
      | None \<Rightarrow>
          op_bind (stopRuntime m runtimeID) (\<lambda>_.
          op_bind (removeRuntimeDir m runtimeDir) (\<lambda>_.
          db_write (\<lambda>db. Some (DeleteInstance instanceID db)))))"

definition delete_state_record :: "Manager \<Rightarrow> bytes option \<Rightarrow> bytes \<Rightarrow> unit op" where
  "delete_state_record m imageID stateID =
     op_bind (removeStateDir m imageID stateID) (\<lambda>_. db_write (DeleteState stateID))"

subsection \<open>Instances\<close>

definition instance_node :: "DeleteOptions \<Rightarrow> InstanceEntry \<Rightarrow> int \<Rightarrow> DeleteNode" where
  "instance_node opts entry connections =
     DeleteNode ''instance'' (ie_InstanceID entry) (Some connections)
       (if connections > 0 \<and> \<not> do_Force opts then BlockActiveConnections else [])
       (ie_RuntimeID entry) (ie_RuntimeDir entry) None []"

text \<open>The result is \<open>None\<close> when there is no such instance.\<close>

definition Manager_DeleteInstance :: "Manager \<Rightarrow> bytes \<Rightarrow> DeleteOptions \<Rightarrow> DeleteResult option op" where
  "Manager_DeleteInstance m instanceID opts =
     op_bind (db_read (GetInstance (mg_isExpired m) instanceID)) (\<lambda>found.
      case found of None \<Rightarrow> op_return None
      | Some entry \<Rightarrow>
        op_bind (ActiveConnections instanceID) (\<lambda>connections.
         let blocked = (connections > 0 \<and> \<not> do_Force opts);
             node = DeleteNode ''instance'' instanceID (Some connections)
                      (if blocked then BlockActiveConnections else [])
                      (ie_RuntimeID entry) (ie_RuntimeDir entry) None [];
             res = \<lparr>dr_DryRun = do_DryRun opts, dr_Outcome = outcomeFor blocked (do_DryRun opts), dr_Root = node\<rparr> in
         if blocked \<or> do_DryRun opts then op_return (Some res)
         else op_bind (delete_instance_record m instanceID (ie_RuntimeID entry) (ie_RuntimeDir entry)) (\<lambda>_.
              op_return (Some res))))"

subsection \<open>States\<close>

definition instances_of :: "Manager \<Rightarrow> bytes \<Rightarrow> InstanceEntry list op" where
  "instances_of m stateID =
     db_read (ListInstances (mg_isExpired m) \<lparr>if_StateID = stateID, if_ImageID = [], if_IDPrefix = []\<rparr>)"

definition children_of :: "bytes \<Rightarrow> StateEntry list op" where
  "children_of stateID =
     db_read (ListStates \<lparr>sf_Kind = [], sf_ImageID = [], sf_IDPrefix = [], sf_ParentID = stateID\<rparr>)"

definition hasDescendants :: "Manager \<Rightarrow> bytes \<Rightarrow> bool op" where
  "hasDescendants m stateID =
     op_bind (instances_of m stateID) (\<lambda>instances.
     if instances \<noteq> [] then op_return True
     else op_bind (children_of stateID) (\<lambda>children. op_return (children \<noteq> [])))"

text \<open>The loops of \<^verbatim>\<open>buildStateNode\<close>: nodes are collected in order, with whether any is blocked.\<close>

fun build_instances :: "DeleteOptions \<Rightarrow> InstanceEntry list \<Rightarrow> (DeleteNode list \<times> bool) op" where
  "build_instances opts [] = op_return ([], False)"
| "build_instances opts (entry # rest) =
     op_bind (ActiveConnections (ie_InstanceID entry)) (\<lambda>connections.
     op_bind (build_instances opts rest) (\<lambda>(nodes, blocked).
     op_return (instance_node opts entry connections # nodes,
       (connections > 0 \<and> \<not> do_Force opts) \<or> blocked)))"

fun build_list :: "('a \<Rightarrow> (DeleteNode \<times> bool) op) \<Rightarrow> 'a list \<Rightarrow> (DeleteNode list \<times> bool) op" where
  "build_list build [] = op_return ([], False)"
| "build_list build (x # xs) =
     op_bind (build x) (\<lambda>(node, childBlocked).
     op_bind (build_list build xs) (\<lambda>(nodes, blocked).
     op_return (node # nodes, childBlocked \<or> blocked)))"

text \<open>
  The recursion follows the parent links of the table, which nothing in the schema keeps
  acyclic; the first argument bounds its depth, and \<open>ErrUnfinished\<close> stands for a run that
  has not returned within it.
\<close>

fun buildStateNode :: "nat \<Rightarrow> Manager \<Rightarrow> DeleteOptions \<Rightarrow> bytes \<Rightarrow> (DeleteNode \<times> bool) op" where
  "buildStateNode 0 m opts stateID = op_fail ErrUnfinished"
| "buildStateNode (Suc fuel) m opts stateID =
     op_bind (db_read (GetState stateID)) (\<lambda>found.
      case found of None \<Rightarrow> op_fail (ErrStore ''state not found'')
      | Some entry \<Rightarrow>
        op_bind (instances_of m stateID) (\<lambda>instances.
        op_bind (build_instances opts instances) (\<lambda>(instanceNodes, instanceBlocked).
        op_bind (children_of stateID) (\<lambda>children.
        op_bind (build_list (\<lambda>c. buildStateNode fuel m opts (se_StateID c)) children) (\<lambda>(childNodes, childBlocked).
         let blocked = (instanceBlocked \<or> childBlocked) in
         op_return (DeleteNode ''state'' stateID None (if blocked then BlockBlockedDescendant else [])
             None None (Some (se_ImageID entry)) (instanceNodes @ childNodes), blocked))))))"

text \<open>Children first; the walk stops at the first error.\<close>

fun deleteTree :: "Manager \<Rightarrow> DeleteNode \<Rightarrow> unit op"
  and deleteTrees :: "Manager \<Rightarrow> DeleteNode list \<Rightarrow> unit op" where
  "deleteTree m (DeleteNode kind nid connections blocked runtimeID runtimeDir imageID children) =
     op_bind (deleteTrees m children) (\<lambda>_.
      if kind = ''instance'' then delete_instance_record m nid runtimeID runtimeDir
      else if kind = ''state'' then delete_state_record m imageID nid
      else op_return ())"
| "deleteTrees m [] = op_return ()"
| "deleteTrees m (child # rest) = op_bind (deleteTree m child) (\<lambda>_. deleteTrees m rest)"

definition Manager_DeleteState :: "nat \<Rightarrow> Manager \<Rightarrow> bytes \<Rightarrow> DeleteOptions \<Rightarrow> DeleteResult option op" where
  "Manager_DeleteState fuel m stateID opts =
     op_bind (db_read (GetState stateID)) (\<lambda>found.
      case found of None \<Rightarrow> op_return None
      | Some entry \<Rightarrow>
        if \<not> do_Recurse opts then
          op_bind (hasDescendants m stateID) (\<lambda>has.
           let node = (\<lambda>b. DeleteNode ''state'' stateID None b None None (Some (se_ImageID entry)) []) in
           if has then
             op_return (Some \<lparr>dr_DryRun = do_DryRun opts, dr_Outcome = OutcomeBlocked,
                              dr_Root = node BlockHasDescendants\<rparr>)
           else
             let res = \<lparr>dr_DryRun = do_DryRun opts, dr_Outcome = outcomeFor False (do_DryRun opts),
                        dr_Root = node []\<rparr> in
             if do_DryRun opts then op_return (Some res)
             else op_bind (delete_state_record m (Some (se_ImageID entry)) stateID) (\<lambda>_. op_return (Some res)))
        else
          op_bind (buildStateNode fuel m opts stateID) (\<lambda>(tree, blocked).
           let res = \<lparr>dr_DryRun = do_DryRun opts, dr_Outcome = outcomeFor blocked (do_DryRun opts),
                      dr_Root = tree\<rparr> in
           if blocked \<or> do_DryRun opts then op_return (Some res)
           else op_bind (deleteTree m tree) (\<lambda>_. op_return (Some res))))"

end
