(* ===== verification/Deletion_Tree.thy ===== *)
theory Deletion_Tree
  imports Deletion Instance_Access_Props
begin

text \<open>
  The trees of the deletion manager: what building one reads, which states and instances it
  holds, how deleting one changes the tables under an arbitrary fault schedule, and that
  building ends on every acyclic table.
\<close>

subsection \<open>Operations that change nothing\<close>

lemma readonly_build_instances [simp]: "ro.keeps (build_instances opts es)"
  by (induction es) auto

lemma readonly_build_list [intro]: "(\<And>x. ro.keeps (build x)) \<Longrightarrow> ro.keeps (build_list build xs)"
  by (induction xs) auto

lemma readonly_buildStateNode [simp]: "ro.keeps (buildStateNode fuel m opts s)"
proof (induction fuel arbitrary: s)
  case (Suc fuel)
  have "ro.keeps (build_list (\<lambda>c. buildStateNode fuel m opts (se_StateID c)) cs)" for cs
    by (rule readonly_build_list) (rule Suc)
  then show ?case
    by (auto simp: Let_def instances_of_def children_of_def)
qed simp

lemma readonly_hasDescendants [simp]: "ro.keeps (hasDescendants m s)"
  by (auto simp: hasDescendants_def instances_of_def children_of_def)

lemma db_read_Inr: "db_read f w = (Inr x, w') \<Longrightarrow> x = f (w_db w) \<and> same_effects w w'"
  using asks_Inr [of "\<lambda>w. f (w_db w)" w x w'] by (auto simp: db_read_def same_effectsD)

lemma ActiveConnections_Inr: "ActiveConnections i w = (Inr x, w') \<Longrightarrow> x = w_conns w i \<and> same_effects w w'"
  using asks_Inr [of "\<lambda>w. w_conns w i" w x w'] by (auto simp: ActiveConnections_def same_effectsD)

subsection \<open>The tree that is built\<close>

definition clean :: "bytes \<Rightarrow> bool" where
  "clean s \<longleftrightarrow> TrimSpace s = s \<and> s \<noteq> []"

definition clean_db :: "database \<Rightarrow> bool" where
  "clean_db db \<longleftrightarrow> (\<forall>r \<in> set (db_states db). clean (sr_state_id r))"

definition instance_rows :: "database \<Rightarrow> bytes \<Rightarrow> InstanceRow list" where
  "instance_rows db s = filter (\<lambda>i. ir_state_id i = s) (db_instances db)"

definition child_rows :: "database \<Rightarrow> bytes \<Rightarrow> StateRow list" where
  "child_rows db s = filter (\<lambda>r. sr_parent_state_id r = Some s) (db_states db)"

definition instance_leaf :: "DeleteNode \<Rightarrow> bool" where
  "instance_leaf n \<longleftrightarrow> dn_Kind n = ''instance'' \<and> dn_Children n = []"

inductive tree_for :: "database \<Rightarrow> DeleteNode \<Rightarrow> bool" for db where
  "dn_ID ` set leaves = ir_instance_id ` set (instance_rows db s) \<Longrightarrow> \<forall>n \<in> set leaves. instance_leaf n \<Longrightarrow>
   map dn_ID subs = map sr_state_id (child_rows db s) \<Longrightarrow> \<forall>n \<in> set subs. tree_for db n \<Longrightarrow>
   tree_for db (DeleteNode ''state'' s c b r d im (leaves @ subs))"

lemma instance_entries_ids: "ie_InstanceID ` set (instance_entries x db r) = {ir_instance_id r}"
  by (auto simp: instance_entries_def primary_names_def scanInstance_def Let_def image_image split: list.splits)

lemma ListInstances_clean:
  assumes "clean s"
  shows "ie_InstanceID ` set (ListInstances x \<lparr>if_StateID = s, if_ImageID = [], if_IDPrefix = []\<rparr> db)
     = ir_instance_id ` set (instance_rows db s)"
proof -
  have "ListInstances x \<lparr>if_StateID = s, if_ImageID = [], if_IDPrefix = []\<rparr> db
      = concat (map (instance_entries x db) (instance_rows db s))"
    using assms
    by (simp add: ListInstances_def instance_rows_def addFilter_def addPrefixFilter_def clean_def TrimSpace_def)
  then show ?thesis by (auto simp: image_UN instance_entries_ids)
qed

lemma ListStates_clean:
  "clean s \<Longrightarrow> map se_StateID (ListStates \<lparr>sf_Kind = [], sf_ImageID = [], sf_IDPrefix = [], sf_ParentID = s\<rparr> db)
     = map sr_state_id (child_rows db s)"
  by (simp add: ListStates_def child_rows_def addFilter_def addPrefixFilter_def clean_def TrimSpace_def
      state_entry_def comp_def)

lemma build_instances_Inr:
  "build_instances opts es w = (Inr (ns, b), w') \<Longrightarrow>
     map dn_ID ns = map ie_InstanceID es \<and> (\<forall>n \<in> set ns. instance_leaf n)
     \<and> (b \<longleftrightarrow> \<not> do_Force opts \<and> (\<exists>e \<in> set es. 0 < w_conns w (ie_InstanceID e)))"
proof (induction es arbitrary: ns b w)
  case (Cons e es)
  from Cons.prems obtain c v ms d where c: "ActiveConnections (ie_InstanceID e) w = (Inr c, v)"
    and rest: "build_instances opts es v = (Inr (ms, d), w')"
    and ns: "ns = instance_node opts e c # ms" "b = ((c > 0 \<and> \<not> do_Force opts) \<or> d)"
    by (auto simp: op_bind_Inr op_return_def)
  have "c = w_conns w (ie_InstanceID e)" and "w_conns v = w_conns w"
    using ActiveConnections_Inr [OF c] by (simp_all add: same_effects_fields)
  with Cons.IH [OF rest] show ?case by (auto simp: ns instance_node_def instance_leaf_def)
qed (simp add: op_return_def)

lemma list_all2_right: "list_all2 P xs ys \<Longrightarrow> y \<in> set ys \<Longrightarrow> \<exists>x. P x y"
  by (induction rule: list_all2_induct) auto

lemma build_list_Inr:
  assumes "build_list build xs w = (Inr (ns, b), w')" and "\<forall>x. ro.keeps (build x)"
  shows "\<exists>ps. ns = map fst ps \<and> (b \<longleftrightarrow> (\<exists>p \<in> set ps. snd p))
     \<and> list_all2 (\<lambda>x p. \<exists>v v'. same_effects w v \<and> build x v = (Inr p, v')) xs ps"
  using assms(1)
proof (induction xs arbitrary: ns b w)
  case (Cons x xs)
  from Cons.prems obtain n c v ms d where n: "build x w = (Inr (n, c), v)"
    and rest: "build_list build xs v = (Inr (ms, d), w')" and ns: "ns = n # ms" "b = (c \<or> d)"
    by (fastforce simp: op_bind_Inr op_return_def)
  have wv: "same_effects w v" using ro.withinD assms(2) n by blast
  obtain ps where ps: "ms = map fst ps" "d \<longleftrightarrow> (\<exists>p \<in> set ps. snd p)"
    "list_all2 (\<lambda>x p. \<exists>u u'. same_effects v u \<and> build x u = (Inr p, u')) xs ps"
    using Cons.IH [OF rest] by blast
  have "list_all2 (\<lambda>x p. \<exists>u u'. same_effects w u \<and> build x u = (Inr p, u')) xs ps"
    by (rule list_all2_mono [OF ps(3)]) (use wv ro.rel_trans in blast)
  moreover have "\<exists>u u'. same_effects w u \<and> build x u = (Inr (n, c), u')" using n same_effects_refl by blast
  ultimately have "list_all2 (\<lambda>x p. \<exists>u u'. same_effects w u \<and> build x u = (Inr p, u')) (x # xs) ((n, c) # ps)"
    by simp
  then show ?case using ps(1,2) ns by (intro exI [of _ "(n, c) # ps"]) simp
qed (simp add: op_return_def)

fun state_ids :: "DeleteNode \<Rightarrow> bytes set" where
  "state_ids (DeleteNode k nid c b r d im cs) = (if k = ''state'' then {nid} else {}) \<union> (\<Union>n \<in> set cs. state_ids n)"

fun instance_ids :: "DeleteNode \<Rightarrow> bytes set" where
  "instance_ids (DeleteNode k nid c b r d im cs) = (if k = ''instance'' then {nid} else {}) \<union> (\<Union>n \<in> set cs. instance_ids n)"

text \<open>Whether an instance in the tree has open connections and the deletion is not forced.\<close>

definition tree_blocked :: "DeleteOptions \<Rightarrow> (bytes \<Rightarrow> int) \<Rightarrow> DeleteNode \<Rightarrow> bool" where
  "tree_blocked opts conns n \<longleftrightarrow> \<not> do_Force opts \<and> (\<exists>i \<in> instance_ids n. 0 < conns i)"

lemma leaf_ids: "instance_leaf n \<Longrightarrow> instance_ids n = {dn_ID n} \<and> state_ids n = {}"
  by (cases n) (simp add: instance_leaf_def)

lemma leaves_ids: "\<forall>n \<in> set ns. instance_leaf n \<Longrightarrow> (\<Union>n \<in> set ns. instance_ids n) = dn_ID ` set ns \<and> (\<Union>n \<in> set ns. state_ids n) = {}"
  using leaf_ids by auto

lemma GetState_clean: "clean_db db \<Longrightarrow> GetState s db = Some e \<Longrightarrow> clean s \<and> s \<in> sr_state_id ` set (db_states db)"
  by (auto simp: GetState_def clean_db_def find_Some_iff)

text \<open>One level of a successful build.\<close>

lemma buildStateNode_SucE:
  assumes "buildStateNode (Suc fuel) m opts s w = (Inr (n, b), w')" and "clean_db (w_db w)"
  obtains e :: StateEntry and ls lb ks kb v where "clean s"
    and "dn_ID ` set ls = ir_instance_id ` set (instance_rows (w_db w) s)" and "\<forall>n \<in> set ls. instance_leaf n"
    and "lb \<longleftrightarrow> \<not> do_Force opts \<and> (\<exists>i \<in> dn_ID ` set ls. 0 < w_conns w i)" and "same_effects w v"
    and "build_list (\<lambda>c. buildStateNode fuel m opts (se_StateID c))
           (ListStates \<lparr>sf_Kind = [], sf_ImageID = [], sf_IDPrefix = [], sf_ParentID = s\<rparr> (w_db w)) v = (Inr (ks, kb), w')"
    and "n = DeleteNode ''state'' s None (if lb \<or> kb then BlockBlockedDescendant else []) None None
              (Some (se_ImageID e)) (ls @ ks)" and "b = (lb \<or> kb)"
proof -
  obtain e v1 es v2 ls lb v3 cs v4 ks kb where
    e: "db_read (GetState s) w = (Inr (Some e), v1)"
    and es: "instances_of m s v1 = (Inr es, v2)"
    and ls: "build_instances opts es v2 = (Inr (ls, lb), v3)"
    and cs: "children_of s v3 = (Inr cs, v4)"
    and ks: "build_list (\<lambda>c. buildStateNode fuel m opts (se_StateID c)) cs v4 = (Inr (ks, kb), w')"
    and n: "n = DeleteNode ''state'' s None (if lb \<or> kb then BlockBlockedDescendant else []) None None
              (Some (se_ImageID e)) (ls @ ks)" and b: "b = (lb \<or> kb)"
    using assms(1)
    by (fastforce simp: op_bind_Inr op_return_def op_fail_def Let_def split: option.splits)
  have s: "clean s" using GetState_clean db_read_Inr [OF e] assms(2) by metis
  have w1: "same_effects w v1" using db_read_Inr [OF e] by simp
  have w2: "same_effects w v2"
    and es': "es = ListInstances (mg_isExpired m) \<lparr>if_StateID = s, if_ImageID = [], if_IDPrefix = []\<rparr> (w_db w)"
    using db_read_Inr [OF es [unfolded instances_of_def]] w1 by (auto simp: same_effects_fields)
  have w3: "same_effects w v3" using ro.withinD [OF readonly_build_instances ls] ro.rel_trans [OF w2] by blast
  have w4: "same_effects w v4"
    and cs': "cs = ListStates \<lparr>sf_Kind = [], sf_ImageID = [], sf_IDPrefix = [], sf_ParentID = s\<rparr> (w_db w)"
    using db_read_Inr [OF cs [unfolded children_of_def]] w3 by (auto simp: same_effects_fields)
  note r = build_instances_Inr [OF ls]
  have same: "dn_ID ` set ls = ie_InstanceID ` set es" using r by (metis list.set_map)
  then have ids: "dn_ID ` set ls = ir_instance_id ` set (instance_rows (w_db w) s)"
    using ListInstances_clean [OF s] es' by simp
  from same have lb: "lb \<longleftrightarrow> \<not> do_Force opts \<and> (\<exists>i \<in> dn_ID ` set ls. 0 < w_conns w i)"
    using r w2 by (simp add: same_effects_fields)
  have leaf: "\<forall>n \<in> set ls. instance_leaf n" using r by blast
  show thesis by (rule that [OF s ids leaf lb w4 ks [unfolded cs'] n b])
qed

lemma tree_blocked_node:
  assumes "\<forall>n \<in> set ls. instance_leaf n"
  shows "tree_blocked opts conns (DeleteNode ''state'' s c b r d im (ls @ ks)) \<longleftrightarrow>
     (\<not> do_Force opts \<and> (\<exists>i \<in> dn_ID ` set ls. 0 < conns i)) \<or> (\<exists>k \<in> set ks. tree_blocked opts conns k)"
  using conjunct1 [OF leaves_ids [OF assms]] by (auto simp: tree_blocked_def)

text \<open>
  A successful build yields the tree of all descendants, and reports it blocked exactly
  when some instance in it is in use.
\<close>

lemma buildStateNode_Inr:
  "buildStateNode fuel m opts s w = (Inr (n, b), w') \<Longrightarrow> clean_db (w_db w) \<Longrightarrow>
     tree_for (w_db w) n \<and> dn_ID n = s \<and> b = tree_blocked opts (w_conns w) n"
proof (induction fuel arbitrary: s w n b w')
  case (Suc fuel)
  let ?db = "w_db w"
  let ?cs = "ListStates \<lparr>sf_Kind = [], sf_ImageID = [], sf_IDPrefix = [], sf_ParentID = s\<rparr> ?db"
  let ?good = "\<lambda>c p. tree_for ?db (fst p) \<and> dn_ID (fst p) = se_StateID c \<and> snd p = tree_blocked opts (w_conns w) (fst p)"
  obtain e :: StateEntry and ls lb ks kb v where s: "clean s"
    and leaves: "dn_ID ` set ls = ir_instance_id ` set (instance_rows ?db s)" "\<forall>n \<in> set ls. instance_leaf n"
    and lb: "lb \<longleftrightarrow> \<not> do_Force opts \<and> (\<exists>i \<in> dn_ID ` set ls. 0 < w_conns w i)" and v: "same_effects w v"
    and ks: "build_list (\<lambda>c. buildStateNode fuel m opts (se_StateID c)) ?cs v = (Inr (ks, kb), w')"
    and n: "n = DeleteNode ''state'' s None (if lb \<or> kb then BlockBlockedDescendant else []) None None
              (Some (se_ImageID e)) (ls @ ks)" and b: "b = (lb \<or> kb)"
    by (rule buildStateNode_SucE [OF Suc.prems])
  obtain ps where ps: "ks = map fst ps" "kb \<longleftrightarrow> (\<exists>p \<in> set ps. snd p)"
    and rel: "list_all2 (\<lambda>c p. \<exists>u u'. same_effects v u \<and> buildStateNode fuel m opts (se_StateID c) u = (Inr p, u')) ?cs ps"
    using build_list_Inr [OF ks] by auto
  have sub: "?good c p" if run: "\<exists>u u'. same_effects v u \<and> buildStateNode fuel m opts (se_StateID c) u = (Inr p, u')" for c p
  proof -
    obtain u u' where u: "same_effects v u" "buildStateNode fuel m opts (se_StateID c) u = (Inr (fst p, snd p), u')"
      using run by auto
    have "same_effects w u" using v u(1) by (rule ro.rel_trans)
    then show ?thesis using Suc.IH [OF u(2)] Suc.prems(2) by (simp add: same_effects_fields)
  qed
  have good: "list_all2 ?good ?cs ps" by (rule list_all2_mono [OF rel]) (rule sub)
  have "map dn_ID ks = map se_StateID ?cs"
    using good by (simp add: ps(1) list_all2_conv_all_nth list_eq_iff_nth_eq)
  then have kids: "map dn_ID ks = map sr_state_id (child_rows ?db s)" using ListStates_clean [OF s] by simp
  have each: "\<forall>p \<in> set ps. tree_for ?db (fst p) \<and> snd p = tree_blocked opts (w_conns w) (fst p)"
  proof
    fix p assume p: "p \<in> set ps"
    show "tree_for ?db (fst p) \<and> snd p = tree_blocked opts (w_conns w) (fst p)"
      using list_all2_right [OF good p] by blast
  qed
  have "tree_for ?db n"
    unfolding n by (rule tree_for.intros [OF leaves kids]) (use each ps(1) in auto)
  moreover have "b = tree_blocked opts (w_conns w) n"
    unfolding n b tree_blocked_node [OF leaves(2)] using lb ps each by auto
  ultimately show ?case by (simp add: n)
qed (simp add: op_fail_def)

subsection \<open>Descendants\<close>

definition child_rel :: "database \<Rightarrow> (bytes \<times> bytes) set" where
  "child_rel db = {(p, sr_state_id r) | p r. r \<in> set (db_states db) \<and> sr_parent_state_id r = Some p}"

definition descendants :: "database \<Rightarrow> bytes \<Rightarrow> bytes set" where
  "descendants db s = {x. (s, x) \<in> (child_rel db)\<^sup>*}"

definition descendant_instances :: "database \<Rightarrow> bytes \<Rightarrow> bytes set" where
  "descendant_instances db s =
     {ir_instance_id i | i. i \<in> set (db_instances db) \<and> ir_state_id i \<in> descendants db s}"

lemma child_rows_rel: "sr_state_id ` set (child_rows db s) = {c. (s, c) \<in> child_rel db}"
  by (auto simp: child_rows_def child_rel_def)

lemma descendants_unfold: "descendants db s = insert s (\<Union>c \<in> {c. (s, c) \<in> child_rel db}. descendants db c)"
proof (intro set_eqI iffI)
  fix x assume "x \<in> descendants db s"
  then have "(s, x) \<in> (child_rel db)\<^sup>*" by (simp add: descendants_def)
  then show "x \<in> insert s (\<Union>c \<in> {c. (s, c) \<in> child_rel db}. descendants db c)"
    by (cases rule: converse_rtranclE) (auto simp: descendants_def)
next
  fix x assume "x \<in> insert s (\<Union>c \<in> {c. (s, c) \<in> child_rel db}. descendants db c)"
  then show "x \<in> descendants db s"
    by (auto simp: descendants_def intro: converse_rtrancl_into_rtrancl)
qed

lemma tree_root: "tree_for db n \<Longrightarrow> dn_ID n \<in> state_ids n"
  by (cases rule: tree_for.cases) auto

lemma set_map_eq: "map f xs = map g ys \<Longrightarrow> f ` set xs = g ` set ys"
  by (metis list.set_map)

lemma tree_ids:
  assumes "tree_for db n"
  shows "state_ids n = descendants db (dn_ID n)"
    and "instance_ids n = descendant_instances db (dn_ID n)"
  using assms
proof (induction rule: tree_for.induct)
  case (1 leaves s subs c b r d im)
  have kids: "dn_ID ` set subs = {c. (s, c) \<in> child_rel db}"
    using set_map_eq [OF "1.hyps"(3)] child_rows_rel by simp
  have leaf: "(\<Union>n \<in> set leaves. instance_ids n) = ir_instance_id ` set (instance_rows db s)"
    "(\<Union>n \<in> set leaves. state_ids n) = {}"
    using leaves_ids [OF "1.hyps"(2)] "1.hyps"(1) by simp_all
  have split: "descendants db s = insert s (\<Union>k \<in> set subs. descendants db (dn_ID k))"
    using descendants_unfold [of db s] unfolding kids [symmetric] by simp
  {
    case 1
    show ?case using split leaf(2) "1.IH" by auto
  next
    case 2
    have "descendant_instances db s =
        ir_instance_id ` set (instance_rows db s) \<union> (\<Union>k \<in> set subs. descendant_instances db (dn_ID k))"
      using split by (auto simp: descendant_instances_def instance_rows_def)
    then show ?case using leaf(1) "1.IH" by auto
  }
qed

subsection \<open>Deleting a tree\<close>

text \<open>The tables without the states \<open>D\<close> and the instances \<open>I\<close>.\<close>

definition without :: "bytes set \<Rightarrow> bytes set \<Rightarrow> database \<Rightarrow> database" where
  "without D I db = db\<lparr>db_states := filter (\<lambda>r. sr_state_id r \<notin> D) (db_states db),
     db_instances := filter (\<lambda>i. ir_instance_id i \<notin> I) (db_instances db)\<rparr>"

text \<open>What was removed is closed downwards: with a state go its children and its instances.\<close>

definition down_closed :: "database \<Rightarrow> bytes set \<Rightarrow> bytes set \<Rightarrow> bool" where
  "down_closed db D I \<longleftrightarrow>
     (\<forall>s \<in> D. sr_state_id ` set (child_rows db s) \<subseteq> D \<and> ir_instance_id ` set (instance_rows db s) \<subseteq> I)"

lemma DeleteInstance_without: "DeleteInstance i (without D I db) = without D (insert i I) db"
  by (rule database.equality) (auto simp: DeleteInstance_def without_def intro: filter_cong)

lemma DeleteState_without:
  assumes "ir_instance_id ` set (instance_rows db s) \<subseteq> I"
  shows "DeleteState s (without D I db) = Some (without (insert s D) I db)"
proof -
  have "\<forall>i \<in> set (db_instances (without D I db)). ir_state_id i \<noteq> s"
    using assms by (auto simp: without_def instance_rows_def)
  then have "DeleteState s (without D I db)
      = Some ((without D I db)\<lparr>db_states := filter (\<lambda>r. sr_state_id r \<noteq> s) (db_states (without D I db))\<rparr>)"
    by (simp add: DeleteState_def)
  moreover have "(without D I db)\<lparr>db_states := filter (\<lambda>r. sr_state_id r \<noteq> s) (db_states (without D I db))\<rparr>
      = without (insert s D) I db"
    by (rule database.equality) (auto simp: without_def intro: filter_cong)
  ultimately show ?thesis by simp
qed

definition keeps_db :: "'a op \<Rightarrow> bool" where
  "keeps_db m \<longleftrightarrow> (\<forall>w. w_db (snd (m w)) = w_db w \<and> w_access (snd (m w)) = w_access w)"

lemma keeps_db_ops [simp]:
  "keeps_db (op_return x)" "keeps_db (op_fail e)" "keeps_db (remove_dir d)" "keeps_db (rename_dir d d')"
  "keeps_db (runtime_Stop r)"
  by (simp_all add: keeps_db_def op_return_def op_fail_def remove_dir_def rename_dir_def runtime_Stop_def outgoing_def
      Let_def split: option.splits)

lemma keeps_db_bind: "keeps_db m \<Longrightarrow> (\<And>x. keeps_db (f x)) \<Longrightarrow> keeps_db (op_bind m f)"
  by (simp add: keeps_db_def op_bind_def split: prod.splits sum.splits) (metis snd_conv)

lemma keeps_db_try: "keeps_db m \<Longrightarrow> (\<And>r. keeps_db (f r)) \<Longrightarrow> keeps_db (op_try m f)"
  by (simp add: keeps_db_def op_try_def split: prod.splits) (metis snd_conv)

lemma keeps_db_stop: "keeps_db (stopRuntime m r)"
  by (auto simp: stopRuntime_def split: option.splits sum.splits intro!: keeps_db_try)

lemma keeps_db_stopManaged: "keeps_db (stopManagedRuntime m r b)"
  by (simp add: stopManagedRuntime_def)

lemma keeps_db_removeRuntimeDir: "keeps_db (removeRuntimeDir m r)"
  unfolding removeRuntimeDir_def Let_def
  by (auto split: option.split sum.split bool.split engineError.split intro!: keeps_db_try keeps_db_bind)

lemma keeps_db_removeStateDir: "keeps_db (removeStateDir m im s)"
  by (auto simp: removeStateDir_def split: option.splits sum.splits)

text \<open>An operation that may only apply \<open>f\<close> to the database, and has done so when it succeeds.\<close>

definition applies :: "unit op \<Rightarrow> (database \<Rightarrow> database option) \<Rightarrow> bool" where
  "applies m f \<longleftrightarrow> (\<forall>w r w'. m w = (r, w') \<longrightarrow>
     w_access w' = w_access w \<and> ((r \<noteq> Inr () \<and> w_db w' = w_db w) \<or> (r = Inr () \<and> f (w_db w) = Some (w_db w'))))"

lemma applies_write: "applies (db_write f) f"
  by (auto simp: applies_def db_write_def outgoing_def Let_def split: option.splits)

lemma appliesD:
  assumes "applies m (\<lambda>db. Some (g db))" and "m w = (r, w')"
  shows "w_access w' = w_access w" and "(r \<noteq> Inr () \<and> w_db w' = w_db w) \<or> (r = Inr () \<and> w_db w' = g (w_db w))"
proof -
  have "w_access w' = w_access w \<and> ((r \<noteq> Inr () \<and> w_db w' = w_db w) \<or> (r = Inr () \<and> Some (g (w_db w)) = Some (w_db w')))"
    using assms unfolding applies_def by blast
  then show "w_access w' = w_access w" and "(r \<noteq> Inr () \<and> w_db w' = w_db w) \<or> (r = Inr () \<and> w_db w' = g (w_db w))"
    by auto
qed

lemma applies_bind:
  assumes "keeps_db m" and "applies n f"
  shows "applies (op_bind m (\<lambda>_. n)) f"
  unfolding applies_def
proof (intro allI impI)
  fix w r w' assume run: "op_bind m (\<lambda>_. n) w = (r, w')"
  have m: "m w = (q, v) \<Longrightarrow> w_db v = w_db w \<and> w_access v = w_access w" for q v
    using assms(1) unfolding keeps_db_def by (metis snd_conv)
  from run show "w_access w' = w_access w \<and> ((r \<noteq> Inr () \<and> w_db w' = w_db w) \<or> (r = Inr () \<and> f (w_db w) = Some (w_db w')))"
  proof (cases rule: op_bind_cases)
    case (1 e)
    then show ?thesis using m by simp
  next
    case (2 x v)
    then show ?thesis using m [OF 2(1)] assms(2) unfolding applies_def by metis
  qed
qed

lemma applies_state_record: "applies (delete_state_record m im s) (DeleteState s)"
  unfolding delete_state_record_def by (intro applies_bind keeps_db_removeStateDir applies_write)

text \<open>What a deletion does to one instance, directly or inside its retirement.\<close>

definition remove_instance :: "unit op \<Rightarrow> Manager \<Rightarrow> bytes \<Rightarrow> bytes option \<Rightarrow> unit op" where
  "remove_instance stop m i d =
     op_bind stop (\<lambda>_. op_bind (removeRuntimeDir m d) (\<lambda>_. db_write (\<lambda>db. Some (DeleteInstance i db))))"

lemma applies_remove_instance: "keeps_db stop \<Longrightarrow> applies (remove_instance stop m i d) (\<lambda>db. Some (DeleteInstance i db))"
  unfolding remove_instance_def by (intro applies_bind keeps_db_removeRuntimeDir applies_write)

lemma delete_instance_record_split:
  "delete_instance_record m i r d =
     (case mg_access m of None \<Rightarrow> remove_instance (stopRuntime m r) m i d
      | Some service \<Rightarrow> RetireBound service i (Some (\<lambda>b. remove_instance (stopManagedRuntime m r b) m i d)))"
  by (simp add: delete_instance_record_def remove_instance_def split: option.split)

text \<open>A retired access has no instance left.\<close>

definition retired_gone :: "world \<Rightarrow> bool" where
  "retired_gone w \<longleftrightarrow> (\<forall>row \<in> set (w_access w). ar_stage row = ''retired'' \<longrightarrow>
     ar_instance_ref row \<notin> ir_instance_id ` set (db_instances (w_db w)))"

lemma retired_gone_mono:
  assumes "retired_gone w" and "no_new_retired w w'" and "set (db_instances (w_db w')) \<subseteq> set (db_instances (w_db w))"
  shows "retired_gone w'"
  using assms unfolding retired_gone_def no_new_retired_def by blast

lemma DeleteInstance_subset: "set (db_instances (DeleteInstance i db)) \<subseteq> set (db_instances db)"
  by (auto simp: DeleteInstance_def)

lemma DeleteState_instances: "DeleteState s db = Some db' \<Longrightarrow> db_instances db' = db_instances db"
  by (auto simp: DeleteState_def split: if_splits)

text \<open>
  Deleting an instance, whichever way: the row is removed or not, is gone after a success, and
  a retired access still has no instance.
\<close>

lemma retirement_effect:
  assumes rem: "\<And>b. applies (remove b) (\<lambda>db. Some (DeleteInstance i db))"
    and run: "RetireBound service i (Some remove) w = (r, w')" and gone: "retired_gone w"
  shows "retired_gone w' \<and> (w_db w' = w_db w \<or> w_db w' = DeleteInstance i (w_db w))
     \<and> (r = Inr () \<longrightarrow> w_db w' = DeleteInstance i (w_db w))"
  using run
proof (cases rule: RetireBound_cases)
  case untouched
  have db: "w_db w' = w_db w" using untouched(1) by (simp add: lifecycle_only_def)
  have "w_db w = DeleteInstance i (w_db w)" if ok: "r = Inr ()"
  proof -
    obtain row where row: "access_row w i = Some row" "ar_stage row = ''retired''" using untouched(3) ok by blast
    then have "row \<in> set (w_access w)" "ar_instance_ref row = i" by (auto simp: access_row_def find_Some_iff)
    then have "i \<notin> ir_instance_id ` set (db_instances (w_db w))" using gone row(2) by (auto simp: retired_gone_def)
    then show ?thesis by (intro database.equality) (auto simp: DeleteInstance_def intro!: filter_True [symmetric])
  qed
  then show ?thesis using db retired_gone_mono [OF gone untouched(2)] by simp
next
  case (failed b v e v')
  have "w_access v' = w_access v" "w_db v' = w_db v" using appliesD [OF rem failed(3)] by simp_all
  moreover have "w_db v = w_db w" using failed(1) by (simp add: lifecycle_only_def)
  ultimately have "w_access w' = w_access v" "w_db w' = w_db w" using failed(4) by (simp_all add: same_effects_fields)
  then show ?thesis using retired_gone_mono [OF gone] failed(2,5) by (simp add: no_new_retired_def)
next
  case (removed b v v')
  have v': "w_access v' = w_access v" "w_db v' = DeleteInstance i (w_db v)"
    using appliesD [OF rem removed(3)] by simp_all
  have v: "w_db v = w_db w" using removed(1) by (simp add: lifecycle_only_def)
  have w': "w_db w' = w_db v'" using life.withinD [OF life.within_transition removed(4)] by (simp add: lifecycle_only_def)
  have rows: "row \<in> set (w_access v) \<or> ar_instance_ref row = i"
    if "row \<in> set (w_access w')" for row
    using that transition_cases [OF removed(4)] v'(1) by (auto split: if_splits)
  have "retired_gone w'"
    unfolding retired_gone_def
  proof (intro ballI impI)
    fix row assume row: "row \<in> set (w_access w')" "ar_stage row = ''retired''"
    show "ar_instance_ref row \<notin> ir_instance_id ` set (db_instances (w_db w'))"
    proof (cases "ar_instance_ref row = i")
      case True
      then show ?thesis by (auto simp: w' v' DeleteInstance_def)
    next
      case False
      then have "row \<in> set (w_access w)" using rows row removed(2) by (auto simp: no_new_retired_def)
      then show ?thesis using gone row(2) DeleteInstance_subset [of i "w_db w"] by (auto simp: retired_gone_def w' v' v)
    qed
  qed
  then show ?thesis by (simp add: w' v' v)
qed

lemma delete_instance_effect:
  assumes run: "delete_instance_record m i r d w = (q, w')" and gone: "retired_gone w"
  shows "retired_gone w' \<and> (w_db w' = w_db w \<or> w_db w' = DeleteInstance i (w_db w))
     \<and> (q = Inr () \<longrightarrow> w_db w' = DeleteInstance i (w_db w))"
proof (cases "mg_access m")
  case None
  then have ap: "applies (delete_instance_record m i r d) (\<lambda>db. Some (DeleteInstance i db))"
    by (simp add: delete_instance_record_split applies_remove_instance keeps_db_stop)
  have "w_access w' = w_access w" "(q \<noteq> Inr () \<and> w_db w' = w_db w) \<or> (q = Inr () \<and> w_db w' = DeleteInstance i (w_db w))"
    by (rule appliesD [OF ap run])+
  moreover from this have "retired_gone w'"
    using retired_gone_mono [OF gone no_new_retired_same] DeleteInstance_subset [of i "w_db w"] by (elim disjE) auto
  ultimately show ?thesis by auto
next
  case (Some service)
  then have "RetireBound service i (Some (\<lambda>b. remove_instance (stopManagedRuntime m r b) m i d)) w = (q, w')"
    using run by (simp add: delete_instance_record_split)
  then show ?thesis
    by (rule retirement_effect [OF applies_remove_instance [OF keeps_db_stopManaged] _ gone])
qed

text \<open>
  Progress of a deletion, for every fault schedule: from the tables without \<open>D\<close> and \<open>I\<close> it
  reaches the tables without more of the tree, always closed downwards, and without
  all of it when it succeeds.
\<close>

definition advanced :: "database \<Rightarrow> bytes set \<Rightarrow> bytes set \<Rightarrow> bytes set \<Rightarrow> bytes set \<Rightarrow> engineError + unit \<Rightarrow> world \<Rightarrow> bool" where
  "advanced db S T D I r w' \<longleftrightarrow> (\<exists>D' I'. w_db w' = without D' I' db \<and> down_closed db D' I' \<and> retired_gone w'
     \<and> D \<subseteq> D' \<and> I \<subseteq> I' \<and> D' \<subseteq> D \<union> S \<and> I' \<subseteq> I \<union> T \<and> (r = Inr () \<longrightarrow> D' = D \<union> S \<and> I' = I \<union> T))"

definition progress :: "database \<Rightarrow> unit op \<Rightarrow> bytes set \<Rightarrow> bytes set \<Rightarrow> bool" where
  "progress db act S T \<longleftrightarrow> (\<forall>w D I r w'. w_db w = without D I db \<longrightarrow> down_closed db D I \<longrightarrow> retired_gone w \<longrightarrow>
     act w = (r, w') \<longrightarrow> advanced db S T D I r w')"

lemma advancedI:
  assumes "w_db w' = without D' I' db" and "down_closed db D' I'" and "retired_gone w'" and "D \<subseteq> D'" and "I \<subseteq> I'"
    and "D' \<subseteq> D \<union> S" and "I' \<subseteq> I \<union> T" and "r = Inr () \<Longrightarrow> D' = D \<union> S \<and> I' = I \<union> T"
  shows "advanced db S T D I r w'"
  unfolding advanced_def by (rule exI [of _ D'], rule exI [of _ I']) (simp add: assms)

lemma progressE:
  assumes "progress db act S T" and "w_db w = without D I db" and "down_closed db D I" and "retired_gone w" and "act w = (r, w')"
  obtains D' I' where "w_db w' = without D' I' db" and "down_closed db D' I'" and "retired_gone w'" and "D \<subseteq> D'" and "I \<subseteq> I'"
    and "D' \<subseteq> D \<union> S" and "I' \<subseteq> I \<union> T" and "r = Inr () \<longrightarrow> D' = D \<union> S \<and> I' = I \<union> T"
proof -
  have "advanced db S T D I r w'" using assms unfolding progress_def by blast
  then show thesis unfolding advanced_def by (elim exE conjE) (rule that)
qed

lemma progressI:
  assumes "\<And>w D I r w'. w_db w = without D I db \<Longrightarrow> down_closed db D I \<Longrightarrow> retired_gone w \<Longrightarrow> act w = (r, w') \<Longrightarrow>
     advanced db S T D I r w'"
  shows "progress db act S T"
  unfolding progress_def by (intro allI impI) (rule assms)

lemma progress_return: "progress db (op_return ()) {} {}"
proof (rule progressI)
  fix w D I w' and r :: "engineError + unit" assume w: "w_db w = without D I db" "down_closed db D I" "retired_gone w" and run: "op_return () w = (r, w')"
  show "advanced db {} {} D I r w'" by (rule advancedI [of _ D I]) (use w run in \<open>simp_all add: op_return_def\<close>)
qed

lemma progress_bind:
  assumes "progress db a S T" and "progress db b S' T'"
  shows "progress db (op_bind a (\<lambda>_. b)) (S \<union> S') (T \<union> T')"
proof (rule progressI)
  fix w D I r w' assume w: "w_db w = without D I db" "down_closed db D I" "retired_gone w" and run: "op_bind a (\<lambda>_. b) w = (r, w')"
  from run show "advanced db (S \<union> S') (T \<union> T') D I r w'"
  proof (cases rule: op_bind_cases)
    case (1 e)
    show ?thesis
      by (rule progressE [OF assms(1) w 1(1)], erule (2) advancedI) (use 1(2) in auto)
  next
    case (2 x v)
    have first: "a w = (Inr (), v)" using 2(1) by simp
    obtain D1 I1 where d1: "w_db v = without D1 I1 db" "down_closed db D1 I1" "retired_gone v"
      and all: "D1 = D \<union> S" "I1 = I \<union> T"
      by (rule progressE [OF assms(1) w first]) blast
    show ?thesis
      by (rule progressE [OF assms(2) d1 2(2)], erule (2) advancedI) (use all in auto)
  qed
qed

lemma progress_instance: "progress db (delete_instance_record m i r d) {} {i}"
proof (rule progressI)
  fix w D I res w' assume w: "w_db w = without D I db" "down_closed db D I" "retired_gone w"
    and run: "delete_instance_record m i r d w = (res, w')"
  have eff: "retired_gone w'" "w_db w' = without D I db \<or> w_db w' = without D (insert i I) db"
    "res = Inr () \<longrightarrow> w_db w' = without D (insert i I) db"
    using delete_instance_effect [OF run w(3)] w(1) DeleteInstance_without by auto
  have closed: "down_closed db D (insert i I)" using w(2) unfolding down_closed_def by blast
  show "advanced db {} {i} D I res w'"
  proof (cases "w_db w' = without D (insert i I) db")
    case True
    show ?thesis by (rule advancedI [OF True closed eff(1)]) auto
  next
    case False
    show ?thesis by (rule advancedI [of _ D I]) (use eff w(2) False in auto)
  qed
qed

text \<open>The state itself goes last, when its children and instances are gone.\<close>

lemma progress_state_record:
  assumes "w_db v = without D I db" and "down_closed db D I" and "retired_gone v" and "delete_state_record m im s v = (res, w')"
    and "sr_state_id ` set (child_rows db s) \<subseteq> D" and "ir_instance_id ` set (instance_rows db s) \<subseteq> I"
  shows "retired_gone w' \<and> ((res \<noteq> Inr () \<and> w_db w' = without D I db)
     \<or> (res = Inr () \<and> w_db w' = without (insert s D) I db \<and> down_closed db (insert s D) I))"
proof -
  have acc: "w_access w' = w_access v"
    and db: "(res \<noteq> Inr () \<and> w_db w' = w_db v) \<or> (res = Inr () \<and> DeleteState s (w_db v) = Some (w_db w'))"
    using applies_state_record [of m im s] assms(4) unfolding applies_def by blast+
  have "db_instances (w_db w') = db_instances (w_db v)" using db DeleteState_instances by auto
  then have "retired_gone w'" using retired_gone_mono [OF assms(3) no_new_retired_same [OF acc]] by simp
  moreover have "down_closed db (insert s D) I" using assms(2,5,6) by (auto simp: down_closed_def)
  ultimately show ?thesis using db DeleteState_without [OF assms(6)] assms(1) by auto
qed

lemma progress_state:
  assumes "progress db act S T" and "sr_state_id ` set (child_rows db s) \<subseteq> S" and "ir_instance_id ` set (instance_rows db s) \<subseteq> T"
  shows "progress db (op_bind act (\<lambda>_. delete_state_record m im s)) (insert s S) T"
proof (rule progressI)
  fix w D I res w' assume w: "w_db w = without D I db" "down_closed db D I" "retired_gone w"
    and run: "op_bind act (\<lambda>_. delete_state_record m im s) w = (res, w')"
  from run show "advanced db (insert s S) T D I res w'"
  proof (cases rule: op_bind_cases)
    case (1 e)
    show ?thesis
      by (rule progressE [OF assms(1) w 1(1)], erule (2) advancedI) (use 1(2) in auto)
  next
    case (2 x v)
    have first: "act w = (Inr (), v)" using 2(1) by simp
    obtain D1 I1 where d1: "w_db v = without D1 I1 db" "down_closed db D1 I1" "retired_gone v"
      and all: "D1 = D \<union> S" "I1 = I \<union> T"
      by (rule progressE [OF assms(1) w first]) blast
    have sub: "sr_state_id ` set (child_rows db s) \<subseteq> D1" "ir_instance_id ` set (instance_rows db s) \<subseteq> I1"
      using assms(2,3) all by blast+
    note eff = progress_state_record [OF d1 2(2) sub]
    show ?thesis
    proof (cases "res = Inr ()")
      case True
      show ?thesis by (rule advancedI [of _ "insert s D1" I1]) (use eff True all in auto)
    next
      case False
      show ?thesis by (rule advancedI [of _ D1 I1]) (use eff False d1(2) all in auto)
    qed
  qed
qed

lemma progress_leaves:
  assumes "\<forall>n \<in> set ns. progress db (deleteTree m n) (state_ids n) (instance_ids n)"
  shows "progress db (deleteTrees m ns) (\<Union>n \<in> set ns. state_ids n) (\<Union>n \<in> set ns. instance_ids n)"
  using assms
proof (induction ns)
  case (Cons n ns)
  then show ?case using progress_bind [of db "deleteTree m n" _ _ "deleteTrees m ns"] by simp
qed (simp add: progress_return)

lemma progress_leaf:
  assumes "instance_leaf n"
  shows "progress db (deleteTree m n) (state_ids n) (instance_ids n)"
proof (cases n)
  case (DeleteNode k nid c b r d im cs)
  then have k: "k = ''instance''" "cs = []" using assms by (simp_all add: instance_leaf_def)
  from progress_bind [OF progress_return progress_instance [of db m nid r d]]
  show ?thesis by (simp add: DeleteNode k)
qed

lemma deleteTree_progress:
  assumes "tree_for db n"
  shows "progress db (deleteTree m n) (state_ids n) (instance_ids n)"
  using assms
proof (induction rule: tree_for.induct)
  case (1 leaves s subs c b r d im)
  let ?S = "\<Union>n \<in> set (leaves @ subs). state_ids n" and ?T = "\<Union>n \<in> set (leaves @ subs). instance_ids n"
  have kids: "sr_state_id ` set (child_rows db s) \<subseteq> ?S"
  proof -
    have "dn_ID ` set subs \<subseteq> ?S" using "1.IH" tree_root by fastforce
    then show ?thesis using set_map_eq [OF "1.hyps"(3)] by simp
  qed
  have insts: "ir_instance_id ` set (instance_rows db s) \<subseteq> ?T"
    using leaves_ids [OF "1.hyps"(2)] "1.hyps"(1) by auto
  have "progress db (deleteTrees m (leaves @ subs)) ?S ?T"
    by (rule progress_leaves) (use "1.hyps"(2) "1.IH" progress_leaf in auto)
  from progress_state [OF this kids insts, of m im] show ?case by simp
qed

text \<open>Nothing that is left refers to something that is gone.\<close>

definition parents_exist :: "database \<Rightarrow> bool" where
  "parents_exist db \<longleftrightarrow> (\<forall>r \<in> set (db_states db). \<forall>p. sr_parent_state_id r = Some p \<longrightarrow>
     p \<in> sr_state_id ` set (db_states db))"

lemma without_wf:
  assumes "db_wf db" and "down_closed db D I"
  shows "db_wf (without D I db)"
proof -
  have "ir_state_id i \<in> sr_state_id ` {r \<in> set (db_states db). sr_state_id r \<notin> D}"
    if i: "i \<in> set (db_instances db)" "ir_instance_id i \<notin> I" for i
  proof -
    obtain r where r: "r \<in> set (db_states db)" "ir_state_id i = sr_state_id r" using assms(1) i(1) by (auto simp: db_wf_def)
    have "i \<in> set (instance_rows db (sr_state_id r))" using i(1) r(2) by (simp add: instance_rows_def)
    then have "sr_state_id r \<notin> D" using assms(2) i(2) unfolding down_closed_def by blast
    with r show ?thesis by blast
  qed
  then show ?thesis using assms(1) by (auto simp: db_wf_def without_def distinct_map_filter)
qed

lemma without_parents_exist:
  assumes "parents_exist db" and "down_closed db D I"
  shows "parents_exist (without D I db)"
  unfolding parents_exist_def
proof (intro ballI allI impI)
  fix r p assume r: "r \<in> set (db_states (without D I db))" "sr_parent_state_id r = Some p"
  then have rdb: "r \<in> set (db_states db)" and "sr_state_id r \<notin> D" by (simp_all add: without_def)
  moreover from this have "p \<in> sr_state_id ` set (db_states db)" using assms(1) r(2) by (auto simp: parents_exist_def)
  moreover have "p \<notin> D"
  proof
    assume "p \<in> D"
    then have "sr_state_id ` set (child_rows db p) \<subseteq> D" using assms(2) by (simp add: down_closed_def)
    moreover have "r \<in> set (child_rows db p)" using rdb r(2) by (simp add: child_rows_def)
    ultimately show False using \<open>sr_state_id r \<notin> D\<close> by blast
  qed
  ultimately show "p \<in> sr_state_id ` set (db_states (without D I db))" by (auto simp: without_def)
qed

lemma without_none: "without {} {} db = db"
  by (simp add: without_def)

lemma down_closed_none: "down_closed db {} {}"
  by (simp add: down_closed_def)

subsection \<open>The walk ends on an acyclic table\<close>

lemma db_read_works: "no_faults w \<Longrightarrow> \<exists>w'. db_read f w = (Inr (f (w_db w)), w') \<and> same_effects w w'"
  by (simp add: db_read_def asks_no_faults same_effects_iff) blast

lemma build_instances_works: "no_faults w \<Longrightarrow> \<exists>x w'. build_instances opts es w = (Inr x, w')"
proof (induction es arbitrary: w)
  case (Cons e es)
  obtain c v where c: "ActiveConnections (ie_InstanceID e) w = (Inr c, v)"
    using Cons.prems by (simp add: ActiveConnections_def asks_no_faults)
  have "no_faults v" using ActiveConnections_Inr [OF c] no_faults_same Cons.prems by blast
  then obtain ns b w' where "build_instances opts es v = (Inr (ns, b), w')" using Cons.IH by force
  then show ?case by (auto simp: op_bind_def c op_return_def)
qed (auto simp: op_return_def)

lemma build_list_works:
  assumes "\<forall>x \<in> set xs. \<forall>v. same_effects w v \<longrightarrow> (\<exists>p v'. build x v = (Inr p, v'))" and "\<forall>x. ro.keeps (build x)"
  shows "\<exists>x w'. build_list build xs w = (Inr x, w')"
  using assms(1)
proof (induction xs arbitrary: w)
  case (Cons x xs)
  obtain n b v where v: "build x w = (Inr (n, b), v)" using Cons.prems same_effects_refl by fastforce
  have wv: "same_effects w v" using ro.withinD assms(2) v by blast
  have "\<exists>y w'. build_list build xs v = (Inr y, w')"
    by (rule Cons.IH) (use Cons.prems wv ro.rel_trans in fastforce)
  then obtain ns c w' where "build_list build xs v = (Inr (ns, c), w')" by force
  then show ?case by (auto simp: op_bind_def v op_return_def)
qed (auto simp: op_return_def)

definition state_set :: "database \<Rightarrow> bytes set" where
  "state_set db = sr_state_id ` set (db_states db)"

lemma GetState_some: "s \<in> state_set db \<Longrightarrow> \<exists>e. GetState s db = Some e"
  using find_None_iff [of "\<lambda>r. sr_state_id r = s" "db_states db"] by (auto simp: GetState_def state_set_def)

lemma child_rel_state_set: "(p, c) \<in> child_rel db \<Longrightarrow> c \<in> state_set db"
  by (auto simp: child_rel_def state_set_def)

definition depth_bound :: "database \<Rightarrow> bytes \<Rightarrow> nat" where
  "depth_bound db s = card {x. (s, x) \<in> (child_rel db)\<^sup>+}"

lemma below_finite: "finite {x. (s, x) \<in> (child_rel db)\<^sup>+}" and below_subset: "{x. (s, x) \<in> (child_rel db)\<^sup>+} \<subseteq> state_set db"
proof -
  show sub: "{x. (s, x) \<in> (child_rel db)\<^sup>+} \<subseteq> state_set db"
    by (auto dest: tranclD2 child_rel_state_set)
  have "finite (state_set db)" by (simp add: state_set_def)
  then show "finite {x. (s, x) \<in> (child_rel db)\<^sup>+}" by (rule finite_subset [OF sub])
qed

lemma depth_bound_child:
  assumes "acyclic (child_rel db)" and "(p, c) \<in> child_rel db"
  shows "depth_bound db c < depth_bound db p"
  unfolding depth_bound_def
proof (rule psubset_card_mono [OF below_finite])
  have "c \<in> {x. (p, x) \<in> (child_rel db)\<^sup>+}" "c \<notin> {x. (c, x) \<in> (child_rel db)\<^sup>+}"
    using assms by (auto simp: acyclic_def)
  moreover have "{x. (c, x) \<in> (child_rel db)\<^sup>+} \<subseteq> {x. (p, x) \<in> (child_rel db)\<^sup>+}"
    using assms(2) by (auto intro: trancl_into_trancl2)
  ultimately show "{x. (c, x) \<in> (child_rel db)\<^sup>+} \<subset> {x. (p, x) \<in> (child_rel db)\<^sup>+}" by blast
qed

lemma depth_bound_less:
  assumes "acyclic (child_rel db)" and "s \<in> state_set db"
  shows "depth_bound db s < length (db_states db)"
proof -
  have "{x. (s, x) \<in> (child_rel db)\<^sup>+} \<subset> state_set db"
    using below_subset assms by (auto simp: acyclic_def)
  then have "depth_bound db s < card (state_set db)"
    unfolding depth_bound_def by (rule psubset_card_mono [rotated]) (simp add: state_set_def)
  also have "\<dots> \<le> length (db_states db)"
    unfolding state_set_def by (metis card_length image_set length_map)
  finally show ?thesis .
qed

lemma buildStateNode_works:
  "no_faults w \<Longrightarrow> clean_db (w_db w) \<Longrightarrow> acyclic (child_rel (w_db w)) \<Longrightarrow> s \<in> state_set (w_db w) \<Longrightarrow>
     depth_bound (w_db w) s < fuel \<Longrightarrow> \<exists>x w'. buildStateNode fuel m opts s w = (Inr x, w')"
proof (induction fuel arbitrary: s w)
  case (Suc fuel)
  let ?db = "w_db w"
  let ?cs = "ListStates \<lparr>sf_Kind = [], sf_ImageID = [], sf_IDPrefix = [], sf_ParentID = s\<rparr> ?db"
  obtain e where e: "GetState s ?db = Some e" using GetState_some Suc.prems(4) by blast
  then have clean: "clean s" using GetState_clean Suc.prems(2) by blast
  obtain v1 where 1: "db_read (GetState s) w = (Inr (Some e), v1)" "same_effects w v1"
    using db_read_works [OF Suc.prems(1), of "GetState s"] e by auto
  obtain es v2 where 2: "instances_of m s v1 = (Inr es, v2)" "same_effects w v2"
    using db_read_works [OF no_faults_same [OF 1(2) Suc.prems(1)]] ro.rel_trans [OF 1(2)]
    unfolding instances_of_def by blast
  obtain ls lb v3 where 3: "build_instances opts es v2 = (Inr (ls, lb), v3)"
    using build_instances_works [OF no_faults_same [OF 2(2) Suc.prems(1)]] by force
  then have w3: "same_effects w v3" using ro.withinD [OF readonly_build_instances] ro.rel_trans [OF 2(2)] by blast
  obtain v4 where 4: "children_of s v3 = (Inr ?cs, v4)" "same_effects w v4"
  proof -
    have "w_db v3 = ?db" using w3 by (simp add: same_effects_fields)
    then show thesis
      using that ro.rel_trans [OF w3] unfolding children_of_def
      by (metis db_read_works [OF no_faults_same [OF w3 Suc.prems(1)]])
  qed
  have "\<exists>x w'. build_list (\<lambda>c. buildStateNode fuel m opts (se_StateID c)) ?cs v4 = (Inr x, w')"
  proof (rule build_list_works, intro ballI allI impI)
    fix c v assume c: "c \<in> set ?cs" and v: "same_effects v4 v"
    have wv: "same_effects w v" using 4(2) v by (rule ro.rel_trans)
    have "se_StateID c \<in> sr_state_id ` set (child_rows ?db s)"
      using c set_map_eq [OF ListStates_clean [OF clean]] by blast
    then have rel: "(s, se_StateID c) \<in> child_rel ?db" using child_rows_rel by blast
    have "depth_bound ?db (se_StateID c) < fuel" using depth_bound_child [OF Suc.prems(3) rel] Suc.prems(5) by simp
    then show "\<exists>p v'. buildStateNode fuel m opts (se_StateID c) v = (Inr p, v')"
      using Suc.IH [of v "se_StateID c"] no_faults_same [OF wv Suc.prems(1)] Suc.prems(2,3) child_rel_state_set [OF rel] wv
      by (simp add: same_effects_fields)
  qed simp
  then obtain ks kb w' where "build_list (\<lambda>c. buildStateNode fuel m opts (se_StateID c)) ?cs v4 = (Inr (ks, kb), w')"
    by force
  then show ?case using 1(1) 2(1) 3 4(1) by (auto simp: op_bind_def op_return_def Let_def)
qed simp

subsection \<open>Runs of DeleteState\<close>

lemma DeleteState_recursive:
  assumes "do_Recurse opts" and "Manager_DeleteState fuel m s opts w = (Inr (Some res), w')"
    and "clean_db (w_db w)"
  obtains tree v where "tree_for (w_db w) tree" and "dn_ID tree = s" and "dr_Root res = tree" and "same_effects w v"
    and "dr_Outcome res = outcomeFor (tree_blocked opts (w_conns w) tree) (do_DryRun opts)"
    and "if tree_blocked opts (w_conns w) tree \<or> do_DryRun opts then w' = v else deleteTree m tree v = (Inr (), w')"
proof -
  obtain e v1 tree b v where 1: "db_read (GetState s) w = (Inr (Some e), v1)"
    and build: "buildStateNode fuel m opts s v1 = (Inr (tree, b), v)"
    and res: "res = \<lparr>dr_DryRun = do_DryRun opts, dr_Outcome = outcomeFor b (do_DryRun opts), dr_Root = tree\<rparr>"
    and run: "if b \<or> do_DryRun opts then w' = v else deleteTree m tree v = (Inr (), w')"
    using assms(1,2) unfolding Manager_DeleteState_def
    by (auto simp: op_bind_Inr op_return_def Let_def split: option.splits if_splits)
  have w1: "same_effects w v1" using db_read_Inr [OF 1] by simp
  have "clean_db (w_db v1)" using assms(3) w1 by (simp add: same_effects_fields)
  from buildStateNode_Inr [OF build this] w1
  have tree: "tree_for (w_db w) tree" "dn_ID tree = s" "b = tree_blocked opts (w_conns w) tree"
    by (simp_all add: same_effects_fields)
  have "same_effects w v" using ro.withinD [OF readonly_buildStateNode build] ro.rel_trans [OF w1] by blast
  then show thesis using that [OF tree(1,2)] res run tree(3) by simp
qed

lemma hasDescendants_Inr:
  assumes "hasDescendants m s w = (Inr has, w')" and "clean s"
  shows "same_effects w w' \<and> (has \<longleftrightarrow> instance_rows (w_db w) s \<noteq> [] \<or> child_rows (w_db w) s \<noteq> [])"
proof -
  have same: "same_effects w w'" using assms(1) readonly_hasDescendants by (rule ro.withinD [rotated])
  obtain insts v where listed: "instances_of m s w = (Inr insts, v)"
    and rest: "(if insts \<noteq> [] then op_return True else op_bind (children_of s) (\<lambda>c. op_return (c \<noteq> []))) v = (Inr has, w')"
    using assms(1) by (auto simp: hasDescendants_def op_bind_Inr)
  have v: "w_db v = w_db w" and l: "ie_InstanceID ` set insts = ir_instance_id ` set (instance_rows (w_db w) s)"
    using db_read_Inr [OF listed [unfolded instances_of_def]] ListInstances_clean [OF assms(2)] by (auto simp: same_effects_fields)
  have "insts = [] \<longleftrightarrow> instance_rows (w_db w) s = []" using l by (metis image_is_empty set_empty)
  moreover have "insts = [] \<Longrightarrow> has \<longleftrightarrow> child_rows (w_db w) s \<noteq> []"
  proof -
    assume "insts = []"
    then obtain cs u where cs: "children_of s v = (Inr cs, u)" and has: "has = (cs \<noteq> [])"
      using rest by (auto simp: op_bind_Inr op_return_def)
    have "map se_StateID cs = map sr_state_id (child_rows (w_db w) s)"
      using db_read_Inr [OF cs [unfolded children_of_def]] ListStates_clean [OF assms(2)] v by auto
    then show ?thesis using has by (metis map_is_Nil_conv)
  qed
  moreover have "insts \<noteq> [] \<Longrightarrow> has" using rest by (simp add: op_return_def)
  ultimately show ?thesis using same by blast
qed

text \<open>A run of \<^verbatim>\<open>DeleteState\<close> is a read-only part, then possibly one deletion that makes progress.\<close>

lemma progress_from_start:
  assumes "progress (w_db w) act S T" and "same_effects w v" and "retired_gone w" and "act v = (q, v')"
  shows "\<exists>D I. w_db v' = without D I (w_db w) \<and> down_closed (w_db w) D I \<and> retired_gone v'"
proof -
  have "w_db v = without {} {} (w_db w)" using assms(2) by (simp add: same_effects_fields without_none)
  moreover have "retired_gone v" using assms(2,3) by (simp add: same_effects_fields retired_gone_def)
  ultimately show ?thesis using progressE [OF assms(1) _ down_closed_none _ assms(4)] by metis
qed

lemma progress_leaf_state:
  assumes "instance_rows db s = []" and "child_rows db s = []"
  shows "progress db (delete_state_record m im s) {s} {}"
  using progress_state [OF progress_return, of db s m im] assms by (simp add: op_bind_return)

lemma DeleteState_nonrecursive_progress:
  assumes "clean_db (w_db w)" and "retired_gone w" and "same_effects w v" and "GetState s (w_db w) = Some e"
    and "op_bind (hasDescendants m s) (\<lambda>has.
           if has then op_return a
           else if do_DryRun opts then op_return b
           else op_bind (delete_state_record m im s) (\<lambda>_. op_return b)) v = (r, w')"
  shows "\<exists>D I. w_db w' = without D I (w_db w) \<and> down_closed (w_db w) D I \<and> retired_gone w'"
proof -
  have unchanged: ?thesis if "same_effects w w'"
    using that without_none down_closed_none assms(2) unfolding same_effects_fields retired_gone_def by metis
  have s: "clean s" using GetState_clean assms(1,4) by blast
  from assms(5) show ?thesis
  proof (cases rule: op_bind_cases)
    case (1 x)
    then show ?thesis using unchanged ro.rel_trans [OF assms(3)] ro.withinD [OF readonly_hasDescendants] by blast
  next
    case (2 has u)
    have u: "same_effects w u" and has: "has \<longleftrightarrow> instance_rows (w_db w) s \<noteq> [] \<or> child_rows (w_db w) s \<noteq> []"
      using hasDescendants_Inr [OF 2(1) s] assms(3) by (auto simp: same_effects_fields)
    show ?thesis
    proof (cases "has \<or> do_DryRun opts")
      case True
      then show ?thesis using 2(2) u unchanged by (auto simp: op_return_def split: if_splits)
    next
      case False
      obtain q where q: "delete_state_record m im s u = (q, w')"
        using False 2(2) by (auto simp: op_bind_def op_return_def split: prod.splits sum.splits)
      show ?thesis by (rule progress_from_start [OF progress_leaf_state u assms(2) q]) (use False has in auto)
    qed
  qed
qed

lemma DeleteState_progress:
  assumes "retired_gone w" and "clean_db (w_db w)" and "Manager_DeleteState fuel m s opts w = (r, w')"
  shows "\<exists>D I. w_db w' = without D I (w_db w) \<and> down_closed (w_db w) D I \<and> retired_gone w'"
proof -
  have unchanged: ?thesis if "same_effects w w'"
    using that without_none down_closed_none assms(1) unfolding same_effects_fields retired_gone_def by metis
  from assms(3) [unfolded Manager_DeleteState_def] show ?thesis
  proof (cases rule: op_bind_cases)
    case (1 x)
    then show ?thesis using unchanged ro.withinD [OF ro.within_reads(1)] by blast
  next
    case (2 found v)
    have v: "same_effects w v" and found: "found = GetState s (w_db w)" using db_read_Inr [OF 2(1)] by simp_all
    show ?thesis
    proof (cases found)
      case None
      then show ?thesis using 2(2) v unchanged by (simp add: op_return_def)
    next
      case (Some e)
      show ?thesis
      proof (cases "do_Recurse opts")
        case False
        note run = 2(2) [unfolded Some, simplified False Let_def, simplified]
        show ?thesis by (rule DeleteState_nonrecursive_progress [OF assms(2,1) v found [symmetric, unfolded Some] run])
      next
        case True
        note run = 2(2) [unfolded Some, simplified True, simplified]
        from run show ?thesis
        proof (cases rule: op_bind_cases)
          case (1 x)
          then show ?thesis using unchanged ro.rel_trans [OF v] ro.withinD [OF readonly_buildStateNode] by blast
        next
          case (2 p u)
          obtain tree b where p: "p = (tree, b)" by (cases p)
          have u: "same_effects w u" using ro.rel_trans [OF v] ro.withinD [OF readonly_buildStateNode 2(1)] by blast
          have tree: "tree_for (w_db w) tree"
            using buildStateNode_Inr [OF 2(1) [unfolded p]] assms(2) v by (simp add: same_effects_fields)
          show ?thesis
          proof (cases "b \<or> do_DryRun opts")
            case True
            then show ?thesis using 2(2) p u unchanged by (simp add: op_return_def Let_def)
          next
            case False
            obtain q where q: "deleteTree m tree u = (q, w')"
              using 2(2) False p by (auto simp: op_bind_def op_return_def Let_def split: prod.splits sum.splits)
            show ?thesis by (rule progress_from_start [OF deleteTree_progress [OF tree] u assms(1) q])
          qed
        qed
      qed
    qed
  qed
qed

end
