(* ===== verification/Deletion_Props.thy ===== *)
theory Deletion_Props
  imports Deletion_Tree
begin

text \<open>
  The properties of deletion: what a blocked or dry run leaves alone, what a recursive
  deletion removes, when it is refused, and that it can be interrupted anywhere without
  orphaning a state or an instance.
\<close>

subsection \<open>A small engine\<close>

definition ex_state :: "bytes \<Rightarrow> bytes option \<Rightarrow> StateRow" where
  "ex_state s p = \<lparr>sr_state_id = s, sr_parent_state_id = p, sr_state_fingerprint = s, sr_image_id = ''img'',
     sr_prepare_kind = ''psql'', sr_prepare_args = [], sr_created_at = [], sr_size_bytes = None,
     sr_last_used_at = None, sr_use_count = None, sr_min_retention_until = None, sr_status = None,
     sr_lineage_ref = [], sr_identity_digest = []\<rparr>"

definition ex_instance :: "bytes \<Rightarrow> bytes \<Rightarrow> InstanceRow" where
  "ex_instance i s = \<lparr>ir_instance_id = i, ir_state_id = s, ir_image_id = ''img'', ir_created_at = [],
     ir_expires_at = None, ir_runtime_id = Some ''r1'', ir_runtime_dir = Some ''/run/r1'', ir_status = None\<rparr>"

definition ex_db :: database where
  "ex_db = \<lparr>db_states = [ex_state ''s1'' None, ex_state ''s2'' (Some ''s1''), ex_state ''s3'' None],
     db_instances = [ex_instance ''i1'' ''s2'', ex_instance ''i3'' ''s3''], db_names = []\<rparr>"

definition ex_world :: "(bytes \<Rightarrow> int) \<Rightarrow> (nat \<Rightarrow> engineError option) \<Rightarrow> world" where
  "ex_world conns fault = \<lparr>w_db = ex_db, w_domain = [], w_lineages = [], w_access = [], w_bootstrap = [],
     w_secrets = [], w_operations = [], w_seals = [], w_bases = [], w_conns = conns, w_removed = [], w_stopped = [],
     w_entropy = (\<lambda>_. CHR ''x''), w_drawn = 0, w_now = 0, w_fault = fault, w_calls = 0\<rparr>"

definition ex_manager :: Manager where
  "ex_manager = \<lparr>mg_access = None, mg_runtime = True, mg_stopManaged = False, mg_statefs = True,
     mg_stateDir = (\<lambda>root im s. Inr (root @ s)), mg_stateStoreRoot = ''/store/'', mg_nowUnixNano = ''1'',
     mg_isExpired = (\<lambda>_. False)\<rparr>"

definition ex_options :: "bool \<Rightarrow> bool \<Rightarrow> bool \<Rightarrow> DeleteOptions" where
  "ex_options recurse force dry = \<lparr>do_Recurse = recurse, do_Force = force, do_DryRun = dry\<rparr>"

lemmas ex_defs = ex_state_def ex_instance_def ex_db_def ex_world_def ex_manager_def ex_options_def

lemma ex_db_clean: "clean_db (w_db (ex_world conns fault))"
  by (simp add: ex_defs clean_db_def clean_def; code_simp)

subsection \<open>What is not deleted\<close>

lemma outcomeFor_iff:
  "outcomeFor b d = OutcomeDeleted \<longleftrightarrow> \<not> b \<and> \<not> d" "outcomeFor b d = OutcomeBlocked \<longleftrightarrow> b"
  by (cases b; cases d; simp add: outcomeFor_def OutcomeDeleted_def OutcomeBlocked_def OutcomeWouldDelete_def)+

text \<open>
  a run of \<^verbatim>\<open>DeleteState\<close> that reports anything but \<open>deleted\<close> (the state is not there, the
  deletion is blocked, or it is a dry run) has changed nothing: no table, no directory and no
  runtime, whatever calls fail on the way.
\<close>

theorem refused_deletion_changes_nothing:
  assumes "Manager_DeleteState fuel m s opts w = (Inr found, w')"
    and "case found of None \<Rightarrow> True | Some res \<Rightarrow> dr_Outcome res \<noteq> OutcomeDeleted"
  shows "same_effects w w'"
proof -
  obtain e v where v: "same_effects w v" and e: "db_read (GetState s) w = (Inr e, v)"
    using assms(1) by (auto simp: Manager_DeleteState_def op_bind_Inr dest: db_read_Inr)
  note run = assms(1) [unfolded Manager_DeleteState_def op_bind_def [of "db_read _"] e, simplified]
  show ?thesis
  proof (cases e)
    case None
    then show ?thesis using run v by (simp add: op_return_def)
  next
    case (Some entry)
    consider (leaf) has u where "\<not> do_Recurse opts" "hasDescendants m s v = (Inr has, u)" "w' = u"
      | (tree) tree b u where "do_Recurse opts" "buildStateNode fuel m opts s v = (Inr (tree, b), u)" "w' = u"
      using run assms(2) Some
      by (cases "do_Recurse opts")
        (fastforce simp: op_bind_Inr op_return_def outcomeFor_iff Let_def split: if_splits)+
    then show ?thesis
      using ro.rel_trans [OF v] ro.withinD [OF readonly_hasDescendants] ro.withinD [OF readonly_buildStateNode]
      by cases blast+
  qed
qed

theorem refused_deletion_changes_nothing_witness:
  "same_effects (ex_world (\<lambda>_. 1) (\<lambda>_. None))
     (snd (Manager_DeleteState 3 ex_manager ''s1'' (ex_options True False False) (ex_world (\<lambda>_. 1) (\<lambda>_. None))))"
proof -
  let ?run = "Manager_DeleteState 3 ex_manager ''s1'' (ex_options True False False) (ex_world (\<lambda>_. 1) (\<lambda>_. None))"
  have "case fst ?run of Inr (Some res) \<Rightarrow> dr_Outcome res \<noteq> OutcomeDeleted | _ \<Rightarrow> False" by code_simp
  then obtain res w' where "?run = (Inr (Some res), w')" "dr_Outcome res \<noteq> OutcomeDeleted"
    by (cases ?run) (auto split: sum.splits option.splits)
  then show ?thesis using refused_deletion_changes_nothing [of 3 ex_manager "''s1''" _ _ "Some res" w'] by simp
qed

subsection \<open>What is deleted\<close>

text \<open>
  C4: a recursive deletion that reports \<open>deleted\<close> has removed exactly the state, its
  descendants and their instances; every other row of every table is as before, and the
  order of the rows is kept.
\<close>

theorem recursive_deletion_exact:
  assumes "retired_gone w" and "clean_db (w_db w)" and "do_Recurse opts"
    and "Manager_DeleteState fuel m s opts w = (Inr (Some res), w')" and "dr_Outcome res = OutcomeDeleted"
  shows "w_db w' = without (descendants (w_db w) s) (descendant_instances (w_db w) s) (w_db w)"
proof -
  obtain tree v where tree: "tree_for (w_db w) tree" "dn_ID tree = s" and v: "same_effects w v"
    and res: "dr_Outcome res = outcomeFor (tree_blocked opts (w_conns w) tree) (do_DryRun opts)"
    and run: "if tree_blocked opts (w_conns w) tree \<or> do_DryRun opts then w' = v else deleteTree m tree v = (Inr (), w')"
    by (rule DeleteState_recursive [OF assms(3,4,2)])
  have del: "deleteTree m tree v = (Inr (), w')"
    using run outcomeFor_iff(1) [THEN iffD1, OF res [unfolded assms(5), symmetric]] by simp
  have start: "w_db v = without {} {} (w_db w)" using v by (simp add: same_effectsD without_none)
  have gone: "retired_gone v" using v assms(1) by (simp add: same_effectsD retired_gone_def)
  have "w_db w' = without (state_ids tree) (instance_ids tree) (w_db w)"
    by (rule progressE [OF deleteTree_progress [OF tree(1)] start down_closed_none gone del]) simp
  then show ?thesis using tree_ids [OF tree(1)] tree(2) by simp
qed

theorem recursive_deletion_exact_witness:
  "w_db (snd (Manager_DeleteState 3 ex_manager ''s1'' (ex_options True False False) (ex_world (\<lambda>_. 0) (\<lambda>_. None))))
     = without (descendants ex_db ''s1'') (descendant_instances ex_db ''s1'') ex_db
   \<and> map sr_state_id (db_states (w_db (snd (Manager_DeleteState 3 ex_manager ''s1'' (ex_options True False False)
        (ex_world (\<lambda>_. 0) (\<lambda>_. None)))))) = [''s3'']"
proof -
  let ?run = "Manager_DeleteState 3 ex_manager ''s1'' (ex_options True False False) (ex_world (\<lambda>_. 0) (\<lambda>_. None))"
  have "case fst ?run of Inr (Some res) \<Rightarrow> dr_Outcome res = OutcomeDeleted | _ \<Rightarrow> False" by code_simp
  then obtain res w' where run: "?run = (Inr (Some res), w')" "dr_Outcome res = OutcomeDeleted"
    by (cases ?run) (auto split: sum.splits option.splits)
  have "map sr_state_id (db_states (w_db (snd ?run))) = [''s3'']" by code_simp
  moreover have "w_db (ex_world (\<lambda>_. 0) (\<lambda>_. None)) = ex_db" by (simp add: ex_world_def)
  moreover have "retired_gone (ex_world (\<lambda>_. 0) (\<lambda>_. None))" by (simp add: ex_world_def retired_gone_def)
  ultimately show ?thesis
    using recursive_deletion_exact [OF _ ex_db_clean _ run] run(1) by (simp add: ex_options_def)
qed

text \<open>
  a recursive deletion reports \<open>blocked\<close> exactly when it is not forced and some instance
  of the state or of a descendant has an open connection.
\<close>

theorem recursive_deletion_blocked_iff:
  assumes "clean_db (w_db w)" and "do_Recurse opts" and "Manager_DeleteState fuel m s opts w = (Inr (Some res), w')"
  shows "dr_Outcome res = OutcomeBlocked \<longleftrightarrow>
     \<not> do_Force opts \<and> (\<exists>i \<in> descendant_instances (w_db w) s. 0 < w_conns w i)"
proof -
  obtain tree v where tree: "tree_for (w_db w) tree" "dn_ID tree = s"
    and res: "dr_Outcome res = outcomeFor (tree_blocked opts (w_conns w) tree) (do_DryRun opts)"
    by (rule DeleteState_recursive [OF assms(2,3,1)])
  have "tree_blocked opts (w_conns w) tree \<longleftrightarrow> \<not> do_Force opts \<and> (\<exists>i \<in> descendant_instances (w_db w) s. 0 < w_conns w i)"
    using tree_ids(2) [OF tree(1)] tree(2) by (simp add: tree_blocked_def)
  then show ?thesis unfolding res outcomeFor_iff by blast
qed

theorem recursive_deletion_blocked_iff_witness:
  "\<exists>i \<in> descendant_instances ex_db ''s1''. 0 < (\<lambda>_. 1 :: int) i"
proof -
  let ?run = "Manager_DeleteState 3 ex_manager ''s1'' (ex_options True False False) (ex_world (\<lambda>_. 1) (\<lambda>_. None))"
  have "case fst ?run of Inr (Some res) \<Rightarrow> dr_Outcome res = OutcomeBlocked | _ \<Rightarrow> False" by code_simp
  then obtain res w' where run: "?run = (Inr (Some res), w')" "dr_Outcome res = OutcomeBlocked"
    by (cases ?run) (auto split: sum.splits option.splits)
  have "w_db (ex_world (\<lambda>_. 1) (\<lambda>_. None)) = ex_db" "w_conns (ex_world (\<lambda>_. 1) (\<lambda>_. None)) = (\<lambda>_. 1)"
    by (simp_all add: ex_world_def)
  then show ?thesis
    using recursive_deletion_blocked_iff [OF ex_db_clean _ run(1)] run(2) by (simp add: ex_options_def)
qed

subsection \<open>Interrupted deletions\<close>

text \<open>
  C24: wherever a deletion fails, the tables it leaves are consistent: ids stay unique, no
  instance refers to a state that is gone, no state has a parent that is gone, and no
  instance is left whose managed access was retired.
\<close>

theorem interrupted_deletion_consistent:
  assumes "retired_gone w" and "clean_db (w_db w)" and "db_wf (w_db w)" and "parents_exist (w_db w)"
    and "Manager_DeleteState fuel m s opts w = (r, w')"
  shows "db_wf (w_db w') \<and> parents_exist (w_db w') \<and> retired_gone w'"
proof -
  obtain D I where "w_db w' = without D I (w_db w)" "down_closed (w_db w) D I" "retired_gone w'"
    using DeleteState_progress [OF assms(1,2,5)] by blast
  then show ?thesis using without_wf without_parents_exist assms(3,4) by simp
qed

text \<open>In the witness the eleventh call, which deletes the row of the child state, fails.\<close>

theorem interrupted_deletion_consistent_witness:
  "(let (r, w') = Manager_DeleteState 3 ex_manager ''s1'' (ex_options True False False)
        (ex_world (\<lambda>_. 0) (\<lambda>k. if k = 12 then Some (ErrIO []) else None))
    in r = Inl (ErrIO []) \<and> length (db_instances (w_db w')) = 1 \<and> db_wf (w_db w') \<and> parents_exist (w_db w'))"
proof -
  let ?w = "ex_world (\<lambda>_. 0) (\<lambda>k. if k = 12 then Some (ErrIO []) else None)"
  let ?run = "Manager_DeleteState 3 ex_manager ''s1'' (ex_options True False False) ?w"
  obtain r w' where run: "?run = (r, w')" by (cases ?run)
  have "fst ?run = Inl (ErrIO []) \<and> length (db_instances (w_db (snd ?run))) = 1" by code_simp
  moreover have "retired_gone ?w" by (simp add: ex_world_def retired_gone_def)
  moreover have "db_wf (w_db ?w)" "parents_exist (w_db ?w)" by (simp_all add: ex_defs db_wf_def parents_exist_def)
  ultimately show ?thesis using interrupted_deletion_consistent [OF _ ex_db_clean _ _ run] run by simp
qed

end
