(* ===== verification/Deletion_Liveness.thy ===== *)
theory Deletion_Liveness
  imports Deletion_Props
begin

text \<open>
  A deletion returns: when no call fails and the parent links form no cycle, the
  recursion is never deeper than the number of states, the tree that is built is
  deleted to the end, and the run reports its outcome.
\<close>

subsection \<open>Operations that cannot fail\<close>

definition works :: "database \<Rightarrow> unit op \<Rightarrow> bytes set \<Rightarrow> bytes set \<Rightarrow> bool" where
  "works db act S T \<longleftrightarrow> (\<forall>w D I. no_faults w \<longrightarrow> w_db w = without D I db \<longrightarrow>
     (\<exists>w'. act w = (Inr (), w') \<and> no_faults w' \<and> w_db w' = without (D \<union> S) (I \<union> T) db))"

lemma worksE:
  assumes "works db act S T" and "no_faults w" and "w_db w = without D I db"
  obtains w' where "act w = (Inr (), w')" and "no_faults w'" and "w_db w' = without (D \<union> S) (I \<union> T) db"
  using assms unfolding works_def by blast

lemma works_return: "works db (op_return ()) {} {}"
  by (simp add: works_def op_return_def)

lemma works_bind:
  assumes "works db a S T" and "works db b S' T'"
  shows "works db (op_bind a (\<lambda>_. b)) (S \<union> S') (T \<union> T')"
  unfolding works_def
proof (intro allI impI)
  fix w D I assume w: "no_faults w" "w_db w = without D I db"
  obtain v where v: "a w = (Inr (), v)" "no_faults v" "w_db v = without (D \<union> S) (I \<union> T) db" by (rule worksE [OF assms(1) w])
  obtain w' where "b v = (Inr (), w')" "no_faults w'" "w_db w' = without (D \<union> S \<union> S') (I \<union> T \<union> T') db" by (rule worksE [OF assms(2) v(2,3)])
  with v(1) show "\<exists>w'. op_bind a (\<lambda>_. b) w = (Inr (), w') \<and> no_faults w' \<and> w_db w' = without (D \<union> (S \<union> S')) (I \<union> (T \<union> T')) db"
    by (auto simp: op_bind_def Un_assoc)
qed

declare outgoing_no_faults [simp]

lemma no_faults_updates [simp]:
  "no_faults (w\<lparr>w_removed := x\<rparr>) = no_faults w" "no_faults (w\<lparr>w_stopped := y\<rparr>) = no_faults w" "no_faults (w\<lparr>w_db := z\<rparr>) = no_faults w"
  by (simp_all add: no_faults_def)

lemma works_removal: "works db (remove_dir p) {} {}" "works db (runtime_Stop r) {} {}"
  by (simp_all add: works_def remove_dir_def runtime_Stop_def)

lemma works_stopRuntime: "works db (stopRuntime m r) {} {}"
  by (auto simp: stopRuntime_def works_return works_def op_try_def op_return_def runtime_Stop_def split: option.splits)

lemma works_removeRuntimeDir: "works db (removeRuntimeDir m d) {} {}"
  by (auto simp: removeRuntimeDir_def works_def op_try_def op_bind_def op_return_def remove_dir_def Let_def split: option.splits)

lemma works_instance:
  assumes "mg_access m = None"
  shows "works db (delete_instance_record m i r d) {} {i}"
proof -
  have "works db (db_write (\<lambda>db. Some (DeleteInstance i db))) {} {i}"
    by (simp add: works_def db_write_def DeleteInstance_without)
  from works_bind [OF works_stopRuntime works_bind [OF works_removeRuntimeDir this]] show ?thesis
    by (simp add: delete_instance_record_def assms)
qed

definition dirs_known :: "Manager \<Rightarrow> bool" where
  "dirs_known m \<longleftrightarrow> (\<forall>root image state. is_ok (mg_stateDir m root image state))"

lemma works_state:
  assumes "works db act S T" and "ir_instance_id ` set (instance_rows db s) \<subseteq> T" and "dirs_known m"
  shows "works db (op_bind act (\<lambda>_. delete_state_record m im s)) (insert s S) T"
  unfolding works_def
proof (intro allI impI)
  fix w D I assume w: "no_faults w" "w_db w = without D I db"
  obtain v where v: "act w = (Inr (), v)" "no_faults v" "w_db v = without (D \<union> S) (I \<union> T) db" by (rule worksE [OF assms(1) w])
  have removed: "works db (removeStateDir m im s) {} {}"
    using assms(3) by (auto simp: removeStateDir_def works_return works_removal dirs_known_def is_ok_def split: sum.splits)
  obtain u where u: "removeStateDir m im s v = (Inr (), u)" "no_faults u" "w_db u = without (D \<union> S) (I \<union> T) db"
    by (rule worksE [OF removed v(2,3)]) simp
  have "ir_instance_id ` set (instance_rows db s) \<subseteq> I \<union> T" using assms(2) by blast
  from DeleteState_without [OF this] u v(1)
  show "\<exists>w'. op_bind act (\<lambda>_. delete_state_record m im s) w = (Inr (), w') \<and> no_faults w' \<and> w_db w' = without (D \<union> insert s S) (I \<union> T) db"
    by (simp add: op_bind_def delete_state_record_def db_write_def)
qed

lemma works_trees:
  assumes "\<forall>n \<in> set ns. works db (deleteTree m n) (state_ids n) (instance_ids n)"
  shows "works db (deleteTrees m ns) (\<Union>n \<in> set ns. state_ids n) (\<Union>n \<in> set ns. instance_ids n)"
  using assms
proof (induction ns)
  case (Cons n ns)
  then show ?case using works_bind [of db "deleteTree m n" _ _ "deleteTrees m ns"] by simp
qed (simp add: works_return)

lemma works_leaf:
  assumes "instance_leaf n" and "mg_access m = None"
  shows "works db (deleteTree m n) (state_ids n) (instance_ids n)"
proof (cases n)
  case (DeleteNode k nid c b r d im cs)
  then have k: "k = ''instance''" "cs = []" using assms by (simp_all add: instance_leaf_def)
  from works_bind [OF works_return works_instance [OF assms(2), of db nid r d]] show ?thesis by (simp add: DeleteNode k)
qed

lemma deleteTree_works:
  assumes "tree_for db n" and "mg_access m = None" and "dirs_known m"
  shows "works db (deleteTree m n) (state_ids n) (instance_ids n)"
  using assms(1)
proof (induction rule: tree_for.induct)
  case (1 leaves s subs c b r d im)
  have "works db (deleteTrees m (leaves @ subs)) (\<Union>n \<in> set (leaves @ subs). state_ids n) (\<Union>n \<in> set (leaves @ subs). instance_ids n)"
    by (rule works_trees) (use "1.hyps"(2) "1.IH" works_leaf assms(2) in auto)
  from works_state [OF this _ assms(3), of s im] leaves_ids [OF "1.hyps"(2)] "1.hyps"(1) show ?case by auto
qed

subsection \<open>Every recursive deletion returns\<close>

text \<open>
  C25: in an engine without an access service, when no call fails, the parent links have no cycle
  and the directory of every state is known, a recursive deletion of a state of the table returns, with a recursion no deeper than the
  number of states: it is refused when a dry run was asked for or an open connection blocks it, and
  otherwise it has deleted the whole tree.
\<close>

theorem recursive_deletion_returns:
  assumes "no_faults w" and "clean_db (w_db w)" and "acyclic (child_rel (w_db w))" and "s \<in> state_set (w_db w)"
    and "length (db_states (w_db w)) \<le> fuel" and "do_Recurse opts" and "mg_access m = None" and "dirs_known m"
  shows "\<exists>res w'. Manager_DeleteState fuel m s opts w = (Inr (Some res), w')
     \<and> (dr_Outcome res = OutcomeDeleted \<longleftrightarrow> \<not> do_DryRun opts
          \<and> (do_Force opts \<or> (\<forall>i \<in> descendant_instances (w_db w) s. w_conns w i \<le> 0)))
     \<and> (dr_Outcome res = OutcomeDeleted \<longrightarrow> state_set (w_db w') = state_set (w_db w) - descendants (w_db w) s)"
proof -
  obtain e where e: "GetState s (w_db w) = Some e" using GetState_some assms(4) by blast
  obtain v where v: "db_read (GetState s) w = (Inr (Some e), v)" "same_effects w v" using db_read_works [OF assms(1), of "GetState s"] e by auto
  have same: "w_db v = w_db w" "w_conns v = w_conns w" using v(2) by (simp_all add: same_effects_fields)
  have "depth_bound (w_db v) s < fuel" using depth_bound_less [OF assms(3,4)] assms(5) same by simp
  then obtain tree b u where u: "buildStateNode fuel m opts s v = (Inr (tree, b), u)"
    using buildStateNode_works [OF no_faults_same [OF v(2) assms(1)]] assms(2-4) same by (metis surj_pair)
  have tree: "tree_for (w_db w) tree" "dn_ID tree = s" "b = tree_blocked opts (w_conns w) tree"
    using buildStateNode_Inr [OF u] assms(2) same by simp_all
  have wu: "same_effects w u" using ro.withinD [OF readonly_buildStateNode u] ro.rel_trans [OF v(2)] by blast
  have start: "w_db u = without {} {} (w_db w)" using wu by (simp add: same_effects_fields without_none)
  obtain w' where w': "deleteTree m tree u = (Inr (), w')" "w_db w' = without (state_ids tree) (instance_ids tree) (w_db w)"
    by (rule worksE [OF deleteTree_works [OF tree(1) assms(7,8)] no_faults_same [OF wu assms(1)] start]) simp
  have gone: "state_set (w_db w') = state_set (w_db w) - descendants (w_db w) s"
    using w'(2) tree_ids(1) [OF tree(1)] tree(2) by (auto simp: state_set_def without_def)
  have blocked: "b \<longleftrightarrow> \<not> (do_Force opts \<or> (\<forall>i \<in> descendant_instances (w_db w) s. w_conns w i \<le> 0))"
    using tree tree_ids(2) [OF tree(1)] by (auto simp: tree_blocked_def not_le)
  have run: "Manager_DeleteState fuel m s opts w =
      (Inr (Some \<lparr>dr_DryRun = do_DryRun opts, dr_Outcome = outcomeFor b (do_DryRun opts), dr_Root = tree\<rparr>),
       if b \<or> do_DryRun opts then u else w')"
    using v(1) u w'(1) assms(6) by (simp add: Manager_DeleteState_def op_bind_def op_return_def Let_def)
  show ?thesis unfolding run using blocked gone by (auto simp: outcomeFor_iff)
qed

theorem recursive_deletion_returns_witness:
  "\<exists>res w'. Manager_DeleteState 3 ex_manager ''s1'' (ex_options True False False) (ex_world (\<lambda>_. 0) (\<lambda>_. None)) = (Inr (Some res), w')
     \<and> dr_Outcome res = OutcomeDeleted \<and> state_set (w_db w') = {''s3''}"
proof -
  let ?w = "ex_world (\<lambda>_. 0) (\<lambda>_. None)"
  have db: "w_db ?w = ex_db" "w_conns ?w = (\<lambda>_. 0)" by (simp_all add: ex_world_def)
  have row: "sr_state_id (ex_state s p) = s" "sr_parent_state_id (ex_state s p) = p" for s p by (simp_all add: ex_state_def)
  have states: "set (db_states ex_db) = {ex_state ''s1'' None, ex_state ''s2'' (Some ''s1''), ex_state ''s3'' None}" by (simp add: ex_db_def)
  have rel: "child_rel ex_db = {(''s1'', ''s2'')}"
  proof
    show "{(''s1'', ''s2'')} \<subseteq> child_rel ex_db" unfolding child_rel_def states using row by (simp del: prod.inject) metis
    show "child_rel ex_db \<subseteq> {(''s1'', ''s2'')}" by (auto simp: child_rel_def states row)
  qed
  then have acyclic: "acyclic (child_rel (w_db ?w))" by (simp add: db acyclic_insert) (simp add: acyclic_def)
  have below: "descendants ex_db ''s1'' = {''s1'', ''s2''}"
    by (auto simp: descendants_def rel elim: converse_rtranclE)
  have "\<exists>res w'. Manager_DeleteState 3 ex_manager ''s1'' (ex_options True False False) ?w = (Inr (Some res), w')
     \<and> (dr_Outcome res = OutcomeDeleted \<longleftrightarrow> \<not> do_DryRun (ex_options True False False)
          \<and> (do_Force (ex_options True False False) \<or> (\<forall>i \<in> descendant_instances (w_db ?w) ''s1''. w_conns ?w i \<le> 0)))
     \<and> (dr_Outcome res = OutcomeDeleted \<longrightarrow> state_set (w_db w') = state_set (w_db ?w) - descendants (w_db ?w) ''s1'')"
    by (rule recursive_deletion_returns [OF _ ex_db_clean acyclic])
      (simp_all add: no_faults_def ex_defs state_set_def dirs_known_def)
  then show ?thesis by (auto simp: db below) (auto simp: ex_defs state_set_def)
qed

end
