(* ===== verification/Identity_Schema.thy ===== *)
theory Identity_Schema
  imports Canonical_Value_Props "HOL-Library.AList"
begin

text \<open>
  Schemas and typed fields of canonical-v1 identities: \<^verbatim>\<open>internal/canonicalv1/schema.go\<close>,
  \<^verbatim>\<open>schemaauthor/schema.go\<close>, \<^verbatim>\<open>canonical_schema_v1.go\<close> and \<^verbatim>\<open>identity_field_v1.go\<close> of
  \<^verbatim>\<open>backend/libs/runtime-go\<close>.

  Roles, disclosure classes and field kinds are strings in the source and arrive as strings
  from the wire, so they are byte strings here.  A Go map is an association list with
  unique keys; ranging over it visits the list in order, one of the orders Go allows.
\<close>

subsection \<open>Schemas (internal/canonicalv1/schema.go)\<close>

definition FieldRoleSemantic :: bytes where "FieldRoleSemantic = ''semantic''"

definition FieldRoleOperational :: bytes where "FieldRoleOperational = ''operational''"

definition DisclosurePublic :: bytes where "DisclosurePublic = ''public''"

definition DisclosureProtected :: bytes where "DisclosureProtected = ''protected''"

record FieldDefinition =
  fn_name :: bytes
  fn_role :: bytes
  fn_kind :: bytes
  fn_required :: bool
  fn_disclosure :: bytes

record schemaData =
  sm_provider :: bytes
  sm_semanticKind :: bytes
  sm_identitySchema :: bytes
  sm_observationSchema :: bytes
  sm_fields :: "FieldDefinition list"

text \<open>Three distinct Go structs around one pointer; a zero schema is \<open>None\<close>.\<close>

type_synonym FactorySchema = "schemaData option"
type_synonym TransformSchema = "schemaData option"
type_synonym ExtensionSchema = "schemaData option"

definition newSchema :: "bytes \<Rightarrow> bytes \<Rightarrow> bytes \<Rightarrow> bytes \<Rightarrow> FieldDefinition list \<Rightarrow> schemaData option" where
  "newSchema provider semanticKind identitySchema observationSchema flds =
     Some \<lparr>sm_provider = provider, sm_semanticKind = semanticKind, sm_identitySchema = identitySchema,
       sm_observationSchema = observationSchema, sm_fields = flds\<rparr>"

definition schema_Valid :: "schemaData option \<Rightarrow> bool" where
  "schema_Valid s \<longleftrightarrow> s \<noteq> None"

definition schemaProvider :: "schemaData option \<Rightarrow> bytes" where
  "schemaProvider s = (case s of None \<Rightarrow> [] | Some d \<Rightarrow> sm_provider d)"

definition schemaKind :: "schemaData option \<Rightarrow> bytes" where
  "schemaKind s = (case s of None \<Rightarrow> [] | Some d \<Rightarrow> sm_semanticKind d)"

definition schemaIdentity :: "schemaData option \<Rightarrow> bytes" where
  "schemaIdentity s = (case s of None \<Rightarrow> [] | Some d \<Rightarrow> sm_identitySchema d)"

definition schemaObservation :: "schemaData option \<Rightarrow> bytes" where
  "schemaObservation s = (case s of None \<Rightarrow> [] | Some d \<Rightarrow> sm_observationSchema d)"

definition schemaFields :: "schemaData option \<Rightarrow> FieldDefinition list" where
  "schemaFields s = (case s of None \<Rightarrow> [] | Some d \<Rightarrow> sm_fields d)"

lemmas schema_accessors = schemaProvider_def schemaKind_def schemaIdentity_def schemaObservation_def schemaFields_def

subsection \<open>Field kinds (identity\_field\_v1.go)\<close>

definition IdentityFieldText :: bytes where "IdentityFieldText = ''text''"

definition IdentityFieldCanonicalValue :: bytes where "IdentityFieldCanonicalValue = ''canonical-value''"

definition IdentityFieldSecretReference :: bytes where "IdentityFieldSecretReference = ''secret-reference''"

definition identityFieldTextTag :: u16 where "identityFieldTextTag = 1"

definition identityFieldCanonicalValueTag :: u16 where "identityFieldCanonicalValueTag = 2"

definition identityFieldSecretReferenceTag :: u16 where "identityFieldSecretReferenceTag = 3"

lemmas field_kind_defs = IdentityFieldText_def IdentityFieldCanonicalValue_def IdentityFieldSecretReference_def

lemmas field_tag_defs = identityFieldTextTag_def identityFieldCanonicalValueTag_def identityFieldSecretReferenceTag_def

lemma field_kinds_differ [simp]:
  "IdentityFieldText \<noteq> IdentityFieldCanonicalValue" "IdentityFieldText \<noteq> IdentityFieldSecretReference"
  "IdentityFieldCanonicalValue \<noteq> IdentityFieldText" "IdentityFieldSecretReference \<noteq> IdentityFieldText"
  "IdentityFieldCanonicalValue \<noteq> IdentityFieldSecretReference" "IdentityFieldSecretReference \<noteq> IdentityFieldCanonicalValue"
  by (simp_all add: field_kind_defs)

lemma roles_differ [simp]: "FieldRoleSemantic \<noteq> FieldRoleOperational" "FieldRoleOperational \<noteq> FieldRoleSemantic"
  by (simp_all add: FieldRoleSemantic_def FieldRoleOperational_def)

lemma disclosures_differ [simp]: "DisclosurePublic \<noteq> DisclosureProtected" "DisclosureProtected \<noteq> DisclosurePublic"
  by (simp_all add: DisclosurePublic_def DisclosureProtected_def)

subsection \<open>Authoring schemas (schemaauthor/schema.go)\<close>

record SchemaInput =
  sn_Provider :: bytes
  sn_SemanticKind :: bytes
  sn_IdentitySchema :: bytes
  sn_ObservationSchema :: bytes
  sn_Fields :: "FieldDefinition list"

text \<open>
  The three names are checked while ranging over a Go map, so which of several bad names is
  reported is not determined; \<open>SchemaNameInvalid\<close> stands for any of them.  The other
  errors carry the index the message prints.
\<close>

datatype schemaError =
    SchemaNameInvalid | FieldNameInvalid nat | ReservedNamespace | DuplicateSchemaField | FieldRoleInvalid nat
  | FieldKindInvalid nat | FieldDisclosureInvalid nat | OperationalConstraints | ObservationSchemaInvalid

text \<open>
  The loop over the sorted fields: the previous name, whether an operational field was seen.
  The stored definition is a copy of the authored one.
\<close>

fun validate_fields :: "nat \<Rightarrow> bytes option \<Rightarrow> bool \<Rightarrow> FieldDefinition list \<Rightarrow> schemaError + (FieldDefinition list \<times> bool)" where
  "validate_fields index previous hasOperational [] = Inr ([], hasOperational)"
| "validate_fields index previous hasOperational (field # rest) =
     (if \<not> identifierPattern (fn_name field) then Inl (FieldNameInvalid index)
      else if HasPrefix (fn_name field) ''extension.'' then Inl ReservedNamespace
      else if previous = Some (fn_name field) then Inl DuplicateSchemaField
      else if fn_role field \<noteq> FieldRoleSemantic \<and> fn_role field \<noteq> FieldRoleOperational then Inl (FieldRoleInvalid index)
      else if fn_kind field \<noteq> IdentityFieldText \<and> fn_kind field \<noteq> IdentityFieldCanonicalValue
              \<and> fn_kind field \<noteq> IdentityFieldSecretReference then Inl (FieldKindInvalid index)
      else if fn_disclosure field \<noteq> DisclosurePublic \<and> fn_disclosure field \<noteq> DisclosureProtected
      then Inl (FieldDisclosureInvalid index)
      else if fn_role field = FieldRoleOperational \<and> (fn_required field \<or> fn_kind field \<noteq> IdentityFieldText)
      then Inl OperationalConstraints
      else
       res_bind (validate_fields (Suc index) (Some (fn_name field))
                   (hasOperational \<or> fn_role field = FieldRoleOperational) rest) (\<lambda>(defs, operational).
       Inr (field # defs, operational)))"

definition schema_validate :: "SchemaInput \<Rightarrow> schemaError + FieldDefinition list" where
  "schema_validate input =
     (if \<not> identifierPattern (sn_Provider input) \<or> \<not> identifierPattern (sn_SemanticKind input)
         \<or> \<not> identifierPattern (sn_IdentitySchema input)
      then Inl SchemaNameInvalid
      else
       res_bind (validate_fields 0 None False (sort_key fn_name (sn_Fields input))) (\<lambda>(result, hasOperational).
       if hasOperational \<and> \<not> identifierPattern (sn_ObservationSchema input) then Inl ObservationSchemaInvalid
       else if \<not> hasOperational \<and> sn_ObservationSchema input \<noteq> [] \<and> \<not> identifierPattern (sn_ObservationSchema input)
       then Inl ObservationSchemaInvalid
       else Inr result))"

definition NewFactorySchema :: "SchemaInput \<Rightarrow> schemaError + FactorySchema" where
  "NewFactorySchema input =
     res_bind (schema_validate input) (\<lambda>flds.
     Inr (newSchema (sn_Provider input) (sn_SemanticKind input) (sn_IdentitySchema input) (sn_ObservationSchema input) flds))"

definition NewTransformSchema :: "SchemaInput \<Rightarrow> schemaError + TransformSchema" where
  "NewTransformSchema input =
     res_bind (schema_validate input) (\<lambda>flds.
     Inr (newSchema (sn_Provider input) (sn_SemanticKind input) (sn_IdentitySchema input) (sn_ObservationSchema input) flds))"

definition NewExtensionSchema :: "SchemaInput \<Rightarrow> schemaError + ExtensionSchema" where
  "NewExtensionSchema input =
     res_bind (schema_validate input) (\<lambda>flds.
     Inr (newSchema (sn_Provider input) (sn_SemanticKind input) (sn_IdentitySchema input) (sn_ObservationSchema input) flds))"

subsection \<open>Secret references\<close>

record secretReferenceData =
  sr_provider :: bytes
  sr_identifier :: bytes
  sr_version :: bytes

type_synonym SecretReference = "secretReferenceData option"

definition NewSecretReference :: "bytes \<Rightarrow> bytes \<Rightarrow> bytes \<Rightarrow> SecretReference result" where
  "NewSecretReference provider identifier version =
     res_bind (res_canonicalize (validateIdentifier provider ''provider'')) (\<lambda>_.
      if \<not> ValidString identifier \<or> identifier = [] then Inl (canonicalInvalid CodeValueInvalid ''identifier'')
      else if \<not> ValidString version \<or> version = [] then Inl (canonicalInvalid CodeValueInvalid ''version'')
      else if MaxCanonicalStringBytes < length identifier then Inl (canonicalInvalid CodeLimitExceeded ''identifier'')
      else if MaxCanonicalStringBytes < length version then Inl (canonicalInvalid CodeLimitExceeded ''version'')
      else Inr (Some \<lparr>sr_provider = provider, sr_identifier = identifier, sr_version = version\<rparr>))"

definition SecretReference_Provider :: "SecretReference \<Rightarrow> bytes" where
  "SecretReference_Provider r = (case r of None \<Rightarrow> [] | Some d \<Rightarrow> sr_provider d)"

definition SecretReference_Identifier :: "SecretReference \<Rightarrow> bytes" where
  "SecretReference_Identifier r = (case r of None \<Rightarrow> [] | Some d \<Rightarrow> sr_identifier d)"

definition SecretReference_Version :: "SecretReference \<Rightarrow> bytes" where
  "SecretReference_Version r = (case r of None \<Rightarrow> [] | Some d \<Rightarrow> sr_version d)"

lemmas secret_accessors = SecretReference_Provider_def SecretReference_Identifier_def SecretReference_Version_def

subsection \<open>Typed identity fields\<close>

record identityFieldData =
  if_name :: bytes
  if_kind :: bytes
  if_payload :: bytes
  if_text :: bytes
  if_value :: CanonicalValue
  if_reference :: SecretReference
  if_commitment :: bytes

type_synonym IdentityField = "identityFieldData option"

definition hexLower :: "bytes \<Rightarrow> bytes" where
  "hexLower value = concat (map (\<lambda>b. [''0123456789abcdef'' ! (of_char b div 16), ''0123456789abcdef'' ! (of_char b mod 16)]) value)"

text \<open>What a field commits to: its name, the tag of its kind and its payload, each framed.\<close>

definition field_preimage :: "bytes \<Rightarrow> u16 \<Rightarrow> bytes \<Rightarrow> bytes" where
  "field_preimage name tag payload = encodeString name @ encodeUint16 tag @ encodeBytes payload"

definition newIdentityField ::
    "bytes \<Rightarrow> bytes \<Rightarrow> u16 \<Rightarrow> bytes \<Rightarrow> bytes \<Rightarrow> CanonicalValue \<Rightarrow> SecretReference \<Rightarrow> IdentityField result" where
  "newIdentityField name kind tag payload txt val reference =
     res_bind (res_canonicalize (validateIdentifier name ''name'')) (\<lambda>_.
     Inr (Some \<lparr>if_name = name, if_kind = kind, if_payload = payload, if_text = txt, if_value = val,
       if_reference = reference, if_commitment = ''sha256:'' @ hexLower (Sum256 (field_preimage name tag payload))\<rparr>))"

definition NewTextIdentityField :: "bytes \<Rightarrow> bytes \<Rightarrow> IdentityField result" where
  "NewTextIdentityField name value =
     (if \<not> ValidString value then Inl (canonicalInvalid CodeValueInvalid ''value'')
      else if MaxCanonicalStringBytes < length value then Inl (canonicalInvalid CodeLimitExceeded ''value'')
      else newIdentityField name IdentityFieldText identityFieldTextTag value value None None)"

definition NewCanonicalValueIdentityField :: "bytes \<Rightarrow> CanonicalValue \<Rightarrow> IdentityField result" where
  "NewCanonicalValueIdentityField name value =
     (if \<not> Valid value then Inl (canonicalInvalid CodeShapeInvalid ''value'')
      else newIdentityField name IdentityFieldCanonicalValue identityFieldCanonicalValueTag
             (tok_digest (Token value)) [] value None)"

definition NewSecretReferenceIdentityField :: "bytes \<Rightarrow> SecretReference \<Rightarrow> IdentityField result" where
  "NewSecretReferenceIdentityField name value =
     (if value = None then Inl (canonicalInvalid CodeShapeInvalid ''reference'')
      else
       let payload = encodeString (SecretReference_Provider value) @ encodeString (SecretReference_Identifier value)
                       @ encodeString (SecretReference_Version value) in
       newIdentityField name IdentityFieldSecretReference identityFieldSecretReferenceTag payload [] None value)"

definition IdentityField_Valid :: "IdentityField \<Rightarrow> bool" where
  "IdentityField_Valid f \<longleftrightarrow> f \<noteq> None"

definition IdentityField_Name :: "IdentityField \<Rightarrow> bytes" where
  "IdentityField_Name f = (case f of None \<Rightarrow> [] | Some d \<Rightarrow> if_name d)"

definition IdentityField_Kind :: "IdentityField \<Rightarrow> bytes" where
  "IdentityField_Kind f = (case f of None \<Rightarrow> [] | Some d \<Rightarrow> if_kind d)"

definition IdentityField_Commitment :: "IdentityField \<Rightarrow> bytes" where
  "IdentityField_Commitment f = (case f of None \<Rightarrow> [] | Some d \<Rightarrow> if_commitment d)"

definition IdentityField_Text :: "IdentityField \<Rightarrow> bytes" where
  "IdentityField_Text f =
     (case f of None \<Rightarrow> [] | Some d \<Rightarrow> if if_kind d \<noteq> IdentityFieldText then [] else if_text d)"

definition IdentityField_CanonicalValue :: "IdentityField \<Rightarrow> CanonicalValue" where
  "IdentityField_CanonicalValue f =
     (case f of None \<Rightarrow> None | Some d \<Rightarrow> if if_kind d \<noteq> IdentityFieldCanonicalValue then None else if_value d)"

definition IdentityField_SecretReference :: "IdentityField \<Rightarrow> SecretReference" where
  "IdentityField_SecretReference f =
     (case f of None \<Rightarrow> None | Some d \<Rightarrow> if if_kind d \<noteq> IdentityFieldSecretReference then None else if_reference d)"

lemmas field_accessors = IdentityField_Name_def IdentityField_Kind_def IdentityField_Commitment_def
  IdentityField_Text_def IdentityField_CanonicalValue_def IdentityField_SecretReference_def

end
