(* ===== verification/Identity_Builder.thy ===== *)
theory Identity_Builder
  imports Identity_Schema Declarations_Props
begin

text \<open>
  \<^verbatim>\<open>canonical_identity_v1.go\<close> and \<^verbatim>\<open>canonical_builder_v1.go\<close> of \<^verbatim>\<open>backend/libs/runtime-go\<close>: canonical-v1
  identities, the bytes they hash, and the single-use builders that produce them from a
  schema and a declaration.

  A builder is a pointer to mutable state in the source; here every method takes the
  state and returns the new one.  A method that fails leaves the state alone, except
  \<^verbatim>\<open>Build\<close> of a factory, whose last check comes after the builder is sealed.
\<close>

subsection \<open>Identities (canonical\_identity\_v1.go)\<close>

definition CanonicalSchemaVersion :: bytes where
  "CanonicalSchemaVersion = ''sqlrs.runtime.v2.canonical.v1''"

definition CanonicalFactoryStateDomain :: bytes where
  "CanonicalFactoryStateDomain = ''sqlrs.runtime.v2.canonical.v1/factory-state''"

definition CanonicalTransformDomain :: bytes where
  "CanonicalTransformDomain = ''sqlrs.runtime.v2.canonical.v1/transform''"

definition CanonicalResolvedExtensionDomain :: bytes where
  "CanonicalResolvedExtensionDomain = ''sqlrs.runtime.v2.canonical.v1/resolved-extension''"

record canonicalIdentityField =
  cif_field :: IdentityField
  cif_disclosure :: bytes

record canonicalIdentityData =
  cid_provider :: bytes
  cid_semanticKind :: bytes
  cid_identitySchema :: bytes
  cid_fields :: "canonicalIdentityField list"

type_synonym CanonicalFactoryIdentity = "canonicalIdentityData option"
type_synonym CanonicalTransformIdentity = "canonicalIdentityData option"
type_synonym CanonicalResolvedExtensionIdentity = "canonicalIdentityData option"

definition canonical_identity_Provider :: "canonicalIdentityData option \<Rightarrow> bytes" where
  "canonical_identity_Provider i = (case i of None \<Rightarrow> [] | Some d \<Rightarrow> cid_provider d)"

definition canonical_identity_Kind :: "canonicalIdentityData option \<Rightarrow> bytes" where
  "canonical_identity_Kind i = (case i of None \<Rightarrow> [] | Some d \<Rightarrow> cid_semanticKind d)"

definition canonical_identity_IdentitySchema :: "canonicalIdentityData option \<Rightarrow> bytes" where
  "canonical_identity_IdentitySchema i = (case i of None \<Rightarrow> [] | Some d \<Rightarrow> cid_identitySchema d)"

definition canonical_identity_Fields :: "CanonicalResolvedExtensionIdentity \<Rightarrow> canonicalIdentityField list" where
  "canonical_identity_Fields i = (case i of None \<Rightarrow> [] | Some d \<Rightarrow> cid_fields d)"

definition identityFieldKindTag :: "bytes \<Rightarrow> u16" where
  "identityFieldKindTag kind =
     (if kind = IdentityFieldText then identityFieldTextTag
      else if kind = IdentityFieldCanonicalValue then identityFieldCanonicalValueTag
      else if kind = IdentityFieldSecretReference then identityFieldSecretReferenceTag
      else 0)"

fun typedFieldSet_loop :: "nat \<Rightarrow> canonicalIdentityField list \<Rightarrow> bytes \<Rightarrow> bytes result" where
  "typedFieldSet_loop index [] out = Inr out"
| "typedFieldSet_loop index (item # rest) out =
     (let field = cif_field item in
      if \<not> IdentityField_Valid field then Inl (canonicalInvalid CodeShapeInvalid (indexed ''fields'' index))
      else
       res_bind (res_canonicalize (parseDigest (IdentityField_Commitment field) (indexed ''fields'' index @ ''.commitment''))) (\<lambda>raw.
       typedFieldSet_loop (Suc index) rest
         (out @ encodeString (IdentityField_Name field) @ encodeUint16 (identityFieldKindTag (IdentityField_Kind field)) @ raw)))"

definition canonicalTypedFieldSet :: "canonicalIdentityField list \<Rightarrow> bytes result" where
  "canonicalTypedFieldSet flds =
     (let ordered = sort_key (\<lambda>c. IdentityField_Name (cif_field c)) flds in
      typedFieldSet_loop 0 ordered (encodeUint32 (of_nat (length ordered))))"

definition canonicalIdentityBytes :: "bytes \<Rightarrow> canonicalIdentityData option \<Rightarrow> bytes result" where
  "canonicalIdentityBytes domain_name i =
     (case i of None \<Rightarrow> Inl (canonicalInvalid CodeShapeInvalid ''identity'')
      | Some d \<Rightarrow>
         res_bind (canonicalTypedFieldSet (cid_fields d)) (\<lambda>flds.
         Inr (encodeRecord domain_name
           [\<lparr>cf_tag = 1, cf_payload = CanonicalSchemaVersion\<rparr>, \<lparr>cf_tag = 2, cf_payload = cid_provider d\<rparr>,
            \<lparr>cf_tag = 3, cf_payload = cid_semanticKind d\<rparr>, \<lparr>cf_tag = 4, cf_payload = cid_identitySchema d\<rparr>,
            \<lparr>cf_tag = 5, cf_payload = flds\<rparr>])))"

definition CanonicalFactoryIdentityBytes :: "CanonicalFactoryIdentity \<Rightarrow> bytes result" where
  "CanonicalFactoryIdentityBytes = canonicalIdentityBytes CanonicalFactoryStateDomain"

definition CanonicalTransformIdentityBytes :: "CanonicalTransformIdentity \<Rightarrow> bytes result" where
  "CanonicalTransformIdentityBytes = canonicalIdentityBytes CanonicalTransformDomain"

definition CanonicalResolvedExtensionBytes :: "CanonicalResolvedExtensionIdentity \<Rightarrow> bytes result" where
  "CanonicalResolvedExtensionBytes = canonicalIdentityBytes CanonicalResolvedExtensionDomain"

definition canonicalFingerprint :: "bytes \<Rightarrow> canonicalIdentityData option \<Rightarrow> bytes result" where
  "canonicalFingerprint domain_name i =
     res_bind (canonicalIdentityBytes domain_name i) (\<lambda>encoded. Inr (''sha256:'' @ hexLower (Sum256 encoded)))"

definition CanonicalFactoryFingerprint :: "CanonicalFactoryIdentity \<Rightarrow> bytes result" where
  "CanonicalFactoryFingerprint = canonicalFingerprint CanonicalFactoryStateDomain"

definition CanonicalTransformFingerprint :: "CanonicalTransformIdentity \<Rightarrow> bytes result" where
  "CanonicalTransformFingerprint = canonicalFingerprint CanonicalTransformDomain"

definition CanonicalExtensionFingerprint :: "CanonicalResolvedExtensionIdentity \<Rightarrow> bytes result" where
  "CanonicalExtensionFingerprint = canonicalFingerprint CanonicalResolvedExtensionDomain"

subsection \<open>Observations (canonical\_builder\_v1.go)\<close>

record operationalObservationData =
  oo_owner :: bytes
  oo_semanticKind :: bytes
  oo_observationSchema :: bytes
  oo_fields :: "(bytes \<times> bytes) list"

type_synonym OperationalObservation = "operationalObservationData option"

fun observation_fields :: "(bytes \<times> bytes) list \<Rightarrow> unit result" where
  "observation_fields [] = Inr ()"
| "observation_fields ((name, value) # rest) =
     res_bind (res_canonicalize (validateIdentifier name ''fields.name'')) (\<lambda>_.
      if \<not> ValidString value \<or> MaxCanonicalStringBytes < length value
      then Inl (canonicalInvalid CodeValueInvalid (''fields.'' @ name))
      else observation_fields rest)"

definition NewOperationalObservation ::
    "bytes \<Rightarrow> bytes \<Rightarrow> bytes \<Rightarrow> (bytes \<times> bytes) list \<Rightarrow> OperationalObservation result" where
  "NewOperationalObservation owner semanticKind observationSchema flds =
     res_bind (res_canonicalize (validateIdentifier owner ''owner'')) (\<lambda>_.
     res_bind (res_canonicalize (validateIdentifier semanticKind ''semantic_kind'')) (\<lambda>_.
     res_bind (res_canonicalize (validateIdentifier observationSchema ''observation_schema'')) (\<lambda>_.
     res_bind (observation_fields flds) (\<lambda>_.
     Inr (Some \<lparr>oo_owner = owner, oo_semanticKind = semanticKind, oo_observationSchema = observationSchema,
       oo_fields = flds\<rparr>)))))"

subsection \<open>The builder\<close>

record canonicalBuilder =
  cb_provider :: bytes
  cb_semanticKind :: bytes
  cb_identitySchema :: bytes
  cb_observationSchema :: bytes
  cb_definitions :: "(bytes \<times> FieldDefinition) list"
  cb_fields :: "(bytes \<times> canonicalIdentityField) list"
  cb_observations :: "OperationalObservation list"
  cb_sealed :: bool

definition newCanonicalBuilder :: "bytes \<Rightarrow> bytes \<Rightarrow> bytes \<Rightarrow> bytes \<Rightarrow> FieldDefinition list \<Rightarrow> canonicalBuilder" where
  "newCanonicalBuilder provider semanticKind identitySchema observationSchema definitions =
     \<lparr>cb_provider = provider, cb_semanticKind = semanticKind, cb_identitySchema = identitySchema,
      cb_observationSchema = observationSchema,
      cb_definitions = fold (\<lambda>d. AList.update (fn_name d) d) definitions [],
      cb_fields = [], cb_observations = [], cb_sealed = False\<rparr>"

definition addIdentityField :: "canonicalBuilder option \<Rightarrow> IdentityField \<Rightarrow> canonicalBuilder result" where
  "addIdentityField builder field =
     (case builder of None \<Rightarrow> Inl (canonicalInvalid CodeShapeInvalid ''builder'')
      | Some b \<Rightarrow>
         if cb_sealed b then Inl (canonicalInvalid CodeShapeInvalid ''builder'')
         else if \<not> IdentityField_Valid field then Inl (canonicalInvalid CodeShapeInvalid ''field'')
         else
          (case map_of (cb_definitions b) (IdentityField_Name field) of
             None \<Rightarrow> Inl (canonicalInvalid CodeValueInvalid ''field.name'')
           | Some definition \<Rightarrow>
              if fn_role definition \<noteq> FieldRoleSemantic then Inl (canonicalInvalid CodeValueInvalid ''field.name'')
              else if fn_kind definition \<noteq> IdentityField_Kind field then Inl (canonicalInvalid CodeValueInvalid ''field.kind'')
              else if map_of (cb_fields b) (IdentityField_Name field) \<noteq> None
              then Inl (canonicalInvalid CodeNonCanonical ''field.name'')
              else Inr (b\<lparr>cb_fields := AList.update (IdentityField_Name field)
                            \<lparr>cif_field = field, cif_disclosure = fn_disclosure definition\<rparr> (cb_fields b)\<rparr>)))"

fun check_observation :: "canonicalBuilder \<Rightarrow> (bytes \<times> bytes) list \<Rightarrow> unit result" where
  "check_observation b [] = Inr ()"
| "check_observation b ((name, value) # rest) =
     (case map_of (cb_definitions b) name of
        None \<Rightarrow> Inl (canonicalInvalid CodeValueInvalid (''observation.fields.'' @ name))
      | Some definition \<Rightarrow>
         if fn_role definition \<noteq> FieldRoleOperational \<or> fn_kind definition \<noteq> IdentityFieldText
         then Inl (canonicalInvalid CodeValueInvalid (''observation.fields.'' @ name))
         else check_observation b rest)"

definition addObservation :: "canonicalBuilder option \<Rightarrow> OperationalObservation \<Rightarrow> canonicalBuilder result" where
  "addObservation builder value =
     (case builder of None \<Rightarrow> Inl (canonicalInvalid CodeShapeInvalid ''builder'')
      | Some b \<Rightarrow>
         if cb_sealed b then Inl (canonicalInvalid CodeShapeInvalid ''builder'')
         else
          (case value of None \<Rightarrow> Inl (canonicalInvalid CodeShapeInvalid ''observation'')
           | Some d \<Rightarrow>
              if oo_owner d \<noteq> cb_provider b \<or> oo_semanticKind d \<noteq> cb_semanticKind b
                 \<or> oo_observationSchema d \<noteq> cb_observationSchema b
              then Inl (canonicalInvalid CodeValueInvalid ''observation'')
              else res_bind (check_observation b (oo_fields d)) (\<lambda>_.
                   Inr (b\<lparr>cb_observations := cb_observations b @ [value]\<rparr>))))"

fun check_required :: "canonicalBuilder \<Rightarrow> (bytes \<times> FieldDefinition) list \<Rightarrow> unit result" where
  "check_required b [] = Inr ()"
| "check_required b ((name, definition) # rest) =
     (if fn_role definition = FieldRoleSemantic \<and> fn_required definition \<and> map_of (cb_fields b) name = None
      then Inl (canonicalInvalid CodeShapeInvalid (''fields.'' @ name))
      else check_required b rest)"

definition builder_build ::
    "canonicalBuilder option \<Rightarrow> (canonicalIdentityData \<times> OperationalObservation list \<times> canonicalBuilder) result" where
  "builder_build builder =
     (case builder of None \<Rightarrow> Inl (canonicalInvalid CodeShapeInvalid ''builder'')
      | Some b \<Rightarrow>
         if cb_sealed b then Inl (canonicalInvalid CodeShapeInvalid ''builder'')
         else
          res_bind (check_required b (cb_definitions b)) (\<lambda>_.
          let names = sort (map fst (cb_fields b));
              flds = map (\<lambda>name. the (map_of (cb_fields b) name)) names in
          Inr (\<lparr>cid_provider = cb_provider b, cid_semanticKind = cb_semanticKind b,
                cid_identitySchema = cb_identitySchema b, cid_fields = flds\<rparr>,
               cb_observations b, b\<lparr>cb_sealed := True\<rparr>)))"

subsection \<open>Factory, transform and extension builders\<close>

record FactoryIdentityBuilder =
  fb_builder :: "canonicalBuilder option"
  fb_declaration :: FactoryDeclaration
  fb_extensions :: bool

record TransformIdentityBuilder =
  tb_builder :: "canonicalBuilder option"
  tb_declaration :: TransformDeclaration
  tb_extensions :: bool

record ExtensionIdentityBuilder =
  xb_builder :: "canonicalBuilder option"

definition builder_for :: "schemaData option \<Rightarrow> canonicalBuilder" where
  "builder_for schema =
     newCanonicalBuilder (schemaProvider schema) (schemaKind schema) (schemaIdentity schema) (schemaObservation schema) (schemaFields schema)"

definition NewFactoryIdentityBuilder :: "FactorySchema \<Rightarrow> FactoryDeclaration \<Rightarrow> FactoryIdentityBuilder result" where
  "NewFactoryIdentityBuilder schema declaration =
     (if \<not> schema_Valid schema then Inl (canonicalInvalid CodeShapeInvalid ''schema'')
      else
       res_bind (res_prefix ''declaration'' (validateFactoryDeclaration declaration)) (\<lambda>_.
       if fd_Kind declaration \<noteq> schemaKind schema then Inl (canonicalInvalid CodeValueInvalid ''declaration.kind'')
       else Inr \<lparr>fb_builder = Some (builder_for schema), fb_declaration = declaration, fb_extensions = False\<rparr>))"

definition NewTransformIdentityBuilder :: "TransformSchema \<Rightarrow> TransformDeclaration \<Rightarrow> TransformIdentityBuilder result" where
  "NewTransformIdentityBuilder schema declaration =
     (if \<not> schema_Valid schema then Inl (canonicalInvalid CodeShapeInvalid ''schema'')
      else
       res_bind (res_prefix ''declaration'' (validateTransformDeclaration declaration)) (\<lambda>_.
       if td_Kind declaration \<noteq> schemaKind schema then Inl (canonicalInvalid CodeValueInvalid ''declaration.kind'')
       else Inr \<lparr>tb_builder = Some (builder_for schema), tb_declaration = declaration, tb_extensions = False\<rparr>))"

definition NewExtensionIdentityBuilder :: "ExtensionSchema \<Rightarrow> ExtensionIdentityBuilder result" where
  "NewExtensionIdentityBuilder schema =
     (if \<not> schema_Valid schema then Inl (canonicalInvalid CodeShapeInvalid ''schema'')
      else Inr \<lparr>xb_builder = Some (builder_for schema)\<rparr>)"

definition Factory_AddIdentityField :: "FactoryIdentityBuilder option \<Rightarrow> IdentityField \<Rightarrow> FactoryIdentityBuilder result" where
  "Factory_AddIdentityField b field =
     (case b of None \<Rightarrow> Inl (canonicalInvalid CodeShapeInvalid ''builder'')
      | Some fb \<Rightarrow> res_map (\<lambda>c. fb\<lparr>fb_builder := Some c\<rparr>) (addIdentityField (fb_builder fb) field))"

definition Factory_AddObservation :: "FactoryIdentityBuilder option \<Rightarrow> OperationalObservation \<Rightarrow> FactoryIdentityBuilder result" where
  "Factory_AddObservation b value =
     (case b of None \<Rightarrow> Inl (canonicalInvalid CodeShapeInvalid ''builder'')
      | Some fb \<Rightarrow> res_map (\<lambda>c. fb\<lparr>fb_builder := Some c\<rparr>) (addObservation (fb_builder fb) value))"

definition Transform_AddIdentityField :: "TransformIdentityBuilder option \<Rightarrow> IdentityField \<Rightarrow> TransformIdentityBuilder result" where
  "Transform_AddIdentityField b field =
     (case b of None \<Rightarrow> Inl (canonicalInvalid CodeShapeInvalid ''builder'')
      | Some tb \<Rightarrow> res_map (\<lambda>c. tb\<lparr>tb_builder := Some c\<rparr>) (addIdentityField (tb_builder tb) field))"

definition Transform_AddObservation :: "TransformIdentityBuilder option \<Rightarrow> OperationalObservation \<Rightarrow> TransformIdentityBuilder result" where
  "Transform_AddObservation b value =
     (case b of None \<Rightarrow> Inl (canonicalInvalid CodeShapeInvalid ''builder'')
      | Some tb \<Rightarrow> res_map (\<lambda>c. tb\<lparr>tb_builder := Some c\<rparr>) (addObservation (tb_builder tb) value))"

definition Extension_AddIdentityField :: "ExtensionIdentityBuilder option \<Rightarrow> IdentityField \<Rightarrow> ExtensionIdentityBuilder result" where
  "Extension_AddIdentityField b field =
     (case b of None \<Rightarrow> Inl (canonicalInvalid CodeShapeInvalid ''builder'')
      | Some xb \<Rightarrow> res_map (\<lambda>c. xb\<lparr>xb_builder := Some c\<rparr>) (addIdentityField (xb_builder xb) field))"

definition Extension_AddObservation :: "ExtensionIdentityBuilder option \<Rightarrow> OperationalObservation \<Rightarrow> ExtensionIdentityBuilder result" where
  "Extension_AddObservation b value =
     (case b of None \<Rightarrow> Inl (canonicalInvalid CodeShapeInvalid ''builder'')
      | Some xb \<Rightarrow> res_map (\<lambda>c. xb\<lparr>xb_builder := Some c\<rparr>) (addObservation (xb_builder xb) value))"

subsection \<open>Extensions bound to a declaration\<close>

record ResolvedFactoryExtensions =
  rx_Inputs :: "CanonicalResolvedExtensionIdentity list"
  rx_ExecutionEnvironment :: "CanonicalResolvedExtensionIdentity option"
  rx_Deployment :: "CanonicalResolvedExtensionIdentity option"

record ResolvedTransformExtensions =
  rt_Inputs :: "CanonicalResolvedExtensionIdentity list"
  rt_ExecutionEnvironment :: "CanonicalResolvedExtensionIdentity option"

text \<open>The declaration is an interface value around a struct, never a nil interface.\<close>

definition validateCanonicalExtension ::
    "extensionSpecificationData option \<Rightarrow> CanonicalResolvedExtensionIdentity \<Rightarrow> bytes \<Rightarrow> unit result" where
  "validateCanonicalExtension declaration identity path =
     (case identity of None \<Rightarrow> Inl (canonicalInvalid CodeShapeInvalid path)
      | Some d \<Rightarrow>
         if (case declaration of None \<Rightarrow> [] | Some s \<Rightarrow> sp_owner s) \<noteq> cid_provider d
            \<or> (case declaration of None \<Rightarrow> [] | Some s \<Rightarrow> sp_kind s) \<noteq> cid_semanticKind d
         then Inl (canonicalInvalid CodeValueInvalid path)
         else Inr ())"

definition extensionIdentityField :: "bytes \<Rightarrow> CanonicalResolvedExtensionIdentity \<Rightarrow> IdentityField result" where
  "extensionIdentityField name identity =
     res_bind (CanonicalExtensionFingerprint identity) (\<lambda>fingerprint. NewTextIdentityField name fingerprint)"

fun stage_inputs ::
    "nat \<Rightarrow> InputDeclaration list \<Rightarrow> CanonicalResolvedExtensionIdentity list \<Rightarrow> IdentityField list result" where
  "stage_inputs index (declaration # declarations) (identity # identities) =
     res_bind (validateCanonicalExtension declaration identity (indexed ''extensions.inputs'' index)) (\<lambda>_.
     res_bind (extensionIdentityField (''extension.input.'' @ itoa index) identity) (\<lambda>field.
     res_bind (stage_inputs (Suc index) declarations identities) (\<lambda>staged.
     Inr (field # staged))))"
| "stage_inputs index declarations identities = Inr []"

definition stage_role ::
    "bytes \<Rightarrow> extensionSpecificationData option option \<Rightarrow> CanonicalResolvedExtensionIdentity option \<Rightarrow> IdentityField list result" where
  "stage_role role declaration identity =
     (if (declaration = None) \<noteq> (identity = None) then Inl (canonicalInvalid CodeShapeInvalid (''extensions.'' @ role))
      else
       (case identity of None \<Rightarrow> Inr []
        | Some i \<Rightarrow>
           res_bind (validateCanonicalExtension (the declaration) i (''extensions.'' @ role)) (\<lambda>_.
           res_bind (extensionIdentityField (''extension.'' @ role) i) (\<lambda>field.
           Inr [field]))))"

definition bind_staged :: "canonicalBuilder \<Rightarrow> IdentityField list \<Rightarrow> canonicalBuilder" where
  "bind_staged b staged =
     b\<lparr>cb_fields := fold (\<lambda>field. AList.update (IdentityField_Name field)
         \<lparr>cif_field = field, cif_disclosure = DisclosurePublic\<rparr>) staged (cb_fields b)\<rparr>"

definition Factory_BindExtensions :: "FactoryIdentityBuilder option \<Rightarrow> ResolvedFactoryExtensions \<Rightarrow> FactoryIdentityBuilder result" where
  "Factory_BindExtensions b value =
     (case b of None \<Rightarrow> Inl (canonicalInvalid CodeShapeInvalid ''extensions'')
      | Some fb \<Rightarrow>
        (case fb_builder fb of None \<Rightarrow> Inl (canonicalInvalid CodeShapeInvalid ''extensions'')
         | Some c \<Rightarrow>
           if cb_sealed c \<or> fb_extensions fb then Inl (canonicalInvalid CodeShapeInvalid ''extensions'')
           else if length (rx_Inputs value) \<noteq> length (fd_Inputs (fb_declaration fb))
           then Inl (canonicalInvalid CodeShapeInvalid ''extensions.inputs'')
           else
            res_bind (stage_inputs 0 (fd_Inputs (fb_declaration fb)) (rx_Inputs value)) (\<lambda>inputs.
            res_bind (stage_role ''execution_environment'' (fd_ExecutionEnvironment (fb_declaration fb)) (rx_ExecutionEnvironment value)) (\<lambda>environment.
            res_bind (stage_role ''deployment'' (fd_Deployment (fb_declaration fb)) (rx_Deployment value)) (\<lambda>deployment.
            Inr (fb\<lparr>fb_builder := Some (bind_staged c (inputs @ environment @ deployment)), fb_extensions := True\<rparr>))))))"

definition Transform_BindExtensions :: "TransformIdentityBuilder option \<Rightarrow> ResolvedTransformExtensions \<Rightarrow> TransformIdentityBuilder result" where
  "Transform_BindExtensions b value =
     (case b of None \<Rightarrow> Inl (canonicalInvalid CodeShapeInvalid ''extensions'')
      | Some tb \<Rightarrow>
        (case tb_builder tb of None \<Rightarrow> Inl (canonicalInvalid CodeShapeInvalid ''extensions'')
         | Some c \<Rightarrow>
           if cb_sealed c \<or> tb_extensions tb then Inl (canonicalInvalid CodeShapeInvalid ''extensions'')
           else if length (rt_Inputs value) \<noteq> length (td_Inputs (tb_declaration tb))
           then Inl (canonicalInvalid CodeShapeInvalid ''extensions.inputs'')
           else
            res_bind (stage_inputs 0 (td_Inputs (tb_declaration tb)) (rt_Inputs value)) (\<lambda>inputs.
            res_bind (stage_role ''execution_environment'' (td_ExecutionEnvironment (tb_declaration tb)) (rt_ExecutionEnvironment value)) (\<lambda>environment.
            Inr (tb\<lparr>tb_builder := Some (bind_staged c (inputs @ environment)), tb_extensions := True\<rparr>)))))"

definition factoryNeedsExtensions :: "FactoryDeclaration \<Rightarrow> bool" where
  "factoryNeedsExtensions value \<longleftrightarrow>
     fd_Inputs value \<noteq> [] \<or> fd_ExecutionEnvironment value \<noteq> None \<or> fd_Deployment value \<noteq> None"

definition transformNeedsExtensions :: "TransformDeclaration \<Rightarrow> bool" where
  "transformNeedsExtensions value \<longleftrightarrow> td_Inputs value \<noteq> [] \<or> td_ExecutionEnvironment value \<noteq> None"

subsection \<open>Building\<close>

record FactoryIdentityComposition =
  fcm_identity :: CanonicalFactoryIdentity
  fcm_observations :: "OperationalObservation list"
  fcm_root :: bytes

record TransformIdentityComposition =
  tcm_identity :: CanonicalTransformIdentity
  tcm_observations :: "OperationalObservation list"

record ExtensionIdentityComposition =
  xcm_identity :: CanonicalResolvedExtensionIdentity
  xcm_observations :: "OperationalObservation list"

definition Factory_Build ::
    "FactoryIdentityBuilder option \<Rightarrow> FactoryIdentityComposition result \<times> FactoryIdentityBuilder option" where
  "Factory_Build b =
     (case b of None \<Rightarrow> (Inl (canonicalInvalid CodeShapeInvalid ''builder''), b)
      | Some fb \<Rightarrow>
         if factoryNeedsExtensions (fb_declaration fb) \<and> \<not> fb_extensions fb
         then (Inl (canonicalInvalid CodeShapeInvalid ''extensions''), b)
         else
          (case builder_build (fb_builder fb) of Inl e \<Rightarrow> (Inl e, b)
           | Inr (d, observations, c) \<Rightarrow>
              (res_map (\<lambda>fingerprint. \<lparr>fcm_identity = Some d, fcm_observations = observations, fcm_root = fingerprint\<rparr>)
                 (CanonicalFactoryFingerprint (Some d)),
               Some (fb\<lparr>fb_builder := Some c\<rparr>))))"

definition Transform_Build ::
    "TransformIdentityBuilder option \<Rightarrow> TransformIdentityComposition result \<times> TransformIdentityBuilder option" where
  "Transform_Build b =
     (case b of None \<Rightarrow> (Inl (canonicalInvalid CodeShapeInvalid ''builder''), b)
      | Some tb \<Rightarrow>
         if transformNeedsExtensions (tb_declaration tb) \<and> \<not> tb_extensions tb
         then (Inl (canonicalInvalid CodeShapeInvalid ''extensions''), b)
         else
          (case builder_build (tb_builder tb) of Inl e \<Rightarrow> (Inl e, b)
           | Inr (d, observations, c) \<Rightarrow>
              (Inr \<lparr>tcm_identity = Some d, tcm_observations = observations\<rparr>, Some (tb\<lparr>tb_builder := Some c\<rparr>))))"

definition Extension_Build ::
    "ExtensionIdentityBuilder option \<Rightarrow> ExtensionIdentityComposition result \<times> ExtensionIdentityBuilder option" where
  "Extension_Build b =
     (case b of None \<Rightarrow> (Inl (canonicalInvalid CodeShapeInvalid ''builder''), b)
      | Some xb \<Rightarrow>
         (case builder_build (xb_builder xb) of Inl e \<Rightarrow> (Inl e, b)
          | Inr (d, observations, c) \<Rightarrow>
             (Inr \<lparr>xcm_identity = Some d, xcm_observations = observations\<rparr>, Some (xb\<lparr>xb_builder := Some c\<rparr>))))"

end
