(* ===== verification/Identity_Builder_Props.thy ===== *)
theory Identity_Builder_Props
  imports Identity_Builder Resolved_Identity
begin

text \<open>
  Canonical-v1 identities: a fingerprint determines the typed fields it was computed from, a
  builder only produces identities that conform to its schema, and what it produces depends on
  the fields and extensions it was given, not on their order nor on observations.
\<close>

subsection \<open>Fields\<close>

lemma hexLower_hex: "hexLower bs = hex_EncodeToString bs"
  by (induction bs) (simp_all add: hexLower_def hex_digit_def)

lemma hash_text: "''sha256:'' @ hexLower (Sum256 x) = hashBytes x"
  by (simp add: hexLower_hex hashBytes_def)

text \<open>The fields the three constructors return, on values that were themselves constructed.\<close>

inductive constructed_field :: "IdentityField \<Rightarrow> bool" where
  text_field: "NewTextIdentityField name value = Inr f \<Longrightarrow> constructed_field f"
| value_field: "constructible v \<Longrightarrow> NewCanonicalValueIdentityField name v = Inr f \<Longrightarrow> constructed_field f"
| reference_field: "NewSecretReference p i v = Inr r \<Longrightarrow> NewSecretReferenceIdentityField name r = Inr f \<Longrightarrow> constructed_field f"

definition reference_payload :: "secretReferenceData \<Rightarrow> bytes" where
  "reference_payload r = encodeString (sr_provider r) @ encodeString (sr_identifier r) @ encodeString (sr_version r)"

definition reference_ok :: "secretReferenceData \<Rightarrow> bool" where
  "reference_ok r \<longleftrightarrow> identifierPattern (sr_provider r) \<and> ValidString (sr_identifier r) \<and> sr_identifier r \<noteq> []
     \<and> ValidString (sr_version r) \<and> sr_version r \<noteq> [] \<and> length (sr_identifier r) \<le> MaxCanonicalStringBytes
     \<and> length (sr_version r) \<le> MaxCanonicalStringBytes"

text \<open>Everything that is known about the data behind a constructed field.\<close>

definition field_wf :: "identityFieldData \<Rightarrow> bool" where
  "field_wf d \<longleftrightarrow> identifierPattern (if_name d)
     \<and> if_commitment d = hashBytes (field_preimage (if_name d) (identityFieldKindTag (if_kind d)) (if_payload d))
     \<and> (if_kind d = IdentityFieldText \<and> ValidString (if_text d) \<and> length (if_text d) \<le> MaxCanonicalStringBytes
          \<and> if_payload d = if_text d \<and> if_value d = None \<and> if_reference d = None
        \<or> if_kind d = IdentityFieldCanonicalValue \<and> constructible (if_value d)
          \<and> if_payload d = Sum256 (token_preimage (if_value d)) \<and> if_text d = [] \<and> if_reference d = None
        \<or> if_kind d = IdentityFieldSecretReference \<and> (\<exists>r. if_reference d = Some r \<and> reference_ok r
          \<and> if_payload d = reference_payload r) \<and> if_text d = [] \<and> if_value d = None)"

lemma NewSecretReference_Inr: "NewSecretReference p i v = Inr r \<longleftrightarrow>
    (\<exists>d. r = Some d \<and> reference_ok d \<and> sr_provider d = p \<and> sr_identifier d = i \<and> sr_version d = v)"
proof
  assume "NewSecretReference p i v = Inr r"
  then show "\<exists>d. r = Some d \<and> reference_ok d \<and> sr_provider d = p \<and> sr_identifier d = i \<and> sr_version d = v"
    by (auto simp: NewSecretReference_def reference_ok_def res_simps split: if_splits)
next
  assume "\<exists>d. r = Some d \<and> reference_ok d \<and> sr_provider d = p \<and> sr_identifier d = i \<and> sr_version d = v"
  then show "NewSecretReference p i v = Inr r"
    by (auto simp: NewSecretReference_def reference_ok_def res_simps)
qed

lemma kind_tags [simp]:
  "identityFieldKindTag IdentityFieldText = identityFieldTextTag"
  "identityFieldKindTag IdentityFieldCanonicalValue = identityFieldCanonicalValueTag"
  "identityFieldKindTag IdentityFieldSecretReference = identityFieldSecretReferenceTag"
  by (simp_all add: identityFieldKindTag_def)

lemma kind_tag_inject:
  "identityFieldKindTag a = identityFieldKindTag b \<Longrightarrow> a \<in> {IdentityFieldText, IdentityFieldCanonicalValue, IdentityFieldSecretReference}
     \<Longrightarrow> b \<in> {IdentityFieldText, IdentityFieldCanonicalValue, IdentityFieldSecretReference} \<Longrightarrow> a = b"
  by (auto simp: field_tag_defs)

lemma newIdentityField_Inr:
  "newIdentityField name kind tag payload txt val reference = Inr f \<longleftrightarrow> identifierPattern name \<and>
     f = Some \<lparr>if_name = name, if_kind = kind, if_payload = payload, if_text = txt, if_value = val,
       if_reference = reference, if_commitment = hashBytes (field_preimage name tag payload)\<rparr>"
  unfolding newIdentityField_def hash_text by (auto simp: res_simps)

lemma constructed_field_wf: "constructed_field f \<Longrightarrow> \<exists>d. f = Some d \<and> field_wf d"
proof (induction rule: constructed_field.induct)
  case (text_field name s f)
  then show ?case by (auto simp: NewTextIdentityField_def newIdentityField_Inr field_wf_def split: if_splits)
next
  case (value_field v name f)
  then show ?case
    by (auto simp: NewCanonicalValueIdentityField_def newIdentityField_Inr field_wf_def Token_constructible split: if_splits)
next
  case (reference_field p i v r name f)
  then show ?case
    by (auto simp: NewSecretReference_Inr NewSecretReferenceIdentityField_def newIdentityField_Inr field_wf_def
        secret_accessors reference_payload_def Let_def)
qed

lemma field_wf_kind: "field_wf d \<Longrightarrow> if_kind d \<in> {IdentityFieldText, IdentityFieldCanonicalValue, IdentityFieldSecretReference}"
  by (auto simp: field_wf_def)

text \<open>Each kind of well-formed field is what its constructor returns on the field's own parts.\<close>

lemma text_field_of:
  "field_wf d \<Longrightarrow> if_kind d = IdentityFieldText \<Longrightarrow> NewTextIdentityField (if_name d) (if_text d) = Inr (Some d)"
  by (simp add: NewTextIdentityField_def newIdentityField_Inr field_wf_def identityFieldData.equality)

lemma value_field_of:
  assumes "field_wf d" and "if_kind d = IdentityFieldCanonicalValue"
  shows "constructible (if_value d)" "NewCanonicalValueIdentityField (if_name d) (if_value d) = Inr (Some d)"
proof -
  show c: "constructible (if_value d)" using assms by (simp add: field_wf_def)
  then have "Valid (if_value d)" using constructible_rep by (auto simp: rep_def Valid_def repr_def)
  with c assms show "NewCanonicalValueIdentityField (if_name d) (if_value d) = Inr (Some d)"
    by (simp add: NewCanonicalValueIdentityField_def newIdentityField_Inr field_wf_def Token_constructible
        identityFieldData.equality)
qed

lemma reference_field_of:
  assumes "field_wf d" and "if_kind d = IdentityFieldSecretReference"
  obtains r where "if_reference d = Some r" "NewSecretReference (sr_provider r) (sr_identifier r) (sr_version r) = Inr (Some r)"
    "NewSecretReferenceIdentityField (if_name d) (Some r) = Inr (Some d)"
proof -
  obtain r where r: "if_reference d = Some r" "reference_ok r" "if_payload d = reference_payload r"
    using assms by (auto simp: field_wf_def)
  moreover have "NewSecretReferenceIdentityField (if_name d) (Some r) = Inr (Some d)"
    using assms r by (simp add: NewSecretReferenceIdentityField_def newIdentityField_Inr field_wf_def secret_accessors
        reference_payload_def identityFieldData.equality)
  ultimately show thesis using that by (simp add: NewSecretReference_Inr)
qed

lemma field_wf_constructed: "field_wf d \<Longrightarrow> constructed_field (Some d)"
proof -
  assume wf: "field_wf d"
  from field_wf_kind [OF wf] consider (text_kind) "if_kind d = IdentityFieldText"
    | (value_kind) "if_kind d = IdentityFieldCanonicalValue" | (reference_kind) "if_kind d = IdentityFieldSecretReference" by blast
  then show ?thesis
  proof cases
    case text_kind
    from text_field_of [OF wf this] show ?thesis by (rule constructed_field.text_field)
  next
    case value_kind
    from value_field_of [OF wf this] show ?thesis by (rule constructed_field.value_field)
  next
    case reference_kind
    then obtain r where "NewSecretReference (sr_provider r) (sr_identifier r) (sr_version r) = Inr (Some r)"
      "NewSecretReferenceIdentityField (if_name d) (Some r) = Inr (Some d)" by (rule reference_field_of [OF wf])
    then show ?thesis by (rule constructed_field.reference_field)
  qed
qed

subsection \<open>What is hashed determines the field\<close>

lemma reference_fits: "reference_ok r \<Longrightarrow> fits64 (sr_provider r) \<and> fits64 (sr_identifier r) \<and> fits64 (sr_version r)"
  using identifier_fits by (auto simp: reference_ok_def fits64_def canonical_limits)

lemma reference_payload_inject:
  assumes "reference_payload r = reference_payload s" and "reference_ok r" and "reference_ok s"
  shows "r = s"
proof -
  note fits = reference_fits [OF assms(2)] reference_fits [OF assms(3)]
  have 1: "sr_provider r = sr_provider s" and rest: "encodeString (sr_identifier r) @ encodeString (sr_version r)
      = encodeString (sr_identifier s) @ encodeString (sr_version s)"
    using encodeString_prefix [OF assms(1) [unfolded reference_payload_def]] fits by blast+
  have 2: "sr_identifier r = sr_identifier s" and 3: "encodeString (sr_version r) = encodeString (sr_version s)"
    using encodeString_prefix [OF rest] fits by blast+
  have "sr_version r = sr_version s"
    using encodeString_prefix [of "sr_version r" "[]" "sr_version s" "[]"] 3 fits by simp
  with 1 2 show ?thesis by (simp add: secretReferenceData.equality)
qed

lemma field_payload_fits: "field_wf d \<Longrightarrow> fits64 (if_payload d)"
  by (auto simp: field_wf_def fits64_def canonical_limits reference_payload_def reference_ok_def limit_defs
      dest: identifier_length)

lemma field_preimage_inject:
  assumes "field_preimage n t p = field_preimage m u q" and "fits64 n" "fits64 m" "fits64 p" "fits64 q"
  shows "n = m \<and> t = u \<and> p = q"
proof -
  have 1: "n = m" and rest: "encodeUint16 t @ encodeBytes p = encodeUint16 u @ encodeBytes q"
    using encodeString_prefix [OF assms(1) [unfolded field_preimage_def] assms(2,3)] by simp_all
  from rest have "t = u" "encodeBytes p = encodeBytes q" by (simp_all add: append_eq_append_conv)
  then show ?thesis using 1 encodeBytes_inject assms(4,5) by blast
qed

text \<open>The inputs of SHA-256 behind a field.\<close>

definition field_hashed :: "identityFieldData \<Rightarrow> bytes list" where
  "field_hashed d = field_preimage (if_name d) (identityFieldKindTag (if_kind d)) (if_payload d)
     # (if if_kind d = IdentityFieldCanonicalValue then [token_preimage (if_value d)] else [])"

definition collide :: "bytes list \<Rightarrow> bytes list \<Rightarrow> bool" where
  "collide xs ys \<longleftrightarrow> (\<exists>x \<in> set xs. \<exists>y \<in> set ys. sha256_collision x y)"

lemma same_payload_same_field:
  assumes d: "field_wf d" and e: "field_wf e" and kind: "if_kind d = if_kind e"
    and name: "if_name d = if_name e" and payload: "if_payload d = if_payload e"
  shows "d = e \<or> collide (field_hashed d) (field_hashed e)"
proof -
  have comm: "if_commitment d = if_commitment e" using assms by (simp add: field_wf_def)
  consider (as_text) "if_kind d = IdentityFieldText" | (as_value) "if_kind d = IdentityFieldCanonicalValue"
    | (as_ref) "if_kind d = IdentityFieldSecretReference" using field_wf_kind [OF d] by blast
  then show ?thesis
  proof cases
    case as_text
    then have "if_text d = if_text e" "if_value d = if_value e" "if_reference d = if_reference e"
      using d e kind payload by (simp_all add: field_wf_def)
    then show ?thesis using comm name kind payload by (simp add: identityFieldData.equality)
  next
    case as_value
    then have v: "constructible (if_value d)" "constructible (if_value e)" "if_text d = if_text e"
      "if_reference d = if_reference e" "Sum256 (token_preimage (if_value d)) = Sum256 (token_preimage (if_value e))"
      using d e kind payload by (simp_all add: field_wf_def)
    from v(5) have "token_preimage (if_value d) = token_preimage (if_value e)
        \<or> sha256_collision (token_preimage (if_value d)) (token_preimage (if_value e))" by (rule Sum256_eqD)
    then show ?thesis
    proof
      assume "token_preimage (if_value d) = token_preimage (if_value e)"
      then have "if_value d = if_value e" by (rule token_preimage_inject [OF v(1,2)])
      then show ?thesis using comm name kind payload v by (simp add: identityFieldData.equality)
    next
      assume "sha256_collision (token_preimage (if_value d)) (token_preimage (if_value e))"
      then show ?thesis using as_value kind by (simp add: collide_def field_hashed_def)
    qed
  next
    case as_ref
    then obtain r s where r: "if_reference d = Some r" "reference_ok r" "if_payload d = reference_payload r"
      and s: "if_reference e = Some s" "reference_ok s" "if_payload e = reference_payload s"
      and "if_text d = if_text e" "if_value d = if_value e" using d e kind by (auto simp: field_wf_def)
    moreover have "r = s" using reference_payload_inject payload r s by simp
    ultimately show ?thesis using comm name kind payload by (simp add: identityFieldData.equality)
  qed
qed

lemma commitment_determines_field:
  assumes d: "field_wf d" and e: "field_wf e" and eq: "if_commitment d = if_commitment e"
  shows "d = e \<or> collide (field_hashed d) (field_hashed e)"
proof -
  let ?p = "\<lambda>x. field_preimage (if_name x) (identityFieldKindTag (if_kind x)) (if_payload x)"
  have "?p d = ?p e \<or> sha256_collision (?p d) (?p e)"
    using eq d e by (intro hashBytes_eqD) (simp add: field_wf_def)
  then show ?thesis
  proof
    assume same: "?p d = ?p e"
    have fits: "fits64 (if_name d)" "fits64 (if_name e)"
      using d e identifier_fits by (simp_all add: field_wf_def)
    have "if_name d = if_name e" "identityFieldKindTag (if_kind d) = identityFieldKindTag (if_kind e)" "if_payload d = if_payload e"
      using field_preimage_inject [OF same fits field_payload_fits [OF d] field_payload_fits [OF e]] by simp_all
    then show ?thesis
      using same_payload_same_field [OF d e] kind_tag_inject field_wf_kind [OF d] field_wf_kind [OF e] by blast
  next
    assume "sha256_collision (?p d) (?p e)"
    then show ?thesis by (simp add: collide_def field_hashed_def)
  qed
qed

subsection \<open>What is hashed determines the identity\<close>

definition field_of :: "canonicalIdentityField \<Rightarrow> identityFieldData" where
  "field_of c = the (cif_field c)"

definition item_wf :: "canonicalIdentityField \<Rightarrow> bool" where
  "item_wf c \<longleftrightarrow> cif_field c \<noteq> None \<and> field_wf (field_of c)"

definition canonical_identity_wf :: "canonicalIdentityData \<Rightarrow> bool" where
  "canonical_identity_wf d \<longleftrightarrow> identifierPattern (cid_provider d) \<and> identifierPattern (cid_semanticKind d)
     \<and> identifierPattern (cid_identitySchema d) \<and> (\<forall>c \<in> set (cid_fields d). item_wf c)
     \<and> sorted_wrt (<) (map (\<lambda>c. IdentityField_Name (cif_field c)) (cid_fields d))"

definition item_bytes :: "canonicalIdentityField \<Rightarrow> bytes" where
  "item_bytes c = encodeString (if_name (field_of c)) @ encodeUint16 (identityFieldKindTag (if_kind (field_of c)))
     @ Sum256 (field_preimage (if_name (field_of c)) (identityFieldKindTag (if_kind (field_of c))) (if_payload (field_of c)))"

lemma item_wf_Some: "item_wf c \<Longrightarrow> cif_field c = Some (field_of c)"
  by (auto simp: item_wf_def field_of_def)

lemma item_accessors:
  assumes "item_wf c"
  shows "IdentityField_Valid (cif_field c)" "IdentityField_Name (cif_field c) = if_name (field_of c)"
    "IdentityField_Kind (cif_field c) = if_kind (field_of c)"
    "IdentityField_Commitment (cif_field c)
       = hashBytes (field_preimage (if_name (field_of c)) (identityFieldKindTag (if_kind (field_of c))) (if_payload (field_of c)))"
  using item_wf_Some [OF assms] assms by (simp_all add: item_wf_def IdentityField_Valid_def field_accessors field_wf_def)

lemma typedFieldSet_loop_wf:
  "\<forall>c \<in> set fs. item_wf c \<Longrightarrow> typedFieldSet_loop i fs out = Inr (out @ concat (map item_bytes fs))"
  by (induction fs arbitrary: i out) (simp_all add: item_accessors item_bytes_def Let_def)

text \<open>The bytes an identity hashes.\<close>

definition identity_preimage :: "bytes \<Rightarrow> canonicalIdentityData \<Rightarrow> bytes" where
  "identity_preimage dmn d = encodeRecord dmn
     (five_tags CanonicalSchemaVersion (cid_provider d) (cid_semanticKind d) (cid_identitySchema d)
        (encodeUint32 (of_nat (length (cid_fields d))) @ concat (map item_bytes (cid_fields d))))"

lemma canonicalTypedFieldSet_wf:
  assumes "canonical_identity_wf d"
  shows "canonicalTypedFieldSet (cid_fields d)
     = Inr (encodeUint32 (of_nat (length (cid_fields d))) @ concat (map item_bytes (cid_fields d)))"
proof -
  have "sort_key (\<lambda>c. IdentityField_Name (cif_field c)) (cid_fields d) = cid_fields d"
    using assms by (intro sort_key_slice.srt_sorted_id) (simp add: canonical_identity_wf_def)
  then show ?thesis
    using assms by (simp add: canonicalTypedFieldSet_def Let_def typedFieldSet_loop_wf canonical_identity_wf_def)
qed

lemma canonicalIdentityBytes_wf:
  "canonical_identity_wf d \<Longrightarrow> canonicalIdentityBytes dmn (Some d) = Inr (identity_preimage dmn d)"
  by (simp add: canonicalIdentityBytes_def canonicalTypedFieldSet_wf identity_preimage_def five_tags_def)

lemma canonicalFingerprint_wf:
  "canonical_identity_wf d \<Longrightarrow> canonicalFingerprint dmn (Some d) = Inr (hashBytes (identity_preimage dmn d))"
  unfolding canonicalFingerprint_def hash_text by (simp add: canonicalIdentityBytes_wf)

lemma item_bytes_prefix:
  assumes "item_bytes c @ r = item_bytes e @ s" and "item_wf c" and "item_wf e"
  shows "if_commitment (field_of c) = if_commitment (field_of e) \<and> r = s"
proof -
  have fits: "fits64 (if_name (field_of c))" "fits64 (if_name (field_of e))"
    using assms(2,3) identifier_fits by (simp_all add: item_wf_def field_wf_def)
  let ?h = "\<lambda>c. Sum256 (field_preimage (if_name (field_of c)) (identityFieldKindTag (if_kind (field_of c))) (if_payload (field_of c)))"
  have "encodeUint16 (identityFieldKindTag (if_kind (field_of c))) @ ?h c @ r
      = encodeUint16 (identityFieldKindTag (if_kind (field_of e))) @ ?h e @ s"
    using encodeString_prefix [OF _ fits] assms(1) by (simp add: item_bytes_def)
  then have "?h c @ r = ?h e @ s" by (metis append_eq_append_conv length_encodeUint(1))
  then have "?h c = ?h e" "r = s" by (metis append_eq_append_conv length_Sum256)+
  then show ?thesis using assms(2,3) by (simp add: item_wf_def field_wf_def hashBytes_def)
qed

lemma items_inject:
  "length cs = length es \<Longrightarrow> \<forall>c \<in> set cs \<union> set es. item_wf c \<Longrightarrow> concat (map item_bytes cs) = concat (map item_bytes es) \<Longrightarrow>
     map cif_field cs = map cif_field es
     \<or> collide (concat (map (field_hashed \<circ> field_of) cs)) (concat (map (field_hashed \<circ> field_of) es))"
proof (induction cs es rule: list_induct2)
  case (Cons c cs e es)
  have wf: "item_wf c" "item_wf e" using Cons.prems(1) by simp_all
  have "if_commitment (field_of c) = if_commitment (field_of e)" and rest: "concat (map item_bytes cs) = concat (map item_bytes es)"
    using item_bytes_prefix [OF _ wf] Cons.prems(2) by (metis list.simps(9) concat.simps(2))+
  then have "field_of c = field_of e \<or> collide (field_hashed (field_of c)) (field_hashed (field_of e))"
    using commitment_determines_field wf by (simp add: item_wf_def)
  moreover have "map cif_field cs = map cif_field es
      \<or> collide (concat (map (field_hashed \<circ> field_of) cs)) (concat (map (field_hashed \<circ> field_of) es))"
    using Cons.IH [OF _ rest] Cons.prems(1) by (simp add: comp_def)
  ultimately show ?case
    using item_wf_Some [OF wf(1)] item_wf_Some [OF wf(2)] by (auto simp: collide_def)
qed simp

lemma length_item_bytes: "item_wf c \<Longrightarrow> length (item_bytes c) \<le> 170"
  using identifier_length [of "if_name (field_of c)"] by (simp add: item_bytes_def item_wf_def field_wf_def limit_defs)

lemma items_fit:
  assumes "\<forall>c \<in> set cs. item_wf c" and "length cs < 2 ^ 32"
  shows "fits64 (encodeUint32 n @ concat (map item_bytes cs))"
proof -
  have "length (concat (map item_bytes cs)) \<le> 170 * length cs"
    using assms(1) by (induction cs) (use length_item_bytes in \<open>force\<close>)+
  also have "\<dots> < 2 ^ 63" using assms(2) by simp
  finally show ?thesis by (simp add: fits64_def)
qed

text \<open>The inputs of SHA-256 behind an identity: its own bytes and those of its fields.\<close>

definition identity_hashed :: "bytes \<Rightarrow> canonicalIdentityData \<Rightarrow> bytes list" where
  "identity_hashed dmn d = identity_preimage dmn d # concat (map (field_hashed \<circ> field_of) (cid_fields d))"

definition same_identity :: "canonicalIdentityData \<Rightarrow> canonicalIdentityData \<Rightarrow> bool" where
  "same_identity d e \<longleftrightarrow> cid_provider d = cid_provider e \<and> cid_semanticKind d = cid_semanticKind e
     \<and> cid_identitySchema d = cid_identitySchema e \<and> map cif_field (cid_fields d) = map cif_field (cid_fields e)"

lemma identity_preimage_inject:
  assumes eq: "identity_preimage x d = identity_preimage y e"
    and wf: "canonical_identity_wf d" "canonical_identity_wf e"
    and len: "length (cid_fields d) < 2 ^ 32" "length (cid_fields e) < 2 ^ 32" and "fits64 x" "fits64 y"
  shows "x = y \<and> (same_identity d e \<or> collide (identity_hashed x d) (identity_hashed y e))"
proof -
  let ?body = "\<lambda>d. encodeUint32 (of_nat (length (cid_fields d))) @ concat (map item_bytes (cid_fields d))"
  have version: "fits64 CanonicalSchemaVersion" by (simp add: fits64_def CanonicalSchemaVersion_def)
  have items: "\<forall>c \<in> set (cid_fields d) \<union> set (cid_fields e). item_wf c" using wf by (auto simp: canonical_identity_wf_def)
  then have body: "fits64 (?body d)" "fits64 (?body e)" using items_fit len by simp_all
  have names: "fits64 (cid_provider z)" "fits64 (cid_semanticKind z)" "fits64 (cid_identitySchema z)"
    if "canonical_identity_wf z" for z
    using that identifier_fits by (simp_all add: canonical_identity_wf_def)
  have same: "x = y" "cid_provider d = cid_provider e" "cid_semanticKind d = cid_semanticKind e"
    "cid_identitySchema d = cid_identitySchema e" "?body d = ?body e"
    using five_tags_inject [OF eq [unfolded identity_preimage_def] assms(6,7) version names [OF wf(1)] body(1)
        version names [OF wf(2)] body(2)] by simp_all
  from same(5) have count: "(of_nat (length (cid_fields d)) :: u32) = of_nat (length (cid_fields e))"
    and bytes: "concat (map item_bytes (cid_fields d)) = concat (map item_bytes (cid_fields e))"
    by (simp_all add: append_eq_append_conv)
  have "length (cid_fields d) = length (cid_fields e)" using count len unat_of_nat_32 by metis
  from items_inject [OF this items bytes] same show ?thesis
    by (auto simp: same_identity_def identity_hashed_def collide_def)
qed

lemma fingerprint_inject:
  assumes "hashBytes (identity_preimage dmn d) = hashBytes (identity_preimage dmn e)"
    and "canonical_identity_wf d" "canonical_identity_wf e"
    and "length (cid_fields d) < 2 ^ 32" "length (cid_fields e) < 2 ^ 32" and "fits64 dmn"
  shows "same_identity d e \<or> collide (identity_hashed dmn d) (identity_hashed dmn e)"
proof -
  from hashBytes_eqD [OF assms(1)] show ?thesis
  proof
    assume "identity_preimage dmn d = identity_preimage dmn e"
    from identity_preimage_inject [OF this assms(2-5) assms(6,6)] show ?thesis by simp
  next
    assume "sha256_collision (identity_preimage dmn d) (identity_preimage dmn e)"
    then show ?thesis by (simp add: collide_def identity_hashed_def)
  qed
qed

end
