(* ===== verification/Identity_Conformance.thy ===== *)
theory Identity_Conformance
  imports Identity_Builder_Props
begin

text \<open>
  What the builders of canonical-v1 identities guarantee.  The three builders wrap one core
  builder; the locale \<open>schema_builder\<close> says what a wrapper may do to it, and everything about
  schemas is proved there once.
\<close>

subsection \<open>Authored schemas\<close>

definition definition_ok :: "FieldDefinition \<Rightarrow> bool" where
  "definition_ok d \<longleftrightarrow> identifierPattern (fn_name d) \<and> \<not> HasPrefix (fn_name d) ''extension.''
     \<and> fn_disclosure d \<in> {DisclosurePublic, DisclosureProtected}"

definition schema_wf :: "schemaData \<Rightarrow> bool" where
  "schema_wf s \<longleftrightarrow> identifierPattern (sm_provider s) \<and> identifierPattern (sm_semanticKind s)
     \<and> identifierPattern (sm_identitySchema s) \<and> (\<forall>d \<in> set (sm_fields s). definition_ok d)
     \<and> distinct (map fn_name (sm_fields s))"

lemma validate_fields_Inr:
  "validate_fields i prev op fs = Inr (gs, op') \<Longrightarrow> gs = fs \<and> (\<forall>f \<in> set fs. definition_ok f)
     \<and> (fs \<noteq> [] \<longrightarrow> prev \<noteq> Some (fn_name (hd fs))) \<and> distinct_adj (map fn_name fs)"
proof (induction fs arbitrary: i prev op gs op')
  case (Cons f fs)
  from Cons.prems obtain hs op'' where rest: "validate_fields (Suc i) (Some (fn_name f)) op'' fs = Inr (hs, op')"
    and gs: "gs = f # hs" and ok: "definition_ok f" "prev \<noteq> Some (fn_name f)"
    by (auto simp: res_simps definition_ok_def split: if_splits)
  from Cons.IH [OF rest] gs ok show ?case by (cases fs) (auto simp: distinct_adj_Cons)
qed simp

lemma schema_validate_wf:
  assumes "schema_validate input = Inr flds"
  shows "\<forall>d \<in> set flds. definition_ok d" "distinct (map fn_name flds)" "identifierPattern (sn_Provider input)"
    "identifierPattern (sn_SemanticKind input)" "identifierPattern (sn_IdentitySchema input)"
proof -
  from assms obtain op where v: "validate_fields 0 None False (sort_key fn_name (sn_Fields input)) = Inr (flds, op)"
    and names: "identifierPattern (sn_Provider input)" "identifierPattern (sn_SemanticKind input)"
      "identifierPattern (sn_IdentitySchema input)"
    by (auto simp: schema_validate_def res_simps split: if_splits)
  show "identifierPattern (sn_Provider input)" "identifierPattern (sn_SemanticKind input)"
      "identifierPattern (sn_IdentitySchema input)" by (rule names)+
  note r = validate_fields_Inr [OF v]
  show "\<forall>d \<in> set flds. definition_ok d" using r by simp
  have "sorted (map fn_name flds)" using r by simp
  then show "distinct (map fn_name flds)" using r sorted_distinct_adj by metis
qed

lemma authored_schema_wf:
  "NewFactorySchema input = Inr s \<Longrightarrow> \<exists>d. s = Some d \<and> schema_wf d"
  "NewTransformSchema input = Inr s \<Longrightarrow> \<exists>d. s = Some d \<and> schema_wf d"
  "NewExtensionSchema input = Inr s \<Longrightarrow> \<exists>d. s = Some d \<and> schema_wf d"
  using schema_validate_wf
  by (auto simp: NewFactorySchema_def NewTransformSchema_def NewExtensionSchema_def res_simps newSchema_def schema_wf_def)

subsection \<open>Go maps as association lists\<close>

lemma fold_update_map_of:
  "map_of (fold (\<lambda>d. AList.update (key d) (val d)) ds m) = map_of m ++ map_of (rev (map (\<lambda>d. (key d, val d)) ds))"
proof (induction ds arbitrary: m)
  case (Cons d ds)
  show ?case by (rule ext) (auto simp: Cons.IH update_conv' map_add_def split: option.splits)
qed simp

lemma fold_update_distinct:
  "distinct (map fst m) \<Longrightarrow> distinct (map fst (fold (\<lambda>d. AList.update (key d) (val d)) ds m))"
  by (induction ds arbitrary: m) (simp_all add: distinct_update)

lemma builder_for_definitions:
  assumes "distinct (map fn_name (sm_fields s))"
  shows "map_of (cb_definitions (builder_for (Some s))) n = Some d \<longleftrightarrow> d \<in> set (sm_fields s) \<and> fn_name d = n"
    and "distinct (map fst (cb_definitions (builder_for (Some s))))"
proof -
  let ?l = "map (\<lambda>d. (fn_name d, d)) (sm_fields s)"
  have defs: "map_of (cb_definitions (builder_for (Some s))) = map_of (rev ?l)"
    using fold_update_map_of [of fn_name "\<lambda>d. d" "sm_fields s" "[]"]
    by (simp add: builder_for_def newCanonicalBuilder_def schema_accessors)
  have dist: "distinct (map fst (rev ?l))" using assms by (simp add: comp_def rev_map [symmetric])
  show "map_of (cb_definitions (builder_for (Some s))) n = Some d \<longleftrightarrow> d \<in> set (sm_fields s) \<and> fn_name d = n"
    using map_of_eq_Some_iff [OF dist, of n d] defs by auto
  show "distinct (map fst (cb_definitions (builder_for (Some s))))"
    by (simp add: builder_for_def newCanonicalBuilder_def fold_update_distinct)
qed

subsection \<open>Calls on the core builder\<close>

datatype core_call = CallField IdentityField | CallObservation OperationalObservation | CallBind "IdentityField list"

definition staged_ok :: "IdentityField list \<Rightarrow> bool" where
  "staged_ok staged \<longleftrightarrow> distinct (map IdentityField_Name staged) \<and>
     (\<forall>f \<in> set staged. constructed_field f \<and> HasPrefix (IdentityField_Name f) ''extension.'' \<and> IdentityField_Kind f = IdentityFieldText)"

fun core_do :: "canonicalBuilder \<Rightarrow> core_call \<Rightarrow> canonicalBuilder \<Rightarrow> bool" where
  "core_do b (CallField f) b' \<longleftrightarrow> addIdentityField (Some b) f = Inr b'"
| "core_do b (CallObservation v) b' \<longleftrightarrow> addObservation (Some b) v = Inr b'"
| "core_do b (CallBind staged) b' \<longleftrightarrow> \<not> cb_sealed b \<and> staged_ok staged \<and> b' = bind_staged b staged"

inductive core_run :: "canonicalBuilder \<Rightarrow> core_call list \<Rightarrow> canonicalBuilder \<Rightarrow> bool" for b0 where
  core_start: "core_run b0 [] b0"
| core_step: "core_run b0 cs b \<Longrightarrow> core_do b c b' \<Longrightarrow> core_run b0 (cs @ [c]) b'"

fun is_bind :: "core_call \<Rightarrow> bool" where
  "is_bind (CallBind staged) = True"
| "is_bind c = False"

text \<open>The entries a call adds to the identity.\<close>

fun contributes :: "schemaData \<Rightarrow> core_call \<Rightarrow> (bytes \<times> canonicalIdentityField) set" where
  "contributes s (CallField f) = {(IdentityField_Name f, \<lparr>cif_field = f, cif_disclosure = fn_disclosure d\<rparr>) | d.
     d \<in> set (sm_fields s) \<and> fn_name d = IdentityField_Name f \<and> fn_role d = FieldRoleSemantic
     \<and> fn_kind d = IdentityField_Kind f}"
| "contributes s (CallObservation v) = {}"
| "contributes s (CallBind staged) = (\<lambda>f. (IdentityField_Name f, \<lparr>cif_field = f, cif_disclosure = DisclosurePublic\<rparr>)) ` set staged"

definition entries :: "canonicalBuilder \<Rightarrow> (bytes \<times> canonicalIdentityField) set" where
  "entries b = {(n, c). map_of (cb_fields b) n = Some c}"

text \<open>What every builder reached from a schema satisfies.\<close>

definition builder_inv :: "schemaData \<Rightarrow> core_call list \<Rightarrow> canonicalBuilder \<Rightarrow> bool" where
  "builder_inv s cs b \<longleftrightarrow> cb_provider b = sm_provider s \<and> cb_semanticKind b = sm_semanticKind s
     \<and> cb_identitySchema b = sm_identitySchema s \<and> cb_definitions b = cb_definitions (builder_for (Some s))
     \<and> \<not> cb_sealed b \<and> distinct (map fst (cb_fields b)) \<and> entries b = (\<Union>c \<in> set cs. contributes s c)"

lemma addIdentityField_Inr:
  "addIdentityField (Some b) f = Inr b' \<longleftrightarrow> \<not> cb_sealed b \<and> f \<noteq> None \<and> map_of (cb_fields b) (IdentityField_Name f) = None
     \<and> (\<exists>d. map_of (cb_definitions b) (IdentityField_Name f) = Some d \<and> fn_role d = FieldRoleSemantic
          \<and> fn_kind d = IdentityField_Kind f
          \<and> b' = b\<lparr>cb_fields := AList.update (IdentityField_Name f)
                    \<lparr>cif_field = f, cif_disclosure = fn_disclosure d\<rparr> (cb_fields b)\<rparr>)"
  by (auto simp: addIdentityField_def IdentityField_Valid_def split: option.splits if_splits)

lemma addObservation_Inr:
  "addObservation (Some b) v = Inr b' \<Longrightarrow> \<not> cb_sealed b \<and> b' = b\<lparr>cb_observations := cb_observations b @ [v]\<rparr>"
  by (auto simp: addObservation_def res_simps split: option.splits if_splits)

lemma entries_update: "map_of (cb_fields b) n = None \<Longrightarrow>
    entries (b\<lparr>cb_fields := AList.update n c (cb_fields b)\<rparr>) = insert (n, c) (entries b)"
  by (auto simp: entries_def update_conv' split: if_splits)

lemma entries_bind:
  assumes "staged_ok staged" and "\<forall>f \<in> set staged. map_of (cb_fields b) (IdentityField_Name f) = None"
  shows "entries (bind_staged b staged) = entries b \<union> contributes s (CallBind staged)"
proof -
  let ?val = "\<lambda>f. \<lparr>cif_field = f, cif_disclosure = DisclosurePublic\<rparr>"
  let ?l = "rev (map (\<lambda>f. (IdentityField_Name f, ?val f)) staged)"
  have m: "map_of (cb_fields (bind_staged b staged)) = map_of (cb_fields b) ++ map_of ?l"
    using fold_update_map_of [of IdentityField_Name ?val staged "cb_fields b"] by (simp add: bind_staged_def)
  have d: "distinct (map fst ?l)" using assms(1) by (simp add: staged_ok_def comp_def rev_map [symmetric])
  have l: "map_of ?l n = Some c \<longleftrightarrow> (n, c) \<in> contributes s (CallBind staged)" for n c
    using map_of_eq_Some_iff [OF d, of n c] by auto
  have fresh: "map_of ?l n = None" if old: "map_of (cb_fields b) n = Some c" for n c
  proof -
    have "n \<noteq> IdentityField_Name f" if "f \<in> set staged" for f using assms(2) that old by auto
    then show ?thesis unfolding map_of_eq_None_iff by fastforce
  qed
  have "map_of (cb_fields (bind_staged b staged)) n = Some c \<longleftrightarrow>
      map_of (cb_fields b) n = Some c \<or> (n, c) \<in> contributes s (CallBind staged)" for n c
    unfolding m map_add_Some_iff l using fresh [of n c] by auto
  then show ?thesis by (auto simp: entries_def)
qed

lemma core_run_inv:
  assumes "core_run (builder_for (Some s)) cs b" and "schema_wf s" and "length (filter is_bind cs) \<le> 1"
  shows "builder_inv s cs b"
  using assms(1,3)
proof (induction rule: core_run.induct)
  case core_start
  show ?case
    by (simp add: builder_inv_def builder_for_def newCanonicalBuilder_def schema_accessors entries_def)
next
  case (core_step cs b c b')
  have inv: "builder_inv s cs b" using core_step.IH core_step.prems by simp
  have dist: "distinct (map fn_name (sm_fields s))" using assms(2) by (simp add: schema_wf_def)
  note defs = builder_for_definitions(1) [OF dist]
  show ?case
  proof (cases c)
    case (CallField f)
    then obtain d where d: "map_of (cb_definitions b) (IdentityField_Name f) = Some d"
      and fresh: "map_of (cb_fields b) (IdentityField_Name f) = None"
      and d2: "fn_role d = FieldRoleSemantic" "fn_kind d = IdentityField_Kind f"
      and b': "b' = b\<lparr>cb_fields := AList.update (IdentityField_Name f) \<lparr>cif_field = f, cif_disclosure = fn_disclosure d\<rparr> (cb_fields b)\<rparr>"
      using core_step.hyps by (auto simp: addIdentityField_Inr)
    have sd: "map_of (cb_definitions (builder_for (Some s))) (IdentityField_Name f) = Some d"
      using d inv by (simp add: builder_inv_def)
    have only_d: "d' \<in> set (sm_fields s) \<and> fn_name d' = IdentityField_Name f \<longleftrightarrow> d' = d" for d'
      unfolding defs [symmetric] using sd by auto
    have "contributes s c = {(IdentityField_Name f, \<lparr>cif_field = f, cif_disclosure = fn_disclosure d\<rparr>)}"
    proof -
      have "d' \<in> set (sm_fields s) \<and> fn_name d' = IdentityField_Name f \<and> fn_role d' = FieldRoleSemantic
          \<and> fn_kind d' = IdentityField_Kind f \<longleftrightarrow> d' = d" for d'
        using only_d [of d'] d2 by auto
      then show ?thesis unfolding CallField contributes.simps by simp
    qed
    then show ?thesis
      using inv entries_update [OF fresh] by (simp add: builder_inv_def b' distinct_update)
  next
    case (CallObservation v)
    then show ?thesis
      using core_step.hyps inv by (auto simp: builder_inv_def entries_def dest!: addObservation_Inr)
  next
    case (CallBind staged)
    then have ok: "staged_ok staged" and b': "b' = bind_staged b staged" using core_step.hyps by simp_all
    have none: "\<not> is_bind x" if "x \<in> set cs" for x
      using that core_step.prems CallBind by (auto simp: filter_empty_conv)
    have "map_of (cb_fields b) (IdentityField_Name f) = None" if f: "f \<in> set staged" for f
    proof (rule ccontr)
      assume "map_of (cb_fields b) (IdentityField_Name f) \<noteq> None"
      then obtain x where "(IdentityField_Name f, x) \<in> entries b" by (auto simp: entries_def)
      then obtain y where y: "y \<in> set cs" "(IdentityField_Name f, x) \<in> contributes s y"
        using inv by (auto simp: builder_inv_def)
      then obtain d where "d \<in> set (sm_fields s)" "fn_name d = IdentityField_Name f"
        using none [OF y(1)] by (cases y rule: core_call.exhaust) auto
      then show False using assms(2) ok f by (auto simp: schema_wf_def definition_ok_def staged_ok_def)
    qed
    then have "entries b' = entries b \<union> contributes s c" using entries_bind [OF ok] b' CallBind by blast
    moreover have "distinct (map fst (cb_fields b'))"
      using inv by (simp add: b' bind_staged_def fold_update_distinct builder_inv_def)
    ultimately show ?thesis using inv by (auto simp: builder_inv_def b' bind_staged_def)
  qed
qed

lemma core_run_staged: "core_run b0 cs b \<Longrightarrow> CallBind staged \<in> set cs \<Longrightarrow> staged_ok staged"
  by (induction rule: core_run.induct) auto

subsection \<open>The identity that is built\<close>

definition field_names :: "canonicalIdentityData \<Rightarrow> bytes list" where
  "field_names d = map (\<lambda>c. IdentityField_Name (cif_field c)) (cid_fields d)"

text \<open>
  An identity conforms to a schema: it carries the schema's names, its fields are in strict
  name order, each is declared semantic with its kind and disclosure or is a public digest of a
  bound extension, and no required field is missing.
\<close>

definition conforms :: "schemaData \<Rightarrow> canonicalIdentityData \<Rightarrow> bool" where
  "conforms s d \<longleftrightarrow> cid_provider d = sm_provider s \<and> cid_semanticKind d = sm_semanticKind s
     \<and> cid_identitySchema d = sm_identitySchema s \<and> sorted_wrt (<) (field_names d)
     \<and> (\<forall>c \<in> set (cid_fields d). item_wf c \<and>
          ((\<exists>x \<in> set (sm_fields s). fn_name x = if_name (field_of c) \<and> fn_role x = FieldRoleSemantic
              \<and> fn_kind x = if_kind (field_of c) \<and> fn_disclosure x = cif_disclosure c)
           \<or> HasPrefix (if_name (field_of c)) ''extension.'' \<and> if_kind (field_of c) = IdentityFieldText
              \<and> cif_disclosure c = DisclosurePublic))
     \<and> (\<forall>x \<in> set (sm_fields s). fn_role x = FieldRoleSemantic \<and> fn_required x \<longrightarrow> fn_name x \<in> set (field_names d))"

definition calls_ok :: "core_call list \<Rightarrow> bool" where
  "calls_ok cs \<longleftrightarrow> (\<forall>f. CallField f \<in> set cs \<longrightarrow> constructed_field f)"

lemma check_required_Inr:
  "check_required b ds = Inr u \<longleftrightarrow>
     (\<forall>(n, d) \<in> set ds. fn_role d = FieldRoleSemantic \<and> fn_required d \<longrightarrow> map_of (cb_fields b) n \<noteq> None)"
  by (induction b ds rule: check_required.induct) auto

lemma builder_build_Inr:
  "builder_build (Some b) = Inr (d, obs, b') \<longleftrightarrow> \<not> cb_sealed b \<and> check_required b (cb_definitions b) = Inr ()
     \<and> obs = cb_observations b \<and> b' = b\<lparr>cb_sealed := True\<rparr>
     \<and> d = \<lparr>cid_provider = cb_provider b, cid_semanticKind = cb_semanticKind b, cid_identitySchema = cb_identitySchema b,
           cid_fields = map (\<lambda>n. the (map_of (cb_fields b) n)) (sort (map fst (cb_fields b)))\<rparr>"
  by (auto simp: builder_build_def res_simps Let_def)

definition entry_ok :: "schemaData \<Rightarrow> bytes \<Rightarrow> canonicalIdentityField \<Rightarrow> bool" where
  "entry_ok s n e \<longleftrightarrow> IdentityField_Name (cif_field e) = n \<and> item_wf e \<and>
     ((\<exists>x \<in> set (sm_fields s). fn_name x = n \<and> fn_role x = FieldRoleSemantic \<and> fn_kind x = if_kind (field_of e)
          \<and> fn_disclosure x = cif_disclosure e)
      \<or> HasPrefix n ''extension.'' \<and> if_kind (field_of e) = IdentityFieldText \<and> cif_disclosure e = DisclosurePublic)"

lemma contributes_ok:
  assumes "core_run (builder_for (Some s)) cs b" and "calls_ok cs" and "c \<in> set cs" and "(n, e) \<in> contributes s c"
  shows "entry_ok s n e"
proof (cases c)
  case (CallField f)
  then have f: "constructed_field f" using assms(2,3) by (auto simp: calls_ok_def)
  then obtain d where "f = Some d" "field_wf d" using constructed_field_wf by blast
  then show ?thesis using assms(4) CallField
    by (auto simp: entry_ok_def item_wf_def field_of_def IdentityField_Kind_def)
next
  case (CallObservation v)
  then show ?thesis using assms(4) by simp
next
  case (CallBind staged)
  then have ok: "staged_ok staged" using core_run_staged assms(1,3) by blast
  from assms(4) CallBind obtain f where f: "f \<in> set staged" "n = IdentityField_Name f"
    "e = \<lparr>cif_field = f, cif_disclosure = DisclosurePublic\<rparr>" by auto
  then obtain d where "f = Some d" "field_wf d" using constructed_field_wf ok by (auto simp: entry_ok_def staged_ok_def)
  then show ?thesis using f ok
    by (auto simp: entry_ok_def staged_ok_def item_wf_def field_of_def IdentityField_Kind_def)
qed

lemma built_conforms:
  assumes run: "core_run (builder_for (Some s)) cs b" and wf: "schema_wf s" and one: "length (filter is_bind cs) \<le> 1"
    and ok: "calls_ok cs" and built: "builder_build (Some b) = Inr (d, obs, b')"
  shows "conforms s d \<and> canonical_identity_wf d"
proof -
  have inv: "builder_inv s cs b" by (rule core_run_inv [OF run wf one])
  let ?ns = "sort (map fst (cb_fields b))" and ?c = "\<lambda>n. the (map_of (cb_fields b) n)"
  have d: "d = \<lparr>cid_provider = sm_provider s, cid_semanticKind = sm_semanticKind s,
      cid_identitySchema = sm_identitySchema s, cid_fields = map ?c ?ns\<rparr>"
    using built inv by (simp add: builder_build_Inr builder_inv_def)
  have entry: "(n, ?c n) \<in> entries b" if "n \<in> set ?ns" for n
    using that by (auto simp: entries_def) (metis (no_types) image_eqI fst_conv map_of_eq_None_iff not_None_eq option.sel)
  have each: "entry_ok s n (?c n)" if n: "n \<in> set ?ns" for n
  proof -
    have "(n, ?c n) \<in> (\<Union>x \<in> set cs. contributes s x)" using entry [OF n] inv by (simp add: builder_inv_def)
    then obtain x where "x \<in> set cs" "(n, ?c n) \<in> contributes s x" by blast
    then show ?thesis by (rule contributes_ok [OF run ok])
  qed
  have names: "field_names d = ?ns"
    unfolding field_names_def d by (simp add: comp_def) (rule map_idI, use each in \<open>auto simp: entry_ok_def\<close>)
  have dist: "distinct (map fst (cb_fields b))" using inv by (simp add: builder_inv_def)
  then have sorted: "sorted_wrt (<) (field_names d)" by (simp add: names strict_sorted_iff)
  have "fn_name x \<in> set (field_names d)"
    if x: "x \<in> set (sm_fields s)" "fn_role x = FieldRoleSemantic" "fn_required x" for x
  proof -
    have "map_of (cb_definitions b) (fn_name x) = Some x"
      using builder_for_definitions(1) [of s "fn_name x" x] wf x inv by (simp add: schema_wf_def builder_inv_def)
    then have "(fn_name x, x) \<in> set (cb_definitions b)" by (rule map_of_SomeD)
    then have "map_of (cb_fields b) (fn_name x) \<noteq> None"
      using built x by (auto simp: builder_build_Inr check_required_Inr)
    then show ?thesis by (simp add: names map_of_eq_None_iff)
  qed
  moreover have "item_wf c \<and> entry_ok s (if_name (field_of c)) c" if c: "c \<in> set (cid_fields d)" for c
  proof -
    obtain n where "n \<in> set ?ns" "c = ?c n" using c unfolding d by auto
    then have e: "entry_ok s n c" using each by blast
    then show ?thesis using item_accessors(2) [of c] by (auto simp: entry_ok_def)
  qed
  ultimately have "conforms s d"
    unfolding conforms_def using sorted by (auto simp: d entry_ok_def)
  moreover have "canonical_identity_wf d"
    using \<open>conforms s d\<close> wf sorted by (auto simp: conforms_def canonical_identity_wf_def schema_wf_def field_names_def)
  ultimately show ?thesis ..
qed

text \<open>The identity depends on the entries alone.\<close>

lemma built_unique:
  assumes "builder_inv s cs b" and "builder_inv s cs' e"
    and "(\<Union>c \<in> set cs. contributes s c) = (\<Union>c \<in> set cs'. contributes s c)"
    and "builder_build (Some b) = Inr (d, obs, b')" and "builder_build (Some e) = Inr (d', obs', e')"
  shows "d = d'"
proof -
  have same: "entries b = entries e" using assms(1-3) by (simp add: builder_inv_def)
  have maps: "map_of (cb_fields b) = map_of (cb_fields e)"
  proof
    fix n
    have each: "map_of (cb_fields b) n = Some c \<longleftrightarrow> map_of (cb_fields e) n = Some c" for c
      using same by (auto simp: entries_def set_eq_iff)
    show "map_of (cb_fields b) n = map_of (cb_fields e) n"
      using each by (metis option.exhaust)
  qed
  then have "set (map fst (cb_fields b)) = set (map fst (cb_fields e))"
    by (metis dom_map_of_conv_image_fst list.set_map)
  then have "sort (map fst (cb_fields b)) = sort (map fst (cb_fields e))"
    using assms(1,2) by (intro sorted_distinct_set_unique) (auto simp: builder_inv_def)
  then show ?thesis using assms maps by (simp add: builder_build_Inr builder_inv_def)
qed

end
