(* ===== verification/Identity_Composition.thy ===== *)
theory Identity_Composition
  imports Identity_Conformance
begin

text \<open>
  The factory, transform and extension builders as clients of the core builder, and the
  properties of what they compose.
\<close>

subsection \<open>Sequences of calls\<close>

fun run_calls :: "('b \<Rightarrow> 'c \<Rightarrow> 'b result) \<Rightarrow> 'b \<Rightarrow> 'c list \<Rightarrow> 'b result" where
  "run_calls perform b [] = Inr b"
| "run_calls perform b (c # cs) = res_bind (perform b c) (\<lambda>b'. run_calls perform b' cs)"

datatype factory_call =
    FactoryField IdentityField | FactoryObservation OperationalObservation | FactoryExtensions ResolvedFactoryExtensions

datatype transform_call =
    TransformField IdentityField | TransformObservation OperationalObservation | TransformExtensions ResolvedTransformExtensions

datatype extension_call = ExtensionField IdentityField | ExtensionObservation OperationalObservation

fun factory_do :: "FactoryIdentityBuilder \<Rightarrow> factory_call \<Rightarrow> FactoryIdentityBuilder result" where
  "factory_do b (FactoryField f) = Factory_AddIdentityField (Some b) f"
| "factory_do b (FactoryObservation v) = Factory_AddObservation (Some b) v"
| "factory_do b (FactoryExtensions x) = Factory_BindExtensions (Some b) x"

fun transform_do :: "TransformIdentityBuilder \<Rightarrow> transform_call \<Rightarrow> TransformIdentityBuilder result" where
  "transform_do b (TransformField f) = Transform_AddIdentityField (Some b) f"
| "transform_do b (TransformObservation v) = Transform_AddObservation (Some b) v"
| "transform_do b (TransformExtensions x) = Transform_BindExtensions (Some b) x"

fun extension_do :: "ExtensionIdentityBuilder \<Rightarrow> extension_call \<Rightarrow> ExtensionIdentityBuilder result" where
  "extension_do b (ExtensionField f) = Extension_AddIdentityField (Some b) f"
| "extension_do b (ExtensionObservation v) = Extension_AddObservation (Some b) v"

subsection \<open>The contract of a wrapper\<close>

text \<open>
  A wrapper owns a core builder; each of its calls is one core call, chosen by what never
  changes in the wrapper, and it binds extensions at most once.
\<close>

locale schema_builder =
  fixes core :: "'b \<Rightarrow> canonicalBuilder option" and perform :: "'b \<Rightarrow> 'c \<Rightarrow> 'b result"
    and core_of :: "'b \<Rightarrow> 'c \<Rightarrow> core_call" and bound :: "'b \<Rightarrow> bool"
  assumes perform_core: "perform b c = Inr b' \<Longrightarrow> core b = Some k \<Longrightarrow> \<exists>k'. core b' = Some k' \<and> core_do k (core_of b c) k'"
    and perform_static: "perform b c = Inr b' \<Longrightarrow> core_of b' = core_of b"
    and perform_bound: "perform b c = Inr b' \<Longrightarrow> bound b' \<longleftrightarrow> bound b \<or> is_bind (core_of b c)"
    and perform_bind: "perform b c = Inr b' \<Longrightarrow> is_bind (core_of b c) \<Longrightarrow> \<not> bound b"
begin

lemma run_core:
  "run_calls perform b cs = Inr b' \<Longrightarrow> core b = Some k \<Longrightarrow> core_run k0 ds k \<Longrightarrow> length (filter is_bind ds) = of_bool (bound b) \<Longrightarrow>
     \<exists>k'. core b' = Some k' \<and> core_run k0 (ds @ map (core_of b) cs) k'
       \<and> length (filter is_bind (ds @ map (core_of b) cs)) = of_bool (bound b')"
proof (induction cs arbitrary: b k ds)
  case (Cons c cs)
  from Cons.prems(1) obtain b1 where b1: "perform b c = Inr b1" and rest: "run_calls perform b1 cs = Inr b'"
    by (auto simp: res_simps)
  obtain k1 where k1: "core b1 = Some k1" "core_do k (core_of b c) k1"
    using perform_core [OF b1 Cons.prems(2)] by blast
  have run: "core_run k0 (ds @ [core_of b c]) k1" by (rule core_run.core_step [OF Cons.prems(3) k1(2)])
  have "length (filter is_bind (ds @ [core_of b c])) = of_bool (bound b1)"
    using Cons.prems(4) perform_bound [OF b1] perform_bind [OF b1] by auto
  from Cons.IH [OF rest k1(1) run this] show ?case using perform_static [OF b1] by simp
qed simp

lemma run_from_schema:
  assumes "run_calls perform b0 cs = Inr b" and "core b0 = Some (builder_for (Some s))" and "\<not> bound b0"
  obtains k where "core b = Some k" "core_run (builder_for (Some s)) (map (core_of b0) cs) k"
    "length (filter is_bind (map (core_of b0) cs)) \<le> 1"
proof -
  have "length (filter is_bind []) = of_bool (bound b0)" using assms(3) by simp
  from run_core [OF assms(1,2) core_run.core_start this] that show thesis by auto
qed

lemma built_conforms_schema:
  assumes "run_calls perform b0 cs = Inr b" and "core b0 = Some (builder_for (Some s))" and "\<not> bound b0"
    and "schema_wf s" and "calls_ok (map (core_of b0) cs)" and "builder_build (core b) = Inr (d, obs, k')"
  shows "conforms s d \<and> canonical_identity_wf d"
proof -
  obtain k where k: "core b = Some k" "core_run (builder_for (Some s)) (map (core_of b0) cs) k"
    "length (filter is_bind (map (core_of b0) cs)) \<le> 1" by (rule run_from_schema [OF assms(1-3)])
  from built_conforms [OF k(2) assms(4) k(3) assms(5)] assms(6) k(1) show ?thesis by simp
qed

lemma built_depends_on_contributions:
  assumes "run_calls perform b0 cs = Inr b" and "run_calls perform b0 cs' = Inr e"
    and "core b0 = Some (builder_for (Some s))" and "\<not> bound b0" and "schema_wf s"
    and "(\<Union>c \<in> set cs. contributes s (core_of b0 c)) = (\<Union>c \<in> set cs'. contributes s (core_of b0 c))"
    and "builder_build (core b) = Inr (d, obs, k)" and "builder_build (core e) = Inr (d', obs', k')"
  shows "d = d'"
proof -
  obtain x where x: "core b = Some x" "core_run (builder_for (Some s)) (map (core_of b0) cs) x"
    "length (filter is_bind (map (core_of b0) cs)) \<le> 1" by (rule run_from_schema [OF assms(1,3,4)])
  obtain y where y: "core e = Some y" "core_run (builder_for (Some s)) (map (core_of b0) cs') y"
    "length (filter is_bind (map (core_of b0) cs')) \<le> 1" by (rule run_from_schema [OF assms(2,3,4)])
  note inv = core_run_inv [OF x(2) assms(5) x(3)] core_run_inv [OF y(2) assms(5) y(3)]
  have contrib: "(\<Union>c \<in> set (map (core_of b0) cs). contributes s c) = (\<Union>c \<in> set (map (core_of b0) cs'). contributes s c)"
    using assms(6) by simp
  show ?thesis
    by (rule built_unique [OF inv contrib]) (use assms(7,8) x(1) y(1) in simp_all)
qed

end

subsection \<open>Staged extensions\<close>

lemma extensionIdentityField_Inr:
  assumes "extensionIdentityField name i = Inr f"
  shows "constructed_field f \<and> IdentityField_Name f = name \<and> IdentityField_Kind f = IdentityFieldText"
proof -
  obtain t where t: "NewTextIdentityField name t = Inr f"
    using assms by (auto simp: extensionIdentityField_def res_simps)
  then show ?thesis
    using constructed_field.text_field
    by (auto simp: NewTextIdentityField_def newIdentityField_Inr IdentityField_Name_def IdentityField_Kind_def split: if_splits)
qed

lemma stage_inputs_Inr:
  "stage_inputs k ds ids = Inr staged \<Longrightarrow> distinct (map IdentityField_Name staged) \<and>
     (\<forall>f \<in> set staged. constructed_field f \<and> IdentityField_Kind f = IdentityFieldText
        \<and> (\<exists>j \<ge> k. IdentityField_Name f = ''extension.input.'' @ itoa j))"
proof (induction k ds ids arbitrary: staged rule: stage_inputs.induct)
  case (1 k d ds i ids)
  from "1.prems" obtain f fs where f: "extensionIdentityField (''extension.input.'' @ itoa k) i = Inr f"
    and fs: "stage_inputs (Suc k) ds ids = Inr fs" and staged: "staged = f # fs"
    and ok: "validateCanonicalExtension d i (indexed ''extensions.inputs'' k) = Inr ()" by (auto simp: res_simps)
  note f' = extensionIdentityField_Inr [OF f] and IH = "1.IH" [OF ok f fs]
  have "IdentityField_Name f \<notin> set (map IdentityField_Name fs)" using IH f' by force
  then show ?case using IH f' staged Suc_leD by fastforce
qed auto

lemma stage_role_Inr:
  "stage_role role d i = Inr staged \<Longrightarrow>
     staged = [] \<or> (\<exists>f. staged = [f] \<and> constructed_field f \<and> IdentityField_Kind f = IdentityFieldText \<and> IdentityField_Name f = ''extension.'' @ role)"
  by (auto simp: stage_role_def res_simps dest!: extensionIdentityField_Inr split: if_splits option.splits)

lemma stage_names:
  "''extension.input.'' @ x \<noteq> ''extension.execution_environment''" "''extension.input.'' @ x \<noteq> ''extension.deployment''"
  "HasPrefix (''extension.input.'' @ x) ''extension.''" "HasPrefix ''extension.execution_environment'' ''extension.''"
  "HasPrefix ''extension.deployment'' ''extension.''"
  by (simp_all add: HasPrefix_def)

lemma staged_factory_ok:
  assumes a: "stage_inputs 0 ds ids = Inr ins" and b: "stage_role ''execution_environment'' d i = Inr env"
    and c: "stage_role ''deployment'' d' i' = Inr dep"
  shows "staged_ok (ins @ env @ dep)"
proof -
  note i = stage_inputs_Inr [OF a] and e = stage_role_Inr [OF b] and d = stage_role_Inr [OF c]
  have "distinct (map IdentityField_Name (ins @ env @ dep))"
    using i e d stage_names(1,2) by (auto simp: image_iff)
  moreover have "HasPrefix (IdentityField_Name f) ''extension.''" if "f \<in> set (ins @ env @ dep)" for f
    using that i e d stage_names(3-5) by (auto simp del: append.simps)
  ultimately show ?thesis using i e d by (auto simp: staged_ok_def)
qed

lemma staged_transform_ok:
  "stage_inputs 0 ds ids = Inr ins \<Longrightarrow> stage_role ''execution_environment'' d i = Inr env \<Longrightarrow> staged_ok (ins @ env)"
  using staged_factory_ok [of ds ids ins d i env None None "[]"] by (simp add: stage_role_def)

subsection \<open>The three wrappers\<close>

definition factory_staged :: "FactoryDeclaration \<Rightarrow> ResolvedFactoryExtensions \<Rightarrow> IdentityField list result" where
  "factory_staged d x =
     res_bind (stage_inputs 0 (fd_Inputs d) (rx_Inputs x)) (\<lambda>ins.
     res_bind (stage_role ''execution_environment'' (fd_ExecutionEnvironment d) (rx_ExecutionEnvironment x)) (\<lambda>env.
     res_bind (stage_role ''deployment'' (fd_Deployment d) (rx_Deployment x)) (\<lambda>dep. Inr (ins @ env @ dep))))"

definition transform_staged :: "TransformDeclaration \<Rightarrow> ResolvedTransformExtensions \<Rightarrow> IdentityField list result" where
  "transform_staged d x =
     res_bind (stage_inputs 0 (td_Inputs d) (rt_Inputs x)) (\<lambda>ins.
     res_bind (stage_role ''execution_environment'' (td_ExecutionEnvironment d) (rt_ExecutionEnvironment x)) (\<lambda>env. Inr (ins @ env)))"

definition staged_or_none :: "IdentityField list result \<Rightarrow> core_call" where
  "staged_or_none r = CallBind (case r of Inl _ \<Rightarrow> [] | Inr staged \<Rightarrow> staged)"

fun factory_core :: "FactoryIdentityBuilder \<Rightarrow> factory_call \<Rightarrow> core_call" where
  "factory_core b (FactoryField f) = CallField f"
| "factory_core b (FactoryObservation v) = CallObservation v"
| "factory_core b (FactoryExtensions x) = staged_or_none (factory_staged (fb_declaration b) x)"

fun transform_core :: "TransformIdentityBuilder \<Rightarrow> transform_call \<Rightarrow> core_call" where
  "transform_core b (TransformField f) = CallField f"
| "transform_core b (TransformObservation v) = CallObservation v"
| "transform_core b (TransformExtensions x) = staged_or_none (transform_staged (tb_declaration b) x)"

fun extension_core :: "ExtensionIdentityBuilder \<Rightarrow> extension_call \<Rightarrow> core_call" where
  "extension_core b (ExtensionField f) = CallField f"
| "extension_core b (ExtensionObservation v) = CallObservation v"

lemma Factory_BindExtensions_Inr:
  assumes "Factory_BindExtensions (Some b) x = Inr b'"
  obtains c staged where "fb_builder b = Some c" "\<not> cb_sealed c" "\<not> fb_extensions b"
    "factory_staged (fb_declaration b) x = Inr staged" "staged_ok staged"
    "b' = b\<lparr>fb_builder := Some (bind_staged c staged), fb_extensions := True\<rparr>"
proof -
  from assms obtain c ins env dep where "fb_builder b = Some c" "\<not> cb_sealed c" "\<not> fb_extensions b"
    and s: "stage_inputs 0 (fd_Inputs (fb_declaration b)) (rx_Inputs x) = Inr ins"
      "stage_role ''execution_environment'' (fd_ExecutionEnvironment (fb_declaration b)) (rx_ExecutionEnvironment x) = Inr env"
      "stage_role ''deployment'' (fd_Deployment (fb_declaration b)) (rx_Deployment x) = Inr dep"
    and "b' = b\<lparr>fb_builder := Some (bind_staged c (ins @ env @ dep)), fb_extensions := True\<rparr>"
    by (auto simp: Factory_BindExtensions_def res_simps split: option.splits if_splits)
  then show thesis using that staged_factory_ok [OF s] by (simp add: factory_staged_def)
qed

lemma Transform_BindExtensions_Inr:
  assumes "Transform_BindExtensions (Some b) x = Inr b'"
  obtains c staged where "tb_builder b = Some c" "\<not> cb_sealed c" "\<not> tb_extensions b"
    "transform_staged (tb_declaration b) x = Inr staged" "staged_ok staged"
    "b' = b\<lparr>tb_builder := Some (bind_staged c staged), tb_extensions := True\<rparr>"
proof -
  from assms obtain c ins env where "tb_builder b = Some c" "\<not> cb_sealed c" "\<not> tb_extensions b"
    and s: "stage_inputs 0 (td_Inputs (tb_declaration b)) (rt_Inputs x) = Inr ins"
      "stage_role ''execution_environment'' (td_ExecutionEnvironment (tb_declaration b)) (rt_ExecutionEnvironment x) = Inr env"
    and "b' = b\<lparr>tb_builder := Some (bind_staged c (ins @ env)), tb_extensions := True\<rparr>"
    by (auto simp: Transform_BindExtensions_def res_simps split: option.splits if_splits)
  then show thesis using that staged_transform_ok [OF s] by (simp add: transform_staged_def)
qed

interpretation factory: schema_builder fb_builder factory_do factory_core fb_extensions
proof
  fix b c b' assume run: "factory_do b c = Inr b'"
  show "fb_builder b = Some k \<Longrightarrow> \<exists>k'. fb_builder b' = Some k' \<and> core_do k (factory_core b c) k'" for k
    using run by (cases c)
      (auto simp: Factory_AddIdentityField_def Factory_AddObservation_def res_simps staged_or_none_def elim!: Factory_BindExtensions_Inr)
  have "fb_declaration b' = fb_declaration b"
    using run by (cases c)
      (auto simp: Factory_AddIdentityField_def Factory_AddObservation_def res_simps elim!: Factory_BindExtensions_Inr)
  then show "factory_core b' = factory_core b"
  proof -
    assume d: "fb_declaration b' = fb_declaration b"
    show ?thesis by (rule ext, rename_tac x, case_tac x) (simp_all add: d)
  qed
  show "fb_extensions b' \<longleftrightarrow> fb_extensions b \<or> is_bind (factory_core b c)"
    and "is_bind (factory_core b c) \<Longrightarrow> \<not> fb_extensions b"
    using run by (cases c; auto simp: Factory_AddIdentityField_def Factory_AddObservation_def res_simps staged_or_none_def
        elim!: Factory_BindExtensions_Inr)+
qed

interpretation transform: schema_builder tb_builder transform_do transform_core tb_extensions
proof
  fix b c b' assume run: "transform_do b c = Inr b'"
  show "tb_builder b = Some k \<Longrightarrow> \<exists>k'. tb_builder b' = Some k' \<and> core_do k (transform_core b c) k'" for k
    using run by (cases c)
      (auto simp: Transform_AddIdentityField_def Transform_AddObservation_def res_simps staged_or_none_def elim!: Transform_BindExtensions_Inr)
  have "tb_declaration b' = tb_declaration b"
    using run by (cases c)
      (auto simp: Transform_AddIdentityField_def Transform_AddObservation_def res_simps elim!: Transform_BindExtensions_Inr)
  then show "transform_core b' = transform_core b"
  proof -
    assume d: "tb_declaration b' = tb_declaration b"
    show ?thesis by (rule ext, rename_tac x, case_tac x) (simp_all add: d)
  qed
  show "tb_extensions b' \<longleftrightarrow> tb_extensions b \<or> is_bind (transform_core b c)"
    and "is_bind (transform_core b c) \<Longrightarrow> \<not> tb_extensions b"
    using run by (cases c; auto simp: Transform_AddIdentityField_def Transform_AddObservation_def res_simps staged_or_none_def
        elim!: Transform_BindExtensions_Inr)+
qed

interpretation extension: schema_builder xb_builder extension_do extension_core "\<lambda>_. False"
proof
  fix b c b' assume run: "extension_do b c = Inr b'"
  show "xb_builder b = Some k \<Longrightarrow> \<exists>k'. xb_builder b' = Some k' \<and> core_do k (extension_core b c) k'" for k
    using run by (cases c) (auto simp: Extension_AddIdentityField_def Extension_AddObservation_def res_simps)
  show "extension_core b' = extension_core b"
    by (rule ext, rename_tac x, case_tac x) simp_all
  show "False \<longleftrightarrow> False \<or> is_bind (extension_core b c)" and "is_bind (extension_core b c) \<Longrightarrow> \<not> False"
    by (cases c; simp)+
qed

subsection \<open>Compositions of factories\<close>

definition factory_calls_ok :: "factory_call list \<Rightarrow> bool" where
  "factory_calls_ok calls \<longleftrightarrow> (\<forall>f. FactoryField f \<in> set calls \<longrightarrow> constructed_field f)"

text \<open>
  A composition that an authored schema, a declaration and a sequence of calls led to; the last
  argument is the builder after \<^verbatim>\<open>Build\<close>.
\<close>

definition factory_built ::
    "SchemaInput \<Rightarrow> FactoryDeclaration \<Rightarrow> factory_call list \<Rightarrow> FactoryIdentityComposition \<Rightarrow> FactoryIdentityBuilder option \<Rightarrow> bool" where
  "factory_built input declaration calls composition after \<longleftrightarrow>
     (\<exists>schema b0 b. NewFactorySchema input = Inr schema \<and> NewFactoryIdentityBuilder schema declaration = Inr b0
        \<and> run_calls factory_do b0 calls = Inr b \<and> Factory_Build (Some b) = (Inr composition, after))"

lemma Factory_Build_Inr:
  assumes "Factory_Build (Some b) = (Inr composition, after)"
  obtains d k where "builder_build (fb_builder b) = Inr (d, fcm_observations composition, k)"
    "fcm_identity composition = Some d" "CanonicalFactoryFingerprint (Some d) = Inr (fcm_root composition)"
    "after = Some (b\<lparr>fb_builder := Some k\<rparr>)" "\<not> (factoryNeedsExtensions (fb_declaration b) \<and> \<not> fb_extensions b)"
  using assms by (auto simp: Factory_Build_def res_simps split: if_splits sum.splits)

lemma NewFactoryIdentityBuilder_Inr:
  assumes "NewFactoryIdentityBuilder schema declaration = Inr b0"
  shows "fb_builder b0 = Some (builder_for schema)" "\<not> fb_extensions b0"
  using assms by (auto simp: NewFactoryIdentityBuilder_def res_simps split: if_splits)

lemma factory_builtE:
  assumes "factory_built input declaration calls composition after"
  obtains s b0 b d k where "NewFactorySchema input = Inr (Some s)" "schema_wf s"
    "NewFactoryIdentityBuilder (Some s) declaration = Inr b0"
    "fb_builder b0 = Some (builder_for (Some s))" "\<not> fb_extensions b0" "run_calls factory_do b0 calls = Inr b"
    "builder_build (fb_builder b) = Inr (d, fcm_observations composition, k)" "fcm_identity composition = Some d"
    "CanonicalFactoryFingerprint (Some d) = Inr (fcm_root composition)" "after = Some (b\<lparr>fb_builder := Some k\<rparr>)"
    "\<not> (factoryNeedsExtensions (fb_declaration b) \<and> \<not> fb_extensions b)"
proof -
  obtain schema b0 b where schema: "NewFactorySchema input = Inr schema"
    and b0: "NewFactoryIdentityBuilder schema declaration = Inr b0"
    and b: "run_calls factory_do b0 calls = Inr b" "Factory_Build (Some b) = (Inr composition, after)"
    using assms by (auto simp: factory_built_def)
  obtain s where s: "schema = Some s" "schema_wf s" using authored_schema_wf(1) [OF schema] by blast
  obtain d k where dk: "builder_build (fb_builder b) = Inr (d, fcm_observations composition, k)"
    "fcm_identity composition = Some d" "CanonicalFactoryFingerprint (Some d) = Inr (fcm_root composition)"
    "after = Some (b\<lparr>fb_builder := Some k\<rparr>)" "\<not> (factoryNeedsExtensions (fb_declaration b) \<and> \<not> fb_extensions b)"
    by (rule Factory_Build_Inr [OF b(2)])
  show thesis
    by (rule that [OF schema [unfolded s(1)] s(2) b0 [unfolded s(1)]
          NewFactoryIdentityBuilder_Inr [OF b0 [unfolded s(1)]] b(1) dk])
qed

lemma factory_core_calls_ok: "factory_calls_ok calls \<Longrightarrow> calls_ok (map (factory_core b) calls)"
proof -
  assume ok: "factory_calls_ok calls"
  have "FactoryField f \<in> set calls" if f: "CallField f \<in> set (map (factory_core b) calls)" for f
  proof -
    obtain c where c: "c \<in> set calls" "factory_core b c = CallField f" using f by auto
    then show ?thesis by (cases c rule: factory_call.exhaust) (auto simp: staged_or_none_def)
  qed
  with ok show ?thesis by (auto simp: calls_ok_def factory_calls_ok_def)
qed

lemma factory_built_identity:
  assumes "factory_built input declaration calls composition after" and "factory_calls_ok calls"
  obtains s d where "NewFactorySchema input = Inr (Some s)" "fcm_identity composition = Some d" "conforms s d"
    "canonical_identity_wf d" "fcm_root composition = hashBytes (identity_preimage CanonicalFactoryStateDomain d)"
proof -
  obtain s b0 b d k where s: "NewFactorySchema input = Inr (Some s)" "schema_wf s"
    and b0: "fb_builder b0 = Some (builder_for (Some s))" "\<not> fb_extensions b0" and b: "run_calls factory_do b0 calls = Inr b"
    and d: "builder_build (fb_builder b) = Inr (d, fcm_observations composition, k)" "fcm_identity composition = Some d"
    and root: "CanonicalFactoryFingerprint (Some d) = Inr (fcm_root composition)"
    by (rule factory_builtE [OF assms(1)])
  have ok: "conforms s d \<and> canonical_identity_wf d"
    by (rule factory.built_conforms_schema [OF b b0 s(2) factory_core_calls_ok [OF assms(2)] d(1)])
  then have "fcm_root composition = hashBytes (identity_preimage CanonicalFactoryStateDomain d)"
    using root by (simp add: CanonicalFactoryFingerprint_def canonicalFingerprint_wf)
  with ok show thesis using that s(1) d(2) by blast
qed

text \<open>
  C15: every identity a factory builder returns conforms to the schema it was opened with: the
  schema's names, fields in strict name order, each declared semantic with exactly the declared kind
  and disclosure or the public digest of a bound extension, and no required field missing; the root it returns is
  the digest of the canonical bytes of that identity under the domain of factories; and a builder that has built
  refuses to build again.
\<close>

theorem factory_identity_conforms:
  assumes "factory_built input declaration calls composition after" and "factory_calls_ok calls"
  shows "(\<exists>s d. NewFactorySchema input = Inr (Some s) \<and> fcm_identity composition = Some d \<and> conforms s d
       \<and> fcm_root composition = hashBytes (identity_preimage CanonicalFactoryStateDomain d))
     \<and> fst (Factory_Build after) = Inl (canonicalInvalid CodeShapeInvalid ''builder'')"
proof
  show "\<exists>s d. NewFactorySchema input = Inr (Some s) \<and> fcm_identity composition = Some d \<and> conforms s d
      \<and> fcm_root composition = hashBytes (identity_preimage CanonicalFactoryStateDomain d)"
    by (rule factory_built_identity [OF assms]) blast
  obtain b d k where "builder_build (fb_builder b) = Inr (d, fcm_observations composition, k)"
    "after = Some (b\<lparr>fb_builder := Some k\<rparr>)" "\<not> (factoryNeedsExtensions (fb_declaration b) \<and> \<not> fb_extensions b)"
    by (rule factory_builtE [OF assms(1)])
  moreover from this obtain c where "fb_builder b = Some c" by (cases "fb_builder b") (auto simp: builder_build_def)
  ultimately show "fst (Factory_Build after) = Inl (canonicalInvalid CodeShapeInvalid ''builder'')"
    by (auto simp: Factory_Build_def builder_build_Inr) (simp_all add: builder_build_def)
qed

text \<open>
  C16: the id of a factory's root state determines the factory: two compositions with one root
  have the same provider, kind, schema and typed fields, name by name with their full
  values, or two of the byte strings hashed for them are a SHA-256 collision.
\<close>

theorem root_determines_factory:
  assumes "factory_built input declaration calls composition after" and "factory_calls_ok calls"
    and "factory_built input' declaration' calls' composition' after'" and "factory_calls_ok calls'"
    and "fcm_identity composition = Some d" and "fcm_identity composition' = Some e"
    and "length (cid_fields d) < 2 ^ 32" and "length (cid_fields e) < 2 ^ 32"
    and "fcm_root composition = fcm_root composition'"
  shows "same_identity d e \<or> collide (identity_hashed CanonicalFactoryStateDomain d) (identity_hashed CanonicalFactoryStateDomain e)"
proof -
  have d: "canonical_identity_wf d" "fcm_root composition = hashBytes (identity_preimage CanonicalFactoryStateDomain d)"
    by (rule factory_built_identity [OF assms(1,2)], use assms(5) in simp)+
  have e: "canonical_identity_wf e" "fcm_root composition' = hashBytes (identity_preimage CanonicalFactoryStateDomain e)"
    by (rule factory_built_identity [OF assms(3,4)], use assms(6) in simp)+
  have "fits64 CanonicalFactoryStateDomain" by (simp add: fits64_def CanonicalFactoryStateDomain_def)
  then show ?thesis using fingerprint_inject d e assms(7-9) by simp
qed

text \<open>
  C27: an identity does not depend on the order of the builder's calls, nor on observations:
  two sequences of calls with the same fields and extension bindings, in any order and mixed
  with any observations, build the same identity with the same root.
\<close>

definition is_observation :: "factory_call \<Rightarrow> bool" where
  "is_observation c \<longleftrightarrow> (\<exists>v. c = FactoryObservation v)"

theorem identity_ignores_order_and_observations:
  assumes "factory_built input declaration calls composition after"
    and "factory_built input declaration calls' composition' after'"
    and "set (filter (\<lambda>c. \<not> is_observation c) calls) = set (filter (\<lambda>c. \<not> is_observation c) calls')"
  shows "fcm_identity composition = fcm_identity composition' \<and> fcm_root composition = fcm_root composition'"
proof -
  obtain s b0 b d k where s: "NewFactorySchema input = Inr (Some s)" "schema_wf s"
    and new: "NewFactoryIdentityBuilder (Some s) declaration = Inr b0"
    and b0: "fb_builder b0 = Some (builder_for (Some s))" "\<not> fb_extensions b0" and b: "run_calls factory_do b0 calls = Inr b"
    and d: "builder_build (fb_builder b) = Inr (d, fcm_observations composition, k)" "fcm_identity composition = Some d"
    and root: "CanonicalFactoryFingerprint (Some d) = Inr (fcm_root composition)"
    by (rule factory_builtE [OF assms(1)])
  obtain s' c0 c e k' where s': "NewFactorySchema input = Inr (Some s')"
    and new': "NewFactoryIdentityBuilder (Some s') declaration = Inr c0" and c: "run_calls factory_do c0 calls' = Inr c"
    and e: "builder_build (fb_builder c) = Inr (e, fcm_observations composition', k')" "fcm_identity composition' = Some e"
    and root': "CanonicalFactoryFingerprint (Some e) = Inr (fcm_root composition')"
    by (rule factory_builtE [OF assms(2)])
  have "c0 = b0" using s(1) s' new new' by simp
  have "(\<Union>c \<in> set calls. contributes s (factory_core b0 c)) = (\<Union>c \<in> set (filter (\<lambda>c. \<not> is_observation c) calls). contributes s (factory_core b0 c))" for calls
    by (auto simp: is_observation_def)
  then have contrib: "(\<Union>c \<in> set calls. contributes s (factory_core b0 c)) = (\<Union>c \<in> set calls'. contributes s (factory_core b0 c))"
    using assms(3) by metis
  have "d = e"
    by (rule factory.built_depends_on_contributions [OF b c [unfolded \<open>c0 = b0\<close>] b0 s(2) contrib d(1) e(1)])
  then show ?thesis using d(2) e(2) root root' by simp
qed

subsection \<open>A small factory\<close>

definition ex_schema_input :: SchemaInput where
  "ex_schema_input = \<lparr>sn_Provider = ''docker'', sn_SemanticKind = ''image'', sn_IdentitySchema = ''docker.image'',
     sn_ObservationSchema = ''docker.seen'',
     sn_Fields = [\<lparr>fn_name = ''digest'', fn_role = FieldRoleSemantic, fn_kind = IdentityFieldText, fn_required = True,
                   fn_disclosure = DisclosurePublic\<rparr>,
                  \<lparr>fn_name = ''source'', fn_role = FieldRoleOperational, fn_kind = IdentityFieldText, fn_required = False,
                   fn_disclosure = DisclosurePublic\<rparr>]\<rparr>"

definition ex_field :: IdentityField where
  "ex_field = Some \<lparr>if_name = ''digest'', if_kind = IdentityFieldText, if_payload = ''abc'', if_text = ''abc'', if_value = None,
     if_reference = None, if_commitment = hashBytes (field_preimage ''digest'' identityFieldTextTag ''abc'')\<rparr>"

definition ex_observation :: OperationalObservation where
  "ex_observation = Some \<lparr>oo_owner = ''docker'', oo_semanticKind = ''image'', oo_observationSchema = ''docker.seen'',
     oo_fields = [(''source'', ''cache'')]\<rparr>"

lemma ex_field_constructed: "constructed_field ex_field"
  by (rule constructed_field.text_field [of "''digest''" "''abc''"])
    (simp add: NewTextIdentityField_def newIdentityField_Inr ex_field_def canonical_limits ValidString_ascii
      identifierPattern_def is_lower_alpha_def is_ident_byte_def in_range_def)

lemma ex_declaration_valid: "validateFactoryDeclaration sample_declaration = Inr ()"
proof -
  have "declaration_ok (factoryDeclarationWire sample_declaration)"
    by (simp add: declaration_ok_def factoryDeclarationWire_def sample_declaration_def text_ok_def attributes_ok_def
        limit_defs identifierPattern_def is_lower_alpha_def is_ident_byte_def in_range_def)
  moreover have "length (json_Marshal (declaration_json (factoryDeclarationWire sample_declaration))) \<le> MaxJSONBytes"
    by (simp add: declaration_json_def factoryDeclarationWire_def sample_declaration_def
        limit_defs json_string_def json_string_body_plain json_escape_def)
  ultimately show ?thesis by (simp add: validateFactoryDeclaration_Inr)
qed

lemma ex_schema: "NewFactorySchema ex_schema_input =
    Inr (newSchema ''docker'' ''image'' ''docker.image'' ''docker.seen'' (sn_Fields ex_schema_input))"
proof -
  have "sort_key fn_name (sn_Fields ex_schema_input) = sn_Fields ex_schema_input"
    by (rule sort_key_slice.srt_sorted_id) (simp add: ex_schema_input_def)
  then show ?thesis
    by (simp add: NewFactorySchema_def schema_validate_def)
      (simp add: ex_schema_input_def identifierPattern_def is_lower_alpha_def is_ident_byte_def in_range_def HasPrefix_def)
qed

definition ex_builder :: FactoryIdentityBuilder where
  "ex_builder = \<lparr>fb_builder = Some (builder_for (newSchema ''docker'' ''image'' ''docker.image'' ''docker.seen'' (sn_Fields ex_schema_input))),
     fb_declaration = sample_declaration, fb_extensions = False\<rparr>"

lemma ex_builder_new:
  "NewFactoryIdentityBuilder (newSchema ''docker'' ''image'' ''docker.image'' ''docker.seen'' (sn_Fields ex_schema_input)) sample_declaration
     = Inr ex_builder"
  unfolding NewFactoryIdentityBuilder_def ex_declaration_valid
  by (simp add: newSchema_def schema_Valid_def schema_accessors ex_builder_def sample_declaration_def)

lemma ex_runs:
  "\<exists>b. run_calls factory_do ex_builder [FactoryField ex_field] = Inr b \<and> (\<exists>c a. Factory_Build (Some b) = (Inr c, a))"
  "\<exists>b. run_calls factory_do ex_builder [FactoryObservation ex_observation, FactoryField ex_field] = Inr b
     \<and> (\<exists>c a. Factory_Build (Some b) = (Inr c, a))"
  by (simp_all add: ex_builder_def builder_for_def newCanonicalBuilder_def newSchema_def schema_accessors ex_schema_input_def
      Factory_AddIdentityField_def Factory_AddObservation_def addIdentityField_def addObservation_def ex_field_def ex_observation_def
      IdentityField_Valid_def IdentityField_Name_def IdentityField_Kind_def Factory_Build_def factoryNeedsExtensions_def
      sample_declaration_def builder_build_def Let_def CanonicalFactoryFingerprint_def canonicalFingerprint_def
      canonicalIdentityBytes_def canonicalTypedFieldSet_def IdentityField_Commitment_def)

lemma ex_built:
  "\<exists>c a. factory_built ex_schema_input sample_declaration [FactoryField ex_field] c a"
  "\<exists>c a. factory_built ex_schema_input sample_declaration [FactoryObservation ex_observation, FactoryField ex_field] c a"
  using ex_runs ex_schema ex_builder_new by (auto simp: factory_built_def)

theorem factory_identity_conforms_witness:
  "\<exists>c a s d. factory_built ex_schema_input sample_declaration [FactoryField ex_field] c a
     \<and> NewFactorySchema ex_schema_input = Inr (Some s) \<and> fcm_identity c = Some d \<and> conforms s d"
proof -
  obtain c a where built: "factory_built ex_schema_input sample_declaration [FactoryField ex_field] c a" using ex_built(1) by blast
  have "factory_calls_ok [FactoryField ex_field]" using ex_field_constructed by (simp add: factory_calls_ok_def)
  from factory_identity_conforms [OF built this] built show ?thesis by blast
qed

theorem identity_ignores_order_and_observations_witness:
  "\<exists>c a c' a'. factory_built ex_schema_input sample_declaration [FactoryField ex_field] c a
     \<and> factory_built ex_schema_input sample_declaration [FactoryObservation ex_observation, FactoryField ex_field] c' a'
     \<and> fcm_root c = fcm_root c'"
proof -
  obtain c a c' a' where built: "factory_built ex_schema_input sample_declaration [FactoryField ex_field] c a"
    "factory_built ex_schema_input sample_declaration [FactoryObservation ex_observation, FactoryField ex_field] c' a'"
    using ex_built by blast
  from identity_ignores_order_and_observations [OF built] built show ?thesis
    by (auto simp: is_observation_def)
qed

theorem root_determines_factory_witness:
  "\<exists>c a c' a' d e. factory_built ex_schema_input sample_declaration [FactoryField ex_field] c a
     \<and> factory_built ex_schema_input sample_declaration [FactoryField ex_field] c' a'
     \<and> fcm_identity c = Some d \<and> fcm_identity c' = Some e
     \<and> (same_identity d e \<or> collide (identity_hashed CanonicalFactoryStateDomain d) (identity_hashed CanonicalFactoryStateDomain e))"
proof -
  obtain c a where built: "factory_built ex_schema_input sample_declaration [FactoryField ex_field] c a" using ex_built(1) by blast
  have ok: "factory_calls_ok [FactoryField ex_field]" using ex_field_constructed by (simp add: factory_calls_ok_def)
  obtain b d k where b: "run_calls factory_do ex_builder [FactoryField ex_field] = Inr b"
    and d: "builder_build (fb_builder b) = Inr (d, fcm_observations c, k)" "fcm_identity c = Some d"
  proof (rule factory_builtE [OF built])
    fix s b0 b d k
    assume "NewFactorySchema ex_schema_input = Inr (Some s)" "NewFactoryIdentityBuilder (Some s) sample_declaration = Inr b0"
      and run: "run_calls factory_do b0 [FactoryField ex_field] = Inr b"
      and "builder_build (fb_builder b) = Inr (d, fcm_observations c, k)" "fcm_identity c = Some d"
    moreover have "b0 = ex_builder" using ex_schema ex_builder_new calculation(1,2) by simp
    ultimately show thesis using that by blast
  qed
  have "length (cid_fields d) < 2 ^ 32"
    using b d(1)
    by (auto simp: ex_builder_def builder_for_def newCanonicalBuilder_def newSchema_def schema_accessors ex_schema_input_def
      Factory_AddIdentityField_def addIdentityField_def ex_field_def IdentityField_Valid_def IdentityField_Name_def
      IdentityField_Kind_def builder_build_def Let_def split: if_splits)
  from root_determines_factory [OF built ok built ok d(2,2) this this refl] built d(2) show ?thesis by blast
qed

end
