(* ===== verification/Fingerprint_Envelope.thy ===== *)
theory Fingerprint_Envelope
  imports Identity_Composition Lineage
begin

text \<open>
  \<^verbatim>\<open>fingerprint_envelope_v1.go\<close> and \<^verbatim>\<open>canonical_lineage_v1.go\<close> of \<^verbatim>\<open>backend/libs/runtime-go\<close>: a
  fingerprint with the full subject it was computed from, its strict wire form, its
  explanations, and lineages of derived states.

  As in \<open>Lineage\<close>, decoders start from the outcome of \<^verbatim>\<open>decodeCanonicalStrict\<close> on a document.  The
  subject of an envelope is raw JSON that is outcome into one of three structs, so
  its model holds the outcome for each of them.
\<close>

subsection \<open>Descriptors and envelopes\<close>

definition CanonicalEnvelopeVersion :: bytes where
  "CanonicalEnvelopeVersion = ''sqlrs.runtime.fingerprint-envelope.v1''"

definition MaxCanonicalEnvelopeBytes :: nat where "MaxCanonicalEnvelopeBytes = 4194304"

definition CanonicalDerivedStateDomain :: bytes where
  "CanonicalDerivedStateDomain = ''sqlrs.runtime.v2.canonical.v1/state''"

definition FingerprintKindCanonicalValue :: bytes where "FingerprintKindCanonicalValue = ''canonical-value''"

definition FingerprintKindFactoryState :: bytes where "FingerprintKindFactoryState = ''factory-state''"

definition FingerprintKindTransform :: bytes where "FingerprintKindTransform = ''transform''"

definition FingerprintKindResolvedExtension :: bytes where "FingerprintKindResolvedExtension = ''resolved-extension''"

definition FingerprintKindDerivedState :: bytes where "FingerprintKindDerivedState = ''derived-state''"

lemmas fingerprint_kinds = FingerprintKindCanonicalValue_def FingerprintKindFactoryState_def FingerprintKindTransform_def
  FingerprintKindResolvedExtension_def FingerprintKindDerivedState_def

lemma kinds_differ [simp]:
  "FingerprintKindFactoryState \<noteq> FingerprintKindCanonicalValue" "FingerprintKindFactoryState \<noteq> FingerprintKindDerivedState"
  "FingerprintKindTransform \<noteq> FingerprintKindCanonicalValue" "FingerprintKindTransform \<noteq> FingerprintKindDerivedState"
  "FingerprintKindResolvedExtension \<noteq> FingerprintKindCanonicalValue" "FingerprintKindResolvedExtension \<noteq> FingerprintKindDerivedState"
  "FingerprintKindCanonicalValue \<noteq> FingerprintKindDerivedState" "FingerprintKindDerivedState \<noteq> FingerprintKindCanonicalValue"
  by (simp_all add: fingerprint_kinds)

record fingerprintDescriptorData =
  ds_kind :: bytes
  ds_domain :: bytes
  ds_digest :: bytes
  ds_provider :: bytes
  ds_semanticKind :: bytes
  ds_identitySchema :: bytes

datatype fingerprintEnvelopeData = EnvelopeData
  (en_descriptor: fingerprintDescriptorData) (en_value: CanonicalValue) (en_identity: "canonicalIdentityData option")
  (en_parent: bytes) (en_transform: "fingerprintEnvelopeData option")

type_synonym FingerprintEnvelope = "fingerprintEnvelopeData option"

definition NewCanonicalValueEnvelope :: "CanonicalValue \<Rightarrow> FingerprintEnvelope result" where
  "NewCanonicalValueEnvelope value =
     (if \<not> Valid value then Inl (canonicalInvalid CodeShapeInvalid ''subject'')
      else Inr (Some (EnvelopeData
        \<lparr>ds_kind = FingerprintKindCanonicalValue, ds_domain = CanonicalIdentityValueDomain,
         ds_digest = ''sha256:'' @ drop (length ''civ1:sha256:'') (Token_String (Token value)),
         ds_provider = [], ds_semanticKind = [], ds_identitySchema = []\<rparr> value None [] None)))"

definition newIdentityEnvelope :: "bytes \<Rightarrow> bytes \<Rightarrow> canonicalIdentityData option \<Rightarrow> FingerprintEnvelope result" where
  "newIdentityEnvelope kind domain_name identity =
     res_bind (canonicalFingerprint domain_name identity) (\<lambda>fingerprint.
     Inr (Some (EnvelopeData
       \<lparr>ds_kind = kind, ds_domain = domain_name, ds_digest = fingerprint, ds_provider = canonical_identity_Provider identity,
        ds_semanticKind = canonical_identity_Kind identity, ds_identitySchema = canonical_identity_IdentitySchema identity\<rparr>
       None identity [] None)))"

definition NewFactoryEnvelope :: "CanonicalFactoryIdentity \<Rightarrow> FingerprintEnvelope result" where
  "NewFactoryEnvelope = newIdentityEnvelope FingerprintKindFactoryState CanonicalFactoryStateDomain"

definition NewTransformEnvelope :: "CanonicalTransformIdentity \<Rightarrow> FingerprintEnvelope result" where
  "NewTransformEnvelope = newIdentityEnvelope FingerprintKindTransform CanonicalTransformDomain"

definition NewExtensionEnvelope :: "CanonicalResolvedExtensionIdentity \<Rightarrow> FingerprintEnvelope result" where
  "NewExtensionEnvelope = newIdentityEnvelope FingerprintKindResolvedExtension CanonicalResolvedExtensionDomain"

definition CanonicalDerivedStateBytes :: "bytes \<Rightarrow> FingerprintEnvelope \<Rightarrow> bytes result" where
  "CanonicalDerivedStateBytes parent transform =
     res_bind (res_canonicalize (parseDigest parent ''parent'')) (\<lambda>parentDigest.
      case transform of None \<Rightarrow> Inl (canonicalInvalid CodeDescriptorInvalid ''transform.descriptor.kind'')
      | Some t \<Rightarrow>
         if ds_kind (en_descriptor t) \<noteq> FingerprintKindTransform
         then Inl (canonicalInvalid CodeDescriptorInvalid ''transform.descriptor.kind'')
         else
          res_bind (res_canonicalize (parseDigest (ds_digest (en_descriptor t)) ''transform.descriptor.digest'')) (\<lambda>transformDigest.
          Inr (encodeRecord CanonicalDerivedStateDomain
            [\<lparr>cf_tag = 1, cf_payload = parentDigest\<rparr>, \<lparr>cf_tag = 2, cf_payload = transformDigest\<rparr>])))"

definition NewDerivedStateEnvelope :: "bytes \<Rightarrow> FingerprintEnvelope \<Rightarrow> FingerprintEnvelope result" where
  "NewDerivedStateEnvelope parent transform =
     res_bind (CanonicalDerivedStateBytes parent transform) (\<lambda>encoded.
     Inr (Some (EnvelopeData
       \<lparr>ds_kind = FingerprintKindDerivedState, ds_domain = CanonicalDerivedStateDomain, ds_digest = hashBytes encoded,
        ds_provider = [], ds_semanticKind = [], ds_identitySchema = []\<rparr>
       None None parent transform)))"

subsection \<open>The wire form\<close>

record descriptorWire =
  dw_EnvelopeVersion :: bytes
  dw_SchemaVersion :: bytes
  dw_FingerprintKind :: bytes
  dw_Domain :: bytes
  dw_Algorithm :: bytes
  dw_Digest :: bytes
  dw_Provider :: bytes
  dw_SemanticKind :: bytes
  dw_IdentitySchema :: bytes

record valueSubjectWire =
  vw_CanonicalHex :: bytes
  vw_Token :: bytes

record secretReferenceWire =
  zw_Provider :: bytes
  zw_Identifier :: bytes
  zw_Version :: bytes

record identityFieldWire =
  fw_Name :: bytes
  fw_Kind :: bytes
  fw_Disclosure :: bytes
  fw_Text :: "bytes option"
  fw_CanonicalHex :: bytes
  fw_Token :: bytes
  fw_Secret :: "secretReferenceWire option"
  fw_Commitment :: bytes

record identitySubjectWire =
  jw_Fields :: "identityFieldWire list option"

text \<open>A derived subject is its parent and the raw document of its transform.\<close>

datatype envelopeWire = EnvelopeWire (ew_Descriptor: descriptorWire) (ew_Subject: subjectRaw)
  and subjectRaw = SubjectAbsent | SubjectNull
  | SubjectDoc "valueSubjectWire result" "(bytes \<times> envelopeWire raw) result" "identitySubjectWire result"

definition descriptorToWire :: "fingerprintDescriptorData \<Rightarrow> descriptorWire" where
  "descriptorToWire d =
     \<lparr>dw_EnvelopeVersion = CanonicalEnvelopeVersion, dw_SchemaVersion = CanonicalSchemaVersion, dw_FingerprintKind = ds_kind d,
      dw_Domain = ds_domain d, dw_Algorithm = ''sha256'', dw_Digest = ds_digest d, dw_Provider = ds_provider d,
      dw_SemanticKind = ds_semanticKind d, dw_IdentitySchema = ds_identitySchema d\<rparr>"

definition secretToWire :: "SecretReference \<Rightarrow> secretReferenceWire" where
  "secretToWire r = \<lparr>zw_Provider = SecretReference_Provider r, zw_Identifier = SecretReference_Identifier r,
     zw_Version = SecretReference_Version r\<rparr>"

definition fieldToWire :: "canonicalIdentityField \<Rightarrow> identityFieldWire" where
  "fieldToWire item =
     (let field = cif_field item;
          wire = \<lparr>fw_Name = IdentityField_Name field, fw_Kind = IdentityField_Kind field, fw_Disclosure = cif_disclosure item,
                  fw_Text = None, fw_CanonicalHex = [], fw_Token = [], fw_Secret = None,
                  fw_Commitment = IdentityField_Commitment field\<rparr> in
      if IdentityField_Kind field = IdentityFieldText then wire\<lparr>fw_Text := Some (IdentityField_Text field)\<rparr>
      else if IdentityField_Kind field = IdentityFieldCanonicalValue
      then let v = IdentityField_CanonicalValue field in
           wire\<lparr>fw_CanonicalHex := hex_EncodeToString (CanonicalBytes v), fw_Token := Token_String (Token v)\<rparr>
      else if IdentityField_Kind field = IdentityFieldSecretReference
      then wire\<lparr>fw_Secret := Some (secretToWire (IdentityField_SecretReference field))\<rparr>
      else wire)"

text \<open>
  Decoding a document into the struct of another subject meets a member that struct does not
  have.  An identity envelope always holds its identity.
\<close>

fun envelope_to_wire :: "fingerprintEnvelopeData \<Rightarrow> envelopeWire result" where
  "envelope_to_wire (EnvelopeData descriptor val identity parent transform) =
     (if ds_kind descriptor = FingerprintKindCanonicalValue then
        Inr (EnvelopeWire (descriptorToWire descriptor) (SubjectDoc
          (Inr \<lparr>vw_CanonicalHex = hex_EncodeToString (CanonicalBytes val), vw_Token = Token_String (Token val)\<rparr>)
          (Inl (canonicalInvalid CodeUnknownMember ''canonical_hex'')) (Inl (canonicalInvalid CodeUnknownMember ''canonical_hex''))))
      else if ds_kind descriptor = FingerprintKindDerivedState then
        (case transform of None \<Rightarrow> Inl (canonicalInvalid CodeShapeInvalid ''$'')
         | Some t \<Rightarrow>
            res_bind (envelope_to_wire t) (\<lambda>w.
            Inr (EnvelopeWire (descriptorToWire descriptor) (SubjectDoc
              (Inl (canonicalInvalid CodeUnknownMember ''parent'')) (Inr (parent, RawDoc (Inr w)))
              (Inl (canonicalInvalid CodeUnknownMember ''parent''))))))
      else
        Inr (EnvelopeWire (descriptorToWire descriptor) (SubjectDoc
          (Inl (canonicalInvalid CodeUnknownMember ''fields'')) (Inl (canonicalInvalid CodeUnknownMember ''fields''))
          (Inr \<lparr>jw_Fields = Some (map fieldToWire (canonical_identity_Fields identity))\<rparr>))))"

definition Envelope_MarshalJSON :: "FingerprintEnvelope \<Rightarrow> envelopeWire result" where
  "Envelope_MarshalJSON e =
     (case e of None \<Rightarrow> Inl (canonicalInvalid CodeShapeInvalid ''$'') | Some d \<Rightarrow> envelope_to_wire d)"

definition expectedDomain :: "bytes \<Rightarrow> bytes" where
  "expectedDomain kind =
     (if kind = FingerprintKindCanonicalValue then CanonicalIdentityValueDomain
      else if kind = FingerprintKindFactoryState then CanonicalFactoryStateDomain
      else if kind = FingerprintKindTransform then CanonicalTransformDomain
      else if kind = FingerprintKindResolvedExtension then CanonicalResolvedExtensionDomain
      else if kind = FingerprintKindDerivedState then CanonicalDerivedStateDomain
      else [])"

definition validateDescriptor :: "descriptorWire \<Rightarrow> unit result" where
  "validateDescriptor wire =
     (if dw_EnvelopeVersion wire \<noteq> CanonicalEnvelopeVersion \<or> dw_SchemaVersion wire \<noteq> CanonicalSchemaVersion
      then Inl (canonicalInvalid CodeRevisionMismatch ''descriptor.schema_version'')
      else if dw_Algorithm wire \<noteq> ''sha256'' \<or> expectedDomain (dw_FingerprintKind wire) = []
              \<or> dw_Domain wire \<noteq> expectedDomain (dw_FingerprintKind wire)
      then Inl (canonicalInvalid CodeDescriptorInvalid ''descriptor'')
      else if \<not> is_ok (parseDigest (dw_Digest wire) ''descriptor.digest'')
      then Inl (canonicalInvalid CodeDescriptorInvalid ''descriptor.digest'')
      else if dw_FingerprintKind wire = FingerprintKindFactoryState \<or> dw_FingerprintKind wire = FingerprintKindTransform
              \<or> dw_FingerprintKind wire = FingerprintKindResolvedExtension
      then if \<not> is_ok (validateIdentifier (dw_Provider wire) ''descriptor.provider'')
              \<or> \<not> is_ok (validateIdentifier (dw_SemanticKind wire) ''descriptor.semantic_kind'')
              \<or> \<not> is_ok (validateIdentifier (dw_IdentitySchema wire) ''descriptor.identity_schema'')
           then Inl (canonicalInvalid CodeDescriptorInvalid ''descriptor'')
           else Inr ()
      else if dw_Provider wire \<noteq> [] \<or> dw_SemanticKind wire \<noteq> [] \<or> dw_IdentitySchema wire \<noteq> []
      then Inl (canonicalInvalid CodeDescriptorInvalid ''descriptor'')
      else Inr ())"

definition decode_value_field :: "identityFieldWire \<Rightarrow> bytes \<Rightarrow> IdentityField result" where
  "decode_value_field wire path =
     (case hex_DecodeString (fw_CanonicalHex wire) of
        None \<Rightarrow> Inl (canonicalInvalid CodeShapeInvalid (path @ ''.canonical_hex''))
      | Some raw \<Rightarrow>
         res_bind (res_prefix (path @ ''.canonical_hex'') (ParseCanonicalValueEnvelope raw)) (\<lambda>v.
         if Token_String (Token v) \<noteq> fw_Token wire then Inl (canonicalInvalid CodeCommitmentMismatch (path @ ''.token''))
         else res_prefix path (NewCanonicalValueIdentityField (fw_Name wire) v)))"

definition decodeIdentityField :: "identityFieldWire \<Rightarrow> nat \<Rightarrow> canonicalIdentityField result" where
  "decodeIdentityField wire index =
     (let path = indexed ''subject.fields'' index in
      res_bind
        (if fw_Kind wire = IdentityFieldText then
           (case fw_Text wire of None \<Rightarrow> Inl (canonicalInvalid CodeShapeInvalid path)
            | Some txt \<Rightarrow>
               if fw_CanonicalHex wire \<noteq> [] \<or> fw_Token wire \<noteq> [] \<or> fw_Secret wire \<noteq> None
               then Inl (canonicalInvalid CodeShapeInvalid path)
               else res_prefix path (NewTextIdentityField (fw_Name wire) txt))
         else if fw_Kind wire = IdentityFieldCanonicalValue then
           (if fw_Text wire \<noteq> None \<or> fw_CanonicalHex wire = [] \<or> fw_Token wire = [] \<or> fw_Secret wire \<noteq> None
            then Inl (canonicalInvalid CodeShapeInvalid path)
            else decode_value_field wire path)
         else if fw_Kind wire = IdentityFieldSecretReference then
           (case fw_Secret wire of None \<Rightarrow> Inl (canonicalInvalid CodeShapeInvalid path)
            | Some z \<Rightarrow>
               if fw_Text wire \<noteq> None \<or> fw_CanonicalHex wire \<noteq> [] \<or> fw_Token wire \<noteq> []
               then Inl (canonicalInvalid CodeShapeInvalid path)
               else
                res_bind (res_prefix (path @ ''.secret_reference'')
                   (NewSecretReference (zw_Provider z) (zw_Identifier z) (zw_Version z))) (\<lambda>reference.
                res_prefix path (NewSecretReferenceIdentityField (fw_Name wire) reference)))
         else Inl (canonicalInvalid CodeShapeInvalid (path @ ''.kind''))) (\<lambda>field.
      if IdentityField_Commitment field \<noteq> fw_Commitment wire
      then Inl (canonicalInvalid CodeCommitmentMismatch (path @ ''.commitment''))
      else if fw_Disclosure wire \<noteq> DisclosurePublic \<and> fw_Disclosure wire \<noteq> DisclosureProtected
      then Inl (canonicalInvalid CodeShapeInvalid (path @ ''.disclosure''))
      else Inr \<lparr>cif_field = field, cif_disclosure = fw_Disclosure wire\<rparr>))"

fun decode_fields :: "nat \<Rightarrow> bytes option \<Rightarrow> identityFieldWire list \<Rightarrow> canonicalIdentityField list result" where
  "decode_fields index previous [] = Inr []"
| "decode_fields index previous (wire # rest) =
     res_bind (decodeIdentityField wire index) (\<lambda>field.
      if (case previous of None \<Rightarrow> False | Some p \<Rightarrow> IdentityField_Name (cif_field field) \<le> p)
      then Inl (canonicalInvalid CodeNonCanonical (indexed ''subject.fields'' index @ ''.name''))
      else res_bind (decode_fields (Suc index) (Some (IdentityField_Name (cif_field field))) rest) (\<lambda>fs. Inr (field # fs)))"

text \<open>The three subjects.\<close>

definition descriptor_of :: "descriptorWire \<Rightarrow> fingerprintDescriptorData" where
  "descriptor_of w = \<lparr>ds_kind = dw_FingerprintKind w, ds_domain = dw_Domain w, ds_digest = dw_Digest w,
     ds_provider = dw_Provider w, ds_semanticKind = dw_SemanticKind w, ds_identitySchema = dw_IdentitySchema w\<rparr>"

definition decode_value_subject :: "descriptorWire \<Rightarrow> valueSubjectWire result \<Rightarrow> fingerprintEnvelopeData result" where
  "decode_value_subject descriptor outcome =
     res_bind (res_prefix ''subject'' outcome) (\<lambda>subject.
      case hex_DecodeString (vw_CanonicalHex subject) of
        None \<Rightarrow> Inl (canonicalInvalid CodeShapeInvalid ''subject.canonical_hex'')
      | Some encoded \<Rightarrow>
         res_bind (res_prefix ''subject.canonical_hex'' (ParseCanonicalValueEnvelope encoded)) (\<lambda>v.
         if Token_String (Token v) \<noteq> vw_Token subject then Inl (canonicalInvalid CodeCommitmentMismatch ''subject.token'')
         else if ''sha256:'' @ drop (length ''civ1:sha256:'') (vw_Token subject) \<noteq> dw_Digest descriptor
         then Inl (canonicalInvalid CodeDigestMismatch ''descriptor.digest'')
         else Inr (EnvelopeData (descriptor_of descriptor) v None [] None)))"

definition decode_identity_subject :: "descriptorWire \<Rightarrow> identitySubjectWire result \<Rightarrow> fingerprintEnvelopeData result" where
  "decode_identity_subject descriptor outcome =
     res_bind (res_prefix ''subject'' outcome) (\<lambda>subject.
      case jw_Fields subject of None \<Rightarrow> Inl (canonicalInvalid CodeShapeInvalid ''subject.fields'')
      | Some wires \<Rightarrow>
         res_bind (decode_fields 0 None wires) (\<lambda>flds.
         let identity = \<lparr>cid_provider = dw_Provider descriptor, cid_semanticKind = dw_SemanticKind descriptor,
                         cid_identitySchema = dw_IdentitySchema descriptor, cid_fields = flds\<rparr> in
         res_bind (canonicalFingerprint (dw_Domain descriptor) (Some identity)) (\<lambda>fingerprint.
         if fingerprint \<noteq> dw_Digest descriptor then Inl (canonicalInvalid CodeDigestMismatch ''descriptor.digest'')
         else Inr (EnvelopeData (descriptor_of descriptor) None (Some identity) [] None))))"

definition check_derived_subject :: "descriptorWire \<Rightarrow> bytes \<Rightarrow> fingerprintEnvelopeData \<Rightarrow> fingerprintEnvelopeData result" where
  "check_derived_subject descriptor parent transform =
     res_bind (res_prefix ''subject'' (CanonicalDerivedStateBytes parent (Some transform))) (\<lambda>encoded.
     if hashBytes encoded \<noteq> dw_Digest descriptor then Inl (canonicalInvalid CodeDigestMismatch ''descriptor.digest'')
     else Inr (EnvelopeData (descriptor_of descriptor) None None parent (Some transform)))"

fun envelope_from_wire :: "envelopeWire \<Rightarrow> fingerprintEnvelopeData result" where
  "envelope_from_wire (EnvelopeWire descriptor subject) =
     (case subject of
        SubjectAbsent \<Rightarrow> Inl (canonicalInvalid CodeShapeInvalid ''subject'')
      | SubjectNull \<Rightarrow> Inl (canonicalInvalid CodeShapeInvalid ''subject'')
      | SubjectDoc as_value as_derived as_identity \<Rightarrow>
         res_bind (validateDescriptor descriptor) (\<lambda>_.
          if dw_FingerprintKind descriptor = FingerprintKindCanonicalValue then decode_value_subject descriptor as_value
          else if dw_FingerprintKind descriptor = FingerprintKindDerivedState then
            (case as_derived of Inl e \<Rightarrow> Inl (prefixError e ''subject'')
             | Inr (parent, nested) \<Rightarrow>
                (case nested of
                   RawAbsent \<Rightarrow> Inl (canonicalInvalid CodeShapeInvalid ''subject.transform'')
                 | RawNull \<Rightarrow> Inl (canonicalInvalid CodeShapeInvalid ''subject.transform'')
                 | RawDoc outcome \<Rightarrow>
                    (case outcome of Inl e \<Rightarrow> Inl (prefixError e ''subject.transform'')
                     | Inr w \<Rightarrow>
                        res_bind (res_prefix ''subject.transform'' (envelope_from_wire w)) (\<lambda>transform.
                        check_derived_subject descriptor parent transform))))
          else decode_identity_subject descriptor as_identity))"

text \<open>
  A document is its size in bytes and the outcome of decoding it.  The checks on the size of a
  nested document follow from the one on the document around it.
\<close>

definition decode_envelope :: "envelopeWire result \<Rightarrow> FingerprintEnvelope result" where
  "decode_envelope outcome = res_bind outcome (\<lambda>wire. res_map Some (envelope_from_wire wire))"

definition Envelope_UnmarshalJSON :: "nat \<Rightarrow> envelopeWire result \<Rightarrow> FingerprintEnvelope result" where
  "Envelope_UnmarshalJSON doc_size outcome =
     (if MaxCanonicalEnvelopeBytes < doc_size then Inl (canonicalInvalid CodeDocumentTooLarge [])
      else decode_envelope outcome)"

subsection \<open>Explanations\<close>

record explanationFieldWire =
  ex_Name :: bytes
  ex_Kind :: bytes
  ex_Redacted :: bool
  ex_Text :: "bytes option"
  ex_CanonicalHex :: bytes
  ex_Secret :: "secretReferenceWire option"
  ex_Commitment :: bytes

record explanationWire =
  ew_Profile :: bytes
  ew_ExplainedDescriptor :: descriptorWire
  ew_Fields :: "explanationFieldWire list"

type_synonym FingerprintExplanation = "explanationWire option"

definition explain_field :: "bool \<Rightarrow> canonicalIdentityField \<Rightarrow> explanationFieldWire" where
  "explain_field internal item =
     (let field = cif_field item;
          out = \<lparr>ex_Name = IdentityField_Name field, ex_Kind = IdentityField_Kind field, ex_Redacted = False, ex_Text = None,
                 ex_CanonicalHex = [], ex_Secret = None, ex_Commitment = []\<rparr> in
      if \<not> internal \<and> (cif_disclosure item = DisclosureProtected \<or> IdentityField_Kind field = IdentityFieldSecretReference)
      then out\<lparr>ex_Redacted := True\<rparr>
      else
       let shown = out\<lparr>ex_Commitment := IdentityField_Commitment field\<rparr> in
       if IdentityField_Kind field = IdentityFieldText then shown\<lparr>ex_Text := Some (IdentityField_Text field)\<rparr>
       else if IdentityField_Kind field = IdentityFieldCanonicalValue
       then shown\<lparr>ex_CanonicalHex := hex_EncodeToString (CanonicalBytes (IdentityField_CanonicalValue field))\<rparr>
       else if IdentityField_Kind field = IdentityFieldSecretReference
       then shown\<lparr>ex_Secret := Some (secretToWire (IdentityField_SecretReference field))\<rparr>
       else shown)"

definition explain :: "FingerprintEnvelope \<Rightarrow> bool \<Rightarrow> FingerprintExplanation result" where
  "explain envelope internal =
     (case envelope of None \<Rightarrow> Inl (canonicalInvalid CodeShapeInvalid ''envelope'')
      | Some d \<Rightarrow>
         Inr (Some \<lparr>ew_Profile = (if internal then ''internal'' else ''safe''),
                    ew_ExplainedDescriptor = descriptorToWire (en_descriptor d),
                    ew_Fields = (case en_identity d of None \<Rightarrow> [] | Some i \<Rightarrow> map (explain_field internal) (cid_fields i))\<rparr>))"

definition ExplainSafe :: "FingerprintEnvelope \<Rightarrow> FingerprintExplanation result" where
  "ExplainSafe envelope = explain envelope False"

text \<open>
  The context (is it there and live, before and after the authorizer ran) and the authorizer's
  answer are arguments; \<open>None\<close> is a missing authorizer.
\<close>

definition ExplainInternal :: "bool \<Rightarrow> bool option \<Rightarrow> bool \<Rightarrow> FingerprintEnvelope \<Rightarrow> FingerprintExplanation result" where
  "ExplainInternal live authorizer still_live envelope =
     (if \<not> live \<or> authorizer = None then Inl (canonicalInvalid CodeAuthorizationDenied [])
      else if authorizer \<noteq> Some True then Inl (canonicalInvalid CodeAuthorizationDenied [])
      else if \<not> still_live then Inl (canonicalInvalid CodeAuthorizationDenied [])
      else explain envelope True)"

subsection \<open>Lineages (canonical\_lineage\_v1.go)\<close>

text \<open>The JSON text \<^verbatim>\<open>json.Marshal\<close> writes for an envelope; empty members are omitted.\<close>

definition omit_empty :: "bytes \<Rightarrow> bytes \<Rightarrow> (bytes \<times> json) list" where
  "omit_empty name s = (if s = [] then [] else [(name, JString s)])"

definition descriptor_json :: "descriptorWire \<Rightarrow> json" where
  "descriptor_json w = JObject ([(''envelope_version'', JString (dw_EnvelopeVersion w)), (''schema_version'', JString (dw_SchemaVersion w)),
     (''kind'', JString (dw_FingerprintKind w)), (''domain'', JString (dw_Domain w)), (''algorithm'', JString (dw_Algorithm w)),
     (''digest'', JString (dw_Digest w))] @ omit_empty ''provider'' (dw_Provider w) @ omit_empty ''semantic_kind'' (dw_SemanticKind w)
     @ omit_empty ''identity_schema'' (dw_IdentitySchema w))"

definition identity_field_json :: "identityFieldWire \<Rightarrow> json" where
  "identity_field_json w = JObject ([(''name'', JString (fw_Name w)), (''kind'', JString (fw_Kind w)), (''disclosure'', JString (fw_Disclosure w))]
     @ (case fw_Text w of None \<Rightarrow> [] | Some t \<Rightarrow> [(''text'', JString t)])
     @ omit_empty ''canonical_hex'' (fw_CanonicalHex w) @ omit_empty ''token'' (fw_Token w)
     @ (case fw_Secret w of None \<Rightarrow> [] | Some z \<Rightarrow> [(''secret_reference'', JObject [(''provider'', JString (zw_Provider z)),
          (''identifier'', JString (zw_Identifier z)), (''version'', JString (zw_Version z))])])
     @ [(''commitment'', JString (fw_Commitment w))])"

fun envelope_json :: "fingerprintEnvelopeData \<Rightarrow> json" where
  "envelope_json (EnvelopeData descriptor val identity parent transform) =
     JObject [(''descriptor'', descriptor_json (descriptorToWire descriptor)),
       (''subject'',
         if ds_kind descriptor = FingerprintKindCanonicalValue
         then JObject [(''canonical_hex'', JString (hex_EncodeToString (CanonicalBytes val))), (''token'', JString (Token_String (Token val)))]
         else if ds_kind descriptor = FingerprintKindDerivedState
         then JObject ((''parent'', JString parent) # (case transform of None \<Rightarrow> [] | Some t \<Rightarrow> [(''transform'', envelope_json t)]))
         else JObject [(''fields'', JArray (map (identity_field_json \<circ> fieldToWire) (canonical_identity_Fields identity)))])]"

definition envelope_bytes :: "fingerprintEnvelopeData \<Rightarrow> nat" where
  "envelope_bytes e = length (json_Marshal (envelope_json e))"

definition cloneEnvelope :: "FingerprintEnvelope \<Rightarrow> FingerprintEnvelope" where
  "cloneEnvelope source =
     (case source of None \<Rightarrow> None
      | Some d \<Rightarrow>
         (case envelope_to_wire d of Inl _ \<Rightarrow> None
          | Inr wire \<Rightarrow> (case Envelope_UnmarshalJSON (envelope_bytes d) (Inr wire) of Inl _ \<Rightarrow> None | Inr e \<Rightarrow> e)))"

record canonicalLineageData =
  cl_anchor :: FingerprintEnvelope
  cl_steps :: "FingerprintEnvelope list"

type_synonym CanonicalRecipeEnvelope = "canonicalLineageData option"
type_synonym CanonicalRelativeEnvelope = "canonicalLineageData option"

definition envelope_digest :: "FingerprintEnvelope \<Rightarrow> bytes" where
  "envelope_digest e = (case e of None \<Rightarrow> [] | Some d \<Rightarrow> ds_digest (en_descriptor d))"

fun derive_envelopes :: "nat \<Rightarrow> bytes \<Rightarrow> FingerprintEnvelope list \<Rightarrow> FingerprintEnvelope list result" where
  "derive_envelopes index parent [] = Inr []"
| "derive_envelopes index parent (transform # rest) =
     res_bind (res_prefix (indexed ''transforms'' index) (NewDerivedStateEnvelope parent transform)) (\<lambda>derived.
     res_bind (derive_envelopes (Suc index) (envelope_digest derived) rest) (\<lambda>steps. Inr (derived # steps)))"

definition buildCanonicalLineage :: "FingerprintEnvelope \<Rightarrow> FingerprintEnvelope list \<Rightarrow> bool \<Rightarrow> canonicalLineageData result" where
  "buildCanonicalLineage anchor transforms recipe =
     (case anchor of None \<Rightarrow> Inl (canonicalInvalid CodeShapeInvalid ''anchor'')
      | Some a \<Rightarrow>
         if recipe \<and> ds_kind (en_descriptor a) \<noteq> FingerprintKindFactoryState
         then Inl (canonicalInvalid CodeDescriptorInvalid ''root.descriptor.kind'')
         else if \<not> recipe \<and> ds_kind (en_descriptor a) \<noteq> FingerprintKindFactoryState
                 \<and> ds_kind (en_descriptor a) \<noteq> FingerprintKindDerivedState
         then Inl (canonicalInvalid CodeDescriptorInvalid ''anchor.descriptor.kind'')
         else
          res_bind (derive_envelopes 0 (envelope_digest anchor) transforms) (\<lambda>steps.
          Inr \<lparr>cl_anchor = cloneEnvelope anchor, cl_steps = steps\<rparr>))"

definition NewCanonicalRecipeEnvelope :: "FingerprintEnvelope \<Rightarrow> FingerprintEnvelope list \<Rightarrow> CanonicalRecipeEnvelope result" where
  "NewCanonicalRecipeEnvelope root transforms = res_map Some (buildCanonicalLineage root transforms True)"

definition NewCanonicalRelativeEnvelope :: "FingerprintEnvelope \<Rightarrow> FingerprintEnvelope list \<Rightarrow> CanonicalRelativeEnvelope result" where
  "NewCanonicalRelativeEnvelope anchor transforms = res_map Some (buildCanonicalLineage anchor transforms False)"

definition lineageSteps :: "FingerprintEnvelope list \<Rightarrow> FingerprintEnvelope list" where
  "lineageSteps source = map cloneEnvelope source"

definition lineage_Root :: "canonicalLineageData option \<Rightarrow> FingerprintEnvelope" where
  "lineage_Root l = (case l of None \<Rightarrow> None | Some d \<Rightarrow> cloneEnvelope (cl_anchor d))"

definition lineage_Steps :: "canonicalLineageData option \<Rightarrow> FingerprintEnvelope list" where
  "lineage_Steps l = (case l of None \<Rightarrow> [] | Some d \<Rightarrow> lineageSteps (cl_steps d))"

definition lineage_Endpoint :: "canonicalLineageData option \<Rightarrow> FingerprintEnvelope" where
  "lineage_Endpoint l =
     (case l of None \<Rightarrow> None
      | Some d \<Rightarrow> if cl_steps d = [] then cloneEnvelope (cl_anchor d) else cloneEnvelope (last (cl_steps d)))"

record canonicalLineageWire =
  lw_SchemaVersion :: bytes
  lw_Anchor :: "envelopeWire raw"
  lw_Steps :: "envelopeWire result list option"
  lw_Endpoint :: bytes

fun marshal_steps :: "bytes \<Rightarrow> FingerprintEnvelope list \<Rightarrow> (envelopeWire result list \<times> bytes) result" where
  "marshal_steps endpoint [] = Inr ([], endpoint)"
| "marshal_steps endpoint (step # rest) =
     res_bind (Envelope_MarshalJSON step) (\<lambda>w.
     res_bind (marshal_steps (envelope_digest step) rest) (\<lambda>(ws, final). Inr (Inr w # ws, final)))"

definition marshalCanonicalLineage :: "canonicalLineageData option \<Rightarrow> canonicalLineageWire result" where
  "marshalCanonicalLineage l =
     (case l of None \<Rightarrow> Inl (canonicalInvalid CodeShapeInvalid ''$'')
      | Some d \<Rightarrow>
         res_bind (Envelope_MarshalJSON (cl_anchor d)) (\<lambda>anchor.
         res_bind (marshal_steps (envelope_digest (cl_anchor d)) (cl_steps d)) (\<lambda>(steps, endpoint).
         Inr \<lparr>lw_SchemaVersion = CanonicalSchemaVersion, lw_Anchor = RawDoc (Inr anchor), lw_Steps = Some steps,
              lw_Endpoint = endpoint\<rparr>)))"

definition lineage_json :: "canonicalLineageData \<Rightarrow> json" where
  "lineage_json d =
     (let text_of = (\<lambda>e. case e of None \<Rightarrow> JObject [] | Some x \<Rightarrow> envelope_json x) in
      JObject [(''schema_version'', JString CanonicalSchemaVersion), (''anchor'', text_of (cl_anchor d)),
        (''steps'', JArray (map text_of (cl_steps d))),
        (''endpoint'', JString (last (envelope_digest (cl_anchor d) # map envelope_digest (cl_steps d))))])"

definition lineage_bytes :: "canonicalLineageData \<Rightarrow> nat" where
  "lineage_bytes d = length (json_Marshal (lineage_json d))"

text \<open>The loop over the steps: the transforms, the outcome steps and the last digest.\<close>

fun unmarshal_lineage_steps ::
    "nat \<Rightarrow> bytes \<Rightarrow> envelopeWire result list \<Rightarrow> (FingerprintEnvelope list \<times> FingerprintEnvelope list \<times> bytes) result" where
  "unmarshal_lineage_steps index parent [] = Inr ([], [], parent)"
| "unmarshal_lineage_steps index parent (rawStep # rest) =
     res_bind (res_prefix (indexed ''steps'' index) (decode_envelope rawStep)) (\<lambda>step.
      case step of None \<Rightarrow> Inl (canonicalInvalid CodeLineageMismatch (indexed ''steps'' index))
      | Some d \<Rightarrow>
         if ds_kind (en_descriptor d) \<noteq> FingerprintKindDerivedState \<or> en_transform d = None
         then Inl (canonicalInvalid CodeLineageMismatch (indexed ''steps'' index))
         else
          res_bind (NewDerivedStateEnvelope parent (en_transform d)) (\<lambda>expected.
          if envelope_digest expected \<noteq> ds_digest (en_descriptor d) \<or> en_parent d \<noteq> parent
          then Inl (canonicalInvalid CodeLineageMismatch (indexed ''steps'' index))
          else
           res_bind (unmarshal_lineage_steps (Suc index) (ds_digest (en_descriptor d)) rest) (\<lambda>(transforms, steps, final).
           Inr (en_transform d # transforms, step # steps, final))))"

definition unmarshalCanonicalLineage :: "nat \<Rightarrow> canonicalLineageWire result \<Rightarrow> bool \<Rightarrow> canonicalLineageData result" where
  "unmarshalCanonicalLineage doc_size outcome recipe =
     res_bind (if MaxCanonicalEnvelopeBytes < doc_size then Inl (canonicalInvalid CodeDocumentTooLarge []) else outcome) (\<lambda>wire.
      if lw_SchemaVersion wire \<noteq> CanonicalSchemaVersion then Inl (canonicalInvalid CodeRevisionMismatch ''schema_version'')
      else
       (case lw_Anchor wire of
          RawAbsent \<Rightarrow> Inl (canonicalInvalid CodeShapeInvalid ''anchor'')
        | RawNull \<Rightarrow> Inl (canonicalInvalid CodeShapeInvalid ''anchor'')
        | RawDoc doc \<Rightarrow>
           res_bind (res_prefix ''anchor'' (decode_envelope doc)) (\<lambda>anchor.
           case lw_Steps wire of None \<Rightarrow> Inl (canonicalInvalid CodeShapeInvalid ''steps'')
           | Some rawSteps \<Rightarrow>
              res_bind (unmarshal_lineage_steps 0 (envelope_digest anchor) rawSteps) (\<lambda>(transforms, expectedSteps, final).
              if final \<noteq> lw_Endpoint wire then Inl (canonicalInvalid CodeEndpointMismatch ''endpoint'')
              else res_bind (buildCanonicalLineage anchor transforms recipe) (\<lambda>l.
                   Inr (l\<lparr>cl_steps := expectedSteps\<rparr>))))))"

definition CanonicalRecipeEnvelope_UnmarshalJSON :: "nat \<Rightarrow> canonicalLineageWire result \<Rightarrow> CanonicalRecipeEnvelope result" where
  "CanonicalRecipeEnvelope_UnmarshalJSON doc_size outcome = res_map Some (unmarshalCanonicalLineage doc_size outcome True)"

definition CanonicalRelativeEnvelope_UnmarshalJSON :: "nat \<Rightarrow> canonicalLineageWire result \<Rightarrow> CanonicalRelativeEnvelope result" where
  "CanonicalRelativeEnvelope_UnmarshalJSON doc_size outcome = res_map Some (unmarshalCanonicalLineage doc_size outcome False)"

end
