(* ===== verification/Fingerprint_Props.thy ===== *)
theory Fingerprint_Props
  imports Fingerprint_Envelope
begin

text \<open>
  Envelopes: the envelopes the decoder accepts are exactly those the constructors build, the
  wire form of each decodes to it again, and a safe explanation shows nothing of a
  protected or secret field but its name and kind.
\<close>

subsection \<open>Fields on the wire\<close>

definition item_ok :: "canonicalIdentityField \<Rightarrow> bool" where
  "item_ok c \<longleftrightarrow> item_wf c \<and> cif_disclosure c \<in> {DisclosurePublic, DisclosureProtected}"

lemma parse_constructible: "constructible v \<Longrightarrow> ParseCanonicalValueEnvelope (CanonicalBytes v) = Inr v"
  by (drule constructible_rep) (auto simp: rep_def parse_iff)

lemma cenc_nonempty: "cenc t \<noteq> []"
  by (simp add: cenc_payload node_def flip: length_0_conv)

lemma bytes_nonempty: "constructible v \<Longrightarrow> CanonicalBytes v \<noteq> []"
  by (drule constructible_rep) (auto simp: rep_def CanonicalBytes_def repr_def cenc_nonempty)

lemma decode_field_roundtrip:
  assumes "item_ok c"
  shows "decodeIdentityField (fieldToWire c) i = Inr c"
proof -
  let ?d = "field_of c"
  have some: "cif_field c = Some ?d" and wf: "field_wf ?d" and disclosure: "cif_disclosure c \<in> {DisclosurePublic, DisclosureProtected}"
    using assms item_wf_Some by (auto simp: item_ok_def item_wf_def)
  note rules = decodeIdentityField_def fieldToWire_def some field_accessors Let_def
  have c: "\<lparr>cif_field = Some ?d, cif_disclosure = cif_disclosure c\<rparr> = c" using some by simp
  from field_wf_kind [OF wf] consider (text_kind) "if_kind ?d = IdentityFieldText"
    | (value_kind) "if_kind ?d = IdentityFieldCanonicalValue" | (reference_kind) "if_kind ?d = IdentityFieldSecretReference" by blast
  then show ?thesis
  proof cases
    case text_kind
    then show ?thesis using text_field_of [OF wf] disclosure c by (auto simp: rules)
  next
    case value_kind
    note v = value_field_of [OF wf this]
    have "Token_String (Token (if_value ?d)) \<noteq> []" using v(1) by (simp add: Token_constructible Token_String_def)
    moreover have "hex_EncodeToString (CanonicalBytes (if_value ?d)) \<noteq> []"
      using bytes_nonempty [OF v(1)] by (cases "CanonicalBytes (if_value ?d)") simp_all
    ultimately show ?thesis using value_kind v disclosure c parse_constructible [OF v(1)]
      by (auto simp: rules decode_value_field_def)
  next
    case reference_kind
    obtain r where "if_reference ?d = Some r" "NewSecretReference (sr_provider r) (sr_identifier r) (sr_version r) = Inr (Some r)"
      "NewSecretReferenceIdentityField (if_name ?d) (Some r) = Inr (Some ?d)" by (rule reference_field_of [OF wf reference_kind])
    then show ?thesis using reference_kind disclosure c by (auto simp: rules secretToWire_def secret_accessors)
  qed
qed

lemma decode_field_sound:
  assumes "decodeIdentityField w i = Inr c"
  shows "item_ok c"
proof -
  have "constructed_field (cif_field c) \<and> cif_disclosure c \<in> {DisclosurePublic, DisclosureProtected}"
    using assms
    by (auto simp: decodeIdentityField_def decode_value_field_def Let_def res_simps split: if_splits option.splits
        intro: constructed_field.intros constructible.parse)
  then show ?thesis using constructed_field_wf by (fastforce simp: item_ok_def item_wf_def field_of_def)
qed

lemma decode_fields_roundtrip:
  "\<forall>c \<in> set cs. item_ok c \<Longrightarrow> sorted_wrt (<) (map (\<lambda>c. IdentityField_Name (cif_field c)) cs) \<Longrightarrow>
     (case previous of None \<Rightarrow> True | Some p \<Rightarrow> \<forall>c \<in> set cs. p < IdentityField_Name (cif_field c)) \<Longrightarrow>
     decode_fields i previous (map fieldToWire cs) = Inr cs"
  by (induction cs arbitrary: i previous) (auto simp: decode_field_roundtrip split: option.splits)

lemma decode_fields_sound:
  "decode_fields i previous ws = Inr cs \<Longrightarrow>
     (\<forall>c \<in> set cs. item_ok c) \<and> sorted_wrt (<) (map (\<lambda>c. IdentityField_Name (cif_field c)) cs)
     \<and> (case previous of None \<Rightarrow> True | Some p \<Rightarrow> \<forall>c \<in> set cs. p < IdentityField_Name (cif_field c))"
proof (induction ws arbitrary: i previous cs)
  case (Cons w ws)
  then obtain c rest where c: "decodeIdentityField w i = Inr c" "cs = c # rest"
      and ahead: "case previous of None \<Rightarrow> True | Some p \<Rightarrow> p < IdentityField_Name (cif_field c)"
      and rest: "decode_fields (Suc i) (Some (IdentityField_Name (cif_field c))) ws = Inr rest"
    by (auto simp: res_simps split: if_splits option.splits)
  from Cons.IH [OF rest] c decode_field_sound [OF c(1)] ahead show ?case
    by (auto split: option.splits)
qed (simp split: option.splits)

subsection \<open>Well-formed envelopes\<close>

definition value_descriptor :: "CanonicalValue \<Rightarrow> fingerprintDescriptorData" where
  "value_descriptor v = \<lparr>ds_kind = FingerprintKindCanonicalValue, ds_domain = CanonicalIdentityValueDomain,
     ds_digest = hashBytes (token_preimage v), ds_provider = [], ds_semanticKind = [], ds_identitySchema = []\<rparr>"

definition identity_descriptor :: "bytes \<Rightarrow> canonicalIdentityData \<Rightarrow> fingerprintDescriptorData" where
  "identity_descriptor kind d = \<lparr>ds_kind = kind, ds_domain = expectedDomain kind,
     ds_digest = hashBytes (identity_preimage (expectedDomain kind) d), ds_provider = cid_provider d,
     ds_semanticKind = cid_semanticKind d, ds_identitySchema = cid_identitySchema d\<rparr>"

definition derived_preimage :: "bytes \<Rightarrow> bytes \<Rightarrow> bytes" where
  "derived_preimage p t = encodeRecord CanonicalDerivedStateDomain [\<lparr>cf_tag = 1, cf_payload = p\<rparr>, \<lparr>cf_tag = 2, cf_payload = t\<rparr>]"

definition derived_descriptor :: "bytes \<Rightarrow> bytes \<Rightarrow> fingerprintDescriptorData" where
  "derived_descriptor p t = \<lparr>ds_kind = FingerprintKindDerivedState, ds_domain = CanonicalDerivedStateDomain,
     ds_digest = hashBytes (derived_preimage p t), ds_provider = [], ds_semanticKind = [], ds_identitySchema = []\<rparr>"

definition identity_ok :: "canonicalIdentityData \<Rightarrow> bool" where
  "identity_ok d \<longleftrightarrow> canonical_identity_wf d \<and> (\<forall>c \<in> set (cid_fields d). item_ok c)"

definition identity_kinds :: "bytes set" where
  "identity_kinds = {FingerprintKindFactoryState, FingerprintKindTransform, FingerprintKindResolvedExtension}"

inductive envelope_ok :: "fingerprintEnvelopeData \<Rightarrow> bool" where
  value_ok: "constructible v \<Longrightarrow> envelope_ok (EnvelopeData (value_descriptor v) v None [] None)"
| identity_ok: "kind \<in> identity_kinds \<Longrightarrow> identity_ok d \<Longrightarrow> envelope_ok (EnvelopeData (identity_descriptor kind d) None (Some d) [] None)"
| derived_ok: "envelope_ok t \<Longrightarrow> ds_kind (en_descriptor t) = FingerprintKindTransform \<Longrightarrow>
     ds_digest (en_descriptor t) = ''sha256:'' @ hex_EncodeToString traw \<Longrightarrow> length traw = 32 \<Longrightarrow>
     parent = ''sha256:'' @ hex_EncodeToString praw \<Longrightarrow> length praw = 32 \<Longrightarrow>
     envelope_ok (EnvelopeData (derived_descriptor praw traw) None None parent (Some t))"

lemma token_digest: "constructible v \<Longrightarrow> ''sha256:'' @ drop (length ''civ1:sha256:'') (Token_String (Token v)) = hashBytes (token_preimage v)"
  by (simp add: Token_constructible Token_String_def hashBytes_def)

lemma constructible_Valid: "constructible v \<Longrightarrow> Valid v"
  by (drule constructible_rep) (auto simp: rep_def Valid_def repr_def)

lemma NewCanonicalValueEnvelope_ok:
  "constructible v \<Longrightarrow> NewCanonicalValueEnvelope v = Inr (Some (EnvelopeData (value_descriptor v) v None [] None))"
  unfolding NewCanonicalValueEnvelope_def by (simp only: token_digest constructible_Valid value_descriptor_def) simp

lemma newIdentityEnvelope_ok:
  "canonical_identity_wf d \<Longrightarrow> newIdentityEnvelope kind (expectedDomain kind) (Some d)
     = Inr (Some (EnvelopeData (identity_descriptor kind d) None (Some d) [] None))"
  by (simp add: newIdentityEnvelope_def canonicalFingerprint_wf identity_descriptor_def canonical_identity_Provider_def canonical_identity_Kind_def
      canonical_identity_IdentitySchema_def)

lemma expected_domains [simp]:
  "expectedDomain FingerprintKindFactoryState = CanonicalFactoryStateDomain"
  "expectedDomain FingerprintKindTransform = CanonicalTransformDomain"
  "expectedDomain FingerprintKindResolvedExtension = CanonicalResolvedExtensionDomain"
  "expectedDomain FingerprintKindCanonicalValue = CanonicalIdentityValueDomain"
  "expectedDomain FingerprintKindDerivedState = CanonicalDerivedStateDomain"
  by (simp_all add: expectedDomain_def fingerprint_kinds)

lemma CanonicalDerivedStateBytes_Inr:
  "CanonicalDerivedStateBytes parent e = Inr bytes \<longleftrightarrow> (\<exists>t praw traw. e = Some t \<and> ds_kind (en_descriptor t) = FingerprintKindTransform
     \<and> parent = ''sha256:'' @ hex_EncodeToString praw \<and> length praw = 32
     \<and> ds_digest (en_descriptor t) = ''sha256:'' @ hex_EncodeToString traw \<and> length traw = 32 \<and> bytes = derived_preimage praw traw)"
  by (auto simp: CanonicalDerivedStateBytes_def res_simps parseDigest_Inr_iff derived_preimage_def split: option.splits if_splits)

subsection \<open>The decoder accepts exactly the well-formed envelopes\<close>

lemma descriptor_of_wire [simp]: "descriptor_of (descriptorToWire d) = d"
  by (simp add: descriptor_of_def descriptorToWire_def)

lemma identity_kinds_differ: "kind \<in> identity_kinds \<Longrightarrow> kind \<noteq> FingerprintKindCanonicalValue \<and> kind \<noteq> FingerprintKindDerivedState"
  by (auto simp: identity_kinds_def)

lemma validateDescriptor_Inr: "validateDescriptor w = Inr u \<longleftrightarrow>
    dw_EnvelopeVersion w = CanonicalEnvelopeVersion \<and> dw_SchemaVersion w = CanonicalSchemaVersion \<and> dw_Algorithm w = ''sha256''
    \<and> dw_Domain w = expectedDomain (dw_FingerprintKind w) \<and> is_digest (dw_Digest w)
    \<and> (dw_FingerprintKind w \<in> identity_kinds \<and> identifierPattern (dw_Provider w) \<and> identifierPattern (dw_SemanticKind w)
         \<and> identifierPattern (dw_IdentitySchema w)
       \<or> dw_FingerprintKind w \<in> {FingerprintKindCanonicalValue, FingerprintKindDerivedState}
         \<and> dw_Provider w = [] \<and> dw_SemanticKind w = [] \<and> dw_IdentitySchema w = [])"
proof -
  have known: "expectedDomain k = [] \<longleftrightarrow> k \<notin> identity_kinds \<and> k \<notin> {FingerprintKindCanonicalValue, FingerprintKindDerivedState}" for k
    by (auto simp: expectedDomain_def identity_kinds_def CanonicalFactoryStateDomain_def CanonicalTransformDomain_def
        CanonicalResolvedExtensionDomain_def CanonicalIdentityValueDomain_def CanonicalDerivedStateDomain_def)
  have ident: "is_ok (validateIdentifier s p) \<longleftrightarrow> identifierPattern s" for s p by (auto simp: is_ok_iff)
  show ?thesis
    using identity_kinds_differ [of "dw_FingerprintKind w"]
    by (auto simp: validateDescriptor_def known parseDigest_is_digest ident identity_kinds_def)
qed

lemma descriptor_wire_fields [simp]:
  "dw_EnvelopeVersion (descriptorToWire d) = CanonicalEnvelopeVersion" "dw_SchemaVersion (descriptorToWire d) = CanonicalSchemaVersion"
  "dw_Algorithm (descriptorToWire d) = ''sha256''" "dw_FingerprintKind (descriptorToWire d) = ds_kind d"
  "dw_Domain (descriptorToWire d) = ds_domain d" "dw_Digest (descriptorToWire d) = ds_digest d"
  "dw_Provider (descriptorToWire d) = ds_provider d" "dw_SemanticKind (descriptorToWire d) = ds_semanticKind d"
  "dw_IdentitySchema (descriptorToWire d) = ds_identitySchema d"
  by (simp_all add: descriptorToWire_def)

lemma is_digest_hashBytes [simp]: "is_digest (hashBytes x)"
  by (auto simp: is_digest_def hashBytes_def)

lemma envelope_wire_roundtrip: "envelope_ok e \<Longrightarrow> \<exists>w. envelope_to_wire e = Inr w \<and> envelope_from_wire w = Inr e"
proof (induction rule: envelope_ok.induct)
  case (value_ok v)
  have "validateDescriptor (descriptorToWire (value_descriptor v)) = Inr ()"
    by (simp add: validateDescriptor_Inr value_descriptor_def)
  moreover have "decode_value_subject (descriptorToWire (value_descriptor v))
      (Inr \<lparr>vw_CanonicalHex = hex_EncodeToString (CanonicalBytes v), vw_Token = Token_String (Token v)\<rparr>)
      = Inr (EnvelopeData (value_descriptor v) v None [] None)"
    unfolding decode_value_subject_def using token_digest [OF value_ok] parse_constructible [OF value_ok]
    by (simp add: value_descriptor_def del: append.simps)
  ultimately show ?case by (simp add: value_descriptor_def)
next
  case (identity_ok kind d)
  then have wf: "canonical_identity_wf d" and items: "\<forall>c \<in> set (cid_fields d). item_ok c" by (simp_all add: identity_ok_def)
  let ?w = "descriptorToWire (identity_descriptor kind d)"
  have "validateDescriptor ?w = Inr ()"
    using identity_ok(1) wf by (simp add: validateDescriptor_Inr identity_descriptor_def canonical_identity_wf_def)
  moreover have "decode_identity_subject ?w (Inr \<lparr>jw_Fields = Some (map fieldToWire (cid_fields d))\<rparr>)
      = Inr (EnvelopeData (identity_descriptor kind d) None (Some d) [] None)"
  proof -
    have "decode_fields 0 None (map fieldToWire (cid_fields d)) = Inr (cid_fields d)"
      using items wf by (intro decode_fields_roundtrip) (simp_all add: canonical_identity_wf_def)
    moreover have "\<lparr>cid_provider = dw_Provider ?w, cid_semanticKind = dw_SemanticKind ?w,
                         cid_identitySchema = dw_IdentitySchema ?w, cid_fields = cid_fields d\<rparr> = d"
      by (simp add: identity_descriptor_def)
    ultimately show ?thesis
      by (simp only: decode_identity_subject_def res_bind_simps res_prefix_simps identitySubjectWire.simps option.simps Let_def
          canonicalFingerprint_wf [OF wf]) (simp add: identity_descriptor_def)
  qed
  ultimately show ?case
    using identity_kinds_differ [OF identity_ok(1)] by (simp add: identity_descriptor_def canonical_identity_Fields_def)
next
  case (derived_ok t traw parent praw)
  then obtain w where w: "envelope_to_wire t = Inr w" "envelope_from_wire w = Inr t" by blast
  have "validateDescriptor (descriptorToWire (derived_descriptor praw traw)) = Inr ()"
    by (simp add: validateDescriptor_Inr derived_descriptor_def)
  moreover have "CanonicalDerivedStateBytes parent (Some t) = Inr (derived_preimage praw traw)"
    using derived_ok by (auto simp: CanonicalDerivedStateBytes_Inr)
  then have "check_derived_subject (descriptorToWire (derived_descriptor praw traw)) parent t
      = Inr (EnvelopeData (derived_descriptor praw traw) None None parent (Some t))"
    by (simp add: check_derived_subject_def) (simp add: derived_descriptor_def)
  ultimately show ?case using w by (simp add: derived_descriptor_def)
qed

lemma decode_value_subject_Inr:
  assumes "decode_value_subject d s = Inr e" and "validateDescriptor d = Inr ()" and "dw_FingerprintKind d = FingerprintKindCanonicalValue"
  shows "envelope_ok e"
proof -
  obtain raw v where v: "ParseCanonicalValueEnvelope raw = Inr v"
      and digest: "''sha256:'' @ drop (length ''civ1:sha256:'') (Token_String (Token v)) = dw_Digest d"
      and e: "e = EnvelopeData (descriptor_of d) v None [] None"
    using assms(1) unfolding decode_value_subject_def by (auto simp: res_simps simp del: append.simps split: if_splits option.splits)
  have c: "constructible v" using v by (rule constructible.parse)
  have "descriptor_of d = value_descriptor v"
    using assms(2,3) digest [unfolded token_digest [OF c]] identity_kinds_differ
    by (auto simp: validateDescriptor_Inr descriptor_of_def value_descriptor_def)
  with e envelope_ok.value_ok [OF c] show ?thesis by simp
qed

lemma decode_identity_subject_Inr:
  assumes "decode_identity_subject d s = Inr e" and "validateDescriptor d = Inr ()"
    and "dw_FingerprintKind d \<notin> {FingerprintKindCanonicalValue, FingerprintKindDerivedState}"
  shows "envelope_ok e"
proof -
  obtain wires flds where f: "decode_fields 0 None wires = Inr flds"
      and fingerprint: "canonicalFingerprint (dw_Domain d) (Some \<lparr>cid_provider = dw_Provider d, cid_semanticKind = dw_SemanticKind d,
                         cid_identitySchema = dw_IdentitySchema d, cid_fields = flds\<rparr>) = Inr (dw_Digest d)"
      and e: "e = EnvelopeData (descriptor_of d) None (Some \<lparr>cid_provider = dw_Provider d, cid_semanticKind = dw_SemanticKind d,
                         cid_identitySchema = dw_IdentitySchema d, cid_fields = flds\<rparr>) [] None" (is "_ = EnvelopeData _ _ (Some ?i) _ _")
    using assms(1) by (auto simp: decode_identity_subject_def Let_def res_simps split: if_splits option.splits)
  have wf: "canonical_identity_wf ?i" and ok: "identity_ok ?i"
    using decode_fields_sound [OF f] assms(2,3)
    by (auto simp: validateDescriptor_Inr canonical_identity_wf_def identity_ok_def item_ok_def)
  have "descriptor_of d = identity_descriptor (dw_FingerprintKind d) ?i"
    using fingerprint assms(2) by (auto simp: canonicalFingerprint_wf [OF wf] validateDescriptor_Inr descriptor_of_def identity_descriptor_def)
  moreover have "dw_FingerprintKind d \<in> identity_kinds" using assms(2,3) by (auto simp: validateDescriptor_Inr)
  ultimately show ?thesis using e envelope_ok.identity_ok ok by simp
qed

lemma check_derived_subject_Inr:
  assumes "check_derived_subject d parent t = Inr e" and "validateDescriptor d = Inr ()"
    and "dw_FingerprintKind d = FingerprintKindDerivedState" and "envelope_ok t"
  shows "envelope_ok e"
proof -
  obtain praw traw where t: "ds_kind (en_descriptor t) = FingerprintKindTransform"
      "ds_digest (en_descriptor t) = ''sha256:'' @ hex_EncodeToString traw" "length traw = 32"
      "parent = ''sha256:'' @ hex_EncodeToString praw" "length praw = 32"
      and digest: "hashBytes (derived_preimage praw traw) = dw_Digest d"
      and e: "e = EnvelopeData (descriptor_of d) None None parent (Some t)"
    using assms(1) by (auto simp: check_derived_subject_def res_simps CanonicalDerivedStateBytes_Inr split: if_splits)
  have "descriptor_of d = derived_descriptor praw traw"
    using assms(2,3) digest identity_kinds_differ
    by (auto simp: validateDescriptor_Inr descriptor_of_def derived_descriptor_def)
  with e envelope_ok.derived_ok [OF assms(4) t] show ?thesis by simp
qed

lemma envelope_from_wire_sound: "envelope_from_wire w = Inr e \<Longrightarrow> envelope_ok e"
proof (induction w arbitrary: e rule: envelope_from_wire.induct)
  case (1 descriptor subject)
  note step = 1
  from step(2) obtain as_value as_derived as_identity where s: "subject = SubjectDoc as_value as_derived as_identity"
      and ok: "validateDescriptor descriptor = Inr ()"
    by (auto simp: res_simps split: subjectRaw.splits)
  consider "dw_FingerprintKind descriptor = FingerprintKindCanonicalValue" | "dw_FingerprintKind descriptor = FingerprintKindDerivedState"
    | "dw_FingerprintKind descriptor \<notin> {FingerprintKindCanonicalValue, FingerprintKindDerivedState}" by blast
  then show ?case
  proof cases
    case 1
    with step(2) s ok have "decode_value_subject descriptor as_value = Inr e" by simp
    from decode_value_subject_Inr [OF this ok 1] show ?thesis .
  next
    case 2
    with step(2) s ok obtain parent w t where d: "as_derived = Inr (parent, RawDoc (Inr w))"
      and t: "envelope_from_wire w = Inr t" and e: "check_derived_subject descriptor parent t = Inr e"
      by (auto simp: res_simps split: sum.splits raw.splits)
    have "envelope_ok t" using step(1) [OF s] ok 2 d t by fastforce
    from check_derived_subject_Inr [OF e ok 2 this] show ?thesis .
  next
    case 3
    with step(2) s ok have "decode_identity_subject descriptor as_identity = Inr e" by simp
    from decode_identity_subject_Inr [OF this ok 3] show ?thesis .
  qed
qed

subsection \<open>The envelopes of the constructors\<close>

inductive constructed_envelope :: "FingerprintEnvelope \<Rightarrow> bool" where
  value_envelope: "constructible v \<Longrightarrow> NewCanonicalValueEnvelope v = Inr e \<Longrightarrow> constructed_envelope e"
| factory_envelope: "identity_ok d \<Longrightarrow> NewFactoryEnvelope (Some d) = Inr e \<Longrightarrow> constructed_envelope e"
| transform_envelope: "identity_ok d \<Longrightarrow> NewTransformEnvelope (Some d) = Inr e \<Longrightarrow> constructed_envelope e"
| extension_envelope: "identity_ok d \<Longrightarrow> NewExtensionEnvelope (Some d) = Inr e \<Longrightarrow> constructed_envelope e"
| derived_envelope: "constructed_envelope t \<Longrightarrow> NewDerivedStateEnvelope p t = Inr e \<Longrightarrow> constructed_envelope e"

lemma NewIdentityEnvelope_ok:
  assumes "canonical_identity_wf d"
  shows "NewFactoryEnvelope (Some d) = Inr (Some (EnvelopeData (identity_descriptor FingerprintKindFactoryState d) None (Some d) [] None))"
    "NewTransformEnvelope (Some d) = Inr (Some (EnvelopeData (identity_descriptor FingerprintKindTransform d) None (Some d) [] None))"
    "NewExtensionEnvelope (Some d) = Inr (Some (EnvelopeData (identity_descriptor FingerprintKindResolvedExtension d) None (Some d) [] None))"
  using newIdentityEnvelope_ok [OF assms, of FingerprintKindFactoryState] newIdentityEnvelope_ok [OF assms, of FingerprintKindTransform]
    newIdentityEnvelope_ok [OF assms, of FingerprintKindResolvedExtension]
  by (simp_all add: NewFactoryEnvelope_def NewTransformEnvelope_def NewExtensionEnvelope_def)

lemma NewDerivedStateEnvelope_Inr:
  "NewDerivedStateEnvelope parent e = Inr f \<longleftrightarrow> (\<exists>t praw traw. e = Some t \<and> ds_kind (en_descriptor t) = FingerprintKindTransform
     \<and> parent = ''sha256:'' @ hex_EncodeToString praw \<and> length praw = 32
     \<and> ds_digest (en_descriptor t) = ''sha256:'' @ hex_EncodeToString traw \<and> length traw = 32
     \<and> f = Some (EnvelopeData (derived_descriptor praw traw) None None parent (Some t)))"
  by (auto simp: NewDerivedStateEnvelope_def res_simps CanonicalDerivedStateBytes_Inr derived_descriptor_def)

lemma constructed_ok: "constructed_envelope e \<Longrightarrow> \<exists>d. e = Some d \<and> envelope_ok d"
proof (induction rule: constructed_envelope.induct)
  case (derived_envelope t p e)
  then show ?case unfolding NewDerivedStateEnvelope_Inr using envelope_ok.derived_ok by blast
qed (auto simp: NewCanonicalValueEnvelope_ok NewIdentityEnvelope_ok identity_ok_def identity_kinds_def
    intro!: envelope_ok.value_ok envelope_ok.identity_ok)

lemma ok_constructed: "envelope_ok d \<Longrightarrow> constructed_envelope (Some d)"
proof (induction rule: envelope_ok.induct)
  case (value_ok v)
  from constructed_envelope.value_envelope [OF this NewCanonicalValueEnvelope_ok [OF this]] show ?case .
next
  case (identity_ok kind d)
  then have wf: "canonical_identity_wf d" by (simp add: identity_ok_def)
  from identity_ok show ?case
    by (auto simp: identity_kinds_def intro: constructed_envelope.intros(2-4) NewIdentityEnvelope_ok [OF wf])
next
  case (derived_ok t traw parent praw)
  then have "NewDerivedStateEnvelope parent (Some t) = Inr (Some (EnvelopeData (derived_descriptor praw traw) None None parent (Some t)))"
    by (auto simp: NewDerivedStateEnvelope_Inr)
  from constructed_envelope.derived_envelope [OF derived_ok.IH this] show ?case .
qed

text \<open>
  C19: the wire form of every envelope the constructors build, of any kind and with a whole
  transform nested in a derived state, decodes to exactly that envelope when its text is
  within the document limit.
\<close>

theorem envelope_roundtrip:
  assumes "constructed_envelope (Some d)" and "envelope_bytes d \<le> MaxCanonicalEnvelopeBytes"
  shows "\<exists>w. Envelope_MarshalJSON (Some d) = Inr w \<and> Envelope_UnmarshalJSON (envelope_bytes d) (Inr w) = Inr (Some d)"
proof -
  have "envelope_ok d" using constructed_ok [OF assms(1)] by simp
  from envelope_wire_roundtrip [OF this] assms(2) show ?thesis
    by (auto simp: Envelope_MarshalJSON_def Envelope_UnmarshalJSON_def decode_envelope_def)
qed

text \<open>
  C17: a document the decoder accepts is one the constructors could have built: every digest in
  it, at every level, is the one recomputed from the subject, so no document can attach a
  fingerprint, a token or a commitment to other content.
\<close>

theorem decoded_envelope_is_constructed:
  assumes "Envelope_UnmarshalJSON doc_size document = Inr e"
  shows "constructed_envelope e"
  using assms envelope_from_wire_sound ok_constructed
  by (auto simp: Envelope_UnmarshalJSON_def decode_envelope_def res_simps split: if_splits)

text \<open>Identities that a builder returned can be put in envelopes.\<close>

lemma conforming_identity_ok:
  assumes "schema_wf s" and "conforms s d" and "canonical_identity_wf d"
  shows "identity_ok d"
proof -
  have "item_ok c" if c: "c \<in> set (cid_fields d)" for c
  proof -
    have "item_wf c" and "cif_disclosure c = DisclosurePublic \<or> (\<exists>x \<in> set (sm_fields s). fn_disclosure x = cif_disclosure c)"
      using assms(2) c unfolding conforms_def by blast+
    moreover have "\<forall>x \<in> set (sm_fields s). fn_disclosure x \<in> {DisclosurePublic, DisclosureProtected}"
      using assms(1) by (simp add: schema_wf_def definition_ok_def)
    ultimately show ?thesis by (auto simp: item_ok_def)
  qed
  then show ?thesis using assms(3) by (simp add: identity_ok_def)
qed

subsection \<open>Explanations\<close>

text \<open>
  Two identities that agree on everything that is public: the same fields by name, kind and
  disclosure, and the same content wherever the field is public and no secret reference.
\<close>

definition hidden :: "canonicalIdentityField \<Rightarrow> bool" where
  "hidden c \<longleftrightarrow> cif_disclosure c = DisclosureProtected \<or> IdentityField_Kind (cif_field c) = IdentityFieldSecretReference"

definition same_public :: "canonicalIdentityField \<Rightarrow> canonicalIdentityField \<Rightarrow> bool" where
  "same_public a b \<longleftrightarrow> IdentityField_Name (cif_field a) = IdentityField_Name (cif_field b)
     \<and> IdentityField_Kind (cif_field a) = IdentityField_Kind (cif_field b) \<and> cif_disclosure a = cif_disclosure b
     \<and> (\<not> hidden a \<longrightarrow> cif_field a = cif_field b)"

text \<open>What of an explanation is compared: all but the digest of the whole identity, which every explanation shows.\<close>

definition without_digest :: "explanationWire \<Rightarrow> explanationWire" where
  "without_digest x = x\<lparr>ew_ExplainedDescriptor := (ew_ExplainedDescriptor x)\<lparr>dw_Digest := []\<rparr>\<rparr>"

lemma explain_field_same: "same_public a b \<Longrightarrow> explain_field False a = explain_field False b"
proof (cases "hidden a")
  case True
  assume "same_public a b"
  with True have "hidden b" by (simp add: same_public_def hidden_def)
  with True \<open>same_public a b\<close> show ?thesis by (simp add: same_public_def hidden_def explain_field_def Let_def)
qed (simp add: same_public_def explain_field_def Let_def)


subsection \<open>Copies and lineages\<close>

lemma cloneEnvelope_ok:
  assumes "envelope_ok d"
  shows "cloneEnvelope (Some d) = (if envelope_bytes d \<le> MaxCanonicalEnvelopeBytes then Some d else None)"
proof -
  obtain w where "envelope_to_wire d = Inr w" "envelope_from_wire w = Inr d" using envelope_wire_roundtrip [OF assms] by blast
  then show ?thesis by (simp add: cloneEnvelope_def Envelope_UnmarshalJSON_def decode_envelope_def)
qed

lemma derive_envelopes_wire:
  assumes "derive_envelopes i parent ts = Inr steps" and "\<forall>t \<in> set ts. constructed_envelope t"
  shows "\<exists>ws final. marshal_steps parent steps = Inr (ws, final) \<and> unmarshal_lineage_steps i parent ws = Inr (ts, steps, final)"
  using assms
proof (induction ts arbitrary: i parent steps)
  case (Cons t ts)
  obtain d rest where d: "NewDerivedStateEnvelope parent t = Inr d" and steps: "steps = d # rest"
    and rest: "derive_envelopes (Suc i) (envelope_digest d) ts = Inr rest"
    using Cons.prems(1) by (auto simp: res_simps)
  obtain ws final where ws: "marshal_steps (envelope_digest d) rest = Inr (ws, final)"
    "unmarshal_lineage_steps (Suc i) (envelope_digest d) ws = Inr (ts, rest, final)"
    using Cons.IH [OF rest] Cons.prems(2) by auto
  have c: "constructed_envelope d" using constructed_envelope.derived_envelope [OF _ d] Cons.prems(2) by simp
  obtain e where e: "d = Some e" "envelope_ok e" using constructed_ok [OF c] by blast
  obtain w where w: "envelope_to_wire e = Inr w" "envelope_from_wire w = Inr e" using envelope_wire_roundtrip [OF e(2)] by blast
  have shape: "ds_kind (en_descriptor e) = FingerprintKindDerivedState" "en_transform e = t" "t \<noteq> None" "en_parent e = parent"
    using d e(1) by (auto simp: NewDerivedStateEnvelope_Inr derived_descriptor_def)
  have "marshal_steps parent steps = Inr (Inr w # ws, final)" using e w ws steps by (simp add: Envelope_MarshalJSON_def)
  moreover have "unmarshal_lineage_steps i parent (Inr w # ws) = Inr (t # ts, steps, final)"
    using e w ws steps shape d by (simp add: decode_envelope_def envelope_digest_def)
  ultimately show ?case by blast
qed simp

text \<open>
  A recipe whose root fits the document limit survives the wire.  A larger root does not: the
  copy that \<^verbatim>\<open>buildCanonicalLineage\<close> keeps of it is made by printing and parsing, the parser refuses
  the text, and the error is dropped.
\<close>

theorem canonical_recipe_roundtrip:
  assumes "constructed_envelope (Some root)" and "\<forall>t \<in> set transforms. constructed_envelope t"
    and "NewCanonicalRecipeEnvelope (Some root) transforms = Inr (Some recipe)"
    and "envelope_bytes root \<le> MaxCanonicalEnvelopeBytes" and "lineage_bytes recipe \<le> MaxCanonicalEnvelopeBytes"
  shows "\<exists>w. marshalCanonicalLineage (Some recipe) = Inr w
     \<and> CanonicalRecipeEnvelope_UnmarshalJSON (lineage_bytes recipe) (Inr w) = Inr (Some recipe)"
proof -
  have ok: "envelope_ok root" using constructed_ok [OF assms(1)] by simp
  obtain w where w: "envelope_to_wire root = Inr w" "envelope_from_wire w = Inr root" using envelope_wire_roundtrip [OF ok] by blast
  obtain steps where steps: "derive_envelopes 0 (envelope_digest (Some root)) transforms = Inr steps"
    and recipe: "recipe = \<lparr>cl_anchor = Some root, cl_steps = steps\<rparr>"
    and build: "buildCanonicalLineage (Some root) transforms True = Inr \<lparr>cl_anchor = Some root, cl_steps = steps\<rparr>"
    using assms(3,4) cloneEnvelope_ok [OF ok]
    by (auto simp: NewCanonicalRecipeEnvelope_def buildCanonicalLineage_def res_simps split: if_splits)
  obtain ws final where "marshal_steps (envelope_digest (Some root)) steps = Inr (ws, final)"
    "unmarshal_lineage_steps 0 (envelope_digest (Some root)) ws = Inr (transforms, steps, final)"
    using derive_envelopes_wire [OF steps assms(2)] by blast
  with w build assms(5) show ?thesis
    by (simp add: recipe marshalCanonicalLineage_def CanonicalRecipeEnvelope_UnmarshalJSON_def unmarshalCanonicalLineage_def
        Envelope_MarshalJSON_def decode_envelope_def)
qed

lemma oversized_root_is_lost:
  assumes "envelope_ok root" and "ds_kind (en_descriptor root) = FingerprintKindFactoryState"
    and "MaxCanonicalEnvelopeBytes < envelope_bytes root"
  shows "NewCanonicalRecipeEnvelope (Some root) [] = Inr (Some \<lparr>cl_anchor = None, cl_steps = []\<rparr>)"
  using assms cloneEnvelope_ok [OF assms(1)]
  by (simp add: NewCanonicalRecipeEnvelope_def buildCanonicalLineage_def)

lemma json_member_bytes:
  assumes "m \<in> set ms"
  shows "length (json_Marshal (snd m)) \<le> length (json_Marshal (JObject ms))"
proof -
  let ?f = "\<lambda>m. json_string (fst m) @ '':'' @ json_Marshal (snd m)"
  have "length (?f m) \<le> sum_list (map (length \<circ> ?f) ms)" using assms by (intro member_le_sum_list) auto
  then show ?thesis by (simp add: length_commas)
qed

lemma json_array_bytes: "sum_list (map (length \<circ> json_Marshal) xs) \<le> length (json_Marshal (JArray xs))"
  by (simp add: length_commas comp_def)

lemma text_field_bytes: "fw_Text w = Some t \<Longrightarrow> length t \<le> length (json_Marshal (identity_field_json w))"
  unfolding identity_field_json_def
  by (rule order_trans [OF _ json_member_bytes [of "(''text'', JString t)"]]) (use length_json_string [of t] in auto)

text \<open>A root with 17576 text fields of the largest size, more than 72 million bytes of text.\<close>

definition letters :: bytes where "letters = ''abcdefghijklmnopqrstuvwxyz''"

definition many_names :: "bytes list" where "many_names = sort (List.n_lists 3 letters)"

definition full_field :: "bytes \<Rightarrow> canonicalIdentityField" where
  "full_field name = \<lparr>cif_field = Some \<lparr>if_name = name, if_kind = IdentityFieldText, if_payload = replicate MaxCanonicalStringBytes (CHR ''x''),
     if_text = replicate MaxCanonicalStringBytes (CHR ''x''), if_value = None, if_reference = None,
     if_commitment = hashBytes (field_preimage name identityFieldTextTag (replicate MaxCanonicalStringBytes (CHR ''x'')))\<rparr>,
     cif_disclosure = DisclosurePublic\<rparr>"

definition large_identity :: canonicalIdentityData where
  "large_identity = \<lparr>cid_provider = ''docker'', cid_semanticKind = ''image'', cid_identitySchema = ''docker.image'',
     cid_fields = map full_field many_names\<rparr>"

lemma full_field_ok: "identifierPattern n \<Longrightarrow> item_ok (full_field n)"
proof -
  have "ValidString (replicate k (CHR ''x''))" for k by (rule ValidString_ascii) (simp add: list_all_iff in_range_def)
  then show "identifierPattern n \<Longrightarrow> item_ok (full_field n)"
    by (simp add: item_ok_def item_wf_def field_of_def full_field_def field_wf_def)
qed

lemma letters_ok: "distinct letters" "length letters = 26" "\<forall>c \<in> set letters. is_lower_alpha c"
  by (simp_all add: letters_def is_lower_alpha_def in_range_def)

lemma many_names_ok:
  assumes "n \<in> set many_names"
  shows "identifierPattern n"
proof -
  have "length n = 3" and n: "set n \<subseteq> set letters" using assms by (auto simp: many_names_def set_n_lists)
  then obtain a b c where abc: "n = [a, b, c]" by (auto simp: length_Suc_conv numeral_3_eq_3)
  then have "is_lower_alpha a" "is_lower_alpha b" "is_lower_alpha c" using n letters_ok(3) by auto
  with abc show ?thesis by (simp add: identifierPattern_def is_lower_alpha_def is_ident_byte_def)
qed

lemma many_names_sorted: "sorted_wrt (<) many_names" "length many_names = 17576"
  using letters_ok by (simp_all add: many_names_def strict_sorted_iff distinct_n_lists length_n_lists)

lemma large_identity_ok: "identity_ok large_identity"
proof -
  have "map (\<lambda>c. IdentityField_Name (cif_field c)) (cid_fields large_identity) = many_names"
    by (simp add: large_identity_def comp_def full_field_def IdentityField_Name_def)
  moreover have "\<forall>c \<in> set (cid_fields large_identity). item_ok c"
    using many_names_ok full_field_ok by (auto simp: large_identity_def)
  ultimately show ?thesis
    using many_names_sorted
    by (simp add: identity_ok_def canonical_identity_wf_def item_ok_def)
      (simp add: large_identity_def identifierPattern_def is_lower_alpha_def is_ident_byte_def in_range_def)
qed

lemma large_root_bytes:
  "MaxCanonicalEnvelopeBytes < envelope_bytes (EnvelopeData (identity_descriptor FingerprintKindFactoryState large_identity) None (Some large_identity) [] None)"
proof -
  let ?fields = "JArray (map (identity_field_json \<circ> fieldToWire) (cid_fields large_identity))"
  have field: "4096 \<le> length (json_Marshal (identity_field_json (fieldToWire (full_field n))))" for n
  proof -
    have "fw_Text (fieldToWire (full_field n)) = Some (replicate MaxCanonicalStringBytes (CHR ''x''))"
      by (simp add: fieldToWire_def full_field_def field_accessors)
    from text_field_bytes [OF this] show ?thesis by (simp add: canonical_limits)
  qed
  have "4096 * length ns \<le> sum_list (map (length \<circ> json_Marshal) (map (identity_field_json \<circ> fieldToWire) (map full_field ns)))" for ns
    using field by (induction ns) (simp_all add: add_mono)
  from this [of many_names] json_array_bytes [of "map (identity_field_json \<circ> fieldToWire) (cid_fields large_identity)"]
  have "71991296 \<le> length (json_Marshal ?fields)"
    using many_names_sorted(2) by (simp add: large_identity_def)
  also have "\<dots> \<le> length (json_Marshal (JObject [(''fields'', ?fields)]))" using json_member_bytes [of "(''fields'', ?fields)"] by simp
  also have "\<dots> \<le> envelope_bytes (EnvelopeData (identity_descriptor FingerprintKindFactoryState large_identity) None (Some large_identity) [] None)"
    unfolding envelope_bytes_def envelope_json.simps
    using json_member_bytes [of "(''subject'', JObject [(''fields'', ?fields)])"]
    by (auto simp: identity_descriptor_def canonical_identity_Fields_def simp del: json_Marshal.simps)
  finally show ?thesis by (simp add: MaxCanonicalEnvelopeBytes_def)
qed

text \<open>
  a root can be too large for a recipe without any error: the identity above is accepted by
  \<^verbatim>\<open>NewFactoryEnvelope\<close>, \<^verbatim>\<open>NewCanonicalRecipeEnvelope\<close> succeeds on the envelope, and the recipe has
  an empty root, so that printing it fails.
\<close>

theorem large_root_is_lost:
  "\<exists>root. NewFactoryEnvelope (Some large_identity) = Inr root \<and> constructed_envelope root
     \<and> NewCanonicalRecipeEnvelope root [] = Inr (Some \<lparr>cl_anchor = None, cl_steps = []\<rparr>)
     \<and> marshalCanonicalLineage (Some \<lparr>cl_anchor = None, cl_steps = []\<rparr>) = Inl (canonicalInvalid CodeShapeInvalid ''$'')"
proof -
  let ?root = "EnvelopeData (identity_descriptor FingerprintKindFactoryState large_identity) None (Some large_identity) [] None"
  have new: "NewFactoryEnvelope (Some large_identity) = Inr (Some ?root)"
    using NewIdentityEnvelope_ok(1) large_identity_ok by (simp add: identity_ok_def)
  have ok: "envelope_ok ?root" using envelope_ok.identity_ok large_identity_ok by (simp add: identity_kinds_def)
  have "NewCanonicalRecipeEnvelope (Some ?root) [] = Inr (Some \<lparr>cl_anchor = None, cl_steps = []\<rparr>)"
    by (rule oversized_root_is_lost [OF ok _ large_root_bytes]) (simp add: identity_descriptor_def)
  with new ok ok_constructed show ?thesis by (auto simp: marshalCanonicalLineage_def Envelope_MarshalJSON_def)
qed

subsection \<open>A small envelope\<close>

definition ex_item :: "bytes \<Rightarrow> canonicalIdentityField" where
  "ex_item txt = \<lparr>cif_field = Some \<lparr>if_name = ''digest'', if_kind = IdentityFieldText, if_payload = txt, if_text = txt, if_value = None,
     if_reference = None, if_commitment = hashBytes (field_preimage ''digest'' identityFieldTextTag txt)\<rparr>,
     cif_disclosure = DisclosureProtected\<rparr>"

definition ex_transform_identity :: "bytes \<Rightarrow> canonicalIdentityData" where
  "ex_transform_identity txt = \<lparr>cid_provider = ''docker'', cid_semanticKind = ''image'', cid_identitySchema = ''docker.image'',
     cid_fields = [ex_item txt]\<rparr>"

lemma ex_transform_identity_ok: "identity_ok (ex_transform_identity ''abc'')" "identity_ok (ex_transform_identity ''xyz'')"
  by (simp_all add: identity_ok_def canonical_identity_wf_def ex_transform_identity_def item_ok_def item_wf_def field_of_def ex_item_def
      field_wf_def ValidString_ascii canonical_limits identifierPattern_def is_lower_alpha_def is_ident_byte_def in_range_def)

definition ex_envelope :: "bytes \<Rightarrow> fingerprintEnvelopeData" where
  "ex_envelope txt = EnvelopeData (identity_descriptor FingerprintKindTransform (ex_transform_identity txt)) None (Some (ex_transform_identity txt)) [] None"

lemma ex_envelope_constructed: "constructed_envelope (Some (ex_envelope ''abc''))" "constructed_envelope (Some (ex_envelope ''xyz''))"
  using NewIdentityEnvelope_ok(2) ex_transform_identity_ok constructed_envelope.transform_envelope
  unfolding ex_envelope_def identity_ok_def by blast+

lemma ex_envelope_bytes: "envelope_bytes (ex_envelope ''abc'') \<le> MaxCanonicalEnvelopeBytes"
proof -
  have "json_bound (envelope_json (ex_envelope ''abc'')) \<le> MaxCanonicalEnvelopeBytes"
    by (simp add: ex_envelope_def identity_descriptor_def hashBytes_def canonical_identity_Fields_def ex_transform_identity_def ex_item_def
        descriptor_json_def descriptorToWire_def identity_field_json_def fieldToWire_def field_accessors omit_empty_def
        CanonicalEnvelopeVersion_def CanonicalSchemaVersion_def CanonicalTransformDomain_def
        MaxCanonicalEnvelopeBytes_def IdentityFieldText_def DisclosureProtected_def)
      (simp add: FingerprintKindTransform_def)
  then show ?thesis using json_bound_le order_trans unfolding envelope_bytes_def by blast
qed

theorem envelope_roundtrip_witness:
  "\<exists>w. Envelope_MarshalJSON (Some (ex_envelope ''abc'')) = Inr w
     \<and> Envelope_UnmarshalJSON (envelope_bytes (ex_envelope ''abc'')) (Inr w) = Inr (Some (ex_envelope ''abc''))"
  using envelope_roundtrip [OF ex_envelope_constructed(1) ex_envelope_bytes] .

theorem decoded_envelope_is_constructed_witness:
  "\<exists>n w e. Envelope_UnmarshalJSON n (Inr w) = Inr e \<and> constructed_envelope e"
proof -
  obtain w where "envelope_from_wire w = Inr (ex_envelope ''abc'')"
    using constructed_ok [OF ex_envelope_constructed(1)] envelope_wire_roundtrip by auto
  then have "Envelope_UnmarshalJSON (envelope_bytes (ex_envelope ''abc'')) (Inr w) = Inr (Some (ex_envelope ''abc''))"
    using ex_envelope_bytes by (simp add: Envelope_UnmarshalJSON_def decode_envelope_def)
  with decoded_envelope_is_constructed [OF this] show ?thesis by blast
qed


end
