(* ===== verification/Alias_Document.thy ===== *)
theory Alias_Document
  imports Declarations_Props
begin

text \<open>
  Package \<^verbatim>\<open>composition\<close>, first part: \<^verbatim>\<open>errors.go\<close> (the structured error with its cycle and
  candidate contexts), \<^verbatim>\<open>validation.go\<close> (names, bounds, pointers, checked addition) and
  \<^verbatim>\<open>document.go\<close> (the immutable alias document, its constructor, its wire form and its
  decoder).  A Go \<^verbatim>\<open>map[string]T\<close> is the list of its entries with pairwise distinct keys;
  \<^verbatim>\<open>int\<close> values stay far below the machine width because every addition is checked against a
  small maximum.  The JSON text layer is not modelled: \<open>aliasRaw\<close> holds what the decoder
  reads from one raw alias value.
\<close>

subsection \<open>Errors (errors.go)\<close>

datatype ErrorCode =
    CodeInvalidDocument | CodeMissingReference | CodeAmbiguousReference
  | CodeWrongReferenceKind | CodeCycle | CodeExpansionTooLarge

fun ErrorCode_text :: "ErrorCode \<Rightarrow> bytes" where
  "ErrorCode_text CodeInvalidDocument = ''invalid_document''"
| "ErrorCode_text CodeMissingReference = ''missing_reference''"
| "ErrorCode_text CodeAmbiguousReference = ''ambiguous_reference''"
| "ErrorCode_text CodeWrongReferenceKind = ''wrong_reference_kind''"
| "ErrorCode_text CodeCycle = ''cycle''"
| "ErrorCode_text CodeExpansionTooLarge = ''expansion_too_large''"

definition ErrInvalid :: bytes where
  "ErrInvalid = ''runtime v2 composition invalid''"

record DiagnosticReference =
  dr_Alias :: bytes
  dr_SourceID :: bytes
  dr_Pointer :: bytes

record CompositionError =
  er_Code :: ErrorCode
  er_SourceID :: bytes
  er_Pointer :: bytes
  er_cause :: "ValidationError option"
  er_cycle :: "DiagnosticReference list"
  er_candidates :: "DiagnosticReference list"

type_synonym 'a composed = "CompositionError + 'a"

definition Error_text :: "CompositionError option \<Rightarrow> bytes" where
  "Error_text err =
     (case err of None \<Rightarrow> ErrInvalid
      | Some e \<Rightarrow>
         let location = (if er_SourceID e = [] then er_Pointer e
                         else if er_Pointer e = [] then er_SourceID e
                         else er_SourceID e @ '':'' @ er_Pointer e) in
         if location = [] then ErrInvalid @ '': '' @ ErrorCode_text (er_Code e)
         else ErrInvalid @ '': '' @ ErrorCode_text (er_Code e) @ '' at '' @ location)"

definition comp_invalid :: "ErrorCode \<Rightarrow> bytes \<Rightarrow> bytes \<Rightarrow> ValidationError option \<Rightarrow> CompositionError" where
  "comp_invalid code sourceID pointer cause =
     \<lparr>er_Code = code, er_SourceID = sourceID, er_Pointer = pointer, er_cause = cause, er_cycle = [], er_candidates = []\<rparr>"

definition invalidWithCycle :: "bytes \<Rightarrow> bytes \<Rightarrow> DiagnosticReference list \<Rightarrow> CompositionError" where
  "invalidWithCycle sourceID pointer cyc =
     \<lparr>er_Code = CodeCycle, er_SourceID = sourceID, er_Pointer = pointer, er_cause = None, er_cycle = cyc, er_candidates = []\<rparr>"

definition invalidWithCandidates :: "DiagnosticReference list \<Rightarrow> CompositionError" where
  "invalidWithCandidates candidates =
     \<lparr>er_Code = CodeAmbiguousReference, er_SourceID = [], er_Pointer = [], er_cause = None, er_cycle = [],
      er_candidates = candidates\<rparr>"

lemma er_Code_simps [simp]:
  "er_Code (comp_invalid c s p v) = c" "er_Code (invalidWithCycle s p cyc) = CodeCycle"
  "er_Code (invalidWithCandidates cs) = CodeAmbiguousReference"
  by (simp_all add: comp_invalid_def invalidWithCycle_def invalidWithCandidates_def)

lemma er_location_simps [simp]:
  "er_SourceID (comp_invalid c s p v) = s" "er_Pointer (comp_invalid c s p v) = p"
  "er_SourceID (invalidWithCycle s p cyc) = s" "er_Pointer (invalidWithCycle s p cyc) = p"
  "er_cycle (comp_invalid c s p v) = []" "er_cycle (invalidWithCycle s p cyc) = cyc"
  by (simp_all add: comp_invalid_def invalidWithCycle_def)

subsection \<open>Names, bounds and pointers (validation.go)\<close>

definition AliasSchemaVersion :: bytes where
  "AliasSchemaVersion = ''sqlrs.runtime.v2.aliases.v1''"

definition ExpansionTraceSchemaVersion :: bytes where
  "ExpansionTraceSchemaVersion = ''sqlrs.runtime.v2.alias-expansion-trace.v1''"

definition MaxAliases :: nat where
  "MaxAliases = MaxTransforms"

definition MaxSourceDocuments :: nat where
  "MaxSourceDocuments = 1024"

definition MaxSourceIDBytes :: nat where
  "MaxSourceIDBytes = MaxResolvedValueBytes"

definition MaxCatalogBytes :: int where
  "MaxCatalogBytes = 33554432"

definition MaxTraceNodes :: nat where
  "MaxTraceNodes = MaxAliases + MaxTransforms"

definition MaxDiagnosticReferences :: nat where
  "MaxDiagnosticReferences = MaxAliases + 1"

definition MaxPointerBytes :: nat where
  "MaxPointerBytes = MaxResolvedValueBytes"

definition MaxErrorTextBytes :: nat where
  "MaxErrorTextBytes = 16384"

definition MaxTraceJSONBytes :: nat where
  "MaxTraceJSONBytes = 33554432"

lemmas composition_limits = MaxAliases_def MaxSourceDocuments_def MaxSourceIDBytes_def MaxCatalogBytes_def
  MaxTraceNodes_def MaxDiagnosticReferences_def MaxPointerBytes_def MaxErrorTextBytes_def MaxTraceJSONBytes_def

text \<open>\<^verbatim>\<open>aliasNamePattern\<close> is the expression of \<^verbatim>\<open>identifierPattern\<close>.\<close>

definition validAliasName :: "bytes \<Rightarrow> bool" where
  "validAliasName value \<longleftrightarrow> length value \<le> MaxIdentifierBytes \<and> identifierPattern value"

definition validateSourceID :: "bytes \<Rightarrow> bool" where
  "validateSourceID value \<longleftrightarrow> value \<noteq> [] \<and> length value \<le> MaxSourceIDBytes \<and> ValidString value"

definition validatePointer :: "bytes \<Rightarrow> bool" where
  "validatePointer value \<longleftrightarrow> length value \<le> MaxPointerBytes \<and> ValidString value"

definition checkedAdd :: "int \<Rightarrow> int \<Rightarrow> int \<Rightarrow> int option" where
  "checkedAdd left right maximum =
     (if left < 0 \<or> right < 0 \<or> left > maximum - right then None else Some (left + right))"

lemma checkedAdd_Some:
  "checkedAdd l r m = Some n \<longleftrightarrow> 0 \<le> l \<and> 0 \<le> r \<and> l + r \<le> m \<and> n = l + r"
  by (auto simp: checkedAdd_def)

text \<open>
  An oversized declaration (the whole-document code at the root path) makes its source
  oversized; every other validation error keeps its pointer and its cause.
\<close>

definition declarationError :: "ValidationError \<Rightarrow> bytes \<Rightarrow> bytes \<Rightarrow> CompositionError" where
  "declarationError err sourceID pointer =
     (if Code err = CodeTooLarge \<and> Path err = ''$'' then comp_invalid CodeExpansionTooLarge sourceID [] (Some err)
      else comp_invalid CodeInvalidDocument sourceID pointer (Some err))"

definition definitionPointer :: "bytes \<Rightarrow> bytes" where
  "definitionPointer alias = ''/aliases/'' @ alias"

definition stepPointer :: "bytes \<Rightarrow> nat \<Rightarrow> bytes \<Rightarrow> bytes" where
  "stepPointer alias index member = ''/aliases/'' @ alias @ ''/steps/'' @ itoa index @ ''/'' @ member"

fun parse_digits :: "nat \<Rightarrow> bytes \<Rightarrow> nat option" where
  "parse_digits index [] = Some index"
| "parse_digits index (digit # rest) =
     (if \<not> in_range 48 57 digit then None
      else
        let index = index * 10 + (of_char digit - 48) in
        if MaxTransforms < index then None else parse_digits index rest)"

definition parseStepPointer :: "bytes \<Rightarrow> bytes \<Rightarrow> bytes \<Rightarrow> nat option" where
  "parseStepPointer value alias member =
     (let prefix = ''/aliases/'' @ alias @ ''/steps/''; suffix = ''/'' @ member in
      if \<not> HasPrefix value prefix \<or> \<not> HasSuffix value suffix then None
      else
        let raw = TrimSuffix (TrimPrefix value prefix) suffix in
        if raw = [] \<or> (1 < length raw \<and> hd raw = CHR ''0'') then None
        else parse_digits 0 raw)"

subsection \<open>Alias documents (document.go)\<close>

type_synonym AliasKind = bytes

definition AliasKindTransform :: AliasKind where
  "AliasKindTransform = ''transform''"

definition AliasKindRecipe :: AliasKind where
  "AliasKindRecipe = ''recipe''"

record RecipeBaseInput =
  bi_Factory :: "FactoryDeclaration option"
  bi_Recipe :: bytes

record RecipeStepInput =
  st_Use :: bytes
  st_Transform :: "TransformDeclaration option"

record RecipeAliasInput =
  ri_Base :: RecipeBaseInput
  ri_Steps :: "RecipeStepInput list"

record NamedAliasInput =
  na_Name :: bytes
  na_Transform :: "TransformDeclaration option"
  na_Recipe :: "RecipeAliasInput option"

type_synonym DocumentInput = "NamedAliasInput list"

record recipeStep =
  rs_use :: bytes
  rs_transform :: "TransformDeclaration option"

record recipeAlias =
  ra_factory :: "FactoryDeclaration option"
  ra_baseRecipe :: bytes
  ra_steps :: "recipeStep list"

text \<open>The kind selects which of the two payloads of the Go struct is set.\<close>

datatype aliasDefinition = TransformAlias TransformDeclaration | RecipeAlias recipeAlias

fun definition_kind :: "aliasDefinition \<Rightarrow> AliasKind" where
  "definition_kind (TransformAlias t) = AliasKindTransform"
| "definition_kind (RecipeAlias r) = AliasKindRecipe"

record aliasDocumentData =
  ad_aliases :: "(bytes \<times> aliasDefinition) list"
  ad_canonicalBytes :: int

type_synonym AliasDocument = "aliasDocumentData option"

definition decl_bind :: "'a result \<Rightarrow> bytes \<Rightarrow> ('a \<Rightarrow> 'b composed) \<Rightarrow> 'b composed" where
  "decl_bind m pointer f = (case m of Inl err \<Rightarrow> Inl (declarationError err [] pointer) | Inr x \<Rightarrow> f x)"

definition build_step :: "bytes \<Rightarrow> nat \<Rightarrow> RecipeStepInput \<Rightarrow> recipeStep composed" where
  "build_step name index step =
     (let pointer = stepPointer name index [] in
      case st_Transform step of
        None \<Rightarrow>
          if validAliasName (st_Use step) then Inr \<lparr>rs_use = st_Use step, rs_transform = None\<rparr>
          else Inl (comp_invalid CodeInvalidDocument [] (butlast pointer) None)
      | Some transform \<Rightarrow>
          if st_Use step = []
          then decl_bind (NewTransformDeclarationDocument transform) (stepPointer name index ''transform'')
                 (\<lambda>document. Inr \<lparr>rs_use = [], rs_transform = Some (the document)\<rparr>)
          else Inl (comp_invalid CodeInvalidDocument [] (butlast pointer) None))"

fun build_steps :: "bytes \<Rightarrow> nat \<Rightarrow> RecipeStepInput list \<Rightarrow> recipeStep list composed" where
  "build_steps name index [] = Inr []"
| "build_steps name index (step # rest) =
     res_bind (build_step name index step) (\<lambda>s.
     res_bind (build_steps name (Suc index) rest) (\<lambda>ss. Inr (s # ss)))"

definition build_base :: "bytes \<Rightarrow> RecipeBaseInput \<Rightarrow> (FactoryDeclaration option \<times> bytes) composed" where
  "build_base name base =
     (let basePointer = definitionPointer name @ ''/base'' in
      case bi_Factory base of
        Some f \<Rightarrow>
          if bi_Recipe base = []
          then decl_bind (NewFactoryDeclarationDocument f) (basePointer @ ''/factory'')
                 (\<lambda>document. Inr (Some (the document), []))
          else Inl (comp_invalid CodeInvalidDocument [] basePointer None)
      | None \<Rightarrow>
          if validAliasName (bi_Recipe base) then Inr (None, bi_Recipe base)
          else Inl (comp_invalid CodeInvalidDocument [] basePointer None))"

definition buildRecipeAlias :: "bytes \<Rightarrow> RecipeAliasInput \<Rightarrow> recipeAlias composed" where
  "buildRecipeAlias name input =
     res_bind (build_base name (ri_Base input)) (\<lambda>(factory, baseRecipe).
     if MaxTransforms < length (ri_Steps input)
     then Inl (comp_invalid CodeExpansionTooLarge [] (definitionPointer name @ ''/steps'') None)
     else res_bind (build_steps name 0 (ri_Steps input)) (\<lambda>steps.
          Inr \<lparr>ra_factory = factory, ra_baseRecipe = baseRecipe, ra_steps = steps\<rparr>))"

definition buildDefinition :: "NamedAliasInput \<Rightarrow> aliasDefinition composed" where
  "buildDefinition named =
     (let pointer = definitionPointer (na_Name named) in
      case (na_Transform named, na_Recipe named) of
        (Some transform, None) \<Rightarrow>
          decl_bind (NewTransformDeclarationDocument transform) (pointer @ ''/declaration'')
            (\<lambda>document. Inr (TransformAlias (the document)))
      | (None, Some recipe) \<Rightarrow>
          res_bind (buildRecipeAlias (na_Name named) recipe) (\<lambda>r. Inr (RecipeAlias r))
      | _ \<Rightarrow> Inl (comp_invalid CodeInvalidDocument [] pointer None))"

fun build_aliases :: "(bytes \<times> aliasDefinition) list \<Rightarrow> NamedAliasInput list \<Rightarrow> (bytes \<times> aliasDefinition) list composed" where
  "build_aliases aliases [] = Inr aliases"
| "build_aliases aliases (named # rest) =
     (let pointer = definitionPointer (na_Name named) in
      if \<not> validAliasName (na_Name named) then Inl (comp_invalid CodeInvalidDocument [] pointer None)
      else if map_of aliases (na_Name named) \<noteq> None then Inl (comp_invalid CodeInvalidDocument [] pointer None)
      else res_bind (buildDefinition named) (\<lambda>d. build_aliases (aliases @ [(na_Name named, d)]) rest))"

text \<open>
  The copies go through the standalone document constructors; a value these refuse would
  come back as the zero declaration.
\<close>

definition zero_factory :: FactoryDeclaration where
  "zero_factory = \<lparr>fd_Kind = [], fd_Reference = [], fd_Arguments = [], fd_Attributes = [], fd_Inputs = [],
     fd_ExecutionEnvironment = None, fd_Deployment = None, fd_Capabilities = [], fd_Portability = []\<rparr>"

definition zero_transform :: TransformDeclaration where
  "zero_transform = \<lparr>td_Kind = [], td_Reference = [], td_Arguments = [], td_Attributes = [], td_Inputs = [],
     td_ExecutionEnvironment = None, td_Capabilities = [], td_Portability = []\<rparr>"

definition copyFactory :: "FactoryDeclaration \<Rightarrow> FactoryDeclaration" where
  "copyFactory value = (case NewFactoryDeclarationDocument value of Inr (Some f) \<Rightarrow> f | _ \<Rightarrow> zero_factory)"

definition copyTransform :: "TransformDeclaration \<Rightarrow> TransformDeclaration" where
  "copyTransform value = (case NewTransformDeclarationDocument value of Inr (Some t) \<Rightarrow> t | _ \<Rightarrow> zero_transform)"

record aliasStepWire =
  sw_Use :: "bytes option"
  sw_Transform :: "TransformDeclaration option"

record recipeBaseWire =
  bw_Factory :: "FactoryDeclaration option"
  bw_Recipe :: "bytes option"

record transformAliasWire =
  tw_Type :: "AliasKind option"
  tw_Declaration :: "TransformDeclaration option"

record recipeAliasWire =
  rw_Type :: "AliasKind option"
  rw_Base :: "recipeBaseWire option"
  rw_Steps :: "aliasStepWire list option"

datatype aliasWire = TransformWire transformAliasWire | RecipeWire recipeAliasWire

definition step_wire :: "recipeStep \<Rightarrow> aliasStepWire" where
  "step_wire step =
     (case rs_transform step of
        Some t \<Rightarrow> \<lparr>sw_Use = None, sw_Transform = Some (copyTransform t)\<rparr>
      | None \<Rightarrow> \<lparr>sw_Use = Some (rs_use step), sw_Transform = None\<rparr>)"

definition base_wire :: "recipeAlias \<Rightarrow> recipeBaseWire" where
  "base_wire r =
     (case ra_factory r of
        Some f \<Rightarrow> \<lparr>bw_Factory = Some (copyFactory f), bw_Recipe = None\<rparr>
      | None \<Rightarrow> \<lparr>bw_Factory = None, bw_Recipe = Some (ra_baseRecipe r)\<rparr>)"

fun alias_wire :: "aliasDefinition \<Rightarrow> aliasWire" where
  "alias_wire (TransformAlias t) =
     TransformWire \<lparr>tw_Type = Some AliasKindTransform, tw_Declaration = Some (copyTransform t)\<rparr>"
| "alias_wire (RecipeAlias r) =
     RecipeWire \<lparr>rw_Type = Some AliasKindRecipe, rw_Base = Some (base_wire r),
       rw_Steps = Some (map step_wire (ra_steps r))\<rparr>"

text \<open>
  \<^verbatim>\<open>json.Marshal\<close> of the wire structs: \<^verbatim>\<open>omitempty\<close> drops the nil members, a map is written in
  key order.
\<close>

definition opt_member :: "bytes \<Rightarrow> ('a \<Rightarrow> json) \<Rightarrow> 'a option \<Rightarrow> (bytes \<times> json) list" where
  "opt_member name f v = (case v of None \<Rightarrow> [] | Some x \<Rightarrow> [(name, f x)])"

definition nullable :: "('a \<Rightarrow> json) \<Rightarrow> 'a option \<Rightarrow> json" where
  "nullable f v = (case v of None \<Rightarrow> JNull | Some x \<Rightarrow> f x)"

definition step_json :: "aliasStepWire \<Rightarrow> json" where
  "step_json w = JObject (opt_member ''use'' JString (sw_Use w)
     @ opt_member ''transform'' (declaration_json \<circ> transformDeclarationWire) (sw_Transform w))"

definition base_json :: "recipeBaseWire \<Rightarrow> json" where
  "base_json w = JObject (opt_member ''factory'' (declaration_json \<circ> factoryDeclarationWire) (bw_Factory w)
     @ opt_member ''recipe'' JString (bw_Recipe w))"

fun alias_json :: "aliasWire \<Rightarrow> json" where
  "alias_json (TransformWire w) =
     JObject [(''type'', nullable JString (tw_Type w)),
       (''declaration'', nullable (declaration_json \<circ> transformDeclarationWire) (tw_Declaration w))]"
| "alias_json (RecipeWire w) =
     JObject [(''type'', nullable JString (rw_Type w)), (''base'', nullable base_json (rw_Base w)),
       (''steps'', nullable (\<lambda>ss. JArray (map step_json ss)) (rw_Steps w))]"

definition marshalUnchecked :: "(bytes \<times> aliasDefinition) list \<Rightarrow> json" where
  "marshalUnchecked aliases =
     JObject [(''schema_version'', JString AliasSchemaVersion),
       (''aliases'', JObject (map (\<lambda>(name, d). (name, alias_json (alias_wire d))) (sort_key fst aliases)))]"

definition NewAliasDocument :: "DocumentInput \<Rightarrow> AliasDocument composed" where
  "NewAliasDocument input =
     (if MaxAliases < length input then Inl (comp_invalid CodeExpansionTooLarge [] ''/aliases'' None)
      else
       res_bind (build_aliases [] input) (\<lambda>aliases.
       let raw = json_Marshal (marshalUnchecked aliases) in
       if MaxJSONBytes < length raw then Inl (comp_invalid CodeExpansionTooLarge [] [] None)
       else Inr (Some \<lparr>ad_aliases = aliases, ad_canonicalBytes = int (length raw)\<rparr>)))"

definition AliasDocument_MarshalJSON :: "AliasDocument \<Rightarrow> json composed" where
  "AliasDocument_MarshalJSON d =
     (case d of None \<Rightarrow> Inl (comp_invalid CodeInvalidDocument [] [] None)
      | Some data \<Rightarrow> Inr (marshalUnchecked (ad_aliases data)))"

text \<open>
  One raw alias value as its readers see it: whether it is \<^verbatim>\<open>null\<close>, the discriminator
  (\<open>None\<close> when the value has no string member \<^verbatim>\<open>type\<close>), and what the strict decoder of each
  variant returns.  The document reader gives the schema version and the alias map.
\<close>

record aliasRaw =
  raw_null :: bool
  raw_type :: "AliasKind option"
  raw_transform :: "transformAliasWire composed"
  raw_recipe :: "recipeAliasWire composed"

record documentWire =
  dcw_SchemaVersion :: "bytes option"
  dcw_Aliases :: "(bytes \<times> aliasRaw) list option"

definition step_input :: "aliasStepWire \<Rightarrow> RecipeStepInput" where
  "step_input w = \<lparr>st_Use = (case sw_Use w of None \<Rightarrow> [] | Some u \<Rightarrow> u), st_Transform = sw_Transform w\<rparr>"

definition base_input :: "recipeBaseWire \<Rightarrow> RecipeBaseInput" where
  "base_input w = \<lparr>bi_Factory = bw_Factory w, bi_Recipe = (case bw_Recipe w of None \<Rightarrow> [] | Some r \<Rightarrow> r)\<rparr>"

definition decode_transform_alias :: "bytes \<Rightarrow> aliasRaw \<Rightarrow> NamedAliasInput composed" where
  "decode_transform_alias name raw =
     res_bind (raw_transform raw) (\<lambda>alias.
      if tw_Type alias \<noteq> Some AliasKindTransform \<or> tw_Declaration alias = None
      then Inl (comp_invalid CodeInvalidDocument [] (definitionPointer name) None)
      else Inr \<lparr>na_Name = name, na_Transform = tw_Declaration alias, na_Recipe = None\<rparr>)"

definition decode_recipe_alias :: "bytes \<Rightarrow> aliasRaw \<Rightarrow> NamedAliasInput composed" where
  "decode_recipe_alias name raw =
     res_bind (raw_recipe raw) (\<lambda>alias.
      case (rw_Base alias, rw_Steps alias) of
        (Some base, Some steps) \<Rightarrow>
          if rw_Type alias \<noteq> Some AliasKindRecipe
          then Inl (comp_invalid CodeInvalidDocument [] (definitionPointer name) None)
          else Inr \<lparr>na_Name = name, na_Transform = None,
                    na_Recipe = Some \<lparr>ri_Base = base_input base, ri_Steps = map step_input steps\<rparr>\<rparr>
      | _ \<Rightarrow> Inl (comp_invalid CodeInvalidDocument [] (definitionPointer name) None))"

fun decode_aliases :: "(bytes \<times> aliasRaw) list \<Rightarrow> NamedAliasInput list composed" where
  "decode_aliases [] = Inr []"
| "decode_aliases ((name, raw) # rest) =
     (if \<not> validAliasName name \<or> raw_null raw \<or> raw_type raw = None
      then Inl (comp_invalid CodeInvalidDocument [] (definitionPointer name) None)
      else
       res_bind
         (if raw_type raw = Some AliasKindTransform then decode_transform_alias name raw
          else if raw_type raw = Some AliasKindRecipe then decode_recipe_alias name raw
          else Inl (comp_invalid CodeInvalidDocument [] (definitionPointer name @ ''/type'') None)) (\<lambda>named.
       res_bind (decode_aliases rest) (\<lambda>more_aliases. Inr (named # more_aliases))))"

definition decodeAliasDocument :: "documentWire composed \<Rightarrow> AliasDocument composed" where
  "decodeAliasDocument decoded =
     res_bind decoded (\<lambda>wire.
      case dcw_Aliases wire of
        None \<Rightarrow> Inl (comp_invalid CodeInvalidDocument [] [] None)
      | Some aliases \<Rightarrow>
         if dcw_SchemaVersion wire \<noteq> Some AliasSchemaVersion
         then Inl (comp_invalid CodeInvalidDocument [] [] None)
         else if MaxAliases < length aliases
         then Inl (comp_invalid CodeExpansionTooLarge [] ''/aliases'' None)
         else
          res_bind (decode_aliases (sort_key fst aliases)) (\<lambda>input.
          res_bind (NewAliasDocument input) (\<lambda>document.
          Inr (map_option (\<lambda>data. data\<lparr>ad_canonicalBytes :=
                 int (length (json_Marshal (marshalUnchecked (ad_aliases data))))\<rparr>) document))))"

text \<open>\<^verbatim>\<open>DecodeAliasDocumentJSON\<close> and \<^verbatim>\<open>UnmarshalJSON\<close>: the target is replaced only on success.\<close>

definition DecodeAliasDocumentJSON ::
    "documentWire composed \<Rightarrow> AliasDocument option \<Rightarrow> CompositionError option \<times> AliasDocument option" where
  "DecodeAliasDocumentJSON decoded target =
     (case target of None \<Rightarrow> (Some (comp_invalid CodeInvalidDocument [] [] None), None)
      | Some old \<Rightarrow>
         (case decodeAliasDocument decoded of
            Inl err \<Rightarrow> (Some err, Some old)
          | Inr value \<Rightarrow> (None, Some value)))"

end
