(* ===== verification/Expansion_Trace.thy ===== *)
theory Expansion_Trace
  imports Alias_Document
begin

text \<open>
  Package \<^verbatim>\<open>composition\<close>, \<^verbatim>\<open>trace.go\<close>: the expansion trace (a node per alias occurrence, an
  origin per output), its wire form, and the validator of the closed trace grammar that
  both the expander and the decoder run.  Go's \<^verbatim>\<open>int\<close> is \<open>int\<close>; the validator's slice accesses
  are guarded by its own range checks.
\<close>

subsection \<open>Data\<close>

record traceNodeData =
  tn_id :: int
  tn_parentID :: int
  tn_hasParent :: bool
  tn_referencePointer :: bytes
  tn_kind :: AliasKind
  tn_alias :: bytes
  tn_sourceID :: bytes
  tn_pointer :: bytes

record originData =
  og_outputIndex :: int
  og_nodeID :: int
  og_pointer :: bytes

record traceData =
  tr_nodes :: "traceNodeData list"
  tr_factory :: "originData option"
  tr_transforms :: "originData list"

type_synonym ExpansionTrace = "traceData option"

subsection \<open>Accessors\<close>

text \<open>A nil node or origin answers with the zero values of its fields.\<close>

definition TargetNodeID :: "ExpansionTrace \<Rightarrow> int" where
  "TargetNodeID t = 0"

definition Trace_Nodes :: "ExpansionTrace \<Rightarrow> traceNodeData option list" where
  "Trace_Nodes t = (case t of None \<Rightarrow> [] | Some data \<Rightarrow> map Some (tr_nodes data))"

definition Trace_Factory :: "ExpansionTrace \<Rightarrow> originData option \<times> bool" where
  "Trace_Factory t =
     (case t of None \<Rightarrow> (None, False)
      | Some data \<Rightarrow> (case tr_factory data of None \<Rightarrow> (None, False) | Some f \<Rightarrow> (Some f, True)))"

definition Trace_Transforms :: "ExpansionTrace \<Rightarrow> originData option list" where
  "Trace_Transforms t = (case t of None \<Rightarrow> [] | Some data \<Rightarrow> map Some (tr_transforms data))"

definition TraceNode_ID :: "traceNodeData option \<Rightarrow> int" where
  "TraceNode_ID n = (case n of None \<Rightarrow> 0 | Some data \<Rightarrow> tn_id data)"

definition TraceNode_ParentID :: "traceNodeData option \<Rightarrow> int \<times> bool" where
  "TraceNode_ParentID n =
     (case n of None \<Rightarrow> (0, False)
      | Some data \<Rightarrow> if tn_hasParent data then (tn_parentID data, True) else (0, False))"

definition TraceNode_ReferencePointer :: "traceNodeData option \<Rightarrow> bytes" where
  "TraceNode_ReferencePointer n = (case n of None \<Rightarrow> [] | Some data \<Rightarrow> tn_referencePointer data)"

definition TraceNode_Alias :: "traceNodeData option \<Rightarrow> bytes" where
  "TraceNode_Alias n = (case n of None \<Rightarrow> [] | Some data \<Rightarrow> tn_alias data)"

definition TransformOrigin_OutputIndex :: "originData option \<Rightarrow> int" where
  "TransformOrigin_OutputIndex g = (case g of None \<Rightarrow> 0 | Some data \<Rightarrow> og_outputIndex data)"

definition TransformOrigin_NodeID :: "originData option \<Rightarrow> int" where
  "TransformOrigin_NodeID g = (case g of None \<Rightarrow> 0 | Some data \<Rightarrow> og_nodeID data)"

definition TransformOrigin_Pointer :: "originData option \<Rightarrow> bytes" where
  "TransformOrigin_Pointer g = (case g of None \<Rightarrow> [] | Some data \<Rightarrow> og_pointer data)"

subsection \<open>Wire form\<close>

record traceNodeWire =
  nw_NodeID :: "int option"
  nw_ParentNodeID :: "int option"
  nw_ReferencePointer :: "bytes option"
  nw_Kind :: "AliasKind option"
  nw_Alias :: "bytes option"
  nw_SourceID :: "bytes option"
  nw_Pointer :: "bytes option"

record factoryOriginWire =
  fo_NodeID :: "int option"
  fo_Pointer :: "bytes option"

record transformOriginWire =
  to_OutputIndex :: "int option"
  to_NodeID :: "int option"
  to_Pointer :: "bytes option"

record traceWire =
  xw_SchemaVersion :: "bytes option"
  xw_TargetNode :: "int option"
  xw_Nodes :: "traceNodeWire list option"
  xw_Factory :: "factoryOriginWire option"
  xw_Transforms :: "transformOriginWire list option"

definition node_wire :: "traceNodeData \<Rightarrow> traceNodeWire" where
  "node_wire node =
     \<lparr>nw_NodeID = Some (tn_id node),
      nw_ParentNodeID = (if tn_hasParent node then Some (tn_parentID node) else None),
      nw_ReferencePointer = (if tn_hasParent node then Some (tn_referencePointer node) else None),
      nw_Kind = Some (tn_kind node), nw_Alias = Some (tn_alias node), nw_SourceID = Some (tn_sourceID node),
      nw_Pointer = Some (tn_pointer node)\<rparr>"

definition origin_wire :: "originData \<Rightarrow> transformOriginWire" where
  "origin_wire o' = \<lparr>to_OutputIndex = Some (og_outputIndex o'), to_NodeID = Some (og_nodeID o'), to_Pointer = Some (og_pointer o')\<rparr>"

definition traceToWire :: "traceData \<Rightarrow> traceWire" where
  "traceToWire data =
     \<lparr>xw_SchemaVersion = Some ExpansionTraceSchemaVersion, xw_TargetNode = Some 0,
      xw_Nodes = Some (map node_wire (tr_nodes data)),
      xw_Factory = map_option (\<lambda>f. \<lparr>fo_NodeID = Some (og_nodeID f), fo_Pointer = Some (og_pointer f)\<rparr>) (tr_factory data),
      xw_Transforms = Some (map origin_wire (tr_transforms data))\<rparr>"

definition node_json :: "traceNodeWire \<Rightarrow> json" where
  "node_json w = JObject ([(''node_id'', nullable JNumber (nw_NodeID w))]
     @ opt_member ''parent_node_id'' JNumber (nw_ParentNodeID w)
     @ opt_member ''reference_pointer'' JString (nw_ReferencePointer w)
     @ [(''kind'', nullable JString (nw_Kind w)), (''alias'', nullable JString (nw_Alias w)),
        (''source_id'', nullable JString (nw_SourceID w)), (''pointer'', nullable JString (nw_Pointer w))])"

definition factory_origin_json :: "factoryOriginWire \<Rightarrow> json" where
  "factory_origin_json w = JObject [(''node_id'', nullable JNumber (fo_NodeID w)), (''pointer'', nullable JString (fo_Pointer w))]"

definition transform_origin_json :: "transformOriginWire \<Rightarrow> json" where
  "transform_origin_json w = JObject [(''output_index'', nullable JNumber (to_OutputIndex w)),
     (''node_id'', nullable JNumber (to_NodeID w)), (''pointer'', nullable JString (to_Pointer w))]"

definition trace_json :: "traceWire \<Rightarrow> json" where
  "trace_json w = JObject ([(''schema_version'', nullable JString (xw_SchemaVersion w)),
     (''target_node'', nullable JNumber (xw_TargetNode w)),
     (''nodes'', nullable (\<lambda>ns. JArray (map node_json ns)) (xw_Nodes w))]
     @ opt_member ''factory'' factory_origin_json (xw_Factory w)
     @ [(''transforms'', nullable (\<lambda>os. JArray (map transform_origin_json os)) (xw_Transforms w))])"

definition trace_bytes :: "traceData \<Rightarrow> nat" where
  "trace_bytes data = length (json_Marshal (trace_json (traceToWire data)))"

definition ExpansionTrace_MarshalJSON :: "ExpansionTrace \<Rightarrow> traceWire composed" where
  "ExpansionTrace_MarshalJSON t =
     (case t of None \<Rightarrow> Inl (comp_invalid CodeInvalidDocument [] [] None)
      | Some data \<Rightarrow>
         if MaxTraceJSONBytes < trace_bytes data then Inl (comp_invalid CodeExpansionTooLarge [] [] None)
         else Inr (traceToWire data))"

subsection \<open>The trace grammar\<close>

definition node_invalid :: "traceNodeData \<Rightarrow> CompositionError" where
  "node_invalid node = comp_invalid CodeInvalidDocument (tn_sourceID node) (tn_pointer node) None"

definition doc_invalid :: CompositionError where
  "doc_invalid = comp_invalid CodeInvalidDocument [] [] None"

fun check_nodes :: "nat \<Rightarrow> traceNodeData list \<Rightarrow> unit composed" where
  "check_nodes index [] = Inr ()"
| "check_nodes index (node # rest) =
     (if tn_pointer node \<noteq> definitionPointer (tn_alias node) then Inl (node_invalid node)
      else if index = 0 \<and> tn_hasParent node then Inl (node_invalid node)
      else if index \<noteq> 0 \<and> (\<not> tn_hasParent node \<or> tn_parentID node < 0 \<or> tn_parentID node \<ge> int index)
      then Inl (node_invalid node)
      else check_nodes (Suc index) rest)"

definition validateStandaloneTrace :: "traceData \<Rightarrow> unit composed" where
  "validateStandaloneTrace data =
     (if length (tr_nodes data) \<noteq> 1 \<or> tr_factory data \<noteq> None \<or> length (tr_transforms data) \<noteq> 1
      then Inl doc_invalid
      else
        let origin = tr_transforms data ! 0; node = tr_nodes data ! 0 in
        if og_nodeID origin \<noteq> 0 \<or> og_pointer origin \<noteq> tn_pointer node @ ''/declaration''
        then Inl (comp_invalid CodeInvalidDocument (tn_sourceID node) (og_pointer origin) None)
        else Inr ())"

text \<open>
  The first loop of \<^verbatim>\<open>validateRecipeTrace\<close>: the recipe prefix of the nodes, each after the
  first hanging on its predecessor; the result is \<^verbatim>\<open>recipeCount\<close>.
\<close>

fun count_recipes :: "nat \<Rightarrow> traceNodeData option \<Rightarrow> traceNodeData list \<Rightarrow> nat composed" where
  "count_recipes recipeCount parent [] = Inr recipeCount"
| "count_recipes recipeCount parent (node # rest) =
     (if tn_kind node \<noteq> AliasKindRecipe then Inr recipeCount
      else if (case parent of None \<Rightarrow> False
               | Some p \<Rightarrow> tn_parentID node \<noteq> int recipeCount - 1
                   \<or> tn_referencePointer node \<noteq> tn_pointer p @ ''/base/recipe'')
      then Inl (comp_invalid CodeInvalidDocument (tn_sourceID node) (tn_referencePointer node) None)
      else count_recipes (Suc recipeCount) (Some node) rest)"

fun check_leaves :: "nat \<Rightarrow> traceNodeData list \<Rightarrow> unit composed" where
  "check_leaves recipeCount [] = Inr ()"
| "check_leaves recipeCount (node # rest) =
     (if tn_kind node \<noteq> AliasKindTransform \<or> tn_parentID node < 0 \<or> tn_parentID node \<ge> int recipeCount
      then Inl (node_invalid node)
      else check_leaves recipeCount rest)"

text \<open>
  The loop over the origins.  Its variables: the transform nodes already used, the next
  transform node, and the recipe and step of the previous origin.
\<close>

record originState =
  os_used :: "bool list"
  os_next :: int
  os_lastRecipe :: int
  os_lastStep :: int

definition origin_invalid :: "traceNodeData \<Rightarrow> bytes \<Rightarrow> CompositionError" where
  "origin_invalid node pointer = comp_invalid CodeInvalidDocument (tn_sourceID node) pointer None"

definition origin_position ::
    "traceNodeData list \<Rightarrow> originState \<Rightarrow> originData \<Rightarrow> (int \<times> int \<times> originState) composed" where
  "origin_position nodes st origin =
     (let node = nodes ! nat (og_nodeID origin) in
      if tn_kind node = AliasKindTransform then
        if og_nodeID origin \<noteq> os_next st \<or> os_used st ! nat (og_nodeID origin)
           \<or> og_pointer origin \<noteq> tn_pointer node @ ''/declaration''
        then Inl (origin_invalid node (og_pointer origin))
        else
          let recipeID = tn_parentID node in
          case parseStepPointer (tn_referencePointer node) (tn_alias (nodes ! nat recipeID)) ''use'' of
            None \<Rightarrow> Inl (origin_invalid node (tn_referencePointer node))
          | Some stepIndex \<Rightarrow>
              Inr (recipeID, int stepIndex,
                   st\<lparr>os_used := (os_used st)[nat (og_nodeID origin) := True], os_next := os_next st + 1\<rparr>)
      else if tn_kind node = AliasKindRecipe then
        (case parseStepPointer (og_pointer origin) (tn_alias node) ''transform'' of
           None \<Rightarrow> Inl (origin_invalid node (og_pointer origin))
         | Some stepIndex \<Rightarrow> Inr (og_nodeID origin, int stepIndex, st))
      else Inl (origin_invalid node (og_pointer origin)))"

definition check_origin :: "traceNodeData list \<Rightarrow> originState \<Rightarrow> originData \<Rightarrow> originState composed" where
  "check_origin nodes st origin =
     (if og_nodeID origin < 0 \<or> og_nodeID origin \<ge> int (length nodes)
      then Inl (comp_invalid CodeInvalidDocument [] (og_pointer origin) None)
      else
        let node = nodes ! nat (og_nodeID origin) in
        res_bind (origin_position nodes st origin) (\<lambda>(recipeID, stepIndex, st).
        if recipeID > os_lastRecipe st then Inl (origin_invalid node (og_pointer origin))
        else
          let st = (if recipeID < os_lastRecipe st then st\<lparr>os_lastRecipe := recipeID, os_lastStep := -1\<rparr> else st) in
          if stepIndex \<noteq> os_lastStep st + 1 then Inl (origin_invalid node (og_pointer origin))
          else Inr (st\<lparr>os_lastStep := stepIndex\<rparr>)))"

fun check_origins :: "traceNodeData list \<Rightarrow> originState \<Rightarrow> originData list \<Rightarrow> originState composed" where
  "check_origins nodes st [] = Inr st"
| "check_origins nodes st (origin # rest) =
     res_bind (check_origin nodes st origin) (\<lambda>st. check_origins nodes st rest)"

definition validateRecipeTrace :: "traceData \<Rightarrow> unit composed" where
  "validateRecipeTrace data =
     (let nodes = tr_nodes data in
      res_bind (count_recipes 0 None nodes) (\<lambda>recipeCount.
      if recipeCount = 0
         \<or> (case tr_factory data of None \<Rightarrow> True
            | Some f \<Rightarrow> og_nodeID f \<noteq> int recipeCount - 1
                \<or> og_pointer f \<noteq> tn_pointer (nodes ! (recipeCount - 1)) @ ''/base/factory'')
      then Inl doc_invalid
      else
       res_bind (check_leaves recipeCount (drop recipeCount nodes)) (\<lambda>_.
       res_bind (check_origins nodes \<lparr>os_used = replicate (length nodes) False, os_next = int recipeCount,
                    os_lastRecipe = int recipeCount, os_lastStep = -1\<rparr> (tr_transforms data)) (\<lambda>st.
       if os_next st \<noteq> int (length nodes) then Inl doc_invalid else Inr ()))))"

definition validateTraceData :: "traceData \<Rightarrow> unit composed" where
  "validateTraceData data =
     (case tr_nodes data of [] \<Rightarrow> Inl doc_invalid
      | node0 # _ \<Rightarrow>
         res_bind (check_nodes 0 (tr_nodes data)) (\<lambda>_.
         if tn_kind node0 = AliasKindTransform then validateStandaloneTrace data
         else if tn_kind node0 \<noteq> AliasKindRecipe then Inl (node_invalid node0)
         else validateRecipeTrace data))"

definition newTrace :: "traceData \<Rightarrow> ExpansionTrace composed" where
  "newTrace data =
     (if MaxTraceNodes < length (tr_nodes data) \<or> MaxTransforms < length (tr_transforms data)
      then Inl (comp_invalid CodeExpansionTooLarge [] [] None)
      else
       res_bind (validateTraceData data) (\<lambda>_.
       if MaxTraceJSONBytes < trace_bytes data then Inl (comp_invalid CodeExpansionTooLarge [] [] None)
       else Inr (Some data)))"

subsection \<open>Decoding\<close>

definition node_from_wire :: "nat \<Rightarrow> traceNodeWire \<Rightarrow> traceNodeData composed" where
  "node_from_wire index w =
     (case (nw_NodeID w, nw_Kind w, nw_Alias w, nw_SourceID w, nw_Pointer w) of
        (Some nodeID, Some kind, Some alias, Some sourceID, Some pointer) \<Rightarrow>
          if nodeID \<noteq> int index \<or> \<not> validAliasName alias \<or> \<not> validateSourceID sourceID \<or> \<not> validatePointer pointer
          then Inl doc_invalid
          else
            let node = \<lparr>tn_id = int index, tn_parentID = 0, tn_hasParent = False, tn_referencePointer = [],
                        tn_kind = kind, tn_alias = alias, tn_sourceID = sourceID, tn_pointer = pointer\<rparr> in
            (case (nw_ParentNodeID w, nw_ReferencePointer w) of
               (None, None) \<Rightarrow> Inr node
             | (Some parent, Some reference) \<Rightarrow>
                 if \<not> validatePointer reference then Inl doc_invalid
                 else Inr (node\<lparr>tn_hasParent := True, tn_parentID := parent, tn_referencePointer := reference\<rparr>)
             | _ \<Rightarrow> Inl doc_invalid)
      | _ \<Rightarrow> Inl doc_invalid)"

fun nodes_from_wire :: "nat \<Rightarrow> traceNodeWire list \<Rightarrow> traceNodeData list composed" where
  "nodes_from_wire index [] = Inr []"
| "nodes_from_wire index (w # ws) =
     res_bind (node_from_wire index w) (\<lambda>n. res_bind (nodes_from_wire (Suc index) ws) (\<lambda>ns. Inr (n # ns)))"

definition factory_from_wire :: "factoryOriginWire \<Rightarrow> originData composed" where
  "factory_from_wire w =
     (case (fo_NodeID w, fo_Pointer w) of
        (Some nodeID, Some pointer) \<Rightarrow>
          if \<not> validatePointer pointer then Inl doc_invalid
          else Inr \<lparr>og_outputIndex = 0, og_nodeID = nodeID, og_pointer = pointer\<rparr>
      | _ \<Rightarrow> Inl doc_invalid)"

fun origins_from_wire :: "nat \<Rightarrow> transformOriginWire list \<Rightarrow> originData list composed" where
  "origins_from_wire index [] = Inr []"
| "origins_from_wire index (w # ws) =
     (case (to_OutputIndex w, to_NodeID w, to_Pointer w) of
        (Some outputIndex, Some nodeID, Some pointer) \<Rightarrow>
          if outputIndex \<noteq> int index \<or> \<not> validatePointer pointer then Inl doc_invalid
          else res_bind (origins_from_wire (Suc index) ws) (\<lambda>os.
                 Inr (\<lparr>og_outputIndex = int index, og_nodeID = nodeID, og_pointer = pointer\<rparr> # os))
      | _ \<Rightarrow> Inl doc_invalid)"

definition traceFromWire :: "traceWire \<Rightarrow> traceData composed" where
  "traceFromWire wire =
     (case (xw_Nodes wire, xw_Transforms wire) of
        (Some nodes, Some transforms) \<Rightarrow>
          if xw_SchemaVersion wire \<noteq> Some ExpansionTraceSchemaVersion \<or> xw_TargetNode wire \<noteq> Some 0 then Inl doc_invalid
          else if MaxTraceNodes < length nodes \<or> MaxTransforms < length transforms
          then Inl (comp_invalid CodeExpansionTooLarge [] [] None)
          else
           res_bind (nodes_from_wire 0 nodes) (\<lambda>ns.
           res_bind (case xw_Factory wire of None \<Rightarrow> Inr None | Some f \<Rightarrow> res_map Some (factory_from_wire f)) (\<lambda>factory.
           res_bind (origins_from_wire 0 transforms) (\<lambda>os.
           let data = \<lparr>tr_nodes = ns, tr_factory = factory, tr_transforms = os\<rparr> in
           res_bind (validateTraceData data) (\<lambda>_. Inr data))))
      | _ \<Rightarrow> Inl doc_invalid)"

definition DecodeExpansionTraceJSON ::
    "traceWire composed \<Rightarrow> ExpansionTrace option \<Rightarrow> CompositionError option \<times> ExpansionTrace option" where
  "DecodeExpansionTraceJSON decoded target =
     (case target of None \<Rightarrow> (Some doc_invalid, None)
      | Some old \<Rightarrow>
         (case res_bind decoded traceFromWire of
            Inl err \<Rightarrow> (Some err, Some old)
          | Inr value \<Rightarrow> (None, Some (Some value))))"

end
