(* ===== verification/Alias_Catalog.thy ===== *)
theory Alias_Catalog
  imports Expansion_Trace
begin

text \<open>
  Package \<^verbatim>\<open>composition\<close>, \<^verbatim>\<open>catalog.go\<close> and \<^verbatim>\<open>expand.go\<close>: the flat namespace built from source
  documents and the deterministic expansion of one alias, with its byte charge, its trace
  and its cycle detection.
\<close>

subsection \<open>Catalogs (catalog.go)\<close>

record SourceDocument =
  sd_SourceID :: bytes
  sd_Document :: AliasDocument

record catalogEntry =
  en_name :: bytes
  en_sourceID :: bytes
  en_definition :: aliasDefinition

type_synonym catalogData = "(bytes \<times> catalogEntry) list"
type_synonym Catalog = "catalogData option"

definition clone_step :: "recipeStep \<Rightarrow> recipeStep" where
  "clone_step step = \<lparr>rs_use = rs_use step, rs_transform = map_option copyTransform (rs_transform step)\<rparr>"

fun cloneDefinition :: "aliasDefinition \<Rightarrow> aliasDefinition" where
  "cloneDefinition (TransformAlias t) = TransformAlias (copyTransform t)"
| "cloneDefinition (RecipeAlias r) =
     RecipeAlias \<lparr>ra_factory = map_option copyFactory (ra_factory r), ra_baseRecipe = ra_baseRecipe r,
       ra_steps = map clone_step (ra_steps r)\<rparr>"

fun check_sources :: "bytes option \<Rightarrow> SourceDocument list \<Rightarrow> unit composed" where
  "check_sources previous [] = Inr ()"
| "check_sources previous (source # rest) =
     (if \<not> validateSourceID (sd_SourceID source) \<or> previous = Some (sd_SourceID source)
      then Inl (comp_invalid CodeInvalidDocument (sd_SourceID source) [] None)
      else check_sources (Some (sd_SourceID source)) rest)"

fun check_documents :: "SourceDocument list \<Rightarrow> unit composed" where
  "check_documents [] = Inr ()"
| "check_documents (source # rest) =
     (if sd_Document source = None then Inl (comp_invalid CodeInvalidDocument (sd_SourceID source) [] None)
      else check_documents rest)"

definition document_of :: "SourceDocument \<Rightarrow> aliasDocumentData" where
  "document_of source = the (sd_Document source)"

fun check_totals :: "int \<Rightarrow> int \<Rightarrow> SourceDocument list \<Rightarrow> unit composed" where
  "check_totals totalBytes totalDefinitions [] = Inr ()"
| "check_totals totalBytes totalDefinitions (source # rest) =
     (case checkedAdd (totalBytes + int (length (sd_SourceID source))) (ad_canonicalBytes (document_of source)) MaxCatalogBytes of
        None \<Rightarrow> Inl (comp_invalid CodeExpansionTooLarge [] [] None)
      | Some totalBytes \<Rightarrow>
         (case checkedAdd totalDefinitions (int (length (ad_aliases (document_of source)))) (int MaxAliases) of
            None \<Rightarrow> Inl (comp_invalid CodeExpansionTooLarge [] [] None)
          | Some totalDefinitions \<Rightarrow> check_totals totalBytes totalDefinitions rest))"

definition source_entries :: "SourceDocument \<Rightarrow> catalogEntry list" where
  "source_entries source =
     map (\<lambda>(name, d). \<lparr>en_name = name, en_sourceID = sd_SourceID source, en_definition = cloneDefinition d\<rparr>)
       (sort_key fst (ad_aliases (document_of source)))"

text \<open>\<^verbatim>\<open>candidates[name] = append(candidates[name], entry)\<close>\<close>

fun add_candidate :: "catalogEntry \<Rightarrow> (bytes \<times> catalogEntry list) list \<Rightarrow> (bytes \<times> catalogEntry list) list" where
  "add_candidate entry [] = [(en_name entry, [entry])]"
| "add_candidate entry ((name, entries) # rest) =
     (if name = en_name entry then (name, entries @ [entry]) # rest
      else (name, entries) # add_candidate entry rest)"

definition collect_candidates :: "SourceDocument list \<Rightarrow> (bytes \<times> catalogEntry list) list" where
  "collect_candidates ordered = fold add_candidate (concat (map source_entries ordered)) []"

definition entry_reference :: "catalogEntry \<Rightarrow> DiagnosticReference" where
  "entry_reference entry =
     \<lparr>dr_Alias = en_name entry, dr_SourceID = en_sourceID entry, dr_Pointer = definitionPointer (en_name entry)\<rparr>"

fun check_ambiguity :: "(bytes \<times> catalogEntry list) list \<Rightarrow> unit composed" where
  "check_ambiguity [] = Inr ()"
| "check_ambiguity ((name, entries) # rest) =
     (if length entries \<le> 1 then check_ambiguity rest
      else Inl (invalidWithCandidates (map entry_reference entries)))"

definition NewCatalog :: "SourceDocument list \<Rightarrow> Catalog composed" where
  "NewCatalog sources =
     (if MaxSourceDocuments < length sources then Inl (comp_invalid CodeExpansionTooLarge [] [] None)
      else
        let ordered = sort_key sd_SourceID sources in
        res_bind (check_sources None ordered) (\<lambda>_.
        res_bind (check_documents ordered) (\<lambda>_.
        res_bind (check_totals 0 0 ordered) (\<lambda>_.
        let candidates = collect_candidates ordered in
        res_bind (check_ambiguity (sort_key fst candidates)) (\<lambda>_.
        Inr (Some (map (\<lambda>(name, entries). (name, hd entries)) candidates)))))))"

subsection \<open>Expansion (expand.go)\<close>

record expandedRecipeData =
  xr_declaration :: "recipeDeclarationData option"
  xr_trace :: ExpansionTrace

record expandedTransformData =
  xt_declaration :: "TransformDeclaration option"
  xt_trace :: ExpansionTrace

type_synonym ExpandedRecipe = "expandedRecipeData option"
type_synonym ExpandedTransform = "expandedTransformData option"

definition ExpandedRecipe_Declaration :: "ExpandedRecipe \<Rightarrow> recipeDeclarationData option" where
  "ExpandedRecipe_Declaration e = (case e of None \<Rightarrow> None | Some data \<Rightarrow> xr_declaration data)"

definition ExpandedRecipe_Trace :: "ExpandedRecipe \<Rightarrow> ExpansionTrace" where
  "ExpandedRecipe_Trace e = (case e of None \<Rightarrow> None | Some data \<Rightarrow> xr_trace data)"

definition ExpandTransform :: "Catalog \<Rightarrow> bytes \<Rightarrow> ExpandedTransform composed" where
  "ExpandTransform c name =
     (case c of None \<Rightarrow> Inl (comp_invalid CodeInvalidDocument [] [] None)
      | Some aliases \<Rightarrow>
        if \<not> validAliasName name then Inl (comp_invalid CodeInvalidDocument [] [] None)
        else (case map_of aliases name of None \<Rightarrow> Inl (comp_invalid CodeMissingReference [] [] None)
          | Some entry \<Rightarrow>
            (case en_definition entry of
               RecipeAlias r \<Rightarrow> Inl (comp_invalid CodeWrongReferenceKind (en_sourceID entry) (definitionPointer name) None)
             | TransformAlias t \<Rightarrow>
                let declaration = (case NewTransformDeclarationDocument t of Inl _ \<Rightarrow> None | Inr d \<Rightarrow> d);
                    node = \<lparr>tn_id = 0, tn_parentID = 0, tn_hasParent = False, tn_referencePointer = [],
                            tn_kind = AliasKindTransform, tn_alias = name, tn_sourceID = en_sourceID entry,
                            tn_pointer = definitionPointer name\<rparr> in
                res_bind (newTrace \<lparr>tr_nodes = [node], tr_factory = None,
                    tr_transforms = [\<lparr>og_outputIndex = 0, og_nodeID = 0, og_pointer = tn_pointer node @ ''/declaration''\<rparr>]\<rparr>)
                  (\<lambda>trace. Inr (Some \<lparr>xt_declaration = declaration, xt_trace = trace\<rparr>)))))"

text \<open>
  The walk down the base chain.  \<open>active\<close> maps the recipes of the chain to their
  positions; the walk stops at a recipe with a factory, at a bad reference, or at the
  first recipe it meets again, so it visits every definition of the catalog at most once.
\<close>

definition recipe_of :: "catalogEntry \<Rightarrow> recipeAlias" where
  "recipe_of entry =
     (case en_definition entry of RecipeAlias r \<Rightarrow> r
      | TransformAlias _ \<Rightarrow> \<lparr>ra_factory = None, ra_baseRecipe = [], ra_steps = []\<rparr>)"

definition is_recipe :: "catalogEntry \<Rightarrow> bool" where
  "is_recipe entry \<longleftrightarrow> definition_kind (en_definition entry) = AliasKindRecipe"

definition entry_names :: "catalogData \<Rightarrow> bytes set" where
  "entry_names aliases = en_name ` snd ` set aliases"

function base_chain ::
    "catalogData \<Rightarrow> (bytes \<times> nat) list \<Rightarrow> catalogEntry list \<Rightarrow> catalogEntry \<Rightarrow> catalogEntry list composed" where
  "base_chain aliases active chain current =
     (let active = (en_name current, length chain) # active;
          chain = chain @ [current];
          recipe = recipe_of current in
      if ra_factory recipe \<noteq> None then Inr chain
      else
        let pointer = definitionPointer (en_name current) @ ''/base/recipe'' in
        case map_of aliases (ra_baseRecipe recipe) of
          None \<Rightarrow> Inl (comp_invalid CodeMissingReference (en_sourceID current) pointer None)
        | Some child \<Rightarrow>
            if \<not> is_recipe child then Inl (comp_invalid CodeWrongReferenceKind (en_sourceID current) pointer None)
            else (case map_of active (en_name child) of
                Some first \<Rightarrow>
                  Inl (invalidWithCycle (en_sourceID current) pointer
                         (map entry_reference (drop first chain) @ [entry_reference child]))
              | None \<Rightarrow> base_chain aliases active chain child))"
  by pat_completeness auto
termination
proof (relation "measure (\<lambda>(aliases, active, chain, current).
    card (entry_names aliases - insert (en_name current) (fst ` set active)))", goal_cases)
  case 1
  show ?case by simp
next
  case (2 aliases active chain current active' chain' recipe pointer child)
  have child: "en_name child \<in> entry_names aliases"
    using 2(6) by (force simp: entry_names_def dest: map_of_SomeD)
  have new: "en_name child \<notin> insert (en_name current) (fst ` set active)"
    using 2(8) unfolding 2(1) by (simp add: map_of_eq_None_iff split: if_splits)
  have "card (entry_names aliases - insert (en_name child) (insert (en_name current) (fst ` set active)))
      < card (entry_names aliases - insert (en_name current) (fst ` set active))"
    by (rule psubset_card_mono) (use child new in \<open>auto simp: entry_names_def\<close>)
  then show ?case using 2(1) by simp
qed

declare base_chain.simps [simp del]

definition chain_node :: "catalogEntry list \<Rightarrow> nat \<Rightarrow> traceNodeData" where
  "chain_node chain index =
     (let entry = chain ! index in
      \<lparr>tn_id = int index, tn_parentID = (if 0 < index then int index - 1 else 0), tn_hasParent = 0 < index,
       tn_referencePointer = (if 0 < index then definitionPointer (en_name (chain ! (index - 1))) @ ''/base/recipe'' else []),
       tn_kind = AliasKindRecipe, tn_alias = en_name entry, tn_sourceID = en_sourceID entry,
       tn_pointer = definitionPointer (en_name entry)\<rparr>)"

record expansion =
  ex_transforms :: "TransformDeclaration list"
  ex_origins :: "originData list"
  ex_nodes :: "traceNodeData list"
  ex_used :: int

text \<open>
  The closure \<^verbatim>\<open>charge\<close>: the bytes of one transform, a comma before every one but the first,
  added to the bytes used so far.
\<close>

definition charge :: "TransformDeclaration \<Rightarrow> expansion \<Rightarrow> expansion option" where
  "charge value x =
     (case TransformDeclaration_MarshalJSON value of Inl _ \<Rightarrow> None
      | Inr wire \<Rightarrow>
         let n = int (length (json_Marshal (declaration_json wire))) + (if ex_transforms x \<noteq> [] then 1 else 0) in
         map_option (\<lambda>next. x\<lparr>ex_used := next\<rparr>) (checkedAdd (ex_used x) n (int MaxJSONBytes)))"

definition too_large :: "catalogEntry \<Rightarrow> CompositionError" where
  "too_large target = comp_invalid CodeExpansionTooLarge (en_sourceID target) (definitionPointer (en_name target)) None"

definition expand_step ::
    "catalogData \<Rightarrow> catalogEntry \<Rightarrow> nat \<Rightarrow> catalogEntry \<Rightarrow> nat \<Rightarrow> recipeStep \<Rightarrow> expansion \<Rightarrow> expansion composed" where
  "expand_step aliases target recipeIndex entry stepIndex step x =
     (case rs_transform step of
        Some transform \<Rightarrow>
          if MaxTransforms \<le> length (ex_transforms x) then Inl (too_large target)
          else (case charge transform x of None \<Rightarrow> Inl (too_large target)
            | Some x \<Rightarrow>
               Inr (x\<lparr>ex_transforms := ex_transforms x @ [copyTransform transform],
                      ex_origins := ex_origins x @ [\<lparr>og_outputIndex = int (length (ex_origins x)),
                        og_nodeID = int recipeIndex, og_pointer = stepPointer (en_name entry) stepIndex ''transform''\<rparr>]\<rparr>))
      | None \<Rightarrow>
          let pointer = stepPointer (en_name entry) stepIndex ''use'' in
          (case map_of aliases (rs_use step) of
             None \<Rightarrow> Inl (comp_invalid CodeMissingReference (en_sourceID entry) pointer None)
           | Some child \<Rightarrow>
             (case en_definition child of
                RecipeAlias _ \<Rightarrow> Inl (comp_invalid CodeWrongReferenceKind (en_sourceID entry) pointer None)
              | TransformAlias transform \<Rightarrow>
                 if MaxTransforms \<le> length (ex_transforms x) \<or> MaxTraceNodes \<le> length (ex_nodes x) then Inl (too_large target)
                 else (case charge transform x of None \<Rightarrow> Inl (too_large target)
                   | Some x \<Rightarrow>
                      let nodeID = int (length (ex_nodes x)) in
                      Inr (x\<lparr>ex_transforms := ex_transforms x @ [copyTransform transform],
                             ex_nodes := ex_nodes x @ [\<lparr>tn_id = nodeID, tn_parentID = int recipeIndex, tn_hasParent = True,
                               tn_referencePointer = pointer, tn_kind = AliasKindTransform, tn_alias = en_name child,
                               tn_sourceID = en_sourceID child, tn_pointer = definitionPointer (en_name child)\<rparr>],
                             ex_origins := ex_origins x @ [\<lparr>og_outputIndex = int (length (ex_origins x)),
                               og_nodeID = nodeID, og_pointer = definitionPointer (en_name child) @ ''/declaration''\<rparr>]\<rparr>)))))"

fun expand_steps ::
    "catalogData \<Rightarrow> catalogEntry \<Rightarrow> nat \<Rightarrow> catalogEntry \<Rightarrow> nat \<Rightarrow> recipeStep list \<Rightarrow> expansion \<Rightarrow> expansion composed" where
  "expand_steps aliases target recipeIndex entry stepIndex [] x = Inr x"
| "expand_steps aliases target recipeIndex entry stepIndex (step # rest) x =
     res_bind (expand_step aliases target recipeIndex entry stepIndex step x)
       (expand_steps aliases target recipeIndex entry (Suc stepIndex) rest)"

fun expand_chain ::
    "catalogData \<Rightarrow> catalogEntry \<Rightarrow> (nat \<times> catalogEntry) list \<Rightarrow> expansion \<Rightarrow> expansion composed" where
  "expand_chain aliases target [] x = Inr x"
| "expand_chain aliases target ((recipeIndex, entry) # rest) x =
     res_bind (expand_steps aliases target recipeIndex entry 0 (ra_steps (recipe_of entry)) x)
       (expand_chain aliases target rest)"

text \<open>\<^verbatim>\<open>len(json.Marshal(empty))\<close>: marshalling validates the recipe once more.\<close>

definition empty_recipe_bytes :: "FactoryDeclaration \<Rightarrow> int option" where
  "empty_recipe_bytes factory =
     (case NewRecipeDeclaration factory [] of Inl _ \<Rightarrow> None
      | Inr emptyRecipe \<Rightarrow>
         (case RecipeDeclaration_MarshalJSON emptyRecipe of Inl _ \<Rightarrow> None
          | Inr wire \<Rightarrow> Some (int (length (json_Marshal (recipe_json (the (rdw_Factory wire)) (the (rdw_Transforms wire))))))))"

definition expand_target :: "catalogData \<Rightarrow> catalogEntry \<Rightarrow> catalogEntry list \<Rightarrow> ExpandedRecipe composed" where
  "expand_target aliases target chain =
     (let factory = copyFactory (the (ra_factory (recipe_of (last chain))));
          factoryOrigin = \<lparr>og_outputIndex = 0, og_nodeID = int (length chain) - 1,
            og_pointer = definitionPointer (en_name (last chain)) @ ''/base/factory''\<rparr> in
      case empty_recipe_bytes factory of None \<Rightarrow> Inl (too_large target)
      | Some used \<Rightarrow>
         res_bind (expand_chain aliases target (rev (enumerate 0 chain))
             \<lparr>ex_transforms = [], ex_origins = [], ex_nodes = map (chain_node chain) [0..<length chain], ex_used = used\<rparr>) (\<lambda>x.
         case NewRecipeDeclaration factory (ex_transforms x) of Inl _ \<Rightarrow> Inl (too_large target)
         | Inr declaration \<Rightarrow>
            (case newTrace \<lparr>tr_nodes = ex_nodes x, tr_factory = Some factoryOrigin, tr_transforms = ex_origins x\<rparr> of
               Inl _ \<Rightarrow> Inl (too_large target)
             | Inr trace \<Rightarrow> Inr (Some \<lparr>xr_declaration = declaration, xr_trace = trace\<rparr>))))"

definition ExpandRecipe :: "Catalog \<Rightarrow> bytes \<Rightarrow> ExpandedRecipe composed" where
  "ExpandRecipe c name =
     (case c of None \<Rightarrow> Inl (comp_invalid CodeInvalidDocument [] [] None)
      | Some aliases \<Rightarrow>
        if \<not> validAliasName name then Inl (comp_invalid CodeInvalidDocument [] [] None)
        else (case map_of aliases name of None \<Rightarrow> Inl (comp_invalid CodeMissingReference [] [] None)
          | Some target \<Rightarrow>
             if \<not> is_recipe target
             then Inl (comp_invalid CodeWrongReferenceKind (en_sourceID target) (definitionPointer name) None)
             else res_bind (base_chain aliases [] [] target) (expand_target aliases target)))"

end
