(* ===== verification/Alias_Document_Props.thy ===== *)
theory Alias_Document_Props
  imports Alias_Catalog
begin

text \<open>
  Alias documents and catalogs: decimal step pointers are read back exactly, the stored
  declarations are fixed points of the copies the code makes of them, a document survives
  its wire form, and a catalog is a function of the set of its sources.
\<close>

subsection \<open>Decimal text\<close>

definition is_digit :: "byte \<Rightarrow> bool" where
  "is_digit c \<longleftrightarrow> in_range 48 57 c"

definition digit_byte :: "nat \<Rightarrow> byte" where
  "digit_byte d = char_of (48 + d)"

lemma of_digit_byte [simp]: "d < 10 \<Longrightarrow> of_char (digit_byte d) = 48 + d"
  by (simp add: digit_byte_def)

lemma is_digit_byte [simp]: "d < 10 \<Longrightarrow> is_digit (digit_byte d)"
  by (simp add: is_digit_def in_range_def)

lemma digit_byteI: "is_digit c \<Longrightarrow> c = digit_byte (of_char c - 48)"
  by (auto simp: is_digit_def in_range_def digit_byte_def)

lemma itoa_loop_append: "itoa_loop v buf = itoa_loop v [] @ buf"
proof (induction v arbitrary: buf rule: less_induct)
  case (less v)
  show ?case
  proof (cases "0 < v")
    case True
    then have "v div 10 < v" by simp
    from less [OF this, of "digit_byte (v mod 10) # buf"] less [OF this, of "[digit_byte (v mod 10)]"] True
    show ?thesis by (simp add: itoa_loop.simps [of v] digit_byte_def)
  next
    case False
    then show ?thesis by (simp add: itoa_loop.simps)
  qed
qed

lemma itoa_small: "d < 10 \<Longrightarrow> itoa d = [digit_byte d]"
  by (cases "d = 0") (simp_all add: itoa_def itoa_loop.simps digit_byte_def char_of_def bit_iff_odd)

lemma itoa_step: "0 < n \<Longrightarrow> d < 10 \<Longrightarrow> itoa (10 * n + d) = itoa n @ [digit_byte d]"
proof -
  assume n: "0 < n" and d: "d < 10"
  have "itoa (10 * n + d) = itoa_loop n [digit_byte d]"
    using n d by (simp add: itoa_def itoa_loop.simps [of "10 * n + d"] digit_byte_def)
  then show ?thesis using itoa_loop_append [of n "[digit_byte d]"] n by (simp add: itoa_def)
qed

lemma decimal_induct [case_names small step]:
  fixes n :: nat
  assumes small: "\<And>d. d < 10 \<Longrightarrow> P d"
    and step: "\<And>n d. 0 < n \<Longrightarrow> d < 10 \<Longrightarrow> P n \<Longrightarrow> P (10 * n + d)"
  shows "P n"
proof (induction n rule: less_induct)
  case (less n)
  show ?case
  proof (cases "n < 10")
    case False
    then have "P (10 * (n div 10) + n mod 10)" using less by (intro step) auto
    then show ?thesis by simp
  qed (rule small)
qed

lemma itoa_digits: "list_all is_digit (itoa n)"
  by (induction n rule: decimal_induct) (simp_all add: itoa_small itoa_step)

lemma itoa_nonempty [simp]: "itoa n \<noteq> []"
  by (induction n rule: decimal_induct) (simp_all add: itoa_small itoa_step)

lemma itoa_no_leading_zero: "\<not> (1 < length (itoa n) \<and> hd (itoa n) = CHR ''0'')"
proof (induction n rule: decimal_induct)
  case (step n d)
  have "hd (itoa n) \<noteq> CHR ''0''" if "length (itoa n) = 1"
  proof
    assume "hd (itoa n) = CHR ''0''"
    with that have "itoa n = ''0''" by (cases "itoa n") auto
    then have "n = 0" using itoa_inject [of n 0] by (simp add: itoa_def)
    with step(1) show False by simp
  qed
  moreover have "length (itoa n) = 1 \<or> 1 < length (itoa n)" by (cases "itoa n") auto
  ultimately show ?case using step by (auto simp: itoa_step hd_append)
qed (simp add: itoa_small)

lemma length_itoa: "n < 10 ^ k \<Longrightarrow> 0 < k \<Longrightarrow> length (itoa n) \<le> k"
proof (induction n arbitrary: k rule: decimal_induct)
  case (step n d)
  then obtain j where j: "k = Suc j" by (cases k) auto
  with step have "n < 10 ^ j" by simp
  moreover from this step(1) have "0 < j" by (cases j) auto
  ultimately show ?case using step j by (simp add: itoa_step)
qed (simp add: itoa_small)

text \<open>A non-empty run of digits without a leading zero is the text of its value.\<close>

lemma decimal_value_snoc: "decimal_value (s @ [c]) = 10 * decimal_value s + (of_char c - 48)"
  by (simp add: decimal_value_def)

lemma itoa_decimal_value:
  assumes "list_all is_digit s" and "s \<noteq> []" and "\<not> (1 < length s \<and> hd s = CHR ''0'')"
  shows "itoa (decimal_value s) = s"
  using assms
proof (induction s rule: rev_induct)
  case (snoc c s)
  have c: "is_digit c" using snoc.prems(1) by simp
  then have d: "of_char c - 48 < (10::nat)" by (auto simp: is_digit_def in_range_def)
  show ?case
  proof (cases "s = []")
    case True
    then show ?thesis using c d by (simp add: decimal_value_def itoa_small digit_byteI [symmetric])
  next
    case False
    then have z: "hd s \<noteq> CHR ''0''" using snoc.prems(3) by (simp add: hd_append)
    then have eq: "itoa (decimal_value s) = s" using snoc False by simp
    then have "0 < decimal_value s"
      using z False by (cases "decimal_value s") (auto simp: itoa_def)
    then show ?thesis using eq c d by (simp add: decimal_value_snoc itoa_step digit_byteI [symmetric])
  qed
qed simp

lemma foldl_decimal_mono: "a \<le> foldl (\<lambda>a c. 10 * a + (of_char c - 48)) (a::nat) s"
proof (induction s arbitrary: a)
  case (Cons c s)
  have "a \<le> 10 * a + (of_char c - 48)" by simp
  also note Cons.IH [of "10 * a + (of_char c - 48)"]
  finally show ?case by simp
qed simp

lemma parse_digits_exact:
  "index \<le> MaxTransforms \<Longrightarrow>
   parse_digits index s = Some k \<longleftrightarrow>
     list_all is_digit s \<and> foldl (\<lambda>a c. 10 * a + (of_char c - 48)) index s = k \<and> k \<le> MaxTransforms"
proof (induction s arbitrary: index)
  case (Cons c s)
  show ?case
  proof (cases "MaxTransforms < index * 10 + (of_char c - 48)")
    case True
    then have "MaxTransforms < foldl (\<lambda>a c. 10 * a + (of_char c - 48)) index (c # s)"
      using foldl_decimal_mono [of "10 * index + (of_char c - 48)" s] by (simp add: mult.commute)
    then show ?thesis using True by (auto simp: Let_def)
  next
    case False
    then show ?thesis using Cons.IH [of "index * 10 + (of_char c - 48)"]
      by (auto simp: Let_def is_digit_def mult.commute)
  qed
qed auto

subsection \<open>Step pointers\<close>

text \<open>
  Prefix and suffix of a pointer may overlap; what is trimmed is then the end of the
  suffix, so a middle part that ends differently rules the overlap out.
\<close>

lemma trim_middle:
  assumes pre: "HasPrefix v p" and suf: "HasSuffix v s" and s: "s \<noteq> []"
    and raw: "raw = TrimSuffix (TrimPrefix v p) s" "raw \<noteq> []" "last raw \<noteq> last s"
  shows "v = p @ raw @ s"
proof -
  obtain q where q: "v = p @ q" using HasPrefix_split [OF pre] by blast
  have trimmed: "raw = TrimSuffix q s" using raw(1) q by simp
  have "HasSuffix q s"
  proof (rule ccontr)
    assume "\<not> HasSuffix q s"
    then have "raw = q" using trimmed by (simp add: TrimSuffix_def)
    then have "last v = last raw" using q raw(2) by simp
    moreover obtain us where "v = us @ s" using HasSuffix_split [OF suf] by blast
    then have "last v = last s" using s by simp
    ultimately show False using raw(3) by simp
  qed
  then obtain us where us: "q = us @ s" using HasSuffix_split by blast
  then have "raw = us" using trimmed by simp
  then show ?thesis using q us by simp
qed

lemma parseStepPointer_exact:
  assumes member: "member \<noteq> []" "\<not> is_digit (last member)"
  shows "parseStepPointer p alias member = Some i \<longleftrightarrow> p = stepPointer alias i member \<and> i \<le> MaxTransforms"
proof -
  define pre where "pre = ''/aliases/'' @ alias @ ''/steps/''"
  define suf where "suf = ''/'' @ member"
  define raw where "raw = TrimSuffix (TrimPrefix p pre) suf"
  have parse: "parseStepPointer p alias member =
      (if \<not> HasPrefix p pre \<or> \<not> HasSuffix p suf \<or> raw = [] \<or> (1 < length raw \<and> hd raw = CHR ''0'') then None
       else parse_digits 0 raw)"
    unfolding parseStepPointer_def Let_def pre_def suf_def raw_def by presburger
  have step: "stepPointer alias i member = pre @ itoa i @ suf"
    by (simp add: stepPointer_def pre_def suf_def)
  have suffix: "suf \<noteq> []" "last suf = last member" using member by (simp_all add: suf_def)
  show ?thesis
  proof
    assume r: "parseStepPointer p alias member = Some i"
    then have c: "HasPrefix p pre" "HasSuffix p suf" "raw \<noteq> []" "\<not> (1 < length raw \<and> hd raw = CHR ''0'')"
      and d: "parse_digits 0 raw = Some i"
      by (simp_all add: parse split: if_splits)
    have digits: "list_all is_digit raw" "decimal_value raw = i" "i \<le> MaxTransforms"
      using parse_digits_exact [of 0 raw i] d by (simp_all add: decimal_value_def)
    then have "last raw \<noteq> last suf"
      using c(3) member suffix by (metis last_in_set list_all_iff)
    from trim_middle [OF c(1,2) suffix(1) raw_def c(3) this]
    show "p = stepPointer alias i member \<and> i \<le> MaxTransforms"
      using digits itoa_decimal_value [OF digits(1) c(3,4)] step by simp
  next
    assume r: "p = stepPointer alias i member \<and> i \<le> MaxTransforms"
    then have p: "p = pre @ itoa i @ suf" using step by simp
    have "HasPrefix p pre" unfolding p by (rule HasPrefix_append)
    moreover have "HasSuffix p suf" unfolding p using HasSuffix_append [of "pre @ itoa i" suf] by simp
    moreover have "raw = itoa i" unfolding raw_def p TrimPrefix_append by (rule TrimSuffix_append)
    moreover have "parse_digits 0 (itoa i) = Some i"
      using r decimal_value_itoa [of i] by (subst parse_digits_exact) (simp_all add: itoa_digits decimal_value_def)
    ultimately show "parseStepPointer p alias member = Some i"
      using itoa_no_leading_zero [of i] by (simp add: parse)
  qed
qed

lemma parse_step_pointer [simp]:
  "i \<le> MaxTransforms \<Longrightarrow> parseStepPointer (stepPointer alias i ''use'') alias ''use'' = Some i"
  "i \<le> MaxTransforms \<Longrightarrow> parseStepPointer (stepPointer alias i ''transform'') alias ''transform'' = Some i"
  by (simp_all add: parseStepPointer_exact is_digit_def in_range_def)

subsection \<open>Admitted declarations\<close>

definition factory_admitted :: "FactoryDeclaration \<Rightarrow> bool" where
  "factory_admitted f \<longleftrightarrow> declaration_ok (factoryDeclarationWire f)
     \<and> length (json_Marshal (document_json (factoryDeclarationWire f))) \<le> MaxJSONBytes"

definition transform_admitted :: "TransformDeclaration \<Rightarrow> bool" where
  "transform_admitted t \<longleftrightarrow> declaration_ok (transformDeclarationWire t)
     \<and> length (json_Marshal (document_json (transformDeclarationWire t))) \<le> MaxJSONBytes"

lemma NewFactoryDeclarationDocument_Inr:
  "NewFactoryDeclarationDocument f = Inr d \<longleftrightarrow> factory_admitted f \<and> d = Some f"
  using budget_document_ok [of "factoryDeclarationWire f"]
  by (auto simp: NewFactoryDeclarationDocument_def factory_admitted_def res_simps)

lemma NewTransformDeclarationDocument_Inr:
  "NewTransformDeclarationDocument t = Inr d \<longleftrightarrow> transform_admitted t \<and> d = Some t"
  using budget_document_ok [of "transformDeclarationWire t"]
  by (auto simp: NewTransformDeclarationDocument_def transform_admitted_def res_simps)

lemma copyFactory_admitted [simp]: "factory_admitted f \<Longrightarrow> copyFactory f = f"
  using NewFactoryDeclarationDocument_Inr [of f "Some f"] by (simp add: copyFactory_def)

lemma copyTransform_admitted [simp]: "transform_admitted t \<Longrightarrow> copyTransform t = t"
  using NewTransformDeclarationDocument_Inr [of t "Some t"] by (simp add: copyTransform_def)

lemma document_json_longer: "length (json_Marshal (declaration_json w)) \<le> length (json_Marshal (document_json w))"
  by (simp add: document_json_def)

lemma TransformDeclaration_MarshalJSON_admitted:
  "transform_admitted t \<Longrightarrow> TransformDeclaration_MarshalJSON t = Inr (transformDeclarationWire t)"
proof -
  assume t: "transform_admitted t"
  then have "validateTransformDeclaration t = Inr ()"
    using document_json_longer [of "transformDeclarationWire t"]
    by (simp add: validateTransformDeclaration_Inr transform_admitted_def)
  then show ?thesis by (simp add: TransformDeclaration_MarshalJSON_def)
qed

lemma decl_bind_Inr:
  "decl_bind m p f = Inr y \<longleftrightarrow> (\<exists>x. m = Inr x \<and> f x = Inr y)"
  by (cases m) (simp_all add: decl_bind_def)

subsection \<open>Well-formed documents\<close>

definition step_ok :: "recipeStep \<Rightarrow> bool" where
  "step_ok s \<longleftrightarrow> (case rs_transform s of None \<Rightarrow> validAliasName (rs_use s)
     | Some t \<Rightarrow> rs_use s = [] \<and> transform_admitted t)"

definition base_ok :: "FactoryDeclaration option \<Rightarrow> bytes \<Rightarrow> bool" where
  "base_ok f base \<longleftrightarrow> (case f of None \<Rightarrow> validAliasName base | Some f \<Rightarrow> base = [] \<and> factory_admitted f)"

definition recipe_ok :: "recipeAlias \<Rightarrow> bool" where
  "recipe_ok r \<longleftrightarrow> base_ok (ra_factory r) (ra_baseRecipe r) \<and> length (ra_steps r) \<le> MaxTransforms
     \<and> list_all step_ok (ra_steps r)"

fun alias_definition_ok :: "aliasDefinition \<Rightarrow> bool" where
  "alias_definition_ok (TransformAlias t) \<longleftrightarrow> transform_admitted t"
| "alias_definition_ok (RecipeAlias r) \<longleftrightarrow> recipe_ok r"

definition aliases_ok :: "(bytes \<times> aliasDefinition) list \<Rightarrow> bool" where
  "aliases_ok aliases \<longleftrightarrow> distinct (map fst aliases) \<and> (\<forall>(n, d) \<in> set aliases. validAliasName n \<and> alias_definition_ok d)"

definition document_bytes :: "(bytes \<times> aliasDefinition) list \<Rightarrow> nat" where
  "document_bytes aliases = length (json_Marshal (marshalUnchecked aliases))"

definition document_ok :: "aliasDocumentData \<Rightarrow> bool" where
  "document_ok data \<longleftrightarrow> aliases_ok (ad_aliases data) \<and> length (ad_aliases data) \<le> MaxAliases
     \<and> ad_canonicalBytes data = int (document_bytes (ad_aliases data)) \<and> document_bytes (ad_aliases data) \<le> MaxJSONBytes"

text \<open>The constructor's input for a stored definition.\<close>

definition step_to_input :: "recipeStep \<Rightarrow> RecipeStepInput" where
  "step_to_input s = \<lparr>st_Use = rs_use s, st_Transform = rs_transform s\<rparr>"

fun definition_to_input :: "bytes \<Rightarrow> aliasDefinition \<Rightarrow> NamedAliasInput" where
  "definition_to_input n (TransformAlias t) = \<lparr>na_Name = n, na_Transform = Some t, na_Recipe = None\<rparr>"
| "definition_to_input n (RecipeAlias r) = \<lparr>na_Name = n, na_Transform = None,
     na_Recipe = Some \<lparr>ri_Base = \<lparr>bi_Factory = ra_factory r, bi_Recipe = ra_baseRecipe r\<rparr>,
                       ri_Steps = map step_to_input (ra_steps r)\<rparr>\<rparr>"

lemma build_step_Inr: "build_step n i s = Inr r \<longleftrightarrow> step_ok r \<and> s = step_to_input r"
proof -
  obtain u t where s: "s = \<lparr>st_Use = u, st_Transform = t\<rparr>" by (cases s) simp
  obtain u' t' where r: "r = \<lparr>rs_use = u', rs_transform = t'\<rparr>" by (cases r) simp
  show ?thesis unfolding s r
    by (auto simp: build_step_def step_ok_def step_to_input_def decl_bind_Inr NewTransformDeclarationDocument_Inr
        Let_def validAliasName_def identifierPattern_def split: option.splits)
qed

lemma build_steps_Inr:
  "build_steps n i ss = Inr rs \<longleftrightarrow> list_all step_ok rs \<and> ss = map step_to_input rs"
proof (induction ss arbitrary: i rs)
  case (Cons s ss)
  then show ?case by (cases rs) (auto simp: res_simps build_step_Inr)
qed auto

lemma build_base_Inr:
  "build_base n b = Inr (f, r) \<longleftrightarrow> base_ok f r \<and> b = \<lparr>bi_Factory = f, bi_Recipe = r\<rparr>"
proof -
  obtain f' r' where b: "b = \<lparr>bi_Factory = f', bi_Recipe = r'\<rparr>" by (cases b) simp
  show ?thesis unfolding b
    by (auto simp: build_base_def base_ok_def decl_bind_Inr NewFactoryDeclarationDocument_Inr
        Let_def validAliasName_def identifierPattern_def split: option.splits)
qed

lemma buildRecipeAlias_Inr:
  "buildRecipeAlias n i = Inr r \<longleftrightarrow>
     recipe_ok r \<and> i = \<lparr>ri_Base = \<lparr>bi_Factory = ra_factory r, bi_Recipe = ra_baseRecipe r\<rparr>,
                          ri_Steps = map step_to_input (ra_steps r)\<rparr>"
proof -
  obtain b ss where i: "i = \<lparr>ri_Base = b, ri_Steps = ss\<rparr>" by (cases i) simp
  obtain f br rs where r: "r = \<lparr>ra_factory = f, ra_baseRecipe = br, ra_steps = rs\<rparr>" by (cases r) simp
  show ?thesis unfolding i r
    by (auto simp: buildRecipeAlias_def recipe_ok_def res_simps build_base_Inr build_steps_Inr)
qed

lemma buildDefinition_Inr:
  "buildDefinition named = Inr d \<longleftrightarrow> alias_definition_ok d \<and> named = definition_to_input (na_Name named) d"
proof -
  obtain n t r where named: "named = \<lparr>na_Name = n, na_Transform = t, na_Recipe = r\<rparr>" by (cases named) simp
  show ?thesis unfolding named
    by (cases d) (auto simp: buildDefinition_def Let_def decl_bind_Inr NewTransformDeclarationDocument_Inr
        buildRecipeAlias_Inr res_simps split: option.splits)
qed

lemma na_Name_definition_to_input [simp]: "na_Name (definition_to_input n d) = n"
  by (cases d) simp_all

lemma build_aliases_Inr:
  "build_aliases acc ins = Inr aliases \<longleftrightarrow>
     (\<exists>as. aliases = acc @ as \<and> ins = map (\<lambda>(n, d). definition_to_input n d) as
        \<and> (\<forall>(n, d) \<in> set as. validAliasName n \<and> alias_definition_ok d)
        \<and> distinct (map fst as) \<and> set (map fst as) \<inter> set (map fst acc) = {})"
proof (induction ins arbitrary: acc)
  case (Cons named ins)
  have "build_aliases acc (named # ins) = Inr aliases \<longleftrightarrow>
      validAliasName (na_Name named) \<and> na_Name named \<notin> fst ` set acc \<and>
      (\<exists>d. buildDefinition named = Inr d \<and> build_aliases (acc @ [(na_Name named, d)]) ins = Inr aliases)"
    by (simp add: Let_def res_simps map_of_eq_None_iff)
  also have "\<dots> \<longleftrightarrow> (\<exists>as. aliases = acc @ as \<and> named # ins = map (\<lambda>(n, d). definition_to_input n d) as
        \<and> (\<forall>(n, d) \<in> set as. validAliasName n \<and> alias_definition_ok d)
        \<and> distinct (map fst as) \<and> set (map fst as) \<inter> set (map fst acc) = {})" (is "?l \<longleftrightarrow> ?r")
  proof
    assume ?l
    then obtain d where d: "validAliasName (na_Name named)" "na_Name named \<notin> fst ` set acc" "buildDefinition named = Inr d"
      "build_aliases (acc @ [(na_Name named, d)]) ins = Inr aliases" by blast
    from Cons.IH [THEN iffD1, OF d(4)] obtain as where as: "aliases = (acc @ [(na_Name named, d)]) @ as"
      "ins = map (\<lambda>(n, d). definition_to_input n d) as" "\<forall>(n, d) \<in> set as. validAliasName n \<and> alias_definition_ok d"
      "distinct (map fst as)" "set (map fst as) \<inter> set (map fst (acc @ [(na_Name named, d)])) = {}" by blast
    show ?r
      using as d(1,2) buildDefinition_Inr [THEN iffD1, OF d(3)]
      by (intro exI [of _ "(na_Name named, d) # as"]) auto
  next
    assume ?r
    then obtain n d as where as: "aliases = acc @ (n, d) # as" "named = definition_to_input n d"
      "ins = map (\<lambda>(n, d). definition_to_input n d) as" "validAliasName n" "alias_definition_ok d"
      "\<forall>(n, d) \<in> set as. validAliasName n \<and> alias_definition_ok d"
      "n \<notin> fst ` set as" "distinct (map fst as)" "n \<notin> fst ` set acc" "set (map fst as) \<inter> set (map fst acc) = {}"
      by (auto simp: Cons_eq_map_conv)
    have "build_aliases (acc @ [(n, d)]) ins = Inr aliases"
      by (rule Cons.IH [THEN iffD2]) (use as in \<open>intro exI [of _ as], auto\<close>)
    moreover have "buildDefinition named = Inr d" using as(2,5) buildDefinition_Inr by simp
    ultimately show ?l using as(2,4,9) by auto
  qed
  finally show ?case .
qed auto

lemma NewAliasDocument_Inr:
  "NewAliasDocument ins = Inr d \<longleftrightarrow>
     (\<exists>data. d = Some data \<and> document_ok data \<and> ins = map (\<lambda>(n, d). definition_to_input n d) (ad_aliases data))"
proof -
  have ok: "build_aliases [] ins = Inr aliases \<longleftrightarrow> aliases_ok aliases \<and> ins = map (\<lambda>(n, d). definition_to_input n d) aliases"
    for aliases by (auto simp: build_aliases_Inr aliases_ok_def)
  show ?thesis
  proof
    assume "NewAliasDocument ins = Inr d"
    then show "\<exists>data. d = Some data \<and> document_ok data \<and> ins = map (\<lambda>(n, d). definition_to_input n d) (ad_aliases data)"
      by (auto simp: NewAliasDocument_def Let_def res_simps ok document_ok_def document_bytes_def split: if_splits)
  next
    assume "\<exists>data. d = Some data \<and> document_ok data \<and> ins = map (\<lambda>(n, d). definition_to_input n d) (ad_aliases data)"
    then obtain data where d: "d = Some data" "document_ok data" "ins = map (\<lambda>(n, d). definition_to_input n d) (ad_aliases data)"
      by blast
    then have "build_aliases [] ins = Inr (ad_aliases data)"
      by (intro ok [THEN iffD2]) (simp add: document_ok_def)
    then show "NewAliasDocument ins = Inr d"
      using d by (simp add: NewAliasDocument_def Let_def document_ok_def document_bytes_def)
  qed
qed

subsection \<open>The wire form of a document\<close>

lemma sort_key_map_image: "sort_key f (map g xs) = map g (sort_key (f \<circ> g) xs)"
proof (induction xs)
  case (Cons x xs)
  have "insort_key f (g x) (map g ys) = map g (insort_key (f \<circ> g) x ys)" for ys
    by (induction ys) simp_all
  with Cons show ?case by (simp add: sort_key_def comp_def)
qed simp

text \<open>
  What the readers return for the wire a definition is written as: the discriminator, and
  the wire from its own decoder.  \<open>redundant\<close> also writes the empty string into the member
  of a closed union that is not used.
\<close>

fun reads :: "aliasWire \<Rightarrow> aliasRaw" where
  "reads (TransformWire w) = \<lparr>raw_null = False, raw_type = tw_Type w, raw_transform = Inr w,
     raw_recipe = Inl doc_invalid\<rparr>"
| "reads (RecipeWire w) = \<lparr>raw_null = False, raw_type = rw_Type w, raw_transform = Inl doc_invalid,
     raw_recipe = Inr w\<rparr>"

definition document_wire :: "(aliasWire \<Rightarrow> aliasWire) \<Rightarrow> (bytes \<times> aliasDefinition) list \<Rightarrow> documentWire" where
  "document_wire f aliases = \<lparr>dcw_SchemaVersion = Some AliasSchemaVersion,
     dcw_Aliases = Some (map (\<lambda>(n, d). (n, reads (f (alias_wire d)))) aliases)\<rparr>"

definition redundant_step :: "aliasStepWire \<Rightarrow> aliasStepWire" where
  "redundant_step w = (if sw_Use w = None then w\<lparr>sw_Use := Some []\<rparr> else w)"

definition redundant_base :: "recipeBaseWire \<Rightarrow> recipeBaseWire" where
  "redundant_base w = (if bw_Recipe w = None then w\<lparr>bw_Recipe := Some []\<rparr> else w)"

fun redundant :: "aliasWire \<Rightarrow> aliasWire" where
  "redundant (TransformWire w) = TransformWire w"
| "redundant (RecipeWire w) = RecipeWire (w\<lparr>rw_Base := map_option redundant_base (rw_Base w),
     rw_Steps := map_option (map redundant_step) (rw_Steps w)\<rparr>)"

lemma step_input_wire:
  assumes "step_ok s"
  shows "step_input (step_wire s) = step_to_input s" and "step_input (redundant_step (step_wire s)) = step_to_input s"
proof -
  obtain u t where "s = \<lparr>rs_use = u, rs_transform = t\<rparr>" by (cases s) simp
  with assms show "step_input (step_wire s) = step_to_input s" "step_input (redundant_step (step_wire s)) = step_to_input s"
    by (cases t, simp_all add: step_ok_def step_input_def step_wire_def step_to_input_def redundant_step_def)+
qed

lemma base_input_wire:
  assumes "base_ok (ra_factory r) (ra_baseRecipe r)"
  shows "base_input (base_wire r) = \<lparr>bi_Factory = ra_factory r, bi_Recipe = ra_baseRecipe r\<rparr>"
    and "base_input (redundant_base (base_wire r)) = \<lparr>bi_Factory = ra_factory r, bi_Recipe = ra_baseRecipe r\<rparr>"
proof -
  obtain f b ss where r: "r = \<lparr>ra_factory = f, ra_baseRecipe = b, ra_steps = ss\<rparr>" by (cases r) simp
  with assms show "base_input (base_wire r) = \<lparr>bi_Factory = ra_factory r, bi_Recipe = ra_baseRecipe r\<rparr>"
    "base_input (redundant_base (base_wire r)) = \<lparr>bi_Factory = ra_factory r, bi_Recipe = ra_baseRecipe r\<rparr>"
    by (cases f, simp_all add: base_ok_def base_input_def base_wire_def redundant_base_def)+
qed

definition read_back :: "(aliasWire \<Rightarrow> aliasWire) \<Rightarrow> bool" where
  "read_back f \<longleftrightarrow> (\<forall>n d. validAliasName n \<longrightarrow> alias_definition_ok d \<longrightarrow>
     decode_aliases [(n, reads (f (alias_wire d)))] = Inr [definition_to_input n d])"

lemma alias_kinds_differ [simp]: "AliasKindRecipe \<noteq> AliasKindTransform" "AliasKindTransform \<noteq> AliasKindRecipe"
  by (simp_all add: AliasKindRecipe_def AliasKindTransform_def)

lemma read_back_plain: "read_back id" and read_back_redundant: "read_back redundant"
proof -
  have "decode_aliases [(n, reads (alias_wire d))] = Inr [definition_to_input n d]
      \<and> decode_aliases [(n, reads (redundant (alias_wire d)))] = Inr [definition_to_input n d]"
    if "validAliasName n" "alias_definition_ok d" for n d
  proof (cases d)
    case (RecipeAlias r)
    then have "recipe_ok r" using that by simp
    then show ?thesis using RecipeAlias that(1)
      by (auto simp: decode_recipe_alias_def recipe_ok_def base_input_wire step_input_wire list_all_iff)
  qed (use that in \<open>simp_all add: decode_transform_alias_def\<close>)
  then show "read_back id" and "read_back redundant" by (simp_all add: read_back_def)
qed

lemma decode_aliases_Cons:
  "decode_aliases ((n, r) # rest) = res_bind (decode_aliases [(n, r)]) (\<lambda>a. res_bind (decode_aliases rest) (\<lambda>b. Inr (a @ b)))"
  by (simp add: res_bind_assoc)

lemma decode_written:
  assumes "read_back f" and "\<forall>(n, d) \<in> set aliases. validAliasName n \<and> alias_definition_ok d"
  shows "decode_aliases (map (\<lambda>(n, d). (n, reads (f (alias_wire d)))) aliases)
     = Inr (map (\<lambda>(n, d). definition_to_input n d) aliases)"
  using assms(2)
proof (induction aliases)
  case (Cons a aliases)
  then show ?case using assms(1)
    by (cases a) (simp add: decode_aliases_Cons [of _ _ "map _ _"] read_back_def del: decode_aliases.simps(2))
qed simp

lemma sorted_aliases_ok:
  assumes "document_ok data" and "mset aliases = mset (ad_aliases data)"
  shows "sort_key fst aliases = sort_key fst (ad_aliases data)"
    and "document_ok (data\<lparr>ad_aliases := sort_key fst (ad_aliases data)\<rparr>)"
proof -
  have d: "distinct (map fst (ad_aliases data))" using assms(1) by (simp add: document_ok_def aliases_ok_def)
  show "sort_key fst aliases = sort_key fst (ad_aliases data)"
    using sort_key_slice.srt_perm [OF d assms(2)] .
  have "distinct (map fst (sort_key fst (ad_aliases data)))"
    using d sort_key_slice.srt_distinct by blast
  then show "document_ok (data\<lparr>ad_aliases := sort_key fst (ad_aliases data)\<rparr>)"
    using assms(1) by (simp add: document_ok_def aliases_ok_def document_bytes_def marshalUnchecked_def sort_key_slice.srt_sorted_id strict_sorted_iff)
qed

lemma decode_document_wire:
  assumes "read_back f" and "document_ok data" and "mset aliases = mset (ad_aliases data)"
  shows "decodeAliasDocument (Inr (document_wire f aliases))
     = Inr (Some (data\<lparr>ad_aliases := sort_key fst (ad_aliases data)\<rparr>))"
proof -
  let ?data = "data\<lparr>ad_aliases := sort_key fst (ad_aliases data)\<rparr>"
  let ?srt = "sort_key fst (ad_aliases data)"
  have ok: "document_ok ?data" and eq: "sort_key fst aliases = ?srt"
    using sorted_aliases_ok [OF assms(2,3)] by blast+
  have "sort_key fst (map (\<lambda>(n, d). (n, reads (f (alias_wire d)))) aliases)
      = map (\<lambda>(n, d). (n, reads (f (alias_wire d)))) ?srt"
    unfolding sort_key_map_image comp_def eq [symmetric] by (simp add: split_beta)
  moreover have "length aliases \<le> MaxAliases"
    using assms(2,3) mset_eq_length by (fastforce simp: document_ok_def)
  moreover have "decode_aliases (map (\<lambda>(n, d). (n, reads (f (alias_wire d)))) ?srt)
      = Inr (map (\<lambda>(n, d). definition_to_input n d) ?srt)"
    by (rule decode_written [OF assms(1)]) (use assms(2) in \<open>simp add: document_ok_def aliases_ok_def\<close>)
  moreover have "NewAliasDocument (map (\<lambda>(n, d). definition_to_input n d) ?srt) = Inr (Some ?data)"
    using ok by (intro NewAliasDocument_Inr [THEN iffD2]) simp
  moreover have "?data\<lparr>ad_canonicalBytes := int (length (json_Marshal (marshalUnchecked (ad_aliases ?data))))\<rparr> = ?data"
    using ok by (simp add: document_ok_def document_bytes_def)
  ultimately show ?thesis by (simp add: decodeAliasDocument_def document_wire_def)
qed

end
