(* ===== verification/Alias_Catalog_Props.thy ===== *)
theory Alias_Catalog_Props
  imports Alias_Document_Props
begin

text \<open>
  Catalogs: construction depends only on the set of sources, every name has at most one
  definition, and the entries satisfy what the expander relies on (\<open>catalog_ok\<close>).
\<close>

subsection \<open>Copies of admitted definitions\<close>

lemma clone_step_ok [simp]: "step_ok s \<Longrightarrow> clone_step s = s"
  by (cases s) (auto simp: clone_step_def step_ok_def split: option.splits)

lemma cloneDefinition_ok [simp]: "alias_definition_ok d \<Longrightarrow> cloneDefinition d = d"
proof (cases d)
  case (RecipeAlias r)
  assume "alias_definition_ok d"
  moreover obtain f b ss where "r = \<lparr>ra_factory = f, ra_baseRecipe = b, ra_steps = ss\<rparr>" by (cases r) simp
  ultimately show ?thesis using RecipeAlias
    by (cases f) (auto simp: recipe_ok_def base_ok_def list_all_iff intro!: map_idI)
qed simp

subsection \<open>Construction does not depend on the order of the sources\<close>

lemma map_sort_key: "map f (sort_key f xs) = sort (map f xs)"
  by (rule properties_for_sort [symmetric]) simp_all

lemma check_sources_ids:
  "map sd_SourceID xs = map sd_SourceID ys \<Longrightarrow> check_sources p xs = check_sources p ys"
proof (induction xs arbitrary: p ys)
  case (Cons x xs)
  then show ?case by (cases ys) auto
qed simp

lemma check_sources_Inr:
  assumes "check_sources p xs = Inr u" and "sorted (map sd_SourceID xs)"
    and "\<forall>x \<in> set xs. p = None \<or> the p \<le> sd_SourceID x"
  shows "distinct (map sd_SourceID xs) \<and> (\<forall>x \<in> set xs. validateSourceID (sd_SourceID x) \<and> p \<noteq> Some (sd_SourceID x))"
  using assms
proof (induction xs arbitrary: p)
  case (Cons x xs)
  have step: "validateSourceID (sd_SourceID x)" "p \<noteq> Some (sd_SourceID x)" "check_sources (Some (sd_SourceID x)) xs = Inr u"
    using Cons.prems(1) by (auto split: if_splits)
  have "distinct (map sd_SourceID xs) \<and> (\<forall>y \<in> set xs. validateSourceID (sd_SourceID y) \<and> Some (sd_SourceID x) \<noteq> Some (sd_SourceID y))"
    by (rule Cons.IH [OF step(3)]) (use Cons.prems(2) in auto)
  moreover have "p \<noteq> Some (sd_SourceID y)" if "y \<in> set xs" for y
    using step(2) Cons.prems(2,3) that by (cases p) fastforce+
  ultimately show ?case using step(1,2) by auto
qed simp

lemma NewCatalog_perm:
  assumes "mset ys = mset xs"
  shows "NewCatalog ys = NewCatalog xs"
proof -
  have len: "length ys = length xs" using assms by (rule mset_eq_length)
  have "sort (map sd_SourceID ys) = sort (map sd_SourceID xs)"
    using assms by (metis mset_map sorted_list_of_multiset_mset)
  then have ids: "map sd_SourceID (sort_key sd_SourceID ys) = map sd_SourceID (sort_key sd_SourceID xs)"
    by (simp add: map_sort_key)
  show ?thesis
  proof (cases "check_sources None (sort_key sd_SourceID xs)")
    case (Inl e)
    then have "check_sources None (sort_key sd_SourceID ys) = Inl e" using check_sources_ids [OF ids] by simp
    with Inl len show ?thesis by (simp add: NewCatalog_def)
  next
    case (Inr u)
    have "distinct (map sd_SourceID (sort_key sd_SourceID xs))"
      using check_sources_Inr [OF Inr] by simp
    then have "distinct (map sd_SourceID xs)" using sort_key_slice.srt_distinct by blast
    from sort_key_slice.srt_perm [OF this assms] len show ?thesis by (simp add: NewCatalog_def)
  qed
qed

subsection \<open>The candidates of a name\<close>

lemma map_of_add_candidate:
  "map_of (add_candidate e c) n =
     (if n = en_name e then Some ((case map_of c n of None \<Rightarrow> [] | Some l \<Rightarrow> l) @ [e]) else map_of c n)"
  by (induction c rule: add_candidate.induct) auto

lemma fst_add_candidate: "fst ` set (add_candidate e c) = insert (en_name e) (fst ` set c)"
  by (induction c rule: add_candidate.induct) auto

lemma distinct_add_candidate: "distinct (map fst c) \<Longrightarrow> distinct (map fst (add_candidate e c))"
proof (induction c rule: add_candidate.induct)
  case (2 e n l c)
  then show ?case using fst_add_candidate [of e c] by (cases "n = en_name e") auto
qed simp

lemma length_add_candidate: "length (add_candidate e c) \<le> Suc (length c)"
  by (induction c rule: add_candidate.induct) auto

lemma fold_add_candidate:
  "map_of (fold add_candidate es c) n =
     (if map_of c n = None \<and> filter (\<lambda>e. en_name e = n) es = [] then None
      else Some ((case map_of c n of None \<Rightarrow> [] | Some l \<Rightarrow> l) @ filter (\<lambda>e. en_name e = n) es))"
proof (induction es arbitrary: c)
  case (Cons e es)
  then show ?case by (auto simp: map_of_add_candidate split: option.splits)
qed (simp split: option.splits)

lemma fold_add_candidate_shape:
  "distinct (map fst c) \<Longrightarrow>
     distinct (map fst (fold add_candidate es c)) \<and> length (fold add_candidate es c) \<le> length es + length c"
proof (induction es arbitrary: c)
  case (Cons e es)
  from Cons.IH [OF distinct_add_candidate [OF Cons.prems]] length_add_candidate [of e c]
  show ?case by (fastforce intro: le_trans)
qed simp

lemma check_ambiguity_Inr: "check_ambiguity c = Inr u \<longleftrightarrow> (\<forall>(n, es) \<in> set c. length es \<le> 1)"
  by (induction c rule: check_ambiguity.induct) auto

lemma check_totals_Inr:
  "check_totals b k xs = Inr u \<Longrightarrow> 0 \<le> k \<Longrightarrow> k \<le> int MaxAliases \<Longrightarrow>
     k + (\<Sum>x \<leftarrow> xs. int (length (ad_aliases (document_of x)))) \<le> int MaxAliases"
proof (induction xs arbitrary: b k)
  case (Cons x xs)
  then obtain b' k' where "check_totals b' k' xs = Inr u" "k' = k + int (length (ad_aliases (document_of x)))" "k' \<le> int MaxAliases"
    by (auto simp: checkedAdd_Some split: option.splits)
  with Cons.IH [of b' k'] Cons.prems(2) show ?case by simp
qed simp

subsection \<open>What a catalog contains\<close>

definition catalog_entry_ok :: "bytes \<Rightarrow> catalogEntry \<Rightarrow> bool" where
  "catalog_entry_ok n e \<longleftrightarrow> en_name e = n \<and> validAliasName n \<and> validateSourceID (en_sourceID e) \<and> alias_definition_ok (en_definition e)"

definition catalog_ok :: "catalogData \<Rightarrow> bool" where
  "catalog_ok aliases \<longleftrightarrow> distinct (map fst aliases) \<and> length aliases \<le> MaxAliases
     \<and> (\<forall>(n, e) \<in> set aliases. catalog_entry_ok n e)"

definition constructed_sources :: "SourceDocument list \<Rightarrow> bool" where
  "constructed_sources sources \<longleftrightarrow>
     (\<forall>s \<in> set sources. sd_Document s = None \<or> (\<exists>ins. NewAliasDocument ins = Inr (sd_Document s)))"

lemma catalog_lookup_ok: "catalog_ok aliases \<Longrightarrow> map_of aliases n = Some e \<Longrightarrow> catalog_entry_ok n e"
  by (auto simp: catalog_ok_def dest!: map_of_SomeD)

lemma check_documents_Inr: "check_documents xs = Inr u \<longleftrightarrow> (\<forall>x \<in> set xs. sd_Document x \<noteq> None)"
  by (induction xs) auto

lemma constructed_document_ok:
  "constructed_sources sources \<Longrightarrow> s \<in> set sources \<Longrightarrow> sd_Document s \<noteq> None \<Longrightarrow> document_ok (document_of s)"
  using NewAliasDocument_Inr unfolding constructed_sources_def document_of_def by (metis option.sel)

definition source_defines :: "SourceDocument \<Rightarrow> bytes \<Rightarrow> catalogEntry \<Rightarrow> bool" where
  "source_defines s n e \<longleftrightarrow> (\<exists>d. map_of (ad_aliases (document_of s)) n = Some d
     \<and> e = \<lparr>en_name = n, en_sourceID = sd_SourceID s, en_definition = d\<rparr>)"

lemma source_entries_mem:
  assumes "document_ok (document_of s)"
  shows "e \<in> set (source_entries s) \<longleftrightarrow> source_defines s (en_name e) e"
proof -
  have d: "distinct (map fst (ad_aliases (document_of s)))" "\<forall>(n, d) \<in> set (ad_aliases (document_of s)). alias_definition_ok d"
    using assms by (auto simp: document_ok_def aliases_ok_def)
  then have "set (source_entries s) = (\<lambda>(n, d). \<lparr>en_name = n, en_sourceID = sd_SourceID s, en_definition = d\<rparr>)
      ` set (ad_aliases (document_of s))"
    by (auto simp: source_entries_def intro!: image_cong)
  then have "e \<in> set (source_entries s) \<longleftrightarrow> (\<exists>n d. (n, d) \<in> set (ad_aliases (document_of s))
      \<and> e = \<lparr>en_name = n, en_sourceID = sd_SourceID s, en_definition = d\<rparr>)" by (force simp: image_iff)
  also have "\<dots> \<longleftrightarrow> source_defines s (en_name e) e"
    using d(1) by (auto simp: source_defines_def)
  finally show ?thesis .
qed

lemma source_defines_ok:
  "document_ok (document_of s) \<Longrightarrow> validateSourceID (sd_SourceID s) \<Longrightarrow> source_defines s n e \<Longrightarrow> catalog_entry_ok n e"
  by (auto simp: source_defines_def catalog_entry_ok_def document_ok_def aliases_ok_def dest!: map_of_SomeD)

text \<open>The entries of the catalog, when no name has two candidates.\<close>

definition first_candidates :: "catalogEntry list \<Rightarrow> catalogData" where
  "first_candidates es = map (\<lambda>(n, l). (n, hd l)) (fold add_candidate es [])"

lemma first_candidates_lookup:
  assumes "check_ambiguity (sort_key fst (fold add_candidate es [])) = Inr u"
  shows "map_of (first_candidates es) n = Some e \<longleftrightarrow> e \<in> set es \<and> en_name e = n"
    and "distinct (map fst (first_candidates es))" and "length (first_candidates es) \<le> length es"
proof -
  let ?cand = "fold add_candidate es []"
  have cand: "map_of ?cand n = (if filter (\<lambda>e. en_name e = n) es = [] then None else Some (filter (\<lambda>e. en_name e = n) es))"
    by (simp add: fold_add_candidate)
  have single: "length (filter (\<lambda>e. en_name e = n) es) \<le> 1"
    using assms cand map_of_SomeD [of ?cand n] by (fastforce simp: check_ambiguity_Inr split: if_splits)
  have "map_of (first_candidates es) n = map_option hd (map_of ?cand n)"
    unfolding first_candidates_def by (simp add: map_of_map)
  also have "\<dots> = Some e \<longleftrightarrow> e \<in> set (filter (\<lambda>e. en_name e = n) es)"
    using single by (cases "filter (\<lambda>e. en_name e = n) es") (auto simp: cand)
  finally show "map_of (first_candidates es) n = Some e \<longleftrightarrow> e \<in> set es \<and> en_name e = n" by simp
  show "distinct (map fst (first_candidates es))" and "length (first_candidates es) \<le> length es"
    using fold_add_candidate_shape [of "[]" es] by (simp_all add: first_candidates_def comp_def split_beta)
qed

lemma NewCatalog_steps:
  assumes "NewCatalog sources = Inr c"
  defines "ordered \<equiv> sort_key sd_SourceID sources"
  defines "es \<equiv> concat (map source_entries ordered)"
  shows "check_sources None ordered = Inr ()" and "check_documents ordered = Inr ()" and "check_totals 0 0 ordered = Inr ()"
    and "check_ambiguity (sort_key fst (fold add_candidate es [])) = Inr ()" and "c = Some (first_candidates es)"
  using assms(1) by (auto simp: NewCatalog_def Let_def res_simps ordered_def es_def collect_candidates_def
      first_candidates_def split: if_splits)

lemma int_sum_list: "int (sum_list xs) = sum_list (map int xs)"
  by (induction xs) simp_all

lemma NewCatalog_size:
  assumes "NewCatalog sources = Inr (Some aliases)"
  shows "length aliases \<le> MaxAliases"
proof -
  let ?ordered = "sort_key sd_SourceID sources"
  note steps = NewCatalog_steps [OF assms]
  have "length aliases \<le> length (concat (map source_entries ?ordered))"
    using first_candidates_lookup(3) [OF steps(4)] steps(5) by simp
  also have "\<dots> = sum_list (map (\<lambda>x. length (ad_aliases (document_of x))) ?ordered)"
    by (auto simp: length_concat comp_def source_entries_def)
  also have "int \<dots> = (\<Sum>x \<leftarrow> ?ordered. int (length (ad_aliases (document_of x))))"
    by (simp add: int_sum_list comp_def)
  also have "\<dots> \<le> int MaxAliases" using check_totals_Inr [OF steps(3)] by simp
  finally show ?thesis by simp
qed

lemma NewCatalog_Inr:
  assumes src: "constructed_sources sources" and new: "NewCatalog sources = Inr c"
  obtains aliases where "c = Some aliases" and "catalog_ok aliases"
    and "\<And>n e. map_of aliases n = Some e \<longleftrightarrow> (\<exists>s \<in> set sources. source_defines s n e)"
proof -
  let ?ordered = "sort_key sd_SourceID sources"
  define aliases where "aliases = first_candidates (concat (map source_entries ?ordered))"
  note steps = NewCatalog_steps [OF new]
  have c: "c = Some aliases" using steps(5) by (simp add: aliases_def)
  have docs: "\<forall>s \<in> set sources. document_ok (document_of s)"
    using constructed_document_ok [OF src] steps(2) by (simp add: check_documents_Inr)
  have valid: "\<forall>s \<in> set sources. validateSourceID (sd_SourceID s)"
    using check_sources_Inr [OF steps(1)] by simp
  have lookup: "map_of aliases n = Some e \<longleftrightarrow> (\<exists>s \<in> set sources. source_defines s n e)" for n e
  proof -
    have "map_of aliases n = Some e \<longleftrightarrow> (\<exists>s \<in> set sources. e \<in> set (source_entries s)) \<and> en_name e = n"
      unfolding aliases_def first_candidates_lookup(1) [OF steps(4)] by simp
    also have "\<dots> \<longleftrightarrow> (\<exists>s \<in> set sources. source_defines s n e)"
      using docs source_entries_mem by (auto simp: source_defines_def)
    finally show ?thesis .
  qed
  have keys: "distinct (map fst aliases)" unfolding aliases_def by (rule first_candidates_lookup(2) [OF steps(4)])
  have "catalog_entry_ok n e" if "(n, e) \<in> set aliases" for n e
  proof -
    have "map_of aliases n = Some e" using keys that by simp
    then show ?thesis using lookup source_defines_ok docs valid by blast
  qed
  then have "catalog_ok aliases"
    using keys NewCatalog_size [of sources aliases] new c by (auto simp: catalog_ok_def)
  then show thesis using c lookup that by blast
qed

end
