(* ===== verification/Alias_Expansion.thy ===== *)
theory Alias_Expansion
  imports Alias_Catalog_Props
begin

text \<open>
  The reference expansion and its agreement with \<^verbatim>\<open>ExpandRecipe\<close>.  The reference follows the
  documentation: a recipe is the chain of its base references down to a factory, its
  transforms are those of the deepest recipe first, and its trace lists one node per
  alias occurrence.  The base references of a catalog form a partial function, so a chain
  exists exactly when the walk meets no recipe twice.
\<close>

subsection \<open>Base references\<close>

inductive base_ref :: "catalogData \<Rightarrow> bytes \<Rightarrow> bytes \<Rightarrow> bool" for aliases where
  "map_of aliases n = Some e \<Longrightarrow> is_recipe e \<Longrightarrow> ra_factory (recipe_of e) = None \<Longrightarrow>
   m = ra_baseRecipe (recipe_of e) \<Longrightarrow> map_of aliases m = Some child \<Longrightarrow> is_recipe child \<Longrightarrow> base_ref aliases n m"

inductive_cases base_refE: "base_ref aliases n m"

inductive recipe_chain :: "catalogData \<Rightarrow> bytes \<Rightarrow> catalogEntry list \<Rightarrow> bool" for aliases where
  factory_base: "map_of aliases n = Some e \<Longrightarrow> is_recipe e \<Longrightarrow> ra_factory (recipe_of e) \<noteq> None \<Longrightarrow>
     recipe_chain aliases n [e]"
| recipe_base: "map_of aliases n = Some e \<Longrightarrow> is_recipe e \<Longrightarrow> ra_factory (recipe_of e) = None \<Longrightarrow>
     recipe_chain aliases (ra_baseRecipe (recipe_of e)) es \<Longrightarrow> recipe_chain aliases n (e # es)"

lemma base_ref_functional: "base_ref aliases n m \<Longrightarrow> base_ref aliases n m' \<Longrightarrow> m = m'"
  by (erule base_refE, erule base_refE) simp

lemma recipe_chain_unique: "recipe_chain aliases n es \<Longrightarrow> recipe_chain aliases n es' \<Longrightarrow> es = es'"
proof (induction arbitrary: es' rule: recipe_chain.induct)
  case (factory_base n e)
  from factory_base.prems factory_base.hyps show ?case by (cases rule: recipe_chain.cases) simp_all
next
  case (recipe_base n e es)
  from recipe_base.prems recipe_base.hyps(1-3)
  obtain es'' where "es' = e # es''" "recipe_chain aliases (ra_baseRecipe (recipe_of e)) es''"
    by (cases rule: recipe_chain.cases) simp_all
  then show ?case using recipe_base.IH by blast
qed

lemma recipe_chain_hd:
  "recipe_chain aliases n es \<Longrightarrow> es \<noteq> [] \<and> map_of aliases n = Some (hd es)"
  by (induction rule: recipe_chain.induct) simp_all

lemma recipe_chain_entries:
  assumes "recipe_chain aliases n es"
  shows "\<forall>e \<in> set es. is_recipe e \<and> (\<exists>m. map_of aliases m = Some e)"
  using assms by (induction rule: recipe_chain.induct) auto

lemma recipe_chain_last: "recipe_chain aliases n es \<Longrightarrow> ra_factory (recipe_of (last es)) \<noteq> None"
  by (induction rule: recipe_chain.induct) (auto dest: recipe_chain_hd)

lemma recipe_chain_suffix:
  assumes "recipe_chain aliases n es" and "catalog_ok aliases" and "i < length es"
  shows "recipe_chain aliases (en_name (es ! i)) (drop i es)"
  using assms(1,3)
proof (induction arbitrary: i rule: recipe_chain.induct)
  case (factory_base n e)
  then show ?case using catalog_lookup_ok [OF assms(2), of n e]
    by (simp add: catalog_entry_ok_def recipe_chain.factory_base)
next
  case (recipe_base n e es)
  then show ?case using catalog_lookup_ok [OF assms(2), of n e]
    by (cases i) (auto simp: catalog_entry_ok_def intro: recipe_chain.recipe_base)
qed

lemma recipe_chain_distinct:
  assumes "recipe_chain aliases n es" and "catalog_ok aliases"
  shows "distinct (map en_name es)"
proof (rule ccontr)
  assume "\<not> distinct (map en_name es)"
  then obtain i j where ij: "i < j" "j < length es" "en_name (es ! i) = en_name (es ! j)"
    by (auto simp: distinct_conv_nth) (metis linorder_neqE_nat)
  then have "drop i es = drop j es"
    using recipe_chain_suffix [OF assms, of i] recipe_chain_suffix [OF assms, of j] recipe_chain_unique by auto
  then have "length (drop i es) = length (drop j es)" by simp
  with ij show False by simp
qed

lemma recipe_chain_length:
  assumes "recipe_chain aliases n es" and "catalog_ok aliases"
  shows "length es \<le> MaxAliases"
proof -
  have "set (map en_name es) \<subseteq> fst ` set aliases"
    using recipe_chain_entries [OF assms(1)] catalog_lookup_ok [OF assms(2)]
    by (fastforce simp: catalog_entry_ok_def dest: map_of_SomeD intro: rev_image_eqI)
  then have "card (set (map en_name es)) \<le> card (fst ` set aliases)" by (intro card_mono) auto
  also have "\<dots> \<le> length aliases" using card_image_le [of "set aliases" fst] card_length [of aliases] by simp
  finally show ?thesis
    using distinct_card [OF recipe_chain_distinct [OF assms]] assms(2) by (simp add: catalog_ok_def)
qed

subsection \<open>The walk down the chain\<close>

definition active_ok :: "(bytes \<times> nat) list \<Rightarrow> catalogEntry list \<Rightarrow> bool" where
  "active_ok active chain \<longleftrightarrow> distinct (map en_name chain) \<and>
     (\<forall>n i. map_of active n = Some i \<longleftrightarrow> i < length chain \<and> en_name (chain ! i) = n)"

lemma active_ok_None:
  assumes "active_ok active chain"
  shows "map_of active n = None \<longleftrightarrow> n \<notin> en_name ` set chain"
proof -
  have h: "map_of active n = Some i \<longleftrightarrow> i < length chain \<and> en_name (chain ! i) = n" for i
    using assms unfolding active_ok_def by (elim conjE allE)
  have "map_of active n = None \<longleftrightarrow> (\<forall>i. \<not> (i < length chain \<and> en_name (chain ! i) = n))"
    unfolding h [symmetric] by (cases "map_of active n") simp_all
  also have "\<dots> \<longleftrightarrow> (\<forall>i < length chain. en_name (chain ! i) \<noteq> n)" by simp
  also have "\<dots> \<longleftrightarrow> n \<notin> en_name ` set chain" 
    unfolding all_set_conv_all_nth [of chain "\<lambda>e. en_name e \<noteq> n", symmetric] by auto
  finally show ?thesis .
qed

lemma active_ok_push:
  assumes "active_ok active chain" and "map_of active (en_name e) = None"
  shows "active_ok ((en_name e, length chain) # active) (chain @ [e])"
proof -
  have new: "en_name e \<notin> en_name ` set chain" using assms active_ok_None by blast
  have "map_of ((en_name e, length chain) # active) n = Some i \<longleftrightarrow>
      i < length (chain @ [e]) \<and> en_name ((chain @ [e]) ! i) = n" for n i
  proof (cases "i < length chain")
    case True
    then have "en_name (chain ! i) \<noteq> en_name e" using new by (metis image_eqI nth_mem)
    then show ?thesis using True assms(1) by (auto simp: active_ok_def nth_append)
  next
    case False
    then have "map_of active n \<noteq> Some i" using assms(1) by (simp add: active_ok_def)
    then show ?thesis using False by (auto simp: nth_append less_Suc_eq)
  qed
  then show ?thesis using assms(1) new by (simp add: active_ok_def)
qed

lemma base_chain_complete:
  assumes "recipe_chain aliases n es" and "catalog_ok aliases" and "map_of aliases n = Some e"
    and "active_ok active chain" and "distinct (map en_name (chain @ es))"
  shows "base_chain aliases active chain e = Inr (chain @ es)"
  using assms(1,3-)
proof (induction arbitrary: e active chain rule: recipe_chain.induct)
  case (factory_base n e')
  then show ?case by (subst base_chain.simps) (simp add: Let_def)
next
  case (recipe_base n e' es)
  have e: "e' = e" using recipe_base.hyps(1) recipe_base.prems(1) by simp
  obtain child where child: "map_of aliases (ra_baseRecipe (recipe_of e)) = Some child" "child = hd es" "es \<noteq> []"
    using recipe_chain_hd [OF recipe_base.hyps(4)] e by auto
  have rec: "is_recipe child" using recipe_chain_entries [OF recipe_base.hyps(4)] child by (cases es) auto
  have "map_of active (en_name e) = None"
    using active_ok_None [OF recipe_base.prems(2)] recipe_base.prems(3) e by auto
  then have act: "active_ok ((en_name e, length chain) # active) (chain @ [e])"
    by (rule active_ok_push [OF recipe_base.prems(2)])
  have "map_of ((en_name e, length chain) # active) (en_name child) = None"
    unfolding active_ok_None [OF act] using recipe_base.prems(3) child(2,3) e by (cases es) auto
  moreover have "base_chain aliases ((en_name e, length chain) # active) (chain @ [e]) child = Inr ((chain @ [e]) @ es)"
    by (rule recipe_base.IH) (use child e act recipe_base.prems(3) in auto)
  ultimately show ?case
    using child rec recipe_base.hyps(3) e by (subst base_chain.simps) (simp add: Let_def)
qed

text \<open>
  The outcomes of the walk from a recipe that is not yet on the chain: the chain of the
  recipe, an edge that is no reference, or an edge back into the chain.
\<close>

definition path_to :: "catalogData \<Rightarrow> catalogEntry list \<Rightarrow> bytes \<Rightarrow> bool" where
  "path_to aliases chain n \<longleftrightarrow>
     (\<forall>i < length chain. base_ref aliases (en_name (chain ! i)) (if Suc i < length chain then en_name (chain ! Suc i) else n))"

lemma path_to_snoc:
  "path_to aliases chain (en_name e) \<Longrightarrow> base_ref aliases (en_name e) m \<Longrightarrow> path_to aliases (chain @ [e]) m"
  unfolding path_to_def
proof (intro allI impI)
  assume p: "\<forall>i < length chain. base_ref aliases (en_name (chain ! i))
      (if Suc i < length chain then en_name (chain ! Suc i) else en_name e)" and r: "base_ref aliases (en_name e) m"
  fix i assume i: "i < length (chain @ [e])"
  show "base_ref aliases (en_name ((chain @ [e]) ! i))
      (if Suc i < length (chain @ [e]) then en_name ((chain @ [e]) ! Suc i) else m)"
  proof (cases "i < length chain")
    case True
    with p [rule_format, OF True] show ?thesis by (auto simp: nth_append not_less less_Suc_eq)
  next
    case False
    with i r show ?thesis by (simp add: nth_append)
  qed
qed

definition closed_cycle :: "catalogData \<Rightarrow> DiagnosticReference list \<Rightarrow> bool" where
  "closed_cycle aliases cyc \<longleftrightarrow> 2 \<le> length cyc \<and> dr_Alias (hd cyc) = dr_Alias (last cyc)
     \<and> (\<forall>i. Suc i < length cyc \<longrightarrow> base_ref aliases (dr_Alias (cyc ! i)) (dr_Alias (cyc ! Suc i)))
     \<and> distinct (map dr_Alias (butlast cyc))"

lemma path_cycle:
  assumes "path_to aliases chain (en_name child)" and "distinct (map en_name chain)"
    and "first < length chain" and "en_name (chain ! first) = en_name child"
  shows "closed_cycle aliases (map entry_reference (drop first chain) @ [entry_reference child])"
  unfolding closed_cycle_def
proof (intro conjI allI impI)
  let ?cyc = "map entry_reference (drop first chain) @ [entry_reference child]"
  show "2 \<le> length ?cyc" using assms(3) by simp
  show "dr_Alias (hd ?cyc) = dr_Alias (last ?cyc)"
    using assms(3,4) by (simp add: hd_append hd_map hd_drop_conv_nth entry_reference_def)
  show "distinct (map dr_Alias (butlast ?cyc))"
    using assms(2) by (simp add: butlast_append comp_def entry_reference_def drop_map [symmetric])
  fix i assume "Suc i < length ?cyc"
  then show "base_ref aliases (dr_Alias (?cyc ! i)) (dr_Alias (?cyc ! Suc i))"
    using assms(1) [unfolded path_to_def, rule_format, of "first + i"] assms(3)
    by (auto simp: nth_append entry_reference_def less_diff_conv add.commute split: if_splits)
qed

definition walk_stops :: "catalogData \<Rightarrow> bytes \<Rightarrow> bool" where
  "walk_stops aliases n \<longleftrightarrow> (\<exists>e. map_of aliases n = Some e \<and> is_recipe e \<and> ra_factory (recipe_of e) = None)
     \<and> (\<forall>m. \<not> base_ref aliases n m)"

definition walk_error :: "catalogData \<Rightarrow> bytes \<Rightarrow> CompositionError \<Rightarrow> bool" where
  "walk_error aliases n err \<longleftrightarrow>
     validateSourceID (er_SourceID err) \<and> (\<exists>m. validAliasName m \<and> er_Pointer err = definitionPointer m @ ''/base/recipe'')
     \<and> (if er_Code err = CodeCycle
        then closed_cycle aliases (er_cycle err) \<and> (base_ref aliases)\<^sup>*\<^sup>* n (dr_Alias (last (er_cycle err)))
        else er_Code err \<in> {CodeMissingReference, CodeWrongReferenceKind}
             \<and> (\<exists>m. (base_ref aliases)\<^sup>*\<^sup>* n m \<and> walk_stops aliases m))"

lemma walk_error_step: "base_ref aliases n m \<Longrightarrow> walk_error aliases m err \<Longrightarrow> walk_error aliases n err"
  unfolding walk_error_def by (auto intro: converse_rtranclp_into_rtranclp split: if_splits)

lemma base_chain_stop:
  assumes "catalog_ok aliases" and e: "map_of aliases (en_name e) = Some e" "is_recipe e"
    and none: "ra_factory (recipe_of e) = None" "\<nexists>m. base_ref aliases (en_name e) m"
  shows "\<exists>err. base_chain aliases active chain e = Inl err \<and> walk_error aliases (en_name e) err"
proof -
  have "walk_stops aliases (en_name e)" using assms by (auto simp: walk_stops_def)
  moreover have "map_of aliases (ra_baseRecipe (recipe_of e)) = Some child \<Longrightarrow> \<not> is_recipe child" for child
    using none(2) base_ref.intros [OF e none(1) refl] by blast
  moreover have "catalog_entry_ok (en_name e) e" using catalog_lookup_ok assms(1) e(1) by blast
  ultimately show ?thesis using none(1)
    by (subst base_chain.simps)
      (cases "map_of aliases (ra_baseRecipe (recipe_of e))", auto simp: Let_def walk_error_def catalog_entry_ok_def)
qed

lemma base_chain_cycle:
  assumes "catalog_ok aliases" and e: "map_of aliases (en_name e) = Some e"
    and act: "active_ok ((en_name e, length chain) # active) (chain @ [e])"
    and path: "path_to aliases (chain @ [e]) (en_name child)"
    and ref: "base_ref aliases (en_name e) (en_name child)" and none: "ra_factory (recipe_of e) = None"
    and child: "map_of aliases (ra_baseRecipe (recipe_of e)) = Some child" "is_recipe child"
    and first: "map_of ((en_name e, length chain) # active) (en_name child) = Some first"
  shows "\<exists>err. base_chain aliases active chain e = Inl err \<and> walk_error aliases (en_name e) err"
proof -
  let ?cyc = "map entry_reference (drop first (chain @ [e])) @ [entry_reference child]"
  have "first < length (chain @ [e])" "en_name ((chain @ [e]) ! first) = en_name child"
    using act first unfolding active_ok_def by blast+
  then have "closed_cycle aliases ?cyc" using path_cycle [OF path] act unfolding active_ok_def by blast
  moreover have "(base_ref aliases)\<^sup>*\<^sup>* (en_name e) (dr_Alias (last ?cyc))"
    using ref by (simp add: entry_reference_def r_into_rtranclp)
  moreover have "base_chain aliases active chain e =
      Inl (invalidWithCycle (en_sourceID e) (definitionPointer (en_name e) @ ''/base/recipe'') ?cyc)"
    using none child first by (subst base_chain.simps) (simp add: Let_def)
  moreover have "catalog_entry_ok (en_name e) e" using catalog_lookup_ok assms(1) e by blast
  ultimately show ?thesis by (auto simp: walk_error_def catalog_entry_ok_def)
qed

lemma base_chain_outcome:
  assumes "catalog_ok aliases" and "map_of aliases (en_name e) = Some e" and "is_recipe e"
    and "active_ok active chain" and "map_of active (en_name e) = None" and "path_to aliases chain (en_name e)"
  shows "(\<exists>es. base_chain aliases active chain e = Inr (chain @ es) \<and> recipe_chain aliases (en_name e) es)
    \<or> (\<exists>err. base_chain aliases active chain e = Inl err \<and> walk_error aliases (en_name e) err)"
  using assms
proof (induction aliases active chain e rule: base_chain.induct)
  case (1 aliases active chain e)
  note ok = "1.prems"
  have act: "active_ok ((en_name e, length chain) # active) (chain @ [e])" using ok(4,5) by (rule active_ok_push)
  consider (factory) "ra_factory (recipe_of e) \<noteq> None"
    | (stop) "ra_factory (recipe_of e) = None" "\<nexists>m. base_ref aliases (en_name e) m"
    | (step) m where "ra_factory (recipe_of e) = None" "base_ref aliases (en_name e) m" by blast
  then show ?case
  proof cases
    case factory
    then show ?thesis using ok(2,3) recipe_chain.factory_base [of aliases "en_name e" e]
      by (subst base_chain.simps) (simp add: Let_def)
  next
    case stop
    then show ?thesis using base_chain_stop ok by blast
  next
    case step
    obtain child where child: "map_of aliases (ra_baseRecipe (recipe_of e)) = Some child" "is_recipe child"
      and m: "m = ra_baseRecipe (recipe_of e)"
      using step(2) ok(2) by (elim base_refE) simp
    have name: "en_name child = ra_baseRecipe (recipe_of e)"
      using catalog_lookup_ok [OF ok(1) child(1)] by (simp add: catalog_entry_ok_def)
    note ref = step(2) [unfolded m name [symmetric]]
    note path = path_to_snoc [OF ok(6) ref]
    show ?thesis
    proof (cases "map_of ((en_name e, length chain) # active) (en_name child)")
      case None
      have "(\<exists>es. base_chain aliases ((en_name e, length chain) # active) (chain @ [e]) child = Inr ((chain @ [e]) @ es)
            \<and> recipe_chain aliases (en_name child) es)
          \<or> (\<exists>err. base_chain aliases ((en_name e, length chain) # active) (chain @ [e]) child = Inl err
            \<and> walk_error aliases (en_name child) err)"
        by (rule "1.IH" [OF refl refl refl _ refl child(1)]) (use step(1) child name None ok(1) act path in auto)
      moreover have "base_chain aliases active chain e = base_chain aliases ((en_name e, length chain) # active) (chain @ [e]) child"
        using step(1) child None by (subst base_chain.simps) (simp add: Let_def)
      moreover have "recipe_chain aliases (en_name child) es \<Longrightarrow> recipe_chain aliases (en_name e) (e # es)" for es
        using recipe_chain.recipe_base [OF ok(2,3) step(1)] name by simp
      ultimately show ?thesis using walk_error_step [OF ref] by auto
    next
      case (Some first)
      then show ?thesis using base_chain_cycle [OF ok(1,2) act path ref step(1) child] by blast
    qed
  qed
qed

subsection \<open>Cycles\<close>

lemma functional_cycle:
  assumes "(base_ref aliases)\<^sup>*\<^sup>* n x" and "(base_ref aliases)\<^sup>*\<^sup>* n m" and "(base_ref aliases)\<^sup>+\<^sup>+ m m"
  shows "\<exists>y. base_ref aliases x y"
proof -
  have "(base_ref aliases)\<^sup>*\<^sup>* x m" using assms(1)
  proof (induction rule: rtranclp_induct)
    case (step y z)
    have "(base_ref aliases)\<^sup>+\<^sup>+ y m" using step.IH assms(3) by (rule rtranclp_tranclp_tranclp)
    then obtain z' where "base_ref aliases y z'" "(base_ref aliases)\<^sup>*\<^sup>* z' m" by (auto dest: tranclpD)
    then show ?case using base_ref_functional [OF step.hyps(2)] by simp
  qed (rule assms(2))
  then have "(base_ref aliases)\<^sup>+\<^sup>+ x m" using assms(3) by (rule rtranclp_tranclp_tranclp)
  then show ?thesis by (auto dest: tranclpD)
qed

lemma recipe_chain_ends:
  "recipe_chain aliases n es \<Longrightarrow> \<exists>x. (base_ref aliases)\<^sup>*\<^sup>* n x \<and> (\<forall>y. \<not> base_ref aliases x y)"
proof (induction rule: recipe_chain.induct)
  case (factory_base n e)
  then have "\<not> base_ref aliases n y" for y by (auto elim: base_refE)
  then show ?case by blast
next
  case (recipe_base n e es)
  have "is_recipe (hd es)" using recipe_chain_entries [OF recipe_base.hyps(4)] recipe_chain_hd [OF recipe_base.hyps(4)] by simp
  then have "base_ref aliases n (ra_baseRecipe (recipe_of e))"
    using base_ref.intros [OF recipe_base.hyps(1-3) refl] recipe_chain_hd [OF recipe_base.hyps(4)] by blast
  then show ?case using recipe_base.IH by (meson converse_rtranclp_into_rtranclp)
qed

lemma closed_cycle_returns:
  assumes "closed_cycle aliases cyc"
  shows "(base_ref aliases)\<^sup>+\<^sup>+ (dr_Alias (last cyc)) (dr_Alias (last cyc))"
proof -
  have path: "Suc i < length cyc \<Longrightarrow> (base_ref aliases)\<^sup>+\<^sup>+ (dr_Alias (cyc ! 0)) (dr_Alias (cyc ! Suc i))" for i
  proof (induction i)
    case 0
    then show ?case using assms by (auto simp: closed_cycle_def)
  next
    case (Suc i)
    then show ?case using assms by (auto simp: closed_cycle_def intro: tranclp.trancl_into_trancl)
  qed
  have len: "2 \<le> length cyc" using assms by (simp add: closed_cycle_def)
  then have "(base_ref aliases)\<^sup>+\<^sup>+ (dr_Alias (hd cyc)) (dr_Alias (last cyc))"
    using path [of "length cyc - 2"] by (cases cyc) (auto simp: last_conv_nth hd_conv_nth numeral_2_eq_2)
  then show ?thesis using assms by (simp add: closed_cycle_def)
qed

lemma walk_cycle_iff:
  assumes "catalog_ok aliases" and "map_of aliases n = Some e" and "is_recipe e"
  shows "(\<exists>err. base_chain aliases [] [] e = Inl err \<and> er_Code err = CodeCycle) \<longleftrightarrow>
     (\<exists>m. (base_ref aliases)\<^sup>*\<^sup>* n m \<and> (base_ref aliases)\<^sup>+\<^sup>+ m m)"
proof -
  have name: "en_name e = n" using catalog_lookup_ok [OF assms(1,2)] by (simp add: catalog_entry_ok_def)
  have "(\<exists>es. base_chain aliases [] [] e = Inr ([] @ es) \<and> recipe_chain aliases (en_name e) es)
    \<or> (\<exists>err. base_chain aliases [] [] e = Inl err \<and> walk_error aliases (en_name e) err)"
    by (rule base_chain_outcome) (use assms name in \<open>auto simp: active_ok_def path_to_def\<close>)
  then consider (chain) es where "base_chain aliases [] [] e = Inr es" "recipe_chain aliases n es"
    | (error) err where "base_chain aliases [] [] e = Inl err" "walk_error aliases n err"
    using name by auto
  then show ?thesis
  proof cases
    case chain
    then show ?thesis using recipe_chain_ends [OF chain(2)] functional_cycle by (metis Inr_not_Inl)
  next
    case error
    then show ?thesis
    proof (cases "er_Code err = CodeCycle")
      case True
      then show ?thesis using error closed_cycle_returns by (auto simp: walk_error_def)
    next
      case False
      then obtain x where "(base_ref aliases)\<^sup>*\<^sup>* n x" "\<forall>y. \<not> base_ref aliases x y"
        using error(2) by (auto simp: walk_error_def walk_stops_def)
      then show ?thesis using error(1) False functional_cycle by (metis sum.inject(1))
    qed
  qed
qed

end
