(* ===== verification/Alias_Expansion_Reference.thy ===== *)
theory Alias_Expansion_Reference
  imports Alias_Expansion
begin

text \<open>
  The steps of a chain as one list of occurrences, the transforms and the trace they
  stand for, and the proof that the incremental expansion (byte charge, counters, node
  table) computes exactly these.
\<close>

subsection \<open>Occurrences\<close>

type_synonym occurrence = "nat \<times> catalogEntry \<times> nat \<times> recipeStep"

definition occurrences :: "(nat \<times> catalogEntry) list \<Rightarrow> occurrence list" where
  "occurrences ies = concat (map (\<lambda>(i, e). map (\<lambda>ks. (i, e, ks)) (enumerate 0 (ra_steps (recipe_of e)))) ies)"

fun expand_occs :: "catalogData \<Rightarrow> catalogEntry \<Rightarrow> occurrence list \<Rightarrow> expansion \<Rightarrow> expansion composed" where
  "expand_occs aliases target [] x = Inr x"
| "expand_occs aliases target ((i, e, k, s) # os) x =
     res_bind (expand_step aliases target i e k s x) (expand_occs aliases target os)"

lemma expand_occs_append:
  "expand_occs aliases target (os @ os') x = res_bind (expand_occs aliases target os x) (expand_occs aliases target os')"
proof (induction os arbitrary: x)
  case (Cons occ os)
  then have "expand_occs aliases target (os @ os') = (\<lambda>x. res_bind (expand_occs aliases target os x) (expand_occs aliases target os'))"
    by (intro ext)
  then show ?case by (cases occ) (simp add: res_bind_assoc)
qed simp

lemma expand_steps_occs:
  "expand_steps aliases target i e k ss x = expand_occs aliases target (map (\<lambda>ks. (i, e, ks)) (enumerate k ss)) x"
proof (induction ss arbitrary: k x)
  case (Cons s ss)
  then have "expand_steps aliases target i e (Suc k) ss =
      expand_occs aliases target (map (\<lambda>ks. (i, e, ks)) (enumerate (Suc k) ss))" by (intro ext)
  then show ?case by simp
qed simp

lemma expand_chain_occs: "expand_chain aliases target ies x = expand_occs aliases target (occurrences ies) x"
proof (induction ies arbitrary: x)
  case (Cons ie ies)
  then have "expand_chain aliases target ies = expand_occs aliases target (occurrences ies)" by (intro ext)
  then show ?case by (cases ie) (simp add: expand_steps_occs occurrences_def expand_occs_append)
qed (simp add: occurrences_def)

subsection \<open>The reference\<close>

definition step_transform :: "catalogData \<Rightarrow> recipeStep \<Rightarrow> TransformDeclaration option" where
  "step_transform aliases s =
     (case rs_transform s of Some t \<Rightarrow> Some t
      | None \<Rightarrow> (case map_of aliases (rs_use s) of None \<Rightarrow> None
         | Some c \<Rightarrow> (case en_definition c of TransformAlias t \<Rightarrow> Some t | RecipeAlias _ \<Rightarrow> None)))"

definition chain_steps :: "catalogEntry list \<Rightarrow> recipeStep list" where
  "chain_steps chain = concat (map (\<lambda>e. ra_steps (recipe_of e)) (rev chain))"

definition steps_resolve :: "catalogData \<Rightarrow> recipeStep list \<Rightarrow> TransformDeclaration list \<Rightarrow> bool" where
  "steps_resolve aliases ss ts \<longleftrightarrow> list_all2 (\<lambda>s t. step_transform aliases s = Some t) ss ts"

definition use_node :: "catalogData \<Rightarrow> nat \<Rightarrow> occurrence \<Rightarrow> traceNodeData" where
  "use_node aliases nodeID occ =
     (case occ of (i, e, k, s) \<Rightarrow>
       let child = the (map_of aliases (rs_use s)) in
       \<lparr>tn_id = int nodeID, tn_parentID = int i, tn_hasParent = True, tn_referencePointer = stepPointer (en_name e) k ''use'',
        tn_kind = AliasKindTransform, tn_alias = en_name child, tn_sourceID = en_sourceID child,
        tn_pointer = definitionPointer (en_name child)\<rparr>)"

definition is_use :: "occurrence \<Rightarrow> bool" where
  "is_use occ \<longleftrightarrow> (case occ of (i, e, k, s) \<Rightarrow> rs_transform s = None)"

fun use_nodes :: "catalogData \<Rightarrow> nat \<Rightarrow> occurrence list \<Rightarrow> traceNodeData list" where
  "use_nodes aliases n [] = []"
| "use_nodes aliases n (occ # os) =
     (if is_use occ then use_node aliases n occ # use_nodes aliases (Suc n) os else use_nodes aliases n os)"

definition occ_origin :: "catalogData \<Rightarrow> nat \<Rightarrow> nat \<Rightarrow> occurrence \<Rightarrow> originData" where
  "occ_origin aliases n j occ =
     (case occ of (i, e, k, s) \<Rightarrow>
       if is_use occ
       then \<lparr>og_outputIndex = int j, og_nodeID = int n,
             og_pointer = definitionPointer (en_name (the (map_of aliases (rs_use s)))) @ ''/declaration''\<rparr>
       else \<lparr>og_outputIndex = int j, og_nodeID = int i, og_pointer = stepPointer (en_name e) k ''transform''\<rparr>)"

fun occ_origins :: "catalogData \<Rightarrow> nat \<Rightarrow> nat \<Rightarrow> occurrence list \<Rightarrow> originData list" where
  "occ_origins aliases n j [] = []"
| "occ_origins aliases n j (occ # os) =
     occ_origin aliases n j occ # occ_origins aliases (if is_use occ then Suc n else n) (Suc j) os"

definition chain_occurrences :: "catalogEntry list \<Rightarrow> occurrence list" where
  "chain_occurrences chain = occurrences (rev (enumerate 0 chain))"

definition reference_trace :: "catalogData \<Rightarrow> catalogEntry list \<Rightarrow> traceData" where
  "reference_trace aliases chain =
     \<lparr>tr_nodes = map (chain_node chain) [0..<length chain] @ use_nodes aliases (length chain) (chain_occurrences chain),
      tr_factory = Some \<lparr>og_outputIndex = 0, og_nodeID = int (length chain) - 1,
        og_pointer = definitionPointer (en_name (last chain)) @ ''/base/factory''\<rparr>,
      tr_transforms = occ_origins aliases (length chain) 0 (chain_occurrences chain)\<rparr>"

definition occ_step :: "occurrence \<Rightarrow> recipeStep" where
  "occ_step occ = (case occ of (i, e, k, s) \<Rightarrow> s)"

lemma occ_step_simp [simp]: "occ_step (i, e, ks) = snd ks"
  by (simp add: occ_step_def split_beta)

lemma occurrence_steps: "map occ_step (chain_occurrences chain) = chain_steps chain"
proof -
  have "map occ_step (occurrences ies) = concat (map (\<lambda>e. ra_steps (recipe_of e)) (map snd ies))" for ies
    by (induction ies) (auto simp: occurrences_def comp_def split_beta)
  from this [of "rev (enumerate 0 chain)"] show ?thesis
    by (simp only: chain_occurrences_def chain_steps_def rev_map [symmetric] map_snd_enumerate)
qed

lemma length_occ_origins [simp]: "length (occ_origins aliases n j os) = length os"
  by (induction os arbitrary: n j) simp_all

lemma length_use_nodes: "length (use_nodes aliases n os) = length (filter is_use os)"
  by (induction os arbitrary: n) simp_all

subsection \<open>The byte charge\<close>

definition recipe_bytes :: "FactoryDeclaration \<Rightarrow> TransformDeclaration list \<Rightarrow> nat" where
  "recipe_bytes f ts = length (json_Marshal (recipe_json f ts))"

definition transform_bytes :: "TransformDeclaration \<Rightarrow> nat" where
  "transform_bytes t = length (json_Marshal (declaration_json (transformDeclarationWire t)))"

lemma recipe_bytes_snoc:
  "recipe_bytes f (ts @ [t]) = recipe_bytes f ts + transform_bytes t + (if ts = [] then 0 else 1)"
  by (cases ts) (simp_all add: recipe_bytes_def transform_bytes_def recipe_json_def length_commas)

lemma recipe_bytes_mono: "recipe_bytes f ts \<le> recipe_bytes f (ts @ us)"
proof (induction us rule: rev_induct)
  case (snoc u us)
  then show ?case using recipe_bytes_snoc [of f "ts @ us" u] by simp
qed simp

lemma charge_admitted:
  assumes "transform_admitted t" and "ex_used x = int (recipe_bytes f (ex_transforms x))"
  shows "charge t x = (if recipe_bytes f (ex_transforms x @ [t]) \<le> MaxJSONBytes
     then Some (x\<lparr>ex_used := int (recipe_bytes f (ex_transforms x @ [t]))\<rparr>) else None)"
  using assms by (auto simp: charge_def TransformDeclaration_MarshalJSON_admitted recipe_bytes_snoc transform_bytes_def
      checkedAdd_def Let_def)

subsection \<open>Running the occurrences\<close>

definition expansion_ok :: "FactoryDeclaration \<Rightarrow> nat \<Rightarrow> expansion \<Rightarrow> bool" where
  "expansion_ok f n x \<longleftrightarrow> length (ex_origins x) = length (ex_transforms x)
     \<and> ex_used x = int (recipe_bytes f (ex_transforms x)) \<and> length (ex_nodes x) \<le> n + length (ex_transforms x) \<and> n \<le> MaxAliases"

definition advance :: "catalogData \<Rightarrow> FactoryDeclaration \<Rightarrow> occurrence \<Rightarrow> TransformDeclaration \<Rightarrow> expansion \<Rightarrow> expansion" where
  "advance aliases f occ t x =
     \<lparr>ex_transforms = ex_transforms x @ [t],
      ex_origins = ex_origins x @ [occ_origin aliases (length (ex_nodes x)) (length (ex_origins x)) occ],
      ex_nodes = ex_nodes x @ (if is_use occ then [use_node aliases (length (ex_nodes x)) occ] else []),
      ex_used = int (recipe_bytes f (ex_transforms x @ [t]))\<rparr>"

definition fits :: "FactoryDeclaration \<Rightarrow> TransformDeclaration list \<Rightarrow> bool" where
  "fits f ts \<longleftrightarrow> length ts \<le> MaxTransforms \<and> recipe_bytes f ts \<le> MaxJSONBytes"

lemma fits_prefix: "fits f (ts @ us) \<Longrightarrow> fits f ts"
  using recipe_bytes_mono [of f ts us] by (simp add: fits_def)

definition step_error :: "catalogEntry \<Rightarrow> nat \<Rightarrow> CompositionError \<Rightarrow> bool" where
  "step_error e k err \<longleftrightarrow> er_Code err \<in> {CodeMissingReference, CodeWrongReferenceKind} \<and> er_SourceID err = en_sourceID e
     \<and> er_Pointer err = stepPointer (en_name e) k ''use''"

lemma expand_step_exact:
  assumes cat: "catalog_ok aliases" and step: "step_ok s" and x: "expansion_ok f n x"
  shows "expand_step aliases target i e k s x =
     (case step_transform aliases s of
        Some t \<Rightarrow> if fits f (ex_transforms x @ [t]) then Inr (advance aliases f (i, e, k, s) t x) else Inl (too_large target)
      | None \<Rightarrow> Inl (comp_invalid (if map_of aliases (rs_use s) = None then CodeMissingReference else CodeWrongReferenceKind)
                  (en_sourceID e) (stepPointer (en_name e) k ''use'') None))"
proof (cases "rs_transform s")
  case (Some t)
  then have t: "transform_admitted t" using step by (simp add: step_ok_def)
  have used: "ex_used x = int (recipe_bytes f (ex_transforms x))" using x by (simp add: expansion_ok_def)
  show ?thesis using Some x t
    by (auto simp: expand_step_def step_transform_def charge_admitted [OF t used] fits_def advance_def
        is_use_def occ_origin_def Suc_le_eq not_le)
next
  case None
  show ?thesis
  proof (cases "step_transform aliases s")
    case (Some t)
    then obtain c where c: "map_of aliases (rs_use s) = Some c" "en_definition c = TransformAlias t"
      using None by (auto simp: step_transform_def split: option.splits aliasDefinition.splits)
    then have t: "transform_admitted t" using catalog_lookup_ok [OF cat c(1)] by (simp add: catalog_entry_ok_def)
    have used: "ex_used x = int (recipe_bytes f (ex_transforms x))"
      and nodes: "length (ex_nodes x) \<le> MaxAliases + length (ex_transforms x)" using x by (simp_all add: expansion_ok_def)
    have "MaxTransforms \<le> length (ex_transforms x) \<or> MaxTraceNodes \<le> length (ex_nodes x) \<longleftrightarrow> MaxTransforms \<le> length (ex_transforms x)"
      using nodes by (auto simp: MaxTraceNodes_def)
    then show ?thesis using None Some c t
      by (auto simp: expand_step_def charge_admitted [OF t used] fits_def advance_def is_use_def occ_origin_def use_node_def
          Let_def Suc_le_eq not_le)
  next
    case none: None
    then show ?thesis using None
      by (auto simp: expand_step_def step_transform_def Let_def split: option.splits aliasDefinition.splits)
  qed
qed

lemma advance_ok: "expansion_ok f n x \<Longrightarrow> expansion_ok f n (advance aliases f occ t x)"
  by (simp add: expansion_ok_def advance_def)

text \<open>The result of all occurrences, and why a run stops.\<close>

definition expand_result ::
    "catalogData \<Rightarrow> FactoryDeclaration \<Rightarrow> occurrence list \<Rightarrow> TransformDeclaration list \<Rightarrow> expansion \<Rightarrow> expansion" where
  "expand_result aliases f os ts x =
     \<lparr>ex_transforms = ex_transforms x @ ts,
      ex_origins = ex_origins x @ occ_origins aliases (length (ex_nodes x)) (length (ex_origins x)) os,
      ex_nodes = ex_nodes x @ use_nodes aliases (length (ex_nodes x)) os,
      ex_used = int (recipe_bytes f (ex_transforms x @ ts))\<rparr>"

lemma expand_result_step:
  "expand_result aliases f os ts (advance aliases f occ t x) = expand_result aliases f (occ # os) (t # ts) x"
  by (simp add: expand_result_def advance_def)

lemma expand_occs_exact:
  assumes cat: "catalog_ok aliases" and "list_all (step_ok \<circ> occ_step) os" and "expansion_ok f n x" and "fits f (ex_transforms x)"
  shows "(\<exists>ts. steps_resolve aliases (map occ_step os) ts \<and> fits f (ex_transforms x @ ts)
        \<and> expand_occs aliases target os x = Inr (expand_result aliases f os ts x))
     \<or> (\<exists>err. expand_occs aliases target os x = Inl err
        \<and> (err = too_large target \<or> (\<exists>(i, e, k, s) \<in> set os. step_error e k err))
        \<and> (\<forall>ts. steps_resolve aliases (map occ_step os) ts \<longrightarrow> \<not> fits f (ex_transforms x @ ts)))"
  using assms(2-)
proof (induction os arbitrary: x)
  case Nil
  then show ?case by (simp add: steps_resolve_def expand_result_def expansion_ok_def)
next
  case (Cons occ os)
  obtain i e k s where occ: "occ = (i, e, k, s)" by (cases occ) blast
  have "step_ok s" using Cons.prems(1) occ by simp
  note step = expand_step_exact [OF cat this Cons.prems(2), of target i e k]
  show ?case
  proof (cases "step_transform aliases s")
    case None
    then show ?thesis using step occ
      by (auto simp: step_error_def steps_resolve_def list_all2_Cons1)
  next
    case (Some t)
    show ?thesis
    proof (cases "fits f (ex_transforms x @ [t])")
      case False
      then have "\<not> fits f (ex_transforms x @ t # ts)" for ts using fits_prefix [of f "ex_transforms x @ [t]" ts] by auto
      with False show ?thesis using step Some occ by (auto simp: steps_resolve_def list_all2_Cons1)
    next
      case True
      let ?y = "advance aliases f occ t x"
      have run: "expand_occs aliases target (occ # os) x = expand_occs aliases target os ?y"
        using step Some True occ by simp
      have tr: "ex_transforms ?y = ex_transforms x @ [t]" by (simp add: advance_def)
      have res: "steps_resolve aliases (map occ_step (occ # os)) us \<longleftrightarrow> (\<exists>ts. us = t # ts \<and> steps_resolve aliases (map occ_step os) ts)" for us
        using Some occ by (auto simp: steps_resolve_def list_all2_Cons1)
      have "list_all (step_ok \<circ> occ_step) os" using Cons.prems(1) by (simp add: comp_def)
      from Cons.IH [of ?y, OF this advance_ok [OF Cons.prems(2)], unfolded tr expand_result_step, OF True]
      consider (ok) ts where "steps_resolve aliases (map occ_step os) ts" "fits f ((ex_transforms x @ [t]) @ ts)"
          "expand_occs aliases target os ?y = Inr (expand_result aliases f (occ # os) (t # ts) x)"
        | (error) err where "expand_occs aliases target os ?y = Inl err"
          "err = too_large target \<or> (\<exists>(i, e, k, s) \<in> set os. step_error e k err)"
          "\<forall>ts. steps_resolve aliases (map occ_step os) ts \<longrightarrow> \<not> fits f ((ex_transforms x @ [t]) @ ts)"
        by blast
      then show ?thesis
      proof cases
        case ok
        then show ?thesis using res run by (intro disjI1 exI [of _ "t # ts"]) simp
      next
        case error
        then show ?thesis using res run by (intro disjI2 exI [of _ err]) auto
      qed
    qed
  qed
qed

end
