(* ===== verification/Alias_Trace_Props.thy ===== *)
theory Alias_Trace_Props
  imports Alias_Expansion_Reference
begin

text \<open>
  The trace the expander generates satisfies the closed trace grammar by construction, and
  its wire form decodes to the same trace.
\<close>

subsection \<open>The order of occurrences\<close>

text \<open>
  After recipe position \<open>r\<close> and step \<open>k\<close>, the next occurrence is the next step of the same
  recipe or the first step of a recipe nearer to the target.
\<close>

fun occs_ordered :: "nat \<Rightarrow> int \<Rightarrow> occurrence list \<Rightarrow> bool" where
  "occs_ordered r k0 [] = True"
| "occs_ordered r k0 ((i, e, k, s) # os) \<longleftrightarrow> ((i < r \<and> k = 0) \<or> (i = r \<and> int k = k0 + 1)) \<and> occs_ordered i (int k) os"

lemma occs_ordered_recipe:
  assumes "\<And>k'. occs_ordered i k' os"
  shows "occs_ordered i (int k - 1) (map (\<lambda>ks. (i, e, ks)) (enumerate k ss) @ os)"
  using assms
proof (induction ss arbitrary: k)
  case (Cons s ss)
  then show ?case using Cons.IH [of "Suc k"] by simp
qed simp

lemma occs_ordered_lower:
  "occs_ordered i (- 1) os \<Longrightarrow> i < r \<Longrightarrow> occs_ordered r k os"
  by (cases os) (auto split: prod.splits)

lemma occs_ordered_occurrences:
  "sorted_wrt (>) (map fst ies) \<Longrightarrow> \<forall>i \<in> fst ` set ies. i < r \<Longrightarrow> occs_ordered r k (occurrences ies)"
proof (induction ies arbitrary: r k)
  case (Cons ie ies)
  obtain i e where ie: "ie = (i, e)" by (cases ie)
  have "occs_ordered i k' (occurrences ies)" for k'
    using Cons.IH [of i k'] Cons.prems(1) ie by auto
  then have "occs_ordered i (- 1) (map (\<lambda>ks. (i, e, ks)) (enumerate 0 (ra_steps (recipe_of e))) @ occurrences ies)"
    using occs_ordered_recipe [of i "occurrences ies" 0 e] by simp
  then have "occs_ordered r k (map (\<lambda>ks. (i, e, ks)) (enumerate 0 (ra_steps (recipe_of e))) @ occurrences ies)"
    by (rule occs_ordered_lower) (use Cons.prems(2) ie in simp)
  then show ?case using ie by (simp add: occurrences_def)
qed (simp add: occurrences_def)

lemma chain_occurrences_ordered: "occs_ordered (length chain) k (chain_occurrences chain)"
proof -
  have "sorted_wrt (>) (map fst (rev (enumerate 0 chain)))"
    by (simp add: rev_map [symmetric] sorted_wrt_rev)
  then show ?thesis
    unfolding chain_occurrences_def
    by (rule occs_ordered_occurrences) (auto simp: in_set_enumerate_eq)
qed

lemma chain_occurrences_mem:
  assumes "(i, e, k, s) \<in> set (chain_occurrences chain)"
  shows "i < length chain \<and> e = chain ! i \<and> k < length (ra_steps (recipe_of e)) \<and> s = ra_steps (recipe_of e) ! k"
  using assms by (auto simp: chain_occurrences_def occurrences_def in_set_enumerate_eq)

subsection \<open>The nodes\<close>

lemma use_nodes_nth:
  "use_nodes aliases n (ps @ occ # os) ! length (filter is_use ps) = use_node aliases (n + length (filter is_use ps)) occ"
  if "is_use occ"
  using that by (induction ps arbitrary: n) auto

lemma use_nodes_mem:
  "node \<in> set (use_nodes aliases n os) \<Longrightarrow>
     \<exists>occ \<in> set os. \<exists>m. is_use occ \<and> n \<le> m \<and> m < n + length (filter is_use os) \<and> node = use_node aliases m occ"
proof (induction os arbitrary: n)
  case (Cons occ os)
  show ?case
  proof (cases "is_use occ")
    case True
    then consider "node = use_node aliases n occ" | "node \<in> set (use_nodes aliases (Suc n) os)" using Cons.prems by auto
    then show ?thesis
    proof cases
      case 1
      then show ?thesis using True by (intro bexI [of _ occ] exI [of _ n]) auto
    next
      case 2
      from Cons.IH [OF this] True show ?thesis by fastforce
    qed
  next
    case False
    then show ?thesis using Cons by auto
  qed
qed simp

text \<open>What the validator needs of the catalog entries behind the occurrences.\<close>

definition occs_resolved :: "catalogData \<Rightarrow> nat \<Rightarrow> occurrence list \<Rightarrow> bool" where
  "occs_resolved aliases n os \<longleftrightarrow>
     (\<forall>(i, e, k, s) \<in> set os. i < n \<and> k \<le> MaxTransforms \<and> (rs_transform s = None \<longrightarrow> map_of aliases (rs_use s) \<noteq> None))"

lemma check_nodes_append:
  "check_nodes n (xs @ ys) = res_bind (check_nodes n xs) (\<lambda>_. check_nodes (n + length xs) ys)"
  by (induction xs arbitrary: n) auto

lemma check_nodes_chain:
  "i \<le> length chain \<Longrightarrow> check_nodes i (map (chain_node chain) [i..<length chain]) = Inr ()"
proof (induction "length chain - i" arbitrary: i)
  case (Suc d)
  then have "[i..<length chain] = i # [Suc i..<length chain]" by (simp add: upt_conv_Cons)
  then show ?case using Suc by (cases i) (simp_all add: chain_node_def Let_def)
qed simp

lemma check_nodes_use:
  assumes "occs_resolved aliases r os" and "r \<le> n" and "0 < n"
  shows "check_nodes n (use_nodes aliases n os) = Inr ()"
  using assms
proof (induction os arbitrary: n)
  case (Cons occ os)
  then show ?case by (cases occ) (auto simp: occs_resolved_def use_node_def Let_def)
qed simp

lemma count_recipes_chain:
  assumes "\<forall>node \<in> set us. tn_kind node \<noteq> AliasKindRecipe"
  shows "i \<le> length chain \<Longrightarrow>
    count_recipes i (if i = 0 then None else Some (chain_node chain (i - 1))) (map (chain_node chain) [i..<length chain] @ us)
      = Inr (length chain)"
proof (induction "length chain - i" arbitrary: i)
  case 0
  then show ?case using assms by (cases us) auto
next
  case (Suc d)
  then have "[i..<length chain] = i # [Suc i..<length chain]" by (simp add: upt_conv_Cons)
  then show ?case using Suc.hyps(1) [of "Suc i"] Suc.hyps(2) by (cases i) (simp_all add: chain_node_def Let_def)
qed

lemma check_leaves_use:
  "occs_resolved aliases r os \<Longrightarrow> check_leaves r (use_nodes aliases n os) = Inr ()"
proof (induction os arbitrary: n)
  case (Cons occ os)
  then show ?case by (cases occ) (auto simp: occs_resolved_def use_node_def Let_def)
qed simp

subsection \<open>The origins\<close>

definition trace_nodes :: "catalogData \<Rightarrow> catalogEntry list \<Rightarrow> occurrence list \<Rightarrow> traceNodeData list" where
  "trace_nodes aliases chain os = map (chain_node chain) [0..<length chain] @ use_nodes aliases (length chain) os"

lemma trace_nodes_chain: "i < length chain \<Longrightarrow> trace_nodes aliases chain os ! i = chain_node chain i"
  by (simp add: trace_nodes_def nth_append)

lemma trace_nodes_use:
  "is_use occ \<Longrightarrow> trace_nodes aliases chain (ps @ occ # os) ! (length chain + length (filter is_use ps))
     = use_node aliases (length chain + length (filter is_use ps)) occ"
  by (simp add: trace_nodes_def nth_append use_nodes_nth)

lemma length_trace_nodes: "length (trace_nodes aliases chain os) = length chain + length (filter is_use os)"
  by (simp add: trace_nodes_def length_use_nodes)

definition used_flags :: "nat \<Rightarrow> nat \<Rightarrow> bool list \<Rightarrow> bool" where
  "used_flags n first flags \<longleftrightarrow> length flags = n \<and> (\<forall>i < n. first \<le> i \<longrightarrow> \<not> flags ! i)"

lemma check_origins_reference:
  assumes "occs_resolved aliases (length chain) (ps @ os)" and "\<forall>(i, e, k, s) \<in> set (ps @ os). e = chain ! i"
    and "occs_ordered r k os" and "r \<le> length chain"
    and "used_flags (length (trace_nodes aliases chain (ps @ os))) (length chain + length (filter is_use ps)) (os_used st)"
    and "os_next st = int (length chain + length (filter is_use ps))" and "os_lastRecipe st = int r" and "os_lastStep st = k"
  shows "\<exists>st'. check_origins (trace_nodes aliases chain (ps @ os)) st
      (occ_origins aliases (length chain + length (filter is_use ps)) (length ps) os) = Inr st'
     \<and> os_next st' = int (length chain + length (filter is_use (ps @ os)))"
  using assms
proof (induction os arbitrary: ps r k st)
  case (Cons occ os)
  obtain i e j s where occ: "occ = (i, e, j, s)" by (cases occ) blast
  let ?nodes = "trace_nodes aliases chain (ps @ occ # os)"
  let ?n = "length chain + length (filter is_use ps)"
  have i: "i < length chain" "j \<le> MaxTransforms" "e = chain ! i"
    and order: "(i < r \<and> j = 0) \<or> (i = r \<and> int j = k + 1)" and rest: "occs_ordered i (int j) os"
    using Cons.prems(1-3) occ by (auto simp: occs_resolved_def)
  define st1 where "st1 = (if is_use occ then st\<lparr>os_used := (os_used st)[?n := True], os_next := int (Suc ?n)\<rparr> else st)"
  define st2 where "st2 = (if int i < os_lastRecipe st1 then st1\<lparr>os_lastRecipe := int i, os_lastStep := -1\<rparr> else st1)\<lparr>os_lastStep := int j\<rparr>"
  have node: "?nodes ! i = chain_node chain i" using i(1) by (rule trace_nodes_chain)
  have alname: "tn_alias (chain_node chain i) = en_name e" using i(3) by (simp add: chain_node_def Let_def)
  have pos: "origin_position ?nodes st (occ_origin aliases ?n (length ps) occ) = Inr (int i, int j, st1)"
  proof (cases "is_use occ")
    case True
    have "?n < length ?nodes" using True by (simp add: length_trace_nodes)
    then have "\<not> os_used st ! ?n" using Cons.prems(5) by (simp add: used_flags_def)
    moreover have "?nodes ! ?n = use_node aliases ?n occ" using trace_nodes_use True by blast
    ultimately show ?thesis
      using True occ i(2) Cons.prems(6) node alname
      by (simp add: origin_position_def occ_origin_def Let_def use_node_def st1_def nat_add_distrib del: of_nat_add)
  next
    case False
    then show ?thesis using occ i(2) node alname
      by (simp add: origin_position_def occ_origin_def Let_def st1_def) (simp add: chain_node_def Let_def)
  qed
  have bounds: "0 \<le> og_nodeID (occ_origin aliases ?n (length ps) occ)"
    "og_nodeID (occ_origin aliases ?n (length ps) occ) < int (length ?nodes)"
    using i(1) occ by (auto simp: occ_origin_def length_trace_nodes)
  have last: "os_lastRecipe st1 = int r" "os_lastStep st1 = k" using Cons.prems(7,8) by (simp_all add: st1_def)
  have "check_origin ?nodes st (occ_origin aliases ?n (length ps) occ) = Inr st2"
    using pos bounds order last by (auto simp: check_origin_def Let_def st2_def)
  moreover have "\<exists>st'. check_origins (trace_nodes aliases chain ((ps @ [occ]) @ os)) st2
      (occ_origins aliases (length chain + length (filter is_use (ps @ [occ]))) (length (ps @ [occ])) os) = Inr st'
     \<and> os_next st' = int (length chain + length (filter is_use ((ps @ [occ]) @ os)))"
  proof (rule Cons.IH)
    show "used_flags (length (trace_nodes aliases chain ((ps @ [occ]) @ os))) (length chain + length (filter is_use (ps @ [occ]))) (os_used st2)"
      using Cons.prems(5) by (auto simp: used_flags_def st2_def st1_def nth_list_update)
    show "os_next st2 = int (length chain + length (filter is_use (ps @ [occ])))"
      using Cons.prems(6) by (simp add: st2_def st1_def)
    show "os_lastRecipe st2 = int i" "os_lastStep st2 = int j" using last order by (auto simp: st2_def)
  qed (use Cons.prems(1,2) i(1) rest in auto)
  ultimately show ?case by (cases "is_use occ") simp_all
qed simp

subsection \<open>The reference trace is valid\<close>

definition chain_resolved :: "catalogData \<Rightarrow> catalogEntry list \<Rightarrow> bool" where
  "chain_resolved aliases chain \<longleftrightarrow> chain \<noteq> [] \<and> occs_resolved aliases (length chain) (chain_occurrences chain)"

lemma reference_trace_nodes: "tr_nodes (reference_trace aliases chain) = trace_nodes aliases chain (chain_occurrences chain)"
  by (simp add: reference_trace_def trace_nodes_def)

lemma use_nodes_kind: "node \<in> set (use_nodes aliases n os) \<Longrightarrow> tn_kind node = AliasKindTransform"
  by (auto dest!: use_nodes_mem simp: use_node_def Let_def split: prod.splits)

lemma reference_trace_valid:
  assumes "chain_resolved aliases chain"
  shows "validateTraceData (reference_trace aliases chain) = Inr ()"
proof -
  let ?os = "chain_occurrences chain"
  let ?us = "use_nodes aliases (length chain) ?os"
  let ?nodes = "trace_nodes aliases chain ?os"
  have ne: "chain \<noteq> []" and res: "occs_resolved aliases (length chain) ?os" using assms by (simp_all add: chain_resolved_def)
  have nodes: "?nodes = map (chain_node chain) [0..<length chain] @ ?us" by (simp add: trace_nodes_def)
  have "?nodes \<noteq> []" and "hd ?nodes = chain_node chain 0"
    using ne trace_nodes_chain [of 0 chain aliases ?os] by (simp_all add: nodes hd_conv_nth)
  then obtain ns where first: "?nodes = chain_node chain 0 # ns" by (metis list.collapse)
  have kinds: "\<forall>node \<in> set ?us. tn_kind node \<noteq> AliasKindRecipe" using use_nodes_kind by fastforce
  have ids: "check_nodes 0 ?nodes = Inr ()"
    using check_nodes_chain [of 0 chain] check_nodes_use [OF res] ne by (simp add: nodes check_nodes_append)
  have recipes: "count_recipes 0 None ?nodes = Inr (length chain)"
    using count_recipes_chain [OF kinds, of 0 chain] by (simp add: nodes)
  have leaves: "check_leaves (length chain) (drop (length chain) ?nodes) = Inr ()"
    using check_leaves_use [OF res] by (simp add: nodes)
  let ?st = "\<lparr>os_used = replicate (length ?nodes) False, os_next = int (length chain), os_lastRecipe = int (length chain), os_lastStep = -1\<rparr>"
  have entries: "\<forall>(i, e, k, s) \<in> set ?os. e = chain ! i" using chain_occurrences_mem by blast
  obtain st' where origins: "check_origins ?nodes ?st (occ_origins aliases (length chain) 0 ?os) = Inr st'"
    "os_next st' = int (length ?nodes)"
    using check_origins_reference [of aliases chain "[]" ?os "length chain" "- 1" ?st] res entries chain_occurrences_ordered
    by (auto simp: used_flags_def length_trace_nodes)
  have factory: "tn_pointer (?nodes ! (length chain - 1)) = definitionPointer (en_name (last chain))"
    using ne trace_nodes_chain [of "length chain - 1" chain aliases ?os] by (simp add: chain_node_def Let_def last_conv_nth)
  have "validateRecipeTrace (reference_trace aliases chain) = Inr ()"
    using ne recipes leaves origins factory
    by (simp add: validateRecipeTrace_def reference_trace_nodes Let_def) (simp add: reference_trace_def)
  then show ?thesis
    using ids unfolding validateTraceData_def reference_trace_nodes first by (simp add: chain_node_def Let_def)
qed

subsection \<open>The wire form of a trace\<close>

definition node_ok :: "nat \<Rightarrow> traceNodeData \<Rightarrow> bool" where
  "node_ok i node \<longleftrightarrow> tn_id node = int i \<and> validAliasName (tn_alias node) \<and> validateSourceID (tn_sourceID node)
     \<and> validatePointer (tn_pointer node)
     \<and> (if tn_hasParent node then validatePointer (tn_referencePointer node)
        else tn_parentID node = 0 \<and> tn_referencePointer node = [])"

definition origin_ok :: "nat \<Rightarrow> originData \<Rightarrow> bool" where
  "origin_ok i g \<longleftrightarrow> og_outputIndex g = int i \<and> validatePointer (og_pointer g)"

definition trace_ok :: "traceData \<Rightarrow> bool" where
  "trace_ok data \<longleftrightarrow> validateTraceData data = Inr () \<and> length (tr_nodes data) \<le> MaxTraceNodes
     \<and> length (tr_transforms data) \<le> MaxTransforms
     \<and> (\<forall>i < length (tr_nodes data). node_ok i (tr_nodes data ! i))
     \<and> (\<forall>i < length (tr_transforms data). origin_ok i (tr_transforms data ! i))
     \<and> (\<forall>f. tr_factory data = Some f \<longrightarrow> origin_ok 0 f)"

lemma node_roundtrip: "node_ok i node \<Longrightarrow> node_from_wire i (node_wire node) = Inr node"
  by (cases node) (simp add: node_ok_def node_from_wire_def node_wire_def split: if_splits)

lemma nodes_roundtrip:
  "\<forall>i < length ns. node_ok (n + i) (ns ! i) \<Longrightarrow> nodes_from_wire n (map node_wire ns) = Inr ns"
proof (induction ns arbitrary: n)
  case (Cons x ns)
  have "node_ok n x" using Cons.prems [rule_format, of 0] by simp
  moreover have "nodes_from_wire (Suc n) (map node_wire ns) = Inr ns"
    by (rule Cons.IH) (use Cons.prems [rule_format, of "Suc i" for i] in simp)
  ultimately show ?case by (simp add: node_roundtrip)
qed simp

lemma origins_roundtrip:
  "\<forall>i < length gs. origin_ok (n + i) (gs ! i) \<Longrightarrow> origins_from_wire n (map origin_wire gs) = Inr gs"
proof (induction gs arbitrary: n)
  case (Cons g gs)
  have "origin_ok n g" using Cons.prems [rule_format, of 0] by simp
  moreover have "origins_from_wire (Suc n) (map origin_wire gs) = Inr gs"
    by (rule Cons.IH) (use Cons.prems [rule_format, of "Suc i" for i] in simp)
  ultimately show ?case by (simp add: origin_ok_def) (simp add: origin_wire_def)
qed simp

lemma trace_roundtrip:
  assumes "trace_ok data"
  shows "traceFromWire (traceToWire data) = Inr data"
proof -
  have "nodes_from_wire 0 (map node_wire (tr_nodes data)) = Inr (tr_nodes data)"
    by (rule nodes_roundtrip) (use assms in \<open>simp add: trace_ok_def\<close>)
  moreover have "origins_from_wire 0 (map origin_wire (tr_transforms data)) = Inr (tr_transforms data)"
    by (rule origins_roundtrip) (use assms in \<open>simp add: trace_ok_def\<close>)
  moreover have "(case xw_Factory (traceToWire data) of None \<Rightarrow> Inr None | Some f \<Rightarrow> res_map Some (factory_from_wire f)) = Inr (tr_factory data)"
    using assms by (cases "tr_factory data") (simp_all add: traceToWire_def trace_ok_def factory_from_wire_def origin_ok_def)
  moreover have same: "\<lparr>tr_nodes = tr_nodes data, tr_factory = tr_factory data, tr_transforms = tr_transforms data\<rparr> = data" by simp
  ultimately show ?thesis using assms
    by (simp add: traceFromWire_def trace_ok_def) (simp add: traceToWire_def Let_def same)
qed

subsection \<open>The reference trace is transportable\<close>

definition ascii :: "bytes \<Rightarrow> bool" where
  "ascii s \<longleftrightarrow> list_all (in_range 0 127) s"

lemma ascii_simps [simp]: "ascii (s @ t) \<longleftrightarrow> ascii s \<and> ascii t" "ascii []"
  by (simp_all add: ascii_def)

lemma ascii_itoa: "ascii (itoa n)"
  using itoa_digits [of n] by (auto simp: ascii_def is_digit_def in_range_def list_all_iff)

lemma ascii_name: "validAliasName n \<Longrightarrow> ascii n"
  by (simp add: validAliasName_def ascii_def identifier_ascii)

lemma validatePointerI: "ascii p \<Longrightarrow> length p \<le> MaxPointerBytes \<Longrightarrow> validatePointer p"
  by (simp add: validatePointer_def ascii_def ValidString_ascii)

lemma length_stepPointer:
  "validAliasName n \<Longrightarrow> k \<le> MaxTransforms \<Longrightarrow> length (stepPointer n k member) \<le> 150 + length member"
  using length_itoa [of k 5] by (simp add: stepPointer_def validAliasName_def limit_defs)

lemma validatePointer_alias [simp]:
  assumes "validAliasName n"
  shows "validatePointer (definitionPointer n)" "validatePointer (definitionPointer n @ ''/base/recipe'')"
    "validatePointer (definitionPointer n @ ''/base/factory'')" "validatePointer (definitionPointer n @ ''/declaration'')"
proof -
  have "ascii (definitionPointer n)" using ascii_name [OF assms]
    unfolding definitionPointer_def by (simp add: ascii_def in_range_def)
  moreover have "length (definitionPointer n) \<le> 137" using assms by (simp add: definitionPointer_def validAliasName_def limit_defs)
  ultimately show "validatePointer (definitionPointer n)" "validatePointer (definitionPointer n @ ''/base/recipe'')"
    "validatePointer (definitionPointer n @ ''/base/factory'')" "validatePointer (definitionPointer n @ ''/declaration'')"
    by (auto intro!: validatePointerI simp: composition_limits limit_defs) (simp_all add: ascii_def in_range_def)
qed

lemma validatePointer_step [simp]:
  assumes "validAliasName n" and "k \<le> MaxTransforms"
  shows "validatePointer (stepPointer n k ''use'')" "validatePointer (stepPointer n k ''transform'')"
proof -
  have "ascii (stepPointer n k m)" if "ascii m" for m
    using ascii_name [OF assms(1)] ascii_itoa [of k] that unfolding stepPointer_def
    by simp (simp add: ascii_def in_range_def)
  from this [of "''use''"] this [of "''transform''"]
  show "validatePointer (stepPointer n k ''use'')" "validatePointer (stepPointer n k ''transform'')"
    using length_stepPointer [OF assms, of "''use''"] length_stepPointer [OF assms, of "''transform''"]
    by (auto intro!: validatePointerI simp: composition_limits limit_defs ascii_def in_range_def)
qed

lemma use_nodes_index:
  "j < length (filter is_use os) \<Longrightarrow> \<exists>occ \<in> set os. is_use occ \<and> use_nodes aliases n os ! j = use_node aliases (n + j) occ"
proof (induction os arbitrary: n j)
  case (Cons occ os)
  show ?case
  proof (cases "is_use occ")
    case True
    then show ?thesis using Cons.IH [of "j - 1" "Suc n"] Cons.prems by (cases j) auto
  next
    case False
    then show ?thesis using Cons by auto
  qed
qed simp

lemma occ_origins_index:
  "j < length os \<Longrightarrow> \<exists>occ \<in> set os. \<exists>m. occ_origins aliases n j0 os ! j = occ_origin aliases m (j0 + j) occ"
proof (induction os arbitrary: n j0 j)
  case (Cons occ os)
  then show ?case using Cons.IH [of "j - 1" "if is_use occ then Suc n else n" "Suc j0"] by (cases j) auto
qed simp

lemma reference_trace_ok:
  assumes chain: "\<forall>e \<in> set chain. catalog_entry_ok (en_name e) e" "chain_resolved aliases chain" and cat: "catalog_ok aliases"
    and len: "length (tr_nodes (reference_trace aliases chain)) \<le> MaxTraceNodes" "length (chain_occurrences chain) \<le> MaxTransforms"
  shows "trace_ok (reference_trace aliases chain)"
proof -
  let ?os = "chain_occurrences chain"
  have entries: "validAliasName (en_name (chain ! i)) \<and> validateSourceID (en_sourceID (chain ! i))" if "i < length chain" for i
    using chain(1) nth_mem [OF that] by (auto simp: catalog_entry_ok_def)
  have occ: "validAliasName (en_name e) \<and> k \<le> MaxTransforms
      \<and> (rs_transform s = None \<longrightarrow> (\<exists>c. map_of aliases (rs_use s) = Some c \<and> validAliasName (en_name c) \<and> validateSourceID (en_sourceID c)))"
    if "(i, e, k, s) \<in> set ?os" for i e k s
    using that chain(2) entries chain_occurrences_mem [OF that] catalog_lookup_ok [OF cat, of "rs_use s"]
    by (fastforce simp: chain_resolved_def occs_resolved_def catalog_entry_ok_def)
  have "node_ok i (trace_nodes aliases chain ?os ! i)" if i: "i < length (trace_nodes aliases chain ?os)" for i
  proof (cases "i < length chain")
    case True
    then show ?thesis using entries [of i] entries [of "i - 1"]
      by (simp add: trace_nodes_chain node_ok_def chain_node_def Let_def)
  next
    case False
    with i have "i - length chain < length (filter is_use ?os)" by (simp add: length_trace_nodes less_diff_conv2)
    from use_nodes_index [OF this, of aliases "length chain"] False obtain o' where o': "o' \<in> set ?os" "is_use o'"
      "trace_nodes aliases chain ?os ! i = use_node aliases i o'" by (auto simp: trace_nodes_def nth_append)
    obtain i' e k s where eq: "o' = (i', e, k, s)" by (cases o') blast
    have mem: "(i', e, k, s) \<in> set ?os" "rs_transform s = None" using o'(1,2) eq by (simp_all add: is_use_def)
    from occ [OF mem(1)] mem(2) o'(3) show ?thesis unfolding eq by (auto simp: node_ok_def use_node_def Let_def)
  qed
  moreover have "origin_ok j (occ_origins aliases (length chain) 0 ?os ! j)" if j: "j < length ?os" for j
  proof -
    obtain o' m where o': "o' \<in> set ?os" "occ_origins aliases (length chain) 0 ?os ! j = occ_origin aliases m j o'"
      using occ_origins_index [OF j, of aliases "length chain" 0] by auto
    obtain i' e k s where eq: "o' = (i', e, k, s)" by (cases o') blast
    have mem: "(i', e, k, s) \<in> set ?os" using o'(1) eq by simp
    from occ [OF mem] o'(2) show ?thesis unfolding eq by (auto simp: origin_ok_def occ_origin_def is_use_def)
  qed
  moreover have "origin_ok 0 \<lparr>og_outputIndex = 0, og_nodeID = n, og_pointer = definitionPointer (en_name (last chain)) @ ''/base/factory''\<rparr>" for n
    using chain by (auto simp: origin_ok_def chain_resolved_def catalog_entry_ok_def)
  ultimately show ?thesis
    using reference_trace_valid [OF chain(2)] len
    by (simp add: trace_ok_def reference_trace_nodes) (simp add: reference_trace_def)
qed

end
