(* ===== verification/Alias_Expansion_Props.thy ===== *)
theory Alias_Expansion_Props
  imports Alias_Trace_Props
begin

text \<open>
  The properties of the composition package: expansion agrees with its reference, cycles
  are reported exactly when the base references have one, traces and documents survive
  their wire forms, catalogs do not depend on the order of their sources, and what the
  error texts are bounded by.
\<close>

subsection \<open>Expanding along a chain\<close>

lemma recipe_chain_ok:
  assumes "recipe_chain aliases n chain" and "catalog_ok aliases" and "e \<in> set chain"
  shows "catalog_entry_ok (en_name e) e \<and> recipe_ok (recipe_of e)"
proof -
  obtain m where m: "map_of aliases m = Some e" and r: "is_recipe e"
    using recipe_chain_entries [OF assms(1)] assms(3) by blast
  have "catalog_entry_ok (en_name e) e" using catalog_lookup_ok [OF assms(2) m] by (simp add: catalog_entry_ok_def)
  then show ?thesis using r
    by (cases "en_definition e") (auto simp: is_recipe_def recipe_of_def catalog_entry_ok_def)
qed

definition chain_factory :: "catalogEntry list \<Rightarrow> FactoryDeclaration" where
  "chain_factory chain = the (ra_factory (recipe_of (last chain)))"

lemma chain_factory_admitted:
  assumes "recipe_chain aliases n chain" and "catalog_ok aliases"
  shows "factory_admitted (chain_factory chain)"
proof -
  have "last chain \<in> set chain" using recipe_chain_hd [OF assms(1)] by simp
  then have "recipe_ok (recipe_of (last chain))" using recipe_chain_ok [OF assms] by blast
  then show ?thesis using recipe_chain_last [OF assms(1)]
    by (auto simp: recipe_ok_def base_ok_def chain_factory_def split: option.splits)
qed

lemma occurrences_ok: "list_all (step_ok \<circ> occ_step) (chain_occurrences chain) \<longleftrightarrow> list_all step_ok (chain_steps chain)"
  unfolding occurrence_steps [symmetric] by (simp add: list.pred_map)

lemma occurrence_mem: "(i, e, k, s) \<in> set (chain_occurrences chain) \<Longrightarrow> s \<in> set (chain_steps chain)"
  unfolding occurrence_steps [symmetric] by force

lemma steps_resolve_mem:
  assumes "steps_resolve aliases ss ts"
  shows "t \<in> set ts \<Longrightarrow> \<exists>s \<in> set ss. step_transform aliases s = Some t"
    and "s \<in> set ss \<Longrightarrow> \<exists>t. step_transform aliases s = Some t"
  using assms unfolding steps_resolve_def by (induction rule: list_all2_induct) auto

lemma chain_steps_ok:
  assumes "recipe_chain aliases n chain" and "catalog_ok aliases"
  shows "list_all (step_ok \<circ> occ_step) (chain_occurrences chain)"
proof -
  have "list_all step_ok (chain_steps chain)"
    using recipe_chain_ok [OF assms] by (auto simp: chain_steps_def list_all_iff recipe_ok_def)
  then show ?thesis by (simp only: occurrences_ok)
qed

lemma steps_resolve_admitted:
  assumes "steps_resolve aliases ss ts" and "catalog_ok aliases" and "list_all step_ok ss" and "t \<in> set ts"
  shows "transform_admitted t"
proof -
  obtain s where s: "s \<in> set ss" "step_transform aliases s = Some t"
    using steps_resolve_mem(1) [OF assms(1,4)] by blast
  have "step_ok s" using assms(3) s(1) by (simp add: list_all_iff)
  then show ?thesis using s(2) catalog_lookup_ok [OF assms(2), of "rs_use s"]
    by (auto simp: step_transform_def step_ok_def catalog_entry_ok_def split: option.splits aliasDefinition.splits)
qed

lemma NewRecipeDeclaration_fits:
  assumes "factory_admitted f" and "\<forall>t \<in> set ts. transform_admitted t"
  shows "NewRecipeDeclaration f ts = Inr d \<longleftrightarrow> fits f ts \<and> d = Some \<lparr>rd_factory = f, rd_transforms = ts\<rparr>"
  using assms by (auto simp: NewRecipeDeclaration_Inr fits_def recipe_bytes_def factory_admitted_def transform_admitted_def)

lemma empty_recipe_bytes_exact:
  assumes "factory_admitted f"
  shows "empty_recipe_bytes f = (if fits f [] then Some (int (recipe_bytes f [])) else None)"
proof (cases "fits f []")
  case True
  then have new: "NewRecipeDeclaration f [] = Inr (Some \<lparr>rd_factory = f, rd_transforms = []\<rparr>)"
    using NewRecipeDeclaration_fits [OF assms] by simp
  then have "validateRecipeDeclaration f [] = Inr ()"
    by (auto simp: NewRecipeDeclaration_def res_simps)
  then show ?thesis using True new
    by (simp add: empty_recipe_bytes_def RecipeDeclaration_MarshalJSON_def recipe_bytes_def)
next
  case False
  then have "NewRecipeDeclaration f [] \<noteq> Inr d" for d using NewRecipeDeclaration_fits [OF assms, of "[]"] by simp
  then obtain e where "NewRecipeDeclaration f [] = Inl e" by (cases "NewRecipeDeclaration f []") blast+
  then show ?thesis using False by (simp add: empty_recipe_bytes_def)
qed

lemma chain_resolvedI:
  assumes "recipe_chain aliases n chain" and "catalog_ok aliases" and "steps_resolve aliases (chain_steps chain) ts"
  shows "chain_resolved aliases chain"
proof -
  have "i < length chain \<and> k \<le> MaxTransforms \<and> (rs_transform s = None \<longrightarrow> map_of aliases (rs_use s) \<noteq> None)"
    if occ: "(i, e, k, s) \<in> set (chain_occurrences chain)" for i e k s
  proof -
    note mem = chain_occurrences_mem [OF occ]
    then have "recipe_ok (recipe_of e)" using recipe_chain_ok [OF assms(1,2)] by auto
    then have k: "k \<le> MaxTransforms" using mem by (auto simp: recipe_ok_def)
    obtain t where "step_transform aliases s = Some t"
      using steps_resolve_mem(2) [OF assms(3) occurrence_mem [OF occ]] by blast
    then show ?thesis using mem k by (auto simp: step_transform_def split: option.splits)
  qed
  then show ?thesis using recipe_chain_hd [OF assms(1)] by (auto simp: chain_resolved_def occs_resolved_def)
qed

lemma length_filter_occurrences:
  "steps_resolve aliases (chain_steps chain) ts \<Longrightarrow> length (filter is_use (chain_occurrences chain)) \<le> length ts"
  using occurrence_steps [of chain] length_filter_le [of is_use "chain_occurrences chain"]
  by (metis length_map list_all2_lengthD steps_resolve_def)

lemma length_occurrences:
  "steps_resolve aliases (chain_steps chain) ts \<Longrightarrow> length (chain_occurrences chain) = length ts"
  using occurrence_steps [of chain] by (metis length_map list_all2_lengthD steps_resolve_def)

lemma newTrace_reference:
  assumes "recipe_chain aliases n chain" and "catalog_ok aliases" and "steps_resolve aliases (chain_steps chain) ts"
    and "length ts \<le> MaxTransforms"
  shows "newTrace (reference_trace aliases chain) =
    (if trace_bytes (reference_trace aliases chain) \<le> MaxTraceJSONBytes then Inr (Some (reference_trace aliases chain))
     else Inl (comp_invalid CodeExpansionTooLarge [] [] None))"
proof -
  have "length (tr_nodes (reference_trace aliases chain)) \<le> MaxTraceNodes"
    using recipe_chain_length [OF assms(1,2)] length_filter_occurrences [OF assms(3)] assms(4)
    by (simp add: reference_trace_nodes length_trace_nodes MaxTraceNodes_def)
  moreover have "length (tr_transforms (reference_trace aliases chain)) \<le> MaxTransforms"
    using length_occurrences [OF assms(3)] assms(4) by (simp add: reference_trace_def)
  ultimately show ?thesis
    using reference_trace_valid [OF chain_resolvedI [OF assms(1-3)]] by (simp add: newTrace_def)
qed

definition target_error :: "catalogEntry list \<Rightarrow> CompositionError \<Rightarrow> bool" where
  "target_error chain err \<longleftrightarrow> err = too_large (hd chain)
     \<or> (\<exists>(i, e, k, s) \<in> set (chain_occurrences chain). step_error e k err)"

lemma expand_target_exact:
  assumes chain: "recipe_chain aliases n chain" and cat: "catalog_ok aliases"
  shows "(\<exists>ts d. steps_resolve aliases (chain_steps chain) ts \<and> NewRecipeDeclaration (chain_factory chain) ts = Inr d
        \<and> trace_bytes (reference_trace aliases chain) \<le> MaxTraceJSONBytes
        \<and> expand_target aliases (hd chain) chain = Inr (Some \<lparr>xr_declaration = d, xr_trace = Some (reference_trace aliases chain)\<rparr>))
     \<or> (\<exists>err. expand_target aliases (hd chain) chain = Inl err \<and> target_error chain err
        \<and> \<not> (\<exists>ts d. steps_resolve aliases (chain_steps chain) ts \<and> NewRecipeDeclaration (chain_factory chain) ts = Inr d
              \<and> trace_bytes (reference_trace aliases chain) \<le> MaxTraceJSONBytes))"
proof -
  let ?f = "chain_factory chain" and ?os = "chain_occurrences chain"
  let ?x = "\<lparr>ex_transforms = [], ex_origins = [], ex_nodes = map (chain_node chain) [0..<length chain],
    ex_used = int (recipe_bytes ?f [])\<rparr>"
  have f: "factory_admitted ?f" using chain cat by (rule chain_factory_admitted)
  note steps = chain_steps_ok [OF chain cat]
  have ss: "list_all step_ok (chain_steps chain)" using steps by (simp only: occurrences_ok)
  have new: "NewRecipeDeclaration ?f ts = Inr d \<longleftrightarrow> fits ?f ts \<and> d = Some \<lparr>rd_factory = ?f, rd_transforms = ts\<rparr>"
    if "steps_resolve aliases (chain_steps chain) ts" for ts d
    using NewRecipeDeclaration_fits [OF f] steps_resolve_admitted [OF that cat ss] by blast
  have copy: "copyFactory (the (ra_factory (recipe_of (last chain)))) = ?f"
    using copyFactory_admitted [OF f] by (simp add: chain_factory_def)
  show ?thesis
  proof (cases "fits ?f []")
    case False
    then have "\<not> fits ?f ts" for ts using fits_prefix [of ?f "[]" ts] by auto
    then show ?thesis using False new
      by (intro disjI2 exI [of _ "too_large (hd chain)"])
        (auto simp: expand_target_def copy empty_recipe_bytes_exact [OF f] target_error_def Let_def)
  next
    case True
    have x: "expansion_ok ?f (length chain) ?x"
      using recipe_chain_length [OF chain cat] by (simp add: expansion_ok_def)
    have "fits ?f (ex_transforms ?x)" using True by simp
    from expand_occs_exact [OF cat steps x this, of "hd chain", unfolded occurrence_steps target_error_def [symmetric]
        expansion.select_convs append_Nil]
    consider (ok) ts where "steps_resolve aliases (chain_steps chain) ts" "fits ?f ts"
        "expand_occs aliases (hd chain) ?os ?x = Inr (expand_result aliases ?f ?os ts ?x)"
      | (error) err where "expand_occs aliases (hd chain) ?os ?x = Inl err" "target_error chain err"
        "\<forall>ts. steps_resolve aliases (chain_steps chain) ts \<longrightarrow> \<not> fits ?f ts"
      by blast
    then show ?thesis
    proof cases
      case ok
      have d: "NewRecipeDeclaration ?f ts = Inr (Some \<lparr>rd_factory = ?f, rd_transforms = ts\<rparr>)" using new ok by simp
      have trace: "newTrace \<lparr>tr_nodes = ex_nodes (expand_result aliases ?f ?os ts ?x),
          tr_factory = Some \<lparr>og_outputIndex = 0, og_nodeID = int (length chain) - 1,
            og_pointer = definitionPointer (en_name (last chain)) @ ''/base/factory''\<rparr>,
          tr_transforms = ex_origins (expand_result aliases ?f ?os ts ?x)\<rparr> = newTrace (reference_trace aliases chain)"
        by (simp add: expand_result_def reference_trace_def)
      have "length ts \<le> MaxTransforms" using ok(2) by (simp add: fits_def)
      note trace' = newTrace_reference [OF chain cat ok(1) this]
      have run: "expand_target aliases (hd chain) chain =
          (case newTrace (reference_trace aliases chain) of Inl _ \<Rightarrow> Inl (too_large (hd chain))
           | Inr trace \<Rightarrow> Inr (Some \<lparr>xr_declaration = Some \<lparr>rd_factory = ?f, rd_transforms = ts\<rparr>, xr_trace = trace\<rparr>))"
        using True ok(3) d trace
        by (simp add: expand_target_def copy empty_recipe_bytes_exact [OF f] expand_chain_occs chain_occurrences_def Let_def)
          (simp add: expand_result_def)
      then show ?thesis using trace' ok(1) d by (auto simp: target_error_def)
    next
      case error
      then show ?thesis using True new
        by (auto simp: expand_target_def copy empty_recipe_bytes_exact [OF f] expand_chain_occs chain_occurrences_def Let_def)
    qed
  qed
qed

end
