(* ===== verification/Composition_Props.thy ===== *)
theory Composition_Props
  imports Alias_Expansion_Props
begin

text \<open>
  The properties of the composition package over catalogs built from constructed documents,
  with an example project of two sources (\<open>ex_sources\<close>) on which the witnesses evaluate.
\<close>

subsection \<open>ExpandRecipe\<close>

text \<open>The result of the reference: the chain of the name, its factory and transforms, its trace.\<close>

definition reference_expansion :: "catalogData \<Rightarrow> bytes \<Rightarrow> expandedRecipeData \<Rightarrow> bool" where
  "reference_expansion aliases n x \<longleftrightarrow>
     (\<exists>chain ts. recipe_chain aliases n chain \<and> steps_resolve aliases (chain_steps chain) ts
        \<and> NewRecipeDeclaration (chain_factory chain) ts = Inr (xr_declaration x)
        \<and> trace_bytes (reference_trace aliases chain) \<le> MaxTraceJSONBytes
        \<and> xr_trace x = Some (reference_trace aliases chain))"

lemma steps_resolve_unique: "steps_resolve aliases ss ts \<Longrightarrow> steps_resolve aliases ss us \<Longrightarrow> ts = us"
  unfolding steps_resolve_def list_all2_conv_all_nth by (rule nth_equalityI) (simp, metis option.inject)

lemma reference_expansion_unique:
  assumes "reference_expansion aliases n x" and "reference_expansion aliases n y"
  shows "x = y"
proof -
  obtain chain ts where x: "recipe_chain aliases n chain" "steps_resolve aliases (chain_steps chain) ts"
    "NewRecipeDeclaration (chain_factory chain) ts = Inr (xr_declaration x)" "xr_trace x = Some (reference_trace aliases chain)"
    using assms(1) by (auto simp: reference_expansion_def)
  obtain chain' ts' where y: "recipe_chain aliases n chain'" "steps_resolve aliases (chain_steps chain') ts'"
    "NewRecipeDeclaration (chain_factory chain') ts' = Inr (xr_declaration y)" "xr_trace y = Some (reference_trace aliases chain')"
    using assms(2) by (auto simp: reference_expansion_def)
  have "chain = chain'" using recipe_chain_unique x(1) y(1) by blast
  then have "ts = ts'" using steps_resolve_unique x(2) y(2) by blast
  then show ?thesis using \<open>chain = chain'\<close> x(3,4) y(3,4) by simp
qed

lemma recipe_chain_target:
  assumes "recipe_chain aliases n chain" and "catalog_ok aliases"
  shows "validAliasName n \<and> map_of aliases n = Some (hd chain) \<and> is_recipe (hd chain)
    \<and> base_chain aliases [] [] (hd chain) = Inr chain"
proof -
  have hd: "map_of aliases n = Some (hd chain)" "chain \<noteq> []" using recipe_chain_hd [OF assms(1)] by simp_all
  have "base_chain aliases [] [] (hd chain) = Inr ([] @ chain)"
    by (rule base_chain_complete [OF assms hd(1)]) (simp_all add: active_ok_def recipe_chain_distinct [OF assms])
  then show ?thesis
    using hd recipe_chain_entries [OF assms(1)] catalog_lookup_ok [OF assms(2) hd(1)] by (simp add: catalog_entry_ok_def)
qed

lemma base_chain_start:
  assumes "catalog_ok aliases" and "map_of aliases n = Some e" and "is_recipe e"
  shows "(\<exists>chain. base_chain aliases [] [] e = Inr chain \<and> recipe_chain aliases n chain)
    \<or> (\<exists>err. base_chain aliases [] [] e = Inl err \<and> walk_error aliases n err)"
proof -
  have name: "en_name e = n" using catalog_lookup_ok [OF assms(1,2)] by (simp add: catalog_entry_ok_def)
  have "(\<exists>es. base_chain aliases [] [] e = Inr ([] @ es) \<and> recipe_chain aliases (en_name e) es)
    \<or> (\<exists>err. base_chain aliases [] [] e = Inl err \<and> walk_error aliases (en_name e) err)"
    by (rule base_chain_outcome) (use assms name in \<open>auto simp: active_ok_def path_to_def\<close>)
  then show ?thesis using name by simp
qed

lemma ExpandRecipe_chain:
  assumes "recipe_chain aliases n chain" and "catalog_ok aliases"
  shows "ExpandRecipe (Some aliases) n = expand_target aliases (hd chain) chain"
  using recipe_chain_target [OF assms] by (simp add: ExpandRecipe_def)

text \<open>Every way \<^verbatim>\<open>ExpandRecipe\<close> can fail on a well-formed catalog.\<close>

definition expansion_error :: "catalogData \<Rightarrow> bytes \<Rightarrow> CompositionError \<Rightarrow> bool" where
  "expansion_error aliases n err \<longleftrightarrow>
     err = comp_invalid CodeInvalidDocument [] [] None \<or> err = comp_invalid CodeMissingReference [] [] None
     \<or> (\<exists>e. map_of aliases n = Some e \<and> err = comp_invalid CodeWrongReferenceKind (en_sourceID e) (definitionPointer n) None)
     \<or> walk_error aliases n err
     \<or> (\<exists>chain. recipe_chain aliases n chain \<and> target_error chain err)"

lemma ExpandRecipe_outcome:
  assumes "catalog_ok aliases"
  shows "(\<exists>x. ExpandRecipe (Some aliases) n = Inr (Some x) \<and> reference_expansion aliases n x)
    \<or> (\<exists>err. ExpandRecipe (Some aliases) n = Inl err \<and> expansion_error aliases n err \<and> (\<forall>x. \<not> reference_expansion aliases n x))"
proof (cases "\<exists>chain. recipe_chain aliases n chain")
  case True
  then obtain chain where chain: "recipe_chain aliases n chain" by blast
  have ref: "reference_expansion aliases n x \<longleftrightarrow> (\<exists>ts. steps_resolve aliases (chain_steps chain) ts
        \<and> NewRecipeDeclaration (chain_factory chain) ts = Inr (xr_declaration x)
        \<and> trace_bytes (reference_trace aliases chain) \<le> MaxTraceJSONBytes
        \<and> xr_trace x = Some (reference_trace aliases chain))" for x
    using chain recipe_chain_unique [OF chain] unfolding reference_expansion_def by blast
  from expand_target_exact [OF chain assms] show ?thesis
    unfolding ExpandRecipe_chain [OF chain assms] ref
    by (elim disjE exE conjE) (fastforce, fastforce simp: expansion_error_def intro: chain)
next
  case False
  then have no: "\<not> reference_expansion aliases n x" for x by (auto simp: reference_expansion_def)
  show ?thesis
  proof (cases "map_of aliases n")
    case None
    then show ?thesis using no by (auto simp: ExpandRecipe_def expansion_error_def)
  next
    case (Some e)
    then have valid: "validAliasName n" using catalog_lookup_ok [OF assms Some] by (simp add: catalog_entry_ok_def)
    show ?thesis
    proof (cases "is_recipe e")
      case True
      from base_chain_start [OF assms Some True] False
      obtain err where "base_chain aliases [] [] e = Inl err" "walk_error aliases n err" by blast
      then show ?thesis using Some True valid no by (auto simp: ExpandRecipe_def expansion_error_def)
    next
      case False
      then show ?thesis using Some valid no by (auto simp: ExpandRecipe_def expansion_error_def)
    qed
  qed
qed

text \<open>
  C12: expanding a recipe of a catalog of constructed documents gives exactly the reference
  expansion: the factory at the end of its base chain, the transforms of the whole chain from the
  deepest recipe to the target, the trace that lists every alias occurrence; and it fails exactly
  when the chain does not end in a factory, a step does not resolve, the recipe constructor refuses
  the result or the trace exceeds its text limit.  The incremental byte charge rejects nothing else.
\<close>

theorem expansion_exact:
  assumes "constructed_sources sources" and "NewCatalog sources = Inr (Some aliases)"
  shows "ExpandRecipe (Some aliases) n = Inr (Some x) \<longleftrightarrow>
    (\<exists>chain ts. recipe_chain aliases n chain \<and> steps_resolve aliases (chain_steps chain) ts
       \<and> NewRecipeDeclaration (chain_factory chain) ts = Inr (xr_declaration x)
       \<and> trace_bytes (reference_trace aliases chain) \<le> MaxTraceJSONBytes
       \<and> xr_trace x = Some (reference_trace aliases chain))"
proof -
  have cat: "catalog_ok aliases" using NewCatalog_Inr [OF assms] by blast
  from ExpandRecipe_outcome [OF cat, of n]
  show ?thesis unfolding reference_expansion_def [symmetric]
  proof (elim disjE exE conjE)
    fix y assume "ExpandRecipe (Some aliases) n = Inr (Some y)" "reference_expansion aliases n y"
    then show "ExpandRecipe (Some aliases) n = Inr (Some x) \<longleftrightarrow> reference_expansion aliases n x"
      using reference_expansion_unique by auto
  qed simp
qed

subsection \<open>Cycles\<close>

lemma closed_cycle_length:
  assumes "closed_cycle aliases cyc" and "catalog_ok aliases"
  shows "length cyc \<le> MaxDiagnosticReferences"
proof -
  have len: "2 \<le> length cyc" using assms(1) by (simp add: closed_cycle_def)
  have "dr_Alias (cyc ! i) \<in> fst ` set aliases" if "Suc i < length cyc" for i
  proof -
    have "base_ref aliases (dr_Alias (cyc ! i)) (dr_Alias (cyc ! Suc i))" using assms(1) that by (simp add: closed_cycle_def)
    then show ?thesis by (auto elim!: base_refE dest!: map_of_SomeD intro: rev_image_eqI)
  qed
  then have "set (map dr_Alias (butlast cyc)) \<subseteq> fst ` set aliases"
    by (auto simp: in_set_conv_nth nth_butlast)
  then have "card (set (map dr_Alias (butlast cyc))) \<le> card (fst ` set aliases)" by (intro card_mono) auto
  also have "\<dots> \<le> length aliases" using card_image_le [of "set aliases" fst] card_length [of aliases] by simp
  finally have "length (butlast cyc) \<le> MaxAliases"
    using assms distinct_card [of "map dr_Alias (butlast cyc)"] by (simp add: closed_cycle_def catalog_ok_def)
  then show ?thesis using len by (simp add: MaxDiagnosticReferences_def)
qed

lemma expansion_error_cycle:
  assumes "expansion_error aliases n err" and "er_Code err = CodeCycle"
  shows "walk_error aliases n err"
  using assms by (auto simp: expansion_error_def target_error_def too_large_def step_error_def)

text \<open>
  C13: a cycle is reported exactly when following the base references from the requested name runs
  into one, whatever else is wrong with the catalog; the reported context is a closed walk of base
  references through pairwise different recipes, from the first revisited one back to it, and stays
  within its bound.
\<close>

theorem cycle_reported_exactly:
  assumes "constructed_sources sources" and "NewCatalog sources = Inr (Some aliases)"
  shows "((\<exists>err. ExpandRecipe (Some aliases) n = Inl err \<and> er_Code err = CodeCycle) \<longleftrightarrow>
      (\<exists>m. (base_ref aliases)\<^sup>*\<^sup>* n m \<and> (base_ref aliases)\<^sup>+\<^sup>+ m m))
    \<and> (\<forall>err. ExpandRecipe (Some aliases) n = Inl err \<longrightarrow> er_Code err = CodeCycle \<longrightarrow>
      closed_cycle aliases (er_cycle err) \<and> (base_ref aliases)\<^sup>*\<^sup>* n (dr_Alias (hd (er_cycle err)))
      \<and> length (er_cycle err) \<le> MaxDiagnosticReferences)" (is "(?reported \<longleftrightarrow> ?cyclic) \<and> _")
proof -
  have cat: "catalog_ok aliases" using NewCatalog_Inr [OF assms] by blast
  have walk: "walk_error aliases n err" if "ExpandRecipe (Some aliases) n = Inl err" "er_Code err = CodeCycle" for err
    using ExpandRecipe_outcome [OF cat, of n] that expansion_error_cycle by auto
  have "?cyclic" if ?reported
    using walk closed_cycle_returns that by (fastforce simp: walk_error_def)
  moreover have "?reported" if cyc: ?cyclic
  proof -
    obtain y where "base_ref aliases n y" using functional_cycle cyc by blast
    then obtain e where e: "map_of aliases n = Some e" "is_recipe e" by (auto elim: base_refE)
    with cyc obtain err where "base_chain aliases [] [] e = Inl err" "er_Code err = CodeCycle"
      using walk_cycle_iff [OF cat] by blast
    moreover have "validAliasName n" using catalog_lookup_ok [OF cat e(1)] by (simp add: catalog_entry_ok_def)
    ultimately show ?thesis using e by (simp add: ExpandRecipe_def)
  qed
  ultimately show ?thesis using walk closed_cycle_length [OF _ cat] by (fastforce simp: walk_error_def closed_cycle_def)
qed

subsection \<open>Error texts\<close>

lemma Error_text_length:
  "length (er_SourceID err) \<le> MaxSourceIDBytes \<Longrightarrow> length (er_Pointer err) \<le> 200 \<Longrightarrow>
     length (Error_text (Some err)) \<le> MaxErrorTextBytes"
  by (cases "er_Code err") (auto simp: Error_text_def Let_def ErrInvalid_def composition_limits limit_defs)

lemma expansion_error_location:
  assumes "expansion_error aliases n err" and cat: "catalog_ok aliases"
  shows "length (er_SourceID err) \<le> MaxSourceIDBytes \<and> length (er_Pointer err) \<le> 200"
proof -
  have name: "length (definitionPointer m) \<le> 137" if "validAliasName m" for m
    using that by (simp add: definitionPointer_def validAliasName_def limit_defs)
  have entry: "length (en_sourceID e) \<le> MaxSourceIDBytes \<and> validAliasName (en_name e)" if "catalog_entry_ok (en_name e) e" for e
    using that by (simp add: catalog_entry_ok_def validateSourceID_def)
  from assms(1) show ?thesis unfolding expansion_error_def
  proof (elim disjE exE conjE)
    fix e assume "map_of aliases n = Some e" "err = comp_invalid CodeWrongReferenceKind (en_sourceID e) (definitionPointer n) None"
    then show ?thesis using catalog_lookup_ok [OF cat] name by (fastforce simp: catalog_entry_ok_def validateSourceID_def)
  next
    assume "walk_error aliases n err"
    then show ?thesis using name by (fastforce simp: walk_error_def validateSourceID_def)
  next
    fix chain assume chain: "recipe_chain aliases n chain" and err: "target_error chain err"
    have ok: "catalog_entry_ok (en_name e) e" if "e \<in> set chain" for e using recipe_chain_ok [OF chain cat that] by blast
    from err show ?thesis unfolding target_error_def
    proof
      assume "err = too_large (hd chain)"
      moreover have "catalog_entry_ok (en_name (hd chain)) (hd chain)" using ok recipe_chain_hd [OF chain] by simp
      ultimately show ?thesis using entry name by (fastforce simp: too_large_def)
    next
      assume "\<exists>(i, e, k, s) \<in> set (chain_occurrences chain). step_error e k err"
      then obtain i e k s where occ: "(i, e, k, s) \<in> set (chain_occurrences chain)" "step_error e k err" by blast
      note mem = chain_occurrences_mem [OF occ(1)]
      then have e: "e \<in> set chain" by auto
      then have "k \<le> MaxTransforms" using mem recipe_chain_ok [OF chain cat e] by (auto simp: recipe_ok_def)
      then show ?thesis using occ(2) entry [OF ok [OF e]] length_stepPointer [of "en_name e" k "''use''"]
        by (simp add: step_error_def)
    qed
  qed (simp_all add: composition_limits limit_defs)
qed

subsection \<open>Expanding a transform\<close>

definition transform_trace :: "catalogEntry \<Rightarrow> traceData" where
  "transform_trace e =
     \<lparr>tr_nodes = [\<lparr>tn_id = 0, tn_parentID = 0, tn_hasParent = False, tn_referencePointer = [], tn_kind = AliasKindTransform,
        tn_alias = en_name e, tn_sourceID = en_sourceID e, tn_pointer = definitionPointer (en_name e)\<rparr>], tr_factory = None,
      tr_transforms = [\<lparr>og_outputIndex = 0, og_nodeID = 0, og_pointer = definitionPointer (en_name e) @ ''/declaration''\<rparr>]\<rparr>"

lemma transform_trace_ok:
  assumes "catalog_entry_ok n e"
  shows "trace_ok (transform_trace e)"
proof -
  have "validateTraceData (transform_trace e) = Inr ()"
    by (simp add: validateTraceData_def validateStandaloneTrace_def transform_trace_def Let_def)
  then show ?thesis
    using assms by (auto simp: trace_ok_def transform_trace_def node_ok_def origin_ok_def catalog_entry_ok_def composition_limits limit_defs)
qed

text \<open>A transform expands to the trace of one node, or not at all.\<close>

lemma ExpandTransform_outcome:
  assumes "catalog_ok aliases"
  shows "(\<exists>e t x. map_of aliases n = Some e \<and> en_definition e = TransformAlias t \<and> ExpandTransform (Some aliases) n = Inr (Some x)
      \<and> NewTransformDeclarationDocument t = Inr (xt_declaration x) \<and> xt_trace x = Some (transform_trace e)
      \<and> trace_bytes (transform_trace e) \<le> MaxTraceJSONBytes)
    \<or> (\<exists>code. ExpandTransform (Some aliases) n = Inl (comp_invalid code [] [] None))
    \<or> (\<exists>e. map_of aliases n = Some e \<and> validAliasName n
        \<and> ExpandTransform (Some aliases) n = Inl (comp_invalid CodeWrongReferenceKind (en_sourceID e) (definitionPointer n) None))"
proof (cases "validAliasName n")
  case True
  show ?thesis
  proof (cases "map_of aliases n")
    case (Some e)
    have e: "catalog_entry_ok n e" by (rule catalog_lookup_ok [OF assms Some])
    then have name: "en_name e = n" by (simp add: catalog_entry_ok_def)
    show ?thesis
    proof (cases "en_definition e")
      case (TransformAlias t)
      have "\<exists>d. NewTransformDeclarationDocument t = Inr d"
        using e TransformAlias by (simp add: catalog_entry_ok_def NewTransformDeclarationDocument_Inr)
      then obtain d where d: "NewTransformDeclarationDocument t = Inr d" ..
      have "newTrace (transform_trace e) = (if MaxTraceJSONBytes < trace_bytes (transform_trace e)
          then Inl (comp_invalid CodeExpansionTooLarge [] [] None) else Inr (Some (transform_trace e)))"
        using transform_trace_ok [OF e] by (simp add: newTrace_def trace_ok_def)
      then show ?thesis
        using True Some TransformAlias d by (auto simp: ExpandTransform_def transform_trace_def [symmetric] name [symmetric] Let_def)
    qed (use True Some in \<open>simp add: ExpandTransform_def\<close>)
  qed (use True in \<open>auto simp: ExpandTransform_def\<close>)
qed (auto simp: ExpandTransform_def)

text \<open>
  C33: whatever name is asked for, the text of an error of expanding it, as a recipe or as a transform, over a catalog of
  constructed documents has at most \<^verbatim>\<open>MaxErrorTextBytes\<close> bytes.
\<close>

theorem expansion_errors_bounded:
  assumes "constructed_sources sources" and "NewCatalog sources = Inr (Some aliases)"
    and "ExpandRecipe (Some aliases) n = Inl err \<or> ExpandTransform (Some aliases) n = Inl err"
  shows "length (Error_text (Some err)) \<le> MaxErrorTextBytes"
proof -
  have cat: "catalog_ok aliases" using NewCatalog_Inr [OF assms(1,2)] by blast
  from assms(3) have "length (er_SourceID err) \<le> MaxSourceIDBytes \<and> length (er_Pointer err) \<le> 200"
  proof
    assume "ExpandRecipe (Some aliases) n = Inl err"
    then have "expansion_error aliases n err" using ExpandRecipe_outcome [OF cat, of n] by auto
    then show ?thesis by (rule expansion_error_location [OF _ cat])
  next
    assume "ExpandTransform (Some aliases) n = Inl err"
    then consider code where "err = comp_invalid code [] [] None"
      | e where "map_of aliases n = Some e" "validAliasName n" "err = comp_invalid CodeWrongReferenceKind (en_sourceID e) (definitionPointer n) None"
      using ExpandTransform_outcome [OF cat, of n] by auto
    then show ?thesis
      using catalog_lookup_ok [OF cat]
      by cases (fastforce simp: catalog_entry_ok_def validateSourceID_def definitionPointer_def validAliasName_def limit_defs comp_invalid_def)+
  qed
  then show ?thesis using Error_text_length by blast
qed

text \<open>
  The catalog constructor repeats a rejected source id in its error, whatever its length, so
  the error text exceeds the documented bound.
\<close>

theorem rejected_source_id_unbounded:
  assumes "MaxErrorTextBytes \<le> length sourceID"
  shows "\<exists>err. NewCatalog [\<lparr>sd_SourceID = sourceID, sd_Document = d\<rparr>] = Inl err \<and> er_Code err = CodeInvalidDocument
    \<and> MaxErrorTextBytes < length (Error_text (Some err))"
proof -
  have "sourceID \<noteq> []" and "\<not> validateSourceID sourceID"
    using assms by (auto simp: composition_limits limit_defs validateSourceID_def)
  then show ?thesis using assms
    by (simp add: NewCatalog_def composition_limits comp_invalid_def Error_text_def Let_def ErrInvalid_def)
qed

subsection \<open>Documents, catalogs and traces\<close>

text \<open>
  the wire form of every constructed alias document, its aliases in any order, decodes to the
  same document with its aliases sorted by name.
\<close>

theorem alias_document_roundtrip:
  assumes "NewAliasDocument ins = Inr (Some data)" and "mset aliases = mset (ad_aliases data)"
  shows "decodeAliasDocument (Inr (document_wire id aliases)) = Inr (Some (data\<lparr>ad_aliases := sort_key fst (ad_aliases data)\<rparr>))"
  by (rule decode_document_wire [OF read_back_plain _ assms(2)]) (use assms(1) NewAliasDocument_Inr in auto)

text \<open>
  The unions of the document are not closed: an empty \<^verbatim>\<open>recipe\<close> beside a base factory and an
  empty \<^verbatim>\<open>use\<close> beside an inline transform are decoded as if they were absent.
\<close>

theorem redundant_member_accepted:
  assumes "NewAliasDocument ins = Inr (Some data)"
  shows "decodeAliasDocument (Inr (document_wire redundant (ad_aliases data)))
    = Inr (Some (data\<lparr>ad_aliases := sort_key fst (ad_aliases data)\<rparr>))"
  by (rule decode_document_wire [OF read_back_redundant _ refl]) (use assms NewAliasDocument_Inr in auto)

text \<open>
  building a catalog does not depend on the order of the sources, and a successful catalog maps a
  name to the one definition some source gives it.
\<close>

theorem catalog_of_sources:
  assumes "constructed_sources sources" and "mset sources' = mset sources"
  shows "NewCatalog sources' = NewCatalog sources \<and>
    (\<forall>aliases n e. NewCatalog sources' = Inr (Some aliases) \<longrightarrow>
      (map_of aliases n = Some e \<longleftrightarrow> (\<exists>s \<in> set sources. \<exists>d. map_of (ad_aliases (document_of s)) n = Some d
         \<and> e = \<lparr>en_name = n, en_sourceID = sd_SourceID s, en_definition = d\<rparr>)))"
  using NewCatalog_perm [OF assms(2)] NewCatalog_Inr [OF assms(1)] unfolding source_defines_def by (metis option.inject)

text \<open>
  C14: the trace of an expansion, of a recipe or of a transform, can always be marshalled, and the decoder accepts its wire
  form: every check of the nodes, the origins and the trace grammar passes and gives back the same trace.
\<close>

theorem expansion_trace_roundtrip:
  assumes "constructed_sources sources" and "NewCatalog sources = Inr (Some aliases)"
    and "(\<exists>x. ExpandRecipe (Some aliases) n = Inr (Some x) \<and> trace = xr_trace x)
      \<or> (\<exists>x. ExpandTransform (Some aliases) n = Inr (Some x) \<and> trace = xt_trace x)"
  shows "\<exists>wire. ExpansionTrace_MarshalJSON trace = Inr wire
    \<and> DecodeExpansionTraceJSON (Inr wire) (Some None) = (None, Some trace)"
proof -
  have cat: "catalog_ok aliases" using NewCatalog_Inr [OF assms(1,2)] by blast
  from assms(3) obtain data where data: "trace = Some data" "trace_ok data" "trace_bytes data \<le> MaxTraceJSONBytes"
  proof (elim disjE exE conjE)
    fix x assume x: "ExpandRecipe (Some aliases) n = Inr (Some x)" "trace = xr_trace x"
    then have "reference_expansion aliases n x" using ExpandRecipe_outcome [OF cat, of n] by auto
    then obtain chain ts where chain: "recipe_chain aliases n chain" "steps_resolve aliases (chain_steps chain) ts"
      "trace_bytes (reference_trace aliases chain) \<le> MaxTraceJSONBytes" "xr_trace x = Some (reference_trace aliases chain)"
      and new: "NewRecipeDeclaration (chain_factory chain) ts = Inr (xr_declaration x)"
      by (auto simp: reference_expansion_def)
    have len: "length ts \<le> MaxTransforms" using new by (simp add: NewRecipeDeclaration_Inr)
    have "trace_ok (reference_trace aliases chain)"
    proof (rule reference_trace_ok [OF _ chain_resolvedI [OF chain(1) cat chain(2)] cat])
      show "length (tr_nodes (reference_trace aliases chain)) \<le> MaxTraceNodes"
        using recipe_chain_length [OF chain(1) cat] length_filter_occurrences [OF chain(2)] len
        by (simp add: reference_trace_nodes length_trace_nodes MaxTraceNodes_def)
    qed (use recipe_chain_ok [OF chain(1) cat] length_occurrences [OF chain(2)] len in auto)
    then show thesis using that x(2) chain(3,4) by simp
  next
    fix x assume x: "ExpandTransform (Some aliases) n = Inr (Some x)" "trace = xt_trace x"
    then obtain e where "map_of aliases n = Some e" "xt_trace x = Some (transform_trace e)" "trace_bytes (transform_trace e) \<le> MaxTraceJSONBytes"
      using ExpandTransform_outcome [OF cat, of n] by auto
    then show thesis using that x(2) transform_trace_ok [OF catalog_lookup_ok [OF cat]] by simp
  qed
  from trace_roundtrip [OF data(2)] data(1,3) show ?thesis
    by (simp add: ExpansionTrace_MarshalJSON_def DecodeExpansionTraceJSON_def)
qed

subsection \<open>An example project\<close>

text \<open>
  One source defines a base recipe and a transform, the other a recipe on top that uses the
  transform by name and inline; a third document is a cycle of two recipes.
\<close>

definition ex_transform :: TransformDeclaration where
  "ex_transform = \<lparr>td_Kind = ''psql'', td_Reference = ''seed.sql'', td_Arguments = [], td_Attributes = [], td_Inputs = [],
     td_ExecutionEnvironment = None, td_Capabilities = [], td_Portability = []\<rparr>"

definition ex_base_recipe :: recipeAlias where
  "ex_base_recipe = \<lparr>ra_factory = Some sample_declaration, ra_baseRecipe = [], ra_steps = []\<rparr>"

definition ex_top_recipe :: recipeAlias where
  "ex_top_recipe = \<lparr>ra_factory = None, ra_baseRecipe = ''base'',
     ra_steps = [\<lparr>rs_use = ''seed'', rs_transform = None\<rparr>, \<lparr>rs_use = [], rs_transform = Some ex_transform\<rparr>]\<rparr>"

definition ex_link :: "bytes \<Rightarrow> recipeAlias" where
  "ex_link n = \<lparr>ra_factory = None, ra_baseRecipe = n, ra_steps = []\<rparr>"

definition ex_aliases1 :: "(bytes \<times> aliasDefinition) list" where
  "ex_aliases1 = [(''base'', RecipeAlias ex_base_recipe), (''seed'', TransformAlias ex_transform)]"

definition ex_aliases2 :: "(bytes \<times> aliasDefinition) list" where
  "ex_aliases2 = [(''db'', RecipeAlias ex_top_recipe)]"

definition ex_aliases3 :: "(bytes \<times> aliasDefinition) list" where
  "ex_aliases3 = [(''x'', RecipeAlias (ex_link ''y'')), (''y'', RecipeAlias (ex_link ''x''))]"

definition ex_document :: "(bytes \<times> aliasDefinition) list \<Rightarrow> aliasDocumentData" where
  "ex_document aliases = \<lparr>ad_aliases = aliases, ad_canonicalBytes = int (document_bytes aliases)\<rparr>"

lemmas composition_ex_defs = ex_transform_def ex_base_recipe_def ex_top_recipe_def ex_link_def sample_declaration_def

lemma ex_names: "validAliasName ''base''" "validAliasName ''seed''" "validAliasName ''db''" "validAliasName ''x''" "validAliasName ''y''"
  by (simp_all add: validAliasName_def limit_defs identifierPattern_def is_lower_alpha_def is_ident_byte_def in_range_def)

lemma ex_declarations_ok:
  "declaration_ok (factoryDeclarationWire sample_declaration)" "declaration_ok (transformDeclarationWire ex_transform)"
  by (simp_all add: declaration_ok_def factoryDeclarationWire_def transformDeclarationWire_def composition_ex_defs text_ok_def attributes_ok_def
      limit_defs identifierPattern_def is_lower_alpha_def is_ident_byte_def in_range_def)

lemma ex_factory_bound: "json_bound (declaration_json (factoryDeclarationWire sample_declaration)) \<le> 2000"
  by (simp add: declaration_json_def factoryDeclarationWire_def composition_ex_defs)

lemma ex_transform_bound: "json_bound (declaration_json (transformDeclarationWire ex_transform)) \<le> 2000"
  by (simp add: declaration_json_def transformDeclarationWire_def composition_ex_defs)

lemma ex_admitted [simp]: "factory_admitted sample_declaration" "transform_admitted ex_transform"
proof -
  have "json_bound (document_json (factoryDeclarationWire sample_declaration)) \<le> MaxJSONBytes"
    "json_bound (document_json (transformDeclarationWire ex_transform)) \<le> MaxJSONBytes"
    using ex_factory_bound ex_transform_bound by (simp_all add: document_json_def SchemaVersion_def limit_defs)
  then show "factory_admitted sample_declaration" "transform_admitted ex_transform"
    using ex_declarations_ok json_bound_le order_trans unfolding factory_admitted_def transform_admitted_def by blast+
qed

lemma ex_documents_ok: "document_ok (ex_document ex_aliases1)" "document_ok (ex_document ex_aliases2)" "document_ok (ex_document ex_aliases3)"
proof -
  have "json_bound (marshalUnchecked ex_aliases1) \<le> 10000" "json_bound (marshalUnchecked ex_aliases2) \<le> 10000"
    "json_bound (marshalUnchecked ex_aliases3) \<le> 10000"
    using ex_factory_bound ex_transform_bound
    by (simp_all add: marshalUnchecked_def ex_aliases1_def ex_aliases2_def ex_aliases3_def AliasSchemaVersion_def
        ex_base_recipe_def ex_top_recipe_def ex_link_def base_wire_def step_wire_def base_json_def step_json_def
        nullable_def opt_member_def AliasKindRecipe_def AliasKindTransform_def)
  then have b: "document_bytes ex_aliases1 \<le> 10000" "document_bytes ex_aliases2 \<le> 10000" "document_bytes ex_aliases3 \<le> 10000"
    unfolding document_bytes_def using json_bound_le order_trans by blast+
  then show "document_ok (ex_document ex_aliases1)" "document_ok (ex_document ex_aliases2)" "document_ok (ex_document ex_aliases3)"
    by (simp_all add: document_ok_def ex_document_def aliases_ok_def ex_aliases1_def ex_aliases2_def ex_aliases3_def ex_names
        recipe_ok_def base_ok_def step_ok_def ex_base_recipe_def ex_top_recipe_def ex_link_def composition_limits limit_defs)
qed

definition ex_source :: "bytes \<Rightarrow> (bytes \<times> aliasDefinition) list \<Rightarrow> SourceDocument" where
  "ex_source n aliases = \<lparr>sd_SourceID = n, sd_Document = Some (ex_document aliases)\<rparr>"

definition ex_sources :: "SourceDocument list" where
  "ex_sources = [ex_source ''b'' ex_aliases2, ex_source ''a'' ex_aliases1]"

definition ex_cyclic_sources :: "SourceDocument list" where
  "ex_cyclic_sources = [ex_source ''c'' ex_aliases3]"

definition ex_entry :: "bytes \<Rightarrow> bytes \<Rightarrow> aliasDefinition \<Rightarrow> bytes \<times> catalogEntry" where
  "ex_entry n src d = (n, \<lparr>en_name = n, en_sourceID = src, en_definition = d\<rparr>)"

definition ex_catalog :: catalogData where
  "ex_catalog = [ex_entry ''base'' ''a'' (RecipeAlias ex_base_recipe), ex_entry ''seed'' ''a'' (TransformAlias ex_transform),
     ex_entry ''db'' ''b'' (RecipeAlias ex_top_recipe)]"

definition ex_cyclic_catalog :: catalogData where
  "ex_cyclic_catalog = [ex_entry ''x'' ''c'' (RecipeAlias (ex_link ''y'')), ex_entry ''y'' ''c'' (RecipeAlias (ex_link ''x''))]"

lemma ex_constructed: "constructed_sources ex_sources" "constructed_sources ex_cyclic_sources"
  using ex_documents_ok NewAliasDocument_Inr
  by (auto simp: constructed_sources_def ex_sources_def ex_cyclic_sources_def ex_source_def)

lemma ex_new_document:
  "NewAliasDocument (map (\<lambda>(n, d). definition_to_input n d) ex_aliases1) = Inr (Some (ex_document ex_aliases1))"
  using ex_documents_ok by (intro NewAliasDocument_Inr [THEN iffD2]) (simp add: ex_document_def)

lemma ex_definitions_ok [simp]: "alias_definition_ok (RecipeAlias ex_base_recipe)" "alias_definition_ok (RecipeAlias ex_top_recipe)"
  "alias_definition_ok (TransformAlias ex_transform)" "alias_definition_ok (RecipeAlias (ex_link ''x''))" "alias_definition_ok (RecipeAlias (ex_link ''y''))"
  by (simp_all add: recipe_ok_def base_ok_def step_ok_def ex_base_recipe_def ex_top_recipe_def ex_link_def ex_names limit_defs)

lemma ex_document_bytes: "document_bytes ex_aliases1 \<le> MaxJSONBytes" "document_bytes ex_aliases2 \<le> MaxJSONBytes"
  "document_bytes ex_aliases3 \<le> MaxJSONBytes"
  using ex_documents_ok by (simp_all add: document_ok_def ex_document_def)

lemma ex_new_catalog: "NewCatalog ex_sources = Inr (Some ex_catalog)" "NewCatalog ex_cyclic_sources = Inr (Some ex_cyclic_catalog)"
proof -
  have ids: "validateSourceID ''a''" "validateSourceID ''b''" "validateSourceID ''c''"
    by (simp_all add: validateSourceID_def composition_limits limit_defs in_range_def)
  have order: "sort_key sd_SourceID ex_sources = [ex_source ''a'' ex_aliases1, ex_source ''b'' ex_aliases2]"
    "sort_key sd_SourceID ex_cyclic_sources = [ex_source ''c'' ex_aliases3]"
    by (simp_all add: ex_sources_def ex_cyclic_sources_def ex_source_def)
  have entries: "source_entries (ex_source n ex_aliases1) =
      [snd (ex_entry ''base'' n (RecipeAlias ex_base_recipe)), snd (ex_entry ''seed'' n (TransformAlias ex_transform))]"
    "source_entries (ex_source n ex_aliases2) = [snd (ex_entry ''db'' n (RecipeAlias ex_top_recipe))]"
    "source_entries (ex_source n ex_aliases3) =
      [snd (ex_entry ''x'' n (RecipeAlias (ex_link ''y''))), snd (ex_entry ''y'' n (RecipeAlias (ex_link ''x'')))]" for n
    by (simp_all add: source_entries_def ex_source_def document_of_def ex_document_def ex_aliases1_def ex_aliases2_def
        ex_aliases3_def ex_entry_def del: cloneDefinition.simps alias_definition_ok.simps)
  have totals: "check_totals 0 0 [ex_source ''a'' ex_aliases1, ex_source ''b'' ex_aliases2] = Inr ()"
    "check_totals 0 0 [ex_source ''c'' ex_aliases3] = Inr ()"
    using ex_document_bytes
    by (simp_all add: ex_source_def document_of_def ex_document_def checkedAdd_def composition_limits limit_defs
        ex_aliases1_def ex_aliases2_def ex_aliases3_def)
  show "NewCatalog ex_sources = Inr (Some ex_catalog)"
    by (simp add: NewCatalog_def order totals Let_def collect_candidates_def entries del: check_totals.simps)
      (simp add: ex_sources_def ex_source_def ids composition_limits ex_entry_def ex_catalog_def)
  show "NewCatalog ex_cyclic_sources = Inr (Some ex_cyclic_catalog)"
    by (simp add: NewCatalog_def order totals Let_def collect_candidates_def entries del: check_totals.simps)
      (simp add: ex_cyclic_sources_def ex_source_def ids composition_limits ex_entry_def ex_cyclic_catalog_def)
qed

lemma ex_chain: "recipe_chain ex_catalog ''db'' [snd (ex_entry ''db'' ''b'' (RecipeAlias ex_top_recipe)),
    snd (ex_entry ''base'' ''a'' (RecipeAlias ex_base_recipe))]"
  by (rule recipe_chain.recipe_base, simp_all add: ex_catalog_def ex_entry_def is_recipe_def recipe_of_def ex_top_recipe_def)
    (rule recipe_chain.factory_base, simp_all add: is_recipe_def recipe_of_def ex_base_recipe_def)

lemma ex_steps: "chain_steps [snd (ex_entry ''db'' ''b'' (RecipeAlias ex_top_recipe)),
    snd (ex_entry ''base'' ''a'' (RecipeAlias ex_base_recipe))] = ra_steps ex_top_recipe"
  by (simp add: chain_steps_def ex_entry_def recipe_of_def ex_base_recipe_def)

lemma ex_steps_resolve: "steps_resolve ex_catalog (ra_steps ex_top_recipe) [ex_transform, ex_transform]"
  by (simp add: steps_resolve_def ex_top_recipe_def step_transform_def ex_catalog_def ex_entry_def)

lemma ex_recipe: "NewRecipeDeclaration sample_declaration [ex_transform, ex_transform]
    = Inr (Some \<lparr>rd_factory = sample_declaration, rd_transforms = [ex_transform, ex_transform]\<rparr>)"
proof -
  have "json_bound (recipe_json sample_declaration [ex_transform, ex_transform]) \<le> MaxJSONBytes"
    using ex_factory_bound ex_transform_bound by (simp add: recipe_json_def SchemaVersion_def limit_defs)
  then have "fits sample_declaration [ex_transform, ex_transform]"
    using json_bound_le order_trans unfolding fits_def recipe_bytes_def by (fastforce simp: limit_defs)
  then show ?thesis using NewRecipeDeclaration_fits [of sample_declaration "[ex_transform, ex_transform]"] by simp
qed

lemma ex_trace: "trace_bytes (reference_trace ex_catalog [snd (ex_entry ''db'' ''b'' (RecipeAlias ex_top_recipe)),
    snd (ex_entry ''base'' ''a'' (RecipeAlias ex_base_recipe))]) \<le> MaxTraceJSONBytes"
proof -
  have "json_bound (trace_json (traceToWire (reference_trace ex_catalog [snd (ex_entry ''db'' ''b'' (RecipeAlias ex_top_recipe)),
    snd (ex_entry ''base'' ''a'' (RecipeAlias ex_base_recipe))]))) \<le> MaxTraceJSONBytes"
    by (simp add: reference_trace_def chain_node_def chain_occurrences_def occurrences_def recipe_of_def ex_entry_def
        ex_top_recipe_def ex_base_recipe_def is_use_def use_node_def occ_origin_def ex_catalog_def traceToWire_def node_wire_def
        origin_wire_def trace_json_def node_json_def transform_origin_json_def factory_origin_json_def nullable_def opt_member_def
        Let_def definitionPointer_def stepPointer_def itoa_small digit_byte_def ExpansionTraceSchemaVersion_def
        AliasKindRecipe_def AliasKindTransform_def composition_limits)
  then show ?thesis unfolding trace_bytes_def using json_bound_le order_trans by blast
qed

theorem expansion_exact_witness:
  "\<exists>x. ExpandRecipe (Some ex_catalog) ''db'' = Inr (Some x)
    \<and> xr_declaration x = Some \<lparr>rd_factory = sample_declaration, rd_transforms = [ex_transform, ex_transform]\<rparr>"
proof -
  let ?chain = "[snd (ex_entry ''db'' ''b'' (RecipeAlias ex_top_recipe)), snd (ex_entry ''base'' ''a'' (RecipeAlias ex_base_recipe))]"
  let ?x = "\<lparr>xr_declaration = Some \<lparr>rd_factory = sample_declaration, rd_transforms = [ex_transform, ex_transform]\<rparr>,
    xr_trace = Some (reference_trace ex_catalog ?chain)\<rparr>"
  have "chain_factory ?chain = sample_declaration"
    by (simp add: chain_factory_def ex_entry_def recipe_of_def ex_base_recipe_def)
  then have "\<exists>chain ts. recipe_chain ex_catalog ''db'' chain \<and> steps_resolve ex_catalog (chain_steps chain) ts
       \<and> NewRecipeDeclaration (chain_factory chain) ts = Inr (xr_declaration ?x)
       \<and> trace_bytes (reference_trace ex_catalog chain) \<le> MaxTraceJSONBytes
       \<and> xr_trace ?x = Some (reference_trace ex_catalog chain)"
    using ex_chain ex_steps ex_steps_resolve ex_recipe ex_trace
    by (intro exI [of _ ?chain] exI [of _ "[ex_transform, ex_transform]"]) simp
  then have "ExpandRecipe (Some ex_catalog) ''db'' = Inr (Some ?x)"
    using expansion_exact [OF ex_constructed(1) ex_new_catalog(1)] by blast
  then show ?thesis by auto
qed

lemma ex_expansion: "\<exists>x. ExpandRecipe (Some ex_catalog) ''db'' = Inr (Some x)"
proof -
  have cat: "catalog_ok ex_catalog" using NewCatalog_Inr [OF ex_constructed(1) ex_new_catalog(1)] by blast
  from expand_target_exact [OF ex_chain cat, unfolded ex_steps] ex_steps_resolve ex_recipe ex_trace ExpandRecipe_chain [OF ex_chain cat]
  show ?thesis by (auto simp: chain_factory_def ex_entry_def recipe_of_def ex_base_recipe_def)
qed

theorem expansion_trace_roundtrip_witness:
  "\<exists>x wire. ExpandRecipe (Some ex_catalog) ''db'' = Inr (Some x) \<and> ExpansionTrace_MarshalJSON (xr_trace x) = Inr wire
    \<and> DecodeExpansionTraceJSON (Inr wire) (Some None) = (None, Some (xr_trace x))"
proof -
  obtain x where x: "ExpandRecipe (Some ex_catalog) ''db'' = Inr (Some x)" using ex_expansion by blast
  have "(\<exists>y. ExpandRecipe (Some ex_catalog) ''db'' = Inr (Some y) \<and> xr_trace x = xr_trace y)
      \<or> (\<exists>y. ExpandTransform (Some ex_catalog) ''db'' = Inr (Some y) \<and> xr_trace x = xt_trace y)" using x by blast
  from expansion_trace_roundtrip [OF ex_constructed(1) ex_new_catalog(1) this] x show ?thesis by blast
qed

lemma ex_base_refs: "base_ref ex_cyclic_catalog ''x'' ''y''" "base_ref ex_cyclic_catalog ''y'' ''x''"
proof -
  let ?x = "snd (ex_entry ''x'' ''c'' (RecipeAlias (ex_link ''y'')))" and ?y = "snd (ex_entry ''y'' ''c'' (RecipeAlias (ex_link ''x'')))"
  have e: "map_of ex_cyclic_catalog ''x'' = Some ?x" "map_of ex_cyclic_catalog ''y'' = Some ?y"
    "is_recipe ?x" "is_recipe ?y" "recipe_of ?x = ex_link ''y''" "recipe_of ?y = ex_link ''x''"
    by (simp_all add: ex_cyclic_catalog_def ex_entry_def is_recipe_def recipe_of_def)
  show "base_ref ex_cyclic_catalog ''x'' ''y''" "base_ref ex_cyclic_catalog ''y'' ''x''"
    using base_ref.intros [OF e(1,3) _ _ e(2,4), unfolded e(5)] base_ref.intros [OF e(2,4) _ _ e(1,3), unfolded e(6)]
    by (simp_all add: ex_link_def)
qed

lemma ex_cycle: "\<exists>err. ExpandRecipe (Some ex_cyclic_catalog) ''x'' = Inl err"
  by (subst ExpandRecipe_def, simp add: ex_names ex_cyclic_catalog_def ex_entry_def is_recipe_def)
    (subst base_chain.simps, simp add: recipe_of_def ex_link_def is_recipe_def Let_def,
     subst base_chain.simps, simp add: recipe_of_def ex_link_def is_recipe_def Let_def)

theorem cycle_reported_exactly_witness:
  "\<exists>err. ExpandRecipe (Some ex_cyclic_catalog) ''x'' = Inl err \<and> er_Code err = CodeCycle
    \<and> closed_cycle ex_cyclic_catalog (er_cycle err)"
proof -
  have "(base_ref ex_cyclic_catalog)\<^sup>+\<^sup>+ ''x'' ''x''" using ex_base_refs by (meson tranclp.intros)
  then show ?thesis
    using cycle_reported_exactly [OF ex_constructed(2) ex_new_catalog(2), of "''x''"] by blast
qed

theorem expansion_errors_bounded_witness:
  "\<exists>err. ExpandRecipe (Some ex_cyclic_catalog) ''x'' = Inl err \<and> length (Error_text (Some err)) \<le> MaxErrorTextBytes"
  using ex_cycle expansion_errors_bounded [OF ex_constructed(2) ex_new_catalog(2)] by blast

theorem rejected_source_id_unbounded_witness:
  "\<exists>err. NewCatalog [\<lparr>sd_SourceID = replicate 16384 (CHR ''a''), sd_Document = Some (ex_document ex_aliases1)\<rparr>] = Inl err
    \<and> MaxErrorTextBytes < length (Error_text (Some err))"
  using rejected_source_id_unbounded [of "replicate 16384 (CHR ''a'')" "Some (ex_document ex_aliases1)"]
  by (auto simp: MaxErrorTextBytes_def)

theorem alias_document_roundtrip_witness:
  "decodeAliasDocument (Inr (document_wire id (rev ex_aliases1))) = Inr (Some (ex_document ex_aliases1))"
proof -
  have "sort_key fst ex_aliases1 = ex_aliases1" by (simp add: ex_aliases1_def)
  then show ?thesis
    using alias_document_roundtrip [OF ex_new_document, of "rev ex_aliases1"] by (simp add: ex_document_def)
qed

theorem redundant_member_accepted_witness:
  "decodeAliasDocument (Inr (document_wire redundant ex_aliases1)) = Inr (Some (ex_document ex_aliases1))
    \<and> document_wire redundant ex_aliases1 \<noteq> document_wire id ex_aliases1"
proof -
  have "sort_key fst ex_aliases1 = ex_aliases1" by (simp add: ex_aliases1_def)
  moreover have "document_wire redundant ex_aliases1 \<noteq> document_wire id ex_aliases1"
    by (simp add: document_wire_def ex_aliases1_def ex_base_recipe_def base_wire_def redundant_base_def)
  ultimately show ?thesis
    using redundant_member_accepted [OF ex_new_document] by (simp add: ex_document_def)
qed

theorem catalog_of_sources_witness:
  "NewCatalog (rev ex_sources) = Inr (Some ex_catalog) \<and> map_of ex_catalog ''db'' \<noteq> None"
  using catalog_of_sources [OF ex_constructed(1), of "rev ex_sources"] ex_new_catalog(1)
  by (simp add: ex_catalog_def ex_entry_def)

end
