(* ===== verification/Prepare_Queue.thy ===== *)
theory Prepare_Queue
  imports Engine_World
begin

text \<open>
  The preparation queue: the requests, results and errors of \<^verbatim>\<open>prepare/types.go\<close> and \<^verbatim>\<open>errors.go\<close>, the records
  of \<^verbatim>\<open>prepare/queue/store.go\<close>, and the three tables of \<^verbatim>\<open>schema.sql\<close> with the statements of
  \<^verbatim>\<open>sqlite_store.go\<close> and the insert trigger of \<^verbatim>\<open>managed_schema.go\<close>.

  A table is the list of its rows in storage order; \<open>None\<close> as a result is the violation of a
  constraint.  A JSON column holds the value its text encodes, or a text that encodes none.
\<close>

subsection \<open>Requests and answers\<close>

record Request =
  rq_PrepareKind :: bytes
  rq_ImageID :: bytes
  rq_PsqlArgs :: "bytes list"
  rq_LiquibaseArgs :: "bytes list"
  rq_LiquibaseExec :: bytes
  rq_LiquibaseExecMode :: bytes
  rq_LiquibaseEnv :: "(bytes \<times> bytes) list"
  rq_WorkDir :: bytes
  rq_Stdin :: "bytes option"
  rq_PlanOnly :: bool

record PrepareResult =
  rs_DSN :: bytes
  rs_InstanceID :: bytes
  rs_StateID :: bytes
  rs_ImageID :: bytes
  rs_PrepareKind :: bytes
  rs_PrepareArgsNormalized :: bytes

text \<open>
  The details of an error are a text or, where the code prints a Go error, that error;
  a JSON object of details keeps its reason only.
\<close>

datatype errorDetails = NoDetails | TextDetails bytes | ErrorOf engineError | CapacityDetails bytes

record ErrorResponse =
  er_Code :: bytes
  er_Message :: bytes
  er_Details :: errorDetails

definition errorResponse :: "bytes \<Rightarrow> bytes \<Rightarrow> errorDetails \<Rightarrow> ErrorResponse" where
  "errorResponse code message details = \<lparr>er_Code = code, er_Message = message, er_Details = details\<rparr>"

definition internal_error :: "bytes \<Rightarrow> engineError \<Rightarrow> ErrorResponse" where
  "internal_error message err = errorResponse ''internal_error'' message (ErrorOf err)"

datatype 'a jsonText = Encodes 'a | Garbled bytes

subsection \<open>Rows\<close>

record JobRecord =
  jr_JobID :: bytes
  jr_Status :: bytes
  jr_PrepareKind :: bytes
  jr_ImageID :: bytes
  jr_PlanOnly :: bool
  jr_SnapshotMode :: bytes
  jr_PrepareArgsNormalized :: "bytes option"
  jr_Signature :: "bytes option"
  jr_RequestJSON :: "Request jsonText option"
  jr_CreatedAt :: bytes
  jr_StartedAt :: "bytes option"
  jr_FinishedAt :: "bytes option"
  jr_ResultJSON :: "PrepareResult jsonText option"
  jr_ErrorJSON :: "ErrorResponse jsonText option"
  jr_ResolvedImageID :: bytes
  jr_LineageRef :: bytes
  jr_IdentityDigest :: bytes

record TaskRecord =
  tk_JobID :: bytes
  tk_TaskID :: bytes
  tk_Position :: nat
  tk_Type :: bytes
  tk_Status :: bytes
  tk_PlannerKind :: "bytes option"
  tk_InputKind :: "bytes option"
  tk_InputID :: "bytes option"
  tk_ImageID :: "bytes option"
  tk_ResolvedImageID :: "bytes option"
  tk_TaskHash :: "bytes option"
  tk_OutputStateID :: "bytes option"
  tk_Cached :: "bool option"
  tk_InstanceMode :: "bytes option"
  tk_ChangesetID :: "bytes option"
  tk_ChangesetAuthor :: "bytes option"
  tk_ChangesetPath :: "bytes option"
  tk_StartedAt :: "bytes option"
  tk_FinishedAt :: "bytes option"
  tk_ErrorJSON :: "ErrorResponse jsonText option"

record EventRecord =
  ev_Seq :: nat
  ev_JobID :: bytes
  ev_Type :: bytes
  ev_Ts :: bytes
  ev_Status :: "bytes option"
  ev_TaskID :: "bytes option"
  ev_Message :: "bytes option"
  ev_ResultJSON :: "PrepareResult jsonText option"
  ev_ErrorJSON :: "ErrorResponse jsonText option"

text \<open>An update sets the columns that are not \<^verbatim>\<open>nil\<close>.\<close>

record JobUpdate =
  ju_Status :: "bytes option"
  ju_SnapshotMode :: "bytes option"
  ju_PrepareArgsNormalized :: "bytes option"
  ju_Signature :: "bytes option"
  ju_RequestJSON :: "Request jsonText option"
  ju_StartedAt :: "bytes option"
  ju_FinishedAt :: "bytes option"
  ju_ResultJSON :: "PrepareResult jsonText option"
  ju_ErrorJSON :: "ErrorResponse jsonText option"

record TaskUpdate =
  tu_Status :: "bytes option"
  tu_StartedAt :: "bytes option"
  tu_FinishedAt :: "bytes option"
  tu_ErrorJSON :: "ErrorResponse jsonText option"
  tu_TaskHash :: "bytes option"
  tu_OutputStateID :: "bytes option"
  tu_Cached :: "bool option"

definition no_job_update :: JobUpdate where
  "no_job_update = \<lparr>ju_Status = None, ju_SnapshotMode = None, ju_PrepareArgsNormalized = None, ju_Signature = None,
     ju_RequestJSON = None, ju_StartedAt = None, ju_FinishedAt = None, ju_ResultJSON = None, ju_ErrorJSON = None\<rparr>"

definition no_task_update :: TaskUpdate where
  "no_task_update = \<lparr>tu_Status = None, tu_StartedAt = None, tu_FinishedAt = None, tu_ErrorJSON = None,
     tu_TaskHash = None, tu_OutputStateID = None, tu_Cached = None\<rparr>"

record queueTables =
  q_jobs :: "JobRecord list"
  q_tasks :: "TaskRecord list"
  q_events :: "EventRecord list"
  q_seq :: nat

subsection \<open>Filters and orders\<close>

definition escapeLike :: "bytes \<Rightarrow> bytes" where
  "escapeLike v = concat (map (\<lambda>c. if c = CHR 0x5C \<or> c = CHR ''%'' \<or> c = CHR ''_'' then [CHR 0x5C, c] else [c]) v)"

text \<open>\<^verbatim>\<open>LIKE ... ESCAPE\<close> with the backslash.\<close>

fun like_escape :: "bytes \<Rightarrow> bytes \<Rightarrow> bool" where
  "like_escape [] s = (s = [])"
| "like_escape (p # ps) [] = (p = CHR ''%'' \<and> like_escape ps [])"
| "like_escape (p # ps) (c # s) =
     (if p = CHR 0x5C then
        (case ps of [] \<Rightarrow> False | q # qs \<Rightarrow> lower_byte q = lower_byte c \<and> like_escape qs s)
      else if p = CHR ''%'' then like_escape ps (c # s) \<or> like_escape (p # ps) s
      else (p = CHR ''_'' \<or> lower_byte p = lower_byte c) \<and> like_escape ps s)"

definition jobPrefixFilter :: "bytes \<Rightarrow> bytes \<Rightarrow> bool" where
  "jobPrefixFilter prefix column \<longleftrightarrow>
     TrimSpace prefix = [] \<or> like_escape (escapeLike (TrimSpace prefix) @ ''%'') column"

text \<open>Rows that are equal under the order stay in storage order.\<close>

definition order_desc :: "('a \<Rightarrow> bytes) \<Rightarrow> 'a list \<Rightarrow> 'a list" where
  "order_desc key rows = rev (sort_key key (rev rows))"

definition finished_or_created :: "JobRecord \<Rightarrow> bytes" where
  "finished_or_created j = (case jr_FinishedAt j of Some t \<Rightarrow> t | None \<Rightarrow> jr_CreatedAt j)"

subsection \<open>Jobs\<close>

definition jobSnapshotMode :: "bytes \<Rightarrow> bytes" where
  "jobSnapshotMode v = (if TrimSpace v = [] then ''always'' else v)"

definition q_CreateJob :: "JobRecord \<Rightarrow> queueTables \<Rightarrow> queueTables option" where
  "q_CreateJob job q =
     (if jr_JobID job \<in> jr_JobID ` set (q_jobs q) then None
      else Some (q\<lparr>q_jobs := q_jobs q @ [job\<lparr>jr_SnapshotMode := jobSnapshotMode (jr_SnapshotMode job)\<rparr>]\<rparr>))"

definition set_to :: "'a option \<Rightarrow> 'a \<Rightarrow> 'a" where
  "set_to new old = (case new of None \<Rightarrow> old | Some v \<Rightarrow> v)"

definition set_null :: "'a option \<Rightarrow> 'a option \<Rightarrow> 'a option" where
  "set_null new old = (case new of None \<Rightarrow> old | Some v \<Rightarrow> Some v)"

definition update_job_row :: "JobUpdate \<Rightarrow> JobRecord \<Rightarrow> JobRecord" where
  "update_job_row u j =
     j\<lparr>jr_Status := set_to (ju_Status u) (jr_Status j),
       jr_SnapshotMode := set_to (ju_SnapshotMode u) (jr_SnapshotMode j),
       jr_PrepareArgsNormalized := set_null (ju_PrepareArgsNormalized u) (jr_PrepareArgsNormalized j),
       jr_Signature := set_null (ju_Signature u) (jr_Signature j),
       jr_RequestJSON := set_null (ju_RequestJSON u) (jr_RequestJSON j),
       jr_StartedAt := set_null (ju_StartedAt u) (jr_StartedAt j),
       jr_FinishedAt := set_null (ju_FinishedAt u) (jr_FinishedAt j),
       jr_ResultJSON := set_null (ju_ResultJSON u) (jr_ResultJSON j),
       jr_ErrorJSON := set_null (ju_ErrorJSON u) (jr_ErrorJSON j)\<rparr>"

definition q_UpdateJob :: "bytes \<Rightarrow> JobUpdate \<Rightarrow> queueTables \<Rightarrow> queueTables option" where
  "q_UpdateJob jobID u q =
     (if jobID = [] then None
      else Some (q\<lparr>q_jobs := map (\<lambda>j. if jr_JobID j = jobID then update_job_row u j else j) (q_jobs q)\<rparr>))"

definition q_GetJob :: "bytes \<Rightarrow> queueTables \<Rightarrow> JobRecord option" where
  "q_GetJob jobID q = find (\<lambda>j. jr_JobID j = jobID) (q_jobs q)"

definition q_ListJobs :: "bytes \<Rightarrow> queueTables \<Rightarrow> JobRecord list" where
  "q_ListJobs jobID q = sort_key jr_CreatedAt (filter (\<lambda>j. jobPrefixFilter jobID (jr_JobID j)) (q_jobs q))"

definition q_ListJobsByStatus :: "bytes list \<Rightarrow> queueTables \<Rightarrow> JobRecord list" where
  "q_ListJobsByStatus statuses q = sort_key jr_CreatedAt (filter (\<lambda>j. jr_Status j \<in> set statuses) (q_jobs q))"

definition q_ListJobsBySignature :: "bytes \<Rightarrow> bytes list \<Rightarrow> queueTables \<Rightarrow> JobRecord list" where
  "q_ListJobsBySignature signature statuses q =
     (if TrimSpace signature = [] then []
      else order_desc finished_or_created
        (filter (\<lambda>j. jr_Signature j = Some signature \<and> (statuses = [] \<or> jr_Status j \<in> set statuses)) (q_jobs q)))"

text \<open>The tasks and events of a job go with it (\<^verbatim>\<open>ON DELETE CASCADE\<close>).\<close>

definition q_DeleteJob :: "bytes \<Rightarrow> queueTables \<Rightarrow> queueTables" where
  "q_DeleteJob jobID q =
     q\<lparr>q_jobs := filter (\<lambda>j. jr_JobID j \<noteq> jobID) (q_jobs q),
       q_tasks := filter (\<lambda>t. tk_JobID t \<noteq> jobID) (q_tasks q),
       q_events := filter (\<lambda>e. ev_JobID e \<noteq> jobID) (q_events q)\<rparr>"

subsection \<open>Tasks\<close>

definition q_DeleteTasks :: "bytes \<Rightarrow> queueTables \<Rightarrow> queueTables" where
  "q_DeleteTasks jobID q = q\<lparr>q_tasks := filter (\<lambda>t. tk_JobID t \<noteq> jobID) (q_tasks q)\<rparr>"

definition task_key :: "TaskRecord \<Rightarrow> bytes \<times> bytes" where
  "task_key t = (tk_JobID t, tk_TaskID t)"

definition q_InsertTask :: "TaskRecord \<Rightarrow> queueTables \<Rightarrow> queueTables option" where
  "q_InsertTask t q =
     (if task_key t \<in> task_key ` set (q_tasks q) \<or> tk_JobID t \<notin> jr_JobID ` set (q_jobs q) then None
      else Some (q\<lparr>q_tasks := q_tasks q @ [t]\<rparr>))"

text \<open>The order is by job, then by position.\<close>

definition q_ListTasks :: "bytes \<Rightarrow> queueTables \<Rightarrow> TaskRecord list" where
  "q_ListTasks jobID q =
     sort_key tk_JobID (sort_key tk_Position (filter (\<lambda>t. addFilter jobID (Some (tk_JobID t))) (q_tasks q)))"

definition update_task_row :: "TaskUpdate \<Rightarrow> TaskRecord \<Rightarrow> TaskRecord" where
  "update_task_row u t =
     t\<lparr>tk_Status := set_to (tu_Status u) (tk_Status t),
       tk_StartedAt := set_null (tu_StartedAt u) (tk_StartedAt t),
       tk_FinishedAt := set_null (tu_FinishedAt u) (tk_FinishedAt t),
       tk_ErrorJSON := set_null (tu_ErrorJSON u) (tk_ErrorJSON t),
       tk_TaskHash := set_null (tu_TaskHash u) (tk_TaskHash t),
       tk_OutputStateID := set_null (tu_OutputStateID u) (tk_OutputStateID t),
       tk_Cached := set_null (tu_Cached u) (tk_Cached t)\<rparr>"

definition q_UpdateTask :: "bytes \<Rightarrow> bytes \<Rightarrow> TaskUpdate \<Rightarrow> queueTables \<Rightarrow> queueTables option" where
  "q_UpdateTask jobID taskID u q =
     (if jobID = [] \<or> taskID = [] then None
      else Some (q\<lparr>q_tasks := map (\<lambda>t. if tk_JobID t = jobID \<and> tk_TaskID t = taskID then update_task_row u t else t) (q_tasks q)\<rparr>))"

subsection \<open>Events\<close>

text \<open>\<^verbatim>\<open>AUTOINCREMENT\<close> never reuses a number, also after deletions.\<close>

definition q_AppendEvent :: "EventRecord \<Rightarrow> queueTables \<Rightarrow> queueTables option" where
  "q_AppendEvent e q =
     (if ev_JobID e \<notin> jr_JobID ` set (q_jobs q) then None
      else Some (q\<lparr>q_events := q_events q @ [e\<lparr>ev_Seq := Suc (q_seq q)\<rparr>], q_seq := Suc (q_seq q)\<rparr>))"

definition q_ListEventsSince :: "bytes \<Rightarrow> int \<Rightarrow> queueTables \<Rightarrow> EventRecord list" where
  "q_ListEventsSince jobID offset q = drop (nat offset) (sort_key ev_Seq (filter (\<lambda>e. ev_JobID e = jobID) (q_events q)))"

definition q_CountEvents :: "bytes \<Rightarrow> queueTables \<Rightarrow> nat" where
  "q_CountEvents jobID q = length (filter (\<lambda>e. ev_JobID e = jobID) (q_events q))"

subsection \<open>The insert trigger of a managed store\<close>

definition last_chars :: "nat \<Rightarrow> bytes \<Rightarrow> bytes" where
  "last_chars n s = drop (length s - n) s"

definition managed_job_insert :: "world \<Rightarrow> JobRecord \<Rightarrow> bool" where
  "managed_job_insert w job \<longleftrightarrow>
     (\<exists>l \<in> set (w_lineages w). lr_domain_ref l = w_domain w \<and> lr_lineage_ref l = jr_LineageRef job
        \<and> lr_identity_digest l = jr_IdentityDigest job
        \<and> (jr_ResolvedImageID job = lr_image_digest l \<or> last_chars 72 (jr_ResolvedImageID job) = ''@'' @ lr_image_digest l))"

subsection \<open>The invariant of the tables\<close>

definition job_ids :: "queueTables \<Rightarrow> bytes set" where
  "job_ids q = set (map jr_JobID (q_jobs q))"

definition queue_wf :: "queueTables \<Rightarrow> bool" where
  "queue_wf q \<longleftrightarrow> distinct (map jr_JobID (q_jobs q)) \<and> distinct (map task_key (q_tasks q))
     \<and> (\<forall>t \<in> set (q_tasks q). tk_JobID t \<in> job_ids q) \<and> (\<forall>e \<in> set (q_events q). ev_JobID e \<in> job_ids q)
     \<and> sorted_wrt (<) (map ev_Seq (q_events q)) \<and> (\<forall>e \<in> set (q_events q). ev_Seq e \<le> q_seq q)"

lemma update_job_id [simp]: "jr_JobID (update_job_row u j) = jr_JobID j"
  by (simp add: update_job_row_def)

lemma update_task_key [simp]: "task_key (update_task_row u t) = task_key t" "tk_JobID (update_task_row u t) = tk_JobID t"
    "tk_TaskID (update_task_row u t) = tk_TaskID t"
  by (simp_all add: update_task_row_def task_key_def)

lemma map_update_map: "(\<And>x. f (g x) = f x) \<Longrightarrow> map f (map (\<lambda>x. if P x then g x else x) xs) = map f xs"
  by (induction xs) auto

lemma job_ids_update: "job_ids (q\<lparr>q_jobs := map (\<lambda>j. if P j then update_job_row u j else j) (q_jobs q)\<rparr>) = job_ids q"
  by (simp add: job_ids_def map_update_map del: map_map set_map list.set_map)

lemma job_ids_other [simp]:
  "job_ids (q\<lparr>q_tasks := ts\<rparr>) = job_ids q" "job_ids (q\<lparr>q_events := es, q_seq := n\<rparr>) = job_ids q"
  by (simp_all add: job_ids_def)

lemma CreateJob_wf: "queue_wf q \<Longrightarrow> q_CreateJob job q = Some q' \<Longrightarrow> queue_wf q'"
  by (auto simp: queue_wf_def q_CreateJob_def job_ids_def split: if_splits)

lemma UpdateJob_wf: "queue_wf q \<Longrightarrow> q_UpdateJob j u q = Some q' \<Longrightarrow> queue_wf q'"
  by (auto simp: queue_wf_def q_UpdateJob_def job_ids_update map_update_map simp del: map_map split: if_splits)

lemma DeleteJob_wf: "queue_wf q \<Longrightarrow> queue_wf (q_DeleteJob j q)"
  by (auto simp: queue_wf_def q_DeleteJob_def job_ids_def distinct_map_filter sorted_wrt_filter sorted_wrt_map)

lemma DeleteTasks_wf: "queue_wf q \<Longrightarrow> queue_wf (q_DeleteTasks j q)"
  by (simp add: queue_wf_def q_DeleteTasks_def distinct_map_filter)

lemma InsertTask_wf: "queue_wf q \<Longrightarrow> q_InsertTask t q = Some q' \<Longrightarrow> queue_wf q'"
  by (auto simp: queue_wf_def q_InsertTask_def job_ids_def split: if_splits)

lemma UpdateTask_wf: "queue_wf q \<Longrightarrow> q_UpdateTask j t u q = Some q' \<Longrightarrow> queue_wf q'"
  by (auto simp: queue_wf_def q_UpdateTask_def map_update_map simp del: map_map split: if_splits)

lemma AppendEvent_wf: "queue_wf q \<Longrightarrow> q_AppendEvent e q = Some q' \<Longrightarrow> queue_wf q'"
  by (fastforce simp: queue_wf_def q_AppendEvent_def job_ids_def sorted_wrt_append less_Suc_eq_le split: if_splits)

subsection \<open>The prefix filter\<close>

lemma like_percent: "like_escape ''%'' s"
  by (induction s) simp_all

text \<open>An escaped prefix matches literally, up to the case of ASCII letters.\<close>

lemma jobPrefixFilter_iff:
  "jobPrefixFilter p column \<longleftrightarrow> HasPrefix (ToLower column) (ToLower (TrimSpace p))"
proof -
  have "like_escape (escapeLike v @ ''%'') s \<longleftrightarrow> HasPrefix (map lower_byte s) (map lower_byte v)" for v s
  proof (induction v arbitrary: s)
    case Nil
    then show ?case by (simp add: escapeLike_def like_percent HasPrefix_def)
  next
    case (Cons c v)
    have rest: "escapeLike (c # v) = (if c = CHR 0x5C \<or> c = CHR ''%'' \<or> c = CHR ''_'' then [CHR 0x5C, c] else [c]) @ escapeLike v"
      by (simp add: escapeLike_def)
    show ?case
      using Cons.IH by (cases s) (auto simp: rest HasPrefix_def)
  qed
  moreover have "HasPrefix (ToLower column) []" by (simp add: HasPrefix_def)
  ultimately show ?thesis by (auto simp: jobPrefixFilter_def ToLower_def)
qed

end
