(* ===== verification/Go_Path.thy ===== *)
theory Go_Path
  imports Engine_World
begin

text \<open>
  Package \<^verbatim>\<open>path/filepath\<close> on Unix, and a file system as a tree of directories and files.  A
  directory \<open>NBad e\<close> is one whose listing fails with \<open>e\<close>.  Links are not part of the tree.
\<close>

subsection \<open>Texts\<close>

fun split_on :: "byte \<Rightarrow> bytes \<Rightarrow> bytes list" where
  "split_on c [] = [[]]"
| "split_on c (x # xs) =
     (if x = c then [] # split_on c xs
      else (case split_on c xs of [] \<Rightarrow> [[x]] | p # ps \<Rightarrow> (x # p) # ps))"

definition join_with :: "bytes \<Rightarrow> bytes list \<Rightarrow> bytes" where
  "join_with sep parts = (case parts of [] \<Rightarrow> [] | p # ps \<Rightarrow> p @ concat (map (\<lambda>q. sep @ q) ps))"

definition slash :: byte where
  "slash = CHR ''/''"

definition rooted :: "bytes \<Rightarrow> bool" where
  "rooted p \<longleftrightarrow> HasPrefix p ''/''"

text \<open>The elements kept so far, last one first.\<close>

fun clean_elements :: "bool \<Rightarrow> bytes list \<Rightarrow> bytes list \<Rightarrow> bytes list" where
  "clean_elements absolute out [] = rev out"
| "clean_elements absolute out (e # es) =
     (if e = [] \<or> e = ''.'' then clean_elements absolute out es
      else if e = ''..'' then
        (if out \<noteq> [] \<and> hd out \<noteq> ''..'' then clean_elements absolute (tl out) es
         else if absolute then clean_elements absolute out es
         else clean_elements absolute (e # out) es)
      else clean_elements absolute (e # out) es)"

definition clean_path :: "bytes \<Rightarrow> bytes list" where
  "clean_path p = clean_elements (rooted p) [] (split_on slash p)"

definition Clean :: "bytes \<Rightarrow> bytes" where
  "Clean p =
     (let text = join_with ''/'' (clean_path p) in
      if rooted p then ''/'' @ text else if text = [] then ''.'' else text)"

definition path_Join :: "bytes list \<Rightarrow> bytes" where
  "path_Join elems =
     (case dropWhile (\<lambda>e. e = []) elems of [] \<Rightarrow> [] | es \<Rightarrow> Clean (join_with ''/'' es))"

text \<open>The text up to and including the last slash, cleaned.\<close>

definition path_Dir :: "bytes \<Rightarrow> bytes" where
  "path_Dir p = Clean (rev (dropWhile (\<lambda>c. c \<noteq> slash) (rev p)))"

subsection \<open>Files\<close>

datatype node = NFile bytes | NDir "(bytes \<times> node) list" | NBad engineError

fun node_at :: "node \<Rightarrow> bytes list \<Rightarrow> node option" where
  "node_at n [] = Some n"
| "node_at n (e # es) =
     (case n of NDir entries \<Rightarrow> (case map_of entries e of None \<Rightarrow> None | Some m \<Rightarrow> node_at m es) | _ \<Rightarrow> None)"

text \<open>\<^verbatim>\<open>os.RemoveAll\<close>: a path that does not exist is no error.\<close>

fun node_remove :: "node \<Rightarrow> bytes list \<Rightarrow> node" where
  "node_remove n [] = n"
| "node_remove n (e # es) =
     (case n of
        NDir entries \<Rightarrow>
          if es = [] then NDir (filter (\<lambda>(name, _). name \<noteq> e) entries)
          else NDir (map (\<lambda>(name, m). (name, if name = e then node_remove m es else m)) entries)
      | _ \<Rightarrow> n)"

definition file_at :: "node \<Rightarrow> bytes \<Rightarrow> node option" where
  "file_at disk path = node_at disk (clean_path path)"

definition remove_at :: "node \<Rightarrow> bytes \<Rightarrow> node" where
  "remove_at disk path = node_remove disk (clean_path path)"

end
