(* ===== verification/State_Layout.thy ===== *)
theory State_Layout
  imports Go_Path
begin

text \<open>
  Where the engine keeps a state (\<^verbatim>\<open>statefs/layout.go\<close>, \<^verbatim>\<open>prepare/execution.go: resolveStatePaths\<close>) and how
  it measures what is there (\<^verbatim>\<open>measureStoreUsage\<close>, \<^verbatim>\<open>measureCacheUsage\<close> of \<^verbatim>\<open>prepare/capacity.go\<close>).
\<close>

subsection \<open>Names of images\<close>

text \<open>
  The bytes of the first rune of a text; a byte that starts no valid sequence is a rune of
  its own, which Go reads as U+FFFD.
\<close>

definition rune_width :: "bytes \<Rightarrow> nat" where
  "rune_width s =
     (if ValidString (take 1 s) then 1
      else if 2 \<le> length s \<and> ValidString (take 2 s) then 2
      else if 3 \<le> length s \<and> ValidString (take 3 s) then 3
      else if 4 \<le> length s \<and> ValidString (take 4 s) then 4 else 1)"

definition segment_char :: "byte \<Rightarrow> bool" where
  "segment_char c \<longleftrightarrow> in_range 97 122 c \<or> in_range 65 90 c \<or> in_range 48 57 c \<or> c \<in> set ''.-_''"

lemma rune_width_pos: "0 < rune_width s"
  by (simp only: rune_width_def split: if_split) simp

text \<open>Every rune becomes itself or an underscore.\<close>

function sanitize_runes :: "bytes \<Rightarrow> bytes" where
  "sanitize_runes [] = []"
| "sanitize_runes (c # s) =
     (if in_range 0 127 c then (if segment_char c then c else CHR ''_'') # sanitize_runes s
      else CHR ''_'' # sanitize_runes (drop (rune_width (c # s)) (c # s)))"
  by pat_completeness auto
termination
  by (relation "measure length") (use rune_width_pos in \<open>auto intro!: diff_less\<close>)

declare sanitize_runes.simps [simp del]

definition sanitizeSegment :: "bytes \<Rightarrow> bytes" where
  "sanitizeSegment v =
     (if v = [] then []
      else let out = sanitize_runes v in
        if out = [] \<or> out = ''.'' \<or> out = ''..'' then ''unknown'' else out)"

text \<open>The text after the last occurrence of a character, and the text before it.\<close>

definition after_last :: "byte \<Rightarrow> bytes \<Rightarrow> bytes" where
  "after_last c s = rev (takeWhile (\<lambda>x. x \<noteq> c) (rev s))"

definition before_last :: "byte \<Rightarrow> bytes \<Rightarrow> bytes" where
  "before_last c s = rev (drop 1 (dropWhile (\<lambda>x. x \<noteq> c) (rev s)))"

definition parseImageID :: "bytes \<Rightarrow> bytes \<times> bytes" where
  "parseImageID ref =
     (let imageID = TrimSpace ref in
      if imageID = [] then (''unknown'', ''latest'')
      else
        let name = takeWhile (\<lambda>c. c \<noteq> CHR ''@'') imageID;
            digest = drop 1 (dropWhile (\<lambda>c. c \<noteq> CHR ''@'') imageID);
            tagged = digest = [] \<and> CHR '':'' \<in> set name \<and> slash \<notin> set (after_last (CHR '':'') name);
            tag = (if digest \<noteq> [] then digest else if tagged then after_last (CHR '':'') name else []);
            base = (if tagged then before_last (CHR '':'') name else name);
            version = sanitizeSegment tag in
        (sanitizeSegment (after_last slash base), if version = [] then ''latest'' else version))"

subsection \<open>Directories\<close>

definition ErrRootRequired :: engineError where
  "ErrRootRequired = ErrIO ''state store root is required''"

definition layout_dir :: "bytes \<Rightarrow> bytes \<Rightarrow> bytes list \<Rightarrow> engineError + bytes" where
  "layout_dir store imageID rest =
     (if TrimSpace store = [] then Inl ErrRootRequired
      else case parseImageID imageID of (engine, version) \<Rightarrow> Inr (path_Join ([store, ''engines'', engine, version] @ rest)))"

definition baseDir :: "bytes \<Rightarrow> bytes \<Rightarrow> engineError + bytes" where
  "baseDir store imageID = layout_dir store imageID [''base'']"

definition statesDir :: "bytes \<Rightarrow> bytes \<Rightarrow> engineError + bytes" where
  "statesDir store imageID = layout_dir store imageID [''states'']"

definition stateDir :: "bytes \<Rightarrow> bytes \<Rightarrow> bytes \<Rightarrow> engineError + bytes" where
  "stateDir store imageID stateID =
     (if TrimSpace store = [] then Inl ErrRootRequired
      else if TrimSpace stateID = [] then Inl (ErrIO ''state id is required'')
      else layout_dir store imageID [''states'', stateID])"

definition jobRuntimeDir :: "bytes \<Rightarrow> bytes \<Rightarrow> engineError + bytes" where
  "jobRuntimeDir store jobID =
     (if TrimSpace store = [] then Inl ErrRootRequired
      else if TrimSpace jobID = [] then Inl (ErrIO ''job id is required'')
      else Inr (path_Join [store, ''jobs'', jobID, ''runtime'']))"

record statePaths =
  sp_baseDir :: bytes
  sp_statesDir :: bytes
  sp_stateDir :: bytes

definition resolveStatePaths :: "bytes \<Rightarrow> bytes \<Rightarrow> bytes \<Rightarrow> engineError + statePaths" where
  "resolveStatePaths store imageID stateID =
     (if TrimSpace store = [] then Inl ErrRootRequired
      else res_bind (baseDir store imageID) (\<lambda>b. res_bind (statesDir store imageID) (\<lambda>ss.
        res_bind (if TrimSpace stateID \<noteq> [] then stateDir store imageID stateID else Inr []) (\<lambda>s.
          Inr \<lparr>sp_baseDir = b, sp_statesDir = ss, sp_stateDir = s\<rparr>))))"

subsection \<open>Usage\<close>

text \<open>\<^verbatim>\<open>filepath.WalkDir\<close> with the visitor that adds up the sizes of the files.\<close>

fun walk_usage :: "node \<Rightarrow> engineError + int" and walk_entries :: "(bytes \<times> node) list \<Rightarrow> engineError + int" where
  "walk_usage (NFile content) = Inr (int (length content))"
| "walk_usage (NBad e) = (if e = ErrNotExist then Inr 0 else Inl e)"
| "walk_usage (NDir entries) = walk_entries entries"
| "walk_entries [] = Inr 0"
| "walk_entries ((name, n) # rest) = res_bind (walk_usage n) (\<lambda>a. res_bind (walk_entries rest) (\<lambda>b. Inr (a + b)))"

definition measureStoreUsage :: "node \<Rightarrow> bytes \<Rightarrow> engineError + int" where
  "measureStoreUsage disk path =
     (if TrimSpace path = [] then Inr 0
      else case file_at disk (TrimSpace path) of None \<Rightarrow> Inr 0 | Some n \<Rightarrow> walk_usage n)"

text \<open>A directory's entries; a listing that fails because it is gone counts as empty.\<close>

definition list_dir :: "node \<Rightarrow> engineError + (bytes \<times> node) list" where
  "list_dir n =
     (case n of NDir entries \<Rightarrow> Inr entries | NFile _ \<Rightarrow> Inr []
      | NBad e \<Rightarrow> if e = ErrNotExist then Inr [] else Inl e)"

definition states_usage :: "node \<Rightarrow> engineError + int" where
  "states_usage version =
     (case version of NDir _ \<Rightarrow> (case node_at version [''states''] of None \<Rightarrow> Inr 0 | Some n \<Rightarrow> walk_usage n) | _ \<Rightarrow> Inr 0)"

fun sum_usage :: "('a \<Rightarrow> engineError + int) \<Rightarrow> 'a list \<Rightarrow> engineError + int" where
  "sum_usage f [] = Inr 0"
| "sum_usage f (x # xs) = res_bind (f x) (\<lambda>a. res_bind (sum_usage f xs) (\<lambda>b. Inr (a + b)))"

definition engine_usage :: "bytes \<times> node \<Rightarrow> engineError + int" where
  "engine_usage engine =
     res_bind (list_dir (snd engine)) (\<lambda>versions. sum_usage (states_usage \<circ> snd) versions)"

definition measureCacheUsage :: "node \<Rightarrow> bytes \<Rightarrow> engineError + int" where
  "measureCacheUsage disk store =
     (if TrimSpace store = [] then Inr 0
      else case file_at disk (path_Join [TrimSpace store, ''engines'']) of
          None \<Rightarrow> Inr 0
        | Some n \<Rightarrow> res_bind (list_dir n) (\<lambda>engines. sum_usage engine_usage engines))"

end
