(* ===== verification/Go_Float.thy ===== *)
theory Go_Float
  imports Validation Complex_Main "HOL-Library.Log_Nat"
begin

text \<open>
  Go's \<^verbatim>\<open>float64\<close>: a finite value is the rational number it stands for, and every operation is the
  exact one followed by \<open>round_float64\<close>, which rounds to the nearest number with a
  53-bit significand, ties to even, with the spacing of the subnormal numbers below \<open>2 ^ -1022\<close>.
  A conversion to \<^verbatim>\<open>int64\<close> truncates; out of range its result is the smallest integer, which is
  what amd64 computes.  Monotonicity of rounding is what the thresholds of the cache rest on.
\<close>

subsection \<open>Rounding\<close>

definition rne :: "rat \<Rightarrow> int" where
  "rne y = (let n = \<lfloor>y\<rfloor>; d = y - of_int n in
     if d < 1 / 2 then n else if 1 / 2 < d then n + 1 else if even n then n else n + 1)"

definition pow2 :: "int \<Rightarrow> rat" where
  "pow2 e = (if 0 \<le> e then 2 ^ nat e else 1 / 2 ^ nat (- e))"

definition ilog2 :: "rat \<Rightarrow> int" where
  "ilog2 r = (let (p, q) = quotient_of r; e = int (floorlog 2 (nat p)) - int (floorlog 2 (nat q)) in
     if pow2 e \<le> r then e else e - 1)"

definition ulp :: "rat \<Rightarrow> rat" where
  "ulp r = pow2 (max (ilog2 r - 52) (- 1074))"

definition round_float64 :: "rat \<Rightarrow> rat" where
  "round_float64 r = (if r = 0 then 0 else sgn r * (of_int (rne (\<bar>r\<bar> / ulp \<bar>r\<bar>)) * ulp \<bar>r\<bar>))"

definition float_of_int :: "int \<Rightarrow> rat" where
  "float_of_int n = round_float64 (of_int n)"

definition float_mul :: "rat \<Rightarrow> rat \<Rightarrow> rat" where
  "float_mul a b = round_float64 (a * b)"

definition truncate :: "rat \<Rightarrow> int" where
  "truncate r = (if r < 0 then - \<lfloor>- r\<rfloor> else \<lfloor>r\<rfloor>)"

definition int64_ok :: "int \<Rightarrow> bool" where
  "int64_ok n \<longleftrightarrow> - (2 ^ 63) \<le> n \<and> n < 2 ^ 63"

definition int64_of_float :: "rat \<Rightarrow> int" where
  "int64_of_float r = (if int64_ok (truncate r) then truncate r else - (2 ^ 63))"

subsection \<open>Numbers in JSON texts\<close>

definition decimal_digit :: "byte \<Rightarrow> bool" where
  "decimal_digit c \<longleftrightarrow> in_range 48 57 c"

definition digits_number :: "bytes \<Rightarrow> nat" where
  "digits_number ds = fold (\<lambda>c acc. 10 * acc + (of_char c - 48)) ds 0"

definition split_sign :: "bytes \<Rightarrow> bool \<times> bytes" where
  "split_sign s = (case s of [] \<Rightarrow> (False, []) | c # r \<Rightarrow> if c = CHR ''-'' then (True, r) else (False, s))"

definition ParseInt64 :: "bytes \<Rightarrow> int option" where
  "ParseInt64 s =
     (case split_sign s of (neg, ds) \<Rightarrow>
        if ds = [] \<or> \<not> list_all decimal_digit ds then None
        else let n = (if neg then - int (digits_number ds) else int (digits_number ds)) in
          if int64_ok n then Some n else None)"

definition ten_to :: "int \<Rightarrow> rat" where
  "ten_to e = (if 0 \<le> e then 10 ^ nat e else 1 / 10 ^ nat (- e))"

text \<open>The exponent after \<^verbatim>\<open>e\<close> or \<^verbatim>\<open>E\<close>, with an optional sign.\<close>

definition parse_exponent :: "bytes \<Rightarrow> int option" where
  "parse_exponent s =
     (case s of [] \<Rightarrow> Some 0
      | c # r \<Rightarrow>
         if c \<noteq> CHR ''e'' \<and> c \<noteq> CHR ''E'' then None
         else let neg = (r \<noteq> [] \<and> hd r = CHR ''-''); ds = (if r \<noteq> [] \<and> (hd r = CHR ''-'' \<or> hd r = CHR ''+'') then tl r else r) in
           if ds = [] \<or> \<not> list_all decimal_digit ds then None
           else Some (if neg then - int (digits_number ds) else int (digits_number ds)))"

definition parse_decimal :: "bytes \<Rightarrow> rat option" where
  "parse_decimal s =
     (case split_sign s of (neg, body) \<Rightarrow>
        let whole = takeWhile decimal_digit body; r1 = dropWhile decimal_digit body;
            point = (r1 \<noteq> [] \<and> hd r1 = CHR ''.'');
            frac = (if point then takeWhile decimal_digit (tl r1) else []);
            r2 = (if point then dropWhile decimal_digit (tl r1) else r1) in
        if whole = [] \<or> (point \<and> frac = []) then None
        else map_option (\<lambda>e.
          (if neg then -1 else 1) * of_nat (digits_number (whole @ frac)) * ten_to (e - int (length frac))) (parse_exponent r2))"

definition ParseFloat64 :: "bytes \<Rightarrow> rat option" where
  "ParseFloat64 s =
     Option.bind (parse_decimal s) (\<lambda>r. let f = round_float64 r in if pow2 1024 \<le> \<bar>f\<bar> then None else Some f)"

subsection \<open>Lemmas\<close>

lemma rne_of_int [simp]: "rne (of_int n) = n"
  by (simp add: rne_def)

lemma rne_cases: "rne y = \<lfloor>y\<rfloor> \<or> rne y = \<lfloor>y\<rfloor> + 1"
  by (simp add: rne_def Let_def)

lemma rne_mono:
  assumes "x \<le> y"
  shows "rne x \<le> rne y"
proof (cases "\<lfloor>x\<rfloor> = \<lfloor>y\<rfloor>")
  case True
  then show ?thesis using assms by (auto simp: rne_def Let_def)
next
  case False
  then have "\<lfloor>x\<rfloor> + 1 \<le> \<lfloor>y\<rfloor>" using floor_mono [OF assms] by linarith
  then show ?thesis using rne_cases [of x] rne_cases [of y] by linarith
qed

lemma pow2_pos [simp]: "0 < pow2 e" "pow2 e \<noteq> 0"
  by (simp_all add: pow2_def)

lemma pow2_Suc: "pow2 (e + 1) = 2 * pow2 e"
proof -
  consider "0 \<le> e" | "e = - 1" | "e < - 1" by linarith
  then show ?thesis
  proof cases
    case 1
    then show ?thesis by (simp add: pow2_def nat_add_distrib)
  next
    case 3
    then have "nat (- e) = Suc (nat (- (e + 1)))" by linarith
    then show ?thesis using 3 by (simp add: pow2_def)
  qed (simp add: pow2_def)
qed

lemma pow2_add: "pow2 (e + int k) = 2 ^ k * pow2 e"
proof (induction k)
  case (Suc k)
  have "pow2 (e + int (Suc k)) = pow2 ((e + int k) + 1)" by (simp add: add_ac)
  then show ?case by (simp only: pow2_Suc Suc) simp
qed simp

lemma pow2_mono: "a \<le> b \<Longrightarrow> pow2 a \<le> pow2 b"
  using pow2_add [of a "nat (b - a)"] by (simp add: one_le_power)

lemma pow2_nat: "pow2 (int k) = 2 ^ k"
  by (simp add: pow2_def)

lemma pow2_diff: "pow2 (int a - int b) = 2 ^ a / 2 ^ b"
proof -
  have "pow2 (int a - int b) * 2 ^ b = 2 ^ a"
    using pow2_add [of "int a - int b" b] by (simp add: pow2_nat mult.commute)
  then show ?thesis by (simp add: field_simps)
qed

lemma floorlog_bounds:
  assumes "0 < n"
  shows "2 ^ (floorlog 2 n - 1) \<le> n" and "n < 2 ^ floorlog 2 n" and "0 < floorlog 2 n"
  using assms floorlog_bounds [of n 2] by (auto simp: floorlog_def)

lemma ilog2_bounds:
  assumes "0 < r"
  shows "pow2 (ilog2 r) \<le> r" and "r < pow2 (ilog2 r + 1)"
proof -
  obtain p q where pq: "quotient_of r = (p, q)" by (cases "quotient_of r")
  have q: "0 < q" using quotient_of_denom_pos [OF pq] .
  have r: "r = of_int p / of_int q" using quotient_of_div [OF pq] .
  then have p: "0 < p" using assms q by (simp add: zero_less_divide_iff)
  define a b where "a = floorlog 2 (nat p)" and "b = floorlog 2 (nat q)"
  have np: "0 < nat p" and nq: "0 < nat q" using p q by simp_all
  have bounds: "2 ^ (a - 1) \<le> nat p" "nat p < 2 ^ a" "2 ^ (b - 1) \<le> nat q" "nat q < 2 ^ b" "0 < a" "0 < b"
    using floorlog_bounds [OF np] floorlog_bounds [OF nq] by (simp_all add: a_def b_def)
  have rat: "of_int p = (of_nat (nat p) :: rat)" "of_int q = (of_nat (nat q) :: rat)" using p q by simp_all
  have pl: "(2::rat) ^ (a - 1) \<le> of_int p" and pu: "of_int p < (2::rat) ^ a"
    and ql: "(2::rat) ^ (b - 1) \<le> of_int q" and qu: "of_int q < (2::rat) ^ b"
    unfolding rat using bounds(1-4)
    by (metis of_nat_le_iff of_nat_numeral of_nat_power, metis of_nat_less_iff of_nat_numeral of_nat_power,
        metis of_nat_le_iff of_nat_numeral of_nat_power, metis of_nat_less_iff of_nat_numeral of_nat_power)
  have two: "(2::rat) ^ a = 2 * 2 ^ (a - 1)" "(2::rat) ^ b = 2 * 2 ^ (b - 1)"
    using bounds(5,6) by (simp_all flip: power_Suc)
  have up: "r < pow2 (int a - int b + 1)"
  proof -
    have "r < 2 ^ a / of_int q" unfolding r using pu q by (simp add: divide_strict_right_mono)
    also have "\<dots> \<le> 2 ^ a / 2 ^ (b - 1)" using ql q by (intro divide_left_mono) auto
    also have "\<dots> = pow2 (int a - int b + 1)" unfolding pow2_Suc pow2_diff using two(2) by simp
    finally show ?thesis .
  qed
  have low: "pow2 (int a - int b - 1) \<le> r"
  proof -
    have "2 * pow2 (int a - int b - 1) = pow2 (int a - int b)" using pow2_Suc [of "int a - int b - 1"] by simp
    then have "pow2 (int a - int b - 1) = 2 ^ (a - 1) / 2 ^ b" unfolding pow2_diff using two(1) by simp
    also have "\<dots> \<le> of_int p / 2 ^ b" using pl by (simp add: divide_right_mono)
    also have "\<dots> \<le> r" unfolding r using qu p q by (intro divide_left_mono) auto
    finally show ?thesis .
  qed
  have e: "ilog2 r = (if pow2 (int a - int b) \<le> r then int a - int b else int a - int b - 1)"
    by (simp add: ilog2_def pq a_def b_def)
  show "pow2 (ilog2 r) \<le> r" using low by (simp add: e)
  show "r < pow2 (ilog2 r + 1)" using up by (simp add: e)
qed

lemma ilog2_mono:
  assumes "0 < x" and "x \<le> y"
  shows "ilog2 x \<le> ilog2 y"
proof (rule ccontr)
  assume "\<not> ?thesis"
  then have "pow2 (ilog2 y + 1) \<le> pow2 (ilog2 x)" by (intro pow2_mono) linarith
  then show False using ilog2_bounds [of x] ilog2_bounds [of y] assms by linarith
qed

lemma ulp_pos [simp]: "0 < ulp r" "ulp r \<noteq> 0"
  by (simp_all add: ulp_def)

text \<open>A power of two above the spacing is a bound that rounding does not cross.\<close>

lemma pow2_over_ulp:
  assumes "ulp r = pow2 u" and "u \<le> e"
  shows "pow2 e / ulp r = of_int (2 ^ nat (e - u))"
  using assms pow2_add [of u "nat (e - u)"] by simp

lemma round_positive: "0 < r \<Longrightarrow> round_float64 r = of_int (rne (r / ulp r)) * ulp r"
  by (simp add: round_float64_def)

lemma round_upper:
  assumes "0 < r" and "r \<le> pow2 e" and "ulp r = pow2 u" and "u \<le> e"
  shows "round_float64 r \<le> pow2 e"
proof -
  have "rne (r / ulp r) \<le> rne (pow2 e / ulp r)" using assms(2) by (intro rne_mono divide_right_mono) (simp_all add: less_imp_le)
  also have "\<dots> = 2 ^ nat (e - u)" by (simp only: pow2_over_ulp [OF assms(3,4)] rne_of_int)
  finally have "of_int (rne (r / ulp r)) \<le> pow2 e / ulp r"
    unfolding pow2_over_ulp [OF assms(3,4)] by (simp only: of_int_le_iff)
  then show ?thesis unfolding round_positive [OF assms(1)] by (simp add: pos_le_divide_eq)
qed

lemma round_lower:
  assumes "0 < r" and "pow2 e \<le> r" and "ulp r = pow2 u" and "u \<le> e"
  shows "pow2 e \<le> round_float64 r"
proof -
  have "2 ^ nat (e - u) = rne (pow2 e / ulp r)" by (simp only: pow2_over_ulp [OF assms(3,4)] rne_of_int)
  also have "\<dots> \<le> rne (r / ulp r)" using assms(2) by (intro rne_mono divide_right_mono) (simp_all add: less_imp_le)
  finally have "pow2 e / ulp r \<le> of_int (rne (r / ulp r))"
    unfolding pow2_over_ulp [OF assms(3,4)] by (simp only: of_int_le_iff)
  then show ?thesis unfolding round_positive [OF assms(1)] by (simp add: pos_divide_le_eq)
qed

lemma round_mono_pos:
  assumes "0 < x" and "x \<le> y"
  shows "round_float64 x \<le> round_float64 y"
proof (cases "ulp x = ulp y")
  case True
  have "rne (x / ulp y) \<le> rne (y / ulp y)" using assms(2) by (intro rne_mono divide_right_mono) (simp_all add: less_imp_le)
  then show ?thesis using assms by (simp add: round_positive True)
next
  case False
  have y: "0 < y" using assms by linarith
  let ?m = "ilog2 y"
  have le: "ilog2 x \<le> ?m" by (rule ilog2_mono [OF assms])
  have lt: "ilog2 x < ?m"
  proof (rule ccontr)
    assume "\<not> ?thesis"
    then have "ilog2 x = ?m" using le by simp
    then show False using False by (simp add: ulp_def)
  qed
  have big: "- 1022 \<le> ?m"
  proof (rule ccontr)
    assume "\<not> ?thesis"
    then have "ulp x = pow2 (- 1074)" "ulp y = pow2 (- 1074)" using lt by (simp_all add: ulp_def max_def)
    then show False using False by simp
  qed
  have "x \<le> pow2 ?m" using ilog2_bounds(2) [OF assms(1)] pow2_mono [of "ilog2 x + 1" ?m] lt by linarith
  then have "round_float64 x \<le> pow2 ?m"
    by (rule round_upper [OF assms(1) _ ulp_def]) (use lt big in auto)
  moreover have "pow2 ?m \<le> round_float64 y"
    by (rule round_lower [OF y ilog2_bounds(1) [OF y] ulp_def]) (use big in auto)
  ultimately show ?thesis by linarith
qed

lemma round_0 [simp]: "round_float64 0 = 0"
  by (simp add: round_float64_def)

lemma rne_nonneg: "0 \<le> y \<Longrightarrow> 0 \<le> rne y"
  using rne_mono [of "of_int 0" y] rne_of_int [of 0] by simp

lemma round_nonneg: "0 \<le> r \<Longrightarrow> 0 \<le> round_float64 r"
  by (cases "r = 0") (auto simp: round_positive less_imp_le intro!: mult_nonneg_nonneg rne_nonneg divide_nonneg_nonneg)

lemma round_mono: "0 \<le> x \<Longrightarrow> x \<le> y \<Longrightarrow> round_float64 x \<le> round_float64 y"
  by (cases "x = 0") (auto simp: round_nonneg intro: round_mono_pos)

lemma round_pow2: "round_float64 (2 ^ k) = 2 ^ k"
proof -
  have p: "(2::rat) ^ k = pow2 (int k)" by (simp add: pow2_nat)
  have "ilog2 (pow2 (int k)) \<le> int k"
  proof (rule ccontr)
    assume "\<not> ?thesis"
    then have "pow2 (int k + 1) \<le> pow2 (ilog2 (pow2 (int k)))" by (intro pow2_mono) linarith
    then show False using ilog2_bounds(1) [of "pow2 (int k)"] pow2_Suc [of "int k"] pow2_pos(1) [of "int k"] by simp
  qed
  then have "max (ilog2 (pow2 (int k)) - 52) (- 1074) \<le> int k" by linarith
  then show ?thesis
    unfolding p using round_upper [of "pow2 (int k)" "int k", OF _ _ ulp_def] round_lower [of "pow2 (int k)" "int k", OF _ _ ulp_def]
    by (simp add: order_antisym)
qed

lemma truncate_mono: "0 \<le> x \<Longrightarrow> x \<le> y \<Longrightarrow> truncate x \<le> truncate y"
  by (simp add: truncate_def floor_mono)

end
