(* ===== verification/Go_Time.thy ===== *)
theory Go_Time
  imports Validation
begin

text \<open>
  Package \<^verbatim>\<open>time\<close> as the engine uses it.  An instant is the number of nanoseconds since the epoch in
  UTC, a duration a number of nanoseconds.  \<open>format_RFC3339Nano\<close> is \<^verbatim>\<open>Format(time.RFC3339Nano)\<close>, which
  drops the trailing zeros of the fraction, \<open>parse_RFC3339\<close> is \<^verbatim>\<open>time.Parse\<close> with either of the two layouts,
  which accept the same texts, and \<open>ParseDuration\<close> is \<^verbatim>\<open>time.ParseDuration\<close> up to the fraction of a unit,
  which Go computes with floating point numbers and the model exactly.
\<close>

subsection \<open>Calendar\<close>

text \<open>The proleptic Gregorian calendar, years starting in March.\<close>

definition days_from_civil :: "int \<Rightarrow> int \<Rightarrow> int \<Rightarrow> int" where
  "days_from_civil y m d =
     (let y' = (if m \<le> 2 then y - 1 else y);
          era = y' div 400;
          yoe = y' mod 400;
          doy = (153 * (if 2 < m then m - 3 else m + 9) + 2) div 5 + d - 1;
          doe = yoe * 365 + yoe div 4 - yoe div 100 + doy in
      era * 146097 + doe - 719468)"

definition civil_from_days :: "int \<Rightarrow> int \<times> int \<times> int" where
  "civil_from_days days =
     (let z = days + 719468;
          era = z div 146097;
          doe = z mod 146097;
          yoe = (doe - doe div 1460 + doe div 36524 - doe div 146096) div 365;
          doy = doe - (365 * yoe + yoe div 4 - yoe div 100);
          mp = (5 * doy + 2) div 153;
          d = doy - (153 * mp + 2) div 5 + 1;
          m = (if mp < 10 then mp + 3 else mp - 9) in
      (yoe + era * 400 + (if m \<le> 2 then 1 else 0), m, d))"

definition is_leap :: "nat \<Rightarrow> bool" where
  "is_leap y \<longleftrightarrow> 4 dvd y \<and> (\<not> 100 dvd y \<or> 400 dvd y)"

definition daysIn :: "nat \<Rightarrow> nat \<Rightarrow> nat" where
  "daysIn m y = (if m = 2 then (if is_leap y then 29 else 28) else if m \<in> {4, 6, 9, 11} then 30 else 31)"

abbreviation nanos_per_second :: int where "nanos_per_second \<equiv> 1000000000"

subsection \<open>Format(time.RFC3339Nano)\<close>

definition digit_char :: "nat \<Rightarrow> byte" where
  "digit_char d = char_of (48 + d)"

fun pad :: "nat \<Rightarrow> nat \<Rightarrow> bytes" where
  "pad 0 n = []"
| "pad (Suc w) n = pad w (n div 10) @ [digit_char (n mod 10)]"

definition trim_zeros :: "bytes \<Rightarrow> bytes" where
  "trim_zeros s = rev (dropWhile (\<lambda>c. c = CHR ''0'') (rev s))"

definition format_fraction :: "nat \<Rightarrow> bytes" where
  "format_fraction nanos = (if nanos = 0 then [] else CHR ''.'' # trim_zeros (pad 9 nanos))"

definition format_RFC3339Nano :: "int \<Rightarrow> bytes" where
  "format_RFC3339Nano t =
     (let seconds = t div nanos_per_second; nanos = nat (t mod nanos_per_second);
          days = seconds div 86400; s = nat (seconds mod 86400) in
      case civil_from_days days of (y, m, d) \<Rightarrow>
        pad 4 (nat y) @ ''-'' @ pad 2 (nat m) @ ''-'' @ pad 2 (nat d) @ ''T'' @ pad 2 (s div 3600) @ '':''
        @ pad 2 (s div 60 mod 60) @ '':'' @ pad 2 (s mod 60) @ format_fraction nanos @ ''Z'')"

subsection \<open>time.Parse\<close>

definition digit_value :: "byte \<Rightarrow> nat option" where
  "digit_value c = (if in_range 48 57 c then Some (of_char c - 48) else None)"

definition is_digit_char :: "byte \<Rightarrow> bool" where
  "is_digit_char c \<longleftrightarrow> in_range 48 57 c"

text \<open>Exactly \<open>w\<close> digits.\<close>

fun take_digits :: "nat \<Rightarrow> nat \<Rightarrow> bytes \<Rightarrow> (nat \<times> bytes) option" where
  "take_digits 0 acc s = Some (acc, s)"
| "take_digits (Suc w) acc s =
     (case s of [] \<Rightarrow> None
      | c # s \<Rightarrow> (case digit_value c of None \<Rightarrow> None | Some d \<Rightarrow> take_digits w (10 * acc + d) s))"

text \<open>\<^verbatim>\<open>getnum\<close> without the demand for two digits, which Go uses for the hour.\<close>

definition getnum :: "bytes \<Rightarrow> (nat \<times> bytes) option" where
  "getnum s =
     (case s of c # d # rest \<Rightarrow> if is_digit_char d then take_digits 2 0 s else take_digits 1 0 s
      | _ \<Rightarrow> take_digits 1 0 s)"

fun skip :: "byte \<Rightarrow> bytes \<Rightarrow> bytes option" where
  "skip c [] = None"
| "skip c (d # s) = (if c = d then Some s else None)"

text \<open>The digits after a period or comma; digits after the ninth are dropped.\<close>

definition parse_fraction :: "bytes \<Rightarrow> nat \<times> bytes" where
  "parse_fraction s =
     (case s of c # d # rest \<Rightarrow>
        if (c = CHR ''.'' \<or> c = CHR '','') \<and> is_digit_char d then
          let ds = takeWhile is_digit_char (d # rest); kept = take 9 ds in
          (fold (\<lambda>c acc. 10 * acc + (of_char c - 48)) kept 0 * 10 ^ (9 - length kept), dropWhile is_digit_char (d # rest))
        else (0, s)
      | _ \<Rightarrow> (0, s))"

text \<open>The zone, as an offset in seconds; it has to be the end of the text.\<close>

definition parse_zone :: "bytes \<Rightarrow> int option" where
  "parse_zone s =
     (if s = ''Z'' then Some 0
      else case s of [] \<Rightarrow> None
      | sign # rest \<Rightarrow>
         if sign \<noteq> CHR ''+'' \<and> sign \<noteq> CHR ''-'' then None
         else Option.bind (take_digits 2 0 rest) (\<lambda>(h, r1). Option.bind (skip (CHR '':'') r1) (\<lambda>r2.
              Option.bind (take_digits 2 0 r2) (\<lambda>(m, r3).
                if r3 \<noteq> [] \<or> 24 < h \<or> 60 < m then None
                else Some ((if sign = CHR ''-'' then -1 else 1) * int (h * 3600 + m * 60))))))"

definition parse_RFC3339 :: "bytes \<Rightarrow> int option" where
  "parse_RFC3339 s =
     Option.bind (take_digits 4 0 s) (\<lambda>(y, s). Option.bind (skip (CHR ''-'') s) (\<lambda>s.
     Option.bind (take_digits 2 0 s) (\<lambda>(mo, s). Option.bind (skip (CHR ''-'') s) (\<lambda>s.
     Option.bind (take_digits 2 0 s) (\<lambda>(d, s). Option.bind (skip (CHR ''T'') s) (\<lambda>s.
     Option.bind (getnum s) (\<lambda>(h, s). Option.bind (skip (CHR '':'') s) (\<lambda>s.
     Option.bind (take_digits 2 0 s) (\<lambda>(mi, s). Option.bind (skip (CHR '':'') s) (\<lambda>s.
     Option.bind (take_digits 2 0 s) (\<lambda>(se, s).
       case parse_fraction s of (nanos, s) \<Rightarrow>
       Option.bind (parse_zone s) (\<lambda>offset.
         if mo < 1 \<or> 12 < mo \<or> d < 1 \<or> daysIn mo y < d \<or> 24 \<le> h \<or> 60 \<le> mi \<or> 60 \<le> se then None
         else Some ((days_from_civil (int y) (int mo) (int d) * 86400 + int (h * 3600 + mi * 60 + se) - offset)
                    * nanos_per_second + int nanos)))))))))))))"

subsection \<open>time.ParseDuration\<close>

definition unitMap :: "(bytes \<times> nat) list" where
  "unitMap =
     [(''ns'', 1), (''us'', 1000), ([char_of (194::nat), char_of (181::nat), CHR ''s''], 1000),
      ([char_of (206::nat), char_of (188::nat), CHR ''s''], 1000), (''ms'', 1000000), (''s'', 1000000000),
      (''m'', 60000000000), (''h'', 3600000000000)]"

definition digits_value :: "bytes \<Rightarrow> nat" where
  "digits_value ds = fold (\<lambda>c acc. 10 * acc + (of_char c - 48)) ds 0"

definition is_unit_char :: "byte \<Rightarrow> bool" where
  "is_unit_char c \<longleftrightarrow> c \<noteq> CHR ''.'' \<and> \<not> is_digit_char c"

text \<open>One number with its unit, in nanoseconds, and the rest of the text.\<close>

definition duration_part :: "bytes \<Rightarrow> (nat \<times> bytes) option" where
  "duration_part s =
     (let pre = takeWhile is_digit_char s; s1 = dropWhile is_digit_char s;
          post = (case s1 of [] \<Rightarrow> [] | c # r \<Rightarrow> if c = CHR ''.'' then takeWhile is_digit_char r else []);
          s2 = (case s1 of [] \<Rightarrow> [] | c # r \<Rightarrow> if c = CHR ''.'' then dropWhile is_digit_char r else s1);
          u = takeWhile is_unit_char s2; rest = dropWhile is_unit_char s2 in
      if pre = [] \<and> post = [] then None
      else if u = [] then None
      else Option.bind (map_of unitMap u) (\<lambda>unit.
        let v = digits_value pre * unit in
        if 2 ^ 63 < v then None
        else let total = v + digits_value post * unit div 10 ^ length post in
          if 2 ^ 63 < total then None else Some (total, rest)))"

lemma length_dropWhile_le [simp]: "length (dropWhile P s) \<le> length s"
  by (induction s) auto

lemma duration_part_shorter:
  assumes "duration_part s = Some (v, r)"
  shows "length r < length s"
proof -
  obtain s1 s2 where s1: "s1 = dropWhile is_digit_char s"
    and s2: "s2 = (case s1 of [] \<Rightarrow> [] | c # r \<Rightarrow> if c = CHR ''.'' then dropWhile is_digit_char r else s1)"
    by simp
  have u: "takeWhile is_unit_char s2 \<noteq> []" and r: "r = dropWhile is_unit_char s2"
    using assms unfolding duration_part_def s1 s2 Let_def by (auto simp: bind_eq_Some_conv split: if_splits)
  have "length (takeWhile is_unit_char s2) + length r = length s2"
    unfolding r by (metis length_append takeWhile_dropWhile_id)
  moreover have "length s2 \<le> length s1"
    unfolding s2 by (auto split: list.splits intro: le_SucI)
  moreover have "length s1 \<le> length s" unfolding s1 by simp
  ultimately show ?thesis using u by (cases "takeWhile is_unit_char s2") auto
qed

function duration_parts :: "nat \<Rightarrow> bytes \<Rightarrow> nat option" where
  "duration_parts d s =
     (if s = [] then Some d
      else (case duration_part s of None \<Rightarrow> None
        | Some (v, rest) \<Rightarrow> if 2 ^ 63 < d + v then None else duration_parts (d + v) rest))"
  by pat_completeness auto
termination
  by (relation "measure (\<lambda>(d, s). length s)") (auto dest: duration_part_shorter)

declare duration_parts.simps [simp del]

definition ParseDuration :: "bytes \<Rightarrow> int option" where
  "ParseDuration s =
     (let neg = (case s of [] \<Rightarrow> False | c # _ \<Rightarrow> c = CHR ''-'');
          body = (case s of [] \<Rightarrow> [] | c # r \<Rightarrow> if c = CHR ''-'' \<or> c = CHR ''+'' then r else s) in
      if body = ''0'' then Some 0
      else if body = [] then None
      else Option.bind (duration_parts 0 body) (\<lambda>d.
        if neg then Some (- int d) else if 2 ^ 63 - 1 < d then None else Some (int d)))"

end
