(* ===== verification/Engine_Config.thy ===== *)
theory Engine_Config
  imports Go_Float Go_Time
begin

text \<open>
  The engine's configuration, \<^verbatim>\<open>internal/config/config.go\<close>: overrides on top of defaults, addressed
  by paths such as \<open>cache.capacity.maxBytes\<close> or \<open>a[0].b\<close>, with the validation of known paths and
  the file the overrides are kept in.

  Go's \<^verbatim>\<open>any\<close> is a tree; a map is a partial function, so that equal maps are equal values.  A number
  is an integer of Go, a floating point number or the text of a \<^verbatim>\<open>json.Number\<close>, as they come from
  the caller, from the file and from a request.  Every step of writing the file may fail.
\<close>

subsection \<open>Values\<close>

datatype goAny =
    ANil | ABool bool | AString bytes | AInt int | AFloat rat | ANumber bytes
  | AList "goAny list" | AMap "bytes \<Rightarrow> goAny option"

type_synonym anyMap = "bytes \<Rightarrow> goAny option"

datatype configError = ErrInvalidPath | ErrPathNotFound | ErrInvalidValue | ErrConfigRoot | ErrWrite bytes

definition obj :: "(bytes \<times> goAny) list \<Rightarrow> goAny" where
  "obj members = AMap (map_of members)"

definition DefaultConfig :: anyMap where
  "DefaultConfig = map_of
     [(''log'', obj [(''level'', AString ''debug'')]),
      (''cache'', obj [(''capacity'', obj [(''maxBytes'', AInt 0), (''reserveBytes'', ANil),
         (''highWatermark'', AFloat (round_float64 (9 / 10))), (''lowWatermark'', AFloat (round_float64 (8 / 10))),
         (''minStateAge'', AString ''10m'')])]),
      (''container'', obj [(''runtime'', AString ''auto'')]),
      (''snapshot'', obj [(''backend'', AString ''auto'')]),
      (''orchestrator'', obj [(''jobs'', obj [(''maxIdentical'', AInt 2)])])]"

definition schema_object :: "(bytes \<times> goAny) list \<Rightarrow> goAny" where
  "schema_object properties = obj [(''type'', AString ''object''), (''properties'', obj properties), (''additionalProperties'', ABool True)]"

definition schema_value :: "bytes \<Rightarrow> (bytes \<times> goAny) list \<Rightarrow> goAny" where
  "schema_value kind more_members = obj ((''type'', AList [AString kind, AString ''null'']) # more_members)"

definition schema_enum :: "bytes list \<Rightarrow> goAny" where
  "schema_enum names = schema_value ''string'' [(''enum'', AList (map AString names @ [ANil]))]"

definition DefaultSchema :: goAny where
  "DefaultSchema = obj
     [(''$schema'', AString ''https://json-schema.org/draft/2020-12/schema''), (''type'', AString ''object''),
      (''properties'', obj
        [(''log'', schema_object [(''level'', schema_enum [''debug'', ''info'', ''warn'', ''error''])]),
         (''cache'', obj [(''type'', AString ''object''), (''properties'', obj
           [(''capacity'', schema_object
             [(''maxBytes'', schema_value ''integer'' [(''minimum'', AInt 0)]),
              (''reserveBytes'', schema_value ''integer'' [(''minimum'', AInt 0)]),
              (''highWatermark'', schema_value ''number'' [(''minimum'', AInt 0), (''maximum'', AInt 1)]),
              (''lowWatermark'', schema_value ''number'' [(''minimum'', AInt 0), (''maximum'', AInt 1)]),
              (''minStateAge'', schema_value ''string'' [])])])]),
         (''container'', schema_object [(''runtime'', schema_enum [''auto'', ''docker'', ''podman''])]),
         (''snapshot'', schema_object [(''backend'', schema_enum [''auto'', ''overlay'', ''btrfs'', ''copy''])]),
         (''orchestrator'', schema_object
           [(''jobs'', schema_object [(''maxIdentical'', schema_value ''integer'' [(''minimum'', AInt 0)])])])]),
      (''additionalProperties'', ABool True)]"

subsection \<open>Paths\<close>

datatype pathSegment = Key bytes | Index nat

fun is_index :: "pathSegment \<Rightarrow> bool" where
  "is_index (Index _) = True"
| "is_index (Key _) = False"

text \<open>The scanner: the segments found so far, the key being read, and the text left.\<close>

definition flush_key :: "pathSegment list \<Rightarrow> bytes \<Rightarrow> pathSegment list" where
  "flush_key segments key = (if key = [] then segments else segments @ [Key key])"

function parse_segments :: "pathSegment list \<Rightarrow> bytes \<Rightarrow> bytes \<Rightarrow> configError + pathSegment list" where
  "parse_segments segments key [] = Inr (flush_key segments key)"
| "parse_segments segments key (c # rest) =
     (if c = CHR ''.'' then
        if key = [] \<and> (segments = [] \<or> \<not> is_index (last segments)) then Inl ErrInvalidPath
        else parse_segments (flush_key segments key) [] rest
      else if c = CHR ''['' then
        let ds = takeWhile decimal_digit rest; after = dropWhile decimal_digit rest in
        if ds = [] \<or> after = [] \<or> hd after \<noteq> CHR '']'' \<or> \<not> int64_ok (int (digits_number ds)) then Inl ErrInvalidPath
        else parse_segments (flush_key segments key @ [Index (digits_number ds)]) [] (tl after)
      else parse_segments segments (key @ [c]) rest)"
  by pat_completeness auto
termination
proof (relation "measure (\<lambda>(segments, key, s). length s)", goal_cases)
  case (3 segments key c rest ds after)
  have "length after \<le> length rest" unfolding 3(4) by (rule length_dropWhile_le)
  then show ?case by (cases after) auto
qed auto

declare parse_segments.simps [simp del]

definition parsePath :: "bytes \<Rightarrow> configError + pathSegment list" where
  "parsePath path = (if TrimSpace path = [] then Inr [] else parse_segments [] [] (TrimSpace path))"

fun getPathValue :: "goAny \<Rightarrow> pathSegment list \<Rightarrow> goAny option" where
  "getPathValue current [] = Some current"
| "getPathValue current (Index i # segments) =
     (case current of AList xs \<Rightarrow> if i < length xs then getPathValue (xs ! i) segments else None | _ \<Rightarrow> None)"
| "getPathValue current (Key k # segments) =
     (case current of AMap m \<Rightarrow> (case m k of None \<Rightarrow> None | Some v \<Rightarrow> getPathValue v segments) | _ \<Rightarrow> None)"

text \<open>Containers of the wrong kind are replaced by empty ones and lists padded with \<^verbatim>\<open>nil\<close>.\<close>

definition as_list :: "goAny \<Rightarrow> goAny list" where
  "as_list v = (case v of AList xs \<Rightarrow> xs | _ \<Rightarrow> [])"

definition as_map :: "goAny \<Rightarrow> anyMap" where
  "as_map v = (case v of AMap m \<Rightarrow> m | _ \<Rightarrow> Map.empty)"

definition pad_list :: "nat \<Rightarrow> goAny list \<Rightarrow> goAny list" where
  "pad_list i xs = xs @ replicate (Suc i - length xs) ANil"

definition or_nil :: "goAny option \<Rightarrow> goAny" where
  "or_nil v = (case v of None \<Rightarrow> ANil | Some x \<Rightarrow> x)"

fun setValue :: "goAny \<Rightarrow> pathSegment list \<Rightarrow> goAny \<Rightarrow> goAny" where
  "setValue current [] v = v"
| "setValue current (Index i # segments) v =
     (let xs = pad_list i (as_list current) in AList (xs[i := setValue (xs ! i) segments v]))"
| "setValue current (Key k # segments) v =
     (let m = as_map current in AMap (m(k \<mapsto> setValue (or_nil (m k)) segments v)))"

definition setPathValue :: "anyMap \<Rightarrow> pathSegment list \<Rightarrow> goAny \<Rightarrow> configError + anyMap" where
  "setPathValue cfg segments v =
     (case setValue (AMap cfg) segments v of AMap m \<Rightarrow> Inr m | _ \<Rightarrow> Inl ErrConfigRoot)"

fun removeValue :: "goAny \<Rightarrow> pathSegment list \<Rightarrow> goAny option" where
  "removeValue current [] = None"
| "removeValue current (Index i # segments) =
     (case current of AList xs \<Rightarrow>
        if length xs \<le> i then None
        else if segments = [] then Some (AList (take i xs @ drop (Suc i) xs))
        else map_option (\<lambda>v. AList (xs[i := v])) (removeValue (xs ! i) segments)
      | _ \<Rightarrow> None)"
| "removeValue current (Key k # segments) =
     (case current of AMap m \<Rightarrow>
        if segments = [] then (if m k = None then None else Some (AMap (m(k := None))))
        else map_option (\<lambda>v. AMap (m(k \<mapsto> v))) (removeValue (or_nil (m k)) segments)
      | _ \<Rightarrow> None)"

definition removePathValue :: "anyMap \<Rightarrow> pathSegment list \<Rightarrow> anyMap option" where
  "removePathValue cfg segments = map_option as_map (removeValue (AMap cfg) segments)"

subsection \<open>Merging\<close>

text \<open>\<open>merge_value v base\<close> is what a key of the merged map holds when the override is \<open>v\<close>.\<close>

primrec merge_value :: "goAny \<Rightarrow> goAny option \<Rightarrow> goAny" where
  "merge_value ANil = (\<lambda>base. ANil)"
| "merge_value (ABool b) = (\<lambda>base. ABool b)"
| "merge_value (AString s) = (\<lambda>base. AString s)"
| "merge_value (AInt n) = (\<lambda>base. AInt n)"
| "merge_value (AFloat f) = (\<lambda>base. AFloat f)"
| "merge_value (ANumber s) = (\<lambda>base. ANumber s)"
| "merge_value (AList xs) = (\<lambda>base. AList xs)"
| "merge_value (AMap m) = (\<lambda>base. case base of
      Some (AMap bm) \<Rightarrow> AMap (\<lambda>k. case (map_option merge_value \<circ> m) k of None \<Rightarrow> bm k | Some f \<Rightarrow> Some (f (bm k)))
    | _ \<Rightarrow> AMap m)"

definition mergeMaps :: "anyMap \<Rightarrow> anyMap \<Rightarrow> anyMap" where
  "mergeMaps base overrides = (\<lambda>k. case overrides k of None \<Rightarrow> base k | Some v \<Rightarrow> Some (merge_value v (base k)))"

subsection \<open>Validation\<close>

definition asInt :: "goAny \<Rightarrow> int option" where
  "asInt v =
     (case v of AInt n \<Rightarrow> Some n
      | AFloat f \<Rightarrow> if of_int (truncate f) = f then Some (int64_of_float f) else None
      | ANumber s \<Rightarrow> if \<exists>c \<in> set s. c \<in> set ''.eE'' then None else ParseInt64 s
      | _ \<Rightarrow> None)"

definition asFloat :: "goAny \<Rightarrow> rat option" where
  "asFloat v =
     (case v of AInt n \<Rightarrow> Some (float_of_int n) | AFloat f \<Rightarrow> Some f | ANumber s \<Rightarrow> ParseFloat64 s | _ \<Rightarrow> None)"

fun is_nil :: "goAny \<Rightarrow> bool" where
  "is_nil ANil = True"
| "is_nil _ = False"

definition check_value :: "bool \<Rightarrow> configError + unit" where
  "check_value b = (if b then Inr () else Inl ErrInvalidValue)"

definition one_of :: "goAny \<Rightarrow> bytes list \<Rightarrow> bool" where
  "one_of v names = (case v of AString s \<Rightarrow> s \<in> set names | _ \<Rightarrow> False)"

definition validateValue :: "bytes \<Rightarrow> goAny \<Rightarrow> configError + unit" where
  "validateValue path v =
     (if path \<in> {''orchestrator.jobs.maxIdentical'', ''cache.capacity.maxBytes'', ''cache.capacity.reserveBytes''}
      then check_value (is_nil v \<or> (\<exists>n \<in> set_option (asInt v). 0 \<le> n))
      else if path \<in> {''cache.capacity.highWatermark'', ''cache.capacity.lowWatermark''}
      then check_value (is_nil v \<or> (\<exists>f \<in> set_option (asFloat v). 0 < f \<and> f \<le> 1))
      else if path = ''cache.capacity.minStateAge''
      then check_value (is_nil v \<or> (case v of AString s \<Rightarrow> ParseDuration (TrimSpace s) \<noteq> None | _ \<Rightarrow> False))
      else if path = ''snapshot.backend''
      then check_value (is_nil v \<or> one_of v [''auto'', ''overlay'', ''btrfs'', ''copy''])
      else if path = ''container.runtime''
      then check_value (is_nil v \<or> one_of v [''auto'', ''docker'', ''podman''])
      else if path = ''log.level''
      then check_value (is_nil v \<or> (case v of AString s \<Rightarrow> ToLower (TrimSpace s) \<in> set [''debug'', ''info'', ''warn'', ''error''] | _ \<Rightarrow> False))
      else Inr ())"

definition capacity_path :: "bytes \<Rightarrow> pathSegment list" where
  "capacity_path name = [Key ''cache'', Key ''capacity'', Key name]"

definition watermark :: "goAny \<Rightarrow> rat option" where
  "watermark v = Option.bind (asFloat v) (\<lambda>f. if f \<le> 0 \<or> 1 < f then None else Some f)"

definition validateCacheConstraintsForPath :: "bytes \<Rightarrow> anyMap \<Rightarrow> anyMap \<Rightarrow> configError + unit" where
  "validateCacheConstraintsForPath path defaults overrides =
     (if path \<noteq> ''cache.capacity.lowWatermark'' \<and> path \<noteq> ''cache.capacity.highWatermark'' then Inr ()
      else
        let effective = AMap (mergeMaps defaults overrides);
            low = or_nil (getPathValue effective (capacity_path ''lowWatermark''));
            high = or_nil (getPathValue effective (capacity_path ''highWatermark'')) in
        case (if is_nil high then Some (round_float64 (9 / 10)) else watermark high) of
          None \<Rightarrow> Inl ErrInvalidValue
        | Some h \<Rightarrow>
            if is_nil low then Inr ()
            else (case watermark low of None \<Rightarrow> Inl ErrInvalidValue | Some l \<Rightarrow> check_value (l < h)))"

subsection \<open>The file\<close>

text \<open>
  \<^verbatim>\<open>json.MarshalIndent\<close> followed by \<^verbatim>\<open>json.Unmarshal\<close>: every number comes back as a floating point
  number.  \<open>reload\<close> is what reading the written text gives.
\<close>

primrec reload :: "goAny \<Rightarrow> goAny" where
  "reload ANil = ANil"
| "reload (ABool b) = ABool b"
| "reload (AString s) = AString s"
| "reload (AInt n) = AFloat (float_of_int n)"
| "reload (AFloat f) = AFloat f"
| "reload (ANumber s) = (case ParseFloat64 s of None \<Rightarrow> ANil | Some f \<Rightarrow> AFloat f)"
| "reload (AList xs) = AList (map reload xs)"
| "reload (AMap m) = AMap (map_option reload \<circ> m)"

text \<open>
  The steps of \<^verbatim>\<open>atomicWriteFile\<close>: make the directory, create, write, sync and close the temporary
  file, rename it, open the directory.  \<open>fault\<close> says which of them fail; only the last one comes
  after the rename.
\<close>

definition atomicWriteFile :: "(nat \<Rightarrow> bytes option) \<Rightarrow> anyMap \<Rightarrow> anyMap option \<Rightarrow> (configError + unit) \<times> anyMap option" where
  "atomicWriteFile fault data file =
     (case find (\<lambda>k. fault k \<noteq> None) [0..<6] of
        Some k \<Rightarrow> (Inl (ErrWrite (the (fault k))), file)
      | None \<Rightarrow> ((case fault 6 of None \<Rightarrow> Inr () | Some e \<Rightarrow> Inl (ErrWrite e)), Some data))"

subsection \<open>The manager\<close>

record ConfigManager =
  cm_defaults :: anyMap
  cm_overrides :: anyMap
  cm_schema :: goAny
  cm_file :: "anyMap option"

definition loadOverrides :: "anyMap option \<Rightarrow> anyMap" where
  "loadOverrides file = (case file of None \<Rightarrow> Map.empty | Some m \<Rightarrow> map_option reload \<circ> m)"

definition NewConfigManager :: "anyMap option \<Rightarrow> goAny option \<Rightarrow> anyMap option \<Rightarrow> ConfigManager" where
  "NewConfigManager defaults schema file =
     \<lparr>cm_defaults = (case defaults of None \<Rightarrow> DefaultConfig | Some d \<Rightarrow> d), cm_overrides = loadOverrides file,
      cm_schema = (case schema of None \<Rightarrow> DefaultSchema | Some s \<Rightarrow> s), cm_file = file\<rparr>"

definition config_root :: "ConfigManager \<Rightarrow> bool \<Rightarrow> goAny" where
  "config_root m effective = AMap (if effective then mergeMaps (cm_defaults m) (cm_overrides m) else cm_overrides m)"

definition config_Get :: "ConfigManager \<Rightarrow> bytes \<Rightarrow> bool \<Rightarrow> configError + goAny" where
  "config_Get m path effective =
     (case parsePath path of Inl e \<Rightarrow> Inl ErrInvalidPath
      | Inr segments \<Rightarrow>
         (case getPathValue (config_root m effective) segments of None \<Rightarrow> Inl ErrPathNotFound | Some v \<Rightarrow> Inr v))"

definition write_overrides :: "(nat \<Rightarrow> bytes option) \<Rightarrow> anyMap \<Rightarrow> 'a \<Rightarrow> ConfigManager \<Rightarrow> (configError + 'a) \<times> ConfigManager" where
  "write_overrides fault updated x m =
     (case atomicWriteFile fault updated (cm_file m) of
        (Inl e, file) \<Rightarrow> (Inl e, m\<lparr>cm_file := file\<rparr>)
      | (Inr _, file) \<Rightarrow> (Inr x, m\<lparr>cm_file := file, cm_overrides := updated\<rparr>))"

definition config_Set :: "(nat \<Rightarrow> bytes option) \<Rightarrow> bytes \<Rightarrow> goAny \<Rightarrow> ConfigManager \<Rightarrow> (configError + goAny) \<times> ConfigManager" where
  "config_Set fault path v m =
     (case parsePath path of Inl e \<Rightarrow> (Inl ErrInvalidPath, m)
      | Inr segments \<Rightarrow>
         if segments = [] then (Inl ErrInvalidPath, m)
         else
           case res_bind (validateValue path v) (\<lambda>_. res_bind (setPathValue (cm_overrides m) segments v) (\<lambda>updated.
                  res_bind (validateCacheConstraintsForPath path (cm_defaults m) updated) (\<lambda>_. Inr updated))) of
             Inl e \<Rightarrow> (Inl e, m)
           | Inr updated \<Rightarrow> write_overrides fault updated v m)"

definition config_Remove :: "(nat \<Rightarrow> bytes option) \<Rightarrow> bytes \<Rightarrow> ConfigManager \<Rightarrow> (configError + goAny) \<times> ConfigManager" where
  "config_Remove fault path m =
     (case parsePath path of Inl e \<Rightarrow> (Inl ErrInvalidPath, m)
      | Inr segments \<Rightarrow>
         if segments = [] then (Inl ErrInvalidPath, m)
         else case removePathValue (cm_overrides m) segments of
             None \<Rightarrow> (Inl ErrPathNotFound, m)
           | Some updated \<Rightarrow>
              write_overrides fault updated
                (or_nil (getPathValue (AMap (mergeMaps (cm_defaults m) updated)) segments)) m)"

definition config_Schema :: "ConfigManager \<Rightarrow> goAny" where
  "config_Schema m = cm_schema m"

end
