(* ===== verification/Prepare_World.thy ===== *)
theory Prepare_World
  imports Prepare_Queue State_Layout Engine_Config Runtime_Operations Managed_Service
begin

text \<open>
  The world of the preparation service: the world of the engine's other services with its fault
  schedule, the queue, the file system, the configuration, the lock file of the evictor and the
  clock.

  The clock never goes back: \<open>pw_tick\<close> says how much time passes before each reading.  \<open>pw_statfs\<close> is
  what \<^verbatim>\<open>statfs\<close> reports (blocks, available blocks, block size) for a file system with the given
  contents.
\<close>

subsection \<open>The world\<close>

datatype lockFile = NoLock | LockFile int | LockDir

record CacheEvictionSummary =
  ce_CompletedAt :: bytes
  ce_Trigger :: bytes
  ce_EvictedCount :: nat
  ce_FreedBytes :: int
  ce_BlockedCount :: nat
  ce_ReclaimableBytes :: int
  ce_UsageBytesBefore :: int
  ce_UsageBytesAfter :: int
  ce_FreeBytesBefore :: int
  ce_FreeBytesAfter :: int

record prepareWorld =
  pw_engine :: world
  pw_queue :: queueTables
  pw_managed :: bool
  pw_disk :: node
  pw_statfs :: "node \<Rightarrow> u64 \<times> u64 \<times> u64"
  pw_evictLock :: lockFile
  pw_config :: "ConfigManager option"
  pw_lastEviction :: "CacheEvictionSummary option"
  pw_now :: int
  pw_tick :: "nat \<Rightarrow> nat"
  pw_ticks :: nat
  pw_running :: "bytes list"

subsection \<open>Operations\<close>

type_synonym 'a pop = "(prepareWorld, engineError, 'a) operation"

type_synonym 'a rop = "(prepareWorld, ErrorResponse, 'a) operation"

definition on_engine :: "'a op \<Rightarrow> 'a pop" where
  "on_engine m w = (case m (pw_engine w) of (r, e) \<Rightarrow> (r, w\<lparr>pw_engine := e\<rparr>))"

definition p_outgoing :: "'a pop \<Rightarrow> 'a pop" where
  "p_outgoing f w =
     (let w' = w\<lparr>pw_engine := (pw_engine w)\<lparr>w_calls := Suc (w_calls (pw_engine w))\<rparr>\<rparr> in
      case w_fault (pw_engine w) (w_calls (pw_engine w)) of Some e \<Rightarrow> (Inl e, w') | None \<Rightarrow> f w')"

definition p_asks :: "(prepareWorld \<Rightarrow> 'a) \<Rightarrow> 'a pop" where
  "p_asks f = p_outgoing (\<lambda>w. (Inr (f w), w))"

definition p_result :: "(prepareWorld \<Rightarrow> engineError + 'a) \<Rightarrow> 'a pop" where
  "p_result f = p_outgoing (\<lambda>w. (f w, w))"

definition p_modify :: "(prepareWorld \<Rightarrow> prepareWorld) \<Rightarrow> unit pop" where
  "p_modify f = p_outgoing (\<lambda>w. (Inr (), f w))"

text \<open>State of the service itself is read and written without a call that could fail.\<close>

definition get_world :: "(prepareWorld \<Rightarrow> 'a) \<Rightarrow> (prepareWorld, 'e, 'a) operation" where
  "get_world f w = (Inr (f w), w)"

definition set_world :: "(prepareWorld \<Rightarrow> prepareWorld) \<Rightarrow> (prepareWorld, 'e, unit) operation" where
  "set_world f w = (Inr (), f w)"

definition read_clock :: "(prepareWorld, 'e, int) operation" where
  "read_clock w =
     (let t = pw_now w + int (pw_tick w (pw_ticks w)) in (Inr t, w\<lparr>pw_now := t, pw_ticks := Suc (pw_ticks w)\<rparr>))"

definition sleep :: "nat \<Rightarrow> (prepareWorld, 'e, unit) operation" where
  "sleep d w = (Inr (), w\<lparr>pw_now := pw_now w + int d\<rparr>)"

definition p_check_ctx :: "unit pop" where
  "p_check_ctx = on_engine check_ctx"

definition p_read :: "(database \<Rightarrow> 'a) \<Rightarrow> 'a pop" where
  "p_read f = on_engine (db_read f)"

definition p_write :: "(database \<Rightarrow> database option) \<Rightarrow> unit pop" where
  "p_write f = on_engine (db_write f)"

definition queue_read :: "(queueTables \<Rightarrow> 'a) \<Rightarrow> 'a pop" where
  "queue_read f = p_asks (\<lambda>w. f (pw_queue w))"

definition queue_write :: "(queueTables \<Rightarrow> queueTables option) \<Rightarrow> unit pop" where
  "queue_write f = p_outgoing (\<lambda>w. case f (pw_queue w) of None \<Rightarrow> (Inl ErrConstraint, w)
     | Some q \<Rightarrow> (Inr (), w\<lparr>pw_queue := q\<rparr>))"

text \<open>An error that becomes the answer to a request, and one that is ignored.\<close>

definition or_respond :: "(engineError \<Rightarrow> ErrorResponse) \<Rightarrow> 'a pop \<Rightarrow> 'a rop" where
  "or_respond h m = op_map_error h m"

definition ignoring :: "(prepareWorld, 'e, 'a) operation \<Rightarrow> (prepareWorld, 'f, unit) operation" where
  "ignoring m = op_try m (\<lambda>_. op_return ())"

subsection \<open>The statements of the queue (sqlite_store.go)\<close>

definition CreateJob :: "JobRecord \<Rightarrow> unit pop" where
  "CreateJob job =
     p_outgoing (\<lambda>w.
       if pw_managed w \<and> \<not> managed_job_insert (pw_engine w) job then (Inl ErrConstraint, w)
       else case q_CreateJob job (pw_queue w) of None \<Rightarrow> (Inl ErrConstraint, w) | Some q \<Rightarrow> (Inr (), w\<lparr>pw_queue := q\<rparr>))"

definition UpdateJob :: "bytes \<Rightarrow> JobUpdate \<Rightarrow> unit pop" where
  "UpdateJob jobID u =
     (if jobID = [] then op_fail (ErrStore ''job id is required'')
      else if u = no_job_update then op_return ()
      else queue_write (q_UpdateJob jobID u))"

definition GetJob :: "bytes \<Rightarrow> JobRecord option pop" where
  "GetJob jobID = queue_read (q_GetJob jobID)"

definition ListJobs :: "bytes \<Rightarrow> JobRecord list pop" where
  "ListJobs jobID = queue_read (q_ListJobs jobID)"

definition ListJobsByStatus :: "bytes list \<Rightarrow> JobRecord list pop" where
  "ListJobsByStatus statuses =
     (if statuses = [] then op_return [] else queue_read (q_ListJobsByStatus statuses))"

definition ListJobsBySignature :: "bytes \<Rightarrow> bytes list \<Rightarrow> JobRecord list pop" where
  "ListJobsBySignature signature statuses =
     (if TrimSpace signature = [] then op_return [] else queue_read (q_ListJobsBySignature signature statuses))"

definition DeleteJob :: "bytes \<Rightarrow> unit pop" where
  "DeleteJob jobID = queue_write (\<lambda>q. Some (q_DeleteJob jobID q))"

text \<open>The statements of \<^verbatim>\<open>ReplaceTasks\<close> are not one transaction.\<close>

fun insert_tasks :: "TaskRecord list \<Rightarrow> unit pop" where
  "insert_tasks [] = op_return ()"
| "insert_tasks (t # ts) = op_bind (queue_write (q_InsertTask t)) (\<lambda>_. insert_tasks ts)"

definition ReplaceTasks :: "bytes \<Rightarrow> TaskRecord list \<Rightarrow> unit pop" where
  "ReplaceTasks jobID tasks =
     op_bind (queue_write (\<lambda>q. Some (q_DeleteTasks jobID q))) (\<lambda>_. insert_tasks tasks)"

definition queue_ListTasks :: "bytes \<Rightarrow> TaskRecord list pop" where
  "queue_ListTasks jobID = queue_read (q_ListTasks jobID)"

definition UpdateTask :: "bytes \<Rightarrow> bytes \<Rightarrow> TaskUpdate \<Rightarrow> unit pop" where
  "UpdateTask jobID taskID u =
     (if jobID = [] \<or> taskID = [] then op_fail (ErrStore ''job_id and task_id are required'')
      else if u = no_task_update then op_return ()
      else queue_write (q_UpdateTask jobID taskID u))"

definition AppendEvent :: "EventRecord \<Rightarrow> nat pop" where
  "AppendEvent e = op_bind (queue_write (q_AppendEvent e)) (\<lambda>_. get_world (\<lambda>w. q_seq (pw_queue w)))"

definition ListEventsSince :: "bytes \<Rightarrow> int \<Rightarrow> EventRecord list pop" where
  "ListEventsSince jobID offset = queue_read (q_ListEventsSince jobID offset)"

definition CountEvents :: "bytes \<Rightarrow> nat pop" where
  "CountEvents jobID = queue_read (q_CountEvents jobID)"

subsection \<open>Properties an operation keeps\<close>

text \<open>In \<open>prepareWorld\<close> neither the calls made nor the time passed are part of what is related.\<close>

definition same_service :: "prepareWorld \<Rightarrow> prepareWorld \<Rightarrow> bool" where
  "same_service w w' \<longleftrightarrow> (\<exists>n t k. w' = w\<lparr>pw_engine := (pw_engine w)\<lparr>w_calls := n\<rparr>, pw_now := t, pw_ticks := k\<rparr> \<and> pw_now w \<le> t)"

lemma same_serviceI:
  "w' = w\<lparr>pw_engine := (pw_engine w)\<lparr>w_calls := n\<rparr>, pw_now := t, pw_ticks := k\<rparr> \<Longrightarrow> pw_now w \<le> t \<Longrightarrow> same_service w w'"
  unfolding same_service_def by blast

lemma same_service_refl [simp]: "same_service w w"
  by (rule same_serviceI [where n = "w_calls (pw_engine w)" and t = "pw_now w" and k = "pw_ticks w"]) simp_all

lemma same_service_trans:
  assumes "same_service u v" and "same_service v w"
  shows "same_service u w"
proof -
  obtain n t k where v: "v = u\<lparr>pw_engine := (pw_engine u)\<lparr>w_calls := n\<rparr>, pw_now := t, pw_ticks := k\<rparr>" "pw_now u \<le> t"
    using assms(1) by (auto simp: same_service_def)
  obtain m s j where w: "w = v\<lparr>pw_engine := (pw_engine v)\<lparr>w_calls := m\<rparr>, pw_now := s, pw_ticks := j\<rparr>" "pw_now v \<le> s"
    using assms(2) by (auto simp: same_service_def)
  show ?thesis by (rule same_serviceI [where n = m and t = s and k = j]) (use v w in simp_all)
qed

lemma same_service_calls: "same_service w (w\<lparr>pw_engine := (pw_engine w)\<lparr>w_calls := n\<rparr>\<rparr>)"
  by (rule same_serviceI [where n = n and t = "pw_now w" and k = "pw_ticks w"]) simp_all

locale service_relation = kept_relation rel for rel :: "prepareWorld \<Rightarrow> prepareWorld \<Rightarrow> bool" +
  assumes rel_same: "same_service w w' \<Longrightarrow> rel w w'"
begin

lemma within_p_outgoing:
  assumes "\<And>w. rel w (snd (f w))"
  shows "keeps (p_outgoing f)"
  unfolding keeps_def p_outgoing_def Let_def
  by (auto split: option.splits intro: rel_same same_service_calls rel_trans [OF rel_same [OF same_service_calls] assms])

lemma within_service_reads [simp]:
  "keeps (p_asks f)" "keeps (p_result g)" "keeps (get_world h)" "keeps (queue_read k)"
proof -
  have r: "rel w w" for w by (rule rel_refl)
  show "keeps (p_asks f)" "keeps (p_result g)"
    unfolding p_asks_def p_result_def by (rule within_p_outgoing, simp add: r)+
  show "keeps (get_world h)" by (simp add: keeps_def get_world_def r)
  show "keeps (queue_read k)" unfolding queue_read_def p_asks_def by (rule within_p_outgoing) (simp add: r)
qed

lemma within_clock [simp]: "keeps read_clock" "keeps (sleep d)"
proof -
  have "same_service w (snd (read_clock w))" "same_service w (snd (sleep d w))" for w
    by (rule same_serviceI [where n = "w_calls (pw_engine w)" and k = "Suc (pw_ticks w)"], auto simp: read_clock_def Let_def)
      (rule same_serviceI [where n = "w_calls (pw_engine w)" and k = "pw_ticks w"], auto simp: sleep_def)
  then show "keeps read_clock" "keeps (sleep d)" unfolding keeps_def by (auto intro: rel_same)
qed

lemma within_on_engine:
  assumes "ro.keeps m"
  shows "keeps (on_engine m)"
proof -
  have "same_service w (snd (on_engine m w))" for w
  proof -
    obtain r e where m: "m (pw_engine w) = (r, e)" by (cases "m (pw_engine w)")
    then have "same_effects (pw_engine w) e" using assms by (metis ro.withinD)
    then obtain n where "e = (pw_engine w)\<lparr>w_calls := n\<rparr>" by (auto simp: same_effects_iff)
    then show ?thesis by (simp add: on_engine_def m same_service_calls)
  qed
  then show ?thesis by (simp add: keeps_def rel_same)
qed

lemma within_p_reads [simp]: "keeps p_check_ctx" "keeps (p_read f)"
  unfolding p_check_ctx_def p_read_def by (simp_all add: within_on_engine)

lemma within_or_respond [intro!]: "keeps m \<Longrightarrow> keeps (or_respond h m)"
  unfolding or_respond_def by (rule within_map_error)

lemma within_ignoring [intro!]: "keeps m \<Longrightarrow> keeps (ignoring m)"
  unfolding ignoring_def by (rule within_try) simp_all

end

interpretation sv: service_relation same_service
  by unfold_locales (simp, erule (1) same_service_trans)

end
