(* ===== verification/Cache_Capacity.thy ===== *)
theory Cache_Capacity
  imports Prepare_World "HOL-Library.Product_Lexorder"
begin

text \<open>
  The capacity of the state cache, \<^verbatim>\<open>prepare/capacity.go\<close>: the settings, the thresholds computed with
  floating point numbers, the candidates for eviction and their order, the eviction under its lock file,
  and the check that runs around every step of a job.  \<^verbatim>\<open>cache_status.go\<close> reports the same figures.
  Sizes are integers; Go keeps them in 64 bits, which no sum of file sizes on one disk exceeds.
\<close>

subsection \<open>Settings\<close>

record capacitySettings =
  cs_MaxBytes :: int
  cs_ReserveBytes :: int
  cs_HighWatermark :: rat
  cs_LowWatermark :: rat
  cs_MinStateAge :: int
  cs_EffectiveMax :: int

definition defaultReserveMinBytes :: int where
  "defaultReserveMinBytes = 10737418240"

definition asInt64 :: "goAny \<Rightarrow> int option" where
  "asInt64 v =
     (case v of AInt n \<Rightarrow> Some n
      | AFloat f \<Rightarrow> if float_of_int (int64_of_float f) = f then Some (int64_of_float f) else None
      | ANumber s \<Rightarrow> if \<exists>c \<in> set s. c \<in> set ''.eE'' then None else ParseInt64 s
      | _ \<Rightarrow> None)"

definition asFloat64 :: "goAny \<Rightarrow> rat option" where
  "asFloat64 v =
     (case v of AFloat f \<Rightarrow> Some f | AInt n \<Rightarrow> Some (float_of_int n) | ANumber s \<Rightarrow> ParseFloat64 s | _ \<Rightarrow> None)"

definition asDuration :: "goAny \<Rightarrow> int option" where
  "asDuration v = (case v of AString s \<Rightarrow> ParseDuration (TrimSpace s) | _ \<Rightarrow> None)"

definition setting_invalid :: "bytes \<Rightarrow> engineError" where
  "setting_invalid path = ErrIO (path @ '' is invalid'')"

text \<open>A setting that is missing, unreadable or \<^verbatim>\<open>nil\<close> keeps its default.\<close>

definition read_setting :: "ConfigManager option \<Rightarrow> bytes \<Rightarrow> (goAny \<Rightarrow> 'a option) \<Rightarrow> engineError + 'a option" where
  "read_setting config path convert =
     (case config of None \<Rightarrow> Inr None
      | Some m \<Rightarrow>
         (case config_Get m path True of Inl _ \<Rightarrow> Inr None
          | Inr v \<Rightarrow> if is_nil v then Inr None
              else (case convert v of None \<Rightarrow> Inl (setting_invalid path) | Some x \<Rightarrow> Inr (Some x))))"

definition default_to :: "'a \<Rightarrow> 'a option \<Rightarrow> 'a" where
  "default_to d v = (case v of None \<Rightarrow> d | Some x \<Rightarrow> x)"

definition defaultReserveBytes :: "int \<Rightarrow> int" where
  "defaultReserveBytes storeTotal =
     (if storeTotal \<le> 0 then defaultReserveMinBytes
      else let percent = int64_of_float (float_mul (float_of_int storeTotal) (round_float64 (1 / 10))) in
        if percent < defaultReserveMinBytes then defaultReserveMinBytes else percent)"

definition effective_settings :: "int \<Rightarrow> int option \<Rightarrow> rat \<Rightarrow> rat \<Rightarrow> int \<Rightarrow> int \<Rightarrow> capacitySettings" where
  "effective_settings maxBytes reserveOverride high low minAge storeTotalBytes =
     (let storeTotal = max 0 storeTotalBytes;
          reserve = max 0 (default_to (defaultReserveBytes storeTotal) reserveOverride);
          fromStore = max 0 (storeTotal - reserve) in
      \<lparr>cs_MaxBytes = maxBytes, cs_ReserveBytes = reserve, cs_HighWatermark = high, cs_LowWatermark = low,
       cs_MinStateAge = minAge,
       cs_EffectiveMax = (if 0 < maxBytes \<and> maxBytes < fromStore then maxBytes else fromStore)\<rparr>)"

definition loadCapacitySettings :: "ConfigManager option \<Rightarrow> int \<Rightarrow> engineError + capacitySettings" where
  "loadCapacitySettings config storeTotalBytes =
     res_bind (read_setting config ''cache.capacity.maxBytes'' asInt64) (\<lambda>maxBytes.
     res_bind (read_setting config ''cache.capacity.reserveBytes'' asInt64) (\<lambda>reserve.
     res_bind (read_setting config ''cache.capacity.highWatermark'' asFloat64) (\<lambda>high.
     res_bind (read_setting config ''cache.capacity.lowWatermark'' asFloat64) (\<lambda>low.
     res_bind (read_setting config ''cache.capacity.minStateAge'' asDuration) (\<lambda>age.
       let max_b = default_to 0 maxBytes; h = default_to (round_float64 (9 / 10)) high;
           l = default_to (round_float64 (8 / 10)) low; a = default_to 600000000000 age in
       if max_b < 0 then Inl (setting_invalid ''cache.capacity.maxBytes'')
       else if \<exists>r \<in> set_option reserve. r < 0 then Inl (setting_invalid ''cache.capacity.reserveBytes'')
       else if h \<le> 0 \<or> 1 < h then Inl (setting_invalid ''cache.capacity.highWatermark'')
       else if l \<le> 0 \<or> h \<le> l then Inl (setting_invalid ''cache.capacity.lowWatermark'')
       else if a < 0 then Inl (setting_invalid ''cache.capacity.minStateAge'')
       else Inr (effective_settings max_b reserve h l a storeTotalBytes))))))"

definition threshold :: "capacitySettings \<Rightarrow> rat \<Rightarrow> int" where
  "threshold settings mark = int64_of_float (float_mul (float_of_int (cs_EffectiveMax settings)) mark)"

definition pressureReasons :: "int \<Rightarrow> int \<Rightarrow> capacitySettings \<Rightarrow> bytes list" where
  "pressureReasons usageBytes freeBytes settings =
     (if threshold settings (cs_HighWatermark settings) < usageBytes then [''usage_above_high_watermark''] else [])
     @ (if freeBytes < cs_ReserveBytes settings then [''physical_free_below_reserve''] else [])"

definition isCapacityPressure :: "int \<Rightarrow> int \<Rightarrow> capacitySettings \<Rightarrow> bool" where
  "isCapacityPressure usageBytes freeBytes settings \<longleftrightarrow>
     threshold settings (cs_HighWatermark settings) < usageBytes \<or> freeBytes < cs_ReserveBytes settings"

subsection \<open>Measurements\<close>

definition clampUint64ToInt64 :: "u64 \<Rightarrow> int" where
  "clampUint64ToInt64 v = min (uint v) (2 ^ 63 - 1)"

text \<open>The products of blocks and block size are taken in 64 bits and wrap around.\<close>

definition filesystemStats :: "u64 \<times> u64 \<times> u64 \<Rightarrow> int \<times> int" where
  "filesystemStats stat =
     (case stat of (blocks, bavail, bsize) \<Rightarrow> (clampUint64ToInt64 (blocks * bsize), clampUint64ToInt64 (bavail * bsize)))"

definition fs_stats :: "prepareWorld \<Rightarrow> int \<times> int" where
  "fs_stats w = filesystemStats (pw_statfs w (pw_disk w))"

definition filesystemStatsFn :: "(int \<times> int) pop" where
  "filesystemStatsFn = p_asks fs_stats"

definition cacheUsageFn :: "bytes \<Rightarrow> int pop" where
  "cacheUsageFn store = p_result (\<lambda>w. measureCacheUsage (pw_disk w) store)"

definition storeUsageFn :: "bytes \<Rightarrow> int pop" where
  "storeUsageFn path = p_result (\<lambda>w. measureStoreUsage (pw_disk w) path)"

subsection \<open>Candidates\<close>

record evictCandidate =
  ec_StateID :: bytes
  ec_ImageID :: bytes
  ec_CreatedAt :: int
  ec_LastUsedAt :: int
  ec_SizeBytes :: int

definition parseRFC3339Any :: "bytes \<Rightarrow> int option" where
  "parseRFC3339Any v = (if TrimSpace v = [] then None else parse_RFC3339 (TrimSpace v))"

definition createdAt :: "int \<Rightarrow> StateEntry \<Rightarrow> int" where
  "createdAt now e = default_to now (parse_RFC3339 (TrimSpace (se_CreatedAt e)))"

definition lastUsedAt :: "int \<Rightarrow> StateEntry \<Rightarrow> int" where
  "lastUsedAt now e = default_to (createdAt now e) (Option.bind (se_LastUsedAt e) parseRFC3339Any)"

definition retained :: "int \<Rightarrow> StateEntry \<Rightarrow> bool" where
  "retained now e \<longleftrightarrow> (\<exists>t \<in> set_option (Option.bind (se_MinRetentionUntil e) parseRFC3339Any). now < t)"

definition too_young :: "capacitySettings \<Rightarrow> int \<Rightarrow> StateEntry \<Rightarrow> bool" where
  "too_young settings now e \<longleftrightarrow> 0 < cs_MinStateAge settings \<and> now - createdAt now e < cs_MinStateAge settings"

definition protected_ids :: "bytes list \<Rightarrow> bytes set" where
  "protected_ids ids = set (filter (\<lambda>i. i \<noteq> []) (map TrimSpace ids))"

definition no_filters :: StateFilters where
  "no_filters = \<lparr>sf_Kind = [], sf_ImageID = [], sf_IDPrefix = [], sf_ParentID = []\<rparr>"

definition children_filter :: "bytes \<Rightarrow> StateFilters" where
  "children_filter stateID = no_filters\<lparr>sf_ParentID := stateID\<rparr>"

text \<open>The recorded size, or what is measured when none is recorded; a failed measurement counts as nothing.\<close>

definition entry_size :: "bytes \<Rightarrow> StateEntry \<Rightarrow> int pop" where
  "entry_size store e =
     (case se_SizeBytes e of
        Some n \<Rightarrow> if 0 < n then op_return n else
          (case resolveStatePaths store (se_ImageID e) (se_StateID e) of Inl _ \<Rightarrow> op_return 0
           | Inr paths \<Rightarrow> op_try (storeUsageFn (sp_stateDir paths)) (\<lambda>r. op_return (case r of Inl _ \<Rightarrow> 0 | Inr m \<Rightarrow> max 0 m)))
      | None \<Rightarrow>
          (case resolveStatePaths store (se_ImageID e) (se_StateID e) of Inl _ \<Rightarrow> op_return 0
           | Inr paths \<Rightarrow> op_try (storeUsageFn (sp_stateDir paths)) (\<lambda>r. op_return (case r of Inl _ \<Rightarrow> 0 | Inr m \<Rightarrow> max 0 m))))"

text \<open>\<open>None\<close> is a state that may not be evicted.\<close>

definition scan_entry :: "bytes \<Rightarrow> capacitySettings \<Rightarrow> int \<Rightarrow> bytes set \<Rightarrow> StateEntry \<Rightarrow> evictCandidate option pop" where
  "scan_entry store settings now protected e =
     (if se_StateID e \<in> protected \<or> 0 < se_RefCount e then op_return None
      else op_bind (p_read (ListStates (children_filter (se_StateID e)))) (\<lambda>children.
        if children \<noteq> [] \<or> retained now e \<or> too_young settings now e then op_return None
        else op_bind (entry_size store e) (\<lambda>n.
          op_return (Some \<lparr>ec_StateID = se_StateID e, ec_ImageID = se_ImageID e, ec_CreatedAt = createdAt now e,
            ec_LastUsedAt = lastUsedAt now e, ec_SizeBytes = n\<rparr>))))"

fun scan_entries ::
    "bytes \<Rightarrow> capacitySettings \<Rightarrow> int \<Rightarrow> bytes set \<Rightarrow> StateEntry list \<Rightarrow> (evictCandidate list \<times> nat \<times> int) pop" where
  "scan_entries store settings now protected [] = op_return ([], 0, 0)"
| "scan_entries store settings now protected (e # es) =
     op_bind (scan_entry store settings now protected e) (\<lambda>r.
     op_bind (scan_entries store settings now protected es) (\<lambda>(out, blocked, reclaimable).
       op_return (case r of None \<Rightarrow> (out, Suc blocked, reclaimable)
         | Some c \<Rightarrow> (c # out, blocked, ec_SizeBytes c + reclaimable))))"

definition candidate_key :: "evictCandidate \<Rightarrow> int \<times> int \<times> bytes" where
  "candidate_key c = (ec_LastUsedAt c, - ec_SizeBytes c, ec_StateID c)"

definition listEvictionCandidates ::
    "bytes \<Rightarrow> capacitySettings \<Rightarrow> bytes list \<Rightarrow> (evictCandidate list \<times> nat \<times> int) pop" where
  "listEvictionCandidates store settings protectedStateIDs =
     op_bind (p_read (ListStates no_filters)) (\<lambda>entries.
     op_bind read_clock (\<lambda>now.
     op_bind (scan_entries store settings now (protected_ids protectedStateIDs) entries) (\<lambda>(out, blocked, reclaimable).
       op_return (sort_key candidate_key out, blocked, reclaimable))))"

subsection \<open>Eviction\<close>

definition RemovePath :: "bytes \<Rightarrow> unit pop" where
  "RemovePath path =
     (if TrimSpace path = [] then op_return ()
      else p_modify (\<lambda>w. w\<lparr>pw_disk := remove_at (pw_disk w) (TrimSpace path)\<rparr>))"

definition deleteEvictionCandidate :: "bytes \<Rightarrow> evictCandidate \<Rightarrow> unit pop" where
  "deleteEvictionCandidate store c =
     op_bind (op_of (resolveStatePaths store (ec_ImageID c) (ec_StateID c))) (\<lambda>paths.
     op_bind (RemovePath (sp_stateDir paths)) (\<lambda>_. p_write (DeleteState (ec_StateID c))))"

fun evict_loop :: "bytes \<Rightarrow> capacitySettings \<Rightarrow> evictCandidate list \<Rightarrow> int \<Rightarrow> int \<Rightarrow> (nat \<times> int) pop" where
  "evict_loop store settings [] usageBytes freeBytes = op_return (0, 0)"
| "evict_loop store settings (c # cs) usageBytes freeBytes =
     op_bind p_check_ctx (\<lambda>_.
       if usageBytes \<le> threshold settings (cs_LowWatermark settings) \<and> cs_ReserveBytes settings \<le> freeBytes
       then op_return (0, 0)
       else op_try (deleteEvictionCandidate store c) (\<lambda>r. case r of
           Inl _ \<Rightarrow> evict_loop store settings cs usageBytes freeBytes
         | Inr _ \<Rightarrow>
            op_bind (cacheUsageFn store) (\<lambda>updatedUsage.
            op_bind filesystemStatsFn (\<lambda>(_, updatedFree).
            op_bind (evict_loop store settings cs updatedUsage updatedFree) (\<lambda>(n, freed).
              op_return (Suc n, ec_SizeBytes c + freed))))))"

record evictionSummary =
  es_EvictedCount :: nat
  es_FreedBytes :: int
  es_BlockedCount :: nat
  es_ReclaimableBytes :: int

definition runEviction :: "bytes \<Rightarrow> capacitySettings \<Rightarrow> int \<Rightarrow> int \<Rightarrow> bytes list \<Rightarrow> evictionSummary pop" where
  "runEviction store settings usageBytes freeBytes protectedStateIDs =
     op_bind (listEvictionCandidates store settings protectedStateIDs) (\<lambda>(candidates, blocked, reclaimable).
     op_bind (evict_loop store settings candidates usageBytes freeBytes) (\<lambda>(n, freed).
       op_return \<lparr>es_EvictedCount = n, es_FreedBytes = freed, es_BlockedCount = blocked, es_ReclaimableBytes = reclaimable\<rparr>))"

subsection \<open>The lock file\<close>

definition evictLockStaleAfter :: int where
  "evictLockStaleAfter = 300000000000"

text \<open>\<open>True\<close> when the lock file was removed.\<close>

definition removeStaleEvictLock :: "bool pop" where
  "removeStaleEvictLock =
     op_try (p_asks pw_evictLock) (\<lambda>r. case r of
         Inl e \<Rightarrow> if e = ErrNotExist then op_return False else op_fail e
       | Inr NoLock \<Rightarrow> op_return False
       | Inr LockDir \<Rightarrow> op_fail (ErrIO ''eviction lock path is a directory'')
       | Inr (LockFile modified) \<Rightarrow>
           op_bind read_clock (\<lambda>now.
             if now - modified < evictLockStaleAfter then op_return False
             else op_try (p_modify (\<lambda>w. w\<lparr>pw_evictLock := NoLock\<rparr>)) (\<lambda>q. case q of
                 Inl e \<Rightarrow> if e = ErrNotExist then op_return False else op_fail e
               | Inr _ \<Rightarrow> op_return True)))"

text \<open>Creating the lock file, with the time the system stamps on it.\<close>

definition create_lock :: "unit pop" where
  "create_lock = p_outgoing (\<lambda>w.
     if pw_evictLock w = NoLock then (case read_clock w of (r, v) \<Rightarrow> (res_map (\<lambda>_. ()) r, v\<lparr>pw_evictLock := LockFile (pw_now v)\<rparr>))
     else (Inl ErrExist, w))"

text \<open>One round of the loop of \<^verbatim>\<open>withEvictLock\<close>; \<open>False\<close> is another round.\<close>

definition try_evict_lock :: "bool pop" where
  "try_evict_lock =
     op_bind p_check_ctx (\<lambda>_.
     op_try create_lock (\<lambda>r. case r of
         Inr _ \<Rightarrow> op_return True
       | Inl e \<Rightarrow>
          if e \<noteq> ErrExist then op_fail e
          else op_bind removeStaleEvictLock (\<lambda>removed.
            if removed then op_return False
            else op_bind (sleep 50000000) (\<lambda>_. op_return False))))"

text \<open>
  The rounds of the loop.  Another process may hold or take the lock again and again, so the
  loop need not end; \<open>False\<close> says that it has not within the given number of rounds.
\<close>

fun evict_lock_loop :: "nat \<Rightarrow> bool pop" where
  "evict_lock_loop 0 = op_return False"
| "evict_lock_loop (Suc n) = op_bind try_evict_lock (\<lambda>taken. if taken then op_return True else evict_lock_loop n)"

definition make_store_dir :: "unit pop" where
  "make_store_dir = p_asks (\<lambda>_. ())"

text \<open>The lock is given back however the callback ends; a failure to remove it is ignored.\<close>

definition withEvictLock :: "nat \<Rightarrow> 'a pop \<Rightarrow> 'a option pop" where
  "withEvictLock rounds fn =
     op_bind make_store_dir (\<lambda>_. op_bind (evict_lock_loop rounds) (\<lambda>taken.
       if \<not> taken then op_return None
       else op_try fn (\<lambda>r. op_bind (ignoring (p_modify (\<lambda>w. w\<lparr>pw_evictLock := NoLock\<rparr>))) (\<lambda>_.
         op_of (res_map Some r)))))"

subsection \<open>The check\<close>

definition capacityError :: "bytes \<Rightarrow> bytes \<Rightarrow> bytes \<Rightarrow> ErrorResponse" where
  "capacityError code message phase = errorResponse code message (CapacityDetails phase)"

definition unavailable :: "bytes \<Rightarrow> bytes \<Rightarrow> 'a pop \<Rightarrow> 'a rop" where
  "unavailable phase message m = or_respond (\<lambda>_. capacityError ''cache_enforcement_unavailable'' message phase) m"

text \<open>The smallest recorded size, or zero when none is recorded or the states cannot be listed.\<close>

definition min_size :: "StateEntry list \<Rightarrow> int" where
  "min_size entries =
     fold (\<lambda>e smallest. case se_SizeBytes e of None \<Rightarrow> smallest
       | Some n \<Rightarrow> if n \<le> 0 then smallest else if smallest = 0 \<or> n < smallest then n else smallest) entries 0"

definition observedMinStateBytes :: "(prepareWorld, ErrorResponse, int) operation" where
  "observedMinStateBytes =
     op_try (p_read (ListStates no_filters)) (\<lambda>r. op_return (case r of Inl _ \<Rightarrow> 0 | Inr entries \<Rightarrow> min_size entries))"

definition recordCacheEviction :: "CacheEvictionSummary \<Rightarrow> (prepareWorld, 'e, unit) operation" where
  "recordCacheEviction summary = set_world (\<lambda>w. w\<lparr>pw_lastEviction := Some summary\<rparr>)"

definition eviction_summary ::
    "int \<Rightarrow> bytes \<Rightarrow> evictionSummary \<Rightarrow> int \<Rightarrow> int \<Rightarrow> int \<Rightarrow> int \<Rightarrow> CacheEvictionSummary" where
  "eviction_summary now phase eviction usageBytes usageAfter freeBytes freeAfter =
     \<lparr>ce_CompletedAt = format_RFC3339Nano now, ce_Trigger = phase, ce_EvictedCount = es_EvictedCount eviction,
      ce_FreedBytes = es_FreedBytes eviction, ce_BlockedCount = es_BlockedCount eviction,
      ce_ReclaimableBytes = es_ReclaimableBytes eviction, ce_UsageBytesBefore = usageBytes, ce_UsageBytesAfter = usageAfter,
      ce_FreeBytesBefore = freeBytes, ce_FreeBytesAfter = freeAfter\<rparr>"

text \<open>The answer when the pressure is still there after an eviction.\<close>

definition pressure_answer :: "capacitySettings \<Rightarrow> bytes \<Rightarrow> evictionSummary \<Rightarrow> 'a rop" where
  "pressure_answer settings phase eviction =
     op_bind observedMinStateBytes (\<lambda>observedRequired.
       if 0 < observedRequired \<and> cs_EffectiveMax settings < observedRequired
       then op_fail (capacityError ''cache_limit_too_small'' ''effective cache limit is below observed minimum state size'' phase)
       else if es_ReclaimableBytes eviction = 0 \<and> es_BlockedCount eviction = 0
       then op_fail (capacityError ''cache_limit_too_small'' ''effective cache limit is too small to materialize a state'' phase)
       else op_fail (capacityError ''cache_full_unreclaimable'' ''cache cannot be reclaimed to required thresholds'' phase))"

definition enforce_capacity ::
    "nat \<Rightarrow> bytes \<Rightarrow> bytes \<Rightarrow> bytes list \<Rightarrow> capacitySettings \<Rightarrow> int \<Rightarrow> int \<Rightarrow> unit option rop" where
  "enforce_capacity rounds store phase protectedStateIDs settings usageBytes freeBytes =
     op_bind (unavailable phase ''cannot acquire cache eviction lock''
       (withEvictLock rounds (runEviction store settings usageBytes freeBytes protectedStateIDs))) (\<lambda>r.
     case r of None \<Rightarrow> op_return None
     | Some eviction \<Rightarrow>
         op_bind (unavailable phase ''cannot measure cache usage after eviction'' (cacheUsageFn store)) (\<lambda>usageAfter.
         op_bind (unavailable phase ''cannot measure free space after eviction'' filesystemStatsFn) (\<lambda>(_, freeAfter).
         op_bind read_clock (\<lambda>now.
         op_bind (recordCacheEviction (eviction_summary now phase eviction usageBytes usageAfter freeBytes freeAfter)) (\<lambda>_.
           if \<not> isCapacityPressure usageAfter freeAfter settings then op_return (Some ())
           else pressure_answer settings phase eviction)))))"

definition is_none_config :: "ConfigManager option \<Rightarrow> bool" where
  "is_none_config config = (case config of None \<Rightarrow> True | Some _ \<Rightarrow> False)"

definition ensureCacheCapacity :: "nat \<Rightarrow> bytes \<Rightarrow> bytes \<Rightarrow> bytes list \<Rightarrow> unit option rop" where
  "ensureCacheCapacity rounds store phase protectedStateIDs =
     op_bind (get_world pw_config) (\<lambda>config.
       if is_none_config config \<or> TrimSpace store = [] then op_return (Some ())
       else
         op_bind (unavailable phase ''cannot measure state store filesystem'' filesystemStatsFn) (\<lambda>(totalBytes, freeBytes).
         op_bind (unavailable phase ''cannot load cache capacity settings'' (op_of (loadCapacitySettings config totalBytes))) (\<lambda>settings.
           if cs_EffectiveMax settings \<le> 0
           then op_fail (capacityError ''cache_limit_too_small'' ''effective cache limit is too small'' phase)
           else
             op_bind (unavailable phase ''cannot measure cache usage'' (cacheUsageFn store)) (\<lambda>usageBytes.
               if \<not> isCapacityPressure usageBytes freeBytes settings then op_return (Some ())
               else enforce_capacity rounds store phase protectedStateIDs settings usageBytes freeBytes))))"

subsection \<open>The report (cache_status.go)\<close>

record CacheStatus =
  st_UsageBytes :: int
  st_ConfiguredMaxBytes :: "int option"
  st_Settings :: capacitySettings
  st_StoreTotalBytes :: int
  st_StoreFreeBytes :: int
  st_StateCount :: nat
  st_ReclaimableBytes :: int
  st_BlockedCount :: nat
  st_PressureReasons :: "bytes list"
  st_LastEviction :: "CacheEvictionSummary option"

definition service_CacheStatus :: "bytes \<Rightarrow> CacheStatus pop" where
  "service_CacheStatus stateStoreRoot =
     (let store = TrimSpace stateStoreRoot in
      if store = [] then op_fail (ErrIO ''state store root is not configured'')
      else
        op_bind make_store_dir (\<lambda>_.
        op_bind filesystemStatsFn (\<lambda>(totalBytes, freeBytes).
        op_bind (get_world pw_config) (\<lambda>config.
        op_bind (op_of (loadCapacitySettings config totalBytes)) (\<lambda>settings.
        op_bind (cacheUsageFn store) (\<lambda>usageBytes.
        op_bind (p_read (ListStates no_filters)) (\<lambda>entries.
        op_bind (listEvictionCandidates stateStoreRoot settings []) (\<lambda>(_, blockedCount, reclaimableBytes).
        op_bind (get_world pw_lastEviction) (\<lambda>last_eviction.
          op_return \<lparr>st_UsageBytes = usageBytes,
            st_ConfiguredMaxBytes = (if 0 < cs_MaxBytes settings then Some (cs_MaxBytes settings) else None),
            st_Settings = settings, st_StoreTotalBytes = totalBytes, st_StoreFreeBytes = freeBytes,
            st_StateCount = length entries, st_ReclaimableBytes = reclaimableBytes, st_BlockedCount = blockedCount,
            st_PressureReasons = pressureReasons usageBytes freeBytes settings, st_LastEviction = last_eviction\<rparr>)))))))))"

end
