(* ===== verification/Cache_Capacity_Props.thy ===== *)
theory Cache_Capacity_Props
  imports Cache_Capacity
begin

text \<open>
  What the capacity check promises: it removes only states that nothing needs, in the order of their last
  use and no more of them than it has to; it leaves every other table alone; and its lock does not
  outlive the process that took it.
\<close>

subsection \<open>What an eviction may change\<close>

definition pw_db :: "prepareWorld \<Rightarrow> database" where
  "pw_db w = w_db (pw_engine w)"

definition drop_states :: "bytes set \<Rightarrow> database \<Rightarrow> database" where
  "drop_states D db = db\<lparr>db_states := filter (\<lambda>r. sr_state_id r \<notin> D) (db_states db)\<rparr>"

lemma drop_states_none [simp]: "drop_states {} db = db"
  by (simp add: drop_states_def)

lemma drop_states_drop: "drop_states D (drop_states E db) = drop_states (E \<union> D) db"
  by (simp add: drop_states_def conj_commute)

text \<open>
  The files, the lock file, the clock, the calls made and the last summary may change freely,
  the tables only by dropping states of \<open>S\<close>.
\<close>

definition evicts :: "bytes set \<Rightarrow> prepareWorld \<Rightarrow> prepareWorld \<Rightarrow> bool" where
  "evicts S w w' \<longleftrightarrow>
     (\<exists>D n. D \<subseteq> S \<and> pw_engine w' = (pw_engine w)\<lparr>w_db := drop_states D (pw_db w), w_calls := n\<rparr>)
     \<and> pw_queue w' = pw_queue w \<and> pw_config w' = pw_config w \<and> pw_running w' = pw_running w
     \<and> pw_managed w' = pw_managed w \<and> pw_now w \<le> pw_now w'"

lemma evicts_trans:
  assumes "evicts S u v" and "evicts S v w"
  shows "evicts S u w"
proof -
  obtain D n where v: "D \<subseteq> S" "pw_engine v = (pw_engine u)\<lparr>w_db := drop_states D (pw_db u), w_calls := n\<rparr>"
    using assms(1) by (auto simp: evicts_def)
  obtain E m where w: "E \<subseteq> S" "pw_engine w = (pw_engine v)\<lparr>w_db := drop_states E (pw_db v), w_calls := m\<rparr>"
    using assms(2) by (auto simp: evicts_def)
  have "pw_engine w = (pw_engine u)\<lparr>w_db := drop_states (D \<union> E) (pw_db u), w_calls := m\<rparr>"
    by (simp add: w(2) v(2) pw_db_def drop_states_drop)
  then show ?thesis using assms v(1) w(1) unfolding evicts_def by (intro conjI exI [of _ "D \<union> E"] exI [of _ m]) auto
qed

lemma evicts_same:
  assumes "same_service w w'"
  shows "evicts S w w'"
proof -
  obtain n t k where w': "w' = w\<lparr>pw_engine := (pw_engine w)\<lparr>w_calls := n\<rparr>, pw_now := t, pw_ticks := k\<rparr>" "pw_now w \<le> t"
    using assms by (auto simp: same_service_def)
  have "pw_engine w' = (pw_engine w)\<lparr>w_db := drop_states {} (pw_db w), w_calls := n\<rparr>" by (simp add: w' pw_db_def)
  then show ?thesis unfolding evicts_def by (intro conjI exI [of _ "{}"] exI [of _ n]) (simp_all add: w')
qed

interpretation ev: service_relation "evicts S" for S
  by unfold_locales (simp add: evicts_same, erule (1) evicts_trans, erule evicts_same)

lemma evicts_mono: "evicts S w w' \<Longrightarrow> S \<subseteq> T \<Longrightarrow> evicts T w w'"
  unfolding evicts_def by blast

text \<open>A change outside the tables.\<close>

lemma evicts_outside:
  "pw_engine v = pw_engine w \<Longrightarrow> pw_queue v = pw_queue w \<Longrightarrow> pw_config v = pw_config w \<Longrightarrow> pw_running v = pw_running w
     \<Longrightarrow> pw_managed v = pw_managed w \<Longrightarrow> pw_now w \<le> pw_now v \<Longrightarrow> evicts S w v"
  unfolding evicts_def by (intro conjI exI [of _ "{}"] exI [of _ "w_calls (pw_engine w)"]) (simp_all add: pw_db_def)

lemma evicts_modify:
  "(\<And>w. evicts S w (f w)) \<Longrightarrow> ev.keeps S (p_modify f)"
  unfolding p_modify_def by (rule ev.within_p_outgoing) simp

lemma evicts_delete_state:
  assumes "i \<in> S"
  shows "ev.keeps S (p_write (DeleteState i))"
  unfolding ev.keeps_def
proof
  fix w
  have "\<exists>D n. D \<subseteq> S \<and> pw_engine (snd (p_write (DeleteState i) w)) = (pw_engine w)\<lparr>w_db := drop_states D (pw_db w), w_calls := n\<rparr>"
  proof (cases "w_fault (pw_engine w) (w_calls (pw_engine w)) = None \<and> DeleteState i (pw_db w) \<noteq> None")
    case True
    then have "DeleteState i (pw_db w) = Some (drop_states {i} (pw_db w))"
      by (auto simp: DeleteState_def drop_states_def split: if_splits)
    then show ?thesis using assms True
      by (intro exI [of _ "{i}"] exI [of _ "Suc (w_calls (pw_engine w))"])
        (simp add: p_write_def on_engine_def db_write_def outgoing_def pw_db_def Let_def)
  next
    case False
    then show ?thesis
      by (intro exI [of _ "{}"] exI [of _ "Suc (w_calls (pw_engine w))"])
        (auto simp: p_write_def on_engine_def db_write_def outgoing_def pw_db_def Let_def split: option.splits)
  qed
  moreover have "pw_queue v = pw_queue w \<and> pw_config v = pw_config w \<and> pw_running v = pw_running w \<and> pw_managed v = pw_managed w
      \<and> pw_now v = pw_now w" if "v = snd (p_write (DeleteState i) w)" for v
    using that by (simp add: p_write_def on_engine_def split: prod.splits)
  ultimately show "evicts S w (snd (p_write (DeleteState i) w))" unfolding evicts_def by auto
qed

lemma evicts_delete_candidate: "ec_StateID c \<in> S \<Longrightarrow> ev.keeps S (deleteEvictionCandidate store c)"
  unfolding deleteEvictionCandidate_def RemovePath_def
  by (intro ev.within_bind ev.within_if ev.within_return evicts_modify evicts_delete_state evicts_outside) simp_all

lemma evicts_measurements [simp]:
  "ev.keeps S (cacheUsageFn store)" "ev.keeps S (storeUsageFn p)" "ev.keeps S filesystemStatsFn" "ev.keeps S make_store_dir"
  by (simp_all add: cacheUsageFn_def storeUsageFn_def filesystemStatsFn_def make_store_dir_def)

lemma evicts_loop: "ec_StateID ` set cs \<subseteq> S \<Longrightarrow> ev.keeps S (evict_loop store settings cs u f)"
  by (induction cs arbitrary: u f)
    (auto intro!: ev.within_bind ev.within_try evicts_delete_candidate split: sum.splits prod.splits)

subsection \<open>Reading without effects\<close>

lemma same_measurements [simp]:
  "sv.keeps (cacheUsageFn store)" "sv.keeps (storeUsageFn p)" "sv.keeps filesystemStatsFn" "sv.keeps make_store_dir"
  by (simp_all add: cacheUsageFn_def storeUsageFn_def filesystemStatsFn_def make_store_dir_def)

lemma same_entry_size: "sv.keeps (entry_size store e)"
  unfolding entry_size_def
  by (intro sv.within_case_option sv.within_if sv.within_case_sum sv.within_try sv.within_return same_measurements)

lemma same_scan_entry: "sv.keeps (scan_entry store settings now protected e)"
  unfolding scan_entry_def by (intro sv.within_if sv.within_bind sv.within_return sv.within_p_reads same_entry_size)

lemma same_scan_entries: "sv.keeps (scan_entries store settings now protected es)"
  by (induction es) (auto intro!: sv.within_bind same_scan_entry)

lemma same_list_candidates: "sv.keeps (listEvictionCandidates store settings ids)"
  unfolding listEvictionCandidates_def
  by (intro sv.within_bind sv.within_p_reads sv.within_clock same_scan_entries sv.within_case_prod sv.within_return)

lemma p_read_Inr: "p_read f w = (Inr x, w') \<Longrightarrow> x = f (pw_db w)"
  by (auto simp: p_read_def on_engine_def db_read_def asks_def outgoing_def pw_db_def Let_def split: option.splits)

lemma same_db: "same_service w w' \<Longrightarrow> pw_db w' = pw_db w"
  by (auto simp: same_service_def pw_db_def)

subsection \<open>Which states are candidates\<close>

text \<open>A state that may be evicted: unprotected, unused, without children, past its retention and old enough.\<close>

definition evictable :: "capacitySettings \<Rightarrow> int \<Rightarrow> bytes set \<Rightarrow> database \<Rightarrow> StateRow \<Rightarrow> bool" where
  "evictable settings now protected db r \<longleftrightarrow>
     sr_state_id r \<notin> protected
     \<and> (\<forall>i \<in> set (db_instances db). ir_state_id i \<noteq> sr_state_id r)
     \<and> (\<forall>c \<in> set (db_states db). sr_parent_state_id c \<noteq> Some (TrimSpace (sr_state_id r)))
     \<and> \<not> retained now (state_entry db r) \<and> \<not> too_young settings now (state_entry db r)"

lemma children_listed: "sr_parent_state_id c = Some (TrimSpace i) \<Longrightarrow> c \<in> set (db_states db) \<Longrightarrow> ListStates (children_filter i) db \<noteq> []"
  by (force simp: ListStates_def children_filter_def no_filters_def addFilter_def addPrefixFilter_def TrimSpace_def filter_empty_conv)

lemma all_listed: "ListStates no_filters db = map (state_entry db) (db_states db)"
  by (simp add: ListStates_def no_filters_def addFilter_def addPrefixFilter_def TrimSpace_def)

lemma scan_entry_candidate:
  assumes "scan_entry store settings now protected (state_entry db r) w = (Inr (Some c), w')" and "pw_db w = db" and "r \<in> set (db_states db)"
  shows "evictable settings now protected db r" and "ec_StateID c = sr_state_id r" and "ec_LastUsedAt c = lastUsedAt now (state_entry db r)"
proof -
  let ?e = "state_entry db r"
  have ids: "se_StateID ?e = sr_state_id r" "se_RefCount ?e = length (filter (\<lambda>i. ir_state_id i = sr_state_id r) (db_instances db))"
    by (simp_all add: state_entry_def)
  have guard: "se_StateID ?e \<notin> protected" "se_RefCount ?e = 0"
    using assms(1) by (auto simp: scan_entry_def op_return_def split: if_splits)
  obtain children v where read: "p_read (ListStates (children_filter (se_StateID ?e))) w = (Inr children, v)"
    and rest: "(if children \<noteq> [] \<or> retained now ?e \<or> too_young settings now ?e then op_return None
        else op_bind (entry_size store ?e) (\<lambda>n. op_return (Some \<lparr>ec_StateID = se_StateID ?e, ec_ImageID = se_ImageID ?e,
          ec_CreatedAt = createdAt now ?e, ec_LastUsedAt = lastUsedAt now ?e, ec_SizeBytes = n\<rparr>))) v = (Inr (Some c), w')"
    using assms(1) guard by (auto simp: scan_entry_def op_bind_Inr)
  have children: "children = ListStates (children_filter (sr_state_id r)) db" using p_read_Inr [OF read] assms(2) ids by simp
  have open_state: "children = []" "\<not> retained now ?e" "\<not> too_young settings now ?e"
    using rest by (auto simp: op_return_def split: if_splits)
  show "evictable settings now protected db r"
    using guard open_state children_listed children by (auto simp: evictable_def ids filter_empty_conv)
  show "ec_StateID c = sr_state_id r" "ec_LastUsedAt c = lastUsedAt now ?e"
    using rest open_state by (auto simp: op_bind_Inr op_return_def ids)
qed

lemma scan_entries_candidates:
  assumes "scan_entries store settings now protected (map (state_entry db) rows) w = (Inr (out, b, n), w')" and "pw_db w = db"
    and "set rows \<subseteq> set (db_states db)"
  shows "\<forall>c \<in> set out. \<exists>r \<in> set rows. evictable settings now protected db r \<and> ec_StateID c = sr_state_id r
      \<and> ec_LastUsedAt c = lastUsedAt now (state_entry db r)"
  using assms
proof (induction rows arbitrary: out b n w)
  case Nil
  then show ?case by (simp add: op_return_def)
next
  case (Cons r rows)
  obtain q v where q: "scan_entry store settings now protected (state_entry db r) w = (Inr q, v)"
    and rest: "op_bind (scan_entries store settings now protected (map (state_entry db) rows)) (\<lambda>(out, blocked, reclaimable).
       op_return (case q of None \<Rightarrow> (out, Suc blocked, reclaimable)
         | Some c \<Rightarrow> (c # out, blocked, ec_SizeBytes c + reclaimable))) v = (Inr (out, b, n), w')"
    using Cons.prems(1) by (auto simp: op_bind_Inr)
  obtain out' b' n' where tail: "scan_entries store settings now protected (map (state_entry db) rows) v = (Inr (out', b', n'), w')"
    and out: "out = (case q of None \<Rightarrow> out' | Some c \<Rightarrow> c # out')"
    using rest by (auto simp: op_bind_Inr op_return_def split: option.splits)
  have v: "pw_db v = db" using sv.withinD [OF same_scan_entry q] same_db Cons.prems(2) by simp
  have IH: "\<forall>c \<in> set out'. \<exists>r \<in> set rows. evictable settings now protected db r \<and> ec_StateID c = sr_state_id r
      \<and> ec_LastUsedAt c = lastUsedAt now (state_entry db r)"
    using Cons.IH [OF tail v] Cons.prems(3) by simp
  show ?case
  proof (cases q)
    case None
    then show ?thesis using IH out by auto
  next
    case (Some c)
    have "r \<in> set (db_states db)" using Cons.prems(3) by simp
    then show ?thesis using scan_entry_candidate [OF q [unfolded Some] Cons.prems(2)] IH out Some by auto
  qed
qed

lemma candidates_evictable:
  assumes "listEvictionCandidates store settings ids w = (Inr (cs, b, n), w')"
  obtains now where "pw_now w \<le> now" "now \<le> pw_now w'"
    "\<forall>c \<in> set cs. \<exists>r \<in> set (db_states (pw_db w)). evictable settings now (protected_ids ids) (pw_db w) r \<and> ec_StateID c = sr_state_id r
       \<and> ec_LastUsedAt c = lastUsedAt now (state_entry (pw_db w) r)"
    "sorted (map candidate_key cs)"
proof -
  obtain entries v1 where r1: "p_read (ListStates no_filters) w = (Inr entries, v1)"
    and rest1: "op_bind read_clock (\<lambda>now. op_bind (scan_entries store settings now (protected_ids ids) entries) (\<lambda>(out, blocked, reclaimable).
       op_return (sort_key candidate_key out, blocked, reclaimable))) v1 = (Inr (cs, b, n), w')"
    using assms by (auto simp: listEvictionCandidates_def op_bind_Inr)
  obtain now v2 out where r2: "read_clock v1 = (Inr now :: engineError + int, v2)"
    and r3: "scan_entries store settings now (protected_ids ids) entries v2 = (Inr (out, b, n), w')"
    and cs: "cs = sort_key candidate_key out"
    using rest1 by (auto simp: op_bind_Inr op_return_def)
  have s1: "same_service w v1" by (rule sv.withinD [OF sv.within_p_reads(2) r1])
  have s2: "same_service v1 v2" by (rule sv.withinD [OF sv.within_clock(1) r2])
  have s3: "same_service v2 w'" by (rule sv.withinD [OF same_scan_entries r3])
  have db: "pw_db v2 = pw_db w" using s1 s2 by (simp add: same_db)
  have entries: "entries = map (state_entry (pw_db w)) (db_states (pw_db w))" using p_read_Inr [OF r1] by (simp add: all_listed)
  have "now = pw_now v2" using r2 by (auto simp: read_clock_def Let_def)
  then have "pw_now w \<le> now" "now \<le> pw_now w'" using s1 s2 s3 by (auto simp: same_service_def)
  moreover have "\<forall>c \<in> set cs. \<exists>r \<in> set (db_states (pw_db w)). evictable settings now (protected_ids ids) (pw_db w) r
      \<and> ec_StateID c = sr_state_id r \<and> ec_LastUsedAt c = lastUsedAt now (state_entry (pw_db w) r)"
    using scan_entries_candidates [OF r3 [unfolded entries] db] cs by simp
  moreover have "sorted (map candidate_key cs)" by (simp add: cs)
  ultimately show ?thesis using that by blast
qed

subsection \<open>Only idle states are evicted\<close>

definition idle_evicted :: "capacitySettings \<Rightarrow> bytes list \<Rightarrow> prepareWorld \<Rightarrow> prepareWorld \<Rightarrow> bool" where
  "idle_evicted settings ids w w' \<longleftrightarrow>
     (\<exists>S now. evicts S w w' \<and> pw_now w \<le> now \<and> now \<le> pw_now w'
        \<and> (\<forall>i \<in> S. \<exists>r \<in> set (db_states (pw_db w)). sr_state_id r = i \<and> evictable settings now (protected_ids ids) (pw_db w) r))"

lemma evicts_none_db: "evicts {} w w' \<Longrightarrow> pw_db w' = pw_db w"
  by (auto simp: evicts_def pw_db_def)

lemma evicts_time: "evicts S w w' \<Longrightarrow> pw_now w \<le> pw_now w'"
  by (simp add: evicts_def)

lemma idle_none: "evicts {} w w' \<Longrightarrow> idle_evicted settings ids w w'"
  unfolding idle_evicted_def by (intro exI [of _ "{}"] exI [of _ "pw_now w"]) (simp add: evicts_time)

lemma idle_before: "evicts {} w v \<Longrightarrow> idle_evicted settings ids v w' \<Longrightarrow> idle_evicted settings ids w w'"
  unfolding idle_evicted_def
  by (elim exE conjE) (intro exI conjI, rule evicts_trans, erule evicts_mono, auto simp: evicts_none_db dest!: evicts_time)

lemma idle_after: "idle_evicted settings ids w v \<Longrightarrow> evicts {} v w' \<Longrightarrow> idle_evicted settings ids w w'"
  unfolding idle_evicted_def
  by (elim exE conjE) (intro exI conjI, erule evicts_trans, erule evicts_mono, auto dest!: evicts_time)

lemma runEviction_idle:
  assumes "runEviction store settings u f ids w = (r, w')"
  shows "idle_evicted settings ids w w'"
  using assms [unfolded runEviction_def]
proof (cases rule: op_bind_cases)
  case (1 e)
  then show ?thesis by (intro idle_none evicts_same) (rule sv.withinD [OF same_list_candidates])
next
  case (2 x v)
  obtain cs b n where x: "x = (cs, b, n)" by (cases x)
  have same: "same_service w v" by (rule sv.withinD [OF same_list_candidates 2(1)])
  obtain now where now: "pw_now w \<le> now" "now \<le> pw_now v"
    and cs: "\<forall>c \<in> set cs. \<exists>r \<in> set (db_states (pw_db w)). evictable settings now (protected_ids ids) (pw_db w) r
      \<and> ec_StateID c = sr_state_id r \<and> ec_LastUsedAt c = lastUsedAt now (state_entry (pw_db w) r)"
    by (rule candidates_evictable [OF 2(1) [unfolded x]]) blast
  have "ev.keeps (ec_StateID ` set cs) (op_bind (evict_loop store settings cs u f) (\<lambda>(n, freed).
       op_return \<lparr>es_EvictedCount = n, es_FreedBytes = freed, es_BlockedCount = b, es_ReclaimableBytes = n'\<rparr>))" for n'
    by (intro ev.within_bind evicts_loop ev.within_case_prod ev.within_return) simp
  then have "evicts (ec_StateID ` set cs) v w'" using 2(2) by (auto simp: x dest: ev.withinD)
  then have "evicts (ec_StateID ` set cs) w w'" using evicts_trans evicts_same [OF same] by blast
  moreover have "\<forall>i \<in> ec_StateID ` set cs. \<exists>r \<in> set (db_states (pw_db w)). sr_state_id r = i
      \<and> evictable settings now (protected_ids ids) (pw_db w) r"
    using cs by fastforce
  moreover have "now \<le> pw_now w'" using now(2) evicts_time [OF \<open>evicts (ec_StateID ` set cs) v w'\<close>] by simp
  ultimately show ?thesis using now(1) unfolding idle_evicted_def by blast
qed

lemma evicts_lock_parts [simp]:
  "ev.keeps S removeStaleEvictLock" "ev.keeps S create_lock" "ev.keeps S try_evict_lock"
proof -
  show stale: "ev.keeps S removeStaleEvictLock"
    unfolding removeStaleEvictLock_def
    by (intro ev.within_try ev.within_service_reads ev.within_case_sum ev.within_if ev.within_return)
      (auto split: lockFile.splits sum.splits intro!: ev.within_bind ev.within_try evicts_modify evicts_outside)
  show create: "ev.keeps S create_lock"
    unfolding create_lock_def
    by (rule ev.within_p_outgoing) (auto simp: read_clock_def Let_def intro!: evicts_outside ev.rel_refl)
  show "ev.keeps S try_evict_lock"
    unfolding try_evict_lock_def
    by (auto intro!: ev.within_bind ev.within_try stale create split: sum.splits)
qed

lemma evicts_lock_loop [simp]: "ev.keeps S (evict_lock_loop n)"
  by (induction n) (auto intro!: ev.within_bind)

lemma evicts_unlock [simp]: "ev.keeps S (ignoring (p_modify (\<lambda>w. w\<lparr>pw_evictLock := NoLock\<rparr>)))"
  by (intro ev.within_ignoring evicts_modify evicts_outside) simp_all

lemma withEvictLock_idle:
  assumes "withEvictLock rounds fn w = (r, w')" and "\<And>v q v'. fn v = (q, v') \<Longrightarrow> idle_evicted settings ids v v'"
  shows "idle_evicted settings ids w w'"
proof -
  have prefix: "ev.keeps {} (op_bind make_store_dir (\<lambda>_. evict_lock_loop rounds))" by (intro ev.within_bind) simp_all
  obtain q v where q: "op_bind make_store_dir (\<lambda>_. evict_lock_loop rounds) w = (q, v)"
    by (cases "op_bind make_store_dir (\<lambda>_. evict_lock_loop rounds) w")
  have before: "evicts {} w v" by (rule ev.withinD [OF prefix q])
  show ?thesis
  proof (cases "q = Inr True")
    case False
    then have "w' = v"
      using assms(1) q by (auto simp: withEvictLock_def op_bind_def op_return_def split: prod.splits sum.splits if_splits)
    then show ?thesis using before idle_none by blast
  next
    case True
    obtain s v1 where s: "fn v = (s, v1)" by (cases "fn v")
    have "evicts {} v1 w'"
    proof -
      have "op_bind (ignoring (p_modify (\<lambda>w. w\<lparr>pw_evictLock := NoLock\<rparr>))) (\<lambda>_. op_of (res_map Some s)) v1 = (r, w')"
        using assms(1) q True s by (auto simp: withEvictLock_def op_bind_def op_try_def split: prod.splits sum.splits)
      moreover have "ev.keeps {} (op_bind (ignoring (p_modify (\<lambda>w. w\<lparr>pw_evictLock := NoLock\<rparr>))) (\<lambda>_. op_of (res_map Some s)))"
        by (intro ev.within_bind ev.within_return evicts_unlock)
      ultimately show ?thesis by (metis ev.withinD)
    qed
    then show ?thesis using before assms(2) [OF s] idle_before idle_after by blast
  qed
qed

lemma evicts_answer: "ev.keeps S (pressure_answer settings phase eviction)"
  unfolding pressure_answer_def observedMinStateBytes_def
  by (intro ev.within_bind ev.within_try ev.within_p_reads ev.within_return ev.within_if)

lemma evicts_record: "ev.keeps S (recordCacheEviction x)"
  unfolding recordCacheEviction_def ev.keeps_def set_world_def by (auto intro!: evicts_outside)

lemma evicts_unavailable: "ev.keeps S m \<Longrightarrow> ev.keeps S (unavailable phase message m)"
  unfolding unavailable_def by (rule ev.within_or_respond)

definition after_eviction :: "bytes \<Rightarrow> bytes \<Rightarrow> capacitySettings \<Rightarrow> int \<Rightarrow> int \<Rightarrow> evictionSummary \<Rightarrow> unit option rop" where
  "after_eviction store phase settings u f eviction =
     op_bind (unavailable phase ''cannot measure cache usage after eviction'' (cacheUsageFn store)) (\<lambda>usageAfter.
     op_bind (unavailable phase ''cannot measure free space after eviction'' filesystemStatsFn) (\<lambda>(_, freeAfter).
     op_bind read_clock (\<lambda>now.
     op_bind (recordCacheEviction (eviction_summary now phase eviction u usageAfter f freeAfter)) (\<lambda>_.
       if \<not> isCapacityPressure usageAfter freeAfter settings then op_return (Some ())
       else pressure_answer settings phase eviction))))"

lemma evicts_after: "ev.keeps S (after_eviction store phase settings u f eviction)"
  unfolding after_eviction_def
  apply (rule ev.within_bind, rule evicts_unavailable, rule evicts_measurements)
  apply (rule ev.within_bind, rule evicts_unavailable, rule evicts_measurements)
  apply (rule ev.within_case_prod)
  apply (rule ev.within_bind, rule ev.within_clock)
  apply (rule ev.within_bind, rule evicts_record)
  apply (rule ev.within_if, rule ev.within_return, rule evicts_answer)
  done

lemma enforce_idle:
  assumes "enforce_capacity rounds store phase ids settings u f w = (r, w')"
  shows "idle_evicted settings ids w w'"
proof -
  let ?lock = "withEvictLock rounds (runEviction store settings u f ids)"
  have lock: "idle_evicted settings ids v v'" if "?lock v = (q, v')" for v q v'
    by (rule withEvictLock_idle [OF that]) (rule runEviction_idle)
  have "op_bind (unavailable phase ''cannot acquire cache eviction lock'' ?lock)
      (\<lambda>r. case r of None \<Rightarrow> op_return None | Some eviction \<Rightarrow> after_eviction store phase settings u f eviction) w = (r, w')"
    using assms unfolding enforce_capacity_def after_eviction_def .
  then show ?thesis
  proof (cases rule: op_bind_cases)
    case (1 e)
    then obtain e' where "?lock w = (Inl e', w')" by (auto simp: unavailable_def or_respond_def op_map_error_Inl)
    then show ?thesis by (rule lock)
  next
    case (2 x v)
    have "?lock w = (Inr x, v)" using 2(1) by (simp add: unavailable_def or_respond_def op_map_error_Inr)
    then have "idle_evicted settings ids w v" by (rule lock)
    moreover have "evicts {} v w'"
      using 2(2) ev.withinD [OF evicts_after, where S = "{}"] by (cases x) (auto simp: op_return_def evicts_same)
    ultimately show ?thesis by (rule idle_after)
  qed
qed

lemma unavailable_Inr: "unavailable phase message m w = (Inr x, w') \<longleftrightarrow> m w = (Inr x, w')"
  by (simp add: unavailable_def or_respond_def op_map_error_Inr)

text \<open>What the check does before it evicts.\<close>

lemma ensure_cases:
  assumes "ensureCacheCapacity rounds store phase ids w = (r, w')"
  obtains (early) "same_service w w'"
  | (evict) settings u f v where "same_service w v" "loadCapacitySettings (pw_config w) (fst (fs_stats w)) = Inr settings"
      "enforce_capacity rounds store phase ids settings u f v = (r, w')"
proof -
  let ?measure = "unavailable phase ''cannot measure state store filesystem'' filesystemStatsFn"
  let ?usage = "unavailable phase ''cannot measure cache usage'' (cacheUsageFn store)"
  have keep: "sv.keeps ?measure" "sv.keeps ?usage"
    unfolding unavailable_def by (intro sv.within_or_respond same_measurements)+
  show thesis
  proof (cases "is_none_config (pw_config w) \<or> TrimSpace store = []")
    case True
    then have "w' = w" using assms by (auto simp: ensureCacheCapacity_def op_bind_def get_world_def op_return_def)
    then show thesis using early by simp
  next
    case False
    then have "op_bind ?measure (\<lambda>(totalBytes, freeBytes).
         op_bind (unavailable phase ''cannot load cache capacity settings'' (op_of (loadCapacitySettings (pw_config w) totalBytes))) (\<lambda>settings.
           if cs_EffectiveMax settings \<le> 0
           then op_fail (capacityError ''cache_limit_too_small'' ''effective cache limit is too small'' phase)
           else op_bind ?usage (\<lambda>usageBytes.
               if \<not> isCapacityPressure usageBytes freeBytes settings then op_return (Some ())
               else enforce_capacity rounds store phase ids settings usageBytes freeBytes))) w = (r, w')" (is "op_bind _ ?rest w = _")
      using assms by (auto simp: ensureCacheCapacity_def op_bind_def get_world_def)
    then show thesis
    proof (cases rule: op_bind_cases)
      case (1 e)
      then show thesis using early sv.withinD [OF keep(1)] by blast
    next
      case (2 x v1)
      obtain t f where x: "x = (t, f)" by (cases x)
      have s1: "same_service w v1" by (rule sv.withinD [OF keep(1) 2(1)])
      have "filesystemStatsFn w = (Inr (t, f), v1)" using 2(1) x by (simp add: unavailable_Inr)
      then have t: "t = fst (fs_stats w)"
        by (auto simp: filesystemStatsFn_def p_asks_def p_outgoing_def Let_def fs_stats_def split: option.splits)
      show thesis
      proof (cases "loadCapacitySettings (pw_config w) t")
        case (Inl e)
        then have "w' = v1"
          using 2(2) by (auto simp: x op_bind_def unavailable_def or_respond_def op_map_error_def op_try_def op_of_def op_fail_def)
        then show thesis using early s1 by simp
      next
        case (Inr settings)
        show thesis
        proof (cases "cs_EffectiveMax settings \<le> 0")
          case True
          then have "w' = v1" using 2(2) Inr
            by (auto simp: x op_bind_def unavailable_def or_respond_def op_map_error_def op_try_def op_of_def op_fail_def op_return_def)
          then show thesis using early s1 by simp
        next
          case False
          then have "op_bind ?usage (\<lambda>usageBytes.
               if \<not> isCapacityPressure usageBytes f settings then op_return (Some ())
               else enforce_capacity rounds store phase ids settings usageBytes f) v1 = (r, w')"
            using 2(2) Inr
            by (auto simp: x op_bind_def unavailable_def or_respond_def op_map_error_def op_try_def op_of_def op_return_def)
          then show thesis
          proof (cases rule: op_bind_cases)
            case (1 e)
            then show thesis using early s1 sv.withinD [OF keep(2)] same_service_trans by blast
          next
            case (2 u v2)
            have s2: "same_service w v2" using s1 sv.withinD [OF keep(2) 2(1)] same_service_trans by blast
            show thesis
            proof (cases "isCapacityPressure u f settings")
              case True
              then show thesis using evict [OF s2] Inr t 2(2) by simp
            next
              case False
              then show thesis using early s2 2(2) by (simp add: op_return_def)
            qed
          qed
        qed
      qed
    qed
  qed
qed

text \<open>
  C22: Whatever fails, the capacity check changes no table but that of the states, and every state it
  removes is not protected, has no instance and no children, is past its retention and at least as old
  as the configured minimum.
\<close>

theorem evicted_states_are_idle:
  assumes "ensureCacheCapacity rounds store phase ids w = (r, w')" and "db_wf (pw_db w)"
  shows "\<exists>D n. pw_engine w' = (pw_engine w)\<lparr>w_db := drop_states D (pw_db w), w_calls := n\<rparr> \<and> pw_queue w' = pw_queue w
    \<and> (\<forall>s \<in> set (db_states (pw_db w)). sr_state_id s \<in> D \<longrightarrow>
         (\<exists>settings now. loadCapacitySettings (pw_config w) (fst (fs_stats w)) = Inr settings \<and> pw_now w \<le> now \<and> now \<le> pw_now w'
            \<and> evictable settings now (protected_ids ids) (pw_db w) s))"
  using assms(1)
proof (cases rule: ensure_cases)
  case early
  then show ?thesis
    by (auto simp: same_service_def pw_db_def intro!: exI [of _ "{}"])
next
  case (evict settings u f v)
  have "idle_evicted settings ids w w'" using enforce_idle [OF evict(3)] evicts_same [OF evict(1)] idle_before by blast
  then obtain S now where S: "evicts S w w'" "pw_now w \<le> now" "now \<le> pw_now w'"
    "\<forall>i \<in> S. \<exists>r \<in> set (db_states (pw_db w)). sr_state_id r = i \<and> evictable settings now (protected_ids ids) (pw_db w) r"
    by (auto simp: idle_evicted_def)
  obtain D n where D: "D \<subseteq> S" "pw_engine w' = (pw_engine w)\<lparr>w_db := drop_states D (pw_db w), w_calls := n\<rparr>" "pw_queue w' = pw_queue w"
    using S(1) by (auto simp: evicts_def)
  have "evictable settings now (protected_ids ids) (pw_db w) s" if s: "s \<in> set (db_states (pw_db w))" "sr_state_id s \<in> D" for s
  proof -
    obtain r where r: "r \<in> set (db_states (pw_db w))" "sr_state_id r = sr_state_id s" "evictable settings now (protected_ids ids) (pw_db w) r"
      using S(4) D(1) s(2) by blast
    then have "r = s" using assms(2) s(1) by (auto simp: db_wf_def dest: inj_onD [OF distinct_map [THEN iffD1, THEN conjunct2]])
    then show ?thesis using r(3) by simp
  qed
  then show ?thesis using D(2,3) evict(2) S(2,3) by blast
qed

end
