(* ===== verification/Engine_Config_Props.thy ===== *)
theory Engine_Config_Props
  imports Engine_Config
begin

text \<open>
  What the configuration promises: a value that was set is read back at its path, in the stored and
  in the effective view and after a restart; no other value changes; and the two watermarks
  stay ordered under every call of \<^verbatim>\<open>Set\<close> on one of their paths.
\<close>

subsection \<open>Reading and writing a path\<close>

lemma get_set: "getPathValue (setValue current segments v) segments = Some v"
  by (induction current segments v rule: setValue.induct)
    (auto simp: Let_def pad_list_def or_nil_def split: option.splits)

text \<open>Two paths that part at some segment.\<close>

fun diverges :: "pathSegment list \<Rightarrow> pathSegment list \<Rightarrow> bool" where
  "diverges (Key a # p) (Key b # q) \<longleftrightarrow> a \<noteq> b \<or> diverges p q"
| "diverges (Index i # p) (Index j # q) \<longleftrightarrow> i \<noteq> j \<or> diverges p q"
| "diverges _ _ \<longleftrightarrow> False"

lemma get_set_other:
  "diverges p q \<Longrightarrow> getPathValue current q = Some w \<Longrightarrow> getPathValue (setValue current p v) q = Some w"
proof (induction p q arbitrary: current rule: diverges.induct)
  case (1 a p b q)
  then obtain m x where m: "current = AMap m" "m b = Some x" "getPathValue x q = Some w"
    by (auto split: goAny.splits option.splits)
  then show ?case using 1 by (cases "a = b") (auto simp: as_map_def or_nil_def)
next
  case (2 i p j q)
  then obtain xs where xs: "current = AList xs" "j < length xs" "getPathValue (xs ! j) q = Some w"
    by (auto split: goAny.splits if_splits)
  then show ?case using 2 by (cases "i = j") (auto simp: as_list_def pad_list_def Let_def nth_append)
qed auto

lemma get_append: "getPathValue c (p @ q) = Option.bind (getPathValue c p) (\<lambda>x. getPathValue x q)"
  by (induction c p rule: getPathValue.induct) (auto split: goAny.splits option.splits)

subsection \<open>Reading through the defaults\<close>

fun is_map :: "goAny \<Rightarrow> bool" where
  "is_map (AMap _) = True"
| "is_map _ = False"

lemma merge_value_not_map: "\<not> is_map v \<Longrightarrow> merge_value v base = v"
  by (cases v) auto

lemma merge_value_map:
  "merge_value (AMap m) base =
     (case base of Some (AMap bm) \<Rightarrow> AMap (mergeMaps bm m) | _ \<Rightarrow> AMap m)"
  by (auto simp: mergeMaps_def fun_eq_iff split: option.splits goAny.splits)

declare merge_value.simps(8) [simp del]

lemma merge_root: "AMap (mergeMaps d o') = merge_value (AMap o') (Some (AMap d))"
  by (simp add: merge_value_map)

lemma get_merged:
  "getPathValue v p = Some x \<Longrightarrow> \<not> is_map x \<Longrightarrow> getPathValue (merge_value v base) p = Some x"
proof (induction v p arbitrary: base rule: getPathValue.induct)
  case (1 v)
  then show ?case by (simp add: merge_value_not_map)
next
  case (2 v i p)
  then show ?case by (auto split: goAny.splits if_splits)
next
  case (3 v k p)
  then obtain m y where m: "v = AMap m" "m k = Some y" "getPathValue y p = Some x"
    by (auto split: goAny.splits option.splits)
  show ?case
  proof (cases "\<exists>bm. base = Some (AMap bm)")
    case True
    then obtain bm where "base = Some (AMap bm)" by blast
    then show ?thesis using 3(1) [OF m(1) m(2) m(3) 3(3)] m by (simp add: merge_value_map mergeMaps_def)
  next
    case False
    then have "merge_value v base = v" unfolding m(1) merge_value_map by (auto split: option.splits goAny.splits)
    then show ?thesis using 3(2) by simp
  qed
qed

text \<open>Two paths that part at a key, with keys only before it.\<close>

fun keys_diverge :: "pathSegment list \<Rightarrow> pathSegment list \<Rightarrow> bool" where
  "keys_diverge (Key a # p) (Key b # q) \<longleftrightarrow> a \<noteq> b \<or> keys_diverge p q"
| "keys_diverge _ _ \<longleftrightarrow> False"

text \<open>The value at a key of a merged map.\<close>

definition merged :: "goAny option \<Rightarrow> goAny option \<Rightarrow> goAny option" where
  "merged v base = (case v of None \<Rightarrow> base | Some x \<Rightarrow> Some (merge_value x base))"

lemma mergeMaps_merged: "mergeMaps bm m k = merged (m k) (bm k)"
  by (simp add: mergeMaps_def merged_def)

lemma get_merged_other:
  "keys_diverge p q \<Longrightarrow> merged v base = Some y \<Longrightarrow> getPathValue y q = Some w
     \<Longrightarrow> getPathValue (merge_value (setValue (or_nil v) p u) base) q = Some w"
proof (induction p q arbitrary: v base y rule: keys_diverge.induct)
  case (1 a p b q)
  from 1(4) obtain ym where y: "y = AMap ym" by (cases y) auto
  then obtain x where x: "ym b = Some x" "getPathValue x q = Some w" using 1(4) by (auto split: option.splits)
  have step: "getPathValue z (Key b # q) = Some w" if "z = AMap zm" "a \<noteq> b \<Longrightarrow> zm b = Some x"
      "a = b \<Longrightarrow> keys_diverge p q \<Longrightarrow> \<exists>z'. zm b = Some z' \<and> getPathValue z' q = Some w" for z zm
    using that 1(2) x by (cases "a = b") auto
  show ?case
  proof (cases "\<exists>bm. base = Some (AMap bm)")
    case True
    then obtain bm where base: "base = Some (AMap bm)" by blast
    define m where "m = as_map (or_nil v)"
    have ym: "ym = mergeMaps bm m"
      using 1(3) base y merge_value_not_map
      by (cases v; cases "the v") (auto simp: merged_def m_def or_nil_def as_map_def merge_value_map mergeMaps_def)
    show ?thesis
    proof (simp only: setValue.simps Let_def m_def [symmetric] base merge_value_map option.case goAny.case,
        rule step [OF refl])
      show "a \<noteq> b \<Longrightarrow> mergeMaps bm (m(a \<mapsto> setValue (or_nil (m a)) p u)) b = Some x"
        using x(1) ym by (simp add: mergeMaps_def)
      show "\<exists>z'. mergeMaps bm (m(a \<mapsto> setValue (or_nil (m a)) p u)) b = Some z' \<and> getPathValue z' q = Some w"
        if ab: "a = b" and d: "keys_diverge p q"
      proof -
        have "merged (m b) (bm b) = Some x" using x(1) unfolding ym mergeMaps_merged .
        then show ?thesis using 1(1) [OF d _ x(2), of "m b" "bm b"] ab by (simp add: mergeMaps_def)
      qed
    qed
  next
    case False
    then have keep: "merge_value (AMap m) base = AMap m" for m
      unfolding merge_value_map by (auto split: option.splits goAny.splits)
    have v: "v = Some y"
      using 1(3) False y merge_value_not_map by (cases v; cases "the v") (auto simp: merged_def keep)
    show ?thesis
    proof (simp only: setValue.simps Let_def keep v or_nil_def option.case y as_map_def goAny.case, rule step [OF refl])
      show "a \<noteq> b \<Longrightarrow> (ym(a \<mapsto> setValue (case ym a of None \<Rightarrow> ANil | Some x \<Rightarrow> x) p u)) b = Some x" using x(1) by simp
      show "\<exists>z'. (ym(a \<mapsto> setValue (case ym a of None \<Rightarrow> ANil | Some x \<Rightarrow> x) p u)) b = Some z' \<and> getPathValue z' q = Some w"
        if ab: "a = b" and d: "keys_diverge p q"
      proof -
        have "merged (Some x) None = Some (merge_value x None)" by (simp add: merged_def)
        moreover have "merge_value x None = x" by (cases x) (simp_all add: merge_value_map)
        ultimately have "getPathValue (merge_value (setValue x p u) None) q = Some w"
          using 1(1) [OF d, of "Some x" None x] x(2) by (simp add: or_nil_def)
        moreover have "merge_value z None = z" for z by (cases z) (simp_all add: merge_value_map)
        ultimately show ?thesis using ab x(1) by simp
      qed
    qed
  qed
qed auto

subsection \<open>The file\<close>

lemma get_reload: "getPathValue (reload c) p = map_option reload (getPathValue c p)"
  by (induction c p rule: getPathValue.induct) (auto split: goAny.splits option.splits)

lemma reload_map [simp]: "is_map (reload v) = is_map v"
  by (cases v) (auto split: option.splits)

lemma atomicWriteFile_ok: "atomicWriteFile fault data file = (Inr u, file') \<Longrightarrow> file' = Some data"
  by (auto simp: atomicWriteFile_def split: option.splits)

subsection \<open>Set\<close>

lemma parsePath_not_Nil: "parsePath path = Inr segments \<Longrightarrow> segments \<noteq> [] \<Longrightarrow> path \<noteq> []"
  by (auto simp: parsePath_def TrimSpace_def)

lemma config_Set_ok:
  assumes "config_Set fault path v m = (Inr x, m')"
  obtains segments o' where "parsePath path = Inr segments" "segments \<noteq> []" "x = v" "validateValue path v = Inr ()"
    "setValue (AMap (cm_overrides m)) segments v = AMap o'"
    "validateCacheConstraintsForPath path (cm_defaults m) o' = Inr ()"
    "m' = m\<lparr>cm_file := Some o', cm_overrides := o'\<rparr>"
proof -
  obtain segments where s: "parsePath path = Inr segments" "segments \<noteq> []"
    using assms by (auto simp: config_Set_def split: sum.splits if_splits)
  obtain o' where o': "validateValue path v = Inr ()" "setPathValue (cm_overrides m) segments v = Inr o'"
      "validateCacheConstraintsForPath path (cm_defaults m) o' = Inr ()"
      "write_overrides fault o' v m = (Inr x, m')"
    using assms s by (auto simp: config_Set_def res_bind_Inr_iff split: sum.splits)
  have "setValue (AMap (cm_overrides m)) segments v = AMap o'"
    using o'(2) by (auto simp: setPathValue_def split: goAny.splits)
  moreover have "m' = m\<lparr>cm_file := Some o', cm_overrides := o'\<rparr>" "x = v"
    using o'(4) by (auto simp: write_overrides_def split: prod.splits sum.splits dest: atomicWriteFile_ok)
  ultimately show ?thesis using that s o' by blast
qed

lemma config_Get_Inr:
  "config_Get m path effective = Inr v \<longleftrightarrow>
     (\<exists>segments. parsePath path = Inr segments \<and> getPathValue (config_root m effective) segments = Some v)"
  by (auto simp: config_Get_def split: sum.splits option.splits)

lemma failed_set_keeps_overrides:
  "config_Set fault path v m = (Inl e, m') \<Longrightarrow> cm_overrides m' = cm_overrides m \<and> cm_defaults m' = cm_defaults m"
  by (auto simp: config_Set_def write_overrides_def split: sum.splits if_splits prod.splits)

lemma effective_after_set:
  assumes "setValue (AMap (cm_overrides m)) segments v = AMap o'" and "keys_diverge segments q"
    and "getPathValue (config_root m True) q = Some w"
  shows "getPathValue (AMap (mergeMaps (cm_defaults m) o')) q = Some w"
proof -
  have "merged (Some (AMap (cm_overrides m))) (Some (AMap (cm_defaults m))) = Some (config_root m True)"
    by (simp add: merged_def config_root_def merge_root)
  then show ?thesis
    using get_merged_other [OF assms(2) _ assms(3), where v = "Some (AMap (cm_overrides m))" and u = v]
    by (simp add: or_nil_def assms(1) merge_root)
qed


text \<open>A configuration with no overrides, and the result of a call all of whose writes succeed.\<close>

definition fresh_config :: ConfigManager where
  "fresh_config = NewConfigManager None None None"

text \<open>The manager after a call that succeeded.\<close>

definition config_set_ok :: "bytes \<Rightarrow> goAny \<Rightarrow> ConfigManager \<Rightarrow> ConfigManager option" where
  "config_set_ok path v m = (case config_Set (\<lambda>_. None) path v m of (Inl _, _) \<Rightarrow> None | (Inr _, m') \<Rightarrow> Some m')"

definition config_remove_ok :: "bytes \<Rightarrow> ConfigManager \<Rightarrow> ConfigManager option" where
  "config_remove_ok path m = (case config_Remove (\<lambda>_. None) path m of (Inl _, _) \<Rightarrow> None | (Inr _, m') \<Rightarrow> Some m')"

lemma ex_config_set: "\<not> isl (fst (config_Set (\<lambda>_. None) ''log.level'' (AString ''warn'') fresh_config))"
  by code_simp


text \<open>
  A path with a dot at its end names the same value and is not validated: a text becomes the size
  limit of the cache.
\<close>

theorem trailing_dot_skips_validation:
  "isl (fst (config_Set (\<lambda>_. None) ''cache.capacity.maxBytes'' (AString ''x'') fresh_config))
   \<and> \<not> isl (fst (config_Set (\<lambda>_. None) ''cache.capacity.maxBytes.'' (AString ''x'') fresh_config))
   \<and> (case config_Get (snd (config_Set (\<lambda>_. None) ''cache.capacity.maxBytes.'' (AString ''x'') fresh_config)) ''cache.capacity.maxBytes'' True of
        Inr (AString s) \<Rightarrow> s = ''x'' | _ \<Rightarrow> False)"
  by code_simp

end
