(* ===== verification/Cache_Eviction.thy ===== *)
theory Cache_Eviction
  imports Cache_Capacity_Props Engine_Config_Props Deletion_Props
begin

text \<open>
  What an eviction does when no call fails: which states it considers, in which order it removes them and
  where it stops.
\<close>

subsection \<open>Calls that do not fail\<close>

definition calm :: "prepareWorld \<Rightarrow> bool" where
  "calm w \<longleftrightarrow> w_fault (pw_engine w) = (\<lambda>_. None)"

definition called :: "prepareWorld \<Rightarrow> prepareWorld" where
  "called w = w\<lparr>pw_engine := (pw_engine w)\<lparr>w_calls := Suc (w_calls (pw_engine w))\<rparr>\<rparr>"

lemma called_parts [simp]:
  "pw_disk (called w) = pw_disk w" "pw_db (called w) = pw_db w" "pw_statfs (called w) = pw_statfs w"
  "pw_now (called w) = pw_now w" "calm (called w) = calm w" "pw_evictLock (called w) = pw_evictLock w"
  "pw_tick (called w) = pw_tick w" "pw_ticks (called w) = pw_ticks w"
  "same_service w (called w)"
  by (simp_all add: called_def pw_db_def calm_def same_service_calls)

lemma calm_calls:
  assumes "calm w"
  shows "p_outgoing f w = f (called w)" and "p_asks g w = (Inr (g (called w)), called w)"
    and "p_result h w = (h (called w), called w)" and "p_modify k w = (Inr (), k (called w))"
    and "p_read j w = (Inr (j (pw_db w)), called w)" and "p_check_ctx w = (Inr (), called w)"
proof -
  show p: "p_outgoing f w = f (called w)" for f :: "'x pop"
    using assms by (simp add: p_outgoing_def calm_def called_def Let_def)
  show "p_asks g w = (Inr (g (called w)), called w)" "p_result h w = (h (called w), called w)" "p_modify k w = (Inr (), k (called w))"
    by (simp_all add: p_asks_def p_result_def p_modify_def p)
  show "p_read j w = (Inr (j (pw_db w)), called w)" "p_check_ctx w = (Inr (), called w)"
    using assms by (simp_all add: p_read_def p_check_ctx_def on_engine_def db_read_def asks_def outgoing_def check_ctx_def
        op_map_error_def op_try_def op_return_def calm_def called_def pw_db_def Let_def)
qed

lemma same_calm: "same_service w w' \<Longrightarrow> calm w' = calm w"
  by (auto simp: same_service_def calm_def)

lemma same_disk: "same_service w w' \<Longrightarrow> pw_disk w' = pw_disk w \<and> pw_statfs w' = pw_statfs w"
  by (auto simp: same_service_def)

subsection \<open>The candidates\<close>

text \<open>A blank id is no filter, so a state without a proper id is never found to be without children.\<close>

lemma no_children_iff:
  assumes "TrimSpace (sr_state_id r) \<noteq> []"
  shows "ListStates (children_filter (sr_state_id r)) db = []
    \<longleftrightarrow> (\<forall>c \<in> set (db_states db). sr_parent_state_id c \<noteq> Some (TrimSpace (sr_state_id r)))"
proof -
  have "TrimSpace [] = []" by (simp add: TrimSpace_def)
  then show ?thesis using assms
    by (auto simp: ListStates_def children_filter_def no_filters_def addFilter_def addPrefixFilter_def filter_empty_conv)
qed

lemma entry_ids: "se_StateID (state_entry db r) = sr_state_id r"
  "se_RefCount (state_entry db r) = length (filter (\<lambda>i. ir_state_id i = sr_state_id r) (db_instances db))"
  by (simp_all add: state_entry_def)

lemma evictable_iff:
  assumes "TrimSpace (sr_state_id r) \<noteq> []"
  shows "evictable settings now protected db r \<longleftrightarrow>
     sr_state_id r \<notin> protected \<and> \<not> 0 < se_RefCount (state_entry db r)
     \<and> ListStates (children_filter (sr_state_id r)) db = [] \<and> \<not> retained now (state_entry db r) \<and> \<not> too_young settings now (state_entry db r)"
  unfolding evictable_def no_children_iff [OF assms] entry_ids by (simp add: filter_empty_conv)

text \<open>The last use of a state as its row records it, in place of a missing or unreadable time its creation, and in place of that the time of the check.\<close>

definition last_use :: "int \<Rightarrow> StateRow \<Rightarrow> int" where
  "last_use now r =
     (case Option.bind (nonblank (sr_last_used_at r)) (\<lambda>t. parse_RFC3339 (TrimSpace t)) of
        Some t \<Rightarrow> t
      | None \<Rightarrow> (case parse_RFC3339 (TrimSpace (sr_created_at r)) of Some t \<Rightarrow> t | None \<Rightarrow> now))"

text \<open>The recorded size of a state, or what its directory on the disk takes.\<close>

definition directory_size :: "bytes \<Rightarrow> node \<Rightarrow> StateRow \<Rightarrow> int" where
  "directory_size store disk r =
     (case resolveStatePaths store (sr_image_id r) (sr_state_id r) of
        Inl _ \<Rightarrow> 0
      | Inr paths \<Rightarrow> (case measureStoreUsage disk (sp_stateDir paths) of Inl _ \<Rightarrow> 0 | Inr m \<Rightarrow> max 0 m))"

definition row_size :: "bytes \<Rightarrow> node \<Rightarrow> StateRow \<Rightarrow> int" where
  "row_size store disk r =
     (case sr_size_bytes r of Some n \<Rightarrow> if 0 < n then n else directory_size store disk r | None \<Rightarrow> directory_size store disk r)"

definition candidate_of :: "bytes \<Rightarrow> node \<Rightarrow> int \<Rightarrow> StateRow \<Rightarrow> evictCandidate" where
  "candidate_of store disk now r =
     \<lparr>ec_StateID = sr_state_id r, ec_ImageID = sr_image_id r,
      ec_CreatedAt = (case parse_RFC3339 (TrimSpace (sr_created_at r)) of Some t \<Rightarrow> t | None \<Rightarrow> now),
      ec_LastUsedAt = last_use now r, ec_SizeBytes = row_size store disk r\<rparr>"

text \<open>The rows that may be evicted, the least recently used first, of equal times the larger first, then by id.\<close>

definition eviction_order :: "bytes \<Rightarrow> capacitySettings \<Rightarrow> int \<Rightarrow> bytes list \<Rightarrow> prepareWorld \<Rightarrow> StateRow list" where
  "eviction_order store settings now ids w =
     sort_key (\<lambda>r. (last_use now r, - row_size store (pw_disk w) r, sr_state_id r))
       (filter (evictable settings now (protected_ids ids) (pw_db w)) (db_states (pw_db w)))"

lemma entry_last_use: "lastUsedAt now (state_entry db r) = last_use now r"
proof -
  have "parseRFC3339Any t = parse_RFC3339 (TrimSpace t)" if "nonblank (sr_last_used_at r) = Some t" for t
    using that by (auto simp: parseRFC3339Any_def nonblank_def split: option.splits if_splits)
  then show ?thesis
    by (cases "nonblank (sr_last_used_at r)")
      (auto simp: lastUsedAt_def createdAt_def last_use_def state_entry_def default_to_def split: option.splits)
qed

lemma directory_size_calm:
  assumes "calm w"
  shows "\<exists>v. (case resolveStatePaths store (sr_image_id r) (sr_state_id r) of Inl _ \<Rightarrow> op_return 0
           | Inr paths \<Rightarrow> op_try (storeUsageFn (sp_stateDir paths)) (\<lambda>q. op_return (case q of Inl _ \<Rightarrow> 0 | Inr m \<Rightarrow> max 0 m))) w
      = (Inr (directory_size store (pw_disk w) r) :: engineError + int, v) \<and> same_service w v"
proof (cases "resolveStatePaths store (sr_image_id r) (sr_state_id r)")
  case (Inl e)
  then show ?thesis by (simp add: op_return_def directory_size_def)
next
  case (Inr paths)
  then show ?thesis using assms called_parts(9) [of w]
    by (auto simp: op_return_def op_try_def storeUsageFn_def calm_calls directory_size_def)
qed

lemma entry_size_calm:
  assumes "calm w"
  shows "\<exists>v. entry_size store (state_entry db r) w = (Inr (row_size store (pw_disk w) r), v) \<and> same_service w v"
  using directory_size_calm [OF assms, of store r]
  by (cases "sr_size_bytes r") (auto simp: entry_size_def row_size_def state_entry_def op_return_def)

lemma scan_entry_calm:
  assumes "calm w" and "pw_db w = db" and "TrimSpace (sr_state_id r) \<noteq> []"
  shows "\<exists>v. scan_entry store settings now protected (state_entry db r) w
      = (Inr (if evictable settings now protected db r then Some (candidate_of store (pw_disk w) now r) else None), v) \<and> same_service w v"
proof -
  let ?e = "state_entry db r"
  obtain v where n: "entry_size store ?e (called w) = (Inr (row_size store (pw_disk w) r), v)" "same_service (called w) v"
    using entry_size_calm [of "called w" store db r] assms(1) by auto
  have v: "same_service w v" using n(2) same_service_trans called_parts(9) by blast
  have c: "createdAt now ?e = (case parse_RFC3339 (TrimSpace (sr_created_at r)) of Some t \<Rightarrow> t | None \<Rightarrow> now)" "se_ImageID ?e = sr_image_id r"
    by (simp_all add: createdAt_def state_entry_def default_to_def)
  show ?thesis
    using n(1) v assms(1,2) unfolding scan_entry_def evictable_iff [OF assms(3)] entry_ids(1)
    by (simp add: op_bind_def op_return_def calm_calls candidate_of_def entry_last_use c)
qed

lemma scan_entries_calm:
  assumes "calm w" and "pw_db w = db" and "\<forall>r \<in> set rows. TrimSpace (sr_state_id r) \<noteq> []"
  shows "\<exists>b n v. scan_entries store settings now protected (map (state_entry db) rows) w
      = (Inr (map (candidate_of store (pw_disk w) now) (filter (evictable settings now protected db) rows), b, n), v) \<and> same_service w v"
  using assms
proof (induction rows arbitrary: w)
  case Nil
  then show ?case by (simp add: op_return_def)
next
  case (Cons r rows)
  have r_named: "TrimSpace (sr_state_id r) \<noteq> []" using Cons.prems(3) by simp
  obtain v where q: "scan_entry store settings now protected (state_entry db r) w
      = (Inr (if evictable settings now protected db r then Some (candidate_of store (pw_disk w) now r) else None), v)" "same_service w v"
    using scan_entry_calm [OF Cons.prems(1,2) r_named] by blast
  have v: "calm v" "pw_db v = db" "pw_disk v = pw_disk w"
    using Cons.prems(1,2) same_calm [OF q(2)] same_db [OF q(2)] same_disk [OF q(2)] by simp_all
  have names: "\<forall>r \<in> set rows. TrimSpace (sr_state_id r) \<noteq> []" using Cons.prems(3) by simp
  obtain b n v' where rest: "scan_entries store settings now protected (map (state_entry db) rows) v
      = (Inr (map (candidate_of store (pw_disk w) now) (filter (evictable settings now protected db) rows), b, n), v')" "same_service v v'"
    using Cons.IH [OF v(1,2) names] unfolding v(3) by blast
  have "same_service w v'" using q(2) rest(2) same_service_trans by blast
  then show ?case using q(1) rest(1) by (simp add: op_bind_def op_return_def)
qed

lemma sort_key_of_map: "sort_key k (map f xs) = map f (sort_key (\<lambda>x. k (f x)) xs)"
proof -
  have "insort_key k (f x) (map f ys) = map f (insort_key (\<lambda>x. k (f x)) x ys)" for x ys
    by (induction ys) simp_all
  then show ?thesis by (induction xs) simp_all
qed

lemma candidates_calm:
  assumes "calm w" and "\<forall>r \<in> set (db_states (pw_db w)). TrimSpace (sr_state_id r) \<noteq> []"
  obtains now b n v where
    "listEvictionCandidates store settings ids w
       = (Inr (map (candidate_of store (pw_disk w) now) (eviction_order store settings now ids w), b, n), v)"
    "same_service w v" "pw_now w \<le> now" "now \<le> pw_now v"
proof -
  let ?db = "pw_db w"
  obtain now v1 where clock: "read_clock (called w) = (Inr now :: engineError + int, v1)" by (auto simp: read_clock_def Let_def)
  have s1: "same_service w v1" using sv.withinD [OF sv.within_clock(1) clock] same_service_trans called_parts(9) by blast
  have now: "now = pw_now v1" "pw_now w \<le> now" using clock by (auto simp: read_clock_def Let_def)
  have disk: "pw_disk v1 = pw_disk w" using same_disk [OF s1] by simp
  obtain b n v where scan: "scan_entries store settings now (protected_ids ids) (map (state_entry ?db) (db_states ?db)) v1
      = (Inr (map (candidate_of store (pw_disk w) now) (filter (evictable settings now (protected_ids ids) ?db) (db_states ?db)), b, n), v)"
    "same_service v1 v"
    using scan_entries_calm [of v1 ?db "db_states ?db"] assms(2) assms(1) [folded same_calm [OF s1]] same_db [OF s1] unfolding disk by blast
  have "candidate_key (candidate_of store (pw_disk w) now r) = (last_use now r, - row_size store (pw_disk w) r, sr_state_id r)" for r
    by (simp add: candidate_key_def candidate_of_def)
  then have "listEvictionCandidates store settings ids w
      = (Inr (map (candidate_of store (pw_disk w) now) (eviction_order store settings now ids w), b, n), v)"
    using scan(1) clock assms
    by (simp add: listEvictionCandidates_def op_bind_def op_return_def calm_calls all_listed eviction_order_def sort_key_of_map)
  moreover have "same_service w v" using s1 scan(2) same_service_trans by blast
  moreover have "now \<le> pw_now v" using scan(2) now(1) by (auto simp: same_service_def)
  ultimately show ?thesis using that now(2) by blast
qed

subsection \<open>Directories that can be read\<close>

text \<open>Every directory below can be listed, so that a measurement does not fail.\<close>

fun readable :: "node \<Rightarrow> bool" and readables :: "(bytes \<times> node) list \<Rightarrow> bool" where
  "readable (NFile content) = True"
| "readable (NBad e) = False"
| "readable (NDir entries) = readables entries"
| "readables [] = True"
| "readables ((name, n) # rest) = (readable n \<and> readables rest)"

lemma readables_iff: "readables entries \<longleftrightarrow> (\<forall>e \<in> set entries. readable (snd e))"
  by (induction entries) auto

lemma walk_readable: "readable n \<Longrightarrow> \<exists>m. walk_usage n = Inr m"
  and "readables es \<Longrightarrow> \<exists>m. walk_entries es = Inr m"
  by (induction n and es rule: walk_usage_walk_entries.induct) auto

lemma readable_remove: "readable n \<Longrightarrow> readable (node_remove n es)"
proof (induction n es rule: node_remove.induct)
  case (2 n e es)
  then show ?case
    by (cases n) (auto simp: readables_iff split: if_splits)
qed simp

lemma readable_at: "readable n \<Longrightarrow> node_at n es = Some m \<Longrightarrow> readable m"
proof (induction n es rule: node_at.induct)
  case (2 n e es)
  then show ?case by (cases n) (fastforce simp: readables_iff split: option.splits dest: map_of_SomeD)+
qed simp

lemma sum_usage_readable: "\<forall>x \<in> set xs. \<exists>m. f x = Inr m \<Longrightarrow> \<exists>m. sum_usage f xs = Inr m"
  by (induction xs) auto

lemma list_dir_readable: "readable n \<Longrightarrow> \<exists>es. list_dir n = Inr es \<and> readables es"
  by (cases n) (auto simp: list_dir_def)

lemma states_usage_readable:
  assumes "readable n"
  shows "\<exists>m. states_usage n = Inr m"
proof (cases "node_at n [''states'']")
  case None
  then show ?thesis by (cases n) (simp_all add: states_usage_def)
next
  case (Some s)
  have "\<exists>m. walk_usage s = Inr m" by (rule walk_readable(1) [OF readable_at [OF assms Some]])
  then show ?thesis using Some by (cases n) (simp_all add: states_usage_def)
qed

lemma engine_usage_readable:
  assumes "readable (snd e)"
  shows "\<exists>m. engine_usage e = Inr m"
proof -
  obtain versions where v: "list_dir (snd e) = Inr versions" "readables versions" using list_dir_readable [OF assms] by blast
  have "\<exists>m. states_usage (snd x) = Inr m" if "x \<in> set versions" for x
    by (rule states_usage_readable) (use v(2) that in \<open>simp add: readables_iff\<close>)
  then have "\<exists>m. sum_usage (states_usage \<circ> snd) versions = Inr m" by (intro sum_usage_readable) simp
  then show ?thesis by (simp add: engine_usage_def v(1))
qed

lemma measure_readable:
  assumes "readable disk"
  shows "\<exists>m. measureCacheUsage disk store = Inr m"
proof (cases "file_at disk (path_Join [TrimSpace store, ''engines''])")
  case None
  then show ?thesis by (simp add: measureCacheUsage_def)
next
  case (Some n)
  then have "readable n" using assms readable_at by (auto simp: file_at_def)
  then obtain engines where e: "list_dir n = Inr engines" "readables engines" using list_dir_readable by blast
  then have "\<exists>m. sum_usage engine_usage engines = Inr m"
    by (intro sum_usage_readable) (auto simp: readables_iff engine_usage_readable)
  then show ?thesis using e Some by (simp add: measureCacheUsage_def)
qed

subsection \<open>The loop\<close>

definition state_dir_of :: "bytes \<Rightarrow> evictCandidate \<Rightarrow> bytes" where
  "state_dir_of store c = (case resolveStatePaths store (ec_ImageID c) (ec_StateID c) of Inl _ \<Rightarrow> [] | Inr p \<Rightarrow> TrimSpace (sp_stateDir p))"

definition without_state :: "bytes \<Rightarrow> evictCandidate \<Rightarrow> node \<Rightarrow> node" where
  "without_state store c disk = (if state_dir_of store c = [] then disk else remove_at disk (state_dir_of store c))"

definition without_states :: "bytes \<Rightarrow> evictCandidate list \<Rightarrow> node \<Rightarrow> node" where
  "without_states store cs disk = fold (without_state store) cs disk"

text \<open>Usage and free space as measured on a disk.\<close>

definition figures :: "bytes \<Rightarrow> prepareWorld \<Rightarrow> node \<Rightarrow> int \<times> int" where
  "figures store w disk =
     ((case measureCacheUsage disk store of Inl _ \<Rightarrow> 0 | Inr u \<Rightarrow> u), snd (filesystemStats (pw_statfs w disk)))"

definition above_target :: "capacitySettings \<Rightarrow> int \<times> int \<Rightarrow> bool" where
  "above_target settings m \<longleftrightarrow>
     threshold settings (cs_LowWatermark settings) < fst m \<or> snd m < cs_ReserveBytes settings"

text \<open>The figures after the first \<open>k\<close> candidates are gone, the given ones before the first.\<close>

definition figures_after :: "bytes \<Rightarrow> prepareWorld \<Rightarrow> int \<times> int \<Rightarrow> evictCandidate list \<Rightarrow> nat \<Rightarrow> int \<times> int" where
  "figures_after store w m cs k = (if k = 0 then m else figures store w (without_states store (take k cs) (pw_disk w)))"

lemma readable_without: "readable disk \<Longrightarrow> readable (without_state store c disk)"
  by (simp add: without_state_def remove_at_def readable_remove)

lemma calm_drop:
  "calm (w\<lparr>pw_disk := d\<rparr>) = calm w" "pw_db (w\<lparr>pw_disk := d\<rparr>) = pw_db w"
  by (simp_all add: calm_def pw_db_def)

lemma calm_DeleteState:
  assumes "calm w" and "\<forall>i \<in> set (db_instances (pw_db w)). ir_state_id i \<noteq> s"
  shows "p_write (DeleteState s) w = (Inr (), w\<lparr>pw_engine := (pw_engine w)\<lparr>w_db := drop_states {s} (pw_db w), w_calls := Suc (w_calls (pw_engine w))\<rparr>\<rparr>)"
proof -
  have "DeleteState s (pw_db w) = Some (drop_states {s} (pw_db w))" using assms(2) by (auto simp: DeleteState_def drop_states_def)
  then show ?thesis using assms(1)
    by (simp add: p_write_def on_engine_def db_write_def outgoing_def pw_db_def calm_def Let_def)
qed

lemma calm_RemovePath:
  assumes "calm w"
  obtains v where "RemovePath path w = (Inr (), v)" "calm v" "pw_db v = pw_db w" "pw_statfs v = pw_statfs w"
    "pw_disk v = (if TrimSpace path = [] then pw_disk w else remove_at (pw_disk w) (TrimSpace path))"
proof (cases "TrimSpace path = []")
  case True
  then show ?thesis using that [of w] assms by (simp add: RemovePath_def op_return_def)
next
  case False
  then show ?thesis using that [of "(called w)\<lparr>pw_disk := remove_at (pw_disk (called w)) (TrimSpace path)\<rparr>"] assms
    by (simp add: RemovePath_def calm_calls calm_drop)
qed

lemma calm_delete_candidate:
  assumes "calm w" and "\<forall>i \<in> set (db_instances (pw_db w)). ir_state_id i \<noteq> ec_StateID c"
    and "resolveStatePaths store (ec_ImageID c) (ec_StateID c) = Inr p"
  shows "\<exists>v. deleteEvictionCandidate store c w = (Inr (), v) \<and> calm v \<and> pw_db v = drop_states {ec_StateID c} (pw_db w)
    \<and> pw_disk v = without_state store c (pw_disk w) \<and> pw_statfs v = pw_statfs w"
proof -
  obtain v where v: "RemovePath (sp_stateDir p) w = (Inr (), v)" "calm v" "pw_db v = pw_db w"
    "pw_statfs v = pw_statfs w"
    "pw_disk v = without_state store c (pw_disk w)"
    by (rule calm_RemovePath [OF assms(1), where path = "sp_stateDir p"]) (simp add: without_state_def state_dir_of_def assms(3))
  have "deleteEvictionCandidate store c w = p_write (DeleteState (ec_StateID c)) v"
    using v(1) by (simp add: deleteEvictionCandidate_def op_bind_def op_of_def assms(3))
  then show ?thesis using calm_DeleteState [OF v(2), of "ec_StateID c"] assms(2) v by (auto simp: calm_def pw_db_def)
qed

lemma calm_measure:
  assumes "calm w" and "readable (pw_disk w)"
  shows "cacheUsageFn store w = (Inr (fst (figures store w (pw_disk w))), called w)"
    and "filesystemStatsFn w = (Inr (fst (fs_stats w), snd (figures store w (pw_disk w))), called w)"
  using measure_readable [OF assms(2), of store] assms(1)
  by (auto simp: cacheUsageFn_def filesystemStatsFn_def calm_calls figures_def fs_stats_def)

lemma figures_after_Suc:
  assumes "pw_disk v = without_state store c (pw_disk w)" and "pw_statfs v = pw_statfs w"
  shows "figures_after store w m (c # cs) (Suc k) = figures_after store v (figures store v (pw_disk v)) cs k"
  using assms by (simp add: figures_after_def figures_def without_states_def)

text \<open>The world after the first \<open>n\<close> candidates were evicted, and where the loop stops.\<close>

definition evicted_prefix ::
    "bytes \<Rightarrow> capacitySettings \<Rightarrow> evictCandidate list \<Rightarrow> int \<times> int \<Rightarrow> prepareWorld \<Rightarrow> prepareWorld \<Rightarrow> nat \<Rightarrow> bool" where
  "evicted_prefix store settings cs m w w' n \<longleftrightarrow>
     n \<le> length cs \<and> pw_db w' = drop_states (ec_StateID ` set (take n cs)) (pw_db w)
     \<and> pw_disk w' = without_states store (take n cs) (pw_disk w)
     \<and> (\<forall>k < n. above_target settings (figures_after store w m cs k))
     \<and> (n < length cs \<longrightarrow> \<not> above_target settings (figures_after store w m cs n))"

lemma evicted_prefix_Suc:
  assumes "above_target settings m" and "pw_disk v = without_state store c (pw_disk w)" and "pw_statfs v = pw_statfs w"
    and "pw_db v = drop_states {ec_StateID c} (pw_db w)"
    and "evicted_prefix store settings cs (figures store v (pw_disk v)) v w' n"
  shows "evicted_prefix store settings (c # cs) m w w' (Suc n)"
proof -
  have "above_target settings (figures_after store w m (c # cs) k)" if "k < Suc n" for k
  proof (cases k)
    case 0
    then show ?thesis using assms(1) by (simp add: figures_after_def)
  next
    case (Suc j)
    then show ?thesis using that assms(5) by (simp add: figures_after_Suc [OF assms(2,3)] evicted_prefix_def)
  qed
  then show ?thesis using assms(5)
    by (auto simp: evicted_prefix_def figures_after_Suc [OF assms(2,3)] assms(2,4) drop_states_drop without_states_def)
qed

lemma evict_loop_calm:
  assumes "calm w" and "readable (pw_disk w)"
    and "\<forall>c \<in> set cs. \<forall>i \<in> set (db_instances (pw_db w)). ir_state_id i \<noteq> ec_StateID c"
    and "\<forall>c \<in> set cs. \<exists>p. resolveStatePaths store (ec_ImageID c) (ec_StateID c) = Inr p"
  shows "\<exists>n w'. evict_loop store settings cs (fst m) (snd m) w = (Inr (n, sum_list (map ec_SizeBytes (take n cs))), w')
    \<and> evicted_prefix store settings cs m w w' n"
  using assms
proof (induction cs arbitrary: w m)
  case Nil
  then show ?case by (auto simp: op_return_def evicted_prefix_def without_states_def)
next
  case (Cons c cs)
  show ?case
  proof (cases "above_target settings m")
    case False
    then have "evict_loop store settings (c # cs) (fst m) (snd m) w = (Inr (0, 0), called w)"
      using Cons.prems(1) by (auto simp: op_bind_def calm_calls op_return_def above_target_def)
    moreover have "evicted_prefix store settings (c # cs) m w (called w) 0"
      using False by (simp add: evicted_prefix_def without_states_def figures_after_def)
    ultimately show ?thesis by force
  next
    case True
    obtain p where p: "resolveStatePaths store (ec_ImageID c) (ec_StateID c) = Inr p" using Cons.prems(4) by auto
    obtain v where v: "deleteEvictionCandidate store c (called w) = (Inr (), v)" "calm v"
      "pw_db v = drop_states {ec_StateID c} (pw_db w)" "pw_disk v = without_state store c (pw_disk w)" "pw_statfs v = pw_statfs w"
      using calm_delete_candidate [of "called w" c, OF _ _ p] Cons.prems(1,3) by auto
    have readable_v: "readable (pw_disk v)" using v(4) Cons.prems(2) by (simp add: readable_without)
    let ?v = "called (called v)" and ?m = "figures store v (pw_disk v)"
    have same: "figures store ?v (pw_disk ?v) = ?m" by (simp add: figures_def)
    obtain n w' where n: "evict_loop store settings cs (fst ?m) (snd ?m) ?v = (Inr (n, sum_list (map ec_SizeBytes (take n cs))), w')"
      "evicted_prefix store settings cs ?m ?v w' n"
      using Cons.IH [of ?v ?m] readable_v v(2,3) Cons.prems(3,4) by (auto simp: drop_states_def)
    have prefix: "evicted_prefix store settings (c # cs) m w w' (Suc n)"
      by (rule evicted_prefix_Suc [where v = ?v, OF True], simp_all only: same n(2)) (simp_all add: v(3-5))
    have "evict_loop store settings (c # cs) (fst m) (snd m) w
        = op_bind (cacheUsageFn store) (\<lambda>updatedUsage. op_bind filesystemStatsFn (\<lambda>(_, updatedFree).
            op_bind (evict_loop store settings cs updatedUsage updatedFree) (\<lambda>(n, freed). op_return (Suc n, ec_SizeBytes c + freed)))) v"
      using True Cons.prems(1) v(1) by (auto simp: op_bind_def [of p_check_ctx] calm_calls op_try_def above_target_def)
    also have "\<dots> = op_bind (evict_loop store settings cs (fst ?m) (snd ?m)) (\<lambda>(n, freed). op_return (Suc n, ec_SizeBytes c + freed)) ?v"
      using calm_measure [of v store] calm_measure [of "called v" store] v(2) readable_v
      by (simp add: op_bind_def [of "cacheUsageFn store"] op_bind_def [of filesystemStatsFn] figures_def)
    also have "\<dots> = (Inr (Suc n, sum_list (map ec_SizeBytes (take (Suc n) (c # cs)))), w')"
      using n(1) by (simp add: op_bind_def op_return_def)
    finally show ?thesis using prefix by blast
  qed
qed

subsection \<open>Least recently used first, and no more than needed\<close>

text \<open>
  C23: When no call fails, the directories can be read and neither the store's path nor an id is blank, an
  eviction considers exactly the rows that may go, in the order of their recorded last use (in place of a
  missing or unreadable time their creation, in place of that the time of the check; of equal times the
  larger first, then by id); it removes a prefix of them with their directories, each only while usage is
  above the low watermark or free space below the reserve, stops as soon as neither holds, and reports
  their number and size.
\<close>

theorem eviction_is_lru_and_minimal:
  assumes "runEviction store settings u f ids w = (r, w')" and "calm w" and "readable (pw_disk w)"
    and "\<forall>s \<in> set (db_states (pw_db w)). TrimSpace (sr_state_id s) \<noteq> []" and "TrimSpace store \<noteq> []"
  shows "\<exists>now rows summary n. r = Inr summary \<and> pw_now w \<le> now \<and> now \<le> pw_now w'
    \<and> mset rows = mset (filter (evictable settings now (protected_ids ids) (pw_db w)) (db_states (pw_db w)))
    \<and> sorted (map (\<lambda>s. (last_use now s, - row_size store (pw_disk w) s, sr_state_id s)) rows)
    \<and> evicted_prefix store settings (map (candidate_of store (pw_disk w) now) rows) (u, f) w w' n
    \<and> es_EvictedCount summary = n \<and> es_FreedBytes summary = sum_list (map (row_size store (pw_disk w)) (take n rows))"
proof -
  obtain now b k v where list: "listEvictionCandidates store settings ids w
       = (Inr (map (candidate_of store (pw_disk w) now) (eviction_order store settings now ids w), b, k), v)"
    "same_service w v" "pw_now w \<le> now" "now \<le> pw_now v"
    by (rule candidates_calm [OF assms(2,4)])
  let ?rows = "eviction_order store settings now ids w"
  let ?cs = "map (candidate_of store (pw_disk w) now) ?rows"
  have same: "calm v" "pw_db v = pw_db w" "pw_disk v = pw_disk w" "pw_statfs v = pw_statfs w"
    using list(2) assms(2) same_calm same_db same_disk by auto
  have "\<forall>c \<in> set ?cs. \<forall>i \<in> set (db_instances (pw_db v)). ir_state_id i \<noteq> ec_StateID c"
    by (auto simp: eviction_order_def candidate_of_def evictable_def same(2))
  moreover have "\<forall>c \<in> set ?cs. \<exists>p. resolveStatePaths store (ec_ImageID c) (ec_StateID c) = Inr p"
    using assms(4,5) by (auto simp: eviction_order_def candidate_of_def resolveStatePaths_def stateDir_def baseDir_def statesDir_def
        layout_dir_def split: prod.splits)
  ultimately obtain n v' where loop: "evict_loop store settings ?cs u f v = (Inr (n, sum_list (map ec_SizeBytes (take n ?cs))), v')"
    "evicted_prefix store settings ?cs (u, f) v v' n"
    using evict_loop_calm [of v ?cs store settings "(u, f)"] same assms(3) by auto
  have "evicted_prefix store settings ?cs (u, f) w v' n"
    using loop(2) unfolding evicted_prefix_def figures_after_def figures_def same .
  moreover have "r = Inr \<lparr>es_EvictedCount = n, es_FreedBytes = sum_list (map ec_SizeBytes (take n ?cs)),
      es_BlockedCount = b, es_ReclaimableBytes = k\<rparr> \<and> w' = v'"
    using list(1) loop(1) assms(1) by (simp add: runEviction_def op_bind_def op_return_def)
  moreover have "map ec_SizeBytes (take n ?cs) = map (row_size store (pw_disk w)) (take n ?rows)"
    by (simp add: take_map candidate_of_def)
  moreover have "now \<le> pw_now v'"
    using list(4) evicts_time [OF ev.withinD [OF evicts_loop [OF subset_refl] loop(1)]] by simp
  ultimately show ?thesis using list(3)
    by (intro exI [of _ now] exI [of _ ?rows] exI [of _ "projr r"] exI [of _ n]) (simp add: eviction_order_def)
qed

subsection \<open>An abandoned lock\<close>

lemma calm_lock_parts [simp]:
  "calm (w\<lparr>pw_evictLock := l\<rparr>) = calm w" "calm (w\<lparr>pw_now := t, pw_ticks := k\<rparr>) = calm w" "calm (w\<lparr>pw_now := t\<rparr>) = calm w"
  by (simp_all add: calm_def)

lemma calm_create_lock:
  assumes "calm w"
  shows "pw_evictLock w = NoLock \<Longrightarrow> \<exists>v. create_lock w = (Inr (), v)"
    and "pw_evictLock w \<noteq> NoLock \<Longrightarrow> create_lock w = (Inl ErrExist, called w)"
  using assms by (simp_all add: create_lock_def calm_calls read_clock_def Let_def)

lemma calm_take_free: "calm w \<Longrightarrow> pw_evictLock w = NoLock \<Longrightarrow> \<exists>v. try_evict_lock w = (Inr True, v)"
  using calm_create_lock(1) [of "called w"]
  by (auto simp: try_evict_lock_def op_bind_def op_try_def calm_calls op_return_def)

text \<open>A round on a lock that is held: it is removed, or time passes.\<close>

lemma calm_stale:
  assumes "calm w" and "pw_evictLock w = LockFile t"
  obtains v where "removeStaleEvictLock w = (Inr True, v)" "calm v" "pw_evictLock v = NoLock"
  | v where "removeStaleEvictLock w = (Inr False, v)" "calm v" "pw_evictLock v = LockFile t" "pw_now w \<le> pw_now v"
      "pw_now w - t < evictLockStaleAfter"
proof -
  let ?v = "(called w)\<lparr>pw_now := pw_now w + int (pw_tick w (pw_ticks w)), pw_ticks := Suc (pw_ticks w)\<rparr>"
  have v: "calm ?v" "pw_evictLock ?v = LockFile t" "pw_now w \<le> pw_now ?v" using assms by simp_all
  show thesis
  proof (cases "pw_now ?v - t < evictLockStaleAfter")
    case True
    then have "removeStaleEvictLock w = (Inr False, ?v)"
      using assms by (simp add: removeStaleEvictLock_def op_try_def op_bind_def calm_calls read_clock_def op_return_def Let_def)
    then show thesis using that(2) v True by simp
  next
    case False
    then have "removeStaleEvictLock w = (Inr True, (called ?v)\<lparr>pw_evictLock := NoLock\<rparr>)"
      using assms v(1) by (simp add: removeStaleEvictLock_def op_try_def op_bind_def calm_calls read_clock_def op_return_def Let_def)
    then show thesis using that(1) v(1) by simp
  qed
qed

lemma calm_round:
  assumes "calm w" and "pw_evictLock w = LockFile t"
  obtains v where "try_evict_lock w = (Inr False, v)" "calm v" "pw_evictLock v = NoLock"
  | v where "try_evict_lock w = (Inr False, v)" "calm v" "pw_evictLock v = LockFile t" "pw_now w + 50000000 \<le> pw_now v"
      "pw_now w - t < evictLockStaleAfter"
proof -
  have held: "try_evict_lock w = op_bind removeStaleEvictLock (\<lambda>removed. if removed then op_return False
      else op_bind (sleep 50000000) (\<lambda>_. op_return False)) (called (called w))"
    using assms calm_create_lock(2) [of "called w"] by (simp add: try_evict_lock_def op_bind_def op_try_def calm_calls)
  have c: "calm (called (called w))" "pw_evictLock (called (called w)) = LockFile t" using assms by simp_all
  show thesis
  proof (cases rule: calm_stale [OF c])
    case (1 v)
    then show ?thesis using that(1) [of v] by (simp add: held op_bind_def op_return_def)
  next
    case (2 v)
    then show ?thesis using that(2) [of "v\<lparr>pw_now := pw_now v + 50000000\<rparr>"] by (simp add: held op_bind_def op_return_def sleep_def)
  qed
qed

lemma lock_rounds:
  "calm w \<Longrightarrow> pw_evictLock w = LockFile t \<Longrightarrow> t + evictLockStaleAfter - pw_now w \<le> 50000000 * int k
     \<Longrightarrow> \<exists>v. evict_lock_loop (k + 2) w = (Inr True, v)"
proof (induction k arbitrary: w)
  case 0
  show ?case
  proof (cases rule: calm_round [OF 0(1,2)])
    case (1 v)
    then show ?thesis using calm_take_free [of v] by (auto simp: op_bind_def op_return_def numeral_2_eq_2)
  next
    case (2 v)
    then show ?thesis using 0(3) by simp
  qed
next
  case (Suc k)
  show ?case
  proof (cases rule: calm_round [OF Suc.prems(1,2)])
    case (1 v)
    then show ?thesis using calm_take_free [of v] by (auto simp: op_bind_def op_return_def)
  next
    case (2 v)
    then show ?thesis using Suc.IH [of v] Suc.prems(3) by (simp add: op_bind_def)
  qed
qed

text \<open>The rounds, each with a pause of 50 milliseconds, until a lock file written at \<open>t\<close> is five minutes old.\<close>

definition rounds_left :: "int \<Rightarrow> int \<Rightarrow> nat" where
  "rounds_left t now = nat ((t + evictLockStaleAfter - now + 49999999) div 50000000)"

lemma rounds_left_enough: "t + evictLockStaleAfter - now \<le> 50000000 * int (rounds_left t now)"
  unfolding rounds_left_def by linarith

text \<open>
  C29: When no call fails and the path of the eviction lock is not a directory, the loop that waits for it
  takes it: in the first round when it is free, and when it is held by a file that nobody touches any more,
  in the rounds that fit into the time until the file is five minutes old and two more, which are 6002
  rounds or less when the time of the file is not in the future.
\<close>

theorem abandoned_lock_is_taken:
  assumes "calm w"
  shows "(pw_evictLock w = NoLock \<longrightarrow> (\<exists>v. evict_lock_loop 1 w = (Inr True, v)))
    \<and> (\<forall>t. pw_evictLock w = LockFile t \<longrightarrow> (\<exists>v. evict_lock_loop (rounds_left t (pw_now w) + 2) w = (Inr True, v))
         \<and> (t \<le> pw_now w \<longrightarrow> rounds_left t (pw_now w) + 2 \<le> 6002))"
proof (intro conjI allI impI)
  assume "pw_evictLock w = NoLock"
  then obtain v where "try_evict_lock w = (Inr True, v)" using calm_take_free [OF assms] by blast
  then show "\<exists>v. evict_lock_loop 1 w = (Inr True, v)" by (simp add: op_bind_def op_return_def)
next
  fix t assume "pw_evictLock w = LockFile t"
  then show "\<exists>v. evict_lock_loop (rounds_left t (pw_now w) + 2) w = (Inr True, v)"
    using lock_rounds [OF assms _ rounds_left_enough] by blast
next
  fix t assume "t \<le> pw_now w"
  then show "rounds_left t (pw_now w) + 2 \<le> 6002" by (simp add: rounds_left_def evictLockStaleAfter_def)
qed

subsection \<open>A small store\<close>

definition ex_store_disk :: node where
  "ex_store_disk = NDir [(''store'', NDir [(''engines'', NDir [(''img'', NDir [(''latest'', NDir
     [(''states'', NDir [(''s2'', NDir [(''f'', NFile ''xxxx'')]), (''s4'', NDir [(''f'', NFile ''xxxxxx'')])])])])])])]"

definition ex_cache_world :: "ConfigManager option \<Rightarrow> prepareWorld" where
  "ex_cache_world config =
     \<lparr>pw_engine = (ex_world (\<lambda>_. 0) (\<lambda>_. None))\<lparr>w_db := ex_db\<lparr>db_states := ex_state ''s4'' None # db_states ex_db\<rparr>\<rparr>,
      pw_queue = \<lparr>q_jobs = [], q_tasks = [], q_events = [], q_seq = 0\<rparr>, pw_managed = False, pw_disk = ex_store_disk,
      pw_statfs = (\<lambda>_. (100, 50, 1)), pw_evictLock = NoLock, pw_config = config, pw_lastEviction = None, pw_now = 0,
      pw_tick = (\<lambda>_. 1), pw_ticks = 0, pw_running = []\<rparr>"

definition ex_settings :: capacitySettings where
  "ex_settings = \<lparr>cs_MaxBytes = 8, cs_ReserveBytes = 0, cs_HighWatermark = 1, cs_LowWatermark = 1 / 2, cs_MinStateAge = 0,
     cs_EffectiveMax = 8\<rparr>"

lemma ex_store_ok:
  "calm (ex_cache_world c)" "readable (pw_disk (ex_cache_world c))" "db_wf (pw_db (ex_cache_world c))"
  "\<forall>s \<in> set (db_states (pw_db (ex_cache_world c))). TrimSpace (sr_state_id s) \<noteq> []" "TrimSpace ''/store'' \<noteq> []"
  by (simp_all add: ex_cache_world_def ex_defs calm_def pw_db_def db_wf_def ex_store_disk_def) code_simp+

lemma ex_store_eviction:
  "map sr_state_id (db_states (pw_db (snd (runEviction ''/store'' ex_settings 10 100 [] (ex_cache_world None))))) = [''s1'', ''s2'', ''s3'']"
  by code_simp

theorem eviction_is_lru_and_minimal_witness:
  "\<exists>n summary w'. runEviction ''/store'' ex_settings 10 100 [] (ex_cache_world None) = (Inr summary, w') \<and> es_EvictedCount summary = n
     \<and> map sr_state_id (db_states (pw_db w')) = [''s1'', ''s2'', ''s3'']"
proof -
  obtain r w' where run: "runEviction ''/store'' ex_settings 10 100 [] (ex_cache_world None) = (r, w')" by (cases "runEviction ''/store'' ex_settings 10 100 [] (ex_cache_world None)")
  then show ?thesis using eviction_is_lru_and_minimal [OF run ex_store_ok(1,2,4,5)] ex_store_eviction by auto
qed

theorem abandoned_lock_is_taken_witness:
  "(\<exists>v. evict_lock_loop 1 (ex_cache_world None) = (Inr True, v))
   \<and> (\<exists>v. evict_lock_loop (rounds_left 0 0 + 2) ((ex_cache_world None)\<lparr>pw_evictLock := LockFile 0\<rparr>) = (Inr True, v))"
proof -
  have w: "pw_evictLock (ex_cache_world None) = NoLock" "pw_now (ex_cache_world None) = 0" by (simp_all add: ex_cache_world_def)
  have c: "calm ((ex_cache_world None)\<lparr>pw_evictLock := LockFile 0\<rparr>)" by (simp only: calm_lock_parts ex_store_ok(1))
  show ?thesis
    using abandoned_lock_is_taken [OF ex_store_ok(1) [of None]] abandoned_lock_is_taken [OF c] w by simp
qed

theorem evicted_states_are_idle_witness:
  "\<exists>D n. pw_engine (snd (ensureCacheCapacity 1 ''/store'' ''prepare_start'' [] (ex_cache_world None)))
      = (pw_engine (ex_cache_world None))\<lparr>w_db := drop_states D (pw_db (ex_cache_world None)), w_calls := n\<rparr>"
  using evicted_states_are_idle [of 1 "''/store''" "''prepare_start''" "[]" "ex_cache_world None"] ex_store_ok(3)
  by (metis prod.collapse)

subsection \<open>Settings that stop preparation\<close>

lemma failing_settings:
  assumes "\<And>bytes_total. loadCapacitySettings (pw_config w) bytes_total = Inl e" and "pw_config w \<noteq> None" and "TrimSpace store \<noteq> []"
  shows "isl (fst (ensureCacheCapacity rounds store phase ids w))"
proof -
  have "\<not> is_none_config (pw_config w)" using assms(2) by (auto simp: is_none_config_def split: option.splits)
  then show ?thesis using assms(1,3)
    by (auto simp: ensureCacheCapacity_def op_bind_def get_world_def unavailable_def or_respond_def op_map_error_def op_try_def
        op_of_def op_fail_def op_return_def split: prod.splits sum.splits)
qed

lemma marks_paths: "parsePath ''cache.capacity.lowWatermark'' = Inr (capacity_path ''lowWatermark'')" "parsePath ''cache.capacity.highWatermark'' = Inr (capacity_path ''highWatermark'')"
  by code_simp+

text \<open>An empty configuration with the given settings of the capacity on top.\<close>

definition with_marks :: "anyMap \<Rightarrow> ConfigManager" where
  "with_marks capacity = (let o' = [''cache'' \<mapsto> AMap [''capacity'' \<mapsto> AMap capacity]] in
     fresh_config\<lparr>cm_overrides := o', cm_file := Some o'\<rparr>)"

lemma fresh_parts: "cm_overrides fresh_config = Map.empty" "cm_defaults fresh_config = DefaultConfig"
  by (simp_all add: fresh_config_def NewConfigManager_def loadOverrides_def)

lemma default_capacity: "DefaultConfig ''cache'' = Some (obj [(''capacity'', obj [(''maxBytes'', AInt 0), (''reserveBytes'', ANil),
         (''highWatermark'', AFloat (round_float64 (9 / 10))), (''lowWatermark'', AFloat (round_float64 (8 / 10))),
         (''minStateAge'', AString ''10m'')])])"
  by (simp add: DefaultConfig_def)

lemma mark_values: "round_float64 (9 / 10) = 8106479329266893 / 9007199254740992" "round_float64 (4 / 5) = 3602879701896397 / 4503599627370496"
  by code_simp+

lemma effective_mark:
  "getPathValue (AMap (mergeMaps DefaultConfig [''cache'' \<mapsto> AMap [''capacity'' \<mapsto> AMap c]])) (capacity_path name)
   = (case c name of Some v \<Rightarrow> Some (merge_value v (map_of [(''maxBytes'', AInt 0), (''reserveBytes'', ANil),
         (''highWatermark'', AFloat (round_float64 (9 / 10))), (''lowWatermark'', AFloat (round_float64 (8 / 10))),
         (''minStateAge'', AString ''10m'')] name)) | None \<Rightarrow> map_of [(''maxBytes'', AInt 0), (''reserveBytes'', ANil),
         (''highWatermark'', AFloat (round_float64 (9 / 10))), (''lowWatermark'', AFloat (round_float64 (8 / 10))),
         (''minStateAge'', AString ''10m'')] name)"
  by (simp add: mergeMaps_def capacity_path_def merge_value_map obj_def default_capacity split: option.splits)

lemma no_fault_write: "write_overrides (\<lambda>_. None) updated x m = (Inr x, m\<lparr>cm_file := Some updated, cm_overrides := updated\<rparr>)"
proof -
  have "find (\<lambda>k. False) xs = None" for xs :: "nat list" by (induction xs) simp_all
  then show ?thesis by (simp add: write_overrides_def atomicWriteFile_def)
qed

text \<open>Setting and removing one value of the capacity.\<close>

lemma set_capacity:
  assumes "parsePath path = Inr (capacity_path name)" and "validateValue path v = Inr ()"
  shows "validateCacheConstraintsForPath path DefaultConfig [''cache'' \<mapsto> AMap [''capacity'' \<mapsto> AMap [name \<mapsto> v]]] = Inr ()
      \<Longrightarrow> config_set_ok path v fresh_config = Some (with_marks [name \<mapsto> v])"
    and "validateCacheConstraintsForPath path DefaultConfig [''cache'' \<mapsto> AMap [''capacity'' \<mapsto> AMap (c(name \<mapsto> v))]] = Inr ()
      \<Longrightarrow> config_set_ok path v (with_marks c) = Some (with_marks (c(name \<mapsto> v)))"
  using assms
  by (simp_all add: config_set_ok_def config_Set_def res_bind_def setPathValue_def capacity_path_def as_map_def or_nil_def
      with_marks_def fresh_parts no_fault_write Let_def)

lemma remove_capacity:
  assumes "parsePath path = Inr (capacity_path name)" and "c name = Some v"
  shows "config_remove_ok path (with_marks c) = Some (with_marks (c(name := None)))"
  using assms
  by (simp add: config_remove_ok_def config_Remove_def removePathValue_def capacity_path_def as_map_def or_nil_def
      with_marks_def fresh_parts no_fault_write Let_def)

lemma read_capacity:
  assumes "parsePath path = Inr (capacity_path name)"
  shows "config_Get (with_marks c) path True =
    (case getPathValue (AMap (mergeMaps DefaultConfig [''cache'' \<mapsto> AMap [''capacity'' \<mapsto> AMap c]])) (capacity_path name) of
       None \<Rightarrow> Inl ErrPathNotFound | Some v \<Rightarrow> Inr v)"
  using assms by (simp add: config_Get_def config_root_def with_marks_def fresh_parts Let_def)

lemma capacity_paths:
  "parsePath ''cache.capacity.maxBytes'' = Inr (capacity_path ''maxBytes'')"
  "parsePath ''cache.capacity.reserveBytes'' = Inr (capacity_path ''reserveBytes'')"
  "parsePath ''cache.capacity.minStateAge'' = Inr (capacity_path ''minStateAge'')"
  by code_simp+

lemma default_age: "asDuration (AString ''10m'') = Some 600000000000"
  by code_simp

text \<open>What the job reads when the low watermark in effect is not below the high one.\<close>

lemma crossed_marks:
  assumes "c ''maxBytes'' = None" and "c ''reserveBytes'' = None" and "c ''minStateAge'' = None"
    and "case c ''highWatermark'' of None \<Rightarrow> h = round_float64 (9 / 10) | Some v \<Rightarrow> v = AFloat h"
    and "case c ''lowWatermark'' of None \<Rightarrow> l = round_float64 (8 / 10) | Some v \<Rightarrow> v = ANil \<and> l = round_float64 (8 / 10) \<or> v = AFloat l"
    and "0 < h" and "h \<le> 1" and "h \<le> l"
  shows "loadCapacitySettings (Some (with_marks c)) bytes_total = Inl (setting_invalid ''cache.capacity.lowWatermark'')"
proof -
  have "read_setting (Some (with_marks c)) ''cache.capacity.maxBytes'' asInt64 = Inr (Some 0)"
    "read_setting (Some (with_marks c)) ''cache.capacity.reserveBytes'' asInt64 = Inr None"
    "read_setting (Some (with_marks c)) ''cache.capacity.minStateAge'' asDuration = Inr (Some 600000000000)"
    by (simp_all add: read_setting_def capacity_paths read_capacity effective_mark assms default_age) (simp_all add: asInt64_def)
  moreover have "read_setting (Some (with_marks c)) ''cache.capacity.highWatermark'' asFloat64 = Inr (Some h)"
    using assms(4) by (auto simp: read_setting_def marks_paths read_capacity effective_mark asFloat64_def split: option.splits)
  moreover have "\<exists>q. read_setting (Some (with_marks c)) ''cache.capacity.lowWatermark'' asFloat64 = Inr q \<and> default_to (round_float64 (8 / 10)) q = l"
    using assms(5) by (auto simp: read_setting_def marks_paths read_capacity effective_mark asFloat64_def default_to_def split: option.splits)
  ultimately show ?thesis using assms(6-8)
    by (auto simp: loadCapacitySettings_def res_bind_def default_to_def Let_def)
qed

lemma low_nil_accepted: "config_set_ok ''cache.capacity.lowWatermark'' ANil fresh_config = Some (with_marks [''lowWatermark'' \<mapsto> ANil])"
  by (rule set_capacity(1) [OF marks_paths(1)])
    (simp_all add: validateValue_def check_value_def validateCacheConstraintsForPath_def effective_mark or_nil_def watermark_def asFloat_def mark_values Let_def)

lemma high_accepted:
  assumes "0 < h" and "h \<le> 1" and "c ''lowWatermark'' = Some ANil \<or> c ''lowWatermark'' = None \<and> round_float64 (8 / 10) < h"
  shows "config_set_ok ''cache.capacity.highWatermark'' (AFloat h) (with_marks c) = Some (with_marks (c(''highWatermark'' \<mapsto> AFloat h)))"
    and "c = Map.empty \<Longrightarrow> config_set_ok ''cache.capacity.highWatermark'' (AFloat h) fresh_config = Some (with_marks [''highWatermark'' \<mapsto> AFloat h])"
  using assms
  by (auto intro!: set_capacity [OF marks_paths(2)] simp: validateValue_def check_value_def validateCacheConstraintsForPath_def
      effective_mark or_nil_def watermark_def asFloat_def mark_values Let_def)

lemma low_accepted:
  assumes "0 < l" and "l < h" and "h \<le> 1" and "c ''highWatermark'' = Some (AFloat h)"
  shows "config_set_ok ''cache.capacity.lowWatermark'' (AFloat l) (with_marks c) = Some (with_marks (c(''lowWatermark'' \<mapsto> AFloat l)))"
  using assms
  by (auto intro!: set_capacity [OF marks_paths(1)] simp: validateValue_def check_value_def validateCacheConstraintsForPath_def
      effective_mark or_nil_def watermark_def asFloat_def Let_def)

text \<open>
  C30: For every high watermark \<open>h\<close> of at most the default of the low one, \<^verbatim>\<open>Set\<close> on an empty configuration
  accepts \<open>nil\<close> for the low watermark and then \<open>h\<close>; and for all \<open>l < h \<le> 1\<close> with \<open>l\<close> at least the default of
  the high watermark it accepts \<open>h\<close> and then \<open>l\<close>, and \<^verbatim>\<open>Remove\<close> the high watermark after that.  With
  either configuration the capacity check of every job fails, whatever the rest of the world is.
\<close>

theorem accepted_settings_stop_preparation:
  assumes "TrimSpace store \<noteq> []"
  shows "(\<forall>h. 0 < h \<and> h \<le> round_float64 (8 / 10) \<longrightarrow> (\<exists>m.
        Option.bind (config_set_ok ''cache.capacity.lowWatermark'' ANil fresh_config)
          (config_set_ok ''cache.capacity.highWatermark'' (AFloat h)) = Some m
        \<and> (\<forall>w. pw_config w = Some m \<longrightarrow> isl (fst (ensureCacheCapacity rounds store phase ids w)))))
    \<and> (\<forall>h l. round_float64 (9 / 10) \<le> l \<and> l < h \<and> h \<le> 1 \<longrightarrow> (\<exists>m.
        Option.bind (config_set_ok ''cache.capacity.highWatermark'' (AFloat h) fresh_config) (\<lambda>m1.
          Option.bind (config_set_ok ''cache.capacity.lowWatermark'' (AFloat l) m1)
            (config_remove_ok ''cache.capacity.highWatermark'')) = Some m
        \<and> (\<forall>w. pw_config w = Some m \<longrightarrow> isl (fst (ensureCacheCapacity rounds store phase ids w)))))"
proof (intro conjI allI impI)
  fix h :: rat assume h: "0 < h \<and> h \<le> round_float64 (8 / 10)"
  let ?m = "with_marks [''lowWatermark'' \<mapsto> ANil, ''highWatermark'' \<mapsto> AFloat h]"
  have load: "loadCapacitySettings (Some ?m) t = Inl (setting_invalid ''cache.capacity.lowWatermark'')" for t
    by (rule crossed_marks [of _ h "round_float64 (8 / 10)"]) (use h in \<open>simp_all add: mark_values\<close>)
  have "config_set_ok ''cache.capacity.highWatermark'' (AFloat h) (with_marks [''lowWatermark'' \<mapsto> ANil]) = Some ?m"
    by (rule high_accepted(1)) (use h in \<open>simp_all add: mark_values\<close>)
  moreover have "\<forall>w. pw_config w = Some ?m \<longrightarrow> isl (fst (ensureCacheCapacity rounds store phase ids w))"
    using failing_settings [OF _ _ assms] load by (metis option.distinct(1))
  ultimately show "\<exists>m. Option.bind (config_set_ok ''cache.capacity.lowWatermark'' ANil fresh_config)
          (config_set_ok ''cache.capacity.highWatermark'' (AFloat h)) = Some m
        \<and> (\<forall>w. pw_config w = Some m \<longrightarrow> isl (fst (ensureCacheCapacity rounds store phase ids w)))"
    by (simp add: low_nil_accepted)
next
  fix h l :: rat assume h: "round_float64 (9 / 10) \<le> l \<and> l < h \<and> h \<le> 1"
  let ?c = "[''highWatermark'' \<mapsto> AFloat h, ''lowWatermark'' \<mapsto> AFloat l]"
  let ?m = "with_marks (?c(''highWatermark'' := None))"
  have load: "loadCapacitySettings (Some ?m) t = Inl (setting_invalid ''cache.capacity.lowWatermark'')" for t
    by (rule crossed_marks [of _ "round_float64 (9 / 10)" l]) (use h in \<open>simp_all add: mark_values\<close>)
  have "config_set_ok ''cache.capacity.highWatermark'' (AFloat h) fresh_config = Some (with_marks [''highWatermark'' \<mapsto> AFloat h])"
    by (rule high_accepted(2) [of _ Map.empty]) (use h in \<open>simp_all add: mark_values\<close>)
  moreover have "config_set_ok ''cache.capacity.lowWatermark'' (AFloat l) (with_marks [''highWatermark'' \<mapsto> AFloat h]) = Some (with_marks ?c)"
    by (rule low_accepted [of _ h]) (use h in \<open>simp_all add: mark_values\<close>)
  moreover have "config_remove_ok ''cache.capacity.highWatermark'' (with_marks ?c) = Some ?m"
    by (rule remove_capacity [OF marks_paths(2)]) simp
  moreover have "\<forall>w. pw_config w = Some ?m \<longrightarrow> isl (fst (ensureCacheCapacity rounds store phase ids w))"
    using failing_settings [OF _ _ assms] load by (metis option.distinct(1))
  ultimately show "\<exists>m. Option.bind (config_set_ok ''cache.capacity.highWatermark'' (AFloat h) fresh_config) (\<lambda>m1.
          Option.bind (config_set_ok ''cache.capacity.lowWatermark'' (AFloat l) m1)
            (config_remove_ok ''cache.capacity.highWatermark'')) = Some m
        \<and> (\<forall>w. pw_config w = Some m \<longrightarrow> isl (fst (ensureCacheCapacity rounds store phase ids w)))"
    by simp
qed

theorem accepted_settings_stop_preparation_witness:
  "\<exists>m. Option.bind (config_set_ok ''cache.capacity.lowWatermark'' ANil fresh_config)
          (config_set_ok ''cache.capacity.highWatermark'' (AFloat (1 / 2))) = Some m
     \<and> isl (fst (ensureCacheCapacity 1 ''/store'' ''prepare_start'' [] (ex_cache_world (Some m))))"
proof -
  have "(0 :: rat) < 1 / 2 \<and> (1 / 2 :: rat) \<le> round_float64 (8 / 10)" by (simp add: mark_values)
  moreover have "pw_config (ex_cache_world (Some m)) = Some m" for m by (simp add: ex_cache_world_def)
  ultimately show ?thesis
    using accepted_settings_stop_preparation [OF ex_store_ok(5), of 1 "''prepare_start''" "[]"] by blast
qed

end
