(* ===== verification/Psql_Args.thy ===== *)
theory Psql_Args
  imports Prepare_World
begin

text \<open>
  The arguments of a psql preparation: \<^verbatim>\<open>prepare/psql.go\<close> checks and normalises them and collects their inputs,
  \<^verbatim>\<open>prepare/psql_steps.go\<close> splits them into the steps that are executed one by one.
\<close>

subsection \<open>Inputs and validation errors\<close>

datatype psqlInput = CommandInput bytes | StdinInput bytes | FileInput bytes

definition invalid_argument :: "bytes \<Rightarrow> bytes \<Rightarrow> ErrorResponse" where
  "invalid_argument message details =
     errorResponse ''invalid_argument'' message (if details = [] then NoDetails else TextDetails details)"

text \<open>
  The files a request can name: the cleaned name of each, with what opening, locking and reading it gives.  Any
  other name does not exist.
\<close>

type_synonym fileTable = "(bytes \<times> (engineError + bytes)) list"

definition path_exists :: "fileTable \<Rightarrow> bytes \<Rightarrow> bool" where
  "path_exists files path \<longleftrightarrow> map_of files (Clean path) \<noteq> None"

text \<open>What the loop over the arguments has found so far.\<close>

record psqlScan =
  ps_noPsqlrc :: bool
  ps_onErrorStop :: bool
  ps_usesStdin :: bool
  ps_inputs :: "psqlInput list"
  ps_filePaths :: "bytes list"
  ps_workDir :: bytes

definition no_scan :: psqlScan where
  "no_scan = \<lparr>ps_noPsqlrc = False, ps_onErrorStop = False, ps_usesStdin = False, ps_inputs = [], ps_filePaths = [],
     ps_workDir = []\<rparr>"

subsection \<open>Flags (psql.go)\<close>

definition isConnectionFlag :: "bytes \<Rightarrow> bool" where
  "isConnectionFlag arg \<longleftrightarrow>
     arg \<in> {''-h'', ''-p'', ''-U'', ''-d'', ''--host'', ''--port'', ''--username'', ''--dbname'', ''--database''}
     \<or> HasPrefix arg ''--host='' \<or> HasPrefix arg ''--port='' \<or> HasPrefix arg ''--username='' \<or> HasPrefix arg ''--dbname=''
     \<or> HasPrefix arg ''--database=''
     \<or> ((HasPrefix arg ''-h'' \<or> HasPrefix arg ''-p'' \<or> HasPrefix arg ''-U'' \<or> HasPrefix arg ''-d'') \<and> 2 < length arg)"

definition splitAssignment :: "bytes \<Rightarrow> (bytes \<times> bytes) option" where
  "splitAssignment v =
     (if CHR ''='' \<in> set v then Some (takeWhile (\<lambda>c. c \<noteq> CHR ''='') v, drop 1 (dropWhile (\<lambda>c. c \<noteq> CHR ''='') v)) else None)"

text \<open>
  \<^verbatim>\<open>EqualFold\<close> with the ASCII name ON_ERROR_STOP.  Besides the letters Unicode folds the long s and the Kelvin sign
  with them; the first is the rune U+017F.
\<close>

fun fold_long_s :: "bytes \<Rightarrow> bytes" where
  "fold_long_s (c # d # s) =
     (if c = CHR 0xC5 \<and> d = CHR 0xBF then CHR ''s'' # fold_long_s s else lower_byte c # fold_long_s (d # s))"
| "fold_long_s [c] = [lower_byte c]"
| "fold_long_s [] = []"

definition is_on_error_stop :: "bytes \<Rightarrow> bool" where
  "is_on_error_stop name \<longleftrightarrow> fold_long_s (TrimSpace name) = ''on_error_stop''"

text \<open>Whether the value sets ON_ERROR_STOP, or the error when it sets it to something else than 1.\<close>

definition checkOnErrorStop :: "bytes \<Rightarrow> ErrorResponse + bool" where
  "checkOnErrorStop v =
     (case splitAssignment v of
        None \<Rightarrow> if is_on_error_stop v then Inl (invalid_argument ''ON_ERROR_STOP must be set to 1'' []) else Inr False
      | Some (name, val) \<Rightarrow>
          if is_on_error_stop name then
            (if TrimSpace val \<noteq> ''1'' then Inl (invalid_argument ''ON_ERROR_STOP must be set to 1'' v) else Inr True)
          else Inr False)"

text \<open>
  How a flag takes its value: \<open>FlagMissing\<close> when the next argument is needed and there is none,
  \<open>FlagNext\<close> when it is the next argument.
\<close>

datatype flagValue = NotFlag | FlagMissing | FlagNext bytes | FlagInline bytes

definition long_short :: "bytes \<Rightarrow> bytes list \<Rightarrow> bytes \<Rightarrow> bytes list \<Rightarrow> flagValue" where
  "long_short short_flag long_flags arg rest =
     (if arg = short_flag \<or> arg \<in> set long_flags then (case rest of [] \<Rightarrow> FlagMissing | v # _ \<Rightarrow> FlagNext v)
      else if HasPrefix arg short_flag \<and> 2 < length arg then FlagInline (drop 2 arg)
      else case find (\<lambda>l. HasPrefix arg (l @ ''='')) long_flags of
          Some l \<Rightarrow> FlagInline (drop (Suc (length l)) arg) | None \<Rightarrow> NotFlag)"

definition var_flag :: "bytes \<Rightarrow> bytes list \<Rightarrow> flagValue" where
  "var_flag = long_short ''-v'' [''--set'', ''--variable'']"

definition file_flag :: "bytes \<Rightarrow> bytes list \<Rightarrow> flagValue" where
  "file_flag = long_short ''-f'' [''--file'']"

definition command_flag :: "bytes \<Rightarrow> bytes list \<Rightarrow> flagValue" where
  "command_flag = long_short ''-c'' [''--command'']"

definition IsAbsPath :: "bytes \<Rightarrow> bool" where
  "IsAbsPath p \<longleftrightarrow> rooted p"

definition addFileInput :: "fileTable \<Rightarrow> bytes option \<Rightarrow> bytes \<Rightarrow> psqlScan \<Rightarrow> ErrorResponse + psqlScan" where
  "addFileInput files stdin path sc =
     (if path = ''-'' then
        Inr (sc\<lparr>ps_usesStdin := True, ps_inputs := ps_inputs sc @ (case stdin of None \<Rightarrow> [] | Some s \<Rightarrow> [StdinInput s])\<rparr>)
      else if path = [] then Inl (invalid_argument ''file path is empty'' [])
      else if \<not> IsAbsPath path then Inl (invalid_argument ''file path must be absolute'' path)
      else if \<not> path_exists files path then Inl (invalid_argument ''cannot read file'' path)
      else Inr (sc\<lparr>ps_inputs := ps_inputs sc @ [FileInput path], ps_filePaths := ps_filePaths sc @ [path],
        ps_workDir := (if ps_workDir sc = [] then path_Dir path else ps_workDir sc)\<rparr>))"

text \<open>One flag: what the scan has found after it, and whether the next argument was taken.\<close>

definition handleVarFlag :: "bytes \<Rightarrow> bytes list \<Rightarrow> psqlScan \<Rightarrow> (ErrorResponse + psqlScan \<times> bool) option" where
  "handleVarFlag arg rest sc =
     (let found = (\<lambda>v taken. Some (res_map (\<lambda>stop. (sc\<lparr>ps_onErrorStop := ps_onErrorStop sc \<or> stop\<rparr>, taken)) (checkOnErrorStop v))) in
      case var_flag arg rest of NotFlag \<Rightarrow> None
      | FlagMissing \<Rightarrow> Some (Inl (invalid_argument ''missing value for variable flag'' arg))
      | FlagNext v \<Rightarrow> found v True | FlagInline v \<Rightarrow> found v False)"

definition handleFileFlag ::
    "fileTable \<Rightarrow> bytes option \<Rightarrow> bytes \<Rightarrow> bytes list \<Rightarrow> psqlScan \<Rightarrow> (ErrorResponse + psqlScan \<times> bool) option" where
  "handleFileFlag files stdin arg rest sc =
     (case file_flag arg rest of NotFlag \<Rightarrow> None
      | FlagMissing \<Rightarrow> Some (Inl (invalid_argument ''missing value for file flag'' arg))
      | FlagNext path \<Rightarrow> Some (res_map (\<lambda>s. (s, True)) (addFileInput files stdin path sc))
      | FlagInline path \<Rightarrow>
          if path = [] then Some (Inl (invalid_argument ''missing value for file flag'' arg))
          else Some (res_map (\<lambda>s. (s, False)) (addFileInput files stdin path sc)))"

definition handleCommandFlag :: "bytes \<Rightarrow> bytes list \<Rightarrow> psqlScan \<Rightarrow> (ErrorResponse + psqlScan \<times> bool) option" where
  "handleCommandFlag arg rest sc =
     (let add = (\<lambda>cmd taken. Some (Inr (sc\<lparr>ps_inputs := ps_inputs sc @ [CommandInput cmd]\<rparr>, taken))) in
      case command_flag arg rest of NotFlag \<Rightarrow> None
      | FlagMissing \<Rightarrow> Some (Inl (invalid_argument ''missing value for command flag'' arg))
      | FlagNext cmd \<Rightarrow> add cmd True | FlagInline cmd \<Rightarrow> add cmd False)"

text \<open>The handlers in their order.\<close>

definition handle_flag ::
    "fileTable \<Rightarrow> bytes option \<Rightarrow> bytes \<Rightarrow> bytes list \<Rightarrow> psqlScan \<Rightarrow> (ErrorResponse + psqlScan \<times> bool) option" where
  "handle_flag files stdin arg rest sc =
     (case handleVarFlag arg rest sc of Some r \<Rightarrow> Some r
      | None \<Rightarrow> (case handleFileFlag files stdin arg rest sc of Some r \<Rightarrow> Some r | None \<Rightarrow> handleCommandFlag arg rest sc))"

function scan_args :: "fileTable \<Rightarrow> bytes option \<Rightarrow> bytes list \<Rightarrow> psqlScan \<Rightarrow> ErrorResponse + psqlScan" where
  "scan_args files stdin [] sc = Inr sc"
| "scan_args files stdin (arg # rest) sc =
     (if arg = [] then scan_args files stdin rest sc
      else if arg = ''--'' then
        (if rest \<noteq> [] then Inl (invalid_argument ''positional arguments are not allowed'' []) else scan_args files stdin rest sc)
      else if isConnectionFlag arg then Inl (invalid_argument ''connection flags are not allowed'' arg)
      else if arg = ''-X'' \<or> arg = ''--no-psqlrc'' then scan_args files stdin rest (sc\<lparr>ps_noPsqlrc := True\<rparr>)
      else case handle_flag files stdin arg rest sc of
          Some (Inl e) \<Rightarrow> Inl e
        | Some (Inr (sc', taken)) \<Rightarrow> scan_args files stdin (if taken then tl rest else rest) sc'
        | None \<Rightarrow>
            if HasPrefix arg ''-'' then scan_args files stdin rest sc
            else Inl (invalid_argument ''positional database arguments are not allowed'' arg))"
  by pat_completeness auto
termination by (relation "measure (\<lambda>(files, stdin, args, sc). length args)") auto

declare scan_args.simps [simp del]

subsection \<open>Steps (psql_steps.go)\<close>

record psqlStep =
  st_args :: "bytes list"
  st_inputs :: "psqlInput list"
  st_stdin :: "bytes option"

definition command_step :: "bytes list \<Rightarrow> bytes \<Rightarrow> psqlStep" where
  "command_step shared cmd = \<lparr>st_args = shared @ [''-c'', cmd], st_inputs = [CommandInput cmd], st_stdin = None\<rparr>"

definition buildPsqlFileStep :: "bytes list \<Rightarrow> bytes \<Rightarrow> bytes option \<Rightarrow> engineError + psqlStep" where
  "buildPsqlFileStep shared path stdin =
     (if path = ''-'' then
        (case stdin of None \<Rightarrow> Inl (ErrIO ''stdin is required when using -f -'')
         | Some s \<Rightarrow> Inr \<lparr>st_args = shared @ [''-f'', ''-''], st_inputs = [StdinInput s], st_stdin = stdin\<rparr>)
      else if TrimSpace path = [] then Inl (ErrIO ''file path is empty'')
      else Inr \<lparr>st_args = shared @ [''-f'', path], st_inputs = [FileInput path], st_stdin = None\<rparr>)"

function psql_steps_of :: "bytes list \<Rightarrow> psqlStep list \<Rightarrow> bytes list \<Rightarrow> bytes option \<Rightarrow> engineError + bytes list \<times> psqlStep list" where
  "psql_steps_of shared steps [] stdin = Inr (shared, steps)"
| "psql_steps_of shared steps (arg # rest) stdin =
     (case command_flag arg rest of
        FlagMissing \<Rightarrow> Inl (ErrIO (''missing value for command flag: '' @ arg))
      | FlagNext cmd \<Rightarrow> psql_steps_of shared (steps @ [command_step shared cmd]) (tl rest) stdin
      | FlagInline cmd \<Rightarrow> psql_steps_of shared (steps @ [command_step shared cmd]) rest stdin
      | NotFlag \<Rightarrow>
         (case file_flag arg rest of
            FlagMissing \<Rightarrow> Inl (ErrIO (''missing value for file flag: '' @ arg))
          | FlagNext path \<Rightarrow>
              (case buildPsqlFileStep shared path stdin of Inl e \<Rightarrow> Inl e
               | Inr s \<Rightarrow> psql_steps_of shared (steps @ [s]) (tl rest) stdin)
          | FlagInline path \<Rightarrow>
              if path = [] then Inl (ErrIO (''missing value for file flag: '' @ arg))
              else (case buildPsqlFileStep shared path stdin of Inl e \<Rightarrow> Inl e
               | Inr s \<Rightarrow> psql_steps_of shared (steps @ [s]) rest stdin)
          | NotFlag \<Rightarrow> psql_steps_of (shared @ [arg]) steps rest stdin))"
  by pat_completeness auto
termination by (relation "measure (\<lambda>(shared, steps, args, stdin). length args)") auto

declare psql_steps_of.simps [simp del]

definition buildPsqlSteps :: "bytes list \<Rightarrow> bytes option \<Rightarrow> engineError + psqlStep list" where
  "buildPsqlSteps args stdin =
     res_map (\<lambda>(shared, steps). if steps = [] then [\<lparr>st_args = shared, st_inputs = [], st_stdin = None\<rparr>] else steps)
       (psql_steps_of [] [] args stdin)"

subsection \<open>The prepared arguments\<close>

record psqlPrepared =
  pp_normalizedArgs :: "bytes list"
  pp_argsNormalized :: bytes
  pp_inputs :: "psqlInput list"
  pp_steps :: "psqlStep list"
  pp_filePaths :: "bytes list"
  pp_workDir :: bytes

text \<open>A request is refused with a validation error, or because its steps cannot be built.\<close>

definition preparePsqlArgs ::
    "bytes \<Rightarrow> fileTable \<Rightarrow> bytes list \<Rightarrow> bytes option \<Rightarrow> (ErrorResponse + engineError) + psqlPrepared" where
  "preparePsqlArgs cwd files args stdin =
     (case scan_args files stdin args no_scan of Inl e \<Rightarrow> Inl (Inl e)
      | Inr sc \<Rightarrow>
         if ps_usesStdin sc \<and> stdin = None then Inl (Inl (invalid_argument ''stdin is required when using -f -'' []))
         else if \<not> ps_usesStdin sc \<and> stdin \<noteq> None then Inl (Inl (invalid_argument ''stdin is only valid with -f -'' []))
         else
           let workDir = (if ps_workDir sc = [] \<and> TrimSpace cwd \<noteq> [] then cwd else ps_workDir sc);
               normalized = args @ (if ps_noPsqlrc sc then [] else [''-X'']) @ (if ps_onErrorStop sc then [] else [''-v'', ''ON_ERROR_STOP=1'']) in
           case buildPsqlSteps normalized stdin of Inl e \<Rightarrow> Inl (Inr e)
           | Inr steps \<Rightarrow> Inr \<lparr>pp_normalizedArgs = normalized, pp_argsNormalized = join_with '' '' normalized, pp_inputs = ps_inputs sc,
               pp_steps = steps, pp_filePaths = ps_filePaths sc, pp_workDir = workDir\<rparr>)"

subsection \<open>The step of a task\<close>

definition executeTaskIndex :: "bytes \<Rightarrow> nat option" where
  "executeTaskIndex taskID =
     (if TrimSpace taskID = [] then Some 0
      else if \<not> HasPrefix taskID ''execute-'' then None
      else
        let raw = TrimPrefix taskID ''execute-'' in
        if TrimSpace raw = [] then None
        else
          let signed = (hd raw = CHR ''-'' \<or> hd raw = CHR ''+''); ds = (if signed then tl raw else raw); n = decimal_value ds in
          if ds = [] \<or> \<not> list_all decimal_digit ds then None
          else if hd raw = CHR ''-'' \<and> 0 < n then None
          else if 2 ^ 63 \<le> n then None else Some n)"

definition psqlStepForTask :: "psqlStep list \<Rightarrow> bytes \<Rightarrow> psqlStep option" where
  "psqlStepForTask steps taskID =
     (if steps = [] then None
      else case executeTaskIndex taskID of None \<Rightarrow> None | Some i \<Rightarrow> if i < length steps then Some (steps ! i) else None)"

end
