(* ===== verification/Psql_Args_Props.thy ===== *)
theory Psql_Args_Props
  imports Psql_Args
begin

text \<open>
  The arguments of a psql preparation are read twice: once to check them and collect the inputs, once to split
  them into steps.  Here is when the two readings agree.
\<close>

subsection \<open>The flags exclude each other\<close>

lemma long_short_prefix:
  assumes "long_short s ls arg rest \<noteq> NotFlag"
  shows "take (length s) arg = s \<or> (\<exists>l \<in> set ls. take (length l) arg = l)"
proof -
  have inner: "take (length l) arg = l" if "HasPrefix arg (l @ ''='')" for l
    using that unfolding HasPrefix_def by (metis append_eq_conv_conj length_append min.absorb1 le_add1 take_take)
  have "arg = s \<or> arg \<in> set ls \<or> HasPrefix arg s \<or> (\<exists>l. find (\<lambda>l. HasPrefix arg (l @ ''='')) ls = Some l)"
    using assms by (auto simp: long_short_def split: if_splits option.splits)
  then show ?thesis
  proof (elim disjE exE)
    fix l assume "find (\<lambda>l. HasPrefix arg (l @ ''='')) ls = Some l"
    then have "l \<in> set ls" "HasPrefix arg (l @ ''='')" by (auto simp: find_Some_iff)
    then show ?thesis using inner by blast
  next
    assume "arg \<in> set ls"
    then show ?thesis by (intro disjI2 bexI [of _ arg]) simp
  qed (simp_all add: HasPrefix_def)
qed

lemma prefix_take: "take n arg = p \<Longrightarrow> k \<le> n \<Longrightarrow> take k arg = take k p"
  by (auto simp: min_def)

lemma flag_letters:
  "var_flag arg rest \<noteq> NotFlag \<Longrightarrow> take 2 arg = ''-v'' \<or> take 3 arg = ''--s'' \<or> take 3 arg = ''--v''"
  "file_flag arg rest \<noteq> NotFlag \<Longrightarrow> take 2 arg = ''-f'' \<or> take 3 arg = ''--f''"
  "command_flag arg rest \<noteq> NotFlag \<Longrightarrow> take 2 arg = ''-c'' \<or> take 3 arg = ''--c''"
  unfolding var_flag_def file_flag_def command_flag_def
  using prefix_take [of 5 arg "''--set''" 3] prefix_take [of 10 arg "''--variable''" 3] prefix_take [of 6 arg "''--file''" 3]
    prefix_take [of 9 arg "''--command''" 3]
  by (auto dest!: long_short_prefix simp: eval_nat_numeral)

lemma two_of_three: "take 3 arg = a # b # cs \<Longrightarrow> take 2 arg = [a, b]"
  using prefix_take [of 3 arg "a # b # cs" 2] by (simp add: numeral_2_eq_2)

lemma flags_disjoint:
  "var_flag arg rest \<noteq> NotFlag \<Longrightarrow> file_flag arg rest' = NotFlag"
  "var_flag arg rest \<noteq> NotFlag \<Longrightarrow> command_flag arg rest' = NotFlag"
  "file_flag arg rest \<noteq> NotFlag \<Longrightarrow> command_flag arg rest' = NotFlag"
proof -
  have v: "take 2 arg \<in> {''-v'', ''--''} \<and> (take 2 arg = ''--'' \<longrightarrow> take 3 arg \<in> {''--s'', ''--v''})" if "var_flag arg r \<noteq> NotFlag" for r
    using flag_letters(1) [OF that] two_of_three [of arg] by auto
  have f: "take 2 arg \<in> {''-f'', ''--''} \<and> (take 2 arg = ''--'' \<longrightarrow> take 3 arg = ''--f'')" if "file_flag arg r \<noteq> NotFlag" for r
    using flag_letters(2) [OF that] two_of_three [of arg] by auto
  have c: "take 2 arg \<in> {''-c'', ''--''} \<and> (take 2 arg = ''--'' \<longrightarrow> take 3 arg = ''--c'')" if "command_flag arg r \<noteq> NotFlag" for r
    using flag_letters(3) [OF that] two_of_three [of arg] by auto
  show "var_flag arg rest \<noteq> NotFlag \<Longrightarrow> file_flag arg rest' = NotFlag" by (rule ccontr) (use v [of rest] f [of rest'] in force)
  show "var_flag arg rest \<noteq> NotFlag \<Longrightarrow> command_flag arg rest' = NotFlag" by (rule ccontr) (use v [of rest] c [of rest'] in force)
  show "file_flag arg rest \<noteq> NotFlag \<Longrightarrow> command_flag arg rest' = NotFlag" by (rule ccontr) (use f [of rest] c [of rest'] in force)
qed

subsection \<open>Where the readings differ\<close>

text \<open>The arguments that a variable flag takes as its value.\<close>

function var_values :: "bytes list \<Rightarrow> bytes list" where
  "var_values [] = []"
| "var_values (arg # rest) =
     (case var_flag arg rest of
        FlagNext v \<Rightarrow> v # var_values (tl rest)
      | NotFlag \<Rightarrow> (case (file_flag arg rest, command_flag arg rest) of
            (FlagNext p, _) \<Rightarrow> var_values (tl rest) | (_, FlagNext c) \<Rightarrow> var_values (tl rest) | _ \<Rightarrow> var_values rest)
      | _ \<Rightarrow> var_values rest)"
  by pat_completeness auto
termination by (relation "measure length") auto

declare var_values.simps [simp del]

definition input_flag :: "bytes \<Rightarrow> bool" where
  "input_flag v \<longleftrightarrow> file_flag v [] \<noteq> NotFlag \<or> command_flag v [] \<noteq> NotFlag"

lemma long_short_NotFlag: "long_short s ls arg rest = NotFlag \<longleftrightarrow> long_short s ls arg rest' = NotFlag"
  by (auto simp: long_short_def split: list.splits option.splits)

lemma not_input: "\<not> input_flag v \<Longrightarrow> file_flag v rest = NotFlag" "\<not> input_flag v \<Longrightarrow> command_flag v rest = NotFlag"
  unfolding input_flag_def file_flag_def command_flag_def using long_short_NotFlag by metis+

lemma FlagNext_rest: "long_short s ls arg rest = FlagNext v \<Longrightarrow> \<exists>r. rest = v # r"
  by (auto simp: long_short_def split: if_splits list.splits option.splits)

text \<open>An argument that is no input flag joins the arguments that all later steps share.\<close>

lemma psql_steps_skip:
  "\<not> input_flag arg \<Longrightarrow> psql_steps_of shared steps (arg # rest) stdin = psql_steps_of (shared @ [arg]) steps rest stdin"
  by (subst psql_steps_of.simps) (simp add: not_input)

lemma var_not_input: "var_flag arg rest \<noteq> NotFlag \<Longrightarrow> \<not> input_flag arg"
  using flags_disjoint by (auto simp: input_flag_def)

text \<open>\<open>inputs_of\<close> collects what the steps read.\<close>

definition inputs_of :: "psqlStep list \<Rightarrow> psqlInput list" where
  "inputs_of steps = concat (map st_inputs steps)"

lemma inputs_of_append [simp]: "inputs_of (xs @ ys) = inputs_of xs @ inputs_of ys" "inputs_of [] = []"
  "inputs_of [s] = st_inputs s"
  by (simp_all add: inputs_of_def)

subsection \<open>One step of both readings\<close>

text \<open>The scan without what it has found: a step that collects no input.\<close>

definition same_inputs :: "psqlScan \<Rightarrow> psqlScan \<Rightarrow> bool" where
  "same_inputs a b \<longleftrightarrow> ps_inputs b = ps_inputs a \<and> ps_usesStdin b = ps_usesStdin a"

lemma plain_flags [simp]: "\<not> input_flag []" "\<not> input_flag ''--''" "\<not> input_flag ''-X''" "\<not> input_flag ''--no-psqlrc''"
  "var_flag [] rest = NotFlag" "var_flag ''--'' rest = NotFlag" "var_flag ''-X'' rest = NotFlag" "var_flag ''--no-psqlrc'' rest = NotFlag"
proof -
  show "\<not> input_flag []" "\<not> input_flag ''--''" "\<not> input_flag ''-X''" "\<not> input_flag ''--no-psqlrc''" by code_simp+
  have "var_flag [] [] = NotFlag" "var_flag ''--'' [] = NotFlag" "var_flag ''-X'' [] = NotFlag" "var_flag ''--no-psqlrc'' [] = NotFlag" by code_simp+
  then show "var_flag [] rest = NotFlag" "var_flag ''--'' rest = NotFlag" "var_flag ''-X'' rest = NotFlag" "var_flag ''--no-psqlrc'' rest = NotFlag"
    unfolding var_flag_def using long_short_NotFlag by metis+
qed

lemma handleVarFlag_None: "handleVarFlag arg rest sc = None \<longleftrightarrow> var_flag arg rest = NotFlag"
  by (auto simp: handleVarFlag_def Let_def split: flagValue.splits)

lemma handleVarFlag_Some:
  assumes "handleVarFlag arg rest sc = Some (Inr (sc1, taken))"
  shows "same_inputs sc sc1" and "if taken then \<exists>v. var_flag arg rest = FlagNext v else \<exists>v. var_flag arg rest = FlagInline v"
  using assms by (auto simp: handleVarFlag_def same_inputs_def Let_def res_map_def split: flagValue.splits sum.splits)

lemma handleCommandFlag_Some:
  assumes "handleCommandFlag arg rest sc = Some (Inr (sc1, taken))"
  obtains c where "command_flag arg rest = (if taken then FlagNext c else FlagInline c)" "sc1 = sc\<lparr>ps_inputs := ps_inputs sc @ [CommandInput c]\<rparr>"
  using assms by (auto simp: handleCommandFlag_def Let_def split: flagValue.splits)

lemma handleFileFlag_Some:
  assumes "handleFileFlag files stdin arg rest sc = Some (Inr (sc1, taken))"
  obtains p where "file_flag arg rest = (if taken then FlagNext p else FlagInline p)" "p \<noteq> []" "addFileInput files stdin p sc = Inr sc1"
proof -
  have "\<exists>p. file_flag arg rest = (if taken then FlagNext p else FlagInline p) \<and> addFileInput files stdin p sc = Inr sc1"
    using assms by (auto simp: handleFileFlag_def res_map_def split: flagValue.splits sum.splits if_splits)
  then show ?thesis using that by (fastforce simp: addFileInput_def split: if_splits)
qed

lemma scan_step:
  assumes "scan_args files stdin (arg # rest) sc = Inr sc'"
  obtains (skip) sc1 where "\<not> input_flag arg" "\<forall>v. var_flag arg rest \<noteq> FlagNext v" "same_inputs sc sc1" "scan_args files stdin rest sc1 = Inr sc'"
  | (var) v sc1 where "var_flag arg rest = FlagNext v" "same_inputs sc sc1" "scan_args files stdin (tl rest) sc1 = Inr sc'"
  | (as_command) c taken where "command_flag arg rest = (if taken then FlagNext c else FlagInline c)"
      "scan_args files stdin (if taken then tl rest else rest) (sc\<lparr>ps_inputs := ps_inputs sc @ [CommandInput c]\<rparr>) = Inr sc'"
  | (as_file) p taken sc1 where "file_flag arg rest = (if taken then FlagNext p else FlagInline p)" "p \<noteq> []"
      "addFileInput files stdin p sc = Inr sc1" "scan_args files stdin (if taken then tl rest else rest) sc1 = Inr sc'"
proof (cases "arg = [] \<or> arg = ''--'' \<or> arg = ''-X'' \<or> arg = ''--no-psqlrc''")
  case True
  then have "scan_args files stdin rest sc = Inr sc' \<or> scan_args files stdin rest (sc\<lparr>ps_noPsqlrc := True\<rparr>) = Inr sc'"
    using assms by (subst (asm) scan_args.simps) (auto split: if_splits)
  moreover have "same_inputs sc sc" "same_inputs sc (sc\<lparr>ps_noPsqlrc := True\<rparr>)" by (simp_all add: same_inputs_def)
  moreover have "\<not> input_flag arg" "\<forall>v. var_flag arg rest \<noteq> FlagNext v" using True by auto
  ultimately show ?thesis using skip by blast
next
  case False
  have run: "(case handle_flag files stdin arg rest sc of
          Some (Inl e) \<Rightarrow> Inl e
        | Some (Inr (sc', taken)) \<Rightarrow> scan_args files stdin (if taken then tl rest else rest) sc'
        | None \<Rightarrow> if HasPrefix arg ''-'' then scan_args files stdin rest sc
            else Inl (invalid_argument ''positional database arguments are not allowed'' arg)) = Inr sc'"
    using assms False by (subst (asm) scan_args.simps) (auto split: if_splits)
  show ?thesis
  proof (cases "handle_flag files stdin arg rest sc")
    case None
    then have "var_flag arg rest = NotFlag" "file_flag arg rest = NotFlag" "command_flag arg rest = NotFlag"
      by (auto simp: handle_flag_def handleVarFlag_None handleFileFlag_def handleCommandFlag_def Let_def split: option.splits flagValue.splits if_splits)
    moreover from this have "\<not> input_flag arg"
      unfolding input_flag_def file_flag_def command_flag_def using long_short_NotFlag by metis
    ultimately show ?thesis using skip [of sc] run None by (auto simp: same_inputs_def split: if_splits)
  next
    case (Some r)
    obtain sc1 taken where r: "r = Inr (sc1, taken)" and next_args: "scan_args files stdin (if taken then tl rest else rest) sc1 = Inr sc'"
      using run Some by (auto split: sum.splits)
    consider "handleVarFlag arg rest sc = Some (Inr (sc1, taken))" | "handleFileFlag files stdin arg rest sc = Some (Inr (sc1, taken))"
      | "handleCommandFlag arg rest sc = Some (Inr (sc1, taken))"
      using Some r by (auto simp: handle_flag_def split: option.splits)
    then show ?thesis
    proof cases
      case 1
      note found = handleVarFlag_Some [OF 1]
      show ?thesis
      proof (cases taken)
        case True
        then show ?thesis using var found next_args by auto
      next
        case False
        then obtain v where "var_flag arg rest = FlagInline v" using found(2) by auto
        then show ?thesis using skip found(1) next_args False var_not_input [of arg rest] by auto
      qed
    next
      case 2
      then show ?thesis using as_file next_args by (elim handleFileFlag_Some) blast
    next
      case 3
      then show ?thesis using as_command next_args by (elim handleCommandFlag_Some) blast
    qed
  qed
qed

subsection \<open>Agreement\<close>

lemma addFileInput_result:
  assumes "addFileInput files stdin p sc = Inr sc1"
  shows "ps_usesStdin sc \<Longrightarrow> ps_usesStdin sc1"
    and "(ps_usesStdin sc1 \<longrightarrow> stdin \<noteq> None) \<Longrightarrow> \<exists>s. buildPsqlFileStep shared p stdin = Inr s \<and> ps_inputs sc1 = ps_inputs sc @ st_inputs s"
proof -
  show "ps_usesStdin sc \<Longrightarrow> ps_usesStdin sc1" using assms by (auto simp: addFileInput_def split: if_splits)
  assume uses: "ps_usesStdin sc1 \<longrightarrow> stdin \<noteq> None"
  show "\<exists>s. buildPsqlFileStep shared p stdin = Inr s \<and> ps_inputs sc1 = ps_inputs sc @ st_inputs s"
  proof (cases "p = ''-''")
    case True
    then show ?thesis using assms uses by (auto simp: addFileInput_def buildPsqlFileStep_def)
  next
    case False
    then have sc1: "rooted p" "ps_inputs sc1 = ps_inputs sc @ [FileInput p]" using assms
      by (auto simp: addFileInput_def IsAbsPath_def split: if_splits)
    have "TrimSpace p \<noteq> []" using sc1(1)
      by (cases p) (auto simp: TrimSpace_Nil_iff rooted_def HasPrefix_def is_space_def in_range_def)
    then show ?thesis using sc1(2) False by (simp add: buildPsqlFileStep_def)
  qed
qed

lemma scan_uses_stdin: "scan_args files stdin args sc = Inr sc' \<Longrightarrow> ps_usesStdin sc \<Longrightarrow> ps_usesStdin sc'"
proof (induction "length args" arbitrary: args sc rule: less_induct)
  case less
  show ?case
  proof (cases args)
    case Nil
    then show ?thesis using less.prems by (simp add: scan_args.simps)
  next
    case (Cons arg rest)
    have shorter: "length rest < length args" "length (tl rest) < length args" by (simp_all add: Cons)
    show ?thesis using less.prems(1) [unfolded Cons]
    proof (cases rule: scan_step)
      case (skip sc1)
      then show ?thesis using less.hyps [OF shorter(1) skip(4)] less.prems(2) by (simp add: same_inputs_def)
    next
      case (var v sc1)
      then show ?thesis using less.hyps [OF shorter(2) var(3)] less.prems(2) by (simp add: same_inputs_def)
    next
      case (as_command c taken)
      then show ?thesis using less.hyps [OF _ as_command(2)] less.prems(2) shorter by (auto split: if_splits)
    next
      case (as_file p taken sc1)
      then show ?thesis using less.hyps [OF _ as_file(4)] less.prems(2) shorter addFileInput_result(1) [OF as_file(3)]
        by (auto split: if_splits)
    qed
  qed
qed

lemma psql_steps_tail: "\<forall>x \<in> set extra. \<not> input_flag x \<Longrightarrow> \<exists>sh. psql_steps_of shared steps extra stdin = Inr (sh, steps)"
  by (induction extra arbitrary: shared) (auto simp: psql_steps_skip psql_steps_of.simps(1))

lemma flag_with_tail: "long_short s ls arg rest = (if taken then FlagNext v else FlagInline v)
    \<Longrightarrow> long_short s ls arg (rest @ extra) = (if taken then FlagNext v else FlagInline v) \<and> (taken \<longrightarrow> rest \<noteq> [])"
  by (auto simp: long_short_def split: if_splits list.splits option.splits)

lemma readings_agree:
  assumes "scan_args files stdin args sc = Inr sc'" and "\<forall>v \<in> set (var_values args). \<not> input_flag v"
    and "ps_usesStdin sc' \<longrightarrow> stdin \<noteq> None" and extra: "\<forall>x \<in> set extra. \<not> input_flag x"
  shows "\<exists>sh new steps'. psql_steps_of shared steps (args @ extra) stdin = Inr (sh, steps')
    \<and> inputs_of steps' = inputs_of steps @ new \<and> ps_inputs sc' = ps_inputs sc @ new"
  using assms(1-3)
proof (induction "length args" arbitrary: args sc shared steps rule: less_induct)
  case less
  show ?case
  proof (cases args)
    case Nil
    then show ?thesis using less.prems(1) psql_steps_tail [OF extra, of shared steps stdin] by (auto simp: scan_args.simps)
  next
    case (Cons arg rest)
    have shorter: "length rest < length args" "length (tl rest) < length args" by (simp_all add: Cons)
    show ?thesis using less.prems(1) [unfolded Cons]
    proof (cases rule: scan_step)
      case (skip sc1)
      have "set (var_values rest) \<subseteq> set (var_values args) \<or> file_flag arg rest \<noteq> NotFlag \<or> command_flag arg rest \<noteq> NotFlag"
        unfolding Cons using skip(2) by (subst var_values.simps) (auto split: flagValue.splits)
      then have vals: "\<forall>v \<in> set (var_values rest). \<not> input_flag v" using not_input skip(1) less.prems(2) by blast
      then show ?thesis
        using less.hyps [OF shorter(1) skip(4) vals less.prems(3), of "shared @ [arg]" steps] skip(1,3)
        by (auto simp: Cons psql_steps_skip same_inputs_def)
    next
      case (var v sc1)
      obtain r where rest: "rest = v # r" using FlagNext_rest var(1) unfolding var_flag_def by blast
      have values_eq: "var_values args = v # var_values r" unfolding Cons rest using var(1) by (subst var_values.simps) (simp add: rest)
      have "\<not> input_flag v" using less.prems(2) values_eq by simp
      moreover have "\<not> input_flag arg" using var(1) var_not_input by (metis flagValue.distinct(3))
      ultimately show ?thesis
        using less.hyps [of r sc1 "shared @ [arg, v]" steps] less.prems(2,3) var(2,3) values_eq
        by (auto simp: Cons rest psql_steps_skip same_inputs_def)
    next
      case (as_command c taken)
      have tail: "command_flag arg (rest @ extra) = (if taken then FlagNext c else FlagInline c)" "taken \<longrightarrow> rest \<noteq> []"
        using flag_with_tail [OF as_command(1) [unfolded command_flag_def], of extra] unfolding command_flag_def by blast+
      let ?rest = "if taken then tl rest else rest"
      have var: "var_flag arg rest = NotFlag" "file_flag arg rest = NotFlag"
        using as_command(1) flags_disjoint(2) [of arg rest rest] flags_disjoint(3) [of arg rest rest] by (auto split: if_splits)
      have "set (var_values ?rest) \<subseteq> set (var_values args)"
        unfolding Cons var_values.simps(2) [of arg rest] using var as_command(1) by (auto split: if_splits)
      then have vals: "\<forall>v \<in> set (var_values ?rest). \<not> input_flag v" using less.prems(2) by blast
      have len: "length ?rest < length args" using shorter by simp
      have "psql_steps_of shared steps (args @ extra) stdin = psql_steps_of shared (steps @ [command_step shared c]) (?rest @ extra) stdin"
        unfolding Cons using tail by (subst append_Cons, subst psql_steps_of.simps) auto
      moreover obtain sh new steps' where "psql_steps_of shared (steps @ [command_step shared c]) (?rest @ extra) stdin = Inr (sh, steps')"
          "inputs_of steps' = inputs_of (steps @ [command_step shared c]) @ new"
          "ps_inputs sc' = ps_inputs (sc\<lparr>ps_inputs := ps_inputs sc @ [CommandInput c]\<rparr>) @ new"
        using less.hyps [OF len as_command(2) vals less.prems(3)] by blast
      ultimately show ?thesis
        by (intro exI [of _ sh] exI [of _ "CommandInput c # new"] exI [of _ steps']) (simp add: command_step_def)
    next
      case (as_file p taken sc1)
      have tail: "file_flag arg (rest @ extra) = (if taken then FlagNext p else FlagInline p)" "taken \<longrightarrow> rest \<noteq> []"
        using flag_with_tail [OF as_file(1) [unfolded file_flag_def], of extra] unfolding file_flag_def by blast+
      let ?rest = "if taken then tl rest else rest"
      have var: "var_flag arg rest = NotFlag" "command_flag arg (rest @ extra) = NotFlag" "command_flag arg rest = NotFlag"
        using as_file(1) flags_disjoint(1) [of arg rest rest] flags_disjoint(3) [of arg rest "rest @ extra"]
          flags_disjoint(3) [of arg rest rest] by (auto split: if_splits)
      have stdin_ok: "ps_usesStdin sc1 \<longrightarrow> stdin \<noteq> None" using scan_uses_stdin [OF as_file(4)] less.prems(3) by blast
      obtain s where s: "buildPsqlFileStep shared p stdin = Inr s" "ps_inputs sc1 = ps_inputs sc @ st_inputs s"
        using addFileInput_result(2) [OF as_file(3) stdin_ok] by blast
      have "set (var_values ?rest) \<subseteq> set (var_values args)"
        unfolding Cons var_values.simps(2) [of arg rest] using var as_file(1) by (auto split: if_splits flagValue.splits)
      then have vals: "\<forall>v \<in> set (var_values ?rest). \<not> input_flag v" using less.prems(2) by blast
      have len: "length ?rest < length args" using shorter by simp
      have "psql_steps_of shared steps (args @ extra) stdin = psql_steps_of shared (steps @ [s]) (?rest @ extra) stdin"
        unfolding Cons using tail var(2) s(1) as_file(2) by (subst append_Cons, subst psql_steps_of.simps) auto
      moreover obtain sh new steps' where "psql_steps_of shared (steps @ [s]) (?rest @ extra) stdin = Inr (sh, steps')"
          "inputs_of steps' = inputs_of (steps @ [s]) @ new" "ps_inputs sc' = ps_inputs sc1 @ new"
        using less.hyps [OF len as_file(4) vals less.prems(3)] by blast
      ultimately show ?thesis
        by (intro exI [of _ sh] exI [of _ "st_inputs s @ new"] exI [of _ steps']) (simp add: s(2))
    qed
  qed
qed

text \<open>
  C34: The steps of an accepted request read exactly the inputs that were checked, in their order, unless a
  variable flag takes an argument that looks like a file or command flag as its value.
\<close>

theorem steps_read_the_inputs:
  assumes "preparePsqlArgs cwd files args stdin = Inr p" and "\<forall>v \<in> set (var_values args). \<not> input_flag v"
  shows "concat (map st_inputs (pp_steps p)) = pp_inputs p"
proof -
  obtain sc where sc: "scan_args files stdin args no_scan = Inr sc" "ps_usesStdin sc \<longrightarrow> stdin \<noteq> None" "pp_inputs p = ps_inputs sc"
    and run: "buildPsqlSteps (args @ (if ps_noPsqlrc sc then [] else [''-X'']) @ (if ps_onErrorStop sc then [] else [''-v'', ''ON_ERROR_STOP=1''])) stdin = Inr (pp_steps p)"
    using assms(1) by (auto simp: preparePsqlArgs_def Let_def split: sum.splits if_splits)
  have "\<not> input_flag ''-v''" "\<not> input_flag ''ON_ERROR_STOP=1''" by code_simp+
  then have "\<forall>x \<in> set ((if ps_noPsqlrc sc then [] else [''-X'']) @ (if ps_onErrorStop sc then [] else [''-v'', ''ON_ERROR_STOP=1''])). \<not> input_flag x"
    by simp
  from readings_agree [OF sc(1) assms(2) sc(2) this, of "[]" "[]"]
  have "inputs_of steps = ps_inputs sc" if "pp_steps p = steps" for steps
    using run unfolding that by (auto simp: buildPsqlSteps_def res_map_def no_scan_def inputs_of_def split: if_splits)
  then have "inputs_of (pp_steps p) = ps_inputs sc" by blast
  then show ?thesis by (simp add: sc(3) inputs_of_def)
qed

theorem steps_read_the_inputs_witness:
  "concat (map st_inputs (pp_steps (projr (preparePsqlArgs ''/w'' [] [''-c'', ''select 1'', ''-v'', ''a=b''] None)))) = [CommandInput ''select 1'']"
proof -
  have "case preparePsqlArgs ''/w'' [] [''-c'', ''select 1'', ''-v'', ''a=b''] None of
     Inl e \<Rightarrow> False | Inr p \<Rightarrow> pp_inputs p = [CommandInput ''select 1'']"
    by code_simp
  then obtain p where "preparePsqlArgs ''/w'' [] [''-c'', ''select 1'', ''-v'', ''a=b''] None = Inr p"
    "pp_inputs p = [CommandInput ''select 1'']"
    by (auto split: sum.splits prod.splits)
  moreover have "\<forall>v \<in> set (var_values [''-c'', ''select 1'', ''-v'', ''a=b'']). \<not> input_flag v" by code_simp
  ultimately show ?thesis using steps_read_the_inputs [of "''/w''" "[]"] by fastforce
qed

text \<open>A value that looks like a flag is executed although it was never checked.\<close>

lemma unchecked_step:
  "case preparePsqlArgs ''/w'' [] [''-v'', ''-f../secret=1''] None of
     Inl e \<Rightarrow> False | Inr p \<Rightarrow> pp_inputs p = [] \<and> map st_inputs (pp_steps p) = [[FileInput ''../secret=1'']]"
  by code_simp

end
