(* ===== verification/State_Hash.thy ===== *)
theory State_Hash
  imports Validation Sha256
begin

text \<open>
  The hash of states and tasks (\<^verbatim>\<open>prepare/hash.go\<close>): a list of named values, each written with its length, so
  that the list can be read back from the text that is hashed.
\<close>

type_synonym hashFields = "(bytes \<times> bytes) list"

definition hash_entry :: "bytes \<times> bytes \<Rightarrow> bytes" where
  "hash_entry f = (case f of (key, v) \<Rightarrow> key @ ''='' @ itoa (length v) @ '':'' @ v @ [CHR 0x0A])"

definition hash_input :: "hashFields \<Rightarrow> bytes" where
  "hash_input fs = concat (map hash_entry fs)"

definition hash_sum :: "hashFields \<Rightarrow> bytes" where
  "hash_sum fs = hex_EncodeToString (Sum256 (hash_input fs))"

definition hash_key :: "bytes \<Rightarrow> bool" where
  "hash_key key \<longleftrightarrow> CHR ''='' \<notin> set key"

subsection \<open>Reading the text back\<close>

lemma append_sep:
  assumes "xs @ c # us = ys @ c # vs" and "c \<notin> set xs" and "c \<notin> set ys"
  shows "xs = ys \<and> us = vs"
  using assms
proof (induction xs arbitrary: ys)
  case Nil
  then show ?case by (cases ys) auto
next
  case (Cons x xs)
  then show ?case by (cases ys) auto
qed

lemma itoa_loop_digits: "set (itoa_loop n buf) \<subseteq> set buf \<union> {c. in_range 48 57 c}"
proof (induction n buf rule: itoa_loop.induct)
  case (1 n buf)
  have "in_range 48 57 (char_of (48 + n mod 10))"
    by (simp add: in_range_def)
  then show ?case using 1 by (subst itoa_loop.simps) auto
qed

lemma itoa_no_colon: "CHR '':'' \<notin> set (itoa n)"
  using itoa_loop_digits [of n "[]"] by (auto simp: itoa_def in_range_def)

lemma hash_entry_inject:
  assumes "hash_entry (k, v) @ s = hash_entry (k', v') @ t" and "hash_key k" and "hash_key k'"
  shows "k = k' \<and> v = v' \<and> s = t"
proof -
  have "k @ CHR ''='' # itoa (length v) @ '':'' @ v @ [CHR 0x0A] @ s = k' @ CHR ''='' # itoa (length v') @ '':'' @ v' @ [CHR 0x0A] @ t"
    using assms(1) by (simp add: hash_entry_def)
  then have k: "k = k'" and rest: "itoa (length v) @ CHR '':'' # v @ [CHR 0x0A] @ s = itoa (length v') @ CHR '':'' # v' @ [CHR 0x0A] @ t"
    using assms(2,3) by (auto simp: hash_key_def dest!: append_sep)
  then have "length v = length v'" and "v @ [CHR 0x0A] @ s = v' @ [CHR 0x0A] @ t"
    using append_sep [OF rest itoa_no_colon itoa_no_colon] by simp_all
  then show ?thesis using k by simp
qed

lemma hash_input_inject:
  assumes "hash_input fs = hash_input gs" and "\<forall>f \<in> set fs. hash_key (fst f)" and "\<forall>g \<in> set gs. hash_key (fst g)"
  shows "fs = gs"
  using assms
proof (induction fs arbitrary: gs)
  case Nil
  then show ?case by (cases gs) (auto simp: hash_input_def hash_entry_def split: prod.splits)
next
  case (Cons f fs)
  obtain k v where f: "f = (k, v)" by (cases f)
  show ?case
  proof (cases gs)
    case Nil
    then show ?thesis using Cons.prems(1) by (simp add: hash_input_def hash_entry_def f)
  next
    case (Cons g gs')
    obtain k' v' where g: "g = (k', v')" by (cases g)
    have "k = k' \<and> v = v' \<and> hash_input fs = hash_input gs'"
      using Cons.prems hash_entry_inject [of k v "hash_input fs" k' v' "hash_input gs'"] by (simp add: hash_input_def Cons f g)
    then show ?thesis using Cons.IH [of gs'] Cons.prems(2,3) by (simp add: Cons f g)
  qed
qed

lemma hash_sum_inject:
  assumes "hash_sum fs = hash_sum gs" and "\<forall>f \<in> set fs. hash_key (fst f)" and "\<forall>g \<in> set gs. hash_key (fst g)"
  shows "fs = gs \<or> sha256_collision (hash_input fs) (hash_input gs)"
proof -
  have "Sum256 (hash_input fs) = Sum256 (hash_input gs)" using assms(1) by (simp add: hash_sum_def)
  then show ?thesis using hash_input_inject [OF _ assms(2,3)] Sum256_eqD by blast
qed

end
