(* ===== verification/Psql_Content.thy ===== *)
theory Psql_Content
  imports Psql_Args State_Hash
begin

text \<open>
  The content digest of psql inputs (\<^verbatim>\<open>prepare/psql_content.go\<close>, with the file locks of \<^verbatim>\<open>content_lock.go\<close>): the
  text of the inputs with the files they include put in their place, hashed.

  An expansion gets fuel for the depth of its includes, \<open>None\<close> is that the fuel does not suffice.
\<close>

subsection \<open>Files\<close>

definition read_path :: "fileTable \<Rightarrow> bytes \<Rightarrow> engineError + bytes" where
  "read_path files path = (case map_of files path of None \<Rightarrow> Inl ErrNotExist | Some r \<Rightarrow> r)"

text \<open>The lines of \<^verbatim>\<open>bufio.Scanner\<close>, and whether it stops at one that is too long.\<close>

definition dropCR :: "bytes \<Rightarrow> bytes" where
  "dropCR line = (if line \<noteq> [] \<and> last line = CHR 0x0D then butlast line else line)"

definition raw_lines :: "bytes \<Rightarrow> bytes list" where
  "raw_lines content =
     (let pieces = split_on (CHR 0x0A) content in if last pieces = [] then butlast pieces else pieces)"

definition scan_lines :: "bytes \<Rightarrow> bytes list \<times> bool" where
  "scan_lines content =
     (let pieces = raw_lines content; fitting = takeWhile (\<lambda>l. length l < 65536) pieces in
      (map dropCR fitting, length fitting < length pieces))"

subsection \<open>Include commands\<close>

definition rune_text :: "bytes \<Rightarrow> bytes" where
  "rune_text s =
     (let r = take (rune_width s) s in if ValidString r then r else [CHR 0xEF, CHR 0xBF, CHR 0xBD])"

text \<open>The words read so far, the word being read and the quote it is in.\<close>

function split_command :: "bytes list \<Rightarrow> bytes \<Rightarrow> byte option \<Rightarrow> bytes \<Rightarrow> bytes list" where
  "split_command out buf quote [] = (if buf \<noteq> [] then out @ [buf] else out)"
| "split_command out buf quote (c # s) =
     (let rest = drop (rune_width (c # s)) (c # s); r = rune_text (c # s) in
      case quote of
        Some q \<Rightarrow>
          if c = q then split_command out buf None rest
          else split_command out (buf @ r) quote rest
      | None \<Rightarrow>
          if c = CHR 0x27 \<or> c = CHR 0x22 then split_command out buf (Some c) rest
          else if c = CHR '' '' \<or> c = CHR 0x09 then
            (if buf \<noteq> [] then split_command (out @ [buf]) [] None rest else split_command out buf None rest)
          else split_command out (buf @ r) None rest)"
  by pat_completeness auto
termination
  by (relation "measure (\<lambda>(out, buf, quote, s). length s)") (use rune_width_pos in \<open>auto intro!: diff_less\<close>)

declare split_command.simps [simp del]

definition splitPsqlCommand :: "bytes \<Rightarrow> bytes list" where
  "splitPsqlCommand line = split_command [] [] None line"

definition parsePsqlInclude :: "bytes \<Rightarrow> (bytes \<times> bytes) option" where
  "parsePsqlInclude line =
     (let trimmed = TrimSpace line in
      if \<not> HasPrefix trimmed [CHR 0x5C] then None
      else
        let parts = splitPsqlCommand trimmed in
        if length parts < 2 then None
        else if parts ! 0 \<in> {CHR 0x5C # ''i'', CHR 0x5C # ''ir'', CHR 0x5C # ''include'', CHR 0x5C # ''include_relative''}
          then Some (parts ! 0, parts ! 1)
        else None)"

text \<open>The current file is empty for the text of a command.\<close>

definition resolveIncludePath :: "bytes \<Rightarrow> bytes \<Rightarrow> bytes \<Rightarrow> bytes \<Rightarrow> engineError + bytes" where
  "resolveIncludePath workDir cmd arg currentFile =
     (let arg = TrimSpace arg in
      if arg = [] then Inl (ErrIO ''include path is empty'')
      else if rooted arg then Inr (Clean arg)
      else
        let base = (if cmd \<in> {CHR 0x5C # ''ir'', CHR 0x5C # ''include_relative''} \<and> currentFile \<noteq> []
          then path_Dir currentFile else workDir) in
        if TrimSpace base = [] then Inl (ErrIO ''include path requires working directory'')
        else Inr (Clean (path_Join [base, arg])))"

subsection \<open>Expansion\<close>

text \<open>What has been written and the files locked so far, in their order.\<close>

type_synonym expanded = "engineError + bytes \<times> bytes list"

definition include_boundary :: bytes where
  "include_boundary = CHR 0x0A # ''-- sqlrs: include-boundary'' @ [CHR 0x0A]"

definition input_boundary :: bytes where
  "input_boundary = CHR 0x0A # ''-- sqlrs: input-boundary'' @ [CHR 0x0A]"

definition too_long :: engineError where
  "too_long = ErrIO ''bufio.Scanner: token too long''"

definition lock_name :: "bytes \<Rightarrow> bytes list \<Rightarrow> bytes list" where
  "lock_name path seen = (if path \<in> set seen then seen else seen @ [path])"

definition expand_then :: "expanded option \<Rightarrow> (bytes \<times> bytes list \<Rightarrow> expanded option) \<Rightarrow> expanded option" where
  "expand_then x f = (case x of None \<Rightarrow> None | Some (Inl e) \<Rightarrow> Some (Inl e) | Some (Inr s) \<Rightarrow> f s)"

text \<open>The lines of a content, with the expansion of the files they include.\<close>

fun expand_lines ::
    "(bytes \<Rightarrow> bytes \<times> bytes list \<Rightarrow> expanded option) \<Rightarrow> bytes \<Rightarrow> bytes \<Rightarrow> bool \<Rightarrow> bytes list \<Rightarrow> bytes \<times> bytes list \<Rightarrow> expanded option" where
  "expand_lines expand workDir currentFile stops [] s = Some (if stops then Inl too_long else Inr s)"
| "expand_lines expand workDir currentFile stops (line # rest) (out, seen) =
     (case parsePsqlInclude line of
        None \<Rightarrow> expand_lines expand workDir currentFile stops rest (out @ line @ [CHR 0x0A], seen)
      | Some (cmd, arg) \<Rightarrow>
          (case resolveIncludePath workDir cmd arg currentFile of Inl e \<Rightarrow> Some (Inl e)
           | Inr path \<Rightarrow>
              expand_then (expand path (out @ include_boundary, seen))
                (\<lambda>s. expand_lines expand workDir currentFile stops rest (fst s @ include_boundary, snd s))))"

definition expandContent ::
    "(bytes \<Rightarrow> bytes \<times> bytes list \<Rightarrow> expanded option) \<Rightarrow> bytes \<Rightarrow> bytes \<Rightarrow> bytes \<Rightarrow> bytes \<times> bytes list \<Rightarrow> expanded option" where
  "expandContent expand workDir content currentFile s =
     (case scan_lines content of (lines, stops) \<Rightarrow> expand_lines expand workDir currentFile stops lines s)"

text \<open>The stack holds the files that are being expanded.\<close>

primrec expandFile :: "nat \<Rightarrow> fileTable \<Rightarrow> bytes \<Rightarrow> bytes list \<Rightarrow> bytes \<Rightarrow> bytes \<times> bytes list \<Rightarrow> expanded option" where
  "expandFile 0 files workDir stack path s = None"
| "expandFile (Suc n) files workDir stack path s =
     (if TrimSpace path = [] then Some (Inl (ErrIO ''empty include path''))
      else
        let path = Clean path in
        if path \<in> set stack then Some (Inl (ErrIO (''recursive include: '' @ path)))
        else case read_path files path of Inl e \<Rightarrow> Some (Inl e)
          | Inr content \<Rightarrow>
              expandContent (expandFile n files workDir (path # stack)) workDir content path (fst s, lock_name path (snd s)))"

definition expand_input :: "nat \<Rightarrow> fileTable \<Rightarrow> bytes \<Rightarrow> psqlInput \<Rightarrow> bytes \<times> bytes list \<Rightarrow> expanded option" where
  "expand_input n files workDir i s =
     (case i of
        CommandInput v \<Rightarrow> expandContent (expandFile n files workDir []) workDir v [] s
      | StdinInput v \<Rightarrow> expandContent (expandFile n files workDir []) workDir v [] s
      | FileInput v \<Rightarrow> expandFile n files workDir [] v s)"

fun expand_inputs :: "nat \<Rightarrow> fileTable \<Rightarrow> bytes \<Rightarrow> bool \<Rightarrow> psqlInput list \<Rightarrow> bytes \<times> bytes list \<Rightarrow> expanded option" where
  "expand_inputs n files workDir later [] s = Some (Inr s)"
| "expand_inputs n files workDir later (i # rest) s =
     expand_then (expand_input n files workDir i (if later then (fst s @ input_boundary, snd s) else s))
       (expand_inputs n files workDir True rest)"

record psqlContentDigest =
  cd_hash :: bytes
  cd_filePaths :: "bytes list"

definition content_text :: "fileTable \<Rightarrow> psqlInput list \<Rightarrow> bytes \<Rightarrow> expanded option" where
  "content_text files inputs workDir = expand_inputs (Suc (length files)) files workDir False inputs ([], [])"

definition computePsqlContentDigest :: "fileTable \<Rightarrow> psqlInput list \<Rightarrow> bytes \<Rightarrow> (engineError + psqlContentDigest) option" where
  "computePsqlContentDigest files inputs workDir =
     map_option (res_map (\<lambda>(content, seen). \<lparr>cd_hash = hex_EncodeToString (Sum256 content), cd_filePaths = seen\<rparr>))
       (content_text files inputs workDir)"

end
