(* ===== verification/Psql_Content_Props.thy ===== *)
theory Psql_Content_Props
  imports Psql_Content
begin

text \<open>
  The expansion of psql inputs always ends, whatever the files include, and what it gives depends on no file but
  those it locks.
\<close>

subsection \<open>Fuel\<close>

lemma expand_then_total: "x \<noteq> None \<Longrightarrow> (\<And>s. f s \<noteq> None) \<Longrightarrow> expand_then x f \<noteq> None"
  by (simp add: expand_then_def split: option.split sum.split)

lemma expand_lines_total:
  assumes "\<And>path s. expand path s \<noteq> None"
  shows "expand_lines expand workDir cur stops lines s \<noteq> None"
proof (induction lines arbitrary: s)
  case (Cons line rest)
  obtain out seen where s: "s = (out, seen)" by (cases s)
  have "expand_then (expand path s') (\<lambda>s. expand_lines expand workDir cur stops rest (fst s @ include_boundary, snd s)) \<noteq> None" for path s'
    by (rule expand_then_total [OF assms Cons.IH])
  then show ?case unfolding s expand_lines.simps(2)
    by (cases "parsePsqlInclude line") (simp_all add: Cons.IH [simplified] split: prod.split sum.split)
qed simp

lemma expandContent_total:
  assumes "\<And>path s. expand path s \<noteq> None"
  shows "expandContent expand workDir content cur s \<noteq> None"
  unfolding expandContent_def by (cases "scan_lines content") (simp only: prod.case, rule expand_lines_total [OF assms])

text \<open>Every file on the stack is a different one of the table.\<close>

definition includes_open :: "fileTable \<Rightarrow> bytes list \<Rightarrow> bool" where
  "includes_open files stack \<longleftrightarrow> distinct stack \<and> set stack \<subseteq> fst ` set files"

lemma includes_open_length:
  assumes "includes_open files stack"
  shows "length stack \<le> length files"
proof -
  have "length stack = card (set stack)" using assms by (simp add: includes_open_def distinct_card)
  also have "\<dots> \<le> card (set (map fst files))" using assms by (intro card_mono) (simp_all add: includes_open_def)
  also have "\<dots> \<le> length files" using card_length [of "map fst files"] by simp
  finally show ?thesis .
qed

lemma includes_open_Cons:
  "includes_open files stack \<Longrightarrow> read_path files p = Inr content \<Longrightarrow> p \<notin> set stack \<Longrightarrow> includes_open files (p # stack)"
  by (auto simp: includes_open_def read_path_def split: option.splits dest: map_of_SomeD intro: rev_image_eqI)

lemma expandFile_total: "includes_open files stack \<Longrightarrow> length files < n + length stack \<Longrightarrow> expandFile n files workDir stack path s \<noteq> None"
proof (induction n arbitrary: stack path s)
  case 0
  then show ?case using includes_open_length [of files stack] by simp
next
  case (Suc n)
  let ?p = "Clean path"
  have "expandContent (expandFile n files workDir (?p # stack)) workDir content ?p s' \<noteq> None"
    if "read_path files ?p = Inr content" "?p \<notin> set stack" for content s'
    by (rule expandContent_total, rule Suc.IH [OF includes_open_Cons [OF Suc.prems(1) that]]) (use Suc.prems(2) in simp)
  then show ?case by (simp add: Let_def split: sum.split)
qed

lemma expand_input_total: "length files < n \<Longrightarrow> expand_input n files workDir i s \<noteq> None"
  using expandFile_total [of files "[]" n] expandContent_total [of "expandFile n files workDir []"]
  by (cases i) (simp_all add: expand_input_def includes_open_def)

lemma expand_inputs_total: "length files < n \<Longrightarrow> expand_inputs n files workDir later inputs s \<noteq> None"
proof (induction inputs arbitrary: later s)
  case (Cons i inputs)
  show ?case unfolding expand_inputs.simps(2)
    by (rule expand_then_total [OF expand_input_total [OF Cons.prems] Cons.IH [OF Cons.prems]])
qed simp

text \<open>
  C35: Expanding the inputs of a psql request ends with a digest or an error for every table of files: files that
  include each other, directly or through others, are found by the stack of open files before it grows beyond the
  number of files there are.
\<close>

theorem digest_ends: "\<exists>r. computePsqlContentDigest files inputs workDir = Some r"
  using expand_inputs_total [of files "Suc (length files)" workDir False inputs "([], [])"]
  by (auto simp: computePsqlContentDigest_def content_text_def)

subsection \<open>More fuel changes nothing\<close>

lemma expand_then_mono:
  assumes "expand_then x f = Some r" and "\<And>r. x = Some r \<Longrightarrow> x' = Some r" and "\<And>s r. f s = Some r \<Longrightarrow> f' s = Some r"
  shows "expand_then x' f' = Some r"
proof -
  obtain y where y: "x = Some y" using assms(1) by (cases x) (auto simp: expand_then_def)
  show ?thesis using assms(1) assms(2) [OF y] y by (cases y) (auto simp: expand_then_def intro: assms(3))
qed

lemma expand_lines_mono:
  assumes "\<And>path s r. expand path s = Some r \<Longrightarrow> expand' path s = Some r"
  shows "expand_lines expand workDir cur stops lines s = Some r \<Longrightarrow> expand_lines expand' workDir cur stops lines s = Some r"
proof (induction lines arbitrary: s r)
  case (Cons line rest)
  obtain out seen where s: "s = (out, seen)" by (cases s)
  show ?case using Cons.prems unfolding s expand_lines.simps(2)
    by (auto split: option.splits sum.splits elim!: expand_then_mono intro: assms Cons.IH)
qed simp

lemma expandContent_mono:
  assumes "\<And>path s r. expand path s = Some r \<Longrightarrow> expand' path s = Some r" and "expandContent expand workDir content cur s = Some r"
  shows "expandContent expand' workDir content cur s = Some r"
  using assms(2) unfolding expandContent_def by (auto split: prod.splits intro: expand_lines_mono [OF assms(1)])

lemma expandFile_Suc: "expandFile n files workDir stack path s = Some r \<Longrightarrow> expandFile (Suc n) files workDir stack path s = Some r"
proof (induction n arbitrary: stack path s r)
  case (Suc n)
  have step: "expandContent (expandFile (Suc n) files workDir st) workDir content cur s' = Some r'"
    if "expandContent (expandFile n files workDir st) workDir content cur s' = Some r'" for st content cur s' r'
    using that by (rule expandContent_mono [rotated]) (rule Suc.IH)
  show ?case using Suc.prems step unfolding expandFile.simps(2) [of "Suc n"] expandFile.simps(2) [of n]
    by (auto simp: Let_def simp del: expandFile.simps split: if_splits sum.splits)
qed simp

lemma expandFile_mono: "n \<le> m \<Longrightarrow> expandFile n files workDir stack path s = Some r \<Longrightarrow> expandFile m files workDir stack path s = Some r"
  by (induction m rule: dec_induct) (auto simp del: expandFile.simps intro: expandFile_Suc)

lemma expand_input_mono:
  assumes "n \<le> m" and "expand_input n files workDir i s = Some r"
  shows "expand_input m files workDir i s = Some r"
  using assms(2) expandContent_mono [OF expandFile_mono [OF assms(1)]]
  by (cases i) (auto simp: expand_input_def intro: expandFile_mono [OF assms(1)])

lemma expand_inputs_mono:
  assumes "n \<le> m"
  shows "expand_inputs n files workDir later inputs s = Some r \<Longrightarrow> expand_inputs m files workDir later inputs s = Some r"
proof (induction inputs arbitrary: later s r)
  case (Cons i inputs)
  from Cons.prems show ?case unfolding expand_inputs.simps(2)
    by (rule expand_then_mono) (auto intro: expand_input_mono [OF assms] Cons.IH)
qed simp

subsection \<open>Only the locked files matter\<close>

definition same_files :: "fileTable \<Rightarrow> fileTable \<Rightarrow> bytes list \<Rightarrow> bool" where
  "same_files files files' locked \<longleftrightarrow> (\<forall>p \<in> set locked. read_path files' p = read_path files p)"

text \<open>A step only adds locks, and gives the same where the tables agree on the files it has locked.\<close>

definition framed :: "fileTable \<Rightarrow> fileTable \<Rightarrow> bytes \<times> bytes list \<Rightarrow> expanded option \<Rightarrow> expanded option \<Rightarrow> bool" where
  "framed files files' s x x' \<longleftrightarrow>
     (\<forall>r. x = Some (Inr r) \<longrightarrow> set (snd s) \<subseteq> set (snd r) \<and> (same_files files files' (snd r) \<longrightarrow> x' = Some (Inr r)))"

lemma same_files_subset: "same_files files files' b \<Longrightarrow> set a \<subseteq> set b \<Longrightarrow> same_files files files' a"
  by (auto simp: same_files_def)

lemma framed_bind:
  assumes "framed files files' s x x'"
    and "\<And>r. x = Some (Inr r) \<Longrightarrow> framed files files' r (f r) (f' r)"
    and "x = Some (Inr r)" and "f r = Some (Inr t)"
  shows "set (snd s) \<subseteq> set (snd t)" and "same_files files files' (snd t) \<Longrightarrow> x' = Some (Inr r) \<and> f' r = Some (Inr t)"
proof -
  have r: "set (snd s) \<subseteq> set (snd r)" "same_files files files' (snd r) \<Longrightarrow> x' = Some (Inr r)"
    using assms(1,3) by (auto simp: framed_def)
  have t: "set (snd r) \<subseteq> set (snd t)" "same_files files files' (snd t) \<Longrightarrow> f' r = Some (Inr t)"
    using assms(2) [OF assms(3)] assms(4) by (auto simp: framed_def)
  show "set (snd s) \<subseteq> set (snd t)" using r(1) t(1) by blast
  show "x' = Some (Inr r) \<and> f' r = Some (Inr t)" if "same_files files files' (snd t)"
    using r(2) t same_files_subset [OF that t(1)] that by blast
qed

lemma expand_lines_framed:
  assumes "\<And>path s. framed files files' s (expand path s) (expand' path s)"
  shows "framed files files' s (expand_lines expand workDir cur stops lines s) (expand_lines expand' workDir cur stops lines s)"
proof (induction lines arbitrary: s)
  case Nil
  then show ?case by (simp add: framed_def)
next
  case (Cons line rest)
  obtain out seen where s: "s = (out, seen)" by (cases s)
  show ?case
  proof (cases "parsePsqlInclude line")
    case None
    then show ?thesis using Cons.IH [of "(out @ line @ [CHR 0x0A], seen)"] by (simp add: s framed_def)
  next
    case (Some c)
    obtain cmd arg where c: "c = (cmd, arg)" by (cases c)
    show ?thesis
    proof (cases "resolveIncludePath workDir cmd arg cur")
      case (Inl e)
      then show ?thesis by (simp add: s Some c framed_def)
    next
      case (Inr path)
      let ?more = "\<lambda>ex r. expand_lines ex workDir cur stops rest (fst r @ include_boundary, snd r)"
      have IH: "framed files files' r (?more expand r) (?more expand' r)" for r
        using Cons.IH [of "(fst r @ include_boundary, snd r)"] by (simp add: framed_def)
      show ?thesis unfolding framed_def
      proof (intro allI impI)
        fix t
        assume "expand_lines expand workDir cur stops (line # rest) s = Some (Inr t)"
        then obtain r where r: "expand path (out @ include_boundary, seen) = Some (Inr r)" "?more expand r = Some (Inr t)"
          by (auto simp: s Some c Inr expand_then_def split: option.splits sum.splits)
        from framed_bind [OF assms IH r]
        show "set (snd s) \<subseteq> set (snd t) \<and> (same_files files files' (snd t)
            \<longrightarrow> expand_lines expand' workDir cur stops (line # rest) s = Some (Inr t))"
          by (auto simp: s Some c Inr expand_then_def)
      qed
    qed
  qed
qed

lemma expandContent_framed:
  "(\<And>path s. framed files files' s (expand path s) (expand' path s))
    \<Longrightarrow> framed files files' s (expandContent expand workDir content cur s) (expandContent expand' workDir content cur s)"
  unfolding expandContent_def by (auto split: prod.split intro: expand_lines_framed)

lemma expandFile_framed: "framed files files' s (expandFile n files workDir stack path s) (expandFile n files' workDir stack path s)"
proof (induction n arbitrary: stack path s)
  case 0
  then show ?case by (simp add: framed_def)
next
  case (Suc n)
  let ?p = "Clean path"
  show ?case unfolding framed_def
  proof (intro allI impI)
    fix r
    assume "expandFile (Suc n) files workDir stack path s = Some (Inr r)"
    then obtain content where checks: "TrimSpace path \<noteq> []" "?p \<notin> set stack" and content: "read_path files ?p = Inr content"
      and run: "expandContent (expandFile n files workDir (?p # stack)) workDir content ?p (fst s, lock_name ?p (snd s)) = Some (Inr r)"
      by (auto simp: Let_def split: if_splits sum.splits)
    have fr: "framed files files' (fst s, lock_name ?p (snd s))
        (expandContent (expandFile n files workDir (?p # stack)) workDir content ?p (fst s, lock_name ?p (snd s)))
        (expandContent (expandFile n files' workDir (?p # stack)) workDir content ?p (fst s, lock_name ?p (snd s)))"
      by (rule expandContent_framed) (rule Suc.IH)
    have "set (lock_name ?p (snd s)) \<subseteq> set (snd r)"
      and same: "same_files files files' (snd r) \<longrightarrow>
          expandContent (expandFile n files' workDir (?p # stack)) workDir content ?p (fst s, lock_name ?p (snd s)) = Some (Inr r)"
      using fr run unfolding framed_def snd_conv by blast+
    then have locked: "set (snd s) \<subseteq> set (snd r)" "?p \<in> set (snd r)"
      by (auto simp: lock_name_def split: if_splits)
    have "read_path files' ?p = Inr content" if "same_files files files' (snd r)"
      using that locked(2) content by (simp add: same_files_def)
    then show "set (snd s) \<subseteq> set (snd r) \<and> (same_files files files' (snd r)
        \<longrightarrow> expandFile (Suc n) files' workDir stack path s = Some (Inr r))"
      using locked(1) same checks by (simp add: Let_def)
  qed
qed

lemma expand_input_framed: "framed files files' s (expand_input n files workDir i s) (expand_input n files' workDir i s)"
  unfolding expand_input_def
  by (cases i) (simp_all add: expandFile_framed expandContent_framed [OF expandFile_framed])

lemma expand_inputs_framed:
  "framed files files' s (expand_inputs n files workDir later inputs s) (expand_inputs n files' workDir later inputs s)"
proof (induction inputs arbitrary: later s)
  case Nil
  then show ?case by (simp add: framed_def)
next
  case (Cons i inputs)
  let ?s = "if later then (fst s @ input_boundary, snd s) else s"
  have locks: "snd ?s = snd s" by simp
  show ?case unfolding framed_def
  proof (intro allI impI)
    fix t
    assume "expand_inputs n files workDir later (i # inputs) s = Some (Inr t)"
    then obtain r where r: "expand_input n files workDir i ?s = Some (Inr r)" "expand_inputs n files workDir True inputs r = Some (Inr t)"
      by (auto simp: expand_then_def split: option.splits sum.splits)
    from framed_bind [OF expand_input_framed Cons.IH r]
    show "set (snd s) \<subseteq> set (snd t) \<and> (same_files files files' (snd t)
        \<longrightarrow> expand_inputs n files' workDir later (i # inputs) s = Some (Inr t))"
      unfolding locks by (auto simp: expand_then_def)
  qed
qed

text \<open>
  The digest of psql inputs depends on the files it has locked and on no other: when it has been computed, any
  change of the file system that leaves the locked files as they are, with whatever files added, removed or
  changed besides, gives the same digest and the same locked files.
\<close>

theorem digest_frame:
  assumes "computePsqlContentDigest files inputs workDir = Some (Inr d)" and "\<forall>p \<in> set (cd_filePaths d). read_path files' p = read_path files p"
  shows "computePsqlContentDigest files' inputs workDir = Some (Inr d)"
proof -
  let ?n = "Suc (length files)" and ?m = "Suc (length files + length files')" and ?n' = "Suc (length files')"
  obtain content seen where run: "expand_inputs ?n files workDir False inputs ([], []) = Some (Inr (content, seen))"
    and d: "d = \<lparr>cd_hash = hex_EncodeToString (Sum256 content), cd_filePaths = seen\<rparr>"
    using assms(1) unfolding computePsqlContentDigest_def content_text_def by (auto simp: res_map_Inr_iff)
  have "expand_inputs ?m files workDir False inputs ([], []) = Some (Inr (content, seen))"
    by (rule expand_inputs_mono [OF _ run]) simp
  moreover have "same_files files files' seen" using assms(2) by (simp add: d same_files_def)
  ultimately have m: "expand_inputs ?m files' workDir False inputs ([], []) = Some (Inr (content, seen))"
    using expand_inputs_framed [of files files' "([], [])" ?m workDir False inputs] by (simp add: framed_def)
  obtain r where r: "expand_inputs ?n' files' workDir False inputs ([], []) = Some r"
    using expand_inputs_total [of files' ?n' workDir False inputs "([], [])"] by auto
  have "expand_inputs ?m files' workDir False inputs ([], []) = Some r" by (rule expand_inputs_mono [OF _ r]) simp
  then have "r = Inr (content, seen)" using m by simp
  then show ?thesis using r by (simp add: computePsqlContentDigest_def content_text_def d res_map_def)
qed

theorem digest_frame_witness:
  "\<exists>d. computePsqlContentDigest [(''/w/a'', Inr ''x''), (''/w/b'', Inr ''z'')] [FileInput ''/w/a''] ''/w'' = Some (Inr d)
     \<and> computePsqlContentDigest [(''/w/a'', Inr ''x'')] [FileInput ''/w/a''] ''/w'' = Some (Inr d)"
proof -
  have "content_text [(''/w/a'', Inr ''x''), (''/w/b'', Inr ''z'')] [FileInput ''/w/a''] ''/w'' = Some (Inr (''x'' @ [CHR 0x0A], [''/w/a'']))"
    by code_simp
  then have run: "computePsqlContentDigest [(''/w/a'', Inr ''x''), (''/w/b'', Inr ''z'')] [FileInput ''/w/a''] ''/w''
      = Some (Inr \<lparr>cd_hash = hex_EncodeToString (Sum256 (''x'' @ [CHR 0x0A])), cd_filePaths = [''/w/a'']\<rparr>)"
    by (simp add: computePsqlContentDigest_def res_map_def)
  have "computePsqlContentDigest [(''/w/a'', Inr ''x'')] [FileInput ''/w/a''] ''/w''
      = Some (Inr \<lparr>cd_hash = hex_EncodeToString (Sum256 (''x'' @ [CHR 0x0A])), cd_filePaths = [''/w/a'']\<rparr>)"
    by (rule digest_frame [OF run]) (simp add: read_path_def)
  then show ?thesis using run by blast
qed

text \<open>A file that includes itself is refused, an included file is put in its place.\<close>

lemma include_examples:
  "content_text [(''/w/a'', Inr (CHR 0x5C # ''ir b'')), (''/w/b'', Inr (CHR 0x5C # ''i '' @ [CHR 0x22] @ ''/w/a'' @ [CHR 0x22]))] [FileInput ''/w/a''] ''/w''
     = Some (Inl (ErrIO ''recursive include: /w/a''))"
  "content_text [(''/w/a'', Inr (CHR 0x5C # ''ir b'')), (''/w/b'', Inr ''x'')] [FileInput ''/w/a'', CommandInput ''y''] ''/w''
     = Some (Inr (include_boundary @ ''x'' @ [CHR 0x0A] @ include_boundary @ input_boundary @ ''y'' @ [CHR 0x0A], [''/w/a'', ''/w/b'']))"
  by code_simp+

end
