(* ===== verification/Liquibase_Args.thy ===== *)
theory Liquibase_Args
  imports Psql_Args
begin

text \<open>
  The arguments of a Liquibase preparation (\<^verbatim>\<open>prepare/liquibase.go\<close>, parts of \<^verbatim>\<open>liquibase_host.go\<close> and
  \<^verbatim>\<open>liquibase_paths.go\<close>): what is refused, how paths are made absolute or mounted into the container, which files are
  locked, and how the command is replaced by the one that is run.
\<close>

record Mount =
  mt_HostPath :: bytes
  mt_ContainerPath :: bytes
  mt_ReadOnly :: bool

record liquibasePrepared =
  lp_normalizedArgs :: "bytes list"
  lp_argsNormalized :: bytes
  lp_mounts :: "Mount list"
  lp_lockPaths :: "bytes list"
  lp_searchPaths :: "bytes list"
  lp_workDir :: bytes

subsection \<open>Flags\<close>

definition flag_of :: "bytes list \<Rightarrow> bytes \<Rightarrow> bool" where
  "flag_of names arg \<longleftrightarrow> arg \<in> set names \<or> list_ex (\<lambda>n. HasPrefix arg (n @ ''='')) names"

definition isLiquibaseConnectionFlag :: "bytes \<Rightarrow> bool" where
  "isLiquibaseConnectionFlag = flag_of [''--url'', ''--username'', ''--password'']"

definition isLiquibaseRuntimeFlag :: "bytes \<Rightarrow> bool" where
  "isLiquibaseRuntimeFlag = flag_of [''--classpath'', ''--driver'']"

definition path_flags :: "bytes list" where
  "path_flags = [''--changelog-file'', ''--defaults-file'', ''--searchPath'', ''--search-path'']"

definition isLiquibaseFlagWithValue :: "bytes \<Rightarrow> bool" where
  "isLiquibaseFlagWithValue = flag_of (path_flags @ [''--classpath'', ''--driver'', ''--url'', ''--username'', ''--password''])"

definition isSearchPathFlag :: "bytes \<Rightarrow> bool" where
  "isSearchPathFlag flag \<longleftrightarrow> flag = ''--searchPath'' \<or> flag = ''--search-path''"

definition contains_text :: "bytes \<Rightarrow> bytes \<Rightarrow> bool" where
  "contains_text s sub \<longleftrightarrow> list_ex (\<lambda>i. HasPrefix (drop i s) sub) [0..<Suc (length s)]"

definition looksLikeRemoteRef :: "bytes \<Rightarrow> bool" where
  "looksLikeRemoteRef v \<longleftrightarrow> contains_text (ToLower v) ''://'' \<or> HasPrefix (ToLower v) ''classpath:''"

definition looksLikeWindowsPath :: "bytes \<Rightarrow> bool" where
  "looksLikeWindowsPath v \<longleftrightarrow> 2 \<le> length v \<and> v ! 1 = CHR '':'' \<and> (in_range 65 90 (hd v) \<or> in_range 97 122 (hd v))"

definition normalizeExecMode :: "bytes \<Rightarrow> bytes" where
  "normalizeExecMode v =
     (let mode = TrimSpace (ToLower v) in
      if mode \<in> {''auto'', ''windows-bat'', ''native''} then mode else ''auto'')"

definition shouldUseWindowsBat :: "bytes \<Rightarrow> bytes \<Rightarrow> bool" where
  "shouldUseWindowsBat execPath mode \<longleftrightarrow>
     mode = ''windows-bat'' \<or> mode \<noteq> ''native''
       \<and> (HasSuffix (ToLower (TrimSpace execPath)) ''.bat'' \<or> HasSuffix (ToLower (TrimSpace execPath)) ''.cmd'')"

text \<open>How an argument names a path: the flag as it is written, and its value.\<close>

datatype pathFlag = NotPath | PathMissing | PathNext bytes bytes | PathInline bytes bytes

definition path_flag :: "bytes \<Rightarrow> bytes list \<Rightarrow> pathFlag" where
  "path_flag arg rest =
     (if arg \<in> set path_flags then (case rest of [] \<Rightarrow> PathMissing | v # _ \<Rightarrow> PathNext arg v)
      else case find (\<lambda>f. HasPrefix arg (f @ ''='')) path_flags of
          None \<Rightarrow> NotPath | Some f \<Rightarrow> PathInline f (drop (Suc (length f)) arg))"

definition canonical_flag :: "bytes \<Rightarrow> bytes" where
  "canonical_flag flag = (if flag = ''--search-path'' then ''--searchPath'' else flag)"

subsection \<open>Paths\<close>

definition local_path :: "fileTable \<Rightarrow> bytes \<Rightarrow> bytes \<Rightarrow> bytes \<Rightarrow> ErrorResponse + bytes" where
  "local_path files cwd v notFoundMessage =
     (if \<not> rooted v \<and> TrimSpace cwd = [] then Inl (invalid_argument ''relative path requires working directory'' [])
      else
        let path = (if rooted v then v else path_Join [cwd, v]) in
        if \<not> path_exists files path then Inl (invalid_argument notFoundMessage path) else Inr path)"

definition normalizeHostPath :: "fileTable \<Rightarrow> bytes \<Rightarrow> bytes \<Rightarrow> bytes \<Rightarrow> ErrorResponse + bytes" where
  "normalizeHostPath files cwd v notFoundMessage =
     (if TrimSpace v = [] then Inl (invalid_argument ''path is empty'' [])
      else if looksLikeRemoteRef v then Inr v
      else res_map Clean (local_path files cwd v notFoundMessage))"

text \<open>The counter of mounts is their number, and the paths that are mounted already are those of the mounts.\<close>

definition container_path :: "nat \<Rightarrow> bytes" where
  "container_path n = ''/sqlrs/mnt/path'' @ itoa n"

definition add_mount :: "bytes \<Rightarrow> Mount list \<Rightarrow> Mount list" where
  "add_mount path mounts =
     mounts @ [\<lparr>mt_HostPath = path, mt_ContainerPath = container_path (Suc (length mounts)), mt_ReadOnly = True\<rparr>]"

definition rewriteSinglePath ::
    "fileTable \<Rightarrow> bytes \<Rightarrow> bytes \<Rightarrow> bytes \<Rightarrow> Mount list \<Rightarrow> ErrorResponse + bytes \<times> Mount list" where
  "rewriteSinglePath files cwd v notFoundMessage mounts =
     (if TrimSpace v = [] then Inl (invalid_argument ''path is empty'' [])
      else if looksLikeRemoteRef v then Inr (v, mounts)
      else res_map (\<lambda>path.
          (case map_of (map (\<lambda>m. (mt_HostPath m, mt_ContainerPath m)) mounts) path of
             Some mapped \<Rightarrow> (mapped, mounts)
           | None \<Rightarrow> (container_path (Suc (length mounts)), add_mount path mounts)))
        (local_path files cwd v notFoundMessage))"

definition normalize_path ::
    "bool \<Rightarrow> fileTable \<Rightarrow> bytes \<Rightarrow> bytes \<Rightarrow> bytes \<Rightarrow> Mount list \<Rightarrow> ErrorResponse + bytes \<times> Mount list" where
  "normalize_path rewritePaths files cwd v notFoundMessage mounts =
     (if rewritePaths then rewriteSinglePath files cwd v notFoundMessage mounts
      else res_map (\<lambda>p. (p, mounts)) (normalizeHostPath files cwd v notFoundMessage))"

fun normalize_items ::
    "(bytes \<Rightarrow> Mount list \<Rightarrow> ErrorResponse + bytes \<times> Mount list) \<Rightarrow> bytes list \<Rightarrow> Mount list \<Rightarrow> ErrorResponse + bytes list \<times> Mount list" where
  "normalize_items f [] mounts = Inr ([], mounts)"
| "normalize_items f (part # rest) mounts =
     (if TrimSpace part = [] then Inl (invalid_argument ''searchPath is empty'' [])
      else res_bind (f (TrimSpace part) mounts) (\<lambda>(p, mounts').
        res_map (\<lambda>(ps, ms). (p # ps, ms)) (normalize_items f rest mounts')))"

definition normalizeLiquibasePathValue ::
    "bool \<Rightarrow> fileTable \<Rightarrow> bytes \<Rightarrow> bytes \<Rightarrow> bytes \<Rightarrow> Mount list \<Rightarrow> ErrorResponse + bytes \<times> Mount list" where
  "normalizeLiquibasePathValue rewritePaths files cwd flag v mounts =
     (if isSearchPathFlag flag then
        (if TrimSpace v = [] then Inl (invalid_argument ''searchPath is empty'' [])
         else res_map (\<lambda>(ps, ms). (join_with '','' ps, ms))
           (normalize_items (\<lambda>item. normalize_path rewritePaths files cwd item ''searchPath path does not exist'')
             (split_on (CHR '','') v) mounts))
      else normalize_path rewritePaths files cwd v ''path does not exist'' mounts)"

text \<open>The words a path flag adds, the mounts after it and whether the next argument was taken.\<close>

definition handleLiquibasePathFlag ::
    "bool \<Rightarrow> bool \<Rightarrow> fileTable \<Rightarrow> bytes \<Rightarrow> bytes \<Rightarrow> bytes list \<Rightarrow> Mount list
      \<Rightarrow> (ErrorResponse + bytes list \<times> Mount list \<times> bool) option" where
  "handleLiquibasePathFlag windowsMode rewritePaths files cwd arg rest mounts =
     (let rewritten = (\<lambda>flag v. if windowsMode then Inr (v, mounts) else normalizeLiquibasePathValue rewritePaths files cwd flag v mounts) in
      case path_flag arg rest of
        NotPath \<Rightarrow> None
      | PathMissing \<Rightarrow> Some (Inl (invalid_argument ''missing value for flag'' arg))
      | PathNext f v \<Rightarrow> Some (res_map (\<lambda>(p, ms). ([canonical_flag f, p], ms, True)) (rewritten (canonical_flag f) v))
      | PathInline f v \<Rightarrow> Some (res_map (\<lambda>(p, ms). ([canonical_flag f @ ''='' @ p], ms, False)) (rewritten (canonical_flag f) v)))"

subsection \<open>The loop over the arguments\<close>

text \<open>The command has been seen when it is not empty.\<close>

record liquibaseScan =
  ls_pre :: "bytes list"
  ls_post :: "bytes list"
  ls_mounts :: "Mount list"
  ls_command :: bytes

definition no_liquibase_scan :: liquibaseScan where
  "no_liquibase_scan = \<lparr>ls_pre = [], ls_post = [], ls_mounts = [], ls_command = []\<rparr>"

definition take_word :: "bytes \<Rightarrow> liquibaseScan \<Rightarrow> liquibaseScan" where
  "take_word arg sc =
     (if HasPrefix arg ''-'' then
        (if ls_command sc \<noteq> [] then sc\<lparr>ls_post := ls_post sc @ [arg]\<rparr> else sc\<lparr>ls_pre := ls_pre sc @ [arg]\<rparr>)
      else sc\<lparr>ls_command := (if ls_command sc = [] then arg else ls_command sc), ls_post := ls_post sc @ [arg]\<rparr>)"

function scan_liquibase ::
    "bool \<Rightarrow> bool \<Rightarrow> fileTable \<Rightarrow> bytes \<Rightarrow> bytes list \<Rightarrow> liquibaseScan \<Rightarrow> ErrorResponse + liquibaseScan" where
  "scan_liquibase windowsMode rewritePaths files cwd [] sc = Inr sc"
| "scan_liquibase windowsMode rewritePaths files cwd (raw # rest) sc =
     (let arg = TrimSpace raw in
      if arg = [] \<or> arg = ''--'' then scan_liquibase windowsMode rewritePaths files cwd rest sc
      else if isLiquibaseConnectionFlag arg then Inl (invalid_argument ''connection flags are not allowed'' arg)
      else if isLiquibaseRuntimeFlag arg then Inl (invalid_argument ''runtime flags are not allowed'' arg)
      else case handleLiquibasePathFlag windowsMode rewritePaths files cwd raw rest (ls_mounts sc) of
          Some (Inl e) \<Rightarrow> Inl e
        | Some (Inr (words, mounts, taken)) \<Rightarrow>
            scan_liquibase windowsMode rewritePaths files cwd (if taken then tl rest else rest)
              (sc\<lparr>ls_pre := ls_pre sc @ words, ls_mounts := mounts\<rparr>)
        | None \<Rightarrow> scan_liquibase windowsMode rewritePaths files cwd rest (take_word arg sc))"
  by pat_completeness auto
termination by (relation "measure (\<lambda>(windowsMode, rewritePaths, files, cwd, args, sc). length args)") auto

declare scan_liquibase.simps [simp del]

subsection \<open>The files to lock\<close>

definition normalizeLiquibasePath :: "bytes \<Rightarrow> bytes \<Rightarrow> bytes" where
  "normalizeLiquibasePath v cwd =
     (let p = TrimSpace v in
      if p = [] \<or> looksLikeWindowsPath p then p
      else if rooted p then Clean p
      else if TrimSpace cwd = [] then p
      else Clean (path_Join [cwd, p]))"

definition normalizeLiquibasePathValues :: "bytes \<Rightarrow> bytes \<Rightarrow> bytes \<Rightarrow> ErrorResponse + bytes list" where
  "normalizeLiquibasePathValues flag v cwd =
     (if TrimSpace v = [] then Inl (invalid_argument ''path is empty'' flag)
      else if isSearchPathFlag flag then
        (let items = map TrimSpace (split_on (CHR '','') v) in
         if [] \<in> set items then Inl (invalid_argument ''searchPath is empty'' [])
         else Inr (map (\<lambda>i. normalizeLiquibasePath i cwd) (filter (\<lambda>i. \<not> looksLikeRemoteRef i) items)))
      else Inr (if looksLikeRemoteRef v then [] else [normalizeLiquibasePath v cwd]))"

function collectLiquibasePaths :: "bytes \<Rightarrow> bytes list \<Rightarrow> bytes list \<times> bytes list \<Rightarrow> ErrorResponse + bytes list \<times> bytes list" where
  "collectLiquibasePaths cwd [] paths = Inr paths"
| "collectLiquibasePaths cwd (raw # rest) paths =
     (let arg = TrimSpace raw;
          add = (\<lambda>flag ps. if isSearchPathFlag flag then (fst paths, snd paths @ ps) else (fst paths @ ps, snd paths)) in
      if arg = [] \<or> arg = ''--'' then collectLiquibasePaths cwd rest paths
      else case path_flag arg rest of
          NotPath \<Rightarrow> collectLiquibasePaths cwd rest paths
        | PathMissing \<Rightarrow> Inl (invalid_argument ''missing value for flag'' arg)
        | PathNext f v \<Rightarrow>
            (case normalizeLiquibasePathValues f (TrimSpace v) cwd of Inl e \<Rightarrow> Inl e
             | Inr ps \<Rightarrow> collectLiquibasePaths cwd (tl rest) (add f ps))
        | PathInline f v \<Rightarrow>
            (case normalizeLiquibasePathValues (canonical_flag f) v cwd of Inl e \<Rightarrow> Inl e
             | Inr ps \<Rightarrow> collectLiquibasePaths cwd rest (add f ps)))"
  by pat_completeness auto
termination by (relation "measure (\<lambda>(cwd, args, paths). length args)") auto

declare collectLiquibasePaths.simps [simp del]

subsection \<open>The prepared arguments\<close>

text \<open>A blank working directory is replaced by that of the process, which may be unknown.\<close>

definition prepareLiquibaseArgs ::
    "bytes option \<Rightarrow> fileTable \<Rightarrow> bytes list \<Rightarrow> bytes \<Rightarrow> bool \<Rightarrow> bool \<Rightarrow> ErrorResponse + liquibasePrepared" where
  "prepareLiquibaseArgs getwd files args cwd windowsMode rewritePaths =
     (let cwd = (if TrimSpace cwd = [] then (case getwd of None \<Rightarrow> cwd | Some wd \<Rightarrow> wd) else cwd) in
      case scan_liquibase windowsMode rewritePaths files cwd args no_liquibase_scan of Inl e \<Rightarrow> Inl e
      | Inr sc \<Rightarrow>
         if TrimSpace (ls_command sc) = [] then Inl (invalid_argument ''lb command is required'' [])
         else if \<not> HasPrefix (ToLower (ls_command sc)) ''update'' then Inl (invalid_argument ''unsupported lb command'' (ls_command sc))
         else
           let mounts = (if rewritePaths \<and> \<not> windowsMode \<and> ls_mounts sc = [] \<and> TrimSpace cwd \<noteq> [] then add_mount cwd [] else ls_mounts sc);
               normalized = ls_pre sc @ ls_post sc in
           case collectLiquibasePaths cwd args ([], []) of Inl e \<Rightarrow> Inl e
           | Inr (lockPaths, searchPaths) \<Rightarrow>
               Inr \<lparr>lp_normalizedArgs = normalized, lp_argsNormalized = join_with '' '' normalized, lp_mounts = mounts,
                 lp_lockPaths = lockPaths, lp_searchPaths = searchPaths, lp_workDir = cwd\<rparr>)"

subsection \<open>The command that is run\<close>

fun replace_command :: "bytes \<Rightarrow> bool \<Rightarrow> bool \<Rightarrow> bytes list \<Rightarrow> bytes list" where
  "replace_command cmd skipNext replaced [] = (if replaced then [] else [cmd])"
| "replace_command cmd skipNext replaced (arg # rest) =
     (if skipNext then arg # replace_command cmd False replaced rest
      else if TrimSpace arg = [] \<or> arg = ''--'' then arg # replace_command cmd False replaced rest
      else if isLiquibaseFlagWithValue arg then arg # replace_command cmd (CHR ''='' \<notin> set arg) replaced rest
      else if HasPrefix arg ''-'' then arg # replace_command cmd False replaced rest
      else if \<not> replaced then cmd # replace_command cmd False True rest
      else arg # replace_command cmd False True rest)"

definition replaceLiquibaseCommand :: "bytes list \<Rightarrow> bytes \<Rightarrow> bytes list" where
  "replaceLiquibaseCommand args cmd = replace_command cmd False False args"

definition applyLiquibaseTaskArgs :: "bytes list \<Rightarrow> bytes list" where
  "applyLiquibaseTaskArgs args = replaceLiquibaseCommand args ''update-count'' @ [''--count'', ''1'']"

subsection \<open>The command is found again\<close>

text \<open>Words that the replacement of the command copies.\<close>

definition passed_over :: "bytes list \<Rightarrow> bool" where
  "passed_over ws \<longleftrightarrow> (\<forall>cmd rest. replace_command cmd False False (ws @ rest) = ws @ replace_command cmd False False rest)"

lemma passed_over_append: "passed_over a \<Longrightarrow> passed_over b \<Longrightarrow> passed_over (a @ b)"
  by (simp add: passed_over_def)

lemma replace_after: "replace_command cmd sk True ws = ws"
  by (induction ws arbitrary: sk) simp_all

end
