(* ===== verification/Liquibase_Output.thy ===== *)
theory Liquibase_Output
  imports Liquibase_Args State_Hash
begin

text \<open>
  What \<^verbatim>\<open>liquibase updateSQL\<close> prints, as \<^verbatim>\<open>prepare/liquibase.go\<close> reads it: the changesets with their SQL and
  checksums, and the fingerprint of a step.  Case is folded for ASCII letters; a line whose other letters change
  their length when folded is outside the model.
\<close>

record LiquibaseChangeset =
  lc_ID :: bytes
  lc_Author :: bytes
  lc_Path :: bytes
  lc_SQL :: bytes
  lc_SQLHash :: bytes
  lc_Checksum :: bytes

subsection \<open>Texts\<close>

text \<open>The first and the last occurrence of a text.\<close>

definition text_index :: "bytes \<Rightarrow> bytes \<Rightarrow> nat option" where
  "text_index s sub = find (\<lambda>i. HasPrefix (drop i s) sub) [0..<Suc (length s)]"

definition last_index :: "bytes \<Rightarrow> byte \<Rightarrow> nat option" where
  "last_index s c = find (\<lambda>i. s ! i = c) (rev [0..<length s])"

text \<open>The parts before and after the first separator.\<close>

definition cut_at :: "bytes \<Rightarrow> bytes \<Rightarrow> (bytes \<times> bytes) option" where
  "cut_at sep s = (case text_index s sep of None \<Rightarrow> None | Some i \<Rightarrow> Some (take i s, drop (i + length sep) s))"

definition sha256Hex :: "bytes \<Rightarrow> bytes" where
  "sha256Hex v = hex_EncodeToString (Sum256 v)"

subsection \<open>Headers\<close>

definition header_prefix :: bytes where
  "header_prefix = ''-- Changeset ''"

text \<open>Path, id and author.\<close>

definition parseChangesetHeader :: "bytes \<Rightarrow> (bytes \<times> bytes \<times> bytes) option" where
  "parseChangesetHeader line =
     (if \<not> HasPrefix line header_prefix then None
      else case cut_at ''::'' (TrimSpace (TrimPrefix line header_prefix)) of None \<Rightarrow> None
        | Some (path, rest) \<Rightarrow>
           (case cut_at ''::'' rest of None \<Rightarrow> None | Some (cid, author) \<Rightarrow> Some (path, cid, author)))"

subsection \<open>Checksums\<close>

definition splitCommaList :: "bytes \<Rightarrow> bytes list" where
  "splitCommaList v = filter (\<lambda>p. p \<noteq> []) (map TrimSpace (split_on (CHR '','') v))"

text \<open>The values read so far, the text of the one being read and whether it is inside a quote.\<close>

fun split_values :: "bytes list \<Rightarrow> bytes \<Rightarrow> bool \<Rightarrow> bytes \<Rightarrow> bytes list" where
  "split_values out buf quoted [] = (if buf \<noteq> [] then out @ [TrimSpace buf] else out)"
| "split_values out buf True (c # s) =
     (if c = CHR 0x27 then
        (case s of d # s' \<Rightarrow> if d = CHR 0x27 then split_values out (buf @ [CHR 0x27]) True s' else split_values out buf False s
         | [] \<Rightarrow> split_values out buf False s)
      else split_values out (buf @ [c]) True s)"
| "split_values out buf False (c # s) =
     (if c = CHR 0x27 then split_values out buf True s
      else if c = CHR '','' then split_values (out @ [TrimSpace buf]) [] False s
      else split_values out (buf @ [c]) False s)"

definition splitSQLValues :: "bytes \<Rightarrow> bytes list" where
  "splitSQLValues v = split_values [] [] False v"

definition text_slice :: "nat \<Rightarrow> nat \<Rightarrow> bytes \<Rightarrow> bytes" where
  "text_slice i j s = take (j - i) (drop i s)"

definition parseInsertColumnsValues :: "bytes \<Rightarrow> (bytes list \<times> bytes list) option" where
  "parseInsertColumnsValues line =
     (let lower = ToLower line in
      if \<not> contains_text lower ''insert into'' then None
      else case text_index lower ''values'' of None \<Rightarrow> None
      | Some valuesIdx \<Rightarrow>
         (case (text_index line ''('', last_index (take valuesIdx line) (CHR '')'')) of
            (Some colStart, Some colEnd) \<Rightarrow>
              if valuesIdx < colStart \<or> colEnd \<le> colStart then None
              else
                (case (text_index (drop valuesIdx line) ''('', last_index line (CHR '')'')) of
                   (Some start, Some valEnd) \<Rightarrow>
                     let valStart = valuesIdx + start in
                     if valEnd \<le> valStart then None
                     else Some (splitCommaList (text_slice (Suc colStart) colEnd line), splitSQLValues (text_slice (Suc valStart) valEnd line))
                 | _ \<Rightarrow> None)
          | _ \<Rightarrow> None))"

definition parseChangesetChecksum :: "bytes \<Rightarrow> bytes option" where
  "parseChangesetChecksum line =
     (if \<not> contains_text (ToLower line) ''databasechangelog'' then None
      else case parseInsertColumnsValues line of None \<Rightarrow> None
      | Some (cols, vals) \<Rightarrow>
         if cols = [] \<or> length cols \<noteq> length vals then None
         else map_option (TrimSpace \<circ> snd) (find (\<lambda>(col, _). fold_long_s (TrimSpace col) = ''md5sum'') (zip cols vals)))"

subsection \<open>The output\<close>

text \<open>The changeset being read, with its lines.\<close>

definition flush_changeset :: "(LiquibaseChangeset \<times> bytes list) option \<Rightarrow> LiquibaseChangeset list" where
  "flush_changeset current =
     (case current of None \<Rightarrow> []
      | Some (c, lines) \<Rightarrow>
         let sql = TrimSpace (join_with [CHR 0x0A] lines) in [c\<lparr>lc_SQL := sql, lc_SQLHash := sha256Hex sql\<rparr>])"

fun read_output :: "LiquibaseChangeset list \<Rightarrow> (LiquibaseChangeset \<times> bytes list) option \<Rightarrow> bytes list \<Rightarrow> LiquibaseChangeset list" where
  "read_output out current [] = out @ flush_changeset current"
| "read_output out current (line # rest) =
     (case parseChangesetHeader line of
        Some (path, cid, author) \<Rightarrow>
          read_output (out @ flush_changeset current)
            (Some (\<lparr>lc_ID = cid, lc_Author = author, lc_Path = path, lc_SQL = [], lc_SQLHash = [], lc_Checksum = []\<rparr>, [])) rest
      | None \<Rightarrow>
          read_output out
            (case current of None \<Rightarrow> None
             | Some (c, lines) \<Rightarrow>
                Some (case parseChangesetChecksum line of
                    Some checksum \<Rightarrow> if checksum \<noteq> [] then c\<lparr>lc_Checksum := checksum\<rparr> else c
                  | None \<Rightarrow> c, lines @ [line])) rest)"

definition parseLiquibaseUpdateSQL :: "bytes \<Rightarrow> ErrorResponse + LiquibaseChangeset list" where
  "parseLiquibaseUpdateSQL output =
     (let changesets = read_output [] None (split_on (CHR 0x0A) output) in
      if changesets = [] \<and> TrimSpace output \<noteq> [] then Inl (invalid_argument ''missing changeset'' []) else Inr changesets)"

subsection \<open>The fingerprint of a step\<close>

definition liquibaseChangesetHash :: "LiquibaseChangeset \<Rightarrow> bytes" where
  "liquibaseChangesetHash c = (if TrimSpace (lc_Checksum c) \<noteq> [] then TrimSpace (lc_Checksum c) else lc_SQLHash c)"

definition liquibaseFingerprint :: "bytes \<Rightarrow> LiquibaseChangeset list \<Rightarrow> bytes" where
  "liquibaseFingerprint prevStateID changesets =
     hash_sum ([(''prepare_kind'', ''lb''), (''prev_state_id'', prevStateID)]
       @ map (\<lambda>c. (''changeset_hash'', liquibaseChangesetHash c)) changesets)"

end
