(* ===== verification/Prepare_Plan.thy ===== *)
theory Prepare_Plan
  imports Psql_Content Liquibase_Output Prepare_World
begin

text \<open>
  The plan of a preparation (\<^verbatim>\<open>prepare/manager.go\<close>, \<^verbatim>\<open>managed_request.go\<close>): a request is checked, its image resolved and its
  managed base selected, and the tasks are laid out.  Every task that executes something gets the id of the state it
  leads to, which is a hash of the state it starts from and of what it executes.
\<close>

subsection \<open>The service\<close>

text \<open>
  What the service is made of and does not change.  Of the file system it sees the names in \<open>pe_files\<close>; planning the
  changesets of a Liquibase recipe needs a running container and is an argument, as is resolving the digest of an
  image, which also says what it logs.  The service calls its executor of tasks and its runtime through interfaces
  (\<^verbatim>\<open>taskExecutorAPI\<close>, \<^verbatim>\<open>InspectManaged\<close>), which are arguments too.  \<open>pe_cancelled\<close> says when the context of a job is
  cancelled: another request may do that at any moment of its run.  \<open>pe_awaitRun\<close> is what the run of a job, which is
  concurrent to a request that deletes the job, still does after it has been cancelled.
\<close>

record TaskInput =
  ti_Kind :: bytes
  ti_ID :: bytes

record PlanTask =
  pt_TaskID :: bytes
  pt_Type :: bytes
  pt_PlannerKind :: bytes
  pt_Input :: "TaskInput option"
  pt_ImageID :: bytes
  pt_ResolvedImageID :: bytes
  pt_TaskHash :: bytes
  pt_OutputStateID :: bytes
  pt_Cached :: "bool option"
  pt_InstanceMode :: bytes
  pt_ChangesetID :: bytes
  pt_ChangesetAuthor :: bytes
  pt_ChangesetPath :: bytes

record taskState =
  tt_task :: PlanTask
  tt_Status :: bytes

record preparedRequest =
  pr_managed :: BaseSelection
  pr_request :: Request
  pr_normalizedArgs :: "bytes list"
  pr_argsNormalized :: bytes
  pr_filePaths :: "bytes list"
  pr_liquibaseMounts :: "Mount list"
  pr_resolvedImageID :: bytes
  pr_psqlInputs :: "psqlInput list"
  pr_psqlSteps :: "psqlStep list"
  pr_psqlWorkDir :: bytes
  pr_liquibaseLockPaths :: "bytes list"
  pr_liquibaseSearchPaths :: "bytes list"
  pr_liquibaseWorkDir :: bytes

text \<open>A running container as the runtime reports it.\<close>

record Instance =
  in_Binding :: RuntimeBinding
  in_ID :: bytes
  in_Host :: bytes
  in_Port :: nat

record prepareEnv =
  pe_identity :: "Owner option"
  pe_access :: "Service option"
  pe_version :: bytes
  pe_root :: bytes
  pe_getwd :: "bytes option"
  pe_files :: "node \<Rightarrow> fileTable"
  pe_liquibaseInContainer :: bool
  pe_resolveImage :: "bytes \<Rightarrow> prepareWorld \<Rightarrow> bytes list \<times> (engineError + bytes)"
  pe_planLiquibase :: "bytes \<Rightarrow> preparedRequest \<Rightarrow> LiquibaseChangeset list rop"
  pe_validateStore :: "bytes \<Rightarrow> unit pop"
  pe_executeStateTask :: "bytes \<Rightarrow> preparedRequest \<Rightarrow> taskState \<Rightarrow> bytes rop"
  pe_createInstance :: "bytes \<Rightarrow> preparedRequest \<Rightarrow> bytes \<Rightarrow> PrepareResult rop"
  pe_cleanupRuntime :: "bytes \<Rightarrow> unit pop"
  pe_inspectManaged :: "(RuntimeBinding \<Rightarrow> Instance pop) option"
  pe_explainLiquibase :: "preparedRequest \<Rightarrow> LiquibaseChangeset list rop"
  pe_awaitRun :: "bytes \<Rightarrow> unit pop"
  pe_cancelled :: "bytes \<Rightarrow> prepareWorld \<Rightarrow> bool"
  pe_async :: bool
  pe_lockRounds :: nat

definition no_binding :: IdentityBinding where
  "no_binding = \<lparr>ib_ManagedIdentity = \<lparr>mi_LineageRef = [], mi_EngineKind = [], mi_PolicyVersion = [], mi_Username = []\<rparr>,
     ib_IdentityDigest = []\<rparr>"

definition no_selection :: BaseSelection where
  "no_selection = \<lparr>bsel_IdentityBinding = no_binding, bsel_Key = []\<rparr>"

subsection \<open>Images\<close>

definition hasImageDigest :: "bytes \<Rightarrow> bool" where
  "hasImageDigest imageID =
     (let ref = TrimSpace imageID in ref \<noteq> [] \<and> CHR ''@'' \<in> set ref \<and> after_last (CHR ''@'') ref \<noteq> [])"

definition needsImageResolve :: "bytes \<Rightarrow> bool" where
  "needsImageResolve imageID \<longleftrightarrow> \<not> hasImageDigest imageID"

definition effectiveImageID :: "preparedRequest \<Rightarrow> bytes" where
  "effectiveImageID p = (if TrimSpace (pr_resolvedImageID p) \<noteq> [] then pr_resolvedImageID p else rq_ImageID (pr_request p))"

definition managedImageDigest :: "bytes \<Rightarrow> bytes" where
  "managedImageDigest ref = (if CHR ''@'' \<in> set ref then after_last (CHR ''@'') ref else ref)"

subsection \<open>Requests\<close>

type_synonym requestError = "ErrorResponse + engineError"

definition with_resolved :: "preparedRequest \<Rightarrow> preparedRequest" where
  "with_resolved p = p\<lparr>pr_resolvedImageID := (if hasImageDigest (rq_ImageID (pr_request p)) then rq_ImageID (pr_request p) else [])\<rparr>"

definition psql_request :: "Request \<Rightarrow> psqlPrepared \<Rightarrow> preparedRequest" where
  "psql_request req q =
     \<lparr>pr_managed = no_selection, pr_request = req, pr_normalizedArgs = pp_normalizedArgs q, pr_argsNormalized = pp_argsNormalized q,
      pr_filePaths = pp_filePaths q, pr_liquibaseMounts = [], pr_resolvedImageID = [], pr_psqlInputs = pp_inputs q,
      pr_psqlSteps = pp_steps q, pr_psqlWorkDir = pp_workDir q, pr_liquibaseLockPaths = [], pr_liquibaseSearchPaths = [],
      pr_liquibaseWorkDir = []\<rparr>"

definition liquibase_request :: "Request \<Rightarrow> liquibasePrepared \<Rightarrow> preparedRequest" where
  "liquibase_request req q =
     \<lparr>pr_managed = no_selection, pr_request = req, pr_normalizedArgs = lp_normalizedArgs q, pr_argsNormalized = lp_argsNormalized q,
      pr_filePaths = [], pr_liquibaseMounts = lp_mounts q, pr_resolvedImageID = [], pr_psqlInputs = [], pr_psqlSteps = [],
      pr_psqlWorkDir = [], pr_liquibaseLockPaths = lp_lockPaths q, pr_liquibaseSearchPaths = lp_searchPaths q,
      pr_liquibaseWorkDir = lp_workDir q\<rparr>"

definition valueOrEmpty :: "bytes option \<Rightarrow> bytes" where
  "valueOrEmpty v = (case v of None \<Rightarrow> [] | Some s \<Rightarrow> s)"

definition prepareRequest :: "prepareEnv \<Rightarrow> fileTable \<Rightarrow> Request \<Rightarrow> requestError + preparedRequest" where
  "prepareRequest E files req =
     (let kind = TrimSpace (rq_PrepareKind req); imageID = TrimSpace (rq_ImageID req);
          req' = req\<lparr>rq_PrepareKind := kind, rq_ImageID := imageID\<rparr>; cwd = valueOrEmpty (pe_getwd E) in
      if kind = [] then Inl (Inl (invalid_argument ''prepare_kind is required'' []))
      else if kind \<noteq> ''psql'' \<and> kind \<noteq> ''lb'' then Inl (Inl (invalid_argument ''unsupported prepare_kind'' kind))
      else if imageID = [] then Inl (Inl (invalid_argument ''image_id is required'' []))
      else if kind = ''psql'' then
        res_map (\<lambda>q. with_resolved (psql_request req' q)) (preparePsqlArgs cwd files (rq_PsqlArgs req) (rq_Stdin req))
      else
        let execMode = normalizeExecMode (rq_LiquibaseExecMode req); execPath = TrimSpace (rq_LiquibaseExec req) in
        case prepareLiquibaseArgs (pe_getwd E) files (rq_LiquibaseArgs req) cwd (shouldUseWindowsBat execPath execMode) (pe_liquibaseInContainer E) of
          Inl e \<Rightarrow> Inl (Inl e) | Inr q \<Rightarrow> Inr (with_resolved (liquibase_request req' q)))"

subsection \<open>Hashes\<close>

definition psqlTaskHashSchema :: bytes where
  "psqlTaskHashSchema = ''psql-task-hash-v2''"

definition psql_hash_fields :: "bytes \<Rightarrow> bytes \<Rightarrow> bytes \<Rightarrow> hashFields" where
  "psql_hash_fields kind contentHash engineVersion =
     [(''prepare_kind'', kind), (''content_hash'', contentHash), (''engine_version'', engineVersion),
      (''psql_task_hash_schema'', psqlTaskHashSchema)]"

definition psqlTaskHash :: "bytes \<Rightarrow> bytes \<Rightarrow> bytes \<Rightarrow> bytes" where
  "psqlTaskHash kind contentHash engineVersion = hash_sum (psql_hash_fields kind contentHash engineVersion)"

definition output_state_fields :: "bytes \<Rightarrow> bytes \<Rightarrow> bytes \<Rightarrow> hashFields" where
  "output_state_fields inputKind inputID taskHash =
     [(''input_kind'', inputKind), (''input_id'', inputID), (''task_hash'', taskHash)]"

definition computeOutputStateID :: "bytes \<Rightarrow> bytes \<Rightarrow> bytes \<Rightarrow> ErrorResponse + bytes" where
  "computeOutputStateID inputKind inputID taskHash =
     (let stateID = hash_sum (output_state_fields inputKind inputID taskHash) in
      if stateID = [] then Inl (errorResponse ''internal_error'' ''cannot compute state id'' NoDetails) else Inr stateID)"

text \<open>The expansion always ends (\<open>Psql_Content_Props\<close>), so the second case does not arise.\<close>

definition content_digest :: "fileTable \<Rightarrow> psqlInput list \<Rightarrow> bytes \<Rightarrow> engineError + psqlContentDigest" where
  "content_digest files inputs workDir =
     (case computePsqlContentDigest files inputs workDir of Some r \<Rightarrow> r | None \<Rightarrow> Inl (ErrIO ''out of fuel''))"

definition digest_error :: "engineError \<Rightarrow> ErrorResponse" where
  "digest_error err = errorResponse ''invalid_argument'' ''cannot compute psql content hash'' (ErrorOf err)"

definition computeTaskHash :: "prepareEnv \<Rightarrow> fileTable \<Rightarrow> preparedRequest \<Rightarrow> ErrorResponse + bytes" where
  "computeTaskHash E files p =
     (let kind = rq_PrepareKind (pr_request p) in
      if kind = ''psql'' then
        (case content_digest files (pr_psqlInputs p) (pr_psqlWorkDir p) of Inl err \<Rightarrow> Inl (digest_error err)
         | Inr d \<Rightarrow>
            let taskHash = psqlTaskHash kind (cd_hash d) (pe_version E) in
            if taskHash = [] then Inl (errorResponse ''internal_error'' ''cannot compute task hash'' NoDetails) else Inr taskHash)
      else
        let taskHash = hash_sum ([(''prepare_kind'', kind)]
              @ map (\<lambda>(i, arg). (''arg:'' @ itoa i, arg)) (enumerate 0 (pr_normalizedArgs p)) @ [(''engine_version'', pe_version E)]) in
        if taskHash = [] then Inl (errorResponse ''internal_error'' ''cannot compute task hash'' NoDetails) else Inr taskHash)"

definition bool_text :: "bool \<Rightarrow> bytes" where
  "bool_text b = (if b then ''true'' else ''false'')"

definition managed_key_field :: "preparedRequest \<Rightarrow> hashFields" where
  "managed_key_field p = (if bsel_Key (pr_managed p) \<noteq> [] then [(''managed_base_key'', bsel_Key (pr_managed p))] else [])"

definition signature_result :: "bytes \<Rightarrow> ErrorResponse + bytes" where
  "signature_result signature =
     (if signature = [] then Inl (errorResponse ''internal_error'' ''cannot compute job signature'' NoDetails) else Inr signature)"

definition image_required :: ErrorResponse where
  "image_required = errorResponse ''internal_error'' ''resolved image id is required'' NoDetails"

definition computeJobSignature :: "prepareEnv \<Rightarrow> fileTable \<Rightarrow> preparedRequest \<Rightarrow> ErrorResponse + bytes" where
  "computeJobSignature E files p =
     (case computeTaskHash E files p of Inl e \<Rightarrow> Inl e
      | Inr taskHash \<Rightarrow>
         if TrimSpace (effectiveImageID p) = [] then Inl image_required
         else signature_result (hash_sum ([(''task_hash'', taskHash), (''image_id'', effectiveImageID p)] @ managed_key_field p
           @ [(''plan_only'', bool_text (rq_PlanOnly (pr_request p)))])))"

definition nonempty_field :: "bytes \<Rightarrow> bytes \<Rightarrow> hashFields" where
  "nonempty_field key v = (if v \<noteq> [] then [(key, v)] else [])"

definition task_fields :: "PlanTask \<Rightarrow> hashFields" where
  "task_fields t =
     [(''task_id'', pt_TaskID t), (''task_type'', pt_Type t)]
     @ (case pt_Input t of None \<Rightarrow> [] | Some i \<Rightarrow> [(''input_kind'', ti_Kind i), (''input_id'', ti_ID i)])
     @ nonempty_field ''task_hash'' (pt_TaskHash t) @ nonempty_field ''changeset_id'' (pt_ChangesetID t)
     @ nonempty_field ''changeset_author'' (pt_ChangesetAuthor t) @ nonempty_field ''changeset_path'' (pt_ChangesetPath t)"

definition computeJobSignatureFromPlan :: "prepareEnv \<Rightarrow> preparedRequest \<Rightarrow> PlanTask list \<Rightarrow> ErrorResponse + bytes" where
  "computeJobSignatureFromPlan E p tasks =
     (if TrimSpace (effectiveImageID p) = [] then Inl image_required
      else signature_result (hash_sum ([(''image_id'', effectiveImageID p)] @ managed_key_field p
        @ [(''plan_only'', bool_text (rq_PlanOnly (pr_request p))), (''engine_version'', pe_version E)] @ concat (map task_fields tasks))))"

subsection \<open>The cache\<close>

definition isStateCached :: "bytes \<Rightarrow> bool pop" where
  "isStateCached stateID =
     (if TrimSpace stateID = [] then op_return False
      else op_bind (p_read (GetState stateID)) (\<lambda>entry. op_return (entry \<noteq> None)))"

definition identity_invalid :: "'a pop" where
  "identity_invalid = op_fail (ErrIdentity IdentityInvalid)"

definition loadManagedState :: "prepareEnv \<Rightarrow> bytes \<Rightarrow> preparedRequest \<Rightarrow> StateEntry option pop" where
  "loadManagedState E stateID p =
     (let binding = bsel_IdentityBinding (pr_managed p) in
      if \<not> IdentityBinding_Validate binding then identity_invalid
      else
        op_bind (p_read (GetState stateID)) (\<lambda>found.
          case found of None \<Rightarrow> op_return None
          | Some entry \<Rightarrow>
             if se_LineageRef entry \<noteq> mi_LineageRef (ib_ManagedIdentity binding) \<or> se_IdentityDigest entry \<noteq> ib_IdentityDigest binding
               \<or> managedImageDigest (se_ImageID entry) \<noteq> managedImageDigest (effectiveImageID p)
             then identity_invalid
             else if pe_access E \<noteq> None
             then op_bind (on_engine (CheckSeal stateID binding)) (\<lambda>_. op_return (Some entry))
             else op_return (Some entry)))"

definition isManagedStateCached :: "prepareEnv \<Rightarrow> bytes \<Rightarrow> preparedRequest \<Rightarrow> bool pop" where
  "isManagedStateCached E stateID p =
     (case pe_identity E of None \<Rightarrow> isStateCached stateID
      | Some _ \<Rightarrow> op_bind (loadManagedState E stateID p) (\<lambda>entry. op_return (entry \<noteq> None)))"

subsection \<open>Tasks\<close>

definition plain_task :: PlanTask where
  "plain_task = \<lparr>pt_TaskID = [], pt_Type = [], pt_PlannerKind = [], pt_Input = None, pt_ImageID = [], pt_ResolvedImageID = [],
     pt_TaskHash = [], pt_OutputStateID = [], pt_Cached = None, pt_InstanceMode = [], pt_ChangesetID = [], pt_ChangesetAuthor = [],
     pt_ChangesetPath = []\<rparr>"

definition first_tasks :: "preparedRequest \<Rightarrow> PlanTask list" where
  "first_tasks p =
     plain_task\<lparr>pt_TaskID := ''plan'', pt_Type := ''plan'', pt_PlannerKind := rq_PrepareKind (pr_request p)\<rparr>
     # (if needsImageResolve (rq_ImageID (pr_request p))
        then [plain_task\<lparr>pt_TaskID := ''resolve-image'', pt_Type := ''resolve_image'', pt_ImageID := rq_ImageID (pr_request p),
                pt_ResolvedImageID := effectiveImageID p\<rparr>] else [])"

definition instance_task :: "bytes \<Rightarrow> PlanTask" where
  "instance_task stateID = plain_task\<lparr>pt_TaskID := ''prepare-instance'', pt_Type := ''prepare_instance'',
     pt_Input := Some \<lparr>ti_Kind = ''state'', ti_ID = stateID\<rparr>, pt_InstanceMode := ''ephemeral''\<rparr>"

definition execute_task :: "nat \<Rightarrow> bytes \<times> bytes \<Rightarrow> bytes \<Rightarrow> bytes \<Rightarrow> bool \<Rightarrow> PlanTask" where
  "execute_task i input taskHash outputStateID cached = plain_task\<lparr>pt_TaskID := ''execute-'' @ itoa i, pt_Type := ''state_execute'',
     pt_Input := Some \<lparr>ti_Kind = fst input, ti_ID = snd input\<rparr>, pt_TaskHash := taskHash, pt_OutputStateID := outputStateID,
     pt_Cached := Some cached\<rparr>"

definition plan_base :: "preparedRequest \<Rightarrow> bytes \<times> bytes" where
  "plan_base p = (''image'', if bsel_Key (pr_managed p) \<noteq> [] then bsel_Key (pr_managed p) else effectiveImageID p)"

definition check_cached :: "prepareEnv \<Rightarrow> bytes \<Rightarrow> preparedRequest \<Rightarrow> bool rop" where
  "check_cached E stateID p = or_respond (internal_error ''cannot check state cache'') (isManagedStateCached E stateID p)"

definition missing_output :: ErrorResponse where
  "missing_output = errorResponse ''internal_error'' ''missing output state'' NoDetails"

definition finish_plan :: "preparedRequest \<Rightarrow> PlanTask list \<times> bytes \<Rightarrow> (PlanTask list \<times> bytes) rop" where
  "finish_plan p r =
     (if TrimSpace (snd r) = [] then op_fail missing_output
      else op_return (first_tasks p @ fst r @ [instance_task (snd r)], snd r))"

subsection \<open>Plans of psql\<close>

definition default_steps :: "preparedRequest \<Rightarrow> psqlStep list" where
  "default_steps p =
     (if pr_psqlSteps p = [] then [\<lparr>st_args = pr_normalizedArgs p, st_inputs = pr_psqlInputs p, st_stdin = rq_Stdin (pr_request p)\<rparr>]
      else pr_psqlSteps p)"

definition read_files :: "prepareEnv \<Rightarrow> (prepareWorld, 'e, fileTable) operation" where
  "read_files E = get_world (\<lambda>w. pe_files E (pw_disk w))"

definition step_hash :: "prepareEnv \<Rightarrow> preparedRequest \<Rightarrow> psqlStep \<Rightarrow> bytes rop" where
  "step_hash E p s =
     op_bind (read_files E) (\<lambda>files.
     op_bind (or_respond digest_error (op_of (content_digest files (st_inputs s) (pr_psqlWorkDir p)))) (\<lambda>d.
     op_return (psqlTaskHash (rq_PrepareKind (pr_request p)) (cd_hash d) (pe_version E))))"

fun plan_steps ::
    "prepareEnv \<Rightarrow> preparedRequest \<Rightarrow> nat \<Rightarrow> bytes \<times> bytes \<Rightarrow> PlanTask list \<Rightarrow> bytes \<Rightarrow> psqlStep list \<Rightarrow> (PlanTask list \<times> bytes) rop" where
  "plan_steps E p i input tasks stateID [] = op_return (tasks, stateID)"
| "plan_steps E p i input tasks stateID (s # rest) =
     op_bind (step_hash E p s) (\<lambda>taskHash.
     op_bind (op_of (computeOutputStateID (fst input) (snd input) taskHash)) (\<lambda>outputStateID.
     op_bind (check_cached E outputStateID p) (\<lambda>cached.
     plan_steps E p (Suc i) (''state'', outputStateID) (tasks @ [execute_task i input taskHash outputStateID cached]) outputStateID rest)))"

definition buildPlanPsql :: "prepareEnv \<Rightarrow> preparedRequest \<Rightarrow> (PlanTask list \<times> bytes) rop" where
  "buildPlanPsql E p =
     (if TrimSpace (effectiveImageID p) = [] then op_fail image_required
      else op_bind (plan_steps E p 0 (plan_base p) [] [] (default_steps p)) (finish_plan p))"

subsection \<open>Plans of Liquibase\<close>

definition changeset_task :: "LiquibaseChangeset \<Rightarrow> PlanTask \<Rightarrow> PlanTask" where
  "changeset_task c t = t\<lparr>pt_ChangesetID := lc_ID c, pt_ChangesetAuthor := lc_Author c, pt_ChangesetPath := lc_Path c\<rparr>"

text \<open>The state a step starts from is also part of the hash of its task.\<close>

fun plan_changesets ::
    "prepareEnv \<Rightarrow> preparedRequest \<Rightarrow> nat \<Rightarrow> bytes \<times> bytes \<Rightarrow> PlanTask list \<Rightarrow> bytes \<Rightarrow> LiquibaseChangeset list \<Rightarrow> (PlanTask list \<times> bytes) rop" where
  "plan_changesets E p i input tasks stateID [] = op_return (tasks, stateID)"
| "plan_changesets E p i input tasks stateID (c # rest) =
     (let taskHash = liquibaseFingerprint (snd input) [c] in
      op_bind (op_of (computeOutputStateID (fst input) (snd input) taskHash)) (\<lambda>outputStateID.
      op_bind (check_cached E outputStateID p) (\<lambda>cached.
      plan_changesets E p (Suc i) (''state'', outputStateID)
        (tasks @ [changeset_task c (execute_task i input taskHash outputStateID cached)]) outputStateID rest)))"

definition plan_no_changesets :: "prepareEnv \<Rightarrow> preparedRequest \<Rightarrow> (PlanTask list \<times> bytes) rop" where
  "plan_no_changesets E p =
     (let input = plan_base p; taskHash = liquibaseFingerprint (snd input) [] in
      op_bind (op_of (computeOutputStateID (fst input) (snd input) taskHash)) (\<lambda>outputStateID.
      op_bind (check_cached E outputStateID p) (\<lambda>cached.
      op_return ([execute_task 0 input taskHash outputStateID cached], outputStateID))))"

definition buildPlanLiquibase :: "prepareEnv \<Rightarrow> bytes \<Rightarrow> preparedRequest \<Rightarrow> (PlanTask list \<times> bytes) rop" where
  "buildPlanLiquibase E jobID p =
     (if TrimSpace (effectiveImageID p) = [] then op_fail image_required
      else op_bind (pe_planLiquibase E jobID p) (\<lambda>changesets.
        op_bind (if changesets = [] then plan_no_changesets E p else plan_changesets E p 0 (plan_base p) [] [] changesets)
          (finish_plan p)))"

definition buildPlan :: "prepareEnv \<Rightarrow> bytes \<Rightarrow> preparedRequest \<Rightarrow> (PlanTask list \<times> bytes) rop" where
  "buildPlan E jobID p =
     (let kind = rq_PrepareKind (pr_request p) in
      if kind = ''psql'' then buildPlanPsql E p
      else if kind = ''lb'' then buildPlanLiquibase E jobID p
      else op_fail (errorResponse ''internal_error'' ''unsupported prepare kind'' (TextDetails kind)))"

end
