(* ===== verification/Prepare_Tasks.thy ===== *)
theory Prepare_Tasks
  imports Prepare_Plan
begin

text \<open>
  Tasks as they are kept in the queue (\<^verbatim>\<open>prepare/manager.go\<close>): their records, the checks before a stored plan is
  taken up again (\<^verbatim>\<open>managed_request.go\<close> and the drift of a plan), and the entries of the task list.
\<close>

definition StatusQueued :: bytes where "StatusQueued = ''queued''"

definition StatusRunning :: bytes where "StatusRunning = ''running''"

definition StatusSucceeded :: bytes where "StatusSucceeded = ''succeeded''"

definition StatusFailed :: bytes where "StatusFailed = ''failed''"

subsection \<open>Records\<close>

definition nullableString :: "bytes \<Rightarrow> bytes option" where
  "nullableString v = (if TrimSpace v = [] then None else Some v)"

definition taskInputKind :: "TaskInput option \<Rightarrow> bytes" where
  "taskInputKind i = (case i of None \<Rightarrow> [] | Some t \<Rightarrow> ti_Kind t)"

definition taskInputID :: "TaskInput option \<Rightarrow> bytes" where
  "taskInputID i = (case i of None \<Rightarrow> [] | Some t \<Rightarrow> ti_ID t)"

definition task_record :: "bytes \<Rightarrow> nat \<Rightarrow> PlanTask \<Rightarrow> TaskRecord" where
  "task_record jobID i t =
     \<lparr>tk_JobID = jobID, tk_TaskID = pt_TaskID t, tk_Position = i, tk_Type = pt_Type t, tk_Status = StatusQueued,
      tk_PlannerKind = nullableString (pt_PlannerKind t), tk_InputKind = nullableString (taskInputKind (pt_Input t)),
      tk_InputID = nullableString (taskInputID (pt_Input t)), tk_ImageID = nullableString (pt_ImageID t),
      tk_ResolvedImageID = nullableString (pt_ResolvedImageID t), tk_TaskHash = nullableString (pt_TaskHash t),
      tk_OutputStateID = nullableString (pt_OutputStateID t), tk_Cached = pt_Cached t,
      tk_InstanceMode = nullableString (pt_InstanceMode t), tk_ChangesetID = nullableString (pt_ChangesetID t),
      tk_ChangesetAuthor = nullableString (pt_ChangesetAuthor t), tk_ChangesetPath = nullableString (pt_ChangesetPath t),
      tk_StartedAt = None, tk_FinishedAt = None, tk_ErrorJSON = None\<rparr>"

definition taskRecordsFromPlan :: "bytes \<Rightarrow> PlanTask list \<Rightarrow> TaskRecord list" where
  "taskRecordsFromPlan jobID tasks = map (\<lambda>(i, t). task_record jobID i t) (enumerate 0 tasks)"

definition record_input :: "TaskRecord \<Rightarrow> TaskInput option" where
  "record_input t =
     (case (tk_InputKind t, tk_InputID t) of (Some k, Some i) \<Rightarrow> Some \<lparr>ti_Kind = k, ti_ID = i\<rparr> | _ \<Rightarrow> None)"

definition planTaskFromRecord :: "TaskRecord \<Rightarrow> PlanTask" where
  "planTaskFromRecord t =
     \<lparr>pt_TaskID = tk_TaskID t, pt_Type = tk_Type t, pt_PlannerKind = valueOrEmpty (tk_PlannerKind t), pt_Input = record_input t,
      pt_ImageID = valueOrEmpty (tk_ImageID t), pt_ResolvedImageID = valueOrEmpty (tk_ResolvedImageID t),
      pt_TaskHash = valueOrEmpty (tk_TaskHash t), pt_OutputStateID = valueOrEmpty (tk_OutputStateID t), pt_Cached = tk_Cached t,
      pt_InstanceMode = valueOrEmpty (tk_InstanceMode t), pt_ChangesetID = valueOrEmpty (tk_ChangesetID t),
      pt_ChangesetAuthor = valueOrEmpty (tk_ChangesetAuthor t), pt_ChangesetPath = valueOrEmpty (tk_ChangesetPath t)\<rparr>"

definition planTasksFromRecords :: "TaskRecord list \<Rightarrow> PlanTask list" where
  "planTasksFromRecords records = map planTaskFromRecord records"

definition taskStatesFromPlan :: "PlanTask list \<Rightarrow> taskState list" where
  "taskStatesFromPlan tasks = map (\<lambda>t. \<lparr>tt_task = t, tt_Status = StatusQueued\<rparr>) tasks"

definition taskStatesFromRecords :: "TaskRecord list \<Rightarrow> taskState list" where
  "taskStatesFromRecords records = map (\<lambda>r. \<lparr>tt_task = planTaskFromRecord r, tt_Status = tk_Status r\<rparr>) records"

definition findOutputStateID :: "taskState list \<Rightarrow> bytes" where
  "findOutputStateID tasks =
     (case find (\<lambda>t. pt_Type (tt_task t) = ''state_execute'' \<and> pt_OutputStateID (tt_task t) \<noteq> []) (rev tasks) of
        None \<Rightarrow> [] | Some t \<Rightarrow> pt_OutputStateID (tt_task t))"

definition hasRunningTasks :: "TaskRecord list \<Rightarrow> bool" where
  "hasRunningTasks tasks \<longleftrightarrow> list_ex (\<lambda>t. tk_Status t = StatusRunning) tasks"

definition resolvedImageFromTasks :: "TaskRecord list \<Rightarrow> bytes" where
  "resolvedImageFromTasks tasks =
     (case find (\<lambda>t. tk_Type t = ''resolve_image'' \<and> TrimSpace (valueOrEmpty (tk_ResolvedImageID t)) \<noteq> []) tasks of
        None \<Rightarrow> [] | Some t \<Rightarrow> valueOrEmpty (tk_ResolvedImageID t))"

subsection \<open>Checks of a stored plan\<close>

text \<open>The input the next step must have, and the number of steps so far.\<close>

fun validate_chain :: "bytes \<Rightarrow> bytes \<Rightarrow> bytes \<Rightarrow> nat \<Rightarrow> TaskRecord list \<Rightarrow> bool" where
  "validate_chain resolvedImage kind input n [] = (0 < n)"
| "validate_chain resolvedImage kind input n (t # rest) =
     (if tk_Type t = ''resolve_image'' \<and> valueOrEmpty (tk_ResolvedImageID t) \<noteq> resolvedImage then False
      else if tk_Type t \<noteq> ''state_execute'' then validate_chain resolvedImage kind input n rest
      else if valueOrEmpty (tk_InputKind t) \<noteq> kind \<or> valueOrEmpty (tk_InputID t) \<noteq> input \<or> valueOrEmpty (tk_TaskHash t) = [] then False
      else case computeOutputStateID kind input (valueOrEmpty (tk_TaskHash t)) of Inl _ \<Rightarrow> False
        | Inr output \<Rightarrow> output = valueOrEmpty (tk_OutputStateID t) \<and> validate_chain resolvedImage ''state'' output (Suc n) rest)"

definition validateManagedTasks :: "prepareEnv \<Rightarrow> preparedRequest \<Rightarrow> TaskRecord list \<Rightarrow> engineError + unit" where
  "validateManagedTasks E p tasks =
     (if pe_identity E = None then Inr ()
      else if \<not> IdentityBinding_Validate (bsel_IdentityBinding (pr_managed p)) \<or> bsel_Key (pr_managed p) = []
        \<or> \<not> validate_chain (effectiveImageID p) ''image'' (bsel_Key (pr_managed p)) 0 tasks
      then Inl (ErrIdentity IdentityInvalid) else Inr ())"

definition hasPlanSignatureDrift ::
    "prepareEnv \<Rightarrow> fileTable \<Rightarrow> preparedRequest \<Rightarrow> JobRecord \<Rightarrow> TaskRecord list \<Rightarrow> ErrorResponse + bool" where
  "hasPlanSignatureDrift E files p job tasks =
     (let stored = TrimSpace (valueOrEmpty (jr_Signature job)) in
      if stored = [] then Inr False
      else res_map (\<lambda>expected. stored \<noteq> expected)
        (if rq_PrepareKind (pr_request p) = ''lb'' then computeJobSignatureFromPlan E p (planTasksFromRecords tasks)
         else computeJobSignature E files p))"

definition hasPsqlExecuteShapeDrift :: "preparedRequest \<Rightarrow> TaskRecord list \<Rightarrow> bool" where
  "hasPsqlExecuteShapeDrift p tasks =
     (let expected = (if pr_psqlSteps p = [] then 1 else length (pr_psqlSteps p));
          executed = filter (\<lambda>t. tk_Type t = ''state_execute'') tasks; actual = length executed in
      if rq_PrepareKind (pr_request p) \<noteq> ''psql'' \<or> expected \<le> 1 then False
      else if 0 < actual \<and> actual < expected then True
      else if actual \<noteq> expected then False
      else list_ex (\<lambda>i. ''execute-'' @ itoa i \<notin> tk_TaskID ` set executed) [0..<expected])"

subsection \<open>The list of tasks\<close>

record TaskEntry =
  te_TaskID :: bytes
  te_JobID :: bytes
  te_Type :: bytes
  te_Status :: bytes
  te_PlannerKind :: bytes
  te_Input :: "TaskInput option"
  te_ImageID :: bytes
  te_ResolvedImageID :: bytes
  te_ArgsSummary :: bytes
  te_TaskHash :: bytes
  te_OutputStateID :: bytes
  te_Cached :: "bool option"
  te_InstanceMode :: bytes
  te_ChangesetID :: bytes
  te_ChangesetAuthor :: bytes
  te_ChangesetPath :: bytes

definition decodeJobRequest :: "JobRecord \<Rightarrow> Request option" where
  "decodeJobRequest job = (case jr_RequestJSON job of Some (Encodes req) \<Rightarrow> Some req | _ \<Rightarrow> None)"

definition liquibaseTaskArgsSummary :: "TaskRecord \<Rightarrow> bytes" where
  "liquibaseTaskArgsSummary t =
     (let cid = TrimSpace (valueOrEmpty (tk_ChangesetID t)); author = TrimSpace (valueOrEmpty (tk_ChangesetAuthor t));
          path = TrimSpace (valueOrEmpty (tk_ChangesetPath t)) in
      if cid = [] \<or> author = [] \<or> path = [] then [] else cid @ ''::'' @ author @ ''::'' @ path)"

definition psqlTaskArgsSummary :: "bytes \<Rightarrow> Request option \<Rightarrow> bytes" where
  "psqlTaskArgsSummary taskID req =
     (case req of None \<Rightarrow> []
      | Some r \<Rightarrow>
         if TrimSpace (ToLower (rq_PrepareKind r)) \<noteq> ''psql'' then []
         else case buildPsqlSteps (rq_PsqlArgs r) (rq_Stdin r) of Inl _ \<Rightarrow> []
           | Inr steps \<Rightarrow>
              (case psqlStepForTask steps taskID of None \<Rightarrow> []
               | Some s \<Rightarrow>
                  (case st_inputs s of [] \<Rightarrow> []
                   | FileInput v # _ \<Rightarrow> ''-f '' @ v | StdinInput v # _ \<Rightarrow> ''-f -'' | CommandInput v # _ \<Rightarrow> ''-c '' @ v)))"

definition taskArgsSummary :: "TaskRecord \<Rightarrow> Request option \<Rightarrow> bytes" where
  "taskArgsSummary t req =
     (if TrimSpace (tk_Type t) \<noteq> ''state_execute'' then []
      else if liquibaseTaskArgsSummary t \<noteq> [] then liquibaseTaskArgsSummary t
      else psqlTaskArgsSummary (tk_TaskID t) req)"

definition taskEntryFromRecord :: "TaskRecord \<Rightarrow> Request option \<Rightarrow> TaskEntry" where
  "taskEntryFromRecord t req =
     \<lparr>te_TaskID = tk_TaskID t, te_JobID = tk_JobID t, te_Type = tk_Type t, te_Status = tk_Status t,
      te_PlannerKind = valueOrEmpty (tk_PlannerKind t), te_Input = record_input t, te_ImageID = valueOrEmpty (tk_ImageID t),
      te_ResolvedImageID = valueOrEmpty (tk_ResolvedImageID t), te_ArgsSummary = taskArgsSummary t req,
      te_TaskHash = valueOrEmpty (tk_TaskHash t), te_OutputStateID = valueOrEmpty (tk_OutputStateID t), te_Cached = tk_Cached t,
      te_InstanceMode = valueOrEmpty (tk_InstanceMode t), te_ChangesetID = valueOrEmpty (tk_ChangesetID t),
      te_ChangesetAuthor = valueOrEmpty (tk_ChangesetAuthor t), te_ChangesetPath = valueOrEmpty (tk_ChangesetPath t)\<rparr>"

end
