(* ===== verification/Prepare_Events.thy ===== *)
theory Prepare_Events
  imports Prepare_Tasks Cache_Capacity
begin

text \<open>
  How the service records the progress of a job (\<^verbatim>\<open>prepare/manager.go\<close>): events, the status of tasks, the three ways a
  job ends, and the retention of completed jobs.
\<close>

subsection \<open>Contexts and times\<close>

text \<open>\<open>None\<close> is the background context, \<open>Some j\<close> that of the run of job \<open>j\<close>.\<close>

definition in_ctx :: "prepareEnv \<Rightarrow> bytes option \<Rightarrow> 'a pop \<Rightarrow> 'a pop" where
  "in_ctx E ctx m w =
     (case ctx of None \<Rightarrow> m w | Some j \<Rightarrow> if pe_cancelled E j w then (Inl ErrCanceled, w) else m w)"

definition now_text :: "(prepareWorld, 'e, bytes) operation" where
  "now_text = op_bind read_clock (\<lambda>t. op_return (format_RFC3339Nano t))"

definition job_cancelled :: ErrorResponse where
  "job_cancelled = errorResponse ''cancelled'' ''job cancelled'' NoDetails"

subsection \<open>Events\<close>

record Event =
  vn_Type :: bytes
  vn_Ts :: bytes
  vn_Status :: bytes
  vn_TaskID :: bytes
  vn_Message :: bytes
  vn_Result :: "PrepareResult option"
  vn_Error :: "ErrorResponse option"

definition plain_event :: "bytes \<Rightarrow> bytes \<Rightarrow> Event" where
  "plain_event kind ts = \<lparr>vn_Type = kind, vn_Ts = ts, vn_Status = [], vn_TaskID = [], vn_Message = [], vn_Result = None, vn_Error = None\<rparr>"

definition status_event :: "bytes \<Rightarrow> bytes \<Rightarrow> Event" where
  "status_event ts status = (plain_event ''status'' ts)\<lparr>vn_Status := status\<rparr>"

definition eventRecordFromEvent :: "bytes \<Rightarrow> Event \<Rightarrow> EventRecord" where
  "eventRecordFromEvent jobID event =
     \<lparr>ev_Seq = 0, ev_JobID = jobID, ev_Type = vn_Type event, ev_Ts = vn_Ts event, ev_Status = nullableString (vn_Status event),
      ev_TaskID = nullableString (vn_TaskID event), ev_Message = nullableString (vn_Message event),
      ev_ResultJSON = map_option Encodes (vn_Result event), ev_ErrorJSON = map_option Encodes (vn_Error event)\<rparr>"

definition read_json :: "'a jsonText option \<Rightarrow> 'a option" where
  "read_json t = (case t of Some (Encodes x) \<Rightarrow> Some x | _ \<Rightarrow> None)"

definition eventFromRecord :: "EventRecord \<Rightarrow> Event" where
  "eventFromRecord r =
     \<lparr>vn_Type = ev_Type r, vn_Ts = ev_Ts r, vn_Status = valueOrEmpty (ev_Status r), vn_TaskID = valueOrEmpty (ev_TaskID r),
      vn_Message = valueOrEmpty (ev_Message r), vn_Result = read_json (ev_ResultJSON r), vn_Error = read_json (ev_ErrorJSON r)\<rparr>"

text \<open>With access to instances the credentials are kept out of what is stored.\<close>

definition stored_result :: "prepareEnv \<Rightarrow> PrepareResult \<Rightarrow> PrepareResult" where
  "stored_result E r = (if pe_access E \<noteq> None then r\<lparr>rs_DSN := []\<rparr> else r)"

text \<open>Listeners and the heartbeat of a job are told as well; they keep no state that the service reads.\<close>

definition appendEvent :: "prepareEnv \<Rightarrow> bytes \<Rightarrow> Event \<Rightarrow> unit pop" where
  "appendEvent E jobID event =
     op_bind (AppendEvent (eventRecordFromEvent jobID (event\<lparr>vn_Result := map_option (stored_result E) (vn_Result event)\<rparr>)))
       (\<lambda>_. op_return ())"

definition appendLog :: "prepareEnv \<Rightarrow> bytes \<Rightarrow> bytes \<Rightarrow> (prepareWorld, 'e, unit) operation" where
  "appendLog E jobID message =
     (if TrimSpace jobID = [] \<or> TrimSpace message = [] then op_return ()
      else op_bind now_text (\<lambda>ts. ignoring (appendEvent E jobID ((plain_event ''log'' ts)\<lparr>vn_Message := message\<rparr>))))"

fun append_logs :: "prepareEnv \<Rightarrow> bytes \<Rightarrow> bytes list \<Rightarrow> (prepareWorld, 'e, unit) operation" where
  "append_logs E jobID [] = op_return ()"
| "append_logs E jobID (message # rest) = op_bind (appendLog E jobID message) (\<lambda>_. append_logs E jobID rest)"

definition appendLogLines :: "prepareEnv \<Rightarrow> bytes \<Rightarrow> bytes \<Rightarrow> bytes \<Rightarrow> (prepareWorld, 'e, unit) operation" where
  "appendLogLines E jobID prefix content =
     append_logs E jobID
       (map (\<lambda>line. if prefix \<noteq> [] then prefix @ '': '' @ line else line)
         (filter (\<lambda>line. line \<noteq> []) (map TrimSpace (split_on (CHR 0x0A) (TrimSpace content)))))"

subsection \<open>Tasks\<close>

definition task_event :: "bytes \<Rightarrow> bytes \<Rightarrow> bytes \<Rightarrow> ErrorResponse option \<Rightarrow> Event" where
  "task_event ts status taskID errResp =
     (plain_event ''task'' ts)\<lparr>vn_Status := status, vn_TaskID := taskID,
       vn_Message := (case errResp of None \<Rightarrow> [] | Some e \<Rightarrow> er_Message e), vn_Error := errResp\<rparr>"

definition updateTaskStatus ::
    "prepareEnv \<Rightarrow> bytes \<Rightarrow> bytes \<Rightarrow> bytes \<Rightarrow> bytes option \<Rightarrow> bytes option \<Rightarrow> ErrorResponse option \<Rightarrow> unit pop" where
  "updateTaskStatus E jobID taskID status startedAt finishedAt errResp =
     op_bind (in_ctx E (Some jobID) (UpdateTask jobID taskID (no_task_update\<lparr>tu_Status := Some status, tu_StartedAt := startedAt,
         tu_FinishedAt := finishedAt, tu_ErrorJSON := map_option Encodes errResp\<rparr>))) (\<lambda>_.
     op_bind now_text (\<lambda>ts. appendEvent E jobID (task_event ts status taskID errResp)))"

definition finish_task :: "prepareEnv \<Rightarrow> bytes \<Rightarrow> bytes \<Rightarrow> unit pop" where
  "finish_task E jobID taskID = op_bind now_text (\<lambda>ts. updateTaskStatus E jobID taskID StatusSucceeded None (Some ts) None)"

fun markTasksSucceeded :: "prepareEnv \<Rightarrow> bytes \<Rightarrow> taskState list \<Rightarrow> unit pop" where
  "markTasksSucceeded E jobID [] = op_return ()"
| "markTasksSucceeded E jobID (t # rest) =
     op_bind (finish_task E jobID (pt_TaskID (tt_task t))) (\<lambda>_. markTasksSucceeded E jobID rest)"

subsection \<open>Retention\<close>

definition defaultMaxIdenticalJobs :: int where
  "defaultMaxIdenticalJobs = 2"

definition configValueToInt :: "goAny \<Rightarrow> int option" where
  "configValueToInt v = asInt64 v"

definition maxIdenticalJobs :: "ConfigManager option \<Rightarrow> int" where
  "maxIdenticalJobs config =
     (case config of None \<Rightarrow> defaultMaxIdenticalJobs
      | Some m \<Rightarrow>
         (case config_Get m ''orchestrator.jobs.maxIdentical'' True of Inl _ \<Rightarrow> defaultMaxIdenticalJobs
          | Inr v \<Rightarrow> (case configValueToInt v of Some n \<Rightarrow> if 0 \<le> n then n else defaultMaxIdenticalJobs | None \<Rightarrow> defaultMaxIdenticalJobs)))"

definition removeJobDir :: "prepareEnv \<Rightarrow> bytes \<Rightarrow> unit pop" where
  "removeJobDir E jobID =
     (if TrimSpace (pe_root E) = [] \<or> TrimSpace jobID = [] then op_return ()
      else
        let path = path_Join [pe_root E, ''jobs'', jobID] in
        op_bind (ignoring (RemovePath (path_Join [path, ''runtime'']))) (\<lambda>_.
          p_modify (\<lambda>w. w\<lparr>pw_disk := remove_at (pw_disk w) path\<rparr>)))"

fun delete_jobs :: "prepareEnv \<Rightarrow> bytes option \<Rightarrow> JobRecord list \<Rightarrow> (prepareWorld, 'e, unit) operation" where
  "delete_jobs E ctx [] = op_return ()"
| "delete_jobs E ctx (job # rest) =
     op_try (in_ctx E ctx (DeleteJob (jr_JobID job))) (\<lambda>r. case r of
         Inl _ \<Rightarrow> delete_jobs E ctx rest
       | Inr _ \<Rightarrow> op_bind (ignoring (removeJobDir E (jr_JobID job))) (\<lambda>_. delete_jobs E ctx rest))"

definition trimCompletedJobsBySignature :: "prepareEnv \<Rightarrow> bytes option \<Rightarrow> bytes \<Rightarrow> (prepareWorld, 'e, unit) operation" where
  "trimCompletedJobsBySignature E ctx signature =
     op_bind (get_world (\<lambda>w. maxIdenticalJobs (pw_config w))) (\<lambda>limit.
       if limit \<le> 0 \<or> TrimSpace signature = [] then op_return ()
       else op_try (in_ctx E ctx (ListJobsBySignature signature [StatusSucceeded, StatusFailed])) (\<lambda>r. case r of
           Inl _ \<Rightarrow> op_return ()
         | Inr jobs \<Rightarrow> delete_jobs E ctx (drop (nat limit) jobs)))"

definition trimCompletedJobsForJob :: "prepareEnv \<Rightarrow> bytes option \<Rightarrow> bytes \<Rightarrow> (prepareWorld, 'e, unit) operation" where
  "trimCompletedJobsForJob E ctx jobID =
     (if TrimSpace jobID = [] then op_return ()
      else op_try (in_ctx E ctx (GetJob jobID)) (\<lambda>r. case r of
          Inr (Some job) \<Rightarrow>
            if TrimSpace (valueOrEmpty (jr_Signature job)) = [] then op_return ()
            else trimCompletedJobsBySignature E ctx (valueOrEmpty (jr_Signature job))
        | _ \<Rightarrow> op_return ()))"

definition trimCompletedJobs :: "prepareEnv \<Rightarrow> bytes option \<Rightarrow> preparedRequest \<Rightarrow> (prepareWorld, 'e, unit) operation" where
  "trimCompletedJobs E ctx p =
     op_bind (get_world (\<lambda>w. maxIdenticalJobs (pw_config w))) (\<lambda>limit.
       if limit \<le> 0 then op_return ()
       else op_bind (read_files E) (\<lambda>files.
         case computeJobSignature E files p of Inl _ \<Rightarrow> op_return ()
         | Inr signature \<Rightarrow> trimCompletedJobsBySignature E ctx signature))"

subsection \<open>How a job ends\<close>

definition succeed :: "prepareEnv \<Rightarrow> bytes \<Rightarrow> PrepareResult \<Rightarrow> unit pop" where
  "succeed E jobID result =
     op_bind now_text (\<lambda>now.
     op_bind (UpdateJob jobID (no_job_update\<lparr>ju_Status := Some StatusSucceeded, ju_FinishedAt := Some now,
         ju_ResultJSON := Some (Encodes (stored_result E result))\<rparr>)) (\<lambda>_.
     op_bind (appendEvent E jobID (status_event now StatusSucceeded)) (\<lambda>_.
     op_bind (appendEvent E jobID ((plain_event ''result'' now)\<lparr>vn_Result := Some (stored_result E result)\<rparr>)) (\<lambda>_.
     trimCompletedJobsForJob E None jobID))))"

definition succeedPlan :: "prepareEnv \<Rightarrow> bytes \<Rightarrow> unit pop" where
  "succeedPlan E jobID =
     op_bind now_text (\<lambda>now.
     op_bind (UpdateJob jobID (no_job_update\<lparr>ju_Status := Some StatusSucceeded, ju_FinishedAt := Some now\<rparr>)) (\<lambda>_.
     op_bind (appendEvent E jobID (status_event now StatusSucceeded)) (\<lambda>_.
     trimCompletedJobsForJob E None jobID)))"

definition failJob :: "prepareEnv \<Rightarrow> bytes \<Rightarrow> ErrorResponse \<Rightarrow> unit pop" where
  "failJob E jobID errResp =
     op_bind now_text (\<lambda>now.
     op_bind (UpdateJob jobID (no_job_update\<lparr>ju_Status := Some StatusFailed, ju_FinishedAt := Some now,
         ju_ErrorJSON := Some (Encodes errResp)\<rparr>)) (\<lambda>_.
     op_bind (appendEvent E jobID (status_event now StatusFailed)) (\<lambda>_.
     op_bind (appendEvent E jobID ((plain_event ''error'' now)\<lparr>vn_Error := Some errResp\<rparr>)) (\<lambda>_.
     trimCompletedJobsForJob E None jobID))))"

text \<open>A run that fails its job, also when that cannot be recorded; \<open>False\<close> says that the job has not succeeded.\<close>

definition fail_with :: "prepareEnv \<Rightarrow> bytes \<Rightarrow> ErrorResponse \<Rightarrow> bool pop" where
  "fail_with E jobID errResp = op_bind (ignoring (failJob E jobID errResp)) (\<lambda>_. op_return False)"

text \<open>What a run does with an error of one of its steps.\<close>

definition or_fail ::
    "prepareEnv \<Rightarrow> bytes \<Rightarrow> ('e \<Rightarrow> ErrorResponse) \<Rightarrow> (prepareWorld, 'e, 'a) operation \<Rightarrow> ('a \<Rightarrow> bool pop) \<Rightarrow> bool pop" where
  "or_fail E jobID respond m k = op_try m (\<lambda>r. case r of Inl e \<Rightarrow> fail_with E jobID (respond e) | Inr x \<Rightarrow> k x)"

end
