(* ===== verification/Prepare_Jobs.thy ===== *)
theory Prepare_Jobs
  imports Prepare_Events
begin

text \<open>
  The run of a job (\<^verbatim>\<open>prepare/manager.go\<close>, \<^verbatim>\<open>managed_request.go\<close>): its image is resolved, its base selected, its tasks
  loaded or planned, and executed one after the other until the job has succeeded or failed.
\<close>

subsection \<open>The image\<close>

definition with_image :: "bytes \<Rightarrow> preparedRequest \<Rightarrow> preparedRequest" where
  "with_image imageID p = p\<lparr>pr_resolvedImageID := imageID\<rparr>"

definition resolve_image :: "prepareEnv \<Rightarrow> bytes \<Rightarrow> preparedRequest \<Rightarrow> preparedRequest rop" where
  "resolve_image E jobID p =
     (let imageID = rq_ImageID (pr_request p) in
      op_bind (appendLog E jobID (''resolve image '' @ imageID)) (\<lambda>_.
      op_bind (get_world (pe_resolveImage E imageID)) (\<lambda>(lines, r).
      op_bind (append_logs E jobID (map (\<lambda>line. ''docker: '' @ line) lines)) (\<lambda>_.
      op_bind (or_respond (internal_error ''cannot resolve image'') (op_of r)) (\<lambda>found.
        let resolvedID = TrimSpace found in
        if resolvedID = [] then op_fail image_required
        else op_bind (appendLog E jobID (''resolved image '' @ resolvedID)) (\<lambda>_. op_return (with_image resolvedID p)))))))"

definition ensureResolvedImageID :: "prepareEnv \<Rightarrow> bytes \<Rightarrow> preparedRequest \<Rightarrow> TaskRecord list \<Rightarrow> preparedRequest rop" where
  "ensureResolvedImageID E jobID p tasks =
     (if TrimSpace (pr_resolvedImageID p) \<noteq> [] then op_return p
      else if resolvedImageFromTasks tasks \<noteq> [] then op_return (with_image (resolvedImageFromTasks tasks) p)
      else if tasks \<noteq> [] \<or> \<not> needsImageResolve (rq_ImageID (pr_request p)) then op_return (with_image (rq_ImageID (pr_request p)) p)
      else resolve_image E jobID p)"

subsection \<open>The base\<close>

definition bindManagedRequest :: "prepareEnv \<Rightarrow> preparedRequest \<Rightarrow> JobRecord option \<Rightarrow> preparedRequest pop" where
  "bindManagedRequest E p job =
     (case pe_identity E of None \<Rightarrow> op_fail (ErrIdentity IdentityUnavailable)
      | Some owner \<Rightarrow>
         let digest = managedImageDigest (effectiveImageID p) in
         op_bind (on_engine (case job of
             Some j \<Rightarrow> RestoreStored owner digest (jr_LineageRef j) (jr_IdentityDigest j)
           | None \<Rightarrow>
               if ib_IdentityDigest (bsel_IdentityBinding (pr_managed p)) \<noteq> []
               then RestoreBase owner digest (bsel_IdentityBinding (pr_managed p)) else ResolveBase owner digest))
           (\<lambda>selected. op_return (p\<lparr>pr_managed := selected\<rparr>)))"

subsection \<open>Planning\<close>

definition store_signature :: "prepareEnv \<Rightarrow> bytes \<Rightarrow> bytes \<Rightarrow> unit rop" where
  "store_signature E jobID signature =
     or_respond (internal_error ''cannot update job signature'')
       (in_ctx E (Some jobID) (UpdateJob jobID (no_job_update\<lparr>ju_Signature := Some signature\<rparr>)))"

definition updateJobSignature :: "prepareEnv \<Rightarrow> bytes \<Rightarrow> preparedRequest \<Rightarrow> unit rop" where
  "updateJobSignature E jobID p =
     op_bind (read_files E) (\<lambda>files. op_bind (op_of (computeJobSignature E files p)) (store_signature E jobID))"

definition updateJobSignatureFromPlan :: "prepareEnv \<Rightarrow> bytes \<Rightarrow> preparedRequest \<Rightarrow> PlanTask list \<Rightarrow> unit rop" where
  "updateJobSignatureFromPlan E jobID p tasks =
     op_bind (op_of (computeJobSignatureFromPlan E p tasks)) (store_signature E jobID)"

definition is_lb :: "preparedRequest \<Rightarrow> bool" where
  "is_lb p \<longleftrightarrow> rq_PrepareKind (pr_request p) = ''lb''"

definition store_tasks :: "prepareEnv \<Rightarrow> bytes \<Rightarrow> PlanTask list \<Rightarrow> unit rop" where
  "store_tasks E jobID tasks =
     or_respond (internal_error ''cannot store tasks'') (in_ctx E (Some jobID) (ReplaceTasks jobID (taskRecordsFromPlan jobID tasks)))"

definition plan_tasks :: "prepareEnv \<Rightarrow> bytes \<Rightarrow> preparedRequest \<Rightarrow> (PlanTask list \<times> bytes) rop" where
  "plan_tasks E jobID p =
     op_bind (if is_lb p then op_return () else updateJobSignature E jobID p) (\<lambda>_.
     op_bind (buildPlan E jobID p) (\<lambda>(tasks, stateID).
     op_bind (if is_lb p then updateJobSignatureFromPlan E jobID p tasks else op_return ()) (\<lambda>_.
     op_bind (store_tasks E jobID tasks) (\<lambda>_.
     op_bind (trimCompletedJobs E (Some jobID) p) (\<lambda>_. op_return (tasks, stateID))))))"

definition replan :: "prepareEnv \<Rightarrow> bytes \<Rightarrow> preparedRequest \<Rightarrow> (PlanTask list \<times> bytes) rop" where
  "replan E jobID p =
     op_bind (buildPlan E jobID p) (\<lambda>(tasks, stateID).
     op_bind (if is_lb p then updateJobSignatureFromPlan E jobID p tasks else updateJobSignature E jobID p) (\<lambda>_.
     op_bind (store_tasks E jobID tasks) (\<lambda>_. op_return (tasks, stateID))))"

definition replanTasksOnDrift ::
    "prepareEnv \<Rightarrow> bytes \<Rightarrow> preparedRequest \<Rightarrow> TaskRecord list \<Rightarrow> (PlanTask list \<times> bytes) option rop" where
  "replanTasksOnDrift E jobID p records =
     (if records = [] then op_return None
      else
        op_bind (or_respond (internal_error ''cannot load job'') (in_ctx E (Some jobID) (GetJob jobID))) (\<lambda>found.
          case found of None \<Rightarrow> op_fail (errorResponse ''internal_error'' ''cannot load job'' (TextDetails jobID))
          | Some job \<Rightarrow>
             op_bind (read_files E) (\<lambda>files.
             op_bind (op_of (hasPlanSignatureDrift E files p job records)) (\<lambda>drift.
               if drift \<or> hasPsqlExecuteShapeDrift p records
               then op_bind (replan E jobID p) (\<lambda>r. op_return (Some r)) else op_return None))))"

text \<open>A step that was running when the engine stopped is done if its state is there, and queued again otherwise.\<close>

definition with_status :: "bytes \<Rightarrow> taskState \<Rightarrow> taskState" where
  "with_status status t = t\<lparr>tt_Status := status\<rparr>"

definition recover_task :: "prepareEnv \<Rightarrow> bytes \<Rightarrow> preparedRequest \<Rightarrow> taskState \<Rightarrow> taskState rop" where
  "recover_task E jobID p t =
     (let task = tt_task t in
      if tt_Status t \<noteq> StatusRunning \<or> pt_Type task \<noteq> ''state_execute'' then op_return t
      else
        op_bind (or_respond (internal_error ''cannot check recovered state cache'') (isManagedStateCached E (pt_OutputStateID task) p)) (\<lambda>exists.
          if exists
          then op_bind (ignoring (finish_task E jobID (pt_TaskID task))) (\<lambda>_. op_return (with_status StatusSucceeded t))
          else op_bind (ignoring (updateTaskStatus E jobID (pt_TaskID task) StatusQueued None None None)) (\<lambda>_.
            op_return (with_status StatusQueued t))))"

fun recover_tasks :: "prepareEnv \<Rightarrow> bytes \<Rightarrow> preparedRequest \<Rightarrow> taskState list \<Rightarrow> taskState list rop" where
  "recover_tasks E jobID p [] = op_return []"
| "recover_tasks E jobID p (t # rest) =
     op_bind (recover_task E jobID p t) (\<lambda>t'. op_bind (recover_tasks E jobID p rest) (\<lambda>rest'. op_return (t' # rest')))"

definition resume_tasks :: "prepareEnv \<Rightarrow> bytes \<Rightarrow> preparedRequest \<Rightarrow> TaskRecord list \<Rightarrow> (taskState list \<times> bytes) rop" where
  "resume_tasks E jobID p records =
     op_bind (or_respond (internal_error ''invalid managed task chain'') (op_of (validateManagedTasks E p records))) (\<lambda>_.
     op_bind (replanTasksOnDrift E jobID p records) (\<lambda>replanned.
       case replanned of Some (tasks, stateID) \<Rightarrow> op_return (taskStatesFromPlan tasks, stateID)
       | None \<Rightarrow>
          let states = taskStatesFromRecords records in
          op_bind (recover_tasks E jobID p states) (\<lambda>states'. op_return (states', findOutputStateID states))))"

text \<open>The request with the resolved image is used here only; the caller keeps the one it has.\<close>

definition loadOrPlanTasks :: "prepareEnv \<Rightarrow> bytes \<Rightarrow> preparedRequest \<Rightarrow> (taskState list \<times> bytes) rop" where
  "loadOrPlanTasks E jobID p =
     op_bind (or_respond (internal_error ''cannot load tasks'') (in_ctx E (Some jobID) (queue_ListTasks jobID))) (\<lambda>records.
     op_bind (ensureResolvedImageID E jobID p records) (\<lambda>p'.
       if records = []
       then op_bind (plan_tasks E jobID p') (\<lambda>(tasks, stateID). op_return (taskStatesFromPlan tasks, stateID))
       else resume_tasks E jobID p' records))"

subsection \<open>Tasks\<close>

definition cannot_update :: "engineError \<Rightarrow> ErrorResponse" where
  "cannot_update = internal_error ''cannot update task status''"

definition cached_output :: "prepareEnv \<Rightarrow> preparedRequest \<Rightarrow> PlanTask \<Rightarrow> bool rop" where
  "cached_output E p task =
     (if pt_Type task = ''state_execute'' \<and> pt_Cached task = Some True \<and> TrimSpace (pt_OutputStateID task) \<noteq> []
      then check_cached E (pt_OutputStateID task) p else op_return False)"

definition start_task :: "prepareEnv \<Rightarrow> bytes \<Rightarrow> bytes \<Rightarrow> unit pop" where
  "start_task E jobID taskID = op_bind now_text (\<lambda>ts. updateTaskStatus E jobID taskID StatusRunning (Some ts) None None)"

text \<open>The request, the state reached and, after the last task, the result.\<close>

definition run_task ::
    "prepareEnv \<Rightarrow> bytes \<Rightarrow> preparedRequest \<Rightarrow> bytes \<Rightarrow> taskState \<Rightarrow> (preparedRequest \<times> bytes \<times> PrepareResult option) rop" where
  "run_task E jobID p stateID t =
     (let task = tt_task t in
      if pt_Type task = ''resolve_image'' then
        (let p' = (if TrimSpace (pt_ResolvedImageID task) \<noteq> [] \<and> TrimSpace (pr_resolvedImageID p) = []
                   then with_image (pt_ResolvedImageID task) p else p) in
         op_bind (ensureResolvedImageID E jobID p' []) (\<lambda>p''. op_return (p'', stateID, None)))
      else if pt_Type task = ''state_execute''
      then op_bind (pe_executeStateTask E jobID p t) (\<lambda>outputID. op_return (p, outputID, None))
      else if pt_Type task = ''prepare_instance''
      then op_bind (pe_createInstance E jobID p stateID) (\<lambda>result. op_return (p, stateID, Some result))
      else op_return (p, stateID, None))"

definition fail_task :: "prepareEnv \<Rightarrow> bytes \<Rightarrow> bytes \<Rightarrow> ErrorResponse \<Rightarrow> bool pop" where
  "fail_task E jobID taskID errResp =
     op_bind now_text (\<lambda>ts.
     op_bind (ignoring (updateTaskStatus E jobID taskID StatusFailed None (Some ts) (Some errResp))) (\<lambda>_.
     fail_with E jobID errResp))"

definition succeeded :: "unit pop \<Rightarrow> bool pop" where
  "succeeded m = op_try m (\<lambda>r. op_return (case r of Inl _ \<Rightarrow> False | Inr _ \<Rightarrow> True))"

definition last_step :: "prepareEnv \<Rightarrow> bytes \<Rightarrow> preparedRequest \<Rightarrow> bytes \<Rightarrow> bool pop" where
  "last_step E jobID p stateID =
     (if stateID = [] then fail_with E jobID missing_output
      else or_fail E jobID (\<lambda>e. e) (pe_createInstance E jobID p stateID) (\<lambda>result. succeeded (succeed E jobID result)))"

fun run_tasks :: "prepareEnv \<Rightarrow> bytes \<Rightarrow> preparedRequest \<Rightarrow> bytes \<Rightarrow> taskState list \<Rightarrow> bool pop" where
  "run_tasks E jobID p stateID [] = last_step E jobID p stateID"
| "run_tasks E jobID p stateID (t # rest) =
     op_bind (get_world (pe_cancelled E jobID)) (\<lambda>cancelled.
       let task = tt_task t in
       if cancelled then fail_with E jobID job_cancelled
       else if tt_Status t = StatusSucceeded then run_tasks E jobID p stateID rest
       else if tt_Status t = StatusFailed
       then fail_with E jobID (errorResponse ''internal_error'' ''task failed'' (TextDetails (pt_TaskID task)))
       else
         or_fail E jobID (\<lambda>e. e) (cached_output E p task) (\<lambda>cached.
           if cached
           then or_fail E jobID cannot_update (finish_task E jobID (pt_TaskID task)) (\<lambda>_.
             run_tasks E jobID p (pt_OutputStateID task) rest)
           else
             or_fail E jobID cannot_update (start_task E jobID (pt_TaskID task)) (\<lambda>_.
             op_try (run_task E jobID p stateID t) (\<lambda>r. case r of
                 Inl e \<Rightarrow> fail_task E jobID (pt_TaskID task) e
               | Inr (p', stateID', result) \<Rightarrow>
                   or_fail E jobID cannot_update (finish_task E jobID (pt_TaskID task)) (\<lambda>_.
                     case result of Some x \<Rightarrow> succeeded (succeed E jobID x) | None \<Rightarrow> run_tasks E jobID p' stateID' rest)))))"

subsection \<open>The run\<close>

definition terminal :: "bytes \<Rightarrow> bool" where
  "terminal status \<longleftrightarrow> status = StatusSucceeded \<or> status = StatusFailed"

definition mark_running :: "prepareEnv \<Rightarrow> bytes \<Rightarrow> preparedRequest \<Rightarrow> unit pop" where
  "mark_running E jobID p =
     op_bind now_text (\<lambda>startedAt.
     op_bind (ignoring (in_ctx E (Some jobID) (UpdateJob jobID (no_job_update\<lparr>ju_Status := Some StatusRunning, ju_StartedAt := Some startedAt\<rparr>)))) (\<lambda>_.
     op_bind (ignoring (appendEvent E jobID (status_event startedAt StatusRunning))) (\<lambda>_.
     ignoring (in_ctx E (Some jobID) (UpdateJob jobID (no_job_update\<lparr>ju_PrepareArgsNormalized := Some (pr_argsNormalized p)\<rparr>))))))"

definition run_started :: "prepareEnv \<Rightarrow> preparedRequest \<Rightarrow> bytes \<Rightarrow> bool pop" where
  "run_started E p jobID =
     op_bind (mark_running E jobID p) (\<lambda>_.
     or_fail E jobID (internal_error ''state store not ready'') (pe_validateStore E (pe_root E)) (\<lambda>_.
     or_fail E jobID (\<lambda>e. e) (loadOrPlanTasks E jobID p) (\<lambda>(tasks, stateID).
       if rq_PlanOnly (pr_request p)
       then or_fail E jobID cannot_update (markTasksSucceeded E jobID tasks) (\<lambda>_. succeeded (succeedPlan E jobID))
       else run_tasks E jobID p stateID tasks)))"

definition run_body :: "prepareEnv \<Rightarrow> preparedRequest \<Rightarrow> bytes \<Rightarrow> bool pop" where
  "run_body E p jobID =
     or_fail E jobID (internal_error ''cannot load job'') (GetJob jobID) (\<lambda>found.
       case found of None \<Rightarrow> op_return False
       | Some job \<Rightarrow>
          if terminal (jr_Status job) then op_return False
          else op_bind (get_world (pe_cancelled E jobID)) (\<lambda>cancelled.
            if cancelled then fail_with E jobID job_cancelled else run_started E p jobID))"

definition registerRunner :: "bytes \<Rightarrow> (prepareWorld, 'e, unit) operation" where
  "registerRunner jobID = set_world (\<lambda>w. w\<lparr>pw_running := jobID # pw_running w\<rparr>)"

definition unregisterRunner :: "bytes \<Rightarrow> (prepareWorld, 'e, unit) operation" where
  "unregisterRunner jobID = set_world (\<lambda>w. w\<lparr>pw_running := filter (\<lambda>j. j \<noteq> jobID) (pw_running w)\<rparr>)"

definition runJob :: "prepareEnv \<Rightarrow> preparedRequest \<Rightarrow> bytes \<Rightarrow> unit pop" where
  "runJob E p jobID =
     op_bind (registerRunner jobID) (\<lambda>_.
     op_bind (run_body E p jobID) (\<lambda>jobSucceeded.
     op_bind (if jobSucceeded then op_return () else ignoring (pe_cleanupRuntime E jobID)) (\<lambda>_.
     unregisterRunner jobID)))"

end
