(* ===== verification/Prepare_Service.thy ===== *)
theory Prepare_Service
  imports Prepare_Jobs Deletion
begin

text \<open>
  The requests the preparation service answers (\<^verbatim>\<open>prepare/manager.go\<close>, \<^verbatim>\<open>cache_explain.go\<close>, parts of
  \<^verbatim>\<open>managed_execution.go\<close>): submitting, reading, listing, cancelling and deleting jobs, reading their events, taking them up
  again after a restart, and explaining what the cache holds for a request.

  A job that is submitted or recovered runs at once, or, when the service is asynchronous, in an operation of its own.
\<close>

subsection \<open>Failures of a request\<close>

text \<open>A request that is invalid, one the service failed to process with a message of its own, and any other error.\<close>

datatype requestFailure = RequestInvalid ErrorResponse | RequestFailed ErrorResponse | RequestError engineError

definition request_failure :: "requestError \<Rightarrow> requestFailure" where
  "request_failure e = (case e of Inl r \<Rightarrow> RequestInvalid r | Inr err \<Rightarrow> RequestError err)"

definition errorFromExplainResponse :: "ErrorResponse \<Rightarrow> requestFailure" where
  "errorFromExplainResponse r = (if er_Code r = ''invalid_argument'' then RequestInvalid r else RequestFailed r)"

definition failing_with :: "('e \<Rightarrow> 'f) \<Rightarrow> 'e + 'a \<Rightarrow> ('w, 'f, 'a) operation" where
  "failing_with h r = (case r of Inl e \<Rightarrow> op_fail (h e) | Inr x \<Rightarrow> op_return x)"

subsection \<open>Credentials in results\<close>

definition dsn_plain :: "byte \<Rightarrow> bool" where
  "dsn_plain c \<longleftrightarrow> in_range 65 90 c \<or> in_range 97 122 c \<or> in_range 48 57 c \<or> c \<in> set ''-_.~$&+,;=''"

definition upper_hex :: "nat \<Rightarrow> byte" where
  "upper_hex n = (if n < 10 then char_of (48 + n) else char_of (55 + n))"

text \<open>Percent-encoding as \<^verbatim>\<open>net/url\<close> does it for a user name or password.\<close>

definition dsn_escape :: "bytes \<Rightarrow> bytes" where
  "dsn_escape s = concat (map (\<lambda>c. if dsn_plain c then [c] else [CHR ''%'', upper_hex (of_char c div 16), upper_hex (of_char c mod 16)]) s)"

definition JoinHostPort :: "bytes \<Rightarrow> bytes \<Rightarrow> bytes" where
  "JoinHostPort host port = (if CHR '':'' \<in> set host then ''['' @ host @ '']:'' @ port else host @ '':'' @ port)"

text \<open>The host of a container is an address, which needs no escaping.\<close>

definition managedDSN :: "Instance \<Rightarrow> bytes \<Rightarrow> bytes" where
  "managedDSN i password =
     ''postgres://'' @ dsn_escape (mi_Username (ib_ManagedIdentity (rb_IdentityBinding (in_Binding i)))) @ '':'' @ dsn_escape password
       @ ''@'' @ JoinHostPort (in_Host i) (itoa (in_Port i)) @ ''/postgres''"

definition hydrateManagedResult :: "prepareEnv \<Rightarrow> Service \<Rightarrow> PrepareResult \<Rightarrow> PrepareResult pop" where
  "hydrateManagedResult E access result =
     op_bind (on_engine (Lookup access (rs_InstanceID result))) (\<lambda>binding.
       case pe_inspectManaged E of None \<Rightarrow> op_fail ErrUnavailable
       | Some inspect \<Rightarrow>
          op_bind (inspect (ab_RuntimeBinding binding)) (\<lambda>container.
          op_bind (on_engine (Resolve access (rs_InstanceID result) (ab_RuntimeBinding binding))) (\<lambda>password.
          op_return (result\<lparr>rs_DSN := managedDSN container password\<rparr>))))"

definition read_result :: "prepareEnv \<Rightarrow> PrepareResult \<Rightarrow> PrepareResult pop" where
  "read_result E result = (case pe_access E of None \<Rightarrow> op_return result | Some access \<Rightarrow> hydrateManagedResult E access result)"

subsection \<open>Submitting and recovering jobs\<close>

record Accepted =
  ac_JobID :: bytes
  ac_StatusURL :: bytes
  ac_EventsURL :: bytes
  ac_Status :: bytes

definition submitted_job :: "bytes \<Rightarrow> bytes \<Rightarrow> preparedRequest \<Rightarrow> JobRecord" where
  "submitted_job jobID now p =
     \<lparr>jr_JobID = jobID, jr_Status = StatusQueued, jr_PrepareKind = rq_PrepareKind (pr_request p), jr_ImageID = rq_ImageID (pr_request p),
      jr_PlanOnly = rq_PlanOnly (pr_request p), jr_SnapshotMode = ''always'', jr_PrepareArgsNormalized = Some (pr_argsNormalized p),
      jr_Signature = None, jr_RequestJSON = Some (Encodes (pr_request p)), jr_CreatedAt = now, jr_StartedAt = None, jr_FinishedAt = None,
      jr_ResultJSON = None, jr_ErrorJSON = None, jr_ResolvedImageID = pr_resolvedImageID p,
      jr_LineageRef = mi_LineageRef (ib_ManagedIdentity (bsel_IdentityBinding (pr_managed p))),
      jr_IdentityDigest = ib_IdentityDigest (bsel_IdentityBinding (pr_managed p))\<rparr>"

definition randomHex :: "nat \<Rightarrow> bytes pop" where
  "randomHex n = op_bind (on_engine (read_entropy n)) (\<lambda>buf. op_return (hex_EncodeToString buf))"

definition bind_new :: "prepareEnv \<Rightarrow> bytes \<Rightarrow> preparedRequest \<Rightarrow> (prepareWorld, requestFailure, preparedRequest) operation" where
  "bind_new E jobID p =
     (if pe_identity E = None then op_return p
      else op_bind (op_map_error errorFromExplainResponse (ensureResolvedImageID E jobID p [])) (\<lambda>p'.
        op_map_error RequestError (bindManagedRequest E p' None)))"

definition start_run :: "prepareEnv \<Rightarrow> preparedRequest \<Rightarrow> bytes \<Rightarrow> (prepareWorld, 'e, unit) operation" where
  "start_run E p jobID = (if pe_async E then op_return () else ignoring (runJob E p jobID))"

definition Submit :: "prepareEnv \<Rightarrow> Request \<Rightarrow> (prepareWorld, requestFailure, Accepted) operation" where
  "Submit E req =
     op_bind (read_files E) (\<lambda>files.
     op_bind (failing_with request_failure (prepareRequest E files req)) (\<lambda>checked.
     op_bind (op_map_error RequestError (randomHex 16)) (\<lambda>jobID.
     op_bind (bind_new E jobID checked) (\<lambda>p.
     op_bind now_text (\<lambda>now.
     op_bind (op_map_error RequestError (CreateJob (submitted_job jobID now p))) (\<lambda>_.
     op_bind (ignoring (appendEvent E jobID (status_event now StatusQueued))) (\<lambda>_.
     op_bind (start_run E p jobID) (\<lambda>_.
     op_return \<lparr>ac_JobID = jobID, ac_StatusURL = ''/v1/prepare-jobs/'' @ jobID, ac_EventsURL = ''/v1/prepare-jobs/'' @ jobID @ ''/events'',
       ac_Status = StatusQueued\<rparr>))))))))"

text \<open>The request of a stored job, with the base it was bound to.\<close>

definition prepareFromJob :: "prepareEnv \<Rightarrow> JobRecord \<Rightarrow> (prepareWorld, requestFailure, preparedRequest) operation" where
  "prepareFromJob E job =
     (case jr_RequestJSON job of
        None \<Rightarrow> op_fail (RequestError (ErrIO ''request_json is empty''))
      | Some (Garbled s) \<Rightarrow> op_fail (RequestError (ErrIO s))
      | Some (Encodes req) \<Rightarrow>
         op_bind (read_files E) (\<lambda>files.
         op_bind (failing_with request_failure (prepareRequest E files req)) (\<lambda>p.
           if pe_identity E = None then op_return p
           else op_map_error RequestError (bindManagedRequest E (with_image (jr_ResolvedImageID job) p) (Some job)))))"

text \<open>The message of an error, where the code prints it.\<close>

definition failure_details :: "requestFailure \<Rightarrow> errorDetails" where
  "failure_details f =
     (case f of RequestError e \<Rightarrow> ErrorOf e
      | RequestInvalid r \<Rightarrow> (case er_Details r of TextDetails d \<Rightarrow> TextDetails (er_Message r @ '': '' @ d) | _ \<Rightarrow> TextDetails (er_Message r))
      | RequestFailed r \<Rightarrow> TextDetails (er_Message r))"

definition recover_job :: "prepareEnv \<Rightarrow> JobRecord \<Rightarrow> unit pop" where
  "recover_job E job =
     op_try (prepareFromJob E job) (\<lambda>r. case r of
         Inl f \<Rightarrow> ignoring (failJob E (jr_JobID job) (errorResponse ''internal_error'' ''cannot restore job request'' (failure_details f)))
       | Inr p \<Rightarrow> start_run E p (jr_JobID job))"

fun recover_jobs :: "prepareEnv \<Rightarrow> JobRecord list \<Rightarrow> unit pop" where
  "recover_jobs E [] = op_return ()"
| "recover_jobs E (job # rest) = op_bind (recover_job E job) (\<lambda>_. recover_jobs E rest)"

definition Recover :: "prepareEnv \<Rightarrow> unit pop" where
  "Recover E =
     op_bind (ignoring (ensureCacheCapacity (pe_lockRounds E) (pe_root E) ''startup_recovery'' [])) (\<lambda>_.
     op_bind (ListJobsByStatus [StatusQueued, StatusRunning]) (recover_jobs E))"

subsection \<open>Reading and listing jobs\<close>

record JobStatus =
  js_JobID :: bytes
  js_Status :: bytes
  js_PrepareKind :: bytes
  js_ImageID :: bytes
  js_PlanOnly :: bool
  js_PrepareArgsNormalized :: bytes
  js_CreatedAt :: bytes
  js_StartedAt :: "bytes option"
  js_FinishedAt :: "bytes option"
  js_Tasks :: "PlanTask list"
  js_Result :: "PrepareResult option"
  js_Error :: "ErrorResponse option"

definition status_of :: "JobRecord \<Rightarrow> TaskRecord list \<Rightarrow> PrepareResult option \<Rightarrow> JobStatus" where
  "status_of job tasks result =
     \<lparr>js_JobID = jr_JobID job, js_Status = jr_Status job, js_PrepareKind = jr_PrepareKind job, js_ImageID = jr_ImageID job,
      js_PlanOnly = jr_PlanOnly job, js_PrepareArgsNormalized = valueOrEmpty (jr_PrepareArgsNormalized job), js_CreatedAt = jr_CreatedAt job,
      js_StartedAt = jr_StartedAt job, js_FinishedAt = jr_FinishedAt job, js_Tasks = planTasksFromRecords tasks, js_Result = result,
      js_Error = read_json (jr_ErrorJSON job)\<rparr>"

definition visible_result :: "prepareEnv \<Rightarrow> JobRecord \<Rightarrow> (prepareWorld, 'e, PrepareResult option) operation" where
  "visible_result E job =
     (case read_json (jr_ResultJSON job) of None \<Rightarrow> op_return None
      | Some result \<Rightarrow> op_try (read_result E result) (\<lambda>r. op_return (case r of Inl _ \<Rightarrow> None | Inr x \<Rightarrow> Some x)))"

text \<open>\<open>None\<close> is a job that is not there, or cannot be read.\<close>

definition Get :: "prepareEnv \<Rightarrow> bytes \<Rightarrow> (prepareWorld, 'e, JobStatus option) operation" where
  "Get E jobID =
     op_try (GetJob jobID) (\<lambda>r. case r of
         Inr (Some job) \<Rightarrow>
           op_try (queue_ListTasks jobID) (\<lambda>ts.
           op_bind (visible_result E job) (\<lambda>result.
           op_return (Some (status_of job (case ts of Inl _ \<Rightarrow> [] | Inr tasks \<Rightarrow> tasks) result))))
       | _ \<Rightarrow> op_return None)"

record JobEntry =
  je_JobID :: bytes
  je_Status :: bytes
  je_PrepareKind :: bytes
  je_ImageID :: bytes
  je_ResolvedImageID :: bytes
  je_PrepareArgsNormalized :: bytes
  je_Signature :: bytes
  je_PlanOnly :: bool
  je_CreatedAt :: bytes
  je_StartedAt :: "bytes option"
  je_FinishedAt :: "bytes option"

text \<open>The first image that is not blank counts.\<close>

definition resolved_images :: "TaskRecord list \<Rightarrow> bytes \<Rightarrow> bytes" where
  "resolved_images tasks jobID =
     (case find (\<lambda>t. tk_JobID t = jobID \<and> TrimSpace (valueOrEmpty (tk_ResolvedImageID t)) \<noteq> []) tasks of
        None \<Rightarrow> [] | Some t \<Rightarrow> TrimSpace (valueOrEmpty (tk_ResolvedImageID t)))"

definition job_entry :: "TaskRecord list \<Rightarrow> JobRecord \<Rightarrow> JobEntry" where
  "job_entry tasks job =
     \<lparr>je_JobID = jr_JobID job, je_Status = jr_Status job, je_PrepareKind = jr_PrepareKind job, je_ImageID = jr_ImageID job,
      je_ResolvedImageID = resolved_images tasks (jr_JobID job), je_PrepareArgsNormalized = valueOrEmpty (jr_PrepareArgsNormalized job),
      je_Signature = valueOrEmpty (jr_Signature job), je_PlanOnly = jr_PlanOnly job, je_CreatedAt = jr_CreatedAt job,
      je_StartedAt = jr_StartedAt job, je_FinishedAt = jr_FinishedAt job\<rparr>"

definition service_ListJobs :: "bytes \<Rightarrow> (prepareWorld, 'e, JobEntry list) operation" where
  "service_ListJobs jobID =
     op_try (ListJobs jobID) (\<lambda>r. case r of Inl _ \<Rightarrow> op_return []
       | Inr jobs \<Rightarrow> op_try (queue_ListTasks jobID) (\<lambda>ts.
           op_return (map (job_entry (case ts of Inl _ \<Rightarrow> [] | Inr tasks \<Rightarrow> tasks)) jobs)))"

definition job_request :: "JobRecord list \<Rightarrow> bytes \<Rightarrow> Request option" where
  "job_request jobs jobID = (case find (\<lambda>j. jr_JobID j = jobID) jobs of None \<Rightarrow> None | Some j \<Rightarrow> decodeJobRequest j)"

definition service_ListTasks :: "bytes \<Rightarrow> (prepareWorld, 'e, TaskEntry list) operation" where
  "service_ListTasks jobID =
     op_try (queue_ListTasks jobID) (\<lambda>r. case r of Inl _ \<Rightarrow> op_return []
       | Inr tasks \<Rightarrow>
          if tasks = [] then op_return []
          else op_try (ListJobs jobID) (\<lambda>js.
            op_return (map (\<lambda>t. taskEntryFromRecord t (job_request (case js of Inl _ \<Rightarrow> [] | Inr jobs \<Rightarrow> jobs) (tk_JobID t))) tasks)))"

subsection \<open>Deleting and cancelling jobs\<close>

definition BlockActiveTasks :: bytes where
  "BlockActiveTasks = ''active_tasks''"

definition job_node :: "bytes \<Rightarrow> bytes \<Rightarrow> DeleteNode" where
  "job_node jobID blocked = DeleteNode ''job'' jobID None blocked None None None []"

definition job_deletion :: "DeleteOptions \<Rightarrow> bytes \<Rightarrow> bytes \<Rightarrow> bytes \<Rightarrow> DeleteResult" where
  "job_deletion opts outcome jobID blocked = \<lparr>dr_DryRun = do_DryRun opts, dr_Outcome = outcome, dr_Root = job_node jobID blocked\<rparr>"

definition await_run :: "prepareEnv \<Rightarrow> bytes \<Rightarrow> (prepareWorld, 'e, unit) operation" where
  "await_run E jobID =
     op_bind (get_world (\<lambda>w. jobID \<in> set (pw_running w))) (\<lambda>running.
       if running then ignoring (pe_awaitRun E jobID) else op_return ())"

text \<open>An error stands for the answer that there is no such job.\<close>

definition service_Delete :: "prepareEnv \<Rightarrow> bytes \<Rightarrow> DeleteOptions \<Rightarrow> DeleteResult option pop" where
  "service_Delete E jobID opts =
     op_bind (GetJob jobID) (\<lambda>found.
       if found = None then op_return None
       else op_bind (queue_ListTasks jobID) (\<lambda>tasks.
         let blocked = hasRunningTasks tasks in
         if blocked \<and> \<not> do_Force opts then op_return (Some (job_deletion opts OutcomeBlocked jobID BlockActiveTasks))
         else if do_DryRun opts then op_return (Some (job_deletion opts OutcomeWouldDelete jobID []))
         else
           op_bind (if blocked then await_run E jobID else op_return ()) (\<lambda>_.
           op_bind (DeleteJob jobID) (\<lambda>_.
           op_bind (removeJobDir E jobID) (\<lambda>_.
           op_return (Some (job_deletion opts OutcomeDeleted jobID [])))))))"

text \<open>The status of the job, if it can be read, whether it was found and whether the cancellation was accepted.\<close>

definition Cancel :: "prepareEnv \<Rightarrow> bytes \<Rightarrow> (JobStatus option \<times> bool \<times> bool) pop" where
  "Cancel E jobID =
     op_bind (GetJob jobID) (\<lambda>found.
       case found of None \<Rightarrow> op_return (None, False, False)
       | Some job \<Rightarrow>
          if terminal (jr_Status job) then op_bind (Get E jobID) (\<lambda>status. op_return (status, True, False))
          else op_bind (get_world (\<lambda>w. jobID \<in> set (pw_running w))) (\<lambda>running.
            op_bind (if running then op_return () else failJob E jobID job_cancelled) (\<lambda>_.
            op_bind (Get E jobID) (\<lambda>status. op_return (status, True, True)))))"

subsection \<open>Events\<close>

fun read_events :: "prepareEnv \<Rightarrow> EventRecord list \<Rightarrow> Event list pop" where
  "read_events E [] = op_return []"
| "read_events E (e # rest) =
     op_bind (case vn_Result (eventFromRecord e) of None \<Rightarrow> op_return (eventFromRecord e)
       | Some result \<Rightarrow> op_bind (read_result E result) (\<lambda>r. op_return ((eventFromRecord e)\<lparr>vn_Result := Some r\<rparr>))) (\<lambda>event.
     op_bind (read_events E rest) (\<lambda>events. op_return (event # events)))"

text \<open>The events from an index on, and whether the job has ended; \<open>None\<close> is an unknown job.\<close>

definition EventsSince :: "prepareEnv \<Rightarrow> bytes \<Rightarrow> int \<Rightarrow> (Event list \<times> bool) option pop" where
  "EventsSince E jobID index =
     op_bind (GetJob jobID) (\<lambda>found.
       case found of None \<Rightarrow> op_return None
       | Some job \<Rightarrow>
          op_bind (ListEventsSince jobID index) (\<lambda>records.
          op_bind (read_events E records) (\<lambda>events. op_return (Some (events, terminal (jr_Status job))))))"

text \<open>One round of \<^verbatim>\<open>WaitForEvent\<close>: \<open>False\<close> waits for the next notification.\<close>

definition wait_round :: "bytes \<Rightarrow> int \<Rightarrow> bool pop" where
  "wait_round jobID index =
     op_bind (CountEvents jobID) (\<lambda>n.
       if index < int n then op_return True
       else op_bind (GetJob jobID) (\<lambda>found.
         case found of None \<Rightarrow> op_fail (ErrIO ''job not found'')
         | Some job \<Rightarrow> op_return (terminal (jr_Status job))))"

subsection \<open>Explaining the cache (cache_explain.go)\<close>

record CacheExplainPrepareResult =
  cx_Decision :: bytes
  cx_ReasonCode :: bytes
  cx_Signature :: bytes
  cx_MatchedStateID :: bytes
  cx_ResolvedImageID :: bytes

text \<open>
  A Liquibase recipe is planned by a service of its own, with a directory that is removed afterwards and without
  recording events.
\<close>

definition explain_plan :: "prepareEnv \<Rightarrow> preparedRequest \<Rightarrow> (PlanTask list \<times> bytes) rop" where
  "explain_plan E p =
     (if is_lb p then buildPlan (E\<lparr>pe_planLiquibase := (\<lambda>_. pe_explainLiquibase E)\<rparr>) ''cache-explain'' p else buildPlan E [] p)"

definition explain_signature :: "prepareEnv \<Rightarrow> fileTable \<Rightarrow> preparedRequest \<Rightarrow> PlanTask list \<Rightarrow> ErrorResponse + bytes" where
  "explain_signature E files p tasks = (if is_lb p then computeJobSignatureFromPlan E p tasks else computeJobSignature E files p)"

definition explain_result :: "preparedRequest \<Rightarrow> bytes \<Rightarrow> bytes \<Rightarrow> bool \<Rightarrow> CacheExplainPrepareResult" where
  "explain_result p signature stateID cached =
     \<lparr>cx_Decision = (if cached then ''hit'' else ''miss''), cx_ReasonCode = (if cached then ''exact_state_match'' else ''no_matching_state''),
      cx_Signature = signature, cx_MatchedStateID = (if cached then stateID else []), cx_ResolvedImageID = effectiveImageID p\<rparr>"

definition CacheExplain :: "prepareEnv \<Rightarrow> Request \<Rightarrow> (prepareWorld, requestFailure, CacheExplainPrepareResult) operation" where
  "CacheExplain E req =
     op_bind (read_files E) (\<lambda>files.
     op_bind (failing_with request_failure (prepareRequest E files req)) (\<lambda>checked.
     op_bind (op_map_error errorFromExplainResponse (ensureResolvedImageID E [] checked [])) (\<lambda>imaged.
     op_bind (if pe_identity E = None then op_return imaged else op_map_error RequestError (bindManagedRequest E imaged None)) (\<lambda>p.
     op_bind (op_map_error errorFromExplainResponse (explain_plan E p)) (\<lambda>(tasks, stateID).
     op_bind (failing_with errorFromExplainResponse (explain_signature E files p tasks)) (\<lambda>signature.
     op_bind (op_map_error RequestError (isManagedStateCached E stateID p)) (\<lambda>cached.
     op_return (explain_result p signature stateID cached))))))))"

end
