(* ===== verification/Prepare_Plan_Props.thy ===== *)
theory Prepare_Plan_Props
  imports Prepare_Plan Managed_Service_Props
begin

text \<open>
  The id of the state a psql plan leads to says what the plan starts from and what it executes, step by step.
\<close>

subsection \<open>Hashes are names\<close>

lemma hex_digit_not_space: "n < 16 \<Longrightarrow> \<not> is_space (hex_digit n)"
  by (rule hex_digit_all [of "\<lambda>n. \<not> is_space (hex_digit n)"]) (simp_all add: upt_16 hex_digit_def is_space_def in_range_def)

lemma hex_nibbles: "(of_char (b :: byte) :: nat) div 16 < 16" "(of_char (b :: byte) :: nat) mod 16 < 16"
  using of_char_less_256 [of b] by (simp_all add: div_less_iff_less_mult del: of_char_less_256)

lemma hex_not_blank: "bs \<noteq> [] \<Longrightarrow> TrimSpace (hex_EncodeToString bs) \<noteq> []"
  using hex_digit_not_space [OF hex_nibbles(1)] by (cases bs) (auto simp: TrimSpace_Nil_iff)

lemma hash_sum_not_blank [simp]: "TrimSpace (hash_sum fs) \<noteq> []" "hash_sum fs \<noteq> []"
proof -
  have "Sum256 (hash_input fs) \<noteq> []" by (metis length_Sum256 list.size(3) zero_neq_numeral)
  then show "TrimSpace (hash_sum fs) \<noteq> []" by (simp add: hash_sum_def hex_not_blank)
  then show "hash_sum fs \<noteq> []" by (auto simp: TrimSpace_def)
qed

lemma computeOutputStateID_Inr [simp]: "computeOutputStateID kind i h = Inr (hash_sum (output_state_fields kind i h))"
  by (simp add: computeOutputStateID_def Let_def)

subsection \<open>The chain of states\<close>

text \<open>The contents come last first; a pair is the kind and id of the input of the next step.\<close>

fun chain_input :: "bytes \<Rightarrow> bytes \<Rightarrow> bytes \<times> bytes \<Rightarrow> bytes list \<Rightarrow> bytes \<times> bytes" where
  "chain_input kind version base [] = base"
| "chain_input kind version base (c # earlier) =
     (''state'', hash_sum (output_state_fields (fst (chain_input kind version base earlier)) (snd (chain_input kind version base earlier))
       (psqlTaskHash kind (sha256Hex c) version)))"

fun chain_hashed :: "bytes \<Rightarrow> bytes \<Rightarrow> bytes \<times> bytes \<Rightarrow> bytes list \<Rightarrow> bytes list" where
  "chain_hashed kind version base [] = []"
| "chain_hashed kind version base (c # earlier) =
     [c, hash_input (psql_hash_fields kind (sha256Hex c) version),
      hash_input (output_state_fields (fst (chain_input kind version base earlier)) (snd (chain_input kind version base earlier))
        (psqlTaskHash kind (sha256Hex c) version))]
     @ chain_hashed kind version base earlier"

definition collide_in :: "bytes list \<Rightarrow> bytes list \<Rightarrow> bool" where
  "collide_in xs ys \<longleftrightarrow> (\<exists>x \<in> set xs. \<exists>y \<in> set ys. sha256_collision x y)"

lemma collide_inI: "sha256_collision x y \<Longrightarrow> x \<in> set xs \<Longrightarrow> y \<in> set ys \<Longrightarrow> collide_in xs ys"
  by (auto simp: collide_in_def)

lemma collide_in_mono: "collide_in xs ys \<Longrightarrow> set xs \<subseteq> set xs' \<Longrightarrow> set ys \<subseteq> set ys' \<Longrightarrow> collide_in xs' ys'"
  unfolding collide_in_def by blast

lemma task_hash_inject:
  "psqlTaskHash kind (sha256Hex c) version = psqlTaskHash kind' (sha256Hex c') version' \<Longrightarrow>
   kind = kind' \<and> version = version' \<and> c = c'
     \<or> sha256_collision (hash_input (psql_hash_fields kind (sha256Hex c) version)) (hash_input (psql_hash_fields kind' (sha256Hex c') version'))
     \<or> sha256_collision c c'"
  using hash_sum_inject [of "psql_hash_fields kind (sha256Hex c) version" "psql_hash_fields kind' (sha256Hex c') version'"] Sum256_eqD [of c c']
  by (auto simp: psqlTaskHash_def psql_hash_fields_def hash_key_def sha256Hex_def)

lemma state_hash_inject:
  "hash_sum (output_state_fields k i h) = hash_sum (output_state_fields k' i' h') \<Longrightarrow>
   k = k' \<and> i = i' \<and> h = h' \<or> sha256_collision (hash_input (output_state_fields k i h)) (hash_input (output_state_fields k' i' h'))"
  using hash_sum_inject [of "output_state_fields k i h" "output_state_fields k' i' h'"]
  by (auto simp: output_state_fields_def hash_key_def)

lemma chain_input_inject:
  assumes "chain_input kind version base cs = chain_input kind' version' base' cs'" and "fst base \<noteq> ''state''" and "fst base' \<noteq> ''state''"
  shows "base = base' \<and> cs = cs' \<and> (cs \<noteq> [] \<longrightarrow> kind = kind' \<and> version = version')
    \<or> collide_in (chain_hashed kind version base cs) (chain_hashed kind' version' base' cs')"
  using assms(1)
proof (induction cs arbitrary: cs')
  case Nil
  then show ?case using assms(2,3) by (cases cs') auto
next
  case (Cons c cs)
  show ?case
  proof (cases cs')
    case Nil
    then show ?thesis using Cons.prems assms(2,3) by auto
  next
    case (Cons d ds)
    let ?in = "chain_input kind version base cs" and ?in' = "chain_input kind' version' base' ds"
    let ?H = "chain_hashed kind version base (c # cs)" and ?H' = "chain_hashed kind' version' base' (d # ds)"
    show ?thesis
    proof (rule disjCI)
      assume no: "\<not> collide_in (chain_hashed kind version base (c # cs)) (chain_hashed kind' version' base' cs')"
      have free: "\<not> sha256_collision x y" if "x \<in> set ?H" "y \<in> set ?H'" for x y
        using no that unfolding Cons collide_in_def by blast
      let ?h = "psqlTaskHash kind (sha256Hex c) version" and ?h' = "psqlTaskHash kind' (sha256Hex d) version'"
      have "hash_sum (output_state_fields (fst ?in) (snd ?in) ?h) = hash_sum (output_state_fields (fst ?in') (snd ?in') ?h')"
        using "Cons.prems" unfolding Cons by simp
      moreover have "\<not> sha256_collision (hash_input (output_state_fields (fst ?in) (snd ?in) ?h)) (hash_input (output_state_fields (fst ?in') (snd ?in') ?h'))"
        by (rule free) simp_all
      ultimately have state: "?in = ?in' \<and> ?h = ?h'" using state_hash_inject by (blast intro: prod_eqI)
      then have step: "kind = kind' \<and> version = version' \<and> c = d"
        using task_hash_inject [of kind c version kind' d version'] free by simp
      have "\<not> collide_in (chain_hashed kind version base cs) (chain_hashed kind' version' base' ds)"
        using no collide_in_mono unfolding Cons by (metis chain_hashed.simps(2) set_append Un_upper2)
      then show "base = base' \<and> c # cs = cs' \<and> (c # cs \<noteq> [] \<longrightarrow> kind = kind' \<and> version = version')"
        using "Cons.IH" [of ds] state step Cons by auto
    qed
  qed
qed

subsection \<open>A plan follows the chain\<close>

definition step_text :: "fileTable \<Rightarrow> bytes \<Rightarrow> psqlStep \<Rightarrow> bytes" where
  "step_text files workDir s = (case content_text files (st_inputs s) workDir of Some (Inr (c, _)) \<Rightarrow> c | _ \<Rightarrow> [])"

lemma content_digest_hash: "content_digest files (st_inputs s) workDir = Inr d \<Longrightarrow> cd_hash d = sha256Hex (step_text files workDir s)"
  by (auto simp: content_digest_def computePsqlContentDigest_def step_text_def sha256Hex_def res_map_Inr_iff split: option.splits prod.splits)

lemma check_cached_same: "sv.keeps (check_cached E stateID p)"
proof -
  have seal: "ro.keeps (CheckSeal s b)" for s b
    unfolding CheckSeal_def op_access_def accessError_def by (auto simp: ro.within_asks)
  have "sv.keeps (isStateCached s)" for s by (auto simp: isStateCached_def)
  moreover have "sv.keeps (loadManagedState E s p)" for s
    unfolding loadManagedState_def identity_invalid_def Let_def
    by (auto intro!: sv.within_on_engine seal)
  ultimately show ?thesis unfolding check_cached_def isManagedStateCached_def by (auto split: option.split)
qed

lemma service_disk: "same_service w w' \<Longrightarrow> pw_disk w' = pw_disk w"
  by (auto simp: same_service_def)

lemma op_of_Inr: "op_of r w = (Inr x, w') \<longleftrightarrow> r = Inr x \<and> w' = w"
  by (auto simp: op_of_def)

lemma step_hash_run:
  assumes "step_hash E p s w = (Inr h, w')"
  shows "w' = w" and "h = psqlTaskHash (rq_PrepareKind (pr_request p)) (sha256Hex (step_text (pe_files E (pw_disk w)) (pr_psqlWorkDir p) s)) (pe_version E)"
proof -
  obtain d where "content_digest (pe_files E (pw_disk w)) (st_inputs s) (pr_psqlWorkDir p) = Inr d" "w' = w"
    and h: "h = psqlTaskHash (rq_PrepareKind (pr_request p)) (cd_hash d) (pe_version E)"
    using assms by (auto simp: step_hash_def read_files_def get_world_def op_bind_Inr or_respond_def op_map_error_Inr op_of_Inr op_return_def)
  then show "w' = w" and "h = psqlTaskHash (rq_PrepareKind (pr_request p)) (sha256Hex (step_text (pe_files E (pw_disk w)) (pr_psqlWorkDir p) s)) (pe_version E)"
    by (simp_all add: content_digest_hash)
qed

lemma plan_steps_run:
  assumes "plan_steps E p i input tasks sid steps w = (Inr (tasks', sid'), w')" and "snd input = sid \<or> steps \<noteq> []"
  shows "sid' = snd (chain_input (rq_PrepareKind (pr_request p)) (pe_version E) input (rev (map (step_text (pe_files E (pw_disk w)) (pr_psqlWorkDir p)) steps)))"
    and "steps \<noteq> [] \<Longrightarrow> fst (chain_input (rq_PrepareKind (pr_request p)) (pe_version E) input
        (rev (map (step_text (pe_files E (pw_disk w)) (pr_psqlWorkDir p)) steps))) = ''state''"
proof -
  let ?kind = "rq_PrepareKind (pr_request p)" and ?v = "pe_version E"
  have join: "chain_input ?kind ?v input (cs @ [c]) = chain_input ?kind ?v (chain_input ?kind ?v input [c]) cs" for input c cs
    by (induction cs) simp_all
  show "sid' = snd (chain_input ?kind ?v input (rev (map (step_text (pe_files E (pw_disk w)) (pr_psqlWorkDir p)) steps)))"
    using assms
  proof (induction steps arbitrary: i input tasks sid w)
    case Nil
    then show ?case by (auto simp: op_return_def)
  next
    case (Cons s rest)
    obtain h w1 cached w2 where h: "step_hash E p s w = (Inr h, w1)"
      and cached: "check_cached E (hash_sum (output_state_fields (fst input) (snd input) h)) p w1 = (Inr cached, w2)"
      and run: "plan_steps E p (Suc i) (''state'', hash_sum (output_state_fields (fst input) (snd input) h))
        (tasks @ [execute_task i input h (hash_sum (output_state_fields (fst input) (snd input) h)) cached])
        (hash_sum (output_state_fields (fst input) (snd input) h)) rest w2 = (Inr (tasks', sid'), w')"
      using Cons.prems(1) by (auto simp: op_bind_Inr op_of_Inr)
    note w1 = step_hash_run [OF h]
    have "pw_disk w2 = pw_disk w" using sv.withinD [OF check_cached_same cached] service_disk w1(1) by simp
    then show ?case using Cons.IH [OF run] w1(2) by (simp add: join)
  qed
  show "fst (chain_input ?kind ?v input (rev (map (step_text (pe_files E (pw_disk w)) (pr_psqlWorkDir p)) steps))) = ''state''" if "steps \<noteq> []"
    using that by (cases "rev (map (step_text (pe_files E (pw_disk w)) (pr_psqlWorkDir p)) steps)") auto
qed

text \<open>What a plan starts from and executes, in order.\<close>

definition plan_contents :: "prepareEnv \<Rightarrow> preparedRequest \<Rightarrow> prepareWorld \<Rightarrow> bytes list" where
  "plan_contents E p w = map (step_text (pe_files E (pw_disk w)) (pr_psqlWorkDir p)) (default_steps p)"

definition plan_hashed :: "prepareEnv \<Rightarrow> preparedRequest \<Rightarrow> prepareWorld \<Rightarrow> bytes list" where
  "plan_hashed E p w = chain_hashed (rq_PrepareKind (pr_request p)) (pe_version E) (plan_base p) (rev (plan_contents E p w))"

lemma buildPlanPsql_chain:
  assumes "buildPlanPsql E p w = (Inr (tasks, sid), w')"
  shows "(''state'', sid) = chain_input (rq_PrepareKind (pr_request p)) (pe_version E) (plan_base p) (rev (plan_contents E p w))"
proof -
  obtain ts w1 where run: "plan_steps E p 0 (plan_base p) [] [] (default_steps p) w = (Inr (ts, sid), w1)"
    using assms by (auto simp: buildPlanPsql_def finish_plan_def op_bind_Inr op_fail_def op_return_def split: if_splits)
  have "default_steps p \<noteq> []" by (simp add: default_steps_def)
  then show ?thesis using plan_steps_run [OF run] unfolding plan_contents_def by (simp add: prod_eq_iff)
qed

text \<open>
  C38: Two psql plans that lead to the same state start from the same base, are of the same kind, for the same version of
  the engine, and execute the same contents in the same order, up to an explicit SHA-256 collision between two
  texts hashed for them.
\<close>

theorem state_id_determines_plan:
  assumes "buildPlanPsql E p w = (Inr (tasks, sid), w1)" and "buildPlanPsql E' p' v = (Inr (tasks', sid), v1)"
  shows "plan_base p = plan_base p' \<and> rq_PrepareKind (pr_request p) = rq_PrepareKind (pr_request p') \<and> pe_version E = pe_version E'
      \<and> plan_contents E p w = plan_contents E' p' v
    \<or> collide_in (plan_hashed E p w) (plan_hashed E' p' v)"
proof -
  have nonempty: "rev (plan_contents E p w) \<noteq> []" by (simp add: plan_contents_def default_steps_def)
  have "chain_input (rq_PrepareKind (pr_request p)) (pe_version E) (plan_base p) (rev (plan_contents E p w))
      = chain_input (rq_PrepareKind (pr_request p')) (pe_version E') (plan_base p') (rev (plan_contents E' p' v))"
    using buildPlanPsql_chain [OF assms(1)] buildPlanPsql_chain [OF assms(2)] by simp
  from chain_input_inject [OF this] nonempty show ?thesis
    by (auto simp: plan_base_def plan_hashed_def)
qed

text \<open>
  The hash of a step leaves out its arguments: with other values for its variables, which \<^verbatim>\<open>psql\<close> puts into
  the contents, a step has the same state id and is taken from the cache.
\<close>

lemma variables_not_hashed: "step_hash E p (s\<lparr>st_args := args, st_stdin := stdin\<rparr>) = step_hash E p s"
  by (simp add: step_hash_def)

subsection \<open>A small preparation\<close>

definition ex_engine_world :: world where
  "ex_engine_world = \<lparr>w_db = \<lparr>db_states = [], db_instances = [], db_names = []\<rparr>, w_domain = [], w_lineages = [], w_access = [],
     w_bootstrap = [], w_secrets = [], w_operations = [], w_seals = [], w_bases = [], w_conns = (\<lambda>_. 0), w_removed = [], w_stopped = [],
     w_entropy = (\<lambda>_. CHR ''x''), w_drawn = 0, w_now = 0, w_fault = (\<lambda>_. None), w_calls = 0\<rparr>"

definition ex_prepare_world :: "JobRecord list \<Rightarrow> prepareWorld" where
  "ex_prepare_world jobs =
     \<lparr>pw_engine = ex_engine_world, pw_queue = \<lparr>q_jobs = jobs, q_tasks = [], q_events = [], q_seq = 0\<rparr>, pw_managed = False,
      pw_disk = NDir [], pw_statfs = (\<lambda>_. (100, 50, 1)), pw_evictLock = NoLock, pw_config = None, pw_lastEviction = None, pw_now = 0,
      pw_tick = (\<lambda>_. 1), pw_ticks = 0, pw_running = []\<rparr>"

definition ex_result :: PrepareResult where
  "ex_result = \<lparr>rs_DSN = ''dsn'', rs_InstanceID = ''i'', rs_StateID = ''s'', rs_ImageID = ''img@d'', rs_PrepareKind = ''psql'',
     rs_PrepareArgsNormalized = []\<rparr>"

definition ex_env :: prepareEnv where
  "ex_env = \<lparr>pe_identity = Some ex_owner, pe_access = None, pe_version = ''1'', pe_root = ''/store'', pe_getwd = Some ''/w'',
     pe_files = (\<lambda>_. [(''/w/a.sql'', Inr ''x'')]), pe_liquibaseInContainer = False, pe_resolveImage = (\<lambda>ref w. ([], Inr (ref @ ''@d''))),
     pe_planLiquibase = (\<lambda>_ _. op_return []), pe_validateStore = (\<lambda>_. op_return ()),
     pe_executeStateTask = (\<lambda>_ _ t. op_return (pt_OutputStateID (tt_task t))), pe_createInstance = (\<lambda>_ _ _. op_return ex_result),
     pe_cleanupRuntime = (\<lambda>_. op_return ()), pe_inspectManaged = None, pe_explainLiquibase = (\<lambda>_. op_return []),
     pe_awaitRun = (\<lambda>_. op_return ()), pe_cancelled = (\<lambda>_ _. False), pe_async = False, pe_lockRounds = 1\<rparr>"

definition ex_request :: Request where
  "ex_request = \<lparr>rq_PrepareKind = ''psql'', rq_ImageID = ''img@d'', rq_PsqlArgs = [''-c'', ''x''], rq_LiquibaseArgs = [], rq_LiquibaseExec = [],
     rq_LiquibaseExecMode = [], rq_LiquibaseEnv = [], rq_WorkDir = [], rq_Stdin = None, rq_PlanOnly = False\<rparr>"

definition ex_selection :: BaseSelection where
  "ex_selection = \<lparr>bsel_IdentityBinding = ex_binding (CHR ''x''), bsel_Key = ''base''\<rparr>"

definition ex_prepared :: "psqlInput \<Rightarrow> preparedRequest" where
  "ex_prepared i = \<lparr>pr_managed = ex_selection, pr_request = ex_request, pr_normalizedArgs = [], pr_argsNormalized = [], pr_filePaths = [],
     pr_liquibaseMounts = [], pr_resolvedImageID = ''img@d'', pr_psqlInputs = [i],
     pr_psqlSteps = [\<lparr>st_args = [], st_inputs = [i], st_stdin = None\<rparr>], pr_psqlWorkDir = ''/w'', pr_liquibaseLockPaths = [],
     pr_liquibaseSearchPaths = [], pr_liquibaseWorkDir = []\<rparr>"

lemma ex_texts:
  "content_text [(''/w/a.sql'', Inr ''x'')] [CommandInput ''x''] ''/w'' = Some (Inr (''x'' @ [CHR 0x0A], []))"
  "content_text [(''/w/a.sql'', Inr ''x'')] [FileInput ''/w/a.sql''] ''/w'' = Some (Inr (''x'' @ [CHR 0x0A], [''/w/a.sql'']))"
  by code_simp+

definition ex_state_id :: bytes where
  "ex_state_id = hash_sum (output_state_fields ''image'' ''base'' (psqlTaskHash ''psql'' (sha256Hex (''x'' @ [CHR 0x0A])) ''1''))"

lemma ex_not_cached: "check_cached ex_env ex_state_id (ex_prepared i) (ex_prepare_world jobs)
    = (Inr False, (ex_prepare_world jobs)\<lparr>pw_engine := ex_engine_world\<lparr>w_calls := 1\<rparr>\<rparr>)"
proof -
  have "IdentityBinding_Validate (bsel_IdentityBinding (pr_managed (ex_prepared i)))" by (simp add: ex_prepared_def ex_selection_def ex_binding_valid)
  then show ?thesis
    by (simp add: check_cached_def isManagedStateCached_def loadManagedState_def Let_def ex_env_def or_respond_def op_simps p_read_def
        on_engine_def db_read_def asks_def outgoing_def ex_prepare_world_def ex_engine_world_def GetState_def)
qed

lemma ex_plan:
  assumes "i = CommandInput ''x'' \<or> i = FileInput ''/w/a.sql''"
  shows "buildPlanPsql ex_env (ex_prepared i) (ex_prepare_world jobs)
    = (Inr (first_tasks (ex_prepared i) @ [execute_task 0 (''image'', ''base'') (psqlTaskHash ''psql'' (sha256Hex (''x'' @ [CHR 0x0A])) ''1'') ex_state_id False]
        @ [instance_task ex_state_id], ex_state_id),
       (ex_prepare_world jobs)\<lparr>pw_engine := ex_engine_world\<lparr>w_calls := 1\<rparr>\<rparr>)"
proof -
  let ?p = "ex_prepared i" and ?w = "ex_prepare_world jobs"
  obtain locked where expands: "content_text [(''/w/a.sql'', Inr ''x'')] [i] ''/w'' = Some (Inr (''x'' @ [CHR 0x0A], locked))"
    using assms ex_texts by blast
  have basics: "pr_psqlSteps ?p = [\<lparr>st_args = [], st_inputs = [i], st_stdin = None\<rparr>]" "pr_psqlWorkDir ?p = ''/w''"
      "rq_PrepareKind (pr_request ?p) = ''psql''" "effectiveImageID ?p = ''img@d''" "plan_base ?p = (''image'', ''base'')"
      "pe_files ex_env d = [(''/w/a.sql'', Inr ''x'')]" "pe_version ex_env = ''1''" "TrimSpace ''img@d'' \<noteq> []" for d
    by (simp_all add: ex_prepared_def ex_request_def effectiveImageID_def plan_base_def ex_selection_def ex_env_def TrimSpace_Nil_iff
        is_space_def in_range_def)
  have hash: "step_hash ex_env ?p \<lparr>st_args = [], st_inputs = [i], st_stdin = None\<rparr> ?w
      = (Inr (psqlTaskHash ''psql'' (sha256Hex (''x'' @ [CHR 0x0A])) ''1''), ?w)"
    by (simp add: step_hash_def read_files_def get_world_def or_respond_def op_simps op_of_def content_digest_def computePsqlContentDigest_def
        expands basics res_map_def sha256Hex_def)
  show ?thesis
    using ex_not_cached [of i jobs] unfolding ex_state_id_def
    by (simp add: buildPlanPsql_def default_steps_def basics op_bind_def hash op_of_def op_return_def finish_plan_def)
qed

theorem state_id_determines_plan_witness:
  "plan_contents ex_env (ex_prepared (CommandInput ''x'')) (ex_prepare_world []) = plan_contents ex_env (ex_prepared (FileInput ''/w/a.sql'')) (ex_prepare_world [])
    \<or> collide_in (plan_hashed ex_env (ex_prepared (CommandInput ''x'')) (ex_prepare_world []))
        (plan_hashed ex_env (ex_prepared (FileInput ''/w/a.sql'')) (ex_prepare_world []))"
  using state_id_determines_plan [OF ex_plan [of "CommandInput ''x''" "[]"] ex_plan [of "FileInput ''/w/a.sql''" "[]"]] by blast

end
