(* ===== verification/Prepare_Tasks_Props.thy ===== *)
theory Prepare_Tasks_Props
  imports Prepare_Tasks Prepare_Plan_Props
begin

text \<open>A plan the engine has stored is the plan it finds again, and none of the checks before taking it up refuses it.\<close>

subsection \<open>Storage\<close>

definition kept_text :: "bytes \<Rightarrow> bool" where
  "kept_text v \<longleftrightarrow> v = [] \<or> TrimSpace v \<noteq> []"

lemma nullable_kept: "kept_text v \<Longrightarrow> valueOrEmpty (nullableString v) = v"
  by (auto simp: kept_text_def nullableString_def valueOrEmpty_def TrimSpace_def)

definition storable :: "PlanTask \<Rightarrow> bool" where
  "storable t \<longleftrightarrow> list_all kept_text [pt_PlannerKind t, pt_ImageID t, pt_ResolvedImageID t, pt_TaskHash t, pt_OutputStateID t,
       pt_InstanceMode t, pt_ChangesetID t, pt_ChangesetAuthor t, pt_ChangesetPath t]
     \<and> (case pt_Input t of None \<Rightarrow> True | Some i \<Rightarrow> TrimSpace (ti_Kind i) \<noteq> [] \<and> TrimSpace (ti_ID i) \<noteq> [])"

lemma record_roundtrip:
  assumes "storable t"
  shows "planTaskFromRecord (task_record jobID i t) = t"
proof -
  have "record_input (task_record jobID i t) = pt_Input t"
    using assms by (auto simp: record_input_def task_record_def storable_def taskInputKind_def taskInputID_def nullableString_def TrimSpace_def
        split: option.splits)
  then show ?thesis using assms
    by (intro PlanTask.equality) (simp_all add: planTaskFromRecord_def task_record_def storable_def nullable_kept)
qed

lemma records_roundtrip: "list_all storable tasks \<Longrightarrow> planTasksFromRecords (taskRecordsFromPlan jobID tasks) = tasks"
proof -
  have "map planTaskFromRecord (map (\<lambda>(i, t). task_record jobID i t) (enumerate n tasks)) = tasks" if "list_all storable tasks" for n
    using that by (induction tasks arbitrary: n) (simp_all add: record_roundtrip)
  then show "list_all storable tasks \<Longrightarrow> ?thesis" by (simp add: planTasksFromRecords_def taskRecordsFromPlan_def)
qed

subsection \<open>The shape of a plan\<close>

fun chained :: "nat \<Rightarrow> bytes \<times> bytes \<Rightarrow> PlanTask list \<Rightarrow> bool" where
  "chained i input [] \<longleftrightarrow> True"
| "chained i input (t # ts) \<longleftrightarrow>
     TrimSpace (pt_TaskHash t) \<noteq> []
     \<and> t = execute_task i input (pt_TaskHash t) (hash_sum (output_state_fields (fst input) (snd input) (pt_TaskHash t))) (pt_Cached t = Some True)
     \<and> chained (Suc i) (''state'', pt_OutputStateID t) ts"

lemma execute_task_parts [simp]:
  "pt_TaskHash (execute_task i input h out c) = h" "pt_OutputStateID (execute_task i input h out c) = out"
  "pt_Cached (execute_task i input h out c) = Some c" "pt_Type (execute_task i input h out c) = ''state_execute''"
  "pt_TaskID (execute_task i input h out c) = ''execute-'' @ itoa i"
  "pt_Input (execute_task i input h out c) = Some \<lparr>ti_Kind = fst input, ti_ID = snd input\<rparr>"
  "pt_PlannerKind (execute_task i input h out c) = []" "pt_ImageID (execute_task i input h out c) = []"
  "pt_ResolvedImageID (execute_task i input h out c) = []" "pt_InstanceMode (execute_task i input h out c) = []"
  "pt_ChangesetID (execute_task i input h out c) = []" "pt_ChangesetAuthor (execute_task i input h out c) = []"
  "pt_ChangesetPath (execute_task i input h out c) = []"
  by (simp_all add: execute_task_def plain_task_def)

lemma plan_steps_chained:
  "plan_steps E p i input tasks sid steps w = (Inr (tasks', sid'), w') \<Longrightarrow>
   \<exists>ts. tasks' = tasks @ ts \<and> chained i input ts \<and> length ts = length steps"
proof (induction steps arbitrary: i input tasks sid w)
  case Nil
  then show ?case by (auto simp: op_return_def)
next
  case (Cons s rest)
  obtain h w1 cached w2 where h: "step_hash E p s w = (Inr h, w1)"
    and run: "plan_steps E p (Suc i) (''state'', hash_sum (output_state_fields (fst input) (snd input) h))
      (tasks @ [execute_task i input h (hash_sum (output_state_fields (fst input) (snd input) h)) cached])
      (hash_sum (output_state_fields (fst input) (snd input) h)) rest w2 = (Inr (tasks', sid'), w')"
    using Cons.prems by (auto simp: op_bind_Inr op_of_Inr)
  obtain ts where ts: "tasks' = (tasks @ [execute_task i input h (hash_sum (output_state_fields (fst input) (snd input) h)) cached]) @ ts"
      "chained (Suc i) (''state'', hash_sum (output_state_fields (fst input) (snd input) h)) ts" "length ts = length rest"
    using Cons.IH [OF run] by blast
  have "TrimSpace h \<noteq> []" using step_hash_run(2) [OF h] by (simp add: psqlTaskHash_def)
  then show ?case using ts by (intro exI [of _ "execute_task i input h (hash_sum (output_state_fields (fst input) (snd input) h)) cached # ts"]) simp
qed

lemma buildPlanPsql_shape:
  assumes "buildPlanPsql E p w = (Inr (tasks, sid), w')"
  obtains ts where "tasks = first_tasks p @ ts @ [instance_task sid]" "chained 0 (plan_base p) ts" "length ts = length (default_steps p)"
    "TrimSpace sid \<noteq> []" "TrimSpace (effectiveImageID p) \<noteq> []"
proof -
  obtain ts w1 where run: "plan_steps E p 0 (plan_base p) [] [] (default_steps p) w = (Inr (ts, sid), w1)"
    and tasks: "tasks = first_tasks p @ ts @ [instance_task sid]" "TrimSpace sid \<noteq> []" "TrimSpace (effectiveImageID p) \<noteq> []"
    using assms by (auto simp: buildPlanPsql_def finish_plan_def op_bind_Inr op_fail_def op_return_def split: if_splits)
  then show ?thesis using plan_steps_chained [OF run] that by auto
qed

subsection \<open>The checks\<close>

lemma chained_storable: "chained i input ts \<Longrightarrow> TrimSpace (fst input) \<noteq> [] \<Longrightarrow> TrimSpace (snd input) \<noteq> [] \<Longrightarrow> list_all storable ts"
proof (induction ts arbitrary: i input)
  case (Cons t ts)
  obtain h c where t: "t = execute_task i input h (hash_sum (output_state_fields (fst input) (snd input) h)) c" "TrimSpace h \<noteq> []"
    using Cons.prems(1) unfolding chained.simps by blast
  have "list_all storable ts"
    by (rule Cons.IH [of "Suc i" "(''state'', pt_OutputStateID t)"]) (use Cons.prems(1) t in \<open>simp_all add: TrimSpace_Nil_iff is_space_def in_range_def\<close>,
      simp add: TrimSpace_Nil_iff [symmetric])
  moreover have "storable t" using t Cons.prems(2,3) by (simp add: storable_def kept_text_def)
  ultimately show ?case by simp
qed simp

lemma validate_records:
  assumes "chained i input ts" and "TrimSpace (fst input) \<noteq> []" and "TrimSpace (snd input) \<noteq> []" and "n + length ts > 0"
    and "list_all (\<lambda>t. pt_Type t \<noteq> ''state_execute'' \<and> pt_Type t \<noteq> ''resolve_image'') others"
  shows "validate_chain r (fst input) (snd input) n (map (\<lambda>(i, t). task_record jobID i t) (enumerate k (ts @ others)))"
  using assms
proof (induction ts arbitrary: i input n k)
  case Nil
  have "validate_chain r (fst input) (snd input) n (map (\<lambda>(i, t). task_record jobID i t) (enumerate k others))" if "0 < n" for k
    using Nil.prems(5) that by (induction others arbitrary: k) (simp_all add: task_record_def)
  then show ?case using Nil.prems(4) by simp
next
  case (Cons t ts)
  obtain h c where t: "t = execute_task i input h (hash_sum (output_state_fields (fst input) (snd input) h)) c" "TrimSpace h \<noteq> []"
    using Cons.prems(1) unfolding chained.simps by blast
  have texts: "valueOrEmpty (nullableString v) = v" if "TrimSpace v \<noteq> []" for v using nullable_kept that by (simp add: kept_text_def)
  have "h \<noteq> []" using t(2) by (auto simp: TrimSpace_def)
  moreover have "validate_chain r ''state'' (pt_OutputStateID t) (Suc n) (map (\<lambda>(i, t). task_record jobID i t) (enumerate (Suc k) (ts @ others)))"
    using Cons.IH [of "Suc i" "(''state'', pt_OutputStateID t)" "Suc n" "Suc k"] Cons.prems(1,5) t
    by (simp add: TrimSpace_Nil_iff [of "''state''"] is_space_def in_range_def)
  ultimately show ?case using t texts Cons.prems(2,3)
    by (simp add: task_record_def taskInputKind_def taskInputID_def)
qed

lemma executed_ids: "chained i input ts \<Longrightarrow> map pt_TaskID ts = map (\<lambda>j. ''execute-'' @ itoa j) [i..<i + length ts]"
proof (induction ts arbitrary: i input)
  case (Cons t ts)
  have "pt_TaskID t = ''execute-'' @ itoa i" using Cons.prems by (metis chained.simps(2) execute_task_parts(5))
  then show ?case using Cons.IH [of "Suc i" "(''state'', pt_OutputStateID t)"] Cons.prems by (simp add: upt_rec)
qed simp

lemma chained_types: "chained i input ts \<Longrightarrow> list_all (\<lambda>t. pt_Type t = ''state_execute'') ts"
  by (induction ts arbitrary: i input) (auto, metis execute_task_parts(4))

lemma first_task_types: "list_all (\<lambda>t. pt_Type t \<noteq> ''state_execute'') (first_tasks p)"
  by (simp add: first_tasks_def plain_task_def)

lemma executed_records:
  "filter (\<lambda>t. tk_Type t = ''state_execute'') (map (\<lambda>(i, t). task_record jobID i t) (enumerate k ts))
    = map (\<lambda>(i, t). task_record jobID i t) (filter (\<lambda>(i, t). pt_Type t = ''state_execute'') (enumerate k ts))"
  by (induction ts arbitrary: k) (simp_all add: task_record_def)

lemma executed_task_ids:
  "map tk_TaskID (filter (\<lambda>t. tk_Type t = ''state_execute'') (map (\<lambda>(i, t). task_record jobID i t) (enumerate k ts)))
    = map pt_TaskID (filter (\<lambda>t. pt_Type t = ''state_execute'') ts)"
  by (induction ts arbitrary: k) (simp_all add: task_record_def)

lemma executed_steps:
  assumes "chained 0 input ts"
  shows "map tk_TaskID (filter (\<lambda>t. tk_Type t = ''state_execute'') (taskRecordsFromPlan jobID (first_tasks p @ ts @ [instance_task sid])))
    = map (\<lambda>j. ''execute-'' @ itoa j) [0..<length ts]"
proof -
  have others: "filter (\<lambda>t. pt_Type t = ''state_execute'') (first_tasks p) = []" "filter (\<lambda>t. pt_Type t = ''state_execute'') ts = ts"
    using first_task_types [of p] chained_types [OF assms] by (simp_all add: filter_empty_conv list_all_iff)
  then show ?thesis
    using executed_ids [OF assms] by (simp add: taskRecordsFromPlan_def executed_task_ids instance_task_def plain_task_def)
qed

lemma no_shape_drift:
  assumes "map tk_TaskID (filter (\<lambda>t. tk_Type t = ''state_execute'') records) = map (\<lambda>j. ''execute-'' @ itoa j) [0..<length (default_steps p)]"
  shows "\<not> hasPsqlExecuteShapeDrift p records"
proof -
  let ?executed = "filter (\<lambda>t. tk_Type t = ''state_execute'') records"
  have "length ?executed = length (default_steps p)" using arg_cong [OF assms, of length] by simp
  moreover have "tk_TaskID ` set ?executed = (\<lambda>j. ''execute-'' @ itoa j) ` {0..<length (default_steps p)}"
    using arg_cong [OF assms, of set] by simp
  ultimately show ?thesis
    unfolding hasPsqlExecuteShapeDrift_def Let_def list_ex_iff by (auto simp: default_steps_def split: if_splits)
qed

text \<open>
  C39: A psql plan survives its storage in the queue: its records give back exactly its tasks, those that run psql are one
  for each step of the request in order, numbered from 0, so that the check of their shape accepts them, and the check of
  the chain of states accepts them too when the engine has a managed identity with a valid binding.  Neither
  the kind and image of the request nor the id of its base consist of spaces.
\<close>

theorem stored_plan_is_accepted:
  assumes "buildPlanPsql E p w = (Inr (tasks, sid), w')"
    and "TrimSpace (snd (plan_base p)) \<noteq> []" and "kept_text (rq_PrepareKind (pr_request p))" and "kept_text (rq_ImageID (pr_request p))"
    and "pe_identity E \<noteq> None \<longrightarrow> IdentityBinding_Validate (bsel_IdentityBinding (pr_managed p)) \<and> bsel_Key (pr_managed p) \<noteq> []"
  shows "planTasksFromRecords (taskRecordsFromPlan jobID tasks) = tasks
    \<and> map tk_TaskID (filter (\<lambda>t. tk_Type t = ''state_execute'') (taskRecordsFromPlan jobID tasks))
        = map (\<lambda>j. ''execute-'' @ itoa j) [0..<length (default_steps p)]
    \<and> \<not> hasPsqlExecuteShapeDrift p (taskRecordsFromPlan jobID tasks)
    \<and> validateManagedTasks E p (taskRecordsFromPlan jobID tasks) = Inr ()"
proof -
  obtain ts where tasks: "tasks = first_tasks p @ ts @ [instance_task sid]" and ts: "chained 0 (plan_base p) ts" "length ts = length (default_steps p)"
    and sid: "TrimSpace sid \<noteq> []" "TrimSpace (effectiveImageID p) \<noteq> []" using buildPlanPsql_shape [OF assms(1)] .
  have kind: "fst (plan_base p) = ''image''" "TrimSpace ''image'' \<noteq> []" by (simp_all add: plan_base_def TrimSpace_Nil_iff is_space_def in_range_def)
  have instance_ok: "storable (instance_task sid)" using sid(1)
    by (simp add: storable_def kept_text_def instance_task_def plain_task_def TrimSpace_Nil_iff [of "''state''"] TrimSpace_Nil_iff [of "''ephemeral''"]
        is_space_def in_range_def)
  have first_ok: "list_all storable (first_tasks p)"
    using assms(3,4) sid(2) by (simp add: first_tasks_def storable_def plain_task_def kept_text_def)
  have "list_all storable tasks"
    using chained_storable [OF ts(1)] assms(2) kind first_ok instance_ok by (simp add: tasks)
  moreover have steps: "map tk_TaskID (filter (\<lambda>t. tk_Type t = ''state_execute'') (taskRecordsFromPlan jobID tasks))
      = map (\<lambda>j. ''execute-'' @ itoa j) [0..<length (default_steps p)]"
    unfolding tasks using executed_steps [OF ts(1)] ts(2) by simp
  moreover have "\<not> hasPsqlExecuteShapeDrift p (taskRecordsFromPlan jobID tasks)" by (rule no_shape_drift [OF steps])
  moreover have "validateManagedTasks E p (taskRecordsFromPlan jobID tasks) = Inr ()"
  proof (cases "pe_identity E = None")
    case False
    then have managed: "IdentityBinding_Validate (bsel_IdentityBinding (pr_managed p))" "bsel_Key (pr_managed p) \<noteq> []"
      and base: "plan_base p = (''image'', bsel_Key (pr_managed p))"
      using assms(5) by (auto simp: plan_base_def)
    have rest: "validate_chain (effectiveImageID p) ''image'' (bsel_Key (pr_managed p)) 0
        (map (\<lambda>(i, t). task_record jobID i t) (enumerate k (ts @ [instance_task sid])))" for k
      using validate_records [OF ts(1), of 0 "[instance_task sid]" "effectiveImageID p" jobID k] kind assms(2) ts(2)
      by (simp add: base instance_task_def plain_task_def default_steps_def split: if_splits)
    have "valueOrEmpty (nullableString (effectiveImageID p)) = effectiveImageID p" using sid(2) by (simp add: nullable_kept kept_text_def)
    then have "validate_chain (effectiveImageID p) ''image'' (bsel_Key (pr_managed p)) 0 (taskRecordsFromPlan jobID tasks)"
      using rest [of 1] rest [of 2]
      by (simp add: taskRecordsFromPlan_def tasks first_tasks_def task_record_def plain_task_def numeral_2_eq_2)
    then show ?thesis using managed by (simp add: validateManagedTasks_def)
  qed (simp add: validateManagedTasks_def)
  ultimately show ?thesis by (simp add: records_roundtrip)
qed

theorem stored_plan_is_accepted_witness:
  "case buildPlanPsql ex_env (ex_prepared (CommandInput ''x'')) (ex_prepare_world []) of
     (Inl e, _) \<Rightarrow> False
   | (Inr (tasks, sid), _) \<Rightarrow> planTasksFromRecords (taskRecordsFromPlan ''j'' tasks) = tasks
       \<and> \<not> hasPsqlExecuteShapeDrift (ex_prepared (CommandInput ''x'')) (taskRecordsFromPlan ''j'' tasks)
       \<and> validateManagedTasks ex_env (ex_prepared (CommandInput ''x'')) (taskRecordsFromPlan ''j'' tasks) = Inr ()"
proof -
  let ?p = "ex_prepared (CommandInput ''x'')"
  have "TrimSpace (snd (plan_base ?p)) \<noteq> []" "kept_text (rq_PrepareKind (pr_request ?p))" "kept_text (rq_ImageID (pr_request ?p))"
    "bsel_Key (pr_managed ?p) \<noteq> []"
    by (simp_all add: ex_prepared_def ex_selection_def plan_base_def ex_request_def kept_text_def TrimSpace_Nil_iff is_space_def in_range_def)
  moreover have "IdentityBinding_Validate (bsel_IdentityBinding (pr_managed ?p))"
    by (simp add: ex_prepared_def ex_selection_def ex_binding_valid)
  ultimately show ?thesis
    using stored_plan_is_accepted [OF ex_plan [of "CommandInput ''x''" "[]"], of "''j''"] ex_plan [of "CommandInput ''x''" "[]"] by simp
qed

end
