(* ===== verification/Prepare_Relation.thy ===== *)
theory Prepare_Relation
  imports Prepare_Service Prepare_Tasks_Props Cache_Capacity_Props Managed_Service_Props Instance_Access_Props
begin

text \<open>
  What the operations of the preparation service keep.  A relation that the statements on the queue keep, with
  results whose stored form is \<open>ok\<close>, is kept by every operation of the service, whatever fails and whenever jobs are
  cancelled, if the executor and the runtime keep it too.
\<close>

definition result_ok :: "(PrepareResult \<Rightarrow> bool) \<Rightarrow> PrepareResult jsonText option \<Rightarrow> bool" where
  "result_ok ok t = (case read_json t of None \<Rightarrow> True | Some r \<Rightarrow> ok r)"

lemma result_ok_simps [simp]: "result_ok ok None" "result_ok ok (Some (Encodes r)) = ok r"
  by (simp_all add: result_ok_def read_json_def)

text \<open>The service leaves the request of a job and the mode of its snapshots alone.\<close>

definition update_ok :: "(PrepareResult \<Rightarrow> bool) \<Rightarrow> JobUpdate \<Rightarrow> bool" where
  "update_ok ok u \<longleftrightarrow> result_ok ok (ju_ResultJSON u) \<and> ju_RequestJSON u = None \<and> ju_SnapshotMode u = None"

locale log_relation = service_relation rel for rel :: "prepareWorld \<Rightarrow> prepareWorld \<Rightarrow> bool" +
  fixes ok :: "PrepareResult \<Rightarrow> bool"
  assumes rel_disk: "rel w (w\<lparr>pw_disk := d\<rparr>)"
    and kept_AppendEvent: "result_ok ok (ev_ResultJSON e) \<Longrightarrow> keeps (AppendEvent e)"
    and kept_DeleteJob: "keeps (DeleteJob j)"

locale job_relation = kept_relation rel for rel :: "prepareWorld \<Rightarrow> prepareWorld \<Rightarrow> bool" +
  fixes ok :: "PrepareResult \<Rightarrow> bool"
  assumes rel_evicts: "evicts UNIV w w' \<Longrightarrow> rel w w'"
    and rel_running: "rel w (w\<lparr>pw_running := js\<rparr>)"
    and kept_UpdateJob: "update_ok ok u \<Longrightarrow> keeps (UpdateJob j u)"
    and kept_append: "result_ok ok (ev_ResultJSON e) \<Longrightarrow> keeps (AppendEvent e)"
    and kept_delete: "keeps (DeleteJob j)"
    and kept_DeleteTasks: "keeps (queue_write (\<lambda>q. Some (q_DeleteTasks j q)))"
    and kept_InsertTask: "keeps (queue_write (q_InsertTask t))"
    and kept_UpdateTask: "keeps (UpdateTask j i v)"

sublocale job_relation \<subseteq> log_relation rel ok
proof unfold_locales
  show "same_service w w' \<Longrightarrow> rel w w'" for w w' by (rule rel_evicts) (rule evicts_same)
  show "rel w (w\<lparr>pw_disk := d\<rparr>)" for w d by (rule rel_evicts) (rule evicts_outside, simp_all)
qed (auto intro: kept_append kept_delete)

text \<open>What is asked of the parts of the service that are arguments.\<close>

definition env_keeps :: "(prepareWorld \<Rightarrow> prepareWorld \<Rightarrow> bool) \<Rightarrow> (PrepareResult \<Rightarrow> bool) \<Rightarrow> prepareEnv \<Rightarrow> bool" where
  "env_keeps rel ok E \<longleftrightarrow>
     (\<forall>j p w. rel w (snd (pe_planLiquibase E j p w))) \<and> (\<forall>dir w. rel w (snd (pe_validateStore E dir w)))
     \<and> (\<forall>j p t w. rel w (snd (pe_executeStateTask E j p t w))) \<and> (\<forall>j p s w. rel w (snd (pe_createInstance E j p s w)))
     \<and> (\<forall>j w. rel w (snd (pe_cleanupRuntime E j w))) \<and> (\<forall>j w. rel w (snd (pe_awaitRun E j w)))
     \<and> (\<forall>f b w. pe_inspectManaged E = Some f \<longrightarrow> rel w (snd (f b w)))
     \<and> (\<forall>owner. pe_identity E = Some owner \<longrightarrow> ow_service owner = sqlite_store)
     \<and> (\<forall>r. ok (stored_result E r))"

lemma ex_env_keeps:
  assumes "\<And>w. rel w w" and "\<And>r. ok (stored_result (ex_env\<lparr>pe_access := a\<rparr>) r)" and "i = None \<or> i = Some ex_owner"
  shows "env_keeps rel ok (ex_env\<lparr>pe_access := a, pe_identity := i, pe_async := b\<rparr>)"
  using assms by (auto simp: env_keeps_def ex_env_def op_return_def ex_owner_def stored_result_def)

definition ex_job :: "bytes \<Rightarrow> JobRecord" where
  "ex_job j = \<lparr>jr_JobID = j, jr_Status = StatusQueued, jr_PrepareKind = ''psql'', jr_ImageID = ''img@d'', jr_PlanOnly = False,
     jr_SnapshotMode = ''always'', jr_PrepareArgsNormalized = None, jr_Signature = Some ''s'', jr_RequestJSON = Some (Encodes ex_request),
     jr_CreatedAt = ''t'' @ j, jr_StartedAt = None, jr_FinishedAt = None, jr_ResultJSON = None, jr_ErrorJSON = None, jr_ResolvedImageID = [],
     jr_LineageRef = [], jr_IdentityDigest = []\<rparr>"

lemma ex_queue_wf: "distinct (map jr_JobID jobs) \<Longrightarrow> queue_wf (pw_queue (ex_prepare_world jobs))"
  by (simp add: queue_wf_def ex_prepare_world_def)

lemma capacity_evicts: "ev.keeps UNIV (ensureCacheCapacity rounds store phase ids)"
proof -
  have modify: "ev.keeps UNIV (p_modify (\<lambda>w. w\<lparr>pw_evictLock := l\<rparr>))" for l
    by (rule evicts_modify) (rule evicts_outside, simp_all)
  have create: "ev.keeps UNIV create_lock"
    unfolding create_lock_def by (rule ev.within_p_outgoing) (auto intro!: evicts_outside simp: read_clock_def Let_def split: prod.split)
  have stale: "ev.keeps UNIV removeStaleEvictLock"
    unfolding removeStaleEvictLock_def using modify by (auto split: lockFile.splits)
  have attempt: "ev.keeps UNIV try_evict_lock" unfolding try_evict_lock_def using create stale by auto
  have loop: "ev.keeps UNIV (evict_lock_loop n)" for n using attempt by (induction n) auto
  have locked: "ev.keeps UNIV m \<Longrightarrow> ev.keeps UNIV (withEvictLock rounds m)" for m :: "'a pop"
    unfolding withEvictLock_def using loop modify by auto
  have listed: "ev.keeps UNIV (listEvictionCandidates store settings ids)" for settings ids
    using same_list_candidates [of store settings ids] unfolding ev.keeps_def sv.keeps_def by (blast intro: evicts_same)
  have run: "ev.keeps UNIV (runEviction store settings u f ids)" for settings u f
    unfolding runEviction_def using listed by (auto intro!: evicts_loop)
  have recorded: "ev.keeps UNIV (recordCacheEviction s)" for s
    unfolding recordCacheEviction_def set_world_def ev.keeps_def by (auto intro!: evicts_outside)
  have observed: "ev.keeps UNIV observedMinStateBytes" unfolding observedMinStateBytes_def by auto
  have answer: "ev.keeps UNIV (pressure_answer settings phase s :: 'b rop)" for settings s
    unfolding pressure_answer_def using observed by auto
  have un: "ev.keeps UNIV m \<Longrightarrow> ev.keeps UNIV (unavailable phase msg m)" for m :: "'c pop" and msg
    unfolding unavailable_def by auto
  show ?thesis
    unfolding ensureCacheCapacity_def enforce_capacity_def
    by (auto intro!: un locked run recorded answer)
qed


lemma readonly_access: "ro.keeps (Lookup s ref)" "ro.keeps (Resolve s ref b)"
  unfolding Lookup_def Resolve_def by (auto intro!: readonly_secrets)

lemma readonly_restore: "ow_service ow = sqlite_store \<Longrightarrow> ro.keeps (RestoreBase ow im b)"
  by (auto simp: RestoreBase_def RestoreStored_reads)

context service_relation begin

lemma rel_same_service: "sv.keeps m \<Longrightarrow> keeps m"
  unfolding keeps_def sv.keeps_def by (blast intro: rel_same)

lemma within_files [simp]: "keeps (read_files E)"
  by (auto simp: read_files_def)

lemma within_check_cached [simp]: "keeps (check_cached E s p)"
  by (rule rel_same_service [OF check_cached_same])

lemma within_isManagedStateCached [simp]: "keeps (isManagedStateCached E s p)"
proof -
  have "snd (or_respond (internal_error ''cannot check state cache'') (isManagedStateCached E s p) w) = snd (isManagedStateCached E s p w)" for w
    by (auto simp: or_respond_def op_map_error_def op_try_def op_fail_def op_return_def split: prod.split sum.split)
  then show ?thesis using within_check_cached [of E s p] by (simp add: keeps_def check_cached_def)
qed

lemma within_plan_steps: "keeps (plan_steps E p i input tasks s steps)"
proof (induction steps arbitrary: i input tasks s)
  case (Cons st steps)
  then show ?case by (auto simp: step_hash_def)
qed simp

lemma within_plan_changesets: "keeps (plan_changesets E p i input tasks s cs)"
proof (induction cs arbitrary: i input tasks s)
  case (Cons c cs)
  then show ?case by (auto simp: Let_def)
qed simp

lemma within_buildPlan:
  assumes "is_lb p \<Longrightarrow> keeps (pe_planLiquibase E j p)"
  shows "keeps (buildPlan E j p)"
proof -
  have fin: "keeps (finish_plan p r)" for r by (auto simp: finish_plan_def)
  have "keeps (buildPlanPsql E p)" unfolding buildPlanPsql_def by (auto simp: fin within_plan_steps simp del: split_paired_All)
  moreover have "keeps (buildPlanLiquibase E j p)" if "is_lb p"
    using assms [OF that] unfolding buildPlanLiquibase_def plan_no_changesets_def Let_def by (auto simp: fin within_plan_changesets)
  ultimately show ?thesis unfolding buildPlan_def Let_def by (auto simp: is_lb_def)
qed

end

context log_relation begin

lemma within_ctx [intro!]: "keeps m \<Longrightarrow> keeps (in_ctx E c m)"
  by (simp add: keeps_def in_ctx_def rel_refl split: option.split)

lemma within_now [simp]: "keeps now_text"
  by (auto simp: now_text_def)

lemma within_queue [simp]:
  "keeps (GetJob j)" "keeps (ListJobs j)" "keeps (ListJobsByStatus ss)" "keeps (ListJobsBySignature sg ss)" "keeps (queue_ListTasks j)"
  "keeps (ListEventsSince j n)" "keeps (CountEvents j)"
  by (auto simp: GetJob_def ListJobs_def ListJobsByStatus_def ListJobsBySignature_def queue_ListTasks_def ListEventsSince_def CountEvents_def)

lemma within_removeJobDir [simp]: "keeps (removeJobDir E j)"
proof -
  have "keeps (p_modify (\<lambda>w. w\<lparr>pw_disk := f w\<rparr>))" for f
    unfolding p_modify_def by (rule within_p_outgoing) (simp add: rel_disk)
  then show ?thesis unfolding removeJobDir_def RemovePath_def Let_def by auto
qed

lemma within_appendEvent:
  assumes "\<forall>r. ok (stored_result E r)"
  shows "keeps (appendEvent E j event)"
  unfolding appendEvent_def
  by (auto intro!: kept_AppendEvent simp: eventRecordFromEvent_def assms option.map_comp split: option.split)
    (simp add: result_ok_def read_json_def assms split: option.split)

lemma within_logs:
  assumes "\<forall>r. ok (stored_result E r)"
  shows "keeps (appendLog E j message)" "keeps (append_logs E j messages)"
proof -
  show log: "keeps (appendLog E j message)" for message unfolding appendLog_def using within_appendEvent [OF assms] by auto
  show "keeps (append_logs E j messages)" using log by (induction messages) auto
qed

lemma within_delete_jobs [simp]: "keeps (delete_jobs E c jobs)"
  by (induction jobs) (auto intro!: kept_DeleteJob)

lemma within_trim [simp]:
  "keeps (trimCompletedJobsBySignature E c sg)" "keeps (trimCompletedJobsForJob E c j)" "keeps (trimCompletedJobs E c p)"
proof -
  show sig: "keeps (trimCompletedJobsBySignature E c sg)" for sg unfolding trimCompletedJobsBySignature_def by auto
  show "keeps (trimCompletedJobsForJob E c j)" "keeps (trimCompletedJobs E c p)"
    unfolding trimCompletedJobsForJob_def trimCompletedJobs_def using sig by (auto split: sum.split option.split)
qed

end

context job_relation begin

lemma within_evicting: "ev.keeps UNIV m \<Longrightarrow> keeps m"
  unfolding keeps_def ev.keeps_def by (blast intro: rel_evicts)

lemma env_keepsD:
  assumes "env_keeps rel ok E"
  shows "keeps (pe_planLiquibase E j p)" "keeps (pe_validateStore E dir)" "keeps (pe_executeStateTask E j p t)"
    "keeps (pe_createInstance E j p s)" "keeps (pe_cleanupRuntime E j)" "keeps (pe_awaitRun E j)"
    "pe_inspectManaged E = Some f \<Longrightarrow> keeps (f b)" "pe_identity E = Some owner \<Longrightarrow> ow_service owner = sqlite_store" "ok (stored_result E r)"
  using assms by (auto simp: env_keeps_def keeps_def)

lemma within_ReplaceTasks: "keeps (ReplaceTasks j ts)"
proof -
  have "keeps (insert_tasks ts)" by (induction ts) (auto intro!: kept_InsertTask)
  then show ?thesis unfolding ReplaceTasks_def by (auto intro!: kept_DeleteTasks)
qed

subsection \<open>Events and ends\<close>

lemma env_ok: "env_keeps rel ok E \<Longrightarrow> \<forall>r. ok (stored_result E r)"
  by (simp add: env_keeps_def)

lemma within_updateTaskStatus:
  assumes "env_keeps rel ok E"
  shows "keeps (updateTaskStatus E j i status started finished err)" "keeps (finish_task E j i)" "keeps (start_task E j i)"
    "keeps (markTasksSucceeded E j ts)"
proof -
  show update: "keeps (updateTaskStatus E j i status started finished err)" for i status started finished err
    unfolding updateTaskStatus_def using within_appendEvent [OF env_ok [OF assms]] kept_UpdateTask by auto
  show fin: "keeps (finish_task E j i)" "keeps (start_task E j i)" for i unfolding finish_task_def start_task_def using update by auto
  show "keeps (markTasksSucceeded E j ts)" using fin by (induction ts) auto
qed

lemma within_ends:
  assumes "env_keeps rel ok E"
  shows "keeps (succeed E j result)" "keeps (succeedPlan E j)" "keeps (failJob E j err)" "keeps (fail_with E j err)"
proof -
  have update: "keeps (UpdateJob j (no_job_update\<lparr>ju_Status := s, ju_FinishedAt := f, ju_ErrorJSON := e\<rparr>))"
    "keeps (UpdateJob j (no_job_update\<lparr>ju_Status := s, ju_FinishedAt := f\<rparr>))"
    "keeps (UpdateJob j (no_job_update\<lparr>ju_Status := s, ju_FinishedAt := f, ju_ResultJSON := Some (Encodes (stored_result E r))\<rparr>))" for s f e r
    by (rule kept_UpdateJob, simp add: update_ok_def no_job_update_def env_keepsD(9) [OF assms])+
  show "keeps (succeed E j result)" "keeps (succeedPlan E j)" "keeps (failJob E j err)"
    unfolding succeed_def succeedPlan_def failJob_def using update within_appendEvent [OF env_ok [OF assms]] by auto
  then show "keeps (fail_with E j err)" unfolding fail_with_def by auto
qed

lemma within_or_fail:
  "env_keeps rel ok E \<Longrightarrow> keeps m \<Longrightarrow> (\<And>x. keeps (k x)) \<Longrightarrow> keeps (or_fail E j h m k)"
  unfolding or_fail_def using within_ends by auto

subsection \<open>Planning\<close>

lemma within_image:
  assumes "env_keeps rel ok E"
  shows "keeps (ensureResolvedImageID E j p ts)"
  unfolding ensureResolvedImageID_def resolve_image_def Let_def using within_logs [OF env_ok [OF assms]] by auto

lemma within_signature:
  assumes "env_keeps rel ok E"
  shows "keeps (updateJobSignature E j p)" "keeps (updateJobSignatureFromPlan E j p ts)" "keeps (store_tasks E j ts)"
proof -
  have "keeps (UpdateJob j (no_job_update\<lparr>ju_Signature := sg\<rparr>))" for sg
    by (rule kept_UpdateJob) (simp add: update_ok_def no_job_update_def)
  then have "keeps (store_signature E j sg)" for sg unfolding store_signature_def by auto
  then show "keeps (updateJobSignature E j p)" "keeps (updateJobSignatureFromPlan E j p ts)"
    unfolding updateJobSignature_def updateJobSignatureFromPlan_def by auto
  show "keeps (store_tasks E j ts)" unfolding store_tasks_def using within_ReplaceTasks by auto
qed

lemma within_plan_tasks:
  assumes "env_keeps rel ok E"
  shows "keeps (plan_tasks E j p)" "keeps (replan E j p)"
  unfolding plan_tasks_def replan_def using within_signature [OF assms] within_buildPlan [OF env_keepsD(1) [OF assms]] by auto

lemma within_recover_tasks:
  assumes "env_keeps rel ok E"
  shows "keeps (recover_tasks E j p ts)"
proof -
  have "keeps (recover_task E j p t)" for t
    unfolding recover_task_def Let_def using within_updateTaskStatus [OF assms] by auto
  then show ?thesis by (induction ts) auto
qed

lemma within_loadOrPlanTasks:
  assumes "env_keeps rel ok E"
  shows "keeps (loadOrPlanTasks E j p)"
proof -
  have "keeps (replanTasksOnDrift E j p rs)" for p rs
    unfolding replanTasksOnDrift_def using within_plan_tasks [OF assms] by auto
  then have "keeps (resume_tasks E j p rs)" for p rs
    unfolding resume_tasks_def Let_def using within_recover_tasks [OF assms] by auto
  then show ?thesis
    unfolding loadOrPlanTasks_def using within_image [OF assms] within_plan_tasks [OF assms] by auto
qed

subsection \<open>The run\<close>

lemma within_succeeded: "keeps m \<Longrightarrow> keeps (succeeded m)"
  unfolding succeeded_def by auto

lemma within_run_task:
  assumes "env_keeps rel ok E"
  shows "keeps (run_task E j p s t)" "keeps (fail_task E j i err)" "keeps (last_step E j p s)" "keeps (cached_output E p task)"
  unfolding run_task_def fail_task_def last_step_def cached_output_def Let_def
  using within_image [OF assms] env_keepsD(3,4) [OF assms] within_updateTaskStatus [OF assms] within_ends [OF assms]
  by (auto intro!: within_or_fail [OF assms] within_succeeded)

lemma within_run_tasks:
  assumes "env_keeps rel ok E"
  shows "keeps (run_tasks E j p s ts)"
proof (induction ts arbitrary: p s)
  case Nil
  then show ?case by (simp add: within_run_task [OF assms])
next
  case (Cons t ts)
  show ?case
    by (simp only: run_tasks.simps Let_def, intro within_bind within_if within_or_fail [OF assms] within_try within_case_sum within_case_prod
        within_case_option within_service_reads within_ends [OF assms] within_run_task [OF assms] within_updateTaskStatus [OF assms]
        within_succeeded Cons.IH)
qed

lemma within_mark_running:
  assumes "env_keeps rel ok E"
  shows "keeps (mark_running E j p)"
proof -
  have "keeps (UpdateJob j (no_job_update\<lparr>ju_Status := s, ju_StartedAt := f\<rparr>))"
    "keeps (UpdateJob j (no_job_update\<lparr>ju_PrepareArgsNormalized := a\<rparr>))" for s f a
    by (rule kept_UpdateJob, simp add: update_ok_def no_job_update_def)+
  then show ?thesis unfolding mark_running_def using within_appendEvent [OF env_ok [OF assms]] by auto
qed

lemma within_runJob:
  assumes "env_keeps rel ok E"
  shows "keeps (runJob E p j)"
proof -
  have started: "keeps (run_started E p j)"
    unfolding run_started_def
    by (intro within_bind within_or_fail [OF assms] within_case_prod within_if within_mark_running [OF assms] env_keepsD(2) [OF assms]
        within_loadOrPlanTasks [OF assms] within_updateTaskStatus [OF assms] within_succeeded within_ends [OF assms] within_run_tasks [OF assms])
  have body: "keeps (run_body E p j)"
    unfolding run_body_def
    by (intro within_or_fail [OF assms] within_case_option within_if within_bind within_service_reads within_queue within_return
        within_ends [OF assms] started)
  have registered: "keeps (registerRunner j)" "keeps (unregisterRunner j)"
    unfolding registerRunner_def unregisterRunner_def by (simp_all add: keeps_def set_world_def rel_running)
  show ?thesis
    unfolding runJob_def using registered body env_keepsD(5) [OF assms] by auto
qed

subsection \<open>Requests\<close>

lemma within_read_result:
  assumes "env_keeps rel ok E"
  shows "keeps (read_result E r)"
proof -
  have access: "keeps (on_engine (Lookup a i))" "keeps (on_engine (Resolve a i b))" for a i b
    by (intro within_on_engine readonly_access)+
  have "keeps (hydrateManagedResult E a r)" for a
  proof (cases "pe_inspectManaged E")
    case (Some f)
    then show ?thesis unfolding hydrateManagedResult_def using access env_keepsD(7) [OF assms Some] by auto
  qed (auto simp: hydrateManagedResult_def intro!: access)
  then show ?thesis unfolding read_result_def by auto
qed

lemma within_Get:
  assumes "env_keeps rel ok E"
  shows "keeps (Get E j)"
  unfolding Get_def visible_result_def using within_read_result [OF assms] by (auto split: sum.split option.split)

lemma within_Cancel:
  assumes "env_keeps rel ok E"
  shows "keeps (Cancel E j)"
  unfolding Cancel_def using within_Get [OF assms] within_ends [OF assms] by auto

lemma within_Delete:
  assumes "env_keeps rel ok E"
  shows "keeps (service_Delete E j opts)"
proof -
  have "keeps (await_run E j)" unfolding await_run_def using env_keepsD(6) [OF assms] by auto
  then show ?thesis unfolding service_Delete_def Let_def using kept_DeleteJob by auto
qed

lemma within_EventsSince:
  assumes "env_keeps rel ok E"
  shows "keeps (EventsSince E j n)" "keeps (wait_round j n)"
proof -
  have "keeps (read_events E es)" for es
    by (induction es) (auto simp: within_read_result [OF assms])
  then show "keeps (EventsSince E j n)" "keeps (wait_round j n)" unfolding EventsSince_def wait_round_def by auto
qed

lemma within_listings: "keeps (service_ListJobs j)" "keeps (service_ListTasks j)"
  unfolding service_ListJobs_def service_ListTasks_def by (auto split: sum.split)

lemma within_Recover:
  assumes "env_keeps rel ok E"
  shows "keeps (Recover E)"
proof -
  have failing: "keeps (failing_with h r)" for h and r :: "'e + 'c" by (simp add: failing_with_def split: sum.split)
  have bind: "keeps (bindManagedRequest E p (Some job))" for p job
    unfolding bindManagedRequest_def Let_def
    by (auto intro!: within_on_engine RestoreStored_reads env_keepsD(8) [OF assms] split: option.split)
  have restored: "keeps (prepareFromJob E job)" for job
    unfolding prepareFromJob_def using failing bind by (auto split: option.split jsonText.split)
  have "keeps (recover_job E job)" for job
    unfolding recover_job_def start_run_def using restored within_ends [OF assms] within_runJob [OF assms] by auto
  then have "keeps (recover_jobs E jobs)" for jobs by (induction jobs) auto
  then show ?thesis unfolding Recover_def using within_evicting [OF capacity_evicts] by auto
qed

end

end
