(* ===== verification/Prepare_History.thy ===== *)
theory Prepare_History
  imports Prepare_Relation
begin

text \<open>
  Relations on the tables of the queue that the service keeps, submitting jobs included, and two of them: what a job was
  submitted with stays and its events are only added to, and credentials are not stored.
\<close>

text \<open>The row of a job that was submitted with a request, over the files there were.\<close>

definition submitted_from :: "prepareEnv \<Rightarrow> Request \<Rightarrow> node \<Rightarrow> JobRecord \<Rightarrow> bool" where
  "submitted_from E req disk job \<longleftrightarrow>
     (\<exists>checked p now u v. prepareRequest E (pe_files E disk) req = Inr checked
       \<and> bind_new E (jr_JobID job) checked u = (Inr p, v) \<and> job = submitted_job (jr_JobID job) now p)"

locale queue_relation =
  fixes qrel :: "queueTables \<Rightarrow> queueTables \<Rightarrow> bool" and ok :: "PrepareResult \<Rightarrow> bool"
  assumes qrel_refl: "qrel q q" and qrel_trans: "qrel q r \<Longrightarrow> qrel r s \<Longrightarrow> qrel q s"
    and qrel_UpdateJob: "update_ok ok u \<Longrightarrow> q_UpdateJob j u q = Some q' \<Longrightarrow> qrel q q'"
    and qrel_AppendEvent: "result_ok ok (ev_ResultJSON e) \<Longrightarrow> q_AppendEvent e q = Some q' \<Longrightarrow> qrel q q'"
    and qrel_DeleteJob: "qrel q (q_DeleteJob j q)"
    and qrel_DeleteTasks: "qrel q (q_DeleteTasks j q)"
    and qrel_InsertTask: "q_InsertTask t q = Some q' \<Longrightarrow> qrel q q'"
    and qrel_UpdateTask: "q_UpdateTask j i v q = Some q' \<Longrightarrow> qrel q q'"
begin

definition wrel :: "prepareWorld \<Rightarrow> prepareWorld \<Rightarrow> bool" where
  "wrel w w' \<longleftrightarrow> qrel (pw_queue w) (pw_queue w')"

lemma wrel_queue: "pw_queue w' = pw_queue w \<Longrightarrow> wrel w w'"
  by (simp add: wrel_def qrel_refl)

lemma wrel_trans: "wrel u v \<Longrightarrow> wrel v w \<Longrightarrow> wrel u w"
  unfolding wrel_def by (rule qrel_trans)

lemma wrel_write:
  assumes "\<And>q q'. f q = Some q' \<Longrightarrow> qrel q q'"
  shows "wrel w (snd (queue_write f w))"
  using assms by (auto simp: wrel_def queue_write_def p_outgoing_def Let_def qrel_refl split: option.split)

end

sublocale queue_relation \<subseteq> kr: kept_relation wrel
  by unfold_locales (simp add: wrel_queue, erule (1) wrel_trans)

context queue_relation begin

lemma kept_write: "(\<And>q q'. f q = Some q' \<Longrightarrow> qrel q q') \<Longrightarrow> kr.keeps (queue_write f)"
  unfolding kr.keeps_def using wrel_write by blast

lemma kept_statements:
  "update_ok ok u \<Longrightarrow> kr.keeps (UpdateJob j u)" "result_ok ok (ev_ResultJSON e) \<Longrightarrow> kr.keeps (AppendEvent e)"
  "kr.keeps (DeleteJob j)" "kr.keeps (queue_write (\<lambda>q. Some (q_DeleteTasks j q)))" "kr.keeps (queue_write (q_InsertTask t))"
  "kr.keeps (UpdateTask j i v)"
proof -
  have seq: "kr.keeps (get_world f)" for f by (simp add: kr.keeps_def get_world_def wrel_queue)
  show "kr.keeps (UpdateJob j u)" if "update_ok ok u"
    unfolding UpdateJob_def by (intro kr.within_if kr.within_return kept_write qrel_UpdateJob [OF that])
  show "kr.keeps (AppendEvent e)" if "result_ok ok (ev_ResultJSON e)"
    unfolding AppendEvent_def by (intro kr.within_bind kept_write qrel_AppendEvent [OF that] seq)
  show "kr.keeps (DeleteJob j)" "kr.keeps (queue_write (\<lambda>q. Some (q_DeleteTasks j q)))"
    unfolding DeleteJob_def by (rule kept_write, auto intro: qrel_DeleteJob qrel_DeleteTasks)+
  show "kr.keeps (queue_write (q_InsertTask t))" by (rule kept_write) (rule qrel_InsertTask)
  show "kr.keeps (UpdateTask j i v)"
    unfolding UpdateTask_def by (intro kr.within_if kr.within_return kept_write qrel_UpdateTask)
qed

end

sublocale queue_relation \<subseteq> jr: job_relation wrel ok
proof unfold_locales
  show "evicts UNIV w w' \<Longrightarrow> wrel w w'" for w w' by (auto simp: evicts_def intro: wrel_queue)
  show "wrel w (w\<lparr>pw_running := js\<rparr>)" for w js by (simp add: wrel_queue)
qed (auto intro: kept_statements)

context queue_relation begin

lemma within_engine: "kr.keeps (on_engine m)"
  unfolding kr.keeps_def on_engine_def by (auto intro: wrel_queue split: prod.split)

text \<open>Up to the insertion of the new row submitting keeps the relation, and after it as well.\<close>

lemma Submit_cases:
  assumes "env_keeps wrel ok E" and "Submit E req w = (r, w')"
  obtains "wrel w w'" "isl r" | job v v1 a where "wrel w v" "CreateJob job v = (Inr (), v1)" "wrel v1 w'" "r = Inr a" "ac_JobID a = jr_JobID job"
      "jr_ResultJSON job = None" "jr_Status job = StatusQueued" "submitted_from E req (pw_disk w) job"
proof -
  have failing: "kr.keeps (failing_with h x)" for h and x :: "'e + 'c"
    by (simp add: failing_with_def split: sum.split)
  have random: "kr.keeps (randomHex n)" for n unfolding randomHex_def by (auto intro!: within_engine)
  have bound: "kr.keeps (bind_new E j p)" for j p
    unfolding bind_new_def bindManagedRequest_def Let_def using jr.within_image [OF assms(1)] by (auto intro!: within_engine split: option.split)
  have running: "kr.keeps (start_run E p j)" for p j unfolding start_run_def using jr.within_runJob [OF assms(1)] by auto
  let ?accepted = "\<lambda>jobID. \<lparr>ac_JobID = jobID, ac_StatusURL = ''/v1/prepare-jobs/'' @ jobID,
      ac_EventsURL = ''/v1/prepare-jobs/'' @ jobID @ ''/events'', ac_Status = StatusQueued\<rparr>"
  define after where "after = (\<lambda>jobID p now. op_bind (ignoring (appendEvent E jobID (status_event now StatusQueued)))
      (\<lambda>_. op_bind (start_run E p jobID) (\<lambda>_. op_return (?accepted jobID) :: (prepareWorld, requestFailure, Accepted) operation)))"
  have after: "kr.keeps (after jobID p now)" for jobID p now
    unfolding after_def using jr.within_appendEvent [OF jr.env_ok [OF assms(1)]] running by auto
  have after_r: "after jobID p now v = (q, v') \<Longrightarrow> q = Inr (?accepted jobID)" for jobID p now v q v'
    by (auto simp: after_def op_bind_def ignoring_def op_try_def op_return_def start_run_def split: prod.splits if_splits)
  let ?prefix = "op_bind (read_files E) (\<lambda>files. op_bind (failing_with request_failure (prepareRequest E files req)) (\<lambda>checked.
     op_bind (op_map_error RequestError (randomHex 16)) (\<lambda>jobID. op_bind (bind_new E jobID checked) (\<lambda>p.
     op_bind now_text (\<lambda>now. op_return (jobID, p, now))))))"
  have split: "Submit E req w = op_bind ?prefix (\<lambda>(jobID, p, now).
      op_bind (op_map_error RequestError (CreateJob (submitted_job jobID now p))) (\<lambda>_. after jobID p now)) w"
    unfolding Submit_def after_def by (simp add: op_bind_def op_return_def split: prod.split sum.split)
  have prefix: "kr.keeps ?prefix" using failing random bound by auto
  from assms(2) [unfolded split] show thesis
  proof (cases rule: op_bind_cases)
    case (1 e)
    then show thesis using that(1) kr.withinD [OF prefix 1(1)] by simp
  next
    case (2 x v)
    obtain jobID p now where x: "x = (jobID, p, now)" by (cases x)
    obtain checked u u' where "prepareRequest E (pe_files E (pw_disk w)) req = Inr checked" "bind_new E jobID checked u = (Inr p, u')"
      using 2(1) x by (auto simp: op_bind_Inr op_return_def read_files_def get_world_def failing_with_def op_fail_def split: sum.splits)
    then have sub: "submitted_from E req (pw_disk w) (submitted_job jobID now p)"
      unfolding submitted_from_def by (auto simp: submitted_job_def)
    have v: "wrel w v" by (rule kr.withinD [OF prefix 2(1)])
    from 2(2) [unfolded x prod.case] show thesis
    proof (cases rule: op_bind_cases)
      case (1 e)
      then obtain e' where "CreateJob (submitted_job jobID now p) v = (Inl e', w')" by (auto simp: op_map_error_Inl)
      then have "pw_queue w' = pw_queue v"
        by (auto simp: CreateJob_def p_outgoing_def Let_def split: option.splits if_splits)
      then show thesis using that(1) wrel_trans [OF v wrel_queue] 1(2) by simp
    next
      case (2 u v1)
      have created: "CreateJob (submitted_job jobID now p) v = (Inr (), v1)" using 2(1) by (simp add: op_map_error_Inr)
      show thesis
        by (rule that(2) [OF v created kr.withinD [OF after 2(2)] after_r [OF 2(2)]]) (simp_all add: sub, simp_all add: submitted_job_def)
    qed
  qed
qed

end

end
