(* ===== verification/Prepare_History_Props.thy ===== *)
theory Prepare_History_Props
  imports Prepare_History
begin

text \<open>
  What the service keeps of a job over any sequence of requests, runs and restarts: the request it was submitted with, the
  order of its events, and that no credentials are stored.
\<close>

subsection \<open>Sequences of requests\<close>

text \<open>
  A step is one call of the service, or anything that leaves the queue alone.  Submitted jobs do not get an id of \<open>used\<close>:
  ids are random.
\<close>

inductive service_step :: "prepareEnv \<Rightarrow> bytes set \<Rightarrow> prepareWorld \<Rightarrow> prepareWorld \<Rightarrow> bool" for E and used where
  step_run: "runJob E p j w = (r1, w') \<Longrightarrow> service_step E used w w'"
| step_submit: "Submit E req w = (r2, w') \<Longrightarrow> \<forall>a. r2 = Inr a \<longrightarrow> ac_JobID a \<notin> used \<Longrightarrow> service_step E used w w'"
| step_recover: "Recover E w = (r3, w') \<Longrightarrow> service_step E used w w'"
| step_cancel: "Cancel E j w = (r4, w') \<Longrightarrow> service_step E used w w'"
| step_delete: "service_Delete E j opts w = (r5, w') \<Longrightarrow> service_step E used w w'"
| step_get: "(Get E j w :: (unit + JobStatus option) \<times> prepareWorld) = (r6, w') \<Longrightarrow> service_step E used w w'"
| step_events: "EventsSince E j n w = (r7, w') \<Longrightarrow> service_step E used w w'"
| step_event: "appendEvent E j (event\<lparr>vn_Result := None\<rparr>) w = (r8, w') \<Longrightarrow> service_step E used w w'"
| step_elsewhere: "pw_queue w' = pw_queue w \<Longrightarrow> service_step E used w w'"

context queue_relation begin

lemma step_keeps:
  assumes "service_step E used w w'" and "env_keeps wrel ok E"
    and created: "\<And>job q q'. jr_JobID job \<notin> used \<Longrightarrow> jr_ResultJSON job = None \<Longrightarrow> q_CreateJob job q = Some q' \<Longrightarrow> qrel q q'"
  shows "wrel w w'"
  using assms(1)
proof (induction rule: service_step.induct)
  case (step_run p j w r1 w')
  then show ?case by (rule kr.withinD [OF jr.within_runJob [OF assms(2)]])
next
  case (step_submit req w r2 w')
  from assms(2) step_submit(1) show ?case
  proof (cases rule: Submit_cases)
    case (2 job v v1 a)
    have "qrel (pw_queue v) (pw_queue v1)"
      using 2(2) created [of job "pw_queue v"] step_submit(2) 2(4,5,6)
      by (auto simp: CreateJob_def p_outgoing_def Let_def split: option.splits if_splits)
    then have "wrel v v1" by (simp add: wrel_def)
    then show ?thesis using 2(1,3) wrel_trans by blast
  qed simp
next
  case (step_recover w r3 w')
  then show ?case by (rule kr.withinD [OF jr.within_Recover [OF assms(2)]])
next
  case (step_cancel j w r4 w')
  then show ?case by (rule kr.withinD [OF jr.within_Cancel [OF assms(2)]])
next
  case (step_delete j opts w r5 w')
  then show ?case by (rule kr.withinD [OF jr.within_Delete [OF assms(2)]])
next
  case (step_get j w r6 w')
  then show ?case by (rule kr.withinD [OF jr.within_Get [OF assms(2)]])
next
  case (step_events j n w r7 w')
  then show ?case by (rule kr.withinD [OF jr.within_EventsSince(1) [OF assms(2)]])
next
  case (step_event j event w r8 w')
  then show ?case by (rule kr.withinD [OF jr.within_appendEvent [OF jr.env_ok [OF assms(2)]]])
next
  case (step_elsewhere w' w)
  then show ?case by (rule wrel_queue)
qed

lemma steps_keep:
  assumes "(service_step E used)\<^sup>*\<^sup>* w w'" and "env_keeps wrel ok E"
    and "\<And>job q q'. jr_JobID job \<notin> used \<Longrightarrow> jr_ResultJSON job = None \<Longrightarrow> q_CreateJob job q = Some q' \<Longrightarrow> qrel q q'"
  shows "wrel w w'"
  using assms(1)
proof (induction rule: rtranclp_induct)
  case base
  show ?case by (simp add: wrel_queue)
next
  case (step v w')
  have "wrel v w'" by (rule step_keeps [OF step(2) assms(2)]) (rule assms(3))
  then show ?case using step.IH wrel_trans by blast
qed

end

subsection \<open>The history of a job\<close>

definition submission :: "JobRecord \<Rightarrow> JobRecord" where
  "submission j = j\<lparr>jr_Status := [], jr_PrepareArgsNormalized := None, jr_Signature := None, jr_StartedAt := None, jr_FinishedAt := None,
     jr_ResultJSON := None, jr_ErrorJSON := None\<rparr>"

definition submissions :: "bytes \<Rightarrow> queueTables \<Rightarrow> JobRecord list" where
  "submissions j q = map submission (filter (\<lambda>r. jr_JobID r = j) (q_jobs q))"

definition events_of :: "bytes \<Rightarrow> queueTables \<Rightarrow> EventRecord list" where
  "events_of j q = filter (\<lambda>e. ev_JobID e = j) (q_events q)"

definition job_history :: "bytes \<Rightarrow> queueTables \<Rightarrow> queueTables \<Rightarrow> bool" where
  "job_history j q q' \<longleftrightarrow> (j \<in> job_ids q' \<longrightarrow> submissions j q' = submissions j q \<and> (\<exists>es. events_of j q' = events_of j q @ es))"

lemma submissions_Nil: "submissions j q = [] \<longleftrightarrow> j \<notin> job_ids q"
  by (auto simp: submissions_def job_ids_def filter_empty_conv)

lemma job_historyI: "submissions j q' = submissions j q \<Longrightarrow> events_of j q' = events_of j q @ es \<Longrightarrow> job_history j q q'"
  unfolding job_history_def by blast

lemma job_history_trans: "job_history j q r \<Longrightarrow> job_history j r s \<Longrightarrow> job_history j q s"
  unfolding job_history_def using submissions_Nil by (metis append.assoc)

lemma submission_update: "update_ok ok u \<Longrightarrow> submission (update_job_row u r) = submission r"
  by (simp add: submission_def update_job_row_def update_ok_def set_to_def set_null_def)

lemma submissions_update: "update_ok ok u \<Longrightarrow> map submission (filter (\<lambda>r. jr_JobID r = j) (map (\<lambda>r. if jr_JobID r = k then update_job_row u r else r) rows))
    = map submission (filter (\<lambda>r. jr_JobID r = j) rows)"
  by (induction rows) (auto simp: submission_update)

interpretation hist: queue_relation "job_history j" "\<lambda>_. True" for j
proof
  show "job_history j q q" for q by (rule job_historyI [where es = "[]"]) simp_all
  show "job_history j q r \<Longrightarrow> job_history j r s \<Longrightarrow> job_history j q s" for q r s by (rule job_history_trans)
  show "job_history j q q'" if "update_ok (\<lambda>_. True) u" "q_UpdateJob k u q = Some q'" for u k q q'
    using that by (intro job_historyI [where es = "[]"])
      (auto simp: q_UpdateJob_def submissions_def events_of_def submissions_update simp del: map_map split: if_splits)
  show "job_history j q q'" if "q_AppendEvent e q = Some q'" for e q q'
    using that by (intro job_historyI [where es = "filter (\<lambda>e. ev_JobID e = j) [e\<lparr>ev_Seq := Suc (q_seq q)\<rparr>]"])
      (auto simp: q_AppendEvent_def submissions_def events_of_def split: if_splits)
  show "job_history j q (q_DeleteJob k q)" for k q
  proof (cases "k = j")
    case True
    then have "j \<notin> job_ids (q_DeleteJob k q)" by (auto simp: job_ids_def q_DeleteJob_def)
    then show ?thesis by (simp add: job_history_def)
  next
    case False
    then have same: "(\<lambda>r. jr_JobID r \<noteq> k \<and> jr_JobID r = j) = (\<lambda>r. jr_JobID r = j)"
      "(\<lambda>e. ev_JobID e \<noteq> k \<and> ev_JobID e = j) = (\<lambda>e. ev_JobID e = j)" by auto
    show ?thesis by (intro job_historyI [where es = "[]"]) (simp_all add: q_DeleteJob_def submissions_def events_of_def same)
  qed
  show "job_history j q (q_DeleteTasks k q)" for k q
    by (rule job_historyI [where es = "[]"]) (simp_all add: q_DeleteTasks_def submissions_def events_of_def)
  show "job_history j q q'" if "q_InsertTask t q = Some q'" for t q q'
    using that by (intro job_historyI [where es = "[]"]) (auto simp: q_InsertTask_def submissions_def events_of_def split: if_splits)
  show "job_history j q q'" if "q_UpdateTask k i v q = Some q'" for k i v q q'
    using that by (intro job_historyI [where es = "[]"]) (auto simp: q_UpdateTask_def submissions_def events_of_def split: if_splits)
qed

interpretation wf: queue_relation "\<lambda>q q'. queue_wf q \<longrightarrow> queue_wf q'" "\<lambda>_. True"
  by unfold_locales (auto intro: UpdateJob_wf AppendEvent_wf DeleteJob_wf DeleteTasks_wf InsertTask_wf UpdateTask_wf)

lemma history_steps:
  assumes "(service_step E {j})\<^sup>*\<^sup>* w w'" and "env_keeps (\<lambda>w w'. job_history j (pw_queue w) (pw_queue w')) (\<lambda>_. True) E"
  shows "job_history j (pw_queue w) (pw_queue w')"
proof -
  have env: "env_keeps (hist.wrel j) (\<lambda>_. True) E" using assms(2) by (simp add: hist.wrel_def [abs_def])
  have created: "job_history j q q'" if "jr_JobID job \<notin> {j}" "q_CreateJob job q = Some q'" for job q q'
    using that by (intro job_historyI [where es = "[]"]) (auto simp: q_CreateJob_def submissions_def events_of_def split: if_splits)
  have "hist.wrel j w w'" by (rule hist.steps_keep [OF assms(1) env]) (rule created)
  then show ?thesis by (simp add: hist.wrel_def)
qed

lemma wf_steps:
  assumes "(service_step E used)\<^sup>*\<^sup>* w w'" and "env_keeps (\<lambda>w w'. queue_wf (pw_queue w) \<longrightarrow> queue_wf (pw_queue w')) (\<lambda>_. True) E"
    and "queue_wf (pw_queue w)"
  shows "queue_wf (pw_queue w')"
proof -
  have env: "env_keeps wf.wrel (\<lambda>_. True) E" using assms(2) by (simp add: wf.wrel_def [abs_def])
  have "wf.wrel w w'" by (rule wf.steps_keep [OF assms(1) env]) (auto intro: CreateJob_wf)
  then show ?thesis using assms(3) by (simp add: wf.wrel_def)
qed

subsection \<open>Reading events\<close>

definition stored_event :: "prepareEnv \<Rightarrow> Event \<Rightarrow> Event" where
  "stored_event E e = e\<lparr>vn_Result := map_option (stored_result E) (vn_Result e)\<rparr>"

lemma read_result_stored: "read_result E r w = (Inr r', w') \<Longrightarrow> stored_result E r' = stored_result E r"
  by (auto simp: read_result_def hydrateManagedResult_def stored_result_def op_bind_Inr op_return_def op_fail_def split: option.splits)

lemma read_events_stored:
  "read_events E es w = (Inr xs, w') \<Longrightarrow> map (stored_event E) xs = map (\<lambda>e. stored_event E (eventFromRecord e)) es \<and> length xs = length es"
proof (induction es arbitrary: xs w w')
  case Nil
  then show ?case by (simp add: op_return_def)
next
  case (Cons e es)
  then obtain x v ys where x: "(case vn_Result (eventFromRecord e) of None \<Rightarrow> op_return (eventFromRecord e)
       | Some result \<Rightarrow> op_bind (read_result E result) (\<lambda>r. op_return ((eventFromRecord e)\<lparr>vn_Result := Some r\<rparr>))) w = (Inr x, v)"
    and ys: "read_events E es v = (Inr ys, w')" "xs = x # ys"
    by (auto simp: op_bind_Inr op_return_def)
  have "stored_event E x = stored_event E (eventFromRecord e)"
    using x read_result_stored [of E] by (auto simp: stored_event_def op_bind_Inr op_return_def split: option.splits)
  then show ?case using Cons.IH [OF ys(1)] ys(2) by simp
qed

lemma queue_read_Inr: "queue_read f w = (Inr x, w') \<Longrightarrow> x = f (pw_queue w) \<and> pw_queue w' = pw_queue w"
  by (auto simp: queue_read_def p_asks_def p_outgoing_def Let_def split: option.splits)

lemma EventsSince_events:
  assumes "EventsSince E j n w = (Inr (Some (xs, d)), w')"
  shows "map (stored_event E) xs = map (\<lambda>e. stored_event E (eventFromRecord e)) (q_ListEventsSince j n (pw_queue w))"
    and "length xs = length (q_ListEventsSince j n (pw_queue w))" and "j \<in> job_ids (pw_queue w)"
proof -
  obtain job v rs v1 where job: "GetJob j w = (Inr (Some job), v)" and rs: "ListEventsSince j n v = (Inr rs, v1)"
    and xs: "read_events E rs v1 = (Inr xs, w')"
    using assms by (auto simp: EventsSince_def op_bind_Inr op_return_def split: option.splits)
  have v: "q_GetJob j (pw_queue w) = Some job" "pw_queue v = pw_queue w"
    using queue_read_Inr [OF job [unfolded GetJob_def]] by simp_all
  have "rs = q_ListEventsSince j n (pw_queue w)"
    using queue_read_Inr [OF rs [unfolded ListEventsSince_def]] v(2) by simp
  then show "map (stored_event E) xs = map (\<lambda>e. stored_event E (eventFromRecord e)) (q_ListEventsSince j n (pw_queue w))"
    and "length xs = length (q_ListEventsSince j n (pw_queue w))"
    using read_events_stored [OF xs] by simp_all
  show "j \<in> job_ids (pw_queue w)" using v(1) by (auto simp: q_GetJob_def job_ids_def find_Some_iff)
qed

lemma list_since: "queue_wf q \<Longrightarrow> q_ListEventsSince j n q = drop (nat n) (events_of j q)"
proof -
  assume "queue_wf q"
  then have "sorted_wrt (<) (map ev_Seq (events_of j q))"
    by (auto simp: queue_wf_def events_of_def sorted_wrt_map intro: sorted_wrt_filter)
  then have "sort_key ev_Seq (events_of j q) = events_of j q"
    by (intro sort_key_id_if_sorted) (auto intro: sorted_wrt_mono_rel strict_sorted_imp_sorted)
  then show ?thesis by (simp add: q_ListEventsSince_def events_of_def)
qed

text \<open>
  C7: A client that reads the events of a job, and continues where it stopped after any sequence of requests, runs and restarts, has
  read every event of the job exactly once and in order.
\<close>

theorem events_read_once:
  assumes "EventsSince E j (int n) w = (Inr (Some (xs, ended)), w1)" and "(service_step E {j})\<^sup>*\<^sup>* w1 w2"
    and "EventsSince E j (int (n + length xs)) w2 = (Inr (Some (ys, ended')), w3)" and "queue_wf (pw_queue w)"
    and "env_keeps (\<lambda>w w'. job_history j (pw_queue w) (pw_queue w')) (\<lambda>_. True) E"
    and "env_keeps (\<lambda>w w'. queue_wf (pw_queue w) \<longrightarrow> queue_wf (pw_queue w')) (\<lambda>_. True) E"
  shows "map (stored_event E) (xs @ ys) = map (\<lambda>e. stored_event E (eventFromRecord e)) (q_ListEventsSince j (int n) (pw_queue w2))"
proof -
  have steps: "(service_step E {j})\<^sup>*\<^sup>* w w2"
    using step_events [OF assms(1)] assms(2) by (rule converse_rtranclp_into_rtranclp)
  have w2: "queue_wf (pw_queue w2)" by (rule wf_steps [OF steps assms(6,4)])
  obtain es where es: "events_of j (pw_queue w2) = events_of j (pw_queue w) @ es"
    using history_steps [OF steps assms(5)] EventsSince_events(3) [OF assms(3)] unfolding job_history_def by blast
  have len: "length xs = length (events_of j (pw_queue w)) - n"
    using EventsSince_events(2) [OF assms(1)] by (simp add: list_since [OF assms(4)])
  have xs: "map (stored_event E) xs = map (\<lambda>e. stored_event E (eventFromRecord e)) (drop n (events_of j (pw_queue w)))"
    using EventsSince_events(1) [OF assms(1)] by (simp add: list_since [OF assms(4)])
  have ys: "map (stored_event E) ys = map (\<lambda>e. stored_event E (eventFromRecord e)) (drop (n + length xs) (events_of j (pw_queue w2)))"
    using EventsSince_events(1) [OF assms(3)] by (simp add: list_since [OF w2] nat_int_add)
  have "n + (k - n) - k = n - k" for k by arith
  then have "drop n (events_of j (pw_queue w)) @ drop (n + length xs) (events_of j (pw_queue w2)) = drop n (events_of j (pw_queue w2))"
    by (simp add: es len)
  then have "map (\<lambda>e. stored_event E (eventFromRecord e)) (drop n (events_of j (pw_queue w2)))
      = map (stored_event E) xs @ map (stored_event E) ys"
    unfolding xs ys by (metis map_append)
  then show ?thesis by (simp add: list_since [OF w2])
qed

definition ex_event :: Event where
  "ex_event = (plain_event ''log'' ''t'')\<lparr>vn_Message := ''m''\<rparr>"

definition ex_access_env :: prepareEnv where
  "ex_access_env = ex_env\<lparr>pe_access := Some ex_service\<rparr>"

lemma ex_access_env_keeps:
  "(\<And>w. rel w w) \<Longrightarrow> (\<And>r. ok (stored_result ex_access_env r)) \<Longrightarrow> env_keeps rel ok ex_access_env"
proof -
  have env: "ex_access_env = ex_env\<lparr>pe_access := Some ex_service, pe_identity := Some ex_owner, pe_async := False\<rparr>"
    by (simp add: ex_access_env_def ex_env_def)
  show "env_keeps rel ok ex_access_env" if "\<And>w. rel w w" "\<And>r. ok (stored_result ex_access_env r)"
    using that by (subst env, intro ex_env_keeps) (simp_all add: ex_access_env_def)
qed

lemma job_history_refl: "job_history j q q"
  by (rule job_historyI [where es = "[]"]) simp_all

definition ex_events_world :: prepareWorld where
  "ex_events_world = snd (EventsSince ex_access_env ''j'' (int 0) (ex_prepare_world [ex_job ''j'']))"

definition ex_later_world :: prepareWorld where
  "ex_later_world = snd (appendEvent ex_access_env ''j'' (ex_event\<lparr>vn_Result := None\<rparr>) ex_events_world)"

lemma ex_later_step: "(service_step ex_access_env used)\<^sup>*\<^sup>* ex_events_world ex_later_world"
  unfolding ex_later_world_def by (rule r_into_rtranclp, rule step_event) (rule prod.collapse [symmetric])

lemma ex_reads:
  "EventsSince ex_access_env ''j'' (int 0) (ex_prepare_world [ex_job ''j'']) = (Inr (Some ([], False)), ex_events_world)"
  "EventsSince ex_access_env ''j'' (int (0 + length ([] :: Event list))) ex_later_world
    = (Inr (Some ([ex_event], False)), snd (EventsSince ex_access_env ''j'' 0 ex_later_world))"
proof -
  have "fst (EventsSince ex_access_env ''j'' (int 0) (ex_prepare_world [ex_job ''j''])) = Inr (Some ([], False))"
    "fst (EventsSince ex_access_env ''j'' 0 ex_later_world) = Inr (Some ([ex_event], False))" by code_simp+
  then show "EventsSince ex_access_env ''j'' (int 0) (ex_prepare_world [ex_job ''j'']) = (Inr (Some ([], False)), ex_events_world)"
    "EventsSince ex_access_env ''j'' (int (0 + length ([] :: Event list))) ex_later_world
      = (Inr (Some ([ex_event], False)), snd (EventsSince ex_access_env ''j'' 0 ex_later_world))"
    by (simp_all add: ex_events_world_def prod_eq_iff)
qed

lemma events_read_once_witness:
  "map (stored_event ex_access_env) ([] @ [ex_event])
    = map (\<lambda>e. stored_event ex_access_env (eventFromRecord e)) (q_ListEventsSince ''j'' (int 0) (pw_queue ex_later_world))"
  by (rule events_read_once [OF ex_reads(1) ex_later_step ex_reads(2)])
    (simp_all add: ex_queue_wf ex_access_env_keeps job_history_refl)

lemma find_first_filtered: "find P xs = (case filter P xs of [] \<Rightarrow> None | x # _ \<Rightarrow> Some x)"
  by (induction xs) auto

text \<open>
  C8: As long as a job is in the queue, no sequence of requests, runs and restarts changes what it was submitted with: its request,
  image, kind, the time of its submission and the base it was bound to.
\<close>

theorem submission_is_final:
  assumes "(service_step E {j})\<^sup>*\<^sup>* w w'" and "env_keeps (\<lambda>w w'. job_history j (pw_queue w) (pw_queue w')) (\<lambda>_. True) E"
    and "q_GetJob j (pw_queue w') = Some job'"
  shows "\<exists>job. q_GetJob j (pw_queue w) = Some job \<and> jr_RequestJSON job' = jr_RequestJSON job \<and> jr_PrepareKind job' = jr_PrepareKind job
    \<and> jr_ImageID job' = jr_ImageID job \<and> jr_PlanOnly job' = jr_PlanOnly job \<and> jr_CreatedAt job' = jr_CreatedAt job
    \<and> jr_ResolvedImageID job' = jr_ResolvedImageID job \<and> jr_LineageRef job' = jr_LineageRef job
    \<and> jr_IdentityDigest job' = jr_IdentityDigest job"
proof -
  have first: "q_GetJob j q = (case filter (\<lambda>r. jr_JobID r = j) (q_jobs q) of [] \<Rightarrow> None | r # _ \<Rightarrow> Some r)" for q
    unfolding q_GetJob_def by (rule find_first_filtered)
  obtain rest' where rest': "filter (\<lambda>r. jr_JobID r = j) (q_jobs (pw_queue w')) = job' # rest'"
    using assms(3) first [of "pw_queue w'"] by (auto split: list.splits)
  then have "submissions j (pw_queue w') \<noteq> []" by (simp add: submissions_def)
  then have "submissions j (pw_queue w') = submissions j (pw_queue w)"
    using history_steps [OF assms(1,2)] submissions_Nil unfolding job_history_def by blast
  then obtain job rest where "filter (\<lambda>r. jr_JobID r = j) (q_jobs (pw_queue w)) = job # rest" and same: "submission job' = submission job"
    by (cases "filter (\<lambda>r. jr_JobID r = j) (q_jobs (pw_queue w))") (auto simp: submissions_def rest')
  then have "q_GetJob j (pw_queue w) = Some job" by (simp add: first)
  moreover have "f (submission job') = f (submission job)" for f :: "JobRecord \<Rightarrow> 'x" using same by simp
  from this [of jr_RequestJSON] this [of jr_PrepareKind] this [of jr_ImageID] this [of jr_PlanOnly] this [of jr_CreatedAt]
    this [of jr_ResolvedImageID] this [of jr_LineageRef] this [of jr_IdentityDigest]
  have "jr_RequestJSON job' = jr_RequestJSON job" "jr_PrepareKind job' = jr_PrepareKind job" "jr_ImageID job' = jr_ImageID job"
    "jr_PlanOnly job' = jr_PlanOnly job" "jr_CreatedAt job' = jr_CreatedAt job" "jr_ResolvedImageID job' = jr_ResolvedImageID job"
    "jr_LineageRef job' = jr_LineageRef job" "jr_IdentityDigest job' = jr_IdentityDigest job"
    by (simp_all add: submission_def)
  ultimately show ?thesis by blast
qed

lemma submission_is_final_witness:
  "\<exists>job'. q_GetJob ''j'' (pw_queue ex_later_world) = Some job' \<and> jr_RequestJSON job' = Some (Encodes ex_request)"
proof -
  have "q_GetJob ''j'' (pw_queue ex_later_world) = Some (ex_job ''j'')" by code_simp
  moreover have "q_GetJob ''j'' (pw_queue ex_events_world) = Some (ex_job ''j'')" by code_simp
  moreover have "jr_RequestJSON (ex_job ''j'') = Some (Encodes ex_request)" by (simp add: ex_job_def)
  ultimately show ?thesis
    using submission_is_final [OF ex_later_step, of "''j''" "ex_job ''j''"] by (simp add: ex_access_env_keeps job_history_refl)
qed

subsection \<open>Credentials\<close>

definition no_credentials :: "PrepareResult \<Rightarrow> bool" where
  "no_credentials r \<longleftrightarrow> rs_DSN r = []"

definition credentials_free :: "queueTables \<Rightarrow> bool" where
  "credentials_free q \<longleftrightarrow> (\<forall>j \<in> set (q_jobs q). result_ok no_credentials (jr_ResultJSON j))
     \<and> (\<forall>e \<in> set (q_events q). result_ok no_credentials (ev_ResultJSON e))"

lemma credentials_free_sub:
  "credentials_free q \<Longrightarrow> set (q_jobs q') \<subseteq> set (q_jobs q) \<Longrightarrow> set (q_events q') \<subseteq> set (q_events q) \<Longrightarrow> credentials_free q'"
  unfolding credentials_free_def by blast

interpretation cred: queue_relation "\<lambda>q q'. credentials_free q \<longrightarrow> credentials_free q'" no_credentials
proof
  show "credentials_free q \<longrightarrow> credentials_free q'" if u: "update_ok no_credentials u" and q: "q_UpdateJob k u q = Some q'" for u k q q'
  proof -
    have "result_ok no_credentials (jr_ResultJSON r) \<Longrightarrow> result_ok no_credentials (jr_ResultJSON (update_job_row u r))" for r
      using u by (auto simp: update_ok_def update_job_row_def set_null_def split: option.split)
    then show ?thesis using q by (auto simp: q_UpdateJob_def credentials_free_def split: if_splits)
  qed
  show "credentials_free q \<longrightarrow> credentials_free q'" if "result_ok no_credentials (ev_ResultJSON e)" "q_AppendEvent e q = Some q'" for e q q'
    using that by (auto simp: q_AppendEvent_def credentials_free_def split: if_splits)
  show "credentials_free q \<longrightarrow> credentials_free (q_DeleteJob k q)" "credentials_free q \<longrightarrow> credentials_free (q_DeleteTasks k q)" for k q
    using credentials_free_sub [of q "q_DeleteJob k q"] credentials_free_sub [of q "q_DeleteTasks k q"]
    by (auto simp: q_DeleteJob_def q_DeleteTasks_def)
  show "credentials_free q \<longrightarrow> credentials_free q'" if "q_InsertTask t q = Some q'" for t q q'
    using that by (auto simp: q_InsertTask_def credentials_free_def split: if_splits)
  show "credentials_free q \<longrightarrow> credentials_free q'" if "q_UpdateTask k i v q = Some q'" for k i v q q'
    using that by (auto simp: q_UpdateTask_def credentials_free_def split: if_splits)
qed simp_all



end
