(* ===== verification/Prepare_Outcome.thy ===== *)
theory Prepare_Outcome
  imports Prepare_Relation
begin

text \<open>How a run ends when the engine's own calls do not fail: whatever the executor answers, the job has an outcome.\<close>

subsection \<open>Calls that do not fail\<close>

definition same_faults :: "prepareWorld \<Rightarrow> prepareWorld \<Rightarrow> bool" where
  "same_faults w w' \<longleftrightarrow> w_fault (pw_engine w') = w_fault (pw_engine w)"

interpretation sf: service_relation same_faults
  by unfold_locales (auto simp: same_faults_def same_service_def)

lemma same_faults_write: "sf.keeps (queue_write f)"
  unfolding queue_write_def by (rule sf.within_p_outgoing) (simp add: same_faults_def split: option.split)

interpretation flt: job_relation same_faults "\<lambda>_. True"
proof unfold_locales
  show "evicts UNIV w w' \<Longrightarrow> same_faults w w'" for w w' by (auto simp: evicts_def same_faults_def)
  show "same_faults w (w\<lparr>pw_running := js\<rparr>)" for w js by (simp add: same_faults_def)
qed (auto simp: UpdateJob_def AppendEvent_def DeleteJob_def UpdateTask_def same_faults_write)

lemma fault_free: "same_faults w w' \<Longrightarrow> no_faults (pw_engine w) \<Longrightarrow> no_faults (pw_engine w')"
  by (simp add: same_faults_def no_faults_def)

subsection \<open>A job with an outcome\<close>

definition settled :: "bytes \<Rightarrow> prepareWorld \<Rightarrow> bool" where
  "settled j w \<longleftrightarrow> (\<forall>r \<in> set (q_jobs (pw_queue w)). jr_JobID r = j \<longrightarrow> terminal (jr_Status r))"

definition stays_settled :: "bytes \<Rightarrow> prepareWorld \<Rightarrow> prepareWorld \<Rightarrow> bool" where
  "stays_settled j w w' \<longleftrightarrow> (settled j w \<longrightarrow> settled j w')"

interpretation sr: service_relation "stays_settled j" for j
  by unfold_locales (auto simp: stays_settled_def settled_def same_service_def)

interpretation st: log_relation "stays_settled j" "\<lambda>_. True" for j
proof unfold_locales
  have rows: "sr.keeps j (queue_write f)" if "\<And>q q'. f q = Some q' \<Longrightarrow> set (q_jobs q') \<subseteq> set (q_jobs q)" for f
    unfolding queue_write_def
    by (rule sr.within_p_outgoing) (use that in \<open>auto simp: stays_settled_def settled_def split: option.split\<close>)
  show "stays_settled j w (w\<lparr>pw_disk := d\<rparr>)" for w d by (simp add: stays_settled_def settled_def)
  show "sr.keeps j (AppendEvent e)" for e
    unfolding AppendEvent_def by (intro sr.within_bind sr.within_service_reads rows) (auto simp: q_AppendEvent_def split: if_splits)
  show "sr.keeps j (DeleteJob k)" for k
    unfolding DeleteJob_def by (rule rows) (auto simp: q_DeleteJob_def)
qed

definition ends :: "bytes \<Rightarrow> 'a pop \<Rightarrow> bool" where
  "ends j m \<longleftrightarrow> (\<forall>w. no_faults (pw_engine w) \<longrightarrow> settled j (snd (m w)))"

lemma endsD: "ends j m \<Longrightarrow> no_faults (pw_engine w) \<Longrightarrow> m w = (r, w') \<Longrightarrow> settled j w'"
  by (auto simp: ends_def)

lemma ends_bind:
  assumes "sf.keeps m" and "\<And>w. \<not> isl (fst (m w))" and "\<And>x. ends j (k x)"
  shows "ends j (op_bind m k)"
  unfolding ends_def
proof (intro allI impI)
  fix w :: prepareWorld assume w: "no_faults (pw_engine w)"
  obtain x v where m: "m w = (Inr x, v)" using assms(2) [of w] by (cases "m w"; cases "fst (m w)") auto
  have "no_faults (pw_engine v)" by (rule fault_free [OF sf.withinD [OF assms(1) m] w])
  then show "settled j (snd (op_bind m k w))" using assms(3) by (simp add: op_bind_def m ends_def)
qed

lemma ends_try:
  assumes "sf.keeps m" and "\<And>r. ends j (k r)"
  shows "ends j (op_try m k)"
  unfolding ends_def
proof (intro allI impI)
  fix w :: prepareWorld assume w: "no_faults (pw_engine w)"
  obtain r v where m: "m w = (r, v)" by (cases "m w")
  have "no_faults (pw_engine v)" by (rule fault_free [OF sf.withinD [OF assms(1) m] w])
  then show "settled j (snd (op_try m k w))" using assms(2) by (simp add: op_try_def m ends_def)
qed

lemma ends_after: "ends j m \<Longrightarrow> (\<And>r. sr.keeps j (k r)) \<Longrightarrow> ends j (op_try m k)"
  unfolding ends_def op_try_def sr.keeps_def stays_settled_def by (auto split: prod.split)

text \<open>The statement that sets the status.\<close>

lemma UpdateJob_ends:
  assumes "j \<noteq> []" and "ju_Status u = Some status" and "terminal status"
  shows "ends j (UpdateJob j u)" and "no_faults (pw_engine w) \<Longrightarrow> \<exists>v. UpdateJob j u w = (Inr (), v)"
proof -
  have u: "u \<noteq> no_job_update" using assms(2) by (auto simp: no_job_update_def)
  have run: "UpdateJob j u w = (Inr (), w\<lparr>pw_engine := (pw_engine w)\<lparr>w_calls := Suc (w_calls (pw_engine w))\<rparr>,
      pw_queue := (pw_queue w)\<lparr>q_jobs := map (\<lambda>r. if jr_JobID r = j then update_job_row u r else r) (q_jobs (pw_queue w))\<rparr>\<rparr>)"
    if free: "no_faults (pw_engine w)" for w :: prepareWorld
  proof -
    have "w_fault (pw_engine w) (w_calls (pw_engine w)) = None" using free by (simp add: no_faults_def)
    then show ?thesis using assms(1) u by (simp add: UpdateJob_def queue_write_def p_outgoing_def Let_def q_UpdateJob_def)
  qed
  then show "no_faults (pw_engine w) \<Longrightarrow> \<exists>v. UpdateJob j u w = (Inr (), v)" by blast
  show "ends j (UpdateJob j u)"
    unfolding ends_def
  proof (intro allI impI)
    fix w :: prepareWorld assume w: "no_faults (pw_engine w)"
    have "terminal (jr_Status (update_job_row u r))" for r
      by (simp add: update_job_row_def set_to_def assms(2,3))
    then show "settled j (snd (UpdateJob j u w))"
      unfolding run [OF w] by (simp add: settled_def ball_Un)
  qed
qed

lemma now_text_Inr: "\<not> isl (fst (now_text w))"
  by (simp add: now_text_def op_bind_def read_clock_def op_return_def Let_def split: prod.split)

lemma sf_now: "sf.keeps now_text"
  unfolding now_text_def by (auto simp: sf.keeps_def op_bind_def read_clock_def op_return_def same_faults_def Let_def split: prod.split)

lemma op_bind_try: "op_bind m k = op_try m (\<lambda>r. case r of Inl e \<Rightarrow> op_fail e | Inr x \<Rightarrow> k x)"
  by (simp add: op_bind_def op_try_def op_fail_def fun_eq_iff split: prod.split sum.split)

lemma ends_before: "ends j m \<Longrightarrow> (\<And>x. sr.keeps j (k x)) \<Longrightarrow> ends j (op_bind m k)"
  unfolding op_bind_try by (rule ends_after) (auto split: sum.split)

lemma ends_ways:
  assumes "j \<noteq> []"
  shows "ends j (succeed E j result)" "ends j (succeedPlan E j)" "ends j (failJob E j err)" "ends j (fail_with E j err)"
proof -
  have e: "\<forall>r. True" by simp
  have set: "ends j (op_bind (UpdateJob j u) k)" if "ju_Status u = Some status" "terminal status" "\<And>x. sr.keeps j (k x)"
    for u status and k :: "unit \<Rightarrow> unit pop"
    by (rule ends_before [OF UpdateJob_ends(1) [OF assms that(1,2)] that(3)])
  show "ends j (succeed E j result)" "ends j (succeedPlan E j)" and failed: "ends j (failJob E j err)"
    unfolding succeed_def succeedPlan_def failJob_def
    by (intro ends_bind [OF sf_now now_text_Inr] set sr.within_bind st.within_appendEvent e st.within_trim,
        simp add: no_job_update_def, simp add: terminal_def)+
  have "fail_with E j err = op_try (failJob E j err) (\<lambda>_. op_return False)"
    by (simp add: fail_with_def ignoring_def op_bind_def op_try_def op_return_def fun_eq_iff split: prod.split)
  then show "ends j (fail_with E j err)" using failed by (simp add: ends_after)
qed

lemma ends_or_fail: "j \<noteq> [] \<Longrightarrow> sf.keeps m \<Longrightarrow> (\<And>x. ends j (k x)) \<Longrightarrow> ends j (or_fail E j h m k)"
  unfolding or_fail_def by (intro ends_try) (auto simp: ends_ways split: sum.split)

lemma ends_succeeded: "ends j m \<Longrightarrow> ends j (succeeded m)"
  unfolding succeeded_def by (rule ends_after) auto

text \<open>A run reports nothing to its caller.\<close>

definition answers :: "'a pop \<Rightarrow> bool" where
  "answers m \<longleftrightarrow> (\<forall>w. \<not> isl (fst (m w)))"

lemma answers_steps:
  "(\<And>x. answers (k x)) \<Longrightarrow> answers (op_try m k)" "(\<And>x. answers (k' x)) \<Longrightarrow> answers (op_bind (get_world f) k')" "answers (op_return x)"
  by (auto simp: answers_def op_try_def op_bind_def get_world_def op_return_def split: prod.split)

lemma answers_bind: "answers m \<Longrightarrow> (\<And>x. answers (k x)) \<Longrightarrow> answers (op_bind m k)"
  unfolding answers_def
proof
  fix w :: prepareWorld
  assume m: "\<forall>w. \<not> isl (fst (m w))" and k: "\<And>x. \<forall>w. \<not> isl (fst (k x w))"
  obtain x v where "m w = (Inr x, v)" using m [rule_format, of w] by (cases "m w"; cases "fst (m w)") auto
  then show "\<not> isl (fst (op_bind m k w))" using k by (simp add: op_bind_def)
qed

lemma answers_ignoring: "answers (ignoring m)"
  unfolding ignoring_def by (intro answers_steps)

lemma answers_ends: "answers (fail_with E j err)" "answers (succeeded m')"
  unfolding fail_with_def succeeded_def by (intro answers_bind answers_ignoring answers_steps)+

lemma answers_or_fail: "(\<And>x. answers (k x)) \<Longrightarrow> answers (or_fail E j h m k)"
  unfolding or_fail_def by (intro answers_steps) (auto simp: answers_ends split: sum.split)

lemma answersE:
  assumes "answers m"
  obtains x v where "m w = (Inr x, v)"
  using assms by (cases "m w"; cases "fst (m w)") (auto simp: answers_def dest: spec [where x = w])

lemma answers_now: "answers now_text"
  by (simp add: answers_def now_text_Inr)

lemma answers_if: "answers m \<Longrightarrow> answers m' \<Longrightarrow> answers (if b then m else m')"
  by simp

lemma answers_run_tasks: "answers (run_tasks E j p s ts)"
proof (induction ts arbitrary: p s)
  case Nil
  show ?case unfolding run_tasks.simps last_step_def by (intro answers_if answers_or_fail answers_ends)
next
  case (Cons t ts)
  have failed: "answers (fail_task E j i err)" for i err
    unfolding fail_task_def by (intro answers_bind answers_now answers_ignoring answers_ends)
  have executed: "answers (case r of Inl e \<Rightarrow> fail_task E j (pt_TaskID (tt_task t)) e
      | Inr (p', s', result) \<Rightarrow> or_fail E j cannot_update (finish_task E j (pt_TaskID (tt_task t)))
          (\<lambda>_. case result of Some x \<Rightarrow> succeeded (succeed E j x) | None \<Rightarrow> run_tasks E j p' s' ts))" for r
    using failed Cons.IH by (auto intro!: answers_or_fail answers_ends split: sum.split option.split)
  show ?case
    by (simp only: run_tasks.simps Let_def, intro answers_steps answers_if answers_or_fail answers_ends Cons.IH executed)
qed

lemma answers_run_body: "answers (run_body E p j)"
proof -
  have "answers (run_started E p j)"
    unfolding run_started_def mark_running_def
    by (intro answers_bind answers_now answers_ignoring answers_or_fail)
      (auto intro!: answers_if answers_or_fail answers_ends answers_run_tasks)
  then show ?thesis
    unfolding run_body_def
    by (intro answers_or_fail) (auto intro!: answers_steps answers_ends split: option.split)
qed

subsection \<open>Every way through a run\<close>

lemma ends_if: "(b \<Longrightarrow> ends j m) \<Longrightarrow> (\<not> b \<Longrightarrow> ends j m') \<Longrightarrow> ends j (if b then m else m')"
  by simp

lemma ends_get: "(\<And>x. ends j (k x)) \<Longrightarrow> ends j (op_bind (get_world f) k)"
  by (rule ends_bind) (auto simp: get_world_def)

lemma ends_fail_task:
  assumes "j \<noteq> []" and env: "env_keeps same_faults (\<lambda>_. True) E"
  shows "ends j (fail_task E j i err)"
proof -
  have "\<not> isl (fst (ignoring m w))" for m :: "'x pop" and w
    by (simp add: ignoring_def op_try_def op_return_def split: prod.split)
  then show ?thesis
    unfolding fail_task_def
    by (intro ends_bind [OF sf_now now_text_Inr] ends_bind [OF sf.within_ignoring] flt.within_updateTaskStatus [OF env] ends_ways [OF assms(1)])
qed

lemma ends_last_step:
  assumes "j \<noteq> []" and env: "env_keeps same_faults (\<lambda>_. True) E"
  shows "ends j (last_step E j p s)"
  unfolding last_step_def
  by (intro ends_if ends_or_fail [OF assms(1)] flt.env_keepsD [OF env] ends_succeeded ends_ways [OF assms(1)])

lemma ends_run_tasks:
  assumes "j \<noteq> []" and env: "env_keeps same_faults (\<lambda>_. True) E"
  shows "ends j (run_tasks E j p s ts)"
proof (induction ts arbitrary: p s)
  case Nil
  then show ?case by (simp add: ends_last_step [OF assms])
next
  case (Cons t ts)
  have executed: "ends j (case r of Inl e \<Rightarrow> fail_task E j (pt_TaskID (tt_task t)) e
      | Inr (p', s', result) \<Rightarrow> or_fail E j cannot_update (finish_task E j (pt_TaskID (tt_task t)))
          (\<lambda>_. case result of Some x \<Rightarrow> succeeded (succeed E j x) | None \<Rightarrow> run_tasks E j p' s' ts))" for r
    using ends_fail_task [OF assms] Cons.IH
    by (auto intro!: ends_or_fail [OF assms(1)] flt.within_updateTaskStatus [OF env] ends_succeeded ends_ways [OF assms(1)]
        split: sum.split option.split)
  show ?case
    by (simp only: run_tasks.simps Let_def, intro ends_get ends_if ends_or_fail [OF assms(1)] ends_ways [OF assms(1)] Cons.IH
        flt.within_updateTaskStatus [OF env] flt.within_run_task [OF env] ends_try executed)
qed

lemma ends_run_started:
  assumes "j \<noteq> []" and env: "env_keeps same_faults (\<lambda>_. True) E"
  shows "ends j (run_started E p j)"
proof -
  have "answers (mark_running E j p)"
    unfolding mark_running_def by (intro answers_bind answers_now answers_ignoring)
  then have marked: "\<not> isl (fst (mark_running E j p w))" for w by (simp add: answers_def)
  show ?thesis
    unfolding run_started_def
  proof (intro ends_bind [OF flt.within_mark_running [OF env] marked] ends_or_fail [OF assms(1)] flt.env_keepsD [OF env]
      flt.within_loadOrPlanTasks [OF env])
    fix x :: "taskState list \<times> bytes"
    show "ends j (case x of (tasks, stateID) \<Rightarrow> if rq_PlanOnly (pr_request p)
        then or_fail E j cannot_update (markTasksSucceeded E j tasks) (\<lambda>_. succeeded (succeedPlan E j)) else run_tasks E j p stateID tasks)"
      by (auto intro!: ends_or_fail [OF assms(1)] flt.within_updateTaskStatus [OF env] ends_succeeded ends_ways [OF assms(1)]
          ends_run_tasks [OF assms] split: prod.split)
  qed
qed

lemma GetJob_runs: "no_faults (pw_engine w) \<Longrightarrow> \<exists>w'. GetJob j w = (Inr (q_GetJob j (pw_queue w)), w') \<and> pw_queue w' = pw_queue w"
  by (auto simp: GetJob_def queue_read_def p_asks_def p_outgoing_def Let_def no_faults_def)

lemma find_unique: "distinct (map jr_JobID rows) \<Longrightarrow> r \<in> set rows \<Longrightarrow> jr_JobID r = j \<Longrightarrow> find (\<lambda>x. jr_JobID x = j) rows = Some r"
  by (induction rows) auto

lemma q_GetJob_settled:
  assumes "queue_wf (pw_queue w)" and "\<forall>r. q_GetJob j (pw_queue w) = Some r \<longrightarrow> terminal (jr_Status r)"
  shows "settled j w"
proof -
  have "q_GetJob j (pw_queue w) = Some r" if "r \<in> set (q_jobs (pw_queue w))" "jr_JobID r = j" for r
  proof -
    have "distinct (map jr_JobID (q_jobs (pw_queue w)))" using assms(1) by (simp add: queue_wf_def)
    then have "find (\<lambda>x. jr_JobID x = j) (q_jobs (pw_queue w)) = Some r"
      using that by (rule find_unique)
    then show ?thesis by (simp add: q_GetJob_def)
  qed
  then show ?thesis using assms(2) by (simp add: settled_def)
qed

lemma ends_run_body:
  assumes "j \<noteq> []" and env: "env_keeps same_faults (\<lambda>_. True) E" and w: "no_faults (pw_engine w)" and wf: "queue_wf (pw_queue w)"
  shows "settled j (snd (run_body E p j w))"
proof -
  obtain v where v: "GetJob j w = (Inr (q_GetJob j (pw_queue w)), v)" "pw_queue v = pw_queue w" using GetJob_runs [OF w] by blast
  have free: "no_faults (pw_engine v)" by (rule fault_free [OF sf.withinD [OF flt.within_queue(1) v(1)] w])
  let ?k = "\<lambda>found. case found of None \<Rightarrow> op_return False
       | Some r \<Rightarrow> if terminal (jr_Status r) then op_return False
          else op_bind (get_world (pe_cancelled E j)) (\<lambda>cancelled. if cancelled then fail_with E j job_cancelled else run_started E p j)"
  have run: "run_body E p j w = ?k (q_GetJob j (pw_queue w)) v"
    by (simp add: run_body_def or_fail_def op_try_def v)
  show ?thesis
  proof (cases "\<forall>r. q_GetJob j (pw_queue w) = Some r \<longrightarrow> terminal (jr_Status r)")
    case True
    then have "settled j v" using q_GetJob_settled [OF wf] v(2) by (simp add: settled_def)
    then show ?thesis unfolding run using True by (simp add: op_return_def split: option.split)
  next
    case False
    then obtain r where r: "q_GetJob j (pw_queue w) = Some r" "\<not> terminal (jr_Status r)" by blast
    have "ends j (op_bind (get_world (pe_cancelled E j)) (\<lambda>cancelled. if cancelled then fail_with E j job_cancelled else run_started E p j))"
      by (intro ends_get ends_if ends_ways assms ends_run_started)
    then show ?thesis unfolding run using free r by (simp add: ends_def)
  qed
qed

text \<open>
  C5: When the engine's own calls do not fail, every run ends: whatever its steps, the executor and the runtime answer, and whenever
  it is cancelled, the job has then succeeded or failed, or is gone, and is no longer registered as running.
\<close>

theorem job_ends:
  assumes "no_faults (pw_engine w)" and "queue_wf (pw_queue w)" and "j \<noteq> []"
    and "env_keeps same_faults (\<lambda>_. True) E" and "\<And>v. q_jobs (pw_queue (snd (pe_cleanupRuntime E j v))) = q_jobs (pw_queue v)"
  shows "\<exists>w'. runJob E p j w = (Inr (), w') \<and> j \<notin> set (pw_running w')
    \<and> (\<forall>r. q_GetJob j (pw_queue w') = Some r \<longrightarrow> terminal (jr_Status r))"
proof -
  define v where "v = w\<lparr>pw_running := j # pw_running w\<rparr>"
  obtain b u where b: "run_body E p j v = (Inr b, u)"
    by (rule answersE [OF answers_run_body])
  have "settled j u" using ends_run_body [OF assms(3,4), of v p] assms(1,2) b by (simp add: v_def)
  then have "settled j (snd (pe_cleanupRuntime E j u))" by (simp add: settled_def assms(5))
  moreover have "settled j w' \<Longrightarrow> q_GetJob j (pw_queue w') = Some r \<Longrightarrow> terminal (jr_Status r)" for w' r
    by (auto simp: settled_def q_GetJob_def find_Some_iff)
  ultimately show ?thesis
    using \<open>settled j u\<close> b
    by (auto simp: runJob_def registerRunner_def unregisterRunner_def op_bind_def set_world_def ignoring_def op_try_def op_return_def
        v_def settled_def split: prod.split)
qed

lemma job_ends_witness:
  "\<exists>w'. runJob ex_env (ex_prepared (CommandInput ''x'')) ''j'' (ex_prepare_world [ex_job ''j'']) = (Inr (), w') \<and> ''j'' \<notin> set (pw_running w')
    \<and> (\<forall>r. q_GetJob ''j'' (pw_queue w') = Some r \<longrightarrow> terminal (jr_Status r))"
proof (rule job_ends)
  show "no_faults (pw_engine (ex_prepare_world [ex_job ''j'']))" by (simp add: no_faults_def ex_prepare_world_def ex_engine_world_def)
  show "queue_wf (pw_queue (ex_prepare_world [ex_job ''j'']))" by (rule ex_queue_wf) simp
  have env: "ex_env = ex_env\<lparr>pe_access := None, pe_identity := Some ex_owner, pe_async := False\<rparr>" by (simp add: ex_env_def)
  show "env_keeps same_faults (\<lambda>_. True) ex_env" by (subst env, rule ex_env_keeps) (simp_all add: same_faults_def)
qed (simp_all add: ex_env_def op_return_def)

end
