(* ===== verification/Prepare_Service_Props.thy ===== *)
theory Prepare_Service_Props
  imports Prepare_History_Props Prepare_Outcome
begin

text \<open>
  What the requests of the service do: which completed jobs the retention deletes, what recovery makes of a stored job, and
  that explaining the cache writes nothing.
\<close>

subsection \<open>Retention\<close>

definition without_jobs :: "bytes set \<Rightarrow> queueTables \<Rightarrow> queueTables" where
  "without_jobs D q = q\<lparr>q_jobs := filter (\<lambda>r. jr_JobID r \<notin> D) (q_jobs q), q_tasks := filter (\<lambda>t. tk_JobID t \<notin> D) (q_tasks q),
     q_events := filter (\<lambda>e. ev_JobID e \<notin> D) (q_events q)\<rparr>"

lemma without_no_jobs: "without_jobs {} q = q"
  by (simp add: without_jobs_def)

lemma without_another: "q_DeleteJob j (without_jobs D q) = without_jobs (insert j D) q"
  by (simp add: without_jobs_def q_DeleteJob_def conj_commute)

lemma queue_of_removeJobDir: "pw_queue (snd (removeJobDir E j w)) = pw_queue w"
  by (auto simp: removeJobDir_def Let_def op_bind_def ignoring_def op_try_def op_return_def RemovePath_def p_modify_def p_outgoing_def
      split: prod.split sum.split option.split)

definition uncancelled :: "prepareEnv \<Rightarrow> bytes option \<Rightarrow> bool" where
  "uncancelled E ctx \<longleftrightarrow> (\<forall>j w. ctx = Some j \<longrightarrow> \<not> pe_cancelled E j w)"

lemma delete_step:
  "\<exists>u. (delete_jobs E ctx (job # rest) w :: ('e + unit) \<times> prepareWorld) = delete_jobs E ctx rest u
    \<and> pw_queue u \<in> {pw_queue w, q_DeleteJob (jr_JobID job) (pw_queue w)}
    \<and> (no_faults (pw_engine w) \<and> uncancelled E ctx \<longrightarrow> no_faults (pw_engine u) \<and> pw_queue u = q_DeleteJob (jr_JobID job) (pw_queue w))"
proof -
  let ?delete = "in_ctx E ctx (DeleteJob (jr_JobID job)) :: unit pop" 
    and ?dir = "ignoring (removeJobDir E (jr_JobID job)) :: prepareWorld \<Rightarrow> ('e + unit) \<times> prepareWorld"
  obtain r v where v: "?delete w = (r, v)" by (cases "?delete w")
  define u where "u = (case r of Inl _ \<Rightarrow> v | Inr _ \<Rightarrow> snd (?dir v))"
  have "?dir v = (Inr (), snd (?dir v))" by (simp add: ignoring_def op_try_def op_return_def split: prod.split)
  then have run: "(delete_jobs E ctx (job # rest) w :: ('e + unit) \<times> prepareWorld) = delete_jobs E ctx rest u"
    by (cases r; cases "?dir v") (simp_all add: u_def op_try_def op_bind_def v)
  have dir: "pw_queue (snd (?dir x)) = pw_queue x" for x
    using queue_of_removeJobDir [of E "jr_JobID job" x]
    by (cases "removeJobDir E (jr_JobID job) x") (simp add: ignoring_def op_try_def op_return_def)
  have faults: "same_faults w u"
  proof -
    have "same_faults w v" by (rule sf.withinD [OF flt.within_ctx [OF flt.kept_DeleteJob] v])
    moreover have "sf.keeps ?dir" by (rule sf.within_ignoring) (rule flt.within_removeJobDir)
    then have "same_faults v (snd (?dir v))" by (simp add: sf.keeps_def)
    ultimately show ?thesis by (auto simp: u_def same_faults_def split: sum.split)
  qed
  have "pw_queue u \<in> {pw_queue w, q_DeleteJob (jr_JobID job) (pw_queue w)}"
    using v by (auto simp: u_def dir in_ctx_def DeleteJob_def queue_write_def p_outgoing_def Let_def split: option.splits if_splits sum.splits)
  moreover have "pw_queue u = q_DeleteJob (jr_JobID job) (pw_queue w)" if "no_faults (pw_engine w)" "uncancelled E ctx"
    using v that by (auto simp: u_def dir in_ctx_def DeleteJob_def queue_write_def p_outgoing_def Let_def uncancelled_def no_faults_def
        split: option.splits if_splits sum.splits)
  ultimately show ?thesis using run fault_free [OF faults] by blast
qed

lemma delete_jobs_queue:
  assumes "pw_queue w = without_jobs C q"
  shows "\<exists>D \<subseteq> jr_JobID ` set jobs. pw_queue (snd (delete_jobs E ctx jobs w :: ('e + unit) \<times> prepareWorld)) = without_jobs (C \<union> D) q
    \<and> (no_faults (pw_engine w) \<and> uncancelled E ctx \<longrightarrow> D = jr_JobID ` set jobs)"
  using assms
proof (induction jobs arbitrary: w C)
  case Nil
  then show ?case by (auto simp: op_return_def)
next
  case (Cons job jobs)
  obtain u where run: "(delete_jobs E ctx (job # jobs) w :: ('e + unit) \<times> prepareWorld) = delete_jobs E ctx jobs u"
    and u: "pw_queue u \<in> {pw_queue w, q_DeleteJob (jr_JobID job) (pw_queue w)}"
    and ok: "no_faults (pw_engine w) \<and> uncancelled E ctx \<longrightarrow> no_faults (pw_engine u) \<and> pw_queue u = q_DeleteJob (jr_JobID job) (pw_queue w)"
    using delete_step [of E ctx job jobs w] by blast
  define B where "B = (if pw_queue u = q_DeleteJob (jr_JobID job) (pw_queue w) then {jr_JobID job} else {})"
  have "pw_queue u = without_jobs (C \<union> B) q"
    using u Cons.prems by (cases "pw_queue u = q_DeleteJob (jr_JobID job) (pw_queue w)") (simp_all add: B_def without_another)
  from Cons.IH [OF this] obtain D where D: "D \<subseteq> jr_JobID ` set jobs"
    "pw_queue (snd (delete_jobs E ctx jobs u :: ('e + unit) \<times> prepareWorld)) = without_jobs (C \<union> B \<union> D) q"
    "no_faults (pw_engine u) \<and> uncancelled E ctx \<longrightarrow> D = jr_JobID ` set jobs" by (elim exE conjE)
  have "B \<union> D \<subseteq> jr_JobID ` set (job # jobs)" using D(1) by (simp add: B_def subset_insertI2)
  moreover have "no_faults (pw_engine w) \<and> uncancelled E ctx \<longrightarrow> B \<union> D = jr_JobID ` set (job # jobs)"
    using ok D(3) by (simp add: B_def)
  moreover have "pw_queue (snd (delete_jobs E ctx jobs u :: ('e + unit) \<times> prepareWorld)) = without_jobs (C \<union> (B \<union> D)) q" using D(2) by (simp only: Un_assoc)
  ultimately show ?case unfolding run by (intro exI [of _ "B \<union> D"] conjI)
qed

lemma filter_order_desc: "filter P (order_desc k xs) = order_desc k (filter P xs)"
  by (simp add: order_desc_def rev_filter filter_sort [symmetric])

lemma listed_without: "q_ListJobsBySignature sg ss (without_jobs D q) = filter (\<lambda>r. jr_JobID r \<notin> D) (q_ListJobsBySignature sg ss q)"
  by (auto simp: q_ListJobsBySignature_def without_jobs_def filter_order_desc conj_commute intro!: arg_cong [where f = "order_desc _"])

lemma take_without:
  assumes "distinct (map f xs)"
  shows "filter (\<lambda>x. f x \<notin> f ` set (drop n xs)) xs = take n xs"
proof -
  have "distinct (map f (take n xs @ drop n xs))" using assms by simp
  then have "\<forall>x \<in> set (take n xs). f x \<notin> f ` set (drop n xs)" unfolding map_append distinct_append by auto
  then have "filter (\<lambda>x. f x \<notin> f ` set (drop n xs)) (take n xs @ drop n xs) = take n xs"
    by (simp del: append_take_drop_id add: filter_empty_conv)
  then show ?thesis by simp
qed

lemma distinct_listed: "queue_wf q \<Longrightarrow> distinct (map jr_JobID (q_ListJobsBySignature sg ss q))"
proof -
  assume "queue_wf q"
  then have "distinct (map jr_JobID (filter P (q_jobs q)))" for P by (simp add: queue_wf_def distinct_map_filter)
  moreover have "mset (map jr_JobID (order_desc k xs)) = mset (map jr_JobID xs)" for k xs by (simp add: order_desc_def)
  ultimately show ?thesis by (metis (no_types, lifting) mset_eq_imp_distinct_iff distinct.simps(1) list.simps(8) q_ListJobsBySignature_def)
qed

abbreviation completed :: "bytes list" where
  "completed \<equiv> [StatusSucceeded, StatusFailed]"

lemma order_desc_take:
  assumes "a \<in> set (take n (order_desc k xs))" and "b \<in> set (drop n (order_desc k xs))"
  shows "k b \<le> k a"
proof -
  have "sorted (rev (map k (order_desc k xs)))" by (simp add: order_desc_def rev_map)
  then have "sorted_wrt (\<lambda>x y. k y \<le> k x) (take n (order_desc k xs) @ drop n (order_desc k xs))"
    by (simp add: sorted_wrt_rev sorted_wrt_map)
  then show ?thesis using assms unfolding sorted_wrt_append by blast
qed

lemma trimmed_jobs:
  assumes "queue_wf (pw_queue w)" and "trimCompletedJobsBySignature E ctx sg w = (r :: 'e + unit, w')" and "n = maxIdenticalJobs (pw_config w)"
  shows "\<exists>D. pw_queue w' = without_jobs D (pw_queue w) \<and> (n \<le> 0 \<longrightarrow> D = {})
    \<and> D \<subseteq> jr_JobID ` set (drop (nat n) (q_ListJobsBySignature sg completed (pw_queue w)))
    \<and> (no_faults (pw_engine w) \<and> uncancelled E ctx \<and> 0 < n \<longrightarrow>
        q_ListJobsBySignature sg completed (pw_queue w') = take (nat n) (q_ListJobsBySignature sg completed (pw_queue w)))"
proof -
  define list where "list = q_ListJobsBySignature sg completed (pw_queue w)"
  have dist: "distinct (map jr_JobID list)" unfolding list_def by (rule distinct_listed [OF assms(1)])
  show ?thesis
  proof (cases "n \<le> 0 \<or> TrimSpace sg = []")
    case True
    then have "w' = w" using assms(2,3) by (auto simp: trimCompletedJobsBySignature_def op_bind_def get_world_def op_return_def)
    then show ?thesis using True by (intro exI [of _ "{}"]) (auto simp: without_no_jobs q_ListJobsBySignature_def)
  next
    case False
    obtain x v where read: "in_ctx E ctx (ListJobsBySignature sg completed) w = (x, v)"
      by (cases "in_ctx E ctx (ListJobsBySignature sg completed :: JobRecord list pop) w")
    have v: "pw_queue v = pw_queue w" "\<And>l. x = Inr l \<Longrightarrow> l = list"
      and good: "no_faults (pw_engine w) \<and> uncancelled E ctx \<Longrightarrow> x = Inr list \<and> no_faults (pw_engine v)"
      using read False by (auto simp: in_ctx_def ListJobsBySignature_def queue_read_def p_asks_def p_outgoing_def Let_def list_def no_faults_def
          uncancelled_def split: option.splits if_splits)
    have w': "w' = (case x of Inl _ \<Rightarrow> v | Inr l \<Rightarrow> snd (delete_jobs E ctx (drop (nat n) l) v :: ('e + unit) \<times> prepareWorld))"
      using assms(2) False read by (auto simp: trimCompletedJobsBySignature_def op_bind_def get_world_def op_try_def op_return_def assms(3) split: sum.splits)
    show ?thesis
    proof (cases x)
      case (Inl e)
      then show ?thesis using w' v good False by (intro exI [of _ "{}"]) (auto simp: without_no_jobs)
    next
      case (Inr l)
      then have l: "l = list" using v(2) by blast
      obtain D where D: "D \<subseteq> jr_JobID ` set (drop (nat n) list)" "pw_queue w' = without_jobs D (pw_queue w)"
        "no_faults (pw_engine v) \<and> uncancelled E ctx \<longrightarrow> D = jr_JobID ` set (drop (nat n) list)"
        using delete_jobs_queue [where 'e = 'e, of v "{}" "pw_queue w" "drop (nat n) list" E ctx] v(1) w' Inr l by (auto simp: without_no_jobs)
      have "q_ListJobsBySignature sg completed (pw_queue w') = take (nat n) list" if "no_faults (pw_engine w)" "uncancelled E ctx"
        using good D(3) that take_without [OF dist] by (simp add: D(2) listed_without list_def)
      then show ?thesis using D(1,2) False unfolding list_def by blast
    qed
  qed
qed

text \<open>
  C10: The retention of a signature deletes completed jobs of that signature with their tasks and events and touches no other row,
  whatever fails, and it deletes nothing when the limit is not positive.  Every job it deletes is preceded by as many kept ones as the
  limit says, whose time of completion (of creation, if none is stored) is not less as text; when no call fails and the run is not
  cancelled, the jobs left of the signature are exactly as many as the limit says of those with the greatest texts.
\<close>

theorem retention_exact:
  assumes "queue_wf (pw_queue w)" and "trimCompletedJobsBySignature E ctx sg w = (r :: 'e + unit, w')" and "n = maxIdenticalJobs (pw_config w)"
    and "listed = q_ListJobsBySignature sg completed (pw_queue w)"
  shows "(n \<le> 0 \<longrightarrow> pw_queue w' = pw_queue w)
    \<and> (\<exists>D. pw_queue w' = without_jobs D (pw_queue w) \<and> D \<subseteq> jr_JobID ` set (drop (nat n) listed))
    \<and> (\<forall>kept \<in> set (take (nat n) listed). \<forall>job \<in> set (drop (nat n) listed). finished_or_created job \<le> finished_or_created kept)
    \<and> (no_faults (pw_engine w) \<and> uncancelled E ctx \<and> 0 < n \<longrightarrow>
        q_ListJobsBySignature sg completed (pw_queue w') = take (nat n) listed)"
proof -
  obtain D where D: "pw_queue w' = without_jobs D (pw_queue w)" "n \<le> 0 \<longrightarrow> D = {}" "D \<subseteq> jr_JobID ` set (drop (nat n) listed)"
    and left: "no_faults (pw_engine w) \<and> uncancelled E ctx \<and> 0 < n \<longrightarrow>
        q_ListJobsBySignature sg completed (pw_queue w') = take (nat n) listed"
    using trimmed_jobs [OF assms(1-3)] unfolding assms(4) by blast
  have "finished_or_created job \<le> finished_or_created kept"
    if "kept \<in> set (take (nat n) listed)" "job \<in> set (drop (nat n) listed)" for kept job
    using that order_desc_take by (auto simp: assms(4) q_ListJobsBySignature_def split: if_splits)
  moreover have "n \<le> 0 \<longrightarrow> pw_queue w' = pw_queue w" using D(1,2) by (auto simp: without_no_jobs)
  ultimately show ?thesis using D left by blast
qed

text \<open>Completed jobs are ordered by the text of their times, in which a whole second sorts after its fractions.\<close>

lemma later_time_sorts_first: "(1000000000 :: int) < 1500000000 \<and> format_RFC3339Nano 1500000000 < format_RFC3339Nano 1000000000"
  by code_simp

definition ex_completed :: "bytes \<Rightarrow> JobRecord" where
  "ex_completed j = (ex_job j)\<lparr>jr_Status := StatusSucceeded\<rparr>"

definition ex_retention_world :: prepareWorld where
  "ex_retention_world = ex_prepare_world [ex_completed ''a'', ex_completed ''b'', ex_completed ''c'', ex_job ''d'']"

lemma retention_exact_witness:
  "let w' = snd (trimCompletedJobsBySignature ex_env None ''s'' ex_retention_world :: (unit + unit) \<times> prepareWorld)
   in map jr_JobID (q_ListJobsBySignature ''s'' completed (pw_queue w')) = [''c'', ''b'']"
proof -
  let ?trim = "trimCompletedJobsBySignature ex_env None ''s'' ex_retention_world :: (unit + unit) \<times> prepareWorld"
  have wf: "queue_wf (pw_queue ex_retention_world)"
    unfolding ex_retention_world_def by (rule ex_queue_wf) (simp add: ex_completed_def ex_job_def)
  have free: "no_faults (pw_engine ex_retention_world)" by (simp add: no_faults_def ex_retention_world_def ex_prepare_world_def ex_engine_world_def)
  have limit: "2 = maxIdenticalJobs (pw_config ex_retention_world)" by code_simp
  have "map jr_JobID (take 2 (q_ListJobsBySignature ''s'' completed (pw_queue ex_retention_world))) = [''c'', ''b'']" by code_simp
  then show ?thesis
    using retention_exact [OF wf prod.collapse [symmetric, of ?trim] limit refl] free by (auto simp: uncancelled_def Let_def)
qed

subsection \<open>Recovery\<close>

lemma dropWhile_both_ends:
  assumes "dropWhile P t = t"
  shows "dropWhile P (rev (dropWhile P (rev t))) = rev (dropWhile P (rev t))"
proof -
  define r where "r = rev (dropWhile P (rev t))"
  have t: "t = r @ rev (takeWhile P (rev t))" unfolding r_def by (metis rev_append rev_rev_ident takeWhile_dropWhile_id)
  have "dropWhile P r = r"
  proof (cases r)
    case (Cons x xs)
    then obtain zs where "t = x # zs" using t by simp
    then have "t \<noteq> []" "hd t = x" by simp_all
    then have "\<not> P x" using assms hd_dropWhile [of P t] by simp
    then show ?thesis using Cons by simp
  qed simp
  then show ?thesis by (simp add: r_def)
qed

lemma TrimSpace_idem: "TrimSpace (TrimSpace s) = TrimSpace s"
  unfolding TrimSpace_def by (simp add: dropWhile_both_ends)

definition trimmed_request :: "Request \<Rightarrow> Request" where
  "trimmed_request req = req\<lparr>rq_PrepareKind := TrimSpace (rq_PrepareKind req), rq_ImageID := TrimSpace (rq_ImageID req)\<rparr>"

lemma prepareRequest_trimmed: "prepareRequest E files (trimmed_request req) = prepareRequest E files req"
  by (simp add: prepareRequest_def trimmed_request_def Let_def TrimSpace_idem)

lemma prepareRequest_request:
  assumes "prepareRequest E files req = Inr p"
  shows "pr_request p = trimmed_request req"
proof (cases "TrimSpace (rq_PrepareKind req) = ''psql''")
  case True
  then show ?thesis using assms
    by (auto simp: prepareRequest_def trimmed_request_def Let_def res_map_def with_resolved_def psql_request_def split: if_splits sum.splits)
next
  case False
  then show ?thesis using assms
    by (auto simp: prepareRequest_def trimmed_request_def Let_def with_resolved_def liquibase_request_def split: if_splits sum.splits)
qed

lemma prepareRequest_stable: "prepareRequest E files req = Inr p \<Longrightarrow> prepareRequest E files (pr_request p) = Inr p"
  by (simp add: prepareRequest_request prepareRequest_trimmed)

lemma bind_new_Inr:
  assumes "bind_new E j checked w = (Inr p, w')"
  shows "p = checked\<lparr>pr_managed := pr_managed p, pr_resolvedImageID := pr_resolvedImageID p\<rparr>" and "pe_identity E = None \<Longrightarrow> p = checked"
  using assms
  by (auto simp: bind_new_def ensureResolvedImageID_def resolve_image_def bindManagedRequest_def Let_def with_image_def
      op_bind_Inr op_return_def op_fail_def op_map_error_Inr split: if_splits option.splits prod.splits)

lemma submission_row:
  assumes "submission job = submission job'"
  shows "jr_RequestJSON job = jr_RequestJSON job'" "jr_ResolvedImageID job = jr_ResolvedImageID job'"
    "jr_LineageRef job = jr_LineageRef job'" "jr_IdentityDigest job = jr_IdentityDigest job'"
proof -
  have same: "f (submission job) = f (submission job')" for f :: "JobRecord \<Rightarrow> 'x" using assms by simp
  show "jr_RequestJSON job = jr_RequestJSON job'" "jr_ResolvedImageID job = jr_ResolvedImageID job'"
    "jr_LineageRef job = jr_LineageRef job'" "jr_IdentityDigest job = jr_IdentityDigest job'"
    using same [of jr_RequestJSON] same [of jr_ResolvedImageID] same [of jr_LineageRef] same [of jr_IdentityDigest]
    by (simp_all add: submission_def)
qed

lemma first_submission: "q_GetJob j q = Some job \<Longrightarrow> \<exists>rest. submissions j q = submission job # rest"
  unfolding q_GetJob_def find_first_filtered by (auto simp: submissions_def split: list.splits)

lemma created_submissions:
  assumes "CreateJob job v = (Inr (), v1)" and "jr_SnapshotMode job = ''always''"
  shows "submissions (jr_JobID job) (pw_queue v1) = [submission job]"
proof -
  have "jobSnapshotMode ''always'' = ''always''" by code_simp
  then have "job\<lparr>jr_SnapshotMode := jobSnapshotMode (jr_SnapshotMode job)\<rparr> = job" using assms(2) by simp
  then have new: "jr_JobID job \<notin> jr_JobID ` set (q_jobs (pw_queue v))" "q_jobs (pw_queue v1) = q_jobs (pw_queue v) @ [job]"
    using assms(1) by (auto simp: CreateJob_def p_outgoing_def q_CreateJob_def Let_def split: option.splits if_splits)
  then have "filter (\<lambda>r. jr_JobID r = jr_JobID job) (q_jobs (pw_queue v)) = []" unfolding filter_empty_conv by (metis imageI)
  then show ?thesis by (simp add: submissions_def new)
qed


definition ex_plain_env :: prepareEnv where
  "ex_plain_env = ex_env\<lparr>pe_identity := None, pe_async := True\<rparr>"

lemma ex_prepare_request: "case prepareRequest ex_plain_env files ex_request of Inr p \<Rightarrow> pr_request p = ex_request | Inl _ \<Rightarrow> False"
proof -
  have texts: "TrimSpace ''img@d'' = ''img@d''" "TrimSpace ''psql'' = ''psql''" by code_simp+
  have "case preparePsqlArgs ''/w'' files [''-c'', ''x''] None of Inr p \<Rightarrow> True | _ \<Rightarrow> False" by code_simp
  then obtain q where q: "preparePsqlArgs ''/w'' files [''-c'', ''x''] None = Inr q" by (auto split: sum.splits)
  show ?thesis
    by (simp add: prepareRequest_def Let_def texts ex_request_def q res_map_def with_resolved_def psql_request_def ex_plain_env_def ex_env_def valueOrEmpty_def)
qed

lemma ex_plain_simps: "pe_identity ex_plain_env = None" "pe_access ex_plain_env = None" "pe_async ex_plain_env"
  "pe_files ex_plain_env d = [(''/w/a.sql'', Inr ''x'')]"
  by (simp_all add: ex_plain_env_def ex_env_def)

lemma ex_random: "randomHex 16 (ex_prepare_world []) = (Inr (concat (replicate 16 ''78'')), snd (randomHex 16 (ex_prepare_world [])))"
  "pw_queue (snd (randomHex 16 (ex_prepare_world []))) = pw_queue (ex_prepare_world [])"
  "pw_managed (snd (randomHex 16 (ex_prepare_world []))) = False"
  "no_faults (pw_engine (snd (randomHex 16 (ex_prepare_world []))))"
proof -
  have "fst (randomHex 16 (ex_prepare_world [])) = Inr (concat (replicate 16 ''78''))" by code_simp
  then show "randomHex 16 (ex_prepare_world []) = (Inr (concat (replicate 16 ''78'')), snd (randomHex 16 (ex_prepare_world [])))"
    by (simp add: prod_eq_iff)
  show "pw_queue (snd (randomHex 16 (ex_prepare_world []))) = pw_queue (ex_prepare_world [])"
  "pw_managed (snd (randomHex 16 (ex_prepare_world []))) = False"
  "no_faults (pw_engine (snd (randomHex 16 (ex_prepare_world []))))"
    by (simp_all add: randomHex_def on_engine_def read_entropy_def outgoing_def draw_def op_simps ex_prepare_world_def ex_engine_world_def no_faults_def Let_def)
qed

lemma ex_submit:
  "\<exists>a w1 job p' w3. Submit ex_plain_env ex_request (ex_prepare_world []) = (Inr a, w1) \<and> q_GetJob (ac_JobID a) (pw_queue w1) = Some job
     \<and> prepareFromJob ex_plain_env job w1 = (Inr p', w3)"
proof -
  let ?id = "concat (replicate 16 ''78'')"
  obtain p where p: "prepareRequest ex_plain_env [(''/w/a.sql'', Inr ''x'')] ex_request = Inr p" "pr_request p = ex_request"
    using ex_prepare_request [of "[(''/w/a.sql'', Inr ''x'')]"] by (auto split: sum.splits)
  define v where "v = snd (randomHex 16 (ex_prepare_world []))"
  have v: "randomHex 16 (ex_prepare_world []) = (Inr ?id, v)" "q_jobs (pw_queue v) = []" "pw_managed v = False" "\<And>k. w_fault (pw_engine v) k = None"
    using ex_random by (simp_all add: v_def no_faults_def ex_prepare_world_def)
  obtain now u where u: "(now_text v :: (requestFailure + bytes) \<times> prepareWorld) = (Inr now, u)" "q_jobs (pw_queue u) = []" "pw_managed u = False" "\<And>k. w_fault (pw_engine u) k = None"
    using v by (auto simp: now_text_def op_simps read_clock_def Let_def)
  define job where "job = submitted_job ?id now p"
  have mode: "jobSnapshotMode ''always'' = ''always''" by code_simp
  obtain x where x: "CreateJob job u = (Inr (), x)" "q_jobs (pw_queue x) = [job]"
    using u(2-) mode by (auto simp: CreateJob_def p_outgoing_def Let_def q_CreateJob_def job_def submitted_job_def)
  define w1 where "w1 = snd (appendEvent ex_plain_env ?id (status_event now StatusQueued) x)"
  have w1: "q_jobs (pw_queue w1) = [job]"
    using x(2) by (auto simp: w1_def appendEvent_def AppendEvent_def op_simps queue_write_def p_outgoing_def Let_def get_world_def q_AppendEvent_def
      split: option.split)
  have "\<exists>a. Submit ex_plain_env ex_request (ex_prepare_world []) = (Inr a, w1) \<and> ac_JobID a = ?id"
    using u(1) x(1)
    by (simp add: Submit_def op_simps read_files_def get_world_def failing_with_def p v(1) bind_new_def ex_plain_simps job_def [symmetric]
        ignoring_def start_run_def w1_def split: prod.split del: replicate.simps concat.simps)
  moreover have "q_GetJob ?id (pw_queue w1) = Some job" by (simp add: q_GetJob_def w1 job_def submitted_job_def)
  moreover have "prepareFromJob ex_plain_env job w1 = (Inr p, w1)"
    by (simp add: prepareFromJob_def job_def submitted_job_def p op_simps read_files_def get_world_def ex_plain_simps failing_with_def)
  ultimately show ?thesis by metis
qed

subsection \<open>Explaining the cache\<close>

lemma silent_logs: "appendLog E [] message w = (Inr (), w)" "append_logs E [] messages w = (Inr (), w)"
proof -
  show log: "appendLog E [] message w = (Inr (), w)" for message and w :: prepareWorld by (simp add: appendLog_def TrimSpace_Nil_iff op_return_def)
  show "append_logs E [] messages w = (Inr (), w)"
    by (induction messages) (simp_all add: op_bind_def op_return_def log)
qed

lemma same_logs: "sv.keeps (appendLog E [] message)" "sv.keeps (append_logs E [] messages)"
  by (simp_all add: sv.keeps_def silent_logs sv.rel_refl)

lemma same_ensureResolvedImageID: "sv.keeps (ensureResolvedImageID E [] p ts)"
  unfolding ensureResolvedImageID_def resolve_image_def Let_def by (auto simp: same_logs)

lemma same_failing: "sv.keeps (failing_with h x)"
  by (simp add: failing_with_def split: sum.split)

lemma cached_stored:
  assumes "isManagedStateCached E s p w = (Inr True, w')" and "pe_identity E = None"
  shows "GetState s (pw_db w) \<noteq> None"
  using assms by (auto simp: isManagedStateCached_def isStateCached_def op_bind_Inr op_return_def dest!: p_read_Inr split: if_splits)

lemma resolved_kind:
  assumes "ensureResolvedImageID E j checked ts w = (Inr p, w')"
  shows "is_lb p = is_lb checked"
proof -
  have "pr_request p = pr_request checked"
    using assms by (auto simp: ensureResolvedImageID_def resolve_image_def Let_def with_image_def op_bind_Inr op_return_def op_fail_def
        op_map_error_Inr split: if_splits option.splits prod.splits)
  then show ?thesis by (simp add: is_lb_def)
qed

lemma same_psql_plan: "\<not> is_lb p \<Longrightarrow> sv.keeps (explain_plan E p)"
  by (simp add: explain_plan_def del: sv.keeps_def) (rule sv.within_buildPlan, simp)

text \<open>The part of the explanation that plans.\<close>

definition planned :: "prepareEnv \<Rightarrow> Request \<Rightarrow> (prepareWorld, requestFailure, preparedRequest \<times> bytes \<times> bytes) operation" where
  "planned E req = op_bind (read_files E) (\<lambda>files. op_bind (failing_with request_failure (prepareRequest E files req)) (\<lambda>checked.
     op_bind (op_map_error errorFromExplainResponse (ensureResolvedImageID E [] checked [])) (\<lambda>p.
     op_bind (op_map_error errorFromExplainResponse (explain_plan E p)) (\<lambda>(tasks, stateID).
     op_bind (failing_with errorFromExplainResponse (explain_signature E files p tasks)) (\<lambda>signature. op_return (p, stateID, signature))))))"

lemma planned_reads:
  assumes "TrimSpace (rq_PrepareKind req) \<noteq> ''lb''"
  shows "same_service w (snd (planned E req w))"
proof (cases "prepareRequest E (pe_files E (pw_disk w)) req")
  case (Inl e)
  then show ?thesis by (simp add: planned_def op_bind_def read_files_def get_world_def failing_with_def op_fail_def op_return_def)
next
  case (Inr checked)
  let ?rest = "\<lambda>p. op_bind (op_map_error errorFromExplainResponse (explain_plan E p)) (\<lambda>(tasks, stateID).
     op_bind (failing_with errorFromExplainResponse (explain_signature E (pe_files E (pw_disk w)) p tasks)) (\<lambda>signature. op_return (p, stateID, signature)))"
  obtain r v where image: "ensureResolvedImageID E [] checked [] w = (r, v)" by (cases "ensureResolvedImageID E [] checked [] w")
  have "same_service w v" by (rule sv.withinD [OF same_ensureResolvedImageID image])
  moreover have "same_service v (snd (?rest p v))" if "r = Inr p" for p
  proof -
    have "\<not> is_lb p" using resolved_kind [of E "[]" checked "[]" w p v] image that prepareRequest_request [OF Inr] assms
      by (simp add: is_lb_def trimmed_request_def)
    then have "sv.keeps (?rest p)" by (auto simp: same_psql_plan same_failing simp del: sv.keeps_def)
    then show ?thesis by (simp add: sv.keeps_def)
  qed
  moreover have "snd (planned E req w) = (case r of Inl _ \<Rightarrow> v | Inr p \<Rightarrow> snd (?rest p v))"
    using Inr image by (cases r) (simp_all add: planned_def op_bind_def read_files_def get_world_def failing_with_def op_return_def op_map_error_def
        op_try_def op_fail_def)
  ultimately show ?thesis using sv.rel_trans by (auto split: sum.split)
qed

text \<open>
  C40: Without a managed identity, explaining the cache for a psql request (for any request that is not of Liquibase) writes
  nothing, whatever fails: neither the queue nor the states, instances, files or registrations of the service change.  The answer is a
  hit or a miss, and a hit names a state that is in the store.
\<close>

theorem cache_explain_reads:
  assumes "CacheExplain E req w = (r, w')" and "pe_identity E = None" and "TrimSpace (rq_PrepareKind req) \<noteq> ''lb''"
  shows "same_service w w' \<and> (\<forall>x. r = Inr x \<longrightarrow> cx_Decision x = ''miss'' \<and> cx_MatchedStateID x = []
    \<or> cx_Decision x = ''hit'' \<and> GetState (cx_MatchedStateID x) (pw_db w) \<noteq> None)"
proof
  let ?plan = "planned E req"
  let ?last = "\<lambda>(p, stateID, signature).
      op_bind (op_map_error RequestError (isManagedStateCached E stateID p)) (\<lambda>cached. op_return (explain_result p signature stateID cached))"
  obtain q v0 where ran: "?plan w = (q, v0)" by (cases "?plan w")
  have before: "same_service w v0" using planned_reads [OF assms(3), of w E] ran by simp
  have split: "CacheExplain E req w = op_bind ?plan ?last w"
    by (simp add: CacheExplain_def planned_def assms(2) op_bind_def op_return_def split: prod.split sum.split)
  have rest: "sv.keeps ((\<lambda>(p, stateID, signature).
      op_bind (op_map_error RequestError (isManagedStateCached E stateID p)) (\<lambda>cached. op_return (explain_result p signature stateID cached))) x)" for x
    by (auto split: prod.split)
  have last: "same_service v0 (snd (?last x v0))" for x using rest [of x] by (simp add: sv.keeps_def)
  have run: "CacheExplain E req w = (case q of Inl e \<Rightarrow> (Inl e, v0) | Inr x \<Rightarrow> ?last x v0)"
    unfolding split by (simp add: op_bind_def ran)
  have "same_service v0 (snd (CacheExplain E req w))"
  proof (cases q)
    case (Inl e)
    then show ?thesis unfolding run by simp
  next
    case (Inr x)
    then show ?thesis unfolding run using last [of x] by (simp only: sum.case)
  qed
  then show "same_service w w'" using sv.rel_trans [OF before] assms(1) by simp
  show "\<forall>x. r = Inr x \<longrightarrow> cx_Decision x = ''miss'' \<and> cx_MatchedStateID x = []
    \<or> cx_Decision x = ''hit'' \<and> GetState (cx_MatchedStateID x) (pw_db w) \<noteq> None"
  proof (intro allI impI)
    fix x assume x: "r = Inr x"
    from assms(1) [unfolded split x] obtain p s g v cached where v: "?plan w = (Inr (p, s, g), v)"
      and c: "isManagedStateCached E s p v = (Inr cached, w')" and x: "x = explain_result p g s cached"
      by (auto simp: op_bind_Inr op_map_error_Inr op_return_def)
    have "pw_db v = pw_db w" using same_db [OF before] ran v by simp
    then show "cx_Decision x = ''miss'' \<and> cx_MatchedStateID x = [] \<or> cx_Decision x = ''hit'' \<and> GetState (cx_MatchedStateID x) (pw_db w) \<noteq> None"
      using cached_stored [of E s p v w'] c assms(2) by (cases cached) (simp_all add: x explain_result_def)
  qed
qed

lemma cache_explain_reads_witness:
  "same_service (ex_prepare_world []) (snd (CacheExplain ex_plain_env ex_request (ex_prepare_world [])))"
proof -
  have "TrimSpace (rq_PrepareKind ex_request) \<noteq> ''lb''" by code_simp
  from cache_explain_reads [OF prod.collapse [symmetric] ex_plain_simps(1) this] show ?thesis by simp
qed

end
