(* ===== verification/Liquibase_Args_Props.thy ===== *)
theory Liquibase_Args_Props
  imports Liquibase_Args
begin

text \<open>
  The engine runs the recipe with another command than the user wrote.  Here is that the replacement hits the command
  and nothing else, and that no two paths are mounted at the same place.
\<close>

subsection \<open>Flags\<close>

lemma HasPrefix_trans: "HasPrefix s p \<Longrightarrow> HasPrefix p q \<Longrightarrow> HasPrefix s q"
  unfolding HasPrefix_def by (metis min.absorb1 nat_le_linear take_all take_take)

lemma HasPrefix_appendD: "HasPrefix s (p @ q) \<Longrightarrow> HasPrefix s p"
  by (erule HasPrefix_trans) simp

lemma flag_of_append: "flag_of (a @ b) arg \<longleftrightarrow> flag_of a arg \<or> flag_of b arg"
  by (auto simp: flag_of_def)

lemma find_SomeD: "find P xs = Some x \<Longrightarrow> x \<in> set xs \<and> P x"
  by (induction xs) (auto split: if_splits)

lemma path_flagD:
  "path_flag arg rest = PathNext f v \<Longrightarrow> f \<in> set path_flags \<and> (\<exists>r. rest = v # r)"
  "path_flag arg rest = PathInline f v \<Longrightarrow> f \<in> set path_flags"
  "path_flag arg rest = NotPath \<Longrightarrow> \<not> flag_of path_flags arg"
  by (auto simp: path_flag_def flag_of_def find_None_iff list_ex_iff split: if_splits list.splits option.splits dest: find_SomeD)

lemma canonical_flags: "f \<in> set path_flags \<Longrightarrow> canonical_flag f \<in> {''--changelog-file'', ''--defaults-file'', ''--searchPath''}"
  by (auto simp: path_flags_def canonical_flag_def)

subsection \<open>Words that are copied\<close>

lemma passed_over_next: "f \<in> set path_flags \<Longrightarrow> passed_over [canonical_flag f, v]"
proof -
  assume "f \<in> set path_flags"
  then consider "canonical_flag f = ''--changelog-file''" | "canonical_flag f = ''--defaults-file''" | "canonical_flag f = ''--searchPath''"
    using canonical_flags by blast
  then show ?thesis
    by cases (simp_all add: passed_over_def isLiquibaseFlagWithValue_def flag_of_def path_flags_def TrimSpace_Nil_iff is_space_def in_range_def)
qed

lemma passed_over_inline: "f \<in> set path_flags \<Longrightarrow> passed_over [canonical_flag f @ ''='' @ v]"
proof -
  assume "f \<in> set path_flags"
  then consider "canonical_flag f = ''--changelog-file''" | "canonical_flag f = ''--defaults-file''" | "canonical_flag f = ''--searchPath''"
    using canonical_flags by blast
  then show ?thesis
    by cases (simp_all add: passed_over_def isLiquibaseFlagWithValue_def flag_of_def path_flags_def TrimSpace_Nil_iff is_space_def in_range_def HasPrefix_def)
qed

lemma passed_over_dash: "HasPrefix arg ''-'' \<Longrightarrow> \<not> isLiquibaseFlagWithValue arg \<Longrightarrow> passed_over [arg]"
  by (simp add: passed_over_def)

lemma passed_over_Nil: "passed_over []"
  by (simp add: passed_over_def)

lemma flag_of_dash: "flag_of names arg \<Longrightarrow> \<forall>n \<in> set names. HasPrefix n ''-'' \<Longrightarrow> HasPrefix arg ''-''"
  unfolding flag_of_def list_ex_iff using HasPrefix_trans [OF HasPrefix_appendD] by blast

lemma flag_with_value_dash: "isLiquibaseFlagWithValue arg \<Longrightarrow> HasPrefix arg ''-''"
  unfolding isLiquibaseFlagWithValue_def by (erule flag_of_dash) (simp add: path_flags_def HasPrefix_def)

subsection \<open>What the loop keeps\<close>

definition command_word :: "bytes \<Rightarrow> bool" where
  "command_word c \<longleftrightarrow> TrimSpace c \<noteq> [] \<and> \<not> HasPrefix c ''-''"

definition scan_inv :: "liquibaseScan \<Rightarrow> bool" where
  "scan_inv sc \<longleftrightarrow> passed_over (ls_pre sc)
     \<and> (if ls_command sc = [] then ls_post sc = [] else (\<exists>post. ls_post sc = ls_command sc # post) \<and> command_word (ls_command sc))"

lemma take_word_inv:
  assumes "scan_inv sc" and "TrimSpace arg \<noteq> []" and "\<not> isLiquibaseFlagWithValue arg"
  shows "scan_inv (take_word arg sc)"
proof (cases "HasPrefix arg ''-''")
  case True
  then show ?thesis using assms passed_over_append [OF _ passed_over_dash [OF True assms(3)]]
    by (auto simp: scan_inv_def take_word_def)
next
  case False
  have "arg \<noteq> []" using assms(2) by (auto simp: TrimSpace_def)
  then show ?thesis using assms(1,2) False by (auto simp: scan_inv_def take_word_def command_word_def)
qed

lemma handle_flag_words:
  assumes "handleLiquibasePathFlag windowsMode rewritePaths files cwd arg rest mounts = Some (Inr (words, mounts', taken))"
  shows "passed_over words" and "set (if taken then tl rest else rest) \<subseteq> set rest"
proof -
  have "\<exists>f v. f \<in> set path_flags \<and> (words = [canonical_flag f, v] \<or> words = [canonical_flag f @ ''='' @ v])"
    using assms path_flagD(1,2) [of arg rest]
    by (auto simp: handleLiquibasePathFlag_def Let_def res_map_Inr_iff split: pathFlag.splits prod.splits)
  then show "passed_over words" using passed_over_next passed_over_inline by metis
  show "set (if taken then tl rest else rest) \<subseteq> set rest" by (cases rest) auto
qed

lemma scan_liquibase_step:
  assumes "scan_liquibase windowsMode rewritePaths files cwd (raw # rest) sc = Inr sc'"
  obtains (blank) "scan_liquibase windowsMode rewritePaths files cwd rest sc = Inr sc'"
  | (path) words mounts taken where
      "handleLiquibasePathFlag windowsMode rewritePaths files cwd raw rest (ls_mounts sc) = Some (Inr (words, mounts, taken))"
      "scan_liquibase windowsMode rewritePaths files cwd (if taken then tl rest else rest)
         (sc\<lparr>ls_pre := ls_pre sc @ words, ls_mounts := mounts\<rparr>) = Inr sc'"
  | (word) "path_flag raw rest = NotPath" "TrimSpace raw \<noteq> []" "\<not> isLiquibaseConnectionFlag (TrimSpace raw)"
      "\<not> isLiquibaseRuntimeFlag (TrimSpace raw)"
      "scan_liquibase windowsMode rewritePaths files cwd rest (take_word (TrimSpace raw) sc) = Inr sc'"
proof -
  note run = assms [unfolded scan_liquibase.simps(2) Let_def]
  show ?thesis
  proof (cases "TrimSpace raw = [] \<or> TrimSpace raw = ''--''")
    case True
    then show ?thesis using run blank by simp
  next
    case False
    have ok: "\<not> isLiquibaseConnectionFlag (TrimSpace raw)" "\<not> isLiquibaseRuntimeFlag (TrimSpace raw)"
      using run False by (auto split: if_splits)
    show ?thesis
    proof (cases "handleLiquibasePathFlag windowsMode rewritePaths files cwd raw rest (ls_mounts sc)")
      case None
      then have "path_flag raw rest = NotPath" by (auto simp: handleLiquibasePathFlag_def Let_def split: pathFlag.splits)
      then show ?thesis using run False ok None word by simp
    next
      case (Some r)
      then obtain words mounts taken where "r = Inr (words, mounts, taken)" using run False ok by (cases r) auto
      then show ?thesis using run False ok Some path by simp
    qed
  qed
qed

lemma scan_liquibase_inv:
  "scan_liquibase windowsMode rewritePaths files cwd args sc = Inr sc' \<Longrightarrow> \<forall>a \<in> set args. TrimSpace a = a \<Longrightarrow> scan_inv sc \<Longrightarrow> scan_inv sc'"
proof (induction "length args" arbitrary: args sc rule: less_induct)
  case less
  show ?case
  proof (cases args)
    case Nil
    then show ?thesis using less.prems by (simp add: scan_liquibase.simps)
  next
    case (Cons raw rest)
    have raw: "TrimSpace raw = raw" and rest: "\<forall>a \<in> set rest. TrimSpace a = a" using less.prems(2) Cons by simp_all
    have shorter: "length rest < length args" using Cons by simp
    show ?thesis using less.prems(1) [unfolded Cons]
    proof (cases rule: scan_liquibase_step)
      case blank
      then show ?thesis by (rule less.hyps [OF shorter _ rest less.prems(3)])
    next
      case (path words mounts taken)
      let ?rest = "if taken then tl rest else rest"
      have len: "length ?rest < length args" by (cases taken) (use shorter in auto)
      have trimmed: "\<forall>a \<in> set ?rest. TrimSpace a = a" using rest handle_flag_words(2) [OF path(1)] by blast
      have "passed_over (ls_pre sc @ words)"
        using less.prems(3) handle_flag_words(1) [OF path(1)] passed_over_append unfolding scan_inv_def by blast
      then have "scan_inv (sc\<lparr>ls_pre := ls_pre sc @ words, ls_mounts := mounts\<rparr>)" using less.prems(3) by (simp add: scan_inv_def)
      then show ?thesis by (rule less.hyps [OF len path(2) trimmed])
    next
      case word
      have "\<not> isLiquibaseFlagWithValue raw"
        using path_flagD(3) [OF word(1)] word(3,4) unfolding raw
        by (auto simp: isLiquibaseFlagWithValue_def isLiquibaseConnectionFlag_def isLiquibaseRuntimeFlag_def flag_of_def)
      then have "scan_inv (take_word (TrimSpace raw) sc)" using take_word_inv [OF less.prems(3)] word(2) raw by simp
      then show ?thesis by (rule less.hyps [OF shorter word(5) rest])
    qed
  qed
qed



subsection \<open>Mounts\<close>

text \<open>Every mount has a number of its own, and every path is mounted once.\<close>

definition mounts_ok :: "Mount list \<Rightarrow> bool" where
  "mounts_ok mounts \<longleftrightarrow> distinct (map mt_HostPath mounts)
     \<and> map mt_ContainerPath mounts = map container_path [1..<Suc (length mounts)] \<and> list_all mt_ReadOnly mounts"

lemma add_mount_ok: "mounts_ok mounts \<Longrightarrow> path \<notin> mt_HostPath ` set mounts \<Longrightarrow> mounts_ok (add_mount path mounts)"
  by (simp add: mounts_ok_def add_mount_def)

lemma rewriteSinglePath_ok:
  assumes "rewriteSinglePath files cwd v msg mounts = Inr (p, mounts')" and "mounts_ok mounts"
  shows "mounts_ok mounts'"
proof (cases "mounts' = mounts")
  case False
  then obtain path where "map_of (map (\<lambda>m. (mt_HostPath m, mt_ContainerPath m)) mounts) path = None" "mounts' = add_mount path mounts"
    using assms(1) by (auto simp: rewriteSinglePath_def res_map_Inr_iff split: if_splits option.splits)
  moreover from this(1) have "path \<notin> mt_HostPath ` set mounts" by (auto simp: map_of_eq_None_iff image_image)
  ultimately show ?thesis using add_mount_ok assms(2) by simp
qed (use assms(2) in simp)

lemma normalize_path_ok: "normalize_path rewritePaths files cwd v msg mounts = Inr (p, mounts') \<Longrightarrow> mounts_ok mounts \<Longrightarrow> mounts_ok mounts'"
  by (auto simp: normalize_path_def res_map_Inr_iff split: if_splits intro: rewriteSinglePath_ok)

lemma normalize_items_ok:
  assumes "\<And>v ms p ms'. f v ms = Inr (p, ms') \<Longrightarrow> mounts_ok ms \<Longrightarrow> mounts_ok ms'"
  shows "normalize_items f parts mounts = Inr (ps, mounts') \<Longrightarrow> mounts_ok mounts \<Longrightarrow> mounts_ok mounts'"
proof (induction parts arbitrary: mounts ps)
  case (Cons part rest)
  obtain p ms where p: "f (TrimSpace part) mounts = Inr (p, ms)" using Cons.prems(1)
    by (cases "f (TrimSpace part) mounts") (auto simp: res_bind_def split: if_splits)
  then obtain ps' where "normalize_items f rest ms = Inr (ps', mounts')" using Cons.prems(1)
    by (auto simp: res_bind_def res_map_Inr_iff split: if_splits prod.splits)
  then show ?case using Cons.IH assms [OF p Cons.prems(2)] by blast
qed simp

lemma value_ok:
  "normalizeLiquibasePathValue rewritePaths files cwd flag v mounts = Inr (p, mounts') \<Longrightarrow> mounts_ok mounts \<Longrightarrow> mounts_ok mounts'"
  unfolding normalizeLiquibasePathValue_def
  by (auto simp: res_map_Inr_iff split: if_splits prod.splits intro: normalize_items_ok [OF normalize_path_ok] normalize_path_ok)

lemma handle_mounts_ok:
  assumes "handleLiquibasePathFlag windowsMode rewritePaths files cwd arg rest mounts = Some (Inr (words, mounts', taken))"
    and "mounts_ok mounts"
  shows "mounts_ok mounts'"
  using assms unfolding handleLiquibasePathFlag_def Let_def
  by (auto simp: res_map_Inr_iff split: pathFlag.splits prod.splits if_splits intro: value_ok)

lemma scan_mounts_ok:
  "scan_liquibase windowsMode rewritePaths files cwd args sc = Inr sc' \<Longrightarrow> mounts_ok (ls_mounts sc) \<Longrightarrow> mounts_ok (ls_mounts sc')"
proof (induction "length args" arbitrary: args sc rule: less_induct)
  case less
  show ?case
  proof (cases args)
    case Nil
    then show ?thesis using less.prems by (simp add: scan_liquibase.simps)
  next
    case (Cons raw rest)
    have shorter: "length rest < length args" using Cons by simp
    show ?thesis using less.prems(1) [unfolded Cons]
    proof (cases rule: scan_liquibase_step)
      case blank
      then show ?thesis by (rule less.hyps [OF shorter _ less.prems(2)])
    next
      case (path words mounts taken)
      have len: "length (if taken then tl rest else rest) < length args" by (cases taken) (use shorter in auto)
      show ?thesis by (rule less.hyps [OF len path(2)]) (use handle_mounts_ok [OF path(1) less.prems(2)] in simp)
    next
      case word
      show ?thesis by (rule less.hyps [OF shorter word(5)]) (use less.prems(2) in \<open>simp add: take_word_def\<close>)
    qed
  qed
qed

lemma prepared_mounts_ok:
  assumes "prepareLiquibaseArgs getwd files args cwd windowsMode rewritePaths = Inr p"
  shows "mounts_ok (lp_mounts p)"
proof -
  have start: "mounts_ok []" "mounts_ok (add_mount d [])" for d by (simp_all add: mounts_ok_def add_mount_def)
  show ?thesis using assms unfolding prepareLiquibaseArgs_def Let_def
    by (auto simp: start no_liquibase_scan_def split: sum.splits if_splits dest!: scan_mounts_ok)
qed

subsection \<open>A path that is not checked\<close>

text \<open>
  The test for path flags looks at an argument as it came, every other test at the argument without surrounding white
  space: with a space in front a path is neither checked nor mounted, but handed to Liquibase all the same.
\<close>

lemma unchecked_path:
  "isl (prepareLiquibaseArgs None [] [''--changelog-file=/nowhere'', ''update''] ''/w'' False True)"
  "case prepareLiquibaseArgs None [] ['' --changelog-file=/nowhere'', ''update''] ''/w'' False True of Inl e \<Rightarrow> False
   | Inr p \<Rightarrow> lp_normalizedArgs p = [''--changelog-file=/nowhere'', ''update''] \<and> map mt_HostPath (lp_mounts p) = [''/w'']"
  by code_simp+

end
