(* ===== verification/Liquibase_Output_Props.thy ===== *)
theory Liquibase_Output_Props
  imports Liquibase_Output
begin

text \<open>What Liquibase prints is read back: values in quotes, and changesets with the lines that belong to them.\<close>

subsection \<open>Quoted values\<close>

definition quote_body :: "bytes \<Rightarrow> bytes" where
  "quote_body v = concat (map (\<lambda>c. if c = CHR 0x27 then [c, c] else [c]) v)"

definition quote_value :: "bytes \<Rightarrow> bytes" where
  "quote_value v = CHR 0x27 # quote_body v @ [CHR 0x27]"

lemma split_body:
  assumes "rest = [] \<or> hd rest \<noteq> CHR 0x27"
  shows "split_values out buf True (quote_body v @ CHR 0x27 # rest) = split_values out (buf @ v) False rest"
proof (induction v arbitrary: buf)
  case Nil
  then show ?case using assms by (cases rest) (auto simp: quote_body_def)
next
  case (Cons c v)
  have "quote_body (c # v) = (if c = CHR 0x27 then [c, c] else [c]) @ quote_body v" by (simp add: quote_body_def)
  then show ?case using Cons.IH [of "buf @ [c]"] by (cases "c = CHR 0x27") simp_all
qed

lemma split_quoted: "vs \<noteq> [] \<Longrightarrow> last vs \<noteq> [] \<Longrightarrow>
    split_values out [] False (join_with '','' (map quote_value vs)) = out @ map TrimSpace vs"
proof (induction vs arbitrary: out)
  case (Cons v vs)
  show ?case
  proof (cases vs)
    case Nil
    then show ?thesis using Cons.prems(2) split_body [of "[]" out "[]" v] by (simp add: join_with_def quote_value_def)
  next
    case (Cons w ws)
    let ?rest = "join_with '','' (map quote_value vs)"
    have "join_with '','' (map quote_value (v # vs)) = quote_value v @ CHR '','' # ?rest"
      by (simp add: join_with_def Cons)
    moreover have "split_values out [] False (quote_value v @ CHR '','' # ?rest) = split_values out v False (CHR '','' # ?rest)"
      using split_body [of "CHR '','' # ?rest" out "[]" v] by (simp add: quote_value_def)
    moreover have "split_values (out @ [TrimSpace v]) [] False ?rest = (out @ [TrimSpace v]) @ map TrimSpace vs"
      by (rule Cons.IH) (use Cons Cons.prems in auto)
    ultimately show ?thesis by simp
  qed
qed simp

lemma splitSQLValues_quote: "vs \<noteq> [] \<Longrightarrow> last vs \<noteq> [] \<Longrightarrow> splitSQLValues (join_with '','' (map quote_value vs)) = map TrimSpace vs"
  using split_quoted [of vs "[]"] by (simp add: splitSQLValues_def)

subsection \<open>Lines\<close>

lemma split_on_none: "c \<notin> set s \<Longrightarrow> split_on c s = [s]"
  by (induction s) auto

lemma split_on_cons: "c \<notin> set p \<Longrightarrow> split_on c (p @ c # s) = p # split_on c s"
  by (induction p) (auto split: list.split)

lemma split_join: "ls \<noteq> [] \<Longrightarrow> \<forall>l \<in> set ls. c \<notin> set l \<Longrightarrow> split_on c (join_with [c] ls) = ls"
proof (induction ls)
  case (Cons l ls)
  show ?case
  proof (cases ls)
    case Nil
    then show ?thesis using Cons.prems by (simp add: join_with_def split_on_none)
  next
    case (Cons m ms)
    have "join_with [c] (l # ls) = l @ c # join_with [c] ls" by (simp add: join_with_def Cons)
    then show ?thesis using Cons.IH Cons.prems split_on_cons by (simp add: Cons)
  qed
qed simp

subsection \<open>Headers\<close>

definition header_line :: "bytes \<times> bytes \<times> bytes \<Rightarrow> bytes" where
  "header_line h = (case h of (path, cid, author) \<Rightarrow> header_prefix @ path @ ''::'' @ cid @ ''::'' @ author)"

text \<open>No colon of the text is followed by another one or ends it, so that a separator after it is found at its end.\<close>

definition single_colons :: "bytes \<Rightarrow> bool" where
  "single_colons a \<longleftrightarrow> (\<forall>i < length a. a ! i = CHR '':'' \<longrightarrow> Suc i < length a \<and> a ! Suc i \<noteq> CHR '':'')"

definition header_ok :: "bytes \<times> bytes \<times> bytes \<Rightarrow> bool" where
  "header_ok h \<longleftrightarrow> (case h of (path, cid, author) \<Rightarrow> single_colons path \<and> single_colons cid
     \<and> TrimSpace (path @ ''::'' @ cid @ ''::'' @ author) = path @ ''::'' @ cid @ ''::'' @ author
     \<and> CHR 0x0A \<notin> set (path @ cid @ author))"

lemma find_first: "(\<And>i. i < n \<Longrightarrow> \<not> P i) \<Longrightarrow> P n \<Longrightarrow> n < m \<Longrightarrow> find P [0..<m] = Some n"
  by (simp add: find_Some_iff) (metis nth_upt add_0 less_trans)

lemma cut_at_first:
  assumes "single_colons a"
  shows "cut_at ''::'' (a @ ''::'' @ b) = Some (a, b)"
proof -
  have "\<not> HasPrefix (drop i (a @ ''::'' @ b)) ''::''" if "i < length a" for i
  proof
    assume "HasPrefix (drop i (a @ ''::'' @ b)) ''::''"
    then have two: "take 2 (drop i (a @ ''::'' @ b)) = ''::''" by (simp add: HasPrefix_def numeral_2_eq_2)
    have "a ! i = CHR '':''" using arg_cong [OF two, of "\<lambda>t. t ! 0"] that by (simp add: nth_append)
    then have next_ok: "Suc i < length a" "a ! Suc i \<noteq> CHR '':''" using assms that unfolding single_colons_def by blast+
    have "a ! Suc i = CHR '':''" using arg_cong [OF two, of "\<lambda>t. t ! 1"] next_ok(1) by (simp add: nth_append)
    then show False using next_ok(2) by simp
  qed
  then have "text_index (a @ ''::'' @ b) ''::'' = Some (length a)"
    unfolding text_index_def by (intro find_first) (auto simp: HasPrefix_def)
  then show ?thesis by (simp add: cut_at_def)
qed

lemma parse_header: "header_ok h \<Longrightarrow> parseChangesetHeader (header_line h) = Some h"
proof -
  assume ok: "header_ok h"
  obtain path cid author where h: "h = (path, cid, author)" by (cases h)
  have "cut_at ''::'' (path @ ''::'' @ (cid @ ''::'' @ author)) = Some (path, cid @ ''::'' @ author)"
    and "cut_at ''::'' (cid @ ''::'' @ author) = Some (cid, author)"
    using ok by (intro cut_at_first, simp add: header_ok_def h)+
  then show ?thesis using ok by (simp add: parseChangesetHeader_def header_line_def h header_ok_def)
qed

subsection \<open>Changesets\<close>

text \<open>A changeset as it is printed: its header and the lines after it.\<close>

type_synonym printed = "(bytes \<times> bytes \<times> bytes) \<times> bytes list"

definition printed_ok :: "printed \<Rightarrow> bool" where
  "printed_ok b \<longleftrightarrow> header_ok (fst b) \<and> (\<forall>l \<in> set (snd b). CHR 0x0A \<notin> set l \<and> parseChangesetHeader l = None)"

definition printed_lines :: "printed list \<Rightarrow> bytes list" where
  "printed_lines bs = concat (map (\<lambda>b. header_line (fst b) # snd b) bs)"

definition last_checksum :: "bytes list \<Rightarrow> bytes" where
  "last_checksum ls = fold (\<lambda>l old. case parseChangesetChecksum l of Some c \<Rightarrow> if c \<noteq> [] then c else old | None \<Rightarrow> old) ls []"

definition changeset_of :: "printed \<Rightarrow> LiquibaseChangeset" where
  "changeset_of b =
     (case b of ((path, cid, author), ls) \<Rightarrow>
        \<lparr>lc_ID = cid, lc_Author = author, lc_Path = path, lc_SQL = TrimSpace (join_with [CHR 0x0A] ls),
         lc_SQLHash = sha256Hex (TrimSpace (join_with [CHR 0x0A] ls)), lc_Checksum = last_checksum ls\<rparr>)"

lemma read_lines: "\<forall>l \<in> set ls. parseChangesetHeader l = None \<Longrightarrow>
    read_output out (Some (c, done_lines)) (ls @ rest)
      = read_output out (Some (c\<lparr>lc_Checksum :=
          fold (\<lambda>l old. case parseChangesetChecksum l of Some k \<Rightarrow> if k \<noteq> [] then k else old | None \<Rightarrow> old) ls (lc_Checksum c)\<rparr>, done_lines @ ls)) rest"
proof (induction ls arbitrary: c done_lines)
  case (Cons l ls)
  have l: "parseChangesetHeader l = None" using Cons.prems by simp
  have ls: "\<forall>l \<in> set ls. parseChangesetHeader l = None" using Cons.prems by simp
  show ?case
    by (cases "parseChangesetChecksum l") (auto simp: l Cons.IH [OF ls])
qed simp

lemma read_printed: "\<forall>b \<in> set bs. printed_ok b \<Longrightarrow>
    read_output out current (printed_lines bs)
      = out @ (if bs = [] then flush_changeset current else flush_changeset current @ map changeset_of bs)"
proof (induction bs arbitrary: out current)
  case Nil
  then show ?case by (simp add: printed_lines_def)
next
  case (Cons b bs)
  obtain path cid author ls where b: "b = ((path, cid, author), ls)" by (metis prod.exhaust)
  let ?c = "\<lparr>lc_ID = cid, lc_Author = author, lc_Path = path, lc_SQL = [], lc_SQLHash = [], lc_Checksum = []\<rparr>"
  let ?d = "?c\<lparr>lc_Checksum := last_checksum ls\<rparr>"
  have ok: "header_ok (path, cid, author)" "\<forall>l \<in> set ls. parseChangesetHeader l = None" using Cons.prems by (auto simp: b printed_ok_def)
  have "read_output out current (printed_lines (b # bs))
      = read_output (out @ flush_changeset current) (Some (?c, [])) (ls @ printed_lines bs)"
    by (simp add: printed_lines_def b parse_header [OF ok(1)])
  also have "\<dots> = read_output (out @ flush_changeset current) (Some (?d, ls)) (printed_lines bs)"
    by (simp add: read_lines [OF ok(2)] last_checksum_def)
  also have "\<dots> = (out @ flush_changeset current) @ (if bs = [] then flush_changeset (Some (?d, ls)) else flush_changeset (Some (?d, ls)) @ map changeset_of bs)"
    by (rule Cons.IH) (use Cons.prems in simp)
  also have "flush_changeset (Some (?d, ls)) = [changeset_of b]" by (simp add: flush_changeset_def changeset_of_def b Let_def)
  finally show ?case by simp
qed

lemma read_preamble: "\<forall>l \<in> set ls. parseChangesetHeader l = None \<Longrightarrow> read_output out None (ls @ rest) = read_output out None rest"
  by (induction ls) simp_all

text \<open>
  C37: The changesets Liquibase prints are read back, whatever lines without a header come before the first: each with
  its path, id and author, the SQL of exactly its own lines, the hash of that SQL and the last checksum recorded in
  them.  Path and id may not end with a colon or hold two in a row, a header has no space at its ends and
  no line break in it, and the lines of a changeset are not headers themselves.
\<close>

theorem changesets_read_back:
  assumes "bs \<noteq> []" and "\<forall>b \<in> set bs. printed_ok b"
    and "\<forall>l \<in> set preamble. CHR 0x0A \<notin> set l \<and> parseChangesetHeader l = None"
  shows "parseLiquibaseUpdateSQL (join_with [CHR 0x0A] (preamble @ printed_lines bs)) = Inr (map changeset_of bs)"
proof -
  have no_lf: "CHR 0x0A \<notin> set (header_line h)" if "header_ok h" for h
    using that by (auto simp: header_ok_def header_line_def header_prefix_def split: prod.splits)
  have "preamble @ printed_lines bs \<noteq> []" using assms(1) by (cases bs) (simp_all add: printed_lines_def)
  moreover have "\<forall>l \<in> set (preamble @ printed_lines bs). CHR 0x0A \<notin> set l"
    using assms(2,3) no_lf by (auto simp: printed_lines_def printed_ok_def)
  ultimately have "split_on (CHR 0x0A) (join_with [CHR 0x0A] (preamble @ printed_lines bs)) = preamble @ printed_lines bs" by (rule split_join)
  then show ?thesis
    using assms read_printed [OF assms(2), of "[]" None] read_preamble [of preamble "[]" "printed_lines bs"]
    by (simp add: parseLiquibaseUpdateSQL_def Let_def flush_changeset_def)
qed

theorem changesets_read_back_witness:
  "parseLiquibaseUpdateSQL (join_with [CHR 0x0A] ([''-- Lock Database'', ''''] @ printed_lines
       [((''classpath:db.xml'', ''1'', ''ann''), [''create table t ();'']), ((''db.xml'', ''2:a'', ''bob''), [])]))
     = Inr (map changeset_of [((''classpath:db.xml'', ''1'', ''ann''), [''create table t ();'']), ((''db.xml'', ''2:a'', ''bob''), [])])"
  by (rule changesets_read_back) code_simp+

end
