(* ===== verification/Spec2Isabelle.thy ===== *)
theory Spec2Isabelle
  imports Canonical_Value_Props Lineage_Props Managed_Service_Props Runtime_Operations_Props Deletion_Liveness Fingerprint_Props
    Composition_Props Cache_Eviction Psql_Args_Props Psql_Content_Props Prepare_Service_Props Liquibase_Args_Props Liquibase_Output_Props
begin

text \<open>
  A verification library for the core of sqlrs: the content-addressed identities of
  database states (Go module \<^verbatim>\<open>backend/libs/runtime-go\<close>), their composition from documents of aliases, and the local engine's store, managed
  identities, access to instances and deletion manager (\<^verbatim>\<open>backend/local-engine-go/internal\<close>).

  \<^bold>\<open>The program.\<close>  A recipe is a factory (a base image with its settings) followed by
  transforms (migrations, fixtures).  Resolving it yields identities: length-framed, sorted
  records of fields, hashed with SHA-256 under a domain string.  A state's id is the hash of its
  parent's id and of the fingerprint of the transform that led to it, so equal recipes share
  their states and a lineage document can be verified by whoever receives it.  There are two
  generations of this contract: the first one with untyped fields, and canonical-v1 with authored
  schemas, typed fields, disclosure classes and envelopes that carry the whole subject of a
  fingerprint.  Recipes can be written as aliases: documents name transforms and recipes, a recipe
  may start from another recipe and use transforms of other documents, a catalog joins the
  documents, and expanding a name yields one declaration together with a trace that says which alias
  contributed each part.  The engine keeps states and instances in SQL tables, reserves a managed identity
  for each base, gives access to running instances by secrets it publishes and retires, journals
  the physical targets it assigns, deletes states with their descendants on request, keeps a queue of
  preparation jobs, and evicts states nothing needs when the disk fills up, as its configuration says.

  \<^bold>\<open>Theories and sources, runtime-go.\<close>
  \<^item> \<open>Go_Prelude\<close>, \<open>Go_Text\<close>: what the code uses of Go: results that are an error or a value, byte
    strings, slices, sorting, big-endian integers of 16, 32 and 64 bits as words, UTF-8, hex,
    \<^verbatim>\<open>strings\<close>.  \<open>Sha256\<close>: \<^verbatim>\<open>crypto/sha256\<close>, executable.
  \<^item> \<open>Validation\<close> (\<^verbatim>\<open>validation.go\<close>, \<^verbatim>\<open>doc.go\<close>): error codes and paths, limits, identifiers.
  \<^item> \<open>Canonical_Encoding\<close> (\<^verbatim>\<open>canonical.go\<close>): framed records and digests.
  \<^item> \<open>Canonical_Value\<close> (\<^verbatim>\<open>canonical_value_v1.go\<close>, \<^verbatim>\<open>canonical_value_inspect_v1.go\<close>): constructors, the
    bounded parser, tokens and accessors; \<open>Canonical_Value_Tree\<close> is the abstract tree with its
    encoding, \<open>Canonical_Value_Codec\<close> relates the two, \<open>Canonical_Value_Props\<close> holds the properties.
  \<^item> \<open>Resolved_Identity\<close> (\<^verbatim>\<open>identity.go\<close>, \<^verbatim>\<open>extension_identity.go\<close>, \<^verbatim>\<open>canonical.go\<close>): identities and their
    fingerprints.  The locale \<open>fingerprinting\<close> states what the three kinds of identity share and is
    interpreted for each.
  \<^item> \<open>Declaration_Budget\<close> (\<^verbatim>\<open>declaration_limits.go\<close>), \<open>Declarations\<close> (\<^verbatim>\<open>declaration.go\<close>,
    \<^verbatim>\<open>declaration_document.go\<close>, \<^verbatim>\<open>extension_declaration.go\<close>, \<^verbatim>\<open>diagnostics.go\<close>,
    \<^verbatim>\<open>recipe_declaration.go\<close>), \<open>Declarations_Props\<close>: unresolved recipes and the byte budget that is
    charged without building the JSON text.
  \<^item> \<open>Alias_Document\<close> (\<^verbatim>\<open>composition/validation.go\<close>, \<^verbatim>\<open>errors.go\<close>, \<^verbatim>\<open>document.go\<close>), \<open>Alias_Document_Props\<close>:
    documents of aliases, what the constructor accepts and the wire form; \<open>Alias_Catalog\<close>
    (\<^verbatim>\<open>composition/catalog.go\<close>, \<^verbatim>\<open>expand.go\<close>), \<open>Alias_Catalog_Props\<close>: catalogs and the expansion as the code
    runs it; \<open>Expansion_Trace\<close> (\<^verbatim>\<open>composition/trace.go\<close>), \<open>Alias_Trace_Props\<close>: traces, the grammar the
    decoder checks and that an expansion's trace obeys it.  \<open>Alias_Expansion\<close> shows how the walk along
    the bases ends, \<open>Alias_Expansion_Reference\<close> states the expansion as a list of occurrences with a
    trace and a length of its own, \<open>Alias_Expansion_Props\<close> relates the two and \<open>Composition_Props\<close> holds
    the properties with a worked example.
  \<^item> \<open>Lineage\<close> (\<^verbatim>\<open>provenance.go\<close>, \<^verbatim>\<open>state.go\<close>, \<^verbatim>\<open>lineage.go\<close>), \<open>Lineage_Props\<close>: provenance, state ids,
    \<^verbatim>\<open>Build\<close>, \<^verbatim>\<open>Extend\<close> and the verifying decoders.
  \<^item> \<open>Identity_Schema\<close> (\<^verbatim>\<open>internal/canonicalv1/schema.go\<close>, \<^verbatim>\<open>schemaauthor/schema.go\<close>,
    \<^verbatim>\<open>canonical_schema_v1.go\<close>, \<^verbatim>\<open>identity_field_v1.go\<close>): authored schemas and typed fields with their
    commitments.
  \<^item> \<open>Identity_Builder\<close> (\<^verbatim>\<open>canonical_identity_v1.go\<close>, \<^verbatim>\<open>canonical_builder_v1.go\<close>): identities, their bytes and
    fingerprints, observations and the single-use builders.  \<open>Identity_Builder_Props\<close> shows what a
    commitment and a fingerprint determine, \<open>Identity_Conformance\<close> the invariant of a builder for the
    calls the three builders have in common, and \<open>Identity_Composition\<close> lifts it: its locale
    \<open>schema_builder\<close> is interpreted for the factory, transform and extension builders.
  \<^item> \<open>Fingerprint_Envelope\<close> (\<^verbatim>\<open>fingerprint_envelope_v1.go\<close>, \<^verbatim>\<open>canonical_lineage_v1.go\<close>), \<open>Fingerprint_Props\<close>:
    envelopes of values, identities and derived states, their wire form, the verifying decoders, the
    explanations and lineages of envelopes.

  \<^bold>\<open>Theories and sources, local-engine-go.\<close>
  \<^item> \<open>Engine_Store\<close> (\<^verbatim>\<open>store/store.go\<close>, \<^verbatim>\<open>store/sqlite/store.go\<close>, \<^verbatim>\<open>schema.sql\<close>, \<^verbatim>\<open>registry.go\<close>, \<^verbatim>\<open>id.go\<close>): the
    tables, their statements and their invariant.
  \<^item> \<open>Engine_World\<close>: the state all engine services share, as one record (tables, secret files,
    directories and runtimes that are gone, entropy, clock), and operations on it.  Every outgoing call may
    fail as a schedule of faults says, so a theorem for all worlds is a theorem for every
    combination of failures.  The locale \<open>kept_relation\<close> proves once that a relation between the
    worlds before and after is kept by sequencing, branching and error handling, and \<open>op_relation\<close> extends it
    to the calls of this world; it is interpreted for
    reading only, for the access table, for the secrets and for the journal.
  \<^item> \<open>Managed_Identity\<close> (\<^verbatim>\<open>managedidentity/identity.go\<close>, \<^verbatim>\<open>runtime.go\<close>), \<open>Managed_Service\<close>
    (\<^verbatim>\<open>managedidentity/service.go\<close>, \<^verbatim>\<open>selection.go\<close>, \<^verbatim>\<open>store/sqlite/lineage.go\<close>), \<open>Managed_Service_Props\<close>: the
    identity reserved for a base.
  \<^item> \<open>Instance_Access\<close> (\<^verbatim>\<open>instanceaccess/service.go\<close>, \<^verbatim>\<open>secrets.go\<close>, \<^verbatim>\<open>secrets_unix.go\<close>, \<^verbatim>\<open>fence.go\<close>),
    \<open>Instance_Access_Props\<close>: activation, use and retirement of access to an instance.
  \<^item> \<open>Runtime_Operations\<close> (\<^verbatim>\<open>instanceaccess/operations.go\<close>), \<open>Runtime_Operations_Props\<close>: the journal of
    physical targets, seals of captured states and generations of a base.
  \<^item> \<open>Deletion\<close> (\<^verbatim>\<open>deletion/manager.go\<close>), \<open>Deletion_Tree\<close>, \<open>Deletion_Props\<close>, \<open>Deletion_Liveness\<close>: the manager,
    with and without the access service.

  \<^item> \<open>Go_Time\<close>, \<open>Go_Float\<close>, \<open>Go_Path\<close>: RFC 3339 times and durations, floating point numbers with their
    rounding (and that rounding is monotone), paths and a file system as a tree.
  \<^item> \<open>Engine_Config\<close> (\<^verbatim>\<open>config/config.go\<close>), \<open>Engine_Config_Props\<close>: overrides on top of defaults, addressed by
    paths, their validation and their file.
  \<^item> \<open>State_Layout\<close> (\<^verbatim>\<open>statefs/layout.go\<close>, parts of \<^verbatim>\<open>prepare/execution.go\<close> and \<^verbatim>\<open>prepare/capacity.go\<close>): where
    states are kept and how their size is measured.
  \<^item> \<open>Prepare_Queue\<close> (\<^verbatim>\<open>prepare/queue/*.go\<close>, \<^verbatim>\<open>schema.sql\<close>, \<^verbatim>\<open>prepare/types.go\<close>): jobs, tasks and events with every
    statement on them and the invariant of the tables; \<open>Prepare_World\<close>: the state the preparation service
    adds to \<open>world\<close>, with the locale \<open>service_relation\<close> for relations that its operations keep.
  \<^item> \<open>Cache_Capacity\<close> (\<^verbatim>\<open>prepare/capacity.go\<close>, \<^verbatim>\<open>cache_status.go\<close>, \<^verbatim>\<open>filesystem_stats.go\<close>): settings,
    thresholds, candidates, the eviction under its lock and the check around every step of a job;
    \<open>Cache_Capacity_Props\<close> shows what an eviction may remove under arbitrary failures, \<open>Cache_Eviction\<close>
    what it does when nothing fails.
  \<^item> \<open>Psql_Args\<close> (\<^verbatim>\<open>prepare/psql.go\<close>, \<^verbatim>\<open>psql_steps.go\<close>), \<open>Psql_Args_Props\<close>: the arguments of a psql preparation,
    how they are checked and split into steps; \<open>State_Hash\<close> (\<^verbatim>\<open>prepare/hash.go\<close>): the hash of named values;
    \<open>Psql_Content\<close> (\<^verbatim>\<open>prepare/psql_content.go\<close>), \<open>Psql_Content_Props\<close>: the digest of the inputs with the files they
    include.
  \<^item> \<open>Liquibase_Args\<close>, \<open>Liquibase_Output\<close> (\<^verbatim>\<open>prepare/liquibase.go\<close>, parts of \<^verbatim>\<open>liquibase_host.go\<close> and
    \<^verbatim>\<open>liquibase_paths.go\<close>), \<open>Liquibase_Args_Props\<close>, \<open>Liquibase_Output_Props\<close>: the arguments of a Liquibase preparation with
    its mounts, and what \<^verbatim>\<open>updateSQL\<close> prints.
  \<^item> \<open>Prepare_Plan\<close> (\<^verbatim>\<open>prepare/manager.go\<close>, \<^verbatim>\<open>managed_request.go\<close>), \<open>Prepare_Plan_Props\<close>: requests, hashes and the
    plans made for them; \<open>Prepare_Tasks\<close> (\<^verbatim>\<open>prepare/manager.go\<close>), \<open>Prepare_Tasks_Props\<close>: plans as they are stored and
    taken up again.
  \<^item> \<open>Prepare_Events\<close>, \<open>Prepare_Jobs\<close> (\<^verbatim>\<open>prepare/manager.go\<close>, \<^verbatim>\<open>managed_request.go\<close>): events, the status of tasks, the ways a job
    ends, retention, and the run of a job; \<open>Prepare_Service\<close> (\<^verbatim>\<open>prepare/manager.go\<close>, \<^verbatim>\<open>cache_explain.go\<close>, parts of
    \<^verbatim>\<open>managed_execution.go\<close>): the requests the service answers.  The locales \<open>log_relation\<close> and \<open>job_relation\<close> of
    \<open>Prepare_Relation\<close> prove once that every operation keeps a relation the statements on the queue keep;
    \<open>queue_relation\<close> of \<open>Prepare_History\<close> reduces that to relations between tables and adds the submission of jobs, and
    \<open>Prepare_History_Props\<close> interprets it for the history of a job, for the invariant of the tables and for credentials.
    \<open>Prepare_Outcome\<close> follows a run through all its ways to its end, \<open>Prepare_Service_Props\<close> shows retention, recovery and the
    explanation of the cache.  The executor, the runtime, the image resolver and the time of a cancellation are components of
    the record \<open>prepareEnv\<close>, and \<open>env_keeps\<close> says what is asked of them.

  \<^bold>\<open>What is shown.\<close>  The parser of canonical values accepts exactly the encodings of well-formed
  trees within the limits; constructors and accessors refine those trees; tokens, commitments,
  fingerprints and state ids determine what they are computed from, up to an explicit SHA-256 collision
  between two named inputs, never by assuming that there is none.  The streaming budget
  equals the length of the JSON text.  Building and extending lineages compose, survive the wire
  format, and a decoder accepts nothing that was not derived.  A builder returns only identities
  that conform to their schema, whatever the order of the calls and whatever is observed; the
  decoder of envelopes accepts exactly what the constructors build; a safe explanation does not depend
  on protected content but for the digest of the whole identity, which it keeps.  A catalog holds exactly the aliases of its sources; expanding a name gives exactly
  the reference expansion, or an error that is characterised (a cycle is reported exactly when the
  bases run into one), its trace, of a recipe or of a transform, survives the decoded wire structure, a document the wire format, and errors
  and documents stay within their byte limits.  A reserved identity never changes; an access that entered retirement
  is never granted again; credentials are applied before an access is published; an assigned target
  is never reassigned and the seal of a published state never replaced.  A recursive deletion removes
  exactly the descendants, is refused exactly when a descendant is in use, changes nothing when refused,
  leaves consistent tables wherever it is interrupted, and returns when nothing fails and there is no access service.  An eviction
  removes only idle states whatever fails, and when nothing does those whose rows record the oldest use and no
  more than needed; a free lock is taken at once and an abandoned one taken over; a setting that is no object reads back as it
  was set, after a restart in the form JSON gives it; and whole ranges of watermarks that are accepted make every check fail.  The steps of a psql request read exactly the inputs
  that were checked, up to an exception that is characterised; the expansion of its files always ends and its digest
  depends on the locked files only.  The command put into the arguments of Liquibase replaces the word that was checked;
  the changesets it prints are read back, after any preamble, if their paths and ids keep the separator out.  The state a psql plan leads to determines its base and the contents it
  executes, up to a collision, and a stored plan is accepted when it is taken up again.  Every run of a job ends with the
  job succeeded, failed or gone when the engine's own calls do not fail.  No sequence of requests, runs and restarts changes what a job
  was submitted with, stores credentials, or makes a client miss an event or read one twice; recovery restores the submitted
  request, checked against the files it finds, with the image and base bound at submission; retention deletes completed jobs of a
  signature only, those behind the limit in the order of the text of their times; explaining the cache for a psql request in an engine
  without managed identity writes nothing.

  \<^bold>\<open>Bounds and fuel.\<close>  Go's \<^verbatim>\<open>int\<close> is modelled by \<open>nat\<close> for lengths, which the code keeps under four
  megabytes; integers that come from the wire are words.  The walk over the state tree in
  \<^verbatim>\<open>buildStateNode\<close> has a depth bound, since nothing in the schema keeps parent links acyclic; on an
  acyclic table the number of states is enough, which \<open>Deletion_Liveness\<close> proves.  The loop that waits
  for the eviction lock has a number of rounds: another process can hold the lock for ever; one
  that is gone loses it within 6002 rounds of 50 milliseconds, which \<open>Cache_Eviction\<close> proves.  The expansion of includes has fuel for
  their depth, one more than there are files, which \<open>Psql_Content_Props\<close> proves to be enough.

  \<^bold>\<open>Not modelled.\<close>  The JSON text layer (models start from the size of a document and the decoded wire
  structs), the documents of extension identities, the artifact resolver,
  the execution of steps in containers, what Liquibase does with the disk when it plans and the locks of their contents, listeners and heartbeat of jobs, the manager of runs, the drivers of containers and file systems, and the command
  line client.  Services hold a mutex or an instance lock while they run, so an operation runs as
  a whole; interleaving is the order of operations.  The run of a preparation job is one operation as well, in which a cancellation
  can arrive at every step: \<open>pe_cancelled\<close> says when; other requests come before or after it.
\<close>

end
